(* ===== verification/Gate_Prelude.thy ===== *)
theory Gate_Prelude
  imports Complex_Main "HOL-Library.Char_ord" "HOL-Library.List_Lexorder"
    "HOL-Library.Product_Lexorder"
begin

text \<open>
  Vocabulary shared by the components of the gateway model: the JavaScript values that the
  validators inspect, the fixed-shape checks the code makes on them, and the facts on numbers and texts that the
  component proofs reuse.
\<close>

section \<open>Collections of facts\<close>

named_theorems gate_simps \<open>unfolding rules for the small helper operations of the gateway\<close>

section \<open>JavaScript values\<close>

text \<open>
  A value as \<open>JSON.parse\<close> or a caller hands it to the code. Finite numbers are the exact
  rationals (every IEEE double is one); the non-finite ones have constructors of their own, so
  that \<open>Number.isFinite\<close> and \<open>Number.isSafeInteger\<close> are decidable tests. An object keeps its
  own properties in insertion order. A string is the list of its code units.
\<close>

datatype js =
    JUndef
  | JNull
  | JBool bool
  | JNum rat
  | JNaN
  | JInf bool
  | JStr string
  | JArr "js list"
  | JObj "(string \<times> js) list"

type_synonym js_fields = "(string \<times> js) list"

text \<open>Property access \<open>v.k\<close> and \<open>v?.k\<close>: a missing property reads as \<open>undefined\<close>.\<close>

fun fget :: "js_fields \<Rightarrow> string \<Rightarrow> js" where
  "fget [] k = JUndef"
| "fget ((k', v) # kvs) k = (if k' = k then v else fget kvs k)"

fun jget :: "js \<Rightarrow> string \<Rightarrow> js" where
  "jget (JObj kvs) k = fget kvs k"
| "jget _ k = JUndef"

fun jkeys :: "js \<Rightarrow> string list" where
  "jkeys (JObj kvs) = map fst kvs"
| "jkeys _ = []"

definition has_own :: "js \<Rightarrow> string \<Rightarrow> bool" where
  "has_own v k \<longleftrightarrow> k \<in> set (jkeys v)"

fun is_obj :: "js \<Rightarrow> bool" where
  "is_obj (JObj _) = True"
| "is_obj _ = False"

fun is_arr :: "js \<Rightarrow> bool" where
  "is_arr (JArr _) = True"
| "is_arr _ = False"

fun is_str :: "js \<Rightarrow> bool" where
  "is_str (JStr _) = True"
| "is_str _ = False"

fun is_bool :: "js \<Rightarrow> bool" where
  "is_bool (JBool _) = True"
| "is_bool _ = False"

text \<open>\<open>x ?? d\<close> and \<open>x == null\<close>.\<close>

fun nullish :: "js \<Rightarrow> bool" where
  "nullish JUndef = True"
| "nullish JNull = True"
| "nullish _ = False"

definition or_else :: "js \<Rightarrow> js \<Rightarrow> js" where
  "or_else v d = (if nullish v then d else v)"

text \<open>JavaScript truthiness.\<close>

fun truthy :: "js \<Rightarrow> bool" where
  "truthy JUndef = False"
| "truthy JNull = False"
| "truthy JNaN = False"
| "truthy (JBool b) = b"
| "truthy (JNum r) = (r \<noteq> 0)"
| "truthy (JStr s) = (s \<noteq> [])"
| "truthy _ = True"

text \<open>\<open>Number.isSafeInteger\<close>: an integer of magnitude at most \<open>2^53 - 1\<close>.\<close>

definition max_safe :: int where
  "max_safe = 9007199254740991"

fun safe_int :: "js \<Rightarrow> int option" where
  "safe_int (JNum r) = (if of_int \<lfloor>r\<rfloor> = r \<and> \<bar>r\<bar> \<le> of_int max_safe then Some \<lfloor>r\<rfloor> else None)"
| "safe_int _ = None"

definition is_safe_int :: "js \<Rightarrow> bool" where
  "is_safe_int v \<longleftrightarrow> safe_int v \<noteq> None"

fun finite_num :: "js \<Rightarrow> rat option" where
  "finite_num (JNum r) = Some r"
| "finite_num _ = None"

definition jint :: "int \<Rightarrow> js" where
  "jint n = JNum (of_int n)"

section \<open>Closed input shapes\<close>

text \<open>
  \<open>Object.keys(v).sort().join(',')\<close>, which the control operations compare with a literal.
  (An array or a string has index keys; the list here is empty, and neither equals a literal.)
\<close>

fun join_with :: "string \<Rightarrow> string list \<Rightarrow> string" where
  "join_with sep [] = []"
| "join_with sep [x] = x"
| "join_with sep (x # y # zs) = x @ sep @ join_with sep (y # zs)"

definition joined_keys :: "js \<Rightarrow> string" where
  "joined_keys v = join_with '','' (sort (jkeys v))"

text \<open>The string a regular expression is tested on; \<open>str\<close> is \<open>String\<close> on the other values.\<close>

fun js_text :: "(js \<Rightarrow> string) \<Rightarrow> js \<Rightarrow> string" where
  "js_text str (JStr s) = s"
| "js_text str JUndef = ''undefined''"
| "js_text str JNull = ''null''"
| "js_text str (JBool b) = (if b then ''true'' else ''false'')"
| "js_text str v = str v"

text \<open>Character classes of the regular expressions.\<close>

definition lower_hex :: "char \<Rightarrow> bool" where
  "lower_hex c \<longleftrightarrow> c \<in> set ''0123456789abcdef''"

definition any_hex :: "char \<Rightarrow> bool" where
  "any_hex c \<longleftrightarrow> c \<in> set ''0123456789abcdefABCDEF''"

definition word_char :: "char \<Rightarrow> bool" where
  "word_char c \<longleftrightarrow>
     c \<in> set ''abcdefghijklmnopqrstuvwxyzABCDEFGHIJKLMNOPQRSTUVWXYZ0123456789_''"

definition word_or_hyphen :: "char \<Rightarrow> bool" where
  "word_or_hyphen c \<longleftrightarrow> word_char c \<or> c = CHR ''-''"

text \<open>\<open>/^[\w-]{1,64}$/\<close> and \<open>/^[a-f0-9]{64}$/\<close>.\<close>

definition id_text :: "string \<Rightarrow> bool" where
  "id_text s \<longleftrightarrow> 1 \<le> length s \<and> length s \<le> 64 \<and> list_all word_or_hyphen s"

definition digest_text :: "string \<Rightarrow> bool" where
  "digest_text s \<longleftrightarrow> length s = 64 \<and> list_all lower_hex s"

text \<open>The UUID expression \<open>/^[a-f0-9]{8}-([a-f0-9]{4}-){3}[a-f0-9]{12}$/i\<close>.\<close>

definition uuid_text :: "string \<Rightarrow> bool" where
  "uuid_text s \<longleftrightarrow> length s = 36 \<and>
     list_all (\<lambda>i. if i \<in> {8, 13, 18, 23} then s ! i = CHR ''-'' else any_hex (s ! i)) [0..<36]"

definition lower_char :: "char \<Rightarrow> char" where
  "lower_char c = (let n = (of_char c :: nat) in if 65 \<le> n \<and> n \<le> 90 then char_of (n + 32) else c)"

lemma safe_int_jint [simp]: "safe_int (jint n) = (if \<bar>n\<bar> \<le> max_safe then Some n else None)"
proof -
  have "(\<bar>rat_of_int n\<bar> \<le> rat_of_int max_safe) = (\<bar>n\<bar> \<le> max_safe)"
    by (metis of_int_abs of_int_le_iff)
  then show ?thesis by (simp add: jint_def)
qed

lemma safe_int_SomeD: "safe_int v = Some n \<Longrightarrow> v = jint n \<and> \<bar>n\<bar> \<le> max_safe"
proof (cases v)
  case (JNum r)
  assume "safe_int v = Some n"
  then have r: "of_int n = r" "\<bar>r\<bar> \<le> of_int max_safe" using JNum by (auto split: if_splits)
  then have "rat_of_int \<bar>n\<bar> \<le> rat_of_int max_safe" by simp
  then have "\<bar>n\<bar> \<le> max_safe" by (simp only: of_int_le_iff)
  then show ?thesis using r JNum by (simp add: jint_def)
qed simp_all

text \<open>The first text begins with the second.\<close>

definition begins_with :: "string \<Rightarrow> string \<Rightarrow> bool" where
  "begins_with t s \<longleftrightarrow> take (length s) t = s"

lemma begins_with_append [simp]: "begins_with (s @ u) s"
  by (simp add: begins_with_def)

lemma begins_with_extend: "begins_with t s \<Longrightarrow> begins_with (t @ u) s"
  by (auto simp: begins_with_def) (metis append.right_neutral diff_is_0_eq' length_take min.cobounded1 min.commute take0 take_append)

end
