(* ===== verification/Job_Priority.thy ===== *)
theory Job_Priority
  imports Gate_Prelude "HOL-Library.Multiset"
begin

text \<open>
  \<open>ds4-gateway/job-priority.mjs\<close>: the explicit priority classes, the choice of the next request
  of a queue and the order in which a queue is visited. A queue is a list of references; what
  the code reads of the request behind one (conversation key, priority class, cancellation) is
  given by a view function, so that the same definitions serve the queues of the gateway state,
  the preview candidates of \<open>canStartNow\<close> and plain lists of requests.
\<close>

section \<open>Priority classes\<close>

datatype prio = IdleOnly | NormalPrio | HighPrio

fun prio_name :: "prio \<Rightarrow> string" where
  "prio_name IdleOnly = ''idle-only''"
| "prio_name NormalPrio = ''normal''"
| "prio_name HighPrio = ''high''"

fun priority_rank :: "prio \<Rightarrow> nat" where
  "priority_rank IdleOnly = 0"
| "priority_rank NormalPrio = 1"
| "priority_rank HighPrio = 2"

datatype priority_error = BadPriority

fun request_priority :: "js \<Rightarrow> priority_error + prio" where
  "request_priority JUndef = Inr NormalPrio"
| "request_priority (JStr s) =
     (if s = ''idle-only'' then Inr IdleOnly
      else if s = ''normal'' then Inr NormalPrio
      else if s = ''high'' then Inr HighPrio
      else Inl BadPriority)"
| "request_priority _ = Inl BadPriority"

lemma request_priority_name [simp]: "request_priority (JStr (prio_name p)) = Inr p"
  by (cases p) simp_all

lemma request_priority_accepts_iff:
  "request_priority v = Inr p \<longleftrightarrow> v = JStr (prio_name p) \<or> (v = JUndef \<and> p = NormalPrio)"
  by (cases v; cases p) auto

section \<open>Requests as the queues see them\<close>

record qjob =
  qkey :: "string option"
  qprio :: prio
  qcancelled :: bool
  qseq :: nat

abbreviation qrank :: "('x \<Rightarrow> 'a qjob_scheme) \<Rightarrow> 'x \<Rightarrow> nat" where
  "qrank v x \<equiv> priority_rank (qprio (v x))"

fun better :: "nat \<Rightarrow> nat \<Rightarrow> (nat \<times> nat) option \<Rightarrow> (nat \<times> nat) option" where
  "better i r None = Some (i, r)"
| "better i r (Some (b, rb)) = (if r > rb then Some (i, r) else Some (b, rb))"

text \<open>
  The loop of \<open>priorityIndex\<close>: \<open>seen\<close> is the set of conversation keys met, \<open>best\<close> the best
  index so far with its rank.
\<close>

fun priority_scan ::
  "('x \<Rightarrow> 'a qjob_scheme) \<Rightarrow> 'x list \<Rightarrow> nat \<Rightarrow> string list \<Rightarrow> (nat \<times> nat) option \<Rightarrow> (nat \<times> nat) option"
where
  "priority_scan v [] i seen best = best"
| "priority_scan v (x # xs) i seen best =
     (if qcancelled (v x) then priority_scan v xs (Suc i) seen best
      else case qkey (v x) of
        None \<Rightarrow> priority_scan v xs (Suc i) seen (better i (qrank v x) best)
      | Some k \<Rightarrow>
          if k \<in> set seen then priority_scan v xs (Suc i) seen best
          else priority_scan v xs (Suc i) (k # seen) (better i (qrank v x) best))"

definition priority_index :: "('x \<Rightarrow> 'a qjob_scheme) \<Rightarrow> 'x list \<Rightarrow> nat option" where
  "priority_index v xs = map_option fst (priority_scan v xs 0 [] None)"

text \<open>
  What the loop computes: a request is a head when it is waiting (not cancelled) and no earlier
  waiting request has its conversation key.
\<close>

definition conv_head :: "('x \<Rightarrow> 'a qjob_scheme) \<Rightarrow> 'x list \<Rightarrow> nat \<Rightarrow> bool" where
  "conv_head v xs i \<longleftrightarrow> i < length xs \<and> \<not> qcancelled (v (xs ! i)) \<and>
     (\<forall>j<i. \<not> qcancelled (v (xs ! j)) \<longrightarrow> qkey (v (xs ! j)) \<noteq> None \<longrightarrow>
        qkey (v (xs ! j)) \<noteq> qkey (v (xs ! i)))"

definition best_head :: "('x \<Rightarrow> 'a qjob_scheme) \<Rightarrow> 'x list \<Rightarrow> nat \<Rightarrow> bool" where
  "best_head v xs i \<longleftrightarrow> conv_head v xs i \<and>
     (\<forall>j. conv_head v xs j \<longrightarrow>
        qrank v (xs ! j) < qrank v (xs ! i) \<or> (qrank v (xs ! j) = qrank v (xs ! i) \<and> i \<le> j))"

definition waiting_keys :: "('x \<Rightarrow> 'a qjob_scheme) \<Rightarrow> 'x list \<Rightarrow> string set" where
  "waiting_keys v xs = {k. \<exists>x \<in> set xs. \<not> qcancelled (v x) \<and> qkey (v x) = Some k}"

definition scan_ok :: "('x \<Rightarrow> 'a qjob_scheme) \<Rightarrow> 'x list \<Rightarrow> (nat \<times> nat) option \<Rightarrow> bool" where
  "scan_ok v xs best = (case best of
      None \<Rightarrow> \<forall>i. \<not> conv_head v xs i
    | Some (i, r) \<Rightarrow> best_head v xs i \<and> r = qrank v (xs ! i))"

lemma conv_head_length: "conv_head v xs i \<Longrightarrow> i < length xs"
  by (simp add: conv_head_def)

lemma conv_head_snoc_old: "i < length xs \<Longrightarrow> conv_head v (xs @ [x]) i = conv_head v xs i"
  by (auto simp: conv_head_def nth_append)

lemma conv_head_snoc_new:
  "conv_head v (xs @ [x]) (length xs) \<longleftrightarrow>
     \<not> qcancelled (v x) \<and> (\<forall>k. qkey (v x) = Some k \<longrightarrow> k \<notin> waiting_keys v xs)"
proof
  assume h: "conv_head v (xs @ [x]) (length xs)"
  show "\<not> qcancelled (v x) \<and> (\<forall>k. qkey (v x) = Some k \<longrightarrow> k \<notin> waiting_keys v xs)"
  proof (intro conjI allI impI notI)
    show "qcancelled (v x) \<Longrightarrow> False"
      using h by (simp add: conv_head_def)
  next
    fix k assume k: "qkey (v x) = Some k" and "k \<in> waiting_keys v xs"
    then obtain y where "y \<in> set xs" "\<not> qcancelled (v y)" "qkey (v y) = Some k"
      by (auto simp: waiting_keys_def)
    moreover from this obtain j where "j < length xs" "xs ! j = y"
      by (auto simp: in_set_conv_nth)
    ultimately show False
      using h k by (auto simp: conv_head_def nth_append)
  qed
next
  assume "\<not> qcancelled (v x) \<and> (\<forall>k. qkey (v x) = Some k \<longrightarrow> k \<notin> waiting_keys v xs)"
  then show "conv_head v (xs @ [x]) (length xs)"
    by (fastforce simp: conv_head_def nth_append waiting_keys_def)
qed

lemma waiting_keys_snoc:
  "waiting_keys v (xs @ [x]) =
     (if qcancelled (v x) then waiting_keys v xs
      else case qkey (v x) of None \<Rightarrow> waiting_keys v xs | Some k \<Rightarrow> insert k (waiting_keys v xs))"
  by (auto simp: waiting_keys_def split: option.splits)

lemma scan_ok_skip:
  assumes "scan_ok v xs best" and "\<not> conv_head v (xs @ [x]) (length xs)"
  shows "scan_ok v (xs @ [x]) best"
proof -
  have same: "conv_head v (xs @ [x]) i = conv_head v xs i" for i
    using assms(2) conv_head_snoc_old [of i xs v x] conv_head_length [of v xs i]
      conv_head_length [of v "xs @ [x]" i]
    by (cases "i < length xs"; cases "i = length xs") auto
  show ?thesis
    using assms(1) unfolding scan_ok_def best_head_def
    by (auto simp: same nth_append conv_head_length split: option.splits)
qed

lemma scan_ok_take:
  assumes "scan_ok v xs best" and "conv_head v (xs @ [x]) (length xs)"
  shows "scan_ok v (xs @ [x]) (better (length xs) (qrank v x) best)"
proof -
  have cases_j: "conv_head v (xs @ [x]) j \<longleftrightarrow> conv_head v xs j \<or> j = length xs" for j
    using assms(2) conv_head_snoc_old [of j xs v x] conv_head_length [of v xs j]
      conv_head_length [of v "xs @ [x]" j]
    by (cases "j < length xs"; cases "j = length xs") auto
  show ?thesis
  proof (cases best)
    case None
    then show ?thesis
      using assms by (auto simp: scan_ok_def best_head_def cases_j)
  next
    case (Some p)
    obtain i r where p: "p = (i, r)" by (cases p)
    have i: "i < length xs"
      using assms(1) conv_head_length by (auto simp: Some p scan_ok_def best_head_def)
    have old: "(xs @ [x]) ! j = xs ! j" if "conv_head v xs j" for j
      using conv_head_length [OF that] by (simp add: nth_append)
    show ?thesis
      using assms(1) i old
      by (fastforce simp: Some p scan_ok_def best_head_def cases_j nth_append
          dest: conv_head_length)
  qed
qed

lemma priority_scan_ok:
  assumes "scan_ok v ys best" and "set seen = waiting_keys v ys"
  shows "scan_ok v (ys @ xs) (priority_scan v xs (length ys) seen best)"
  using assms
proof (induction xs arbitrary: ys seen best)
  case Nil
  then show ?case by simp
next
  case (Cons x xs)
  note IH = Cons.IH [of "ys @ [x]", simplified]
  note new = conv_head_snoc_new [of v ys x]
  note keys = waiting_keys_snoc [of v ys x]
  show ?case
  proof (cases "qcancelled (v x)")
    case True
    then show ?thesis
      using IH [of best seen] scan_ok_skip [OF Cons.prems(1), of x] new keys Cons.prems by simp
  next
    case False
    show ?thesis
    proof (cases "qkey (v x)")
      case None
      then show ?thesis
        using False IH [of "better (length ys) (qrank v x) best" seen]
          scan_ok_take [OF Cons.prems(1), of x] new keys Cons.prems by simp
    next
      case (Some k)
      show ?thesis
      proof (cases "k \<in> set seen")
        case True
        then show ?thesis
          using False Some IH [of best seen] scan_ok_skip [OF Cons.prems(1), of x] new keys
            Cons.prems by (simp add: insert_absorb)
      next
        case False
        then show ?thesis
          using \<open>\<not> qcancelled (v x)\<close> Some
            IH [of "better (length ys) (qrank v x) best" "k # seen"]
            scan_ok_take [OF Cons.prems(1), of x] new keys Cons.prems by simp
      qed
    qed
  qed
qed

lemma priority_index_ok:
  "scan_ok v xs (map_option (\<lambda>i. (i, qrank v (xs ! i))) (priority_index v xs))"
proof -
  have "scan_ok v xs (priority_scan v xs 0 [] None)"
    using priority_scan_ok [of v "[]" None "[]" xs]
    by (simp add: scan_ok_def conv_head_def waiting_keys_def)
  then show ?thesis
    by (auto simp: priority_index_def scan_ok_def split: option.splits)
qed

lemma priority_index_Some: "priority_index v xs = Some i \<Longrightarrow> best_head v xs i"
  using priority_index_ok [of v xs] by (simp add: scan_ok_def)

lemma priority_index_None: "priority_index v xs = None \<Longrightarrow> \<not> conv_head v xs i"
  using priority_index_ok [of v xs] by (simp add: scan_ok_def)

lemma best_head_unique: "best_head v xs i \<Longrightarrow> best_head v xs j \<Longrightarrow> i = j"
  unfolding best_head_def by (elim conjE) (metis le_antisym less_irrefl less_not_sym)

lemma priority_index_iff: "priority_index v xs = Some i \<longleftrightarrow> best_head v xs i"
  by (metis best_head_def best_head_unique not_Some_eq priority_index_None priority_index_Some)

lemma priority_index_bound: "priority_index v xs = Some i \<Longrightarrow> i < length xs"
  by (auto dest: priority_index_Some simp: best_head_def conv_head_def)

lemma priority_index_live: "priority_index v xs = Some i \<Longrightarrow> \<not> qcancelled (v (xs ! i))"
  by (auto dest: priority_index_Some simp: best_head_def conv_head_def)

lemma priority_index_none_iff:
  "priority_index v xs = None \<longleftrightarrow> (\<forall>x \<in> set xs. qcancelled (v x))"
proof
  assume none: "priority_index v xs = None"
  show "\<forall>x \<in> set xs. qcancelled (v x)"
  proof (rule ccontr)
    assume "\<not> (\<forall>x \<in> set xs. qcancelled (v x))"
    then have ex: "\<exists>i. i < length xs \<and> \<not> qcancelled (v (xs ! i))"
      by (auto simp: in_set_conv_nth)
    define i where "i = (LEAST i. i < length xs \<and> \<not> qcancelled (v (xs ! i)))"
    have i: "i < length xs" "\<not> qcancelled (v (xs ! i))"
      using LeastI_ex [OF ex] by (auto simp: i_def)
    have "qcancelled (v (xs ! j))" if "j < i" for j
      using not_less_Least [of j "\<lambda>i. i < length xs \<and> \<not> qcancelled (v (xs ! i))"] that i(1)
      by (auto simp: i_def)
    then have "conv_head v xs i"
      using i by (auto simp: conv_head_def)
    then show False using none priority_index_None by blast
  qed
next
  assume all: "\<forall>x \<in> set xs. qcancelled (v x)"
  show "priority_index v xs = None"
  proof (cases "priority_index v xs")
    case (Some i)
    then show ?thesis
      using priority_index_live [OF Some] priority_index_bound [OF Some] all by auto
  qed simp
qed

section \<open>Visiting a queue\<close>

text \<open>The list without its \<open>i\<close>-th element: \<open>splice(i,1)\<close>.\<close>

definition splice_at :: "nat \<Rightarrow> 'x list \<Rightarrow> 'x list" where
  "splice_at i xs = take i xs @ drop (Suc i) xs"

lemma length_splice_at: "i < length xs \<Longrightarrow> length (splice_at i xs) = length xs - 1"
  by (simp add: splice_at_def)

lemma splice_at_split: "i < length xs \<Longrightarrow> xs = take i xs @ xs ! i # drop (Suc i) xs"
  by (simp add: id_take_nth_drop)

lemma mset_splice_at: "i < length xs \<Longrightarrow> add_mset (xs ! i) (mset (splice_at i xs)) = mset xs"
proof -
  assume "i < length xs"
  from splice_at_split [OF this]
  have "mset xs = mset (take i xs @ xs ! i # drop (Suc i) xs)" by (rule arg_cong)
  then show ?thesis by (simp add: splice_at_def)
qed

lemma set_splice_at: "set (splice_at i xs) \<subseteq> set xs"
  by (auto simp: splice_at_def dest: in_set_takeD in_set_dropD)

function priority_drain :: "('x \<Rightarrow> 'a qjob_scheme) \<Rightarrow> 'x list \<Rightarrow> 'x list" where
  "priority_drain v xs = (case priority_index v xs of
      None \<Rightarrow> []
    | Some i \<Rightarrow> xs ! i # priority_drain v (splice_at i xs))"
  by pat_completeness auto
termination
  by (relation "measure (\<lambda>(v, xs). length xs)")
    (auto dest!: priority_index_bound simp: length_splice_at)

declare priority_drain.simps [simp del]

definition priority_order :: "('x \<Rightarrow> 'a qjob_scheme) \<Rightarrow> 'x list \<Rightarrow> 'x list" where
  "priority_order v xs = priority_drain v (filter (\<lambda>x. \<not> qcancelled (v x)) xs)"

text \<open>
  A queue that is emptied by repeatedly choosing an element: what the choice promises, and what
  then holds of the order in which the elements leave.
\<close>

locale selection =
  fixes pick :: "'x list \<Rightarrow> nat option"
    and drain :: "'x list \<Rightarrow> 'x list"
    and dead :: "'x \<Rightarrow> bool"
  assumes pick_bound: "pick xs = Some i \<Longrightarrow> i < length xs"
    and pick_none: "pick xs = None \<Longrightarrow> x \<in> set xs \<Longrightarrow> dead x"
    and drain_step: "drain xs = (case pick xs of None \<Rightarrow> [] | Some i \<Rightarrow> xs ! i # drain (splice_at i xs))"
begin

lemma drain_mset:
  assumes "\<forall>x \<in> set xs. \<not> dead x"
  shows "mset (drain xs) = mset xs"
  using assms
proof (induction xs rule: length_induct)
  case (1 xs)
  show ?case
  proof (cases "pick xs")
    case None
    then have "xs = []" using pick_none "1.prems" by (cases xs) auto
    then show ?thesis using None drain_step [of "[]"] by simp
  next
    case (Some i)
    note i = pick_bound [OF Some]
    have "mset (drain (splice_at i xs)) = mset (splice_at i xs)"
      by (rule "1.IH" [rule_format])
        (use "1.prems" i set_splice_at [of i xs] in \<open>auto simp: length_splice_at\<close>)
    then show ?thesis
      using Some mset_splice_at [OF i] by (simp add: drain_step [of xs])
  qed
qed

end

text \<open>A choice that never takes an element before an earlier one of the same class.\<close>

locale class_selection = selection pick drain dead
  for pick :: "'x list \<Rightarrow> nat option" and drain dead +
  fixes cls :: "'x \<Rightarrow> 'c option"
  assumes pick_first: "pick xs = Some i \<Longrightarrow> j < i \<Longrightarrow> \<not> dead (xs ! j) \<Longrightarrow> cls (xs ! j) = Some c \<Longrightarrow>
    cls (xs ! i) \<noteq> Some c"
begin

lemma drain_keeps_class_order:
  assumes "\<forall>x \<in> set xs. \<not> dead x"
  shows "filter (\<lambda>x. cls x = Some c) (drain xs) = filter (\<lambda>x. cls x = Some c) xs"
  using assms
proof (induction xs rule: length_induct)
  case (1 xs)
  show ?case
  proof (cases "pick xs")
    case None
    then have "xs = []" using pick_none "1.prems" by (cases xs) auto
    then show ?thesis using None drain_step [of "[]"] by simp
  next
    case (Some i)
    note i = pick_bound [OF Some]
    let ?f = "filter (\<lambda>x. cls x = Some c)"
    have rest: "?f (drain (splice_at i xs)) = ?f (splice_at i xs)"
      by (rule "1.IH" [rule_format])
        (use "1.prems" i set_splice_at [of i xs] in \<open>auto simp: length_splice_at\<close>)
    have early: "?f (take i xs) = []" if "cls (xs ! i) = Some c"
    proof (rule ccontr)
      assume "?f (take i xs) \<noteq> []"
      then obtain j where j: "j < i" "cls (xs ! j) = Some c"
        using i by (auto simp: filter_empty_conv in_set_conv_nth)
      then have "\<not> dead (xs ! j)" using "1.prems" i by simp
      then show False using pick_first [OF Some j(1) _ j(2)] that by simp
    qed
    have "?f xs = ?f (take i xs) @ ?f (xs ! i # drop (Suc i) xs)"
      by (metis filter_append splice_at_split [OF i])
    then show ?thesis
      using Some rest early by (auto simp: drain_step [of xs] splice_at_def)
  qed
qed

end

interpretation prio_selection: class_selection
  "priority_index v" "priority_drain v" "\<lambda>x. qcancelled (v x)" "\<lambda>x. qkey (v x)"
  for v :: "'x \<Rightarrow> 'a qjob_scheme"
proof unfold_locales
  fix xs :: "'x list" and i
  show "priority_index v xs = Some i \<Longrightarrow> i < length xs"
    by (rule priority_index_bound)
  show "priority_index v xs = None \<Longrightarrow> x \<in> set xs \<Longrightarrow> qcancelled (v x)" for x
    by (simp add: priority_index_none_iff)
  show "priority_drain v xs = (case priority_index v xs of
      None \<Rightarrow> [] | Some i \<Rightarrow> xs ! i # priority_drain v (splice_at i xs))"
    by (rule priority_drain.simps)
  show "priority_index v xs = Some i \<Longrightarrow> j < i \<Longrightarrow> \<not> qcancelled (v (xs ! j)) \<Longrightarrow>
    qkey (v (xs ! j)) = Some c \<Longrightarrow> qkey (v (xs ! i)) \<noteq> Some c" for j c
    using priority_index_Some [of v xs i] unfolding best_head_def conv_head_def by force
qed

lemma priority_order_mset:
  "mset (priority_order v xs) = mset (filter (\<lambda>x. \<not> qcancelled (v x)) xs)"
  unfolding priority_order_def by (rule prio_selection.drain_mset) simp

lemma set_priority_order: "set (priority_order v xs) = {x \<in> set xs. \<not> qcancelled (v x)}"
  using arg_cong [OF priority_order_mset [of v xs], of set_mset] by auto

lemma distinct_priority_order: "distinct xs \<Longrightarrow> distinct (priority_order v xs)"
  using mset_eq_imp_distinct_iff [OF priority_order_mset [of v xs]] by simp

lemma priority_order_conversation:
  "filter (\<lambda>x. qkey (v x) = Some k) (priority_order v xs) =
   filter (\<lambda>x. \<not> qcancelled (v x) \<and> qkey (v x) = Some k) xs"
proof -
  have "filter (\<lambda>x. qkey (v x) = Some k) (priority_order v xs) =
      filter (\<lambda>x. qkey (v x) = Some k) (filter (\<lambda>x. \<not> qcancelled (v x)) xs)"
    unfolding priority_order_def by (rule prio_selection.drain_keeps_class_order) simp
  also have "\<dots> = filter (\<lambda>x. \<not> qcancelled (v x) \<and> qkey (v x) = Some k) xs"
    by (simp add: filter_filter conj_commute)
  finally show ?thesis .
qed

text \<open>The first request visited has the highest rank among the waiting conversation heads.\<close>

lemma priority_order_first:
  "priority_order v xs = x # rest \<Longrightarrow>
   \<exists>i. best_head v (filter (\<lambda>y. \<not> qcancelled (v y)) xs) i \<and>
     x = filter (\<lambda>y. \<not> qcancelled (v y)) xs ! i"
  unfolding priority_order_def
  by (subst (asm) priority_drain.simps) (auto split: option.splits dest: priority_index_Some)

text \<open>
  Requests without a conversation are independent of one another: they leave by rank, and in
  arrival order within a rank.
\<close>

lemma priority_index_keyless:
  assumes "\<forall>x \<in> set xs. \<not> qcancelled (v x) \<and> qkey (v x) = None" "xs \<noteq> []"
  obtains i where "priority_index v xs = Some i"
    "\<forall>j < length xs. qrank v (xs ! j) \<le> qrank v (xs ! i)"
    "\<forall>j < i. qrank v (xs ! j) < qrank v (xs ! i)"
proof -
  have heads: "conv_head v xs j \<longleftrightarrow> j < length xs" for j
    using assms(1) by (auto simp: conv_head_def)
  obtain i where i: "priority_index v xs = Some i"
    using assms by (cases "priority_index v xs") (auto simp: priority_index_none_iff)
  have best: "qrank v (xs ! j) < qrank v (xs ! i) \<or> (qrank v (xs ! j) = qrank v (xs ! i) \<and> i \<le> j)"
    if "j < length xs" for j
    using priority_index_Some [OF i] that by (simp add: best_head_def heads)
  show ?thesis
  proof (rule that [OF i])
    show "\<forall>j < length xs. qrank v (xs ! j) \<le> qrank v (xs ! i)"
      using best by (auto simp: le_less)
    show "\<forall>j < i. qrank v (xs ! j) < qrank v (xs ! i)"
      using best priority_index_bound [OF i] by (meson not_less order.strict_trans)
  qed
qed

end
