(* ===== verification/Gate_State.thy ===== *)
theory Gate_State
  imports Job_Priority "HOL-Library.AList"
begin

text \<open>
  The state of the gateway core (\<open>ds4-gateway/gateway.mjs\<close>, the closure of \<open>createGateway\<close>)
  with the read-only helpers of \<open>worker-activity.mjs\<close>, \<open>model-routing.mjs\<close> and
  \<open>continuity.mjs\<close>. Request objects are shared by reference in the code (queues, slots, timers
  and event handlers all hold the same object); here a request is a number, its admission
  sequence, and \<open>jb\<close> is the store of request objects. Worker objects are stored under their
  unique ID, and \<open>nodes\<close> is the registration order.
\<close>

section \<open>Data\<close>

text \<open>The reasons of \<open>rejectionReasons\<close> in \<open>continuity.mjs\<close>, also used as waiting reasons.\<close>

datatype reason =
    GatewayDraining
  | SameSessionActive
  | SameSessionQueued
  | WorkerQuarantined
  | WorkerPaused
  | WorkerUnhealthy
  | WorkerConnectRefused
  | NoReadyWorker
  | QueueFull
  | QueueDeadline
  | AffinityWriteFailed

datatype affinity = AffNew | AffExisting | AffNone | AffReassigned | AffRebalanced

record job = qjob +
  job_id :: string
  affinity :: affinity
  route :: "string list option"
  genie_flexible :: bool
  fixed_home :: "string option"
  node_of :: "string option"
  wait_reason :: "reason option"
  dispatched_at :: "rat option"
  upstream :: bool
  recorded :: bool
  slot_of :: "nat option"
  timer_on :: bool
  listening :: bool
  created_at :: rat
  created_wall :: rat
  queue_timeout :: int

text \<open>
  \<open>dispatched_at\<close> is \<open>dispatchedMono\<close>, set together with \<open>dispatched\<close>; \<open>upstream\<close> says that the
  request has an upstream call; \<open>timer_on\<close> that its queue deadline is armed and \<open>listening\<close> that
  its client handlers are attached, which \<open>cleanup\<close> ends.
\<close>

text \<open>A turn allocation of a slot: consecutive turns of one conversation.\<close>

record alloc =
  al_key :: string
  al_prio :: prio
  al_used :: nat
  al_until :: rat

record slot =
  sl_active :: "nat option"
  sl_alloc :: "alloc option"
  sl_timer :: "rat option"

record worker =
  w_healthy :: bool
  w_drained :: bool
  w_quarantine :: "string option"
  w_recovering :: bool
  w_removed :: bool
  w_capacity :: "nat option"
  w_route_only :: bool
  w_slots :: "slot list"
  w_queue :: "nat list"
  w_completed :: nat
  w_failed :: nat
  w_protected :: nat
  w_limited :: nat
  w_inference_failures :: nat
  w_failures :: nat
  w_reserved_until :: "rat option"

datatype outcome =
    Complete
  | VisionGuidance
  | ObservationLimited
  | ClientCancelled
  | UpstreamHttpError int
  | IncompleteSse
  | UpstreamEngineError
  | UpstreamError
  | UpstreamStreamError
  | UpstreamAborted
  | ConnectionClosed

datatype gw_event =
    Dispatched nat string
  | Rejected nat reason
  | Refused reason
  | QueueTimeout nat
  | CancelledQueued nat
  | Finished nat string outcome
  | Relocated nat string string

datatype save_result = Saved | Unwritten | Unsynced

record gw =
  nodes :: "string list"
  wk :: "string \<Rightarrow> worker"
  jb :: "nat \<Rightarrow> job"
  waiting :: "nat list"
  sessions :: "(string \<times> string) list"
  disk_sessions :: "(string \<times> string) list"
  saves :: "save_result list"
  next_seq :: nat
  draining :: bool
  shutting :: bool
  mono :: rat
  wall :: rat
  turns :: nat
  turns_saved :: bool
  turn_idle :: rat
  max_queued :: nat
  auto_wait :: "rat option"
  reserve_on :: bool
  reserve_ms :: rat
  timeout_ms :: int
  timeout_saved :: bool
  collate :: "string \<Rightarrow> nat"
  evidence_digest :: "string \<times> string \<times> string \<times> nat \<times> rat \<Rightarrow> string"
  relocated :: nat
  relocation_rejected :: nat
  faults :: "string list"
  trace :: "gw_event list"

text \<open>
  \<open>sessions\<close> is the conversation table of the store in memory, \<open>disk_sessions\<close> the one in its file.
  \<open>saves\<close> is the outcome of the next durable store writes (an empty list: they succeed): a write is
  \<open>Unwritten\<close> when it throws before or in the rename and \<open>Unsynced\<close> when the rename is done and the
  directory cannot be synced;
  \<open>collate\<close> stands for the order of \<open>localeCompare\<close> on worker IDs and \<open>evidence_digest\<close> for the
  SHA-256 of the relocation evidence. \<open>faults\<close> collects the exceptions the scheduler itself
  throws on a broken internal contract, and \<open>trace\<close> the externally visible events, newest first.
\<close>

definition empty_slot :: slot where
  "empty_slot = \<lparr>sl_active = None, sl_alloc = None, sl_timer = None\<rparr>"

section \<open>Worker activity (\<open>worker-activity.mjs\<close>)\<close>

definition request_capacity :: "worker \<Rightarrow> nat" where
  "request_capacity w = (case w_capacity w of None \<Rightarrow> 1 | Some c \<Rightarrow> c)"

definition active_jobs :: "worker \<Rightarrow> nat list" where
  "active_jobs w = List.map_filter sl_active (w_slots w)"

definition active_count :: "worker \<Rightarrow> nat" where
  "active_count w = length (active_jobs w)"

definition has_capacity :: "worker \<Rightarrow> bool" where
  "has_capacity w \<longleftrightarrow> active_count w < request_capacity w"

fun oldest_of :: "('r \<Rightarrow> rat) \<Rightarrow> 'r option \<Rightarrow> 'r list \<Rightarrow> 'r option" where
  "oldest_of t best [] = best"
| "oldest_of t None (r # rs) = oldest_of t (Some r) rs"
| "oldest_of t (Some b) (r # rs) = oldest_of t (Some (if t r < t b then r else b)) rs"

text \<open>A request without a dispatch time would compare as \<open>undefined\<close>; active requests have one.\<close>

definition dispatch_time :: "gw \<Rightarrow> nat \<Rightarrow> rat" where
  "dispatch_time s r = (case dispatched_at (jb s r) of None \<Rightarrow> 0 | Some t \<Rightarrow> t)"

definition oldest_active :: "gw \<Rightarrow> string \<Rightarrow> nat option" where
  "oldest_active s w = oldest_of (dispatch_time s) None (active_jobs (wk s w))"

lemma oldest_of_mem: "oldest_of t best rs = Some r \<Longrightarrow> r \<in> set rs \<or> best = Some r"
  by (induction t best rs rule: oldest_of.induct) (auto split: if_splits)

lemma oldest_of_least:
  "oldest_of t best rs = Some r \<Longrightarrow>
     (\<forall>x \<in> set rs. t r \<le> t x) \<and> (\<forall>b. best = Some b \<longrightarrow> t r \<le> t b)"
  by (induction t best rs rule: oldest_of.induct) (fastforce split: if_splits)+

lemma active_jobs_iff: "r \<in> set (active_jobs w) \<longleftrightarrow> (\<exists>sl \<in> set (w_slots w). sl_active sl = Some r)"
  by (force simp: active_jobs_def List.map_filter_def image_iff)

section \<open>Model routes (\<open>model-routing.mjs\<close>)\<close>

definition allows_worker :: "string list option \<Rightarrow> string \<Rightarrow> worker \<Rightarrow> bool" where
  "allows_worker rt i w = (case rt of Some ids \<Rightarrow> i \<in> set ids | None \<Rightarrow> \<not> w_route_only w)"

datatype route_error = BadRouteMap | BadRouteEntry | UnknownRoute

definition route_ids :: "string list \<Rightarrow> js \<Rightarrow> string list option" where
  "route_ids known v = (case v of
      JArr ids \<Rightarrow>
        if ids = [] \<or> (\<exists>x \<in> set ids. case x of JStr i \<Rightarrow> i \<notin> set known | _ \<Rightarrow> True) then None
        else Some (map (\<lambda>x. case x of JStr i \<Rightarrow> i | _ \<Rightarrow> []) ids)
    | _ \<Rightarrow> None)"

fun route_entries :: "string list \<Rightarrow> js_fields \<Rightarrow> route_error + (string \<times> string list) list" where
  "route_entries known [] = Inr []"
| "route_entries known ((name, v) # rest) =
     (if name = [] \<or> length name > 256 then Inl BadRouteEntry
      else case route_ids known v of
        None \<Rightarrow> Inl BadRouteEntry
      | Some ids \<Rightarrow> (case route_entries known rest of
          Inl e \<Rightarrow> Inl e
        | Inr es \<Rightarrow> Inr ((name, ids) # es)))"

definition model_routes :: "js \<Rightarrow> string list \<Rightarrow> route_error + (string \<times> string list) list option" where
  "model_routes raw known = (case raw of
      JUndef \<Rightarrow> Inr None
    | JObj kvs \<Rightarrow>
        if length kvs > 128 then Inl BadRouteMap
        else (case route_entries known kvs of Inl e \<Rightarrow> Inl e | Inr es \<Rightarrow> Inr (Some es))
    | _ \<Rightarrow> Inl BadRouteMap)"

definition route_selection ::
  "(string \<times> string list) list option \<Rightarrow> js \<Rightarrow> route_error + string list option" where
  "route_selection routes header = (case header of
      JUndef \<Rightarrow> Inr None
    | JStr h \<Rightarrow> (case routes of
        None \<Rightarrow> Inl UnknownRoute
      | Some rs \<Rightarrow> (case map_of rs h of None \<Rightarrow> Inl UnknownRoute | Some ids \<Rightarrow> Inr (Some ids)))
    | _ \<Rightarrow> Inl UnknownRoute)"

section \<open>Session ownership (\<open>continuity.mjs\<close>)\<close>

definition unavailable_reason :: "worker \<Rightarrow> reason" where
  "unavailable_reason w =
     (if w_quarantine w \<noteq> None then WorkerQuarantined
      else if w_drained w then WorkerPaused else WorkerUnhealthy)"

definition runs_key :: "gw \<Rightarrow> string \<Rightarrow> string \<Rightarrow> bool" where
  "runs_key s k w \<longleftrightarrow> (\<exists>r \<in> set (active_jobs (wk s w)). qkey (jb s r) = Some k)"

definition queues_key :: "gw \<Rightarrow> string \<Rightarrow> string \<Rightarrow> bool" where
  "queues_key s k w \<longleftrightarrow>
     (\<exists>r \<in> set (w_queue (wk s w)). qkey (jb s r) = Some k \<and> \<not> qcancelled (jb s r))"

definition session_work :: "gw \<Rightarrow> string option \<Rightarrow> (string \<times> reason) option" where
  "session_work s ko = (case ko of None \<Rightarrow> None | Some k \<Rightarrow>
     (case find (runs_key s k) (nodes s) of
        Some w \<Rightarrow> Some (w, SameSessionActive)
      | None \<Rightarrow> map_option (\<lambda>w. (w, SameSessionQueued)) (find (queues_key s k) (nodes s))))"

definition key_active :: "gw \<Rightarrow> string \<Rightarrow> bool" where
  "key_active s k \<longleftrightarrow> (\<exists>w \<in> set (nodes s). runs_key s k w)"

section \<open>The durable session store as the scheduler uses it\<close>

definition store_get :: "gw \<Rightarrow> string \<Rightarrow> string option" where
  "store_get s k = map_of (sessions s) k"

definition store_count :: "gw \<Rightarrow> string \<Rightarrow> nat" where
  "store_count s w = length (filter (\<lambda>(k, n). n = w) (sessions s))"

text \<open>\<open>AffinityStore.save\<close> writes a temporary file, renames it over the store, syncs the directory and
  only then replaces the table in memory. When the sync throws after the rename, the caller sees a
  failed save and memory keeps the old table, yet the file already holds the new one.\<close>

definition store_save :: "(string \<times> string) list \<Rightarrow> gw \<Rightarrow> bool \<times> gw" where
  "store_save next s = (case saves s of
      [] \<Rightarrow> (True, s\<lparr>disk_sessions := next, sessions := next\<rparr>)
    | r # rest \<Rightarrow> (case r of
        Saved \<Rightarrow> (True, s\<lparr>saves := rest, disk_sessions := next, sessions := next\<rparr>)
      | Unwritten \<Rightarrow> (False, s\<lparr>saves := rest\<rparr>)
      | Unsynced \<Rightarrow> (False, s\<lparr>saves := rest, disk_sessions := next\<rparr>)))"

definition store_set :: "string \<Rightarrow> string \<Rightarrow> gw \<Rightarrow> bool \<times> gw" where
  "store_set k w s = store_save (AList.update k w (sessions s)) s"

text \<open>A save of another field (pauses, quarantine, workers, allowances) writes the whole store.\<close>

definition save_ok :: "gw \<Rightarrow> bool \<times> gw" where
  "save_ok s = store_save (sessions s) s"

definition job_home :: "gw \<Rightarrow> nat \<Rightarrow> string option" where
  "job_home s r = (case qkey (jb s r) of None \<Rightarrow> None | Some k \<Rightarrow> store_get s k)"

section \<open>State updates\<close>

definition upd_worker :: "string \<Rightarrow> (worker \<Rightarrow> worker) \<Rightarrow> gw \<Rightarrow> gw" where
  "upd_worker w f s = s\<lparr>wk := (wk s)(w := f (wk s w))\<rparr>"

definition upd_job :: "nat \<Rightarrow> (job \<Rightarrow> job) \<Rightarrow> gw \<Rightarrow> gw" where
  "upd_job r f s = s\<lparr>jb := (jb s)(r := f (jb s r))\<rparr>"

definition upd_slot :: "string \<Rightarrow> nat \<Rightarrow> (slot \<Rightarrow> slot) \<Rightarrow> gw \<Rightarrow> gw" where
  "upd_slot w i f = upd_worker w (\<lambda>n. n\<lparr>w_slots := (w_slots n)[i := f (w_slots n ! i)]\<rparr>)"

definition emit :: "gw_event \<Rightarrow> gw \<Rightarrow> gw" where
  "emit e s = s\<lparr>trace := e # trace s\<rparr>"

definition fault :: "string \<Rightarrow> gw \<Rightarrow> gw" where
  "fault m s = s\<lparr>faults := m # faults s\<rparr>"

lemmas upd_defs = upd_worker_def upd_job_def upd_slot_def emit_def fault_def

lemma upd_worker_sel [simp]:
  "wk (upd_worker w f s) = (wk s)(w := f (wk s w))"
  "jb (upd_worker w f s) = jb s" "nodes (upd_worker w f s) = nodes s"
  "waiting (upd_worker w f s) = waiting s" "sessions (upd_worker w f s) = sessions s"
  "next_seq (upd_worker w f s) = next_seq s" "shutting (upd_worker w f s) = shutting s"
  "draining (upd_worker w f s) = draining s" "turns (upd_worker w f s) = turns s"
  "mono (upd_worker w f s) = mono s" "trace (upd_worker w f s) = trace s"
  "faults (upd_worker w f s) = faults s" "max_queued (upd_worker w f s) = max_queued s"
  "auto_wait (upd_worker w f s) = auto_wait s" "collate (upd_worker w f s) = collate s"
  by (simp_all add: upd_worker_def)

lemma upd_job_sel [simp]:
  "jb (upd_job r f s) = (jb s)(r := f (jb s r))"
  "wk (upd_job r f s) = wk s" "nodes (upd_job r f s) = nodes s"
  "waiting (upd_job r f s) = waiting s" "sessions (upd_job r f s) = sessions s"
  "next_seq (upd_job r f s) = next_seq s" "shutting (upd_job r f s) = shutting s"
  "draining (upd_job r f s) = draining s" "turns (upd_job r f s) = turns s"
  "mono (upd_job r f s) = mono s" "trace (upd_job r f s) = trace s"
  "faults (upd_job r f s) = faults s" "max_queued (upd_job r f s) = max_queued s"
  "auto_wait (upd_job r f s) = auto_wait s" "collate (upd_job r f s) = collate s"
  by (simp_all add: upd_job_def)

lemma upd_slot_sel [simp]:
  "wk (upd_slot w i f s) = (wk s)(w := (wk s w)\<lparr>w_slots := (w_slots (wk s w))[i := f (w_slots (wk s w) ! i)]\<rparr>)"
  "jb (upd_slot w i f s) = jb s" "nodes (upd_slot w i f s) = nodes s"
  "waiting (upd_slot w i f s) = waiting s" "sessions (upd_slot w i f s) = sessions s"
  "next_seq (upd_slot w i f s) = next_seq s" "shutting (upd_slot w i f s) = shutting s"
  "draining (upd_slot w i f s) = draining s" "turns (upd_slot w i f s) = turns s"
  "mono (upd_slot w i f s) = mono s" "trace (upd_slot w i f s) = trace s"
  "faults (upd_slot w i f s) = faults s" "max_queued (upd_slot w i f s) = max_queued s"
  by (simp_all add: upd_slot_def)

lemma emit_sel [simp]:
  "trace (emit e s) = e # trace s"
  "wk (emit e s) = wk s" "jb (emit e s) = jb s" "nodes (emit e s) = nodes s"
  "waiting (emit e s) = waiting s" "sessions (emit e s) = sessions s"
  "next_seq (emit e s) = next_seq s" "shutting (emit e s) = shutting s"
  "draining (emit e s) = draining s" "turns (emit e s) = turns s" "mono (emit e s) = mono s"
  "faults (emit e s) = faults s" "max_queued (emit e s) = max_queued s"
  by (simp_all add: emit_def)

lemma fault_sel [simp]:
  "faults (fault m s) = m # faults s"
  "wk (fault m s) = wk s" "jb (fault m s) = jb s" "nodes (fault m s) = nodes s"
  "waiting (fault m s) = waiting s" "sessions (fault m s) = sessions s"
  "next_seq (fault m s) = next_seq s" "shutting (fault m s) = shutting s"
  "draining (fault m s) = draining s" "turns (fault m s) = turns s" "mono (fault m s) = mono s"
  "trace (fault m s) = trace s" "max_queued (fault m s) = max_queued s"
  by (simp_all add: fault_def)

section \<open>Contract of the session store\<close>

text \<open>What the scheduler relies on: a successful write is what the next read returns, and it
  changes no other conversation; a failed write changes nothing the scheduler reads (the file it leaves
  is in \<open>disk_sessions\<close>, which no scheduling step reads).\<close>

locale session_store =
  fixes get :: "'s \<Rightarrow> string \<Rightarrow> string option"
    and set_home :: "string \<Rightarrow> string \<Rightarrow> 's \<Rightarrow> bool \<times> 's"
  assumes get_after_set: "set_home k w s = (True, s') \<Longrightarrow> get s' k' = (if k' = k then Some w else get s k')"
    and get_after_failure: "set_home k w s = (False, s') \<Longrightarrow> get s' k' = get s k'"
begin

lemma set_again:
  "set_home k w s = (True, s') \<Longrightarrow> set_home k v s' = (True, s'') \<Longrightarrow>
   get s'' k' = (if k' = k then Some v else get s k')"
  by (simp add: get_after_set)

lemma set_commute_get:
  "set_home k w s = (ok, s') \<Longrightarrow> k' \<noteq> k \<Longrightarrow> get s' k' = get s k'"
  by (cases ok) (simp_all add: get_after_set get_after_failure)

end

interpretation gw_store: session_store store_get store_set
  by unfold_locales
    (auto simp: store_set_def store_save_def store_get_def update_conv' split: list.splits save_result.splits)

lemma store_set_frame:
  assumes "store_set k w s = (ok, s')"
  shows "wk s' = wk s" "jb s' = jb s" "nodes s' = nodes s" "waiting s' = waiting s"
    "next_seq s' = next_seq s" "shutting s' = shutting s" "draining s' = draining s"
    "turns s' = turns s" "mono s' = mono s" "trace s' = trace s" "faults s' = faults s"
    "max_queued s' = max_queued s"
  using assms by (auto simp: store_set_def store_save_def split: list.splits save_result.splits)

section \<open>Worker selection\<close>

definition direct_reserved :: "gw \<Rightarrow> string \<Rightarrow> bool" where
  "direct_reserved s w \<longleftrightarrow> reserve_on s \<and>
     (case w_reserved_until (wk s w) of None \<Rightarrow> False | Some t \<Rightarrow> wall s < t)"

definition load_ratio :: "worker \<Rightarrow> rat" where
  "load_ratio w = of_nat (active_count w + length (w_queue w)) / of_nat (request_capacity w)"

definition pick_key :: "gw \<Rightarrow> string \<Rightarrow> bool \<times> rat \<times> nat \<times> nat" where
  "pick_key s w = (\<not> has_capacity (wk s w), load_ratio (wk s w), store_count s w, collate s w)"

definition first_by :: "('a \<Rightarrow> 'k::linorder) \<Rightarrow> 'a list \<Rightarrow> 'a option" where
  "first_by key xs = (case sort_key key xs of [] \<Rightarrow> None | x # _ \<Rightarrow> Some x)"

definition pick_eligible :: "gw \<Rightarrow> string option \<Rightarrow> string list option \<Rightarrow> string list" where
  "pick_eligible s exclude rt =
     filter (\<lambda>w. w_healthy (wk s w) \<and> \<not> w_drained (wk s w) \<and> Some w \<noteq> exclude \<and>
       allows_worker rt w (wk s w)) (nodes s)"

definition pick :: "gw \<Rightarrow> string option \<Rightarrow> string list option \<Rightarrow> string option" where
  "pick s exclude rt =
     (let eligible = pick_eligible s exclude rt;
          preferred = filter (\<lambda>w. \<not> direct_reserved s w) eligible
      in first_by (pick_key s) (if preferred \<noteq> [] then preferred else eligible))"

lemma first_by_mem: "first_by key xs = Some x \<Longrightarrow> x \<in> set xs"
  unfolding first_by_def by (metis list.set_intros(1) list.simps(4) neq_Nil_conv list.simps(5)
      option.distinct(1) option.inject set_sort)

lemma first_by_least: "first_by key xs = Some x \<Longrightarrow> y \<in> set xs \<Longrightarrow> key x \<le> key y"
proof -
  assume "first_by key xs = Some x" and y: "y \<in> set xs"
  then obtain zs where z: "sort_key key xs = x # zs"
    by (auto simp: first_by_def split: list.splits)
  have "sorted (map key (x # zs))" using sorted_sort_key [of key xs] z by simp
  moreover have "y \<in> set (x # zs)" using y z by (metis set_sort)
  ultimately show ?thesis by auto
qed

lemma first_by_none: "first_by key xs = None \<longleftrightarrow> xs = []"
proof -
  have "sort_key key xs = [] \<longleftrightarrow> xs = []" by (metis length_0_conv length_sort)
  then show ?thesis by (auto simp: first_by_def split: list.splits)
qed

end
