(* ===== verification/Gate_Choice.thy ===== *)
theory Gate_Choice
  imports Gate_State
begin

text \<open>
  The choice of the next request for one slot of a worker (\<open>queuedChoice\<close>), its preview
  (\<open>canStartNow\<close>) and the turn allocations they read and release.
\<close>

section \<open>Turn allocations\<close>

definition release_turns :: "slot \<Rightarrow> slot" where
  "release_turns sl = sl\<lparr>sl_timer := None, sl_alloc := None\<rparr>"

lemma release_turns_sel [simp]:
  "sl_active (release_turns sl) = sl_active sl" "sl_alloc (release_turns sl) = None"
  "sl_timer (release_turns sl) = None"
  by (simp_all add: release_turns_def)

text \<open>A conversation holds another slot of this worker and still has turns left there.\<close>

definition reserved_elsewhere :: "nat \<Rightarrow> worker \<Rightarrow> nat \<Rightarrow> string \<Rightarrow> bool" where
  "reserved_elsewhere limit w i k \<longleftrightarrow>
     (\<exists>j < length (w_slots w). j \<noteq> i \<and>
        (case sl_alloc (w_slots w ! j) of None \<Rightarrow> False
         | Some a \<Rightarrow> al_key a = k \<and> al_used a < limit))"

definition choice_eligible ::
  "gw \<Rightarrow> worker \<Rightarrow> nat \<Rightarrow> ('x \<Rightarrow> 'a qjob_scheme) \<Rightarrow> 'x list \<Rightarrow> 'x list" where
  "choice_eligible s w i v q =
     filter (\<lambda>x. \<not> qcancelled (v x) \<and>
       (case qkey (v x) of None \<Rightarrow> True
        | Some k \<Rightarrow> \<not> key_active s k \<and> \<not> reserved_elsewhere (turns s) w i k)) q"

definition unavailable :: "gw \<Rightarrow> worker \<Rightarrow> bool" where
  "unavailable s w \<longleftrightarrow>
     \<not> w_healthy w \<or> w_quarantine w \<noteq> None \<or> w_recovering w \<or> shutting s"

text \<open>The two clean-up statements at the start of \<open>queuedChoice\<close>.\<close>

definition settle_slot :: "gw \<Rightarrow> worker \<Rightarrow> slot \<Rightarrow> slot" where
  "settle_slot s w sl =
     (let expired = (case sl_alloc sl of None \<Rightarrow> False
            | Some a \<Rightarrow> al_until a \<noteq> 0 \<and> al_until a \<le> mono s);
          sl1 = (if expired then release_turns sl else sl)
      in if unavailable s w then release_turns sl1 else sl1)"

definition hide_key :: "string \<Rightarrow> ('x \<Rightarrow> 'a qjob_scheme) \<Rightarrow> 'x \<Rightarrow> 'a qjob_scheme" where
  "hide_key k v x = (if qkey (v x) = Some k then (v x)\<lparr>qcancelled := True\<rparr> else v x)"

text \<open>The choice among the eligible requests once the best index \<open>i0\<close> is known.\<close>

definition choose_with ::
  "gw \<Rightarrow> slot \<Rightarrow> ('x \<Rightarrow> 'a qjob_scheme) \<Rightarrow> 'x list \<Rightarrow> nat \<Rightarrow> 'x option \<times> slot" where
  "choose_with s sl v el i0 =
     (let highest = qrank v (el ! i0)
      in case sl_alloc sl of
           None \<Rightarrow> (Some (el ! i0), sl)
         | Some a \<Rightarrow>
             let mine = find (\<lambda>x. qkey (v x) = Some (al_key a)) el;
                 arank = (case mine of Some x \<Rightarrow> qrank v x | None \<Rightarrow> priority_rank (al_prio a))
             in if arank < highest then (Some (el ! i0), release_turns sl)
                else if al_used a < turns s then
                  (case mine of
                     Some x \<Rightarrow> (Some x, sl)
                   | None \<Rightarrow>
                       if al_until a > mono s then (None, sl)
                       else (Some (el ! i0), release_turns sl))
                else
                  (case priority_index (hide_key (al_key a) v) el of
                     Some n \<Rightarrow>
                       (Some (if qrank v (el ! n) = highest then el ! n else el ! i0), release_turns sl)
                   | None \<Rightarrow> (Some (el ! i0), release_turns sl)))"

definition queued_choice ::
  "gw \<Rightarrow> worker \<Rightarrow> nat \<Rightarrow> slot \<Rightarrow> ('x \<Rightarrow> 'a qjob_scheme) \<Rightarrow> 'x list \<Rightarrow> 'x option \<times> slot" where
  "queued_choice s w i sl v q =
     (let sl' = settle_slot s w sl; el = choice_eligible s w i v q
      in case priority_index v el of
           None \<Rightarrow> (None, sl')
         | Some i0 \<Rightarrow> choose_with s sl' v el i0)"

section \<open>What a choice is\<close>

lemma settle_slot_active [simp]: "sl_active (settle_slot s w sl) = sl_active sl"
  by (simp add: settle_slot_def Let_def)

lemma settle_slot_alloc: "sl_alloc (settle_slot s w sl) = Some a \<Longrightarrow> sl_alloc sl = Some a"
  by (auto simp: settle_slot_def Let_def split: if_splits)

lemma choose_with_active [simp]: "sl_active (snd (choose_with s sl v el i0)) = sl_active sl"
  by (simp add: choose_with_def Let_def split: option.splits)

lemma queued_choice_active: "queued_choice s w i sl v q = (c, sl') \<Longrightarrow> sl_active sl' = sl_active sl"
  using choose_with_active [of s "settle_slot s w sl" v]
  by (auto simp: queued_choice_def Let_def split: option.splits dest: arg_cong [of _ _ "\<lambda>x. sl_active (snd x)"])

lemma choose_with_alloc: "choose_with s sl v el i0 = (c, sl') \<Longrightarrow> sl_alloc sl' = Some a \<Longrightarrow> sl_alloc sl = Some a"
  by (auto simp: choose_with_def Let_def split: option.splits if_splits)

lemma queued_choice_alloc:
  "queued_choice s w i sl v q = (c, sl') \<Longrightarrow> sl_alloc sl' = Some a \<Longrightarrow> sl_alloc sl = Some a"
  by (auto simp: queued_choice_def Let_def split: option.splits dest: choose_with_alloc settle_slot_alloc)

lemma choose_with_mem:
  "choose_with s sl v el i0 = (Some x, sl') \<Longrightarrow> i0 < length el \<Longrightarrow> x \<in> set el"
  by (auto simp: choose_with_def Let_def find_Some_iff split: option.splits if_splits
      dest: priority_index_bound)

lemma queued_choice_eligible:
  "queued_choice s w i sl v q = (Some x, sl') \<Longrightarrow> x \<in> set (choice_eligible s w i v q)"
  by (auto simp: queued_choice_def Let_def split: option.splits
      dest: choose_with_mem priority_index_bound)

lemma choice_eligible_mem: "x \<in> set (choice_eligible s w i v q) \<Longrightarrow> x \<in> set q"
  by (simp add: choice_eligible_def)

lemma queued_choice_mem: "queued_choice s w i sl v q = (Some x, sl') \<Longrightarrow> x \<in> set q"
  by (blast dest: queued_choice_eligible choice_eligible_mem)

lemma queued_choice_live: "queued_choice s w i sl v q = (Some x, sl') \<Longrightarrow> \<not> qcancelled (v x)"
  by (auto dest!: queued_choice_eligible simp: choice_eligible_def)

lemma queued_choice_not_active:
  "queued_choice s w i sl v q = (Some x, sl') \<Longrightarrow> qkey (v x) = Some k \<Longrightarrow> \<not> key_active s k"
  by (auto dest!: queued_choice_eligible simp: choice_eligible_def)

lemma queued_choice_not_reserved:
  "queued_choice s w i sl v q = (Some x, sl') \<Longrightarrow> qkey (v x) = Some k \<Longrightarrow>
   \<not> reserved_elsewhere (turns s) w i k"
  by (auto dest!: queued_choice_eligible simp: choice_eligible_def)

text \<open>Eligibility depends on a request's key only: a queue keeps or loses whole conversations.\<close>

lemma choice_eligible_same_key:
  "x \<in> set (choice_eligible s w i v q) \<Longrightarrow> y \<in> set q \<Longrightarrow> \<not> qcancelled (v y) \<Longrightarrow>
   qkey (v y) = qkey (v x) \<Longrightarrow> y \<in> set (choice_eligible s w i v q)"
  by (auto simp: choice_eligible_def split: option.splits)

section \<open>A choice respects the conversation order\<close>

text \<open>Position in a list before which no request of the same conversation waits.\<close>

definition conv_first :: "('x \<Rightarrow> 'a qjob_scheme) \<Rightarrow> 'x list \<Rightarrow> 'x \<Rightarrow> bool" where
  "conv_first v xs x \<longleftrightarrow> (\<exists>i. conv_head v xs i \<and> xs ! i = x)"

lemma conv_first_find:
  assumes "find (\<lambda>x. qkey (v x) = Some k) el = Some x" and "\<forall>y \<in> set el. \<not> qcancelled (v y)"
  shows "conv_first v el x"
proof -
  from assms(1) obtain i where i: "i < length el" "qkey (v (el ! i)) = Some k" "x = el ! i"
    "\<forall>j<i. qkey (v (el ! j)) \<noteq> Some k"
    by (auto simp: find_Some_iff)
  then have "conv_head v el i" using assms(2) by (auto simp: conv_head_def)
  with i show ?thesis by (auto simp: conv_first_def)
qed

lemma conv_head_hide:
  assumes "conv_head (hide_key k v) el n"
  shows "conv_head v el n"
proof -
  have n: "qkey (v (el ! n)) \<noteq> Some k" "\<not> qcancelled (v (el ! n))" "n < length el"
    using assms by (auto simp: conv_head_def hide_key_def split: if_splits)
  have "qkey (v (el ! j)) \<noteq> qkey (v (el ! n))"
    if "j < n" "\<not> qcancelled (v (el ! j))" "qkey (v (el ! j)) \<noteq> None" for j
    using assms that n by (cases "qkey (v (el ! j)) = Some k") (auto simp: conv_head_def hide_key_def)
  with n show ?thesis by (simp add: conv_head_def)
qed

lemma choose_with_conv_first:
  assumes "choose_with s sl v el i0 = (Some x, sl')" and "priority_index v el = Some i0"
    and "\<forall>y \<in> set el. \<not> qcancelled (v y)"
  shows "conv_first v el x"
proof -
  have i0: "conv_first v el (el ! i0)"
    using priority_index_Some [OF assms(2)] by (auto simp: best_head_def conv_first_def)
  have other: "conv_first v el (el ! n)" if "priority_index (hide_key k v) el = Some n" for n k
    using priority_index_Some [OF that] conv_head_hide [of k v el n]
    by (auto simp: best_head_def conv_first_def)
  show ?thesis
    using assms(1) i0 other conv_first_find [OF _ assms(3)]
    by (auto simp: choose_with_def Let_def split: option.splits if_splits)
qed

lemma choice_eligible_live: "\<forall>y \<in> set (choice_eligible s w i v q). \<not> qcancelled (v y)"
  by (simp add: choice_eligible_def)

lemma queued_choice_conv_first:
  assumes "queued_choice s w i sl v q = (Some x, sl')"
  shows "conv_first v (choice_eligible s w i v q) x"
  using assms choose_with_conv_first [OF _ _ choice_eligible_live]
  by (auto simp: queued_choice_def Let_def split: option.splits)

lemma conv_first_before:
  assumes "conv_first v (filter P q) x" and "\<forall>y \<in> set q. \<forall>z \<in> set q. qkey (v y) = qkey (v z) \<longrightarrow>
      \<not> qcancelled (v y) \<longrightarrow> P z \<longrightarrow> P y"
    and "sorted_wrt (<) (q :: nat list)" and "y \<in> set q" and "\<not> qcancelled (v y)"
    and "qkey (v y) = qkey (v x)" and "qkey (v x) \<noteq> None"
  shows "x \<le> y"
proof (rule ccontr)
  let ?f = "filter P q"
  assume "\<not> x \<le> y"
  then have yx: "y < x" by simp
  from assms(1) obtain i where i: "conv_head v ?f i" "?f ! i = x" by (auto simp: conv_first_def)
  then have il: "i < length ?f" by (simp add: conv_head_def)
  then have x: "x \<in> set q" "P x" using i(2) nth_mem [OF il] by auto
  then have "P y" using assms(2,4-6) by blast
  then have "y \<in> set ?f" using assms(4) by simp
  then obtain j where j: "j < length ?f" "?f ! j = y" by (metis in_set_conv_nth)
  have sorted: "sorted_wrt (<) ?f" using assms(3) by (rule sorted_wrt_filter)
  have "j < i"
  proof (rule ccontr)
    assume "\<not> j < i"
    then have "j = i \<or> i < j" by auto
    then show False
      using sorted_wrt_nth_less [OF sorted, of i j] j i(2) yx by auto
  qed
  then show False using i j assms(5-7) by (auto simp: conv_head_def)
qed

theorem queued_choice_fifo:
  assumes "queued_choice s w i sl v q = (Some x, sl')" and "sorted_wrt (<) (q :: nat list)"
    and "y \<in> set q" and "\<not> qcancelled (v y)" and "qkey (v y) = Some k" and "qkey (v x) = Some k"
  shows "x \<le> y"
proof -
  have "conv_first v (choice_eligible s w i v q) x"
    by (rule queued_choice_conv_first [OF assms(1)])
  then show ?thesis
    unfolding choice_eligible_def
    by (rule conv_first_before) (use assms in \<open>auto split: option.splits\<close>)
qed

section \<open>Fairness between conversations\<close>

text \<open>
  With an exhausted allocation, another eligible conversation of the highest rank is served
  before the conversation that used its turns.
\<close>

lemma priority_index_hide_highest:
  assumes el: "\<forall>y \<in> set el. \<not> qcancelled (v y)" and i0: "priority_index v el = Some i0"
    and y: "conv_head v el j" "qkey (v (el ! j)) \<noteq> Some k" "qrank v (el ! j) = qrank v (el ! i0)"
  obtains n where "priority_index (hide_key k v) el = Some n" "qrank v (el ! n) = qrank v (el ! i0)"
    "qkey (v (el ! n)) \<noteq> Some k"
proof -
  let ?h = "hide_key k v"
  have hj: "conv_head ?h el j"
    using y el by (auto simp: conv_head_def hide_key_def)
  then obtain n where n: "priority_index ?h el = Some n"
    using priority_index_None by fastforce
  have best: "best_head ?h el n" using n by (rule priority_index_Some)
  have nk: "qkey (v (el ! n)) \<noteq> Some k"
    using best by (auto simp: best_head_def conv_head_def hide_key_def split: if_splits)
  have nh: "conv_head v el n" using best by (auto simp: best_head_def intro: conv_head_hide)
  have rank: "qrank ?h x = qrank v x" for x by (simp add: hide_key_def)
  have "qrank v (el ! j) \<le> qrank v (el ! n)"
    using best hj by (auto simp: best_head_def rank)
  moreover have "qrank v (el ! n) \<le> qrank v (el ! i0)"
    using priority_index_Some [OF i0] nh by (auto simp: best_head_def)
  ultimately show ?thesis using that [OF n] nk y(3) by simp
qed

lemma find_conv_head:
  assumes "conv_head v el i" and "qkey (v (el ! i)) = Some k" and "\<forall>y \<in> set el. \<not> qcancelled (v y)"
  shows "find (\<lambda>x. qkey (v x) = Some k) el = Some (el ! i)"
  using assms by (auto simp: find_Some_iff conv_head_def intro!: exI [of _ i])

text \<open>\<open>spent\<close>: the allocation of the slot has used every turn of its allowance.\<close>

definition spent :: "gw \<Rightarrow> slot \<Rightarrow> string \<Rightarrow> bool" where
  "spent s sl k \<longleftrightarrow> (case sl_alloc sl of None \<Rightarrow> False | Some a \<Rightarrow> al_key a = k \<and> turns s \<le> al_used a)"

lemma choose_with_yields:
  assumes ch: "choose_with s sl v el i0 = (Some x, sl')" and i0: "priority_index v el = Some i0"
    and live: "\<forall>y \<in> set el. \<not> qcancelled (v y)"
    and sp: "spent s sl k" and xk: "qkey (v x) = Some k"
    and y: "conv_first v el y" "qkey (v y) \<noteq> Some k"
  shows "qrank v y < qrank v x"
proof -
  obtain j where j: "conv_head v el j" "el ! j = y" using y(1) by (auto simp: conv_first_def)
  have best: "best_head v el i0" using i0 by (rule priority_index_Some)
  then have le: "qrank v y \<le> qrank v (el ! i0)"
    using j by (auto simp: best_head_def)
  obtain a where a: "sl_alloc sl = Some a" "al_key a = k" "turns s \<le> al_used a"
    using sp by (auto simp: spent_def split: option.splits)
  let ?rk = "case find (\<lambda>x. qkey (v x) = Some (al_key a)) el of Some x \<Rightarrow> qrank v x
      | None \<Rightarrow> priority_rank (al_prio a)"
  have x0: "x = el ! i0" if "x \<noteq> el ! i0 \<Longrightarrow> False" using that by blast
  show ?thesis
  proof (cases "?rk < qrank v (el ! i0)")
    case True
    then have "x = el ! i0" using ch a by (simp add: choose_with_def Let_def)
    then have "find (\<lambda>x. qkey (v x) = Some (al_key a)) el = Some (el ! i0)"
      using find_conv_head [OF _ _ live] best xk a by (auto simp: best_head_def)
    with True show ?thesis by simp
  next
    case False
    show ?thesis
    proof (cases "qrank v y = qrank v (el ! i0)")
      case True
      then obtain n where n: "priority_index (hide_key k v) el = Some n"
        "qrank v (el ! n) = qrank v (el ! i0)" "qkey (v (el ! n)) \<noteq> Some k"
        using priority_index_hide_highest [OF live i0 j(1)] j(2) y(2) by metis
      then have "x = el ! n"
        using ch a False by (simp add: choose_with_def Let_def)
      with n(3) xk show ?thesis by simp
    next
      case neq: False
      have "qrank v x = qrank v (el ! i0)"
        using ch a False xk by (auto simp: choose_with_def Let_def split: option.splits if_splits)
      with neq le show ?thesis by simp
    qed
  qed
qed

theorem queued_choice_yields:
  assumes "queued_choice s w i sl v q = (Some x, sl')"
    and "spent s (settle_slot s w sl) k" and "qkey (v x) = Some k"
    and "conv_first v (choice_eligible s w i v q) y" and "qkey (v y) \<noteq> Some k"
  shows "qrank v y < qrank v x"
  using assms choose_with_yields [OF _ _ choice_eligible_live]
  by (auto simp: queued_choice_def Let_def split: option.splits)

text \<open>
  Without a held allocation the slot takes the best eligible head; a held conversation with turns
  left is preferred among requests of its own rank.
\<close>

lemma queued_choice_best:
  assumes "sl_alloc (settle_slot s w sl) = None"
  shows "fst (queued_choice s w i sl v q) =
    map_option (\<lambda>n. choice_eligible s w i v q ! n) (priority_index v (choice_eligible s w i v q))"
  using assms by (auto simp: queued_choice_def choose_with_def Let_def split: option.splits)

lemma queued_choice_rank:
  assumes "queued_choice s w i sl v q = (Some x, sl')" "conv_first v (choice_eligible s w i v q) y"
    and "sl_alloc (settle_slot s w sl) = None"
  shows "qrank v y \<le> qrank v x"
proof -
  let ?el = "choice_eligible s w i v q"
  obtain n where n: "priority_index v ?el = Some n" "x = ?el ! n"
    using queued_choice_best [OF assms(3), of i v q, symmetric] assms(1) by auto
  obtain j where "conv_head v ?el j" "?el ! j = y" using assms(2) by (auto simp: conv_first_def)
  then show ?thesis using priority_index_Some [OF n(1)] n(2) by (auto simp: best_head_def)
qed

section \<open>Previewing a start (\<open>canStartNow\<close>)\<close>

fun start_scan ::
  "gw \<Rightarrow> worker \<Rightarrow> nat list \<Rightarrow> ('x \<Rightarrow> 'a qjob_scheme) \<Rightarrow> 'x \<Rightarrow> 'x list \<Rightarrow> bool" where
  "start_scan s w [] v target pending = False"
| "start_scan s w (i # is) v target pending =
     (if sl_active (w_slots w ! i) \<noteq> None then start_scan s w is v target pending
      else (let (c, sl) = queued_choice s w i (w_slots w ! i) v pending
            in c = Some target \<or>
               start_scan s (w\<lparr>w_slots := (w_slots w)[i := sl]\<rparr>) is v target pending))"

definition preview_slots :: "worker \<Rightarrow> slot list" where
  "preview_slots w =
     (let sls = map (\<lambda>sl. sl\<lparr>sl_timer := None\<rparr>) (w_slots w)
      in if length sls < request_capacity w then sls @ [empty_slot] else sls)"

definition can_start_now :: "gw \<Rightarrow> worker \<Rightarrow> ('x \<Rightarrow> 'a qjob_scheme) \<Rightarrow> 'x \<Rightarrow> 'x list \<Rightarrow> bool" where
  "can_start_now s w v target q \<longleftrightarrow>
     has_capacity w \<and>
     (let w' = w\<lparr>w_slots := preview_slots w\<rparr>
      in start_scan s w' [0..<length (w_slots w')] v target (sort_key (\<lambda>x. qseq (v x)) q))"

lemma start_scan_mem: "start_scan s w is v target pending \<Longrightarrow> target \<in> set pending"
proof (induction "is" arbitrary: w)
  case (Cons i "is")
  obtain c sl where "queued_choice s w i (w_slots w ! i) v pending = (c, sl)" by force
  then show ?case
    using Cons by (auto split: if_splits dest: queued_choice_mem)
qed simp

lemma can_start_now_sound:
  "can_start_now s w v target q \<Longrightarrow> has_capacity w \<and> target \<in> set q"
  using start_scan_mem by (fastforce simp: can_start_now_def Let_def)

section \<open>The end of a turn (\<open>finishTurn\<close>)\<close>

definition finish_turn :: "gw \<Rightarrow> slot \<Rightarrow> outcome \<Rightarrow> slot" where
  "finish_turn s sl out = (case sl_alloc sl of
      None \<Rightarrow> release_turns sl
    | Some a \<Rightarrow>
        if out \<noteq> Complete \<or> shutting s then release_turns sl
        else if turns s \<le> al_used a then sl
        else sl\<lparr>sl_alloc := Some (a\<lparr>al_until := mono s + turn_idle s\<rparr>),
                 sl_timer := Some (mono s + turn_idle s)\<rparr>)"

lemma finish_turn_active [simp]: "sl_active (finish_turn s sl out) = sl_active sl"
  by (simp add: finish_turn_def split: option.splits)

end
