(* ===== verification/Gate_Schedule.thy ===== *)
theory Gate_Schedule
  imports Gate_Choice
begin

text \<open>
  Placement, parking and dispatch: \<open>detach\<close>, \<open>park\<close>, \<open>admit\<close>, \<open>schedule\<close>, \<open>pumpWaiting\<close> and the
  queued handover (\<open>relocateQueued\<close>, \<open>rebalanceUndispatched\<close>) of \<open>gateway.mjs\<close>. Each is a
  function on the gateway state; the body that forwards a dispatched request to its worker
  starts asynchronously and ends in the step \<open>finish\<close> of the request life cycle.
\<close>

section \<open>Taking a request out of, and putting it into, a place\<close>

definition detach :: "nat \<Rightarrow> gw \<Rightarrow> gw" where
  "detach r s =
     (let s1 = (case node_of (jb s r) of None \<Rightarrow> s
            | Some w \<Rightarrow> upd_worker w (\<lambda>n. n\<lparr>w_queue := filter (\<lambda>x. x \<noteq> r) (w_queue n)\<rparr>) s)
      in s1\<lparr>waiting := remove1 r (waiting s1)\<rparr>)"

definition cleanup :: "nat \<Rightarrow> gw \<Rightarrow> gw" where
  "cleanup r = upd_job r (\<lambda>j. j\<lparr>timer_on := False, listening := False\<rparr>)"

definition by_sequence :: "gw \<Rightarrow> nat list \<Rightarrow> nat list" where
  "by_sequence s = sort_key (\<lambda>x. qseq (jb s x))"

definition park :: "nat \<Rightarrow> string option \<Rightarrow> reason \<Rightarrow> gw \<Rightarrow> gw" where
  "park r home why s =
     (if upstream (jb s r) then fault ''Cannot park dispatched work'' s
      else
        let s1 = detach r s;
            s2 = upd_job r (\<lambda>j. j\<lparr>fixed_home := (case home of None \<Rightarrow> fixed_home j | Some w \<Rightarrow> Some w),
                   node_of := None, wait_reason := Some why\<rparr>) s1
        in if shutting s then cleanup r (emit (Rejected r GatewayDraining) s2)
           else s2\<lparr>waiting := by_sequence s2 (waiting s2 @ [r])\<rparr>)"

section \<open>Dispatch into a slot (\<open>schedule\<close>)\<close>

text \<open>The allocation of the slot that starts \<open>r\<close>: one more turn of its conversation.\<close>

definition turn_slot :: "gw \<Rightarrow> nat \<Rightarrow> slot \<Rightarrow> slot" where
  "turn_slot s r sl =
     (case qkey (jb s r) of
        None \<Rightarrow> release_turns sl
      | Some k \<Rightarrow>
          if turns s > 1 then
            let fresh = \<lparr>al_key = k, al_prio = qprio (jb s r), al_used = 0, al_until = 0\<rparr>;
                a = (case sl_alloc sl of None \<Rightarrow> fresh
                     | Some a \<Rightarrow> if al_key a = k then a else fresh)
            in sl\<lparr>sl_timer := None,
                  sl_alloc := Some (a\<lparr>al_prio := qprio (jb s r), al_used := al_used a + 1, al_until := 0\<rparr>)\<rparr>
          else release_turns sl)"

definition start_job :: "string \<Rightarrow> nat \<Rightarrow> nat \<Rightarrow> gw \<Rightarrow> gw" where
  "start_job w i r s =
     emit (Dispatched r w)
       (upd_job r (\<lambda>j. j\<lparr>timer_on := False, slot_of := Some i, dispatched_at := Some (mono s), upstream := True\<rparr>)
         (upd_slot w i (\<lambda>sl. (turn_slot s r sl)\<lparr>sl_active := Some r\<rparr>) s))"

definition slot_choice :: "string \<Rightarrow> nat \<Rightarrow> gw \<Rightarrow> nat option \<times> slot" where
  "slot_choice w i s = queued_choice s (wk s w) i (w_slots (wk s w) ! i) (jb s) (w_queue (wk s w))"

definition take_from_queue :: "string \<Rightarrow> nat \<Rightarrow> gw \<Rightarrow> gw" where
  "take_from_queue w r = upd_worker w (\<lambda>n. n\<lparr>w_queue := remove1 r (w_queue n)\<rparr>)"

definition out_of_service :: "worker \<Rightarrow> bool" where
  "out_of_service n \<longleftrightarrow> \<not> w_healthy n \<or> w_quarantine n \<noteq> None \<or> w_recovering n"

lemma detach_sel [simp]:
  "jb (detach r s) = jb s" "nodes (detach r s) = nodes s" "sessions (detach r s) = sessions s"
  "waiting (detach r s) = remove1 r (waiting s)" "shutting (detach r s) = shutting s"
  "next_seq (detach r s) = next_seq s" "trace (detach r s) = trace s" "faults (detach r s) = faults s"
  "mono (detach r s) = mono s" "turns (detach r s) = turns s" "draining (detach r s) = draining s"
  "max_queued (detach r s) = max_queued s"
  by (simp_all add: detach_def Let_def split: option.splits)

lemma detach_wk:
  "wk (detach r s) = (case node_of (jb s r) of None \<Rightarrow> wk s
     | Some w \<Rightarrow> (wk s)(w := (wk s w)\<lparr>w_queue := filter (\<lambda>x. x \<noteq> r) (w_queue (wk s w))\<rparr>))"
  by (simp add: detach_def Let_def split: option.splits)

lemma cleanup_sel [simp]:
  "wk (cleanup r s) = wk s" "nodes (cleanup r s) = nodes s" "sessions (cleanup r s) = sessions s"
  "waiting (cleanup r s) = waiting s" "shutting (cleanup r s) = shutting s"
  "next_seq (cleanup r s) = next_seq s" "trace (cleanup r s) = trace s" "faults (cleanup r s) = faults s"
  "mono (cleanup r s) = mono s" "turns (cleanup r s) = turns s" "draining (cleanup r s) = draining s"
  "jb (cleanup r s) = (jb s)(r := (jb s r)\<lparr>timer_on := False, listening := False\<rparr>)"
  by (simp_all add: cleanup_def)

lemma park_queue_length: "length (w_queue (wk (park r home why s) w)) \<le> length (w_queue (wk s w))"
  by (auto simp: park_def Let_def detach_wk split: option.splits)

lemma slot_choice_mem: "slot_choice w i s = (Some r, sl) \<Longrightarrow> r \<in> set (w_queue (wk s w))"
  unfolding slot_choice_def by (rule queued_choice_mem)

lemma fill_slot_shrinks:
  assumes "slot_choice w i s = (Some r, sl)"
  shows "length (w_queue (wk (park r home why (take_from_queue w r (upd_slot w i f s))) w)) <
    length (w_queue (wk s w))"
proof -
  let ?s2 = "take_from_queue w r (upd_slot w i f s)"
  have "r \<in> set (w_queue (wk s w))" using assms by (rule slot_choice_mem)
  then have "length (w_queue (wk ?s2 w)) < length (w_queue (wk s w))"
    using length_pos_if_in_set [of r "w_queue (wk s w)"]
    by (simp add: take_from_queue_def length_remove1)
  moreover have "length (w_queue (wk (park r home why ?s2) w)) \<le> length (w_queue (wk ?s2 w))"
    by (rule park_queue_length)
  ultimately show ?thesis by (rule le_less_trans [rotated])
qed

function fill_slot :: "string \<Rightarrow> nat \<Rightarrow> gw \<Rightarrow> bool \<times> gw" where
  "fill_slot w i s =
     (case slot_choice w i s of
        (None, sl) \<Rightarrow> (False, upd_slot w i (\<lambda>_. sl) s)
      | (Some r, sl) \<Rightarrow>
          if out_of_service (wk s w)
          then fill_slot w i (park r (Some w) (unavailable_reason (wk s w))
                 (take_from_queue w r (upd_slot w i (\<lambda>_. sl) s)))
          else (True, start_job w i r (take_from_queue w r (upd_slot w i (\<lambda>_. sl) s))))"
  by pat_completeness auto
termination
  by (relation "measure (\<lambda>(w, i, s). length (w_queue (wk s w)))")
    (use fill_slot_shrinks in \<open>auto dest: sym\<close>)

declare fill_slot.simps [simp del]

definition ensure_slot :: "string \<Rightarrow> nat \<Rightarrow> gw \<Rightarrow> gw" where
  "ensure_slot w i s =
     (if i < length (w_slots (wk s w)) then s
      else upd_worker w (\<lambda>n. n\<lparr>w_slots := w_slots n @ [empty_slot]\<rparr>) s)"

text \<open>\<open>queuedChoice(node, {}, node.queue)\<close>: could a fresh slot start anything?\<close>

definition fresh_choice :: "string \<Rightarrow> gw \<Rightarrow> nat option" where
  "fresh_choice w s =
     fst (queued_choice s (wk s w) (length (w_slots (wk s w))) empty_slot (jb s) (w_queue (wk s w)))"

fun schedule_slots :: "string \<Rightarrow> nat list \<Rightarrow> gw \<Rightarrow> gw" where
  "schedule_slots w [] s = s"
| "schedule_slots w (i # is) s =
     (if w_queue (wk s w) = [] then s
      else
        let s1 = ensure_slot w i s
        in if sl_active (w_slots (wk s1 w) ! i) \<noteq> None then schedule_slots w is s1
           else
             let (started, s2) = fill_slot w i s1
             in if \<not> started \<and> length (w_slots (wk s2 w)) \<le> Suc i \<and> fresh_choice w s2 = None then s2
                else schedule_slots w is s2)"

definition schedule :: "string \<Rightarrow> gw \<Rightarrow> gw" where
  "schedule w s =
     (if \<not> has_capacity (wk s w) then s
      else schedule_slots w [0..<request_capacity (wk s w)]
             (upd_worker w (\<lambda>n. n\<lparr>w_queue := filter (\<lambda>r. \<not> qcancelled (jb s r)) (w_queue n)\<rparr>) s))"

section \<open>Admission to a worker's queue (\<open>admit\<close>)\<close>

definition claim_home :: "nat \<Rightarrow> string \<Rightarrow> gw \<Rightarrow> bool \<times> gw" where
  "claim_home r w s = (case qkey (jb s r) of
      None \<Rightarrow> (True, s)
    | Some k \<Rightarrow> if store_get s k = Some w then (True, s) else store_set k w s)"

definition enqueue :: "nat \<Rightarrow> string \<Rightarrow> gw \<Rightarrow> gw" where
  "enqueue r w s =
     (let s1 = upd_job r (\<lambda>j. j\<lparr>node_of := Some w, recorded := True, wait_reason := None\<rparr>) (detach r s)
      in upd_worker w (\<lambda>n. n\<lparr>w_queue := by_sequence s1 (w_queue n @ [r])\<rparr>) s1)"

definition admit :: "nat \<Rightarrow> string \<Rightarrow> gw \<Rightarrow> gw" where
  "admit r w s =
     (if \<not> allows_worker (route (jb s r)) w (wk s w)
      then fault ''Model route does not allow this worker'' s
      else
        let (ok, s0) = claim_home r w s
        in if \<not> ok then cleanup r (emit (Rejected r AffinityWriteFailed) (detach r s0))
           else schedule w (enqueue r w s0))"

section \<open>Parked requests and flexible Genie work\<close>

definition parked_for :: "gw \<Rightarrow> string \<Rightarrow> nat list" where
  "parked_for s w = filter (\<lambda>r. fixed_home (jb s r) = Some w) (waiting s)"

definition candidate_view :: "gw \<Rightarrow> prio \<Rightarrow> nat \<Rightarrow> nat option \<Rightarrow> qjob" where
  "candidate_view s p arrival x = (case x of
      None \<Rightarrow> \<lparr>qkey = None, qprio = p, qcancelled = False, qseq = arrival\<rparr>
    | Some r \<Rightarrow> qjob.truncate (jb s r))"

definition in_service :: "worker \<Rightarrow> bool" where
  "in_service n \<longleftrightarrow> w_healthy n \<and> \<not> w_drained n \<and> w_quarantine n = None \<and> \<not> w_recovering n"

definition genie_ready :: "gw \<Rightarrow> string list option \<Rightarrow> prio \<Rightarrow> nat \<Rightarrow> string \<Rightarrow> bool" where
  "genie_ready s rt p arrival w \<longleftrightarrow>
     allows_worker rt w (wk s w) \<and> in_service (wk s w) \<and> \<not> w_removed (wk s w) \<and> has_capacity (wk s w) \<and>
     can_start_now s (wk s w) (candidate_view s p arrival) None
       (map Some (w_queue (wk s w)) @ map Some (parked_for s w) @ [None])"

definition free_genie_node :: "gw \<Rightarrow> string list option \<Rightarrow> prio \<Rightarrow> nat \<Rightarrow> string option" where
  "free_genie_node s rt p arrival =
     first_by (\<lambda>w. (store_count s w, collate s w)) (filter (genie_ready s rt p arrival) (nodes s))"

section \<open>Resuming parked requests (\<open>pumpWaiting\<close>)\<close>

definition set_wait :: "nat \<Rightarrow> reason \<Rightarrow> gw \<Rightarrow> gw" where
  "set_wait r why = upd_job r (\<lambda>j. j\<lparr>wait_reason := Some why\<rparr>)"

definition admit_or_full :: "nat \<Rightarrow> string \<Rightarrow> gw \<Rightarrow> gw" where
  "admit_or_full r w s =
     (if max_queued s \<le> length (w_queue (wk s w)) \<and>
         \<not> can_start_now s (wk s w) (jb s) r (by_sequence s (w_queue (wk s w) @ [r]))
      then set_wait r QueueFull s
      else admit r w s)"

definition admit_unless_owned :: "nat \<Rightarrow> string \<Rightarrow> (string \<times> reason) option \<Rightarrow> gw \<Rightarrow> gw" where
  "admit_unless_owned r w outstanding s = (case outstanding of
      Some (ow, why) \<Rightarrow> if ow \<noteq> w then set_wait r why s else admit_or_full r w s
    | None \<Rightarrow> admit_or_full r w s)"

definition known_home :: "gw \<Rightarrow> nat \<Rightarrow> string option" where
  "known_home s r = (case job_home s r of None \<Rightarrow> None
     | Some h \<Rightarrow> if h \<in> set (nodes s) then Some h else None)"

definition earlier_waiting :: "gw \<Rightarrow> nat \<Rightarrow> bool" where
  "earlier_waiting s r \<longleftrightarrow> qkey (jb s r) \<noteq> None \<and>
     (\<exists>x \<in> set (waiting s). x \<noteq> r \<and> qseq (jb s x) < qseq (jb s r) \<and> qkey (jb s x) = qkey (jb s r))"

definition pump_free :: "nat \<Rightarrow> gw \<Rightarrow> gw" where
  "pump_free r s =
     (let rt = route (jb s r); outstanding = session_work s (qkey (jb s r));
          place = (\<lambda>n s. case n of None \<Rightarrow> set_wait r NoReadyWorker s
                   | Some w \<Rightarrow> admit_unless_owned r w outstanding s)
      in case known_home s r of
           Some h \<Rightarrow>
             if allows_worker rt h (wk s h) \<and> in_service (wk s h) then place (Some h) s
             else (case outstanding of
                 Some (_, why) \<Rightarrow> set_wait r why s
               | None \<Rightarrow>
                   let s1 = upd_job r (\<lambda>j. j\<lparr>affinity := AffReassigned\<rparr>) s
                   in place (case pick s (Some h) rt of Some w \<Rightarrow> Some w | None \<Rightarrow> pick s None rt) s1)
         | None \<Rightarrow> place (pick s None rt) s)"

definition pump_one :: "nat \<Rightarrow> gw \<Rightarrow> gw" where
  "pump_one r s =
     (let j = jb s r
      in if qcancelled j then s
         else if genie_flexible j then
           (case free_genie_node s (route j) (qprio j) (qseq j) of
              Some w \<Rightarrow> admit r w s
            | None \<Rightarrow> set_wait r NoReadyWorker s)
         else if earlier_waiting s r then set_wait r SameSessionQueued s
         else (case fixed_home j of
             Some h \<Rightarrow>
               if w_removed (wk s h) \<or> \<not> in_service (wk s h)
               then set_wait r (unavailable_reason (wk s h)) s
               else admit_unless_owned r h (session_work s (qkey j)) s
           | None \<Rightarrow> pump_free r s))"

section \<open>Queued handover\<close>

datatype reloc_reason =
    OfferReady
  | SourceNotActive
  | AlreadyDispatched
  | ConflictActive
  | ConflictQueued
  | ConflictWaiting
  | NoIdleDestination
  | DurableHomeMismatch

definition eligible_destination :: "gw \<Rightarrow> string \<Rightarrow> bool" where
  "eligible_destination s w \<longleftrightarrow> in_service (wk s w) \<and> \<not> w_removed (wk s w) \<and>
     active_jobs (wk s w) = [] \<and> w_queue (wk s w) = []"

definition other_queued :: "gw \<Rightarrow> nat \<Rightarrow> string \<Rightarrow> bool" where
  "other_queued s r w \<longleftrightarrow> (\<exists>x \<in> set (w_queue (wk s w)).
     x \<noteq> r \<and> \<not> qcancelled (jb s x) \<and> qkey (jb s x) = qkey (jb s r))"

definition conflicting_work :: "gw \<Rightarrow> nat \<Rightarrow> (string option \<times> reloc_reason) option" where
  "conflicting_work s r = (case qkey (jb s r) of
      None \<Rightarrow> None
    | Some k \<Rightarrow> (case find (runs_key s k) (nodes s) of
        Some w \<Rightarrow> Some (Some w, ConflictActive)
      | None \<Rightarrow> (case find (other_queued s r) (nodes s) of
          Some w \<Rightarrow> Some (Some w, ConflictQueued)
        | None \<Rightarrow>
            if \<exists>x \<in> set (waiting s). x \<noteq> r \<and> \<not> qcancelled (jb s x) \<and> qkey (jb s x) = Some k
            then Some (None, ConflictWaiting) else None)))"

definition next_queued :: "gw \<Rightarrow> string \<Rightarrow> nat option" where
  "next_queued s w = map_option (\<lambda>i. w_queue (wk s w) ! i) (priority_index (jb s) (w_queue (wk s w)))"

record decision =
  d_job :: nat
  d_destination :: "string option"
  d_reason :: reloc_reason
  d_conflict :: "(string option \<times> reloc_reason) option"

definition relocation_decision :: "gw \<Rightarrow> string \<Rightarrow> string list \<Rightarrow> decision option" where
  "relocation_decision s src idle = (case next_queued s src of
      None \<Rightarrow> None
    | Some r \<Rightarrow>
        let j = jb s r;
            c = (if active_jobs (wk s src) = [] \<or> upstream j \<or> dispatched_at j \<noteq> None then None
                 else conflicting_work s r);
            r1 = (if active_jobs (wk s src) = [] then SourceNotActive
                  else if upstream j \<or> dispatched_at j \<noteq> None then AlreadyDispatched
                  else case c of Some (_, why) \<Rightarrow> why | None \<Rightarrow> OfferReady);
            dst = find (\<lambda>w. w \<noteq> src \<and> allows_worker (route j) w (wk s w)) idle;
            r2 = (if r1 = OfferReady \<and> dst = None then NoIdleDestination else r1);
            r3 = (if r2 = OfferReady \<and> qkey j \<noteq> None \<and> job_home s r \<noteq> Some src
                  then DurableHomeMismatch else r2)
        in Some \<lparr>d_job = r, d_destination = (if r3 = OfferReady then dst else None),
                 d_reason = r3, d_conflict = c\<rparr>)"

definition relocation_evidence :: "gw \<Rightarrow> nat \<Rightarrow> string \<Rightarrow> string \<Rightarrow> string" where
  "relocation_evidence s r src dst =
     evidence_digest s (job_id (jb s r), src, dst, qseq (jb s r), created_wall (jb s r))"

record offer =
  o_job :: nat
  o_source :: string
  o_destination :: string
  o_evidence :: string
  o_waited :: rat
  o_queued :: nat

definition idle_destinations :: "gw \<Rightarrow> string list" where
  "idle_destinations s =
     sort_key (\<lambda>w. (store_count s w, collate s w)) (filter (eligible_destination s) (nodes s))"

definition waited_seconds :: "gw \<Rightarrow> nat \<Rightarrow> rat" where
  "waited_seconds s r = max 0 ((mono s - created_at (jb s r)) / 1000)"

definition make_offer :: "gw \<Rightarrow> string list \<Rightarrow> string \<Rightarrow> offer option" where
  "make_offer s idle src = (case relocation_decision s src idle of
      None \<Rightarrow> None
    | Some d \<Rightarrow> (case d_destination d of
        None \<Rightarrow> None
      | Some dst \<Rightarrow> Some \<lparr>o_job = d_job d, o_source = src, o_destination = dst,
            o_evidence = relocation_evidence s (d_job d) src dst,
            o_waited = waited_seconds s (d_job d),
            o_queued = length (filter (\<lambda>r. \<not> qcancelled (jb s r)) (w_queue (wk s src)))\<rparr>))"

definition relocation_offers :: "gw \<Rightarrow> offer list" where
  "relocation_offers s =
     (if shutting s \<or> draining s then []
      else let idle = idle_destinations s
           in if idle = [] then [] else take 32 (List.map_filter (make_offer s idle) (nodes s)))"

text \<open>\<open>genieRelocationOffers\<close>: what the assistant may act on; \<open>minimum\<close> in seconds.\<close>

definition genie_offers :: "bool \<Rightarrow> rat \<Rightarrow> gw \<Rightarrow> offer list" where
  "genie_offers enabled minimum s =
     (if \<not> enabled then []
      else take 8 (filter (\<lambda>f. o_queued f \<ge> 2 \<or> o_waited f \<ge> minimum) (relocation_offers s)))"

text \<open>The move itself once every check has passed.\<close>

definition move_queued :: "nat \<Rightarrow> string \<Rightarrow> string \<Rightarrow> gw \<Rightarrow> gw" where
  "move_queued r src dst s =
     (let s1 = take_from_queue src r s;
          s2 = upd_job r (\<lambda>j. j\<lparr>node_of := Some dst, affinity := AffRebalanced\<rparr>) s1;
          s3 = upd_worker dst (\<lambda>n. n\<lparr>w_queue := w_queue n @ [r]\<rparr>) s2
      in schedule dst (emit (Relocated r src dst) (s3\<lparr>relocated := relocated s3 + 1\<rparr>)))"

definition relocation_allowed :: "string \<Rightarrow> string \<Rightarrow> string \<Rightarrow> string \<Rightarrow> gw \<Rightarrow> nat option" where
  "relocation_allowed rid src dst evidence s =
     (if src \<notin> set (nodes s) \<or> dst \<notin> set (nodes s) \<or> src = dst then None
      else case next_queued s src of
        None \<Rightarrow> None
      | Some r \<Rightarrow>
          let j = jb s r
          in if job_id j \<noteq> rid then None
             else if qcancelled j \<or> upstream j \<or> dispatched_at j \<noteq> None \<or>
               active_jobs (wk s src) = [] \<or> \<not> eligible_destination s dst \<or>
               \<not> allows_worker (route j) dst (wk s dst) then None
             else if relocation_evidence s r src dst \<noteq> evidence then None
             else if conflicting_work s r \<noteq> None then None
             else if qkey j \<noteq> None \<and> job_home s r \<noteq> Some src then None
             else Some r)"

definition reject_move :: "gw \<Rightarrow> bool \<times> gw" where
  "reject_move s = (False, s\<lparr>relocation_rejected := relocation_rejected s + 1\<rparr>)"

definition relocate_queued :: "string \<Rightarrow> string \<Rightarrow> string \<Rightarrow> string \<Rightarrow> gw \<Rightarrow> bool \<times> gw" where
  "relocate_queued rid src dst evidence s =
     (case relocation_allowed rid src dst evidence s of
        None \<Rightarrow> reject_move s
      | Some r \<Rightarrow>
          let (ok, s1) = (case qkey (jb s r) of None \<Rightarrow> (True, s) | Some k \<Rightarrow> store_set k dst s)
          in if \<not> ok then reject_move s1 else (True, move_queued r src dst s1))"

definition automatic_offer :: "gw \<Rightarrow> offer \<Rightarrow> bool" where
  "automatic_offer s f \<longleftrightarrow> next_queued s (o_source f) \<noteq> None \<and>
     (case next_queued s (o_source f) of None \<Rightarrow> False
      | Some r \<Rightarrow> affinity (jb s r) = AffNew \<or> affinity (jb s r) = AffNone \<or>
          (case auto_wait s of None \<Rightarrow> False | Some t \<Rightarrow> o_waited f * 1000 \<ge> t))"

definition offer_order :: "gw \<Rightarrow> offer \<Rightarrow> nat \<times> rat \<times> nat" where
  "offer_order s f = (2 - priority_rank (qprio (jb s (o_job f))), - o_waited f, collate s (o_source f))"

definition rebalance_undispatched :: "gw \<Rightarrow> gw" where
  "rebalance_undispatched s =
     (case first_by (offer_order s) (filter (automatic_offer s) (relocation_offers s)) of
        None \<Rightarrow> s
      | Some f \<Rightarrow>
          snd (relocate_queued (job_id (jb s (o_job f))) (o_source f) (o_destination f) (o_evidence f) s))"

definition pump_waiting :: "gw \<Rightarrow> gw" where
  "pump_waiting s =
     (if shutting s then s
      else rebalance_undispatched (fold pump_one (priority_order (jb s) (waiting s)) s))"

end
