(* ===== verification/Gate_Requests.thy ===== *)
theory Gate_Requests
  imports Gate_Schedule
begin

text \<open>
  The life of a request in \<open>gateway.mjs\<close>: the HTTP handler that admits, parks or refuses it, its
  cancellation and queue deadline, and the settlement of a dispatched request.
\<close>

section \<open>Refusals and identifiers (\<open>continuity.mjs\<close>)\<close>

definition valid_call_id :: "js \<Rightarrow> string option" where
  "valid_call_id v = (case v of JStr s \<Rightarrow> if uuid_text s then Some (map lower_char s) else None | _ \<Rightarrow> None)"

datatype retry_class = OperatorRequired | WaitThenRetry

definition retry_class_of :: "reason \<Rightarrow> retry_class" where
  "retry_class_of r = (if r = AffinityWriteFailed then OperatorRequired else WaitThenRetry)"

section \<open>Admission of a request\<close>

text \<open>
  What the handler reads of an authorized request on an allowlisted route. \<open>rq_key\<close> is the
  digest of the first affinity header of a POST; \<open>rq_genie\<close> is the traffic class.
\<close>

record request =
  rq_post :: bool
  rq_key :: "string option"
  rq_priority :: js
  rq_route :: js
  rq_id :: string
  rq_genie :: bool
  rq_flexible :: bool
  rq_nowait :: bool

datatype reply =
    PriorityRefused
  | RouteRefused
  | RefusedWith reason
  | ModelsFrom string
  | Accepted nat

definition queue_bound :: "gw \<Rightarrow> nat" where
  "queue_bound s = max_queued s"

definition waiting_bound :: "gw \<Rightarrow> nat" where
  "waiting_bound s = max 1 (length (nodes s)) * queue_bound s"

definition home_of :: "gw \<Rightarrow> string option \<Rightarrow> string option" where
  "home_of s ko = (case ko of None \<Rightarrow> None | Some k \<Rightarrow> store_get s k)"

definition registered :: "gw \<Rightarrow> string option \<Rightarrow> string option" where
  "registered s h = (case h of None \<Rightarrow> None | Some w \<Rightarrow> if w \<in> set (nodes s) then Some w else None)"

text \<open>The worker an arriving request is placed on, why it must wait, and its affinity.\<close>

definition first_place ::
  "gw \<Rightarrow> string option \<Rightarrow> string list option \<Rightarrow> string option \<times> reason option \<times> affinity" where
  "first_place s ko rt =
     (let home = home_of s ko;
          aff = (if ko = None then AffNone else if home = None then AffNew else AffExisting)
      in case registered s home of
           None \<Rightarrow> (pick s None rt, None, aff)
         | Some h \<Rightarrow>
             if allows_worker rt h (wk s h) \<and> w_healthy (wk s h) \<and> \<not> w_drained (wk s h)
             then (Some h, None, aff)
             else (case session_work s ko of
                 Some (_, why) \<Rightarrow> (None, Some why, aff)
               | None \<Rightarrow>
                   (case pick s (Some h) rt of Some w \<Rightarrow> Some w | None \<Rightarrow> pick s None rt,
                    None, AffReassigned)))"

definition key_waiting :: "gw \<Rightarrow> string option \<Rightarrow> bool" where
  "key_waiting s ko \<longleftrightarrow> ko \<noteq> None \<and> (\<exists>x \<in> set (waiting s). qkey (jb s x) = ko)"

definition place_request ::
  "gw \<Rightarrow> string option \<Rightarrow> string list option \<Rightarrow> string option \<times> reason option \<times> affinity" where
  "place_request s ko rt =
     (let (n, why, aff) = first_place s ko rt
      in if key_waiting s ko then (None, Some SameSessionQueued, aff) else (n, why, aff))"

text \<open>The advisory admission check of a review that must not wait.\<close>

definition immediately_free :: "gw \<Rightarrow> string option \<Rightarrow> string option \<Rightarrow> reason option \<Rightarrow> bool" where
  "immediately_free s ko n why \<longleftrightarrow> ko = None \<and> why = None \<and>
     (case n of None \<Rightarrow> False
      | Some w \<Rightarrow> has_capacity (wk s w) \<and> w_queue (wk s w) = [] \<and> parked_for s w = [] \<and>
          w_quarantine (wk s w) = None \<and> \<not> w_recovering (wk s w) \<and> \<not> w_removed (wk s w))"

definition queue_is_full :: "gw \<Rightarrow> string option \<Rightarrow> bool" where
  "queue_is_full s n = (case n of
      Some w \<Rightarrow> queue_bound s \<le> length (w_queue (wk s w)) + length (parked_for s w)
    | None \<Rightarrow> waiting_bound s \<le> length (waiting s))"

definition new_job ::
  "gw \<Rightarrow> request \<Rightarrow> prio \<Rightarrow> string list option \<Rightarrow> affinity \<Rightarrow> bool \<Rightarrow> job" where
  "new_job s q p rt aff flex =
     \<lparr>qkey = rq_key q, qprio = p, qcancelled = False, qseq = next_seq s,
      job_id = rq_id q, affinity = aff, route = rt, genie_flexible = flex, fixed_home = None,
      node_of = None, wait_reason = None, dispatched_at = None, upstream = False, recorded = False,
      slot_of = None, timer_on = True, listening = True, created_at = mono s, created_wall = wall s,
      queue_timeout = timeout_ms s\<rparr>"

definition create_job :: "job \<Rightarrow> gw \<Rightarrow> gw" where
  "create_job j s = (upd_job (next_seq s) (\<lambda>_. j) s)\<lparr>next_seq := Suc (next_seq s)\<rparr>"

definition accept_request ::
  "request \<Rightarrow> prio \<Rightarrow> string list option \<Rightarrow> affinity \<Rightarrow> bool \<Rightarrow> string option \<Rightarrow> reason option \<Rightarrow>
   gw \<Rightarrow> reply \<times> gw" where
  "accept_request q p rt aff flex n why s =
     (let r = next_seq s; s1 = create_job (new_job s q p rt aff flex) s
      in (Accepted r, case n of
            Some w \<Rightarrow> admit r w s1
          | None \<Rightarrow> park r None (case why of None \<Rightarrow> NoReadyWorker | Some y \<Rightarrow> y) s1))"

definition refuse :: "reason \<Rightarrow> gw \<Rightarrow> reply \<times> gw" where
  "refuse why s = (RefusedWith why, emit (Refused why) s)"

text \<open>\<open>arrival_last\<close> is \<open>Number.MAX_SAFE_INTEGER\<close>, the default arrival of \<open>freeGenieNode\<close>.\<close>

definition arrival_last :: nat where
  "arrival_last = 9007199254740991"

definition flexible_request :: "request \<Rightarrow> bool" where
  "flexible_request q \<longleftrightarrow> rq_genie q \<and> rq_key q = None \<and> rq_flexible q"

definition post_request ::
  "request \<Rightarrow> prio \<Rightarrow> string list option \<Rightarrow> string option \<times> reason option \<times> affinity \<Rightarrow>
   gw \<Rightarrow> reply \<times> gw" where
  "post_request q p rt place s =
     (let (n0, why0, aff) = place;
          flex = flexible_request q;
          n = (if flex then free_genie_node s rt p arrival_last else n0);
          why = (if flex then (if n = None then Some NoReadyWorker else None) else why0)
      in if rq_genie q \<and> rq_nowait q \<and> \<not> immediately_free s (rq_key q) n why
         then refuse NoReadyWorker s
         else if queue_is_full s n then refuse QueueFull s
         else accept_request q p rt aff flex n why s)"

definition on_request ::
  "(string \<times> string list) list option \<Rightarrow> request \<Rightarrow> gw \<Rightarrow> reply \<times> gw" where
  "on_request routes q s =
     (case request_priority (rq_priority q) of
        Inl _ \<Rightarrow> (PriorityRefused, s)
      | Inr p \<Rightarrow>
          if draining s then refuse GatewayDraining s
          else (case route_selection routes (rq_route q) of
              Inl _ \<Rightarrow> (RouteRefused, s)
            | Inr rt \<Rightarrow>
                let place = place_request s (rq_key q) rt
                in if \<not> rq_post q then
                     (case fst place of
                        None \<Rightarrow> refuse NoReadyWorker s
                      | Some w \<Rightarrow> (ModelsFrom w, s))
                   else post_request q p rt place s))"

section \<open>Cancellation and the queue deadline\<close>

definition cancel :: "bool \<Rightarrow> nat \<Rightarrow> gw \<Rightarrow> gw" where
  "cancel response_finished r s =
     (if response_finished then s
      else
        let s1 = upd_job r (\<lambda>j. j\<lparr>qcancelled := True\<rparr>) s
        in if upstream (jb s r) then s1
           else pump_waiting (emit (CancelledQueued r) (cleanup r (detach r s1))))"

definition queue_deadline :: "nat \<Rightarrow> gw \<Rightarrow> gw" where
  "queue_deadline r s =
     pump_waiting (cleanup r (emit (QueueTimeout r) (emit (Rejected r QueueDeadline) (detach r s))))"

section \<open>Settlement of a dispatched request\<close>

definition quarantine :: "string \<Rightarrow> string \<Rightarrow> gw \<Rightarrow> gw" where
  "quarantine w why s =
     (if w_quarantine (wk s w) \<noteq> None then s
      else
        let s1 = upd_worker w (\<lambda>n. n\<lparr>w_quarantine := Some why, w_healthy := False\<rparr>) s;
            (ok, s2) = save_ok s1
        in if ok then s2 else s2\<lparr>draining := True\<rparr>)"

definition server_failure :: "outcome \<Rightarrow> bool" where
  "server_failure out = (case out of
      UpstreamHttpError c \<Rightarrow> c \<ge> 500
    | IncompleteSse \<Rightarrow> True | UpstreamEngineError \<Rightarrow> True | UpstreamError \<Rightarrow> True
    | UpstreamStreamError \<Rightarrow> True | UpstreamAborted \<Rightarrow> True | ConnectionClosed \<Rightarrow> True
    | _ \<Rightarrow> False)"

text \<open>The evidence part of \<open>finish\<close>: a generation fault quarantines, three server failures in a
  row quarantine, a completed request clears the count.\<close>

definition judge :: "string \<Rightarrow> nat \<Rightarrow> outcome \<Rightarrow> string option \<Rightarrow> gw \<Rightarrow> outcome \<times> gw" where
  "judge w r out evidence s = (case evidence of
      Some f \<Rightarrow> (if out = Complete then UpstreamEngineError else out, quarantine w f s)
    | None \<Rightarrow>
        if \<not> qcancelled (jb s r) \<and> server_failure out then
          (let s1 = upd_worker w (\<lambda>n. n\<lparr>w_inference_failures := w_inference_failures n + 1\<rparr>) s
           in (out, if w_inference_failures (wk s1 w) \<ge> 3
                    then quarantine w ''repeated_inference_failures'' s1 else s1))
        else if out = Complete then (out, upd_worker w (\<lambda>n. n\<lparr>w_inference_failures := 0\<rparr>) s)
        else (out, s))"

definition count_outcome :: "outcome \<Rightarrow> worker \<Rightarrow> worker" where
  "count_outcome out n =
     (if out = Complete then n\<lparr>w_completed := w_completed n + 1\<rparr>
      else if out = VisionGuidance then n\<lparr>w_protected := w_protected n + 1\<rparr>
      else if out = ObservationLimited then n\<lparr>w_limited := w_limited n + 1\<rparr>
      else n\<lparr>w_failed := w_failed n + 1\<rparr>)"

text \<open>The clean-up part of \<open>finish\<close>: the request leaves its slot and the turn of its
  conversation ends.\<close>

definition release_job :: "string \<Rightarrow> nat \<Rightarrow> nat \<Rightarrow> outcome \<Rightarrow> gw \<Rightarrow> gw" where
  "release_job w i r out s =
     (let s1 = upd_job r (\<lambda>j. j\<lparr>upstream := False\<rparr>) (cleanup r s)
      in upd_slot w i (\<lambda>sl. finish_turn s1 (sl\<lparr>sl_active := None\<rparr>) out) s1)"

definition finish_job :: "nat \<Rightarrow> outcome \<Rightarrow> string option \<Rightarrow> gw \<Rightarrow> gw" where
  "finish_job r out evidence s = (case (node_of (jb s r), slot_of (jb s r)) of
      (Some w, Some i) \<Rightarrow>
        if \<not> upstream (jb s r) then s
        else
          let (out', s1) = judge w r out evidence s;
              s2 = emit (Finished r w out') (upd_worker w (count_outcome out') s1)
          in schedule w (pump_waiting (release_job w i r out' s2))
    | _ \<Rightarrow> s)"

text \<open>How a response ends: the outcome of a forwarded response (\<open>forwardResponse\<close>).\<close>

datatype stream_end =
    Terminal
  | TerminalWithoutDone
  | TerminalWithoutFinishReason
  | TerminalReasonUnobserved
  | EngineError
  | ObservationLimit
  | EncodedUnobserved
  | Truncated

definition response_outcome :: "int \<Rightarrow> stream_end option \<Rightarrow> outcome" where
  "response_outcome status stream =
     (if status \<ge> 400 then UpstreamHttpError status
      else case stream of
        None \<Rightarrow> Complete
      | Some e \<Rightarrow>
          if e = EngineError then UpstreamEngineError
          else if e \<in> {Terminal, TerminalWithoutDone, TerminalWithoutFinishReason, TerminalReasonUnobserved}
          then Complete
          else if e \<in> {ObservationLimit, EncodedUnobserved} then ObservationLimited
          else IncompleteSse)"

end
