(* ===== verification/Gate_Control.thy ===== *)
theory Gate_Control
  imports Gate_Requests
begin

text \<open>
  The operator operations of \<open>gateway.mjs\<close> that change the scheduler's state (the control socket,
  the health probe, recovery, the timers, drain and shutdown), and the step relation of the whole
  core: every event that can reach it, in any order.
\<close>

section \<open>Errors of the control operations\<close>

datatype control_error =
    BadInput
  | IsDraining
  | JobGone
  | JobRunning
  | JobPriorityChanged
  | Stale
  | UnknownWorker
  | WorkerBusy
  | WorkerParked
  | BadCapacity
  | DuplicateWorker
  | NotSaved
  | MoveRejected
  | ReinstatementStateChanged
  | NotProbed

section \<open>Priority of a queued request (\<open>setJobPriority\<close>)\<close>

definition current_jobs :: "gw \<Rightarrow> nat list" where
  "current_jobs s =
     concat (map (\<lambda>w. active_jobs (wk s w) @ w_queue (wk s w)) (nodes s)) @ waiting s"

definition schedule_all :: "gw \<Rightarrow> gw" where
  "schedule_all s = fold schedule (nodes s) s"

definition set_job_priority :: "js \<Rightarrow> gw \<Rightarrow> (control_error + nat \<times> prio \<times> prio) \<times> gw" where
  "set_job_priority input s =
     (case jget input ''request_id'' of
        JStr rid \<Rightarrow>
          if joined_keys input \<noteq> ''expected_priority,priority,request_id'' \<or> rid = [] then (Inl BadInput, s)
          else if jget input ''priority'' = JUndef \<or> jget input ''expected_priority'' = JUndef
          then (Inl BadInput, s)
          else (case (request_priority (jget input ''priority''),
                      request_priority (jget input ''expected_priority'')) of
              (Inr p, Inr expected) \<Rightarrow>
                (case find (\<lambda>r. job_id (jb s r) = rid \<and> \<not> qcancelled (jb s r)) (current_jobs s) of
                   None \<Rightarrow> (Inl JobGone, s)
                 | Some r \<Rightarrow>
                     if dispatched_at (jb s r) \<noteq> None \<or> upstream (jb s r) then (Inl JobRunning, s)
                     else if qprio (jb s r) \<noteq> expected then (Inl JobPriorityChanged, s)
                     else (Inr (r, expected, p),
                           schedule_all (pump_waiting (upd_job r (\<lambda>j. j\<lparr>qprio := p\<rparr>) s))))
            | _ \<Rightarrow> (Inl BadInput, s))
      | _ \<Rightarrow> (Inl BadInput, s))"

section \<open>Saved settings\<close>

definition stopping :: "gw \<Rightarrow> bool" where
  "stopping s \<longleftrightarrow> shutting s \<or> draining s"

text \<open>What a changed turn allowance does to a slot.\<close>

definition adjust_turns :: "gw \<Rightarrow> nat \<Rightarrow> nat \<Rightarrow> slot \<Rightarrow> slot" where
  "adjust_turns s before after sl =
     (let sl1 = (case (sl_active sl, sl_alloc sl) of
            (Some r, None) \<Rightarrow>
              (case qkey (jb s r) of
                 Some k \<Rightarrow>
                   if after > 1
                   then sl\<lparr>sl_alloc := Some \<lparr>al_key = k, al_prio = qprio (jb s r), al_used = 1, al_until = 0\<rparr>\<rparr>
                   else sl
               | None \<Rightarrow> sl)
          | _ \<Rightarrow> sl)
      in case (sl_active sl1, sl_alloc sl1) of
           (None, Some a) \<Rightarrow>
             if al_used a \<ge> before \<and> after > before then release_turns sl1
             else if al_used a \<ge> after
             then sl1\<lparr>sl_timer := None, sl_alloc := Some (a\<lparr>al_until := 0\<rparr>)\<rparr>
             else sl1
         | _ \<Rightarrow> sl1)"

definition apply_turns :: "nat \<Rightarrow> string \<Rightarrow> gw \<Rightarrow> gw" where
  "apply_turns before w s =
     schedule w (upd_worker w (\<lambda>n. n\<lparr>w_slots := map (adjust_turns s before (turns s)) (w_slots n)\<rparr>) s)"

definition positive_int :: "js \<Rightarrow> nat option" where
  "positive_int v = (case safe_int v of None \<Rightarrow> None | Some n \<Rightarrow> if n < 1 then None else Some (nat n))"

definition set_conversation_turns :: "js \<Rightarrow> gw \<Rightarrow> (control_error + nat) \<times> gw" where
  "set_conversation_turns input s =
     (if stopping s then (Inl IsDraining, s)
      else if joined_keys input \<noteq> ''conversation_turns,expected_conversation_turns''
      then (Inl BadInput, s)
      else case positive_int (jget input ''conversation_turns'') of
          None \<Rightarrow> (Inl BadInput, s)
        | Some n \<Rightarrow>
            if jget input ''expected_conversation_turns'' \<noteq> jint (int (turns s)) then (Inl Stale, s)
            else if turns s = n \<and> turns_saved s then (Inr n, s)
            else
              let before = turns s; (ok, s1) = save_ok s
              in if \<not> ok then (Inl NotSaved, s1)
                 else
                   let s2 = s1\<lparr>turns := n, turns_saved := True\<rparr>
                   in (Inr n, if before = n then s2 else fold (apply_turns before) (nodes s2) s2))"

definition set_queue_timeout :: "js \<Rightarrow> gw \<Rightarrow> (control_error + int) \<times> gw" where
  "set_queue_timeout input s =
     (if stopping s then (Inl IsDraining, s)
      else if joined_keys input \<noteq> ''expected_queue_timeout_ms,queue_timeout_ms'' then (Inl BadInput, s)
      else case positive_int (jget input ''queue_timeout_ms'') of
          None \<Rightarrow> (Inl BadInput, s)
        | Some n \<Rightarrow>
            if jget input ''expected_queue_timeout_ms'' \<noteq> jint (timeout_ms s) then (Inl Stale, s)
            else if timeout_ms s = int n \<and> timeout_saved s then (Inr (int n), s)
            else
              let (ok, s1) = save_ok s
              in if \<not> ok then (Inl NotSaved, s1)
                 else (Inr (int n), s1\<lparr>timeout_ms := int n, timeout_saved := True\<rparr>))"

section \<open>Workers\<close>

definition truncate_slots :: "nat \<Rightarrow> worker \<Rightarrow> worker" where
  "truncate_slots c n = n\<lparr>w_capacity := Some c, w_slots := take c (w_slots n)\<rparr>"

definition set_worker_concurrency :: "js \<Rightarrow> gw \<Rightarrow> (control_error + nat) \<times> gw" where
  "set_worker_concurrency input s =
     (if stopping s then (Inl IsDraining, s)
      else if joined_keys input \<noteq> ''expected_max_concurrent_requests,id,max_concurrent_requests''
      then (Inl BadInput, s)
      else case jget input ''id'' of
          JStr w \<Rightarrow>
            if w \<notin> set (nodes s) then (Inl UnknownWorker, s)
            else
              let n = wk s w; before = request_capacity n
              in if jget input ''expected_max_concurrent_requests'' \<noteq> jint (int before) then (Inl Stale, s)
                 else if \<not> w_drained n \<or> active_count n \<noteq> 0 \<or> w_queue n \<noteq> [] \<or> parked_for s w \<noteq> [] \<or>
                   w_recovering n then (Inl WorkerBusy, s)
                 else (case positive_int (jget input ''max_concurrent_requests'') of
                     None \<Rightarrow> (Inl BadCapacity, s)
                   | Some c \<Rightarrow>
                       if c = before then (Inr c, s)
                       else
                         let (ok, s1) = save_ok s
                         in if \<not> ok then (Inl NotSaved, s1)
                            else (Inr c, upd_worker w (truncate_slots c) s1))
        | _ \<Rightarrow> (Inl UnknownWorker, s))"

text \<open>\<open>drainNodes\<close>; \<open>held\<close> says that an agent hold on one of the workers refuses the change.\<close>

definition drain_nodes :: "bool \<Rightarrow> string list \<Rightarrow> bool \<Rightarrow> gw \<Rightarrow> (control_error + unit) \<times> gw" where
  "drain_nodes held ids d s =
     (if ids = [] \<or> \<not> set ids \<subseteq> set (nodes s) then (Inl UnknownWorker, s)
      else if held then (Inl WorkerBusy, s)
      else
        let (ok, s1) = save_ok s
        in if \<not> ok then (Inl NotSaved, s1)
           else (Inr (), fold (\<lambda>w. upd_worker w (\<lambda>n. n\<lparr>w_drained := d\<rparr>)) ids s1))"

text \<open>
  The \<open>/resume-workers\<close> operation. \<open>expected_ok\<close>: the operator and maintenance actions the caller
  expects are still the last ones; \<open>probed w\<close>: a fresh compatible probe succeeded; \<open>verified\<close>: the
  generation check of every quarantined worker passed.
\<close>

definition resume_one :: "worker \<Rightarrow> worker" where
  "resume_one n =
     (let m = (if w_quarantine n \<noteq> None
               then n\<lparr>w_quarantine := None, w_inference_failures := 0, w_healthy := True\<rparr> else n)
      in m\<lparr>w_drained := False\<rparr>)"

definition resume_workers ::
  "bool \<Rightarrow> bool \<Rightarrow> (string \<Rightarrow> bool) \<Rightarrow> bool \<Rightarrow> string list \<Rightarrow> gw \<Rightarrow> (control_error + unit) \<times> gw" where
  "resume_workers expected_ok held probed verified ids s =
     (let selected = filter (\<lambda>w. w \<in> set ids) (nodes s);
          suspects = filter (\<lambda>w. w_quarantine (wk s w) \<noteq> None) selected
      in if ids = [] \<or> \<not> set ids \<subseteq> set (nodes s) then (Inl UnknownWorker, s)
         else if \<not> expected_ok then (Inl Stale, s)
         else if held \<or> (\<exists>w \<in> set selected. w_recovering (wk s w)) then (Inl WorkerBusy, s)
         else if \<exists>w \<in> set selected. \<not> probed w then (Inl NotProbed, s)
         else if \<exists>w \<in> set suspects. active_jobs (wk s w) \<noteq> [] \<or> w_queue (wk s w) \<noteq> []
         then (Inl WorkerBusy, s)
         else if suspects \<noteq> [] \<and> \<not> verified then (Inl NotProbed, s)
         else if suspects \<noteq> [] \<and> stopping s then (Inl IsDraining, s)
         else
           let (ok, s1) = save_ok s
           in if \<not> ok then (Inl NotSaved, s1)
              else (Inr (), fold (\<lambda>w. upd_worker w resume_one) selected s1))"

definition fresh_worker :: "bool \<Rightarrow> nat option \<Rightarrow> string option \<Rightarrow> worker" where
  "fresh_worker route_only cap q =
     \<lparr>w_healthy = (q = None), w_drained = True, w_quarantine = q, w_recovering = False, w_removed = False,
      w_capacity = cap, w_route_only = route_only, w_slots = [empty_slot], w_queue = [],
      w_completed = 0, w_failed = 0, w_protected = 0, w_limited = 0, w_inference_failures = 0,
      w_failures = 0, w_reserved_until = None\<rparr>"

text \<open>\<open>addWorker\<close> after its compatibility probe: a worker joins paused.\<close>

definition add_worker ::
  "string \<Rightarrow> bool \<Rightarrow> nat option \<Rightarrow> string option \<Rightarrow> gw \<Rightarrow> (control_error + unit) \<times> gw" where
  "add_worker w route_only cap q s =
     (if stopping s then (Inl IsDraining, s)
      else if w \<in> set (nodes s) then (Inl DuplicateWorker, s)
      else if cap = Some 0 then (Inl BadCapacity, s)
      else
        let (ok, s1) = save_ok s
        in if \<not> ok then (Inl NotSaved, s1)
           else (Inr (), upd_worker w (\<lambda>_. fresh_worker route_only cap q) (s1\<lparr>nodes := nodes s1 @ [w]\<rparr>)))"

definition remove_worker :: "string \<Rightarrow> gw \<Rightarrow> (control_error + unit) \<times> gw" where
  "remove_worker w s =
     (if shutting s then (Inl IsDraining, s)
      else if w \<notin> set (nodes s) then (Inl UnknownWorker, s)
      else if parked_for s w \<noteq> [] then (Inl WorkerParked, s)
      else if \<not> w_drained (wk s w) \<or> active_jobs (wk s w) \<noteq> [] \<or> w_queue (wk s w) \<noteq> []
      then (Inl WorkerBusy, s)
      else
        let (ok, s1) = save_ok s
        in if \<not> ok then (Inl NotSaved, s1)
           else (Inr (), upd_worker w (\<lambda>n. n\<lparr>w_removed := True\<rparr>)
                   (s1\<lparr>nodes := remove1 w (nodes s1)\<rparr>)))"

section \<open>Health, recovery and reservations\<close>

text \<open>The end of a health probe; \<open>streaming\<close>: it timed out while inference bytes kept arriving.\<close>

definition probe_finished :: "nat \<Rightarrow> string \<Rightarrow> bool \<Rightarrow> bool \<Rightarrow> gw \<Rightarrow> gw" where
  "probe_finished limit w ok streaming s =
     (if \<not> ok \<and> streaming then s
      else upd_worker w (\<lambda>n.
        if ok then n\<lparr>w_failures := 0, w_healthy := (w_quarantine n = None \<and> \<not> w_recovering n)\<rparr>
        else n\<lparr>w_failures := w_failures n + 1,
               w_healthy := (w_healthy n \<and> w_failures n + 1 < limit)\<rparr>) s)"

definition begin_recovery :: "string \<Rightarrow> gw \<Rightarrow> gw" where
  "begin_recovery w = upd_worker w (\<lambda>n. n\<lparr>w_recovering := True, w_healthy := False\<rparr>)"

definition end_recovery :: "bool \<Rightarrow> string \<Rightarrow> gw \<Rightarrow> gw" where
  "end_recovery recovered w = upd_worker w (\<lambda>n. n\<lparr>w_recovering := False,
     w_healthy := (w_healthy n \<and> recovered)\<rparr>)"

definition reinstate :: "string \<Rightarrow> string option \<Rightarrow> gw \<Rightarrow> (control_error + unit) \<times> gw" where
  "reinstate w expected s =
     (let n = wk s w
      in if w_removed n \<or> w_drained n \<or> active_jobs n \<noteq> [] \<or> w_queue n \<noteq> [] \<or>
            w_quarantine n \<noteq> expected \<or> stopping s
         then (Inl ReinstatementStateChanged, s)
         else
           let (ok, s1) = save_ok s
           in if \<not> ok then (Inl NotSaved, s1)
              else (Inr (), upd_worker w (\<lambda>n. n\<lparr>w_quarantine := None, w_inference_failures := 0,
                      w_healthy := True, w_failures := 0\<rparr>) s1))"

text \<open>\<open>observeDirectActivity\<close>: \<open>metrics\<close> is the connection state, the running count and the time
  of an engine report.\<close>

definition observe_direct_activity :: "string \<Rightarrow> bool \<Rightarrow> int \<Rightarrow> rat \<Rightarrow> gw \<Rightarrow> gw" where
  "observe_direct_activity w linked running seen s =
     (if \<not> linked \<or> wall s - seen \<ge> 15000 then s
      else if running > 0 \<and> active_count (wk s w) = 0
      then upd_worker w (\<lambda>n. n\<lparr>w_reserved_until := Some (wall s + reserve_ms s)\<rparr>) s
      else s)"

section \<open>Handover on request (\<open>relocateQueued\<close>)\<close>

definition relocate_request :: "(js \<Rightarrow> string) \<Rightarrow> js \<Rightarrow> gw \<Rightarrow> (control_error + unit) \<times> gw" where
  "relocate_request str input s =
     (let rid = jget input ''request_id''; src = jget input ''source'';
          dst = jget input ''destination''; ev = jget input ''evidence_id''
      in if joined_keys input \<noteq> ''destination,evidence_id,request_id,source'' \<or> valid_call_id rid = None \<or>
            \<not> digest_text (js_text str ev) \<or> \<not> id_text (js_text str src) \<or> \<not> id_text (js_text str dst)
         then (Inl BadInput, s)
         else (case (rid, src, dst, ev) of
             (JStr r, JStr a, JStr b, JStr e) \<Rightarrow>
               (case relocate_queued r a b e s of
                  (True, s') \<Rightarrow> (Inr (), s')
                | (False, s') \<Rightarrow> (Inl MoveRejected, s'))
           | _ \<Rightarrow> (Inl MoveRejected, snd (reject_move s))))"

section \<open>Timers, drain and shutdown\<close>

definition turn_timer :: "string \<Rightarrow> nat \<Rightarrow> gw \<Rightarrow> gw" where
  "turn_timer w i s = schedule w (pump_waiting (upd_slot w i release_turns s))"

definition drain :: "bool \<Rightarrow> gw \<Rightarrow> gw" where
  "drain v s = s\<lparr>draining := v\<rparr>"

definition reject_waiting :: "nat \<Rightarrow> gw \<Rightarrow> gw" where
  "reject_waiting r s = cleanup r (emit (Rejected r GatewayDraining) (detach r s))"

definition close_gateway :: "gw \<Rightarrow> gw" where
  "close_gateway s =
     (if shutting s then s
      else
        let s1 = s\<lparr>shutting := True, draining := True\<rparr>;
            s2 = fold (\<lambda>w. upd_worker w (\<lambda>n. n\<lparr>w_slots := map release_turns (w_slots n)\<rparr>)) (nodes s1) s1
        in fold reject_waiting (waiting s2) s2)"

definition advance :: "rat \<Rightarrow> rat \<Rightarrow> gw \<Rightarrow> gw" where
  "advance dt dw s = s\<lparr>mono := mono s + dt, wall := wall s + dw\<rparr>"

section \<open>The step relation\<close>

text \<open>
  Everything that can happen to the core, one synchronous callback at a time. The guards are
  those under which the callback exists: handlers are attached until \<open>cleanup\<close>, a deadline fires
  after its allowance, a turn timer after its time; a settled request has no callbacks left.
\<close>

inductive step :: "(string \<times> string list) list option \<Rightarrow> gw \<Rightarrow> gw \<Rightarrow> bool" for routes where
  Arrive: "step routes s (snd (on_request routes q s))"
| Cancel: "r < next_seq s \<Longrightarrow> listening (jb s r) \<Longrightarrow> step routes s (cancel fin r s)"
| Deadline: "r < next_seq s \<Longrightarrow> timer_on (jb s r) \<Longrightarrow>
    mono s - created_at (jb s r) \<ge> of_int (queue_timeout (jb s r)) \<Longrightarrow>
    step routes s (queue_deadline r s)"
| Finish: "r < next_seq s \<Longrightarrow> upstream (jb s r) \<Longrightarrow> step routes s (finish_job r out ev s)"
| Pump: "step routes s (pump_waiting s)"
| TurnTimer: "w \<in> set (nodes s) \<Longrightarrow> i < length (w_slots (wk s w)) \<Longrightarrow>
    sl_timer (w_slots (wk s w) ! i) = Some t \<Longrightarrow> t \<le> mono s \<Longrightarrow> step routes s (turn_timer w i s)"
| Priority: "step routes s (snd (set_job_priority input s))"
| Turns: "step routes s (snd (set_conversation_turns input s))"
| Timeout: "step routes s (snd (set_queue_timeout input s))"
| Concurrency: "step routes s (snd (set_worker_concurrency input s))"
| DrainNodes: "step routes s (snd (drain_nodes held ids d s))"
| ResumeWorkers: "step routes s (snd (resume_workers e h p v ids s))"
| AddWorker: "step routes s (snd (add_worker w ro cap q s))"
| RemoveWorker: "step routes s (snd (remove_worker w s))"
| Probe: "w \<in> set (nodes s) \<Longrightarrow> step routes s (probe_finished limit w ok streaming s)"
| BeginRecovery: "w \<in> set (nodes s) \<Longrightarrow> step routes s (begin_recovery w s)"
| EndRecovery: "w \<in> set (nodes s) \<Longrightarrow> step routes s (end_recovery recovered w s)"
| Reinstate: "w \<in> set (nodes s) \<Longrightarrow> step routes s (snd (reinstate w expected s))"
| Direct: "w \<in> set (nodes s) \<Longrightarrow> step routes s (observe_direct_activity w linked running seen s)"
| Relocate: "step routes s (snd (relocate_request str input s))"
| Drain: "step routes s (drain v s)"
| Close: "step routes s (close_gateway s)"
| Advance: "0 \<le> dt \<Longrightarrow> step routes s (advance dt dw s)"

text \<open>The state after \<open>createGateway\<close>: every configured worker idle, no request yet.\<close>

definition initial :: "gw \<Rightarrow> bool" where
  "initial s \<longleftrightarrow> distinct (nodes s) \<and> waiting s = [] \<and> next_seq s = 0 \<and> trace s = [] \<and> faults s = [] \<and>
     (\<forall>w. w_queue (wk s w) = [] \<and> w_slots (wk s w) = [empty_slot] \<and> request_capacity (wk s w) \<ge> 1)"

inductive reachable :: "(string \<times> string list) list option \<Rightarrow> gw \<Rightarrow> bool" for routes where
  Init: "initial s \<Longrightarrow> reachable routes s"
| Step: "reachable routes s \<Longrightarrow> step routes s s' \<Longrightarrow> reachable routes s'"

end
