(* ===== verification/Gate_Placement.thy ===== *)
theory Gate_Placement
  imports Gate_Control
begin

text \<open>
  The abstract specification of request placement: where every request is, which conversation
  owns which worker, and in which order requests were dispatched. The placement state forgets
  priorities, allocations, timers, counters and clocks; its operations are the few moves of a
  request between the places, and \<open>pinv\<close> is the invariant they keep. \<open>Gate_Refinement\<close> shows that
  each operation of the scheduler is a sequence of these moves.
\<close>

section \<open>Placement states\<close>

record pjob =
  p_key :: "string option"
  p_seq :: nat
  p_cancelled :: bool
  p_node :: "string option"
  p_slot :: "nat option"
  p_up :: bool
  p_disp :: bool
  p_live :: bool
  p_timer :: bool
  p_route :: "string list option"
  p_fixed :: "string option"
  p_flex :: bool

record place =
  v_nodes :: "string list"
  v_next :: nat
  v_queue :: "string \<Rightarrow> nat list"
  v_run :: "string \<Rightarrow> nat option list"
  v_cap :: "string \<Rightarrow> nat"
  v_routed :: "string \<Rightarrow> bool"
  v_job :: "nat \<Rightarrow> pjob"
  v_wait :: "nat list"
  v_home :: "string \<Rightarrow> string option"
  v_disps :: "nat list"
  v_faults :: "string list"

definition runs :: "place \<Rightarrow> string \<Rightarrow> nat \<Rightarrow> nat \<Rightarrow> bool" where
  "runs v w i r \<longleftrightarrow> i < length (v_run v w) \<and> v_run v w ! i = Some r"

definition queued :: "place \<Rightarrow> string \<Rightarrow> nat \<Rightarrow> bool" where
  "queued v w r \<longleftrightarrow> r \<in> set (v_queue v w)"

text \<open>\<open>fl\<close> is the set of requests in flight between two places inside one operation.\<close>

definition pend :: "place \<Rightarrow> nat set \<Rightarrow> nat \<Rightarrow> bool" where
  "pend v fl r \<longleftrightarrow> r \<in> fl \<or> r \<in> set (v_wait v) \<or> (\<exists>w. queued v w r)"

definition placed :: "place \<Rightarrow> string \<Rightarrow> nat \<Rightarrow> bool" where
  "placed v w r \<longleftrightarrow> queued v w r \<or> (\<exists>i. runs v w i r)"

definition same_key :: "place \<Rightarrow> nat \<Rightarrow> nat \<Rightarrow> bool" where
  "same_key v r z \<longleftrightarrow> p_key (v_job v r) \<noteq> None \<and> p_key (v_job v r) = p_key (v_job v z)"

lemma same_key_sym: "same_key v r z \<longleftrightarrow> same_key v z r"
  by (simp add: same_key_def) metis

definition route_ok :: "place \<Rightarrow> nat \<Rightarrow> string \<Rightarrow> bool" where
  "route_ok v r w \<longleftrightarrow> (case p_route (v_job v r) of Some ids \<Rightarrow> w \<in> set ids | None \<Rightarrow> \<not> v_routed v w)"

definition undispatched :: "place \<Rightarrow> nat \<Rightarrow> bool" where
  "undispatched v r \<longleftrightarrow> r < v_next v \<and> p_seq (v_job v r) = r \<and> \<not> p_up (v_job v r) \<and>
     \<not> p_disp (v_job v r) \<and> \<not> p_cancelled (v_job v r) \<and> p_live (v_job v r) \<and> p_timer (v_job v r) \<and>
     (p_flex (v_job v r) \<longrightarrow> p_key (v_job v r) = None)"

section \<open>The invariant\<close>

definition inv_nodes :: "place \<Rightarrow> bool" where
  "inv_nodes v \<longleftrightarrow> distinct (v_nodes v) \<and> (\<forall>w r. placed v w r \<longrightarrow> w \<in> set (v_nodes v))"

definition inv_pend :: "nat set \<Rightarrow> place \<Rightarrow> bool" where
  "inv_pend fl v \<longleftrightarrow> (\<forall>r. pend v fl r \<longrightarrow> undispatched v r)"

definition inv_queue :: "place \<Rightarrow> bool" where
  "inv_queue v \<longleftrightarrow> (\<forall>w r. queued v w r \<longrightarrow> p_node (v_job v r) = Some w \<and> route_ok v r w)"

definition inv_wait :: "place \<Rightarrow> bool" where
  "inv_wait v \<longleftrightarrow> (\<forall>r \<in> set (v_wait v). p_node (v_job v r) = None \<and>
     (\<forall>h. p_fixed (v_job v r) = Some h \<longrightarrow> h \<in> set (v_nodes v) \<and> route_ok v r h))"

definition inv_flight :: "nat set \<Rightarrow> place \<Rightarrow> bool" where
  "inv_flight fl v \<longleftrightarrow> (\<forall>r \<in> fl. r \<notin> set (v_wait v) \<and> (\<forall>w. \<not> queued v w r))"

definition inv_sorted :: "place \<Rightarrow> bool" where
  "inv_sorted v \<longleftrightarrow> sorted_wrt (<) (v_wait v) \<and> (\<forall>w. sorted_wrt (<) (v_queue v w))"

definition inv_run :: "place \<Rightarrow> bool" where
  "inv_run v \<longleftrightarrow> (\<forall>w i r. runs v w i r \<longrightarrow> p_node (v_job v r) = Some w \<and> p_slot (v_job v r) = Some i \<and>
     r < v_next v \<and> p_up (v_job v r) \<and> p_disp (v_job v r))"

definition inv_routes :: "place \<Rightarrow> bool" where
  "inv_routes v \<longleftrightarrow> (\<forall>w r. placed v w r \<longrightarrow> route_ok v r w)"

definition inv_cap :: "place \<Rightarrow> bool" where
  "inv_cap v \<longleftrightarrow> (\<forall>w. length (v_run v w) \<le> v_cap v w)"

definition inv_excl :: "place \<Rightarrow> bool" where
  "inv_excl v \<longleftrightarrow> (\<forall>w i r w' i' r'. runs v w i r \<longrightarrow> runs v w' i' r' \<longrightarrow> same_key v r r' \<longrightarrow> r = r')"

definition inv_home :: "place \<Rightarrow> bool" where
  "inv_home v \<longleftrightarrow> (\<forall>w r k. placed v w r \<longrightarrow> p_key (v_job v r) = Some k \<longrightarrow> v_home v k = Some w)"

text \<open>\<open>gap w k\<close>: the conversations whose queued requests are being parked right now.\<close>

definition inv_fifo :: "(string \<Rightarrow> string \<Rightarrow> bool) \<Rightarrow> place \<Rightarrow> bool" where
  "inv_fifo gap v \<longleftrightarrow> (\<forall>x \<in> set (v_wait v). \<forall>w y k. queued v w y \<longrightarrow> p_key (v_job v x) = Some k \<longrightarrow>
     p_key (v_job v y) = Some k \<longrightarrow> y < x \<or> gap w k)"

definition inv_order :: "nat set \<Rightarrow> place \<Rightarrow> bool" where
  "inv_order fl v \<longleftrightarrow> (\<forall>p z. pend v fl p \<longrightarrow> z < v_next v \<longrightarrow> p_disp (v_job v z) \<longrightarrow> same_key v p z \<longrightarrow> z < p)"

definition inv_live :: "nat set \<Rightarrow> place \<Rightarrow> bool" where
  "inv_live fl v \<longleftrightarrow> (\<forall>r < v_next v.
     (p_live (v_job v r) \<longrightarrow> pend v fl r \<or> (\<exists>w i. runs v w i r)) \<and>
     (p_timer (v_job v r) \<longrightarrow> pend v fl r) \<and>
     (p_up (v_job v r) \<longrightarrow> (\<exists>w i. runs v w i r)))"

definition inv_trace :: "place \<Rightarrow> bool" where
  "inv_trace v \<longleftrightarrow> distinct (v_disps v) \<and>
     (\<forall>r. r \<in> set (v_disps v) \<longleftrightarrow> r < v_next v \<and> p_disp (v_job v r)) \<and>
     sorted_wrt (\<lambda>z y. same_key v z y \<longrightarrow> y < z) (v_disps v)"

definition pinv :: "nat set \<Rightarrow> (string \<Rightarrow> string \<Rightarrow> bool) \<Rightarrow> place \<Rightarrow> bool" where
  "pinv fl gap v \<longleftrightarrow> inv_nodes v \<and> inv_pend fl v \<and> inv_queue v \<and> inv_wait v \<and> inv_flight fl v \<and>
     inv_sorted v \<and> inv_run v \<and> inv_routes v \<and> inv_cap v \<and> inv_excl v \<and> inv_home v \<and> inv_fifo gap v \<and>
     inv_order fl v \<and> inv_live fl v \<and> inv_trace v \<and> v_faults v = []"

abbreviation no_gap :: "string \<Rightarrow> string \<Rightarrow> bool" where
  "no_gap \<equiv> \<lambda>_ _. False"

lemmas inv_defs = inv_nodes_def inv_pend_def inv_queue_def inv_wait_def inv_flight_def inv_sorted_def
  inv_run_def inv_routes_def inv_cap_def inv_excl_def inv_home_def inv_fifo_def inv_order_def inv_live_def inv_trace_def

section \<open>The moves\<close>

definition v_upd :: "nat \<Rightarrow> (pjob \<Rightarrow> pjob) \<Rightarrow> place \<Rightarrow> place" where
  "v_upd r f v = v\<lparr>v_job := (v_job v)(r := f (v_job v r))\<rparr>"

definition v_out :: "nat \<Rightarrow> place \<Rightarrow> place" where
  "v_out r v = v\<lparr>v_queue := (\<lambda>w. filter (\<lambda>x. x \<noteq> r) (v_queue v w)), v_wait := filter (\<lambda>x. x \<noteq> r) (v_wait v)\<rparr>"

definition fix_home :: "string option \<Rightarrow> pjob \<Rightarrow> pjob" where
  "fix_home h j = j\<lparr>p_node := None, p_fixed := (case h of None \<Rightarrow> p_fixed j | Some w \<Rightarrow> Some w)\<rparr>"

definition v_park :: "nat \<Rightarrow> string option \<Rightarrow> place \<Rightarrow> place" where
  "v_park r h v = (let u = v_upd r (fix_home h) v in u\<lparr>v_wait := sort (v_wait u @ [r])\<rparr>)"

definition v_enqueue :: "nat \<Rightarrow> string \<Rightarrow> place \<Rightarrow> place" where
  "v_enqueue r w v = (let u = v_upd r (\<lambda>j. j\<lparr>p_node := Some w\<rparr>) v
     in u\<lparr>v_queue := (v_queue u)(w := sort (v_queue u w @ [r]))\<rparr>)"

definition v_claim :: "string \<Rightarrow> string \<Rightarrow> place \<Rightarrow> place" where
  "v_claim k w v = v\<lparr>v_home := (v_home v)(k := Some w)\<rparr>"

definition v_start :: "string \<Rightarrow> nat \<Rightarrow> nat \<Rightarrow> place \<Rightarrow> place" where
  "v_start w i r v = (let u = v_upd r (\<lambda>j. j\<lparr>p_timer := False, p_slot := Some i, p_up := True, p_disp := True\<rparr>) v
     in u\<lparr>v_run := (v_run u)(w := (v_run u w)[i := Some r]), v_disps := r # v_disps u\<rparr>)"

definition v_end :: "nat \<Rightarrow> bool \<Rightarrow> place \<Rightarrow> place" where
  "v_end r c v = v_upd r (\<lambda>j. j\<lparr>p_live := False, p_timer := False, p_cancelled := (c \<or> p_cancelled j)\<rparr>) v"

definition v_settle :: "string \<Rightarrow> nat \<Rightarrow> nat \<Rightarrow> place \<Rightarrow> place" where
  "v_settle w i r v = (let u = v_upd r (\<lambda>j. j\<lparr>p_live := False, p_timer := False, p_up := False\<rparr>) v
     in u\<lparr>v_run := (v_run u)(w := (v_run u w)[i := None])\<rparr>)"

definition v_new :: "pjob \<Rightarrow> place \<Rightarrow> place" where
  "v_new j v = (v_upd (v_next v) (\<lambda>_. j) v)\<lparr>v_next := Suc (v_next v)\<rparr>"

definition v_cancel :: "nat \<Rightarrow> place \<Rightarrow> place" where
  "v_cancel r v = v_upd r (\<lambda>j. j\<lparr>p_cancelled := True\<rparr>) v"

definition v_grow :: "string \<Rightarrow> place \<Rightarrow> place" where
  "v_grow w v = v\<lparr>v_run := (v_run v)(w := v_run v w @ [None])\<rparr>"

definition v_resize :: "string \<Rightarrow> nat \<Rightarrow> place \<Rightarrow> place" where
  "v_resize w c v = v\<lparr>v_cap := (v_cap v)(w := c), v_run := (v_run v)(w := take c (v_run v w))\<rparr>"

definition v_add :: "string \<Rightarrow> nat \<Rightarrow> bool \<Rightarrow> place \<Rightarrow> place" where
  "v_add w c ro v = v\<lparr>v_nodes := v_nodes v @ [w], v_cap := (v_cap v)(w := c), v_run := (v_run v)(w := [None]),
     v_queue := (v_queue v)(w := []), v_routed := (v_routed v)(w := ro)\<rparr>"

definition v_remove :: "string \<Rightarrow> place \<Rightarrow> place" where
  "v_remove w v = v\<lparr>v_nodes := remove1 w (v_nodes v)\<rparr>"

lemmas move_defs = v_upd_def v_out_def v_park_def v_enqueue_def v_claim_def v_start_def v_end_def
  v_settle_def v_new_def v_cancel_def v_grow_def v_resize_def v_add_def v_remove_def fix_home_def Let_def

text \<open>How the moves change the places.\<close>

lemma runs_start: "i < length (v_run v w) \<Longrightarrow> v_run v w ! i = None \<Longrightarrow>
    runs (v_start w i r v) w' i' r' \<longleftrightarrow> (w' = w \<and> i' = i \<and> r' = r) \<or> runs v w' i' r'"
  by (auto simp: runs_def move_defs nth_list_update)

lemma runs_settle: "runs v w i r \<Longrightarrow>
    runs (v_settle w i r v) w' i' r' \<longleftrightarrow> runs v w' i' r' \<and> \<not> (w' = w \<and> i' = i)"
  by (auto simp: runs_def move_defs nth_list_update)

lemma runs_same:
  "runs (v_upd r f v) = runs v" "runs (v_out r v) = runs v" "runs (v_park r h v) = runs v"
  "runs (v_enqueue r w v) = runs v" "runs (v_claim k w v) = runs v" "runs (v_end r b v) = runs v"
  "runs (v_new j v) = runs v" "runs (v_cancel r v) = runs v" "runs (v_remove w v) = runs v"
  by (simp_all add: runs_def move_defs fun_eq_iff)

lemma runs_grow: "runs (v_grow w v) w' i r \<longleftrightarrow> runs v w' i r"
  by (auto simp: runs_def move_defs nth_append)

lemma queued_out: "queued (v_out r v) w x \<longleftrightarrow> queued v w x \<and> x \<noteq> r"
  by (auto simp: queued_def move_defs)

lemma queued_enqueue: "queued (v_enqueue r w v) w' x \<longleftrightarrow> queued v w' x \<or> (w' = w \<and> x = r)"
  by (auto simp: queued_def move_defs)

lemma queued_same:
  "queued (v_upd r f v) = queued v" "queued (v_park r h v) = queued v"
  "queued (v_claim k w v) = queued v" "queued (v_end r b v) = queued v" "queued (v_start w i r v) = queued v"
  "queued (v_settle w i r v) = queued v"
  "queued (v_new j v) = queued v" "queued (v_cancel r v) = queued v" "queued (v_remove w v) = queued v"
  "queued (v_grow w v) = queued v" "queued (v_resize w c v) = queued v"
  by (simp_all add: queued_def move_defs fun_eq_iff)

lemma sort_snoc_strict: "sorted_wrt (<) (xs :: nat list) \<Longrightarrow> r \<notin> set xs \<Longrightarrow> sorted_wrt (<) (sort (xs @ [r]))"
  by (simp add: strict_sorted_iff)

lemma pinvD:
  assumes "pinv fl gap v"
  shows "placed v w r \<Longrightarrow> w \<in> set (v_nodes v)"
    and "pend v fl r \<Longrightarrow> undispatched v r"
    and "queued v w r \<Longrightarrow> p_node (v_job v r) = Some w"
    and "queued v w r \<Longrightarrow> route_ok v r w"
    and "r \<in> set (v_wait v) \<Longrightarrow> p_node (v_job v r) = None"
    and "r \<in> fl \<Longrightarrow> r \<notin> set (v_wait v) \<and> \<not> queued v w r"
    and "runs v w i r \<Longrightarrow> p_node (v_job v r) = Some w \<and> p_slot (v_job v r) = Some i \<and>
           r < v_next v \<and> p_up (v_job v r) \<and> p_disp (v_job v r)"
    and "placed v w r \<Longrightarrow> p_key (v_job v r) = Some k \<Longrightarrow> v_home v k = Some w"
proof -
  note parts = assms [unfolded pinv_def]
  show "placed v w r \<Longrightarrow> w \<in> set (v_nodes v)" using parts by (auto simp: inv_nodes_def)
  show "pend v fl r \<Longrightarrow> undispatched v r" using parts by (simp add: inv_pend_def)
  show "queued v w r \<Longrightarrow> p_node (v_job v r) = Some w" using parts by (simp add: inv_queue_def)
  show "queued v w r \<Longrightarrow> route_ok v r w" using parts by (simp add: inv_queue_def)
  show "r \<in> set (v_wait v) \<Longrightarrow> p_node (v_job v r) = None" using parts by (simp add: inv_wait_def)
  show "r \<in> fl \<Longrightarrow> r \<notin> set (v_wait v) \<and> \<not> queued v w r" using parts by (simp add: inv_flight_def)
  show "runs v w i r \<Longrightarrow> p_node (v_job v r) = Some w \<and> p_slot (v_job v r) = Some i \<and>
      r < v_next v \<and> p_up (v_job v r) \<and> p_disp (v_job v r)" using parts by (simp add: inv_run_def)
  show "placed v w r \<Longrightarrow> p_key (v_job v r) = Some k \<Longrightarrow> v_home v k = Some w"
    using parts by (simp add: inv_home_def)
qed

lemma same_key_sym_intro [sym]: "same_key v r z \<Longrightarrow> same_key v z r"
  by (simp add: same_key_sym)

section \<open>Each move keeps the invariant\<close>

lemma static_out:
  "undispatched (v_out r v) = undispatched v" "route_ok (v_out r v) = route_ok v"
  "same_key (v_out r v) = same_key v" "v_job (v_out r v) = v_job v" "v_next (v_out r v) = v_next v"
  "v_nodes (v_out r v) = v_nodes v" "v_home (v_out r v) = v_home v" "v_cap (v_out r v) = v_cap v"
  "v_run (v_out r v) = v_run v" "v_disps (v_out r v) = v_disps v" "v_faults (v_out r v) = v_faults v"
  "set (v_wait (v_out r v)) = set (v_wait v) - {r}"
  by (auto simp: undispatched_def route_ok_def same_key_def move_defs fun_eq_iff split: option.splits)

lemma pend_out: "pend (v_out r v) (insert r fl) x \<longleftrightarrow> x = r \<or> pend v fl x"
  by (auto simp: pend_def static_out queued_out)

lemma pinv_out:
  assumes "pinv fl gap v" and "pend v fl r"
  shows "pinv (insert r fl) gap (v_out r v)"
proof -
  have pend: "pend (v_out r v) (insert r fl) x \<longleftrightarrow> pend v fl x" for x
    using assms(2) by (auto simp: pend_out)
  have sorted: "inv_sorted (v_out r v)"
    using assms(1) by (auto simp: pinv_def inv_sorted_def move_defs intro: sorted_wrt_filter)
  show ?thesis
    using assms(1) sorted unfolding pinv_def
    by (auto simp: inv_nodes_def inv_pend_def inv_queue_def inv_wait_def inv_flight_def inv_run_def
        inv_routes_def inv_cap_def inv_excl_def inv_home_def inv_fifo_def inv_order_def inv_live_def inv_trace_def
        pend static_out runs_same queued_out placed_def)
qed

lemma pinv_park:
  assumes I: "pinv fl gap v" and r: "r \<in> fl"
    and home: "\<And>w. p_fixed (fix_home h (v_job v r)) = Some w \<Longrightarrow> w \<in> set (v_nodes v) \<and> route_ok v r w"
    and gap: "\<And>w y k. queued v w y \<Longrightarrow> p_key (v_job v r) = Some k \<Longrightarrow> p_key (v_job v y) = Some k \<Longrightarrow>
      y < r \<or> gap w k"
  shows "pinv (fl - {r}) gap (v_park r h v)"
proof -
  let ?u = "v_park r h v"
  have job: "v_job ?u x = (if x = r then fix_home h (v_job v r) else v_job v x)" for x
    by (simp add: move_defs)
  have sel: "v_nodes ?u = v_nodes v" "v_next ?u = v_next v" "v_home ?u = v_home v" "v_cap ?u = v_cap v"
    "v_run ?u = v_run v" "v_disps ?u = v_disps v" "v_faults ?u = v_faults v" "v_queue ?u = v_queue v"
    "v_routed ?u = v_routed v" "set (v_wait ?u) = insert r (set (v_wait v))"
    by (simp_all add: move_defs)
  have pj [simp]: "p_key (v_job ?u x) = p_key (v_job v x)" "p_disp (v_job ?u x) = p_disp (v_job v x)"
    "p_up (v_job ?u x) = p_up (v_job v x)" "p_live (v_job ?u x) = p_live (v_job v x)"
    "p_timer (v_job ?u x) = p_timer (v_job v x)" "p_seq (v_job ?u x) = p_seq (v_job v x)"
    "p_cancelled (v_job ?u x) = p_cancelled (v_job v x)" "p_slot (v_job ?u x) = p_slot (v_job v x)"
    "p_route (v_job ?u x) = p_route (v_job v x)" "p_flex (v_job ?u x) = p_flex (v_job v x)"
    for x by (simp_all add: job fix_home_def)
  have st: "undispatched ?u x = undispatched v x" "route_ok ?u x w = route_ok v x w" "same_key ?u x y = same_key v x y"
    for x y w
    by (simp_all add: undispatched_def route_ok_def same_key_def sel split: option.split)
  have pend: "pend ?u (fl - {r}) x \<longleftrightarrow> pend v fl x" for x
    using r by (auto simp: pend_def sel queued_same)
  have plc: "placed ?u = placed v" by (simp add: placed_def queued_same runs_same fun_eq_iff)
  have rr: "r \<notin> set (v_wait v)" "\<not> queued v w r" "undispatched v r" for w
    using pinvD(6) [OF I r] pinvD(2) [OF I] r by (auto simp: pend_def)
  have nr: "\<not> runs v w i r" for w i using pinvD(7) [OF I] rr(3) by (auto simp: undispatched_def)
  have sorted: "inv_sorted ?u"
    using I rr(1) sort_snoc_strict [of "v_wait v" r]
    by (auto simp: pinv_def inv_sorted_def move_defs)
  have nd: "p_node (v_job ?u x) = (if x = r then None else p_node (v_job v x))" for x
    by (simp add: job fix_home_def)
  have fx: "p_fixed (v_job ?u x) = (if x = r then p_fixed (fix_home h (v_job v r)) else p_fixed (v_job v x))" for x
    by (simp add: job)
  have queue: "inv_queue ?u" using I rr by (auto simp: pinv_def inv_queue_def st queued_same nd)
  have wait: "inv_wait ?u" using I home by (auto simp: pinv_def inv_wait_def st sel nd fx)
  have run: "inv_run ?u" using I nr by (auto simp: pinv_def inv_run_def runs_same nd sel)
  have fifo: "inv_fifo gap ?u" using I gap by (auto simp: pinv_def inv_fifo_def queued_same sel)
  show ?thesis
    using I sorted queue wait run fifo unfolding pinv_def
    by (auto simp: inv_nodes_def inv_pend_def inv_flight_def
        inv_routes_def inv_cap_def inv_excl_def inv_home_def inv_order_def inv_live_def inv_trace_def
        pend st sel runs_same queued_same plc)
qed

lemma flight_facts:
  assumes "pinv fl gap v" and "r \<in> fl"
  shows "r \<notin> set (v_wait v)" and "\<not> queued v w r" and "undispatched v r" and "\<not> runs v w i r"
proof -
  show "r \<notin> set (v_wait v)" "\<not> queued v w r"
    using pinvD(6) [OF assms] by auto
  show u: "undispatched v r" using pinvD(2) [OF assms(1)] assms(2) by (simp add: pend_def)
  show "\<not> runs v w i r" using pinvD(7) [OF assms(1)] u by (auto simp: undispatched_def)
qed

lemma pinv_enqueue:
  assumes I: "pinv fl gap v" and r: "r \<in> fl" and w: "w \<in> set (v_nodes v)" and ok: "route_ok v r w"
    and home: "\<And>k. p_key (v_job v r) = Some k \<Longrightarrow> v_home v k = Some w"
    and first: "\<And>x. x \<in> set (v_wait v) \<Longrightarrow> same_key v r x \<Longrightarrow> r < x"
  shows "pinv (fl - {r}) gap (v_enqueue r w v)"
proof -
  let ?u = "v_enqueue r w v"
  have job: "v_job ?u x = (if x = r then (v_job v r)\<lparr>p_node := Some w\<rparr> else v_job v x)" for x
    by (simp add: move_defs)
  have sel: "v_nodes ?u = v_nodes v" "v_next ?u = v_next v" "v_home ?u = v_home v" "v_cap ?u = v_cap v"
    "v_run ?u = v_run v" "v_disps ?u = v_disps v" "v_faults ?u = v_faults v" "v_wait ?u = v_wait v"
    "v_routed ?u = v_routed v"
    by (simp_all add: move_defs)
  have pj [simp]: "p_key (v_job ?u x) = p_key (v_job v x)" "p_disp (v_job ?u x) = p_disp (v_job v x)"
    "p_up (v_job ?u x) = p_up (v_job v x)" "p_live (v_job ?u x) = p_live (v_job v x)"
    "p_timer (v_job ?u x) = p_timer (v_job v x)" "p_seq (v_job ?u x) = p_seq (v_job v x)"
    "p_cancelled (v_job ?u x) = p_cancelled (v_job v x)" "p_slot (v_job ?u x) = p_slot (v_job v x)"
    "p_route (v_job ?u x) = p_route (v_job v x)" "p_flex (v_job ?u x) = p_flex (v_job v x)" "p_fixed (v_job ?u x) = p_fixed (v_job v x)"
    "p_node (v_job ?u x) = (if x = r then Some w else p_node (v_job v x))"
    for x by (simp_all add: job)
  have st: "undispatched ?u x = undispatched v x" "route_ok ?u x w = route_ok v x w" "same_key ?u x y = same_key v x y"
    for x y w
    by (simp_all add: undispatched_def route_ok_def same_key_def sel split: option.split)
  have pend: "pend ?u (fl - {r}) x \<longleftrightarrow> pend v fl x" for x
    using r by (auto simp: pend_def sel queued_enqueue)
  have plc: "placed ?u x y \<longleftrightarrow> placed v x y \<or> (x = w \<and> y = r)" for x y
    by (auto simp: placed_def queued_enqueue runs_same)
  note fact = flight_facts [OF I r]
  have sorted: "inv_sorted ?u"
    using I fact(2) [of w] sort_snoc_strict [of "v_queue v w" r]
    by (auto simp: pinv_def inv_sorted_def move_defs queued_def)
  have queue: "inv_queue ?u" using I fact ok by (auto simp: pinv_def inv_queue_def st queued_enqueue)
  have wait: "inv_wait ?u" using I fact by (auto simp: pinv_def inv_wait_def st sel)
  have run: "inv_run ?u" using I fact by (auto simp: pinv_def inv_run_def runs_same sel)
  have fifo: "inv_fifo gap ?u"
    using I first by (auto simp: pinv_def inv_fifo_def queued_enqueue sel same_key_def)
  have hm: "inv_home ?u" using I home by (auto simp: pinv_def inv_home_def plc sel)
  show ?thesis
    using I sorted queue wait run fifo hm w ok unfolding pinv_def
    by (auto simp: inv_nodes_def inv_pend_def inv_flight_def queued_enqueue
        inv_routes_def inv_cap_def inv_excl_def inv_order_def inv_live_def inv_trace_def
        pend st sel runs_same plc)
qed

lemma pinv_claim:
  assumes I: "pinv fl gap v" and free: "\<And>w' r. placed v w' r \<Longrightarrow> p_key (v_job v r) = Some k \<Longrightarrow> w' = w"
  shows "pinv fl gap (v_claim k w v)"
proof -
  let ?u = "v_claim k w v"
  have sel: "v_nodes ?u = v_nodes v" "v_next ?u = v_next v" "v_cap ?u = v_cap v" "v_job ?u = v_job v"
    "v_run ?u = v_run v" "v_disps ?u = v_disps v" "v_faults ?u = v_faults v" "v_wait ?u = v_wait v"
    "v_routed ?u = v_routed v" "v_queue ?u = v_queue v" "v_home ?u = (v_home v)(k := Some w)"
    by (simp_all add: move_defs)
  have st: "undispatched ?u = undispatched v" "route_ok ?u = route_ok v" "same_key ?u = same_key v"
    "pend ?u = pend v" "placed ?u = placed v"
    by (simp_all add: undispatched_def route_ok_def same_key_def sel fun_eq_iff pend_def placed_def
        queued_same runs_same split: option.split)
  have hm: "inv_home ?u" using I free by (auto simp: pinv_def inv_home_def st sel)
  show ?thesis
    using I hm unfolding pinv_def
    by (simp add: inv_nodes_def inv_pend_def inv_flight_def inv_queue_def inv_wait_def inv_sorted_def
        inv_run_def inv_fifo_def
        inv_routes_def inv_cap_def inv_excl_def inv_order_def inv_live_def inv_trace_def st sel runs_same queued_same)
qed

lemma pinv_start:
  assumes I: "pinv fl gap v" and r: "r \<in> fl" and i: "i < length (v_run v w)" "v_run v w ! i = None"
    and w: "w \<in> set (v_nodes v)" and node: "p_node (v_job v r) = Some w" "route_ok v r w"
    and home: "\<And>k. p_key (v_job v r) = Some k \<Longrightarrow> v_home v k = Some w"
    and idle: "\<And>w' j z. runs v w' j z \<Longrightarrow> \<not> same_key v r z"
    and first: "\<And>p. pend v fl p \<Longrightarrow> p \<noteq> r \<Longrightarrow> same_key v r p \<Longrightarrow> r < p"
  shows "pinv (fl - {r}) gap (v_start w i r v)"
proof -
  let ?u = "v_start w i r v"
  have sel: "v_nodes ?u = v_nodes v" "v_next ?u = v_next v" "v_home ?u = v_home v" "v_cap ?u = v_cap v"
    "v_disps ?u = r # v_disps v" "v_faults ?u = v_faults v" "v_wait ?u = v_wait v" "v_queue ?u = v_queue v"
    "v_routed ?u = v_routed v" "length (v_run ?u x) = length (v_run v x)" for x
    by (simp_all add: move_defs)
  have pj [simp]: "p_key (v_job ?u x) = p_key (v_job v x)" "p_live (v_job ?u x) = p_live (v_job v x)"
    "p_disp (v_job ?u x) = (x = r \<or> p_disp (v_job v x))" "p_up (v_job ?u x) = (x = r \<or> p_up (v_job v x))"
    "p_timer (v_job ?u x) = (x \<noteq> r \<and> p_timer (v_job v x))" "p_seq (v_job ?u x) = p_seq (v_job v x)"
    "p_cancelled (v_job ?u x) = p_cancelled (v_job v x)" "p_fixed (v_job ?u x) = p_fixed (v_job v x)"
    "p_route (v_job ?u x) = p_route (v_job v x)" "p_flex (v_job ?u x) = p_flex (v_job v x)" "p_node (v_job ?u x) = p_node (v_job v x)"
    "p_slot (v_job ?u x) = (if x = r then Some i else p_slot (v_job v x))"
    for x by (simp_all add: move_defs)
  have st: "undispatched ?u x = (undispatched v x \<and> x \<noteq> r)" "route_ok ?u x y = route_ok v x y"
    "same_key ?u x z = same_key v x z" for x y z
    by (auto simp: undispatched_def route_ok_def same_key_def sel split: option.split)
  note fact = flight_facts [OF I r]
  have pend: "pend ?u (fl - {r}) x \<longleftrightarrow> pend v fl x \<and> x \<noteq> r" for x
    using r fact by (auto simp: pend_def sel queued_same)
  have runs: "runs ?u x j y \<longleftrightarrow> x = w \<and> j = i \<and> y = r \<or> runs v x j y" for x j y
    by (rule runs_start [OF i])
  have plc: "placed ?u x y \<longleftrightarrow> placed v x y \<or> (x = w \<and> y = r)" for x y
    by (auto simp: placed_def queued_same runs)
  have rn: "r < v_next v" "\<not> p_disp (v_job v r)" using fact(3) by (auto simp: undispatched_def)
  have excl: "inv_excl ?u"
  proof -
    have "inv_excl v" using I by (simp add: pinv_def)
    moreover have "\<And>w' j z. runs v w' j z \<Longrightarrow> \<not> same_key v z r"
      using idle unfolding same_key_def by metis
    ultimately show ?thesis using idle unfolding inv_excl_def runs st by blast
  qed
  have order: "inv_order (fl - {r}) ?u"
  proof -
    have "inv_order fl v" using I by (simp add: pinv_def)
    moreover have "\<And>p. pend v fl p \<Longrightarrow> p \<noteq> r \<Longrightarrow> same_key v p r \<Longrightarrow> r < p"
      using first same_key_sym by blast
    ultimately show ?thesis unfolding inv_order_def pend st sel pj by blast
  qed
  have trace: "inv_trace ?u"
  proof -
    have pr: "pend v fl r" using r by (simp add: pend_def)
    have old: "distinct (v_disps v)" "sorted_wrt (\<lambda>z y. same_key v z y \<longrightarrow> y < z) (v_disps v)"
      "\<And>x. x \<in> set (v_disps v) \<longleftrightarrow> x < v_next v \<and> p_disp (v_job v x)"
      using I by (simp_all add: pinv_def inv_trace_def)
    have "z < r" if "z \<in> set (v_disps v)" "same_key v r z" for z
      using I pr that old(3) [of z] by (simp add: pinv_def inv_order_def)
    moreover have "r \<notin> set (v_disps v)" using old(3) [of r] rn by simp
    ultimately show ?thesis
      unfolding inv_trace_def using old rn by (simp add: sel st) blast
  qed
  have live: "inv_live (fl - {r}) ?u"
  proof -
    have "inv_live fl v" using I by (simp add: pinv_def)
    then show ?thesis unfolding inv_live_def pend sel runs pj by blast
  qed
  have routes: "inv_routes ?u" using I node(2) by (auto simp: pinv_def inv_routes_def plc st)
  show ?thesis
    using I excl order trace live routes w node home rn unfolding pinv_def
    by (auto simp: inv_nodes_def inv_pend_def inv_flight_def inv_queue_def inv_wait_def inv_sorted_def
        inv_cap_def inv_run_def inv_fifo_def inv_home_def pend st sel runs queued_same plc)
qed

lemma pinv_end:
  assumes I: "pinv fl gap v" and r: "r \<in> fl"
  shows "pinv (fl - {r}) gap (v_end r b v)"
proof -
  let ?u = "v_end r b v"
  have sel: "v_nodes ?u = v_nodes v" "v_next ?u = v_next v" "v_home ?u = v_home v" "v_cap ?u = v_cap v"
    "v_disps ?u = v_disps v" "v_faults ?u = v_faults v" "v_wait ?u = v_wait v" "v_queue ?u = v_queue v"
    "v_routed ?u = v_routed v" "v_run ?u = v_run v"
    by (simp_all add: move_defs)
  have pj: "p_key (v_job ?u x) = p_key (v_job v x)" "p_live (v_job ?u x) = (x \<noteq> r \<and> p_live (v_job v x))"
    "p_disp (v_job ?u x) = p_disp (v_job v x)" "p_up (v_job ?u x) = p_up (v_job v x)"
    "p_timer (v_job ?u x) = (x \<noteq> r \<and> p_timer (v_job v x))" "p_seq (v_job ?u x) = p_seq (v_job v x)"
    "p_fixed (v_job ?u x) = p_fixed (v_job v x)" "p_route (v_job ?u x) = p_route (v_job v x)" "p_flex (v_job ?u x) = p_flex (v_job v x)"
    "p_node (v_job ?u x) = p_node (v_job v x)" "p_slot (v_job ?u x) = p_slot (v_job v x)"
    "x \<noteq> r \<Longrightarrow> p_cancelled (v_job ?u x) = p_cancelled (v_job v x)"
    for x by (simp_all add: move_defs)
  have st: "x \<noteq> r \<Longrightarrow> undispatched ?u x = undispatched v x" "route_ok ?u x y = route_ok v x y"
    "same_key ?u x z = same_key v x z" for x y z
    by (auto simp: undispatched_def route_ok_def same_key_def sel pj split: option.split)
  note fact = flight_facts [OF I r]
  have pend: "pend ?u (fl - {r}) x \<longleftrightarrow> pend v fl x \<and> x \<noteq> r" for x
    using r fact by (auto simp: pend_def sel queued_same)
  have plc: "placed ?u = placed v" by (simp add: placed_def queued_same runs_same fun_eq_iff)
  have up: "\<not> p_up (v_job v r)" using fact(3) by (simp add: undispatched_def)
  show ?thesis
    using I up unfolding pinv_def
    by (simp add: inv_nodes_def inv_pend_def inv_flight_def inv_queue_def inv_wait_def inv_sorted_def
        inv_routes_def inv_cap_def inv_run_def inv_fifo_def inv_home_def inv_excl_def inv_order_def inv_trace_def
        inv_live_def pend st sel runs_same queued_same plc pj)
qed

lemma runs_unique:
  assumes "pinv fl gap v" and "runs v w i r" and "runs v w' j r"
  shows "w' = w \<and> j = i"
  using pinvD(7) [OF assms(1) assms(2)] pinvD(7) [OF assms(1) assms(3)] by simp

lemma running_not_pend:
  assumes "pinv fl gap v" and "runs v w i r"
  shows "\<not> pend v fl r" and "\<not> queued v w' r" and "r \<notin> set (v_wait v)" and "r \<notin> fl"
proof -
  show n: "\<not> pend v fl r"
    using pinvD(2) [OF assms(1), of r] pinvD(7) [OF assms] by (auto simp: undispatched_def)
  then show "\<not> queued v w' r" "r \<notin> set (v_wait v)" "r \<notin> fl" by (auto simp: pend_def)
qed

lemma pinv_settle:
  assumes I: "pinv fl gap v" and r: "runs v w i r"
  shows "pinv fl gap (v_settle w i r v)"
proof -
  let ?u = "v_settle w i r v"
  have sel: "v_nodes ?u = v_nodes v" "v_next ?u = v_next v" "v_home ?u = v_home v" "v_cap ?u = v_cap v"
    "v_disps ?u = v_disps v" "v_faults ?u = v_faults v" "v_wait ?u = v_wait v" "v_queue ?u = v_queue v"
    "v_routed ?u = v_routed v" "length (v_run ?u x) = length (v_run v x)" for x
    by (simp_all add: move_defs)
  have pj: "p_key (v_job ?u x) = p_key (v_job v x)" "p_live (v_job ?u x) = (x \<noteq> r \<and> p_live (v_job v x))"
    "p_disp (v_job ?u x) = p_disp (v_job v x)" "p_up (v_job ?u x) = (x \<noteq> r \<and> p_up (v_job v x))"
    "p_timer (v_job ?u x) = (x \<noteq> r \<and> p_timer (v_job v x))" "p_seq (v_job ?u x) = p_seq (v_job v x)"
    "p_fixed (v_job ?u x) = p_fixed (v_job v x)" "p_route (v_job ?u x) = p_route (v_job v x)" "p_flex (v_job ?u x) = p_flex (v_job v x)"
    "p_node (v_job ?u x) = p_node (v_job v x)" "p_slot (v_job ?u x) = p_slot (v_job v x)"
    "p_cancelled (v_job ?u x) = p_cancelled (v_job v x)"
    for x by (simp_all add: move_defs)
  have st: "x \<noteq> r \<Longrightarrow> undispatched ?u x = undispatched v x" "route_ok ?u x y = route_ok v x y"
    "same_key ?u x z = same_key v x z" for x y z
    by (auto simp: undispatched_def route_ok_def same_key_def sel pj split: option.split)
  have pend: "pend ?u fl x \<longleftrightarrow> pend v fl x" for x
    by (simp add: pend_def sel queued_same)
  note np = running_not_pend [OF I r]
  have runs: "runs ?u x j y \<longleftrightarrow> runs v x j y \<and> y \<noteq> r" for x j y
  proof (cases "runs v x j y")
    case True
    have "x = w \<and> j = i \<Longrightarrow> y = r" using True r by (auto simp: runs_def)
    moreover have "y = r \<Longrightarrow> x = w \<and> j = i" using runs_unique [OF I r] True by blast
    ultimately show ?thesis unfolding runs_settle [OF r] by blast
  qed (simp add: runs_settle [OF r])
  have plc: "placed ?u x y \<Longrightarrow> placed v x y" for x y
    by (auto simp: placed_def queued_same runs)
  have pending: "inv_pend fl ?u"
  proof -
    have "undispatched ?u x" if "pend v fl x" for x
      using that np(1) pinvD(2) [OF I that] st(1) [of x] by metis
    then show ?thesis unfolding inv_pend_def pend by blast
  qed
  have live: "inv_live fl ?u"
    using I np(1) unfolding pinv_def inv_live_def pend sel runs pj by blast
  have nodes: "inv_nodes ?u" using I plc unfolding pinv_def inv_nodes_def sel by blast
  have home: "inv_home ?u" using I plc unfolding pinv_def inv_home_def sel pj by blast
  have routes: "inv_routes ?u" using I plc unfolding pinv_def inv_routes_def st by blast
  have run: "inv_run ?u" using I unfolding pinv_def inv_run_def runs sel pj by blast
  have excl: "inv_excl ?u" using I unfolding pinv_def inv_excl_def runs st by blast
  show ?thesis
    using I pending live nodes home routes run excl unfolding pinv_def
    by (simp add: inv_flight_def inv_queue_def inv_wait_def inv_sorted_def
        inv_cap_def inv_fifo_def inv_order_def inv_trace_def
        pend st sel queued_same pj)
qed

lemma pinv_new:
  assumes I: "pinv fl gap v" and j: "p_seq j = v_next v" "\<not> p_up j" "\<not> p_disp j" "\<not> p_cancelled j"
    "p_live j" "p_timer j" "p_flex j \<Longrightarrow> p_key j = None"
  shows "pinv (insert (v_next v) fl) gap (v_new j v)"
proof -
  let ?n = "v_next v" and ?u = "v_new j v"
  have sel: "v_nodes ?u = v_nodes v" "v_next ?u = Suc ?n" "v_home ?u = v_home v" "v_cap ?u = v_cap v"
    "v_disps ?u = v_disps v" "v_faults ?u = v_faults v" "v_wait ?u = v_wait v" "v_queue ?u = v_queue v"
    "v_routed ?u = v_routed v" "v_run ?u = v_run v" "v_job ?u = (v_job v)(?n := j)"
    by (simp_all add: move_defs)
  have old: "r < ?n" if "pend v fl r \<or> (\<exists>w. placed v w r)" for r
    using that pinvD(2,7) [OF I] by (auto simp: undispatched_def placed_def pend_def)
  have job: "v_job ?u x = v_job v x" if "x \<noteq> ?n" for x using that by (simp add: sel)
  have st: "x \<noteq> ?n \<Longrightarrow> undispatched v x \<Longrightarrow> undispatched ?u x" "x \<noteq> ?n \<Longrightarrow> route_ok ?u x y = route_ok v x y"
    "x \<noteq> ?n \<Longrightarrow> z \<noteq> ?n \<Longrightarrow> same_key ?u x z = same_key v x z" for x y z
    by (auto simp: undispatched_def route_ok_def same_key_def sel split: option.split)
  have pend: "pend ?u (insert ?n fl) x \<longleftrightarrow> x = ?n \<or> pend v fl x" for x
    by (auto simp: pend_def sel queued_same)
  have plc: "placed ?u = placed v" by (simp add: placed_def queued_same runs_same fun_eq_iff)
  have np: "\<not> pend v fl ?n" "\<And>w. \<not> placed v w ?n" "\<And>w i. \<not> runs v w i ?n" "\<And>w. \<not> queued v w ?n"
    "?n \<notin> set (v_wait v)" "?n \<notin> fl"
    using old [of ?n] by (auto simp: pend_def placed_def)
  have "inv_nodes ?u" using I by (simp add: pinv_def inv_nodes_def plc sel)
  moreover have "inv_pend (insert ?n fl) ?u"
  proof -
    have "undispatched ?u ?n" using j by (simp add: undispatched_def sel)
    moreover have "undispatched ?u x" if "pend v fl x" for x
      using that pinvD(2) [OF I that] np(1) st(1) [of x] by metis
    ultimately show ?thesis by (auto simp: inv_pend_def pend)
  qed
  moreover have "inv_queue ?u"
  proof -
    have "p_node (v_job ?u r) = Some w \<and> route_ok ?u r w" if r: "queued v w r" for w r
    proof -
      have "r \<noteq> ?n" using r np(4) by blast
      then show ?thesis using pinvD(3,4) [OF I r] job st(2) by simp
    qed
    then show ?thesis unfolding inv_queue_def queued_same by blast
  qed
  moreover have "inv_wait ?u"
  proof -
    have "p_node (v_job ?u r) = None \<and>
        (\<forall>h. p_fixed (v_job ?u r) = Some h \<longrightarrow> h \<in> set (v_nodes v) \<and> route_ok ?u r h)"
      if r: "r \<in> set (v_wait v)" for r
    proof -
      have "r \<noteq> ?n" using r np(5) by blast
      then show ?thesis using I r job st(2) unfolding pinv_def inv_wait_def by simp
    qed
    then show ?thesis unfolding inv_wait_def sel(1,7) by blast
  qed
  moreover have "inv_flight (insert ?n fl) ?u"
    using I np unfolding pinv_def inv_flight_def sel queued_same by auto
  moreover have "inv_sorted ?u" "inv_cap ?u" "v_faults ?u = []"
    using I by (simp_all add: pinv_def inv_sorted_def inv_cap_def sel)
  moreover have "inv_run ?u"
  proof -
    have "p_node (v_job ?u r) = Some w \<and> p_slot (v_job ?u r) = Some i \<and> r < Suc ?n \<and>
        p_up (v_job ?u r) \<and> p_disp (v_job ?u r)" if r: "runs v w i r" for w i r
      using pinvD(7) [OF I r] job [of r] np(3) r by (cases "r = ?n") auto
    then show ?thesis unfolding inv_run_def runs_same sel(2) by blast
  qed
  moreover have "inv_excl ?u"
  proof -
    have "r = r'" if r: "runs v w i r" "runs v w' i' r'" "same_key ?u r r'" for w i r w' i' r'
    proof -
      have "r \<noteq> ?n" "r' \<noteq> ?n" using r np(3) by blast+
      then have "same_key v r r'" using r(3) st(3) by blast
      then show ?thesis using I r unfolding pinv_def inv_excl_def by blast
    qed
    then show ?thesis unfolding inv_excl_def runs_same by blast
  qed
  moreover have "inv_home ?u"
  proof -
    have "v_home v k = Some w" if r: "placed v w r" "p_key (v_job ?u r) = Some k" for w r k
    proof -
      have "r \<noteq> ?n" using r(1) np(2) by blast
      then show ?thesis using pinvD(8) [OF I r(1)] r(2) job by simp
    qed
    then show ?thesis unfolding inv_home_def plc sel(3) by blast
  qed
  moreover have "inv_routes ?u"
  proof -
    have "route_ok ?u r w" if r: "placed v w r" for w r
    proof -
      have "r \<noteq> ?n" using r np(2) by blast
      then show ?thesis using I r st(2) unfolding pinv_def inv_routes_def by blast
    qed
    then show ?thesis unfolding inv_routes_def plc by blast
  qed
  moreover have "inv_fifo gap ?u"
  proof -
    have "y < x \<or> gap w k" if r: "x \<in> set (v_wait v)" "queued v w y" "p_key (v_job ?u x) = Some k"
        "p_key (v_job ?u y) = Some k" for x w y k
    proof -
      have "x \<noteq> ?n" "y \<noteq> ?n" using r(1,2) np(4,5) by blast+
      then show ?thesis using I r job unfolding pinv_def inv_fifo_def by simp
    qed
    then show ?thesis unfolding inv_fifo_def queued_same sel(7) by blast
  qed
  moreover have "inv_order (insert ?n fl) ?u"
  proof (unfold inv_order_def pend sel(2), intro allI impI)
    fix p z
    assume *: "p = ?n \<or> pend v fl p" "z < Suc ?n" "p_disp (v_job ?u z)" "same_key ?u p z"
    then have z: "z < ?n" using j(3) by (cases "z = ?n") (auto simp: sel)
    show "z < p"
    proof (cases "p = ?n")
      case True
      then show ?thesis using z by simp
    next
      case False
      then have "pend v fl p" "same_key v p z" "p_disp (v_job v z)" using * z st(3) [of p z] by (auto simp: sel)
      then show ?thesis using I z by (auto simp: pinv_def inv_order_def)
    qed
  qed
  moreover have "inv_live (insert ?n fl) ?u"
  proof -
    have "p_up j = False" using j by simp
    moreover have "inv_live fl v" using I by (simp add: pinv_def)
    ultimately show ?thesis
      unfolding inv_live_def pend runs_same sel(2) by (auto simp: sel less_Suc_eq)
  qed
  moreover have "inv_trace ?u"
  proof -
    have t: "distinct (v_disps v)" "sorted_wrt (\<lambda>z y. same_key v z y \<longrightarrow> y < z) (v_disps v)"
      "\<And>x. x \<in> set (v_disps v) \<longleftrightarrow> x < ?n \<and> p_disp (v_job v x)"
      using I by (simp_all add: pinv_def inv_trace_def)
    have "sorted_wrt (\<lambda>z y. same_key ?u z y \<longrightarrow> y < z) (v_disps v)"
      by (rule sorted_wrt_mono_rel [OF _ t(2)]) (use st(3) t(3) in \<open>metis less_irrefl\<close>)
    moreover have "x \<in> set (v_disps v) \<longleftrightarrow> x < Suc ?n \<and> p_disp (v_job ?u x)" for x
      using t(3) [of x] j by (auto simp: sel)
    ultimately show ?thesis using t(1) by (simp add: inv_trace_def sel)
  qed
  ultimately show ?thesis unfolding pinv_def by blast
qed

lemma pinv_cancel:
  assumes I: "pinv fl gap v" and r: "runs v w i r"
  shows "pinv fl gap (v_cancel r v)"
proof -
  let ?u = "v_cancel r v"
  have sel: "v_nodes ?u = v_nodes v" "v_next ?u = v_next v" "v_home ?u = v_home v" "v_cap ?u = v_cap v"
    "v_disps ?u = v_disps v" "v_faults ?u = v_faults v" "v_wait ?u = v_wait v" "v_queue ?u = v_queue v"
    "v_routed ?u = v_routed v" "v_run ?u = v_run v"
    by (simp_all add: move_defs)
  have pj: "p_key (v_job ?u x) = p_key (v_job v x)" "p_live (v_job ?u x) = p_live (v_job v x)"
    "p_disp (v_job ?u x) = p_disp (v_job v x)" "p_up (v_job ?u x) = p_up (v_job v x)"
    "p_timer (v_job ?u x) = p_timer (v_job v x)" "p_seq (v_job ?u x) = p_seq (v_job v x)"
    "p_fixed (v_job ?u x) = p_fixed (v_job v x)" "p_route (v_job ?u x) = p_route (v_job v x)" "p_flex (v_job ?u x) = p_flex (v_job v x)"
    "p_node (v_job ?u x) = p_node (v_job v x)" "p_slot (v_job ?u x) = p_slot (v_job v x)"
    "x \<noteq> r \<Longrightarrow> p_cancelled (v_job ?u x) = p_cancelled (v_job v x)"
    for x by (simp_all add: move_defs)
  have st: "x \<noteq> r \<Longrightarrow> undispatched ?u x = undispatched v x" "route_ok ?u x y = route_ok v x y"
    "same_key ?u x z = same_key v x z" for x y z
    by (auto simp: undispatched_def route_ok_def same_key_def sel pj split: option.split)
  have pend: "pend ?u fl x \<longleftrightarrow> pend v fl x" for x by (simp add: pend_def sel queued_same)
  have plc: "placed ?u = placed v" by (simp add: placed_def queued_same runs_same fun_eq_iff)
  have pending: "inv_pend fl ?u"
  proof -
    have "undispatched ?u x" if "pend v fl x" for x
      using that running_not_pend(1) [OF I r] pinvD(2) [OF I that] st(1) [of x] by metis
    then show ?thesis unfolding inv_pend_def pend by blast
  qed
  show ?thesis
    using I pending unfolding pinv_def
    by (simp add: inv_nodes_def inv_flight_def inv_queue_def inv_wait_def inv_sorted_def
        inv_routes_def inv_cap_def inv_run_def inv_fifo_def inv_home_def inv_excl_def inv_order_def inv_trace_def
        inv_live_def pend st sel runs_same queued_same plc pj)
qed

text \<open>A change of the slots of a worker that keeps what runs.\<close>

lemma pinv_slots:
  assumes I: "pinv fl gap v" and same: "\<And>w i r. runs u w i r \<longleftrightarrow> runs v w i r"
    and len: "\<And>w. length (v_run u w) \<le> v_cap u w"
    and eq: "u\<lparr>v_run := v_run v, v_cap := v_cap v\<rparr> = v"
  shows "pinv fl gap u"
proof -
  have sel: "v_nodes u = v_nodes v" "v_next u = v_next v" "v_home u = v_home v" "v_job u = v_job v"
    "v_disps u = v_disps v" "v_faults u = v_faults v" "v_wait u = v_wait v" "v_queue u = v_queue v"
    "v_routed u = v_routed v"
    by (subst eq [symmetric], simp)+
  have st: "undispatched u = undispatched v" "route_ok u = route_ok v" "same_key u = same_key v"
    "queued u = queued v" "runs u = runs v"
    by (simp_all add: undispatched_def route_ok_def same_key_def queued_def sel fun_eq_iff same split: option.split)
  have pp: "pend u = pend v" "placed u = placed v"
    by (simp_all add: pend_def placed_def sel st fun_eq_iff)
  show ?thesis
    using I len unfolding pinv_def
    by (simp add: inv_nodes_def inv_pend_def inv_flight_def inv_queue_def inv_wait_def inv_sorted_def
        inv_routes_def inv_cap_def inv_run_def inv_fifo_def inv_home_def inv_excl_def inv_order_def inv_trace_def
        inv_live_def sel st pp)
qed

lemma pinv_grow:
  assumes "pinv fl gap v" and "length (v_run v w) < v_cap v w"
  shows "pinv fl gap (v_grow w v)"
proof (rule pinv_slots [OF assms(1) runs_grow])
  fix x show "length (v_run (v_grow w v) x) \<le> v_cap (v_grow w v) x"
    using assms by (auto simp: move_defs pinv_def inv_cap_def)
qed (simp add: move_defs)

lemma pinv_resize:
  assumes "pinv fl gap v" and "\<And>i r. \<not> runs v w i r"
  shows "pinv fl gap (v_resize w c v)"
proof (rule pinv_slots [OF assms(1)])
  fix x i r show "runs (v_resize w c v) x i r \<longleftrightarrow> runs v x i r"
    using assms(2) [of i r] by (auto simp: runs_def move_defs)
  show "length (v_run (v_resize w c v) x) \<le> v_cap (v_resize w c v) x"
    using assms(1) by (auto simp: move_defs pinv_def inv_cap_def)
qed (simp add: move_defs)

lemma pinv_remove:
  assumes I: "pinv fl gap v" and idle: "\<And>r. \<not> placed v w r"
    and parked: "\<And>r. r \<in> set (v_wait v) \<Longrightarrow> p_fixed (v_job v r) \<noteq> Some w"
  shows "pinv fl gap (v_remove w v)"
proof -
  let ?u = "v_remove w v"
  have sel: "v_nodes ?u = remove1 w (v_nodes v)" "v_next ?u = v_next v" "v_home ?u = v_home v" "v_cap ?u = v_cap v"
    "v_disps ?u = v_disps v" "v_faults ?u = v_faults v" "v_wait ?u = v_wait v" "v_queue ?u = v_queue v"
    "v_routed ?u = v_routed v" "v_run ?u = v_run v" "v_job ?u = v_job v"
    by (simp_all add: move_defs)
  have st: "undispatched ?u = undispatched v" "route_ok ?u = route_ok v" "same_key ?u = same_key v"
    "pend ?u = pend v" "placed ?u = placed v"
    by (simp_all add: undispatched_def route_ok_def same_key_def sel fun_eq_iff pend_def placed_def
        queued_same runs_same split: option.split)
  have d: "distinct (v_nodes v)" using I by (simp add: pinv_def inv_nodes_def)
  have nodes: "inv_nodes ?u"
    using I idle d unfolding pinv_def inv_nodes_def sel st by (auto simp: set_remove1_eq)
  have wait: "inv_wait ?u"
    using I parked d unfolding pinv_def inv_wait_def sel st by (auto simp: set_remove1_eq)
  show ?thesis
    using I nodes wait unfolding pinv_def
    by (simp add: inv_pend_def inv_flight_def inv_queue_def inv_sorted_def
        inv_routes_def inv_cap_def inv_run_def inv_fifo_def inv_home_def inv_excl_def inv_order_def inv_trace_def
        inv_live_def sel st runs_same queued_same)
qed

lemma pinv_add:
  assumes I: "pinv fl gap v" and new: "w \<notin> set (v_nodes v)" and c: "1 \<le> c"
  shows "pinv fl gap (v_add w c ro v)"
proof -
  let ?u = "v_add w c ro v"
  have idle: "\<not> placed v w r" for r using pinvD(1) [OF I] new by blast
  then have none: "\<not> queued v w r" "\<not> runs v w i r" for i r by (auto simp: placed_def)
  have sel: "v_nodes ?u = v_nodes v @ [w]" "v_next ?u = v_next v" "v_home ?u = v_home v"
    "v_disps ?u = v_disps v" "v_faults ?u = v_faults v" "v_wait ?u = v_wait v" "v_job ?u = v_job v"
    by (simp_all add: move_defs)
  have st: "undispatched ?u = undispatched v" "same_key ?u = same_key v"
    by (simp_all add: undispatched_def same_key_def sel fun_eq_iff)
  have runs: "runs ?u x i r \<longleftrightarrow> runs v x i r" for x i r
    using none(2) [of i r] by (auto simp: runs_def move_defs)
  have queued: "queued ?u x r \<longleftrightarrow> queued v x r" for x r
    using none(1) [of r] by (auto simp: queued_def move_defs)
  have pp: "pend ?u fl' r = pend v fl' r" "placed ?u x r = placed v x r" for fl' x r
    by (simp_all add: pend_def placed_def sel runs queued)
  have rt: "x \<noteq> w \<Longrightarrow> route_ok ?u r x = route_ok v r x" for r x
    by (simp add: route_ok_def sel split: option.split) (simp add: move_defs)
  have "inv_nodes ?u" using I new unfolding pinv_def inv_nodes_def pp sel by auto
  moreover have "inv_queue ?u"
    using I rt none(1) unfolding pinv_def inv_queue_def queued sel by metis
  moreover have "inv_wait ?u"
    using I rt new unfolding pinv_def inv_wait_def sel by (metis Un_iff set_append)
  moreover have "inv_routes ?u"
  proof -
    have "route_ok ?u r x" if x: "placed v x r" for x r
      using I x rt idle unfolding pinv_def inv_routes_def by metis
    then show ?thesis unfolding inv_routes_def pp by blast
  qed
  moreover have "inv_sorted ?u" "inv_cap ?u" using I c by (auto simp: pinv_def inv_sorted_def inv_cap_def move_defs)
  ultimately show ?thesis
    using I unfolding pinv_def
    by (simp add: inv_pend_def inv_flight_def inv_run_def inv_fifo_def inv_home_def inv_excl_def
        inv_order_def inv_trace_def inv_live_def sel st pp runs queued)
qed

text \<open>Opening and closing a gap.\<close>

lemma pinv_open_gap: "pinv fl gap v \<Longrightarrow> (\<And>w k. gap w k \<Longrightarrow> gap' w k) \<Longrightarrow> pinv fl gap' v"
  unfolding pinv_def inv_fifo_def by metis

lemma pinv_close_gap:
  assumes "pinv fl gap v"
    and "\<And>w k x y. gap w k \<Longrightarrow> x \<in> set (v_wait v) \<Longrightarrow> queued v w y \<Longrightarrow> p_key (v_job v y) = Some k \<Longrightarrow> False"
  shows "pinv fl gap' v"
  using assms unfolding pinv_def inv_fifo_def by metis

text \<open>Retargeting a request in flight.\<close>

lemma pinv_fix:
  assumes I: "pinv fl gap v" and r: "r \<in> fl"
  shows "pinv fl gap (v_upd r (fix_home h) v)"
proof -
  let ?u = "v_upd r (fix_home h) v"
  have sel: "v_nodes ?u = v_nodes v" "v_next ?u = v_next v" "v_home ?u = v_home v" "v_cap ?u = v_cap v"
    "v_disps ?u = v_disps v" "v_faults ?u = v_faults v" "v_wait ?u = v_wait v" "v_queue ?u = v_queue v"
    "v_routed ?u = v_routed v" "v_run ?u = v_run v"
    by (simp_all add: move_defs)
  have pj: "p_key (v_job ?u x) = p_key (v_job v x)" "p_live (v_job ?u x) = p_live (v_job v x)"
    "p_disp (v_job ?u x) = p_disp (v_job v x)" "p_up (v_job ?u x) = p_up (v_job v x)"
    "p_timer (v_job ?u x) = p_timer (v_job v x)" "p_seq (v_job ?u x) = p_seq (v_job v x)"
    "p_route (v_job ?u x) = p_route (v_job v x)" "p_flex (v_job ?u x) = p_flex (v_job v x)"
    "p_cancelled (v_job ?u x) = p_cancelled (v_job v x)" "p_slot (v_job ?u x) = p_slot (v_job v x)"
    "x \<noteq> r \<Longrightarrow> p_fixed (v_job ?u x) = p_fixed (v_job v x)"
    "x \<noteq> r \<Longrightarrow> p_node (v_job ?u x) = p_node (v_job v x)"
    for x by (simp_all add: move_defs)
  have st: "undispatched ?u x = undispatched v x" "route_ok ?u x y = route_ok v x y"
    "same_key ?u x z = same_key v x z" for x y z
    by (auto simp: undispatched_def route_ok_def same_key_def sel pj split: option.split)
  have pend: "pend ?u fl x \<longleftrightarrow> pend v fl x" for x by (simp add: pend_def sel queued_same)
  have plc: "placed ?u = placed v" by (simp add: placed_def queued_same runs_same fun_eq_iff)
  note fact = flight_facts [OF I r]
  have queue: "inv_queue ?u"
  proof -
    have "p_node (v_job ?u x) = Some w \<and> route_ok v x w" if x: "queued v w x" for w x
      using pinvD(3,4) [OF I x] pj(12) [of x] fact(2) x by metis
    then show ?thesis unfolding inv_queue_def queued_same st by blast
  qed
  have wait: "inv_wait ?u"
    using I fact(1) pj(11,12) unfolding pinv_def inv_wait_def sel st by metis
  have run: "inv_run ?u"
  proof -
    have "p_node (v_job ?u x) = Some w" if x: "runs v w i x" for w i x
      using pinvD(7) [OF I x] pj(12) [of x] fact(4) x by metis
    then show ?thesis using I unfolding pinv_def inv_run_def runs_same sel pj by blast
  qed
  show ?thesis
    using I queue wait run unfolding pinv_def
    by (simp add: inv_nodes_def inv_pend_def inv_flight_def inv_sorted_def
        inv_routes_def inv_cap_def inv_fifo_def inv_home_def inv_excl_def inv_order_def inv_trace_def
        inv_live_def pend st sel runs_same queued_same plc pj)
qed

end
