(* ===== verification/Gate_Refinement.thy ===== *)
theory Gate_Refinement
  imports Gate_Placement
begin

text \<open>
  The gateway state refines the placement state of \<open>Gate_Placement\<close>: the abstraction \<open>view\<close>, the
  operations of the scheduler as sequences of moves, and with them the invariant along every step.
\<close>

section \<open>The abstraction\<close>

definition pview :: "job \<Rightarrow> pjob" where
  "pview j = \<lparr>p_key = qkey j, p_seq = qseq j, p_cancelled = qcancelled j, p_node = node_of j,
     p_slot = slot_of j, p_up = upstream j, p_disp = (dispatched_at j \<noteq> None), p_live = listening j,
     p_timer = timer_on j, p_route = route j, p_fixed = fixed_home j, p_flex = genie_flexible j\<rparr>"

fun dispatch_of :: "gw_event \<Rightarrow> nat option" where
  "dispatch_of (Dispatched r w) = Some r"
| "dispatch_of _ = None"

definition dispatches :: "gw_event list \<Rightarrow> nat list" where
  "dispatches t = List.map_filter dispatch_of t"

lemma dispatches_Nil [simp]: "dispatches [] = []"
  by (simp add: dispatches_def List.map_filter_def)

lemma dispatches_Cons [simp]:
  "dispatches (e # t) = (case dispatch_of e of None \<Rightarrow> dispatches t | Some r \<Rightarrow> r # dispatches t)"
  by (simp add: dispatches_def List.map_filter_def split: option.split)

definition view :: "gw \<Rightarrow> place" where
  "view s = \<lparr>v_nodes = nodes s, v_next = next_seq s, v_queue = (\<lambda>w. w_queue (wk s w)),
     v_run = (\<lambda>w. map sl_active (w_slots (wk s w))), v_cap = (\<lambda>w. request_capacity (wk s w)),
     v_routed = (\<lambda>w. w_route_only (wk s w)), v_job = (\<lambda>r. pview (jb s r)), v_wait = waiting s,
     v_home = store_get s, v_disps = dispatches (trace s), v_faults = faults s\<rparr>"

definition gate_ok :: "gw \<Rightarrow> bool" where
  "gate_ok s \<longleftrightarrow> pinv {} no_gap (view s)"

lemma pview_sel [simp]:
  "p_key (pview j) = qkey j" "p_seq (pview j) = qseq j" "p_cancelled (pview j) = qcancelled j"
  "p_node (pview j) = node_of j" "p_slot (pview j) = slot_of j" "p_up (pview j) = upstream j"
  "p_disp (pview j) = (dispatched_at j \<noteq> None)" "p_live (pview j) = listening j"
  "p_timer (pview j) = timer_on j" "p_route (pview j) = route j" "p_fixed (pview j) = fixed_home j"
  "p_flex (pview j) = genie_flexible j"
  by (simp_all add: pview_def)

lemma view_sel [simp]:
  "v_nodes (view s) = nodes s" "v_next (view s) = next_seq s" "v_queue (view s) w = w_queue (wk s w)"
  "v_run (view s) w = map sl_active (w_slots (wk s w))" "v_cap (view s) w = request_capacity (wk s w)"
  "v_routed (view s) w = w_route_only (wk s w)" "v_job (view s) r = pview (jb s r)"
  "v_wait (view s) = waiting s" "v_home (view s) k = store_get s k"
  "v_disps (view s) = dispatches (trace s)" "v_faults (view s) = faults s"
  by (simp_all add: view_def)

text \<open>Two states with the same places, job facts, homes and dispatches have the same view.\<close>

lemma view_eqI:
  assumes "nodes s' = nodes s" "next_seq s' = next_seq s" "waiting s' = waiting s" "faults s' = faults s"
    "\<And>w. w_queue (wk s' w) = w_queue (wk s w)"
    "\<And>w. map sl_active (w_slots (wk s' w)) = map sl_active (w_slots (wk s w))"
    "\<And>w. request_capacity (wk s' w) = request_capacity (wk s w)"
    "\<And>w. w_route_only (wk s' w) = w_route_only (wk s w)" "\<And>r. pview (jb s' r) = pview (jb s r)"
    "\<And>k. store_get s' k = store_get s k" "dispatches (trace s') = dispatches (trace s)"
  shows "view s' = view s"
  using assms by (simp add: view_def fun_eq_iff)

lemma view_gw_update [simp]:
  "view (s\<lparr>draining := b\<rparr>) = view s" "view (s\<lparr>shutting := b\<rparr>) = view s" "view (s\<lparr>turns := n\<rparr>) = view s"
  "view (s\<lparr>turns_saved := b\<rparr>) = view s" "view (s\<lparr>timeout_ms := z\<rparr>) = view s"
  "view (s\<lparr>timeout_saved := b\<rparr>) = view s" "view (s\<lparr>saves := bs\<rparr>) = view s"
  "view (s\<lparr>disk_sessions := ds\<rparr>) = view s"
  "view (s\<lparr>relocated := n\<rparr>) = view s" "view (s\<lparr>relocation_rejected := n\<rparr>) = view s"
  "view (s\<lparr>mono := t\<rparr>) = view s" "view (s\<lparr>wall := t\<rparr>) = view s"
  by (rule view_eqI; simp add: store_get_def)+

lemma store_get_update [simp]:
  "store_get (upd_worker w f s) = store_get s" "store_get (upd_job r g s) = store_get s"
  "store_get (emit e s) = store_get s" "store_get (upd_slot w i h s) = store_get s"
  "store_get (fault m s) = store_get s" "store_get (s\<lparr>next_seq := n\<rparr>) = store_get s"
  "store_get (s\<lparr>waiting := xs\<rparr>) = store_get s"  "store_get (s\<lparr>nodes := ys\<rparr>) = store_get s"
  by (simp_all add: store_get_def fun_eq_iff)

lemma store_get_detach [simp]: "store_get (detach r s) = store_get s"
  by (simp add: store_get_def fun_eq_iff)

lemma store_get_cleanup [simp]: "store_get (cleanup r s) = store_get s"
  by (simp add: cleanup_def)

lemma view_emit [simp]: "dispatch_of e = None \<Longrightarrow> view (emit e s) = view s"
  by (rule view_eqI) simp_all

lemma view_upd_worker:
  "w_queue (f (wk s w)) = w_queue (wk s w) \<Longrightarrow>
   map sl_active (w_slots (f (wk s w))) = map sl_active (w_slots (wk s w)) \<Longrightarrow>
   w_capacity (f (wk s w)) = w_capacity (wk s w) \<Longrightarrow> w_route_only (f (wk s w)) = w_route_only (wk s w) \<Longrightarrow>
   view (upd_worker w f s) = view s"
  by (rule view_eqI) (simp_all add: request_capacity_def)

lemma view_upd_job: "pview (f (jb s r)) = pview (jb s r) \<Longrightarrow> view (upd_job r f s) = view s"
  by (rule view_eqI) simp_all

lemma view_set_wait [simp]: "view (set_wait r why s) = view s"
  unfolding set_wait_def by (rule view_upd_job) (simp add: pview_def)

lemma view_upd_slot:
  "sl_active (f (w_slots (wk s w) ! i)) = sl_active (w_slots (wk s w) ! i) \<Longrightarrow> view (upd_slot w i f s) = view s"
proof -
  assume same: "sl_active (f (w_slots (wk s w) ! i)) = sl_active (w_slots (wk s w) ! i)"
  have "map sl_active ((w_slots (wk s w))[i := f (w_slots (wk s w) ! i)]) = map sl_active (w_slots (wk s w))"
  proof (rule nth_equalityI)
    fix j assume "j < length (map sl_active ((w_slots (wk s w))[i := f (w_slots (wk s w) ! i)]))"
    then show "map sl_active ((w_slots (wk s w))[i := f (w_slots (wk s w) ! i)]) ! j =
        map sl_active (w_slots (wk s w)) ! j"
      by (cases "j = i") (simp_all add: same)
  qed simp
  then show ?thesis by (intro view_eqI) (auto simp: request_capacity_def)
qed

lemma view_store_set:
  assumes "store_set k w s = (ok, s')"
  shows "view s' = (if ok then v_claim k w (view s) else view s)"
proof -
  have "store_get s' = (if ok then (store_get s)(k := Some w) else store_get s)"
    using gw_store.get_after_set [of k w s s'] gw_store.get_after_failure [of k w s s'] assms
    by (cases ok) (auto simp: fun_eq_iff)
  then show ?thesis
    using store_set_frame [OF assms] by (simp add: view_def v_claim_def fun_eq_iff)
qed

section \<open>Reading the state through the view\<close>

lemma queued_view: "queued (view s) w r \<longleftrightarrow> r \<in> set (w_queue (wk s w))"
  by (simp add: queued_def)

lemma runs_view: "runs (view s) w i r \<longleftrightarrow> i < length (w_slots (wk s w)) \<and> sl_active (w_slots (wk s w) ! i) = Some r"
  by (auto simp: runs_def)

lemma running_iff: "(\<exists>i. runs (view s) w i r) \<longleftrightarrow> r \<in> set (active_jobs (wk s w))"
  unfolding runs_view active_jobs_iff by (metis in_set_conv_nth)

lemma placed_view: "placed (view s) w r \<longleftrightarrow> r \<in> set (w_queue (wk s w)) \<or> r \<in> set (active_jobs (wk s w))"
  by (simp add: placed_def queued_view running_iff)

lemma route_view: "route_ok (view s) r w \<longleftrightarrow> allows_worker (route (jb s r)) w (wk s w)"
  by (simp add: route_ok_def allows_worker_def split: option.split)

lemma same_key_view: "same_key (view s) r z \<longleftrightarrow> qkey (jb s r) \<noteq> None \<and> qkey (jb s r) = qkey (jb s z)"
  by (simp add: same_key_def)

lemma runs_key_active:
  assumes "pinv fl gap (view s)" and "runs (view s) w i z" and "qkey (jb s z) = Some k"
  shows "key_active s k"
proof -
  have "placed (view s) w z" using assms(2) by (auto simp: placed_def)
  then have "w \<in> set (nodes s)" using pinvD(1) [OF assms(1)] by simp
  moreover have "z \<in> set (active_jobs (wk s w))" using assms(2) running_iff by blast
  ultimately show ?thesis using assms(3) by (auto simp: key_active_def runs_key_def)
qed

lemma session_work_place:
  assumes "pinv fl gap (view s)" and "placed (view s) w r" and "qkey (jb s r) = Some k"
  shows "\<exists>ow why. session_work s (Some k) = Some (ow, why)"
proof -
  have w: "w \<in> set (nodes s)" using pinvD(1) [OF assms(1,2)] by simp
  show ?thesis
  proof (cases "r \<in> set (active_jobs (wk s w))")
    case True
    then have "find (runs_key s k) (nodes s) \<noteq> None"
      using w assms(3) by (auto simp: find_None_iff runs_key_def)
    then show ?thesis by (auto simp: session_work_def split: option.splits)
  next
    case False
    then have q: "queued (view s) w r" using assms(2) by (simp add: placed_view queued_view)
    then have "\<not> qcancelled (jb s r)"
      using pinvD(2) [OF assms(1), of r] by (auto simp: pend_def undispatched_def)
    then have "find (queues_key s k) (nodes s) \<noteq> None"
      using w q assms(3) by (auto simp: find_None_iff queues_key_def queued_view)
    then show ?thesis by (auto simp: session_work_def split: option.splits)
  qed
qed

lemma session_work_owner:
  assumes I: "pinv fl gap (view s)" and "session_work s (Some k) = Some (ow, why)"
  shows "store_get s k = Some ow"
proof -
  have "(\<exists>r. placed (view s) ow r \<and> qkey (jb s r) = Some k)"
    using assms(2)
    by (auto simp: session_work_def runs_key_def queues_key_def placed_view find_Some_iff split: option.splits)
  then show ?thesis using pinvD(8) [OF I] by auto
qed

text \<open>If \<open>sessionWork\<close> names no other worker, nothing of the conversation is placed elsewhere.\<close>

lemma free_for:
  assumes I: "pinv fl gap (view s)" and "case session_work s (Some k) of None \<Rightarrow> True | Some (ow, _) \<Rightarrow> ow = w"
    and "placed (view s) w' r" and "qkey (jb s r) = Some k"
  shows "w' = w"
proof -
  obtain ow why where sw: "session_work s (Some k) = Some (ow, why)"
    using session_work_place [OF I assms(3,4)] by blast
  then have "store_get s k = Some ow" by (rule session_work_owner [OF I])
  moreover have "store_get s k = Some w'" using pinvD(8) [OF I assms(3), of k] assms(4) by simp
  ultimately show ?thesis using assms(2) sw by simp
qed

section \<open>Moves of the scheduler\<close>

lemma insort_key_id:
  "f a = a \<Longrightarrow> \<forall>x \<in> set ys. f x = x \<Longrightarrow> insort_key f a ys = insort a (ys :: nat list)"
proof (induct ys)
  case (Cons y ys)
  then have "f y = y" by simp
  with Cons show ?case by (simp only: insort_key.simps list.set ball_simps) simp
qed simp

lemma sort_key_id: "\<forall>x \<in> set xs. f x = x \<Longrightarrow> sort_key f xs = sort (xs :: nat list)"
proof (induct xs)
  case (Cons a xs)
  then have "sort_key f xs = sort xs" "f a = a" by auto
  moreover have "insort_key f a (sort xs) = insort a (sort xs)" using Cons by (intro insort_key_id) auto
  ultimately show ?case unfolding sort_key_simps by metis
qed (simp only: sort_key_simps)

lemma filter_absent [simp]: "r \<notin> set xs \<Longrightarrow> filter (\<lambda>x. x \<noteq> r) xs = xs"
  by (rule filter_True) auto

lemma queue_distinct:
  assumes "pinv fl gap (view s)"
  shows "distinct (w_queue (wk s w))" and "distinct (waiting s)"
  using assms by (auto simp: pinv_def inv_sorted_def strict_sorted_iff)

lemma pend_facts:
  assumes "pinv fl gap (view s)" and "pend (view s) fl r"
  shows "qseq (jb s r) = r" "\<not> upstream (jb s r)" "dispatched_at (jb s r) = None"
    "\<not> qcancelled (jb s r)" "listening (jb s r)" "timer_on (jb s r)" "r < next_seq s"
  using pinvD(2) [OF assms] by (auto simp: undispatched_def)

lemma queued_facts:
  assumes "pinv fl gap (view s)" and "r \<in> set (w_queue (wk s w))"
  shows "node_of (jb s r) = Some w" "allows_worker (route (jb s r)) w (wk s w)" "w \<in> set (nodes s)"
    "r \<notin> set (waiting s)" "r \<notin> fl" "w' \<noteq> w \<Longrightarrow> r \<notin> set (w_queue (wk s w'))" "pend (view s) fl r"
proof -
  have q: "queued (view s) w r" using assms(2) by (simp add: queued_view)
  show n: "node_of (jb s r) = Some w" using pinvD(3) [OF assms(1) q] by simp
  show "allows_worker (route (jb s r)) w (wk s w)" using pinvD(4) [OF assms(1) q] by (simp add: route_view)
  show "w \<in> set (nodes s)" using pinvD(1) [OF assms(1), of w r] q by (simp add: placed_def)
  show "r \<notin> set (waiting s)" using pinvD(5) [OF assms(1), of r] n by auto
  show "r \<notin> fl" using pinvD(6) [OF assms(1), of r w] q by auto
  show "w' \<noteq> w \<Longrightarrow> r \<notin> set (w_queue (wk s w'))"
    using pinvD(3) [OF assms(1), of w' r] n by (auto simp: queued_view)
  show "pend (view s) fl r" using q by (auto simp: pend_def)
qed

lemma view_take:
  assumes I: "pinv fl gap (view s)" and r: "r \<in> set (w_queue (wk s w))"
  shows "view (take_from_queue w r s) = v_out r (view s)"
proof -
  note q = queued_facts [OF I r]
  have "remove1 r (w_queue (wk s w)) = filter (\<lambda>x. x \<noteq> r) (w_queue (wk s w))"
    using distinct_remove1_removeAll [OF queue_distinct(1) [OF I]] by (simp add: removeAll_filter_not_eq)
      (metis (full_types) filter_cong)
  then show ?thesis
    using q(4,6)
    by (auto simp: view_def v_out_def take_from_queue_def fun_eq_iff request_capacity_def)
qed

lemma view_detach:
  assumes I: "pinv fl gap (view s)" and r: "pend (view s) fl r"
  shows "view (detach r s) = v_out r (view s)"
proof -
  have wait: "remove1 r (waiting s) = filter (\<lambda>x. x \<noteq> r) (waiting s)"
    using distinct_remove1_removeAll [OF queue_distinct(2) [OF I]] by (simp add: removeAll_filter_not_eq)
      (metis (full_types) filter_cong)
  have queue: "w_queue (wk (detach r s) w) = filter (\<lambda>x. x \<noteq> r) (w_queue (wk s w))" for w
  proof (cases "node_of (jb s r) = Some w")
    case True
    then show ?thesis by (simp add: detach_wk)
  next
    case False
    then have "r \<notin> set (w_queue (wk s w))" using queued_facts(1) [OF I] by blast
    then show ?thesis using False by (auto simp: detach_wk split: option.split)
  qed
  show ?thesis
    by (simp add: view_def v_out_def wait queue fun_eq_iff)
      (auto simp: detach_wk request_capacity_def split: option.split)
qed

end
