(* ===== verification/Gate_Invariant.thy ===== *)
theory Gate_Invariant
  imports Gate_Refinement
begin

text \<open>
  The placement invariant along every operation of the scheduler: parking, dispatch, admission,
  the resumption of waiting requests, queued handover and the life-cycle events.
\<close>

lemma same_keyE:
  assumes "same_key (view s) r z"
  obtains k where "qkey (jb s r) = Some k" "qkey (jb s z) = Some k"
  using assms by (metis option.exhaust same_key_view)

section \<open>Parking\<close>

lemma view_park_detached:
  assumes I: "pinv fl gap (view s)" and r: "pend (view s) fl r"
  shows "view (park r home why s) =
    (if shutting s then v_end r False (v_upd r (fix_home home) (v_out r (view s)))
     else v_park r home (v_out r (view s)))"
proof -
  have up: "\<not> upstream (jb s r)" by (rule pend_facts(2) [OF I r])
  have out: "view (detach r s) = v_out r (view s)" by (rule view_detach [OF I r])
  let ?f = "\<lambda>j. j\<lparr>fixed_home := (case home of None \<Rightarrow> fixed_home j | Some w \<Rightarrow> Some w),
      node_of := None, wait_reason := Some why\<rparr>"
  let ?s2 = "upd_job r ?f (detach r s)"
  have moved: "view ?s2 = v_upd r (fix_home home) (v_out r (view s))"
    unfolding out [symmetric]
    by (simp add: view_def v_upd_def fix_home_def pview_def fun_eq_iff split: option.split)
  have seq: "\<forall>x \<in> set (waiting ?s2 @ [r]). qseq (jb ?s2 x) = x"
  proof
    fix x assume "x \<in> set (waiting ?s2 @ [r])"
    then have "pend (view s) fl x"
      using r set_remove1_subset [of r "waiting s"] by (auto simp: pend_def)
    then have "qseq (jb s x) = x" by (rule pend_facts(1) [OF I])
    then show "qseq (jb ?s2 x) = x" by (cases "x = r") simp_all
  qed
  have park: "view (?s2\<lparr>waiting := by_sequence ?s2 (waiting ?s2 @ [r])\<rparr>) = v_park r home (v_out r (view s))"
    unfolding v_park_def Let_def moved [symmetric] by_sequence_def sort_key_id [OF seq]
    by (simp add: view_def fun_eq_iff)
  have stop: "view (cleanup r (emit (Rejected r GatewayDraining) ?s2)) =
      v_end r False (v_upd r (fix_home home) (v_out r (view s)))"
    unfolding moved [symmetric] by (simp add: view_def v_end_def v_upd_def pview_def fun_eq_iff)
  show ?thesis
    using up park stop unfolding park_def Let_def by simp
qed

lemma park_inv:
  assumes I: "pinv fl gap (view s)" and r: "pend (view s) fl r"
    and home: "\<And>w. (case home of None \<Rightarrow> fixed_home (jb s r) | Some w \<Rightarrow> Some w) = Some w \<Longrightarrow>
        w \<in> set (nodes s) \<and> allows_worker (route (jb s r)) w (wk s w)"
    and gap: "\<And>w y k. y \<in> set (w_queue (wk s w)) \<Longrightarrow> y \<noteq> r \<Longrightarrow> qkey (jb s r) = Some k \<Longrightarrow>
        qkey (jb s y) = Some k \<Longrightarrow> y < r \<or> gap w k"
  shows "pinv (fl - {r}) gap (view (park r home why s))"
proof -
  have I1: "pinv (insert r fl) gap (v_out r (view s))" by (rule pinv_out [OF I r])
  have fl: "insert r fl - {r} = fl - {r}" by auto
  show ?thesis
  proof (cases "shutting s")
    case True
    have "pinv (insert r fl) gap (v_upd r (fix_home home) (v_out r (view s)))"
      by (rule pinv_fix [OF I1]) simp
    from pinv_end [OF this, of r False] show ?thesis
      using True by (simp add: view_park_detached [OF I r] fl)
  next
    case False
    have "pinv (insert r fl - {r}) gap (v_park r home (v_out r (view s)))"
    proof (rule pinv_park [OF I1])
      fix w assume "p_fixed (fix_home home (v_job (v_out r (view s)) r)) = Some w"
      then show "w \<in> set (v_nodes (v_out r (view s))) \<and> route_ok (v_out r (view s)) r w"
        using home [of w] by (simp add: static_out fix_home_def route_view split: option.splits)
    next
      fix w y k
      assume "queued (v_out r (view s)) w y" "p_key (v_job (v_out r (view s)) r) = Some k"
        "p_key (v_job (v_out r (view s)) y) = Some k"
      then show "y < r \<or> gap w k" using gap [of y w k] by (simp add: queued_out queued_view static_out)
    qed simp
    then show ?thesis using False by (simp add: view_park_detached [OF I r] fl)
  qed
qed

section \<open>Dispatch\<close>

lemma view_start:
  "view (start_job w i r s) = v_start w i r (view s)" if "i < length (w_slots (wk s w))"
  using that
  by (simp add: start_job_def view_def v_start_def v_upd_def pview_def fun_eq_iff request_capacity_def
      map_update)

lemma slot_choice_active: "slot_choice w i s = (c, sl) \<Longrightarrow> sl_active sl = sl_active (w_slots (wk s w) ! i)"
  unfolding slot_choice_def by (rule queued_choice_active)

lemma view_slot_choice: "slot_choice w i s = (c, sl) \<Longrightarrow> view (upd_slot w i (\<lambda>_. sl) s) = view s"
  by (rule view_upd_slot) (simp add: slot_choice_active)

lemma start_inv:
  assumes I: "pinv {} no_gap (view s)" and ch: "slot_choice w i s = (Some r, sl)"
    and i: "i < length (w_slots (wk s w))" "sl_active (w_slots (wk s w) ! i) = None"
  shows "pinv {} no_gap (view (start_job w i r (take_from_queue w r (upd_slot w i (\<lambda>_. sl) s))))"
proof -
  let ?s1 = "upd_slot w i (\<lambda>_. sl) s"
  let ?s2 = "take_from_queue w r ?s1"
  let ?v = "v_out r (view s)"
  have v1: "view ?s1 = view s" by (rule view_slot_choice [OF ch])
  have q: "r \<in> set (w_queue (wk s w))" by (rule slot_choice_mem [OF ch])
  have q1: "r \<in> set (w_queue (wk ?s1 w))" using q by simp
  have v2: "view ?s2 = ?v" using view_take [of "{}" no_gap ?s1 r w] I q1 v1 by simp
  have len: "length (w_slots (wk ?s2 w)) = length (w_slots (wk s w))"
    by (simp add: take_from_queue_def)
  note facts = queued_facts [OF I q]
  have I1: "pinv {r} no_gap ?v" using pinv_out [OF I facts(7)] by simp
  have key: "\<not> key_active s k" if "qkey (jb s r) = Some k" for k
    using queued_choice_not_active [OF ch [unfolded slot_choice_def]] that by simp
  have "pinv ({r} - {r}) no_gap (v_start w i r ?v)"
  proof (rule pinv_start [OF I1])
    show "i < length (v_run ?v w)" "v_run ?v w ! i = None" using i by (simp_all add: static_out)
    show "w \<in> set (v_nodes ?v)" "p_node (v_job ?v r) = Some w" "route_ok ?v r w"
      using facts by (simp_all add: static_out route_view)
    show "v_home ?v k = Some w" if "p_key (v_job ?v r) = Some k" for k
      using pinvD(8) [OF I, of w r k] that q by (simp add: static_out placed_view)
    show "\<not> same_key ?v r z" if "runs ?v x j z" for x j z
    proof
      assume "same_key ?v r z"
      then obtain k where "qkey (jb s r) = Some k" "qkey (jb s z) = Some k"
        unfolding static_out by (rule same_keyE)
      then show False using runs_key_active [OF I, of x j z k] that key by (simp add: runs_same)
    qed
    show "r < p" if p: "pend ?v {r} p" "p \<noteq> r" "same_key ?v r p" for p
    proof -
      obtain k where k: "qkey (jb s r) = Some k" "qkey (jb s p) = Some k"
        using p(3) unfolding static_out by (rule same_keyE)
      have pp: "pend (view s) {} p" using p(1,2) by (simp add: pend_out [of r "view s" "{}", simplified])
      consider "p \<in> set (waiting s)" | w' where "queued (view s) w' p" using pp by (auto simp: pend_def)
      then show ?thesis
      proof cases
        case 1
        have "inv_fifo no_gap (view s)" using I by (simp add: pinv_def)
        then show ?thesis using 1 q k by (auto simp: inv_fifo_def queued_view)
      next
        case 2
        have "store_get s k = Some w" "store_get s k = Some w'"
          using pinvD(8) [OF I, of w r k] pinvD(8) [OF I, of w' p k] k q 2 by (auto simp: placed_view queued_view)
        then have pq: "p \<in> set (w_queue (wk s w))" using 2 by (simp add: queued_view)
        have "sorted_wrt (<) (w_queue (wk s w))" using I by (simp add: pinv_def inv_sorted_def)
        then have "r \<le> p"
          using queued_choice_fifo [OF ch [unfolded slot_choice_def] _ pq] pend_facts(4) [OF I pp] k by blast
        then show ?thesis using p(2) by simp
      qed
    qed
  qed simp
  then show ?thesis using view_start [of i ?s2 w r] i(1) len v2 by simp
qed

text \<open>The requests of a worker out of service that its slot may take are parked together.\<close>

definition parking :: "gw \<Rightarrow> string \<Rightarrow> nat \<Rightarrow> string \<Rightarrow> string \<Rightarrow> bool" where
  "parking s w i w' k \<longleftrightarrow> w' = w \<and> out_of_service (wk s w) \<and> \<not> key_active s k \<and>
     \<not> reserved_elsewhere (turns s) (wk s w) i k"

lemma choice_none_empty:
  assumes "queued_choice s n i sl v q = (None, sl')" and "unavailable s n"
  shows "choice_eligible s n i v q = []"
proof (rule ccontr)
  let ?el = "choice_eligible s n i v q"
  assume "?el \<noteq> []"
  then have "conv_head v ?el 0"
    using choice_eligible_live [of s n i v q] by (auto simp: conv_head_def)
  then obtain i0 where "priority_index v ?el = Some i0" using priority_index_None by fastforce
  moreover have "sl_alloc (settle_slot s n sl) = None" using assms(2) by (simp add: settle_slot_def Let_def)
  ultimately show False using assms(1) by (simp add: queued_choice_def choose_with_def Let_def)
qed

lemma out_of_service_unavailable: "out_of_service n \<Longrightarrow> unavailable s n"
  by (auto simp: out_of_service_def unavailable_def)

lemma parking_done:
  assumes I: "pinv {} (parking s w i) (view s)" and ch: "slot_choice w i s = (None, sl)"
  shows "pinv {} no_gap (view s)"
proof (rule pinv_close_gap [OF I])
  fix w' k x y
  assume g: "parking s w i w' k" and y: "queued (view s) w' y" "p_key (v_job (view s) y) = Some k"
  have yq: "y \<in> set (w_queue (wk s w))" using g y(1) by (simp add: parking_def queued_view)
  have "\<not> qcancelled (jb s y)" using pend_facts(4) [OF I, of y] y(1) by (auto simp: pend_def)
  then have "y \<in> set (choice_eligible s (wk s w) i (jb s) (w_queue (wk s w)))"
    using g y(2) yq by (simp add: choice_eligible_def parking_def)
  moreover have "choice_eligible s (wk s w) i (jb s) (w_queue (wk s w)) = []"
    using choice_none_empty [OF ch [unfolded slot_choice_def]] g out_of_service_unavailable
    by (auto simp: parking_def)
  ultimately show False by simp
qed

lemma park_static:
  "nodes (park r h why s) = nodes s" "turns (park r h why s) = turns s" "shutting (park r h why s) = shutting s"
  "qkey (jb (park r h why s) x) = qkey (jb s x)" "w_slots (wk (park r h why s) w) = w_slots (wk s w)"
  "w_healthy (wk (park r h why s) w) = w_healthy (wk s w)"
  "w_quarantine (wk (park r h why s) w) = w_quarantine (wk s w)"
  "w_recovering (wk (park r h why s) w) = w_recovering (wk s w)"
  "w_capacity (wk (park r h why s) w) = w_capacity (wk s w)"
  by (auto simp: park_def Let_def detach_wk split: option.split)

lemma key_active_cong:
  "nodes s' = nodes s \<Longrightarrow> (\<And>w. active_jobs (wk s' w) = active_jobs (wk s w)) \<Longrightarrow>
   (\<And>x. qkey (jb s' x) = qkey (jb s x)) \<Longrightarrow> key_active s' k = key_active s k"
  by (simp add: key_active_def runs_key_def)

lemma active_jobs_cong: "map sl_active (w_slots n) = map sl_active (w_slots m) \<Longrightarrow> active_jobs n = active_jobs m"
proof -
  have "active_jobs n = List.map_filter id (map sl_active (w_slots n))" for n
    by (simp add: active_jobs_def List.map_filter_def filter_map comp_def)
  then show "map sl_active (w_slots n) = map sl_active (w_slots m) \<Longrightarrow> active_jobs n = active_jobs m" by simp
qed

text \<open>One round of the parking loop keeps the gap of the loop.\<close>

lemma parking_round:
  fixes why :: reason
  assumes I: "pinv {} (parking s w i) (view s)" and ch: "slot_choice w i s = (Some r, sl)"
    and oos: "out_of_service (wk s w)"
    and s'_def: "s' = park r (Some w) why (take_from_queue w r (upd_slot w i (\<lambda>_. sl) s))"
  shows "pinv {} (parking s' w i) (view s')"
proof -
  let ?s1 = "upd_slot w i (\<lambda>_. sl) s"
  let ?s2 = "take_from_queue w r ?s1"
  have v1: "view ?s1 = view s" by (rule view_slot_choice [OF ch])
  have q: "r \<in> set (w_queue (wk s w))" by (rule slot_choice_mem [OF ch])
  have v2: "view ?s2 = v_out r (view s)"
    using view_take [of "{}" "parking s w i" ?s1 r w] I q v1 by simp
  note facts = queued_facts [OF I q]
  have I2: "pinv {r} (parking s w i) (view ?s2)" using pinv_out [OF I facts(7)] v2 by simp
  have pr: "pend (view ?s2) {r} r" by (simp add: pend_def)
  have s2: "nodes ?s2 = nodes s" "jb ?s2 = jb s"
    "w_queue (wk ?s2 x) = (if x = w then remove1 r (w_queue (wk s w)) else w_queue (wk s x))"
    "w_route_only (wk ?s2 x) = w_route_only (wk s x)" "turns ?s2 = turns s" for x
    by (simp_all add: take_from_queue_def)
  have "pinv ({r} - {r}) (parking s w i) (view s')"
    unfolding s'_def
  proof (rule park_inv [OF I2 pr])
    fix x assume "(case Some w of None \<Rightarrow> fixed_home (jb ?s2 r) | Some w \<Rightarrow> Some w) = Some x"
    then have x: "x = w" by simp
    show "x \<in> set (nodes ?s2) \<and> allows_worker (route (jb ?s2 r)) x (wk ?s2 x)"
      using facts(2,3) unfolding x allows_worker_def s2 by simp
  next
    fix x y k
    assume y: "y \<in> set (w_queue (wk ?s2 x))" "qkey (jb ?s2 r) = Some k" "qkey (jb ?s2 y) = Some k"
    then have yq: "y \<in> set (w_queue (wk s x))"
      using set_remove1_subset [of r "w_queue (wk s w)"] by (auto simp: s2 split: if_splits)
    have "store_get s k = Some w" "store_get s k = Some x"
      using pinvD(8) [OF I, of w r k] pinvD(8) [OF I, of x y k] y yq q by (auto simp: s2 placed_view)
    moreover have "\<not> key_active s k" "\<not> reserved_elsewhere (turns s) (wk s w) i k"
      using queued_choice_not_active [OF ch [unfolded slot_choice_def]]
        queued_choice_not_reserved [OF ch [unfolded slot_choice_def]] y by (simp_all add: s2)
    ultimately show "y < r \<or> parking s w i x k" using oos by (simp add: parking_def)
  qed
  then have I': "pinv {} (parking s w i) (view s')" by simp
  have len: "w_slots (wk ?s2 x) = (if x = w then (w_slots (wk s w))[i := sl] else w_slots (wk s x))" for x
    by (simp add: take_from_queue_def)
  have act: "map sl_active (w_slots (wk ?s2 x)) = map sl_active (w_slots (wk s x))" for x
    using arg_cong [OF v1, of "\<lambda>v. v_run v x"] by (cases "x = w") (simp_all add: take_from_queue_def)
  have key: "key_active s' k = key_active s k" for k
  proof (rule key_active_cong)
    fix x show "active_jobs (wk s' x) = active_jobs (wk s x)"
      by (rule active_jobs_cong) (simp only: s'_def park_static act)
  qed (simp_all only: s'_def park_static s2)
  have res: "reserved_elsewhere (turns s') (wk s' w) i k = reserved_elsewhere (turns s) (wk s w) i k" for k
    unfolding s'_def reserved_elsewhere_def park_static s2 len by (auto simp: nth_list_update)
  have "parking s w i x k \<Longrightarrow> parking s' w i x k" for x k
    using oos by (simp add: parking_def key res) (simp add: s'_def out_of_service_def park_static take_from_queue_def)
  then show ?thesis by (rule pinv_open_gap [OF I'])
qed

lemma fill_slot_inv:
  assumes "pinv {} (parking s w i) (view s)" and "i < length (w_slots (wk s w))"
    and "sl_active (w_slots (wk s w) ! i) = None"
  shows "pinv {} no_gap (view (snd (fill_slot w i s)))"
  using assms
proof (induction w i s rule: fill_slot.induct)
  case (1 w i s)
  obtain c sl where ch: "slot_choice w i s = (c, sl)" by force
  show ?case
  proof (cases c)
    case None
    then have "pinv {} no_gap (view s)" using parking_done [OF 1(2)] ch by simp
    then show ?thesis using ch None view_slot_choice [OF ch] by (simp add: fill_slot.simps [of w i s])
  next
    case (Some r)
    show ?thesis
    proof (cases "out_of_service (wk s w)")
      case True
      let ?s' = "park r (Some w) (unavailable_reason (wk s w)) (take_from_queue w r (upd_slot w i (\<lambda>_. sl) s))"
      have slots: "w_slots (wk ?s' w) = (w_slots (wk s w))[i := sl]"
        by (simp add: park_static take_from_queue_def)
      have "pinv {} no_gap (view (snd (fill_slot w i ?s')))"
      proof (rule 1(1) [of _ _ r])
        show "pinv {} (parking ?s' w i) (view ?s')"
          by (rule parking_round) (use 1 ch Some True in simp_all)
        show "sl_active (w_slots (wk ?s' w) ! i) = None"
          using 1(3,4) slot_choice_active [OF ch] by (simp add: slots)
      qed (use 1(3) ch Some True slots in simp_all)
      then show ?thesis using ch Some True by (simp add: fill_slot.simps [of w i s])
    next
      case False
      then have "parking s w i = no_gap" by (auto simp: parking_def fun_eq_iff)
      then have "pinv {} no_gap (view s)" using 1(2) by simp
      then show ?thesis
        using start_inv [OF _ ch [unfolded Some] 1(3,4)] ch Some False
        by (simp add: fill_slot.simps [of w i s])
    qed
  qed
qed

lemma park_queue_sub: "set (w_queue (wk (park r h why s) w)) \<subseteq> set (w_queue (wk s w))"
  by (auto simp: park_def Let_def detach_wk split: option.split)

lemma park_waiting: "x \<in> set (waiting s) \<Longrightarrow> x \<noteq> r \<Longrightarrow> x \<in> set (waiting (park r h why s))"
  by (simp add: park_def Let_def by_sequence_def)

lemma fill_slot_frame:
  "length (w_slots (wk (snd (fill_slot w i s)) w)) = length (w_slots (wk s w)) \<and>
   request_capacity (wk (snd (fill_slot w i s)) w) = request_capacity (wk s w) \<and>
   nodes (snd (fill_slot w i s)) = nodes s \<and>
   (\<forall>x \<in> set (waiting s). x \<notin> set (w_queue (wk s w)) \<longrightarrow> x \<in> set (waiting (snd (fill_slot w i s)))) \<and>
   set (w_queue (wk (snd (fill_slot w i s)) w)) \<subseteq> set (w_queue (wk s w))"
proof (induction w i s rule: fill_slot.induct)
  case (1 w i s)
  obtain c sl where ch: "slot_choice w i s = (c, sl)" by force
  show ?case
  proof (cases "\<exists>r. c = Some r \<and> out_of_service (wk s w)")
    case False
    then show ?thesis
      using ch by (cases c)
        (auto simp: fill_slot.simps [of w i s] start_job_def take_from_queue_def request_capacity_def
          dest: set_remove1_subset [THEN subsetD])
  next
    case True
    then obtain r where r: "c = Some r" "out_of_service (wk s w)" by blast
    let ?s2 = "take_from_queue w r (upd_slot w i (\<lambda>_. sl) s)"
    let ?s' = "park r (Some w) (unavailable_reason (wk s w)) ?s2"
    have q: "r \<in> set (w_queue (wk s w))" using slot_choice_mem ch r(1) by blast
    have s2: "w_queue (wk ?s2 w) = remove1 r (w_queue (wk s w))" "waiting ?s2 = waiting s" "nodes ?s2 = nodes s"
      "length (w_slots (wk ?s2 w)) = length (w_slots (wk s w))"
      "w_capacity (wk ?s2 w) = w_capacity (wk s w)"
      by (simp_all add: take_from_queue_def)
    have sub: "set (w_queue (wk ?s' w)) \<subseteq> set (w_queue (wk s w))"
      using order_trans [OF park_queue_sub [of r "Some w" _ ?s2 w, unfolded s2(1)] set_remove1_subset] .
    have wait: "x \<in> set (waiting ?s')" if "x \<in> set (waiting s)" "x \<notin> set (w_queue (wk s w))" for x
      using park_waiting [of x ?s2 r] that q s2(2) by auto
    have "fill_slot w i s = fill_slot w i ?s'" using ch r by (simp add: fill_slot.simps [of w i s])
    then show ?thesis
      using 1 [OF ch [symmetric] r(1) r(2)] sub wait s2(3-5)
      by (auto simp: park_static request_capacity_def)
  qed
qed

section \<open>Scheduling a worker\<close>

definition schedule_frame :: "string \<Rightarrow> gw \<Rightarrow> gw \<Rightarrow> bool" where
  "schedule_frame w s s' \<longleftrightarrow> nodes s' = nodes s \<and>
     request_capacity (wk s' w) = request_capacity (wk s w) \<and>
     (\<forall>x \<in> set (waiting s). x \<notin> set (w_queue (wk s w)) \<longrightarrow> x \<in> set (waiting s')) \<and>
     set (w_queue (wk s' w)) \<subseteq> set (w_queue (wk s w))"

lemma schedule_frame_refl: "schedule_frame w s s"
  by (simp add: schedule_frame_def)

lemma schedule_frame_trans: "schedule_frame w s s' \<Longrightarrow> schedule_frame w s' s'' \<Longrightarrow> schedule_frame w s s''"
  unfolding schedule_frame_def by auto

lemma fill_slot_schedule_frame: "schedule_frame w s (snd (fill_slot w i s))"
  unfolding schedule_frame_def using fill_slot_frame [of w i s] by blast

lemma ensure_slot_frame: "schedule_frame w s (ensure_slot w i s)"
  by (simp add: schedule_frame_def ensure_slot_def request_capacity_def)

lemma ensure_slot_inv:
  assumes I: "pinv {} no_gap (view s)" and i: "i \<le> length (w_slots (wk s w))" "i < request_capacity (wk s w)"
  shows "pinv {} no_gap (view (ensure_slot w i s)) \<and> i < length (w_slots (wk (ensure_slot w i s) w))"
proof (cases "i < length (w_slots (wk s w))")
  case True
  then show ?thesis using I by (simp add: ensure_slot_def)
next
  case False
  then have i': "i = length (w_slots (wk s w))" using i(1) by simp
  have "view (ensure_slot w i s) = v_grow w (view s)"
    using False
    by (simp add: ensure_slot_def view_def v_grow_def fun_eq_iff empty_slot_def request_capacity_def)
  moreover have "pinv {} no_gap (v_grow w (view s))"
    by (rule pinv_grow [OF I]) (use i(2) i' in simp)
  ultimately show ?thesis using False i' by (simp add: ensure_slot_def)
qed

lemma schedule_slots_inv:
  "pinv {} no_gap (view s) \<Longrightarrow> j \<le> length (w_slots (wk s w)) \<Longrightarrow> c = request_capacity (wk s w) \<Longrightarrow>
   pinv {} no_gap (view (schedule_slots w [j..<c] s)) \<and> schedule_frame w s (schedule_slots w [j..<c] s)"
proof (induction "c - j" arbitrary: s j)
  case 0
  then show ?case by (simp add: schedule_frame_refl)
next
  case (Suc d)
  then have j: "j < c" by simp
  then have upt: "[j..<c] = j # [Suc j..<c]" by (rule upt_conv_Cons)
  let ?s1 = "ensure_slot w j s"
  have e: "pinv {} no_gap (view ?s1)" "j < length (w_slots (wk ?s1 w))"
    using ensure_slot_inv [OF Suc.prems(1,2)] j Suc.prems(3) by simp_all
  have c1: "c = request_capacity (wk ?s1 w)" and f1: "schedule_frame w s ?s1"
    using ensure_slot_frame [of w s j] Suc.prems(3) by (simp_all add: schedule_frame_def)
  show ?case
  proof (cases "w_queue (wk s w) = []")
    case True
    then have "schedule_slots w [j..<c] s = s" unfolding upt by simp
    then show ?thesis using Suc.prems(1) by (simp add: schedule_frame_refl)
  next
    case q: False
    show ?thesis
    proof (cases "sl_active (w_slots (wk ?s1 w) ! j) = None")
      case False
      have "pinv {} no_gap (view (schedule_slots w [Suc j..<c] ?s1)) \<and>
          schedule_frame w ?s1 (schedule_slots w [Suc j..<c] ?s1)"
        by (rule Suc.hyps(1)) (use Suc.hyps(2) e c1 in simp_all)
      then show ?thesis using q False schedule_frame_trans [OF f1] by (simp add: upt Let_def)
    next
      case True
      obtain b s2 where fs: "fill_slot w j ?s1 = (b, s2)" by force
      have I2: "pinv {} no_gap (view s2)"
        using fill_slot_inv [OF pinv_open_gap [OF e(1), of "parking ?s1 w j"] e(2) True] fs by simp
      have f2: "schedule_frame w s s2"
        using schedule_frame_trans [OF f1 fill_slot_schedule_frame [of w ?s1 j]] fs by simp
      have len: "Suc j \<le> length (w_slots (wk s2 w))" "c = request_capacity (wk s2 w)"
        using fill_slot_frame [of w j ?s1] fs e(2) c1 by simp_all
      have "pinv {} no_gap (view (schedule_slots w [Suc j..<c] s2)) \<and>
          schedule_frame w s2 (schedule_slots w [Suc j..<c] s2)"
        by (rule Suc.hyps(1)) (use Suc.hyps(2) I2 len in simp_all)
      then show ?thesis using q True fs I2 f2 schedule_frame_trans [OF f2] by (simp add: upt Let_def)
    qed
  qed
qed

lemma schedule_inv:
  assumes I: "pinv {} no_gap (view s)"
  shows "pinv {} no_gap (view (schedule w s))" and "schedule_frame w s (schedule w s)"
proof -
  let ?s0 = "upd_worker w (\<lambda>n. n\<lparr>w_queue := filter (\<lambda>r. \<not> qcancelled (jb s r)) (w_queue n)\<rparr>) s"
  have "\<not> qcancelled (jb s r)" if "r \<in> set (w_queue (wk s w))" for r
    using pend_facts(4) [OF I queued_facts(7) [OF I that]] .
  then have "filter (\<lambda>r. \<not> qcancelled (jb s r)) (w_queue (wk s w)) = w_queue (wk s w)" by simp
  then have v: "view ?s0 = view s" by (intro view_upd_worker) simp_all
  have f0: "schedule_frame w s ?s0" by (auto simp: schedule_frame_def request_capacity_def)
  have "pinv {} no_gap (view (schedule_slots w [0..<request_capacity (wk s w)] ?s0)) \<and>
      schedule_frame w ?s0 (schedule_slots w [0..<request_capacity (wk s w)] ?s0)"
    by (rule schedule_slots_inv) (simp_all add: v I request_capacity_def)
  then show "pinv {} no_gap (view (schedule w s))" "schedule_frame w s (schedule w s)"
    using I schedule_frame_trans [OF f0] by (auto simp: schedule_def schedule_frame_refl)
qed

section \<open>Admission\<close>

lemma claim_home_view:
  assumes "claim_home r w s = (ok, s0)"
  shows "view s0 = (case qkey (jb s r) of None \<Rightarrow> view s
    | Some k \<Rightarrow> if ok then v_claim k w (view s) else view s)" and "qkey (jb s r) = None \<Longrightarrow> ok"
    and "jb s0 = jb s" "wk s0 = wk s" "waiting s0 = waiting s" "nodes s0 = nodes s"
proof -
  have claimed: "store_get s k = Some w \<Longrightarrow> v_claim k w (view s) = view s" for k
    by (simp add: v_claim_def view_def fun_upd_idem_iff)
  show "view s0 = (case qkey (jb s r) of None \<Rightarrow> view s | Some k \<Rightarrow> if ok then v_claim k w (view s) else view s)"
    "qkey (jb s r) = None \<Longrightarrow> ok"
    using assms view_store_set claimed by (auto simp: claim_home_def split: option.splits if_splits)
  show "jb s0 = jb s" "wk s0 = wk s" "waiting s0 = waiting s" "nodes s0 = nodes s"
    using assms store_set_frame by (auto simp: claim_home_def split: option.splits if_splits)
qed

lemma view_queue:
  "view (upd_worker w (\<lambda>n. n\<lparr>w_queue := f (w_queue n)\<rparr>) t) =
   (view t)\<lparr>v_queue := (v_queue (view t))(w := f (w_queue (wk t w)))\<rparr>"
  by (simp add: view_def fun_eq_iff request_capacity_def)

lemma view_enqueue:
  assumes I: "pinv fl gap (view s)" and r: "pend (view s) fl r"
  shows "view (enqueue r w s) = v_enqueue r w (v_out r (view s))"
proof -
  let ?s1 = "upd_job r (\<lambda>j. j\<lparr>node_of := Some w, recorded := True, wait_reason := None\<rparr>) (detach r s)"
  have v1: "view ?s1 = v_upd r (\<lambda>j. j\<lparr>p_node := Some w\<rparr>) (v_out r (view s))"
    unfolding view_detach [OF I r, symmetric]
    by (simp add: view_def v_upd_def pview_def fun_eq_iff)
  have queue: "w_queue (wk (detach r s) w) = filter (\<lambda>x. x \<noteq> r) (w_queue (wk s w))"
    using arg_cong [OF view_detach [OF I r], of "\<lambda>v. v_queue v w"] by (simp add: v_out_def)
  have seq: "\<forall>x \<in> set (w_queue (wk ?s1 w) @ [r]). qseq (jb ?s1 x) = x"
  proof
    fix x assume "x \<in> set (w_queue (wk ?s1 w) @ [r])"
    then have "pend (view s) fl x" using r queued_facts(7) [OF I] by (auto simp: queue)
    then have "qseq (jb s x) = x" by (rule pend_facts(1) [OF I])
    then show "qseq (jb ?s1 x) = x" by (cases "x = r") simp_all
  qed
  have sorted: "by_sequence ?s1 (w_queue (wk ?s1 w) @ [r]) = sort (w_queue (wk ?s1 w) @ [r])"
    unfolding by_sequence_def by (rule sort_key_id [OF seq])
  have "view (enqueue r w s) = (view ?s1)\<lparr>v_queue := (v_queue (view ?s1))(w := sort (v_queue (view ?s1) w @ [r]))\<rparr>"
    unfolding enqueue_def Let_def view_queue [of w "\<lambda>q. by_sequence ?s1 (q @ [r])" ?s1] sorted by simp
  then show ?thesis unfolding v1 v_enqueue_def Let_def .
qed

lemma reject_pending_inv:
  assumes I: "pinv fl gap (view s)" and r: "pend (view s) fl r"
    and e: "dispatch_of e = None"
  shows "pinv (fl - {r}) gap (view (cleanup r (emit e (detach r s))))"
proof -
  have "view (cleanup r (emit e (detach r s))) = v_end r False (view (emit e (detach r s)))"
    by (simp add: view_def v_end_def v_upd_def pview_def fun_eq_iff)
  also have "\<dots> = v_end r False (v_out r (view s))" using view_detach [OF I r] e by simp
  finally show ?thesis
    using pinv_end [OF pinv_out [OF I r], of r False] by (simp add: insert_Diff_if)
qed

text \<open>What a placement decision must have established before \<open>admit\<close>.\<close>

definition may_admit :: "nat \<Rightarrow> string \<Rightarrow> gw \<Rightarrow> bool" where
  "may_admit r w s \<longleftrightarrow> w \<in> set (nodes s) \<and> allows_worker (route (jb s r)) w (wk s w) \<and>
     (\<forall>k. qkey (jb s r) = Some k \<longrightarrow>
        (\<forall>w' x. placed (view s) w' x \<longrightarrow> qkey (jb s x) = Some k \<longrightarrow> w' = w) \<and>
        (\<forall>x \<in> set (waiting s). x \<noteq> r \<longrightarrow> qkey (jb s x) = Some k \<longrightarrow> r < x))"

lemma admit_inv:
  assumes I: "pinv fl no_gap (view s)" and r: "pend (view s) fl r" and fl: "fl \<subseteq> {r}" and ok: "may_admit r w s"
  shows "pinv {} no_gap (view (admit r w s))"
    and "x \<in> set (waiting s) \<Longrightarrow> x \<noteq> r \<Longrightarrow> x \<in> set (waiting (admit r w s))"
    and "nodes (admit r w s) = nodes s"
proof -
  have fl0: "fl - {r} = {}" "insert r fl - {r} = {}" using fl by auto
  obtain b s0 where c: "claim_home r w s = (b, s0)" by force
  note cv = claim_home_view [OF c]
  have allows: "allows_worker (route (jb s r)) w (wk s w)" using ok by (simp add: may_admit_def)
  have I0: "pinv fl no_gap (view s0)"
  proof (cases "qkey (jb s r)")
    case (Some k)
    have "pinv fl no_gap (v_claim k w (view s))"
      by (rule pinv_claim [OF I]) (use ok Some in \<open>auto simp: may_admit_def\<close>)
    then show ?thesis using cv(1) Some I by simp
  qed (use cv(1) I in simp)
  have r0: "pend (view s0) fl r" using r cv(3-5) by (auto simp: pend_def queued_view)
  have "pinv {} no_gap (view (admit r w s)) \<and> (x \<in> set (waiting s) \<longrightarrow> x \<noteq> r \<longrightarrow> x \<in> set (waiting (admit r w s))) \<and>
      nodes (admit r w s) = nodes s"
  proof (cases b)
    case False
    then have "admit r w s = cleanup r (emit (Rejected r AffinityWriteFailed) (detach r s0))"
      using c allows by (simp add: admit_def)
    then show ?thesis
      using reject_pending_inv [OF I0 r0, of "Rejected r AffinityWriteFailed"] fl0 cv(5,6) by simp
  next
    case True
    let ?v = "v_out r (view s0)" and ?s1 = "enqueue r w s0"
    have I1: "pinv (insert r fl) no_gap ?v" by (rule pinv_out [OF I0 r0])
    have "pinv (insert r fl - {r}) no_gap (v_enqueue r w ?v)"
    proof (rule pinv_enqueue [OF I1])
      show "w \<in> set (v_nodes ?v)" using ok cv(6) by (simp add: may_admit_def static_out)
      show "route_ok ?v r w" using allows cv(3,4) by (simp add: static_out route_view)
      show "v_home ?v k = Some w" if "p_key (v_job ?v r) = Some k" for k
      proof -
        have "qkey (jb s r) = Some k" using that cv(3) unfolding static_out by simp
        then have "view s0 = v_claim k w (view s)" using cv(1) True by simp
        then show ?thesis unfolding static_out by (simp add: v_claim_def)
      qed
      show "r < y" if y: "y \<in> set (v_wait ?v)" "same_key ?v r y" for y
      proof -
        have "y \<in> set (waiting s)" "y \<noteq> r" using y(1) cv(5) by (auto simp: static_out)
        moreover obtain k where "qkey (jb s r) = Some k" "qkey (jb s y) = Some k"
          using y(2) cv(3) unfolding static_out by (elim same_keyE) simp
        ultimately show ?thesis using ok by (auto simp: may_admit_def)
      qed
    qed simp
    then have I2: "pinv {} no_gap (view ?s1)" by (simp add: view_enqueue [OF I0 r0] fl0)
    have adm: "admit r w s = schedule w ?s1" using c True allows by (simp add: admit_def)
    have wait: "waiting ?s1 = remove1 r (waiting s)" "nodes ?s1 = nodes s"
      using cv(5,6) by (simp_all add: enqueue_def Let_def)
    have "y \<in> set (waiting (schedule w ?s1))" if "y \<in> set (waiting s)" "y \<noteq> r" for y
    proof -
      have y: "y \<in> set (waiting ?s1)" using that wait by simp
      then have "y \<notin> set (w_queue (wk ?s1 w))" using queued_facts(4) [OF I2] by blast
      then show ?thesis using y schedule_inv(2) [OF I2, of w] by (auto simp: schedule_frame_def)
    qed
    then show ?thesis
      using schedule_inv [OF I2, of w] wait by (simp add: adm schedule_frame_def)
  qed
  then show "pinv {} no_gap (view (admit r w s))" "nodes (admit r w s) = nodes s"
    "x \<in> set (waiting s) \<Longrightarrow> x \<noteq> r \<Longrightarrow> x \<in> set (waiting (admit r w s))"
    by auto
qed

end
