(* ===== verification/Gate_Steps.thy ===== *)
theory Gate_Steps
  imports Gate_Invariant
begin

text \<open>
  The placement invariant along the composed operations and every step of the gateway core, and
  hence in every reachable state.
\<close>

section \<open>Placement decisions\<close>

lemma may_admit_view:
  "may_admit r w s \<longleftrightarrow> w \<in> set (v_nodes (view s)) \<and> route_ok (view s) r w \<and>
     (\<forall>k. p_key (v_job (view s) r) = Some k \<longrightarrow>
        (\<forall>w' x. placed (view s) w' x \<longrightarrow> p_key (v_job (view s) x) = Some k \<longrightarrow> w' = w) \<and>
        (\<forall>x \<in> set (v_wait (view s)). x \<noteq> r \<longrightarrow> p_key (v_job (view s) x) = Some k \<longrightarrow> r < x))"
  by (simp add: may_admit_def route_view)

lemma may_admit_cong: "view s' = view s \<Longrightarrow> may_admit r w s' = may_admit r w s"
  unfolding may_admit_view by simp

lemma pick_sound:
  assumes "pick s ex rt = Some w"
  shows "w \<in> set (nodes s)" and "allows_worker rt w (wk s w)" and "w_healthy (wk s w)"
    and "\<not> w_drained (wk s w)" and "Some w \<noteq> ex"
proof -
  have "w \<in> set (pick_eligible s ex rt)"
    using first_by_mem [OF assms [unfolded pick_def Let_def]] by (auto split: if_splits)
  then show "w \<in> set (nodes s)" "allows_worker rt w (wk s w)" "w_healthy (wk s w)"
    "\<not> w_drained (wk s w)" "Some w \<noteq> ex"
    by (auto simp: pick_eligible_def)
qed

lemma free_genie_node_sound:
  assumes "free_genie_node s rt p arrival = Some w"
  shows "w \<in> set (nodes s)" and "genie_ready s rt p arrival w" and "allows_worker rt w (wk s w)"
  using first_by_mem [OF assms [unfolded free_genie_node_def]] by (auto simp: genie_ready_def)

definition owned_by :: "gw \<Rightarrow> nat \<Rightarrow> string \<Rightarrow> bool" where
  "owned_by s r w \<longleftrightarrow> (case session_work s (qkey (jb s r)) of None \<Rightarrow> True | Some (ow, _) \<Rightarrow> ow = w)"

lemma may_admitI:
  assumes I: "pinv fl no_gap (view s)" and "w \<in> set (nodes s)" "allows_worker (route (jb s r)) w (wk s w)"
    and own: "owned_by s r w"
    and first: "\<And>x k. x \<in> set (waiting s) \<Longrightarrow> x \<noteq> r \<Longrightarrow> qkey (jb s r) = Some k \<Longrightarrow>
        qkey (jb s x) = Some k \<Longrightarrow> r < x"
  shows "may_admit r w s"
proof -
  have "w' = w" if "qkey (jb s r) = Some k" "placed (view s) w' x" "qkey (jb s x) = Some k" for k w' x
    using free_for [OF I _ that(2,3), of w] own that(1) by (simp add: owned_by_def split: option.splits prod.splits)
  then show ?thesis using assms unfolding may_admit_def by blast
qed

section \<open>Resuming waiting requests\<close>

definition pump_frame :: "nat \<Rightarrow> gw \<Rightarrow> gw \<Rightarrow> bool" where
  "pump_frame r s s' \<longleftrightarrow> nodes s' = nodes s \<and> (\<forall>x \<in> set (waiting s). x \<noteq> r \<longrightarrow> x \<in> set (waiting s'))"

definition pump_good :: "nat \<Rightarrow> gw \<Rightarrow> gw \<Rightarrow> bool" where
  "pump_good r s s' \<longleftrightarrow> pinv {} no_gap (view s') \<and> pump_frame r s s'"

lemma set_wait_good: "pinv {} no_gap (view s) \<Longrightarrow> pump_good r s (set_wait r why s)"
  by (simp add: pump_good_def pump_frame_def) (simp add: set_wait_def)

lemma waiting_pend: "r \<in> set (waiting s) \<Longrightarrow> pend (view s) fl r"
  by (simp add: pend_def)

lemma admit_good:
  assumes "pinv {} no_gap (view s)" and "r \<in> set (waiting s)" and "may_admit r w s"
  shows "pump_good r s (admit r w s)"
  using admit_inv [OF assms(1) waiting_pend [OF assms(2)] _ assms(3)]
  by (simp add: pump_good_def pump_frame_def)

lemma admit_or_full_good:
  assumes "pinv {} no_gap (view s)" and "r \<in> set (waiting s)" and "may_admit r w s"
  shows "pump_good r s (admit_or_full r w s)"
  using admit_good [OF assms] set_wait_good [OF assms(1)] by (simp add: admit_or_full_def)

lemma not_earlier:
  assumes I: "pinv {} no_gap (view s)" and r: "r \<in> set (waiting s)" and ne: "\<not> earlier_waiting s r"
    and x: "x \<in> set (waiting s)" "x \<noteq> r" "qkey (jb s r) = Some k" "qkey (jb s x) = Some k"
  shows "r < x"
proof -
  have "qseq (jb s r) = r" "qseq (jb s x) = x"
    using pend_facts(1) [OF I waiting_pend] r x(1) by auto
  then show ?thesis using ne x by (auto simp: earlier_waiting_def)
qed

lemma admit_unless_owned_good:
  assumes I: "pinv {} no_gap (view s)" and r: "r \<in> set (waiting s)" and ne: "\<not> earlier_waiting s r"
    and w: "w \<in> set (nodes s)" "allows_worker (route (jb s r)) w (wk s w)"
  shows "pump_good r s (admit_unless_owned r w (session_work s (qkey (jb s r))) s)"
proof -
  have "pump_good r s (admit_or_full r w s)" if "owned_by s r w"
    by (rule admit_or_full_good [OF I r may_admitI [OF I w that not_earlier [OF I r ne]]])
  then show ?thesis
    using set_wait_good [OF I]
    by (auto simp: admit_unless_owned_def owned_by_def split: option.splits)
qed

lemma pump_free_good:
  assumes I: "pinv {} no_gap (view s)" and r: "r \<in> set (waiting s)" and ne: "\<not> earlier_waiting s r"
  shows "pump_good r s (pump_free r s)"
proof (cases "known_home s r")
  case None
  show ?thesis
  proof (cases "pick s None (route (jb s r))")
    case (Some w)
    then show ?thesis
      using None admit_unless_owned_good [OF I r ne] pick_sound [OF Some] by (simp add: pump_free_def Let_def)
  qed (use None set_wait_good [OF I] in \<open>simp add: pump_free_def Let_def\<close>)
next
  case (Some h)
  then have h: "h \<in> set (nodes s)" by (auto simp: known_home_def split: option.splits if_splits)
  show ?thesis
  proof (cases "allows_worker (route (jb s r)) h (wk s h) \<and> in_service (wk s h)")
    case True
    then show ?thesis using Some admit_unless_owned_good [OF I r ne h] by (simp add: pump_free_def Let_def)
  next
    case False
    show ?thesis
    proof (cases "session_work s (qkey (jb s r))")
      case Some': (Some o')
      then show ?thesis
        using Some False set_wait_good [OF I] by (cases o') (auto simp: pump_free_def Let_def)
    next
      case none: None
      let ?s1 = "upd_job r (\<lambda>j. j\<lparr>affinity := AffReassigned\<rparr>) s"
      have v: "view ?s1 = view s" by (rule view_upd_job) (simp add: pview_def)
      have I1: "pinv {} no_gap (view ?s1)" using I v by simp
      let ?n = "case pick s (Some h) (route (jb s r)) of Some w \<Rightarrow> Some w | None \<Rightarrow> pick s None (route (jb s r))"
      have same: "pump_good r ?s1 s' \<Longrightarrow> pump_good r s s'" for s' by (simp add: pump_good_def pump_frame_def)
      have "pump_good r s (case ?n of None \<Rightarrow> set_wait r NoReadyWorker ?s1
           | Some w \<Rightarrow> admit_unless_owned r w None ?s1)"
      proof (cases ?n)
        case None
        then show ?thesis using same [OF set_wait_good [OF I1]] by simp
      next
        case (Some w)
        then have "pick s (Some h) (route (jb s r)) = Some w \<or> pick s None (route (jb s r)) = Some w"
          by (auto split: option.splits)
        then have w: "w \<in> set (nodes s)" "allows_worker (route (jb s r)) w (wk s w)"
          using pick_sound by blast+
        have "owned_by s r w" using none by (simp add: owned_by_def)
        then have "may_admit r w s" by (rule may_admitI [OF I w _ not_earlier [OF I r ne]])
        then have "may_admit r w ?s1" using may_admit_cong [OF v] by simp
        then show ?thesis
          using Some same [OF admit_or_full_good [OF I1]] r by (simp add: admit_unless_owned_def)
      qed
      then show ?thesis using Some False none by (auto simp: pump_free_def Let_def)
    qed
  qed
qed

lemma pump_one_good:
  assumes I: "pinv {} no_gap (view s)" and r: "r \<in> set (waiting s)"
  shows "pump_good r s (pump_one r s)"
proof -
  have live: "\<not> qcancelled (jb s r)" by (rule pend_facts(4) [OF I waiting_pend [OF r]])
  show ?thesis
  proof (cases "genie_flexible (jb s r)")
    case True
    have key: "qkey (jb s r) = None"
      using pinvD(2) [OF I waiting_pend [OF r]] True by (simp add: undispatched_def)
    show ?thesis
    proof (cases "free_genie_node s (route (jb s r)) (qprio (jb s r)) (qseq (jb s r))")
      case (Some w)
      have "may_admit r w s"
        using free_genie_node_sound [OF Some] key by (simp add: may_admit_def)
      then show ?thesis using True live Some admit_good [OF I r] by (simp add: pump_one_def Let_def)
    qed (use True live set_wait_good [OF I] in \<open>simp add: pump_one_def Let_def\<close>)
  next
    case False
    show ?thesis
    proof (cases "earlier_waiting s r")
      case True
      then show ?thesis using False live set_wait_good [OF I] by (simp add: pump_one_def Let_def)
    next
      case ne: False
      show ?thesis
      proof (cases "fixed_home (jb s r)")
        case None
        then show ?thesis using False live ne pump_free_good [OF I r ne] by (simp add: pump_one_def Let_def)
      next
        case (Some h)
        have "inv_wait (view s)" using I by (simp add: pinv_def)
        then have h: "h \<in> set (nodes s)" "allows_worker (route (jb s r)) h (wk s h)"
          using r Some by (auto simp: inv_wait_def route_view)
        show ?thesis
          using False live ne Some set_wait_good [OF I] admit_unless_owned_good [OF I r ne h]
          by (simp add: pump_one_def Let_def)
      qed
    qed
  qed
qed

lemma pump_fold_good:
  "pinv {} no_gap (view s) \<Longrightarrow> set rs \<subseteq> set (waiting s) \<Longrightarrow> distinct rs \<Longrightarrow>
   pinv {} no_gap (view (fold pump_one rs s)) \<and> nodes (fold pump_one rs s) = nodes s"
proof (induction rs arbitrary: s)
  case (Cons r rs)
  have g: "pump_good r s (pump_one r s)" by (rule pump_one_good) (use Cons.prems in auto)
  have "pinv {} no_gap (view (fold pump_one rs (pump_one r s))) \<and>
      nodes (fold pump_one rs (pump_one r s)) = nodes (pump_one r s)"
  proof (rule Cons.IH)
    show "set rs \<subseteq> set (waiting (pump_one r s))"
      using g Cons.prems(2,3) unfolding pump_good_def pump_frame_def by auto
  qed (use g Cons.prems in \<open>simp_all add: pump_good_def\<close>)
  then show ?case using g by (simp add: pump_good_def pump_frame_def)
qed simp

section \<open>Queued handover\<close>

lemma next_queued_mem: "next_queued s w = Some r \<Longrightarrow> r \<in> set (w_queue (wk s w))"
  by (auto simp: next_queued_def dest: priority_index_bound)

lemma no_conflict:
  assumes I: "pinv {} no_gap (view s)" and "conflicting_work s r = None" and k: "qkey (jb s r) = Some k"
  shows "placed (view s) w x \<Longrightarrow> qkey (jb s x) = Some k \<Longrightarrow> x = r"
    and "x \<in> set (waiting s) \<Longrightarrow> qkey (jb s x) = Some k \<Longrightarrow> x = r"
proof -
  have c: "\<forall>w \<in> set (nodes s). \<not> runs_key s k w" "\<forall>w \<in> set (nodes s). \<not> other_queued s r w"
    "\<forall>x \<in> set (waiting s). x \<noteq> r \<longrightarrow> qcancelled (jb s x) \<or> qkey (jb s x) \<noteq> Some k"
    using assms(2) k by (auto simp: conflicting_work_def find_None_iff split: option.splits if_splits)
  {
    assume x: "placed (view s) w x" "qkey (jb s x) = Some k"
    have w: "w \<in> set (nodes s)" using pinvD(1) [OF I x(1)] by simp
    then have "x \<notin> set (active_jobs (wk s w))" using c(1) x(2) by (auto simp: runs_key_def)
    then have q: "x \<in> set (w_queue (wk s w))" using x(1) by (simp add: placed_view)
    have "\<not> qcancelled (jb s x)" by (rule pend_facts(4) [OF I queued_facts(7) [OF I q]])
    then show "x = r" using c(2) w q x(2) k by (auto simp: other_queued_def)
  next
    assume x: "x \<in> set (waiting s)" "qkey (jb s x) = Some k"
    have "\<not> qcancelled (jb s x)" by (rule pend_facts(4) [OF I waiting_pend [OF x(1)]])
    then show "x = r" using c(3) x by blast
  }
qed

lemma move_queued_inv:
  assumes I: "pinv {} no_gap (view s)" and r: "r \<in> set (w_queue (wk s src))"
    and dst: "dst \<in> set (nodes s)" "src \<noteq> dst" "w_queue (wk s dst) = []"
      "allows_worker (route (jb s r)) dst (wk s dst)"
    and free: "\<And>k w x. qkey (jb s r) = Some k \<Longrightarrow> placed (view s) w x \<Longrightarrow> qkey (jb s x) = Some k \<Longrightarrow> x = r"
    and wait: "\<And>k x. qkey (jb s r) = Some k \<Longrightarrow> x \<in> set (waiting s) \<Longrightarrow> qkey (jb s x) = Some k \<Longrightarrow> x = r"
    and claim: "s1 = s \<and> qkey (jb s r) = None \<or>
      (\<exists>k. qkey (jb s r) = Some k \<and> store_set k dst s = (True, s1))"
  shows "pinv {} no_gap (view (move_queued r src dst s1))" and "nodes (move_queued r src dst s1) = nodes s"
proof -
  let ?v = "v_out r (view s)"
  note facts = queued_facts [OF I r]
  have I1: "pinv {r} no_gap ?v" using pinv_out [OF I facts(7)] by simp
  let ?u = "case qkey (jb s r) of None \<Rightarrow> ?v | Some k \<Rightarrow> v_claim k dst ?v"
  have I2: "pinv {r} no_gap ?u"
  proof (cases "qkey (jb s r)")
    case (Some k)
    have "pinv {r} no_gap (v_claim k dst ?v)"
    proof (rule pinv_claim [OF I1])
      fix w' x assume x: "placed ?v w' x" "p_key (v_job ?v x) = Some k"
      then have "placed (view s) w' x" "x \<noteq> r"
        using flight_facts(2,4) [OF I1, of r] by (auto simp: placed_def queued_out runs_same)
      then show "w' = dst" using free [OF Some] x(2) by (simp add: static_out)
    qed
    then show ?thesis using Some by simp
  qed (use I1 in simp)
  have s1: "jb s1 = jb s" "wk s1 = wk s" "nodes s1 = nodes s" "waiting s1 = waiting s"
    using claim store_set_frame by auto
  let ?s2 = "upd_job r (\<lambda>j. j\<lparr>node_of := Some dst, affinity := AffRebalanced\<rparr>) (take_from_queue src r s1)"
  let ?s3 = "upd_worker dst (\<lambda>n. n\<lparr>w_queue := w_queue n @ [r]\<rparr>) ?s2"
  have vt: "view (take_from_queue src r s1) = ?u"
  proof (cases "qkey (jb s r)")
    case None
    then show ?thesis using claim view_take [OF I r] by simp
  next
    case (Some k)
    then have st: "store_set k dst s = (True, s1)" using claim by simp
    have "view (take_from_queue src r s1) = v_claim k dst (view (take_from_queue src r s))"
      using store_set_frame [OF st] gw_store.get_after_set [OF st]
      by (simp add: view_def v_claim_def take_from_queue_def fun_eq_iff)
    then show ?thesis using Some view_take [OF I r] by simp
  qed
  have v2: "view ?s2 = v_upd r (\<lambda>j. j\<lparr>p_node := Some dst\<rparr>) ?u"
    unfolding vt [symmetric] by (simp add: view_def v_upd_def pview_def fun_eq_iff)
  have empty: "w_queue (wk ?s2 dst) = []" using dst(2,3) s1 by (simp add: take_from_queue_def)
  have v3: "view ?s3 = v_enqueue r dst ?u"
    unfolding view_queue [of dst "\<lambda>q. q @ [r]" ?s2] v_enqueue_def Let_def v2 [symmetric] using empty by simp
  have uq: "v_nodes ?u = nodes s" "v_job ?u = v_job (view s)" "route_ok ?u x w = route_ok (view s) x w"
    "same_key ?u = same_key (view s)" "set (v_wait ?u) \<subseteq> set (waiting s)" for x w
    by (auto simp: v_claim_def v_out_def route_ok_def same_key_def fun_eq_iff split: option.splits)
  have "pinv ({r} - {r}) no_gap (v_enqueue r dst ?u)"
  proof (rule pinv_enqueue [OF I2])
    show "dst \<in> set (v_nodes ?u)" "route_ok ?u r dst" using dst uq by (simp_all add: route_view)
    show "v_home ?u k = Some dst" if "p_key (v_job ?u r) = Some k" for k
      using that uq(2) by (simp add: v_claim_def)
    show "r < x" if x: "x \<in> set (v_wait ?u)" "same_key ?u r x" for x
    proof -
      have "x \<in> set (waiting s)" using x(1) uq(5) by blast
      moreover obtain k where "qkey (jb s r) = Some k" "qkey (jb s x) = Some k"
        using x(2) unfolding uq by (rule same_keyE)
      ultimately have "x = r" using wait by blast
      then show ?thesis using \<open>x \<in> set (waiting s)\<close> facts(4) by simp
    qed
  qed simp
  then have "pinv {} no_gap (view (emit (Relocated r src dst) (?s3\<lparr>relocated := relocated ?s3 + 1\<rparr>)))"
    by (simp add: v3)
  from schedule_inv [OF this, of dst]
  show "pinv {} no_gap (view (move_queued r src dst s1))" "nodes (move_queued r src dst s1) = nodes s"
    unfolding move_queued_def Let_def using s1 by (simp_all add: schedule_frame_def take_from_queue_def)
qed

lemma relocation_allowedD:
  assumes "relocation_allowed rid src dst ev s = Some r"
  shows "src \<in> set (nodes s)" "dst \<in> set (nodes s)" "src \<noteq> dst" "next_queued s src = Some r"
    "job_id (jb s r) = rid" "\<not> qcancelled (jb s r)" "\<not> upstream (jb s r)" "dispatched_at (jb s r) = None"
    "active_jobs (wk s src) \<noteq> []" "eligible_destination s dst" "allows_worker (route (jb s r)) dst (wk s dst)"
    "conflicting_work s r = None" "relocation_evidence s r src dst = ev"
    "qkey (jb s r) = None \<or> job_home s r = Some src"
  using assms
  by (cases "conflicting_work s r"; auto simp: relocation_allowed_def Let_def split: if_splits option.splits)+

lemma relocate_queued_inv:
  assumes I: "pinv {} no_gap (view s)"
  shows "pinv {} no_gap (view (snd (relocate_queued rid src dst ev s)))"
    and "nodes (snd (relocate_queued rid src dst ev s)) = nodes s"
proof -
  have "pinv {} no_gap (view (snd (relocate_queued rid src dst ev s))) \<and>
      nodes (snd (relocate_queued rid src dst ev s)) = nodes s"
  proof (cases "relocation_allowed rid src dst ev s")
    case None
    then show ?thesis using I by (simp add: relocate_queued_def reject_move_def)
  next
    case (Some r)
    note d = relocation_allowedD [OF Some]
    obtain ok s1 where st: "(case qkey (jb s r) of None \<Rightarrow> (True, s) | Some k \<Rightarrow> store_set k dst s) = (ok, s1)"
      by force
    show ?thesis
    proof (cases ok)
      case False
      then obtain k where "store_set k dst s = (False, s1)" using st by (auto split: option.splits)
      then have "view s1 = view s" "nodes s1 = nodes s" using view_store_set store_set_frame by fastforce+
      then show ?thesis using I Some st False by (simp add: relocate_queued_def reject_move_def)
    next
      case True
      have claim: "s1 = s \<and> qkey (jb s r) = None \<or> (\<exists>k. qkey (jb s r) = Some k \<and> store_set k dst s = (True, s1))"
        using st True by (auto split: option.splits)
      have "pinv {} no_gap (view (move_queued r src dst s1)) \<and> nodes (move_queued r src dst s1) = nodes s"
        by (intro conjI move_queued_inv [OF I next_queued_mem [OF d(4)] d(2,3) _ d(11) _ _ claim];
            use d(10) no_conflict [OF I d(12)] in \<open>simp add: eligible_destination_def\<close>)
      then show ?thesis using Some st True by (simp add: relocate_queued_def)
    qed
  qed
  then show "pinv {} no_gap (view (snd (relocate_queued rid src dst ev s)))"
    "nodes (snd (relocate_queued rid src dst ev s)) = nodes s" by auto
qed

lemma rebalance_inv:
  assumes "pinv {} no_gap (view s)"
  shows "pinv {} no_gap (view (rebalance_undispatched s))" and "nodes (rebalance_undispatched s) = nodes s"
  using assms relocate_queued_inv [OF assms] by (simp_all add: rebalance_undispatched_def split: option.split)

lemma pump_waiting_inv:
  assumes I: "pinv {} no_gap (view s)"
  shows "pinv {} no_gap (view (pump_waiting s))" and "nodes (pump_waiting s) = nodes s"
proof -
  let ?rs = "priority_order (jb s) (waiting s)"
  have "pinv {} no_gap (view (fold pump_one ?rs s)) \<and> nodes (fold pump_one ?rs s) = nodes s"
    by (rule pump_fold_good [OF I])
      (auto simp: set_priority_order distinct_priority_order queue_distinct(2) [OF I])
  then show "pinv {} no_gap (view (pump_waiting s))" "nodes (pump_waiting s) = nodes s"
    using I rebalance_inv by (auto simp: pump_waiting_def)
qed

lemma schedule_fold_inv:
  "pinv {} no_gap (view s) \<Longrightarrow> pinv {} no_gap (view (fold schedule ws s))"
  by (induction ws arbitrary: s) (simp_all add: schedule_inv(1))

section \<open>Life-cycle events\<close>

lemma first_place_sound:
  assumes I: "pinv {} no_gap (view s)" and f: "first_place s ko rt = (Some w, why, aff)"
  shows "w \<in> set (nodes s)" and "allows_worker rt w (wk s w)"
    and "ko = Some k \<Longrightarrow> placed (view s) w' x \<Longrightarrow> qkey (jb s x) = Some k \<Longrightarrow> w' = w"
proof -
  have "w \<in> set (nodes s) \<and> allows_worker rt w (wk s w)"
    using f pick_sound
    by (auto simp: first_place_def Let_def registered_def split: option.splits if_splits prod.splits)
  then show "w \<in> set (nodes s)" "allows_worker rt w (wk s w)" by auto
  {
    assume k: "ko = Some k" and x: "placed (view s) w' x" "qkey (jb s x) = Some k"
    have h: "store_get s k = Some w'" "w' \<in> set (nodes s)"
      using pinvD(8) [OF I x(1), of k] pinvD(1) [OF I x(1)] x(2) by simp_all
    obtain ow y where sw: "session_work s (Some k) = Some (ow, y)"
      using session_work_place [OF I x] by blast
    show "w' = w"
      using f k h sw by (auto simp: first_place_def Let_def registered_def home_of_def split: if_splits)
  }
qed

lemma post_request_inv:
  assumes I: "pinv {} no_gap (view s)" and pl: "place = place_request s (rq_key q) rt"
  shows "pinv {} no_gap (view (snd (post_request q p rt place s)))"
proof -
  obtain n0 why0 aff where p0: "place = (n0, why0, aff)" by (metis prod_cases3)
  let ?flex = "flexible_request q"
  let ?n = "if ?flex then free_genie_node s rt p arrival_last else n0"
  let ?why = "if ?flex then (if ?n = None then Some NoReadyWorker else None) else why0"
  let ?j = "new_job s q p rt aff ?flex"
  let ?s1 = "create_job ?j s" and ?r = "next_seq s"
  have vj: "view ?s1 = v_new (pview ?j) (view s)"
    by (simp add: view_def v_new_def v_upd_def create_job_def fun_eq_iff)
  have flexkey: "?flex \<Longrightarrow> rq_key q = None" by (simp add: flexible_request_def)
  have I1: "pinv {?r} no_gap (view ?s1)"
    unfolding vj using pinv_new [OF I, of "pview ?j"] flexkey by (simp add: new_job_def)
  have sel: "nodes ?s1 = nodes s" "wk ?s1 = wk s" "waiting ?s1 = waiting s" "qkey (jb ?s1 ?r) = rq_key q"
    "route (jb ?s1 ?r) = rt" "fixed_home (jb ?s1 ?r) = None" "x \<noteq> ?r \<Longrightarrow> jb ?s1 x = jb s x" for x
    by (simp_all add: create_job_def new_job_def)
  have new: "\<not> placed (view s) w ?r" "?r \<notin> set (waiting s)" for w
    using pinvD(2) [OF I, of ?r] pinvD(7) [OF I, of _ _ ?r] by (auto simp: placed_def pend_def undispatched_def)
  have plc: "placed (view ?s1) = placed (view s)"
    by (simp add: fun_eq_iff placed_view sel)
  have pr: "pend (view ?s1) {?r} ?r" by (simp add: pend_def)
  have acc: "pinv {} no_gap (view (snd (accept_request q p rt aff ?flex ?n ?why s)))"
  proof (cases ?n)
    case None
    have lt: "y < ?r" if "y \<in> set (w_queue (wk s w))" for y w
      by (rule pend_facts(7) [OF I queued_facts(7) [OF I that]])
    have "pinv ({?r} - {?r}) no_gap
        (view (park ?r None (case ?why of None \<Rightarrow> NoReadyWorker | Some y \<Rightarrow> y) ?s1))"
      by (rule park_inv [OF I1 pr]) (use lt sel in auto)
    then show ?thesis using None by (simp add: accept_request_def Let_def)
  next
    case (Some w)
    have "may_admit ?r w ?s1"
    proof (cases ?flex)
      case True
      then show ?thesis
        unfolding may_admit_def sel
        using Some free_genie_node_sound(1,3) [of s rt p arrival_last w] flexkey by simp
    next
      case False
      then have fp: "first_place s (rq_key q) rt = (Some w, why0, aff)" and kw: "\<not> key_waiting s (rq_key q)"
        using Some pl p0 by (auto simp: place_request_def Let_def split: prod.splits if_splits)
      have "w' = w" if "rq_key q = Some k" "placed (view s) w' x" "qkey (jb ?s1 x) = Some k" for k w' x
      proof -
        have "x \<noteq> ?r" using new(1) that(2) by blast
        then show ?thesis using first_place_sound(3) [OF I fp that(1,2)] that(3) sel(7) by simp
      qed
      moreover have False if "rq_key q = Some k" "x \<in> set (waiting s)" "qkey (jb ?s1 x) = Some k" for k x
      proof -
        have "x \<noteq> ?r" using new(2) that(2) by blast
        then show ?thesis using kw that sel(7) by (auto simp: key_waiting_def)
      qed
      ultimately show ?thesis
        using first_place_sound(1,2) [OF I fp] unfolding may_admit_def sel(1-5) plc by blast
    qed
    then show ?thesis
      using admit_inv(1) [OF I1 pr] Some by (simp add: accept_request_def Let_def)
  qed
  show ?thesis
    using acc I by (simp add: post_request_def p0 Let_def refuse_def)
qed

lemma on_request_inv:
  assumes I: "pinv {} no_gap (view s)"
  shows "pinv {} no_gap (view (snd (on_request routes q s)))"
  using I post_request_inv [OF I refl]
  by (auto simp: on_request_def refuse_def Let_def split: sum.splits option.splits)

lemma cancel_inv:
  assumes I: "pinv {} no_gap (view s)" and r: "r < next_seq s" "listening (jb s r)"
  shows "pinv {} no_gap (view (cancel fin r s))"
proof -
  let ?s1 = "upd_job r (\<lambda>j. j\<lparr>qcancelled := True\<rparr>) s"
  have live: "inv_live {} (view s)" using I by (simp add: pinv_def)
  show ?thesis
  proof (cases "upstream (jb s r)")
    case True
    then obtain w i where "runs (view s) w i r" using live r by (auto simp: inv_live_def)
    moreover have "view ?s1 = v_cancel r (view s)"
      by (simp add: view_def v_cancel_def v_upd_def pview_def fun_eq_iff)
    ultimately have "pinv {} no_gap (view ?s1)" using pinv_cancel [OF I] by simp
    then show ?thesis using True I by (simp add: cancel_def Let_def)
  next
    case False
    have pr: "pend (view s) {} r"
      using live r pinvD(7) [OF I, of _ _ r] False by (fastforce simp: inv_live_def)
    have wk: "wk (detach r ?s1) = wk (detach r s)"
      by (simp add: detach_wk split: option.split)
    have "view (emit (CancelledQueued r) (cleanup r (detach r ?s1))) = v_end r True (view (detach r s))"
      by (simp add: view_def v_end_def v_upd_def pview_def fun_eq_iff wk)
    also have "\<dots> = v_end r True (v_out r (view s))" using view_detach [OF I pr] by simp
    finally have "pinv {} no_gap (view (emit (CancelledQueued r) (cleanup r (detach r ?s1))))"
      using pinv_end [OF pinv_out [OF I pr], of r True] by simp
    then show ?thesis using False I pump_waiting_inv(1) by (simp add: cancel_def Let_def)
  qed
qed

lemma queue_deadline_inv:
  assumes I: "pinv {} no_gap (view s)" and r: "r < next_seq s" "timer_on (jb s r)"
  shows "pinv {} no_gap (view (queue_deadline r s))"
proof -
  have "inv_live {} (view s)" using I by (simp add: pinv_def)
  then have pr: "pend (view s) {} r" using r by (simp add: inv_live_def)
  have "pinv ({} - {r}) no_gap (view (cleanup r (emit (Rejected r QueueDeadline) (detach r s))))"
    by (rule reject_pending_inv [OF I pr]) simp
  moreover have "view (cleanup r (emit (QueueTimeout r) (emit (Rejected r QueueDeadline) (detach r s)))) =
      view (cleanup r (emit (Rejected r QueueDeadline) (detach r s)))"
    by (simp add: view_def)
  ultimately show ?thesis using pump_waiting_inv(1) by (simp add: queue_deadline_def)
qed

lemma view_save_ok: "save_ok s = (ok, s') \<Longrightarrow> view s' = view s \<and> nodes s' = nodes s \<and> wk s' = wk s \<and> jb s' = jb s \<and>
    waiting s' = waiting s \<and> next_seq s' = next_seq s \<and> turns s' = turns s"
  by (auto simp: save_ok_def store_save_def split: list.splits save_result.splits)

lemma quarantine_view: "view (quarantine w why s) = view s"
proof -
  let ?s1 = "upd_worker w (\<lambda>n. n\<lparr>w_quarantine := Some why, w_healthy := False\<rparr>) s"
  obtain ok s2 where so: "save_ok ?s1 = (ok, s2)" by force
  have "view ?s1 = view s" by (rule view_upd_worker) simp_all
  then show ?thesis using so view_save_ok [OF so] by (simp add: quarantine_def Let_def)
qed

lemma quarantine_frame: "jb (quarantine w why s) = jb s" "nodes (quarantine w why s) = nodes s"
  using view_save_ok by (auto simp: quarantine_def Let_def split: prod.split)

lemma judge_view: "judge w r out ev s = (out', s') \<Longrightarrow> view s' = view s \<and> jb s' = jb s"
  by (auto simp: judge_def Let_def quarantine_view quarantine_frame view_upd_worker
      split: option.splits if_splits)

lemma finish_job_inv:
  assumes I: "pinv {} no_gap (view s)" and r: "r < next_seq s" "upstream (jb s r)"
  shows "pinv {} no_gap (view (finish_job r out ev s))"
proof -
  have "inv_live {} (view s)" using I by (simp add: pinv_def)
  then obtain w i where run: "runs (view s) w i r" using r by (auto simp: inv_live_def)
  have at: "node_of (jb s r) = Some w" "slot_of (jb s r) = Some i" using pinvD(7) [OF I run] by simp_all
  obtain out' s1 where j: "judge w r out ev s = (out', s1)" by force
  let ?s2 = "emit (Finished r w out') (upd_worker w (count_outcome out') s1)"
  have v2: "view ?s2 = view s"
  proof -
    have "view (upd_worker w (count_outcome out') s1) = view s1"
      by (rule view_upd_worker) (simp_all add: count_outcome_def)
    then show ?thesis using judge_view [OF j] by simp
  qed
  have run2: "runs (view ?s2) w i r" using run v2 by simp
  have "view (release_job w i r out' ?s2) = v_settle w i r (view ?s2)"
    using run2 by (simp add: runs_view release_job_def Let_def view_def v_settle_def v_upd_def pview_def
        fun_eq_iff map_update request_capacity_def)
  then have "pinv {} no_gap (view (release_job w i r out' ?s2))"
    using pinv_settle [OF I run] v2 by simp
  then show ?thesis
    using at r(2) j schedule_inv(1) [OF pump_waiting_inv(1)] by (simp add: finish_job_def)
qed

section \<open>Operator operations\<close>

lemma set_job_priority_inv:
  assumes I: "pinv {} no_gap (view s)"
  shows "pinv {} no_gap (view (snd (set_job_priority input s)))"
proof -
  have "view (upd_job r (\<lambda>j. j\<lparr>qprio := p\<rparr>) s) = view s" for r p
    by (rule view_upd_job) (simp add: pview_def)
  then have "pinv {} no_gap (view (schedule_all (pump_waiting (upd_job r (\<lambda>j. j\<lparr>qprio := p\<rparr>) s))))" for r p
    unfolding schedule_all_def by (intro schedule_fold_inv pump_waiting_inv(1)) (simp add: I)
  then show ?thesis
    using I by (auto simp: set_job_priority_def split: js.split sum.split option.split)
qed

lemma adjust_turns_active [simp]: "sl_active (adjust_turns s b a sl) = sl_active sl"
  by (simp add: adjust_turns_def Let_def split: option.split)

lemma apply_turns_inv:
  assumes "pinv {} no_gap (view s)"
  shows "pinv {} no_gap (view (apply_turns b w s))"
proof -
  have "view (upd_worker w (\<lambda>n. n\<lparr>w_slots := map (adjust_turns s b (turns s)) (w_slots n)\<rparr>) s) = view s"
    by (rule view_upd_worker) simp_all
  then show ?thesis unfolding apply_turns_def by (intro schedule_inv(1)) (simp add: assms)
qed

lemma apply_turns_fold_inv:
  "pinv {} no_gap (view s) \<Longrightarrow> pinv {} no_gap (view (fold (apply_turns b) ws s))"
  by (induction ws arbitrary: s) (simp_all add: apply_turns_inv)

lemma set_conversation_turns_inv:
  assumes I: "pinv {} no_gap (view s)"
  shows "pinv {} no_gap (view (snd (set_conversation_turns input s)))"
proof -
  obtain ok s1 where so: "save_ok s = (ok, s1)" by force
  have v: "view s1 = view s" using view_save_ok [OF so] by simp
  have "pinv {} no_gap (view (fold (apply_turns b) ws (s1\<lparr>turns := n, turns_saved := True\<rparr>)))" for b ws n
    by (rule apply_turns_fold_inv) (simp add: v I)
  then show ?thesis
    using I v by (simp add: set_conversation_turns_def so Let_def split: option.split)
qed

lemma set_queue_timeout_inv:
  assumes I: "pinv {} no_gap (view s)"
  shows "pinv {} no_gap (view (snd (set_queue_timeout input s)))"
proof -
  obtain ok s1 where so: "save_ok s = (ok, s1)" by force
  have "view s1 = view s" using view_save_ok [OF so] by simp
  then show ?thesis using I by (simp add: set_queue_timeout_def so Let_def split: option.split)
qed

lemma set_worker_concurrency_inv:
  assumes I: "pinv {} no_gap (view s)"
  shows "pinv {} no_gap (view (snd (set_worker_concurrency input s)))"
proof -
  obtain ok s1 where so: "save_ok s = (ok, s1)" by force
  note sv = view_save_ok [OF so]
  have "pinv {} no_gap (view (upd_worker w (truncate_slots c) s1))" if idle: "active_count (wk s w) = 0" for w c
  proof -
    have "view (upd_worker w (truncate_slots c) s1) = v_resize w c (view s1)"
      by (simp add: view_def v_resize_def truncate_slots_def fun_eq_iff take_map request_capacity_def)
    moreover have "pinv {} no_gap (v_resize w c (view s1))"
    proof (rule pinv_resize)
      show "pinv {} no_gap (view s1)" using I sv by simp
      show "\<not> runs (view s1) w i r" for i r
        using idle running_iff [of s1 w r] sv by (auto simp: active_count_def)
    qed
    ultimately show ?thesis by simp
  qed
  then show ?thesis
    using I sv by (simp add: set_worker_concurrency_def so Let_def split: option.split js.split)
qed

lemma fold_worker_view:
  assumes "\<And>n. w_queue (f n) = w_queue n" "\<And>n. map sl_active (w_slots (f n)) = map sl_active (w_slots n)"
    "\<And>n. w_capacity (f n) = w_capacity n" "\<And>n. w_route_only (f n) = w_route_only n"
  shows "view (fold (\<lambda>w. upd_worker w f) ws s) = view s"
    and "waiting (fold (\<lambda>w. upd_worker w f) ws s) = waiting s"
  by (induction ws arbitrary: s) (simp_all add: view_upd_worker assms)

lemma drain_nodes_inv:
  assumes I: "pinv {} no_gap (view s)"
  shows "pinv {} no_gap (view (snd (drain_nodes held ids d s)))"
proof -
  obtain ok s1 where so: "save_ok s = (ok, s1)" by force
  have "view (fold (\<lambda>w. upd_worker w (\<lambda>n. n\<lparr>w_drained := d\<rparr>)) ids s1) = view s1"
    by (rule fold_worker_view) simp_all
  then show ?thesis using I view_save_ok [OF so] by (simp add: drain_nodes_def so Let_def)
qed

lemma resume_workers_inv:
  assumes I: "pinv {} no_gap (view s)"
  shows "pinv {} no_gap (view (snd (resume_workers e h p v ids s)))"
proof -
  obtain ok s1 where so: "save_ok s = (ok, s1)" by force
  have "view (fold (\<lambda>w. upd_worker w resume_one) ws s1) = view s1" for ws
    by (rule fold_worker_view) (simp_all add: resume_one_def Let_def)
  then show ?thesis using I view_save_ok [OF so] by (simp add: resume_workers_def so Let_def)
qed

lemma add_worker_inv:
  assumes I: "pinv {} no_gap (view s)"
  shows "pinv {} no_gap (view (snd (add_worker w ro cap q s)))"
proof -
  obtain ok s1 where so: "save_ok s = (ok, s1)" by force
  note sv = view_save_ok [OF so]
  let ?c = "case cap of None \<Rightarrow> 1 | Some c \<Rightarrow> c"
  have "pinv {} no_gap (view (upd_worker w (\<lambda>_. fresh_worker ro cap q) (s1\<lparr>nodes := nodes s1 @ [w]\<rparr>)))"
    if "w \<notin> set (nodes s)" "cap \<noteq> Some 0"
  proof -
    have "view (upd_worker w (\<lambda>_. fresh_worker ro cap q) (s1\<lparr>nodes := nodes s1 @ [w]\<rparr>)) = v_add w ?c ro (view s1)"
      by (simp add: view_def v_add_def fresh_worker_def fun_eq_iff empty_slot_def request_capacity_def
          store_get_def split: option.split)
    moreover have "pinv {} no_gap (v_add w ?c ro (view s1))"
      by (rule pinv_add) (use I sv that in \<open>auto split: option.splits simp: Suc_le_eq\<close>)
    ultimately show ?thesis by simp
  qed
  then show ?thesis using I sv by (simp add: add_worker_def so Let_def)
qed

lemma remove_worker_inv:
  assumes I: "pinv {} no_gap (view s)"
  shows "pinv {} no_gap (view (snd (remove_worker w s)))"
proof -
  obtain ok s1 where so: "save_ok s = (ok, s1)" by force
  note sv = view_save_ok [OF so]
  have "pinv {} no_gap (view (upd_worker w (\<lambda>n. n\<lparr>w_removed := True\<rparr>) (s1\<lparr>nodes := remove1 w (nodes s1)\<rparr>)))"
    if "parked_for s w = []" "active_jobs (wk s w) = []" "w_queue (wk s w) = []"
  proof -
    have "view (upd_worker w (\<lambda>n. n\<lparr>w_removed := True\<rparr>) (s1\<lparr>nodes := remove1 w (nodes s1)\<rparr>)) = v_remove w (view s1)"
      by (simp add: view_def v_remove_def fun_eq_iff request_capacity_def store_get_def)
    moreover have "pinv {} no_gap (v_remove w (view s))"
      by (rule pinv_remove [OF I])
        (use that in \<open>auto simp: placed_view parked_for_def filter_empty_conv\<close>)
    ultimately show ?thesis using sv by simp
  qed
  then show ?thesis using I sv by (simp add: remove_worker_def so Let_def)
qed

lemma reinstate_inv:
  assumes I: "pinv {} no_gap (view s)"
  shows "pinv {} no_gap (view (snd (reinstate w ex s)))"
proof -
  obtain ok s1 where so: "save_ok s = (ok, s1)" by force
  have "view (upd_worker w (\<lambda>n. n\<lparr>w_quarantine := None, w_inference_failures := 0, w_healthy := True,
      w_failures := 0\<rparr>) s1) = view s1"
    by (rule view_upd_worker) simp_all
  then show ?thesis using I view_save_ok [OF so] by (simp add: reinstate_def so Let_def)
qed

lemma health_view:
  "view (probe_finished limit w ok streaming s) = view s" "view (begin_recovery w s) = view s"
  "view (end_recovery recovered w s) = view s" "view (observe_direct_activity w linked running seen s) = view s"
  by (simp_all add: probe_finished_def begin_recovery_def end_recovery_def observe_direct_activity_def
      view_upd_worker)

lemma relocate_request_inv:
  assumes I: "pinv {} no_gap (view s)"
  shows "pinv {} no_gap (view (snd (relocate_request str input s)))"
proof -
  have "pinv {} no_gap (view s')" if "relocate_queued r a b e s = (ok, s')" for r a b e ok s'
    using relocate_queued_inv(1) [OF I, of r a b e] that by simp
  then show ?thesis
    using I by (auto simp: relocate_request_def reject_move_def Let_def split: js.split prod.split bool.split)
qed

lemma turn_timer_inv:
  assumes I: "pinv {} no_gap (view s)"
  shows "pinv {} no_gap (view (turn_timer w i s))"
  unfolding turn_timer_def
  by (intro schedule_inv(1) pump_waiting_inv(1)) (simp add: view_upd_slot I)

lemma reject_waiting_inv:
  assumes I: "pinv {} no_gap (view s)" and r: "r \<in> set (waiting s)"
  shows "pinv {} no_gap (view (reject_waiting r s))" and "waiting (reject_waiting r s) = remove1 r (waiting s)"
  using reject_pending_inv [OF I waiting_pend [OF r], of "Rejected r GatewayDraining"]
  by (simp_all add: reject_waiting_def)

lemma reject_fold_inv:
  "pinv {} no_gap (view s) \<Longrightarrow> set rs \<subseteq> set (waiting s) \<Longrightarrow> distinct rs \<Longrightarrow>
   pinv {} no_gap (view (fold reject_waiting rs s))"
proof (induction rs arbitrary: s)
  case (Cons r rs)
  then have r: "r \<in> set (waiting s)" by simp
  note step = reject_waiting_inv [OF Cons.prems(1) r]
  have "pinv {} no_gap (view (fold reject_waiting rs (reject_waiting r s)))"
  proof (rule Cons.IH [OF step(1)])
    show "set rs \<subseteq> set (waiting (reject_waiting r s))"
      using Cons.prems(2,3) by (auto simp: step(2) intro: in_set_remove1 [THEN iffD2])
  qed (use Cons.prems in simp)
  then show ?case by simp
qed simp

lemma close_gateway_inv:
  assumes I: "pinv {} no_gap (view s)"
  shows "pinv {} no_gap (view (close_gateway s))"
proof -
  let ?s1 = "s\<lparr>shutting := True, draining := True\<rparr>"
  let ?s2 = "fold (\<lambda>w. upd_worker w (\<lambda>n. n\<lparr>w_slots := map release_turns (w_slots n)\<rparr>)) (nodes ?s1) ?s1"
  have v: "view ?s2 = view s" and w: "waiting ?s2 = waiting s"
    by (subst fold_worker_view; simp)+
  have "pinv {} no_gap (view (fold reject_waiting (waiting ?s2) ?s2))"
    by (rule reject_fold_inv) (use I v w queue_distinct(2) [OF I] in simp_all)
  then show ?thesis using I by (simp add: close_gateway_def Let_def)
qed

section \<open>Every reachable state\<close>

lemma initial_ok: "initial s \<Longrightarrow> gate_ok s"
proof -
  assume i: "initial s"
  then have none: "\<not> placed (view s) w r" "\<not> queued (view s) w r" "\<not> runs (view s) w j r" for w r j
    by (auto simp: initial_def placed_view queued_view runs_view active_jobs_iff empty_slot_def)
  have pend: "\<not> pend (view s) {} r" for r using i none by (simp add: pend_def initial_def)
  show "gate_ok s"
    using i unfolding gate_ok_def pinv_def inv_defs
    by (simp add: none pend initial_def dispatches_def)
qed

lemma step_ok:
  assumes "step routes s s'" and "gate_ok s"
  shows "gate_ok s'"
  using assms unfolding gate_ok_def
proof (induction rule: step.induct)
  case (Drain v) then show ?case by (simp add: drain_def)
next
  case (Advance dt dw) then show ?case by (simp add: advance_def)
qed (simp_all add: on_request_inv cancel_inv queue_deadline_inv finish_job_inv pump_waiting_inv
    turn_timer_inv set_job_priority_inv set_conversation_turns_inv set_queue_timeout_inv
    set_worker_concurrency_inv drain_nodes_inv resume_workers_inv add_worker_inv remove_worker_inv
    health_view reinstate_inv relocate_request_inv close_gateway_inv)

theorem reachable_ok: "reachable routes s \<Longrightarrow> gate_ok s"
  by (induction rule: reachable.induct) (auto intro: initial_ok step_ok)

end
