(* ===== verification/Gate_Properties.thy ===== *)
theory Gate_Properties
  imports Gate_Steps
begin

text \<open>
  What the scheduler promises in every reachable state and at every operation, with concrete runs
  of the gateway as witnesses.
\<close>

section \<open>Frames of scheduling\<close>

text \<open>The facts of a request that no scheduling operation changes.\<close>

definition admission :: "job \<Rightarrow> string option \<times> prio \<times> nat \<times> string \<times> rat \<times> rat \<times> int" where
  "admission j = (qkey j, qprio j, qseq j, job_id j, created_at j, created_wall j, queue_timeout j)"

lemma park_admission:
  "admission (jb (park r h why s) x) = admission (jb s x)" "store_get (park r h why s) = store_get s"
proof -
  show "admission (jb (park r h why s) x) = admission (jb s x)"
    by (simp add: park_def Let_def admission_def)
  show "store_get (park r h why s) = store_get s"
    by (simp add: park_def Let_def)
qed

lemma fill_slot_admission:
  "admission (jb (snd (fill_slot w i s)) x) = admission (jb s x) \<and>
   store_get (snd (fill_slot w i s)) = store_get s"
proof (induction w i s rule: fill_slot.induct)
  case (1 w i s)
  obtain c sl where ch: "slot_choice w i s = (c, sl)" by force
  show ?case
  proof (cases "\<exists>r. c = Some r \<and> out_of_service (wk s w)")
    case False
    then show ?thesis
      using ch by (cases c)
        (auto simp: fill_slot.simps [of w i s] start_job_def take_from_queue_def admission_def)
  next
    case True
    then obtain r where r: "c = Some r" "out_of_service (wk s w)" by blast
    show ?thesis
      using 1 [OF ch [symmetric] r] ch r
      by (simp add: fill_slot.simps [of w i s] park_admission take_from_queue_def)
  qed
qed

lemma ensure_slot_admission:
  "admission (jb (ensure_slot w i s) x) = admission (jb s x)" "store_get (ensure_slot w i s) = store_get s"
  by (simp_all add: ensure_slot_def)

lemma schedule_slots_admission:
  "admission (jb (schedule_slots w is s) x) = admission (jb s x) \<and> store_get (schedule_slots w is s) = store_get s"
proof (induction w "is" s rule: schedule_slots.induct)
  case (2 w i "is" s)
  obtain b s2 where fs: "fill_slot w i (ensure_slot w i s) = (b, s2)" by force
  have "admission (jb s2 x) = admission (jb s x) \<and> store_get s2 = store_get s"
    using fill_slot_admission [of w i "ensure_slot w i s" x] fs by (simp add: ensure_slot_admission)
  then show ?case
    using 2 fs by (simp add: Let_def ensure_slot_admission)
qed simp

lemma schedule_admission:
  "admission (jb (schedule w s) x) = admission (jb s x)" "store_get (schedule w s) = store_get s"
  using schedule_slots_admission [of w _ "upd_worker w (\<lambda>n. n\<lparr>w_queue := filter (\<lambda>r. \<not> qcancelled (jb s r)) (w_queue n)\<rparr>) s"]
  by (simp_all add: schedule_def)

text \<open>A worker out of service dispatches nothing.\<close>

lemma fill_slot_out_of_service:
  "out_of_service (wk s w) \<Longrightarrow>
   dispatches (trace (snd (fill_slot w i s))) = dispatches (trace s) \<and> \<not> fst (fill_slot w i s) \<and>
   out_of_service (wk (snd (fill_slot w i s)) w)"
proof (induction w i s rule: fill_slot.induct)
  case (1 w i s)
  obtain c sl where ch: "slot_choice w i s = (c, sl)" by force
  show ?case
  proof (cases c)
    case None
    then show ?thesis using ch 1(2) by (simp add: fill_slot.simps [of w i s] out_of_service_def)
  next
    case (Some r)
    let ?s2 = "take_from_queue w r (upd_slot w i (\<lambda>_. sl) s)"
    let ?s' = "park r (Some w) (unavailable_reason (wk s w)) ?s2"
    have t: "dispatches (trace ?s') = dispatches (trace s)"
      by (simp add: park_def Let_def take_from_queue_def)
    have o: "out_of_service (wk ?s' w)"
      using 1(2) by (simp add: out_of_service_def park_static take_from_queue_def)
    show ?thesis
      using 1(1) [OF ch [symmetric] Some 1(2) o] ch Some 1(2) t by (simp add: fill_slot.simps [of w i s])
  qed
qed

lemma schedule_slots_out_of_service:
  "out_of_service (wk s w) \<Longrightarrow> dispatches (trace (schedule_slots w is s)) = dispatches (trace s)"
proof (induction w "is" s rule: schedule_slots.induct)
  case (2 w i "is" s)
  have e: "out_of_service (wk (ensure_slot w i s) w)" "trace (ensure_slot w i s) = trace s"
    using 2(3) by (simp_all add: ensure_slot_def out_of_service_def)
  obtain b s2 where fs: "fill_slot w i (ensure_slot w i s) = (b, s2)" by force
  then have f: "dispatches (trace s2) = dispatches (trace s)" "out_of_service (wk s2 w)"
    using fill_slot_out_of_service [OF e(1), of i] e(2) by simp_all
  then show ?case using 2 fs e by (simp add: Let_def)
qed simp

section \<open>Example runs\<close>

definition demo_worker :: worker where
  "demo_worker = (fresh_worker False None None)\<lparr>w_drained := False\<rparr>"

definition demo_job :: job where
  "demo_job = \<lparr>qkey = None, qprio = NormalPrio, qcancelled = False, qseq = 0, job_id = '''', affinity = AffNone,
     route = None, genie_flexible = False, fixed_home = None, node_of = None, wait_reason = None,
     dispatched_at = None, upstream = False, recorded = False, slot_of = None, timer_on = False,
     listening = False, created_at = 0, created_wall = 0, queue_timeout = 1\<rparr>"

definition demo_gw :: gw where
  "demo_gw = \<lparr>nodes = [''a'', ''b''], wk = (\<lambda>_. demo_worker), jb = (\<lambda>_. demo_job), waiting = [], sessions = [],
     disk_sessions = [], saves = [], next_seq = 0, draining = False, shutting = False, mono = 0, wall = 0, turns = 5,
     turns_saved = False, turn_idle = 2000, max_queued = 2, auto_wait = Some 300000, reserve_on = False,
     reserve_ms = 180000, timeout_ms = 3600000, timeout_saved = False,
     collate = (\<lambda>w. case w of [] \<Rightarrow> 0 | c # _ \<Rightarrow> of_char c),
     evidence_digest = (\<lambda>_. replicate 64 CHR ''a''), relocated = 0, relocation_rejected = 0, faults = [],
     trace = []\<rparr>"

definition demo_request :: "string \<Rightarrow> string \<Rightarrow> request" where
  "demo_request rid k = \<lparr>rq_post = True, rq_key = Some k, rq_priority = JUndef, rq_route = JUndef,
     rq_id = rid, rq_genie = False, rq_flexible = False, rq_nowait = False\<rparr>"

text \<open>Two requests of one conversation: the first runs, the second waits behind it.\<close>

definition demo_one :: gw where
  "demo_one = snd (on_request None (demo_request ''r0'' ''k'') demo_gw)"

definition demo_two :: gw where
  "demo_two = snd (on_request None (demo_request ''r1'' ''k'') demo_one)"

lemma demo_initial: "initial demo_gw"
  by (simp add: initial_def demo_gw_def demo_worker_def fresh_worker_def request_capacity_def)

lemma demo_reachable: "reachable None demo_two"
  unfolding demo_two_def demo_one_def
  by (intro reachable.Step [OF _ step.Arrive] reachable.Init demo_initial)

lemmas run_defs = on_request_def place_request_def first_place_def home_of_def registered_def key_waiting_def
  route_selection_def post_request_def flexible_request_def queue_is_full_def queue_bound_def parked_for_def
  accept_request_def create_job_def new_job_def admit_def claim_home_def allows_worker_def
  enqueue_def detach_def by_sequence_def schedule_def has_capacity_def active_count_def active_jobs_def
  request_capacity_def List.map_filter_def ensure_slot_def fill_slot.simps slot_choice_def queued_choice_def
  settle_slot_def unavailable_def choice_eligible_def key_active_def runs_key_def reserved_elsewhere_def
  priority_index_def choose_with_def take_from_queue_def start_job_def turn_slot_def out_of_service_def
  pick_def pick_eligible_def first_by_def pick_key_def load_ratio_def store_count_def direct_reserved_def
  store_get_def store_set_def store_save_def upd_defs empty_slot_def Let_def session_work_def

lemmas demo_defs = demo_gw_def demo_request_def demo_worker_def fresh_worker_def demo_job_def

lemma demo_two_facts:
  "active_jobs (wk demo_two ''a'') = [0]" "w_queue (wk demo_two ''a'') = [1]" "waiting demo_two = []"
  "qkey (jb demo_two 0) = Some ''k''" "qkey (jb demo_two 1) = Some ''k''" "next_seq demo_two = 2"
  "listening (jb demo_two 0)" "listening (jb demo_two 1)" "dispatches (trace demo_two) = [0]"
  "nodes demo_two = [''a'', ''b'']"
  by (simp_all add: run_defs demo_two_def demo_one_def demo_defs)

section \<open>Invariants of every reachable state\<close>

text \<open>C1: at any moment at most one request of a conversation runs, on any worker.\<close>

theorem session_exclusion:
  assumes "reachable routes s"
    and "r \<in> set (active_jobs (wk s w))" and "qkey (jb s r) = Some k"
    and "z \<in> set (active_jobs (wk s w'))" and "qkey (jb s z) = Some k"
  shows "r = z \<and> w = w'"
proof -
  have I: "pinv {} no_gap (view s)" using reachable_ok [OF assms(1)] by (simp add: gate_ok_def)
  obtain i j where run: "runs (view s) w i r" "runs (view s) w' j z"
    using assms(2,4) running_iff by blast
  have "same_key (view s) r z" using assms(3,5) by (simp add: same_key_view)
  then have "r = z" using I run unfolding pinv_def inv_excl_def by blast
  then show ?thesis using runs_unique [OF I run(1)] run(2) by blast
qed

theorem session_exclusion_witness:
  "active_jobs (wk demo_two ''a'') = [0] \<and> (0::nat) = 0 \<and> ''a'' = ''a''"
  using session_exclusion [OF demo_reachable, of 0 "''a''" "''k''" 0 "''a''"] by (simp add: demo_two_facts)

text \<open>C2: no request is dispatched twice, and the requests of one conversation are dispatched in
  the order in which they were admitted: a later priority cannot reverse dependent turns.\<close>

theorem dispatch_once_in_order:
  assumes "reachable routes s"
  shows "distinct (dispatches (trace s)) \<and>
    sorted_wrt (\<lambda>later earlier. qkey (jb s later) \<noteq> None \<and> qkey (jb s later) = qkey (jb s earlier) \<longrightarrow>
      earlier < later) (dispatches (trace s))"
proof -
  have "inv_trace (view s)" using reachable_ok [OF assms] by (simp add: gate_ok_def pinv_def)
  then show ?thesis by (simp add: inv_trace_def same_key_view)
qed

theorem dispatch_once_in_order_witness: "distinct (dispatches (trace demo_two)) \<and> dispatches (trace demo_two) = [0]"
  using dispatch_once_in_order [OF demo_reachable] by (simp add: demo_two_facts)

text \<open>The places a request can be in.\<close>

datatype location = Waits | Queued string | Runs string nat

fun located :: "gw \<Rightarrow> nat \<Rightarrow> location \<Rightarrow> bool" where
  "located s r Waits = (r \<in> set (waiting s))"
| "located s r (Queued w) = (r \<in> set (w_queue (wk s w)))"
| "located s r (Runs w i) = (i < length (w_slots (wk s w)) \<and> sl_active (w_slots (wk s w) ! i) = Some r)"

lemma located_view:
  "located s r l = (case l of Waits \<Rightarrow> r \<in> set (v_wait (view s)) | Queued w \<Rightarrow> queued (view s) w r
     | Runs w i \<Rightarrow> runs (view s) w i r)"
  by (cases l) (simp_all add: queued_view runs_view)

text \<open>C3: an admitted request whose client is still attached is in exactly one place: the waiting
  list, the queue of one worker or one slot of one worker.\<close>

theorem no_request_lost:
  assumes "reachable routes s" and "r < next_seq s" and "listening (jb s r)"
  shows "\<exists>!l. located s r l"
proof -
  have I: "pinv {} no_gap (view s)" using reachable_ok [OF assms(1)] by (simp add: gate_ok_def)
  have "inv_live {} (view s)" using I by (simp add: pinv_def)
  then have "pend (view s) {} r \<or> (\<exists>w i. runs (view s) w i r)" using assms(2,3) by (simp add: inv_live_def)
  then have ex: "\<exists>l. located s r l"
  proof
    assume "pend (view s) {} r"
    then consider "r \<in> set (v_wait (view s))" | w where "queued (view s) w r" by (auto simp: pend_def)
    then show ?thesis
    proof cases
      case 1
      then show ?thesis unfolding located_view by (intro exI [of _ Waits]) simp
    next
      case (2 w)
      then show ?thesis unfolding located_view by (intro exI [of _ "Queued w"]) simp
    qed
  next
    assume "\<exists>w i. runs (view s) w i r"
    then obtain w i where "runs (view s) w i r" by blast
    then show ?thesis unfolding located_view by (intro exI [of _ "Runs w i"]) simp
  qed
  have one: "u = w" if "r \<in> set (w_queue (wk s u))" "r \<in> set (w_queue (wk s w))" for u w
    using queued_facts(6) [OF I that(2), of u] that(1) by blast
  have "l = l'" if "located s r l" "located s r l'" for l l'
    using that running_not_pend(2,3) [OF I, of _ _ r] runs_unique [OF I, of _ _ r] queued_facts(4) [OF I, of r] one
    by (cases l; cases l') (auto simp: located_view queued_view)
  then show ?thesis using ex by blast
qed

theorem no_request_lost_witness: "located demo_two 1 (Queued ''a'') \<and> (\<exists>!l. located demo_two 1 l)"
  using no_request_lost [OF demo_reachable _ demo_two_facts(8)] demo_two_facts(2,6) by simp

text \<open>C6: a worker never runs more requests than its capacity, and only registered workers run or
  queue requests.\<close>

theorem capacity_respected:
  assumes "reachable routes s"
  shows "active_count (wk s w) \<le> request_capacity (wk s w) \<and>
    (active_jobs (wk s w) = [] \<and> w_queue (wk s w) = [] \<or> w \<in> set (nodes s))"
proof -
  have I: "pinv {} no_gap (view s)" using reachable_ok [OF assms(1)] by (simp add: gate_ok_def)
  have "active_count (wk s w) \<le> length (w_slots (wk s w))"
    by (simp add: active_count_def active_jobs_def List.map_filter_def)
  also have "\<dots> \<le> request_capacity (wk s w)" using I by (simp add: pinv_def inv_cap_def)
  finally have cap: "active_count (wk s w) \<le> request_capacity (wk s w)" .
  have "w \<in> set (nodes s)" if "r \<in> set (active_jobs (wk s w)) \<or> r \<in> set (w_queue (wk s w))" for r
    using pinvD(1) [OF I, of w r] that by (auto simp: placed_view)
  then show ?thesis using cap by (metis list.set_intros(1) neq_Nil_conv)
qed

theorem capacity_respected_witness: "active_count (wk demo_two ''a'') = 1 \<and> (1::nat) \<le> request_capacity (wk demo_two ''a'')"
  using capacity_respected [OF demo_reachable, of "''a''"] demo_two_facts(1) by (simp add: active_count_def)

text \<open>C8: the scheduler never breaks its internal contracts: it never parks dispatched work and
  never admits a request to a worker its route excludes.\<close>

theorem no_internal_fault:
  assumes "reachable routes s"
  shows "faults s = []"
  using reachable_ok [OF assms] by (simp add: gate_ok_def pinv_def)

theorem no_internal_fault_witness: "faults demo_two = []"
  by (rule no_internal_fault [OF demo_reachable])

text \<open>C4: a conversation with queued or running work is owned by exactly that worker in the durable
  store, and the worker is one its model route allows.\<close>

theorem placed_work_owned:
  assumes "reachable routes s" and "r \<in> set (active_jobs (wk s w)) \<union> set (w_queue (wk s w))"
  shows "allows_worker (route (jb s r)) w (wk s w) \<and> (\<forall>k. qkey (jb s r) = Some k \<longrightarrow> store_get s k = Some w)"
proof -
  have I: "pinv {} no_gap (view s)" using reachable_ok [OF assms(1)] by (simp add: gate_ok_def)
  have p: "placed (view s) w r" using assms(2) by (auto simp: placed_view)
  have "route_ok (view s) r w" using I p unfolding pinv_def inv_routes_def by blast
  then show ?thesis using pinvD(8) [OF I p] by (simp add: route_view)
qed

theorem placed_work_owned_witness: "store_get demo_two ''k'' = Some ''a''"
  using placed_work_owned [OF demo_reachable, of 1 "''a''"] demo_two_facts(2,5) by simp

section \<open>Guarantees of the single operations\<close>

text \<open>C9: scheduling a worker that is unhealthy, quarantined or recovering dispatches nothing.\<close>

theorem out_of_service_dispatches_nothing:
  assumes "out_of_service (wk s w)"
  shows "dispatches (trace (schedule w s)) = dispatches (trace s)"
  using schedule_slots_out_of_service [of "upd_worker w (\<lambda>n. n\<lparr>w_queue := filter (\<lambda>r. \<not> qcancelled (jb s r)) (w_queue n)\<rparr>) s" w]
    assms by (simp add: schedule_def out_of_service_def)

definition demo_sick :: gw where
  "demo_sick = upd_worker ''a'' (\<lambda>n. n\<lparr>w_quarantine := Some ''fatal_accelerator_error'', w_queue := [1]\<rparr>) demo_gw"

theorem out_of_service_dispatches_nothing_witness:
  "dispatches (trace (schedule ''a'' demo_sick)) = [] \<and> w_queue (wk demo_sick ''a'') = [1]"
  using out_of_service_dispatches_nothing [of demo_sick "''a''"]
  by (simp add: demo_sick_def out_of_service_def demo_gw_def)

text \<open>The request a slot takes is the oldest waiting request of its conversation, whatever the
  priorities in the queue.\<close>

lemma choice_keeps_conversation_order:
  assumes "queued_choice s w i sl v q = (Some x, sl')" and "sorted_wrt (<) (q :: nat list)"
    and "y \<in> set q" and "\<not> qcancelled (v y)" and "qkey (v y) = Some k" and "qkey (v x) = Some k"
  shows "x \<le> y"
  by (rule queued_choice_fifo [OF assms])

definition demo_view :: "nat \<Rightarrow> qjob" where
  "demo_view r = \<lparr>qkey = Some (if r = 3 then ''m'' else ''k''), qprio = (if r = 2 then HighPrio else NormalPrio),
     qcancelled = False, qseq = r\<rparr>"

theorem choice_keeps_conversation_order_witness:
  "fst (queued_choice demo_gw demo_worker 0 empty_slot demo_view [1, 2, 3]) = Some 1 \<and> (1::nat) \<le> 2"
proof -
  have c: "queued_choice demo_gw demo_worker 0 empty_slot demo_view [1, 2, 3] = (Some 1, empty_slot)"
    by (simp add: run_defs demo_defs demo_view_def)
  show ?thesis
    using choice_keeps_conversation_order [OF c, of 2 "''k''"] c by (simp add: demo_view_def)
qed

text \<open>C7: a conversation that used up its turns is chosen again only over strictly lower ranks:
  every other conversation of its rank that the slot may take goes first.\<close>

theorem exhausted_turns_yield:
  assumes "queued_choice s w i sl v q = (Some x, sl')"
    and "spent s (settle_slot s w sl) k" and "qkey (v x) = Some k"
    and "conv_first v (choice_eligible s w i v q) y" and "qkey (v y) \<noteq> Some k"
  shows "qrank v y < qrank v x"
  by (rule queued_choice_yields [OF assms])

definition spent_slot :: slot where
  "spent_slot = \<lparr>sl_active = None,
     sl_alloc = Some \<lparr>al_key = ''k'', al_prio = HighPrio, al_used = 5, al_until = 0\<rparr>, sl_timer = None\<rparr>"

definition demo_high :: "nat \<Rightarrow> qjob" where
  "demo_high r = \<lparr>qkey = Some (if r = 3 then ''m'' else ''k''), qprio = (if r = 2 then HighPrio else NormalPrio),
     qcancelled = False, qseq = r\<rparr>"

theorem exhausted_turns_yield_witness: "qrank demo_high 3 < qrank demo_high 2"
proof -
  have c: "queued_choice demo_gw demo_worker 0 spent_slot demo_high [2, 3] =
      (Some 2, release_turns spent_slot)"
    by (simp add: run_defs demo_defs demo_high_def spent_slot_def hide_key_def)
  have h: "conv_first demo_high (choice_eligible demo_gw demo_worker 0 demo_high [2, 3]) 3"
    unfolding conv_first_def
    by (rule exI [of _ 1]) (simp add: conv_head_def run_defs demo_defs demo_high_def less_Suc_eq)
  show ?thesis
    using exhausted_turns_yield [OF c _ _ h, of "''k''"]
    by (simp add: spent_def settle_slot_def spent_slot_def run_defs demo_defs demo_high_def)
qed

section \<open>Queued handover\<close>

text \<open>C5: a queued handover that succeeds moved a request that was never dispatched, whose
  conversation had no other work anywhere, from a busy worker to an idle one its route allows; its
  age, deadline, priority and place in the admission order are unchanged, and the durable owner of
  its conversation is the destination.\<close>

theorem handover_is_safe:
  assumes "relocate_queued rid src dst ev s = (True, s')"
  shows "\<exists>r. next_queued s src = Some r \<and> job_id (jb s r) = rid \<and>
    dispatched_at (jb s r) = None \<and> \<not> upstream (jb s r) \<and> \<not> qcancelled (jb s r) \<and>
    active_jobs (wk s src) \<noteq> [] \<and> eligible_destination s dst \<and>
    allows_worker (route (jb s r)) dst (wk s dst) \<and> conflicting_work s r = None \<and>
    admission (jb s' r) = admission (jb s r) \<and>
    (\<forall>k. qkey (jb s r) = Some k \<longrightarrow> store_get s k = Some src \<and> store_get s' k = Some dst)"
proof -
  obtain r where r: "relocation_allowed rid src dst ev s = Some r"
    using assms by (auto simp: relocate_queued_def reject_move_def split: option.splits)
  note d = relocation_allowedD [OF r]
  obtain ok s1 where st: "(case qkey (jb s r) of None \<Rightarrow> (True, s) | Some k \<Rightarrow> store_set k dst s) = (ok, s1)"
    by force
  have ok: ok and s': "s' = move_queued r src dst s1"
    using assms r st by (auto simp: relocate_queued_def reject_move_def split: if_splits)
  have jb1: "jb s1 = jb s" using st ok store_set_frame(2) by (auto split: option.splits)
  have home: "store_get s1 k = Some dst" if "qkey (jb s r) = Some k" for k
    using st ok that gw_store.get_after_set [of k dst s s1 k] by simp
  have "admission (jb s' x) = admission (jb s1 x)" "store_get s' = store_get s1" for x
    unfolding s' move_queued_def Let_def schedule_admission
    by (simp_all add: admission_def take_from_queue_def store_get_def fun_eq_iff)
  moreover have "store_get s k = Some src" if "qkey (jb s r) = Some k" for k
    using d(14) that by (simp add: job_home_def)
  ultimately show ?thesis using d jb1 home by auto
qed

definition demo_three :: gw where
  "demo_three = (demo_two\<lparr>jb := (jb demo_two)(1 := (jb demo_two 1)\<lparr>qkey := Some ''m''\<rparr>),
     sessions := [(''k'', ''a''), (''m'', ''a'')]\<rparr>)"

lemma demo_handover:
  "\<exists>s'. relocate_queued ''r1'' ''a'' ''b'' (replicate 64 CHR ''a'') demo_three = (True, s')"
  by (simp add: run_defs demo_three_def demo_two_def demo_one_def demo_defs relocate_queued_def
      relocation_allowed_def next_queued_def eligible_destination_def in_service_def
      relocation_evidence_def conflicting_work_def other_queued_def job_home_def)

theorem handover_is_safe_witness: "\<exists>r s'. next_queued demo_three ''a'' = Some r \<and> store_get s' ''m'' = Some ''b''"
proof -
  obtain s' where h: "relocate_queued ''r1'' ''a'' ''b'' (replicate 64 CHR ''a'') demo_three = (True, s')"
    using demo_handover by blast
  obtain r where r: "next_queued demo_three ''a'' = Some r" "job_id (jb demo_three r) = ''r1''"
    "\<forall>k. qkey (jb demo_three r) = Some k \<longrightarrow> store_get s' k = Some ''b''"
    using handover_is_safe [OF h] by blast
  have "r \<in> set (w_queue (wk demo_three ''a''))" by (rule next_queued_mem [OF r(1)])
  then have "r = 1" by (simp add: demo_three_def demo_two_facts)
  then have "qkey (jb demo_three r) = Some ''m''" by (simp add: demo_three_def)
  then show ?thesis using r by blast
qed

text \<open>C10: a handover that is refused, or whose durable write fails, changes nothing the scheduler
  reads: only its count of refusals, and what the failed write did. A refusal by the checks writes
  nothing. A failed write leaves the conversation with its old worker in memory; the file is as it was
  when the write stopped before or in the rename, and names the new worker for this conversation (and
  the owners in memory for every other) when only the sync of the directory failed.\<close>

theorem refused_handover_keeps_memory:
  assumes "relocate_queued rid src dst ev s = (False, s')"
  shows "s' = s\<lparr>relocation_rejected := relocation_rejected s + 1, saves := saves s',
           disk_sessions := disk_sessions s'\<rparr> \<and>
    (case relocation_allowed rid src dst ev s of
       None \<Rightarrow> saves s' = saves s \<and> disk_sessions s' = disk_sessions s
     | Some r \<Rightarrow> \<exists>k. qkey (jb s r) = Some k \<and> store_get s' k = Some src \<and> src \<noteq> dst \<and>
         (saves s = Unwritten # saves s' \<and> disk_sessions s' = disk_sessions s \<or>
          saves s = Unsynced # saves s' \<and>
          map_of (disk_sessions s') = (map_of (sessions s))(k \<mapsto> dst)))"
proof (cases "relocation_allowed rid src dst ev s")
  case None
  then show ?thesis using assms by (auto simp: relocate_queued_def reject_move_def)
next
  case (Some r)
  then obtain k s1 where k: "qkey (jb s r) = Some k" "store_set k dst s = (False, s1)" "s' = snd (reject_move s1)"
    using assms by (auto simp: relocate_queued_def reject_move_def split: option.splits if_splits prod.splits)
  have "store_get s k = Some src" "src \<noteq> dst"
    using relocation_allowedD(3,14) [OF Some] k(1) by (auto simp: job_home_def)
  then show ?thesis
    using Some k by (auto simp: store_set_def store_save_def reject_move_def store_get_def update_conv'
        split: list.splits save_result.splits)
qed

text \<open>The handover of the example above, when the directory cannot be synced.\<close>

lemma demo_failed_handover:
  "fst (relocate_queued ''r1'' ''a'' ''b'' (replicate 64 CHR ''a'') (demo_three\<lparr>saves := [Unsynced, Saved]\<rparr>)) = False"
  "relocation_allowed ''r1'' ''a'' ''b'' (replicate 64 CHR ''a'') (demo_three\<lparr>saves := [Unsynced, Saved]\<rparr>) = Some 1"
  by (simp_all add: run_defs demo_three_def demo_two_def demo_one_def demo_defs relocate_queued_def
      relocation_allowed_def next_queued_def eligible_destination_def in_service_def
      relocation_evidence_def conflicting_work_def other_queued_def job_home_def reject_move_def)

theorem refused_handover_keeps_memory_witness:
  "\<exists>s'. relocate_queued ''r1'' ''a'' ''b'' (replicate 64 CHR ''a'') (demo_three\<lparr>saves := [Unsynced, Saved]\<rparr>) =
      (False, s') \<and> saves s' = [Saved] \<and> store_get s' ''m'' = Some ''a'' \<and>
    map_of (disk_sessions s') ''m'' = Some ''b'' \<and> w_queue (wk s' ''a'') = [1]"
proof -
  define s where "s = demo_three\<lparr>saves := [Unsynced, Saved]\<rparr>"
  define s' where "s' = snd (relocate_queued ''r1'' ''a'' ''b'' (replicate 64 CHR ''a'') s)"
  have h: "relocate_queued ''r1'' ''a'' ''b'' (replicate 64 CHR ''a'') s = (False, s')"
    using demo_failed_handover(1) by (simp add: s_def s'_def prod_eq_iff)
  have a: "relocation_allowed ''r1'' ''a'' ''b'' (replicate 64 CHR ''a'') s = Some 1"
    unfolding s_def by (rule demo_failed_handover(2))
  have q: "qkey (jb s 1) = Some ''m''" "saves s = [Unsynced, Saved]" "w_queue (wk s ''a'') = [1]"
    by (simp_all add: s_def demo_three_def demo_two_facts)
  note c = refused_handover_keeps_memory [OF h]
  have "wk s' = wk s" by (subst conjunct1 [OF c]) simp
  then show ?thesis
    using conjunct2 [OF c] h unfolding s_def [symmetric] One_nat_def [symmetric]
    by (intro exI [of _ s']) (auto simp: a q simp del: One_nat_def)
qed

section \<open>Refusals and quarantine\<close>

text \<open>A refused request leaves no trace in the scheduler but the refusal itself, and a
  draining gateway refuses every request.\<close>

theorem refusal_is_clean:
  assumes "on_request routes q s = (RefusedWith why, s')"
  shows "s' = emit (Refused why) s"
  using assms
  by (auto simp: on_request_def refuse_def post_request_def accept_request_def Let_def
      split: sum.splits option.splits if_splits prod.splits)

theorem refusal_is_clean_witness:
  "on_request None (demo_request ''r2'' ''k'') (demo_gw\<lparr>draining := True\<rparr>) =
    (RefusedWith GatewayDraining, emit (Refused GatewayDraining) (demo_gw\<lparr>draining := True\<rparr>))"
proof -
  have h: "on_request None (demo_request ''r2'' ''k'') (demo_gw\<lparr>draining := True\<rparr>) =
      (RefusedWith GatewayDraining, snd (on_request None (demo_request ''r2'' ''k'') (demo_gw\<lparr>draining := True\<rparr>)))"
    by (simp add: on_request_def refuse_def demo_request_def demo_gw_def)
  show ?thesis using refusal_is_clean [OF h] h by simp
qed

text \<open>Evidence of a generation fault, or the third server failure in a row, takes the worker out
  of service, and a completed request clears the count; a failure the client caused counts for
  nothing.\<close>

theorem quarantine_rule:
  assumes "w_quarantine (wk s w) = None" and "judge w r out evidence s = (out', s')"
  shows "w_quarantine (wk s' w) =
    (case evidence of Some f \<Rightarrow> Some f
     | None \<Rightarrow> if \<not> qcancelled (jb s r) \<and> server_failure out \<and> w_inference_failures (wk s w) \<ge> 2
         then Some ''repeated_inference_failures'' else None)"
proof -
  have q: "w_quarantine (wk (quarantine w why t) w) = Some why" if "w_quarantine (wk t w) = None" for why t
  proof -
    obtain ok t2 where so: "save_ok (upd_worker w (\<lambda>n. n\<lparr>w_quarantine := Some why, w_healthy := False\<rparr>) t) = (ok, t2)"
      by force
    then have "wk t2 = wk (upd_worker w (\<lambda>n. n\<lparr>w_quarantine := Some why, w_healthy := False\<rparr>) t)"
      using view_save_ok by blast
    then show ?thesis using that so by (simp add: quarantine_def Let_def)
  qed
  show ?thesis
    using assms by (auto simp: judge_def Let_def q split: option.splits if_splits)
qed

theorem quarantine_rule_witness:
  "w_quarantine (wk (snd (judge ''a'' 0 UpstreamError None
      (upd_worker ''a'' (\<lambda>n. n\<lparr>w_inference_failures := 2\<rparr>) demo_gw))) ''a'') = Some ''repeated_inference_failures''"
  using quarantine_rule [of "upd_worker ''a'' (\<lambda>n. n\<lparr>w_inference_failures := 2\<rparr>) demo_gw" "''a''" 0 UpstreamError None
      "fst (judge ''a'' 0 UpstreamError None (upd_worker ''a'' (\<lambda>n. n\<lparr>w_inference_failures := 2\<rparr>) demo_gw))"
      "snd (judge ''a'' 0 UpstreamError None (upd_worker ''a'' (\<lambda>n. n\<lparr>w_inference_failures := 2\<rparr>) demo_gw))"]
  by (simp add: demo_defs server_failure_def)

end
