(* ===== verification/Continuity_Door.thy ===== *)
theory Continuity_Door
  imports Gate_Prelude
begin

text \<open>
  \<open>ds4-gateway/door.mjs\<close>: the byte-transparent front door that holds arrivals while the gateway
  core is replaced or unreachable. A request is a number (its arrival), the state keeps what the
  code keeps of it; hold receipts are drawn from a counter instead of \<open>randomUUID\<close>. Bytes, headers
  and sockets are not modelled: a proxied request ends in \<open>proxy_end\<close>, a probe in \<open>probe_end\<close>.
\<close>

section \<open>Requests\<close>

datatype http_verb = GET | POST | PUT | PATCH | OtherMethod

datatype request_kind = Inference | ModelDiscovery | StatusPage | OtherKind

record arrival =
  a_method :: http_verb
  a_url :: string
  a_authorized :: bool
  a_loopback :: bool
  a_test :: bool

definition route_of :: "string \<Rightarrow> string" where
  "route_of url = takeWhile (\<lambda>c. c \<noteq> CHR ''?'') url"

definition inference_routes :: "string list" where
  "inference_routes = [''/v1/chat/completions'', ''/v1/completions'', ''/v1/responses'', ''/v1/messages'']"

definition request_class :: "arrival \<Rightarrow> request_kind" where
  "request_class a =
     (let rt = route_of (a_url a)
      in if a_method a = GET \<and> rt = ''/v1/models'' then ModelDiscovery
         else if a_method a = POST \<and> rt \<in> set inference_routes then Inference
         else if a_method a = GET \<and> rt \<in> {''/health'', ''/gateway/status''} then StatusPage
         else OtherKind)"

section \<open>State\<close>

datatype hold_kind = ManualHold | AutomaticHold

datatype refusal =
    LanSharingOff
  | Unauthorized
  | DoorStopping
  | UnknownTestingEndpoint
  | TestingDisabled
  | HoldFull

datatype door_event =
    Proxied nat
  | HeldBack nat
  | RefusedArrival nat refusal
  | StatusShown nat
  | HeldDropped nat
  | HeldStopped nat
  | ProxyEnded nat
  | ExecutionUnknown nat
  | Released "nat option"
  | HoldChanged
  | CoreNotReady
  | AlreadyHolding

record failure =
  f_sequence :: nat
  f_kind :: request_kind
  f_after_headers :: bool
  f_holding :: bool
  f_hold_kind :: "hold_kind option"

text \<open>\<open>d_probe\<close> is the generation of the probe under way, with the releases that await it: each
  names the hold it may end, or none.\<close>

record door =
  d_holding :: bool
  d_hold_id :: "nat option"
  d_hold_kind :: "hold_kind option"
  d_reason :: "string option"
  d_since :: "rat option"
  d_held :: "nat list"
  d_arrivals :: "nat \<Rightarrow> arrival"
  d_next :: nat
  d_next_hold :: nat
  d_open :: "nat list"
  d_responded :: "nat list"
  d_active :: nat
  d_forwarded :: nat
  d_failed :: nat
  d_kind_failed :: "request_kind \<Rightarrow> nat"
  d_recent :: "failure list"
  d_core_ready :: bool
  d_core_failures :: nat
  d_generation :: nat
  d_probe :: "(nat \<times> nat option list) option"
  d_testing :: bool
  d_lan :: bool
  d_closing :: bool
  d_limit :: nat
  d_health_failures :: nat
  d_auth_none :: bool
  d_now :: rat
  d_events :: "door_event list"

definition door_emit :: "door_event \<Rightarrow> door \<Rightarrow> door" where
  "door_emit e d = d\<lparr>d_events := e # d_events d\<rparr>"

section \<open>Proxying\<close>

definition proxy :: "nat \<Rightarrow> door \<Rightarrow> door" where
  "proxy r d = door_emit (Proxied r) (d\<lparr>d_open := r # d_open d, d_active := d_active d + 1\<rparr>)"

definition should_hold :: "door \<Rightarrow> nat \<Rightarrow> bool" where
  "should_hold d r \<longleftrightarrow>
     (let a = d_arrivals d r
      in (d_holding d \<and> (a_method a \<in> {POST, PUT, PATCH} \<or> request_class a = ModelDiscovery)) \<or>
         (d_testing d \<and> \<not> a_test a \<and> request_class a = Inference))"

definition remove_held :: "nat \<Rightarrow> door \<Rightarrow> door" where
  "remove_held r d = d\<lparr>d_held := remove1 r (d_held d)\<rparr>"

definition flush_one :: "nat \<Rightarrow> door \<Rightarrow> door" where
  "flush_one r d = (if should_hold d r then d else proxy r (remove_held r d))"

definition flush_held :: "door \<Rightarrow> door" where
  "flush_held d = fold flush_one (d_held d) d"

definition proxy_response :: "nat \<Rightarrow> door \<Rightarrow> door" where
  "proxy_response r d =
     (if r \<in> set (d_open d) \<and> r \<notin> set (d_responded d)
      then d\<lparr>d_responded := r # d_responded d, d_forwarded := d_forwarded d + 1\<rparr> else d)"

definition record_failure :: "nat \<Rightarrow> door \<Rightarrow> door" where
  "record_failure r d =
     (let k = request_class (d_arrivals d r);
          f = \<lparr>f_sequence = d_failed d + 1, f_kind = k, f_after_headers = (r \<in> set (d_responded d)),
               f_holding = d_holding d, f_hold_kind = d_hold_kind d\<rparr>
      in d\<lparr>d_failed := d_failed d + 1, d_kind_failed := (d_kind_failed d)(k := d_kind_failed d k + 1),
            d_recent := take 30 (f # d_recent d)\<rparr>)"

text \<open>\<open>finish\<close>: a proxied request settles once.\<close>

definition proxy_end :: "bool \<Rightarrow> nat \<Rightarrow> door \<Rightarrow> door" where
  "proxy_end failed r d =
     (if r \<notin> set (d_open d) then d
      else
        let d1 = door_emit (ProxyEnded r) (d\<lparr>d_open := remove1 r (d_open d), d_active := d_active d - 1\<rparr>)
        in if failed then record_failure r d1 else d1)"

section \<open>Holding and releasing\<close>

text \<open>The continuation of a release request once its probe has answered.\<close>

definition hold_matches :: "nat option \<Rightarrow> door \<Rightarrow> bool" where
  "hold_matches cond d \<longleftrightarrow> (case cond of None \<Rightarrow> True | Some h \<Rightarrow> d_holding d \<and> d_hold_id d = Some h)"

text \<open>\<open>invalidateProbe\<close> cancels the probe under way: its releases see a core that is not ready.\<close>

definition answer_not_ready :: "door \<Rightarrow> nat option \<Rightarrow> door \<Rightarrow> door" where
  "answer_not_ready after cond d = door_emit (if hold_matches cond after then CoreNotReady else HoldChanged) d"

definition invalidate_probe :: "door \<Rightarrow> door" where
  "invalidate_probe d = d\<lparr>d_generation := d_generation d + 1, d_probe := None\<rparr>"

definition cancelled_waiters :: "door \<Rightarrow> nat option list" where
  "cancelled_waiters d = (case d_probe d of None \<Rightarrow> [] | Some (g, ws) \<Rightarrow> ws)"

definition answer_cancelled :: "nat option list \<Rightarrow> door \<Rightarrow> door" where
  "answer_cancelled ws d = fold (answer_not_ready d) ws d"

definition clear_hold :: "door \<Rightarrow> door" where
  "clear_hold d = d\<lparr>d_holding := False, d_hold_id := None, d_hold_kind := None, d_reason := None,
     d_since := None\<rparr>"

definition release :: "door \<Rightarrow> door" where
  "release d = flush_held (clear_hold (invalidate_probe d))"

definition hold_reason :: "js \<Rightarrow> string" where
  "hold_reason v = (case v of JStr s \<Rightarrow> if length s \<le> 160 then s else ''planned_core_change''
     | _ \<Rightarrow> ''planned_core_change'')"

definition hold :: "js \<Rightarrow> hold_kind \<Rightarrow> door \<Rightarrow> door" where
  "hold why kind d =
     (let d1 = invalidate_probe d
      in if d_holding d1 \<and> d_hold_kind d1 = Some ManualHold \<and> kind = AutomaticHold then d1
         else d1\<lparr>d_holding := True, d_hold_id := Some (d_next_hold d1), d_next_hold := d_next_hold d1 + 1,
                 d_hold_kind := Some kind, d_reason := Some (hold_reason why),
                 d_since := (case d_since d1 of None \<Rightarrow> Some (d_now d1) | Some t \<Rightarrow> Some t)\<rparr>)"

definition automatic_hold :: "string \<Rightarrow> door \<Rightarrow> door" where
  "automatic_hold why d = hold (JStr why) AutomaticHold (d\<lparr>d_core_ready := False\<rparr>)"

text \<open>The operations that cancel a probe answer its releases after they have acted.\<close>

definition operator_release :: "door \<Rightarrow> door" where
  "operator_release d = answer_cancelled (cancelled_waiters d) (release d)"

definition operator_hold :: "js \<Rightarrow> door \<Rightarrow> door" where
  "operator_hold why d = answer_cancelled (cancelled_waiters d) (hold why ManualHold d)"

definition request_hold :: "bool \<Rightarrow> js \<Rightarrow> door \<Rightarrow> door" where
  "request_hold if_unheld why d =
     (if if_unheld \<and> d_holding d then door_emit AlreadyHolding d else operator_hold why d)"

text \<open>A failed connection to the core: the request ends with an unknown execution (unless its
  response headers were sent) and later arrivals are held.\<close>

definition upstream_error :: "nat \<Rightarrow> door \<Rightarrow> door" where
  "upstream_error r d =
     (if r \<notin> set (d_open d) then d
      else
        let d1 = automatic_hold ''core_connection_failed'' (proxy_end True r d);
            d2 = (if r \<in> set (d_responded d) then d1 else door_emit (ExecutionUnknown r) d1)
        in answer_cancelled (cancelled_waiters d) d2)"

section \<open>The readiness probe\<close>

definition check_core :: "nat option list \<Rightarrow> door \<Rightarrow> door" where
  "check_core ws d =
     (case d_probe d of
        Some (g, old) \<Rightarrow> d\<lparr>d_probe := Some (g, old @ ws)\<rparr>
      | None \<Rightarrow> d\<lparr>d_probe := Some (d_generation d, ws)\<rparr>)"

text \<open>What a fresh answer does before the releases that await it continue.\<close>

definition apply_probe :: "bool \<Rightarrow> door \<Rightarrow> door" where
  "apply_probe ok d =
     (let d1 = d\<lparr>d_core_ready := ok\<rparr>
      in if ok then
           (let d2 = d1\<lparr>d_core_failures := 0\<rparr>
            in if d_holding d2 \<and> d_hold_kind d2 = Some AutomaticHold then release d2 else d2)
         else
           (let d2 = d1\<lparr>d_core_failures := d_core_failures d1 + 1\<rparr>
            in if d_core_failures d2 \<ge> d_health_failures d2 then automatic_hold ''core_not_ready'' d2 else d2))"

definition resume_release :: "bool \<Rightarrow> nat option \<Rightarrow> door \<Rightarrow> door" where
  "resume_release ready cond d =
     (if \<not> hold_matches cond d then door_emit HoldChanged d
      else if \<not> ready then door_emit CoreNotReady d
      else door_emit (Released (d_hold_id d)) (operator_release d))"

text \<open>The probe of generation \<open>g\<close> ends; one that was cancelled has no effect.\<close>

definition probe_end :: "nat \<Rightarrow> bool \<Rightarrow> door \<Rightarrow> door" where
  "probe_end g ok d =
     (case d_probe d of
        None \<Rightarrow> d
      | Some (g', ws) \<Rightarrow>
          if g' \<noteq> g then d
          else
            let d1 = d\<lparr>d_probe := None\<rparr>;
                fresh = (\<not> d_closing d1 \<and> g = d_generation d1);
                d2 = (if fresh then apply_probe ok d1 else d1)
            in fold (resume_release (fresh \<and> ok)) ws d2)"

text \<open>A release request of the control socket; \<open>cond\<close> is the hold it names.\<close>

definition request_release :: "nat option \<Rightarrow> door \<Rightarrow> door" where
  "request_release cond d =
     (if \<not> hold_matches cond d then door_emit HoldChanged d
      else if d_closing d then door_emit CoreNotReady d
      else check_core [cond] d)"

section \<open>Arrivals\<close>

definition starts_with :: "string \<Rightarrow> string \<Rightarrow> bool" where
  "starts_with p s \<longleftrightarrow> take (length p) s = p"

definition door_admit :: "nat \<Rightarrow> door \<Rightarrow> door" where
  "door_admit r d =
     (let a = d_arrivals d r
      in if \<not> should_hold d r then proxy r d
         else if d_testing d \<and> request_class a = Inference \<and> \<not> a_authorized a
         then door_emit (RefusedArrival r Unauthorized) d
         else if d_limit d \<le> length (d_held d) then door_emit (RefusedArrival r HoldFull) d
         else door_emit (HeldBack r) (d\<lparr>d_held := d_held d @ [r]\<rparr>))"

definition arrive :: "arrival \<Rightarrow> door \<Rightarrow> door" where
  "arrive a d =
     (let r = d_next d;
          put = (\<lambda>b d. d\<lparr>d_arrivals := (d_arrivals d)(r := b)\<rparr>);
          d1 = put (a\<lparr>a_test := False\<rparr>) (d\<lparr>d_next := r + 1\<rparr>)
      in if \<not> d_lan d \<and> \<not> a_loopback a then door_emit (RefusedArrival r LanSharingOff) d1
         else if d_auth_none d \<and> \<not> a_authorized a then door_emit (RefusedArrival r Unauthorized) d1
         else if a_url a = ''/continuity/status'' \<and> a_method a = GET then
           door_emit (if a_authorized a then StatusShown r else RefusedArrival r Unauthorized) d1
         else if d_closing d then door_emit (RefusedArrival r DoorStopping) d1
         else if starts_with ''/testing/'' (a_url a) then
           (if \<not> a_authorized a then door_emit (RefusedArrival r Unauthorized) d1
            else if \<not> starts_with ''/testing/v1/'' (a_url a) then door_emit (RefusedArrival r UnknownTestingEndpoint) d1
            else if \<not> d_testing d then door_emit (RefusedArrival r TestingDisabled) d1
            else door_admit r (put (a\<lparr>a_url := drop 8 (a_url a), a_test := True\<rparr>) d1))
         else door_admit r d1)"

definition drop_held :: "nat \<Rightarrow> door \<Rightarrow> door" where
  "drop_held r d = (if r \<in> set (d_held d) then door_emit (HeldDropped r) (remove_held r d) else d)"

definition set_testing :: "bool \<Rightarrow> door \<Rightarrow> door" where
  "set_testing b d = flush_held (d\<lparr>d_testing := b\<rparr>)"

definition stop_held :: "nat \<Rightarrow> door \<Rightarrow> door" where
  "stop_held r d = door_emit (HeldStopped r) (remove_held r d)"

definition close_door :: "door \<Rightarrow> door" where
  "close_door d =
     (if d_closing d then d
      else
        let d1 = invalidate_probe (d\<lparr>d_closing := True\<rparr>)
        in answer_cancelled (cancelled_waiters d) (fold stop_held (d_held d1) d1))"

section \<open>The step relation\<close>

inductive door_step :: "door \<Rightarrow> door \<Rightarrow> bool" where
  DoorArrive: "door_step d (arrive a d)"
| DoorDrop: "door_step d (drop_held r d)"
| DoorResponse: "door_step d (proxy_response r d)"
| DoorEnd: "door_step d (proxy_end failed r d)"
| DoorError: "door_step d (upstream_error r d)"
| DoorHold: "door_step d (request_hold b why d)"
| DoorRelease: "door_step d (request_release cond d)"
| DoorReleaseNow: "door_step d (operator_release d)"
| DoorCheck: "\<not> d_closing d \<Longrightarrow> door_step d (check_core [] d)"
| DoorProbe: "door_step d (probe_end g ok d)"
| DoorTesting: "door_step d (set_testing b d)"
| DoorLan: "door_step d (d\<lparr>d_lan := b\<rparr>)"
| DoorClose: "door_step d (close_door d)"
| DoorTime: "t \<ge> d_now d \<Longrightarrow> door_step d (d\<lparr>d_now := t\<rparr>)"

definition door_initial :: "door \<Rightarrow> bool" where
  "door_initial d \<longleftrightarrow> \<not> d_holding d \<and> d_hold_id d = None \<and> d_hold_kind d = None \<and> d_held d = [] \<and>
     d_open d = [] \<and> d_responded d = [] \<and> d_active d = 0 \<and> d_probe d = None \<and> d_next d = 0 \<and>
     \<not> d_closing d \<and> d_events d = []"

inductive door_reachable :: "door \<Rightarrow> bool" where
  DoorInit: "door_initial d \<Longrightarrow> door_reachable d"
| DoorStep: "door_reachable d \<Longrightarrow> door_step d d' \<Longrightarrow> door_reachable d'"

section \<open>Invariant\<close>

fun proxied_of :: "door_event \<Rightarrow> nat option" where
  "proxied_of (Proxied r) = Some r"
| "proxied_of _ = None"

definition proxied :: "door \<Rightarrow> nat list" where
  "proxied d = List.map_filter proxied_of (d_events d)"

definition door_ok :: "door \<Rightarrow> bool" where
  "door_ok d \<longleftrightarrow> distinct (d_held d) \<and> (\<forall>r \<in> set (d_held d). should_hold d r \<and> r < d_next d) \<and>
     length (d_held d) \<le> d_limit d \<and> distinct (proxied d) \<and> (\<forall>r \<in> set (proxied d). r < d_next d) \<and>
     set (d_held d) \<inter> set (proxied d) = {} \<and> distinct (d_open d) \<and> set (d_open d) \<subseteq> set (proxied d) \<and>
     d_active d = length (d_open d)"

lemma proxied_emit [simp]:
  "proxied (door_emit e d) = (case proxied_of e of None \<Rightarrow> proxied d | Some r \<Rightarrow> r # proxied d)"
  by (simp add: proxied_def door_emit_def List.map_filter_def split: option.split)

lemma door_emit_sel [simp]:
  "d_held (door_emit e d) = d_held d" "d_next (door_emit e d) = d_next d" "d_open (door_emit e d) = d_open d"
  "d_active (door_emit e d) = d_active d" "d_limit (door_emit e d) = d_limit d"
  "d_holding (door_emit e d) = d_holding d" "d_hold_id (door_emit e d) = d_hold_id d"
  "d_hold_kind (door_emit e d) = d_hold_kind d" "d_testing (door_emit e d) = d_testing d"
  "d_arrivals (door_emit e d) = d_arrivals d" "d_probe (door_emit e d) = d_probe d"
  "d_generation (door_emit e d) = d_generation d" "d_reason (door_emit e d) = d_reason d"
  by (simp_all add: door_emit_def)

lemma should_hold_cong:
  "d_holding d' = d_holding d \<Longrightarrow> d_testing d' = d_testing d \<Longrightarrow> d_arrivals d' r = d_arrivals d r \<Longrightarrow>
   should_hold d' r = should_hold d r"
  by (simp add: should_hold_def)

text \<open>Two door states that agree on what the invariant reads.\<close>

lemma door_ok_cong:
  assumes "d_held d' = d_held d" "d_next d' = d_next d" "d_open d' = d_open d" "d_active d' = d_active d"
    "d_limit d' = d_limit d" "proxied d' = proxied d"
    "\<And>r. r \<in> set (d_held d) \<Longrightarrow> should_hold d r \<Longrightarrow> should_hold d' r"
  shows "door_ok d \<Longrightarrow> door_ok d'"
  using assms by (simp add: door_ok_def)

lemma door_emit_ok: "proxied_of e = None \<Longrightarrow> door_ok d \<Longrightarrow> door_ok (door_emit e d)"
  by (erule door_ok_cong [rotated -1]) (simp_all add: should_hold_def)

lemma proxied_update [simp]:
  "proxied (d\<lparr>d_held := x1\<rparr>) = proxied d" "proxied (d\<lparr>d_open := x2\<rparr>) = proxied d"
  "proxied (d\<lparr>d_active := x3\<rparr>) = proxied d" "proxied (d\<lparr>d_probe := x4\<rparr>) = proxied d"
  "proxied (d\<lparr>d_generation := x5\<rparr>) = proxied d" "proxied (d\<lparr>d_holding := x6\<rparr>) = proxied d"
  "proxied (d\<lparr>d_hold_id := x7\<rparr>) = proxied d" "proxied (d\<lparr>d_hold_kind := x8\<rparr>) = proxied d"
  "proxied (d\<lparr>d_reason := x9\<rparr>) = proxied d" "proxied (d\<lparr>d_since := y1\<rparr>) = proxied d"
  "proxied (d\<lparr>d_next := y2\<rparr>) = proxied d" "proxied (d\<lparr>d_next_hold := y3\<rparr>) = proxied d"
  "proxied (d\<lparr>d_arrivals := y4\<rparr>) = proxied d" "proxied (d\<lparr>d_responded := y5\<rparr>) = proxied d"
  "proxied (d\<lparr>d_forwarded := y6\<rparr>) = proxied d" "proxied (d\<lparr>d_failed := y7\<rparr>) = proxied d"
  "proxied (d\<lparr>d_kind_failed := y8\<rparr>) = proxied d" "proxied (d\<lparr>d_recent := y9\<rparr>) = proxied d"
  "proxied (d\<lparr>d_core_ready := z1\<rparr>) = proxied d" "proxied (d\<lparr>d_core_failures := z2\<rparr>) = proxied d"
  "proxied (d\<lparr>d_testing := z3\<rparr>) = proxied d" "proxied (d\<lparr>d_lan := z4\<rparr>) = proxied d"
  "proxied (d\<lparr>d_closing := z5\<rparr>) = proxied d" "proxied (d\<lparr>d_now := z6\<rparr>) = proxied d"
  by (simp_all add: proxied_def)

text \<open>The invariant without the reason to hold: what a flush may start from.\<close>

definition pre_flush :: "door \<Rightarrow> bool" where
  "pre_flush d \<longleftrightarrow> distinct (d_held d) \<and> (\<forall>r \<in> set (d_held d). r < d_next d) \<and>
     length (d_held d) \<le> d_limit d \<and> distinct (proxied d) \<and> (\<forall>r \<in> set (proxied d). r < d_next d) \<and>
     set (d_held d) \<inter> set (proxied d) = {} \<and> distinct (d_open d) \<and> set (d_open d) \<subseteq> set (proxied d) \<and>
     d_active d = length (d_open d)"

lemma door_ok_pre_flush: "door_ok d \<longleftrightarrow> pre_flush d \<and> (\<forall>r \<in> set (d_held d). should_hold d r)"
  by (auto simp: door_ok_def pre_flush_def)

lemma flush_one_pre:
  assumes "pre_flush d" and "r \<in> set (d_held d)"
  shows "pre_flush (flush_one r d)" and "set (d_held (flush_one r d)) = {x \<in> set (d_held d). x = r \<longrightarrow> should_hold d r}"
    and "should_hold (flush_one r d) = should_hold d"
proof -
  show "should_hold (flush_one r d) = should_hold d"
    by (auto simp: fun_eq_iff flush_one_def proxy_def remove_held_def should_hold_def Let_def)
  show "set (d_held (flush_one r d)) = {x \<in> set (d_held d). x = r \<longrightarrow> should_hold d r}"
    using assms by (auto simp: flush_one_def proxy_def remove_held_def pre_flush_def)
  show "pre_flush (flush_one r d)"
    using assms length_remove1 [of r "d_held d"]
    by (auto simp: flush_one_def proxy_def remove_held_def pre_flush_def)
qed

lemma flush_fold_pre:
  "pre_flush d \<Longrightarrow> distinct xs \<Longrightarrow> set xs \<subseteq> set (d_held d) \<Longrightarrow>
   pre_flush (fold flush_one xs d) \<and>
   set (d_held (fold flush_one xs d)) = {x \<in> set (d_held d). x \<in> set xs \<longrightarrow> should_hold d x} \<and>
   should_hold (fold flush_one xs d) = should_hold d"
proof (induction xs arbitrary: d)
  case (Cons r xs)
  note one = flush_one_pre [OF Cons.prems(1), of r]
  have "set xs \<subseteq> set (d_held (flush_one r d))" using Cons.prems one(2) by auto
  then show ?case
    using Cons.IH [of "flush_one r d"] Cons.prems one by auto
qed simp

lemma flush_held_ok: "pre_flush d \<Longrightarrow> door_ok (flush_held d)"
  unfolding door_ok_pre_flush flush_held_def
  using flush_fold_pre [of d "d_held d"] by (auto simp: pre_flush_def)

lemma pre_flush_cong:
  assumes "d_held d' = d_held d" "d_next d' = d_next d" "d_open d' = d_open d" "d_active d' = d_active d"
    "d_limit d' = d_limit d" "proxied d' = proxied d"
  shows "pre_flush d' = pre_flush d"
  using assms by (simp add: pre_flush_def)

lemma release_ok: "door_ok d \<Longrightarrow> door_ok (release d)"
  unfolding release_def
  by (rule flush_held_ok) (simp add: door_ok_pre_flush pre_flush_def clear_hold_def invalidate_probe_def)

lemma hold_ok: "door_ok d \<Longrightarrow> door_ok (hold why kind d)"
  by (erule door_ok_cong [rotated -1])
    (auto simp: hold_def Let_def invalidate_probe_def should_hold_def)

lemma automatic_hold_ok: "door_ok d \<Longrightarrow> door_ok (automatic_hold why d)"
  unfolding automatic_hold_def
  by (rule hold_ok, erule door_ok_cong [rotated -1]) (simp_all add: should_hold_def)

lemma answer_not_ready_ok: "door_ok d \<Longrightarrow> door_ok (answer_not_ready after c d)"
  unfolding answer_not_ready_def by (rule door_emit_ok) simp_all

lemma answer_fold_ok: "door_ok d \<Longrightarrow> door_ok (fold (answer_not_ready after) ws d)"
  by (induction ws arbitrary: d) (simp_all add: answer_not_ready_ok)

lemma answer_cancelled_ok: "door_ok d \<Longrightarrow> door_ok (answer_cancelled ws d)"
  unfolding answer_cancelled_def by (rule answer_fold_ok)

lemma operator_release_ok: "door_ok d \<Longrightarrow> door_ok (operator_release d)"
  unfolding operator_release_def by (intro answer_cancelled_ok release_ok)

lemma resume_release_ok: "door_ok d \<Longrightarrow> door_ok (resume_release b c d)"
  unfolding resume_release_def by (auto intro: door_emit_ok operator_release_ok)

lemma resume_fold_ok: "door_ok d \<Longrightarrow> door_ok (fold (resume_release b) ws d)"
  by (induction ws arbitrary: d) (simp_all add: resume_release_ok)

lemma apply_probe_ok: "door_ok d \<Longrightarrow> door_ok (apply_probe ok d)"
proof -
  assume d: "door_ok d"
  have "door_ok (d\<lparr>d_core_ready := ok, d_core_failures := n\<rparr>)" for n
    by (rule door_ok_cong [OF _ _ _ _ _ _ _ d]) (simp_all add: should_hold_def)
  then show ?thesis by (auto simp: apply_probe_def Let_def intro: release_ok automatic_hold_ok)
qed

lemma probe_end_ok: "door_ok d \<Longrightarrow> door_ok (probe_end g ok d)"
proof -
  assume d: "door_ok d"
  have "door_ok (d\<lparr>d_probe := None\<rparr>)"
    by (rule door_ok_cong [OF _ _ _ _ _ _ _ d]) (simp_all add: should_hold_def)
  then show ?thesis
    using d by (auto simp: probe_end_def Let_def intro: resume_fold_ok apply_probe_ok split: option.split)
qed

lemma proxy_end_ok: "door_ok d \<Longrightarrow> door_ok (proxy_end failed r d)"
proof -
  assume d: "door_ok d"
  have drop: "door_ok (door_emit (ProxyEnded r) (d\<lparr>d_open := remove1 r (d_open d), d_active := d_active d - 1\<rparr>))"
    if "r \<in> set (d_open d)"
  proof -
    have "length (remove1 r (d_open d)) = d_active d - 1" using d that by (simp add: door_ok_def length_remove1)
    then show ?thesis
      using d by (intro door_emit_ok) (auto simp: door_ok_def should_hold_def dest: set_remove1_subset [THEN subsetD])
  qed
  have rec: "door_ok x \<Longrightarrow> door_ok (record_failure r x)" for x
    by (erule door_ok_cong [rotated -1]) (simp_all add: record_failure_def Let_def should_hold_def)
  show ?thesis using d drop rec by (simp add: proxy_end_def Let_def)
qed

lemma upstream_error_ok: "door_ok d \<Longrightarrow> door_ok (upstream_error r d)"
  unfolding upstream_error_def Let_def
  by (auto intro!: answer_cancelled_ok automatic_hold_ok proxy_end_ok door_emit_ok)

text \<open>A new arrival: the state in which it has a number but no place yet.\<close>

lemma door_admit_ok:
  assumes d: "door_ok d" and r: "r < d_next d" "r \<notin> set (d_held d)" "r \<notin> set (proxied d)"
  shows "door_ok (door_admit r d)"
proof -
  have "door_ok (proxy r d)"
    using assms by (auto simp: proxy_def door_ok_def should_hold_def)
  moreover have "door_ok (door_emit (HeldBack r) (d\<lparr>d_held := d_held d @ [r]\<rparr>))"
    if "should_hold d r" "length (d_held d) < d_limit d"
    using assms that by (intro door_emit_ok) (auto simp: door_ok_def should_hold_def)
  moreover have "door_ok (door_emit (RefusedArrival r e) d)" for e
    using d by (intro door_emit_ok) simp_all
  ultimately show ?thesis
    unfolding door_admit_def Let_def by (simp add: not_le)
qed

lemma new_arrival_ok:
  assumes d: "door_ok d"
  shows "door_ok (d\<lparr>d_next := d_next d + 1, d_arrivals := (d_arrivals d)(d_next d := a)\<rparr>)"
proof -
  have "r \<noteq> d_next d" if "r \<in> set (d_held d)" for r using d that by (auto simp: door_ok_def)
  then show ?thesis using d by (auto simp: door_ok_def should_hold_def less_SucI)
qed

lemma arrive_ok:
  assumes d: "door_ok d"
  shows "door_ok (arrive a d)"
proof -
  let ?r = "d_next d"
  have n: "?r \<notin> set (d_held d)" "?r \<notin> set (proxied d)" using d by (auto simp: door_ok_def)
  have base: "door_ok (d\<lparr>d_next := ?r + 1, d_arrivals := (d_arrivals d)(?r := b)\<rparr>)" for b
    by (rule new_arrival_ok [OF d])
  have admit: "door_ok (door_admit ?r (d\<lparr>d_next := ?r + 1, d_arrivals := (d_arrivals d)(?r := b)\<rparr>))" for b
    by (rule door_admit_ok [OF base]) (use n in simp_all)
  have tell: "door_ok (door_emit e (d\<lparr>d_next := ?r + 1, d_arrivals := (d_arrivals d)(?r := b)\<rparr>))"
    if "proxied_of e = None" for e b
    by (rule door_emit_ok [OF that base])
  show ?thesis
    unfolding arrive_def Let_def
    by (simp add: tell admit [unfolded Suc_eq_plus1 [symmetric]] tell [unfolded Suc_eq_plus1 [symmetric]])
qed

lemma stop_fold_ok: "door_ok d \<Longrightarrow> door_ok (fold stop_held rs d)"
proof (induction rs arbitrary: d)
  case (Cons r rs)
  have "door_ok (stop_held r d)"
    using Cons.prems length_remove1 [of r "d_held d"] set_remove1_subset [of r "d_held d"]
    unfolding stop_held_def
    by (intro door_emit_ok) (auto simp: remove_held_def door_ok_def should_hold_def)
  then show ?case using Cons.IH by simp
qed simp

lemma door_step_ok: "door_step d d' \<Longrightarrow> door_ok d \<Longrightarrow> door_ok d'"
proof (induction rule: door_step.induct)
  case (DoorDrop d r)
  then show ?case using stop_fold_ok [of d "[r]"]
    by (auto simp: drop_held_def stop_held_def remove_held_def door_ok_def should_hold_def)
next
  case (DoorResponse r d)
  then show ?case by (auto simp: proxy_response_def door_ok_def should_hold_def)
next
  case (DoorHold b why d)
  then show ?case
    by (auto simp: request_hold_def operator_hold_def intro: door_emit_ok answer_cancelled_ok hold_ok)
next
  case (DoorRelease cond d)
  then show ?case
    by (auto simp: request_release_def check_core_def intro!: door_emit_ok split: option.split)
      (auto simp: door_ok_def should_hold_def)
next
  case (DoorCheck d)
  then show ?case by (auto simp: check_core_def door_ok_def should_hold_def split: option.split)
next
  case (DoorTesting b d)
  then show ?case unfolding set_testing_def
    by (intro flush_held_ok) (simp add: door_ok_pre_flush pre_flush_def)
next
  case (DoorClose d)
  then show ?case
    unfolding close_door_def Let_def
    by (auto intro!: answer_cancelled_ok stop_fold_ok simp: invalidate_probe_def)
      (auto simp: door_ok_def should_hold_def)
next
  case (DoorLan b d) then show ?case by (auto simp: door_ok_def should_hold_def)
next
  case (DoorTime d t) then show ?case by (auto simp: door_ok_def should_hold_def)
qed (simp_all add: arrive_ok proxy_end_ok upstream_error_ok operator_release_ok probe_end_ok)

lemma door_reachable_ok: "door_reachable d \<Longrightarrow> door_ok d"
proof (induction rule: door_reachable.induct)
  case (DoorInit d)
  then show ?case by (simp add: door_initial_def door_ok_def proxied_def List.map_filter_def)
qed (rule door_step_ok)

section \<open>What the door promises\<close>

definition demo_door :: door where
  "demo_door = \<lparr>d_holding = False, d_hold_id = None, d_hold_kind = None, d_reason = None, d_since = None,
     d_held = [], d_arrivals = (\<lambda>_. \<lparr>a_method = GET, a_url = [], a_authorized = False, a_loopback = False, a_test = False\<rparr>),
     d_next = 0, d_next_hold = 0, d_open = [], d_responded = [], d_active = 0, d_forwarded = 0, d_failed = 0,
     d_kind_failed = (\<lambda>_. 0), d_recent = [], d_core_ready = False, d_core_failures = 0, d_generation = 0,
     d_probe = None, d_testing = False, d_lan = True, d_closing = False, d_limit = 128, d_health_failures = 2,
     d_auth_none = False, d_now = 0, d_events = []\<rparr>"

definition demo_chat :: arrival where
  "demo_chat = \<lparr>a_method = POST, a_url = ''/v1/messages'', a_authorized = True, a_loopback = True, a_test = False\<rparr>"

definition demo_held :: door where
  "demo_held = arrive demo_chat (operator_hold (JStr ''upgrade'') demo_door)"

lemma demo_held_facts: "d_held demo_held = [0]" "d_holding demo_held" "d_hold_kind demo_held = Some ManualHold"
  "d_hold_id demo_held = Some 0" "proxied demo_held = []"
  by (simp_all add: demo_held_def arrive_def Let_def demo_door_def demo_chat_def operator_hold_def hold_def
      invalidate_probe_def answer_cancelled_def cancelled_waiters_def starts_with_def door_admit_def should_hold_def
      door_emit_def proxied_def List.map_filter_def)

lemma demo_held_reachable: "door_reachable demo_held"
proof -
  have "door_reachable demo_door"
    by (rule DoorInit) (simp add: door_initial_def demo_door_def)
  then have "door_reachable (request_hold False (JStr ''upgrade'') demo_door)" by (rule DoorStep) (rule DoorHold)
  then have "door_reachable (operator_hold (JStr ''upgrade'') demo_door)" by (simp add: request_hold_def)
  then show ?thesis unfolding demo_held_def by (rule DoorStep) (rule DoorArrive)
qed

text \<open>C11: the door forwards an arrival at most once, never forwards what it still holds, holds at
  most its capacity, and holds nothing without a reason: every transition that ends a reason to hold
  forwards what it held.\<close>

theorem door_forwards_once:
  assumes "door_reachable d"
  shows "distinct (proxied d) \<and> set (d_held d) \<inter> set (proxied d) = {} \<and> length (d_held d) \<le> d_limit d \<and>
    (\<forall>r \<in> set (d_held d). should_hold d r)"
  using door_reachable_ok [OF assms] by (simp add: door_ok_def)

theorem door_forwards_once_witness: "d_held demo_held = [0] \<and> proxied demo_held = [] \<and> should_hold demo_held 0"
  using door_forwards_once [OF demo_held_reachable] by (simp add: demo_held_facts)

lemma resume_other_hold:
  "d_holding d \<Longrightarrow> \<forall>c \<in> set ws. \<exists>h. c = Some h \<and> d_hold_id d \<noteq> Some h \<Longrightarrow>
   d_holding (fold (resume_release b) ws d) \<and> d_hold_id (fold (resume_release b) ws d) = d_hold_id d \<and>
   d_hold_kind (fold (resume_release b) ws d) = d_hold_kind d"
proof (induction ws arbitrary: d)
  case (Cons c ws)
  then have "resume_release b c d = door_emit HoldChanged d"
    by (auto simp: resume_release_def hold_matches_def)
  then show ?case using Cons.IH [of "door_emit HoldChanged d"] Cons.prems by simp
qed simp

text \<open>A manual hold outlives every readiness probe and every release that names another hold.\<close>

theorem manual_hold_survives:
  assumes "d_holding d" and "d_hold_kind d = Some ManualHold"
    and "\<forall>c \<in> set (cancelled_waiters d). \<exists>h. c = Some h \<and> d_hold_id d \<noteq> Some h"
  shows "d_holding (probe_end g ok d) \<and> d_hold_id (probe_end g ok d) = d_hold_id d \<and>
    d_hold_kind (probe_end g ok d) = Some ManualHold"
proof (cases "d_probe d")
  case None
  then show ?thesis using assms by (simp add: probe_end_def)
next
  case (Some p)
  then obtain g' ws where p: "d_probe d = Some (g', ws)" by (cases p) simp
  have same: "d_holding (apply_probe ok e) \<and> d_hold_id (apply_probe ok e) = d_hold_id e \<and>
      d_hold_kind (apply_probe ok e) = Some ManualHold"
    if "d_holding e" "d_hold_kind e = Some ManualHold" for e
    using that by (simp add: apply_probe_def Let_def automatic_hold_def hold_def invalidate_probe_def)
  show ?thesis
    using assms p same [of "d\<lparr>d_probe := None\<rparr>"] resume_other_hold
    by (simp add: probe_end_def Let_def cancelled_waiters_def)
qed

theorem manual_hold_survives_witness:
  "d_hold_id (probe_end 1 True (check_core [Some 7] demo_held)) = Some 0"
proof -
  have p: "d_probe demo_held = None"
    by (simp add: demo_held_def arrive_def Let_def demo_door_def demo_chat_def operator_hold_def hold_def
        invalidate_probe_def answer_cancelled_def cancelled_waiters_def starts_with_def door_admit_def
        should_hold_def door_emit_def)
  show ?thesis
    using manual_hold_survives [of "check_core [Some 7] demo_held" 1 True] p
    by (simp add: check_core_def cancelled_waiters_def demo_held_facts)
qed

end
