(* ===== verification/Stream_Lines.thy ===== *)
theory Stream_Lines
  imports Gate_Prelude
begin

text \<open>
  The incremental line framing that \<open>UsageObserver.accept\<close> (\<open>gateway.mjs\<close>) and
  \<open>GenerationFaultObserver.accept\<close> (\<open>generation-health.mjs\<close>) share: decoded text arrives in
  pieces of any size, lines end in CR, LF or CRLF, and a CRLF may be split between two pieces. The
  locale states what the framing needs of its client, and proves once that the pieces do not matter.
\<close>

definition CR :: char where "CR = CHR 0x0D"
definition LF :: char where "LF = CHR 0x0A"

lemma CR_LF [simp]: "CR \<noteq> LF" "LF \<noteq> CR"
  by (simp_all add: CR_def LF_def)

text \<open>\<open>text.split(/\r\n|[\r\n]/)\<close>\<close>

fun split_lines :: "string \<Rightarrow> string list" where
  "split_lines [] = [[]]"
| "split_lines (c # cs) =
     (if c = CR then
        (case cs of
           [] \<Rightarrow> [] # split_lines []
         | d # ds \<Rightarrow> if d = LF then [] # split_lines ds else [] # split_lines (d # ds))
      else if c = LF then [] # split_lines cs
      else (case split_lines cs of [] \<Rightarrow> [[c]] | p # ps \<Rightarrow> (c # p) # ps))"

definition ends_with_cr :: "string \<Rightarrow> bool" where
  "ends_with_cr t \<longleftrightarrow> t \<noteq> [] \<and> last t = CR"

text \<open>The loop over the parts: every part but the first is preceded by the end of a line.\<close>

definition feed_parts :: "(string \<Rightarrow> 's \<Rightarrow> 's) \<Rightarrow> ('s \<Rightarrow> 's) \<Rightarrow> string list \<Rightarrow> 's \<Rightarrow> 's" where
  "feed_parts add end_line parts st =
     (case parts of [] \<Rightarrow> st | p # ps \<Rightarrow> fold (\<lambda>q s. add q (end_line s)) ps (add p st))"

text \<open>One decoded piece; the flag is \<open>afterCR\<close>. An empty piece is skipped.\<close>

definition feed_text :: "(string \<Rightarrow> 's \<Rightarrow> 's) \<Rightarrow> ('s \<Rightarrow> 's) \<Rightarrow> string \<Rightarrow> bool \<times> 's \<Rightarrow> bool \<times> 's" where
  "feed_text add end_line text x =
     (if text = [] then x
      else let t = (if fst x \<and> hd text = LF then tl text else text)
           in (ends_with_cr t, feed_parts add end_line (split_lines t) (snd x)))"

text \<open>The lines a text ends, and the unfinished rest.\<close>

definition ended_lines :: "string \<Rightarrow> string list" where
  "ended_lines t = butlast (split_lines t)"

definition open_line :: "string \<Rightarrow> string" where
  "open_line t = last (split_lines t)"

lemma split_lines_nonempty [simp]: "split_lines t \<noteq> []"
  by (induction t rule: split_lines.induct) (auto split: list.split)

section \<open>The character reference\<close>

text \<open>One code unit at a time: what the framing means, without pieces.\<close>

definition feed_char :: "(string \<Rightarrow> 's \<Rightarrow> 's) \<Rightarrow> ('s \<Rightarrow> 's) \<Rightarrow> char \<Rightarrow> bool \<times> 's \<Rightarrow> bool \<times> 's" where
  "feed_char add end_line c x =
     (if c = LF \<and> fst x then (False, snd x)
      else if c = LF then (False, end_line (snd x))
      else if c = CR then (True, end_line (snd x))
      else (False, add [c] (snd x)))"

text \<open>
  What the framing needs of its client: adding in two steps is adding at once, and adding nothing
  changes nothing, on the states \<open>ok\<close> that the client keeps.
\<close>

locale line_machine =
  fixes add :: "string \<Rightarrow> 's \<Rightarrow> 's" and end_line :: "'s \<Rightarrow> 's" and ok :: "'s \<Rightarrow> bool"
  assumes add_ok: "ok s \<Longrightarrow> ok (add t s)"
    and end_ok: "ok s \<Longrightarrow> ok (end_line s)"
    and add_nil: "ok s \<Longrightarrow> add [] s = s"
    and add_add: "add t (add u s) = add (u @ t) s"
begin

lemma feed_parts_cons: "ok s \<Longrightarrow> ps \<noteq> [] \<Longrightarrow>
   feed_parts add end_line ([] # ps) s = feed_parts add end_line ps (end_line s)"
  by (cases ps) (simp_all add: feed_parts_def add_nil)

lemma feed_parts_prefix: "feed_parts add end_line ((c # p) # ps) s = feed_parts add end_line (p # ps) (add [c] s)"
  by (simp add: feed_parts_def add_add)

lemma feed_parts_chars:
  "ok s \<Longrightarrow> (ends_with_cr t, feed_parts add end_line (split_lines t) s) =
   fold (feed_char add end_line) t (False, s)"
proof (induction t arbitrary: s rule: split_lines.induct)
  case 1
  then show ?case by (simp add: feed_parts_def ends_with_cr_def add_nil)
next
  case (2 c cs)
  note oks = 2(6) end_ok [OF 2(6)] add_ok [OF 2(6)]
  show ?case
  proof (cases "c = CR")
    case cr: True
    show ?thesis
    proof (cases cs)
      case Nil
      then show ?thesis using cr oks
        by (simp add: feed_parts_def feed_char_def ends_with_cr_def add_nil)
    next
      case (Cons d ds)
      show ?thesis
      proof (cases "d = LF")
        case True
        have "ends_with_cr (c # cs) = ends_with_cr ds"
          using cr Cons True by (auto simp: ends_with_cr_def)
        then show ?thesis
          using "2.IH"(2) [OF cr Cons True oks(2)] cr Cons True oks
          by (simp add: feed_char_def feed_parts_cons)
      next
        case False
        have e: "ends_with_cr (c # cs) = ends_with_cr cs"
          using cr Cons by (simp add: ends_with_cr_def)
        have "fold (feed_char add end_line) cs (True, end_line s) = fold (feed_char add end_line) cs (False, end_line s)"
          using Cons False by (simp add: feed_char_def)
        moreover have "split_lines (c # cs) = [] # split_lines cs"
          using cr Cons False by simp
        moreover have "fold (feed_char add end_line) (c # cs) (False, s) =
            fold (feed_char add end_line) cs (True, end_line s)"
          using cr by (simp add: feed_char_def)
        moreover have "feed_parts add end_line ([] # split_lines cs) s = feed_parts add end_line (split_lines cs) (end_line s)"
          by (rule feed_parts_cons [OF oks(1)]) simp
        ultimately show ?thesis
          using "2.IH"(3) [OF cr Cons False oks(2)] unfolding Cons [symmetric]
          by (simp only: e)
      qed
    qed
  next
    case ncr: False
    show ?thesis
    proof (cases "c = LF")
      case True
      have "ends_with_cr (c # cs) = ends_with_cr cs"
        using True by (auto simp: ends_with_cr_def)
      then show ?thesis
        using "2.IH"(4) [OF ncr True oks(2)] ncr True oks
        by (simp add: feed_char_def feed_parts_cons)
    next
      case False
      obtain p ps where sp: "split_lines cs = p # ps" by (cases "split_lines cs") auto
      have "ends_with_cr (c # cs) = ends_with_cr cs"
        using ncr by (auto simp: ends_with_cr_def)
      then show ?thesis
        using "2.IH"(5) [OF ncr False oks(3)] ncr False sp
        by (simp add: feed_char_def feed_parts_prefix)
    qed
  qed
qed

lemma feed_text_chars: "ok (snd x) \<Longrightarrow> feed_text add end_line t x = fold (feed_char add end_line) t x"
proof (cases t)
  case Nil
  then show ?thesis by (simp add: feed_text_def)
next
  case (Cons c cs)
  assume ok: "ok (snd x)"
  show ?thesis
  proof (cases "fst x \<and> c = LF")
    case True
    then show ?thesis
      using Cons feed_parts_chars [OF ok, of cs] by (cases x) (simp add: feed_text_def feed_char_def Let_def)
  next
    case False
    have "fold (feed_char add end_line) t x = fold (feed_char add end_line) t (False, snd x)"
      using False Cons by (cases x) (auto simp: feed_char_def)
    then show ?thesis
      using False Cons feed_parts_chars [OF ok, of t] by (auto simp: feed_text_def Let_def)
  qed
qed

lemma feed_char_ok: "ok (snd x) \<Longrightarrow> ok (snd (feed_char add end_line c x))"
  by (simp add: feed_char_def add_ok end_ok)

lemma feed_chars_ok: "ok (snd x) \<Longrightarrow> ok (snd (fold (feed_char add end_line) t x))"
  by (induction t arbitrary: x) (simp_all add: feed_char_ok)

text \<open>Pieces do not matter.\<close>

lemma feed_text_append:
  "ok (snd x) \<Longrightarrow> feed_text add end_line u (feed_text add end_line t x) = feed_text add end_line (t @ u) x"
  by (simp add: feed_text_chars feed_chars_ok)

lemma feed_text_concat:
  "ok (snd x) \<Longrightarrow> fold (feed_text add end_line) ts x = feed_text add end_line (concat ts) x"
  by (induction ts arbitrary: x) (simp add: feed_text_def, simp add: feed_text_append feed_text_chars feed_chars_ok)

text \<open>From the start of a stream, the text is its ended lines in order and an open rest.\<close>

lemma feed_parts_lines:
  "feed_parts add end_line ps s = (if ps = [] then s else add (last ps) (fold (\<lambda>l s. end_line (add l s)) (butlast ps) s))"
proof (induction ps arbitrary: s rule: induct_list012)
  case (3 p q ps)
  have "feed_parts add end_line (p # q # ps) s = feed_parts add end_line (q # ps) (end_line (add p s))"
    by (simp add: feed_parts_def)
  then show ?case using 3(2) by simp
qed (simp_all add: feed_parts_def)

lemma feed_text_lines:
  "ok s \<Longrightarrow> snd (feed_text add end_line t (False, s)) =
     add (open_line t) (fold (\<lambda>l s. end_line (add l s)) (ended_lines t) s)"
  by (cases "t = []") (simp_all add: feed_text_def feed_parts_lines open_line_def ended_lines_def add_nil)

end

text \<open>JavaScript's white space, as far as it fits a byte, and \<open>trim\<close>.\<close>

definition js_space :: "char \<Rightarrow> bool" where
  "js_space c \<longleftrightarrow> (of_char c :: nat) \<in> {9, 10, 11, 12, 13, 32, 160}"

definition trim :: "string \<Rightarrow> string" where
  "trim s = rev (dropWhile js_space (rev (dropWhile js_space s)))"

definition has_prefix :: "string \<Rightarrow> string \<Rightarrow> bool" where
  "has_prefix p s \<longleftrightarrow> take (length p) s = p"

definition occurs_in :: "string \<Rightarrow> string \<Rightarrow> bool" where
  "occurs_in p s \<longleftrightarrow> list_ex (\<lambda>n. has_prefix p (drop n s)) [0..<length s + 1]"

definition lower_text :: "string \<Rightarrow> string" where
  "lower_text s = List.map lower_char s"

end
