(* ===== verification/Usage_Observer.thy ===== *)
theory Usage_Observer
  imports Stream_Lines
begin

text \<open>
  \<open>UsageObserver\<close> (\<open>gateway.mjs\<close>) with \<open>outputShape\<close> (\<open>output-shape.mjs\<close>): what the gateway learns
  of a streamed answer while it forwards the bytes, and how it judges the end of the stream.
  \<open>JSON.parse\<close> is the parameter \<open>parse\<close> (\<open>None\<close> where it throws) and the n-th reading of
  \<open>performance.now\<close> is \<open>clock n\<close>; the observer is fed the text its \<open>StringDecoder\<close> returned for
  each piece of at most 4096 bytes. The table of \<open>stop_reason\<close>s is read by its own four keys.
\<close>

section \<open>The shape of an answer\<close>

datatype channel = ThinkingText | AnswerText | ToolText

record shape =
  sh_thinking :: nat
  sh_answer :: nat
  sh_tool :: nat
  sh_output :: bool
  sh_complete :: bool

definition empty_shape :: shape where
  "empty_shape = \<lparr>sh_thinking = 0, sh_answer = 0, sh_tool = 0, sh_output = False, sh_complete = True\<rparr>"

fun add_chars :: "channel \<Rightarrow> nat \<Rightarrow> shape \<Rightarrow> shape" where
  "add_chars ThinkingText n sh = sh\<lparr>sh_thinking := sh_thinking sh + n\<rparr>"
| "add_chars AnswerText n sh = sh\<lparr>sh_answer := sh_answer sh + n\<rparr>"
| "add_chars ToolText n sh = sh\<lparr>sh_tool := sh_tool sh + n\<rparr>"

definition incomplete :: "shape \<Rightarrow> shape" where
  "incomplete sh = sh\<lparr>sh_complete := False\<rparr>"

definition count_text :: "js \<Rightarrow> channel \<Rightarrow> shape \<Rightarrow> shape" where
  "count_text v ch sh =
     (if nullish v then sh
      else case v of
        JStr s \<Rightarrow>
          (let sh1 = add_chars ch (length s) sh
           in if s \<noteq> [] \<and> ch \<noteq> ThinkingText then sh1\<lparr>sh_output := True\<rparr> else sh1)
      | _ \<Rightarrow> incomplete sh)"

definition count_part :: "js \<Rightarrow> shape \<Rightarrow> shape" where
  "count_part part sh =
     (if jget part ''type'' = JStr ''text'' then count_text (jget part ''text'') AnswerText sh
      else if jget part ''type'' = JStr ''refusal'' then count_text (jget part ''refusal'') AnswerText sh
      else incomplete sh)"

definition count_call :: "js \<Rightarrow> shape \<Rightarrow> shape" where
  "count_call call sh =
     count_text (jget (jget call ''function'') ''arguments'') ToolText (sh\<lparr>sh_output := True\<rparr>)"

definition count_content :: "js \<Rightarrow> shape \<Rightarrow> shape" where
  "count_content c sh = (case c of JArr parts \<Rightarrow> fold count_part parts sh | _ \<Rightarrow> count_text c AnswerText sh)"

definition count_tools :: "js \<Rightarrow> shape \<Rightarrow> shape" where
  "count_tools calls sh =
     (if nullish calls then sh
      else case calls of JArr cs \<Rightarrow> fold count_call cs sh | _ \<Rightarrow> incomplete sh)"

definition output_shape :: "js \<Rightarrow> shape" where
  "output_shape message =
     (if \<not> is_obj message then incomplete empty_shape
      else
        let thinking = or_else (or_else (jget message ''reasoning_content'') (jget message ''reasoning''))
                         (jget message ''reasoning_text'');
            sh1 = count_text thinking ThinkingText empty_shape;
            sh2 = count_content (jget message ''content'') sh1;
            sh3 = count_text (jget message ''refusal'') AnswerText sh2;
            sh4 = count_tools (jget message ''tool_calls'') sh3;
            sh5 = (if nullish (jget message ''function_call'') then sh4
                   else count_text (jget (jget message ''function_call'') ''arguments'') ToolText
                          (sh4\<lparr>sh_output := True\<rparr>))
        in if \<not> nullish (jget message ''audio'') \<or> \<not> nullish (jget message ''reasoning_details'')
           then incomplete sh5 else sh5)"

section \<open>The observer\<close>

datatype phase = AwaitingContent | InThinking | InAnswer | InToolOutput

record usage =
  us_prompt :: "rat option"
  us_completion :: "rat option"
  us_cached :: "rat option"

record observer =
  o_route :: string
  o_phase :: phase
  o_semantic :: nat
  o_last_at :: "rat option"
  o_first_at :: "rat option"
  o_readings :: nat
  o_thinking :: nat
  o_answer :: nat
  o_tool :: nat
  o_output :: bool
  o_complete :: bool
  o_pending :: string
  o_usage :: "usage option"
  o_done :: bool
  o_finish :: "string option"
  o_skipping :: bool
  o_limited :: bool
  o_failed :: bool
  o_boundary :: bool
  o_closed :: bool
  o_single :: bool
  o_ambiguous :: bool
  o_data_lines :: nat

definition new_observer :: "string \<Rightarrow> observer" where
  "new_observer route = \<lparr>o_route = route, o_phase = AwaitingContent, o_semantic = 0, o_last_at = None,
     o_first_at = None, o_readings = 0, o_thinking = 0, o_answer = 0, o_tool = 0, o_output = False,
     o_complete = True, o_pending = [], o_usage = None, o_done = False, o_finish = None,
     o_skipping = False, o_limited = False, o_failed = False, o_boundary = True, o_closed = False,
     o_single = False, o_ambiguous = False, o_data_lines = 0\<rparr>"

definition chat_routes :: "string list" where
  "chat_routes = [''/v1/chat/completions'', ''/v1/completions'']"

definition finish_reasons :: "string list" where
  "finish_reasons = [''stop'', ''length'', ''tool_calls'', ''function_call'', ''content_filter'']"

text \<open>Element 0 of \<open>choices\<close>, which may be an array, an object or a string.\<close>

fun index0 :: "js \<Rightarrow> js" where
  "index0 (JArr (v # vs)) = v"
| "index0 (JObj kvs) = fget kvs ''0''"
| "index0 (JStr (c # cs)) = JStr [c]"
| "index0 _ = JUndef"

definition first_choice :: "js \<Rightarrow> js" where
  "first_choice v = index0 (jget v ''choices'')"

definition event_reason :: "js \<Rightarrow> js" where
  "event_reason v = jget (first_choice v) ''finish_reason''"

fun is_one_of :: "js \<Rightarrow> string list \<Rightarrow> bool" where
  "is_one_of (JStr s) xs = (s \<in> set xs)"
| "is_one_of _ xs = False"

fun type_object :: "js \<Rightarrow> bool" where
  "type_object (JObj _) = True"
| "type_object (JArr _) = True"
| "type_object JNull = True"
| "type_object _ = False"

definition usage_only :: "js \<Rightarrow> bool" where
  "usage_only v \<longleftrightarrow> jget v ''choices'' = JArr [] \<and> truthy (jget v ''usage'') \<and> type_object (jget v ''usage'')"

definition one_choice :: "js \<Rightarrow> bool" where
  "one_choice v \<longleftrightarrow> (case jget v ''choices'' of JArr [c] \<Rightarrow> jget c ''index'' = JNum 0 | _ \<Rightarrow> False)"

definition eof_rule :: "js \<Rightarrow> observer \<Rightarrow> observer" where
  "eof_rule v ob =
     (if o_route ob \<in> set chat_routes then
        (if usage_only v then ob
         else if \<not> one_choice v \<or> o_single ob then ob\<lparr>o_ambiguous := True\<rparr>
         else if is_one_of (event_reason v) finish_reasons then ob\<lparr>o_single := True\<rparr>
         else if \<not> nullish (event_reason v) then ob\<lparr>o_ambiguous := True\<rparr>
         else ob)
      else ob)"

definition note_progress :: "(nat \<Rightarrow> rat) \<Rightarrow> nat \<Rightarrow> channel \<Rightarrow> observer \<Rightarrow> observer" where
  "note_progress clock n ch ob =
     (if n = 0 then ob
      else
        let now = clock (o_readings ob);
            ob1 = ob\<lparr>o_semantic := o_semantic ob + n, o_readings := o_readings ob + 1, o_last_at := Some now,
                     o_first_at := (case o_first_at ob of None \<Rightarrow> Some now | Some t \<Rightarrow> Some t)\<rparr>
        in (case ch of
              ThinkingText \<Rightarrow> ob1\<lparr>o_phase := InThinking, o_thinking := o_thinking ob1 + n\<rparr>
            | AnswerText \<Rightarrow> ob1\<lparr>o_phase := InAnswer, o_answer := o_answer ob1 + n\<rparr>
            | ToolText \<Rightarrow> ob1\<lparr>o_phase := InToolOutput, o_tool := o_tool ob1 + n\<rparr>))"

definition text_progress :: "(nat \<Rightarrow> rat) \<Rightarrow> js \<Rightarrow> channel \<Rightarrow> observer \<Rightarrow> observer" where
  "text_progress clock v ch ob = (case v of JStr s \<Rightarrow> note_progress clock (length s) ch ob | _ \<Rightarrow> ob)"

definition response_deltas :: "string list" where
  "response_deltas = [''response.output_text.delta'', ''response.reasoning_summary_text.delta'',
     ''response.reasoning_text.delta'', ''response.function_call_arguments.delta'']"

definition progress_rule :: "(nat \<Rightarrow> rat) \<Rightarrow> js \<Rightarrow> observer \<Rightarrow> observer" where
  "progress_rule clock v ob =
     (let delta = jget (first_choice v) ''delta''; ty = jget v ''type'' in
      if truthy delta then
        (let sh = output_shape delta;
             ob1 = ob\<lparr>o_output := o_output ob \<or> sh_output sh, o_complete := o_complete ob \<and> sh_complete sh\<rparr>
         in note_progress clock (sh_tool sh) ToolText
              (note_progress clock (sh_answer sh) AnswerText
                (note_progress clock (sh_thinking sh) ThinkingText ob1)))
      else if ty = JStr ''content_block_delta'' then
        (let d = jget v ''delta'' in
         if jget d ''type'' = JStr ''thinking_delta'' then text_progress clock (jget d ''thinking'') ThinkingText ob
         else if jget d ''type'' = JStr ''text_delta'' then text_progress clock (jget d ''text'') AnswerText ob
         else if jget d ''type'' = JStr ''input_json_delta'' then text_progress clock (jget d ''partial_json'') ToolText ob
         else ob)
      else if is_one_of ty response_deltas then
        text_progress clock (jget v ''delta'')
          (if ty = JStr ''response.reasoning_summary_text.delta'' \<or> ty = JStr ''response.reasoning_text.delta'' then ThinkingText
           else if ty = JStr ''response.function_call_arguments.delta'' then ToolText else AnswerText) ob
      else ob)"

fun count_number :: "js \<Rightarrow> rat option" where
  "count_number (JNum r) = (if r \<ge> 0 then Some r else None)"
| "count_number _ = None"

definition is_error_event :: "js \<Rightarrow> bool" where
  "is_error_event v \<longleftrightarrow> jget v ''type'' = JStr ''error'' \<or> truthy (jget v ''error'')"

fun stop_reason :: "js \<Rightarrow> string option" where
  "stop_reason (JStr s) =
     (if s = ''end_turn'' then Some ''stop'' else if s = ''stop_sequence'' then Some ''stop''
      else if s = ''tool_use'' then Some ''tool_calls'' else if s = ''max_tokens'' then Some ''length'' else None)"
| "stop_reason _ = None"

definition messages_rule :: "js \<Rightarrow> observer \<Rightarrow> observer" where
  "messages_rule v ob =
     (let ob1 = (if jget v ''type'' = JStr ''message_stop'' then ob\<lparr>o_done := True\<rparr> else ob)
      in if jget v ''type'' = JStr ''message_delta''
         then ob1\<lparr>o_finish := stop_reason (jget (jget v ''delta'') ''stop_reason'')\<rparr> else ob1)"

definition responses_rule :: "js \<Rightarrow> observer \<Rightarrow> observer" where
  "responses_rule v ob =
     (let ty = jget v ''type''; r = jget v ''response''; st = jget r ''status'' in
      if \<not> is_one_of ty [''response.completed'', ''response.incomplete'', ''response.failed''] then ob
      else if \<not> truthy r \<or> \<not> is_one_of st [''completed'', ''incomplete'', ''failed''] then ob
      else
        let ob1 = ob\<lparr>o_done := True\<rparr>;
            ob2 = (if ty = JStr ''response.failed'' \<or> st = JStr ''failed'' \<or> truthy (jget r ''error'')
                   then ob1\<lparr>o_failed := True\<rparr>
                   else if ty = JStr ''response.completed'' \<and> st = JStr ''completed'' then ob1\<lparr>o_finish := Some ''stop''\<rparr>
                   else if is_one_of (jget (jget r ''incomplete_details'') ''reason'') [''max_tokens'', ''max_output_tokens'']
                   then ob1\<lparr>o_finish := Some ''length''\<rparr>
                   else ob1\<lparr>o_finish := None\<rparr>)
        in if truthy (jget r ''usage'') then
             ob2\<lparr>o_usage := Some \<lparr>us_prompt = count_number (jget (jget r ''usage'') ''input_tokens''),
               us_completion = count_number (jget (jget r ''usage'') ''output_tokens''),
               us_cached = count_number (jget (jget (jget r ''usage'') ''input_tokens_details'') ''cached_tokens'')\<rparr>\<rparr>
           else ob2)"

definition completions_rule :: "js \<Rightarrow> observer \<Rightarrow> observer" where
  "completions_rule v ob =
     (let u = jget v ''usage'';
          ob1 = (case event_reason v of
                   JStr s \<Rightarrow> if s \<in> set finish_reasons then ob\<lparr>o_finish := Some s\<rparr> else ob
                 | _ \<Rightarrow> ob)
      in if truthy u then
           ob1\<lparr>o_usage := Some \<lparr>us_prompt = count_number (jget u ''prompt_tokens''),
             us_completion = count_number (jget u ''completion_tokens''),
             us_cached = count_number (jget (jget u ''prompt_tokens_details'') ''cached_tokens'')\<rparr>\<rparr>
         else ob1)"

text \<open>One event's value, as the \<open>try\<close> block handles it; reading a property of \<open>null\<close> throws.\<close>

definition event_rule :: "(nat \<Rightarrow> rat) \<Rightarrow> js \<Rightarrow> observer \<Rightarrow> observer" where
  "event_rule clock v ob =
     (if v = JNull then ob\<lparr>o_ambiguous := True\<rparr>
      else
        let ob1 = progress_rule clock v (eof_rule v ob);
            ob2 = (if is_error_event v then ob1\<lparr>o_failed := True\<rparr> else ob1)
        in if o_route ob2 = ''/v1/messages'' then messages_rule v ob2
           else if o_route ob2 = ''/v1/responses'' then responses_rule v ob2
           else completions_rule v ob2)"

definition data_payload :: "string \<Rightarrow> string" where
  "data_payload l = trim (drop 5 (trim l))"

definition is_data :: "string \<Rightarrow> bool" where
  "is_data l \<longleftrightarrow> has_prefix ''data:'' (trim l)"

text \<open>\<open>line()\<close> in its parts: the event accounting before the payload, then the payload.\<close>

definition blank_rule :: "observer \<Rightarrow> observer" where
  "blank_rule ob =
     (if trim (o_pending ob) = [] then
        (if o_pending ob = [] \<or> o_pending ob = [CR] then ob\<lparr>o_data_lines := 0\<rparr>
         else ob\<lparr>o_ambiguous := True, o_data_lines := 0\<rparr>)
      else ob)"

definition data_line_rule :: "observer \<Rightarrow> observer" where
  "data_line_rule ob =
     ob\<lparr>o_data_lines := o_data_lines ob + 1,
        o_ambiguous := (o_ambiguous ob \<or> \<not> has_prefix ''data:'' (o_pending ob) \<or> o_data_lines ob + 1 > 1)\<rparr>"

definition observe_line :: "(string \<Rightarrow> js option) \<Rightarrow> (nat \<Rightarrow> rat) \<Rightarrow> observer \<Rightarrow> observer" where
  "observe_line parse clock ob =
     (let l = o_pending ob; ob1 = blank_rule ob in
      if \<not> is_data l then ob1
      else
        let ob2 = data_line_rule ob1 in
        if data_payload l = ''[DONE]'' then
          (if o_route ob2 \<in> set chat_routes then ob2\<lparr>o_done := True\<rparr> else ob2)
        else (case parse (data_payload l) of
                None \<Rightarrow> ob2\<lparr>o_ambiguous := True\<rparr>
              | Some v \<Rightarrow> event_rule clock v ob2))"

text \<open>The two halves of the loop over the parts of a piece.\<close>

definition line_limit :: nat where
  "line_limit = 1048576"

definition add_part :: "string \<Rightarrow> observer \<Rightarrow> observer" where
  "add_part part ob =
     (if o_skipping ob then ob
      else if length (o_pending ob) + length part > line_limit
      then ob\<lparr>o_pending := [], o_skipping := True, o_limited := True\<rparr>
      else ob\<lparr>o_pending := o_pending ob @ part\<rparr>)"

definition end_of_line :: "(string \<Rightarrow> js option) \<Rightarrow> (nat \<Rightarrow> rat) \<Rightarrow> observer \<Rightarrow> observer" where
  "end_of_line parse clock ob =
     (let ob1 = (if \<not> o_skipping ob
                 then (observe_line parse clock ob)\<lparr>o_boundary := (trim (o_pending ob) = [])\<rparr>
                 else ob\<lparr>o_boundary := False\<rparr>)
      in ob1\<lparr>o_pending := [], o_skipping := False\<rparr>)"

text \<open>\<open>accept\<close>, for one decoded piece; the flag beside the observer is \<open>afterCR\<close>.\<close>

definition accept_text ::
    "(string \<Rightarrow> js option) \<Rightarrow> (nat \<Rightarrow> rat) \<Rightarrow> string \<Rightarrow> bool \<times> observer \<Rightarrow> bool \<times> observer" where
  "accept_text parse clock text x =
     (if o_closed (snd x) then x else feed_text add_part (end_of_line parse clock) text x)"

datatype finish_verdict =
    EngineError
  | TerminalReasonUnobserved
  | TerminalWithoutFinishReason
  | TerminalSeen
  | ObservationLimited
  | PartialSseEvent
  | TerminalWithoutDone
  | CleanEofNoTerminal

text \<open>\<open>finishState\<close>: \<open>tail\<close> is what the decoder still held.\<close>

definition close_observer :: "string \<Rightarrow> observer \<Rightarrow> observer" where
  "close_observer tail ob =
     (if o_closed ob then ob
      else
        let ob1 = ob\<lparr>o_closed := True\<rparr>
        in if tail \<noteq> [] then add_part tail ob1 else ob1)"

definition finish_verdict_of :: "bool \<Rightarrow> observer \<Rightarrow> finish_verdict" where
  "finish_verdict_of clean_eof ob =
     (if o_failed ob then EngineError
      else if o_done ob then
        (if o_route ob \<in> set chat_routes \<and> o_finish ob = None
         then (if o_limited ob then TerminalReasonUnobserved else TerminalWithoutFinishReason)
         else TerminalSeen)
      else if o_limited ob then ObservationLimited
      else if o_skipping ob \<or> o_pending ob \<noteq> [] \<or> \<not> o_boundary ob then PartialSseEvent
      else if clean_eof \<and> o_single ob \<and> \<not> o_ambiguous ob then TerminalWithoutDone
      else CleanEofNoTerminal)"

definition finish_state :: "bool \<Rightarrow> string \<Rightarrow> observer \<Rightarrow> finish_verdict \<times> observer" where
  "finish_state clean_eof tail ob = (let ob1 = close_observer tail ob in (finish_verdict_of clean_eof ob1, ob1))"

section \<open>Framing\<close>

lemma eof_rule_fields [simp]:
  "o_route (eof_rule v ob) = o_route ob" "o_closed (eof_rule v ob) = o_closed ob"
  "o_failed (eof_rule v ob) = o_failed ob" "o_done (eof_rule v ob) = o_done ob"
  "o_limited (eof_rule v ob) = o_limited ob" "o_data_lines (eof_rule v ob) = o_data_lines ob"
  "o_pending (eof_rule v ob) = o_pending ob" "o_skipping (eof_rule v ob) = o_skipping ob"
  by (simp_all add: eof_rule_def)

lemma note_progress_fields [simp]:
  "o_route (note_progress clock n ch ob) = o_route ob" "o_closed (note_progress clock n ch ob) = o_closed ob"
  "o_failed (note_progress clock n ch ob) = o_failed ob" "o_done (note_progress clock n ch ob) = o_done ob"
  "o_limited (note_progress clock n ch ob) = o_limited ob" "o_single (note_progress clock n ch ob) = o_single ob"
  "o_ambiguous (note_progress clock n ch ob) = o_ambiguous ob"
  "o_pending (note_progress clock n ch ob) = o_pending ob" "o_skipping (note_progress clock n ch ob) = o_skipping ob"
  by (cases ch; simp add: note_progress_def Let_def)+

lemma text_progress_fields [simp]:
  "o_route (text_progress clock v ch ob) = o_route ob" "o_closed (text_progress clock v ch ob) = o_closed ob"
  "o_failed (text_progress clock v ch ob) = o_failed ob" "o_done (text_progress clock v ch ob) = o_done ob"
  "o_limited (text_progress clock v ch ob) = o_limited ob" "o_single (text_progress clock v ch ob) = o_single ob"
  "o_ambiguous (text_progress clock v ch ob) = o_ambiguous ob"
  "o_pending (text_progress clock v ch ob) = o_pending ob" "o_skipping (text_progress clock v ch ob) = o_skipping ob"
  by (cases v; simp add: text_progress_def)+

lemma progress_rule_fields [simp]:
  "o_route (progress_rule clock v ob) = o_route ob" "o_closed (progress_rule clock v ob) = o_closed ob"
  "o_failed (progress_rule clock v ob) = o_failed ob" "o_done (progress_rule clock v ob) = o_done ob"
  "o_limited (progress_rule clock v ob) = o_limited ob" "o_single (progress_rule clock v ob) = o_single ob"
  "o_ambiguous (progress_rule clock v ob) = o_ambiguous ob"
  "o_pending (progress_rule clock v ob) = o_pending ob" "o_skipping (progress_rule clock v ob) = o_skipping ob"
  by (simp_all add: progress_rule_def Let_def)

lemma route_rules_fields [simp]:
  "o_route (messages_rule v ob) = o_route ob" "o_closed (messages_rule v ob) = o_closed ob"
  "o_limited (messages_rule v ob) = o_limited ob" "o_single (messages_rule v ob) = o_single ob"
  "o_route (responses_rule v ob) = o_route ob" "o_closed (responses_rule v ob) = o_closed ob"
  "o_limited (responses_rule v ob) = o_limited ob" "o_single (responses_rule v ob) = o_single ob"
  "o_route (completions_rule v ob) = o_route ob" "o_closed (completions_rule v ob) = o_closed ob"
  "o_limited (completions_rule v ob) = o_limited ob" "o_single (completions_rule v ob) = o_single ob"
  "o_ambiguous (completions_rule v ob) = o_ambiguous ob" "o_done (completions_rule v ob) = o_done ob"
  "o_failed (completions_rule v ob) = o_failed ob"
  by (simp_all add: messages_rule_def responses_rule_def completions_rule_def Let_def split: js.split)

lemma event_rule_fields [simp]:
  "o_route (event_rule clock v ob) = o_route ob" "o_closed (event_rule clock v ob) = o_closed ob"
  "o_limited (event_rule clock v ob) = o_limited ob"
  by (simp_all add: event_rule_def Let_def)

lemma observe_line_fields [simp]:
  "o_route (observe_line parse clock ob) = o_route ob" "o_closed (observe_line parse clock ob) = o_closed ob"
  "o_limited (observe_line parse clock ob) = o_limited ob"
  by (simp_all add: observe_line_def Let_def blank_rule_def data_line_rule_def split: option.split)

lemma line_rules_fields [simp]:
  "o_route (add_part t ob) = o_route ob" "o_closed (add_part t ob) = o_closed ob"
  "o_route (end_of_line parse clock ob) = o_route ob" "o_closed (end_of_line parse clock ob) = o_closed ob"
  "o_limited (end_of_line parse clock ob) = o_limited ob"
  by (simp_all add: add_part_def end_of_line_def Let_def)

definition line_bounded :: "observer \<Rightarrow> bool" where
  "line_bounded ob \<longleftrightarrow> length (o_pending ob) \<le> line_limit"

text \<open>The observer is a client of the framing: its pending line stays within the limit.\<close>

interpretation usage_lines: line_machine add_part "end_of_line parse clock" line_bounded for parse clock
proof unfold_locales
  show "line_bounded ob \<Longrightarrow> line_bounded (add_part t ob)" for ob t
    by (simp add: line_bounded_def add_part_def)
  show "line_bounded ob \<Longrightarrow> line_bounded (end_of_line parse clock ob)" for ob parse clock
    by (simp add: line_bounded_def end_of_line_def)
  show "line_bounded ob \<Longrightarrow> add_part [] ob = ob" for ob
    by (simp add: line_bounded_def add_part_def)
  show "add_part t (add_part u ob) = add_part (u @ t) ob" for t u ob
    by (simp add: add_part_def)
qed

lemma new_observer_bounded [simp]: "line_bounded (new_observer route)"
  by (simp add: line_bounded_def new_observer_def)

lemma feed_char_closed [simp]:
  "o_closed (snd (feed_char add_part (end_of_line parse clock) c x)) = o_closed (snd x)"
  by (simp add: feed_char_def)

lemma feed_chars_closed [simp]:
  "o_closed (snd (fold (feed_char add_part (end_of_line parse clock)) t x)) = o_closed (snd x)"
  by (induction t arbitrary: x) simp_all

lemma feed_text_closed:
  "line_bounded (snd x) \<Longrightarrow> o_closed (snd (feed_text add_part (end_of_line parse clock) t x)) = o_closed (snd x)"
  by (simp add: usage_lines.feed_text_chars)

lemma accept_texts:
  "line_bounded (snd x) \<Longrightarrow> \<not> o_closed (snd x) \<Longrightarrow>
   fold (accept_text parse clock) ts x = fold (feed_text add_part (end_of_line parse clock)) ts x"
proof (induction ts arbitrary: x)
  case (Cons t ts)
  have "line_bounded (snd (feed_text add_part (end_of_line parse clock) t x))"
    using Cons.prems by (simp add: usage_lines.feed_text_chars usage_lines.feed_chars_ok)
  then show ?case using Cons by (simp add: accept_text_def feed_text_closed)
qed simp

lemma new_observer_open [simp]: "\<not> o_closed (new_observer route)"
  by (simp add: new_observer_def)

lemma accepted_text:
  "fold (accept_text parse clock) ts (False, new_observer route) =
   feed_text add_part (end_of_line parse clock) (concat ts) (False, new_observer route)"
  by (simp add: accept_texts usage_lines.feed_text_concat)

section \<open>The end of a stream\<close>

text \<open>What a bare end of stream must have shown to count as the end of a turn.\<close>

definition quiet_event :: "js \<Rightarrow> bool" where
  "quiet_event v \<longleftrightarrow> \<not> is_error_event v \<and> (usage_only v \<or> one_choice v \<and> nullish (event_reason v))"

definition finish_event :: "js \<Rightarrow> bool" where
  "finish_event v \<longleftrightarrow> \<not> is_error_event v \<and> one_choice v \<and> is_one_of (event_reason v) finish_reasons"

definition trailing_event :: "js \<Rightarrow> bool" where
  "trailing_event v \<longleftrightarrow> \<not> is_error_event v \<and> usage_only v"

fun finished_turn :: "js list \<Rightarrow> bool" where
  "finished_turn [] = False"
| "finished_turn (v # vs) = (if finish_event v then list_all trailing_event vs else quiet_event v \<and> finished_turn vs)"

definition payloads :: "string list \<Rightarrow> string list" where
  "payloads ls = map data_payload (filter is_data ls)"

lemma usage_only_not_one: "usage_only v \<Longrightarrow> \<not> one_choice v"
  by (simp add: usage_only_def one_choice_def)

lemma finished_turn_finish: "list_all quiet_event evs \<Longrightarrow> finish_event v \<Longrightarrow> finished_turn (evs @ [v])"
proof (induction evs)
  case (Cons e evs)
  have "\<not> (finish_event e \<and> quiet_event e)"
    by (cases "event_reason e") (auto simp: finish_event_def quiet_event_def dest: usage_only_not_one)
  then show ?case using Cons by auto
qed simp

lemma finished_turn_trail: "finished_turn evs \<Longrightarrow> trailing_event v \<Longrightarrow> finished_turn (evs @ [v])"
  by (induction evs) auto

lemma quiet_not_finish: "usage_only v \<or> one_choice v \<and> nullish (event_reason v) \<Longrightarrow> \<not> finish_event v"
  by (cases "event_reason v") (auto simp: finish_event_def dest: usage_only_not_one)

lemma eof_rule_clean:
  assumes "o_route ob \<in> set chat_routes" and "\<not> o_ambiguous (eof_rule v ob)" and "\<not> is_error_event v"
  shows "\<not> o_ambiguous ob" and "o_single (eof_rule v ob) = (o_single ob \<or> finish_event v)"
    and "if o_single ob then trailing_event v else quiet_event v \<or> finish_event v"
  using assms usage_only_not_one [of v] quiet_not_finish [of v]
  by (auto simp: eof_rule_def trailing_event_def quiet_event_def finish_event_def split: if_splits)

lemma event_rule_clean:
  assumes "o_route ob \<in> set chat_routes"
    and "\<not> o_ambiguous (event_rule clock v ob)" "\<not> o_failed (event_rule clock v ob)" "\<not> o_done (event_rule clock v ob)"
  shows "v \<noteq> JNull" "\<not> is_error_event v" "\<not> o_failed ob" "\<not> o_done ob" "\<not> o_ambiguous (eof_rule v ob)"
    "o_single (event_rule clock v ob) = o_single (eof_rule v ob)"
proof -
  have r: "o_route ob \<noteq> ''/v1/messages''" "o_route ob \<noteq> ''/v1/responses''"
    using assms(1) by (auto simp: chat_routes_def)
  show n: "v \<noteq> JNull" using assms(2) by (auto simp: event_rule_def)
  show e: "\<not> is_error_event v" using assms(3) n r by (auto simp: event_rule_def Let_def)
  have ev: "event_rule clock v ob = completions_rule v (progress_rule clock v (eof_rule v ob))"
    using n e r by (simp add: event_rule_def Let_def)
  show "\<not> o_failed ob" "\<not> o_done ob" "\<not> o_ambiguous (eof_rule v ob)"
    "o_single (event_rule clock v ob) = o_single (eof_rule v ob)"
    using assms(2-4) unfolding ev by simp_all
qed

lemma observe_line_clean:
  assumes "o_route ob \<in> set chat_routes" and "ob' = observe_line parse clock ob"
    and "\<not> o_ambiguous ob'" "\<not> o_failed ob'" "\<not> o_done ob'"
  shows "\<not> o_ambiguous ob \<and> \<not> o_failed ob \<and> \<not> o_done ob \<and>
    (if is_data (o_pending ob) then
       \<exists>v. parse (data_payload (o_pending ob)) = Some v \<and> o_single ob' = (o_single ob \<or> finish_event v) \<and>
           (if o_single ob then trailing_event v else quiet_event v \<or> finish_event v)
     else o_single ob' = o_single ob)"
proof -
  have b: "o_failed (blank_rule ob) = o_failed ob" "o_done (blank_rule ob) = o_done ob"
    "o_single (blank_rule ob) = o_single ob" "o_route (blank_rule ob) = o_route ob"
    "\<not> o_ambiguous (blank_rule ob) \<Longrightarrow> \<not> o_ambiguous ob"
    by (simp_all add: blank_rule_def split: if_splits)
  show ?thesis
  proof (cases "is_data (o_pending ob)")
    case False
    then show ?thesis using assms b by (simp add: observe_line_def Let_def)
  next
    case True
    let ?ob2 = "data_line_rule (blank_rule ob)"
    have d: "o_failed ?ob2 = o_failed ob" "o_done ?ob2 = o_done ob" "o_single ?ob2 = o_single ob"
      "o_route ?ob2 = o_route ob" "\<not> o_ambiguous ?ob2 \<Longrightarrow> \<not> o_ambiguous ob"
      using b by (simp_all add: data_line_rule_def)
    have nd: "data_payload (o_pending ob) \<noteq> ''[DONE]''"
    proof
      assume "data_payload (o_pending ob) = ''[DONE]''"
      then have "o_done ob'" using assms(1,2) True d(4) by (simp add: observe_line_def Let_def)
      then show False using assms(5) by simp
    qed
    obtain v where v: "parse (data_payload (o_pending ob)) = Some v"
      using assms True nd by (cases "parse (data_payload (o_pending ob))") (auto simp: observe_line_def Let_def)
    have ob': "ob' = event_rule clock v ?ob2"
      using assms(2) True nd v by (simp add: observe_line_def Let_def)
    have rt: "o_route ?ob2 \<in> set chat_routes" using assms(1) d(4) by simp
    note e = event_rule_clean [OF rt assms(3-5) [unfolded ob']]
    note f = eof_rule_clean [OF rt e(5,2)]
    show ?thesis using True v e f d ob' by simp
  qed
qed

definition no_turn_end :: "observer \<Rightarrow> bool" where
  "no_turn_end ob \<longleftrightarrow> o_limited ob \<or> o_ambiguous ob \<or> o_failed ob \<or> o_done ob"

lemma end_of_line_same [simp]:
  "\<not> o_skipping ob \<Longrightarrow> o_ambiguous (end_of_line parse clock ob) = o_ambiguous (observe_line parse clock ob)"
  "\<not> o_skipping ob \<Longrightarrow> o_failed (end_of_line parse clock ob) = o_failed (observe_line parse clock ob)"
  "\<not> o_skipping ob \<Longrightarrow> o_done (end_of_line parse clock ob) = o_done (observe_line parse clock ob)"
  "\<not> o_skipping ob \<Longrightarrow> o_single (end_of_line parse clock ob) = o_single (observe_line parse clock ob)"
  "\<not> o_skipping (end_of_line parse clock ob)" "o_pending (end_of_line parse clock ob) = []"
  by (simp_all add: end_of_line_def Let_def)

abbreviation after_lines :: "(string \<Rightarrow> js option) \<Rightarrow> (nat \<Rightarrow> rat) \<Rightarrow> string list \<Rightarrow> observer \<Rightarrow> observer" where
  "after_lines parse clock ls ob \<equiv> fold (\<lambda>l s. end_of_line parse clock (add_part l s)) ls ob"

lemma after_lines_events:
  assumes route: "route \<in> set chat_routes"
  shows "o_route (after_lines parse clock ls (new_observer route)) = route \<and>
    \<not> o_skipping (after_lines parse clock ls (new_observer route)) \<and>
    o_pending (after_lines parse clock ls (new_observer route)) = [] \<and>
    (\<not> no_turn_end (after_lines parse clock ls (new_observer route)) \<longrightarrow>
     (\<exists>evs. map parse (payloads ls) = map Some evs \<and>
        (if o_single (after_lines parse clock ls (new_observer route)) then finished_turn evs
         else list_all quiet_event evs)))"
proof (induction ls rule: rev_induct)
  case Nil
  show ?case by (simp add: new_observer_def payloads_def)
next
  case (snoc l ls)
  define ob where "ob = after_lines parse clock ls (new_observer route)"
  define ob1 where "ob1 = add_part l ob"
  have IH: "o_route ob = route" "\<not> o_skipping ob" "o_pending ob = []"
    "\<not> no_turn_end ob \<Longrightarrow> \<exists>evs. map parse (payloads ls) = map Some evs \<and>
        (if o_single ob then finished_turn evs else list_all quiet_event evs)"
    using snoc by (auto simp: ob_def)
  have next_ob: "after_lines parse clock (ls @ [l]) (new_observer route) = end_of_line parse clock ob1"
    by (simp add: ob_def ob1_def)
  have "\<exists>evs. map parse (payloads (ls @ [l])) = map Some evs \<and>
      (if o_single (end_of_line parse clock ob1) then finished_turn evs else list_all quiet_event evs)"
    if ok: "\<not> no_turn_end (end_of_line parse clock ob1)"
  proof -
    have nl: "\<not> o_limited ob1" using ok by (simp add: no_turn_end_def)
    have fits: "\<not> line_limit < length l"
      using nl IH(2,3) unfolding ob1_def add_part_def by (cases "line_limit < length l") simp_all
    have ob1: "ob1 = ob\<lparr>o_pending := l\<rparr>" and sk: "\<not> o_skipping ob1"
      using fits by (simp_all add: ob1_def add_part_def IH(2,3))
    have pl: "o_pending ob1 = l" "o_route ob1 = route" using ob1 IH(1) by simp_all
    have step: "\<not> o_ambiguous ob1 \<and> \<not> o_failed ob1 \<and> \<not> o_done ob1 \<and>
      (if is_data l then \<exists>v. parse (data_payload l) = Some v \<and>
           o_single (end_of_line parse clock ob1) = (o_single ob1 \<or> finish_event v) \<and>
           (if o_single ob1 then trailing_event v else quiet_event v \<or> finish_event v)
       else o_single (end_of_line parse clock ob1) = o_single ob1)"
    proof -
      have nt: "\<not> o_ambiguous (observe_line parse clock ob1)" "\<not> o_failed (observe_line parse clock ob1)"
        "\<not> o_done (observe_line parse clock ob1)"
        using ok sk by (simp_all add: no_turn_end_def)
      have rt: "o_route ob1 \<in> set chat_routes" using pl(2) route by simp
      have e: "o_single (end_of_line parse clock ob1) = o_single (observe_line parse clock ob1)" using sk by simp
      show ?thesis
        using observe_line_clean [OF rt refl nt] unfolding pl(1) e .
    qed
    then have "\<not> no_turn_end ob" using ob1 nl by (simp add: no_turn_end_def)
    then obtain evs where evs: "map parse (payloads ls) = map Some evs"
      "if o_single ob then finished_turn evs else list_all quiet_event evs"
      using IH(4) by blast
    have so: "o_single ob1 = o_single ob" using ob1 by simp
    show ?thesis
    proof (cases "is_data l")
      case False
      then show ?thesis using step evs so by (auto simp: payloads_def)
    next
      case True
      then obtain v where v: "parse (data_payload l) = Some v"
        "o_single (end_of_line parse clock ob1) = (o_single ob \<or> finish_event v)"
        "if o_single ob then trailing_event v else quiet_event v \<or> finish_event v"
        using step so by auto
      have "map parse (payloads (ls @ [l])) = map Some (evs @ [v])"
        using evs(1) v(1) True by (simp add: payloads_def)
      moreover have "if o_single (end_of_line parse clock ob1) then finished_turn (evs @ [v])
          else list_all quiet_event (evs @ [v])"
        using v(2,3) evs(2) finished_turn_trail finished_turn_finish by (auto split: if_splits)
      ultimately show ?thesis by blast
    qed
  qed
  then show ?case unfolding next_ob using IH(1) by (simp add: ob1_def)
qed

lemma after_lines_single:
  "route \<notin> set chat_routes \<Longrightarrow>
   o_route (after_lines parse clock ls (new_observer route)) = route \<and>
   \<not> o_single (after_lines parse clock ls (new_observer route))"
proof (induction ls rule: rev_induct)
  case Nil
  show ?case by (simp add: new_observer_def)
next
  case (snoc l ls)
  have ap: "o_single (add_part l ob) = o_single ob" for ob by (simp add: add_part_def)
  have "o_single (observe_line parse clock ob) = o_single ob" if "o_route ob = route" for ob
    using that snoc.prems
    by (simp add: observe_line_def Let_def blank_rule_def data_line_rule_def event_rule_def eof_rule_def split: option.split)
  then have "o_single (end_of_line parse clock ob) = o_single ob" if "o_route ob = route" for ob
    using that by (simp add: end_of_line_def Let_def)
  then show ?case using snoc ap by simp
qed

lemma after_lines_open [simp]: "o_closed (after_lines parse clock ls ob) = o_closed ob"
  by (induction ls arbitrary: ob) simp_all

lemma observed_lines:
  "snd (fold (accept_text parse clock) ts (False, new_observer route)) =
   add_part (open_line (concat ts)) (after_lines parse clock (ended_lines (concat ts)) (new_observer route))"
  unfolding accepted_text by (rule usage_lines.feed_text_lines) simp

section \<open>Properties\<close>

text \<open>C12: the observation of a streamed answer does not depend on how the bytes were cut into
  pieces: any sequence of pieces leaves the observer that the whole text leaves.\<close>

theorem observation_ignores_pieces:
  "fold (accept_text parse clock) ts (False, new_observer route) =
   accept_text parse clock (concat ts) (False, new_observer route)"
  by (simp add: accepted_text accept_text_def)

text \<open>A stream that ends without its terminal marker counts as a finished turn only when every
  event it carried parsed, exactly one of them finished its only choice, nothing but quiet events of
  that choice came before and nothing but usage came after, and no error and no partial line was seen.\<close>

theorem bare_end_is_a_finished_turn:
  assumes "finish_verdict_of clean_eof (close_observer tail
      (snd (fold (accept_text parse clock) ts (False, new_observer route)))) = TerminalWithoutDone"
  shows "route \<in> set chat_routes \<and> tail = [] \<and> open_line (concat ts) = [] \<and>
    (\<exists>evs. map parse (payloads (ended_lines (concat ts))) = map Some evs \<and> finished_turn evs)"
proof -
  define ob where "ob = after_lines parse clock (ended_lines (concat ts)) (new_observer route)"
  define fin where "fin = close_observer tail (add_part (open_line (concat ts)) ob)"
  have v: "finish_verdict_of clean_eof fin = TerminalWithoutDone"
    using assms by (simp add: observed_lines fin_def ob_def)
  then have f: "\<not> o_failed fin" "\<not> o_done fin" "\<not> o_limited fin" "\<not> o_skipping fin" "o_pending fin = []"
    "o_single fin" "\<not> o_ambiguous fin"
    by (auto simp: finish_verdict_of_def split: if_splits)
  have same: "o_failed fin = o_failed ob" "o_done fin = o_done ob" "o_single fin = o_single ob"
    "o_ambiguous fin = o_ambiguous ob"
    by (simp_all add: fin_def close_observer_def add_part_def Let_def)
  have route: "route \<in> set chat_routes"
    using after_lines_single [of route parse clock "ended_lines (concat ts)"] f(6) same(3) by (auto simp: ob_def)
  note ev = after_lines_events [OF route, of parse clock "ended_lines (concat ts)", folded ob_def]
  have opn: "\<not> o_closed ob" by (simp add: ob_def)
  have rest: "\<not> o_limited ob" "open_line (concat ts) = []" "tail = []"
    using f(3-5) ev opn by (auto simp: fin_def close_observer_def add_part_def Let_def split: if_splits)
  have "\<not> no_turn_end ob" using f same rest(1) by (simp add: no_turn_end_def)
  then show ?thesis using ev f(6) same(3) rest route by auto
qed

definition finish_json :: js where
  "finish_json = JObj [(''choices'', JArr [JObj [(''index'', JNum 0), (''finish_reason'', JStr ''stop'')]])]"

definition finish_text :: string where
  "finish_text = ''data: {}'' @ [LF, LF]"

lemma finish_text_lines: "ended_lines finish_text = [''data: {}'', []]" "open_line finish_text = []"
  by code_simp+

lemma demo_line: "is_data ''data: {}''" "data_payload ''data: {}'' = ''{}''" "has_prefix ''data:'' ''data: {}''"
  "trim ''data: {}'' \<noteq> []" "\<not> is_data []" "trim [] = []"
  by code_simp+

lemma demo_event: "\<not> usage_only finish_json" "one_choice finish_json" "is_one_of (event_reason finish_json) finish_reasons"
  "event_reason finish_json = JStr ''stop''" "\<not> is_error_event finish_json" "finish_json \<noteq> JNull"
  "\<not> truthy (jget (first_choice finish_json) ''delta'')" "jget finish_json ''type'' = JUndef"
  "\<not> truthy (jget finish_json ''usage'')" "''stop'' \<in> set finish_reasons"
  by (simp_all add: usage_only_def finish_json_def one_choice_def event_reason_def first_choice_def finish_reasons_def
      is_error_event_def)

theorem bare_end_is_a_finished_turn_witness:
  "\<exists>evs. map (\<lambda>_. Some finish_json) (payloads (ended_lines (concat [finish_text]))) = map Some evs \<and> finished_turn evs"
proof -
  let ?parse = "\<lambda>_::string. Some finish_json"
  have "finish_verdict_of True (close_observer [] (snd (fold (accept_text ?parse (\<lambda>_. 0)) [finish_text]
      (False, new_observer ''/v1/completions'')))) = TerminalWithoutDone"
    unfolding observed_lines
    by (simp add: finish_text_lines new_observer_def add_part_def line_limit_def end_of_line_def Let_def
        observe_line_def blank_rule_def data_line_rule_def demo_line demo_event event_rule_def eof_rule_def
        progress_rule_def chat_routes_def completions_rule_def close_observer_def finish_verdict_of_def response_deltas_def)
  from bare_end_is_a_finished_turn [OF this] show ?thesis by blast
qed

definition counted :: "observer \<Rightarrow> bool" where
  "counted ob \<longleftrightarrow> o_semantic ob = o_thinking ob + o_answer ob + o_tool ob \<and>
     (o_first_at ob \<noteq> None \<longleftrightarrow> o_semantic ob > 0) \<and> (o_last_at ob \<noteq> None \<longleftrightarrow> o_semantic ob > 0)"

lemma counted_cong:
  "o_semantic ob' = o_semantic ob \<Longrightarrow> o_thinking ob' = o_thinking ob \<Longrightarrow> o_answer ob' = o_answer ob \<Longrightarrow>
   o_tool ob' = o_tool ob \<Longrightarrow> o_first_at ob' = o_first_at ob \<Longrightarrow> o_last_at ob' = o_last_at ob \<Longrightarrow>
   counted ob \<Longrightarrow> counted ob'"
  by (simp add: counted_def)

lemma note_progress_counted: "counted ob \<Longrightarrow> counted (note_progress clock n ch ob)"
  by (cases ch; simp add: note_progress_def Let_def counted_def split: option.split)

lemma text_progress_counted: "counted ob \<Longrightarrow> counted (text_progress clock v ch ob)"
  by (cases v) (simp_all add: text_progress_def note_progress_counted)

lemma eof_rule_counted: "counted ob \<Longrightarrow> counted (eof_rule v ob)"
  by (erule counted_cong [rotated -1]) (simp_all add: eof_rule_def)

lemma progress_rule_counted: "counted ob \<Longrightarrow> counted (progress_rule clock v ob)"
proof -
  assume c: "counted ob"
  have "counted (ob\<lparr>o_output := x, o_complete := y\<rparr>)" for x y
    by (rule counted_cong [OF _ _ _ _ _ _ c]) simp_all
  then show ?thesis
    using c by (simp add: progress_rule_def Let_def note_progress_counted text_progress_counted)
qed

lemma messages_rule_counted: "counted ob \<Longrightarrow> counted (messages_rule v ob)"
  by (erule counted_cong [rotated -1]) (simp_all add: messages_rule_def Let_def)

lemma responses_rule_counted: "counted ob \<Longrightarrow> counted (responses_rule v ob)"
  by (erule counted_cong [rotated -1]) (simp_all add: responses_rule_def Let_def)

lemma completions_rule_counted: "counted ob \<Longrightarrow> counted (completions_rule v ob)"
  by (erule counted_cong [rotated -1]) (simp_all add: completions_rule_def Let_def split: js.split)

lemma event_rule_counted: "counted ob \<Longrightarrow> counted (event_rule clock v ob)"
proof -
  assume c: "counted ob"
  have "counted (ob\<lparr>o_ambiguous := True\<rparr>)" by (rule counted_cong [OF _ _ _ _ _ _ c]) simp_all
  moreover have "counted (x\<lparr>o_failed := True\<rparr>)" if "counted x" for x
    by (rule counted_cong [OF _ _ _ _ _ _ that]) simp_all
  ultimately show ?thesis
    using progress_rule_counted [OF eof_rule_counted [OF c], of clock v v]
    by (simp add: event_rule_def Let_def messages_rule_counted responses_rule_counted completions_rule_counted)
qed

lemma observe_line_counted: "counted ob \<Longrightarrow> counted (observe_line parse clock ob)"
proof -
  assume c: "counted ob"
  have "counted (blank_rule ob)"
    by (rule counted_cong [OF _ _ _ _ _ _ c]) (simp_all add: blank_rule_def)
  moreover from this have "counted (data_line_rule (blank_rule ob))"
    by (rule counted_cong [rotated -1]) (simp_all add: data_line_rule_def)
  moreover have "counted (x\<lparr>o_done := True\<rparr>)" "counted (x\<lparr>o_ambiguous := True\<rparr>)" if "counted x" for x
    by (rule counted_cong [OF _ _ _ _ _ _ that]; simp)+
  ultimately show ?thesis
    by (simp add: observe_line_def Let_def event_rule_counted split: option.split)
qed

lemma line_rules_counted:
  "counted ob \<Longrightarrow> counted (add_part t ob)"
  "counted ob \<Longrightarrow> counted (end_of_line parse clock ob)"
proof -
  assume c: "counted ob"
  show "counted (add_part t ob)"
    by (rule counted_cong [OF _ _ _ _ _ _ c]) (simp_all add: add_part_def)
  show "counted (end_of_line parse clock ob)"
  proof (cases "o_skipping ob")
    case True
    then show ?thesis by (intro counted_cong [OF _ _ _ _ _ _ c]) (simp_all add: end_of_line_def)
  next
    case False
    then show ?thesis
      by (intro counted_cong [OF _ _ _ _ _ _ observe_line_counted [OF c, of parse clock]])
        (simp_all add: end_of_line_def)
  qed
qed

lemma after_lines_counted: "counted ob \<Longrightarrow> counted (after_lines parse clock ls ob)"
  by (induction ls arbitrary: ob) (simp_all add: line_rules_counted)

text \<open>Whatever was streamed, the characters counted by kind add up to the total, the times of
  the first and last counted text are known exactly when something was counted, and the unfinished
  line that is kept stays within its bound.\<close>

lemma observation_accounts:
  "let ob = snd (fold (accept_text parse clock) ts (False, new_observer route)) in
   o_semantic ob = o_thinking ob + o_answer ob + o_tool ob \<and>
   (o_first_at ob \<noteq> None \<longleftrightarrow> o_semantic ob > 0) \<and> (o_last_at ob \<noteq> None \<longleftrightarrow> o_semantic ob > 0) \<and>
   length (o_pending ob) \<le> 1048576"
proof -
  let ?ob = "snd (fold (accept_text parse clock) ts (False, new_observer route))"
  have "counted ?ob"
    unfolding observed_lines
    by (intro line_rules_counted after_lines_counted) (simp add: counted_def new_observer_def)
  moreover have "line_bounded ?ob"
    unfolding accepted_text by (simp add: usage_lines.feed_text_chars usage_lines.feed_chars_ok)
  ultimately show ?thesis by (simp add: counted_def line_bounded_def line_limit_def Let_def)
qed

end
