(* ===== verification/Fault_Evidence.thy ===== *)
theory Fault_Evidence
  imports Stream_Lines
begin

text \<open>
  \<open>ds4-gateway/generation-health.mjs\<close>: the observer that looks for accelerator faults in the error
  envelopes of an answer, and the allowlist of a shown quarantine. \<open>JSON.parse\<close> and \<open>Date.parse\<close>
  are parameters; the observer is fed the text its \<open>StringDecoder\<close> returned for each piece. The
  recovery probe \<open>verifyGeneration\<close> is network traffic and is not modelled.
\<close>

section \<open>Shown quarantines\<close>

datatype fault = FatalAccelerator | CheckpointFailure

definition quarantine_reasons :: "string list" where
  "quarantine_reasons = [''fatal_accelerator_error'', ''accelerator_checkpoint_failure'', ''repeated_inference_failures'']"

record shown_quarantine =
  q_reason :: string
  q_at :: "string option"
  q_request :: "string option"

definition request_text :: "string \<Rightarrow> bool" where
  "request_text s \<longleftrightarrow> length s = 36 \<and> list_all (\<lambda>c. lower_hex c \<or> c = CHR ''-'') s"

definition safe_quarantine :: "(string \<Rightarrow> rat option) \<Rightarrow> js \<Rightarrow> shown_quarantine option" where
  "safe_quarantine date raw =
     (case (truthy raw, jget raw ''reason'') of
        (True, JStr r) \<Rightarrow>
          if r \<in> set quarantine_reasons then
            Some \<lparr>q_reason = r,
                  q_at = (case jget raw ''at'' of JStr t \<Rightarrow> if date t \<noteq> None then Some t else None | _ \<Rightarrow> None),
                  q_request = (case jget raw ''request_id'' of JStr i \<Rightarrow> if request_text i then Some i else None | _ \<Rightarrow> None)\<rparr>
          else None
      | _ \<Rightarrow> None)"

section \<open>The observer\<close>

record fault_observer =
  fo_sse :: bool
  fo_pending :: string
  fo_overflow :: bool
  fo_fault :: "fault option"

definition new_fault_observer :: "bool \<Rightarrow> fault_observer" where
  "new_fault_observer sse = \<lparr>fo_sse = sse, fo_pending = [], fo_overflow = False, fo_fault = None\<rparr>"

text \<open>The message of an error envelope: \<open>error.message\<close>, a failed response's, or a typed error's.\<close>

definition envelope_message :: "js \<Rightarrow> js" where
  "envelope_message v =
     or_else (or_else (jget (jget v ''error'') ''message'')
       (if jget v ''type'' = JStr ''response.failed'' \<and> jget (jget v ''response'') ''status'' = JStr ''failed''
        then jget (jget (jget v ''response'') ''error'') ''message'' else JNull))
       (if jget v ''type'' \<in> {JStr ''invalid_request_error'', JStr ''server_error'', JStr ''api_error''}
        then jget v ''message'' else JNull)"

definition checkpoint_phrases :: "string list" where
  "checkpoint_phrases =
     [d @ p. d \<leftarrow> [''cuda '', ''metal ''],
             p \<leftarrow> [''prefill state reset failed'', ''resumed prefill failed while extending checkpoint'',
                  ''decode failed while extending checkpoint'']]"

definition message_fault :: "string \<Rightarrow> fault option" where
  "message_fault m =
     (let t = lower_text m in
      if occurs_in ''illegal memory access'' t \<or> occurs_in ''device-side assert'' t then Some FatalAccelerator
      else if list_ex (\<lambda>p. has_prefix p t) checkpoint_phrases then Some CheckpointFailure
      else None)"

definition text_fault :: "(string \<Rightarrow> js option) \<Rightarrow> string \<Rightarrow> fault option" where
  "text_fault parse t =
     (case parse t of
        None \<Rightarrow> None
      | Some v \<Rightarrow> (case envelope_message v of JStr m \<Rightarrow> message_fault m | _ \<Rightarrow> None))"

definition inspect_text :: "(string \<Rightarrow> js option) \<Rightarrow> string \<Rightarrow> fault_observer \<Rightarrow> fault_observer" where
  "inspect_text parse t ob =
     (case text_fault parse t of None \<Rightarrow> ob | Some f \<Rightarrow> ob\<lparr>fo_fault := Some f\<rparr>)"

definition fault_line :: "(string \<Rightarrow> js option) \<Rightarrow> fault_observer \<Rightarrow> fault_observer" where
  "fault_line parse ob =
     (if \<not> fo_overflow ob \<and> has_prefix ''data:'' (fo_pending ob)
      then inspect_text parse (trim (drop 5 (fo_pending ob))) ob else ob)"

definition capture_limit :: nat where
  "capture_limit = 65536"

definition fault_add :: "string \<Rightarrow> fault_observer \<Rightarrow> fault_observer" where
  "fault_add part ob =
     (if fo_overflow ob then ob
      else if length (fo_pending ob @ part) > capture_limit then ob\<lparr>fo_pending := [], fo_overflow := True\<rparr>
      else ob\<lparr>fo_pending := fo_pending ob @ part\<rparr>)"

definition fault_end :: "(string \<Rightarrow> js option) \<Rightarrow> fault_observer \<Rightarrow> fault_observer" where
  "fault_end parse ob = (fault_line parse ob)\<lparr>fo_pending := [], fo_overflow := False\<rparr>"

definition accept_fault :: "(string \<Rightarrow> js option) \<Rightarrow> string \<Rightarrow> bool \<times> fault_observer \<Rightarrow> bool \<times> fault_observer" where
  "accept_fault parse text x =
     (if \<not> fo_sse (snd x) then (fst x, fault_add text (snd x))
      else feed_text fault_add (fault_end parse) text x)"

definition finish_fault :: "(string \<Rightarrow> js option) \<Rightarrow> fault_observer \<Rightarrow> fault option" where
  "finish_fault parse ob =
     fo_fault (if fo_sse ob then fault_line parse ob
               else if \<not> fo_overflow ob then inspect_text parse (fo_pending ob) ob else ob)"

section \<open>What is observed\<close>

definition fault_bounded :: "fault_observer \<Rightarrow> bool" where
  "fault_bounded ob \<longleftrightarrow> length (fo_pending ob) \<le> capture_limit"

interpretation fault_lines: line_machine fault_add "fault_end parse" fault_bounded for parse
proof unfold_locales
  show "fault_bounded ob \<Longrightarrow> fault_bounded (fault_add t ob)" for ob t
    by (simp add: fault_bounded_def fault_add_def)
  show "fault_bounded ob \<Longrightarrow> fault_bounded (fault_end parse ob)" for ob parse
    by (simp add: fault_bounded_def fault_end_def)
  show "fault_bounded ob \<Longrightarrow> fault_add [] ob = ob" for ob
    by (simp add: fault_bounded_def fault_add_def)
  show "fault_add t (fault_add u ob) = fault_add (u @ t) ob" for t u ob
    by (simp add: fault_add_def)
qed

lemma fault_rules_sse [simp]:
  "fo_sse (fault_add t ob) = fo_sse ob" "fo_sse (fault_end parse ob) = fo_sse ob" "fo_sse (fault_line parse ob) = fo_sse ob"
  by (simp_all add: fault_add_def fault_end_def fault_line_def inspect_text_def split: option.split)

lemma feed_fault_sse:
  "fault_bounded (snd x) \<Longrightarrow> fo_sse (snd (feed_text fault_add (fault_end parse) t x)) = fo_sse (snd x)"
proof -
  have c: "fo_sse (snd (feed_char fault_add (fault_end parse) c y)) = fo_sse (snd y)" for c y
    by (simp add: feed_char_def)
  have "fo_sse (snd (fold (feed_char fault_add (fault_end parse)) t y)) = fo_sse (snd y)" for y
    by (induction t arbitrary: y) (simp_all add: c)
  then show "fault_bounded (snd x) \<Longrightarrow> ?thesis" by (simp add: fault_lines.feed_text_chars)
qed

lemma accept_sse:
  "fault_bounded (snd x) \<Longrightarrow> fo_sse (snd x) \<Longrightarrow>
   fold (accept_fault parse) ts x = fold (feed_text fault_add (fault_end parse)) ts x"
proof (induction ts arbitrary: x)
  case (Cons t ts)
  have "fault_bounded (snd (feed_text fault_add (fault_end parse) t x))"
    using Cons.prems by (simp add: fault_lines.feed_text_chars fault_lines.feed_chars_ok)
  then show ?case using Cons by (simp add: accept_fault_def feed_fault_sse)
qed simp

lemma accept_body:
  "fault_bounded (snd x) \<Longrightarrow> \<not> fo_sse (snd x) \<Longrightarrow>
   fold (accept_fault parse) ts x = (fst x, fault_add (concat ts) (snd x))"
proof (induction ts arbitrary: x)
  case Nil
  then show ?case by (simp add: fault_lines.add_nil)
next
  case (Cons t ts)
  then show ?case
    by (simp add: accept_fault_def fault_lines.add_ok fault_lines.add_add)
qed

text \<open>The evidence of a line, a body and a stream, said without pieces or bounded buffers.\<close>

definition line_evidence :: "(string \<Rightarrow> js option) \<Rightarrow> string \<Rightarrow> fault option" where
  "line_evidence parse l =
     (if length l \<le> capture_limit \<and> has_prefix ''data:'' l then text_fault parse (trim (drop 5 l)) else None)"

definition later :: "fault option \<Rightarrow> fault option \<Rightarrow> fault option" where
  "later new old = (case new of None \<Rightarrow> old | Some f \<Rightarrow> Some f)"

definition evidence :: "(string \<Rightarrow> js option) \<Rightarrow> bool \<Rightarrow> string \<Rightarrow> fault option" where
  "evidence parse sse t =
     (if sse then fold (\<lambda>l. later (line_evidence parse l)) (split_lines t) None
      else if length t \<le> capture_limit then text_fault parse t else None)"

definition fresh_line :: "fault_observer \<Rightarrow> bool" where
  "fresh_line ob \<longleftrightarrow> fo_pending ob = [] \<and> \<not> fo_overflow ob"

lemma fault_line_evidence:
  "fresh_line ob \<Longrightarrow> fo_fault (fault_line parse (fault_add l ob)) = later (line_evidence parse l) (fo_fault ob)"
  by (simp add: fresh_line_def fault_line_def fault_add_def line_evidence_def inspect_text_def later_def not_le
      split: option.split)

lemma fault_end_evidence:
  "fresh_line ob \<Longrightarrow> fo_fault (fault_end parse (fault_add l ob)) = later (line_evidence parse l) (fo_fault ob)"
  "fresh_line (fault_end parse ob)"
  by (simp_all add: fault_end_def fault_line_evidence) (simp add: fresh_line_def)

lemma fault_fold_evidence:
  "fresh_line ob \<Longrightarrow>
   fo_fault (fold (\<lambda>l s. fault_end parse (fault_add l s)) ls ob) = fold (\<lambda>l. later (line_evidence parse l)) ls (fo_fault ob) \<and>
   fresh_line (fold (\<lambda>l s. fault_end parse (fault_add l s)) ls ob) \<and>
   fo_sse (fold (\<lambda>l s. fault_end parse (fault_add l s)) ls ob) = fo_sse ob"
  by (induction ls arbitrary: ob) (simp_all add: fault_end_evidence)

text \<open>The fault an observer reports for an answer is the last one that an error envelope of the
  answer carries, on a data line (or in a whole body) of at most 65536 characters, however the answer
  was cut into pieces; text outside an error envelope is never evidence.\<close>

theorem observed_fault_is_the_evidence:
  "finish_fault parse (snd (fold (accept_fault parse) ts (False, new_fault_observer sse))) = evidence parse sse (concat ts)"
proof (cases sse)
  case False
  have b: "fault_bounded (snd (False, new_fault_observer sse))"
    by (simp add: fault_bounded_def new_fault_observer_def)
  show ?thesis
    using False accept_body [OF b, of parse ts]
    by (simp add: new_fault_observer_def finish_fault_def fault_add_def evidence_def inspect_text_def not_le
        split: option.split)
next
  case True
  let ?o = "new_fault_observer sse" and ?t = "concat ts"
  have b: "fault_bounded (snd (False, ?o))" "fresh_line ?o" "fo_sse ?o" "fo_fault ?o = None"
    using True by (simp_all add: fault_bounded_def new_fault_observer_def fresh_line_def)
  define ob where "ob = fold (\<lambda>l s. fault_end parse (fault_add l s)) (ended_lines ?t) ?o"
  have "snd (fold (accept_fault parse) ts (False, ?o)) = fault_add (open_line ?t) ob"
    using accept_sse [OF b(1), of parse ts] b fault_lines.feed_text_concat [OF b(1), of parse ts]
      fault_lines.feed_text_lines [of ?o parse ?t]
    by (simp add: ob_def)
  moreover have "split_lines ?t = ended_lines ?t @ [open_line ?t]"
    by (simp add: ended_lines_def open_line_def)
  moreover have "fo_fault ob = fold (\<lambda>l. later (line_evidence parse l)) (ended_lines ?t) None" "fresh_line ob" "fo_sse ob"
    using fault_fold_evidence [OF b(2), of parse "ended_lines ?t"] b unfolding ob_def by simp_all
  ultimately show ?thesis
    using True by (simp add: finish_fault_def evidence_def fault_line_evidence)
qed

end
