(* ===== verification/Engine_Attribution.thy ===== *)
theory Engine_Attribution
  imports Gate_Prelude
begin

text \<open>
  \<open>ds4-gateway/attribution.mjs\<close>: the shadow association of engine prompt starts with gateway
  requests. The \<open>Map\<close>s are lists of records in insertion order; \<open>Date.parse\<close> (\<open>date\<close>) and the
  SHA-256 of a row (\<open>digest\<close>) are parameters, and the rows handed to \<open>persist\<close> are collected.
  Identifiers are strings: a value of another type that would print as one is refused here.
\<close>

section \<open>Rows of evidence\<close>

definition uuid_lower :: "string \<Rightarrow> bool" where
  "uuid_lower s \<longleftrightarrow> length s = 36 \<and>
     list_all (\<lambda>i. if i \<in> {8, 13, 18, 23} then s ! i = CHR ''-'' else lower_hex (s ! i)) [0..<36]"

definition node_text :: "string \<Rightarrow> bool" where
  "node_text s \<longleftrightarrow> (case s of [] \<Rightarrow> False
     | c # cs \<Rightarrow> word_char c \<and> c \<noteq> CHR ''_'' \<and> length cs \<le> 63 \<and> list_all word_or_hyphen cs)"

fun text_if :: "(string \<Rightarrow> bool) \<Rightarrow> js \<Rightarrow> string option" where
  "text_if p (JStr s) = (if p s then Some s else None)"
| "text_if p _ = None"

fun js_time :: "(string \<Rightarrow> rat option) \<Rightarrow> js \<Rightarrow> rat option" where
  "js_time date (JNum r) = Some r"
| "js_time date (JStr s) = date s"
| "js_time date _ = None"

definition js_tokens :: "js \<Rightarrow> int option" where
  "js_tokens v = (case safe_int v of Some n \<Rightarrow> if n \<ge> 0 then Some n else None | None \<Rightarrow> None)"

definition outcome_names :: "string list" where
  "outcome_names = [''complete'', ''client_cancelled'', ''upstream_error'', ''upstream_stream_error'', ''upstream_aborted'',
     ''upstream_http_error'', ''upstream_engine_error'', ''incomplete_sse'', ''sse_observation_limited'',
     ''connection_closed'', ''timeout'', ''other'']"

record tokens_used =
  tu_prompt :: "int option"
  tu_cached :: "int option"

record lifecycle_event =
  le_finished :: bool
  le_time :: rat
  le_node :: string
  le_request :: string
  le_outcome :: string
  le_usage :: tokens_used

definition known_outcome :: "js \<Rightarrow> string" where
  "known_outcome v = (case v of JStr s \<Rightarrow> if s \<in> set outcome_names then s else ''other'' | _ \<Rightarrow> ''other'')"

definition safe_gateway :: "(string \<Rightarrow> rat option) \<Rightarrow> js \<Rightarrow> lifecycle_event option" where
  "safe_gateway date raw =
     (if jget raw ''event'' \<notin> {JStr ''request_dispatched'', JStr ''request_finished''} then None
      else case (text_if uuid_lower (jget raw ''request_id''), text_if node_text (jget raw ''node''),
                 js_time date (jget raw ''time'')) of
        (Some r, Some n, Some t) \<Rightarrow>
          if t \<le> 0 then None
          else Some \<lparr>le_finished = (jget raw ''event'' = JStr ''request_finished''), le_time = t, le_node = n,
                     le_request = r, le_outcome = known_outcome (jget raw ''outcome''),
                     le_usage = \<lparr>tu_prompt = js_tokens (jget (jget raw ''usage'') ''prompt_tokens''),
                                 tu_cached = js_tokens (jget (jget raw ''usage'') ''cached_tokens'')\<rparr>\<rparr>
      | _ \<Rightarrow> None)"

datatype epoch_confidence = Strong | Bounded | Unavailable

definition epoch_confidence_of :: "js \<Rightarrow> epoch_confidence" where
  "epoch_confidence_of v = (if v = JStr ''strong'' then Strong else if v = JStr ''bounded'' then Bounded else Unavailable)"

text \<open>A prompt start of the engine, with the private guards the code adds to it.\<close>

record engine_start =
  es_sample :: string
  es_time :: rat
  es_node :: string
  es_prompt :: int
  es_cached :: int
  es_new :: int
  es_epoch :: "string option"
  es_confidence :: epoch_confidence
  es_conflict :: bool
  es_overlaps :: "string list"
  es_overflow :: bool
  es_settled :: bool

definition safe_engine :: "(string \<Rightarrow> rat option) \<Rightarrow> js \<Rightarrow> engine_start option" where
  "safe_engine date raw =
     (if jget raw ''kind'' \<noteq> JStr ''start'' then None
      else case (text_if node_text (jget raw ''node''), text_if digest_text (jget raw ''sample_id''),
                 js_time date (jget raw ''time''), js_tokens (jget raw ''prompt''),
                 js_tokens (jget raw ''cached''), js_tokens (jget raw ''new_tokens'')) of
        (Some n, Some s, Some t, Some p, Some c, Some f) \<Rightarrow>
          if t \<le> 0 \<or> c + f \<noteq> p then None
          else Some \<lparr>es_sample = s, es_time = t, es_node = n, es_prompt = p, es_cached = c, es_new = f,
                     es_epoch = text_if digest_text (jget raw ''backend_epoch''),
                     es_confidence = epoch_confidence_of (jget raw ''backend_epoch_confidence''),
                     es_conflict = False, es_overlaps = [], es_overflow = False, es_settled = False\<rparr>
      | _ \<Rightarrow> None)"

section \<open>Requests and their windows\<close>

record known_request =
  kr_id :: string
  kr_node :: string
  kr_dispatched :: "rat option"
  kr_dispatch_latest :: "rat option"
  kr_finished :: "rat option"
  kr_finish_latest :: "rat option"
  kr_outcome :: "string option"
  kr_usage :: "tokens_used option"
  kr_conflict :: bool
  kr_nodes :: "string list option"
  kr_node_overflow :: bool
  kr_inverted :: bool

definition skew_ms :: rat where "skew_ms = 5000"
definition max_lead_ms :: rat where "max_lead_ms = 600000"
definition window_ms :: rat where "window_ms = 900000"
definition max_open_ms :: rat where "max_open_ms = 604800000"
definition max_records :: nat where "max_records = 512"
definition max_overlaps :: nat where "max_overlaps = 64"
definition max_nodes :: nat where "max_nodes = 64"

definition window_contains :: "engine_start \<Rightarrow> known_request \<Rightarrow> bool" where
  "window_contains st rq \<longleftrightarrow> kr_node rq = es_node st \<and>
     (case kr_dispatched rq of None \<Rightarrow> False
      | Some d \<Rightarrow> d \<le> es_time st + skew_ms \<and> es_time st - d \<le> max_lead_ms) \<and>
     (case kr_finished rq of None \<Rightarrow> True | Some f \<Rightarrow> f \<ge> es_time st - skew_ms)"

definition candidate_windows :: "engine_start \<Rightarrow> known_request list \<Rightarrow> known_request list" where
  "candidate_windows st rqs = filter (window_contains st) rqs"

definition conflict_may_overlap :: "engine_start \<Rightarrow> known_request \<Rightarrow> bool" where
  "conflict_may_overlap st rq \<longleftrightarrow> kr_conflict rq \<and>
     (kr_node_overflow rq \<or> kr_node rq = es_node st \<or>
      (case kr_nodes rq of None \<Rightarrow> False | Some ns \<Rightarrow> es_node st \<in> set ns)) \<and>
     (case (kr_dispatched rq, kr_dispatch_latest rq) of
        (Some d, Some l) \<Rightarrow> \<not> (d > es_time st + skew_ms \<or> l < es_time st - max_lead_ms)
      | _ \<Rightarrow> True) \<and>
     (kr_inverted rq \<or> (case kr_finish_latest rq of None \<Rightarrow> True | Some f \<Rightarrow> f \<ge> es_time st - skew_ms))"

section \<open>The verdict on one start\<close>

datatype at_status = Abstained | Candidate | Corroborated

datatype at_reason =
    EpochUnavailable
  | GatewayConflict
  | OverlappingWindows
  | NoWindow
  | OverlappingUsage
  | UsageConflict
  | UsageOverlap
  | RequestOpen
  | UsageUnavailable
  | MultipleStarts
  | UsageMatch
  | CompletedWithoutUsage
  | CensoredOrFailed

datatype at_confidence = NoConfidence | Heuristic | BoundedCandidate | HighCandidate

record at_row =
  ar_sample :: string
  ar_node :: string
  ar_time :: rat
  ar_epoch :: "string option"
  ar_epoch_confidence :: epoch_confidence
  ar_request :: "string option"
  ar_status :: at_status
  ar_reason :: at_reason
  ar_confidence :: at_confidence
  ar_delta :: "int option"
  ar_prompt :: int
  ar_cached :: int
  ar_new :: int

definition abstain :: "engine_start \<Rightarrow> at_reason \<Rightarrow> at_row" where
  "abstain st why = \<lparr>ar_sample = es_sample st, ar_node = es_node st, ar_time = es_time st, ar_epoch = es_epoch st,
     ar_epoch_confidence = es_confidence st, ar_request = None, ar_status = Abstained, ar_reason = why,
     ar_confidence = NoConfidence, ar_delta = None, ar_prompt = es_prompt st, ar_cached = es_cached st, ar_new = es_new st\<rparr>"

definition js_round :: "rat \<Rightarrow> int" where
  "js_round x = \<lfloor>x + 1 / 2\<rfloor>"

definition dispatch_delta :: "engine_start \<Rightarrow> known_request \<Rightarrow> int option" where
  "dispatch_delta st rq = map_option (\<lambda>d. js_round (es_time st - d)) (kr_dispatched rq)"

definition epoch_rank :: "epoch_confidence \<Rightarrow> at_confidence" where
  "epoch_rank c = (if c = Strong then HighCandidate else BoundedCandidate)"

definition usage_of :: "known_request \<Rightarrow> (int \<times> int) option" where
  "usage_of rq = (case kr_usage rq of
     Some u \<Rightarrow> (case (tu_prompt u, tu_cached u) of (Some p, Some c) \<Rightarrow> Some (p, c) | _ \<Rightarrow> None)
   | None \<Rightarrow> None)"

definition usage_resolved :: "known_request \<Rightarrow> bool" where
  "usage_resolved rq \<longleftrightarrow> kr_finished rq \<noteq> None \<and> usage_of rq \<noteq> None"

definition matches_usage :: "engine_start \<Rightarrow> known_request \<Rightarrow> bool" where
  "matches_usage st rq \<longleftrightarrow> usage_of rq = Some (es_prompt st, es_cached st)"

definition verdict :: "engine_start \<Rightarrow> known_request list \<Rightarrow> at_row" where
  "verdict st rqs =
     (if es_epoch st = None \<or> es_confidence st = Unavailable then abstain st EpochUnavailable
      else if es_conflict st then abstain st GatewayConflict
      else
        let cands = candidate_windows st rqs in
        if es_overflow st \<or> length (es_overlaps st) > 1 \<and> \<not> set (es_overlaps st) \<subseteq> set (map kr_id cands)
        then abstain st OverlappingWindows
        else case cands of
          [] \<Rightarrow> abstain st NoWindow
        | [rq] \<Rightarrow> (abstain st (if kr_finished rq = None then RequestOpen else UsageUnavailable))
                   \<lparr>ar_request := Some (kr_id rq), ar_status := Candidate, ar_confidence := Heuristic,
                    ar_delta := dispatch_delta st rq\<rparr>
        | _ \<Rightarrow>
            if \<not> list_all usage_resolved cands then abstain st OverlappingWindows
            else (case filter (matches_usage st) cands of
                    [rq] \<Rightarrow> (abstain st UsageOverlap)
                       \<lparr>ar_request := Some (kr_id rq), ar_status := Corroborated,
                        ar_confidence := epoch_rank (es_confidence st), ar_delta := dispatch_delta st rq\<rparr>
                  | [] \<Rightarrow> abstain st UsageConflict
                  | _ \<Rightarrow> abstain st OverlappingUsage))"

section \<open>The state\<close>

record attribution =
  at_requests :: "known_request list"
  at_starts :: "engine_start list"
  at_emitted :: "(string \<times> string) list"
  at_latest :: rat
  at_rows :: "at_row list"
  at_persisted :: "(at_row \<times> string) list"

definition at_initial :: attribution where
  "at_initial = \<lparr>at_requests = [], at_starts = [], at_emitted = [], at_latest = 0, at_rows = [], at_persisted = []\<rparr>"

definition find_request :: "string \<Rightarrow> known_request list \<Rightarrow> known_request option" where
  "find_request i rqs = List.find (\<lambda>rq. kr_id rq = i) rqs"

text \<open>\<open>Map.set\<close>: a known key keeps its place.\<close>

definition put_request :: "known_request \<Rightarrow> known_request list \<Rightarrow> known_request list" where
  "put_request rq rqs =
     (if \<exists>x \<in> set rqs. kr_id x = kr_id rq then map (\<lambda>x. if kr_id x = kr_id rq then rq else x) rqs else rqs @ [rq])"

definition fresh_request :: "lifecycle_event \<Rightarrow> known_request" where
  "fresh_request ev = \<lparr>kr_id = le_request ev, kr_node = le_node ev, kr_dispatched = None, kr_dispatch_latest = None,
     kr_finished = None, kr_finish_latest = None, kr_outcome = None, kr_usage = None, kr_conflict = False,
     kr_nodes = None, kr_node_overflow = False, kr_inverted = False\<rparr>"

definition note_node :: "lifecycle_event \<Rightarrow> known_request \<Rightarrow> known_request" where
  "note_node ev rq =
     (if kr_node rq = le_node ev then rq
      else
        let ns = (case kr_nodes rq of None \<Rightarrow> [kr_node rq] | Some ns \<Rightarrow> ns) in
        if length ns < max_nodes
        then rq\<lparr>kr_conflict := True, kr_nodes := Some (if le_node ev \<in> set ns then ns else ns @ [le_node ev])\<rparr>
        else rq\<lparr>kr_conflict := True, kr_nodes := Some ns,
                kr_node_overflow := (kr_node_overflow rq \<or> le_node ev \<notin> set ns)\<rparr>)"

definition least_of :: "rat option \<Rightarrow> rat \<Rightarrow> rat option" where
  "least_of o1 t = Some (case o1 of None \<Rightarrow> t | Some u \<Rightarrow> min u t)"

definition most_of :: "rat option \<Rightarrow> rat \<Rightarrow> rat option" where
  "most_of o1 t = Some (case o1 of None \<Rightarrow> t | Some u \<Rightarrow> max u t)"

definition note_dispatch :: "lifecycle_event \<Rightarrow> known_request \<Rightarrow> known_request" where
  "note_dispatch ev rq =
     rq\<lparr>kr_conflict := (kr_conflict rq \<or> (kr_dispatched rq \<noteq> None \<and> kr_dispatched rq \<noteq> Some (le_time ev))),
        kr_dispatched := least_of (kr_dispatched rq) (le_time ev),
        kr_dispatch_latest := most_of (kr_dispatch_latest rq) (le_time ev)\<rparr>"

definition note_finish :: "lifecycle_event \<Rightarrow> known_request \<Rightarrow> known_request" where
  "note_finish ev rq =
     (let rq1 = (if kr_finished rq = None
                 then rq\<lparr>kr_outcome := Some (le_outcome ev), kr_usage := Some (le_usage ev)\<rparr>
                 else if kr_finished rq \<noteq> Some (le_time ev) \<or> kr_outcome rq \<noteq> Some (le_outcome ev) \<or>
                         kr_usage rq \<noteq> Some (le_usage ev)
                 then rq\<lparr>kr_conflict := True\<rparr> else rq)
      in rq1\<lparr>kr_finished := least_of (kr_finished rq1) (le_time ev),
             kr_finish_latest := most_of (kr_finish_latest rq1) (le_time ev)\<rparr>)"

definition note_inversion :: "known_request \<Rightarrow> known_request" where
  "note_inversion rq =
     (case (kr_finished rq, kr_dispatch_latest rq) of
        (Some f, Some d) \<Rightarrow> if f < d then rq\<lparr>kr_conflict := True, kr_inverted := True\<rparr> else rq
      | _ \<Rightarrow> rq)"

definition note_event :: "lifecycle_event \<Rightarrow> known_request \<Rightarrow> known_request" where
  "note_event ev rq =
     note_inversion ((if le_finished ev then note_finish ev else note_dispatch ev) (note_node ev rq))"

section \<open>Reconciliation\<close>

definition clean_requests :: "known_request list \<Rightarrow> known_request list" where
  "clean_requests rqs = filter (\<lambda>rq. kr_dispatched rq \<noteq> None \<and> \<not> kr_conflict rq) rqs"

fun remember_overlaps :: "known_request list \<Rightarrow> engine_start \<Rightarrow> engine_start" where
  "remember_overlaps [] st = st"
| "remember_overlaps (rq # rqs) st =
     (if length (es_overlaps st) \<ge> max_overlaps \<and> kr_id rq \<notin> set (es_overlaps st)
      then st\<lparr>es_overflow := True\<rparr>
      else if kr_id rq \<notin> set (es_overlaps st)
      then remember_overlaps rqs (st\<lparr>es_overlaps := es_overlaps st @ [kr_id rq], es_settled := False\<rparr>)
      else remember_overlaps rqs st)"

definition capture_start :: "known_request list \<Rightarrow> engine_start \<Rightarrow> engine_start" where
  "capture_start rqs st =
     (let st1 = (if \<not> es_conflict st \<and> list_ex (conflict_may_overlap st) (filter kr_conflict rqs)
                 then st\<lparr>es_conflict := True\<rparr> else st);
          cands = candidate_windows st1 (clean_requests rqs)
      in if length cands < 2 then st1 else remember_overlaps cands st1)"

definition capture_overlaps :: "attribution \<Rightarrow> attribution" where
  "capture_overlaps s = s\<lparr>at_starts := map (capture_start (at_requests s)) (at_starts s)\<rparr>"

definition protected_ids :: "attribution \<Rightarrow> string list" where
  "protected_ids s =
     concat (map es_overlaps (filter (\<lambda>st. \<not> es_settled st \<and> es_time st \<ge> at_latest s - max_open_ms) (at_starts s)))"

text \<open>A missing time is \<open>null\<close>, which compares as 0.\<close>

definition expired_request :: "rat \<Rightarrow> known_request \<Rightarrow> bool" where
  "expired_request latest rq \<longleftrightarrow>
     (if kr_finished rq \<noteq> None then (case kr_finish_latest rq of None \<Rightarrow> 0 | Some t \<Rightarrow> t) < latest - window_ms
      else (case kr_dispatch_latest rq of None \<Rightarrow> 0 | Some t \<Rightarrow> t) < latest - max_open_ms)"

definition expired_start :: "rat \<Rightarrow> known_request list \<Rightarrow> engine_start \<Rightarrow> bool" where
  "expired_start latest retained st \<longleftrightarrow> es_time st < latest - max_open_ms \<or>
     es_time st < latest - window_ms \<and> candidate_windows st retained = [] \<and>
     \<not> list_ex (conflict_may_overlap st) retained"

text \<open>One turn of the eviction loop: the oldest request that no overlap protects, or the oldest.\<close>

definition evict_one :: "string list \<Rightarrow> known_request list \<Rightarrow> known_request list" where
  "evict_one keep rqs =
     (case List.find (\<lambda>rq. kr_id rq \<notin> set keep) rqs of
        Some rq \<Rightarrow> remove1 rq rqs
      | None \<Rightarrow> tl rqs)"

definition prune :: "attribution \<Rightarrow> attribution" where
  "prune s =
     (let keep = protected_ids s;
          rqs = filter (\<lambda>rq. kr_id rq \<in> set keep \<or> \<not> expired_request (at_latest s) rq) (at_requests s);
          retained = filter (\<lambda>rq. kr_dispatched rq \<noteq> None) rqs;
          sts = filter (\<lambda>st. \<not> expired_start (at_latest s) retained st) (at_starts s);
          em = filter (\<lambda>(i, d). i \<in> set (map es_sample sts)) (at_emitted s)
      in s\<lparr>at_requests := (evict_one keep ^^ (length rqs - max_records)) rqs,
           at_starts := drop (length sts - max_records) sts, at_emitted := em\<rparr>)"

definition owners :: "at_row list \<Rightarrow> string \<Rightarrow> nat" where
  "owners rows i = length (filter (\<lambda>r. ar_request r = Some i) rows)"

definition settle_row :: "known_request list \<Rightarrow> at_row list \<Rightarrow> at_row \<Rightarrow> at_row" where
  "settle_row rqs rows row =
     (case ar_request row of
        None \<Rightarrow> row
      | Some i \<Rightarrow>
          if owners rows i > 1 then row\<lparr>ar_status := Abstained, ar_reason := MultipleStarts, ar_confidence := NoConfidence\<rparr>
          else if ar_status row = Corroborated then row
          else (case find_request i rqs of
            None \<Rightarrow> row\<lparr>ar_reason := CensoredOrFailed\<rparr>
          | Some rq \<Rightarrow>
              if kr_finished rq = None then row
              else (case usage_of rq of
                Some (p, c) \<Rightarrow>
                  if p = ar_prompt row \<and> c = ar_cached row
                  then row\<lparr>ar_status := Corroborated, ar_reason := UsageMatch,
                           ar_confidence := epoch_rank (ar_epoch_confidence row)\<rparr>
                  else row\<lparr>ar_status := Abstained, ar_reason := UsageConflict, ar_confidence := NoConfidence\<rparr>
              | None \<Rightarrow> row\<lparr>ar_reason := (if kr_outcome rq = Some ''complete'' then CompletedWithoutUsage
                                           else CensoredOrFailed)\<rparr>)))"

definition attribution_rows :: "attribution \<Rightarrow> at_row list" where
  "attribution_rows s =
     (let rows = map (\<lambda>st. verdict st (clean_requests (at_requests s))) (at_starts s)
      in map (settle_row (at_requests s) rows) rows)"

definition put_emitted :: "string \<Rightarrow> string \<Rightarrow> (string \<times> string) list \<Rightarrow> (string \<times> string) list" where
  "put_emitted i d em =
     (if i \<in> set (map fst em) then map (\<lambda>(j, e). if j = i then (j, d) else (j, e)) em else em @ [(i, d)])"

definition emit_row :: "(at_row \<Rightarrow> string) \<Rightarrow> at_row \<Rightarrow> attribution \<Rightarrow> attribution" where
  "emit_row digest row s =
     (if map_of (at_emitted s) (ar_sample row) = Some (digest row) then s
      else s\<lparr>at_emitted := put_emitted (ar_sample row) (digest row) (at_emitted s),
             at_persisted := at_persisted s @ [(row, digest row)]\<rparr>)"

definition settle_start :: "known_request list \<Rightarrow> engine_start \<Rightarrow> engine_start" where
  "settle_start rqs st =
     (if length (es_overlaps st) > 1 \<and> \<not> es_overflow st \<and> \<not> es_settled st
      then st\<lparr>es_settled := list_all (\<lambda>i. case find_request i (candidate_windows st rqs) of
                None \<Rightarrow> False | Some rq \<Rightarrow> kr_finished rq \<noteq> None) (es_overlaps st)\<rparr>
      else st)"

definition reconcile :: "(at_row \<Rightarrow> string) \<Rightarrow> attribution \<Rightarrow> attribution" where
  "reconcile digest s =
     (let s1 = prune (capture_overlaps s);
          rows = attribution_rows s1;
          s2 = fold (emit_row digest) rows s1;
          rqs = clean_requests (at_requests s1)
      in s2\<lparr>at_starts := map (settle_start rqs) (at_starts s2),
            at_rows := take 64 (sort_key (\<lambda>r. - ar_time r) rows)\<rparr>)"

section \<open>Accepting evidence\<close>

definition accept_gateway :: "(string \<Rightarrow> rat option) \<Rightarrow> (at_row \<Rightarrow> string) \<Rightarrow> js \<Rightarrow> attribution \<Rightarrow> attribution" where
  "accept_gateway date digest raw s =
     (case safe_gateway date raw of
        None \<Rightarrow> s
      | Some ev \<Rightarrow>
          (let rq = (case find_request (le_request ev) (at_requests s) of None \<Rightarrow> fresh_request ev | Some rq \<Rightarrow> rq)
           in reconcile digest (s\<lparr>at_latest := max (at_latest s) (le_time ev),
                at_requests := put_request (note_event ev rq) (at_requests s)\<rparr>)))"

text \<open>\<open>Object.assign\<close> keeps the private guards of a sample that is seen again.\<close>

definition refresh_start :: "engine_start \<Rightarrow> engine_start \<Rightarrow> engine_start" where
  "refresh_start e st = e\<lparr>es_conflict := es_conflict st, es_overlaps := es_overlaps st,
     es_overflow := es_overflow st, es_settled := es_settled st\<rparr>"

definition put_start :: "engine_start \<Rightarrow> engine_start list \<Rightarrow> engine_start list" where
  "put_start e sts =
     (if \<exists>st \<in> set sts. es_sample st = es_sample e
      then map (\<lambda>st. if es_sample st = es_sample e then refresh_start e st else st) sts else sts @ [e])"

definition accept_engine :: "(string \<Rightarrow> rat option) \<Rightarrow> (at_row \<Rightarrow> string) \<Rightarrow> js \<Rightarrow> attribution \<Rightarrow> attribution" where
  "accept_engine date digest raw s =
     (case safe_engine date raw of
        None \<Rightarrow> s
      | Some e \<Rightarrow> reconcile digest (s\<lparr>at_latest := max (at_latest s) (es_time e), at_starts := put_start e (at_starts s)\<rparr>))"

datatype evidence_row = GatewayRow js | EngineRow js

definition accept_row :: "(string \<Rightarrow> rat option) \<Rightarrow> (at_row \<Rightarrow> string) \<Rightarrow> evidence_row \<Rightarrow> attribution \<Rightarrow> attribution" where
  "accept_row date digest r s =
     (case r of GatewayRow v \<Rightarrow> accept_gateway date digest v s | EngineRow v \<Rightarrow> accept_engine date digest v s)"

definition run_evidence :: "(string \<Rightarrow> rat option) \<Rightarrow> (at_row \<Rightarrow> string) \<Rightarrow> evidence_row list \<Rightarrow> attribution" where
  "run_evidence date digest rs = fold (accept_row date digest) rs at_initial"

section \<open>What the state keeps\<close>

definition start_ok :: "engine_start \<Rightarrow> bool" where
  "start_ok st \<longleftrightarrow> distinct (es_overlaps st) \<and> length (es_overlaps st) \<le> max_overlaps"

definition at_ok :: "attribution \<Rightarrow> bool" where
  "at_ok s \<longleftrightarrow> distinct (map kr_id (at_requests s)) \<and> distinct (map es_sample (at_starts s)) \<and>
     (\<forall>st \<in> set (at_starts s). start_ok st)"

definition at_bounded :: "attribution \<Rightarrow> bool" where
  "at_bounded s \<longleftrightarrow> length (at_requests s) \<le> max_records \<and> length (at_starts s) \<le> max_records"

lemma note_parts_id [simp]:
  "kr_id (note_node ev rq) = kr_id rq" "kr_id (note_dispatch ev rq) = kr_id rq"
  "kr_id (note_finish ev rq) = kr_id rq" "kr_id (note_inversion rq) = kr_id rq"
  by (simp_all add: note_node_def note_dispatch_def note_finish_def note_inversion_def Let_def split: option.split)

lemma note_event_id [simp]: "kr_id (note_event ev rq) = kr_id rq"
  by (simp add: note_event_def)

lemma find_request_Some: "find_request i rqs = Some rq \<Longrightarrow> rq \<in> set rqs \<and> kr_id rq = i"
  by (auto simp: find_request_def find_Some_iff)

lemma find_request_distinct:
  "distinct (map kr_id rqs) \<Longrightarrow> rq \<in> set rqs \<Longrightarrow> find_request (kr_id rq) rqs = Some rq"
  by (induction rqs) (auto simp: find_request_def)

lemma put_request_distinct: "distinct (map kr_id rqs) \<Longrightarrow> distinct (map kr_id (put_request rq rqs))"
proof -
  have "map kr_id (map (\<lambda>x. if kr_id x = kr_id rq then rq else x) rqs) = map kr_id rqs" by simp
  then show "distinct (map kr_id rqs) \<Longrightarrow> ?thesis" by (auto simp: put_request_def simp del: map_map)
qed

lemma put_start_distinct: "distinct (map es_sample sts) \<Longrightarrow> distinct (map es_sample (put_start e sts))"
proof -
  have "map es_sample (map (\<lambda>x. if es_sample x = es_sample e then refresh_start e x else x) sts) = map es_sample sts"
    by (simp add: refresh_start_def)
  then show "distinct (map es_sample sts) \<Longrightarrow> ?thesis" by (auto simp: put_start_def simp del: map_map)
qed

lemma remember_overlaps_fields [simp]:
  "es_sample (remember_overlaps rqs st) = es_sample st" "es_time (remember_overlaps rqs st) = es_time st"
  "es_node (remember_overlaps rqs st) = es_node st"
  by (induction rqs st rule: remember_overlaps.induct) simp_all

lemma remember_overlaps_ok: "start_ok st \<Longrightarrow> start_ok (remember_overlaps rqs st)"
proof (induction rqs st rule: remember_overlaps.induct)
  case (2 rq rqs st)
  have "start_ok (st\<lparr>es_overlaps := es_overlaps st @ [kr_id rq], es_settled := False\<rparr>)"
    if "\<not> length (es_overlaps st) \<ge> max_overlaps" "kr_id rq \<notin> set (es_overlaps st)"
    using that "2.prems" by (simp add: start_ok_def)
  moreover have "start_ok (st\<lparr>es_overflow := True\<rparr>)" using "2.prems" by (simp add: start_ok_def)
  ultimately show ?case using 2 by auto
qed simp

lemma capture_start_fields [simp]:
  "es_sample (capture_start rqs st) = es_sample st" "start_ok st \<Longrightarrow> start_ok (capture_start rqs st)"
proof -
  show "es_sample (capture_start rqs st) = es_sample st" by (simp add: capture_start_def Let_def)
  assume "start_ok st"
  then have "start_ok st" "start_ok (st\<lparr>es_conflict := True\<rparr>)" by (simp_all add: start_ok_def)
  then show "start_ok (capture_start rqs st)"
    by (simp add: capture_start_def Let_def remember_overlaps_ok)
qed

lemma capture_overlaps_ok: "at_ok s \<Longrightarrow> at_ok (capture_overlaps s)"
  by (auto simp: at_ok_def capture_overlaps_def comp_def)

lemma evict_one_distinct: "distinct (map kr_id rqs) \<Longrightarrow> distinct (map kr_id (evict_one keep rqs))"
proof -
  assume d: "distinct (map kr_id rqs)"
  have r: "distinct (map kr_id (remove1 x rqs))" for x
    using d by (induction rqs) (auto dest: notin_set_remove1 set_remove1_subset [THEN subsetD])
  show ?thesis using d r by (simp add: evict_one_def map_tl distinct_tl split: option.split)
qed

lemma evict_one_length: "length (evict_one keep rqs) = length rqs - 1"
  by (auto simp: evict_one_def length_remove1 find_Some_iff split: option.split)

lemma evict_many:
  "distinct (map kr_id rqs) \<Longrightarrow> distinct (map kr_id ((evict_one keep ^^ n) rqs)) \<and>
   length ((evict_one keep ^^ n) rqs) = length rqs - n"
  by (induction n) (auto simp: evict_one_distinct evict_one_length)

lemma prune_ok: "at_ok s \<Longrightarrow> at_ok (prune s) \<and> at_bounded (prune s)"
  using evict_many [of "filter P (at_requests s)" keep n for P keep n]
  by (auto simp: prune_def Let_def at_ok_def at_bounded_def distinct_map_filter drop_map
      dest!: in_set_dropD simp flip: drop_map intro!: distinct_drop)

lemma emit_fields [simp]:
  "at_requests (fold (emit_row digest) rows s) = at_requests s" "at_starts (fold (emit_row digest) rows s) = at_starts s"
proof -
  have "at_requests (emit_row digest row s) = at_requests s" "at_starts (emit_row digest row s) = at_starts s" for row s
    by (simp_all add: emit_row_def)
  then show "at_requests (fold (emit_row digest) rows s) = at_requests s"
    "at_starts (fold (emit_row digest) rows s) = at_starts s"
    by (induction rows arbitrary: s) simp_all
qed

lemma settle_start_fields [simp]:
  "es_sample (settle_start rqs st) = es_sample st" "es_time (settle_start rqs st) = es_time st"
  "es_node (settle_start rqs st) = es_node st" "es_overlaps (settle_start rqs st) = es_overlaps st"
  "es_overflow (settle_start rqs st) = es_overflow st" "start_ok (settle_start rqs st) = start_ok st"
  by (simp_all add: settle_start_def start_ok_def)

definition prepared :: "attribution \<Rightarrow> attribution" where
  "prepared s = prune (capture_overlaps s)"

lemma reconcile_fields:
  "at_requests (reconcile digest s) = at_requests (prepared s)"
  "at_starts (reconcile digest s) = map (settle_start (clean_requests (at_requests (prepared s)))) (at_starts (prepared s))"
  "at_rows (reconcile digest s) = take 64 (sort_key (\<lambda>r. - ar_time r) (attribution_rows (prepared s)))"
  by (simp_all add: reconcile_def prepared_def Let_def)

lemma prepared_ok: "at_ok s \<Longrightarrow> at_ok (prepared s) \<and> at_bounded (prepared s)"
  unfolding prepared_def by (rule prune_ok [OF capture_overlaps_ok])

lemma reconcile_ok: "at_ok s \<Longrightarrow> at_ok (reconcile digest s) \<and> at_bounded (reconcile digest s)"
  using prepared_ok [of s]
  by (auto simp: at_ok_def at_bounded_def reconcile_fields comp_def)

lemma accept_gateway_prep:
  "accept_gateway date digest raw s = s \<or> (\<exists>s'. (at_ok s \<longrightarrow> at_ok s') \<and> accept_gateway date digest raw s = reconcile digest s')"
proof (cases "safe_gateway date raw")
  case (Some ev)
  let ?rq = "case find_request (le_request ev) (at_requests s) of None \<Rightarrow> fresh_request ev | Some rq \<Rightarrow> rq"
  let ?s = "s\<lparr>at_latest := max (at_latest s) (le_time ev), at_requests := put_request (note_event ev ?rq) (at_requests s)\<rparr>"
  have "at_ok s \<longrightarrow> at_ok ?s" by (simp add: at_ok_def put_request_distinct)
  then show ?thesis using Some by (auto simp: accept_gateway_def Let_def)
qed (simp add: accept_gateway_def)

lemma safe_engine_fresh: "safe_engine date raw = Some e \<Longrightarrow> start_ok e"
  by (auto simp: safe_engine_def start_ok_def split: if_splits option.splits)

lemma accept_engine_prep:
  "accept_engine date digest raw s = s \<or> (\<exists>s'. (at_ok s \<longrightarrow> at_ok s') \<and> accept_engine date digest raw s = reconcile digest s')"
proof (cases "safe_engine date raw")
  case (Some e)
  let ?s = "s\<lparr>at_latest := max (at_latest s) (es_time e), at_starts := put_start e (at_starts s)\<rparr>"
  have "start_ok x" if "at_ok s" "x \<in> set (put_start e (at_starts s))" for x
    using that safe_engine_fresh [OF Some]
    by (auto simp: put_start_def at_ok_def start_ok_def refresh_start_def split: if_splits)
  then have "at_ok s \<longrightarrow> at_ok ?s" by (simp add: at_ok_def put_start_distinct)
  then show ?thesis using Some by (auto simp: accept_engine_def)
qed (simp add: accept_engine_def)

lemma run_evidence_cases:
  "run_evidence date digest rs = at_initial \<or>
   (\<exists>s. at_ok s \<and> run_evidence date digest rs = reconcile digest s)"
proof -
  have init: "at_ok at_initial" by (simp add: at_ok_def at_initial_def)
  have step: "accept_row date digest r s = at_initial \<or> (\<exists>s'. at_ok s' \<and> accept_row date digest r s = reconcile digest s')"
    if "s = at_initial \<or> (\<exists>s'. at_ok s' \<and> s = reconcile digest s')" for r s
  proof -
    have "at_ok s" using that init reconcile_ok by auto
    then show ?thesis
      using that accept_gateway_prep [of date digest _ s] accept_engine_prep [of date digest _ s]
      by (cases r) (fastforce simp: accept_row_def)+
  qed
  show ?thesis
    unfolding run_evidence_def by (induction rs rule: rev_induct) (simp, simp add: step)
qed

lemma run_evidence_ok: "at_ok (run_evidence date digest rs) \<and> at_bounded (run_evidence date digest rs)"
  using run_evidence_cases [of date digest rs] reconcile_ok
  by (auto simp: at_ok_def at_bounded_def at_initial_def)

section \<open>What a row means\<close>

lemma abstain_fields [simp]:
  "ar_sample (abstain st why) = es_sample st" "ar_node (abstain st why) = es_node st" "ar_time (abstain st why) = es_time st"
  "ar_epoch (abstain st why) = es_epoch st" "ar_request (abstain st why) = None" "ar_status (abstain st why) = Abstained"
  "ar_prompt (abstain st why) = es_prompt st" "ar_cached (abstain st why) = es_cached st"
  "ar_epoch_confidence (abstain st why) = es_confidence st"
  by (simp_all add: abstain_def)

lemma verdict_fields [simp]:
  "ar_sample (verdict st rqs) = es_sample st" "ar_node (verdict st rqs) = es_node st" "ar_time (verdict st rqs) = es_time st"
  "ar_epoch (verdict st rqs) = es_epoch st" "ar_prompt (verdict st rqs) = es_prompt st"
  "ar_cached (verdict st rqs) = es_cached st"
  by (simp_all add: verdict_def Let_def split: list.split)

definition owner_ok :: "engine_start \<Rightarrow> known_request list \<Rightarrow> at_row \<Rightarrow> bool" where
  "owner_ok st rqs row \<longleftrightarrow> es_epoch st \<noteq> None \<and> es_confidence st \<noteq> Unavailable \<and> \<not> es_conflict st \<and>
     \<not> es_overflow st \<and>
     (length (es_overlaps st) > 1 \<longrightarrow> set (es_overlaps st) \<subseteq> kr_id ` set (candidate_windows st rqs)) \<and>
     (\<exists>rq \<in> set (candidate_windows st rqs). ar_request row = Some (kr_id rq) \<and>
        (ar_status row = Candidate \<longrightarrow> candidate_windows st rqs = [rq]) \<and>
        (ar_status row \<noteq> Candidate \<longrightarrow> matches_usage st rq \<and> kr_finished rq \<noteq> None \<and>
              (\<forall>x \<in> set (candidate_windows st rqs). usage_resolved x \<and> (matches_usage st x \<longrightarrow> x = rq))))"

lemma verdict_cases:
  "ar_status (verdict st rqs) = Abstained \<and> ar_request (verdict st rqs) = None \<or>
   ar_status (verdict st rqs) \<noteq> Abstained \<and> owner_ok st rqs (verdict st rqs)"
proof -
  let ?cands = "candidate_windows st rqs"
  show ?thesis
  proof (cases "es_epoch st = None \<or> es_confidence st = Unavailable \<or> es_conflict st \<or> es_overflow st \<or>
      length (es_overlaps st) > 1 \<and> \<not> set (es_overlaps st) \<subseteq> set (map kr_id ?cands)")
    case True
    then have "\<exists>why. verdict st rqs = abstain st why" by (auto simp: verdict_def Let_def)
    then show ?thesis by auto
  next
    case False
    consider "?cands = []" | rq where "?cands = [rq]" | x y zs where "?cands = x # y # zs"
      by (cases ?cands; cases "tl ?cands") auto
    then show ?thesis
    proof cases
      case 1
      then have "verdict st rqs = abstain st NoWindow" using False by (auto simp: verdict_def Let_def)
      then show ?thesis by simp
    next
      case 2
      then show ?thesis using False by (auto simp: verdict_def Let_def owner_ok_def)
    next
      case 3
      show ?thesis
      proof (cases "list_all usage_resolved ?cands \<and> length (filter (matches_usage st) ?cands) = 1")
        case True
        then obtain rq where rq: "filter (matches_usage st) ?cands = [rq]" by (auto simp: length_Suc_conv)
        have "set (filter (matches_usage st) ?cands) = {rq}" by (simp add: rq)
        then have in_c: "rq \<in> set ?cands" "matches_usage st rq" "\<forall>x \<in> set ?cands. matches_usage st x \<longrightarrow> x = rq"
          unfolding set_filter by blast+
        have v: "ar_status (verdict st rqs) = Corroborated" "ar_request (verdict st rqs) = Some (kr_id rq)"
          using False 3 True rq by (auto simp: verdict_def Let_def)
        have u: "\<forall>x \<in> set ?cands. usage_resolved x" using True by (simp add: list_all_iff)
        then have k: "kr_finished rq \<noteq> None" using in_c(1) by (simp add: usage_resolved_def)
        have nc: "ar_status (verdict st rqs) \<noteq> Candidate" by (simp add: v(1))
        have ex: "\<exists>rq \<in> set ?cands. ar_request (verdict st rqs) = Some (kr_id rq) \<and>
            (ar_status (verdict st rqs) = Candidate \<longrightarrow> ?cands = [rq]) \<and>
            (ar_status (verdict st rqs) \<noteq> Candidate \<longrightarrow> matches_usage st rq \<and> kr_finished rq \<noteq> None \<and>
              (\<forall>x \<in> set ?cands. usage_resolved x \<and> (matches_usage st x \<longrightarrow> x = rq)))"
          by (rule bexI [OF _ in_c(1)], intro conjI impI ballI) (use v(2) nc in_c u k in blast)+
        have "es_epoch st \<noteq> None" "es_confidence st \<noteq> Unavailable" "\<not> es_conflict st" "\<not> es_overflow st"
          "length (es_overlaps st) > 1 \<longrightarrow> set (es_overlaps st) \<subseteq> kr_id ` set ?cands"
          using False by auto
        then have "owner_ok st rqs (verdict st rqs)"
          unfolding owner_ok_def by (intro conjI ex)
        then show ?thesis using v(1) by simp
      next
        case bad: False
        have f: "\<not> (es_epoch st = None \<or> es_confidence st = Unavailable)" "\<not> es_conflict st"
          "\<not> (es_overflow st \<or> length (es_overlaps st) > 1 \<and> \<not> set (es_overlaps st) \<subseteq> set (map kr_id ?cands))"
          using False by blast+
        have "verdict st rqs =
            (if \<not> list_all usage_resolved ?cands then abstain st OverlappingWindows
             else (case filter (matches_usage st) ?cands of
                    [rq] \<Rightarrow> (abstain st UsageOverlap)
                       \<lparr>ar_request := Some (kr_id rq), ar_status := Corroborated,
                        ar_confidence := epoch_rank (es_confidence st), ar_delta := dispatch_delta st rq\<rparr>
                  | [] \<Rightarrow> abstain st UsageConflict
                  | _ \<Rightarrow> abstain st OverlappingUsage))"
          unfolding verdict_def Let_def if_not_P [OF f(1)] if_not_P [OF f(2)] if_not_P [OF f(3)] by (simp only: 3 list.case)
        moreover have "(case l of [rq] \<Rightarrow> g rq | [] \<Rightarrow> abstain st UsageConflict | _ \<Rightarrow> abstain st OverlappingUsage)
            \<in> range (abstain st)" if "length l \<noteq> 1" for l :: "known_request list" and g
          using that by (cases l rule: remdups_adj.cases) auto
        ultimately have "verdict st rqs \<in> range (abstain st)" using bad by auto
        then show ?thesis by auto
      qed
    qed
  qed
qed

lemma settle_row_fields [simp]:
  "ar_sample (settle_row rqs rows row) = ar_sample row" "ar_node (settle_row rqs rows row) = ar_node row"
  "ar_time (settle_row rqs rows row) = ar_time row" "ar_epoch (settle_row rqs rows row) = ar_epoch row"
  "ar_prompt (settle_row rqs rows row) = ar_prompt row" "ar_cached (settle_row rqs rows row) = ar_cached row"
  "ar_request (settle_row rqs rows row) = ar_request row"
  by (simp_all add: settle_row_def split: option.split)

lemma settle_row_cases:
  "settle_row rqs rows row = row \<and> ar_request row = None \<or>
   ar_status (settle_row rqs rows row) = Abstained \<or>
   (\<exists>i. ar_request row = Some i \<and> owners rows i \<le> 1 \<and>
      (ar_status (settle_row rqs rows row) = ar_status row \<or>
       (\<exists>rq. find_request i rqs = Some rq \<and> kr_finished rq \<noteq> None \<and>
          usage_of rq = Some (ar_prompt row, ar_cached row) \<and> ar_status (settle_row rqs rows row) = Corroborated)))"
proof (cases "ar_request row")
  case None
  then show ?thesis by (simp add: settle_row_def)
next
  case (Some i)
  show ?thesis
  proof (cases "owners rows i > 1 \<or> ar_status row = Corroborated")
    case True
    then show ?thesis using Some by (auto simp: settle_row_def not_less)
  next
    case False
    then show ?thesis
      using Some by (cases "find_request i rqs") (auto simp: settle_row_def not_less split: option.split prod.split)
  qed
qed

lemma owners_unique:
  assumes "owners rows i \<le> 1" and "r \<in> set rows" "r' \<in> set rows" "ar_request r = Some i" "ar_request r' = Some i"
  shows "r = r'"
proof -
  have "{r, r'} \<subseteq> set (filter (\<lambda>r. ar_request r = Some i) rows)" using assms by auto
  moreover have "card (set (filter (\<lambda>r. ar_request r = Some i) rows)) \<le> 1"
    using assms(1) card_length [of "filter (\<lambda>r. ar_request r = Some i) rows"] by (simp add: owners_def)
  ultimately have "card {r, r'} \<le> 1" by (meson List.finite_set card_mono dual_order.trans)
  then show ?thesis by (cases "r = r'") simp_all
qed

definition owns :: "attribution \<Rightarrow> engine_start \<Rightarrow> known_request \<Rightarrow> at_row \<Rightarrow> bool" where
  "owns s st rq row \<longleftrightarrow> st \<in> set (at_starts s) \<and> rq \<in> set (at_requests s) \<and> \<not> kr_conflict rq \<and>
     es_sample st = ar_sample row \<and> es_time st = ar_time row \<and> es_node st = ar_node row \<and>
     window_contains st rq \<and> ar_request row = Some (kr_id rq)"

lemma attribution_row_meaning:
  assumes d: "distinct (map kr_id (at_requests s))" and row: "row \<in> set (attribution_rows s)"
    and st: "ar_status row \<noteq> Abstained"
  shows "\<exists>start rq. owns s start rq row \<and> ar_epoch row \<noteq> None \<and>
    (ar_status row = Corroborated \<longrightarrow> kr_finished rq \<noteq> None \<and> usage_of rq = Some (ar_prompt row, ar_cached row)) \<and>
    (\<forall>row' \<in> set (attribution_rows s). ar_request row' = ar_request row \<longrightarrow> row' = row)"
proof -
  let ?clean = "clean_requests (at_requests s)"
  define rows where "rows = map (\<lambda>st. verdict st ?clean) (at_starts s)"
  have all: "attribution_rows s = map (settle_row (at_requests s) rows) rows"
    by (simp add: attribution_rows_def rows_def Let_def)
  obtain start where start: "start \<in> set (at_starts s)" "row = settle_row (at_requests s) rows (verdict start ?clean)"
    using row by (auto simp: all rows_def)
  let ?v = "verdict start ?clean"
  have v: "?v \<in> set rows" using start by (simp add: rows_def)
  have own: "ar_status ?v \<noteq> Abstained \<and> owner_ok start ?clean ?v"
    using verdict_cases [of start ?clean] settle_row_cases [of "at_requests s" rows ?v] st start(2) by auto
  then obtain rq where rq: "rq \<in> set (candidate_windows start ?clean)" "ar_request ?v = Some (kr_id rq)"
    "ar_status ?v = Candidate \<or> matches_usage start rq \<and> kr_finished rq \<noteq> None"
    by (auto simp: owner_ok_def split: if_splits)
  have rq_in: "rq \<in> set (at_requests s)" "\<not> kr_conflict rq" "window_contains start rq"
    using rq(1) by (auto simp: candidate_windows_def clean_requests_def)
  have f: "find_request (kr_id rq) (at_requests s) = Some rq"
    by (rule find_request_distinct [OF d rq_in(1)])
  have settled: "owners rows (kr_id rq) \<le> 1 \<and>
      (ar_status row = ar_status ?v \<or>
       kr_finished rq \<noteq> None \<and> usage_of rq = Some (ar_prompt ?v, ar_cached ?v))"
    using settle_row_cases [of "at_requests s" rows ?v] st start(2) rq(2) f by auto
  have uniq: "row' = row" if r': "row' \<in> set (attribution_rows s)" "ar_request row' = ar_request row" for row'
  proof -
    obtain v' where v': "v' \<in> set rows" "row' = settle_row (at_requests s) rows v'" using r'(1) by (auto simp: all)
    then have "ar_request v' = Some (kr_id rq)" using r'(2) start(2) rq(2) by simp
    then have "v' = ?v" using owners_unique [of rows "kr_id rq" v' ?v] settled v'(1) v rq(2) by simp
    then show ?thesis using v'(2) start(2) by simp
  qed
  have "owns s start rq row"
    using start rq(2) rq_in by (simp add: owns_def)
  moreover have "ar_epoch row \<noteq> None" using own start(2) by (simp add: owner_ok_def)
  moreover have "kr_finished rq \<noteq> None \<and> usage_of rq = Some (ar_prompt row, ar_cached row)" if "ar_status row = Corroborated"
    using that settled rq(3) start(2) by (auto simp: matches_usage_def)
  ultimately show ?thesis using uniq by blast
qed

lemma matches_usage_settle [simp]: "matches_usage (settle_start rqs st) rq = matches_usage st rq"
  by (simp add: matches_usage_def settle_start_def)

lemma window_contains_settle [simp]: "window_contains (settle_start rqs st) rq = window_contains st rq"
  by (simp add: window_contains_def split: option.split)

lemma owns_reconcile: "owns (prepared s) st rq row \<Longrightarrow>
  owns (reconcile digest s) (settle_start (clean_requests (at_requests (prepared s))) st) rq row"
  by (auto simp: owns_def reconcile_fields)

lemma reported_rows: "row \<in> set (at_rows (reconcile digest s)) \<Longrightarrow> row \<in> set (attribution_rows (prepared s))"
  by (auto simp: reconcile_fields dest!: in_set_takeD)

section \<open>Properties\<close>

definition sample_a :: string where "sample_a = replicate 64 CHR ''a''"

definition demo_request :: js where
  "demo_request = JObj [(''event'', JStr ''request_dispatched''), (''request_id'', JStr ''00000000-0000-0000-0000-000000000001''),
     (''node'', JStr ''spark''), (''time'', JNum 1000)]"

definition demo_finish :: js where
  "demo_finish = JObj [(''event'', JStr ''request_finished''), (''request_id'', JStr ''00000000-0000-0000-0000-000000000001''),
     (''node'', JStr ''spark''), (''time'', JNum 9000), (''outcome'', JStr ''complete''),
     (''usage'', JObj [(''prompt_tokens'', JNum 7), (''cached_tokens'', JNum 3)])]"

definition demo_start :: js where
  "demo_start = JObj [(''kind'', JStr ''start''), (''node'', JStr ''spark''), (''sample_id'', JStr sample_a), (''time'', JNum 1500),
     (''prompt'', JNum 7), (''cached'', JNum 3), (''new_tokens'', JNum 4), (''backend_epoch'', JStr sample_a),
     (''backend_epoch_confidence'', JStr ''strong'')]"

definition demo_rows :: "evidence_row list" where
  "demo_rows = [GatewayRow demo_request, EngineRow demo_start, GatewayRow demo_finish]"

text \<open>C13: whatever evidence arrived in whatever order, a reported row that names an owner names one
  uncontradicted request of the same server whose window holds the engine start, the engine process
  epoch is known, and no other reported row names that request; a corroborated row's request has
  finished with exactly the prompt and cached tokens of the start.\<close>

theorem attribution_never_guesses:
  assumes "row \<in> set (at_rows (run_evidence date digest rs))" and "ar_status row \<noteq> Abstained"
  shows "\<exists>start rq. owns (run_evidence date digest rs) start rq row \<and> ar_epoch row \<noteq> None \<and>
    (ar_status row = Corroborated \<longrightarrow> kr_finished rq \<noteq> None \<and> usage_of rq = Some (ar_prompt row, ar_cached row)) \<and>
    (\<forall>row' \<in> set (at_rows (run_evidence date digest rs)). ar_request row' = ar_request row \<longrightarrow> row' = row)"
proof -
  have "run_evidence date digest rs \<noteq> at_initial" using assms(1) by (auto simp: at_initial_def)
  then obtain s where s: "at_ok s" "run_evidence date digest rs = reconcile digest s"
    using run_evidence_cases [of date digest rs] by blast
  have "distinct (map kr_id (at_requests (prepared s)))" using prepared_ok [OF s(1)] by (simp add: at_ok_def)
  from attribution_row_meaning [OF this reported_rows [of row digest s] assms(2)] assms(1) s(2)
  obtain start rq where o: "owns (prepared s) start rq row" "ar_epoch row \<noteq> None"
    "ar_status row = Corroborated \<longrightarrow> kr_finished rq \<noteq> None \<and> usage_of rq = Some (ar_prompt row, ar_cached row)"
    "\<forall>row' \<in> set (attribution_rows (prepared s)). ar_request row' = ar_request row \<longrightarrow> row' = row"
    by auto
  then show ?thesis using owns_reconcile [OF o(1), of digest] reported_rows s(2) by metis
qed

lemma demo_corroborated:
  "map (\<lambda>r. (ar_status r, ar_sample r)) (at_rows (run_evidence (\<lambda>_. None) (\<lambda>_. []) demo_rows)) = [(Corroborated, sample_a)]"
  by code_simp

theorem attribution_never_guesses_witness:
  "\<exists>start rq row. owns (run_evidence (\<lambda>_. None) (\<lambda>_. []) demo_rows) start rq row \<and>
     kr_finished rq \<noteq> None \<and> usage_of rq = Some (ar_prompt row, ar_cached row)"
proof -
  let ?rows = "at_rows (run_evidence (\<lambda>_. None) (\<lambda>_. []) demo_rows)"
  obtain row where row: "row \<in> set ?rows" "ar_status row = Corroborated"
    using demo_corroborated by (cases ?rows) auto
  then show ?thesis using attribution_never_guesses [OF row(1)] by auto
qed

lemma two_members:
  assumes "distinct xs" and "1 < length xs"
  shows "\<exists>x y. x \<in> set xs \<and> y \<in> set xs \<and> x \<noteq> y"
proof -
  have i: "0 < length xs" "1 < length xs" using assms(2) by (auto intro: gr_zeroI)
  have "xs ! 0 \<noteq> xs ! 1" using nth_eq_iff_index_eq [OF assms(1) i] by simp
  then show ?thesis using nth_mem [OF i(1)] nth_mem [OF i(2)] by blast
qed

text \<open>A start that ever overlapped two requests is never reported as the mere candidate of one of
  them: it is named only when every request it overlapped is still known, uncontradicted and finished
  with its usage, and exactly one of them used what the start reports.\<close>

theorem overlap_is_never_forgotten:
  assumes "st \<in> set (at_starts (run_evidence date digest rs))" and "length (es_overlaps st) > 1"
    and "row \<in> set (at_rows (run_evidence date digest rs))" and "ar_sample row = es_sample st"
    and "ar_status row \<noteq> Abstained"
  shows "ar_status row = Corroborated \<and>
    (\<forall>i \<in> set (es_overlaps st). \<exists>rq \<in> set (at_requests (run_evidence date digest rs)).
       kr_id rq = i \<and> \<not> kr_conflict rq \<and> window_contains st rq \<and> usage_resolved rq \<and>
       (matches_usage st rq \<longleftrightarrow> ar_request row = Some i))"
proof -
  have "run_evidence date digest rs \<noteq> at_initial" using assms(1) by (auto simp: at_initial_def)
  then obtain s where s: "at_ok s" "run_evidence date digest rs = reconcile digest s"
    using run_evidence_cases [of date digest rs] by blast
  let ?p = "prepared s" and ?rqs = "clean_requests (at_requests (prepared s))"
  have p: "at_ok ?p" using prepared_ok [OF s(1)] by simp
  obtain st0 where st0: "st0 \<in> set (at_starts ?p)" "st = settle_start ?rqs st0"
    using assms(1) s(2) by (auto simp: reconcile_fields)
  define rows where "rows = map (\<lambda>st. verdict st ?rqs) (at_starts ?p)"
  obtain st1 where st1: "st1 \<in> set (at_starts ?p)" "row = settle_row (at_requests ?p) rows (verdict st1 ?rqs)"
    using reported_rows [of row digest s] assms(3) s(2) by (auto simp: attribution_rows_def Let_def rows_def)
  have "es_sample st1 = es_sample st0" using assms(4) st0(2) st1(2) by simp
  then have same: "st1 = st0" using p st0(1) st1(1) by (auto simp: at_ok_def distinct_map dest: inj_onD)
  let ?v = "verdict st0 ?rqs" and ?cands = "candidate_windows st0 ?rqs"
  have own: "ar_status ?v \<noteq> Abstained" "owner_ok st0 ?rqs ?v"
    using verdict_cases [of st0 ?rqs] settle_row_cases [of "at_requests ?p" rows ?v] assms(5) st1(2) same by auto
  have ov: "length (es_overlaps st0) > 1" "set (es_overlaps st0) \<subseteq> kr_id ` set ?cands" "distinct (es_overlaps st0)"
    using own(2) assms(2) st0 p by (auto simp: owner_ok_def at_ok_def start_ok_def)
  obtain a b where ab: "a \<in> set ?cands" "b \<in> set ?cands" "a \<noteq> b"
  proof -
    obtain x y where "x \<in> set (es_overlaps st0)" "y \<in> set (es_overlaps st0)" "x \<noteq> y"
      using two_members [OF ov(3,1)] by blast
    then have "x \<in> kr_id ` set ?cands" "y \<in> kr_id ` set ?cands" "x \<noteq> y" using ov(2) by blast+
    then show ?thesis using that by blast
  qed
  have nc: "ar_status ?v \<noteq> Candidate"
  proof
    assume "ar_status ?v = Candidate"
    then obtain rq where "?cands = [rq]" using own(2) unfolding owner_ok_def by blast
    then show False using ab by simp
  qed
  then have cor: "ar_status ?v = Corroborated" using own(1) by (cases "ar_status ?v") simp_all
  obtain rq where rq: "rq \<in> set ?cands" "ar_request ?v = Some (kr_id rq)" "matches_usage st0 rq"
    "\<forall>x \<in> set ?cands. usage_resolved x \<and> (matches_usage st0 x \<longrightarrow> x = rq)"
    using own(2) nc unfolding owner_ok_def by blast
  have "ar_status row = Corroborated"
    using assms(5) st1(2) same settle_row_cases [of "at_requests ?p" rows ?v] rq(2) cor by auto
  moreover have m: "matches_usage st x = matches_usage st0 x" "window_contains st x = window_contains st0 x" for x
    using st0(2) by simp_all
  have dk: "distinct (map kr_id (at_requests ?p))" using p by (simp add: at_ok_def)
  have "\<exists>x \<in> set (at_requests (run_evidence date digest rs)).
       kr_id x = i \<and> \<not> kr_conflict x \<and> window_contains st x \<and> usage_resolved x \<and>
       (matches_usage st x \<longleftrightarrow> ar_request row = Some i)" if i: "i \<in> set (es_overlaps st)" for i
  proof -
    obtain x where x: "x \<in> set ?cands" "kr_id x = i" using i ov(2) st0(2) by auto
    have in_p: "x \<in> set (at_requests ?p)" "rq \<in> set (at_requests ?p)" "\<not> kr_conflict x" "window_contains st0 x"
      using x(1) rq(1) by (auto simp: candidate_windows_def clean_requests_def)
    have "(matches_usage st0 x \<longleftrightarrow> kr_id rq = i)"
      using rq(3,4) x in_p(1,2) dk by (auto simp: distinct_map dest: inj_onD)
    then show ?thesis
      using x in_p rq(2,4) m s(2) st1(2) same by (auto simp: reconcile_fields intro!: bexI [of _ x])
  qed
  ultimately show ?thesis by blast
qed

definition gateway_row :: "string \<Rightarrow> string \<Rightarrow> rat \<Rightarrow> rat \<Rightarrow> rat \<Rightarrow> evidence_row" where
  "gateway_row ev i t p c = GatewayRow (JObj [(''event'', JStr ev),
     (''request_id'', JStr (''00000000-0000-0000-0000-00000000000'' @ i)), (''node'', JStr ''spark''), (''time'', JNum t),
     (''outcome'', JStr ''complete''), (''usage'', JObj [(''prompt_tokens'', JNum p), (''cached_tokens'', JNum c)])])"

definition overlap_rows :: "evidence_row list" where
  "overlap_rows = [gateway_row ''request_dispatched'' ''1'' 1000 0 0, gateway_row ''request_dispatched'' ''2'' 1200 0 0,
     EngineRow demo_start, gateway_row ''request_finished'' ''1'' 9000 7 3, gateway_row ''request_finished'' ''2'' 9500 8 3]"

lemma overlap_facts:
  "map (\<lambda>st. (es_sample st, length (es_overlaps st))) (at_starts (run_evidence (\<lambda>_. None) (\<lambda>_. []) overlap_rows)) = [(sample_a, 2)]"
  "map (\<lambda>r. (ar_status r, ar_sample r)) (at_rows (run_evidence (\<lambda>_. None) (\<lambda>_. []) overlap_rows)) = [(Corroborated, sample_a)]"
  by code_simp+

theorem overlap_is_never_forgotten_witness:
  "\<exists>st (row :: at_row). length (es_overlaps st) = 2 \<and> (\<forall>i \<in> set (es_overlaps st).
     \<exists>rq \<in> set (at_requests (run_evidence (\<lambda>_. None) (\<lambda>_. []) overlap_rows)).
       kr_id rq = i \<and> usage_resolved rq \<and> (matches_usage st rq \<longleftrightarrow> ar_request row = Some i))"
proof -
  let ?s = "run_evidence (\<lambda>_. None) (\<lambda>_. []) overlap_rows"
  obtain st where st: "st \<in> set (at_starts ?s)" "es_sample st = sample_a" "length (es_overlaps st) = 2"
    using overlap_facts(1) unfolding map_eq_Cons_conv by auto
  obtain row where row: "row \<in> set (at_rows ?s)" "ar_sample row = sample_a" "ar_status row \<noteq> Abstained"
    using overlap_facts(2) unfolding map_eq_Cons_conv by auto
  have "1 < length (es_overlaps st)" "ar_sample row = es_sample st" using st row by simp_all
  note t = overlap_is_never_forgotten [OF st(1) this(1) row(1) this(2) row(3)]
  show ?thesis
  proof (rule exI [of _ st], rule exI [of _ row], rule conjI, goal_cases)
    case 1
    show ?case by (rule st(3))
  next
    case 2
    show ?case using conjunct2 [OF t] by blast
  qed
qed

text \<open>However much evidence arrives, at most 512 requests and 512 engine starts are remembered,
  each under one identifier, and no start remembers more than 64 overlapping requests.\<close>

lemma attribution_is_bounded:
  "let s = run_evidence date digest rs in
   length (at_requests s) \<le> 512 \<and> distinct (map kr_id (at_requests s)) \<and>
   length (at_starts s) \<le> 512 \<and> distinct (map es_sample (at_starts s)) \<and> length (at_rows s) \<le> 64 \<and>
   list_all (\<lambda>st. length (es_overlaps st) \<le> 64) (at_starts s)"
proof -
  let ?s = "run_evidence date digest rs"
  have ok: "at_ok ?s" "at_bounded ?s" using run_evidence_ok by blast+
  have rows: "length (at_rows ?s) \<le> 64"
    using run_evidence_cases [of date digest rs] by (auto simp: at_initial_def reconcile_fields)
  have "list_all (\<lambda>st. length (es_overlaps st) \<le> 64) (at_starts ?s)"
    using ok(1) by (simp add: at_ok_def start_ok_def max_overlaps_def list_all_iff)
  then show ?thesis
    using ok rows by (simp add: at_ok_def at_bounded_def max_records_def Let_def)
qed

end
