(* ===== verification/Request_Hints.thy ===== *)
theory Request_Hints
  imports Gate_Prelude
begin

text \<open>
  What the gateway records of a request besides forwarding it: the optional admission hints of a
  client (\<open>client-metadata.mjs\<close>) and the thinking controls of its body (\<open>requested-thinking.mjs\<close>).
  Both are allowlists over untrusted values, applied when the request is observed and again where
  the record is shown. \<open>JSON.parse\<close> is the parameter \<open>parse\<close>; a body is the text of its bytes.
\<close>

section \<open>Client metadata\<close>

text \<open>\<open>Buffer.byteLength\<close> of a string of code units below 256.\<close>

definition utf8_length :: "string \<Rightarrow> nat" where
  "utf8_length s = sum_list (map (\<lambda>c. if (of_char c :: nat) < 128 then 1 else 2) s)"

definition hint_fields :: "string list" where
  "hint_fields = [''prompt_tokens_estimate'', ''turn_index'', ''compaction_count'', ''reasoning_effort'']"

definition hint_limit :: "string \<Rightarrow> int" where
  "hint_limit key = (if key = ''prompt_tokens_estimate'' then 16777216 else 1000000)"

definition hint_efforts :: "string list" where
  "hint_efforts = [''none'', ''minimal'', ''low'', ''medium'', ''high'', ''xhigh'']"

definition empty_hints :: "string \<Rightarrow> js_fields" where
  "empty_hints status = [(''schema'', jint 1), (''status'', JStr status), (''source'', JStr ''client_header'')] @
     map (\<lambda>k. (k, JNull)) hint_fields"

definition hint_ok :: "string \<Rightarrow> js \<Rightarrow> bool" where
  "hint_ok key v =
     (if key = ''reasoning_effort'' then (case v of JStr e \<Rightarrow> e \<in> set hint_efforts | _ \<Rightarrow> False)
      else (case safe_int v of None \<Rightarrow> False | Some n \<Rightarrow> 0 \<le> n \<and> n \<le> hint_limit key))"

fun set_field :: "string \<Rightarrow> js \<Rightarrow> js_fields \<Rightarrow> js_fields" where
  "set_field k v [] = [(k, v)]"
| "set_field k v ((k', v') # kvs) = (if k' = k then (k, v) # kvs else (k', v') # set_field k v kvs)"

fun take_hints :: "js \<Rightarrow> string list \<Rightarrow> js_fields \<Rightarrow> js_fields option" where
  "take_hints input [] res = Some res"
| "take_hints input (key # keys) res =
     (let v = jget input key in
      if nullish v then take_hints input keys res
      else if \<not> hint_ok key v then None
      else take_hints input keys (set_field key v res))"

definition hint_values :: "js \<Rightarrow> js_fields option" where
  "hint_values input =
     (if \<not> is_obj input \<or> jget input ''schema'' \<noteq> jint 1 \<or>
         list_ex (\<lambda>k. k \<noteq> ''schema'' \<and> k \<notin> set hint_fields) (jkeys input)
      then None else take_hints input hint_fields (empty_hints ''ready''))"

definition hints_or_invalid :: "js_fields option \<Rightarrow> js" where
  "hints_or_invalid r = JObj (case r of Some kvs \<Rightarrow> kvs | None \<Rightarrow> empty_hints ''invalid'')"

definition client_metadata :: "(string \<Rightarrow> js option) \<Rightarrow> js \<Rightarrow> js" where
  "client_metadata parse header =
     (case header of
        JUndef \<Rightarrow> JObj (empty_hints ''missing'')
      | JStr h \<Rightarrow>
          if utf8_length h > 512 then JObj (empty_hints ''invalid'')
          else (case parse h of None \<Rightarrow> JObj (empty_hints ''invalid'') | Some v \<Rightarrow> hints_or_invalid (hint_values v))
      | _ \<Rightarrow> JObj (empty_hints ''invalid''))"

definition safe_client_metadata :: "js \<Rightarrow> js" where
  "safe_client_metadata input =
     (case (jget input ''schema'' = jint 1, jget input ''status'') of
        (True, JStr st) \<Rightarrow>
          if st = ''missing'' \<or> st = ''invalid'' then JObj (empty_hints st)
          else if st \<noteq> ''ready'' then JObj (empty_hints ''invalid'')
          else hints_or_invalid (hint_values (JObj ((''schema'', jint 1) # map (\<lambda>k. (k, jget input k)) hint_fields)))
      | _ \<Rightarrow> JObj (empty_hints ''invalid''))"

section \<open>Requested thinking\<close>

definition thinking_efforts :: "string list" where
  "thinking_efforts = [''none'', ''minimal'', ''low'', ''medium'', ''high'', ''xhigh'', ''max'']"

definition thinking_types :: "string list" where
  "thinking_types = [''enabled'', ''disabled'', ''adaptive'']"

definition thinking_reasons :: "string list" where
  "thinking_reasons = [''capture_limit'', ''invalid_json'', ''encoded_body'', ''incomplete_body'']"

definition boolean_controls :: "string list" where
  "boolean_controls = [''thinking'', ''think'', ''enable_thinking'', ''chat_template_kwargs.enable_thinking'']"

definition unrecognized :: js where
  "unrecognized = JStr ''unrecognized''"

definition known_word :: "string list \<Rightarrow> js \<Rightarrow> js" where
  "known_word words v = (case v of JStr w \<Rightarrow> if w \<in> set words then v else unrecognized | _ \<Rightarrow> unrecognized)"

definition scalar :: "string \<Rightarrow> js \<Rightarrow> js" where
  "scalar key v =
     (if v = JNull then JNull
      else if key \<in> set boolean_controls then (if is_bool v then v else unrecognized)
      else if key = ''thinking.budget_tokens'' then
        (case safe_int v of Some n \<Rightarrow> if n \<ge> 0 then v else unrecognized | None \<Rightarrow> unrecognized)
      else known_word (if key = ''thinking.type'' then thinking_types else thinking_efforts) v)"

definition thinking_keys :: "string list" where
  "thinking_keys = [''think'', ''reasoning_effort'', ''reasoning.effort'', ''output_config.effort'', ''thinking'',
     ''thinking.type'', ''thinking.budget_tokens'', ''enable_thinking'', ''chat_template_kwargs.enable_thinking'',
     ''chat_template_kwargs.reasoning_effort'']"

definition text_in :: "string list \<Rightarrow> js \<Rightarrow> bool" where
  "text_in words v = (case v of JStr w \<Rightarrow> w \<in> set words | _ \<Rightarrow> False)"

definition safe_fields :: "js \<Rightarrow> js_fields" where
  "safe_fields fs = map (\<lambda>k. (k, scalar k (jget fs k))) (filter (has_own fs) thinking_keys)"

definition served_shown :: "js \<Rightarrow> bool" where
  "served_shown s \<longleftrightarrow> is_obj s \<and> text_in [''high'', ''max'', ''none''] (jget s ''mode'') \<and>
     jget s ''basis'' = JStr ''ds4_request_rules''"

definition thinking_statuses :: "string list" where
  "thinking_statuses = [''pending'', ''specified'', ''not_specified'', ''unavailable'']"

definition safe_requested_thinking :: "js \<Rightarrow> js" where
  "safe_requested_thinking raw =
     (if \<not> is_obj raw \<or> \<not> text_in thinking_statuses (jget raw ''status'') then JNull
      else JObj ([(''status'', jget raw ''status'')] @
        (if text_in thinking_reasons (jget raw ''reason'') then [(''reason'', jget raw ''reason'')] else []) @
        (if jget raw ''status'' = JStr ''specified'' \<and> is_obj (jget raw ''fields'')
         then [(''fields'', JObj (safe_fields (jget raw ''fields'')))] else []) @
        (if served_shown (jget raw ''served'')
         then [(''served'', JObj [(''mode'', jget (jget raw ''served'') ''mode''), (''basis'', JStr ''ds4_request_rules'')])]
         else [])))"

text \<open>The controls of a body, in the order the code adds them.\<close>

definition own_control :: "js \<Rightarrow> string \<Rightarrow> js_fields" where
  "own_control body key = (if has_own body key then [(key, scalar key (jget body key))] else [])"

definition nested_effort :: "js \<Rightarrow> string \<Rightarrow> js_fields" where
  "nested_effort body parent =
     (let p = jget body parent; key = parent @ ''.effort'' in
      if is_obj p \<and> has_own p ''effort'' then [(key, scalar key (jget p ''effort''))]
      else if has_own body parent \<and> p \<noteq> JNull \<and> \<not> is_obj p then [(key, unrecognized)]
      else [])"

definition template_control :: "js \<Rightarrow> string \<Rightarrow> js_fields" where
  "template_control body key =
     (let kw = jget body ''chat_template_kwargs''; full = ''chat_template_kwargs.'' @ key in
      if is_obj kw \<and> has_own kw key then [(full, scalar full (jget kw key))] else [])"

definition thinking_controls :: "js \<Rightarrow> js_fields" where
  "thinking_controls body =
     (let t = jget body ''thinking'' in
      if is_obj t then
        (if has_own t ''type'' then [(''thinking.type'', scalar ''thinking.type'' (jget t ''type''))] else []) @
        (if has_own t ''budget_tokens''
         then [(''thinking.budget_tokens'', scalar ''thinking.budget_tokens'' (jget t ''budget_tokens''))] else []) @
        (if \<not> has_own t ''type'' \<and> \<not> has_own t ''budget_tokens'' then [(''thinking'', unrecognized)] else [])
      else own_control body ''thinking'')"

definition requested_fields :: "js \<Rightarrow> js_fields" where
  "requested_fields body =
     concat (map (own_control body) [''reasoning_effort'', ''think'', ''enable_thinking'']) @
     concat (map (nested_effort body) [''reasoning'', ''output_config'']) @
     concat (map (template_control body) [''enable_thinking'', ''reasoning_effort'']) @
     thinking_controls body"

definition requested_thinking :: "js \<Rightarrow> js" where
  "requested_thinking body =
     (if \<not> is_obj body then JObj [(''status'', JStr ''unavailable''), (''reason'', JStr ''invalid_json'')]
      else if requested_fields body \<noteq> []
      then JObj [(''status'', JStr ''specified''), (''fields'', JObj (requested_fields body))]
      else JObj [(''status'', JStr ''not_specified'')])"

section \<open>Served thinking\<close>

datatype served_mode = ModeNone | ModeHigh | ModeMax

record thinking_scan =
  ts_explicit :: bool
  ts_effort :: served_mode
  ts_controls :: "bool list"
  ts_levels :: "served_mode list"

definition effort_mode :: "string \<Rightarrow> served_mode" where
  "effort_mode e = (if e = ''max'' then ModeMax else if e = ''none'' then ModeNone else ModeHigh)"

definition scan_thinking :: "string \<Rightarrow> string \<Rightarrow> js \<Rightarrow> thinking_scan \<Rightarrow> thinking_scan option" where
  "scan_thinking route key v ts =
     (if key = ''thinking'' \<and> route \<noteq> ''/v1/responses'' then
        (let ts1 = ts\<lparr>ts_explicit := True\<rparr> in
         case v of
           JBool b \<Rightarrow> Some (ts1\<lparr>ts_controls := ts_controls ts1 @ [b]\<rparr>)
         | JObj kvs \<Rightarrow>
             if \<not> has_own v ''type'' then Some ts1
             else (case jget v ''type'' of
                     JStr t \<Rightarrow> Some (if t = ''enabled'' then ts1\<lparr>ts_controls := ts_controls ts1 @ [True]\<rparr>
                                   else if t = ''disabled'' then ts1\<lparr>ts_controls := ts_controls ts1 @ [False]\<rparr>
                                   else ts1)
                   | _ \<Rightarrow> None)
         | _ \<Rightarrow> Some ts1)
      else if key = ''think'' \<and> route \<in> {''/v1/chat/completions'', ''/v1/completions''} then
        (case v of
           JBool b \<Rightarrow> Some (ts\<lparr>ts_explicit := True, ts_controls := ts_controls ts @ [b]\<rparr>)
         | _ \<Rightarrow> None)
      else Some ts)"

definition effort_candidate :: "string \<Rightarrow> string \<Rightarrow> js \<Rightarrow> js" where
  "effort_candidate route key v =
     (if key = ''reasoning_effort'' \<and> route \<noteq> ''/v1/responses'' then v
      else if key = ''reasoning'' \<and> route = ''/v1/responses'' \<and> is_obj v then jget v ''effort''
      else if key = ''output_config'' \<and> route = ''/v1/messages'' \<and> is_obj v then jget v ''effort''
      else JUndef)"

definition scan_entry :: "string \<Rightarrow> string \<times> js \<Rightarrow> thinking_scan option \<Rightarrow> thinking_scan option" where
  "scan_entry route kv s =
     (case s of
        None \<Rightarrow> None
      | Some ts0 \<Rightarrow>
          (case scan_thinking route (fst kv) (snd kv) ts0 of
             None \<Rightarrow> None
           | Some ts \<Rightarrow>
               (let c = effort_candidate route (fst kv) (snd kv);
                    ts1 = (if fst kv = ''reasoning'' \<and> route = ''/v1/responses'' \<and> is_obj (snd kv) \<and> \<not> nullish c
                           then ts\<lparr>ts_explicit := True\<rparr> else ts)
                in if nullish c then Some ts1
                   else (case c of
                     JStr e \<Rightarrow>
                       if e \<notin> set thinking_efforts then None
                       else Some (ts1\<lparr>ts_effort := effort_mode e, ts_levels := ts_levels ts1 @ [effort_mode e]\<rparr>)
                   | _ \<Rightarrow> None))))"

definition served_routes :: "string list" where
  "served_routes = [''/v1/chat/completions'', ''/v1/completions'', ''/v1/messages'', ''/v1/responses'']"

definition start_scan_thinking :: thinking_scan where
  "start_scan_thinking = \<lparr>ts_explicit = False, ts_effort = ModeHigh, ts_controls = [], ts_levels = []\<rparr>"

definition one_value :: "'a list \<Rightarrow> bool" where
  "one_value xs \<longleftrightarrow> (\<forall>x \<in> set xs. \<forall>y \<in> set xs. x = y)"

text \<open>The mode from the scan; \<open>name\<close> is the model name of the body.\<close>

definition served_decision :: "string \<Rightarrow> js \<Rightarrow> thinking_scan \<Rightarrow> served_mode option" where
  "served_decision name context ts =
     (if \<not> one_value (ts_controls ts) \<or> \<not> one_value (ts_levels ts) then None
      else
        let enabled0 = (case ts_controls ts of [] \<Rightarrow> True | c # cs \<Rightarrow> c);
            enabled = (if \<not> ts_explicit ts \<and> name = ''deepseek-chat'' then False else enabled0);
            mode = (if \<not> enabled \<or> ts_effort ts = ModeNone then ModeNone else ts_effort ts)
        in if mode = ModeMax then
             (case safe_int context of
                None \<Rightarrow> None
              | Some n \<Rightarrow> if n \<le> 0 then None else Some (if n < 393216 then ModeHigh else ModeMax))
           else Some mode)"

definition served_thinking :: "js \<Rightarrow> string \<Rightarrow> js \<Rightarrow> js \<Rightarrow> served_mode option" where
  "served_thinking body route model context =
     (case body of
        JObj kvs \<Rightarrow>
          if model \<noteq> JStr ''deepseek-v4-flash'' \<or> route \<notin> set served_routes then None
          else (case or_else (jget body ''model'') model of
                  JStr name \<Rightarrow>
                    if name \<notin> {''deepseek-v4-flash'', ''deepseek-chat'', ''deepseek-reasoner''} then None
                    else (case fold (scan_entry route) kvs (Some start_scan_thinking) of
                            None \<Rightarrow> None
                          | Some ts \<Rightarrow> served_decision name context ts)
                | _ \<Rightarrow> None)
      | _ \<Rightarrow> None)"

section \<open>The allowlists are stable\<close>

definition ready_hints :: "(string \<Rightarrow> js) \<Rightarrow> js_fields" where
  "ready_hints f = [(''schema'', jint 1), (''status'', JStr ''ready''), (''source'', JStr ''client_header'')] @
     map (\<lambda>k. (k, f k)) hint_fields"

definition clean_hint :: "js \<Rightarrow> string \<Rightarrow> js" where
  "clean_hint input k = (if nullish (jget input k) then JNull else jget input k)"

definition hints_acceptable :: "js \<Rightarrow> bool" where
  "hints_acceptable input \<longleftrightarrow> list_all (\<lambda>k. nullish (jget input k) \<or> hint_ok k (jget input k)) hint_fields"

lemma take_hints_ready:
  "take_hints input hint_fields (empty_hints ''ready'') =
   (if hints_acceptable input then Some (ready_hints (clean_hint input)) else None)"
  by (simp add: hint_fields_def empty_hints_def ready_hints_def clean_hint_def hints_acceptable_def Let_def)

lemma jget_ready_hints: "k \<in> set hint_fields \<Longrightarrow> jget (JObj (ready_hints f)) k = f k"
  by (auto simp: ready_hints_def hint_fields_def)

lemma safe_ready_hints:
  assumes "\<forall>k \<in> set hint_fields. f k = JNull \<or> \<not> nullish (f k) \<and> hint_ok k (f k)"
  shows "safe_client_metadata (JObj (ready_hints f)) = JObj (ready_hints f)"
proof -
  let ?in = "JObj ((''schema'', jint 1) # map (\<lambda>k. (k, f k)) hint_fields)"
  have get: "jget ?in k = f k" if "k \<in> set hint_fields" for k
    using that by (auto simp: hint_fields_def)
  have same: "map (\<lambda>k. (k, jget (JObj (ready_hints f)) k)) hint_fields = map (\<lambda>k. (k, f k)) hint_fields"
    by (rule map_cong [OF refl]) (simp only: jget_ready_hints)
  have acc: "hints_acceptable ?in"
    unfolding hints_acceptable_def list_all_iff
  proof
    fix k assume k: "k \<in> set hint_fields"
    have "f k = JNull \<or> hint_ok k (f k)" using assms k by blast
    then show "nullish (jget ?in k) \<or> hint_ok k (jget ?in k)" unfolding get [OF k] by auto
  qed
  have "clean_hint ?in k = f k" if k: "k \<in> set hint_fields" for k
    unfolding clean_hint_def get [OF k] using bspec [OF assms k] by auto
  then have clean: "ready_hints (clean_hint ?in) = ready_hints f"
    by (simp add: ready_hints_def)
  have "hint_values ?in = Some (ready_hints f)"
    using acc clean by (simp add: hint_values_def take_hints_ready del: jget.simps) (simp add: hint_fields_def)
  moreover have "jget (JObj (ready_hints f)) ''schema'' = jint 1" "jget (JObj (ready_hints f)) ''status'' = JStr ''ready''"
    by (simp_all add: ready_hints_def)
  ultimately show ?thesis by (simp add: safe_client_metadata_def same hints_or_invalid_def del: jget.simps)
qed

lemma safe_empty_hints: "st \<in> {''missing'', ''invalid''} \<Longrightarrow> safe_client_metadata (JObj (empty_hints st)) = JObj (empty_hints st)"
  by (auto simp: safe_client_metadata_def empty_hints_def)

lemma safe_hints_or_invalid: "safe_client_metadata (hints_or_invalid (hint_values v)) = hints_or_invalid (hint_values v)"
proof (cases "hint_values v")
  case None
  then show ?thesis by (simp add: hints_or_invalid_def safe_empty_hints)
next
  case (Some r)
  then have r: "r = ready_hints (clean_hint v)" "hints_acceptable v"
    by (auto simp: hint_values_def take_hints_ready split: if_splits)
  have "safe_client_metadata (JObj r) = JObj r"
    unfolding r(1) by (rule safe_ready_hints) (use r(2) in \<open>auto simp: clean_hint_def hints_acceptable_def list_all_iff\<close>)
  then show ?thesis using Some by (simp add: hints_or_invalid_def)
qed

text \<open>Showing recorded client hints changes nothing: the allowlist applied where a record is shown
  is the identity on whatever the allowlist of the header produced, whatever the client sent.\<close>

lemma client_hints_stable:
  "safe_client_metadata (client_metadata parse header) = client_metadata parse header"
  by (cases header)
    (simp_all add: client_metadata_def safe_empty_hints safe_hints_or_invalid split: option.split)

lemma scalar_scalar: "scalar k (scalar k v) = scalar k v"
proof -
  have w: "known_word ws (known_word ws v) = known_word ws v" "known_word ws v \<noteq> JNull \<or> v = JNull" for ws
    by (auto simp: known_word_def unrecognized_def split: js.split)
  have u: "unrecognized \<noteq> JNull" "\<not> is_bool unrecognized" "safe_int unrecognized = None"
    by (simp_all add: unrecognized_def)
  show ?thesis
    using w u by (auto simp: scalar_def split: option.split)
qed

lemma jget_fields: "jget (JObj (map (\<lambda>k. (k, f k)) ks)) k = (if k \<in> set ks then f k else JUndef)"
  by (induction ks) auto

lemma has_own_fields: "has_own (JObj (map (\<lambda>k. (k, f k)) ks)) k = (k \<in> set ks)"
  by (simp add: has_own_def comp_def)

lemma safe_fields_stable: "safe_fields (JObj (safe_fields fs)) = safe_fields fs"
proof -
  let ?ks = "filter (has_own fs) thinking_keys"
  have "filter (has_own (JObj (safe_fields fs))) thinking_keys = ?ks"
    unfolding safe_fields_def has_own_fields by (rule filter_cong) auto
  then show ?thesis
    unfolding safe_fields_def [of "JObj (safe_fields fs)"]
    by (simp add: safe_fields_def jget_fields scalar_scalar del: jget.simps)
qed

text \<open>Showing a recorded thinking observation changes nothing: the allowlist of shown records is
  idempotent, so a record that was once accepted is shown as it was recorded.\<close>

lemma thinking_record_stable:
  "safe_requested_thinking (safe_requested_thinking raw) = safe_requested_thinking raw"
proof (cases "\<not> is_obj raw \<or> \<not> text_in thinking_statuses (jget raw ''status'')")
  case True
  then show ?thesis by (simp add: safe_requested_thinking_def)
next
  case False
  define why where "why = (if text_in thinking_reasons (jget raw ''reason'') then [(''reason'', jget raw ''reason'')] else [])"
  define fs where "fs = (if jget raw ''status'' = JStr ''specified'' \<and> is_obj (jget raw ''fields'')
         then [(''fields'', JObj (safe_fields (jget raw ''fields'')))] else [])"
  define sv where "sv = (if served_shown (jget raw ''served'')
         then [(''served'', JObj [(''mode'', jget (jget raw ''served'') ''mode''), (''basis'', JStr ''ds4_request_rules'')])]
         else [])"
  let ?out = "JObj ([(''status'', jget raw ''status'')] @ why @ fs @ sv)"
  have out: "safe_requested_thinking raw = ?out"
    using False by (simp add: safe_requested_thinking_def why_def fs_def sv_def)
  have st: "jget ?out ''status'' = jget raw ''status''" by simp
  have r: "(if text_in thinking_reasons (jget ?out ''reason'') then [(''reason'', jget ?out ''reason'')] else []) = why"
    by (simp add: why_def fs_def sv_def text_in_def)
  have f: "(if jget raw ''status'' = JStr ''specified'' \<and> is_obj (jget ?out ''fields'')
         then [(''fields'', JObj (safe_fields (jget ?out ''fields'')))] else []) = fs"
    by (simp add: why_def fs_def sv_def safe_fields_stable)
  have v: "(if served_shown (jget ?out ''served'')
         then [(''served'', JObj [(''mode'', jget (jget ?out ''served'') ''mode''), (''basis'', JStr ''ds4_request_rules'')])]
         else []) = sv"
    by (simp add: why_def fs_def sv_def served_shown_def)
  have "safe_requested_thinking ?out = ?out"
    unfolding safe_requested_thinking_def [of ?out] r f v st using False by simp
  then show ?thesis unfolding out .
qed

section \<open>The served mode\<close>

lemma scan_thinking_levels:
  "scan_thinking route k v ts = Some ts' \<Longrightarrow> ts_levels ts' = ts_levels ts \<and> ts_effort ts' = ts_effort ts"
  by (auto simp: scan_thinking_def Let_def split: if_splits js.splits)

definition levels_follow :: "thinking_scan \<Rightarrow> bool" where
  "levels_follow ts \<longleftrightarrow> ts_effort ts = (if ts_levels ts = [] then ModeHigh else last (ts_levels ts))"

definition efforts_of :: "string \<Rightarrow> js_fields \<Rightarrow> js list" where
  "efforts_of route kvs = filter (\<lambda>c. \<not> nullish c) (map (\<lambda>(k, v). effort_candidate route k v) kvs)"

lemma scan_entry_levels:
  assumes "scan_entry route (k, v) (Some ts) = Some ts'" and "levels_follow ts"
  shows "levels_follow ts' \<and>
    (\<exists>es. efforts_of route [(k, v)] = map JStr es \<and> ts_levels ts' = ts_levels ts @ map effort_mode es)"
proof -
  obtain ts0 where ts0: "scan_thinking route k v ts = Some ts0" using assms(1) by (auto simp: scan_entry_def split: option.splits)
  have same: "ts_levels ts0 = ts_levels ts" "ts_effort ts0 = ts_effort ts" using scan_thinking_levels [OF ts0] by simp_all
  let ?c = "effort_candidate route k v"
  show ?thesis
  proof (cases "nullish ?c")
    case True
    then have "ts_levels ts' = ts_levels ts \<and> ts_effort ts' = ts_effort ts"
      using assms(1) ts0 same by (auto simp: scan_entry_def Let_def)
    then show ?thesis using assms(2) True by (auto simp: levels_follow_def efforts_of_def)
  next
    case False
    then obtain e where e: "?c = JStr e"
      using assms(1) ts0 by (cases ?c) (auto simp: scan_entry_def Let_def split: if_splits)
    then have "ts_levels ts' = ts_levels ts @ [effort_mode e] \<and> ts_effort ts' = effort_mode e"
      using assms(1) ts0 same by (auto simp: scan_entry_def Let_def split: if_splits)
    then show ?thesis using e by (auto simp: levels_follow_def efforts_of_def intro!: exI [of _ "[e]"])
  qed
qed

lemma efforts_of_Cons: "efforts_of route (kv # kvs) = efforts_of route [kv] @ efforts_of route kvs"
  by (simp add: efforts_of_def)

lemma scan_fold_None: "fold (scan_entry route) kvs None = None"
  by (induction kvs) (simp_all add: scan_entry_def)

lemma scan_fold_levels:
  "fold (scan_entry route) kvs (Some ts) = Some ts' \<Longrightarrow> levels_follow ts \<Longrightarrow>
   levels_follow ts' \<and> (\<exists>es. efforts_of route kvs = map JStr es \<and> ts_levels ts' = ts_levels ts @ map effort_mode es)"
proof (induction kvs arbitrary: ts)
  case Nil
  then show ?case by (simp add: efforts_of_def)
next
  case (Cons kv kvs)
  obtain k v where kv: "kv = (k, v)" by (cases kv) simp
  have "scan_entry route (k, v) (Some ts) \<noteq> None"
  proof
    assume "scan_entry route (k, v) (Some ts) = None"
    then show False using Cons.prems(1) kv by (simp add: scan_fold_None)
  qed
  then obtain ts1 where ts1: "scan_entry route (k, v) (Some ts) = Some ts1" by blast
  note one = scan_entry_levels [OF ts1 Cons.prems(2)]
  have "fold (scan_entry route) kvs (Some ts1) = Some ts'" using Cons.prems(1) kv ts1 by simp
  from Cons.IH [OF this conjunct1 [OF one]] obtain es where
    es: "levels_follow ts'" "efforts_of route kvs = map JStr es" "ts_levels ts' = ts_levels ts1 @ map effort_mode es"
    by blast
  obtain ds where ds: "efforts_of route [(k, v)] = map JStr ds" "ts_levels ts1 = ts_levels ts @ map effort_mode ds"
    using one by blast
  have "efforts_of route (kv # kvs) = map JStr (ds @ es)"
    using ds(1) es(2) kv by (simp add: efforts_of_Cons [of _ _ kvs])
  moreover have "ts_levels ts' = ts_levels ts @ map effort_mode (ds @ es)" using ds(2) es(3) by simp
  ultimately show ?case using es(1) by blast
qed

lemma effort_mode_max: "effort_mode e = ModeMax \<longleftrightarrow> e = ''max''"
  by (simp add: effort_mode_def)

text \<open>A request counts as served with maximal thinking only when its body asks for it: at least one
  effort is given, every effort given is \<open>max\<close>, and the context of the server is known and at least
  393216 tokens.\<close>

theorem served_max_was_asked_for:
  assumes "served_thinking body route model context = Some ModeMax"
  shows "\<exists>kvs n. body = JObj kvs \<and> safe_int context = Some n \<and> n \<ge> 393216 \<and>
    efforts_of route kvs \<noteq> [] \<and> (\<forall>c \<in> set (efforts_of route kvs). c = JStr ''max'')"
proof -
  obtain kvs where body: "body = JObj kvs" using assms by (cases body) (simp_all add: served_thinking_def)
  obtain name ts where ts: "fold (scan_entry route) kvs (Some start_scan_thinking) = Some ts"
    "served_decision name context ts = Some ModeMax"
    using assms body by (auto simp: served_thinking_def split: if_splits js.splits option.splits)
  have one: "one_value (ts_levels ts)" using ts(2) by (auto simp: served_decision_def split: if_splits)
  have eff: "ts_effort ts = ModeMax" and ctx: "\<exists>n. safe_int context = Some n \<and> n \<ge> 393216"
    using ts(2) by (auto simp: served_decision_def Let_def split: if_splits option.splits)
  have start: "levels_follow start_scan_thinking" "ts_levels start_scan_thinking = []"
    by (simp_all add: levels_follow_def start_scan_thinking_def)
  obtain es where es: "levels_follow ts" "efforts_of route kvs = map JStr es" "ts_levels ts = map effort_mode es"
    using scan_fold_levels [OF ts(1) start(1)] start(2) by auto
  have ne: "es \<noteq> []" and last: "last (map effort_mode es) = ModeMax"
    using es(1,3) eff by (auto simp: levels_follow_def split: if_splits)
  have "effort_mode e = ModeMax" if "e \<in> set es" for e
    using one es(3) last ne that last_in_set [of "map effort_mode es"]
    by (metis image_eqI length_0_conv length_map list.set_map one_value_def)
  then show ?thesis using body ctx es(2) ne by (auto simp: effort_mode_max)
qed

theorem served_max_was_asked_for_witness:
  "efforts_of ''/v1/messages'' [(''output_config'', JObj [(''effort'', JStr ''max'')])] \<noteq> [] \<and>
   (\<exists>n \<ge> 393216. safe_int (jint 500000) = Some n)"
proof -
  have "served_thinking (JObj [(''output_config'', JObj [(''effort'', JStr ''max'')])]) ''/v1/messages''
      (JStr ''deepseek-v4-flash'') (jint 500000) = Some ModeMax"
    by code_simp
  from served_max_was_asked_for [OF this] show ?thesis unfolding js.inject by blast
qed

end
