(* ===== verification/Body_Capture.thy ===== *)
theory Body_Capture
  imports Request_Hints Usage_Observer
begin

text \<open>
  The bounded captures of a request body (\<open>RequestedThinkingObserver\<close>, \<open>requested-thinking.mjs\<close>) and
  of a plain JSON answer (\<open>JsonUsageObserver\<close>, \<open>json-usage.mjs\<close>). Bytes are characters, and
  decoding a captured body with \<open>JSON.parse\<close> is the parameter \<open>parse\<close>. The locale states what both
  captures promise of the pieces they accept.
\<close>

section \<open>Captures in pieces\<close>

text \<open>\<open>captured\<close> is the text kept so far, or \<open>None\<close> once the limit was exceeded.\<close>

locale chunk_capture =
  fixes accept :: "string \<Rightarrow> 's \<Rightarrow> 's" and captured :: "'s \<Rightarrow> string option" and room :: "'s \<Rightarrow> nat"
  assumes room_accept: "room (accept c s) = room s"
    and accept_some: "captured s = Some t \<Longrightarrow>
      captured (accept c s) = (if length (t @ c) > room s then None else Some (t @ c))"
    and accept_none: "captured s = None \<Longrightarrow> captured (accept c s) = None"
begin

lemma captured_none: "captured s = None \<Longrightarrow> captured (fold accept cs s) = None"
  by (induction cs arbitrary: s) (simp_all add: accept_none)

lemma captured_some:
  "captured s = Some t \<Longrightarrow> length t \<le> room s \<Longrightarrow> captured (fold accept cs s) =
     (if length (t @ concat cs) > room s then None else Some (t @ concat cs))"
proof (induction cs arbitrary: s t)
  case (Cons c cs)
  show ?case
  proof (cases "length (t @ c) > room s")
    case True
    then have "captured (accept c s) = None" using accept_some [OF Cons.prems(1)] by simp
    then show ?thesis using True captured_none by simp
  next
    case False
    then have "captured (accept c s) = Some (t @ c)" using accept_some [OF Cons.prems(1)] by simp
    then show ?thesis using Cons.IH [of "accept c s" "t @ c"] False by (simp add: room_accept)
  qed
qed simp

end

section \<open>Thinking controls of a body\<close>

record serving =
  sv_route :: string
  sv_model :: js
  sv_context :: js

record thinking_observer =
  to_serving :: "serving option"
  to_result :: js_fields
  to_chunks :: string
  to_bytes :: nat
  to_notified :: bool
  to_notices :: "(js \<times> js_fields) list"

definition thinking_capture_bytes :: nat where
  "thinking_capture_bytes = 8388608"

definition status_only :: "string \<Rightarrow> js_fields" where
  "status_only st = [(''status'', JStr st)]"

definition unavailable :: "string \<Rightarrow> js_fields" where
  "unavailable why = [(''status'', JStr ''unavailable''), (''reason'', JStr why)]"

definition new_thinking_observer :: "string \<Rightarrow> serving option \<Rightarrow> thinking_observer" where
  "new_thinking_observer encoding serving = \<lparr>to_serving = serving,
     to_result = (if encoding \<noteq> [] \<and> encoding \<noteq> ''identity'' then unavailable ''encoded_body'' else status_only ''pending''),
     to_chunks = [], to_bytes = 0, to_notified = False, to_notices = []\<rparr>"

definition is_pending :: "thinking_observer \<Rightarrow> bool" where
  "is_pending ob \<longleftrightarrow> fget (to_result ob) ''status'' = JStr ''pending''"

definition thinking_accept :: "string \<Rightarrow> thinking_observer \<Rightarrow> thinking_observer" where
  "thinking_accept chunk ob =
     (if \<not> is_pending ob then ob
      else
        let ob1 = ob\<lparr>to_bytes := to_bytes ob + length chunk\<rparr>
        in if to_bytes ob1 > thinking_capture_bytes
           then ob1\<lparr>to_chunks := [], to_result := unavailable ''capture_limit''\<rparr>
           else ob1\<lparr>to_chunks := to_chunks ob1 @ chunk\<rparr>)"

fun mode_name :: "served_mode \<Rightarrow> string" where
  "mode_name ModeNone = ''none''"
| "mode_name ModeHigh = ''high''"
| "mode_name ModeMax = ''max''"

definition served_field :: "served_mode \<Rightarrow> js" where
  "served_field m = JObj [(''mode'', JStr (mode_name m)), (''basis'', JStr ''ds4_request_rules'')]"

definition notify_body :: "js \<Rightarrow> thinking_observer \<Rightarrow> thinking_observer" where
  "notify_body body ob =
     (if to_notified ob then ob
      else ob\<lparr>to_notified := True, to_notices := to_notices ob @ [(body, to_result ob)]\<rparr>)"

definition with_served :: "js \<Rightarrow> thinking_observer \<Rightarrow> thinking_observer" where
  "with_served body ob =
     (case to_serving ob of
        None \<Rightarrow> ob
      | Some sv \<Rightarrow>
          (case served_thinking body (sv_route sv) (sv_model sv) (sv_context sv) of
             None \<Rightarrow> ob
           | Some m \<Rightarrow> ob\<lparr>to_result := set_field ''served'' (served_field m) (to_result ob)\<rparr>))"

definition fields_of :: "js \<Rightarrow> js_fields" where
  "fields_of v = (case v of JObj kvs \<Rightarrow> kvs | _ \<Rightarrow> [])"

definition read_body :: "(string \<Rightarrow> js option) \<Rightarrow> thinking_observer \<Rightarrow> js \<times> js_fields" where
  "read_body parse ob =
     (if is_pending ob then
        (case parse (to_chunks ob) of
           None \<Rightarrow> (JUndef, unavailable ''invalid_json'')
         | Some v \<Rightarrow> (v, fields_of (requested_thinking v)))
      else (JUndef, to_result ob))"

definition thinking_finish :: "(string \<Rightarrow> js option) \<Rightarrow> thinking_observer \<Rightarrow> thinking_observer" where
  "thinking_finish parse ob =
     (case read_body parse ob of
        (body, res) \<Rightarrow> notify_body body (with_served body (ob\<lparr>to_result := res, to_chunks := []\<rparr>)))"

definition thinking_dispose :: "thinking_observer \<Rightarrow> thinking_observer" where
  "thinking_dispose ob =
     (let ob1 = ob\<lparr>to_chunks := []\<rparr>;
          ob2 = (if is_pending ob1 then ob1\<lparr>to_result := unavailable ''incomplete_body''\<rparr> else ob1)
      in notify_body JUndef ob2)"

definition thinking_captured :: "thinking_observer \<Rightarrow> string option" where
  "thinking_captured ob = (if is_pending ob \<and> to_bytes ob = length (to_chunks ob) then Some (to_chunks ob) else None)"

interpretation thinking: chunk_capture thinking_accept thinking_captured "\<lambda>_. thinking_capture_bytes"
  by unfold_locales
    (auto simp: thinking_accept_def thinking_captured_def is_pending_def unavailable_def Let_def split: if_splits)

lemma thinking_accept_fields [simp]:
  "to_serving (thinking_accept c ob) = to_serving ob" "to_notified (thinking_accept c ob) = to_notified ob"
  "to_notices (thinking_accept c ob) = to_notices ob"
  by (simp_all add: thinking_accept_def Let_def)

lemma thinking_fold_fields [simp]:
  "to_serving (fold thinking_accept cs ob) = to_serving ob" "to_notified (fold thinking_accept cs ob) = to_notified ob"
  "to_notices (fold thinking_accept cs ob) = to_notices ob"
  by (induction cs arbitrary: ob) simp_all

definition over_limit :: "thinking_observer \<Rightarrow> bool" where
  "over_limit ob \<longleftrightarrow> to_result ob = unavailable ''capture_limit''"

lemma thinking_fold_over: "over_limit ob \<Longrightarrow> over_limit (fold thinking_accept cs ob)"
proof (induction cs arbitrary: ob)
  case (Cons c cs)
  have "over_limit (thinking_accept c ob)"
    using Cons.prems by (simp add: over_limit_def thinking_accept_def is_pending_def unavailable_def)
  then show ?case using Cons.IH by simp
qed simp

lemma thinking_fold_result:
  "is_pending ob \<Longrightarrow> is_pending (fold thinking_accept cs ob) \<or> over_limit (fold thinking_accept cs ob)"
proof (induction cs arbitrary: ob)
  case (Cons c cs)
  have "is_pending (thinking_accept c ob) \<or> over_limit (thinking_accept c ob)"
    using Cons.prems by (simp add: over_limit_def thinking_accept_def is_pending_def Let_def)
  then show ?case using Cons.IH thinking_fold_over by auto
qed simp

text \<open>What the observer reports of a whole body.\<close>

definition thinking_of_body :: "(string \<Rightarrow> js option) \<Rightarrow> string \<Rightarrow> serving option \<Rightarrow> string \<Rightarrow> js_fields" where
  "thinking_of_body parse encoding serving text =
     (let base = new_thinking_observer encoding serving in
      if \<not> is_pending base then to_result base
      else if length text > thinking_capture_bytes then unavailable ''capture_limit''
      else (case parse text of
              None \<Rightarrow> unavailable ''invalid_json''
            | Some v \<Rightarrow> to_result (with_served v (base\<lparr>to_result := fields_of (requested_thinking v)\<rparr>))))"

lemma served_undef: "served_thinking JUndef r m c = None"
  by (simp add: served_thinking_def)

lemma with_served_result:
  "to_serving ob = to_serving ob' \<Longrightarrow> to_result ob = to_result ob' \<Longrightarrow>
   to_result (with_served v ob) = to_result (with_served v ob')"
  by (simp add: with_served_def split: option.split)

lemma with_served_undef [simp]: "with_served JUndef ob = ob"
  by (simp add: with_served_def served_undef split: option.split)

lemma with_served_kept [simp]:
  "to_notified (with_served v ob) = to_notified ob" "to_notices (with_served v ob) = to_notices ob"
  by (simp_all add: with_served_def split: option.split)

lemma with_served_pending [simp]: "is_pending (with_served v ob) = is_pending ob"
proof -
  have "fget (set_field ''served'' m kvs) ''status'' = fget kvs ''status''" for m kvs
    by (induction kvs) auto
  then show ?thesis by (simp add: with_served_def is_pending_def split: option.split)
qed

lemma notify_pending [simp]: "is_pending (notify_body b ob) = is_pending ob"
  by (simp add: notify_body_def is_pending_def)

lemma notify_result [simp]: "to_result (notify_body b ob) = to_result ob"
  by (simp add: notify_body_def)

lemma accept_not_pending: "\<not> is_pending ob \<Longrightarrow> fold thinking_accept cs ob = ob"
  by (induction cs) (simp_all add: thinking_accept_def)

text \<open>The thinking record of a request depends on the bytes of its body and not on how they
  arrived, a body above the capture limit or with an encoding is reported as unavailable and never
  partly read, and the record is announced exactly once however often the observer is finished or
  disposed afterwards.\<close>

theorem thinking_observed_whole:
  fixes parse encoding serving chunks
  defines "ob \<equiv> thinking_finish parse (fold thinking_accept chunks (new_thinking_observer encoding serving))"
  shows "to_result ob = thinking_of_body parse encoding serving (concat chunks) \<and>
    length (to_notices ob) = 1 \<and> thinking_finish parse ob = ob \<and> thinking_dispose ob = ob"
proof -
  let ?base = "new_thinking_observer encoding serving"
  let ?acc = "fold thinking_accept chunks ?base"
  have n0: "to_notices ?base = []" "\<not> to_notified ?base" "to_serving ?base = serving" "to_bytes ?base = 0" "to_chunks ?base = []"
    by (simp_all add: new_thinking_observer_def)
  have res: "to_result ob = thinking_of_body parse encoding serving (concat chunks)"
  proof (cases "is_pending ?base")
    case False
    then have "to_result ob = to_result ?base"
      unfolding ob_def by (simp add: accept_not_pending thinking_finish_def read_body_def)
    then show ?thesis using False by (simp add: thinking_of_body_def Let_def)
  next
    case True
    have cap: "thinking_captured ?base = Some []" using True n0 by (simp add: thinking_captured_def)
    note c = thinking.captured_some [OF cap, of chunks]
    show ?thesis
    proof (cases "length (concat chunks) > thinking_capture_bytes")
      case big: True
      then have "thinking_captured ?acc = None" using c by simp
      have "over_limit ?acc"
      proof (rule ccontr)
        assume nov: "\<not> over_limit ?acc"
        have grow: "is_pending x \<and> to_bytes x = length (to_chunks x) \<Longrightarrow>
            over_limit (fold thinking_accept cs x) \<or>
            to_bytes (fold thinking_accept cs x) = length (to_chunks (fold thinking_accept cs x))" for cs x
        proof (induction cs arbitrary: x)
          case (Cons d cs)
          have "over_limit (thinking_accept d x) \<or> is_pending (thinking_accept d x) \<and>
              to_bytes (thinking_accept d x) = length (to_chunks (thinking_accept d x))"
            using Cons.prems by (simp add: thinking_accept_def Let_def over_limit_def is_pending_def)
          then show ?case using Cons.IH [of "thinking_accept d x"] thinking_fold_over by auto
        qed simp
        have "thinking_captured ?acc = Some (to_chunks ?acc)"
          using nov thinking_fold_result [OF True, of chunks] grow [of ?base chunks] True n0
          by (simp add: thinking_captured_def)
        then show False using \<open>thinking_captured ?acc = None\<close> by simp
      qed
      then have "to_result ob = unavailable ''capture_limit''"
        unfolding ob_def by (simp add: thinking_finish_def read_body_def over_limit_def is_pending_def unavailable_def)
      then show ?thesis using True big by (simp add: thinking_of_body_def Let_def)
    next
      case False
      then have "is_pending ?acc" "to_chunks ?acc = concat chunks"
        using c by (auto simp: thinking_captured_def split: if_splits)
      then show ?thesis
        unfolding ob_def using True False n0
        by (auto simp: thinking_finish_def read_body_def thinking_of_body_def Let_def split: option.split
            intro!: with_served_result)
    qed
  qed
  have np: "\<not> is_pending ob \<and> to_notified ob \<and> to_chunks ob = [] \<and> length (to_notices ob) = 1"
  proof -
    have "fget (snd (read_body parse ?acc)) ''status'' \<noteq> JStr ''pending''"
      by (auto simp: read_body_def is_pending_def unavailable_def requested_thinking_def fields_of_def split: option.split)
    then have "\<not> is_pending ob"
      unfolding ob_def thinking_finish_def by (cases "read_body parse ?acc") (simp, simp add: is_pending_def)
    moreover have "to_chunks (with_served v x) = to_chunks x" for v x
      by (simp add: with_served_def split: option.split)
    ultimately show ?thesis
      unfolding ob_def using n0 by (simp add: thinking_finish_def notify_body_def split: prod.split)
  qed
  have same: "ob\<lparr>to_chunks := []\<rparr> = ob" using np by (cases ob) simp
  have "thinking_finish parse ob = ob"
    using np same by (simp add: thinking_finish_def read_body_def notify_body_def)
  moreover have "thinking_dispose ob = ob"
    unfolding thinking_dispose_def same Let_def using np by (simp add: notify_body_def)
  ultimately show ?thesis using res np by blast
qed

section \<open>Usage of a plain answer\<close>

datatype json_status = UnsupportedRoute | CaptureLimited | NotReported | InvalidJson | UsageObserved | UsagePartial

record token_usage =
  jk_prompt :: "int option"
  jk_completion :: "int option"
  jk_cached :: "int option"

record json_result =
  jr_status :: json_status
  jr_usage :: "token_usage option"
  jr_finish :: "string option"
  jr_shape :: "shape option"

record json_observer =
  jo_route :: string
  jo_max :: nat
  jo_parts :: string
  jo_bytes :: nat
  jo_limited :: bool
  jo_result :: "json_result option"

definition new_json_observer :: "string \<Rightarrow> nat \<Rightarrow> json_observer" where
  "new_json_observer route max_bytes =
     \<lparr>jo_route = route, jo_max = max_bytes, jo_parts = [], jo_bytes = 0, jo_limited = False, jo_result = None\<rparr>"

definition json_supported :: "json_observer \<Rightarrow> bool" where
  "json_supported ob \<longleftrightarrow> jo_route ob \<in> {''/v1/chat/completions'', ''/v1/completions''}"

definition json_accept :: "string \<Rightarrow> json_observer \<Rightarrow> json_observer" where
  "json_accept chunk ob =
     (if \<not> json_supported ob \<or> jo_limited ob then ob
      else
        let ob1 = ob\<lparr>jo_bytes := jo_bytes ob + length chunk\<rparr>
        in if jo_bytes ob1 > jo_max ob1 then ob1\<lparr>jo_parts := [], jo_limited := True\<rparr>
           else ob1\<lparr>jo_parts := jo_parts ob1 @ chunk\<rparr>)"

definition usage_number :: "js \<Rightarrow> int option" where
  "usage_number v = (case safe_int v of Some n \<Rightarrow> if n \<ge> 0 then Some n else None | None \<Rightarrow> None)"

definition status_alone :: "json_status \<Rightarrow> json_result" where
  "status_alone st = \<lparr>jr_status = st, jr_usage = None, jr_finish = None, jr_shape = None\<rparr>"

definition answer_usage :: "js \<Rightarrow> token_usage option" where
  "answer_usage u =
     (if truthy u \<and> type_object u then
        Some \<lparr>jk_prompt = usage_number (jget u ''prompt_tokens''), jk_completion = usage_number (jget u ''completion_tokens''),
              jk_cached = usage_number (jget (jget u ''prompt_tokens_details'') ''cached_tokens'')\<rparr>
      else None)"

definition usage_status :: "token_usage option \<Rightarrow> json_status" where
  "usage_status u = (case u of None \<Rightarrow> NotReported
     | Some k \<Rightarrow> if jk_prompt k \<noteq> None \<and> jk_completion k \<noteq> None then UsageObserved else UsagePartial)"

definition only_choice :: "js \<Rightarrow> js" where
  "only_choice v = (case jget v ''choices'' of JArr [c] \<Rightarrow> c | _ \<Rightarrow> JNull)"

definition answer_shape :: "string \<Rightarrow> js \<Rightarrow> shape option" where
  "answer_shape route choice =
     (let m = jget choice ''message'' in
      if route = ''/v1/chat/completions'' \<and> truthy m \<and> type_object m then Some (output_shape m)
      else if route = ''/v1/completions'' then
        (case jget choice ''text'' of
           JStr t \<Rightarrow> Some (empty_shape\<lparr>sh_answer := length t\<rparr>)
         | _ \<Rightarrow> None)
      else None)"

definition answer_result :: "string \<Rightarrow> js \<Rightarrow> json_result" where
  "answer_result route v =
     (if \<not> is_obj v \<or> truthy (jget v ''error'') then status_alone NotReported
      else
        let u = answer_usage (jget v ''usage''); choice = only_choice v in
        \<lparr>jr_status = usage_status u, jr_usage = u,
         jr_finish = (case jget choice ''finish_reason'' of JStr r \<Rightarrow> if r \<in> set finish_reasons then Some r else None | _ \<Rightarrow> None),
         jr_shape = answer_shape route choice\<rparr>)"

definition json_finish :: "(string \<Rightarrow> js option) \<Rightarrow> json_observer \<Rightarrow> json_result \<times> json_observer" where
  "json_finish parse ob =
     (case jo_result ob of
        Some r \<Rightarrow> (r, ob)
      | None \<Rightarrow>
          (if \<not> json_supported ob then (status_alone UnsupportedRoute, ob\<lparr>jo_result := Some (status_alone UnsupportedRoute)\<rparr>)
           else if jo_limited ob then (status_alone CaptureLimited, ob\<lparr>jo_result := Some (status_alone CaptureLimited)\<rparr>)
           else
             let r = (case parse (jo_parts ob) of None \<Rightarrow> status_alone InvalidJson | Some v \<Rightarrow> answer_result (jo_route ob) v)
             in (r, ob\<lparr>jo_result := Some r, jo_parts := []\<rparr>)))"

definition json_captured :: "json_observer \<Rightarrow> string option" where
  "json_captured ob =
     (if json_supported ob \<and> \<not> jo_limited ob \<and> jo_bytes ob = length (jo_parts ob) then Some (jo_parts ob) else None)"

lemma json_accept_fields [simp]:
  "jo_route (json_accept c ob) = jo_route ob" "jo_max (json_accept c ob) = jo_max ob"
  "jo_result (json_accept c ob) = jo_result ob" "json_supported (json_accept c ob) = json_supported ob"
  by (simp_all add: json_accept_def Let_def json_supported_def)

interpretation json_usage: chunk_capture json_accept json_captured jo_max
proof unfold_locales
  show "jo_max (json_accept c s) = jo_max s" for c s by simp
  show "json_captured s = Some t \<Longrightarrow>
      json_captured (json_accept c s) = (if length (t @ c) > jo_max s then None else Some (t @ c))" for s t c
    by (auto simp: json_captured_def json_accept_def json_supported_def Let_def split: if_splits)
  show "json_captured s = None \<Longrightarrow> json_captured (json_accept c s) = None" for s c
    by (auto simp: json_captured_def json_accept_def json_supported_def Let_def split: if_splits)
qed

lemma json_fold_fields [simp]:
  "jo_route (fold json_accept cs ob) = jo_route ob" "jo_result (fold json_accept cs ob) = jo_result ob"
  "json_supported (fold json_accept cs ob) = json_supported ob"
  by (induction cs arbitrary: ob) simp_all

definition json_counts :: "json_observer \<Rightarrow> bool" where
  "json_counts ob \<longleftrightarrow> jo_limited ob \<or> jo_bytes ob = length (jo_parts ob)"

lemma json_fold_counts: "json_counts ob \<Longrightarrow> json_counts (fold json_accept cs ob)"
proof (induction cs arbitrary: ob)
  case (Cons c cs)
  have "json_counts (json_accept c ob)"
    using Cons.prems by (auto simp: json_counts_def json_accept_def Let_def)
  then show ?case using Cons.IH by simp
qed simp

text \<open>What is reported of a plain answer depends on its bytes and not on how they arrived: nothing
  for a route without usage, nothing but the fact above the capture limit, and otherwise what the
  whole answer says; asking again gives the same report.\<close>

lemma json_usage_of_whole_answer:
  fixes parse route max_bytes chunks
  defines "text \<equiv> concat chunks"
  shows "fst (json_finish parse (fold json_accept chunks (new_json_observer route max_bytes))) =
      (if route \<notin> {''/v1/chat/completions'', ''/v1/completions''} then status_alone UnsupportedRoute
       else if length text > max_bytes then status_alone CaptureLimited
       else (case parse text of None \<Rightarrow> status_alone InvalidJson | Some v \<Rightarrow> answer_result route v)) \<and>
    (\<forall>ob. json_finish parse (snd (json_finish parse ob)) =
       (fst (json_finish parse ob), snd (json_finish parse ob)))"
proof -
  let ?base = "new_json_observer route max_bytes"
  let ?acc = "fold json_accept chunks ?base"
  have base: "jo_result ?base = None" "jo_route ?base = route" "jo_max ?base = max_bytes" "json_counts ?base"
    by (simp_all add: new_json_observer_def json_counts_def)
  have "fst (json_finish parse ?acc) =
      (if route \<notin> {''/v1/chat/completions'', ''/v1/completions''} then status_alone UnsupportedRoute
       else if length text > max_bytes then status_alone CaptureLimited
       else (case parse text of None \<Rightarrow> status_alone InvalidJson | Some v \<Rightarrow> answer_result route v))"
  proof (cases "json_supported ?base")
    case False
    then show ?thesis using base by (simp add: json_finish_def json_supported_def)
  next
    case True
    then have cap: "json_captured ?base = Some []"
      by (simp add: json_captured_def new_json_observer_def)
    have c: "json_captured ?acc = (if length text > max_bytes then None else Some text)"
      using json_usage.captured_some [OF cap, of chunks] base by (simp add: text_def)
    have r: "route \<in> {''/v1/chat/completions'', ''/v1/completions''}" using True base by (simp add: json_supported_def)
    show ?thesis
    proof (cases "length text > max_bytes")
      case big: True
      then have "jo_limited ?acc"
        using c True json_fold_counts [OF base(4), of chunks] by (auto simp: json_captured_def json_counts_def split: if_splits)
      then show ?thesis using True big base r by (simp add: json_finish_def)
    next
      case False
      then have "\<not> jo_limited ?acc" "jo_parts ?acc = text" using c by (auto simp: json_captured_def split: if_splits)
      then show ?thesis using True False base r by (simp add: json_finish_def Let_def split: option.split)
    qed
  qed
  moreover have "json_finish parse (snd (json_finish parse ob)) = (fst (json_finish parse ob), snd (json_finish parse ob))" for ob
    by (cases "jo_result ob") (simp_all add: json_finish_def Let_def)
  ultimately show ?thesis by blast
qed

end
