(* ===== verification/Agent_Control.thy ===== *)
theory Agent_Control
  imports Stream_Lines
begin

text \<open>
  \<open>ds4-gateway/agent-control.mjs\<close>: who may pause and resume the routing of a worker. Agents hold
  and release workers, the operator pauses them and takes maintenance locks, and every committed
  action leaves a receipt under its request identifier. \<open>digest\<close> is the SHA-256 of a printed
  object, \<open>fresh\<close> the \<open>randomUUID\<close> of an operation and \<open>now\<close> its clock. A resume awaits a probe
  between its checks and its commit: the two halves are separate operations here.
\<close>

section \<open>Data\<close>

datatype control_error =
    InvalidFields | InvalidRequestId | UnknownWorker | InvalidName | InvalidReason | InvalidReviewTime
  | InvalidMinimum | RequestIdConflict | MinimumCapacity | ReceiptLimit | LockLimit | HoldLimit | UnknownLock
  | Unauthorized_Agent | ForbiddenWorker | NotHoldOwner | RecoveryRequired | UnknownHold | UnknownAgent
  | InvalidGrant | AgentExists | GrantLimit | ReceiptNotFound | AgentHoldPresent | MaintenanceLockPresent

record agent =
  ag_id :: string
  ag_enabled :: bool
  ag_workers :: "string list"
  ag_token_hash :: string
  ag_created :: int

record agent_hold =
  h_id :: string
  h_worker :: string
  h_owner :: string
  h_reason :: string
  h_created :: int

datatype agent_action = DrainAction | ResumeAction

datatype hold_outcome = HoldCreated | HoldReleased | HandbackReleased

record hold_result =
  rs_hold :: string
  rs_worker :: string
  rs_resumed :: bool
  rs_state :: hold_outcome
  rs_remaining :: "string list"
  rs_operator_paused :: bool
  rs_locks :: "string list"

record agent_receipt =
  op_request :: string
  op_actor :: string
  op_action :: agent_action
  op_fingerprint :: string
  op_time :: int
  op_result :: hold_result

record maintenance_lock =
  ml_id :: string
  ml_worker :: string
  ml_name :: string
  ml_reason :: string
  ml_created :: int
  ml_review :: "int option"
  ml_channel :: string

datatype lock_action = TakeLock | ReleaseLock

record maintenance_receipt =
  mo_request :: string
  mo_channel :: string
  mo_action :: lock_action
  mo_fingerprint :: string
  mo_time :: int
  mo_lock :: string
  mo_worker :: string
  mo_release_reason :: "string option"

record control_state =
  cs_agents :: "agent list"
  cs_holds :: "agent_hold list"
  cs_operations :: "agent_receipt list"
  cs_manual :: "string \<rightharpoonup> bool"
  cs_locks :: "maintenance_lock list"
  cs_receipts :: "maintenance_receipt list"

record control_node =
  cn_id :: string
  cn_drained :: bool
  cn_healthy :: bool
  cn_quarantine :: bool
  cn_recovering :: bool
  cn_removed :: bool

record control =
  ct_state :: control_state
  ct_drained :: "string \<rightharpoonup> bool"
  ct_nodes :: "control_node list"

definition blank_control :: control_state where
  "blank_control = \<lparr>cs_agents = [], cs_holds = [], cs_operations = [], cs_manual = Map.empty, cs_locks = [], cs_receipts = []\<rparr>"

section \<open>Reading the state\<close>

definition holds_of :: "control_state \<Rightarrow> string \<Rightarrow> agent_hold list" where
  "holds_of s w = filter (\<lambda>h. h_worker h = w) (cs_holds s)"

definition locks_of :: "control_state \<Rightarrow> string \<Rightarrow> maintenance_lock list" where
  "locks_of s w = filter (\<lambda>l. ml_worker l = w) (cs_locks s)"

definition manual_paused :: "control \<Rightarrow> string \<Rightarrow> bool" where
  "manual_paused c w = (case cs_manual (ct_state c) w of Some b \<Rightarrow> b | None \<Rightarrow> ct_drained c w = Some True)"

definition known_node :: "control \<Rightarrow> string \<Rightarrow> bool" where
  "known_node c w \<longleftrightarrow> w \<in> set (map cn_id (ct_nodes c))"

definition find_node :: "control \<Rightarrow> string \<Rightarrow> control_node option" where
  "find_node c w = List.find (\<lambda>n. cn_id n = w) (ct_nodes c)"

definition enabled_agent :: "control \<Rightarrow> string \<Rightarrow> agent option" where
  "enabled_agent c i = List.find (\<lambda>a. ag_id a = i \<and> ag_enabled a) (cs_agents (ct_state c))"

definition commit :: "control_state \<Rightarrow> (string \<rightharpoonup> bool) \<Rightarrow> control \<Rightarrow> control" where
  "commit s d c = c\<lparr>ct_state := s, ct_drained := d,
     ct_nodes := map (\<lambda>n. n\<lparr>cn_drained := (d (cn_id n) = Some True)\<rparr>) (ct_nodes c)\<rparr>"

section \<open>Validation\<close>

definition exact_fields :: "js \<Rightarrow> string list \<Rightarrow> bool" where
  "exact_fields input keys \<longleftrightarrow> is_obj input \<and> joined_keys input = join_with '','' (sort keys)"

fun js_string :: "js \<Rightarrow> string" where
  "js_string (JStr s) = s"
| "js_string _ = []"

definition lower_uuid :: "js \<Rightarrow> bool" where
  "lower_uuid v \<longleftrightarrow> is_str v \<and> uuid_text (js_string v) \<and> list_all (\<lambda>c. lower_char c = c) (js_string v)"

definition control_char :: "char \<Rightarrow> bool" where
  "control_char c \<longleftrightarrow> (of_char c :: nat) < 32 \<or> (of_char c :: nat) = 127"

definition short_text :: "nat \<Rightarrow> js \<Rightarrow> bool" where
  "short_text n v \<longleftrightarrow> is_str v \<and> trim (js_string v) \<noteq> [] \<and> length (js_string v) \<le> n \<and>
     \<not> list_ex control_char (js_string v)"

definition first_letter :: "char \<Rightarrow> bool" where
  "first_letter c \<longleftrightarrow> word_char c \<and> c \<noteq> CHR ''_''"

definition identifier_text :: "string \<Rightarrow> bool" where
  "identifier_text s \<longleftrightarrow> (case s of [] \<Rightarrow> False
     | c # cs \<Rightarrow> first_letter c \<and> length cs \<le> 63 \<and> list_all word_or_hyphen cs)"

definition channel_text :: "string \<Rightarrow> bool" where
  "channel_text s \<longleftrightarrow> (case s of [] \<Rightarrow> False
     | c # cs \<Rightarrow> c \<in> set ''abcdefghijklmnopqrstuvwxyz'' \<and> length cs \<le> 31 \<and>
         list_all (\<lambda>d. d \<in> set ''abcdefghijklmnopqrstuvwxyz0123456789_'') cs)"

definition channel_of :: "js \<Rightarrow> string" where
  "channel_of v = (if is_str v \<and> channel_text (js_string v) then js_string v else ''unidentified_local_client'')"

section \<open>Operator pauses and grants\<close>

definition manual_update :: "string list \<Rightarrow> bool \<Rightarrow> control \<Rightarrow> control_error + control" where
  "manual_update ids paused c =
     (if \<not> paused \<and> (\<exists>i \<in> set ids. holds_of (ct_state c) i \<noteq> []) then Inl AgentHoldPresent
      else if \<not> paused \<and> (\<exists>i \<in> set ids. locks_of (ct_state c) i \<noteq> []) then Inl MaintenanceLockPresent
      else Inr (commit
        ((ct_state c)\<lparr>cs_manual := (\<lambda>i. if i \<in> set ids then Some paused else cs_manual (ct_state c) i)\<rparr>)
        (\<lambda>i. if i \<in> set ids
             then Some (paused \<or> holds_of (ct_state c) i \<noteq> [] \<or> locks_of (ct_state c) i \<noteq> [])
             else ct_drained c i) c))"

definition forget_worker :: "string \<Rightarrow> control \<Rightarrow> control_error + control_state" where
  "forget_worker w c =
     (if holds_of (ct_state c) w \<noteq> [] then Inl AgentHoldPresent
      else if locks_of (ct_state c) w \<noteq> [] then Inl MaintenanceLockPresent
      else Inr ((ct_state c)\<lparr>cs_manual := (cs_manual (ct_state c))(w := None),
        cs_agents := map (\<lambda>a. a\<lparr>ag_workers := filter (\<lambda>x. x \<noteq> w) (ag_workers a)\<rparr>) (cs_agents (ct_state c))\<rparr>))"

fun js_strings :: "js \<Rightarrow> string list option" where
  "js_strings (JArr vs) = (if list_all is_str vs then Some (map js_string vs) else None)"
| "js_strings _ = None"

definition grant :: "int \<Rightarrow> string \<Rightarrow> js \<Rightarrow> control \<Rightarrow> control_error + control" where
  "grant now token_hash input c =
     (if \<not> exact_fields input [''agent_id'', ''workers''] then Inl InvalidFields
      else case js_strings (jget input ''workers'') of
        None \<Rightarrow> Inl InvalidGrant
      | Some ws \<Rightarrow>
          if \<not> is_str (jget input ''agent_id'') \<or> \<not> identifier_text (js_string (jget input ''agent_id'')) \<or> ws = [] \<or>
             length ws > 128 \<or> \<not> distinct ws \<or> \<not> list_all (known_node c) ws then Inl InvalidGrant
          else if js_string (jget input ''agent_id'') \<in> set (map ag_id (cs_agents (ct_state c))) then Inl AgentExists
          else if length (cs_agents (ct_state c)) \<ge> 128 then Inl GrantLimit
          else Inr (commit ((ct_state c)\<lparr>cs_agents := cs_agents (ct_state c) @
            [\<lparr>ag_id = js_string (jget input ''agent_id''), ag_enabled = True, ag_workers = ws, ag_token_hash = token_hash,
              ag_created = now\<rparr>]\<rparr>) (ct_drained c) c))"

definition revoke :: "js \<Rightarrow> control \<Rightarrow> control_error + control" where
  "revoke input c =
     (if \<not> exact_fields input [''agent_id''] then Inl InvalidFields
      else let i = js_string (jget input ''agent_id'') in
        if \<not> is_str (jget input ''agent_id'') \<or> i \<notin> set (map ag_id (cs_agents (ct_state c))) then Inl UnknownAgent
        else Inr (commit ((ct_state c)\<lparr>cs_agents :=
            map (\<lambda>a. if ag_id a = i then a\<lparr>ag_enabled := False\<rparr> else a) (cs_agents (ct_state c))\<rparr>) (ct_drained c) c))"

text \<open>\<open>authenticate\<close>: a bearer token of 43 characters; \<open>hash\<close> is its digest.\<close>

definition token_char :: "char \<Rightarrow> bool" where
  "token_char c \<longleftrightarrow> word_char c \<or> c = CHR ''-''"

definition authenticate :: "(string \<Rightarrow> string) \<Rightarrow> js \<Rightarrow> control \<Rightarrow> string option" where
  "authenticate hash header c =
     (let h = js_string header in
      if \<not> is_str header \<or> \<not> has_prefix ''Bearer '' h \<or> length h \<noteq> 50 \<or> \<not> list_all token_char (drop 7 h) then None
      else map_option ag_id (List.find (\<lambda>a. ag_enabled a \<and> ag_token_hash a = hash (drop 7 h)) (cs_agents (ct_state c))))"

section \<open>Maintenance locks\<close>

definition find_receipt :: "control \<Rightarrow> string \<Rightarrow> maintenance_receipt option" where
  "find_receipt c i = List.find (\<lambda>r. mo_request r = i) (cs_receipts (ct_state c))"

definition other_serving :: "control \<Rightarrow> string \<Rightarrow> nat" where
  "other_serving c w = length (filter (\<lambda>n. cn_id n \<noteq> w \<and> cn_healthy n \<and> \<not> cn_drained n \<and> \<not> cn_quarantine n \<and>
     \<not> cn_recovering n \<and> \<not> cn_removed n) (ct_nodes c))"

definition lock_print :: "js \<Rightarrow> bool \<Rightarrow> js" where
  "lock_print input has_min = JObj ([(''action'', JStr ''lock''), (''worker_id'', jget input ''worker_id''),
     (''name'', JStr (trim (js_string (jget input ''name'')))), (''reason'', JStr (trim (js_string (jget input ''reason'')))),
     (''review_after_hours'', jget input ''review_after_hours'')] @
     (if has_min then [(''minimum_other_llms'', jget input ''minimum_other_llms'')] else []))"

definition lock_fields :: "bool \<Rightarrow> string list" where
  "lock_fields has_min = [''name'', ''reason'', ''request_id'', ''review_after_hours'', ''worker_id''] @
     (if has_min then [''minimum_other_llms''] else [])"

definition lock_input_error :: "js \<Rightarrow> bool \<Rightarrow> control \<Rightarrow> control_error option" where
  "lock_input_error input has_min c =
     (let minimum = safe_int (jget input ''minimum_other_llms''); review = jget input ''review_after_hours'' in
      if \<not> exact_fields input (lock_fields has_min) then Some InvalidFields
      else if has_min \<and> (minimum = None \<or> the minimum < 1) then Some InvalidMinimum
      else if \<not> lower_uuid (jget input ''request_id'') then Some InvalidRequestId
      else if \<not> is_str (jget input ''worker_id'') \<or> \<not> identifier_text (js_string (jget input ''worker_id'')) \<or>
              \<not> known_node c (js_string (jget input ''worker_id'')) then Some UnknownWorker
      else if \<not> short_text 64 (jget input ''name'') then Some InvalidName
      else if \<not> short_text 256 (jget input ''reason'') then Some InvalidReason
      else if review \<noteq> JNull \<and> (case safe_int review of None \<Rightarrow> True | Some n \<Rightarrow> n < 1 \<or> n > 8760) then Some InvalidReviewTime
      else None)"

text \<open>A committed receipt answers a repeated request; the flag tells whether anything was committed.\<close>

definition maintenance_lock ::
    "(js \<Rightarrow> string) \<Rightarrow> int \<Rightarrow> string \<Rightarrow> js \<Rightarrow> js \<Rightarrow> control \<Rightarrow> control_error + maintenance_receipt \<times> control" where
  "maintenance_lock digest now fresh input channel c =
     (let has_min = has_own input ''minimum_other_llms''; w = js_string (jget input ''worker_id'');
          request = js_string (jget input ''request_id''); print = digest (lock_print input has_min); s = ct_state c in
      case lock_input_error input has_min c of Some e \<Rightarrow> Inl e
      | None \<Rightarrow>
          (case find_receipt c request of
             Some old \<Rightarrow> if mo_fingerprint old \<noteq> print then Inl RequestIdConflict else Inr (old, c)
           | None \<Rightarrow>
               if has_min \<and> int (other_serving c w) < the (safe_int (jget input ''minimum_other_llms'')) then Inl MinimumCapacity
               else if length (cs_receipts s) \<ge> 10000 then Inl ReceiptLimit
               else if length (cs_locks s) \<ge> 1024 then Inl LockLimit
               else
                 let lock = \<lparr>ml_id = fresh, ml_worker = w, ml_name = trim (js_string (jget input ''name'')),
                       ml_reason = trim (js_string (jget input ''reason'')), ml_created = now,
                       ml_review = map_option (\<lambda>n. now + n * 3600000) (safe_int (jget input ''review_after_hours'')),
                       ml_channel = channel_of channel\<rparr>;
                     op = \<lparr>mo_request = request, mo_channel = channel_of channel, mo_action = TakeLock, mo_fingerprint = print,
                       mo_time = now, mo_lock = fresh, mo_worker = w, mo_release_reason = None\<rparr>
                 in Inr (op, commit (s\<lparr>cs_manual := (cs_manual s)(w \<mapsto> manual_paused c w), cs_locks := cs_locks s @ [lock],
                          cs_receipts := cs_receipts s @ [op]\<rparr>) ((ct_drained c)(w \<mapsto> True)) c)))"

definition maintenance_release ::
    "(js \<Rightarrow> string) \<Rightarrow> int \<Rightarrow> js \<Rightarrow> js \<Rightarrow> control \<Rightarrow> control_error + maintenance_receipt \<times> control" where
  "maintenance_release digest now input channel c =
     (let request = js_string (jget input ''request_id''); s = ct_state c; why = trim (js_string (jget input ''reason''));
          print = digest (JObj [(''action'', JStr ''release''), (''lock_id'', jget input ''lock_id''), (''reason'', JStr why)]) in
      if \<not> exact_fields input [''lock_id'', ''reason'', ''request_id''] then Inl InvalidFields
      else if \<not> lower_uuid (jget input ''request_id'') then Inl InvalidRequestId
      else if \<not> short_text 256 (jget input ''reason'') then Inl InvalidReason
      else (case find_receipt c request of
         Some old \<Rightarrow> if mo_fingerprint old \<noteq> print then Inl RequestIdConflict else Inr (old, c)
       | None \<Rightarrow>
           (case List.find (\<lambda>l. JStr (ml_id l) = jget input ''lock_id'') (cs_locks s) of
              None \<Rightarrow> Inl UnknownLock
            | Some lock \<Rightarrow>
                if length (cs_receipts s) \<ge> 10000 then Inl ReceiptLimit
                else
                  let op = \<lparr>mo_request = request, mo_channel = channel_of channel, mo_action = ReleaseLock,
                        mo_fingerprint = print, mo_time = now, mo_lock = ml_id lock, mo_worker = ml_worker lock,
                        mo_release_reason = Some why\<rparr>
                  in Inr (op, commit (s\<lparr>cs_manual := (cs_manual s)(ml_worker lock \<mapsto> True),
                            cs_locks := filter (\<lambda>l. ml_id l \<noteq> ml_id lock) (cs_locks s),
                            cs_receipts := cs_receipts s @ [op]\<rparr>) ((ct_drained c)(ml_worker lock \<mapsto> True)) c))))"

definition maintenance_receipt_of :: "js \<Rightarrow> control \<Rightarrow> control_error + maintenance_receipt" where
  "maintenance_receipt_of input c =
     (if \<not> exact_fields input [''request_id''] then Inl InvalidFields
      else if \<not> lower_uuid (jget input ''request_id'') then Inl InvalidRequestId
      else (case find_receipt c (js_string (jget input ''request_id'')) of None \<Rightarrow> Inl ReceiptNotFound | Some r \<Rightarrow> Inr r))"

section \<open>Agent actions\<close>

definition find_operation :: "control \<Rightarrow> string \<Rightarrow> agent_receipt option" where
  "find_operation c i = List.find (\<lambda>r. op_request r = i) (cs_operations (ct_state c))"

text \<open>The checks an action makes before it acts: \<open>Some (Inr r)\<close> answers with the receipt of an earlier
  request.\<close>

definition act_checks ::
    "string \<Rightarrow> string list \<Rightarrow> js \<Rightarrow> string \<Rightarrow> control \<Rightarrow> (control_error + agent_receipt) option" where
  "act_checks actor keys input print c =
     (if \<not> exact_fields input keys then Some (Inl InvalidFields)
      else if enabled_agent c actor = None then Some (Inl Unauthorized_Agent)
      else if \<not> lower_uuid (jget input ''request_id'') then Some (Inl InvalidRequestId)
      else (case find_operation c (js_string (jget input ''request_id'')) of
         Some old \<Rightarrow> if op_actor old \<noteq> actor \<or> op_fingerprint old \<noteq> print then Some (Inl RequestIdConflict) else Some (Inr old)
       | None \<Rightarrow> if length (cs_operations (ct_state c)) \<ge> 10000 then Some (Inl ReceiptLimit) else None))"

definition paused_in :: "control_state \<Rightarrow> string \<Rightarrow> bool" where
  "paused_in s w \<longleftrightarrow> cs_manual s w = Some True \<or> holds_of s w \<noteq> [] \<or> locks_of s w \<noteq> []"

text \<open>The answer is read back from the saved receipts: the first one of the actor under that identifier.\<close>

definition saved_receipt :: "agent_receipt \<Rightarrow> control_state \<Rightarrow> agent_receipt" where
  "saved_receipt op s =
     (case List.find (\<lambda>r. op_request r = op_request op \<and> op_actor r = op_actor op) (cs_operations s) of
        Some r \<Rightarrow> r | None \<Rightarrow> op)"

definition record_action :: "agent_receipt \<Rightarrow> control_state \<Rightarrow> control \<Rightarrow> agent_receipt \<times> control" where
  "record_action op s c =
     (let w = rs_worker (op_result op); s1 = s\<lparr>cs_operations := cs_operations s @ [op]\<rparr>
      in (saved_receipt op s1, commit s1 ((ct_drained c)(w \<mapsto> paused_in s1 w)) c))"

definition drain_print :: "js \<Rightarrow> js" where
  "drain_print input = JObj [(''action'', JStr ''drain''), (''worker_id'', jget input ''worker_id''), (''reason'', jget input ''reason'')]"

definition agent_drain ::
    "(js \<Rightarrow> string) \<Rightarrow> int \<Rightarrow> string \<Rightarrow> string \<Rightarrow> js \<Rightarrow> control \<Rightarrow> control_error + agent_receipt \<times> control" where
  "agent_drain digest now fresh actor input c =
     (let print = digest (drain_print input); s = ct_state c; w = js_string (jget input ''worker_id'') in
      case act_checks actor [''worker_id'', ''reason'', ''request_id''] input print c of
        Some (Inl e) \<Rightarrow> Inl e
      | Some (Inr old) \<Rightarrow> Inr (old, c)
      | None \<Rightarrow>
          if \<not> is_str (jget input ''worker_id'') \<or> find_node c w = None then Inl UnknownWorker
          else if w \<notin> set (ag_workers (the (enabled_agent c actor))) then Inl ForbiddenWorker
          else if \<not> short_text 256 (jget input ''reason'') then Inl InvalidReason
          else if length (cs_holds s) \<ge> 1024 then Inl HoldLimit
          else
            let hold = \<lparr>h_id = fresh, h_worker = w, h_owner = actor, h_reason = trim (js_string (jget input ''reason'')),
                  h_created = now\<rparr>;
                op = \<lparr>op_request = js_string (jget input ''request_id''), op_actor = actor, op_action = DrainAction,
                  op_fingerprint = print, op_time = now,
                  op_result = \<lparr>rs_hold = fresh, rs_worker = w, rs_resumed = False, rs_state = HoldCreated, rs_remaining = [],
                    rs_operator_paused = False, rs_locks = []\<rparr>\<rparr>
            in Inr (record_action op (s\<lparr>cs_manual := (cs_manual s)(w \<mapsto> manual_paused c w), cs_holds := cs_holds s @ [hold]\<rparr>) c))"

text \<open>A resume whose checks passed: what it read before it awaited the probe.\<close>

record pending_resume =
  pr_actor :: string
  pr_request :: string
  pr_fingerprint :: string
  pr_hold :: string
  pr_worker :: string
  pr_others :: "string list"
  pr_manual :: bool
  pr_locks :: "string list"
  pr_handback :: bool

definition pr_clear :: "pending_resume \<Rightarrow> bool" where
  "pr_clear p \<longleftrightarrow> pr_others p = [] \<and> \<not> pr_manual p \<and> pr_locks p = []"

definition resume_print :: "js \<Rightarrow> js" where
  "resume_print input = JObj [(''action'', JStr ''resume''), (''hold_id'', jget input ''hold_id'')]"

datatype resume_start = ResumeRefused control_error | ResumeRepeated agent_receipt | ResumeReady pending_resume | ResumeAwaits pending_resume

definition resume_begin :: "(js \<Rightarrow> string) \<Rightarrow> bool \<Rightarrow> string \<Rightarrow> js \<Rightarrow> control \<Rightarrow> resume_start" where
  "resume_begin digest has_handback actor input c =
     (let print = digest (resume_print input); s = ct_state c in
      case act_checks actor [''hold_id'', ''request_id''] input print c of
        Some (Inl e) \<Rightarrow> ResumeRefused e
      | Some (Inr old) \<Rightarrow> ResumeRepeated old
      | None \<Rightarrow>
          (case List.find (\<lambda>h. JStr (h_id h) = jget input ''hold_id'') (cs_holds s) of
             None \<Rightarrow> ResumeRefused NotHoldOwner
           | Some h \<Rightarrow>
               if h_owner h \<noteq> actor then ResumeRefused NotHoldOwner
               else (case find_node c (h_worker h) of
                 None \<Rightarrow> ResumeRefused UnknownWorker
               | Some n \<Rightarrow>
                   if h_worker h \<notin> set (ag_workers (the (enabled_agent c actor))) then ResumeRefused ForbiddenWorker
                   else
                     let p = \<lparr>pr_actor = actor, pr_request = js_string (jget input ''request_id''), pr_fingerprint = print,
                           pr_hold = h_id h, pr_worker = h_worker h,
                           pr_others = map h_id (filter (\<lambda>x. h_id x \<noteq> h_id h) (holds_of s (h_worker h))),
                           pr_manual = manual_paused c (h_worker h), pr_locks = map ml_id (locks_of s (h_worker h)),
                           pr_handback = False\<rparr>
                     in if \<not> pr_clear p then ResumeReady p
                        else if cn_recovering n then ResumeRefused RecoveryRequired
                        else if cn_quarantine n then
                          (if has_handback then ResumeAwaits (p\<lparr>pr_handback := True\<rparr>) else ResumeRefused RecoveryRequired)
                        else ResumeAwaits p)))"

definition resume_commit :: "int \<Rightarrow> pending_resume \<Rightarrow> control \<Rightarrow> agent_receipt \<times> control" where
  "resume_commit now p c =
     (let s = ct_state c;
          op = \<lparr>op_request = pr_request p, op_actor = pr_actor p, op_action = ResumeAction, op_fingerprint = pr_fingerprint p,
            op_time = now,
            op_result = \<lparr>rs_hold = pr_hold p, rs_worker = pr_worker p, rs_resumed = (pr_clear p \<and> \<not> pr_handback p),
              rs_state = (if pr_handback p then HandbackReleased else HoldReleased), rs_remaining = pr_others p,
              rs_operator_paused = pr_manual p, rs_locks = pr_locks p\<rparr>\<rparr>
      in record_action op (s\<lparr>cs_holds := filter (\<lambda>x. h_id x \<noteq> pr_hold p) (cs_holds s)\<rparr>) c)"

text \<open>After the probe the agent is checked once more.\<close>

definition resume_end :: "int \<Rightarrow> pending_resume \<Rightarrow> control \<Rightarrow> control_error + agent_receipt \<times> control" where
  "resume_end now p c = (if enabled_agent c (pr_actor p) = None then Inl Unauthorized_Agent else Inr (resume_commit now p c))"

definition clear_agent_hold :: "js \<Rightarrow> control \<Rightarrow> control_error + control" where
  "clear_agent_hold input c =
     (let s = ct_state c in
      if \<not> exact_fields input [''hold_id''] then Inl InvalidFields
      else (case List.find (\<lambda>h. JStr (h_id h) = jget input ''hold_id'') (cs_holds s) of
         None \<Rightarrow> Inl UnknownHold
       | Some h \<Rightarrow> Inr (commit (s\<lparr>cs_holds := filter (\<lambda>x. h_id x \<noteq> h_id h) (cs_holds s),
                                cs_manual := (cs_manual s)(h_worker h \<mapsto> True)\<rparr>) ((ct_drained c)(h_worker h \<mapsto> True)) c)))"

definition agent_receipt_of :: "string \<Rightarrow> js \<Rightarrow> control \<Rightarrow> control_error + agent_receipt" where
  "agent_receipt_of actor input c =
     (if \<not> exact_fields input [''request_id''] then Inl InvalidFields
      else if enabled_agent c actor = None then Inl Unauthorized_Agent
      else if \<not> lower_uuid (jget input ''request_id'') then Inl InvalidRequestId
      else (case List.find (\<lambda>o1. op_request o1 = js_string (jget input ''request_id'') \<and> op_actor o1 = actor)
              (cs_operations (ct_state c)) of None \<Rightarrow> Inl ReceiptNotFound | Some r \<Rightarrow> Inr r))"

end
