(* ===== verification/Agent_Authority.thy ===== *)
theory Agent_Authority
  imports Agent_Control
begin

text \<open>
  What the control of routing pauses promises: a worker is paused exactly while an agent's hold, a
  maintenance lock or the operator's own pause stands; nobody's action lifts another's; a repeated
  request repeats its receipt. The last section shows the one promise the code does not keep, the
  uniqueness of agent receipts when two resumes of one request overlap.
\<close>

section \<open>The operations, interleaved\<close>

type_synonym control_system = "control \<times> pending_resume list"

definition remove_node :: "string \<Rightarrow> control_state \<Rightarrow> control \<Rightarrow> control" where
  "remove_node w s c = c\<lparr>ct_state := s, ct_drained := (ct_drained c)(w := None),
     ct_nodes := filter (\<lambda>n. cn_id n \<noteq> w) (ct_nodes c)\<rparr>"

definition add_node :: "control_node \<Rightarrow> control \<Rightarrow> control" where
  "add_node n c = c\<lparr>ct_drained := (ct_drained c)(cn_id n := Some (cn_drained n)), ct_nodes := ct_nodes c @ [n]\<rparr>"

definition used_ids :: "control \<Rightarrow> string set" where
  "used_ids c = h_id ` set (cs_holds (ct_state c)) \<union> ml_id ` set (cs_locks (ct_state c))"

text \<open>\<open>randomUUID\<close> never repeats an identifier that is still held anywhere.\<close>

definition fresh_id :: "string \<Rightarrow> control_system \<Rightarrow> bool" where
  "fresh_id i x \<longleftrightarrow> i \<notin> used_ids (fst x) \<and> i \<notin> pr_hold ` set (snd x)"

inductive control_step :: "(js \<Rightarrow> string) \<Rightarrow> control_system \<Rightarrow> control_system \<Rightarrow> bool" for digest where
  Operator_Pause: "\<forall>i \<in> set ids. known_node c i \<Longrightarrow> manual_update ids b c = Inr c' \<Longrightarrow> control_step digest (c, ps) (c', ps)"
| Node_Removed: "known_node c w \<Longrightarrow> forget_worker w c = Inr s \<Longrightarrow> control_step digest (c, ps) (remove_node w s c, ps)"
| Node_Added: "\<not> known_node c (cn_id n) \<Longrightarrow> control_step digest (c, ps) (add_node n c, ps)"
| Node_Observed: "map cn_id ns = map cn_id (ct_nodes c) \<Longrightarrow> map cn_drained ns = map cn_drained (ct_nodes c) \<Longrightarrow>
    control_step digest (c, ps) (c\<lparr>ct_nodes := ns\<rparr>, ps)"
| Agent_Granted: "grant now th input c = Inr c' \<Longrightarrow> control_step digest (c, ps) (c', ps)"
| Agent_Revoked: "revoke input c = Inr c' \<Longrightarrow> control_step digest (c, ps) (c', ps)"
| Lock_Taken: "fresh_id fresh (c, ps) \<Longrightarrow> maintenance_lock digest now fresh input ch c = Inr (r, c') \<Longrightarrow>
    control_step digest (c, ps) (c', ps)"
| Lock_Released: "maintenance_release digest now input ch c = Inr (r, c') \<Longrightarrow> control_step digest (c, ps) (c', ps)"
| Agent_Drains: "fresh_id fresh (c, ps) \<Longrightarrow> agent_drain digest now fresh actor input c = Inr (r, c') \<Longrightarrow>
    control_step digest (c, ps) (c', ps)"
| Resume_Now: "resume_begin digest hb actor input c = ResumeReady p \<Longrightarrow> resume_commit now p c = (r, c') \<Longrightarrow>
    control_step digest (c, ps) (c', ps)"
| Resume_Waits: "resume_begin digest hb actor input c = ResumeAwaits p \<Longrightarrow> control_step digest (c, ps) (c, p # ps)"
| Resume_Ends: "p \<in> set ps \<Longrightarrow> resume_end now p c = Inr (r, c') \<Longrightarrow> control_step digest (c, ps) (c', remove1 p ps)"
| Resume_Fails: "p \<in> set ps \<Longrightarrow> control_step digest (c, ps) (c, remove1 p ps)"
| Hold_Cleared: "clear_agent_hold input c = Inr c' \<Longrightarrow> control_step digest (c, ps) (c', ps)"

inductive control_reachable :: "(js \<Rightarrow> string) \<Rightarrow> control_system \<Rightarrow> bool" for digest where
  Control_Start: "\<forall>n \<in> set ns. cn_drained n = (d (cn_id n) = Some True) \<Longrightarrow>
    control_reachable digest (\<lparr>ct_state = blank_control, ct_drained = d, ct_nodes = ns\<rparr>, [])"
| Control_Step: "control_reachable digest x \<Longrightarrow> control_step digest x y \<Longrightarrow> control_reachable digest y"

section \<open>The invariant\<close>

definition owned_pause :: "control \<Rightarrow> string \<Rightarrow> bool" where
  "owned_pause c w \<longleftrightarrow> holds_of (ct_state c) w \<noteq> [] \<or> locks_of (ct_state c) w \<noteq> [] \<or> manual_paused c w"

definition control_ok :: "control \<Rightarrow> bool" where
  "control_ok c \<longleftrightarrow>
     (\<forall>n \<in> set (ct_nodes c). cn_drained n = (ct_drained c (cn_id n) = Some True)) \<and>
     (\<forall>w. (ct_drained c w = Some True) = owned_pause c w) \<and>
     (\<forall>h \<in> set (cs_holds (ct_state c)). known_node c (h_worker h)) \<and>
     (\<forall>l \<in> set (cs_locks (ct_state c)). known_node c (ml_worker l)) \<and>
     (\<forall>w. cs_manual (ct_state c) w \<noteq> None \<longrightarrow> known_node c w) \<and>
     distinct (map h_id (cs_holds (ct_state c))) \<and> distinct (map ml_id (cs_locks (ct_state c))) \<and>
     distinct (map mo_request (cs_receipts (ct_state c)))"

lemma commit_fields [simp]:
  "ct_state (commit s d c) = s" "ct_drained (commit s d c) = d" "known_node (commit s d c) w = known_node c w"
  by (simp_all add: commit_def known_node_def comp_def)

lemma control_okI:
  assumes "\<forall>n \<in> set (ct_nodes c). cn_drained n = (ct_drained c (cn_id n) = Some True)"
    and "\<And>w. (ct_drained c w = Some True) = owned_pause c w"
    and "\<forall>h \<in> set (cs_holds (ct_state c)). known_node c (h_worker h)"
    and "\<forall>l \<in> set (cs_locks (ct_state c)). known_node c (ml_worker l)"
    and "\<And>w. cs_manual (ct_state c) w \<noteq> None \<longrightarrow> known_node c w"
    and "distinct (map h_id (cs_holds (ct_state c)))" "distinct (map ml_id (cs_locks (ct_state c)))"
    and "distinct (map mo_request (cs_receipts (ct_state c)))"
  shows "control_ok c"
  unfolding control_ok_def using assms by (intro conjI allI) assumption+

lemma commit_ok:
  assumes "control_ok c"
    and "\<And>w. (d w = Some True) = (holds_of s w \<noteq> [] \<or> locks_of s w \<noteq> [] \<or>
               (case cs_manual s w of Some b \<Rightarrow> b | None \<Rightarrow> d w = Some True))"
    and "\<And>h. h \<in> set (cs_holds s) \<Longrightarrow> known_node c (h_worker h)"
    and "\<And>l. l \<in> set (cs_locks s) \<Longrightarrow> known_node c (ml_worker l)"
    and "\<And>w. cs_manual s w \<noteq> None \<Longrightarrow> known_node c w"
    and "distinct (map h_id (cs_holds s))" "distinct (map ml_id (cs_locks s))" "distinct (map mo_request (cs_receipts s))"
  shows "control_ok (commit s d c)"
proof -
  have nodes: "\<forall>n \<in> set (ct_nodes (commit s d c)). cn_drained n = (d (cn_id n) = Some True)"
    by (auto simp: commit_def)
  have drained: "\<forall>w. (d w = Some True) = owned_pause (commit s d c) w"
    unfolding owned_pause_def manual_paused_def commit_fields using assms(2) by blast
  show ?thesis
    unfolding control_ok_def commit_fields using nodes drained assms(3-8) by blast
qed

lemma find_node_known: "find_node c w \<noteq> None \<Longrightarrow> known_node c w"
  unfolding find_node_def known_node_def find_None_iff by auto

lemma owned_pauseD: "control_ok c \<Longrightarrow> (ct_drained c w = Some True) =
   (holds_of (ct_state c) w \<noteq> [] \<or> locks_of (ct_state c) w \<noteq> [] \<or> manual_paused c w)"
  by (simp add: control_ok_def owned_pause_def)

text \<open>The same without the circular case of a worker that has no operator entry.\<close>

lemma owned_pause_parts:
  assumes "control_ok c"
  shows "cs_manual (ct_state c) w = None \<Longrightarrow> holds_of (ct_state c) w \<noteq> [] \<or> locks_of (ct_state c) w \<noteq> [] \<Longrightarrow> ct_drained c w = Some True"
    and "cs_manual (ct_state c) w = Some b \<Longrightarrow>
      (ct_drained c w = Some True) = (holds_of (ct_state c) w \<noteq> [] \<or> locks_of (ct_state c) w \<noteq> [] \<or> b)"
  using owned_pauseD [OF assms, of w] unfolding manual_paused_def by (simp_all only: option.case) blast+

lemma control_okD:
  assumes "control_ok c"
  shows "h \<in> set (cs_holds (ct_state c)) \<Longrightarrow> known_node c (h_worker h)"
    and "l \<in> set (cs_locks (ct_state c)) \<Longrightarrow> known_node c (ml_worker l)"
    and "cs_manual (ct_state c) w \<noteq> None \<Longrightarrow> known_node c w"
    and "distinct (map h_id (cs_holds (ct_state c)))" "distinct (map ml_id (cs_locks (ct_state c)))"
    and "distinct (map mo_request (cs_receipts (ct_state c)))"
  using assms by (simp_all add: control_ok_def)

lemma find_SomeD: "List.find P xs = Some x \<Longrightarrow> x \<in> set xs \<and> P x"
  by (induction xs) (auto split: if_splits)

lemma find_append_None: "List.find P xs = None \<Longrightarrow> List.find P (xs @ ys) = List.find P ys"
  by (induction xs) (auto split: if_splits)

lemma manual_update_ok:
  assumes ok: "control_ok c" and known: "\<forall>i \<in> set ids. known_node c i" and u: "manual_update ids b c = Inr c'"
  shows "control_ok c'"
proof -
  let ?s = "(ct_state c)\<lparr>cs_manual := (\<lambda>i. if i \<in> set ids then Some b else cs_manual (ct_state c) i)\<rparr>"
  let ?d = "\<lambda>i. if i \<in> set ids then Some (b \<or> holds_of (ct_state c) i \<noteq> [] \<or> locks_of (ct_state c) i \<noteq> [])
            else ct_drained c i"
  have c': "c' = commit ?s ?d c" using u by (simp add: manual_update_def split: if_splits)
  have same: "holds_of ?s w = holds_of (ct_state c) w" "locks_of ?s w = locks_of (ct_state c) w" for w
    by (simp_all add: holds_of_def locks_of_def)
  show ?thesis
    unfolding c'
  proof (rule commit_ok [OF ok])
    fix w
    show "(?d w = Some True) = (holds_of ?s w \<noteq> [] \<or> locks_of ?s w \<noteq> [] \<or>
        (case cs_manual ?s w of Some b \<Rightarrow> b | None \<Rightarrow> ?d w = Some True))"
      using owned_pauseD [OF ok, of w] same [of w] by (auto simp: manual_paused_def)
    show "cs_manual ?s w \<noteq> None \<Longrightarrow> known_node c w"
      using control_okD(3) [OF ok, of w] known by (auto split: if_splits)
  qed (use control_okD [OF ok] in simp_all)
qed

text \<open>The commits of holds, locks and resumes share one shape: one worker's entries change, and its
  routing follows them.\<close>

lemma single_commit_ok:
  assumes ok: "control_ok c" and w: "known_node c w \<or> m = cs_manual (ct_state c) w"
    and s: "cs_manual s = (cs_manual (ct_state c))(w := m)"
    and other: "\<And>v. v \<noteq> w \<Longrightarrow> holds_of s v = holds_of (ct_state c) v \<and> locks_of s v = locks_of (ct_state c) v"
    and holds: "\<And>h. h \<in> set (cs_holds s) \<Longrightarrow> h \<in> set (cs_holds (ct_state c)) \<or> h_worker h = w \<and> known_node c w"
    and locks: "\<And>l. l \<in> set (cs_locks s) \<Longrightarrow> l \<in> set (cs_locks (ct_state c)) \<or> ml_worker l = w \<and> known_node c w"
    and distinct: "distinct (map h_id (cs_holds s))" "distinct (map ml_id (cs_locks s))" "distinct (map mo_request (cs_receipts s))"
    and p: "paused = (m = Some True \<or> holds_of s w \<noteq> [] \<or> locks_of s w \<noteq> [])"
  shows "control_ok (commit s ((ct_drained c)(w \<mapsto> paused)) c)"
proof (rule commit_ok [OF ok _ _ _ _ distinct])
  fix v
  show "(((ct_drained c)(w \<mapsto> paused)) v = Some True) = (holds_of s v \<noteq> [] \<or> locks_of s v \<noteq> [] \<or>
      (case cs_manual s v of Some b \<Rightarrow> b | None \<Rightarrow> ((ct_drained c)(w \<mapsto> paused)) v = Some True))"
  proof (cases "v = w")
    case True
    then show ?thesis using p s by (auto split: option.split)
  next
    case False
    then have "((ct_drained c)(w \<mapsto> paused)) v = ct_drained c v" "cs_manual s v = cs_manual (ct_state c) v" using s by simp_all
    then show ?thesis using owned_pauseD [OF ok, of v] other [OF False] False unfolding manual_paused_def
      by (cases "cs_manual (ct_state c) v") simp_all
  qed
next
  show "\<And>h. h \<in> set (cs_holds s) \<Longrightarrow> known_node c (h_worker h)" using holds control_okD(1) [OF ok] by blast
  show "\<And>l. l \<in> set (cs_locks s) \<Longrightarrow> known_node c (ml_worker l)" using locks control_okD(2) [OF ok] by blast
  fix v
  show "cs_manual s v \<noteq> None \<Longrightarrow> known_node c v" using w s control_okD(3) [OF ok, of v] by (metis fun_upd_apply)
qed

lemma find_receipt_None: "find_receipt c i = None \<Longrightarrow> i \<notin> mo_request ` set (cs_receipts (ct_state c))"
  by (auto simp: find_receipt_def find_None_iff)

lemma lock_input_known: "lock_input_error input m c = None \<Longrightarrow> known_node c (js_string (jget input ''worker_id''))"
  by (auto simp: lock_input_error_def Let_def split: if_splits)

text \<open>What the two maintenance operations commit.\<close>

lemma maintenance_lock_cases:
  assumes u: "maintenance_lock digest now fresh input ch c = Inr (r, c')"
  obtains (repeated) "find_receipt c (js_string (jget input ''request_id'')) = Some r" "c' = c"
      "mo_fingerprint r = digest (lock_print input (has_own input ''minimum_other_llms''))"
  | (taken) lock where "find_receipt c (js_string (jget input ''request_id'')) = None"
      "known_node c (ml_worker lock)" "ml_id lock = fresh" "mo_request r = js_string (jget input ''request_id'')"
      "mo_fingerprint r = digest (lock_print input (has_own input ''minimum_other_llms''))"
      "c' = commit ((ct_state c)\<lparr>cs_manual := (cs_manual (ct_state c))(ml_worker lock \<mapsto> manual_paused c (ml_worker lock)),
              cs_locks := cs_locks (ct_state c) @ [lock], cs_receipts := cs_receipts (ct_state c) @ [r]\<rparr>)
              ((ct_drained c)(ml_worker lock \<mapsto> True)) c"
proof (cases "find_receipt c (js_string (jget input ''request_id''))")
  case (Some old)
  then show thesis using u repeated by (auto simp: maintenance_lock_def Let_def split: if_splits option.splits)
next
  case None
  have e: "lock_input_error input (has_own input ''minimum_other_llms'') c = None"
    using u by (auto simp: maintenance_lock_def Let_def split: option.splits)
  show thesis
    by (rule taken [of "\<lparr>ml_id = fresh, ml_worker = js_string (jget input ''worker_id''), ml_name = trim (js_string (jget input ''name'')),
          ml_reason = trim (js_string (jget input ''reason'')), ml_created = now,
          ml_review = map_option (\<lambda>n. now + n * 3600000) (safe_int (jget input ''review_after_hours'')),
          ml_channel = channel_of ch\<rparr>"])
      (use u None e lock_input_known [OF e] in \<open>auto simp: maintenance_lock_def Let_def split: if_splits\<close>)
qed

lemma maintenance_release_cases:
  assumes u: "maintenance_release digest now input ch c = Inr (r, c')"
  obtains (repeated) "find_receipt c (js_string (jget input ''request_id'')) = Some r" "c' = c"
  | (released) lock where "find_receipt c (js_string (jget input ''request_id'')) = None"
      "lock \<in> set (cs_locks (ct_state c))" "mo_request r = js_string (jget input ''request_id'')"
      "c' = commit ((ct_state c)\<lparr>cs_manual := (cs_manual (ct_state c))(ml_worker lock \<mapsto> True),
              cs_locks := filter (\<lambda>l. ml_id l \<noteq> ml_id lock) (cs_locks (ct_state c)),
              cs_receipts := cs_receipts (ct_state c) @ [r]\<rparr>) ((ct_drained c)(ml_worker lock \<mapsto> True)) c"
proof (cases "find_receipt c (js_string (jget input ''request_id''))")
  case (Some old)
  then show thesis using u repeated by (auto simp: maintenance_release_def Let_def split: if_splits option.splits)
next
  case None
  then obtain lock where lock: "List.find (\<lambda>l. JStr (ml_id l) = jget input ''lock_id'') (cs_locks (ct_state c)) = Some lock"
    using u by (auto simp: maintenance_release_def Let_def split: if_splits option.splits)
  then have "lock \<in> set (cs_locks (ct_state c))" by (auto simp: find_Some_iff)
  then show thesis
    by (rule released [OF None]) (use u None lock in \<open>auto simp: maintenance_release_def Let_def split: if_splits\<close>)
qed

lemma filter_other_id:
  assumes "distinct (map f xs)" "x \<in> set xs" "g x \<noteq> v"
  shows "filter (\<lambda>y. g y = v) (filter (\<lambda>y. f y \<noteq> f x) xs) = filter (\<lambda>y. g y = v) xs"
  using assms by (auto simp: distinct_map inj_on_def intro: filter_cong)

lemma distinct_map_filter_id: "distinct (map f xs) \<Longrightarrow> distinct (map f (filter P xs))"
  by (rule distinct_map_filter)

lemma maintenance_lock_ok:
  assumes ok: "control_ok c" and fresh: "fresh \<notin> used_ids c" and u: "maintenance_lock digest now fresh input ch c = Inr (r, c')"
  shows "control_ok c'"
  using u
proof (cases rule: maintenance_lock_cases)
  case repeated
  then show ?thesis using ok by simp
next
  case (taken lock)
  have new: "ml_id lock \<notin> ml_id ` set (cs_locks (ct_state c))" using fresh taken(3) by (simp add: used_ids_def)
  show ?thesis
    unfolding taken(6)
    by (rule single_commit_ok [OF ok, where m = "Some (manual_paused c (ml_worker lock))"])
      (use taken(2) new taken(4) find_receipt_None [OF taken(1)] control_okD [OF ok] in \<open>auto simp: holds_of_def locks_of_def\<close>)
qed

lemma maintenance_release_ok:
  assumes ok: "control_ok c" and u: "maintenance_release digest now input ch c = Inr (r, c')"
  shows "control_ok c'"
  using u
proof (cases rule: maintenance_release_cases)
  case repeated
  then show ?thesis using ok by simp
next
  case (released lock)
  show ?thesis
    unfolding released(4)
    by (rule single_commit_ok [OF ok, where m = "Some True"])
      (use released(2,3) find_receipt_None [OF released(1)] control_okD [OF ok]
        filter_other_id [OF control_okD(5) [OF ok] released(2), of ml_worker] in
        \<open>auto simp: holds_of_def locks_of_def intro: distinct_map_filter_id\<close>)
qed

lemma enabled_agent_commit [simp]: "cs_agents s = cs_agents (ct_state c) \<Longrightarrow> enabled_agent (commit s d c) i = enabled_agent c i"
  by (simp add: enabled_agent_def)

lemma paused_in_cong:
  "cs_holds s = cs_holds s' \<Longrightarrow> cs_manual s = cs_manual s' \<Longrightarrow> cs_locks s = cs_locks s' \<Longrightarrow> paused_in s w = paused_in s' w"
  by (simp add: paused_in_def holds_of_def locks_of_def)

lemma record_action_ok:
  assumes ok: "control_ok c" and w: "w = rs_worker (op_result op)" and m: "known_node c w \<or> m = cs_manual (ct_state c) w"
    and s: "cs_manual s = (cs_manual (ct_state c))(w := m)"
    and other: "\<And>v. v \<noteq> w \<Longrightarrow> holds_of s v = holds_of (ct_state c) v" and locks: "cs_locks s = cs_locks (ct_state c)"
    and holds: "\<And>h. h \<in> set (cs_holds s) \<Longrightarrow> h \<in> set (cs_holds (ct_state c)) \<or> h_worker h = w \<and> known_node c w"
    and distinct: "distinct (map h_id (cs_holds s))" and receipts: "cs_receipts s = cs_receipts (ct_state c)"
  shows "control_ok (snd (record_action op s c))"
proof -
  let ?s = "s\<lparr>cs_operations := cs_operations s @ [op]\<rparr>"
  have [simp]: "holds_of ?s v = holds_of s v" "locks_of ?s v = locks_of (ct_state c) v" for v
    using locks by (simp_all add: holds_of_def locks_of_def)
  have "control_ok (commit ?s ((ct_drained c)(w \<mapsto> paused_in ?s w)) c)"
    by (rule single_commit_ok [OF ok m])
      (use s other locks holds distinct receipts control_okD [OF ok] in \<open>simp_all add: paused_in_def\<close>)
  then show ?thesis by (simp add: record_action_def w Let_def)
qed

lemma record_action_new:
  assumes "find_operation c (op_request op) = None" and "cs_operations s = cs_operations (ct_state c)"
  shows "record_action op s c = (op, commit (s\<lparr>cs_operations := cs_operations s @ [op]\<rparr>)
    ((ct_drained c)(rs_worker (op_result op) \<mapsto> paused_in (s\<lparr>cs_operations := cs_operations s @ [op]\<rparr>) (rs_worker (op_result op)))) c)"
proof -
  have "List.find (\<lambda>r. op_request r = op_request op \<and> op_actor r = op_actor op) (cs_operations (ct_state c)) = None"
    using assms(1) by (auto simp: find_operation_def find_None_iff)
  then show ?thesis using assms(2) by (simp add: record_action_def saved_receipt_def find_append_None Let_def)
qed

lemma agent_drain_cases:
  assumes u: "agent_drain digest now fresh actor input c = Inr (r, c')"
  obtains (repeated) "find_operation c (js_string (jget input ''request_id'')) = Some r" "c' = c" "op_actor r = actor"
      "op_fingerprint r = digest (drain_print input)"
  | (drained) hold where "find_operation c (js_string (jget input ''request_id'')) = None"
      "known_node c (h_worker hold)" "h_id hold = fresh" "h_owner hold = actor" "rs_worker (op_result r) = h_worker hold"
      "h_worker hold \<in> set (ag_workers (the (enabled_agent c actor)))" "enabled_agent c actor \<noteq> None"
      "op_request r = js_string (jget input ''request_id'')" "op_actor r = actor" "op_fingerprint r = digest (drain_print input)"
      "(r, c') = record_action r ((ct_state c)\<lparr>cs_manual := (cs_manual (ct_state c))(h_worker hold \<mapsto> manual_paused c (h_worker hold)),
         cs_holds := cs_holds (ct_state c) @ [hold]\<rparr>) c"
proof (cases "find_operation c (js_string (jget input ''request_id''))")
  case (Some old)
  then show thesis using u repeated by (auto simp: agent_drain_def act_checks_def Let_def split: if_splits)
next
  case None
  let ?w = "js_string (jget input ''worker_id'')"
  have checks: "act_checks actor [''worker_id'', ''reason'', ''request_id''] input (digest (drain_print input)) c = None"
    using u None by (auto simp: agent_drain_def act_checks_def Let_def split: if_splits)
  then have agent: "enabled_agent c actor \<noteq> None" by (auto simp: act_checks_def split: if_splits)
  have node: "known_node c ?w"
    using u checks by (intro find_node_known) (auto simp: agent_drain_def Let_def split: if_splits)
  show thesis
    by (rule drained [of "\<lparr>h_id = fresh, h_worker = ?w, h_owner = actor,
          h_reason = trim (js_string (jget input ''reason'')), h_created = now\<rparr>", OF None])
      (use u checks agent node None in \<open>auto simp: agent_drain_def record_action_new Let_def split: if_splits\<close>)
qed

lemma agent_drain_ok:
  assumes ok: "control_ok c" and fresh: "fresh \<notin> used_ids c" and u: "agent_drain digest now fresh actor input c = Inr (r, c')"
  shows "control_ok c'"
  using u
proof (cases rule: agent_drain_cases)
  case repeated
  then show ?thesis using ok by simp
next
  case (drained hold)
  let ?s = "(ct_state c)\<lparr>cs_manual := (cs_manual (ct_state c))(h_worker hold \<mapsto> manual_paused c (h_worker hold)),
    cs_holds := cs_holds (ct_state c) @ [hold]\<rparr>"
  have new: "h_id hold \<notin> h_id ` set (cs_holds (ct_state c))" using fresh drained(3) by (simp add: used_ids_def)
  have "control_ok (snd (record_action r ?s c))"
    by (rule record_action_ok [OF ok, where m = "Some (manual_paused c (h_worker hold))" and w = "h_worker hold"])
      (use drained(2,5) new control_okD [OF ok] in \<open>auto simp: holds_of_def\<close>)
  then show ?thesis using drained(11) by (metis snd_conv)
qed

definition pending_ok :: "control \<Rightarrow> pending_resume \<Rightarrow> bool" where
  "pending_ok c p \<longleftrightarrow> (\<forall>h \<in> set (cs_holds (ct_state c)). h_id h = pr_hold p \<longrightarrow>
     h_worker h = pr_worker p \<and> h_owner h = pr_actor p)"

lemma resume_commit_ok:
  assumes ok: "control_ok c" and p: "pending_ok c p"
  shows "control_ok (snd (resume_commit now p c))"
proof -
  have "filter (\<lambda>h. h_worker h = v) (filter (\<lambda>h. h_id h \<noteq> pr_hold p) (cs_holds (ct_state c))) =
      filter (\<lambda>h. h_worker h = v) (cs_holds (ct_state c))" if "v \<noteq> pr_worker p" for v
    using p that by (auto simp: pending_ok_def intro!: filter_cong)
  then show ?thesis
    unfolding resume_commit_def Let_def
    by (intro record_action_ok [OF ok, where m = "cs_manual (ct_state c) (pr_worker p)" and w = "pr_worker p"])
      (use control_okD [OF ok] in \<open>auto simp: holds_of_def intro: distinct_map_filter_id\<close>)
qed

lemma known_nodeI: "control_ok c \<Longrightarrow> holds_of (ct_state c) w \<noteq> [] \<or> locks_of (ct_state c) w \<noteq> [] \<Longrightarrow> known_node c w"
  unfolding holds_of_def locks_of_def filter_empty_conv using control_okD(1,2) by blast

lemma clear_agent_hold_ok:
  assumes ok: "control_ok c" and u: "clear_agent_hold input c = Inr c'"
  shows "control_ok c'"
proof -
  let ?s = "ct_state c"
  obtain h where h: "h \<in> set (cs_holds ?s)" and c': "c' = commit (?s\<lparr>cs_holds := filter (\<lambda>x. h_id x \<noteq> h_id h) (cs_holds ?s),
      cs_manual := (cs_manual ?s)(h_worker h \<mapsto> True)\<rparr>) ((ct_drained c)(h_worker h \<mapsto> True)) c"
    using u by (auto simp: clear_agent_hold_def Let_def split: if_splits option.splits dest: find_SomeD)
  show ?thesis
    unfolding c'
    by (rule single_commit_ok [OF ok, where m = "Some True"])
      (use h control_okD [OF ok] filter_other_id [OF control_okD(4) [OF ok] h, of h_worker] in
        \<open>auto simp: holds_of_def locks_of_def intro: distinct_map_filter_id\<close>)
qed

lemma agents_only_ok:
  assumes ok: "control_ok c"
  shows "control_ok (commit ((ct_state c)\<lparr>cs_agents := as\<rparr>) (ct_drained c) c)"
proof (rule commit_ok [OF ok])
  fix w
  show "(ct_drained c w = Some True) = (holds_of ((ct_state c)\<lparr>cs_agents := as\<rparr>) w \<noteq> [] \<or>
      locks_of ((ct_state c)\<lparr>cs_agents := as\<rparr>) w \<noteq> [] \<or>
      (case cs_manual ((ct_state c)\<lparr>cs_agents := as\<rparr>) w of Some b \<Rightarrow> b | None \<Rightarrow> ct_drained c w = Some True))"
    using owned_pauseD [OF ok, of w] by (simp add: manual_paused_def holds_of_def locks_of_def)
qed (use control_okD [OF ok] in simp_all)

lemma remove_node_ok:
  assumes ok: "control_ok c" and u: "forget_worker w c = Inr s"
  shows "control_ok (remove_node w s c)"
proof -
  have free: "holds_of (ct_state c) w = []" "locks_of (ct_state c) w = []" using u by (auto simp: forget_worker_def split: if_splits)
  have s: "cs_manual s = (cs_manual (ct_state c))(w := None)" "cs_holds s = cs_holds (ct_state c)"
    "cs_locks s = cs_locks (ct_state c)" "cs_receipts s = cs_receipts (ct_state c)"
    using u by (auto simp: forget_worker_def split: if_splits)
  have same: "holds_of s v = holds_of (ct_state c) v" "locks_of s v = locks_of (ct_state c) v" for v
    by (simp_all add: holds_of_def locks_of_def s)
  have known: "known_node (remove_node w s c) v \<longleftrightarrow> known_node c v \<and> v \<noteq> w" for v
    by (auto simp: known_node_def remove_node_def)
  have away: "h_worker h \<noteq> w" if "h \<in> set (cs_holds (ct_state c))" for h
    using free(1) that by (auto simp: holds_of_def filter_empty_conv)
  have away': "ml_worker l \<noteq> w" if "l \<in> set (cs_locks (ct_state c))" for l
    using free(2) that by (auto simp: locks_of_def filter_empty_conv)
  have pause: "(((ct_drained c)(w := None)) v = Some True) = owned_pause (remove_node w s c) v" for v
    using owned_pause_parts [OF ok, of v] free
    by (cases "v = w"; cases "cs_manual (ct_state c) v") (auto simp: owned_pause_def manual_paused_def same remove_node_def s)
  have nodes: "\<forall>n \<in> set (ct_nodes (remove_node w s c)). cn_drained n = (((ct_drained c)(w := None)) (cn_id n) = Some True)"
    using ok by (auto simp: remove_node_def control_ok_def)
  have fields: "ct_state (remove_node w s c) = s" "ct_drained (remove_node w s c) = (ct_drained c)(w := None)"
    by (simp_all add: remove_node_def)
  have manual: "cs_manual s v \<noteq> None \<longrightarrow> known_node (remove_node w s c) v" for v
    using control_okD(3) [OF ok, of v] by (simp add: known s(1))
  have entries: "\<forall>h \<in> set (cs_holds (ct_state c)). known_node (remove_node w s c) (h_worker h)"
    "\<forall>l \<in> set (cs_locks (ct_state c)). known_node (remove_node w s c) (ml_worker l)"
    using away away' control_okD(1,2) [OF ok] by (simp_all add: known)
  show ?thesis
    by (rule control_okI; (unfold fields s(2-4))?) (rule nodes pause manual entries control_okD(4-6) [OF ok])+
qed

lemma add_node_ok:
  assumes ok: "control_ok c" and new: "\<not> known_node c (cn_id n)"
  shows "control_ok (add_node n c)"
proof -
  have none: "holds_of (ct_state c) (cn_id n) = []" "locks_of (ct_state c) (cn_id n) = []"
    "cs_manual (ct_state c) (cn_id n) = None"
    using known_nodeI [OF ok, of "cn_id n"] control_okD(3) [OF ok, of "cn_id n"] new by blast+
  have known: "known_node (add_node n c) v \<longleftrightarrow> known_node c v \<or> v = cn_id n" for v
    by (auto simp: known_node_def add_node_def)
  have fields: "ct_state (add_node n c) = ct_state c" "ct_drained (add_node n c) = (ct_drained c)(cn_id n := Some (cn_drained n))"
    by (simp_all add: add_node_def)
  have pause: "(((ct_drained c)(cn_id n := Some (cn_drained n))) v = Some True) = owned_pause (add_node n c) v" for v
    using owned_pause_parts [OF ok, of v] none
    by (cases "v = cn_id n"; cases "cs_manual (ct_state c) v") (auto simp: owned_pause_def manual_paused_def fields)
  have nodes: "\<forall>m \<in> set (ct_nodes (add_node n c)). cn_drained m = (((ct_drained c)(cn_id n := Some (cn_drained n))) (cn_id m) = Some True)"
  proof -
    have "cn_id m \<noteq> cn_id n" if "m \<in> set (ct_nodes c)" for m
      using new imageI [OF that, of cn_id] by (auto simp: known_node_def)
    then show ?thesis using ok by (auto simp: add_node_def control_ok_def)
  qed
  have manual: "cs_manual (ct_state c) v \<noteq> None \<longrightarrow> known_node (add_node n c) v" for v
    using control_okD(3) [OF ok, of v] by (simp add: known)
  have entries: "\<forall>h \<in> set (cs_holds (ct_state c)). known_node (add_node n c) (h_worker h)"
    "\<forall>l \<in> set (cs_locks (ct_state c)). known_node (add_node n c) (ml_worker l)"
    using control_okD(1,2) [OF ok] by (simp_all add: known)
  show ?thesis
    by (rule control_okI; (unfold fields)?) (rule nodes pause manual entries control_okD(4-6) [OF ok])+
qed

lemma resume_begin_pending:
  assumes ok: "control_ok c" and r: "resume_begin digest hb actor input c = ResumeReady p \<or> resume_begin digest hb actor input c = ResumeAwaits p"
  shows "pending_ok c p" and "pr_hold p \<in> h_id ` set (cs_holds (ct_state c))" and "pr_actor p = actor"
    and "enabled_agent c actor \<noteq> None" and "pr_worker p \<in> set (ag_workers (the (enabled_agent c actor)))"
    and "\<exists>h \<in> set (cs_holds (ct_state c)). h_id h = pr_hold p \<and> h_owner h = actor \<and> h_worker h = pr_worker p"
proof -
  obtain h where h: "h \<in> set (cs_holds (ct_state c))" "pr_hold p = h_id h" "pr_worker p = h_worker h" "h_owner h = actor"
    and a: "pr_actor p = actor" "enabled_agent c actor \<noteq> None" "h_worker h \<in> set (ag_workers (the (enabled_agent c actor)))"
    using r by (auto simp: resume_begin_def act_checks_def Let_def split: if_splits option.splits dest!: find_SomeD)
  have "h' = h" if "h' \<in> set (cs_holds (ct_state c))" "h_id h' = h_id h" for h'
    using control_okD(4) [OF ok] h(1) that by (auto simp: distinct_map dest: inj_onD)
  then show "pending_ok c p" using h a by (auto simp: pending_ok_def)
  show "pr_hold p \<in> h_id ` set (cs_holds (ct_state c))" using h by simp
  show "pr_actor p = actor" "enabled_agent c actor \<noteq> None" "pr_worker p \<in> set (ag_workers (the (enabled_agent c actor)))"
    using a h by simp_all
  show "\<exists>h \<in> set (cs_holds (ct_state c)). h_id h = pr_hold p \<and> h_owner h = actor \<and> h_worker h = pr_worker p"
    using h by (intro bexI [of _ h]) simp_all
qed

definition system_ok :: "control_system \<Rightarrow> bool" where
  "system_ok x \<longleftrightarrow> control_ok (fst x) \<and> (\<forall>p \<in> set (snd x). pending_ok (fst x) p)"

lemma pending_kept:
  assumes "\<forall>p \<in> set ps. pending_ok c p" and "set (cs_holds (ct_state c')) \<subseteq> set (cs_holds (ct_state c)) \<union> {h. h_id h \<notin> pr_hold ` set ps}"
  shows "\<forall>p \<in> set ps. pending_ok c' p"
  using assms by (fastforce simp: pending_ok_def)

lemma record_action_holds [simp]: "cs_holds (ct_state (snd (record_action op s c))) = cs_holds s"
  by (simp add: record_action_def Let_def)

lemma agent_drain_holds:
  assumes "agent_drain digest now fresh actor input c = Inr (r, c')"
  shows "set (cs_holds (ct_state c')) \<subseteq> set (cs_holds (ct_state c)) \<union> {h. h_id h = fresh}"
  using assms
proof (cases rule: agent_drain_cases)
  case (drained hold)
  then have "c' = snd (record_action r ((ct_state c)\<lparr>cs_manual := (cs_manual (ct_state c))(h_worker hold \<mapsto> manual_paused c (h_worker hold)),
         cs_holds := cs_holds (ct_state c) @ [hold]\<rparr>) c)" by (metis snd_conv)
  then show ?thesis using drained(3) by auto
qed simp

lemma other_holds_kept:
  "manual_update ids b c = Inr c1 \<Longrightarrow> cs_holds (ct_state c1) = cs_holds (ct_state c)"
  "forget_worker w c = Inr s \<Longrightarrow> cs_holds s = cs_holds (ct_state c)"
  "grant now th input c = Inr c1 \<Longrightarrow> cs_holds (ct_state c1) = cs_holds (ct_state c)"
  "revoke input c = Inr c1 \<Longrightarrow> cs_holds (ct_state c1) = cs_holds (ct_state c)"
  "clear_agent_hold input c = Inr c1 \<Longrightarrow> set (cs_holds (ct_state c1)) \<subseteq> set (cs_holds (ct_state c))"
  by (auto simp: manual_update_def forget_worker_def grant_def revoke_def clear_agent_hold_def Let_def
      split: if_splits option.splits)

lemma resume_commit_holds:
  "cs_holds (ct_state (snd (resume_commit now p c))) = filter (\<lambda>x. h_id x \<noteq> pr_hold p) (cs_holds (ct_state c))"
  by (simp add: resume_commit_def Let_def)

lemma maintenance_holds:
  "maintenance_lock digest now fresh input ch c = Inr (r, c1) \<Longrightarrow> cs_holds (ct_state c1) = cs_holds (ct_state c)"
  "maintenance_release digest now input ch c = Inr (r, c1) \<Longrightarrow> cs_holds (ct_state c1) = cs_holds (ct_state c)"
  by (erule maintenance_lock_cases; simp) (erule maintenance_release_cases; simp)

lemma grant_ok: "control_ok c \<Longrightarrow> grant now th input c = Inr c' \<Longrightarrow> control_ok c'"
  by (auto simp: grant_def agents_only_ok split: if_splits option.splits)

lemma revoke_ok: "control_ok c \<Longrightarrow> revoke input c = Inr c' \<Longrightarrow> control_ok c'"
  by (auto simp: revoke_def Let_def agents_only_ok split: if_splits)

lemma observed_ok:
  assumes ok: "control_ok c" and ids: "map cn_id ns = map cn_id (ct_nodes c)" and d: "map cn_drained ns = map cn_drained (ct_nodes c)"
  shows "control_ok (c\<lparr>ct_nodes := ns\<rparr>)"
proof -
  have known: "known_node (c\<lparr>ct_nodes := ns\<rparr>) = known_node c"
    using ids by (simp add: known_node_def fun_eq_iff del: set_map)
  have nodes: "cn_drained n = (ct_drained c (cn_id n) = Some True)" if n: "n \<in> set ns" for n
  proof -
    obtain i where i: "i < length ns" "ns ! i = n" using n by (auto simp: in_set_conv_nth)
    have l: "length ns = length (ct_nodes c)" using ids by (rule map_eq_imp_length_eq)
    have "cn_id n = cn_id (ct_nodes c ! i)" "cn_drained n = cn_drained (ct_nodes c ! i)"
      using i l arg_cong [OF ids, of "\<lambda>x. x ! i"] arg_cong [OF d, of "\<lambda>x. x ! i"] by simp_all
    moreover have "ct_nodes c ! i \<in> set (ct_nodes c)" using i l by simp
    ultimately show ?thesis using ok by (simp add: control_ok_def)
  qed
  have fields: "ct_state (c\<lparr>ct_nodes := ns\<rparr>) = ct_state c" "ct_drained (c\<lparr>ct_nodes := ns\<rparr>) = ct_drained c"
    "owned_pause (c\<lparr>ct_nodes := ns\<rparr>) = owned_pause c"
    by (simp_all add: fun_eq_iff owned_pause_def manual_paused_def split: option.split)
  have n: "\<forall>n \<in> set (ct_nodes (c\<lparr>ct_nodes := ns\<rparr>)). cn_drained n = (ct_drained c (cn_id n) = Some True)" using nodes by simp
  show ?thesis
    using ok n unfolding control_ok_def known fields by blast
qed

lemma control_step_ok:
  assumes "control_step digest x y" and "system_ok x"
  shows "system_ok y"
  using assms
proof (cases rule: control_step.cases)
  case (Operator_Pause ids c b c' ps)
  then show ?thesis using assms(2) manual_update_ok pending_kept [of ps c c'] other_holds_kept(1) by (fastforce simp: system_ok_def)
next
  case (Node_Removed c w s ps)
  then show ?thesis using assms(2) remove_node_ok other_holds_kept(2) [of w c s]
    by (auto simp: system_ok_def pending_ok_def remove_node_def)
next
  case (Node_Added c n ps)
  then show ?thesis using assms(2) add_node_ok [of c n] by (auto simp: system_ok_def pending_ok_def add_node_def)
next
  case (Node_Observed ns c ps)
  then show ?thesis using assms(2) observed_ok [of c ns] by (auto simp: system_ok_def pending_ok_def)
next
  case (Agent_Granted now th input c c' ps)
  then show ?thesis using assms(2) grant_ok [of c now th input c'] other_holds_kept(3) [of now th input c c']
    by (auto simp: system_ok_def pending_ok_def)
next
  case (Agent_Revoked input c c' ps)
  then show ?thesis using assms(2) revoke_ok [of c input c'] other_holds_kept(4) [of input c c']
    by (auto simp: system_ok_def pending_ok_def)
next
  case (Lock_Taken fresh c ps now input ch r c')
  then show ?thesis using assms(2) maintenance_lock_ok [of c fresh digest now input ch r c'] maintenance_holds(1) [of digest now fresh input ch c r c']
    by (auto simp: system_ok_def pending_ok_def fresh_id_def)
next
  case (Lock_Released now input ch c r c' ps)
  then show ?thesis using assms(2) maintenance_release_ok [of c digest now input ch r c'] maintenance_holds(2) [of digest now input ch c r c']
    by (auto simp: system_ok_def pending_ok_def)
next
  case (Agent_Drains fresh c ps now actor input r c')
  then have "set (cs_holds (ct_state c')) \<subseteq> set (cs_holds (ct_state c)) \<union> {h. h_id h \<notin> pr_hold ` set ps}"
    using agent_drain_holds [of digest now fresh actor input c r c'] by (fastforce simp: fresh_id_def)
  then show ?thesis using Agent_Drains assms(2) agent_drain_ok [of c fresh digest now actor input r c'] pending_kept [of ps c c']
    by (auto simp: system_ok_def fresh_id_def)
next
  case (Resume_Now hb actor input c p now r c' ps)
  then have "pending_ok c p" using resume_begin_pending(1) assms(2) by (fastforce simp: system_ok_def)
  then show ?thesis using Resume_Now assms(2) resume_commit_ok [of c p now] resume_commit_holds [of now p c]
    by (auto simp: system_ok_def pending_ok_def)
next
  case (Resume_Waits hb actor input c p ps)
  then have "pending_ok c p" using resume_begin_pending(1) assms(2) by (fastforce simp: system_ok_def)
  then show ?thesis using Resume_Waits assms(2) by (auto simp: system_ok_def)
next
  case (Resume_Ends p ps now c r c')
  then have "(r, c') = resume_commit now p c" by (simp add: resume_end_def split: if_splits)
  then have c': "c' = snd (resume_commit now p c)" by (metis snd_conv)
  have "pending_ok c p" using Resume_Ends assms(2) by (simp add: system_ok_def)
  then show ?thesis using Resume_Ends(1,2) assms(2) resume_commit_ok [of c p now] resume_commit_holds [of now p c] set_remove1_subset [of p ps]
    by (auto simp: system_ok_def pending_ok_def c')
next
  case (Resume_Fails p ps c)
  then show ?thesis using assms(2) set_remove1_subset [of p ps] by (auto simp: system_ok_def)
next
  case (Hold_Cleared input c c' ps)
  then show ?thesis using assms(2) clear_agent_hold_ok [of c input c'] other_holds_kept(5) [of input c c']
    by (auto simp: system_ok_def pending_ok_def)
qed

lemma control_reachable_ok: "control_reachable digest x \<Longrightarrow> system_ok x"
proof (induction rule: control_reachable.induct)
  case (Control_Start ns d)
  have o: "owned_pause \<lparr>ct_state = blank_control, ct_drained = d, ct_nodes = ns\<rparr> = (\<lambda>w. d w = Some True)"
    by (simp add: fun_eq_iff owned_pause_def manual_paused_def holds_of_def locks_of_def blank_control_def)
  show ?case
    using Control_Start by (simp add: system_ok_def control_ok_def o) (simp add: blank_control_def)
next
  case (Control_Step x y)
  then show ?case using control_step_ok by blast
qed

lemma find_receipt_grows: "find_receipt c i = Some r \<Longrightarrow> cs_receipts (ct_state c') = cs_receipts (ct_state c) @ ys \<Longrightarrow> find_receipt c' i = Some r"
proof -
  have "List.find P xs = Some r \<Longrightarrow> List.find P (xs @ ys) = Some r" for P and xs ys :: "maintenance_receipt list"
    by (induction xs) auto
  then show "find_receipt c i = Some r \<Longrightarrow> cs_receipts (ct_state c') = cs_receipts (ct_state c) @ ys \<Longrightarrow> find_receipt c' i = Some r"
    by (simp add: find_receipt_def)
qed

lemma record_action_receipts [simp]: "cs_receipts (ct_state (snd (record_action op s c))) = cs_receipts s"
  by (simp add: record_action_def Let_def)

lemma agent_receipts_untouched:
  "agent_drain digest now fresh actor input c = Inr (r, c1) \<Longrightarrow> cs_receipts (ct_state c1) = cs_receipts (ct_state c)"
  "resume_commit now p c = (r, c1) \<Longrightarrow> cs_receipts (ct_state c1) = cs_receipts (ct_state c)"
proof -
  assume "agent_drain digest now fresh actor input c = Inr (r, c1)"
  then show "cs_receipts (ct_state c1) = cs_receipts (ct_state c)"
  proof (cases rule: agent_drain_cases)
    case (drained hold)
    then have "c1 = snd (record_action r ((ct_state c)\<lparr>cs_manual := (cs_manual (ct_state c))(h_worker hold \<mapsto> manual_paused c (h_worker hold)),
         cs_holds := cs_holds (ct_state c) @ [hold]\<rparr>) c)" by (metis snd_conv)
    then show ?thesis by simp
  qed simp
next
  assume "resume_commit now p c = (r, c1)"
  then have "c1 = snd (resume_commit now p c)" by simp
  then show "cs_receipts (ct_state c1) = cs_receipts (ct_state c)" by (simp add: resume_commit_def Let_def)
qed

lemma maintenance_receipts_grow:
  "maintenance_lock digest now fresh input ch c = Inr (r, c1) \<Longrightarrow> \<exists>ys. cs_receipts (ct_state c1) = cs_receipts (ct_state c) @ ys"
  "maintenance_release digest now input ch c = Inr (r, c1) \<Longrightarrow> \<exists>ys. cs_receipts (ct_state c1) = cs_receipts (ct_state c) @ ys"
  by (erule maintenance_lock_cases; simp) (erule maintenance_release_cases; simp)

lemma other_receipts_kept:
  "manual_update ids b c = Inr c1 \<Longrightarrow> cs_receipts (ct_state c1) = cs_receipts (ct_state c)"
  "forget_worker w c = Inr s \<Longrightarrow> cs_receipts s = cs_receipts (ct_state c)"
  "grant now th input c = Inr c1 \<Longrightarrow> cs_receipts (ct_state c1) = cs_receipts (ct_state c)"
  "revoke input c = Inr c1 \<Longrightarrow> cs_receipts (ct_state c1) = cs_receipts (ct_state c)"
  "clear_agent_hold input c = Inr c1 \<Longrightarrow> cs_receipts (ct_state c1) = cs_receipts (ct_state c)"
  by (auto simp: manual_update_def forget_worker_def grant_def revoke_def clear_agent_hold_def Let_def
      split: if_splits option.splits)

lemma control_step_receipts:
  assumes "control_step digest x y"
  shows "\<exists>ys. cs_receipts (ct_state (fst y)) = cs_receipts (ct_state (fst x)) @ ys"
  using assms
proof (cases rule: control_step.cases)
  case (Resume_Ends p ps now c r c')
  then have "resume_commit now p c = (r, c')" by (simp add: resume_end_def split: if_splits)
  then show ?thesis using Resume_Ends agent_receipts_untouched(2) by fastforce
qed (auto dest: other_receipts_kept agent_receipts_untouched maintenance_receipts_grow simp: remove_node_def add_node_def)

lemma receipts_persist:
  "(control_step digest)\<^sup>*\<^sup>* x y \<Longrightarrow> find_receipt (fst x) i = Some r \<Longrightarrow> find_receipt (fst y) i = Some r"
proof (induction rule: rtranclp_induct)
  case (step y z)
  then show ?case using control_step_receipts [OF step(2)] find_receipt_grows by blast
qed simp

section \<open>What the operations promise\<close>

text \<open>C14: in every reachable state a worker's routing is paused exactly for a reason: every hold and
  every lock pauses its worker, so does an operator pause, and a worker with an operator entry is paused
  only for one of the three. Holds and locks always name registered workers, under identifiers of their own.\<close>

theorem a_pause_has_an_owner:
  assumes "control_reachable digest (c, ps)"
  shows "list_all (\<lambda>n. cn_drained n = (ct_drained c (cn_id n) = Some True)) (ct_nodes c) \<and>
    (holds_of (ct_state c) w \<noteq> [] \<or> locks_of (ct_state c) w \<noteq> [] \<longrightarrow> ct_drained c w = Some True \<and> known_node c w) \<and>
    (case cs_manual (ct_state c) w of None \<Rightarrow> True | Some b \<Rightarrow>
      (ct_drained c w = Some True) = (holds_of (ct_state c) w \<noteq> [] \<or> locks_of (ct_state c) w \<noteq> [] \<or> b)) \<and>
    distinct (map h_id (cs_holds (ct_state c))) \<and> distinct (map ml_id (cs_locks (ct_state c)))"
proof (intro conjI)
  have ok: "control_ok c" using control_reachable_ok [OF assms] by (simp add: system_ok_def)
  show "list_all (\<lambda>n. cn_drained n = (ct_drained c (cn_id n) = Some True)) (ct_nodes c)"
    using ok by (simp add: control_ok_def list_all_iff)
  show "holds_of (ct_state c) w \<noteq> [] \<or> locks_of (ct_state c) w \<noteq> [] \<longrightarrow> ct_drained c w = Some True \<and> known_node c w"
    using owned_pauseD [OF ok, of w] known_nodeI [OF ok, of w] by blast
  show "case cs_manual (ct_state c) w of None \<Rightarrow> True | Some b \<Rightarrow>
      (ct_drained c w = Some True) = (holds_of (ct_state c) w \<noteq> [] \<or> locks_of (ct_state c) w \<noteq> [] \<or> b)"
    using owned_pause_parts(2) [OF ok, of w] by (simp split: option.split)
  show "distinct (map h_id (cs_holds (ct_state c)))" "distinct (map ml_id (cs_locks (ct_state c)))"
    using control_okD(4,5) [OF ok] by simp_all
qed

text \<open>The concrete run of the witnesses: one agent, two workers.\<close>

definition trial_digest :: "js \<Rightarrow> string" where
  "trial_digest v = concat (map (\<lambda>kv. js_string (snd kv)) (case v of JObj kvs \<Rightarrow> kvs | _ \<Rightarrow> []))"

definition trial_nodes :: "control_node list" where
  "trial_nodes = map (\<lambda>i. \<lparr>cn_id = i, cn_drained = False, cn_healthy = True, cn_quarantine = False, cn_recovering = False,
     cn_removed = False\<rparr>) [''a'', ''b'']"

definition trial_control :: control where
  "trial_control = \<lparr>ct_state = blank_control, ct_drained = Map.empty, ct_nodes = trial_nodes\<rparr>"

definition trial_request :: "char \<Rightarrow> string" where
  "trial_request x = replicate 8 x @ ''-'' @ replicate 4 x @ ''-'' @ replicate 4 x @ ''-'' @ replicate 4 x @ ''-'' @ replicate 12 x"

definition right_or :: "'a \<Rightarrow> ('e + 'a) \<Rightarrow> 'a" where
  "right_or d r = (case r of Inr x \<Rightarrow> x | Inl _ \<Rightarrow> d)"

definition trial_granted :: control where
  "trial_granted = right_or trial_control (grant 0 ''hash''
     (JObj [(''agent_id'', JStr ''ann''), (''workers'', JArr [JStr ''a''])]) trial_control)"

definition trial_drain_input :: js where
  "trial_drain_input = JObj [(''worker_id'', JStr ''a''), (''reason'', JStr ''upgrade''), (''request_id'', JStr (trial_request CHR ''1''))]"

definition trial_held :: control where
  "trial_held = (case agent_drain trial_digest 5 ''hold'' ''ann'' trial_drain_input trial_granted of Inr (_, c) \<Rightarrow> c | _ \<Rightarrow> trial_control)"

definition trial_resume_input :: js where
  "trial_resume_input = JObj [(''hold_id'', JStr ''hold''), (''request_id'', JStr (trial_request CHR ''2''))]"

definition trial_pending :: pending_resume where
  "trial_pending = \<lparr>pr_actor = ''ann'', pr_request = trial_request CHR ''2'', pr_fingerprint = ''resumehold'', pr_hold = ''hold'',
     pr_worker = ''a'', pr_others = [], pr_manual = False, pr_locks = [], pr_handback = False\<rparr>"

definition trial_lock_input :: js where
  "trial_lock_input = JObj [(''name'', JStr ''disk''), (''reason'', JStr ''swap''), (''request_id'', JStr (trial_request CHR ''3'')),
     (''review_after_hours'', JNull), (''worker_id'', JStr ''a'')]"

lemma trial_grants: "grant 0 ''hash'' (JObj [(''agent_id'', JStr ''ann''), (''workers'', JArr [JStr ''a''])]) trial_control = Inr trial_granted"
proof -
  have "(case grant 0 ''hash'' (JObj [(''agent_id'', JStr ''ann''), (''workers'', JArr [JStr ''a''])]) trial_control of
      Inr _ \<Rightarrow> True | _ \<Rightarrow> False)" by code_simp
  then show ?thesis by (simp add: trial_granted_def right_or_def split: sum.splits)
qed

lemma trial_drains: "\<exists>r. agent_drain trial_digest 5 ''hold'' ''ann'' trial_drain_input trial_granted = Inr (r, trial_held)"
proof -
  have "(case agent_drain trial_digest 5 ''hold'' ''ann'' trial_drain_input trial_granted of Inr _ \<Rightarrow> True | _ \<Rightarrow> False)" by code_simp
  then show ?thesis by (auto simp: trial_held_def split: sum.splits)
qed

lemma trial_awaits: "resume_begin trial_digest False ''ann'' trial_resume_input trial_held = ResumeAwaits trial_pending"
  by code_simp

lemma trial_held_reachable: "control_reachable trial_digest (trial_held, [])"
proof -
  have 1: "control_reachable trial_digest (trial_control, [])"
    unfolding trial_control_def by (rule Control_Start) (simp add: trial_nodes_def)
  have 2: "control_reachable trial_digest (trial_granted, [])"
    by (rule Control_Step [OF 1 Agent_Granted [OF trial_grants]])
  obtain r where r: "agent_drain trial_digest 5 ''hold'' ''ann'' trial_drain_input trial_granted = Inr (r, trial_held)"
    using trial_drains by blast
  have fresh: "fresh_id ''hold'' (trial_granted, [])"
    unfolding fresh_id_def used_ids_def fst_conv snd_conv by code_simp
  show ?thesis by (rule Control_Step [OF 2 Agent_Drains [OF fresh r]])
qed

lemma trial_waiting_reachable: "control_reachable trial_digest (trial_held, [trial_pending, trial_pending])"
  by (rule Control_Step [OF Control_Step [OF trial_held_reachable Resume_Waits [OF trial_awaits]] Resume_Waits [OF trial_awaits]])

theorem a_pause_has_an_owner_witness:
  "ct_drained trial_held ''a'' = Some True \<and> known_node trial_held ''a''"
proof -
  have "holds_of (ct_state trial_held) ''a'' \<noteq> [] \<or> locks_of (ct_state trial_held) ''a'' \<noteq> []" by code_simp
  then show ?thesis using a_pause_has_an_owner [OF trial_held_reachable, of "''a''"] by blast
qed

text \<open>A worker with a hold or a lock has an operator entry, so the pauses a resume reads are those that
  its commit leaves.\<close>

definition marked :: "control \<Rightarrow> bool" where
  "marked c \<longleftrightarrow> (\<forall>w. holds_of (ct_state c) w \<noteq> [] \<or> locks_of (ct_state c) w \<noteq> [] \<longrightarrow> cs_manual (ct_state c) w \<noteq> None)"

lemma markedI:
  assumes "marked c"
    and "\<And>w. cs_manual (ct_state c) w \<noteq> None \<Longrightarrow> cs_manual (ct_state c') w = None \<Longrightarrow>
      holds_of (ct_state c') w = [] \<and> locks_of (ct_state c') w = []"
    and "\<And>h. h \<in> set (cs_holds (ct_state c')) \<Longrightarrow> h \<in> set (cs_holds (ct_state c)) \<or> cs_manual (ct_state c') (h_worker h) \<noteq> None"
    and "\<And>l. l \<in> set (cs_locks (ct_state c')) \<Longrightarrow> l \<in> set (cs_locks (ct_state c)) \<or> cs_manual (ct_state c') (ml_worker l) \<noteq> None"
  shows "marked c'"
  unfolding marked_def
proof (intro allI impI notI)
  fix w
  assume has: "holds_of (ct_state c') w \<noteq> [] \<or> locks_of (ct_state c') w \<noteq> []" and none: "cs_manual (ct_state c') w = None"
  then have "holds_of (ct_state c) w \<noteq> [] \<or> locks_of (ct_state c) w \<noteq> []"
    using assms(3,4) by (fastforce simp: holds_of_def locks_of_def filter_empty_conv)
  then show False using assms(1,2) has none unfolding marked_def by blast
qed

lemma control_step_marked:
  assumes "control_step digest x y" and "marked (fst x)"
  shows "marked (fst y)"
  using assms
proof (cases rule: control_step.cases)
  case (Lock_Taken fresh c ps now input ch r c')
  show ?thesis
    by (rule maintenance_lock_cases [OF Lock_Taken(4)]; rule markedI [OF assms(2)])
      (auto simp: Lock_Taken(1,2) split: if_splits)
next
  case (Lock_Released now input ch c r c' ps)
  show ?thesis
    by (rule maintenance_release_cases [OF Lock_Released(3)]; rule markedI [OF assms(2)])
      (auto simp: Lock_Released(1,2) split: if_splits)
next
  case (Agent_Drains fresh c ps now actor input r c')
  show ?thesis
    using Agent_Drains(4)
  proof (cases rule: agent_drain_cases)
    case (drained hold)
    then have c': "c' = snd (record_action r ((ct_state c)\<lparr>cs_manual := (cs_manual (ct_state c))(h_worker hold \<mapsto> manual_paused c (h_worker hold)),
         cs_holds := cs_holds (ct_state c) @ [hold]\<rparr>) c)" by (metis snd_conv)
    show ?thesis
      by (rule markedI [OF assms(2)])
        (auto simp: Agent_Drains(1,2) c' record_action_def Let_def split: if_splits)
  qed (use Agent_Drains assms(2) in simp)
next
  case (Resume_Now hb actor input c p now r c' ps)
  then have c': "c' = snd (resume_commit now p c)" by simp
  show ?thesis
    by (rule markedI [OF assms(2)]) (auto simp: Resume_Now(1,2) c' resume_commit_def record_action_def Let_def)
next
  case (Resume_Ends p ps now c r c')
  then have c': "c' = snd (resume_commit now p c)" by (auto simp: resume_end_def split: if_splits)
  show ?thesis
    by (rule markedI [OF assms(2)]) (auto simp: Resume_Ends(1,2) c' resume_commit_def record_action_def Let_def)
next
  case (Node_Removed c w s ps)
  then have "holds_of (ct_state c) w = []" "locks_of (ct_state c) w = []"
    "cs_manual s = (cs_manual (ct_state c))(w := None)" "cs_holds s = cs_holds (ct_state c)" "cs_locks s = cs_locks (ct_state c)"
    by (auto simp: forget_worker_def split: if_splits)
  then show ?thesis
    using assms(2) by (auto simp: Node_Removed(1,2) marked_def remove_node_def holds_of_def locks_of_def)
qed ((rule markedI [OF assms(2)]; auto simp: manual_update_def add_node_def grant_def revoke_def
    clear_agent_hold_def Let_def split: if_splits option.splits)+)

lemma control_reachable_marked: "control_reachable digest x \<Longrightarrow> marked (fst x)"
proof (induction rule: control_reachable.induct)
  case (Control_Start ns d)
  show ?case by (simp add: marked_def holds_of_def locks_of_def blank_control_def)
qed (rule control_step_marked)

text \<open>The two ways a resume is committed: in one go, when something else keeps the worker paused, or
  after the awaited probe, when it found nothing else.\<close>

datatype resume_path = At_Once bool js | After_Probe

definition resumes ::
    "(js \<Rightarrow> string) \<Rightarrow> resume_path \<Rightarrow> string \<Rightarrow> pending_resume \<Rightarrow> int \<Rightarrow> control_system \<Rightarrow> agent_receipt \<Rightarrow> control \<Rightarrow> bool" where
  "resumes digest path actor p now x r c' \<longleftrightarrow> (case path of
      At_Once hb input \<Rightarrow> resume_begin digest hb actor input (fst x) = ResumeReady p \<and> resume_commit now p (fst x) = (r, c')
    | After_Probe \<Rightarrow> p \<in> set (snd x) \<and> pr_actor p = actor \<and> resume_end now p (fst x) = Inr (r, c'))"

lemma resume_now_blocked:
  assumes "resume_begin digest hb actor input c = ResumeReady p"
  shows "\<not> pr_clear p" and "JStr (pr_hold p) = jget input ''hold_id''" and "find_operation c (pr_request p) = None"
    and "pr_others p = map h_id (filter (\<lambda>h. h_id h \<noteq> pr_hold p) (holds_of (ct_state c) (pr_worker p)))"
    and "pr_manual p = manual_paused c (pr_worker p)" and "pr_locks p = map ml_id (locks_of (ct_state c) (pr_worker p))"
  using assms
  by (auto simp: resume_begin_def act_checks_def Let_def split: if_splits option.splits dest!: find_SomeD)

text \<open>C15: an agent's resume lifts its own hold and nothing else, whether it is committed at once or after
  the probe. The state changes by the removal of that hold and one new receipt: the hold it names is the
  agent's, every other hold, every lock and every operator entry stays, and no other worker is touched. The
  worker is paused afterwards exactly when an operator pause, another hold or a lock is left on it. A resume
  that is committed at once releases an existing hold of that agent, on a worker it was granted, and always
  leaves the worker paused, which its receipt says.\<close>

theorem agents_lift_only_their_own:
  assumes "control_reachable digest (c, ps)" and "resumes digest path actor p now (c, ps) r c'"
  shows "\<exists>op. ct_state c' = (ct_state c)\<lparr>cs_holds := filter (\<lambda>h. h_id h \<noteq> pr_hold p) (cs_holds (ct_state c)),
        cs_operations := cs_operations (ct_state c) @ [op]\<rparr> \<and>
      op_actor op = actor \<and> op_action op = ResumeAction \<and> rs_hold (op_result op) = pr_hold p \<and>
      enabled_agent c actor \<noteq> None \<and>
      list_all (\<lambda>h. h_id h = pr_hold p \<longrightarrow> h_owner h = actor \<and> h_worker h = pr_worker p) (cs_holds (ct_state c)) \<and>
      ct_drained c' = (ct_drained c)(pr_worker p \<mapsto> cs_manual (ct_state c) (pr_worker p) = Some True \<or>
        holds_of (ct_state c') (pr_worker p) \<noteq> [] \<or> locks_of (ct_state c) (pr_worker p) \<noteq> []) \<and>
      (case path of After_Probe \<Rightarrow> True
       | At_Once hb input \<Rightarrow> JStr (pr_hold p) = jget input ''hold_id'' \<and>
           list_ex (\<lambda>h. h_id h = pr_hold p \<and> h_owner h = actor \<and> h_worker h = pr_worker p) (cs_holds (ct_state c)) \<and>
           pr_worker p \<in> set (ag_workers (the (enabled_agent c actor))) \<and>
           ct_drained c' (pr_worker p) = Some True \<and> r = op \<and> \<not> rs_resumed (op_result op))"
proof -
  let ?s = "(ct_state c)\<lparr>cs_holds := filter (\<lambda>h. h_id h \<noteq> pr_hold p) (cs_holds (ct_state c))\<rparr>"
  have ok: "control_ok c" and m: "marked c"
    using control_reachable_ok [OF assms(1)] control_reachable_marked [OF assms(1)] by (simp_all add: system_ok_def)
  have commit: "resume_commit now p c = (r, c')" and e: "enabled_agent c actor \<noteq> None" "pr_actor p = actor" "pending_ok c p"
  proof (atomize (full), cases path)
    case (At_Once hb input)
    then have "resume_begin digest hb actor input c = ResumeReady p" "resume_commit now p c = (r, c')"
      using assms(2) by (simp_all add: resumes_def)
    then show "resume_commit now p c = (r, c') \<and> enabled_agent c actor \<noteq> None \<and> pr_actor p = actor \<and> pending_ok c p"
      using resume_begin_pending(1,3,4) [OF ok disjI1] by blast
  next
    case After_Probe
    then show "resume_commit now p c = (r, c') \<and> enabled_agent c actor \<noteq> None \<and> pr_actor p = actor \<and> pending_ok c p"
      using assms(2) control_reachable_ok [OF assms(1)] by (auto simp: resumes_def resume_end_def system_ok_def split: if_splits)
  qed
  then obtain op where op: "record_action op ?s c = (r, c')" "op_actor op = actor" "op_action op = ResumeAction"
      "rs_hold (op_result op) = pr_hold p" "rs_worker (op_result op) = pr_worker p" "op_request op = pr_request p"
      "rs_resumed (op_result op) = (pr_clear p \<and> \<not> pr_handback p)"
    by (simp add: resume_commit_def Let_def)
  note ra = op(1) [unfolded record_action_def Let_def op(5), simplified]
  have paused: "ct_drained c' (pr_worker p) = Some True \<and> r = op \<and> \<not> rs_resumed (op_result op)"
    if ready: "resume_begin digest hb actor input c = ResumeReady p" for hb input
  proof -
    note b = resume_now_blocked [OF ready]
    obtain h where "h \<in> set (holds_of (ct_state c) (pr_worker p))"
      using resume_begin_pending(6) [OF ok disjI1 [OF ready]] by (auto simp: holds_of_def)
    then have "cs_manual (ct_state c) (pr_worker p) \<noteq> None" using m unfolding marked_def by (metis empty_iff list.set(1))
    then have "pr_manual p = (cs_manual (ct_state c) (pr_worker p) = Some True)"
      by (auto simp: b(5) manual_paused_def)
    moreover have "filter (\<lambda>h. h_id h \<noteq> pr_hold p) (holds_of (ct_state c) (pr_worker p)) = holds_of ?s (pr_worker p)"
      by (auto simp: holds_of_def conj_commute intro: filter_cong)
    ultimately have "paused_in (?s\<lparr>cs_operations := cs_operations (ct_state c) @ [op]\<rparr>) (pr_worker p)"
      using b(1,4,6) by (auto simp: paused_in_def pr_clear_def holds_of_def locks_of_def)
    moreover have "saved_receipt op (?s\<lparr>cs_operations := cs_operations (ct_state c) @ [op]\<rparr>) = op"
      using b(3) op(6) unfolding saved_receipt_def find_operation_def
      by (auto simp: find_None_iff find_append_None split: option.split dest!: find_SomeD)
    ultimately show ?thesis using ra b(1) op(7) by auto
  qed
  have rest: "case path of After_Probe \<Rightarrow> True
       | At_Once hb input \<Rightarrow> JStr (pr_hold p) = jget input ''hold_id'' \<and>
           list_ex (\<lambda>h. h_id h = pr_hold p \<and> h_owner h = actor \<and> h_worker h = pr_worker p) (cs_holds (ct_state c)) \<and>
           pr_worker p \<in> set (ag_workers (the (enabled_agent c actor))) \<and>
           ct_drained c' (pr_worker p) = Some True \<and> r = op \<and> \<not> rs_resumed (op_result op)"
  proof (cases path)
    case (At_Once hb input)
    then have b: "resume_begin digest hb actor input c = ResumeReady p" using assms(2) by (simp add: resumes_def)
    show ?thesis
      unfolding At_Once resume_path.case list_ex_iff
      using paused [OF b] resume_begin_pending(5,6) [OF ok disjI1 [OF b]] resume_now_blocked(2) [OF b] by blast
  qed simp
  have c': "c' = commit (?s\<lparr>cs_operations := cs_operations (ct_state c) @ [op]\<rparr>)
      ((ct_drained c)(pr_worker p \<mapsto> paused_in (?s\<lparr>cs_operations := cs_operations (ct_state c) @ [op]\<rparr>) (pr_worker p))) c"
    using ra by simp
  show ?thesis
    by (intro exI [of _ op] conjI rest op(2-4) e(1))
      (use e(2,3) in \<open>auto simp: c' paused_in_def holds_of_def locks_of_def pending_ok_def list_all_iff\<close>)
qed

text \<open>The example: two agents hold the worker, a lock is on it and the operator paused it; one agent resumes.\<close>

definition trial_next :: "control_error + 'a \<times> control \<Rightarrow> control" where
  "trial_next r = (case r of Inr (_, c) \<Rightarrow> c | Inl _ \<Rightarrow> trial_control)"

definition trial_ben :: control where
  "trial_ben = right_or trial_control (grant 1 ''hush''
     (JObj [(''agent_id'', JStr ''ben''), (''workers'', JArr [JStr ''a'', JStr ''b''])]) trial_held)"

definition trial_ben_input :: js where
  "trial_ben_input = JObj [(''worker_id'', JStr ''a''), (''reason'', JStr ''disk''), (''request_id'', JStr (trial_request CHR ''4''))]"

definition trial_two_holds :: control where
  "trial_two_holds = trial_next (agent_drain trial_digest 6 ''other'' ''ben'' trial_ben_input trial_ben)"

definition trial_crowded :: control where
  "trial_crowded = trial_next (maintenance_lock trial_digest 7 ''lock'' trial_lock_input JNull trial_two_holds)"

definition trial_paused :: control where
  "trial_paused = right_or trial_control (manual_update [''a''] True trial_crowded)"

definition trial_blocked :: pending_resume where
  "trial_blocked = trial_pending\<lparr>pr_others := [''other''], pr_manual := True, pr_locks := [''lock'']\<rparr>"

lemma trial_paused_reachable: "control_reachable trial_digest (trial_paused, [])"
proof -
  have "case_sum (\<lambda>_. False) (\<lambda>_. True) (grant 1 ''hush''
     (JObj [(''agent_id'', JStr ''ben''), (''workers'', JArr [JStr ''a'', JStr ''b''])]) trial_held)" by code_simp
  then have "grant 1 ''hush'' (JObj [(''agent_id'', JStr ''ben''), (''workers'', JArr [JStr ''a'', JStr ''b''])]) trial_held = Inr trial_ben"
    by (simp add: trial_ben_def right_or_def split: sum.splits)
  note 1 = Control_Step [OF trial_held_reachable Agent_Granted [OF this]]
  have "case_sum (\<lambda>_. False) (\<lambda>_. True) (agent_drain trial_digest 6 ''other'' ''ben'' trial_ben_input trial_ben)" by code_simp
  then obtain r where r: "agent_drain trial_digest 6 ''other'' ''ben'' trial_ben_input trial_ben = Inr (r, trial_two_holds)"
    by (auto simp: trial_two_holds_def trial_next_def split: sum.splits)
  have "fresh_id ''other'' (trial_ben, [])" unfolding fresh_id_def used_ids_def fst_conv snd_conv by code_simp
  note 2 = Control_Step [OF 1 Agent_Drains [OF this r]]
  have "case_sum (\<lambda>_. False) (\<lambda>_. True) (maintenance_lock trial_digest 7 ''lock'' trial_lock_input JNull trial_two_holds)" by code_simp
  then obtain q where q: "maintenance_lock trial_digest 7 ''lock'' trial_lock_input JNull trial_two_holds = Inr (q, trial_crowded)"
    by (auto simp: trial_crowded_def trial_next_def split: sum.splits)
  have "fresh_id ''lock'' (trial_two_holds, [])" unfolding fresh_id_def used_ids_def fst_conv snd_conv by code_simp
  note 3 = Control_Step [OF 2 Lock_Taken [OF this q]]
  have "case_sum (\<lambda>_. False) (\<lambda>_. True) (manual_update [''a''] True trial_crowded)" by code_simp
  then have u: "manual_update [''a''] True trial_crowded = Inr trial_paused"
    by (simp add: trial_paused_def right_or_def split: sum.splits)
  have "known_node trial_crowded ''a''" by code_simp
  then have "\<forall>i \<in> set [''a'']. known_node trial_crowded i" by simp
  then show ?thesis by (rule Control_Step [OF 3 Operator_Pause [OF _ u]])
qed

definition trial_shape :: "control \<Rightarrow> bool" where
  "trial_shape c \<longleftrightarrow> (let s = ct_state c in
     map (\<lambda>h. (h_id h, h_worker h, h_owner h)) (cs_holds s) = [(''hold'', ''a'', ''ann''), (''other'', ''a'', ''ben'')] \<and>
     map (\<lambda>l. (ml_id l, ml_worker l)) (cs_locks s) = [(''lock'', ''a'')] \<and> cs_manual s ''a'' = Some True \<and>
     map (\<lambda>r. hd (op_request r)) (cs_operations s) = ''14'' \<and>
     (case enabled_agent c ''ann'' of None \<Rightarrow> False | Some g \<Rightarrow> ag_workers g = [''a'']) \<and>
     (case find_node c ''a'' of None \<Rightarrow> False | Some n \<Rightarrow> True))"

lemma trial_paused_shape: "trial_shape trial_paused"
  by code_simp

lemma trial_input_facts:
  "exact_fields trial_resume_input [''hold_id'', ''request_id'']" "lower_uuid (jget trial_resume_input ''request_id'')"
  "js_string (jget trial_resume_input ''request_id'') = trial_request CHR ''2''" "jget trial_resume_input ''hold_id'' = JStr ''hold''"
  "trial_digest (resume_print trial_resume_input) = ''resumehold''"
  "hd (trial_request CHR ''2'') = CHR ''2''"
  by code_simp+

lemma trial_is_blocked: "resume_begin trial_digest False ''ann'' trial_resume_input trial_paused = ResumeReady trial_blocked"
proof -
  note shape = trial_paused_shape [unfolded trial_shape_def Let_def]
  obtain l where l: "cs_locks (ct_state trial_paused) = [l]" "ml_id l = ''lock''" "ml_worker l = ''a''"
    using shape by (auto simp: map_eq_Cons_conv)
  obtain h k where h: "cs_holds (ct_state trial_paused) = [h, k]" "h_id h = ''hold''" "h_worker h = ''a''" "h_owner h = ''ann''"
      "h_id k = ''other''" "h_worker k = ''a''"
    using shape by (auto simp: map_eq_Cons_conv)
  obtain r q where ops: "cs_operations (ct_state trial_paused) = [r, q]" "hd (op_request r) = CHR ''1''" "hd (op_request q) = CHR ''4''"
    using shape by (auto simp: map_eq_Cons_conv)
  then have o: "op_request r \<noteq> trial_request CHR ''2''" "op_request q \<noteq> trial_request CHR ''2''"
    using trial_input_facts(6) by auto
  obtain g where g: "enabled_agent trial_paused ''ann'' = Some g" "ag_workers g = [''a'']" using shape by (auto split: option.splits)
  obtain n where n: "find_node trial_paused ''a'' = Some n" using shape by (auto split: option.splits)
  show ?thesis
    using shape by (simp add: resume_begin_def act_checks_def find_operation_def holds_of_def locks_of_def manual_paused_def pr_clear_def
        l ops(1) o g n h trial_input_facts trial_blocked_def trial_pending_def)
qed

theorem agents_lift_only_their_own_witness:
  "(let c' = snd (resume_commit 9 trial_blocked trial_paused)
    in map h_id (cs_holds (ct_state trial_paused)) = [''hold'', ''other''] \<and> map h_id (cs_holds (ct_state c')) = [''other''] \<and>
       cs_locks (ct_state c') = cs_locks (ct_state trial_paused) \<and> cs_locks (ct_state c') \<noteq> [] \<and>
       cs_manual (ct_state c') ''a'' = Some True \<and> ct_drained c' ''a'' = Some True)"
proof -
  obtain r c' where c': "resume_commit 9 trial_blocked trial_paused = (r, c')" by fastforce
  have "resumes trial_digest (At_Once False trial_resume_input) ''ann'' trial_blocked 9 (trial_paused, []) r c'"
    using trial_is_blocked c' by (simp add: resumes_def)
  note this [THEN agents_lift_only_their_own [OF trial_paused_reachable], unfolded resume_path.case]
  then obtain op where t: "ct_state c' = (ct_state trial_paused)\<lparr>cs_holds := filter (\<lambda>h. h_id h \<noteq> pr_hold trial_blocked) (cs_holds (ct_state trial_paused)),
        cs_operations := cs_operations (ct_state trial_paused) @ [op]\<rparr>" "ct_drained c' (pr_worker trial_blocked) = Some True"
    by blast
  then show ?thesis
    using c' trial_paused_shape [unfolded trial_shape_def Let_def]
    by (auto simp: trial_blocked_def trial_pending_def map_eq_Cons_conv)
qed

text \<open>A maintenance request is carried out once. Whatever happens after a lock was granted, the same
  request answers the same receipt and changes nothing, and a request that differs in anything but the
  order of its fields and the blanks around its texts is refused as a conflict.\<close>

theorem lock_requests_are_idempotent:
  assumes "maintenance_lock digest now fresh input ch (fst x) = Inr (r, fst y)"
    and "(control_step digest)\<^sup>*\<^sup>* y z"
    and "jget input' ''request_id'' = jget input ''request_id''"
    and "lock_input_error input' (has_own input' ''minimum_other_llms'') (fst z) = None"
  shows "maintenance_lock digest now' fresh' input' ch' (fst z) =
    (if digest (lock_print input' (has_own input' ''minimum_other_llms'')) = digest (lock_print input (has_own input ''minimum_other_llms''))
     then Inr (r, fst z) else Inl RequestIdConflict)"
proof -
  have "find_receipt (fst y) (js_string (jget input ''request_id'')) = Some r \<and>
    mo_fingerprint r = digest (lock_print input (has_own input ''minimum_other_llms''))"
    using assms(1)
  proof (cases rule: maintenance_lock_cases)
    case (taken lock)
    have "find_receipt (fst y) (js_string (jget input ''request_id'')) = List.find (\<lambda>q. mo_request q = mo_request r) [r]"
      using taken(1,4) unfolding taken(6) by (simp add: find_receipt_def find_append_None)
    then show ?thesis using taken(5) by simp
  qed simp_all
  note r = conjunct1 [OF this] conjunct2 [OF this]
  have "find_receipt (fst z) (js_string (jget input' ''request_id'')) = Some r"
    unfolding assms(3) by (rule receipts_persist [OF assms(2) r(1)])
  then show ?thesis using assms(4) r(2) by (simp add: maintenance_lock_def Let_def)
qed

definition trial_locked :: control where
  "trial_locked = (case maintenance_lock trial_digest 7 ''lock'' trial_lock_input JNull trial_control of Inr (_, c) \<Rightarrow> c | _ \<Rightarrow> trial_control)"

definition trial_lock_receipt :: maintenance_receipt where
  "trial_lock_receipt = \<lparr>mo_request = trial_request CHR ''3'', mo_channel = ''unidentified_local_client'', mo_action = TakeLock,
     mo_fingerprint = ''lockadiskswap'', mo_time = 7, mo_lock = ''lock'', mo_worker = ''a'', mo_release_reason = None\<rparr>"

lemma trial_locks: "maintenance_lock trial_digest 7 ''lock'' trial_lock_input JNull trial_control = Inr (trial_lock_receipt, trial_locked)"
proof -
  have "(case maintenance_lock trial_digest 7 ''lock'' trial_lock_input JNull trial_control of
      Inr (r, _) \<Rightarrow> r = trial_lock_receipt | _ \<Rightarrow> False)" by code_simp
  then show ?thesis by (auto simp: trial_locked_def split: sum.splits)
qed

theorem lock_requests_are_idempotent_witness:
  "maintenance_lock trial_digest 9 ''other'' trial_lock_input (JStr ''web'') trial_locked = Inr (trial_lock_receipt, trial_locked)"
proof -
  have first: "maintenance_lock trial_digest 7 ''lock'' trial_lock_input JNull (fst (trial_control, [])) = Inr (trial_lock_receipt, fst (trial_locked, []))"
    using trial_locks by simp
  have accepted: "lock_input_error trial_lock_input (has_own trial_lock_input ''minimum_other_llms'') (fst (trial_locked, [])) = None"
    unfolding fst_conv by code_simp
  show ?thesis
    using lock_requests_are_idempotent [OF first rtranclp.rtrancl_refl refl accepted, of 9 "''other''" "JStr ''web''"] by simp
qed

text \<open>What the code does not keep: a resume awaits a probe between its checks and its commit, so the same
  request, sent again while the first one waits, is carried out twice. Both receipts bear one request
  identifier, which the constructor of the next start refuses (\<open>Invalid agent receipts\<close>).\<close>

lemma overlapping_resumes_write_two_receipts:
  "\<exists>c. control_reachable trial_digest (c, []) \<and>
     \<not> distinct (map op_request (cs_operations (ct_state c)))"
proof -
  let ?c1 = "snd (resume_commit 9 trial_pending trial_held)" and ?c2 = "snd (resume_commit 10 trial_pending (snd (resume_commit 9 trial_pending trial_held)))"
  have "enabled_agent trial_held (pr_actor trial_pending) \<noteq> None" by code_simp
  then have e1: "resume_end 9 trial_pending trial_held = Inr (fst (resume_commit 9 trial_pending trial_held), ?c1)"
    by (simp add: resume_end_def)
  have "enabled_agent ?c1 (pr_actor trial_pending) \<noteq> None" by code_simp
  then have e2: "resume_end 10 trial_pending ?c1 = Inr (fst (resume_commit 10 trial_pending ?c1), ?c2)"
    by (simp add: resume_end_def)
  have 1: "control_reachable trial_digest (?c1, [trial_pending])"
    using Control_Step [OF trial_waiting_reachable Resume_Ends [OF _ e1]] by simp
  have 2: "control_reachable trial_digest (?c2, [])"
    using Control_Step [OF 1 Resume_Ends [OF _ e2]] by simp
  have "\<not> distinct (map op_request (cs_operations (ct_state ?c2)))" by code_simp
  then show ?thesis using 2 by blast
qed

text \<open>For the same reason a receipt can say that routing was resumed while the worker stays paused: the
  pauses it reports were read before the probe.\<close>

lemma stale_resume_receipt:
  "\<exists>c ps r c'. control_reachable trial_digest (c, ps) \<and> trial_pending \<in> set ps \<and> resume_end 9 trial_pending c = Inr (r, c') \<and>
     rs_resumed (op_result r) \<and> ct_drained c' (rs_worker (op_result r)) = Some True"
proof -
  have "(case maintenance_lock trial_digest 7 ''lock'' trial_lock_input JNull trial_held of Inr _ \<Rightarrow> True | _ \<Rightarrow> False)" by code_simp
  then obtain q c where lock: "maintenance_lock trial_digest 7 ''lock'' trial_lock_input JNull trial_held = Inr (q, c)"
    by (auto split: sum.splits)
  have fresh: "fresh_id ''lock'' (trial_held, [trial_pending, trial_pending])"
    unfolding fresh_id_def used_ids_def fst_conv snd_conv by code_simp
  have c: "control_reachable trial_digest (c, [trial_pending, trial_pending])"
    by (rule Control_Step [OF trial_waiting_reachable Lock_Taken [OF fresh lock]])
  have "(case maintenance_lock trial_digest 7 ''lock'' trial_lock_input JNull trial_held of
      Inr (_, c) \<Rightarrow> (case resume_end 9 trial_pending c of
        Inr (r, c') \<Rightarrow> rs_resumed (op_result r) \<and> ct_drained c' (rs_worker (op_result r)) = Some True | _ \<Rightarrow> False) | _ \<Rightarrow> False)"
    by code_simp
  then obtain r c' where "resume_end 9 trial_pending c = Inr (r, c')" "rs_resumed (op_result r)"
    "ct_drained c' (rs_worker (op_result r)) = Some True"
    unfolding lock by (auto split: sum.splits)
  then show ?thesis using c by fastforce
qed

end
