(* ===== verification/Fleet_Admission.thy ===== *)
theory Fleet_Admission
  imports Stream_Lines
begin

text \<open>
  \<open>ds4-gateway/genie-admission.mjs\<close>: an endpoint is inspected, the admission it would need is drafted, and
  the owner's assistant carries it out in stages, each asked for separately under the fingerprint of
  the inspection. \<open>URL\<close> parsing, the answers of the endpoint, of the gateway, of the control socket and
  of the door, the SHA-256 of a printed value and the clock are inputs. A stage begins, acts and ends
  in separate steps, because the code awaits between them; an inspection takes effect in one.
\<close>

section \<open>Endpoints and models\<close>

datatype stage = RemoveDead | AddWorker | WriteRoute | Restart | VerifyStage

definition stage_order :: "stage list" where
  "stage_order = [RemoveDead, AddWorker, WriteRoute, Restart, VerifyStage]"

record url_parts =
  u_protocol :: string
  u_origin :: string
  u_host :: string
  u_port :: string
  u_path :: string
  u_other :: bool  \<comment> \<open>a user name, a password, a query or a fragment\<close>

record local_endpoint =
  ep_base :: string
  ep_url :: string
  ep_port :: nat

fun digits_value :: "nat \<Rightarrow> string \<Rightarrow> nat" where
  "digits_value n [] = n"
| "digits_value n (c # cs) = digits_value (10 * n + (of_char c - 48)) cs"

definition loopback_hosts :: "string list" where
  "loopback_hosts = [''127.0.0.1'', ''localhost'']"

definition drop_last_slash :: "string \<Rightarrow> string" where
  "drop_last_slash p = (if p \<noteq> [] \<and> last p = CHR ''/'' then butlast p else p)"

definition ends_with :: "string \<Rightarrow> string \<Rightarrow> bool" where
  "ends_with suffix s \<longleftrightarrow> length suffix \<le> length s \<and> drop (length s - length suffix) s = suffix"

definition local_endpoint_url :: "url_parts option \<Rightarrow> local_endpoint option" where
  "local_endpoint_url raw =
     (case raw of None \<Rightarrow> None
      | Some u \<Rightarrow>
          if u_protocol u \<noteq> ''http:'' \<or> u_host u \<notin> set loopback_hosts \<or> u_port u = [] \<or> u_other u then None
          else let path = drop_last_slash (u_path u) in
            Some \<lparr>ep_base = ''http://127.0.0.1:'' @ u_port u,
              ep_url = u_origin u @ (if ends_with ''/v1'' path then path else path @ ''/v1''),
              ep_port = digits_value 0 (u_port u)\<rparr>)"

definition slug_char :: "char \<Rightarrow> bool" where
  "slug_char c \<longleftrightarrow> c \<in> set ''abcdefghijklmnopqrstuvwxyz0123456789''"

text \<open>\<open>replace(/[^a-z0-9]+/g, '-')\<close>: every run of other characters becomes one hyphen.\<close>

fun hyphenate :: "bool \<Rightarrow> string \<Rightarrow> string" where
  "hyphenate run [] = []"
| "hyphenate run (c # cs) =
     (if slug_char c then c # hyphenate False cs
      else if run then hyphenate True cs else CHR ''-'' # hyphenate True cs)"

definition strip_hyphens :: "string \<Rightarrow> string" where
  "strip_hyphens s = rev (dropWhile (\<lambda>c. c = CHR ''-'') (rev (dropWhile (\<lambda>c. c = CHR ''-'') s)))"

definition slug :: "string \<Rightarrow> string" where
  "slug name = (let s = take 64 (strip_hyphens (hyphenate False (map lower_char name)))
     in if s = [] then ''admitted-worker'' else s)"

definition context_keys :: "string list" where
  "context_keys = [''context_length'', ''max_context_length'', ''context_size'', ''max_model_len'']"

definition positive_int :: "js \<Rightarrow> int option" where
  "positive_int v = (case safe_int v of Some n \<Rightarrow> if n > 0 then Some n else None | None \<Rightarrow> None)"

definition context_from_model :: "js \<Rightarrow> int option" where
  "context_from_model m =
     (case List.find (\<lambda>k. positive_int (jget m k) \<noteq> None) context_keys of
        None \<Rightarrow> None | Some k \<Rightarrow> positive_int (jget m k))"

type_synonym served_model = "string \<times> int option"

text \<open>The model list of an endpoint's answer; \<open>str\<close> is \<open>String\<close>.\<close>

definition model_list :: "js \<Rightarrow> js list option" where
  "model_list body = (case jget body ''data'' of JArr ms \<Rightarrow> Some ms | _ \<Rightarrow> (case body of JArr ms \<Rightarrow> Some ms | _ \<Rightarrow> None))"

definition probe_models :: "(js \<Rightarrow> string) \<Rightarrow> js \<Rightarrow> served_model list option" where
  "probe_models str body = map_option
     (map (\<lambda>m. (js_text str (or_else (jget m ''id'') (JStr [])), context_from_model m))) (model_list body)"

section \<open>The gateway's workers and the proposal\<close>

record seen_worker =
  sw_id :: string
  sw_url :: "url_parts option"
  sw_healthy :: bool
  sw_drained :: bool
  sw_quarantined :: bool
  sw_model :: "string option"

record gateway_view =
  gv_version_1 :: bool
  gv_workers :: "seen_worker list option"

definition same_endpoint :: "local_endpoint \<Rightarrow> seen_worker \<Rightarrow> bool" where
  "same_endpoint e w \<longleftrightarrow> (case sw_url w of None \<Rightarrow> False
     | Some u \<Rightarrow> u_host u \<in> set loopback_hosts \<and> digits_value 0 (u_port u) = ep_port e)"

record proposed_worker =
  pw_id :: string
  pw_url :: string
  pw_context :: "int option"
  pw_model :: string
  pw_key_file :: "string option"

datatype warning = MachineOccupancy | WouldDuplicate | FirstModelOnly

record proposal =
  ap_endpoint :: string
  ap_models :: "string list"
  ap_worker :: proposed_worker
  ap_route :: "string \<times> string list"
  ap_conflicts :: "seen_worker list"
  ap_removal :: "string list"
  ap_steps :: "stage list"
  ap_warnings :: "warning list"

datatype admission_error =
    NotLocal | EmptyModelList | RegistryUnavailable | Busy | FingerprintMismatch | StageOrder
  | Testing | ChangesOff | NoActionId | HealthyNow string | WorkerExists string | ControlRefused
  | ConfigUnreadable | RouteExists | ParkFailed | StartFailed

definition draft_proposal ::
    "local_endpoint \<Rightarrow> string option \<Rightarrow> served_model \<Rightarrow> served_model list \<Rightarrow> seen_worker list \<Rightarrow> proposal" where
  "draft_proposal e key_file primary rest workers =
     (let name = fst primary; conflicts = filter (same_endpoint e) workers;
          i = slug name; id = (if i \<in> set (map sw_id workers) then i @ ''-2'' else i);
          dead = filter (\<lambda>w. \<not> sw_healthy w) conflicts
      in \<lparr>ap_endpoint = ep_base e, ap_models = map fst (primary # rest),
          ap_worker = \<lparr>pw_id = id, pw_url = ep_base e, pw_context = snd primary, pw_model = name, pw_key_file = key_file\<rparr>,
          ap_route = (name, [id]), ap_conflicts = conflicts, ap_removal = map sw_id dead,
          ap_steps = (if dead \<noteq> [] then [RemoveDead] else []) @ [AddWorker, WriteRoute, Restart, VerifyStage],
          ap_warnings = MachineOccupancy # (if list_ex sw_healthy conflicts then [WouldDuplicate] else []) @
            (if rest \<noteq> [] then [FirstModelOnly] else [])\<rparr>)"

definition proposal_print :: "proposal \<Rightarrow> js" where
  "proposal_print p = JObj [(''url'', JStr (ap_endpoint p)), (''models'', JArr (map JStr (ap_models p))),
     (''conflicts'', JArr (map (\<lambda>w. JArr [JStr (sw_id w), JBool (sw_healthy w)]) (ap_conflicts p)))]"

section \<open>State\<close>

datatype admission_call =
    DrainWorker string | RemoveWorker string | RegisterWorker proposed_worker
  | SaveRoute string "string list" | ParkCore | SpawnStart

datatype door_view = NoDoorReader | DoorUnavailable | DoorSeen bool bool

datatype problem = DoorHolding | CoreNotReady | DoorStatusUnavailable | NotRegistered | NotHealthy | ModelListFailed

datatype stage_receipt =
    DeadRemoved string "(string \<times> bool) list"
  | WorkerAdded string string
  | RouteWritten string string "string list"
  | CoreRestarted string
  | AdmissionVerified string "problem list"

record running_stage =
  rn_stage :: stage
  rn_action :: string
  rn_fingerprint :: string
  rn_outcome :: "(admission_error + stage_receipt) option"

text \<open>What was answered or given to a stage while it ran: the gateway's workers, which calls succeed, the
  routes of the private configuration, the request's \<open>overwrite_route\<close>, the door, the model list.\<close>

record world =
  wd_view :: gateway_view
  wd_ok :: "admission_call \<Rightarrow> bool"
  wd_routes :: "(string \<rightharpoonup> string list) option"
  wd_overwrite :: bool
  wd_door :: door_view
  wd_listed :: bool

text \<open>Records of what happened, which the code does not keep: every accepted request of a stage with the
  number of inspections that had ended and the stages completed then; every stage that acted, with its
  request, the inspections that had ended by then, what it saw, the proposal it read and its calls; the
  inspections; and whether one of them ended while a stage ran.\<close>

record stage_ask =
  ak_stage :: stage
  ak_fingerprint :: string
  ak_action :: string
  ak_inspections :: nat
  ak_done :: "stage list"

record stage_act =
  sa_ask :: nat
  sa_inspections :: nat
  sa_world :: world
  sa_proposal :: proposal
  sa_calls :: "admission_call list"

record admission =
  ad_proposal :: "proposal option"
  ad_fingerprint :: "string option"
  ad_completed :: "stage list"
  ad_receipts :: "stage_receipt list"
  ad_running :: "running_stage option"
  ad_inspected :: "int option"
  ad_routes :: "string \<rightharpoonup> string list"
  ad_asks :: "stage_ask list"
  ad_acts :: "stage_act list"
  ad_history :: "(string \<times> proposal) list"
  ad_overlap :: bool

definition new_admission :: admission where
  "new_admission = \<lparr>ad_proposal = None, ad_fingerprint = None, ad_completed = [], ad_receipts = [], ad_running = None,
     ad_inspected = None, ad_routes = Map.empty, ad_asks = [], ad_acts = [],
     ad_history = [], ad_overlap = False\<rparr>"

definition ad_busy :: "admission \<Rightarrow> bool" where
  "ad_busy a \<longleftrightarrow> ad_running a \<noteq> None"

definition note_receipt :: "stage_receipt \<Rightarrow> admission \<Rightarrow> admission" where
  "note_receipt r a = a\<lparr>ad_receipts := take 12 (r # ad_receipts a)\<rparr>"

section \<open>Operations\<close>

definition inspect ::
    "(js \<Rightarrow> string) \<Rightarrow> int \<Rightarrow> url_parts option \<Rightarrow> string option \<Rightarrow> served_model list \<Rightarrow> gateway_view \<Rightarrow> admission \<Rightarrow>
     admission_error + admission" where
  "inspect digest now url key_file models view a =
     (case local_endpoint_url url of None \<Rightarrow> Inl NotLocal
      | Some e \<Rightarrow>
          (case models of [] \<Rightarrow> Inl EmptyModelList
           | primary # rest \<Rightarrow>
               if \<not> gv_version_1 view then Inl RegistryUnavailable
               else (case gv_workers view of None \<Rightarrow> Inl RegistryUnavailable
                 | Some workers \<Rightarrow>
                     let p = draft_proposal e key_file primary rest workers; fp = digest (proposal_print p)
                     in Inr (a\<lparr>ad_proposal := Some p, ad_fingerprint := Some fp, ad_completed := [],
                          ad_inspected := Some now, ad_history := ad_history a @ [(fp, p)],
                          ad_overlap := (ad_overlap a \<or> ad_busy a)\<rparr>))))"

definition expected_stages :: "proposal \<Rightarrow> stage list" where
  "expected_stages p = filter (\<lambda>s. s \<noteq> RemoveDead \<or> ap_removal p \<noteq> []) stage_order"

fun index_of :: "'a \<Rightarrow> 'a list \<Rightarrow> nat option" where
  "index_of x [] = None"
| "index_of x (y # ys) = (if x = y then Some 0 else map_option Suc (index_of x ys))"

definition require_stage :: "stage \<Rightarrow> string \<Rightarrow> admission \<Rightarrow> admission_error option" where
  "require_stage s fp a =
     (if ad_busy a then Some Busy
      else (case ad_proposal a of None \<Rightarrow> Some FingerprintMismatch
        | Some p \<Rightarrow>
            if ad_fingerprint a \<noteq> Some fp then Some FingerprintMismatch
            else if index_of s (expected_stages p) \<noteq> Some (length (ad_completed a)) then Some StageOrder
            else None))"

definition action_id_text :: "js \<Rightarrow> bool" where
  "action_id_text v = (case v of JStr s \<Rightarrow> length s = 36 \<and> list_all (\<lambda>c. lower_hex c \<or> c = CHR ''-'') s | _ \<Rightarrow> False)"

definition begin_stage :: "bool \<Rightarrow> bool \<Rightarrow> stage \<Rightarrow> string \<Rightarrow> js \<Rightarrow> admission \<Rightarrow> admission_error + admission" where
  "begin_stage testing enabled s fp action a =
     (if testing then Inl Testing
      else if \<not> enabled then Inl ChangesOff
      else if \<not> action_id_text action then Inl NoActionId
      else (case require_stage s fp a of Some e \<Rightarrow> Inl e
        | None \<Rightarrow> let t = (case action of JStr t \<Rightarrow> t | _ \<Rightarrow> []) in
            Inr (a\<lparr>ad_running := Some \<lparr>rn_stage = s, rn_action = t, rn_fingerprint = fp, rn_outcome = None\<rparr>,
              ad_asks := ad_asks a @ [\<lparr>ak_stage = s, ak_fingerprint = fp, ak_action = t,
                ak_inspections = length (ad_history a), ak_done = ad_completed a\<rparr>]\<rparr>)))"

text \<open>The bodies of the stages: the calls they make and how they end. \<open>ok\<close> tells which calls succeed.\<close>

fun remove_dead :: "(admission_call \<Rightarrow> bool) \<Rightarrow> seen_worker list \<Rightarrow> string list \<Rightarrow>
    admission_call list \<times> (admission_error + (string \<times> bool) list)" where
  "remove_dead ok ws [] = ([], Inr [])"
| "remove_dead ok ws (i # is) =
     (case List.find (\<lambda>w. sw_id w = i) ws of
        None \<Rightarrow> (case remove_dead ok ws is of (cs, Inl e) \<Rightarrow> (cs, Inl e) | (cs, Inr rs) \<Rightarrow> (cs, Inr ((i, False) # rs)))
      | Some w \<Rightarrow>
          if sw_healthy w then ([], Inl (HealthyNow i))
          else if \<not> ok (DrainWorker i) then ([DrainWorker i], Inl ControlRefused)
          else if \<not> ok (RemoveWorker i) then ([DrainWorker i, RemoveWorker i], Inl ControlRefused)
          else (case remove_dead ok ws is of
              (cs, Inl e) \<Rightarrow> (DrainWorker i # RemoveWorker i # cs, Inl e)
            | (cs, Inr rs) \<Rightarrow> (DrainWorker i # RemoveWorker i # cs, Inr ((i, True) # rs))))"

definition workers_seen :: "gateway_view \<Rightarrow> seen_worker list" where
  "workers_seen v = (case gv_workers v of None \<Rightarrow> [] | Some ws \<Rightarrow> ws)"

definition add_proposed :: "(admission_call \<Rightarrow> bool) \<Rightarrow> gateway_view \<Rightarrow> string \<Rightarrow> proposal \<Rightarrow>
    admission_call list \<times> (admission_error + stage_receipt)" where
  "add_proposed ok view action p =
     (let w = ap_worker p in
      if pw_id w \<in> set (map sw_id (workers_seen view)) then ([], Inl (WorkerExists (pw_id w)))
      else ([RegisterWorker w],
        if ok (RegisterWorker w) then Inr (WorkerAdded action (pw_id w)) else Inl ControlRefused))"

definition write_route :: "(string \<rightharpoonup> string list) option \<Rightarrow> bool \<Rightarrow> string \<Rightarrow> proposal \<Rightarrow>
    admission_call list \<times> (admission_error + stage_receipt)" where
  "write_route routes overwrite action p =
     (let name = fst (ap_route p); ws = snd (ap_route p) in
      case routes of None \<Rightarrow> ([], Inl ConfigUnreadable)
      | Some rs \<Rightarrow>
          if rs name \<noteq> None \<and> rs name \<noteq> Some ws \<and> \<not> overwrite then ([], Inl RouteExists)
          else ([SaveRoute name ws], Inr (RouteWritten action name ws)))"

definition restart_core :: "(admission_call \<Rightarrow> bool) \<Rightarrow> string \<Rightarrow> admission_call list \<times> (admission_error + stage_receipt)" where
  "restart_core ok action =
     (if \<not> ok ParkCore then ([ParkCore], Inl ParkFailed)
      else ([ParkCore, SpawnStart], if ok SpawnStart then Inr (CoreRestarted action) else Inl StartFailed))"

definition verify_problems :: "door_view \<Rightarrow> gateway_view \<Rightarrow> bool \<Rightarrow> proposal \<Rightarrow> problem list" where
  "verify_problems door view listed p =
     (case door of NoDoorReader \<Rightarrow> [] | DoorUnavailable \<Rightarrow> [DoorStatusUnavailable]
      | DoorSeen holding not_ready \<Rightarrow> (if holding then [DoorHolding] else []) @ (if not_ready then [CoreNotReady] else [])) @
     (case List.find (\<lambda>w. sw_id w = pw_id (ap_worker p)) (workers_seen view) of
        None \<Rightarrow> [NotRegistered] | Some w \<Rightarrow> if sw_healthy w then [] else [NotHealthy]) @
     (if listed then [] else [ModelListFailed])"

definition stage_body :: "world \<Rightarrow> stage \<Rightarrow> string \<Rightarrow> proposal \<Rightarrow> admission_call list \<times> (admission_error + stage_receipt)" where
  "stage_body w s action p =
     (case s of
        RemoveDead \<Rightarrow> (case remove_dead (wd_ok w) (workers_seen (wd_view w)) (ap_removal p) of
            (cs, Inl e) \<Rightarrow> (cs, Inl e) | (cs, Inr rs) \<Rightarrow> (cs, Inr (DeadRemoved action rs)))
      | AddWorker \<Rightarrow> add_proposed (wd_ok w) (wd_view w) action p
      | WriteRoute \<Rightarrow> write_route (wd_routes w) (wd_overwrite w) action p
      | Restart \<Rightarrow> restart_core (wd_ok w) action
      | VerifyStage \<Rightarrow> ([], Inr (AdmissionVerified action (verify_problems (wd_door w) (wd_view w) (wd_listed w) p))))"

definition apply_route :: "admission_call list \<Rightarrow> (string \<rightharpoonup> string list) \<Rightarrow> (string \<rightharpoonup> string list)" where
  "apply_route cs m = foldl (\<lambda>m c. case c of SaveRoute n ws \<Rightarrow> m(n \<mapsto> ws) | _ \<Rightarrow> m) m cs"

text \<open>The stage acts: it reads the proposal that is current now, after what it awaited.\<close>

definition act_stage :: "world \<Rightarrow> running_stage \<Rightarrow> proposal \<Rightarrow> admission \<Rightarrow> admission" where
  "act_stage w r p a =
     (let body = stage_body w (rn_stage r) (rn_action r) p;
          a1 = a\<lparr>ad_running := Some (r\<lparr>rn_outcome := Some (snd body)\<rparr>),
                 ad_acts := ad_acts a @ [\<lparr>sa_ask = length (ad_asks a) - 1, sa_inspections = length (ad_history a),
                   sa_world = w, sa_proposal = p, sa_calls = fst body\<rparr>],
                 ad_routes := apply_route (fst body) (ad_routes a)\<rparr>
      in case snd body of Inl _ \<Rightarrow> a1 | Inr receipt \<Rightarrow> note_receipt receipt a1)"

fun verified :: "stage_receipt \<Rightarrow> bool" where
  "verified (AdmissionVerified _ problems) \<longleftrightarrow> problems = []"
| "verified _ \<longleftrightarrow> True"

definition end_stage :: "running_stage \<Rightarrow> admission_error + stage_receipt \<Rightarrow> admission \<Rightarrow> admission" where
  "end_stage r outcome a =
     (let a1 = a\<lparr>ad_running := None\<rparr>
      in case outcome of Inl _ \<Rightarrow> a1
         | Inr receipt \<Rightarrow> if verified receipt then a1\<lparr>ad_completed := ad_completed a @ [rn_stage r]\<rparr> else a1)"

section \<open>Interleaving\<close>

text \<open>An inspection may end at any time, also while a stage runs.\<close>

inductive admission_step :: "(js \<Rightarrow> string) \<Rightarrow> admission \<Rightarrow> admission \<Rightarrow> bool" for digest where
  Endpoint_Inspected: "inspect digest now url key_file models view a = Inr a' \<Longrightarrow> admission_step digest a a'"
| Stage_Begins: "begin_stage testing enabled s fp action a = Inr a' \<Longrightarrow> admission_step digest a a'"
| Stage_Acts: "ad_running a = Some r \<Longrightarrow> rn_outcome r = None \<Longrightarrow> ad_proposal a = Some p \<Longrightarrow>
    admission_step digest a (act_stage w r p a)"
| Stage_Ends: "ad_running a = Some r \<Longrightarrow> rn_outcome r = Some outcome \<Longrightarrow> admission_step digest a (end_stage r outcome a)"

inductive admission_reachable :: "(js \<Rightarrow> string) \<Rightarrow> admission \<Rightarrow> bool" for digest where
  Admission_Start: "admission_reachable digest new_admission"
| Admission_Step: "admission_reachable digest a \<Longrightarrow> admission_step digest a b \<Longrightarrow> admission_reachable digest b"

lemma index_of_nth: "index_of x xs = Some n \<Longrightarrow> n < length xs \<and> xs ! n = x"
proof (induction xs arbitrary: n)
  case (Cons y ys)
  then show ?case by (cases n) (auto split: if_splits)
qed simp

text \<open>What a stage may do, written out for each stage: the calls, on what, and under which answers.\<close>

definition listed_dead :: "world \<Rightarrow> proposal \<Rightarrow> string \<Rightarrow> bool" where
  "listed_dead w p i \<longleftrightarrow> i \<in> set (ap_removal p) \<and> list_ex (\<lambda>x. sw_id x = i \<and> \<not> sw_healthy x) (workers_seen (wd_view w))"

definition stage_may :: "stage \<Rightarrow> world \<Rightarrow> proposal \<Rightarrow> admission_call \<Rightarrow> bool" where
  "stage_may s w p c = (case s of
      RemoveDead \<Rightarrow> (case c of DrainWorker i \<Rightarrow> listed_dead w p i
         | RemoveWorker i \<Rightarrow> listed_dead w p i \<and> wd_ok w (DrainWorker i) | _ \<Rightarrow> False)
    | AddWorker \<Rightarrow> c = RegisterWorker (ap_worker p) \<and> list_all (\<lambda>x. sw_id x \<noteq> pw_id (ap_worker p)) (workers_seen (wd_view w))
    | WriteRoute \<Rightarrow> c = SaveRoute (fst (ap_route p)) (snd (ap_route p)) \<and>
        (case wd_routes w of None \<Rightarrow> False
         | Some rs \<Rightarrow> wd_overwrite w \<or> rs (fst (ap_route p)) \<in> {None, Some (snd (ap_route p))})
    | Restart \<Rightarrow> c = ParkCore \<or> c = SpawnStart \<and> wd_ok w ParkCore
    | VerifyStage \<Rightarrow> False)"

lemma remove_dead_may:
  "\<forall>c \<in> set (fst (remove_dead ok ws ids)). \<exists>i \<in> set ids. list_ex (\<lambda>x. sw_id x = i \<and> \<not> sw_healthy x) ws \<and>
     (c = DrainWorker i \<or> c = RemoveWorker i \<and> ok (DrainWorker i))"
proof (induction ok ws ids rule: remove_dead.induct)
  case (2 ok ws i rest)
  show ?case
  proof (cases "List.find (\<lambda>w. sw_id w = i) ws")
    case None
    then show ?thesis using 2(1) by (auto split: prod.split sum.split)
  next
    case (Some w)
    then have w: "w \<in> set ws" "sw_id w = i" by (auto simp: find_Some_iff)
    show ?thesis
    proof (cases "sw_healthy w \<or> \<not> ok (DrainWorker i) \<or> \<not> ok (RemoveWorker i)")
      case True
      then show ?thesis using Some w by (auto simp: list_ex_iff)
    next
      case False
      then have "set (fst (remove_dead ok ws (i # rest))) = {DrainWorker i, RemoveWorker i} \<union> set (fst (remove_dead ok ws rest))"
        using Some by (simp split: prod.split sum.split)
      moreover have "\<forall>c \<in> set (fst (remove_dead ok ws rest)). \<exists>j \<in> set rest. list_ex (\<lambda>x. sw_id x = j \<and> \<not> sw_healthy x) ws \<and>
          (c = DrainWorker j \<or> c = RemoveWorker j \<and> ok (DrainWorker j))"
        using 2(2) [OF Some] False by simp
      moreover have "list_ex (\<lambda>x. sw_id x = i \<and> \<not> sw_healthy x) ws" using w False by (auto simp: list_ex_iff)
      ultimately show ?thesis using False by auto
    qed
  qed
qed simp

lemma stage_body_may: "list_all (stage_may s w p) (fst (stage_body w s t p))"
proof (cases s)
  case RemoveDead
  then show ?thesis
    using remove_dead_may [of "wd_ok w" "workers_seen (wd_view w)" "ap_removal p"]
    by (fastforce simp: stage_body_def stage_may_def listed_dead_def list_all_iff split: prod.split sum.split)
qed (auto simp: stage_body_def stage_may_def add_proposed_def write_route_def restart_core_def list_all_iff Let_def
    rev_image_eqI split: option.splits)

definition inspection :: "admission \<Rightarrow> nat \<Rightarrow> string \<times> proposal" where
  "inspection a n = ad_history a ! (n - 1)"

text \<open>The stages a proposal needs, in order.\<close>

definition due :: "proposal \<Rightarrow> stage list" where
  "due p = (if ap_removal p = [] then [] else [RemoveDead]) @ [AddWorker, WriteRoute, Restart, VerifyStage]"

text \<open>A request was accepted for the latest inspection: under its fingerprint, and as the stage that comes
  next in the order after those completed.\<close>

definition ask_ok :: "admission \<Rightarrow> stage_ask \<Rightarrow> bool" where
  "ask_ok a k \<longleftrightarrow> 0 < ak_inspections k \<and> ak_inspections k \<le> length (ad_history a) \<and>
     fst (inspection a (ak_inspections k)) = ak_fingerprint k \<and> length (ak_action k) = 36 \<and>
     length (ak_done k) < length (due (snd (inspection a (ak_inspections k)))) \<and>
     due (snd (inspection a (ak_inspections k))) ! length (ak_done k) = ak_stage k"

text \<open>A stage that acted belongs to an accepted request, read the proposal of the latest inspection at that
  moment, and made only the calls of its stage on that proposal.\<close>

definition act_ok :: "admission \<Rightarrow> stage_act \<Rightarrow> bool" where
  "act_ok a t \<longleftrightarrow> sa_ask t < length (ad_asks a) \<and>
     ak_inspections (ad_asks a ! sa_ask t) \<le> sa_inspections t \<and> sa_inspections t \<le> length (ad_history a) \<and>
     sa_proposal t = snd (inspection a (sa_inspections t)) \<and>
     list_all (stage_may (ak_stage (ad_asks a ! sa_ask t)) (sa_world t) (sa_proposal t)) (sa_calls t)"

text \<open>As long as no inspection ended while a stage ran, what a stage acted on is what it was approved for,
  and the completed stages are a prefix of the order for the current proposal.\<close>

definition as_approved :: "admission \<Rightarrow> bool" where
  "as_approved a \<longleftrightarrow>
     list_all (\<lambda>t. sa_proposal t = snd (inspection a (ak_inspections (ad_asks a ! sa_ask t)))) (ad_acts a) \<and>
     (case ad_proposal a of None \<Rightarrow> ad_completed a = []
      | Some p \<Rightarrow> ad_completed a = take (length (ad_completed a)) (due p))"

definition current_ok :: "admission \<Rightarrow> bool" where
  "current_ok a \<longleftrightarrow> (case ad_proposal a of None \<Rightarrow> ad_history a = [] \<and> ad_completed a = [] \<and> ad_running a = None
     | Some p \<Rightarrow> ad_history a \<noteq> [] \<and> snd (last (ad_history a)) = p \<and> ad_fingerprint a = Some (fst (last (ad_history a))))"

definition running_ok :: "admission \<Rightarrow> bool" where
  "running_ok a \<longleftrightarrow> (case ad_running a of None \<Rightarrow> True
     | Some r \<Rightarrow> ad_asks a \<noteq> [] \<and> ak_stage (last (ad_asks a)) = rn_stage r \<and>
         (rn_outcome r = None \<longrightarrow> (\<forall>t \<in> set (ad_acts a). sa_ask t < length (ad_asks a) - 1)) \<and>
         (\<not> ad_overlap a \<longrightarrow> ak_inspections (last (ad_asks a)) = length (ad_history a) \<and> ak_done (last (ad_asks a)) = ad_completed a))"

definition admission_ok :: "(js \<Rightarrow> string) \<Rightarrow> admission \<Rightarrow> bool" where
  "admission_ok digest a \<longleftrightarrow> list_all (\<lambda>(fp, p). fp = digest (proposal_print p)) (ad_history a) \<and>
     list_all (ask_ok a) (ad_asks a) \<and> list_all (act_ok a) (ad_acts a) \<and> sorted_wrt (<) (map sa_ask (ad_acts a)) \<and>
     current_ok a \<and> running_ok a \<and> (\<not> ad_overlap a \<longrightarrow> as_approved a)"

lemma expected_due: "expected_stages p = due p"
  by (simp add: expected_stages_def stage_order_def due_def)

lemma inspect_cases:
  assumes "inspect digest now url key_file models view a = Inr a'"
  obtains p where "a' = a\<lparr>ad_proposal := Some p, ad_fingerprint := Some (digest (proposal_print p)), ad_completed := [],
      ad_inspected := Some now, ad_history := ad_history a @ [(digest (proposal_print p), p)],
      ad_overlap := (ad_overlap a \<or> ad_busy a)\<rparr>"
  using assms by (auto simp: inspect_def Let_def split: option.splits list.splits if_splits)

lemma begin_stage_cases:
  assumes "begin_stage testing enabled s fp action a = Inr a'"
  obtains p t where "a' = a\<lparr>ad_running := Some \<lparr>rn_stage = s, rn_action = t, rn_fingerprint = fp, rn_outcome = None\<rparr>,
      ad_asks := ad_asks a @ [\<lparr>ak_stage = s, ak_fingerprint = fp, ak_action = t,
        ak_inspections = length (ad_history a), ak_done = ad_completed a\<rparr>]\<rparr>"
    "ad_running a = None" "ad_proposal a = Some p" "ad_fingerprint a = Some fp" "\<not> testing" "enabled" "length t = 36"
    "length (ad_completed a) < length (due p)" "due p ! length (ad_completed a) = s"
  using assms index_of_nth [of s "due (the (ad_proposal a))" "length (ad_completed a)"]
  by (auto simp: begin_stage_def require_stage_def ad_busy_def action_id_text_def expected_due Let_def
      split: option.splits if_splits js.splits)

lemma act_stage_fields:
  "ad_proposal (act_stage w r p a) = ad_proposal a" "ad_fingerprint (act_stage w r p a) = ad_fingerprint a"
  "ad_completed (act_stage w r p a) = ad_completed a" "ad_history (act_stage w r p a) = ad_history a"
  "ad_asks (act_stage w r p a) = ad_asks a" "ad_overlap (act_stage w r p a) = ad_overlap a"
  "ad_running (act_stage w r p a) = Some (r\<lparr>rn_outcome := Some (snd (stage_body w (rn_stage r) (rn_action r) p))\<rparr>)"
  "ad_acts (act_stage w r p a) = ad_acts a @ [\<lparr>sa_ask = length (ad_asks a) - 1, sa_inspections = length (ad_history a),
     sa_world = w, sa_proposal = p, sa_calls = fst (stage_body w (rn_stage r) (rn_action r) p)\<rparr>]"
  by (simp_all add: act_stage_def note_receipt_def Let_def split: sum.split)

lemma end_stage_fields:
  "ad_proposal (end_stage r q a) = ad_proposal a" "ad_fingerprint (end_stage r q a) = ad_fingerprint a"
  "ad_history (end_stage r q a) = ad_history a" "ad_running (end_stage r q a) = None" "ad_acts (end_stage r q a) = ad_acts a"
  "ad_asks (end_stage r q a) = ad_asks a" "ad_overlap (end_stage r q a) = ad_overlap a"
  "ad_completed (end_stage r q a) = ad_completed a \<or> ad_completed (end_stage r q a) = ad_completed a @ [rn_stage r]"
  by (simp_all add: end_stage_def Let_def split: sum.split)

lemmas step_parts = admission_ok_def current_ok_def running_ok_def as_approved_def

lemma inspection_append: "n \<le> length (ad_history a) \<Longrightarrow> 0 < n \<Longrightarrow> ad_history b = ad_history a @ hs \<Longrightarrow> inspection b n = inspection a n"
  by (cases n) (simp_all add: inspection_def nth_append)

text \<open>Requests and acts stay well-formed while the lists grow.\<close>

lemma logs_grow:
  assumes "ad_history b = ad_history a @ hs" and "ad_asks b = ad_asks a @ ks" and "list_all (ask_ok a) (ad_asks a)"
  shows "list_all (ask_ok b) (ad_asks a)" and "list_all (act_ok a) (ad_acts a) \<Longrightarrow> list_all (act_ok b) (ad_acts a)"
    and "list_all (act_ok a) (ad_acts a) \<Longrightarrow> t \<in> set (ad_acts a) \<Longrightarrow>
      inspection b (ak_inspections (ad_asks b ! sa_ask t)) = inspection a (ak_inspections (ad_asks a ! sa_ask t))"
proof -
  show asks: "list_all (ask_ok b) (ad_asks a)"
    using assms(3) inspection_append [OF _ _ assms(1)] by (auto simp: list_all_iff ask_ok_def assms(1))
  have at: "inspection b (sa_inspections t) = inspection a (sa_inspections t) \<and> sa_ask t < length (ad_asks a) \<and>
      inspection b (ak_inspections (ad_asks a ! sa_ask t)) = inspection a (ak_inspections (ad_asks a ! sa_ask t))"
    if "act_ok a t" for t
  proof -
    have "ask_ok a (ad_asks a ! sa_ask t)" using that assms(3) by (simp add: act_ok_def list_all_length)
    then show ?thesis
      using that inspection_append [OF _ _ assms(1)] unfolding act_ok_def ask_ok_def by (meson le_trans less_le_trans)
  qed
  show "list_all (act_ok a) (ad_acts a) \<Longrightarrow> list_all (act_ok b) (ad_acts a)"
    using at unfolding list_all_iff by (fastforce simp: act_ok_def assms(1,2) nth_append)
  show "list_all (act_ok a) (ad_acts a) \<Longrightarrow> t \<in> set (ad_acts a) \<Longrightarrow>
      inspection b (ak_inspections (ad_asks b ! sa_ask t)) = inspection a (ak_inspections (ad_asks a ! sa_ask t))"
    using at unfolding list_all_iff by (fastforce simp: assms(2) nth_append)
qed

lemma inspected_ok:
  assumes ok: "admission_ok digest a" and b: "inspect digest now url key_file models view a = Inr b"
  shows "admission_ok digest b"
proof -
  obtain p where p: "b = a\<lparr>ad_proposal := Some p, ad_fingerprint := Some (digest (proposal_print p)), ad_completed := [],
      ad_inspected := Some now, ad_history := ad_history a @ [(digest (proposal_print p), p)],
      ad_overlap := (ad_overlap a \<or> ad_busy a)\<rparr>"
    using inspect_cases [OF b] by blast
  have asks: "list_all (ask_ok a) (ad_asks a)" and acts: "list_all (act_ok a) (ad_acts a)" using ok by (simp_all add: admission_ok_def)
  have h: "ad_history b = ad_history a @ [(digest (proposal_print p), p)]" "ad_asks b = ad_asks a @ []" by (simp_all add: p)
  note g = logs_grow [OF h asks]
  have "as_approved b" if "\<not> ad_overlap b"
    using ok that g(3) [OF acts] by (simp add: admission_ok_def as_approved_def p list_all_iff split: option.splits)
  then show ?thesis
    using ok g(1) g(2) [OF acts] by (auto simp: admission_ok_def current_ok_def running_ok_def p ad_busy_def split: option.splits)
qed

lemma began_ok:
  assumes ok: "admission_ok digest a" and b: "begin_stage testing enabled s fp action a = Inr b"
  shows "admission_ok digest b"
proof -
  obtain p t where p: "b = a\<lparr>ad_running := Some \<lparr>rn_stage = s, rn_action = t, rn_fingerprint = fp, rn_outcome = None\<rparr>,
      ad_asks := ad_asks a @ [\<lparr>ak_stage = s, ak_fingerprint = fp, ak_action = t,
        ak_inspections = length (ad_history a), ak_done = ad_completed a\<rparr>]\<rparr>"
    and q: "ad_proposal a = Some p" "ad_fingerprint a = Some fp" "length t = 36"
      "length (ad_completed a) < length (due p)" "due p ! length (ad_completed a) = s"
    using begin_stage_cases [OF b] by blast
  have asks: "list_all (ask_ok a) (ad_asks a)" and acts: "list_all (act_ok a) (ad_acts a)" using ok by (simp_all add: admission_ok_def)
  have h: "ad_history b = ad_history a @ []" "ad_asks b = ad_asks a @ [\<lparr>ak_stage = s, ak_fingerprint = fp, ak_action = t,
        ak_inspections = length (ad_history a), ak_done = ad_completed a\<rparr>]" by (simp_all add: p)
  note g = logs_grow [OF h asks]
  have cur: "ad_history a \<noteq> []" "last (ad_history a) = (fp, p)"
    using ok q(1,2) by (auto simp: admission_ok_def current_ok_def prod_eq_iff)
  then have "inspection b (length (ad_history a)) = (fp, p)" by (simp add: inspection_def p last_conv_nth)
  then have new: "ask_ok b (last (ad_asks b))"
    using q cur by (simp add: ask_ok_def p)
  have "as_approved b" if "\<not> ad_overlap b"
    using ok that g(3) [OF acts] by (simp add: admission_ok_def as_approved_def p list_all_iff split: option.splits)
  moreover have "\<forall>t \<in> set (ad_acts a). sa_ask t < length (ad_asks a)" using acts by (simp add: list_all_iff act_ok_def)
  ultimately show ?thesis
    using ok g(1) g(2) [OF acts] new q(1) by (simp add: admission_ok_def current_ok_def running_ok_def p)
qed

lemma acted_ok:
  assumes ok: "admission_ok digest a" and r: "ad_running a = Some r" "rn_outcome r = None" "ad_proposal a = Some p"
  shows "admission_ok digest (act_stage w r p a)"
proof -
  let ?b = "act_stage w r p a"
  have asks: "list_all (ask_ok a) (ad_asks a)" and acts: "list_all (act_ok a) (ad_acts a)"
    and run: "ad_asks a \<noteq> []" "ak_stage (last (ad_asks a)) = rn_stage r" "\<forall>t \<in> set (ad_acts a). sa_ask t < length (ad_asks a) - 1"
      "\<not> ad_overlap a \<longrightarrow> ak_inspections (last (ad_asks a)) = length (ad_history a)"
    using ok r by (simp_all add: admission_ok_def running_ok_def)
  note g = logs_grow [of ?b a "[]" "[]", simplified act_stage_fields append_Nil2, OF refl refl asks]
  have cur: "ad_history a \<noteq> []" "snd (last (ad_history a)) = p" using ok r(3) by (simp_all add: admission_ok_def current_ok_def)
  then have ip: "snd (inspection ?b (length (ad_history a))) = p" by (simp add: inspection_def act_stage_fields last_conv_nth)
  have last: "ad_asks a ! (length (ad_asks a) - 1) = last (ad_asks a)" using run(1) by (simp add: last_conv_nth)
  have "ak_inspections (last (ad_asks a)) \<le> length (ad_history a)" using asks run(1) by (simp add: list_all_iff ask_ok_def)
  then have new: "act_ok ?b (last (ad_acts ?b))"
    unfolding act_ok_def act_stage_fields last_snoc stage_act.simps last using run ip by (simp add: stage_body_may)
  have "as_approved ?b" if "\<not> ad_overlap a"
    using ok that g(3) [OF acts] run(4) ip
    by (simp add: admission_ok_def as_approved_def act_stage_fields last [simplified] list_all_iff split: option.splits)
  then show ?thesis
    using ok g(1) g(2) [OF acts] new run r
    by (simp add: admission_ok_def current_ok_def running_ok_def act_stage_fields sorted_wrt_append)
qed

lemma stage_ended_ok:
  assumes ok: "admission_ok digest a" and r: "ad_running a = Some r"
  shows "admission_ok digest (end_stage r q a)"
proof -
  let ?b = "end_stage r q a"
  have asks: "list_all (ask_ok a) (ad_asks a)" and acts: "list_all (act_ok a) (ad_acts a)"
    and run: "ad_asks a \<noteq> []" "ak_stage (last (ad_asks a)) = rn_stage r"
      "\<not> ad_overlap a \<longrightarrow> ak_inspections (last (ad_asks a)) = length (ad_history a) \<and> ak_done (last (ad_asks a)) = ad_completed a"
    using ok r by (simp_all add: admission_ok_def running_ok_def)
  note g = logs_grow [of ?b a "[]" "[]", simplified end_stage_fields append_Nil2, OF refl refl asks]
  obtain p where p: "ad_proposal a = Some p" "ad_history a \<noteq> []" "snd (last (ad_history a)) = p"
    using ok r by (auto simp: admission_ok_def current_ok_def split: option.splits)
  have asked: "ask_ok a (last (ad_asks a))" using asks run(1) by (simp add: list_all_iff)
  have "ad_completed ?b = take (length (ad_completed ?b)) (due p)" if "\<not> ad_overlap a"
  proof -
    have "snd (inspection a (ak_inspections (last (ad_asks a)))) = p"
      using run(3) that p(2,3) by (simp add: inspection_def last_conv_nth)
    then have "length (ad_completed a) < length (due p)" "due p ! length (ad_completed a) = rn_stage r"
      using asked run that by (auto simp: ask_ok_def)
    moreover have "ad_completed a = take (length (ad_completed a)) (due p)"
      using ok that p(1) by (simp add: admission_ok_def as_approved_def)
    ultimately show ?thesis
      using end_stage_fields(8) [of r q a] by (metis length_append_singleton take_Suc_conv_app_nth)
  qed
  then have "as_approved ?b" if "\<not> ad_overlap a"
    using ok that g(3) [OF acts] p(1) by (simp add: admission_ok_def as_approved_def end_stage_fields(1-7) list_all_iff)
  then show ?thesis
    using ok g(1) g(2) [OF acts] p by (simp add: admission_ok_def current_ok_def running_ok_def end_stage_fields(1-7))
qed

lemma admission_reachable_ok: "admission_reachable digest a \<Longrightarrow> admission_ok digest a"
proof (induction rule: admission_reachable.induct)
  case Admission_Start
  show ?case by (simp add: step_parts new_admission_def)
next
  case (Admission_Step a b)
  then show ?case
    by (auto elim!: admission_step.cases intro: inspected_ok began_ok acted_ok stage_ended_ok)
qed

section \<open>What the stages promise\<close>

text \<open>C16: nothing is done that was not inspected and asked for, in order. Every inspection is held under
  the fingerprint of its own proposal. Every accepted request of a stage named the fingerprint of the latest
  inspection, and its stage was the next one of that inspection's proposal. Each request makes its stage act
  at most once, on the proposal of the latest inspection at that moment, and every call is one its stage may
  make: only the dead workers the proposal lists, and only while the gateway shows them dead, a drain before
  its removal; only the proposed worker, while its identifier is free; only the proposed route, over no other
  route unless that was asked for; the start only after a park that succeeded. Unless an inspection ended
  while a stage ran, each stage acted on the very proposal it was asked for under, and the completed stages
  are a prefix of the current proposal's order.\<close>

theorem admission_follows_the_approval:
  assumes "admission_reachable digest a"
  shows "list_all (\<lambda>(fp, p). fp = digest (proposal_print p)) (ad_history a) \<and>
    list_all (ask_ok a) (ad_asks a) \<and> list_all (act_ok a) (ad_acts a) \<and> sorted_wrt (<) (map sa_ask (ad_acts a)) \<and>
    (case ad_overlap a of True \<Rightarrow> True | False \<Rightarrow> as_approved a)"
  using admission_reachable_ok [OF assms] by (simp add: admission_ok_def split: bool.split)

text \<open>The concrete run: an endpoint with a dead worker on it.\<close>

definition demo_url :: "string \<Rightarrow> url_parts option" where
  "demo_url port = Some \<lparr>u_protocol = ''http:'', u_origin = ''http://localhost:'' @ port, u_host = ''localhost'', u_port = port,
     u_path = ''/v1/'', u_other = False\<rparr>"

definition demo_view :: gateway_view where
  "demo_view = \<lparr>gv_version_1 = True, gv_workers = Some [\<lparr>sw_id = ''old'', sw_url = demo_url ''1'', sw_healthy = False,
     sw_drained = False, sw_quarantined = False, sw_model = None\<rparr>]\<rparr>"

definition demo_print :: "js \<Rightarrow> string" where
  "demo_print v = (case jget v ''url'' of JStr s \<Rightarrow> s | _ \<Rightarrow> [])"

definition right_of :: "'a \<Rightarrow> 'e + 'a \<Rightarrow> 'a" where
  "right_of d r = (case r of Inr x \<Rightarrow> x | Inl _ \<Rightarrow> d)"

definition demo_world :: world where
  "demo_world = \<lparr>wd_view = demo_view, wd_ok = (\<lambda>_. True), wd_routes = Some Map.empty, wd_overwrite = False,
     wd_door = NoDoorReader, wd_listed = True\<rparr>"

definition demo_action :: js where
  "demo_action = JStr (replicate 36 CHR ''0'')"

definition inspected_a :: admission where
  "inspected_a = right_of new_admission (inspect demo_print 0 (demo_url ''1'') None [(''a'', Some 4096)] demo_view new_admission)"

definition begun_a :: admission where
  "begun_a = right_of new_admission (begin_stage False True RemoveDead ''http://127.0.0.1:1'' demo_action inspected_a)"

definition acting :: "admission \<Rightarrow> admission" where
  "acting a = act_stage demo_world (the (ad_running a)) (the (ad_proposal a)) a"

definition ending :: "admission \<Rightarrow> admission" where
  "ending a = (case rn_outcome (the (ad_running a)) of Some q \<Rightarrow> end_stage (the (ad_running a)) q a | None \<Rightarrow> a)"

lemma inspected_a_step: "inspect demo_print 0 (demo_url ''1'') None [(''a'', Some 4096)] demo_view new_admission = Inr inspected_a"
proof -
  have "(case inspect demo_print 0 (demo_url ''1'') None [(''a'', Some 4096)] demo_view new_admission of Inr _ \<Rightarrow> True | _ \<Rightarrow> False)"
    by code_simp
  then show ?thesis by (simp add: inspected_a_def right_of_def split: sum.splits)
qed

lemma begun_a_step: "begin_stage False True RemoveDead ''http://127.0.0.1:1'' demo_action inspected_a = Inr begun_a"
proof -
  have "(case begin_stage False True RemoveDead ''http://127.0.0.1:1'' demo_action inspected_a of Inr _ \<Rightarrow> True | _ \<Rightarrow> False)"
    by code_simp
  then show ?thesis by (simp add: begun_a_def right_of_def split: sum.splits)
qed

lemma acting_step:
  assumes "admission_reachable digest a" and "case ad_running a of None \<Rightarrow> False | Some r \<Rightarrow> rn_outcome r = None \<and> ad_proposal a \<noteq> None"
  shows "admission_reachable digest (acting a)"
proof -
  obtain r p where "ad_running a = Some r" "rn_outcome r = None" "ad_proposal a = Some p" using assms(2) by (auto split: option.splits)
  then show ?thesis using Admission_Step [OF assms(1) Stage_Acts] by (simp add: acting_def)
qed

lemma ending_step: "admission_reachable digest a \<Longrightarrow> ad_running a \<noteq> None \<Longrightarrow> admission_reachable digest (ending a)"
  by (auto simp: ending_def split: option.split intro: Admission_Step [OF _ Stage_Ends])

lemma begun_a_reachable: "admission_reachable demo_print begun_a"
proof -
  have "admission_reachable demo_print inspected_a"
    by (rule Admission_Step [OF Admission_Start Endpoint_Inspected [OF inspected_a_step]])
  then show ?thesis by (rule Admission_Step [OF _ Stage_Begins [OF begun_a_step]])
qed

theorem admission_follows_the_approval_witness:
  "(let a = ending (acting begun_a)
    in ad_completed a = [RemoveDead] \<and> \<not> ad_overlap a \<and> as_approved a \<and>
       map sa_calls (ad_acts a) = [[DrainWorker ''old'', RemoveWorker ''old'']] \<and>
       list_all (\<lambda>t. list_all (stage_may RemoveDead demo_world (sa_proposal t)) (sa_calls t)) (ad_acts a))"
proof -
  let ?a = "ending (acting begun_a)"
  have "case ad_running begun_a of None \<Rightarrow> False | Some r \<Rightarrow> rn_outcome r = None \<and> ad_proposal begun_a \<noteq> None"
    by code_simp
  then have "admission_reachable demo_print (acting begun_a)"
    by (rule acting_step [OF begun_a_reachable])
  moreover have "ad_running (acting begun_a) \<noteq> None" by (simp add: acting_def act_stage_fields)
  ultimately have r: "admission_reachable demo_print ?a" by (rule ending_step)
  have o: "\<not> ad_overlap ?a" by code_simp
  have c: "ad_completed ?a = [RemoveDead]" "map ak_stage (ad_asks ?a) = [RemoveDead]" "map sa_ask (ad_acts ?a) = [0]"
    "map sa_calls (ad_acts ?a) = [[DrainWorker ''old'', RemoveWorker ''old'']]" by code_simp+
  have "ad_acts begun_a = []" by code_simp
  then have w: "list_all (\<lambda>t. sa_world t = demo_world) (ad_acts ?a)"
    by (simp add: ending_def acting_def act_stage_fields end_stage_fields split: option.split)
  note t = admission_follows_the_approval [OF r]
  have "list_all (\<lambda>t. list_all (stage_may RemoveDead demo_world (sa_proposal t)) (sa_calls t)) (ad_acts ?a)"
    using t c(2,3) w by (auto simp: list_all_iff act_ok_def map_eq_Cons_conv)
  then show ?thesis using t o c by (simp add: Let_def)
qed

text \<open>What the code does not keep: an inspection is not refused while a stage runs. One that ends before the
  stage acts replaces the proposal under it, so the stage carries out what nobody approved, and its
  completion is counted for the new proposal.\<close>

definition inspected_b :: "admission \<Rightarrow> admission" where
  "inspected_b a = right_of new_admission (inspect demo_print 0 (demo_url ''2'') None [(''b'', None)] demo_view a)"

definition adding_a :: admission where
  "adding_a = right_of new_admission
     (begin_stage False True AddWorker ''http://127.0.0.1:1'' demo_action (ending (acting begun_a)))"

definition unapproved :: "admission \<Rightarrow> bool" where
  "unapproved a \<longleftrightarrow> ad_acts a \<noteq> [] \<and> (let t = last (ad_acts a); k = ad_asks a ! sa_ask t in
     ak_stage k = AddWorker \<and> sa_proposal t \<noteq> snd (inspection a (ak_inspections k)) \<and>
     fst (inspection a (sa_inspections t)) \<noteq> ak_fingerprint k \<and>
     sa_calls t = [RegisterWorker (ap_worker (sa_proposal t))] \<and> ad_proposal a = Some (sa_proposal t) \<and> ad_completed a = [AddWorker])"

lemma overlapping_inspection_changes_the_stage:
  "\<exists>a. admission_reachable demo_print a \<and> unapproved a"
proof -
  let ?e = "ending (acting begun_a)"
  have "case ad_running begun_a of None \<Rightarrow> False | Some r \<Rightarrow> rn_outcome r = None \<and> ad_proposal begun_a \<noteq> None"
    by code_simp
  then have "admission_reachable demo_print (acting begun_a)" by (rule acting_step [OF begun_a_reachable])
  then have e: "admission_reachable demo_print ?e" by (rule ending_step) (simp add: acting_def act_stage_fields)
  have "(case begin_stage False True AddWorker ''http://127.0.0.1:1'' demo_action ?e of Inr _ \<Rightarrow> True | _ \<Rightarrow> False)" by code_simp
  then have "begin_stage False True AddWorker ''http://127.0.0.1:1'' demo_action ?e = Inr adding_a"
    by (simp add: adding_a_def right_of_def split: sum.splits)
  then have b: "admission_reachable demo_print adding_a" by (rule Admission_Step [OF e Stage_Begins])
  have "(case inspect demo_print 0 (demo_url ''2'') None [(''b'', None)] demo_view adding_a of Inr _ \<Rightarrow> True | _ \<Rightarrow> False)" by code_simp
  then have "inspect demo_print 0 (demo_url ''2'') None [(''b'', None)] demo_view adding_a = Inr (inspected_b adding_a)"
    by (simp add: inspected_b_def right_of_def split: sum.splits)
  then have i: "admission_reachable demo_print (inspected_b adding_a)"
    by (rule Admission_Step [OF b Endpoint_Inspected])
  let ?d = "ending (acting (inspected_b adding_a))"
  have "case ad_running (inspected_b adding_a) of None \<Rightarrow> False
    | Some r \<Rightarrow> rn_outcome r = None \<and> ad_proposal (inspected_b adding_a) \<noteq> None" by code_simp
  then have "admission_reachable demo_print (acting (inspected_b adding_a))" by (rule acting_step [OF i])
  then have d: "admission_reachable demo_print ?d" by (rule ending_step) (simp add: acting_def act_stage_fields)
  have "unapproved ?d" by code_simp
  then show ?thesis using d by blast
qed

end
