(* ===== verification/Recovery_Policy.thy ===== *)
theory Recovery_Policy
  imports Stream_Lines
begin

text \<open>
  The decisions of \<open>ds4-gateway/recovery.mjs\<close> and \<open>recovery-bootstrap.mjs\<close>: what an inspection of a model
  server shows, what the enrolled configuration allows, and whether a recovery may be offered for a worker.
  An inspection is read field by field; a field that is absent or of another type is \<open>None\<close>, and an
  inspection that failed has no field at all. \<open>digest\<close> is the SHA-256 of a printed value, of which the
  model keeps the value; times are in milliseconds.
\<close>

section \<open>Data\<close>

datatype adapter = Launchd | Systemd | OtherAdapter

record service_config =
  rc_adapter :: adapter
  rc_machine :: string
  rc_profile :: string
  rc_service_profile :: "string option"
  rc_start_stopped :: bool
  rc_bootstrap_removed :: bool
  rc_definition :: "string option"
  rc_callers :: "string list"
  rc_url :: string
  rc_ssh :: "string option"
  rc_fallbacks :: "string list"
  rc_port :: nat

record fault_seen =
  fs_reason :: string
  fs_at :: int

record bootstrap_view =
  bv_version_1 :: bool
  bv_exact_keys :: bool
  bv_definition :: "string option"
  bv_callers :: "string list option"

record service_view =
  sv_version_1 :: bool
  sv_machine :: "string option"
  sv_profile :: "string option"
  sv_service_profile :: "string option"
  sv_active :: "bool option"
  sv_listener :: "bool option"
  sv_loaded :: "bool option option"
  sv_stopped :: "bool option"
  sv_stopped_epoch :: "string option"
  sv_instance :: "string option"
  sv_started :: "int option"
  sv_registration :: "string option"
  sv_pid :: "int option"
  sv_boot :: "string option"
  sv_native_disabled :: "bool option"
  sv_fault :: "fault_seen option"
  sv_bootstrap :: "bootstrap_view option"

definition no_view :: service_view where
  "no_view = \<lparr>sv_version_1 = False, sv_machine = None, sv_profile = None, sv_service_profile = None, sv_active = None,
     sv_listener = None, sv_loaded = None, sv_stopped = None, sv_stopped_epoch = None, sv_instance = None, sv_started = None,
     sv_registration = None, sv_pid = None, sv_boot = None, sv_native_disabled = None, sv_fault = None, sv_bootstrap = None\<rparr>"

record identity =
  id_enrollment :: string
  id_instance :: string
  id_machine :: string
  id_observed :: int
  id_pid :: int
  id_profile :: string
  id_service_profile :: string
  id_started :: int

type_synonym prior_identity = "identity \<times> string option"

record quarantine_mark =
  qm_reason :: string
  qm_at :: "int option"

record recovery_node =
  nd_id :: string
  nd_url :: string
  nd_ssh :: "string option"
  nd_fallbacks :: "string list"
  nd_port :: nat
  nd_context :: "int option"
  nd_active :: bool
  nd_queued :: nat
  nd_drained :: bool
  nd_healthy :: bool
  nd_recovering :: bool
  nd_removed :: bool
  nd_quarantine :: "quarantine_mark option"

datatype actor = Operator | Genie | Detector

datatype service_action = RestartService | StartService | BootstrapService | AdoptRestart | AdoptVerify

datatype op_state = Queued | Starting | Restarting | Bootstrapping | Reconciling | Verifying
  | Recovered | VerifiedPaused | Failed | ReconciliationNeeded

record proof_sample =
  ps_label :: string
  ps_prompt :: int
  ps_cached :: int
  ps_elapsed :: int

record proof_record =
  pf_check :: string
  pf_context :: int
  pf_verified :: "int option"
  pf_samples :: "proof_sample list"

record candidate =
  ca_profile :: string
  ca_service_profile :: "string option"
  ca_instance :: string

record operation =
  ro_id :: string
  ro_worker :: string
  ro_actor :: actor
  ro_evidence :: "string option"
  ro_action :: service_action
  ro_state :: op_state
  ro_created :: int
  ro_updated :: int
  ro_instance :: "string option"
  ro_stopped_epoch :: "string option"
  ro_service_profile :: "string option"
  ro_machine :: "string option"
  ro_profile :: "string option"
  ro_context :: int
  ro_canary :: bool
  ro_was_paused :: bool
  ro_quarantine :: "quarantine_mark option"
  ro_adopt :: "candidate option"
  ro_configured :: "string option"
  ro_prior :: "prior_identity option"
  ro_enrollment :: "string option"
  ro_definition :: "string option"
  ro_binding :: string
  ro_override :: bool
  ro_issued :: bool
  ro_restart_issued :: bool
  ro_acknowledged :: "bool option"
  ro_new_instance :: "string option"
  ro_proof :: "proof_record option"
  ro_adopted :: bool
  ro_error :: "string option"

definition terminal :: "op_state \<Rightarrow> bool" where
  "terminal s \<longleftrightarrow> s \<in> {Recovered, VerifiedPaused, Failed, ReconciliationNeeded}"

record adopted_profile =
  ad_config_profile :: string
  ad_machine :: string
  ad_profile :: string
  ad_service_profile :: "string option"
  ad_at :: int
  ad_operation :: string

record removal_report =
  rp_checked :: int
  rp_status :: string
  rp_complete :: bool
  rp_omitted :: nat
  rp_observations :: "(int \<times> string) list"  \<comment> \<open>when, and who asked for it\<close>

record stopped_mark =
  sm_epoch :: string
  sm_since :: int

record handback_mark =
  hm_candidate :: candidate
  hm_first :: int
  hm_last :: int
  hm_count :: nat

type_synonym observation = "int \<times> (string + service_view)"

datatype hashed =
    HConfig service_config
  | HIdentity identity
  | HPrior "prior_identity option"
  | HBinding string "string option" "string list" nat
  | HBootstrapOffer string "prior_identity option" service_config "removal_report option"
  | HAdoptOffer string "quarantine_mark option" string "string option" string string "string option"
  | HRestartOffer string "quarantine_mark option" "string option" "string option" "string option"
  | HStartOffer string "quarantine_mark option" "string option" "string option" "string option"

text \<open>The journal (saved) and what the running controller knows besides.\<close>

record journal =
  jo_automatic :: bool
  jo_handback :: bool
  jo_adopted :: "string \<rightharpoonup> adopted_profile"
  jo_operations :: "operation list"
  jo_identities :: "string \<rightharpoonup> identity"
  jo_boots :: "string \<rightharpoonup> string \<times> string"

datatype holds_seen = NoHoldState | BadHoldState | HeldWorkers "string list"

record knowledge =
  kn_configs :: "string \<rightharpoonup> service_config"
  kn_nodes :: "recovery_node list"
  kn_observed :: "string \<rightharpoonup> observation"
  kn_stopped :: "string \<rightharpoonup> stopped_mark"
  kn_handback :: "string \<rightharpoonup> handback_mark"
  kn_removals :: "string \<rightharpoonup> removal_report option"
  kn_holds :: holds_seen
  kn_stopping :: bool
  kn_closed :: bool
  kn_task :: bool
  kn_now :: int

section \<open>Texts and times\<close>

definition hex32 :: "string \<Rightarrow> bool" where
  "hex32 s \<longleftrightarrow> length s = 32 \<and> list_all lower_hex s"

definition boot_text :: "string \<Rightarrow> bool" where
  "boot_text s \<longleftrightarrow> uuid_text s \<and> list_all (\<lambda>c. lower_hex c \<or> c = CHR ''-'') s"

definition opt_test :: "('a \<Rightarrow> bool) \<Rightarrow> 'a option \<Rightarrow> bool" where
  "opt_test P v \<longleftrightarrow> (case v of None \<Rightarrow> False | Some x \<Rightarrow> P x)"

definition inspection_age :: "observation option \<Rightarrow> int \<Rightarrow> int option" where
  "inspection_age ob now = (case ob of None \<Rightarrow> None
     | Some (t, _) \<Rightarrow> if 0 \<le> t \<and> t \<le> now then Some (now - t) else None)"

definition fresh_inspection :: "observation option \<Rightarrow> int \<Rightarrow> bool" where
  "fresh_inspection ob now \<longleftrightarrow> opt_test (\<lambda>age. age \<le> 90000) (inspection_age ob now)"

definition seen_view :: "observation option \<Rightarrow> service_view" where
  "seen_view ob = (case ob of Some (_, Inr s) \<Rightarrow> s | _ \<Rightarrow> no_view)"

definition native_policy_reason :: "service_view \<Rightarrow> service_config option \<Rightarrow> string option" where
  "native_policy_reason s c =
     (case c of None \<Rightarrow> None
      | Some c \<Rightarrow> if rc_adapter c = Launchd \<and> sv_native_disabled s \<noteq> Some False
          then Some (if sv_native_disabled s = Some True then ''launchd_native_disabled'' else ''launchd_disable_state_unverified'')
          else None)"

definition valid_identity :: "identity \<Rightarrow> bool" where
  "valid_identity r \<longleftrightarrow> digest_text (id_enrollment r) \<and> digest_text (id_machine r) \<and> digest_text (id_profile r) \<and>
     digest_text (id_service_profile r) \<and> hex32 (id_instance r) \<and> 2 \<le> id_pid r \<and> id_pid r \<le> 2147483647 \<and>
     0 \<le> id_started r \<and> id_started r \<le> id_observed r"

section \<open>Enrollment\<close>

definition find_recovery_node :: "knowledge \<Rightarrow> string \<Rightarrow> recovery_node option" where
  "find_recovery_node k i = List.find (\<lambda>n. nd_id n = i) (kn_nodes k)"

definition config_of :: "journal \<Rightarrow> knowledge \<Rightarrow> string \<Rightarrow> service_config option" where
  "config_of j k i =
     (case (kn_configs k i, jo_adopted j i) of
        (Some base, Some a) \<Rightarrow>
          if ad_config_profile a \<noteq> rc_profile base \<or> ad_machine a \<noteq> rc_machine base then Some base
          else Some (case ad_service_profile a of
              Some sp \<Rightarrow> base\<lparr>rc_profile := ad_profile a, rc_service_profile := Some sp\<rparr>
            | None \<Rightarrow> base\<lparr>rc_profile := ad_profile a, rc_service_profile := None, rc_start_stopped := False\<rparr>)
      | (base, _) \<Rightarrow> base)"

definition bound_to :: "recovery_node \<Rightarrow> service_config option \<Rightarrow> bool" where
  "bound_to n c \<longleftrightarrow> opt_test (\<lambda>c. nd_url n = rc_url c \<and> nd_ssh n = rc_ssh c \<and> nd_fallbacks n = rc_fallbacks c \<and> nd_port n = rc_port c) c"

definition binding_print :: "recovery_node \<Rightarrow> hashed" where
  "binding_print n = HBinding (nd_url n) (nd_ssh n) (nd_fallbacks n) (nd_port n)"

definition view_valid :: "service_view \<Rightarrow> service_config \<Rightarrow> bool" where
  "view_valid s c \<longleftrightarrow> sv_version_1 s \<and> sv_machine s = Some (rc_machine c) \<and> sv_profile s = Some (rc_profile c) \<and>
     sv_active s = Some True \<and> sv_listener s = Some True \<and> opt_test hex32 (sv_instance s) \<and> sv_started s \<noteq> None"

definition view_stopped :: "service_view \<Rightarrow> service_config \<Rightarrow> bool" where
  "view_stopped s c \<longleftrightarrow> rc_start_stopped c \<and> sv_version_1 s \<and> sv_machine s = Some (rc_machine c) \<and>
     sv_service_profile s = rc_service_profile c \<and> sv_loaded s = Some (Some True) \<and> sv_stopped s = Some True \<and>
     sv_active s = Some False \<and> sv_listener s = Some False \<and> opt_test digest_text (sv_stopped_epoch s)"

definition prior_identity_of :: "(hashed \<Rightarrow> string) \<Rightarrow> journal \<Rightarrow> knowledge \<Rightarrow> string \<Rightarrow> prior_identity option" where
  "prior_identity_of digest j k i =
     (case (config_of j k i, jo_identities j i) of
        (Some c, Some r) \<Rightarrow>
          if rc_adapter c \<noteq> Launchd \<or> \<not> valid_identity r \<or> id_enrollment r \<noteq> digest (HConfig c) then None
          else Some (r, case jo_boots j i of None \<Rightarrow> None
            | Some (d, boot) \<Rightarrow> if boot_text boot \<and> d = digest (HIdentity r) then Some boot else None)
      | _ \<Rightarrow> None)"

definition profile_candidate :: "service_view \<Rightarrow> service_config option \<Rightarrow> candidate option" where
  "profile_candidate s c =
     (case (c, sv_profile s, sv_instance s) of
        (Some c, Some p, Some i) \<Rightarrow>
          if sv_version_1 s \<and> sv_machine s = Some (rc_machine c) \<and> digest_text p \<and> p \<noteq> rc_profile c \<and>
             sv_active s = Some True \<and> sv_listener s = Some True \<and> hex32 i \<and> sv_started s \<noteq> None
          then Some \<lparr>ca_profile = p, ca_service_profile = (if opt_test digest_text (sv_service_profile s) then sv_service_profile s else None),
                 ca_instance = i\<rparr>
          else None
      | _ \<Rightarrow> None)"

definition candidate_stable :: "knowledge \<Rightarrow> string \<Rightarrow> candidate \<Rightarrow> bool" where
  "candidate_stable k i ca \<longleftrightarrow>
     opt_test (\<lambda>m. hm_candidate m = ca \<and> 2 \<le> hm_count m \<and> 10000 \<le> hm_last m - hm_first m) (kn_handback k i)"

section \<open>Removed services\<close>

definition known_callers :: "string list" where
  "known_callers = [''loginwindow'', ''runningboardd'']"

definition bootstrap_enrolled :: "service_view \<Rightarrow> service_config option \<Rightarrow> bool" where
  "bootstrap_enrolled s c \<longleftrightarrow> opt_test (\<lambda>c. rc_adapter c = Launchd \<and> rc_bootstrap_removed c \<and>
     opt_test (\<lambda>b. bv_version_1 b \<and> bv_exact_keys b \<and> bv_definition b = rc_definition c \<and>
       opt_test (\<lambda>cs. list_all (\<lambda>x. x \<in> set known_callers) cs \<and> distinct cs \<and> sort cs = sort (rc_callers c)) (bv_callers b))
       (sv_bootstrap s)) c"

definition proof_labels :: "string list" where
  "proof_labels = [''cold-A'', ''cold-B'', ''warm-A'', ''warm-B'']"

definition sample_ok :: "proof_sample \<Rightarrow> string \<Rightarrow> bool" where
  "sample_ok s label \<longleftrightarrow> ps_label s = label \<and> 2000 \<le> ps_prompt s \<and> 0 \<le> ps_cached s \<and> ps_cached s \<le> ps_prompt s \<and> 0 \<le> ps_elapsed s"

definition bootstrap_proof_valid :: "proof_record option \<Rightarrow> int \<Rightarrow> bool" where
  "bootstrap_proof_valid proof context \<longleftrightarrow> opt_test (\<lambda>p. pf_check p = ''two_conversations_cold_to_warm'' \<and> pf_context p = context \<and>
     pf_verified p \<noteq> None \<and> list_all2 sample_ok (pf_samples p) proof_labels \<and>
     list_all (\<lambda>s. ps_cached s \<le> 64) (take 2 (pf_samples p)) \<and>
     list_all (\<lambda>(warm, cold). max 2000 (ps_prompt cold - 64) \<le> ps_cached warm) (zip (drop 2 (pf_samples p)) (pf_samples p))) proof"

definition bootstrap_op_valid :: "operation \<Rightarrow> bool" where
  "bootstrap_op_valid op \<longleftrightarrow>
     (if ro_action op \<noteq> BootstrapService then ro_prior op = None \<and> ro_enrollment op = None \<and> ro_definition op = None \<and> ro_acknowledged op = None
      else (case ro_prior op of
          Some (r, Some boot) \<Rightarrow> boot_text boot \<and> valid_identity r \<and> ro_enrollment op = Some (id_enrollment r) \<and>
            opt_test digest_text (ro_definition op) \<and> ro_instance op = Some (id_instance r) \<and> ro_machine op = Some (id_machine r) \<and>
            ro_profile op = Some (id_profile r) \<and> ro_service_profile op = Some (id_service_profile r) \<and>
            (ro_canary op \<longrightarrow> ro_actor op = Operator) \<and> 0 < ro_context op
        | _ \<Rightarrow> False))"

definition bootstrap_certified :: "(hashed \<Rightarrow> string) \<Rightarrow> journal \<Rightarrow> recovery_node \<Rightarrow> service_config \<Rightarrow> bool" where
  "bootstrap_certified digest j n c \<longleftrightarrow>
     list_ex (\<lambda>op. ro_worker op = nd_id n \<and> ro_action op = BootstrapService \<and> bootstrap_op_valid op \<and> ro_canary op \<and>
       ro_actor op = Operator \<and> ro_state op = VerifiedPaused \<and> ro_was_paused op \<and> ro_issued op \<and> ro_acknowledged op = Some True \<and>
       \<not> ro_override op \<and> ro_enrollment op = Some (digest (HConfig c)) \<and> ro_definition op = rc_definition c \<and>
       nd_context n = Some (ro_context op) \<and> ro_machine op = Some (rc_machine c) \<and> ro_profile op = Some (rc_profile c) \<and>
       ro_service_profile op = rc_service_profile c \<and> opt_test hex32 (ro_new_instance op) \<and> ro_new_instance op \<noteq> ro_instance op \<and>
       bootstrap_proof_valid (ro_proof op) (ro_context op) \<and>
       opt_test (\<lambda>p. opt_test (\<lambda>t. ro_created op \<le> t \<and> t \<le> ro_updated op + 10000) (pf_verified p)) (ro_proof op))
       (jo_operations j)"

definition bootstrap_hold_reason :: "knowledge \<Rightarrow> recovery_node \<Rightarrow> string option" where
  "bootstrap_hold_reason k n =
     (case kn_holds k of NoHoldState \<Rightarrow> None | BadHoldState \<Rightarrow> Some ''maintenance_state_unverified''
      | HeldWorkers ws \<Rightarrow> if nd_id n \<in> set ws then Some ''maintenance_hold_active'' else None)"

definition busy_node :: "recovery_node \<Rightarrow> bool" where
  "busy_node n \<longleftrightarrow> nd_active n \<or> nd_queued n \<noteq> 0"

definition recent_operation :: "int \<Rightarrow> operation list \<Rightarrow> bool" where
  "recent_operation now ops \<longleftrightarrow> list_ex (\<lambda>op. now - ro_created op < 30 * 60000) ops"

definition removal_exact :: "int \<Rightarrow> removal_report \<Rightarrow> bool" where
  "removal_exact now r \<longleftrightarrow> now - rp_checked r \<le> 60000 \<and> rp_checked r \<le> now + 10000 \<and>
     rp_status r \<in> {''exact_removal_observed'', ''exact_stop_request_observed''} \<and> rp_complete r \<and> rp_omitted r = 0 \<and>
     length (rp_observations r) = 1"

definition removal_identity :: "service_view \<Rightarrow> service_config \<Rightarrow> prior_identity \<Rightarrow> bool" where
  "removal_identity s c p \<longleftrightarrow> snd p \<noteq> None \<and> sv_version_1 s \<and> sv_machine s = Some (rc_machine c) \<and> snd p = sv_boot s \<and>
     id_profile (fst p) = rc_profile c \<and> Some (id_service_profile (fst p)) = rc_service_profile c \<and>
     sv_service_profile s = rc_service_profile c \<and> sv_loaded s = Some (Some False) \<and> sv_registration s = Some ''absent'' \<and>
     sv_active s = Some False \<and> sv_stopped s = Some False \<and> sv_listener s = Some False \<and> sv_pid s = Some 0 \<and> sv_instance s = Some []"

definition removal_caller_reason :: "bool \<Rightarrow> service_config \<Rightarrow> prior_identity \<Rightarrow> removal_report \<Rightarrow> string option" where
  "removal_caller_reason canary c p r =
     (let (t, caller) = hd (rp_observations r); by_hand = canary \<and> caller = ''launchctl'' in
      if rp_status r = ''exact_stop_request_observed'' \<and> \<not> by_hand then Some ''launchd_bootstrap_caller_not_enrolled''
      else if t < id_observed (fst p) \<or> \<not> (by_hand \<or> caller \<in> set (rc_callers c)) then Some ''launchd_bootstrap_caller_not_enrolled''
      else None)"

definition previous_operations :: "journal \<Rightarrow> string \<Rightarrow> string option \<Rightarrow> operation list" where
  "previous_operations j worker except = filter (\<lambda>op. ro_worker op = worker \<and> Some (ro_id op) \<noteq> except) (jo_operations j)"

definition bootstrap_reason ::
    "(hashed \<Rightarrow> string) \<Rightarrow> journal \<Rightarrow> knowledge \<Rightarrow> recovery_node \<Rightarrow> service_view \<Rightarrow> bool \<Rightarrow> string option \<Rightarrow> string option" where
  "bootstrap_reason digest j k n s canary op_id =
     (case config_of j k (nd_id n) of None \<Rightarrow> Some ''launchd_bootstrap_enrollment_unverified''
      | Some c \<Rightarrow>
          if \<not> bootstrap_enrolled s (Some c) then Some ''launchd_bootstrap_enrollment_unverified''
          else (case prior_identity_of digest j k (nd_id n) of None \<Rightarrow> Some ''launchd_bootstrap_identity_unverified''
            | Some p \<Rightarrow>
                if \<not> removal_identity s c p then Some ''launchd_bootstrap_identity_unverified''
                else if native_policy_reason s (Some c) \<noteq> None then native_policy_reason s (Some c)
                else if bootstrap_hold_reason k n \<noteq> None then bootstrap_hold_reason k n
                else if busy_node n then Some ''wait_for_admitted_work''
                else if canary \<and> \<not> nd_drained n then Some ''drain_before_canary''
                else if \<not> canary \<and> nd_drained n then Some ''operator_paused''
                else if nd_healthy n then Some ''worker_health_not_failed''
                else (case kn_removals k (nd_id n) of
                    Some (Some r) \<Rightarrow>
                      if \<not> removal_exact (kn_now k) r then Some ''launchd_bootstrap_removal_unverified''
                      else if removal_caller_reason canary c p r \<noteq> None then removal_caller_reason canary c p r
                      else let previous = previous_operations j (nd_id n) op_id in
                        if list_ex (\<lambda>op. ro_action op = BootstrapService \<and> ro_instance op = Some (id_instance (fst p))) previous
                        then Some ''removed_instance_already_attempted''
                        else if \<not> canary \<and> \<not> bootstrap_certified digest j n c then Some ''launchd_bootstrap_canary_required''
                        else if \<not> canary \<and> recent_operation (kn_now k) previous then Some ''recovery_cooldown''
                        else None
                  | _ \<Rightarrow> Some ''launchd_bootstrap_removal_unverified'')))"

section \<open>Why a recovery is not offered\<close>

definition fault_reasons :: "string list" where
  "fault_reasons = [''fatal_accelerator_error'', ''accelerator_checkpoint_failure'']"

text \<open>\<open>s.started_at > failedAt + 1000\<close>: a new invocation of the service started after the failure.\<close>

definition started_after :: "service_view \<Rightarrow> int \<Rightarrow> bool" where
  "started_after s failed \<longleftrightarrow> opt_test (\<lambda>t. failed + 1000 < t) (sv_started s)"

definition fatal_evidence :: "service_view \<Rightarrow> int \<Rightarrow> bool" where
  "fatal_evidence s failed \<longleftrightarrow> opt_test (\<lambda>f. fs_reason f = ''fatal_accelerator_error'' \<and> failed - 120000 \<le> fs_at f) (sv_fault s)"

definition failed_at :: "recovery_node \<Rightarrow> int option" where
  "failed_at n = (case nd_quarantine n of None \<Rightarrow> None | Some q \<Rightarrow> qm_at q)"

definition stopped_pending :: "knowledge \<Rightarrow> recovery_node \<Rightarrow> service_view \<Rightarrow> bool" where
  "stopped_pending k n s \<longleftrightarrow> \<not> opt_test (\<lambda>m. Some (sm_epoch m) = sv_stopped_epoch s \<and> 15000 \<le> kn_now k - sm_since m) (kn_stopped k (nd_id n))"

definition absent_registration_reason ::
    "(hashed \<Rightarrow> string) \<Rightarrow> journal \<Rightarrow> knowledge \<Rightarrow> recovery_node \<Rightarrow> service_view \<Rightarrow> service_config \<Rightarrow> bool \<Rightarrow> string option option" where
  "absent_registration_reason digest j k n s c canary =
     (if rc_adapter c = Launchd \<and> sv_version_1 s \<and> sv_machine s = Some (rc_machine c) \<and> sv_active s = Some False \<and>
         sv_stopped s = Some False \<and> sv_pid s = Some 0 \<and> sv_instance s = Some [] \<and>
         (rc_service_profile c = None \<or> sv_service_profile s = rc_service_profile c)
      then if sv_loaded s = Some (Some False) \<and> sv_registration s = Some ''absent''
           then Some (if rc_bootstrap_removed c then bootstrap_reason digest j k n s canary None else Some ''launchd_registration_absent'')
           else if sv_loaded s = Some None \<and> sv_registration s = Some ''gui_domain_unavailable'' then Some (Some ''launchd_gui_domain_unavailable'')
           else if sv_loaded s = Some None \<and> sv_registration s = Some ''unverified'' then Some (Some ''launchd_state_unverified'')
           else None
      else None)"

definition canary_reason :: "knowledge \<Rightarrow> recovery_node \<Rightarrow> service_view \<Rightarrow> service_config \<Rightarrow> string option" where
  "canary_reason k n s c =
     (if \<not> nd_drained n then Some ''drain_before_canary''
      else if view_valid s c then None
      else if view_stopped s c then
        (if nd_healthy n then Some ''worker_health_not_failed''
         else if stopped_pending k n s then Some ''stopped_service_confirmation_pending'' else None)
      else Some ''service_identity_or_profile_unverified'')"

definition handback_reason :: "journal \<Rightarrow> knowledge \<Rightarrow> recovery_node \<Rightarrow> service_view \<Rightarrow> candidate \<Rightarrow> string option" where
  "handback_reason j k n s ca =
     (if \<not> jo_handback j then Some ''profile_handback_disabled''
      else (case nd_quarantine n of None \<Rightarrow> Some ''profile_handback_requires_quarantine''
        | Some q \<Rightarrow>
            (case qm_at q of None \<Rightarrow> Some ''fault_time_unknown''
             | Some failed \<Rightarrow>
                 if \<not> started_after s failed \<and> (qm_reason q \<notin> set fault_reasons \<or> \<not> fatal_evidence s failed)
                 then Some ''current_fatal_evidence_required''
                 else if \<not> candidate_stable k (nd_id n) ca then Some ''profile_handback_confirmation_pending''
                 else let previous = previous_operations j (nd_id n) None in
                   if list_ex (\<lambda>o1. map_option ca_profile (ro_adopt o1) = Some (ca_profile ca) \<and> ro_instance o1 = Some (ca_instance ca)) previous
                   then Some ''profile_candidate_already_attempted''
                   else if recent_operation (kn_now k) previous then Some ''recovery_cooldown'' else None)))"

definition stopped_reason :: "journal \<Rightarrow> knowledge \<Rightarrow> recovery_node \<Rightarrow> service_view \<Rightarrow> string option" where
  "stopped_reason j k n s =
     (let previous = previous_operations j (nd_id n) None in
      if nd_healthy n then Some ''worker_health_not_failed''
      else if stopped_pending k n s then Some ''stopped_service_confirmation_pending''
      else if list_ex (\<lambda>o1. ro_stopped_epoch o1 = sv_stopped_epoch s) previous then Some ''stopped_epoch_already_attempted''
      else if recent_operation (kn_now k) previous then Some ''recovery_cooldown'' else None)"

definition restart_reason :: "journal \<Rightarrow> knowledge \<Rightarrow> recovery_node \<Rightarrow> service_view \<Rightarrow> string option" where
  "restart_reason j k n s =
     (case nd_quarantine n of None \<Rightarrow> Some ''no_supported_quarantine''
      | Some q \<Rightarrow>
          (case qm_at q of None \<Rightarrow> Some ''fault_time_unknown''
           | Some failed \<Rightarrow>
               let previous = previous_operations j (nd_id n) None; replaced = started_after s failed in
               if qm_reason q \<notin> set fault_reasons \<and> \<not> replaced then Some ''no_supported_quarantine''
               else if \<not> replaced \<and> \<not> fatal_evidence s failed then Some ''current_fatal_evidence_required''
               else if list_ex (\<lambda>o1. ro_instance o1 = sv_instance s) previous then Some ''instance_already_attempted''
               else if recent_operation (kn_now k) previous then Some ''recovery_cooldown'' else None))"

definition offer_reason ::
    "(hashed \<Rightarrow> string) \<Rightarrow> journal \<Rightarrow> knowledge \<Rightarrow> recovery_node \<Rightarrow> service_view \<Rightarrow> bool \<Rightarrow> bool \<Rightarrow> bool \<Rightarrow> string option" where
  "offer_reason digest j k n s canary ignore_ownership ignore_pause =
     (case config_of j k (nd_id n) of None \<Rightarrow> Some ''manual_recovery_required''
      | Some c \<Rightarrow>
          if \<not> bound_to n (Some c) then Some ''manual_recovery_required''
          else if kn_closed k \<or> kn_stopping k then Some ''gateway_stopping''
          else if \<not> opt_test (\<lambda>l. 0 < l) (nd_context n) then Some ''context_unverified''
          else if \<not> ignore_ownership \<and> (kn_task k \<or> list_ex (\<lambda>op. \<not> terminal (ro_state op)) (jo_operations j))
            then Some ''fleet_recovery_in_progress''
          else (case absent_registration_reason digest j k n s c canary of Some r \<Rightarrow> r
            | None \<Rightarrow>
                let candidate = profile_candidate s (Some c) in
                if \<not> view_valid s c \<and> \<not> view_stopped s c \<and> candidate = None
                then Some (if sv_stopped s = Some True \<and> \<not> rc_start_stopped c then ''stopped_service_start_not_enrolled''
                           else ''service_identity_or_profile_unverified'')
                else if native_policy_reason s (Some c) \<noteq> None then native_policy_reason s (Some c)
                else if candidate \<noteq> None \<and> busy_node n then Some ''profile_handback_wait_for_admitted_work''
                else if busy_node n then Some ''wait_for_admitted_work''
                else if canary then canary_reason k n s c
                else if nd_drained n \<and> \<not> ignore_pause then Some ''operator_paused''
                else (case candidate of Some ca \<Rightarrow> handback_reason j k n s ca
                  | None \<Rightarrow> if view_stopped s c then stopped_reason j k n s else restart_reason j k n s)))"

definition offer_evidence :: "(hashed \<Rightarrow> string) \<Rightarrow> journal \<Rightarrow> knowledge \<Rightarrow> recovery_node \<Rightarrow> service_view \<Rightarrow> service_config \<Rightarrow> string" where
  "offer_evidence digest j k n s c =
     digest (if rc_bootstrap_removed c \<and> sv_registration s = Some ''absent''
       then HBootstrapOffer (nd_id n) (prior_identity_of digest j k (nd_id n)) c
              (case kn_removals k (nd_id n) of Some r \<Rightarrow> r | None \<Rightarrow> None)
       else (case profile_candidate s (Some c) of
           Some ca \<Rightarrow> HAdoptOffer (nd_id n) (nd_quarantine n) (ca_instance ca) (sv_machine s) (rc_profile c) (ca_profile ca) (ca_service_profile ca)
         | None \<Rightarrow> if view_valid s c then HRestartOffer (nd_id n) (nd_quarantine n) (sv_instance s) (sv_machine s) (sv_profile s)
                   else HStartOffer (nd_id n) (nd_quarantine n) (sv_stopped_epoch s) (sv_machine s) (sv_service_profile s)))"

section \<open>Keeping what an inspection shows\<close>

definition adapter_reasons :: "string list" where
  "adapter_reasons = [''adapter_timeout'', ''adapter_output_limit'', ''adapter_spawn_failed'', ''adapter_dns_failure'',
     ''adapter_host_key_failure'', ''adapter_auth_failure'', ''adapter_connect_timeout'', ''adapter_connection_refused'',
     ''adapter_route_unreachable'', ''adapter_connection_reset'', ''adapter_unreachable'', ''adapter_check_failed'',
     ''adapter_local_unavailable'', ''adapter_local_identity_unverified'', ''adapter_local_interpreter_missing'']"

definition identity_seen :: "(hashed \<Rightarrow> string) \<Rightarrow> service_config \<Rightarrow> service_view \<Rightarrow> int \<Rightarrow> identity option" where
  "identity_seen digest c s t =
     (case (sv_instance s, sv_machine s, sv_pid s, sv_profile s, sv_service_profile s, sv_started s) of
        (Some i, Some m, Some p, Some pr, Some sp, Some st) \<Rightarrow>
          let r = \<lparr>id_enrollment = digest (HConfig c), id_instance = i, id_machine = m, id_observed = t, id_pid = p, id_profile = pr,
                id_service_profile = sp, id_started = st\<rparr> in if valid_identity r then Some r else None
      | _ \<Rightarrow> None)"

definition same_identity :: "identity \<Rightarrow> identity \<Rightarrow> bool" where
  "same_identity a b \<longleftrightarrow> a\<lparr>id_observed := 0\<rparr> = b\<lparr>id_observed := 0\<rparr>"

definition remember_identity :: "(hashed \<Rightarrow> string) \<Rightarrow> knowledge \<Rightarrow> string \<Rightarrow> service_view \<Rightarrow> int \<Rightarrow> journal \<Rightarrow> journal" where
  "remember_identity digest k i s t j =
     (case config_of j k i of None \<Rightarrow> j
      | Some c \<Rightarrow>
          if rc_adapter c \<noteq> Launchd \<or> \<not> view_valid s c \<or> sv_fault s \<noteq> None then j
          else (case identity_seen digest c s t of None \<Rightarrow> j
            | Some r \<Rightarrow>
                let boot = (if opt_test boot_text (sv_boot s) then sv_boot s else None);
                    same = (case prior_identity_of digest j k i of None \<Rightarrow> False
                      | Some p \<Rightarrow> same_identity (fst p) r \<and> (boot = None \<or> snd p = boot))
                in if same then j
                   else j\<lparr>jo_identities := (jo_identities j)(i \<mapsto> r),
                     jo_boots := (jo_boots j)(i := map_option (\<lambda>b. (digest (HIdentity r), b)) boot)\<rparr>))"

definition count_handback :: "int \<Rightarrow> candidate \<Rightarrow> handback_mark option \<Rightarrow> handback_mark" where
  "count_handback t ca prior =
     (case prior of Some m \<Rightarrow>
        if hm_candidate m = ca then m\<lparr>hm_last := t, hm_count := (if hm_last m = t then hm_count m else hm_count m + 1)\<rparr>
        else \<lparr>hm_candidate = ca, hm_first = t, hm_last = t, hm_count = 1\<rparr>
      | None \<Rightarrow> \<lparr>hm_candidate = ca, hm_first = t, hm_last = t, hm_count = 1\<rparr>)"

definition observe_failure :: "string \<Rightarrow> string \<Rightarrow> int \<Rightarrow> knowledge \<Rightarrow> knowledge" where
  "observe_failure i message t k = k\<lparr>kn_stopped := (kn_stopped k)(i := None), kn_observed := (kn_observed k)
     (i \<mapsto> (t, Inl (if message \<in> set adapter_reasons then message else ''adapter_check_failed'')))\<rparr>"

text \<open>After a good inspection; \<open>removal\<close> is what \<open>inspectRemoval\<close> left behind.\<close>

definition observe_view ::
    "string \<Rightarrow> service_view \<Rightarrow> service_config option \<Rightarrow> int \<Rightarrow> removal_report option option \<Rightarrow> knowledge \<Rightarrow> knowledge" where
  "observe_view i s c t removal k = k\<lparr>kn_observed := (kn_observed k)(i \<mapsto> (t, Inr s)), kn_removals := (kn_removals k)(i := removal),
     kn_handback := (kn_handback k)(i := map_option (\<lambda>ca. count_handback t ca (kn_handback k i)) (profile_candidate s c)),
     kn_stopped := (kn_stopped k)(i :=
       (if opt_test (view_stopped s) c
        then (case kn_stopped k i of
            Some m \<Rightarrow> Some (if Some (sm_epoch m) = sv_stopped_epoch s then m else \<lparr>sm_epoch = the (sv_stopped_epoch s), sm_since = t\<rparr>)
          | None \<Rightarrow> Some \<lparr>sm_epoch = the (sv_stopped_epoch s), sm_since = t\<rparr>)
        else None))\<rparr>"

definition inspect_worker ::
    "(hashed \<Rightarrow> string) \<Rightarrow> string \<Rightarrow> int \<Rightarrow> string + service_view \<Rightarrow> removal_report option option \<Rightarrow> journal \<times> knowledge \<Rightarrow> journal \<times> knowledge" where
  "inspect_worker digest i t answer removal jk =
     (case answer of Inl message \<Rightarrow> (fst jk, observe_failure i message t (snd jk))
      | Inr s \<Rightarrow> (remember_identity digest (snd jk) i s t (fst jk), observe_view i s (config_of (fst jk) (snd jk) i) t removal (snd jk)))"

end
