(* ===== verification/Recovery_Execution.thy ===== *)
theory Recovery_Execution
  imports Recovery_Policy
begin

text \<open>
  How \<open>ds4-gateway/recovery.mjs\<close> carries a recovery out: a request becomes an operation of the journal, its
  execution inspects the service, writes its intention, issues one command, waits for a new invocation,
  has it verified and hands the worker back or leaves it paused. The code awaits between these; a step here
  is what runs between two awaits, and anything else may happen in between. Each command is logged with
  the operation as it was saved when the command was sent, and each verification with the inspections
  around it; the code keeps no such logs.
\<close>

section \<open>State\<close>

datatype recovery_phase =
    FirstInspection
  | CommandIssued
  | AwaitReplacement bool int
  | AwaitProof service_view
  | AwaitFinal service_view proof_record

record task =
  tk_op :: string
  tk_reconcile :: bool
  tk_config :: service_config
  tk_enrolled :: service_config
  tk_before :: service_view
  tk_phase :: recovery_phase

record issued_command =
  ic_op :: operation
  ic_instance :: "string option"
  ic_epoch :: "string option"
  ic_automatic :: bool
  ic_busy :: bool

text \<open>What an execution that verified an operation had seen: at first, before the proof and after it.\<close>

record recovery_evidence =
  re_op :: string
  re_config :: service_config
  re_before :: service_view
  re_after :: service_view
  re_final :: service_view
  re_proof :: proof_record

record recovery_system =
  ry_journal :: journal
  ry_known :: knowledge
  ry_task :: "task option"
  ry_commands :: "issued_command list"
  ry_proofs :: "recovery_evidence list"

definition current_op :: "string \<Rightarrow> journal \<Rightarrow> operation option" where
  "current_op i j = List.find (\<lambda>op. ro_id op = i) (jo_operations j)"

definition update_op :: "string \<Rightarrow> (operation \<Rightarrow> operation) \<Rightarrow> int \<Rightarrow> journal \<Rightarrow> journal" where
  "update_op i f now j = j\<lparr>jo_operations := map (\<lambda>op. if ro_id op = i then (f op)\<lparr>ro_updated := now\<rparr> else op) (jo_operations j)\<rparr>"

definition with_journal :: "(journal \<Rightarrow> journal) \<Rightarrow> recovery_system \<Rightarrow> recovery_system" where
  "with_journal f y = y\<lparr>ry_journal := f (ry_journal y)\<rparr>"

definition know :: "recovery_system \<Rightarrow> knowledge" where
  "know y = (ry_known y)\<lparr>kn_task := (ry_task y \<noteq> None)\<rparr>"

definition set_node :: "string \<Rightarrow> (recovery_node \<Rightarrow> recovery_node) \<Rightarrow> recovery_system \<Rightarrow> recovery_system" where
  "set_node i f y = y\<lparr>ry_known := (ry_known y)\<lparr>kn_nodes := map (\<lambda>n. if nd_id n = i then f n else n) (kn_nodes (ry_known y))\<rparr>\<rparr>"

definition mark_recovering :: "string \<Rightarrow> recovery_system \<Rightarrow> recovery_system" where
  "mark_recovering i = set_node i (\<lambda>n. n\<lparr>nd_recovering := True, nd_healthy := False\<rparr>)"

definition set_automatic :: "bool \<Rightarrow> recovery_system \<Rightarrow> recovery_system" where
  "set_automatic b = with_journal (\<lambda>j. j\<lparr>jo_automatic := b\<rparr>)"

definition set_handback :: "bool \<Rightarrow> recovery_system \<Rightarrow> recovery_system" where
  "set_handback b = with_journal (\<lambda>j. j\<lparr>jo_handback := b\<rparr>)"

section \<open>How an execution ends\<close>

definition end_task :: "string \<Rightarrow> string \<Rightarrow> recovery_system \<Rightarrow> recovery_system" where
  "end_task i worker y =
     (let recovered = (map_option ro_state (current_op i (ry_journal y)) = Some Recovered)
      in set_node worker (\<lambda>n. n\<lparr>nd_recovering := False, nd_healthy := (recovered \<and> nd_healthy n)\<rparr>) (y\<lparr>ry_task := None\<rparr>))"

definition failed_state :: "bool \<Rightarrow> operation \<Rightarrow> op_state" where
  "failed_state shut op =
     (let issued = ro_restart_issued op \<or> ro_issued op in
      if shut \<and> issued then Reconciling
      else if issued \<and> ro_new_instance op = None then ReconciliationNeeded
      else Failed)"

definition lower_word :: "string \<Rightarrow> bool" where
  "lower_word s \<longleftrightarrow> s \<noteq> [] \<and> list_all (\<lambda>c. c \<in> set ''abcdefghijklmnopqrstuvwxyz_'') s"

definition fail_task :: "string \<Rightarrow> operation \<Rightarrow> recovery_system \<Rightarrow> recovery_system" where
  "fail_task message op y =
     (let code = (if lower_word message then message else ''recovery_verification_failed'');
          shut = kn_closed (ry_known y)
      in end_task (ro_id op) (ro_worker op) (with_journal
           (update_op (ro_id op) (\<lambda>o1. o1\<lparr>ro_state := failed_state shut op, ro_error := Some code\<rparr>) (kn_now (ry_known y))) y))"

section \<open>Starting an execution\<close>

definition exec_config :: "journal \<Rightarrow> knowledge \<Rightarrow> operation \<Rightarrow> service_config option" where
  "exec_config j k op =
     (case (config_of j k (ro_worker op), ro_adopt op) of
        (Some c, Some ca) \<Rightarrow> Some (case ca_service_profile ca of
            Some sp \<Rightarrow> c\<lparr>rc_profile := ca_profile ca, rc_service_profile := Some sp\<rparr>
          | None \<Rightarrow> c\<lparr>rc_profile := ca_profile ca\<rparr>)
      | (c, _) \<Rightarrow> c)"

definition binding_ok ::
    "(hashed \<Rightarrow> string) \<Rightarrow> operation \<Rightarrow> service_config option \<Rightarrow> service_config option \<Rightarrow> recovery_node option \<Rightarrow> bool" where
  "binding_ok digest op enrolled c n \<longleftrightarrow>
     (case (n, c, enrolled) of
        (Some n, Some c, Some e) \<Rightarrow> bound_to n (Some e) \<and> digest (binding_print n) = ro_binding op \<and>
          ro_profile op = Some (rc_profile c) \<and> ro_machine op = Some (rc_machine c) \<and>
          (ro_adopt op = None \<or> ro_configured op = Some (rc_profile e))
      | _ \<Rightarrow> False)"

definition exec_start :: "(hashed \<Rightarrow> string) \<Rightarrow> operation \<Rightarrow> bool \<Rightarrow> recovery_system \<Rightarrow> recovery_system" where
  "exec_start digest op reconcile y =
     (let j = ry_journal y; k = know y; enrolled = kn_configs k (ro_worker op); c = exec_config j k op;
          n = find_recovery_node k (ro_worker op)
      in if \<not> binding_ok digest op enrolled c n then fail_task ''recovery_binding_changed'' op y
         else if ro_action op = BootstrapService \<and>
                 (\<not> bootstrap_op_valid op \<or> ro_enrollment op \<noteq> Some (digest (HConfig (the c))))
         then fail_task ''bootstrap_enrollment_changed'' op y
         else y\<lparr>ry_task := Some \<lparr>tk_op = ro_id op, tk_reconcile = reconcile, tk_config = the c, tk_enrolled = the enrolled,
                tk_before = no_view, tk_phase = FirstInspection\<rparr>\<rparr>)"

section \<open>Vetoes and checks\<close>

definition bootstrap_veto :: "(hashed \<Rightarrow> string) \<Rightarrow> journal \<Rightarrow> knowledge \<Rightarrow> operation \<Rightarrow> string option" where
  "bootstrap_veto digest j k op =
     (case find_recovery_node k (ro_worker op) of None \<Rightarrow> Some ''controller_stopping''
      | Some n \<Rightarrow>
          if nd_removed n \<or> kn_stopping k \<or> kn_closed k then Some ''controller_stopping''
          else if map_option (\<lambda>c. digest (HConfig c)) (config_of j k (ro_worker op)) \<noteq> ro_enrollment op then Some ''bootstrap_enrollment_changed''
          else if nd_context n \<noteq> Some (ro_context op) then Some ''recovery_context_changed''
          else if bootstrap_hold_reason k n \<noteq> None then bootstrap_hold_reason k n
          else if busy_node n then Some ''worker_has_admitted_work''
          else if ro_override op \<or> nd_drained n \<and> \<not> ro_was_paused op \<or> ro_actor op \<noteq> Operator \<and> \<not> jo_automatic j
            then Some ''operator_cancelled_before_bootstrap''
          else None)"

definition live_bootstrap :: "service_view \<Rightarrow> service_config \<Rightarrow> operation \<Rightarrow> bool" where
  "live_bootstrap s c op \<longleftrightarrow> view_valid s c \<and> bootstrap_enrolled s (Some c) \<and> sv_boot s = Option.bind (ro_prior op) snd \<and>
     sv_service_profile s = ro_service_profile op"

definition op_failed_at :: "operation \<Rightarrow> int option" where
  "op_failed_at op = (case ro_quarantine op of None \<Rightarrow> None | Some q \<Rightarrow> qm_at q)"

definition active_before :: "service_view \<Rightarrow> service_config \<Rightarrow> operation \<Rightarrow> bool" where
  "active_before s c op = (if ro_action op = BootstrapService then live_bootstrap s c op else view_valid s c)"

definition stopped_before :: "service_view \<Rightarrow> service_config \<Rightarrow> operation \<Rightarrow> bool" where
  "stopped_before s c op \<longleftrightarrow> view_stopped s c \<and> sv_stopped_epoch s = ro_stopped_epoch op"

definition replaced_before :: "service_view \<Rightarrow> service_config \<Rightarrow> operation \<Rightarrow> bool" where
  "replaced_before s c op \<longleftrightarrow> active_before s c op \<and>
     (ro_action op = StartService \<or> ro_action op = AdoptVerify \<or> sv_instance s \<noteq> ro_instance op \<or>
      \<not> ro_canary op \<and> opt_test (started_after s) (op_failed_at op))"

definition cancelled :: "journal \<Rightarrow> operation \<Rightarrow> bool" where
  "cancelled j op \<longleftrightarrow> ro_override op \<or> ro_actor op \<noteq> Operator \<and> \<not> jo_automatic j"

text \<open>Why the command may not be issued now.\<close>

definition command_veto :: "(hashed \<Rightarrow> string) \<Rightarrow> journal \<Rightarrow> knowledge \<Rightarrow> service_view \<Rightarrow> service_config \<Rightarrow> operation \<Rightarrow> string option" where
  "command_veto digest j k s c op =
     (let cancel = (if cancelled j op
          then Some (if ro_action op = StartService then ''operator_cancelled_before_start'' else ''operator_cancelled_before_restart'') else None)
      in if ro_action op = BootstrapService then
           (if digest (HPrior (prior_identity_of digest j k (ro_worker op))) \<noteq> digest (HPrior (ro_prior op)) then Some ''bootstrap_prior_identity_changed''
            else (case find_recovery_node k (ro_worker op) of None \<Rightarrow> Some ''controller_stopping''
              | Some n \<Rightarrow> (case bootstrap_reason digest j k n s (ro_canary op) (Some (ro_id op)) of Some e \<Rightarrow> Some e | None \<Rightarrow> cancel)))
         else if ro_action op = StartService then
           (if \<not> stopped_before s c op \<or> sv_service_profile s \<noteq> ro_service_profile op then Some ''stopped_service_identity_changed'' else cancel)
         else if sv_instance s \<noteq> ro_instance op \<or>
             \<not> ro_canary op \<and> \<not> opt_test (\<lambda>f. case op_failed_at op of None \<Rightarrow> True | Some failed \<Rightarrow> failed - 120000 \<le> fs_at f) (sv_fault s)
           then Some ''current_fatal_evidence_required''
         else cancel)"

definition first_error ::
    "(hashed \<Rightarrow> string) \<Rightarrow> journal \<Rightarrow> knowledge \<Rightarrow> service_view \<Rightarrow> service_config \<Rightarrow> bool \<Rightarrow> operation \<Rightarrow> string option" where
  "first_error digest j k s c reconcile op =
     (let active = active_before s c op; stopped = stopped_before s c op in
      if \<not> reconcile \<and> \<not> active \<and> \<not> (ro_action op = StartService \<and> stopped) \<and> ro_action op \<noteq> BootstrapService
        then Some ''service_identity_or_profile_unverified''
      else if (active \<or> stopped) \<and> native_policy_reason s (Some c) \<noteq> None then native_policy_reason s (Some c)
      else if ro_action op = BootstrapService \<and> bootstrap_veto digest j k op \<noteq> None then bootstrap_veto digest j k op
      else if opt_test busy_node (find_recovery_node k (ro_worker op)) then Some ''worker_has_admitted_work''
      else if kn_closed k then Some ''controller_stopping''
      else if \<not> reconcile \<and> \<not> replaced_before s c op then command_veto digest j k s c op
      else None)"

section \<open>The steps of an execution\<close>

definition inspect_in :: "(hashed \<Rightarrow> string) \<Rightarrow> string \<Rightarrow> string + service_view \<Rightarrow> removal_report option option \<Rightarrow> recovery_system \<Rightarrow> recovery_system" where
  "inspect_in digest worker answer removal y =
     (let jk = inspect_worker digest worker (kn_now (ry_known y)) answer removal (ry_journal y, know y)
      in y\<lparr>ry_journal := fst jk, ry_known := snd jk\<rparr>)"

definition answer_view :: "string + service_view \<Rightarrow> service_view" where
  "answer_view answer = (case answer of Inl _ \<Rightarrow> no_view | Inr s \<Rightarrow> s)"

definition to_phase :: "recovery_phase \<Rightarrow> task \<Rightarrow> recovery_system \<Rightarrow> recovery_system" where
  "to_phase p t y = y\<lparr>ry_task := Some (t\<lparr>tk_phase := p\<rparr>)\<rparr>"

definition issuing_state :: "service_action \<Rightarrow> op_state" where
  "issuing_state a = (case a of BootstrapService \<Rightarrow> Bootstrapping | StartService \<Rightarrow> Starting | _ \<Rightarrow> Restarting)"

definition intend :: "operation \<Rightarrow> operation" where
  "intend op = op\<lparr>ro_state := issuing_state (ro_action op), ro_issued := True,
     ro_restart_issued := (ro_restart_issued op \<or> ro_action op \<notin> {StartService, BootstrapService})\<rparr>"

definition replacement_deadline :: "recovery_system \<Rightarrow> int" where
  "replacement_deadline y = kn_now (ry_known y) + 15 * 60000"

definition issue_command :: "(hashed \<Rightarrow> string) \<Rightarrow> task \<Rightarrow> operation \<Rightarrow> service_view \<Rightarrow> recovery_system \<Rightarrow> recovery_system" where
  "issue_command digest t op s y =
     (let y1 = with_journal (update_op (ro_id op) intend (kn_now (ry_known y))) y; saved = (intend op)\<lparr>ro_updated := kn_now (ry_known y)\<rparr>;
          veto = (if ro_action op = BootstrapService then bootstrap_veto digest (ry_journal y1) (know y1) saved else None)
      in case veto of Some e \<Rightarrow> fail_task e saved y1
         | None \<Rightarrow> to_phase CommandIssued t (y1\<lparr>ry_commands := ry_commands y1 @ [\<lparr>ic_op = saved, ic_instance = sv_instance s,
             ic_epoch = sv_stopped_epoch s, ic_automatic = jo_automatic (ry_journal y1),
             ic_busy = opt_test busy_node (find_recovery_node (ry_known y1) (ro_worker op))\<rparr>]\<rparr>))"

definition exec_first ::
    "(hashed \<Rightarrow> string) \<Rightarrow> task \<Rightarrow> operation \<Rightarrow> string + service_view \<Rightarrow> removal_report option option \<Rightarrow> recovery_system \<Rightarrow> recovery_system" where
  "exec_first digest t0 op answer removal y0 =
     (let y = inspect_in digest (ro_worker op) answer removal y0; s = answer_view answer; c = tk_config t0; t = t0\<lparr>tk_before := s\<rparr> in
      case first_error digest (ry_journal y) (know y) s c (tk_reconcile t) op of Some e \<Rightarrow> fail_task e op y
      | None \<Rightarrow>
          if replaced_before s c op then to_phase (AwaitReplacement True (replacement_deadline y)) t y
          else if tk_reconcile t
          then to_phase (AwaitReplacement False (replacement_deadline y)) t
                 (with_journal (update_op (ro_id op) (\<lambda>o1. o1\<lparr>ro_state := Reconciling\<rparr>) (kn_now (ry_known y))) y)
          else issue_command digest t op s y)"

text \<open>The acknowledgement of a command: \<open>None\<close> when it was lost, otherwise whether a bootstrap was confirmed.\<close>

definition exec_acknowledged :: "task \<Rightarrow> operation \<Rightarrow> bool option \<Rightarrow> recovery_system \<Rightarrow> recovery_system" where
  "exec_acknowledged t op ack y =
     to_phase (AwaitReplacement False (replacement_deadline y)) t (with_journal
       (case ack of None \<Rightarrow> update_op (ro_id op) (\<lambda>o1. o1\<lparr>ro_state := Reconciling\<rparr>) (kn_now (ry_known y))
        | Some b \<Rightarrow> if ro_action op = BootstrapService
            then update_op (ro_id op) (\<lambda>o1. o1\<lparr>ro_acknowledged := Some b\<rparr>) (kn_now (ry_known y)) else id) y)"

definition replacement_seen :: "task \<Rightarrow> operation \<Rightarrow> bool \<Rightarrow> service_view \<Rightarrow> bool" where
  "replacement_seen t op replaced s \<longleftrightarrow> active_before s (tk_config t) op \<and>
     (ro_action op = StartService \<or> sv_instance s \<noteq> ro_instance op \<or> replaced)"

definition late_reason :: "service_action \<Rightarrow> string" where
  "late_reason a = (case a of BootstrapService \<Rightarrow> ''bootstrap_not_verified'' | StartService \<Rightarrow> ''start_not_verified''
     | _ \<Rightarrow> ''restart_not_verified'')"

definition replacement_error :: "(hashed \<Rightarrow> string) \<Rightarrow> journal \<Rightarrow> knowledge \<Rightarrow> task \<Rightarrow> operation \<Rightarrow> service_view \<Rightarrow> string option" where
  "replacement_error digest j k t op s =
     (if kn_closed k then Some ''controller_stopping''
      else if \<not> view_valid s (tk_config t) \<or> sv_fault s \<noteq> None then Some ''replacement_identity_or_health_failed''
      else if native_policy_reason s (Some (tk_config t)) \<noteq> None then native_policy_reason s (Some (tk_config t))
      else if ro_action op = BootstrapService then bootstrap_veto digest j k op
      else None)"

definition exec_wait ::
    "(hashed \<Rightarrow> string) \<Rightarrow> task \<Rightarrow> operation \<Rightarrow> bool \<Rightarrow> int \<Rightarrow> string + service_view \<Rightarrow> removal_report option option \<Rightarrow> recovery_system \<Rightarrow> recovery_system" where
  "exec_wait digest t op replaced deadline answer removal y0 =
     (let y = inspect_in digest (ro_worker op) answer removal y0; s = answer_view answer in
      if replacement_seen t op replaced s then
        (case replacement_error digest (ry_journal y) (know y) t op s of Some e \<Rightarrow> fail_task e op y
         | None \<Rightarrow> to_phase (AwaitProof s) t (with_journal
             (update_op (ro_id op) (\<lambda>o1. o1\<lparr>ro_state := Verifying, ro_new_instance := sv_instance s\<rparr>) (kn_now (ry_known y))) y))
      else if deadline \<le> kn_now (ry_known y) then fail_task (late_reason (ro_action op)) op y
      else if kn_closed (ry_known y) then fail_task ''controller_stopping'' op y
      else y)"

definition exec_proof :: "task \<Rightarrow> operation \<Rightarrow> service_view \<Rightarrow> string + proof_record \<Rightarrow> recovery_system \<Rightarrow> recovery_system" where
  "exec_proof t op after result y =
     (case result of Inl message \<Rightarrow> fail_task message op y | Inr p \<Rightarrow> to_phase (AwaitFinal after p) t y)"

definition final_error :: "(hashed \<Rightarrow> string) \<Rightarrow> journal \<Rightarrow> knowledge \<Rightarrow> task \<Rightarrow> operation \<Rightarrow> service_view \<Rightarrow> proof_record \<Rightarrow> service_view \<Rightarrow> string option" where
  "final_error digest j k t op after p s =
     (if \<not> view_valid s (tk_config t) \<or> sv_instance s \<noteq> sv_instance after \<or> sv_fault s \<noteq> None then Some ''identity_changed_during_verification''
      else if native_policy_reason s (Some (tk_config t)) \<noteq> None then native_policy_reason s (Some (tk_config t))
      else if ro_action op = BootstrapService \<and>
          (\<not> live_bootstrap s (tk_config t) op \<or> \<not> bootstrap_proof_valid (Some p) (ro_context op))
        then Some ''bootstrap_generation_or_identity_unverified''
      else if ro_action op = BootstrapService then bootstrap_veto digest j k op
      else None)"

definition left_paused :: "knowledge \<Rightarrow> operation \<Rightarrow> bool" where
  "left_paused k op \<longleftrightarrow> ro_override op \<or> ro_was_paused op \<or> kn_stopping k \<or>
     (case find_recovery_node k (ro_worker op) of None \<Rightarrow> True | Some n \<Rightarrow> nd_removed n \<or> nd_drained n)"

definition finish_op :: "op_state \<Rightarrow> proof_record \<Rightarrow> operation \<Rightarrow> operation" where
  "finish_op st p op = op\<lparr>ro_state := st, ro_proof := Some p, ro_adopted := (ro_adopt op \<noteq> None)\<rparr>"

definition adopt_in :: "task \<Rightarrow> operation \<Rightarrow> int \<Rightarrow> journal \<Rightarrow> journal" where
  "adopt_in t op now j =
     (case ro_adopt op of None \<Rightarrow> j
      | Some ca \<Rightarrow> j\<lparr>jo_adopted := (jo_adopted j)(ro_worker op \<mapsto> \<lparr>ad_config_profile = rc_profile (tk_enrolled t), ad_machine = rc_machine (tk_enrolled t),
          ad_profile = ca_profile ca, ad_service_profile = ca_service_profile ca, ad_at = now, ad_operation = ro_id op\<rparr>)\<rparr>)"

definition may_reinstate :: "knowledge \<Rightarrow> operation \<Rightarrow> bool" where
  "may_reinstate k op \<longleftrightarrow> \<not> kn_stopping k \<and> opt_test (\<lambda>n. \<not> nd_removed n \<and> \<not> nd_drained n \<and> \<not> busy_node n \<and> nd_quarantine n = ro_quarantine op)
     (find_recovery_node k (ro_worker op))"

definition note_proof :: "task \<Rightarrow> operation \<Rightarrow> service_view \<Rightarrow> service_view \<Rightarrow> proof_record \<Rightarrow> recovery_system \<Rightarrow> recovery_system" where
  "note_proof t op after final p y = y\<lparr>ry_proofs := ry_proofs y @ [\<lparr>re_op = ro_id op, re_config = tk_config t, re_before = tk_before t,
     re_after = after, re_final = final, re_proof = p\<rparr>]\<rparr>"

definition exec_final ::
    "(hashed \<Rightarrow> string) \<Rightarrow> task \<Rightarrow> operation \<Rightarrow> service_view \<Rightarrow> proof_record \<Rightarrow> string + service_view \<Rightarrow> removal_report option option \<Rightarrow>
     recovery_system \<Rightarrow> recovery_system" where
  "exec_final digest t op after p answer removal y0 =
     (let y = inspect_in digest (ro_worker op) answer removal y0; s = answer_view answer; now = kn_now (ry_known y) in
      case final_error digest (ry_journal y) (know y) t op after p s of Some e \<Rightarrow> fail_task e op y
      | None \<Rightarrow>
          if left_paused (ry_known y) op
          then end_task (ro_id op) (ro_worker op) (with_journal (\<lambda>j. adopt_in t op now (update_op (ro_id op) (finish_op VerifiedPaused p) now j)) (note_proof t op after s p y))
          else if \<not> may_reinstate (ry_known y) op then fail_task ''reinstatement_state_changed'' op y
          else end_task (ro_id op) (ro_worker op) (set_node (ro_worker op) (\<lambda>n. n\<lparr>nd_quarantine := None, nd_healthy := True\<rparr>)
                 (with_journal (\<lambda>j. adopt_in t op now (update_op (ro_id op) (finish_op Recovered p) now j)) (note_proof t op after s p y))))"

section \<open>Requests, pauses and restarts\<close>

datatype request_error =
    InvalidActionId | ActionIdConflict | AutomaticOff | CanaryIsOperatorOnly | RefreshInspection | NotOffered string | StaleEvidence | JournalFull
  | CannotRecheck

definition uuid_chars :: "string \<Rightarrow> bool" where
  "uuid_chars s \<longleftrightarrow> length s = 36 \<and> list_all (\<lambda>c. lower_hex c \<or> c = CHR ''-'') s"

definition chosen_action :: "recovery_node \<Rightarrow> service_view \<Rightarrow> service_config \<Rightarrow> service_action" where
  "chosen_action n s c =
     (if rc_bootstrap_removed c \<and> sv_registration s = Some ''absent'' then BootstrapService
      else if profile_candidate s (Some c) \<noteq> None
      then (if opt_test (started_after s) (failed_at n) then AdoptVerify else AdoptRestart)
      else if view_stopped s c then StartService else RestartService)"

definition new_operation ::
    "(hashed \<Rightarrow> string) \<Rightarrow> journal \<Rightarrow> knowledge \<Rightarrow> string \<Rightarrow> actor \<Rightarrow> string option \<Rightarrow> bool \<Rightarrow> recovery_node \<Rightarrow> service_view \<Rightarrow>
     service_config \<Rightarrow> operation" where
  "new_operation digest j k i actor evidence canary n s c =
     (let a = chosen_action n s c; prior = (if a = BootstrapService then prior_identity_of digest j k (nd_id n) else None);
          adopt = profile_candidate s (Some c); now = kn_now k
      in \<lparr>ro_id = i, ro_worker = nd_id n, ro_actor = actor, ro_evidence = evidence, ro_action = a, ro_state = Queued, ro_created = now,
          ro_updated = now,
          ro_instance = (case prior of Some p \<Rightarrow> Some (id_instance (fst p)) | None \<Rightarrow> sv_instance s),
          ro_stopped_epoch = (if a = StartService then sv_stopped_epoch s else None),
          ro_service_profile = (case prior of Some p \<Rightarrow> Some (id_service_profile (fst p))
            | None \<Rightarrow> if a = StartService then sv_service_profile s else None),
          ro_machine = sv_machine s,
          ro_profile = (case prior of Some p \<Rightarrow> Some (id_profile (fst p))
            | None \<Rightarrow> if a = StartService then Some (rc_profile c) else sv_profile s),
          ro_context = the (nd_context n), ro_canary = canary, ro_was_paused = nd_drained n, ro_quarantine = nd_quarantine n,
          ro_adopt = adopt, ro_configured = (if adopt = None then None else map_option rc_profile (kn_configs k (nd_id n))),
          ro_prior = prior, ro_enrollment = (if a = BootstrapService then Some (digest (HConfig c)) else None),
          ro_definition = (if a = BootstrapService then rc_definition c else None), ro_binding = digest (binding_print n),
          ro_override = False, ro_issued = False, ro_restart_issued = False, ro_acknowledged = None, ro_new_instance = None,
          ro_proof = None, ro_adopted = False, ro_error = None\<rparr>)"

definition recovery_request ::
    "(hashed \<Rightarrow> string) \<Rightarrow> string \<Rightarrow> string option \<Rightarrow> string \<Rightarrow> actor \<Rightarrow> bool \<Rightarrow> recovery_system \<Rightarrow>
     (request_error + operation) \<times> recovery_system" where
  "recovery_request digest worker evidence i actor canary y =
     (let j = ry_journal y; k = know y in
      if \<not> uuid_chars i then (Inl InvalidActionId, y)
      else case current_op i j of
        Some op \<Rightarrow> (if ro_worker op \<noteq> worker \<or> ro_evidence op \<noteq> evidence then Inl ActionIdConflict else Inr op, y)
      | None \<Rightarrow>
          if actor \<noteq> Operator \<and> \<not> jo_automatic j then (Inl AutomaticOff, y)
          else if canary \<and> actor \<noteq> Operator then (Inl CanaryIsOperatorOnly, y)
          else (case (find_recovery_node k worker, config_of j k worker) of
              (Some n, Some c) \<Rightarrow>
                let ob = kn_observed k worker; s = seen_view ob in
                if \<not> fresh_inspection ob (kn_now k) then (Inl RefreshInspection, y)
                else (case offer_reason digest j k n s canary False False of Some e \<Rightarrow> (Inl (NotOffered e), y)
                  | None \<Rightarrow>
                      if \<not> canary \<and> evidence \<noteq> Some (offer_evidence digest j k n s c) then (Inl StaleEvidence, y)
                      else if 10000 \<le> length (jo_operations j) then (Inl JournalFull, y)
                      else let op = new_operation digest j k i actor evidence canary n s c
                        in (Inr op, exec_start digest op False (mark_recovering worker
                              (with_journal (\<lambda>j. j\<lparr>jo_operations := jo_operations j @ [op]\<rparr>) y))))
            | (None, _) \<Rightarrow> (Inl RefreshInspection, y)
            | (_, None) \<Rightarrow> (if fresh_inspection (kn_observed k worker) (kn_now k)
                then (Inl (NotOffered ''manual_recovery_required''), y) else (Inl RefreshInspection, y))))"

definition operator_pause :: "string list \<Rightarrow> recovery_system \<Rightarrow> recovery_system" where
  "operator_pause workers y = with_journal (\<lambda>j. j\<lparr>jo_operations := map (\<lambda>op.
     if ro_worker op \<in> set workers \<and> \<not> terminal (ro_state op) then op\<lparr>ro_override := True, ro_updated := kn_now (ry_known y)\<rparr> else op)
     (jo_operations j)\<rparr>) y"

definition recovery_reconcile :: "(hashed \<Rightarrow> string) \<Rightarrow> string \<Rightarrow> recovery_system \<Rightarrow> (request_error + operation) \<times> recovery_system" where
  "recovery_reconcile digest i y =
     (case current_op i (ry_journal y) of None \<Rightarrow> (Inl CannotRecheck, y)
      | Some op \<Rightarrow>
          (case find_recovery_node (ry_known y) (ro_worker op) of None \<Rightarrow> (Inl CannotRecheck, y)
           | Some n \<Rightarrow>
               if ro_state op \<notin> {ReconciliationNeeded, Failed} \<or> \<not> (ro_restart_issued op \<or> ro_issued op) \<or> busy_node n \<or>
                  ry_task y \<noteq> None \<or> kn_closed (ry_known y) \<or> kn_stopping (ry_known y) then (Inl CannotRecheck, y)
               else let f = (\<lambda>o1. o1\<lparr>ro_state := Reconciling, ro_error := None\<rparr>); now = kn_now (ry_known y);
                      op1 = (f op)\<lparr>ro_updated := now\<rparr>
                 in (Inr op1, exec_start digest op1 True (mark_recovering (ro_worker op) (with_journal (update_op i f now) y)))))"

definition first_pending :: "journal \<Rightarrow> operation option" where
  "first_pending j = List.find (\<lambda>op. \<not> terminal (ro_state op)) (jo_operations j)"

text \<open>The monitor picks up what a stopped controller left unfinished.\<close>

definition tick_pending :: "(hashed \<Rightarrow> string) \<Rightarrow> recovery_system \<Rightarrow> recovery_system" where
  "tick_pending digest y =
     (if ry_task y \<noteq> None \<or> kn_closed (ry_known y) \<or> kn_stopping (ry_known y) then y
      else (case first_pending (ry_journal y) of None \<Rightarrow> y | Some op \<Rightarrow> exec_start digest op True y))"

text \<open>The offer the monitor takes up by itself.\<close>

definition offered :: "(hashed \<Rightarrow> string) \<Rightarrow> recovery_system \<Rightarrow> recovery_node \<Rightarrow> string option" where
  "offered digest y n =
     (let k = know y; ob = kn_observed k (nd_id n); s = seen_view ob in
      case config_of (ry_journal y) k (nd_id n) of None \<Rightarrow> None
      | Some c \<Rightarrow>
          if \<not> fresh_inspection ob (kn_now k) \<or> (case ob of Some (_, Inl _) \<Rightarrow> True | _ \<Rightarrow> False) \<or>
             offer_reason digest (ry_journal y) k n s False False False \<noteq> None
          then None else Some (offer_evidence digest (ry_journal y) k n s c))"

definition handback_offer :: "(hashed \<Rightarrow> string) \<Rightarrow> recovery_system \<Rightarrow> recovery_node \<Rightarrow> bool \<Rightarrow> string + string" where
  "handback_offer digest y n ignore_pause =
     (let j = ry_journal y; k = know y; ob = kn_observed k (nd_id n); s = seen_view ob in
      if \<not> jo_automatic j then Inl ''automatic_recovery_off''
      else if \<not> fresh_inspection ob (kn_now k) then Inl ''service_inspection_pending''
      else (case config_of j k (nd_id n) of None \<Rightarrow> Inl ''no_profile_handback_candidate''
        | Some c \<Rightarrow>
            if profile_candidate s (Some c) = None then Inl ''no_profile_handback_candidate''
            else (case offer_reason digest j k n s False False ignore_pause of Some e \<Rightarrow> Inl e
              | None \<Rightarrow> Inr (offer_evidence digest j k n s c))))"

text \<open>What a saved journal must look like for a new process to start on it.\<close>

definition adoption_op_valid :: "operation \<Rightarrow> bool" where
  "adoption_op_valid op \<longleftrightarrow>
     (if ro_adopt op = None \<and> ro_configured op = None \<and> ro_action op \<notin> {AdoptRestart, AdoptVerify} then True
      else ro_action op \<in> {AdoptRestart, AdoptVerify} \<and> opt_test (\<lambda>ca. digest_text (ca_profile ca) \<and>
          (ca_service_profile ca = None \<or> opt_test digest_text (ca_service_profile ca)) \<and> ro_profile op = Some (ca_profile ca)) (ro_adopt op) \<and>
        opt_test digest_text (ro_configured op) \<and> opt_test digest_text (ro_machine op))"

definition journal_accepted :: "journal \<Rightarrow> bool" where
  "journal_accepted j \<longleftrightarrow>
     list_all (\<lambda>op. uuid_chars (ro_id op) \<and> adoption_op_valid op \<and> bootstrap_op_valid op) (jo_operations j)"

text \<open>A new process knows the journal and nothing else; workers of unfinished operations start unavailable.\<close>

definition restart_controller :: "knowledge \<Rightarrow> recovery_system \<Rightarrow> recovery_system" where
  "restart_controller k y =
     foldl (\<lambda>y op. if terminal (ro_state op) then y else mark_recovering (ro_worker op) y)
       \<lparr>ry_journal = ry_journal y, ry_known = k\<lparr>kn_observed := Map.empty, kn_stopped := Map.empty, kn_handback := Map.empty,
          kn_removals := Map.empty, kn_closed := False\<rparr>, ry_task = None, ry_commands = ry_commands y,
          ry_proofs = ry_proofs y\<rparr> (jo_operations (ry_journal y))"

section \<open>The running system\<close>

text \<open>\<open>World\<close>: anything outside the controller may change at any time, inspections of other workers included.\<close>

inductive recovery_step :: "(hashed \<Rightarrow> string) \<Rightarrow> recovery_system \<Rightarrow> recovery_system \<Rightarrow> bool" for digest where
  World: "recovery_step digest y (y\<lparr>ry_known := k\<rparr>)"
| Inspected: "recovery_step digest y (inspect_in digest worker answer removal y)"
| Automatic_Set: "recovery_step digest y (set_automatic b y)"
| Handback_Set: "recovery_step digest y (set_handback b y)"
| Requested: "recovery_step digest y (snd (recovery_request digest worker evidence i actor canary y))"
| Operator_Paused: "recovery_step digest y (operator_pause workers y)"
| Reconciled: "recovery_step digest y (snd (recovery_reconcile digest i y))"
| Ticked: "recovery_step digest y (tick_pending digest y)"
| Restarted: "recovery_step digest y (restart_controller k y)"
| First: "ry_task y = Some t \<Longrightarrow> tk_phase t = FirstInspection \<Longrightarrow> current_op (tk_op t) (ry_journal y) = Some op \<Longrightarrow>
    recovery_step digest y (exec_first digest t op answer removal y)"
| Acknowledged: "ry_task y = Some t \<Longrightarrow> tk_phase t = CommandIssued \<Longrightarrow> current_op (tk_op t) (ry_journal y) = Some op \<Longrightarrow>
    recovery_step digest y (exec_acknowledged t op ack y)"
| Waited: "ry_task y = Some t \<Longrightarrow> tk_phase t = AwaitReplacement replaced deadline \<Longrightarrow> current_op (tk_op t) (ry_journal y) = Some op \<Longrightarrow>
    recovery_step digest y (exec_wait digest t op replaced deadline answer removal y)"
| Proved: "ry_task y = Some t \<Longrightarrow> tk_phase t = AwaitProof after \<Longrightarrow> current_op (tk_op t) (ry_journal y) = Some op \<Longrightarrow>
    recovery_step digest y (exec_proof t op after result y)"
| Finished: "ry_task y = Some t \<Longrightarrow> tk_phase t = AwaitFinal after p \<Longrightarrow> current_op (tk_op t) (ry_journal y) = Some op \<Longrightarrow>
    recovery_step digest y (exec_final digest t op after p answer removal y)"

definition recovery_initial :: "knowledge \<Rightarrow> recovery_system" where
  "recovery_initial k = \<lparr>ry_journal = \<lparr>jo_automatic = False, jo_handback = True, jo_adopted = Map.empty, jo_operations = [],
     jo_identities = Map.empty, jo_boots = Map.empty\<rparr>, ry_known = k, ry_task = None, ry_commands = [], ry_proofs = []\<rparr>"

inductive recovery_reachable :: "(hashed \<Rightarrow> string) \<Rightarrow> recovery_system \<Rightarrow> bool" for digest where
  Recovery_Start: "recovery_reachable digest (recovery_initial k)"
| Recovery_Step: "recovery_reachable digest y \<Longrightarrow> recovery_step digest y z \<Longrightarrow> recovery_reachable digest z"

end
