(* ===== verification/Recovery_Safety.thy ===== *)
theory Recovery_Safety
  imports Recovery_Execution
begin

text \<open>
  What the recovery promises, whatever happens between its steps and however often the controller is
  restarted: one command per operation at most, only for the service that was inspected and only while
  nobody has withdrawn the permission, and a worker handed back only with a proof.
\<close>

section \<open>The invariant\<close>

definition op_good :: "operation \<Rightarrow> bool" where
  "op_good op \<longleftrightarrow> (ro_state op = Recovered \<longrightarrow>
     ro_proof op \<noteq> None \<and> ro_new_instance op \<noteq> None \<and> \<not> ro_override op \<and> \<not> ro_was_paused op)"

definition command_good :: "issued_command \<Rightarrow> bool" where
  "command_good ic \<longleftrightarrow> (let op = ic_op ic in
     ro_issued op \<and> \<not> ic_busy ic \<and> \<not> ro_override op \<and> (ro_actor op = Operator \<or> ic_automatic ic) \<and>
     (ro_action op = StartService \<longrightarrow> ic_epoch ic = ro_stopped_epoch op) \<and>
     (ro_action op \<notin> {StartService, BootstrapService} \<longrightarrow> ic_instance ic = ro_instance op))"

definition journal_ok :: "issued_command list \<Rightarrow> operation list \<Rightarrow> bool" where
  "journal_ok cs ops \<longleftrightarrow> distinct (map ro_id ops) \<and>
     (\<forall>ic \<in> set cs. \<exists>op \<in> set ops. ro_id op = ro_id (ic_op ic) \<and> ro_issued op) \<and> (\<forall>op \<in> set ops. op_good op)"

definition commands_ok :: "issued_command list \<Rightarrow> bool" where
  "commands_ok cs \<longleftrightarrow> distinct (map (\<lambda>ic. ro_id (ic_op ic)) cs) \<and> (\<forall>ic \<in> set cs. command_good ic)"

definition seen_after :: "recovery_phase \<Rightarrow> service_view option" where
  "seen_after p = (case p of AwaitProof s \<Rightarrow> Some s | AwaitFinal s _ \<Rightarrow> Some s | _ \<Rightarrow> None)"

definition task_ok :: "issued_command list \<Rightarrow> operation list \<Rightarrow> task option \<Rightarrow> bool" where
  "task_ok cs ops t \<longleftrightarrow> (case t of None \<Rightarrow> True | Some t \<Rightarrow>
     (\<not> tk_reconcile t \<and> tk_phase t = FirstInspection \<longrightarrow> (\<forall>ic \<in> set cs. ro_id (ic_op ic) \<noteq> tk_op t)) \<and>
     (case seen_after (tk_phase t) of None \<Rightarrow> True | Some s \<Rightarrow>
        sv_instance s \<noteq> None \<and> (\<forall>op \<in> set ops. ro_id op = tk_op t \<longrightarrow> ro_new_instance op = sv_instance s)))"

definition recovery_ok :: "recovery_system \<Rightarrow> bool" where
  "recovery_ok y \<longleftrightarrow> journal_ok (ry_commands y) (jo_operations (ry_journal y)) \<and> commands_ok (ry_commands y) \<and>
     task_ok (ry_commands y) (jo_operations (ry_journal y)) (ry_task y)"

section \<open>Operations of the journal\<close>

lemma current_op_SomeD: "current_op i j = Some op \<Longrightarrow> op \<in> set (jo_operations j) \<and> ro_id op = i"
proof -
  have "List.find P xs = Some x \<Longrightarrow> x \<in> set xs \<and> P x" for P and xs :: "operation list" and x
    by (induction xs) (auto split: if_splits)
  then show "current_op i j = Some op \<Longrightarrow> op \<in> set (jo_operations j) \<and> ro_id op = i" by (auto simp: current_op_def)
qed

lemma current_op_NoneD: "current_op i j = None \<Longrightarrow> i \<notin> ro_id ` set (jo_operations j)"
  by (auto simp: current_op_def find_None_iff)

text \<open>A change of operations that keeps their identifiers and what was issued keeps the journal in order.\<close>

lemma journal_ok_map:
  assumes "journal_ok cs ops" and "\<And>op. op \<in> set ops \<Longrightarrow> ro_id (g op) = ro_id op \<and> (ro_issued op \<longrightarrow> ro_issued (g op)) \<and> op_good (g op)"
  shows "journal_ok cs (map g ops)"
proof -
  have m: "map ro_id (map g ops) = map ro_id ops" using assms(2) by simp
  have d: "distinct (map ro_id (map g ops))" unfolding m using assms(1) by (simp add: journal_ok_def)
  have i: "\<exists>op \<in> set (map g ops). ro_id op = ro_id (ic_op ic) \<and> ro_issued op" if "ic \<in> set cs" for ic
  proof -
    have "\<exists>op \<in> set ops. ro_id op = ro_id (ic_op ic) \<and> ro_issued op" using assms(1) that by (simp add: journal_ok_def)
    then obtain op where op: "op \<in> set ops" "ro_id op = ro_id (ic_op ic)" "ro_issued op" by (elim bexE conjE)
    have g: "ro_id (g op) = ro_id (ic_op ic)" "ro_issued (g op)"
      unfolding op(2) [symmetric] using assms(2) [OF op(1)] op(3) by blast+
    have "g op \<in> set (map g ops)" using op(1) by simp
    then show ?thesis using g by blast
  qed
  have "\<forall>op \<in> set (map g ops). op_good op" using assms(2) by auto
  then show ?thesis unfolding journal_ok_def using d i by blast
qed

lemma update_op_operations:
  "jo_operations (update_op i f now j) = map (\<lambda>op. if ro_id op = i then (f op)\<lparr>ro_updated := now\<rparr> else op) (jo_operations j)"
  by (simp add: update_op_def)

lemma op_good_updated [simp]: "op_good (op\<lparr>ro_updated := t\<rparr>) = op_good op"
  by (simp add: op_good_def)

lemma update_op_ok:
  assumes "journal_ok cs (jo_operations j)"
    and "\<And>op. op \<in> set (jo_operations j) \<Longrightarrow> ro_id op = i \<Longrightarrow>
      ro_id (f op) = i \<and> (ro_issued op \<longrightarrow> ro_issued (f op)) \<and> (op_good op \<longrightarrow> op_good (f op))"
  shows "journal_ok cs (jo_operations (update_op i f now j))"
  unfolding update_op_operations
  by (rule journal_ok_map [OF assms(1)]) (use assms in \<open>auto simp: journal_ok_def\<close>)

lemma end_task_fields [simp]:
  "ry_journal (end_task i w y) = ry_journal y" "ry_commands (end_task i w y) = ry_commands y" "ry_task (end_task i w y) = None"
  by (simp_all add: end_task_def set_node_def Let_def)

lemma note_proof_fields [simp]:
  "ry_journal (note_proof t op s v p y) = ry_journal y" "ry_commands (note_proof t op s v p y) = ry_commands y"
  "ry_task (note_proof t op s v p y) = ry_task y" "ry_known (note_proof t op s v p y) = ry_known y"
  "recovery_ok (note_proof t op s v p y) = recovery_ok y"
  by (simp_all add: note_proof_def recovery_ok_def)

lemma with_journal_fields [simp]:
  "ry_journal (with_journal f y) = f (ry_journal y)" "ry_commands (with_journal f y) = ry_commands y"
  "ry_task (with_journal f y) = ry_task y" "ry_known (with_journal f y) = ry_known y"
  by (simp_all add: with_journal_def)

lemma set_node_fields [simp]:
  "ry_journal (set_node i f y) = ry_journal y" "ry_commands (set_node i f y) = ry_commands y" "ry_task (set_node i f y) = ry_task y"
  "ry_journal (mark_recovering i y) = ry_journal y" "ry_commands (mark_recovering i y) = ry_commands y"
  "ry_task (mark_recovering i y) = ry_task y"
  by (simp_all add: set_node_def mark_recovering_def)

lemma to_phase_fields [simp]:
  "ry_journal (to_phase p t y) = ry_journal y" "ry_commands (to_phase p t y) = ry_commands y"
  "ry_task (to_phase p t y) = Some (t\<lparr>tk_phase := p\<rparr>)" "ry_known (to_phase p t y) = ry_known y"
  by (simp_all add: to_phase_def)

lemma remember_identity_operations [simp]: "jo_operations (remember_identity digest k i s t j) = jo_operations j"
  by (simp add: remember_identity_def Let_def split: option.split)

lemma remember_identity_automatic [simp]: "jo_automatic (remember_identity digest k i s t j) = jo_automatic j"
  by (simp add: remember_identity_def Let_def split: option.split)

lemma inspect_in_fields [simp]:
  "jo_operations (ry_journal (inspect_in digest w a r y)) = jo_operations (ry_journal y)"
  "ry_commands (inspect_in digest w a r y) = ry_commands y" "ry_task (inspect_in digest w a r y) = ry_task y"
  by (simp_all add: inspect_in_def inspect_worker_def Let_def split: sum.split)

lemma inspect_in_ok [simp]: "recovery_ok (inspect_in digest w a r y) = recovery_ok y"
  by (simp add: recovery_ok_def)

text \<open>Ending or starting a task needs no fact about the task before it.\<close>

definition recovery_core :: "recovery_system \<Rightarrow> bool" where
  "recovery_core y \<longleftrightarrow> journal_ok (ry_commands y) (jo_operations (ry_journal y)) \<and> commands_ok (ry_commands y)"

lemma recovery_ok_core: "recovery_ok y \<Longrightarrow> recovery_core y"
  by (simp add: recovery_ok_def recovery_core_def)

lemma fail_task_core:
  assumes "recovery_core y"
  shows "recovery_ok (fail_task message op y)"
proof -
  have "failed_state b op \<noteq> Recovered" for b by (simp add: failed_state_def Let_def)
  then have "journal_ok (ry_commands y) (jo_operations (update_op (ro_id op) (\<lambda>o1. o1\<lparr>ro_state := failed_state b op, ro_error := Some e\<rparr>) n (ry_journal y)))"
    for b e n using assms by (intro update_op_ok) (simp_all add: recovery_core_def op_good_def)
  then show ?thesis using assms by (simp add: recovery_core_def recovery_ok_def fail_task_def task_ok_def Let_def)
qed

lemmas fail_task_ok = fail_task_core [OF recovery_ok_core]

lemma task_ok_set:
  assumes "seen_after (tk_phase t) = None" and "tk_reconcile t \<or> tk_phase t \<noteq> FirstInspection"
  shows "task_ok cs ops (Some t)"
  using assms by (auto simp: task_ok_def)

lemma update_task_ok:
  assumes "task_ok cs (jo_operations j) t" and "\<And>op. ro_id (f op) = ro_id op \<and> ro_new_instance (f op) = ro_new_instance op"
  shows "task_ok cs (jo_operations (update_op i f now j)) t"
proof -
  have "ro_new_instance op' = sv_instance s"
    if all: "\<forall>op \<in> set (jo_operations j). ro_id op = k \<longrightarrow> ro_new_instance op = sv_instance s"
      and m: "op' \<in> set (jo_operations (update_op i f now j))" "ro_id op' = k" for k op' and s :: service_view
  proof -
    obtain op where op: "op \<in> set (jo_operations j)" "op' = (if ro_id op = i then (f op)\<lparr>ro_updated := now\<rparr> else op)"
      using m(1) by (auto simp: update_op_operations)
    then have "ro_id op = k" "ro_new_instance op' = ro_new_instance op" using m(2) assms(2) [of op] by (simp_all split: if_splits)
    then show ?thesis using all op(1) by metis
  qed
  then have keep: "(\<forall>op \<in> set (jo_operations j). ro_id op = k \<longrightarrow> ro_new_instance op = sv_instance s) \<Longrightarrow>
      \<forall>op \<in> set (jo_operations (update_op i f now j)). ro_id op = k \<longrightarrow> ro_new_instance op = sv_instance s"
    for k and s :: service_view
    by (intro ballI impI) blast
  show ?thesis
  proof (cases t)
    case (Some u)
    show ?thesis
    proof (cases "seen_after (tk_phase u)")
      case None
      then show ?thesis using assms(1) Some by (simp add: task_ok_def)
    next
      case (Some s)
      have "\<forall>op \<in> set (jo_operations j). ro_id op = tk_op u \<longrightarrow> ro_new_instance op = sv_instance s"
        using assms(1) Some \<open>t = Some u\<close> by (simp add: task_ok_def)
      from keep [OF this] show ?thesis using assms(1) Some \<open>t = Some u\<close> by (simp add: task_ok_def)
    qed
  qed (simp add: task_ok_def)
qed

section \<open>The steps keep it\<close>

lemma exec_start_ok:
  assumes "recovery_core y" and "reconcile \<or> (\<forall>ic \<in> set (ry_commands y). ro_id (ic_op ic) \<noteq> ro_id op)"
  shows "recovery_ok (exec_start digest op reconcile y)"
proof -
  have new: "recovery_ok (y\<lparr>ry_task := Some \<lparr>tk_op = ro_id op, tk_reconcile = reconcile, tk_config = c, tk_enrolled = e,
      tk_before = b, tk_phase = FirstInspection\<rparr>\<rparr>)" for c e b
    using assms by (auto simp: recovery_core_def recovery_ok_def task_ok_def seen_after_def)
  show ?thesis by (simp add: exec_start_def Let_def fail_task_core [OF assms(1)] new)
qed

lemma known_first_error:
  assumes "first_error digest j k s c False op = None" and "\<not> replaced_before s c op"
  shows "\<not> opt_test busy_node (find_recovery_node k (ro_worker op))" and "command_veto digest j k s c op = None"
  using assms by (simp_all add: first_error_def Let_def split: if_splits)

lemma command_veto_None:
  assumes "command_veto digest j k s c op = None"
  shows "\<not> cancelled j op" and "ro_action op = StartService \<Longrightarrow> sv_stopped_epoch s = ro_stopped_epoch op"
    and "ro_action op \<notin> {StartService, BootstrapService} \<Longrightarrow> sv_instance s = ro_instance op"
  using assms by (auto simp: command_veto_def stopped_before_def Let_def split: if_splits option.splits)

lemma issue_command_ok:
  assumes ok: "recovery_ok y" and op: "op \<in> set (jo_operations (ry_journal y))" and fresh: "\<forall>ic \<in> set (ry_commands y). ro_id (ic_op ic) \<noteq> ro_id op"
    and idle: "\<not> opt_test busy_node (find_recovery_node (know y) (ro_worker op))"
    and veto: "command_veto digest (ry_journal y) (know y) s c op = None"
  shows "recovery_ok (issue_command digest t op s y)"
proof -
  let ?now = "kn_now (ry_known y)"
  let ?y = "with_journal (update_op (ro_id op) intend ?now) y"
  let ?saved = "(intend op)\<lparr>ro_updated := ?now\<rparr>"
  let ?ic = "\<lparr>ic_op = ?saved, ic_instance = sv_instance s, ic_epoch = sv_stopped_epoch s, ic_automatic = jo_automatic (ry_journal ?y),
      ic_busy = opt_test busy_node (find_recovery_node (ry_known ?y) (ro_worker op))\<rparr>"
  have id: "ro_id (intend q) = ro_id q" "ro_new_instance (intend q) = ro_new_instance q" "ro_issued (intend q)" "op_good (intend q)" for q
    by (simp_all add: intend_def op_good_def issuing_state_def split: service_action.split)
  have j: "journal_ok (ry_commands y) (jo_operations (ry_journal ?y))"
    using ok id by (simp add: recovery_ok_def update_op_ok)
  have y: "recovery_ok ?y"
    using ok j id update_task_ok [of "ry_commands y" "ry_journal y" "ry_task y" intend] by (simp add: recovery_ok_def)
  have auto_same: "jo_automatic (ry_journal ?y) = jo_automatic (ry_journal y)" by (simp add: update_op_def)
  have "command_good ?ic"
    using command_veto_None [OF veto] idle auto_same
    by (auto simp: command_good_def cancelled_def intend_def know_def find_recovery_node_def)
  moreover have "ro_id (ic_op ?ic) = ro_id op" by (simp add: id)
  moreover have saved: "?saved \<in> set (jo_operations (ry_journal ?y))"
    using op by (auto simp: update_op_operations intro!: image_eqI [of _ _ op])
  moreover have "\<exists>q \<in> set (jo_operations (ry_journal ?y)). ro_id q = ro_id op \<and> ro_issued q"
    by (rule bexI [OF _ saved]) (simp add: id)
  ultimately have all: "commands_ok (ry_commands y @ [?ic])" "journal_ok (ry_commands y @ [?ic]) (jo_operations (ry_journal ?y))"
    using ok j fresh by (auto simp: recovery_ok_def commands_ok_def journal_ok_def)
  have "recovery_ok (to_phase CommandIssued t (?y\<lparr>ry_commands := ry_commands ?y @ [?ic]\<rparr>))"
    using all by (simp add: recovery_ok_def task_ok_def seen_after_def)
  then show ?thesis using fail_task_ok [OF y] by (simp add: issue_command_def Let_def split: option.split)
qed

lemma update_recovery_ok:
  assumes "recovery_ok y"
    and "\<And>op. ro_id (f op) = ro_id op \<and> ro_new_instance (f op) = ro_new_instance op \<and> (ro_issued op \<longrightarrow> ro_issued (f op)) \<and>
      (op_good op \<longrightarrow> op_good (f op))"
  shows "recovery_ok (with_journal (update_op i f now) y)"
  using assms update_task_ok [of "ry_commands y" "ry_journal y" "ry_task y" f i now] by (simp add: recovery_ok_def update_op_ok)

lemma phase_ok:
  assumes "recovery_ok y" and "seen_after p = None" and "p \<noteq> FirstInspection"
  shows "recovery_ok (to_phase p t y)"
  using assms task_ok_set [of "t\<lparr>tk_phase := p\<rparr>"] by (simp add: recovery_ok_def)

lemma exec_first_ok:
  assumes ok: "recovery_ok y" and t: "ry_task y = Some t" "tk_phase t = FirstInspection" and op: "current_op (tk_op t) (ry_journal y) = Some op"
  shows "recovery_ok (exec_first digest t op answer removal y)"
proof -
  let ?y = "inspect_in digest (ro_worker op) answer removal y" and ?s = "answer_view answer" and ?c = "tk_config t"
  let ?t = "t\<lparr>tk_before := ?s\<rparr>"
  have y: "recovery_ok ?y" using ok by simp
  have mem: "op \<in> set (jo_operations (ry_journal ?y))" "ro_id op = tk_op t" using current_op_SomeD [OF op] by simp_all
  show ?thesis
  proof (cases "first_error digest (ry_journal ?y) (know ?y) ?s ?c (tk_reconcile t) op")
    case (Some e)
    then show ?thesis using fail_task_ok [OF y] by (simp add: exec_first_def Let_def)
  next
    case None
    note first = None
    show ?thesis
    proof (cases "replaced_before ?s ?c op")
      case True
      then show ?thesis using first phase_ok [OF y] by (simp add: exec_first_def Let_def seen_after_def)
    next
      case False
      show ?thesis
      proof (cases "tk_reconcile t")
        case True
        have "recovery_ok (with_journal (update_op (ro_id op) (\<lambda>o1. o1\<lparr>ro_state := Reconciling\<rparr>) (kn_now (ry_known ?y))) ?y)"
          by (rule update_recovery_ok [OF y]) (simp add: op_good_def)
        from phase_ok [OF this, of "AwaitReplacement False (replacement_deadline ?y)" ?t] show ?thesis
          using first False True by (simp add: exec_first_def Let_def seen_after_def)
      next
        case plain: False
        have "\<forall>ic \<in> set (ry_commands ?y). ro_id (ic_op ic) \<noteq> ro_id op"
          using ok t plain mem(2) by (simp add: recovery_ok_def task_ok_def)
        moreover have "first_error digest (ry_journal ?y) (know ?y) ?s ?c False op = None" using first plain by simp
        ultimately have "recovery_ok (issue_command digest ?t op ?s ?y)"
          using known_first_error [OF _ False, of digest "ry_journal ?y" "know ?y"] by (intro issue_command_ok [OF y mem(1)]) simp_all
        then show ?thesis using first False plain by (simp add: exec_first_def Let_def)
      qed
    qed
  qed
qed

lemma exec_acknowledged_ok: "recovery_ok y \<Longrightarrow> recovery_ok (exec_acknowledged t op ack y)"
  unfolding exec_acknowledged_def
  by (rule phase_ok)
    (auto simp: seen_after_def op_good_def with_journal_def [of id] split: option.split intro!: update_recovery_ok)

lemma exec_wait_ok:
  assumes ok: "recovery_ok y" and t: "ry_task y = Some t" and op: "current_op (tk_op t) (ry_journal y) = Some op"
  shows "recovery_ok (exec_wait digest t op replaced deadline answer removal y)"
proof -
  let ?y = "inspect_in digest (ro_worker op) answer removal y" and ?s = "answer_view answer"
  let ?f = "\<lambda>o1. o1\<lparr>ro_state := Verifying, ro_new_instance := sv_instance ?s\<rparr>"
  let ?z = "to_phase (AwaitProof ?s) t (with_journal (update_op (ro_id op) ?f (kn_now (ry_known ?y))) ?y)"
  have y: "recovery_ok ?y" using ok by simp
  have id: "ro_id op = tk_op t" using current_op_SomeD [OF op] by simp
  have z: "recovery_ok ?z" if e: "replacement_error digest (ry_journal ?y) (know ?y) t op ?s = None"
  proof -
    have inst: "sv_instance ?s \<noteq> None"
      using e by (auto simp: replacement_error_def view_valid_def opt_test_def split: if_splits option.splits)
    have "journal_ok (ry_commands y) (jo_operations (update_op (ro_id op) ?f (kn_now (ry_known ?y)) (ry_journal ?y)))"
      by (rule update_op_ok) (use y in \<open>simp_all add: recovery_ok_def op_good_def\<close>)
    moreover have "task_ok (ry_commands y) (jo_operations (update_op (ro_id op) ?f (kn_now (ry_known ?y)) (ry_journal ?y)))
        (Some (t\<lparr>tk_phase := AwaitProof ?s\<rparr>))"
      using inst id by (auto simp: task_ok_def seen_after_def update_op_operations)
    ultimately show ?thesis using y by (simp add: recovery_ok_def)
  qed
  show ?thesis
    unfolding exec_wait_def Let_def using z fail_task_ok [OF y] y by (simp split: option.split)
qed

lemma exec_proof_ok:
  assumes ok: "recovery_ok y" and t: "ry_task y = Some t" "tk_phase t = AwaitProof after"
  shows "recovery_ok (exec_proof t op after result y)"
proof (cases result)
  case (Inl m)
  then show ?thesis using fail_task_ok [OF ok] by (simp add: exec_proof_def)
next
  case (Inr p)
  then show ?thesis using ok t by (simp add: exec_proof_def recovery_ok_def task_ok_def seen_after_def)
qed

lemma exec_final_ok:
  assumes ok: "recovery_ok y" and t: "ry_task y = Some t" "tk_phase t = AwaitFinal after p"
    and op: "current_op (tk_op t) (ry_journal y) = Some op"
  shows "recovery_ok (exec_final digest t op after p answer removal y)"
proof -
  let ?y = "inspect_in digest (ro_worker op) answer removal y"
  let ?now = "kn_now (ry_known ?y)"
  have y: "recovery_ok ?y" using ok by simp
  have mem: "op \<in> set (jo_operations (ry_journal y))" "ro_id op = tk_op t" using current_op_SomeD [OF op] by simp_all
  have new: "ro_new_instance op \<noteq> None" using ok t mem by (auto simp: recovery_ok_def task_ok_def seen_after_def)
  have same: "q = op" if "q \<in> set (jo_operations (ry_journal y))" "ro_id q = ro_id op" for q
    using ok mem(1) that by (auto simp: recovery_ok_def journal_ok_def distinct_map dest: inj_onD)
  have adopt: "jo_operations (adopt_in t op n j) = jo_operations j" for n j
    by (simp add: adopt_in_def split: option.split)
  have finished: "journal_ok (ry_commands y) (jo_operations (update_op (ro_id op) (finish_op st p) ?now (ry_journal ?y)))"
    if "st = VerifiedPaused \<or> st = Recovered \<and> \<not> left_paused (ry_known ?y) op" for st
  proof (rule update_op_ok)
    show "journal_ok (ry_commands y) (jo_operations (ry_journal ?y))" using y by (simp add: recovery_ok_def)
    fix q
    assume "q \<in> set (jo_operations (ry_journal ?y))" "ro_id q = ro_id op"
    then have "q = op" using same by simp
    then show "ro_id (finish_op st p q) = ro_id op \<and> (ro_issued q \<longrightarrow> ro_issued (finish_op st p q)) \<and> (op_good q \<longrightarrow> op_good (finish_op st p q))"
      using that new by (auto simp: finish_op_def op_good_def left_paused_def)
  qed
  have paused: "recovery_ok (end_task (ro_id op) (ro_worker op)
      (with_journal (\<lambda>j. adopt_in t op ?now (update_op (ro_id op) (finish_op VerifiedPaused p) ?now j))
        (note_proof t op after (answer_view answer) p ?y)))"
    using y finished [of VerifiedPaused] by (simp add: recovery_ok_def adopt task_ok_def)
  have recovered: "recovery_ok (end_task (ro_id op) (ro_worker op) (set_node (ro_worker op) (\<lambda>n. n\<lparr>nd_quarantine := None, nd_healthy := True\<rparr>)
      (with_journal (\<lambda>j. adopt_in t op ?now (update_op (ro_id op) (finish_op Recovered p) ?now j))
        (note_proof t op after (answer_view answer) p ?y))))"
    if "\<not> left_paused (ry_known ?y) op"
    using y finished [of Recovered] that by (simp add: recovery_ok_def adopt task_ok_def)
  show ?thesis
    unfolding exec_final_def Let_def using fail_task_ok [OF y] paused recovered by (simp split: option.split)
qed

lemma new_operation_fields:
  "ro_id (new_operation digest j k i actor evidence canary n s c) = i"
  "ro_state (new_operation digest j k i actor evidence canary n s c) = Queued"
  by (simp_all add: new_operation_def Let_def)

lemma recovery_request_cases:
  "snd (recovery_request digest worker evidence i actor canary y) = y \<or>
   current_op i (ry_journal y) = None \<and> (\<exists>n s c. let op = new_operation digest (ry_journal y) (know y) i actor evidence canary n s c in
     snd (recovery_request digest worker evidence i actor canary y) = exec_start digest op False (mark_recovering worker
       (with_journal (\<lambda>j. j\<lparr>jo_operations := jo_operations j @ [op]\<rparr>) y)))"
proof (cases "current_op i (ry_journal y)")
  case None
  show ?thesis
  proof (cases "find_recovery_node (know y) worker")
    case node: (Some n)
    show ?thesis
    proof (cases "config_of (ry_journal y) (know y) worker")
      case (Some c)
      let ?s = "seen_view (kn_observed (know y) worker)"
      show ?thesis
        unfolding recovery_request_def using None node Some
        by (cases "offer_reason digest (ry_journal y) (know y) n ?s canary False False")
          (simp_all add: Let_def, blast)
    qed (simp add: recovery_request_def None node Let_def)
  qed (simp add: recovery_request_def None Let_def)
qed (simp add: recovery_request_def Let_def)

lemma recovery_request_ok:
  assumes ok: "recovery_ok y"
  shows "recovery_ok (snd (recovery_request digest worker evidence i actor canary y))"
  using recovery_request_cases [of digest worker evidence i actor canary y]
proof
  assume "snd (recovery_request digest worker evidence i actor canary y) = y"
  then show ?thesis using ok by simp
next
  assume "current_op i (ry_journal y) = None \<and> (\<exists>n s c. let op = new_operation digest (ry_journal y) (know y) i actor evidence canary n s c in
     snd (recovery_request digest worker evidence i actor canary y) = exec_start digest op False (mark_recovering worker
       (with_journal (\<lambda>j. j\<lparr>jo_operations := jo_operations j @ [op]\<rparr>) y)))"
  then obtain n s c where none: "current_op i (ry_journal y) = None"
    and step: "snd (recovery_request digest worker evidence i actor canary y) =
      exec_start digest (new_operation digest (ry_journal y) (know y) i actor evidence canary n s c) False (mark_recovering worker
       (with_journal (\<lambda>j. j\<lparr>jo_operations := jo_operations j @ [new_operation digest (ry_journal y) (know y) i actor evidence canary n s c]\<rparr>) y))"
    unfolding Let_def by (elim conjE exE)
  define op where "op = new_operation digest (ry_journal y) (know y) i actor evidence canary n s c"
  have op: "ro_id op = i" "ro_state op = Queued"
    "snd (recovery_request digest worker evidence i actor canary y) = exec_start digest op False (mark_recovering worker
       (with_journal (\<lambda>j. j\<lparr>jo_operations := jo_operations j @ [op]\<rparr>) y))"
    using step by (simp_all only: op_def new_operation_fields)
  let ?ops = "jo_operations (ry_journal y)"
  have new: "i \<notin> ro_id ` set ?ops" by (rule current_op_NoneD [OF none])
  have j: "journal_ok (ry_commands y) (?ops @ [op])"
    using ok new op(1,2) by (auto simp: recovery_ok_def journal_ok_def op_good_def)
  have fresh: "\<forall>ic \<in> set (ry_commands y). ro_id (ic_op ic) \<noteq> ro_id op"
  proof
    fix ic
    assume "ic \<in> set (ry_commands y)"
    then have "\<exists>q \<in> set ?ops. ro_id q = ro_id (ic_op ic) \<and> ro_issued q" using ok by (simp add: recovery_ok_def journal_ok_def)
    then show "ro_id (ic_op ic) \<noteq> ro_id op" using new op(1) by (auto simp: image_iff)
  qed
  show ?thesis
    unfolding op(3) by (rule exec_start_ok) (use ok j fresh in \<open>simp_all add: recovery_core_def recovery_ok_def\<close>)
qed

lemma operator_pause_ok:
  assumes ok: "recovery_ok y"
  shows "recovery_ok (operator_pause workers y)"
proof -
  let ?g = "\<lambda>op. if ro_worker op \<in> set workers \<and> \<not> terminal (ro_state op) then op\<lparr>ro_override := True, ro_updated := kn_now (ry_known y)\<rparr> else op"
  have "journal_ok (ry_commands y) (map ?g (jo_operations (ry_journal y)))"
    by (rule journal_ok_map) (use ok in \<open>auto simp: recovery_ok_def journal_ok_def op_good_def terminal_def\<close>)
  moreover have "task_ok (ry_commands y) (map ?g (jo_operations (ry_journal y))) (ry_task y)"
    using ok by (auto simp: recovery_ok_def task_ok_def split: option.splits)
  ultimately show ?thesis using ok by (simp add: recovery_ok_def operator_pause_def)
qed

lemma recovery_reconcile_ok:
  assumes ok: "recovery_ok y"
  shows "recovery_ok (snd (recovery_reconcile digest i y))"
proof -
  let ?f = "\<lambda>o1. o1\<lparr>ro_state := Reconciling, ro_error := None\<rparr>"
  have z: "recovery_core (mark_recovering w (with_journal (update_op i ?f now) y))" for w now
    using recovery_ok_core [OF update_recovery_ok [OF ok, of ?f i now]] by (simp add: recovery_core_def op_good_def)
  have "recovery_ok (exec_start digest op True (mark_recovering w (with_journal (update_op i ?f now) y)))" for w now op
    by (rule exec_start_ok [OF z]) simp
  then show ?thesis using ok by (simp add: recovery_reconcile_def Let_def split: option.split)
qed

lemma tick_pending_ok: "recovery_ok y \<Longrightarrow> recovery_ok (tick_pending digest y)"
  by (simp add: tick_pending_def exec_start_ok recovery_ok_core split: option.split)

lemma restart_controller_ok:
  assumes "recovery_ok y"
  shows "recovery_ok (restart_controller k y)"
proof -
  have keep: "recovery_ok (foldl (\<lambda>y op. if terminal (ro_state op) then y else mark_recovering (ro_worker op) y) z ops)"
    if "recovery_ok z" for z and ops :: "operation list"
    using that by (induction ops arbitrary: z) (simp_all add: recovery_ok_def)
  show ?thesis
    unfolding restart_controller_def by (rule keep) (use assms in \<open>simp add: recovery_ok_def task_ok_def\<close>)
qed

lemma recovery_step_ok:
  assumes "recovery_step digest y z" and "recovery_ok y"
  shows "recovery_ok z"
  using assms
proof (cases rule: recovery_step.cases)
  case (First t op answer removal)
  then show ?thesis using exec_first_ok assms(2) by simp
next
  case (Waited t replaced deadline op answer removal)
  then show ?thesis using exec_wait_ok assms(2) by simp
next
  case (Finished t after p op answer removal)
  then show ?thesis using exec_final_ok assms(2) by simp
next
  case (Proved t after op result)
  then show ?thesis using exec_proof_ok assms(2) by simp
qed (simp_all add: recovery_request_ok operator_pause_ok recovery_reconcile_ok tick_pending_ok restart_controller_ok
    exec_acknowledged_ok, simp_all add: recovery_ok_def set_automatic_def set_handback_def)

lemma recovery_reachable_ok: "recovery_reachable digest y \<Longrightarrow> recovery_ok y"
proof (induction rule: recovery_reachable.induct)
  case (Recovery_Start k)
  show ?case by (simp add: recovery_ok_def recovery_initial_def journal_ok_def commands_ok_def task_ok_def)
next
  case (Recovery_Step y z)
  then show ?case using recovery_step_ok by blast
qed

section \<open>A concrete recovery\<close>

text \<open>A worker failed with a fatal fault, is restarted, verified and handed back. Between the steps the world is
  put back as it was.\<close>

definition plain_digest :: "hashed \<Rightarrow> string" where
  "plain_digest h = []"

definition sample_id :: string where
  "sample_id = replicate 36 CHR ''0''"

definition sample_instance :: "char \<Rightarrow> string" where
  "sample_instance x = replicate 32 x"

lemma sample_texts:
  "uuid_chars sample_id" "hex32 (sample_instance CHR ''0'')" "hex32 (sample_instance CHR ''1'')"
  "(sample_instance CHR ''1'' = sample_instance CHR ''0'') = False" "(sample_instance CHR ''0'' = sample_instance CHR ''1'') = False"
proof -
  have same: "list_all P (replicate n x) = (n = 0 \<or> P x)" for P n and x :: char by (induction n) auto
  show "uuid_chars sample_id" "hex32 (sample_instance CHR ''0'')" "hex32 (sample_instance CHR ''1'')"
    "(sample_instance CHR ''1'' = sample_instance CHR ''0'') = False" "(sample_instance CHR ''0'' = sample_instance CHR ''1'') = False"
    by (simp_all add: sample_id_def sample_instance_def uuid_chars_def hex32_def lower_hex_def same)
qed

definition sample_config :: service_config where
  "sample_config = \<lparr>rc_adapter = Systemd, rc_machine = [], rc_profile = [], rc_service_profile = None, rc_start_stopped = False,
     rc_bootstrap_removed = False, rc_definition = None, rc_callers = [], rc_url = [], rc_ssh = None, rc_fallbacks = [], rc_port = 8000\<rparr>"

definition sample_view :: "char \<Rightarrow> fault_seen option \<Rightarrow> service_view" where
  "sample_view x fault = no_view\<lparr>sv_version_1 := True, sv_machine := Some [], sv_profile := Some [], sv_active := Some True,
     sv_listener := Some True, sv_instance := Some (sample_instance x), sv_started := Some 50000, sv_fault := fault\<rparr>"

definition sample_fault :: fault_seen where
  "sample_fault = \<lparr>fs_reason = ''fatal_accelerator_error'', fs_at = 100000\<rparr>"

definition sample_mark :: quarantine_mark where
  "sample_mark = \<lparr>qm_reason = ''fatal_accelerator_error'', qm_at = Some 100000\<rparr>"

definition sample_node :: recovery_node where
  "sample_node = \<lparr>nd_id = [], nd_url = [], nd_ssh = None, nd_fallbacks = [], nd_port = 8000, nd_context = Some 4096, nd_active = False,
     nd_queued = 0, nd_drained = False, nd_healthy = False, nd_recovering = False, nd_removed = False, nd_quarantine = Some sample_mark\<rparr>"

definition sample_knowledge :: knowledge where
  "sample_knowledge = \<lparr>kn_configs = [[] \<mapsto> sample_config], kn_nodes = [sample_node],
     kn_observed = [[] \<mapsto> (150000, Inr (sample_view CHR ''0'' (Some sample_fault)))], kn_stopped = Map.empty, kn_handback = Map.empty,
     kn_removals = Map.empty, kn_holds = NoHoldState, kn_stopping = False, kn_closed = False, kn_task = False, kn_now = 200000\<rparr>"

definition sample_journal :: "operation list \<Rightarrow> journal" where
  "sample_journal ops = \<lparr>jo_automatic = False, jo_handback = True, jo_adopted = Map.empty, jo_operations = ops,
     jo_identities = Map.empty, jo_boots = Map.empty\<rparr>"

definition sample_proof :: proof_record where
  "sample_proof = \<lparr>pf_check = [], pf_context = 4096, pf_verified = Some 200000, pf_samples = []\<rparr>"

definition sample_evidence :: recovery_evidence where
  "sample_evidence = \<lparr>re_op = sample_id, re_config = sample_config, re_before = sample_view CHR ''0'' (Some sample_fault),
     re_after = sample_view CHR ''1'' None, re_final = sample_view CHR ''1'' None, re_proof = sample_proof\<rparr>"

definition sample_state :: "operation \<Rightarrow> recovery_phase option \<Rightarrow> issued_command list \<Rightarrow> recovery_system" where
  "sample_state op p cs = \<lparr>ry_journal = sample_journal [op], ry_known = sample_knowledge,
     ry_task = map_option (\<lambda>p. \<lparr>tk_op = sample_id, tk_reconcile = False, tk_config = sample_config, tk_enrolled = sample_config,
       tk_before = (if p = FirstInspection then no_view else sample_view CHR ''0'' (Some sample_fault)), tk_phase = p\<rparr>) p,
     ry_commands = cs, ry_proofs = (case p of None \<Rightarrow> [sample_evidence] | Some _ \<Rightarrow> [])\<rparr>"

definition sample_op :: operation where
  "sample_op = \<lparr>ro_id = sample_id, ro_worker = [], ro_actor = Operator, ro_evidence = Some [], ro_action = RestartService, ro_state = Queued,
     ro_created = 200000, ro_updated = 200000, ro_instance = Some (sample_instance CHR ''0''), ro_stopped_epoch = None,
     ro_service_profile = None, ro_machine = Some [], ro_profile = Some [], ro_context = 4096, ro_canary = False, ro_was_paused = False,
     ro_quarantine = Some sample_mark, ro_adopt = None, ro_configured = None, ro_prior = None, ro_enrollment = None, ro_definition = None,
     ro_binding = [], ro_override = False, ro_issued = False, ro_restart_issued = False, ro_acknowledged = None, ro_new_instance = None,
     ro_proof = None, ro_adopted = False, ro_error = None\<rparr>"

definition sample_intended :: operation where
  "sample_intended = sample_op\<lparr>ro_state := Restarting, ro_issued := True, ro_restart_issued := True\<rparr>"

definition sample_verifying :: operation where
  "sample_verifying = sample_intended\<lparr>ro_state := Verifying, ro_new_instance := Some (sample_instance CHR ''1'')\<rparr>"

definition sample_finished :: operation where
  "sample_finished = sample_verifying\<lparr>ro_state := Recovered, ro_proof := Some sample_proof\<rparr>"

definition sample_command :: issued_command where
  "sample_command = \<lparr>ic_op = sample_intended, ic_instance = Some (sample_instance CHR ''0''), ic_epoch = None, ic_automatic = False,
     ic_busy = False\<rparr>"

lemmas sample_state_simps = sample_texts sample_evidence_def note_proof_def sample_state_def sample_journal_def sample_knowledge_def sample_node_def sample_mark_def
  sample_config_def sample_view_def sample_fault_def no_view_def sample_op_def sample_intended_def sample_verifying_def
  sample_finished_def sample_command_def sample_proof_def plain_digest_def opt_test_def know_def with_journal_def update_op_def
  current_op_def set_node_def mark_recovering_def find_recovery_node_def config_of_def exec_config_def to_phase_def

lemmas policy_simps = view_valid_def view_stopped_def profile_candidate_def bound_to_def fresh_inspection_def inspection_age_def seen_view_def
  native_policy_reason_def busy_node_def started_after_def fatal_evidence_def absent_registration_reason_def offer_reason_def
  restart_reason_def previous_operations_def recent_operation_def fault_reasons_def terminal_def Let_def digest_text_def

lemmas inspect_simps = inspect_in_def inspect_worker_def remember_identity_def observe_view_def answer_view_def active_before_def
  stopped_before_def replaced_before_def op_failed_at_def

lemma sample_requested: "(snd (recovery_request plain_digest [] (Some []) sample_id Operator False (recovery_initial sample_knowledge)))
    \<lparr>ry_known := sample_knowledge\<rparr> = sample_state sample_op (Some FirstInspection) []"
  by (simp add: recovery_request_def recovery_initial_def exec_start_def binding_ok_def new_operation_def chosen_action_def
      offer_evidence_def sample_state_simps policy_simps)

lemma sample_issues: "(exec_first plain_digest (the (ry_task (sample_state sample_op (Some FirstInspection) []))) sample_op
    (Inr (sample_view CHR ''0'' (Some sample_fault))) None (sample_state sample_op (Some FirstInspection) []))\<lparr>ry_known := sample_knowledge\<rparr> =
    sample_state sample_intended (Some CommandIssued) [sample_command]"
  by (simp add: exec_first_def first_error_def command_veto_def cancelled_def issue_command_def intend_def issuing_state_def
      sample_state_simps policy_simps inspect_simps)

lemma sample_waits: "(exec_acknowledged (the (ry_task (sample_state sample_intended (Some CommandIssued) [sample_command]))) sample_intended
    (Some True) (sample_state sample_intended (Some CommandIssued) [sample_command]))\<lparr>ry_known := sample_knowledge\<rparr> =
    sample_state sample_intended (Some (AwaitReplacement False 1100000)) [sample_command]"
  by (simp add: exec_acknowledged_def replacement_deadline_def sample_state_simps)

lemma sample_sees: "(exec_wait plain_digest (the (ry_task (sample_state sample_intended (Some (AwaitReplacement False 1100000)) [sample_command])))
    sample_intended False 1100000 (Inr (sample_view CHR ''1'' None)) None
    (sample_state sample_intended (Some (AwaitReplacement False 1100000)) [sample_command]))\<lparr>ry_known := sample_knowledge\<rparr> =
    sample_state sample_verifying (Some (AwaitProof (sample_view CHR ''1'' None))) [sample_command]"
  by (simp add: exec_wait_def replacement_seen_def replacement_error_def sample_state_simps policy_simps inspect_simps)

lemma sample_proves: "exec_proof (the (ry_task (sample_state sample_verifying (Some (AwaitProof (sample_view CHR ''1'' None))) [sample_command])))
    sample_verifying (sample_view CHR ''1'' None) (Inr sample_proof)
    (sample_state sample_verifying (Some (AwaitProof (sample_view CHR ''1'' None))) [sample_command]) =
    sample_state sample_verifying (Some (AwaitFinal (sample_view CHR ''1'' None) sample_proof)) [sample_command]"
  by (simp add: exec_proof_def to_phase_def sample_state_def)

lemma sample_ends: "(exec_final plain_digest (the (ry_task (sample_state sample_verifying (Some (AwaitFinal (sample_view CHR ''1'' None) sample_proof)) [sample_command])))
    sample_verifying (sample_view CHR ''1'' None) sample_proof (Inr (sample_view CHR ''1'' None)) None
    (sample_state sample_verifying (Some (AwaitFinal (sample_view CHR ''1'' None) sample_proof)) [sample_command]))\<lparr>ry_known := sample_knowledge\<rparr> =
    sample_state sample_finished None [sample_command]"
  by (simp add: exec_final_def final_error_def left_paused_def may_reinstate_def end_task_def adopt_in_def finish_op_def
      sample_state_simps policy_simps inspect_simps)

lemma then_world:
  assumes "recovery_reachable digest y" and "recovery_step digest y z" and "z\<lparr>ry_known := k\<rparr> = x"
  shows "recovery_reachable digest x"
  using Recovery_Step [OF Recovery_Step [OF assms(1,2)] World [of digest z k]] assms(3) by simp

lemma sample_current: "ro_id op = sample_id \<Longrightarrow> current_op sample_id (ry_journal (sample_state op p cs)) = Some op"
  by (simp add: current_op_def sample_state_def sample_journal_def)

lemma sample_task: "ry_task (sample_state op (Some p) cs) = Some (the (ry_task (sample_state op (Some p) cs)))"
  "tk_phase (the (ry_task (sample_state op (Some p) cs))) = p" "tk_op (the (ry_task (sample_state op (Some p) cs))) = sample_id"
  by (simp_all add: sample_state_def)

lemma sample_ids: "ro_id sample_op = sample_id" "ro_id sample_intended = sample_id" "ro_id sample_verifying = sample_id"
  by (simp_all add: sample_op_def sample_intended_def sample_verifying_def)

lemma sample_issued_reachable: "recovery_reachable plain_digest (sample_state sample_intended (Some CommandIssued) [sample_command])"
proof -
  have "recovery_reachable plain_digest (sample_state sample_op (Some FirstInspection) [])"
    by (rule then_world [OF Recovery_Start Requested sample_requested])
  then show ?thesis
    by (rule then_world [OF _ First sample_issues]) (rule sample_task, rule sample_task, simp add: sample_task(3) sample_current sample_ids)
qed

lemma sample_recovered_reachable: "recovery_reachable plain_digest (sample_state sample_finished None [sample_command])"
proof -
  have "recovery_reachable plain_digest (sample_state sample_intended (Some (AwaitReplacement False 1100000)) [sample_command])"
    by (rule then_world [OF sample_issued_reachable Acknowledged sample_waits]) (rule sample_task, rule sample_task, simp add: sample_task(3) sample_current sample_ids)
  then have "recovery_reachable plain_digest (sample_state sample_verifying (Some (AwaitProof (sample_view CHR ''1'' None))) [sample_command])"
    by (rule then_world [OF _ Waited sample_sees]) (rule sample_task, rule sample_task, simp add: sample_task(3) sample_current sample_ids)
  then have "recovery_reachable plain_digest (exec_proof (the (ry_task (sample_state sample_verifying (Some (AwaitProof (sample_view CHR ''1'' None))) [sample_command])))
    sample_verifying (sample_view CHR ''1'' None) (Inr sample_proof)
    (sample_state sample_verifying (Some (AwaitProof (sample_view CHR ''1'' None))) [sample_command]))"
    by (rule Recovery_Step [OF _ Proved]) (rule sample_task, rule sample_task, simp add: sample_task(3) sample_current sample_ids)
  then have "recovery_reachable plain_digest (sample_state sample_verifying (Some (AwaitFinal (sample_view CHR ''1'' None) sample_proof)) [sample_command])"
    unfolding sample_proves .
  then show ?thesis
    by (rule then_world [OF _ Finished sample_ends]) (rule sample_task, rule sample_task, simp add: sample_task(3) sample_current sample_ids)
qed

section \<open>What a recovery promises\<close>

text \<open>C17: a recovery sends at most one command to a service, whatever is interrupted and however often the
  controller is restarted. The command's operation is saved as issued, no work was on the worker when it was
  sent, no operator had taken the worker back, automatic actors were allowed, and it names the very
  invocation (or stopped state) that the operation was requested for.\<close>

theorem one_command_per_operation:
  assumes "recovery_reachable digest y"
  shows "distinct (map (\<lambda>ic. ro_id (ic_op ic)) (ry_commands y)) \<and>
    list_all (\<lambda>ic. list_ex (\<lambda>op. ro_id op = ro_id (ic_op ic) \<and> ro_issued op) (jo_operations (ry_journal y)) \<and>
      \<not> ic_busy ic \<and> \<not> ro_override (ic_op ic) \<and> (ro_actor (ic_op ic) = Operator \<or> ic_automatic ic) \<and>
      (case ro_action (ic_op ic) of StartService \<Rightarrow> ic_epoch ic = ro_stopped_epoch (ic_op ic) | BootstrapService \<Rightarrow> True
       | _ \<Rightarrow> ic_instance ic = ro_instance (ic_op ic))) (ry_commands y)"
  using recovery_reachable_ok [OF assms]
  by (auto simp: recovery_ok_def journal_ok_def commands_ok_def command_good_def list_all_iff list_ex_iff Let_def
      split: service_action.split)

theorem one_command_per_operation_witness:
  "let y = sample_state sample_intended (Some CommandIssued) [sample_command]
   in list_all (\<lambda>ic. list_ex (\<lambda>op. ro_id op = ro_id (ic_op ic) \<and> ro_issued op) (jo_operations (ry_journal y))) (ry_commands y) \<and>
      length (ry_commands y) = 1"
  using one_command_per_operation [OF sample_issued_reachable] by (simp add: list_all_iff sample_state_def Let_def)

section \<open>What a verification rests on\<close>

text \<open>\<open>ran_new\<close>: the invocation that was verified is not the one the operation was requested against. For a
  stopped service any invocation is new; otherwise the verified one is another than the operation's, or the
  first inspection of the execution had already found the service valid and replaced: another invocation, one
  that started over a second after the failure (no canary), or one that the operation only had to verify.\<close>

definition first_new :: "service_config \<Rightarrow> service_view \<Rightarrow> operation \<Rightarrow> bool" where
  "first_new c before op \<longleftrightarrow> view_valid before c \<and>
     (ro_action op = AdoptVerify \<or> sv_instance before \<noteq> ro_instance op \<or>
      \<not> ro_canary op \<and> (case (sv_started before, Option.bind (ro_quarantine op) qm_at) of
         (Some started, Some failed) \<Rightarrow> failed + 1000 < started | _ \<Rightarrow> False))"

definition ran_new :: "service_config \<Rightarrow> service_view \<Rightarrow> service_view \<Rightarrow> operation \<Rightarrow> bool" where
  "ran_new c before after op \<longleftrightarrow>
     ro_action op = StartService \<or> sv_instance after \<noteq> ro_instance op \<or> first_new c before op"

definition proved :: "recovery_evidence \<Rightarrow> operation \<Rightarrow> bool" where
  "proved e op \<longleftrightarrow> re_op e = ro_id op \<and> ro_proof op = Some (re_proof e) \<and>
     ran_new (re_config e) (re_before e) (re_after e) op \<and>
     ro_new_instance op = sv_instance (re_after e) \<and> sv_instance (re_after e) \<noteq> None \<and>
     sv_instance (re_final e) = sv_instance (re_after e) \<and>
     view_valid (re_after e) (re_config e) \<and> view_valid (re_final e) (re_config e) \<and>
     sv_fault (re_after e) = None \<and> sv_fault (re_final e) = None \<and>
     (ro_action op = BootstrapService \<longrightarrow> bootstrap_proof_valid (Some (re_proof e)) (ro_context op))"

definition done_op :: "operation \<Rightarrow> bool" where
  "done_op op \<longleftrightarrow> ro_state op = Recovered \<or> ro_state op = VerifiedPaused"

definition same_request :: "operation \<Rightarrow> operation \<Rightarrow> bool" where
  "same_request p q \<longleftrightarrow> ro_id p = ro_id q \<and> ro_action p = ro_action q \<and> ro_instance p = ro_instance q \<and>
     ro_canary p = ro_canary q \<and> ro_quarantine p = ro_quarantine q \<and> ro_context p = ro_context q"

definition after_good :: "task \<Rightarrow> service_view \<Rightarrow> operation \<Rightarrow> bool" where
  "after_good t s op \<longleftrightarrow> ran_new (tk_config t) (tk_before t) s op \<and> view_valid s (tk_config t) \<and> sv_fault s = None"

definition phase_new :: "task \<Rightarrow> operation \<Rightarrow> bool" where
  "phase_new t op \<longleftrightarrow> (case tk_phase t of
      AwaitReplacement b _ \<Rightarrow> b \<longrightarrow> ro_action op = StartService \<or> first_new (tk_config t) (tk_before t) op
    | AwaitProof s \<Rightarrow> after_good t s op | AwaitFinal s _ \<Rightarrow> after_good t s op | _ \<Rightarrow> True)"

definition done_ok :: "recovery_evidence list \<Rightarrow> operation list \<Rightarrow> bool" where
  "done_ok es ops \<longleftrightarrow> (\<forall>op \<in> set ops. done_op op \<longrightarrow> (\<exists>e \<in> set es. proved e op))"

definition task_new :: "operation list \<Rightarrow> task option \<Rightarrow> bool" where
  "task_new ops t \<longleftrightarrow> (case t of None \<Rightarrow> True | Some t \<Rightarrow> (\<forall>op \<in> set ops. ro_id op = tk_op t \<longrightarrow> phase_new t op))"

definition evidence_ok :: "recovery_system \<Rightarrow> bool" where
  "evidence_ok y \<longleftrightarrow> done_ok (ry_proofs y) (jo_operations (ry_journal y)) \<and> task_new (jo_operations (ry_journal y)) (ry_task y)"

lemma same_request_new:
  assumes "same_request p q"
  shows "first_new c b p = first_new c b q" and "ran_new c b a p = ran_new c b a q" and "phase_new t p = phase_new t q"
proof -
  show f: "first_new c b p = first_new c b q" for c b using assms by (simp add: first_new_def same_request_def)
  show r: "ran_new c b a p = ran_new c b a q" for c b a using assms by (simp add: ran_new_def f) (simp add: same_request_def)
  have "ro_action p = ro_action q" using assms by (simp add: same_request_def)
  then show "phase_new t p = phase_new t q"
    by (simp add: phase_new_def after_good_def f r split: recovery_phase.split)
qed

lemma proved_same:
  assumes "same_request p q" and "ro_new_instance p = ro_new_instance q" and "ro_proof p = ro_proof q"
  shows "proved e p = proved e q"
  using assms(2,3) same_request_new(2) [OF assms(1)] assms(1) by (simp add: proved_def) (simp add: same_request_def)

text \<open>A change of the operations that keeps what was requested, and what is proved of the finished ones.\<close>

definition keeps_proofs :: "(operation \<Rightarrow> operation) \<Rightarrow> bool" where
  "keeps_proofs f \<longleftrightarrow> (\<forall>op. same_request (f op) op \<and>
     (done_op (f op) \<longrightarrow> done_op op \<and> ro_new_instance (f op) = ro_new_instance op \<and> ro_proof (f op) = ro_proof op))"

lemma done_ok_map: "done_ok es ops \<Longrightarrow> keeps_proofs g \<Longrightarrow> done_ok es (map g ops)"
  unfolding done_ok_def keeps_proofs_def using proved_same by (fastforce simp del: bex_simps)

lemma task_new_map: "task_new ops t \<Longrightarrow> \<forall>op \<in> set ops. same_request (g op) op \<Longrightarrow> task_new (map g ops) t"
  using same_request_new(3) by (fastforce simp: task_new_def same_request_def split: option.splits)

lemma evidence_update:
  assumes "evidence_ok y" and "keeps_proofs f"
  shows "evidence_ok (with_journal (update_op i f now) y)"
proof -
  have k: "keeps_proofs (\<lambda>op. if ro_id op = i then (f op)\<lparr>ro_updated := now\<rparr> else op)"
    using assms(2) by (simp add: keeps_proofs_def same_request_def done_op_def)
  then show ?thesis
    using assms(1) done_ok_map [OF _ k] task_new_map [of "jo_operations (ry_journal y)" "ry_task y"]
    unfolding evidence_ok_def with_journal_fields update_op_operations with_journal_def
    by (simp add: update_op_operations keeps_proofs_def)
qed

lemma other_fields_proofs [simp]:
  "ry_proofs (end_task i w y) = ry_proofs y" "ry_proofs (with_journal f y) = ry_proofs y" "ry_proofs (set_node i g y) = ry_proofs y"
  "ry_proofs (mark_recovering i y) = ry_proofs y" "ry_proofs (to_phase p t y) = ry_proofs y"
  "ry_proofs (inspect_in digest w a r y) = ry_proofs y"
  by (simp_all add: end_task_def set_node_def with_journal_def mark_recovering_def to_phase_def inspect_in_def Let_def)

lemma evidence_inspect [simp]: "evidence_ok (inspect_in digest w a r y) = evidence_ok y"
  by (simp add: evidence_ok_def)

lemma evidence_mark [simp]: "evidence_ok (mark_recovering w y) = evidence_ok y"
  by (simp add: evidence_ok_def)

lemma evidence_end: "evidence_ok y \<Longrightarrow> evidence_ok (end_task i w y)"
  by (simp add: evidence_ok_def task_new_def)

text \<open>Ending or starting a task needs only the journal's part.\<close>

lemma evidence_fail_core:
  assumes "done_ok (ry_proofs y) (jo_operations (ry_journal y))"
  shows "evidence_ok (fail_task message op y)"
proof -
  have "evidence_ok (y\<lparr>ry_task := None\<rparr>)" using assms by (simp add: evidence_ok_def task_new_def)
  then have "evidence_ok (with_journal (update_op i (\<lambda>o1. o1\<lparr>ro_state := failed_state b op, ro_error := c\<rparr>) n) (y\<lparr>ry_task := None\<rparr>))" for i b c n
    by (rule evidence_update) (auto simp: keeps_proofs_def same_request_def done_op_def failed_state_def Let_def)
  then have "done_ok (ry_proofs y) (jo_operations (update_op i (\<lambda>o1. o1\<lparr>ro_state := failed_state b op, ro_error := c\<rparr>) n (ry_journal y)))" for i b c n
    by (simp add: evidence_ok_def with_journal_def)
  then show ?thesis by (simp add: fail_task_def evidence_ok_def task_new_def Let_def)
qed

lemma evidence_fail: "evidence_ok y \<Longrightarrow> evidence_ok (fail_task message op y)"
  by (rule evidence_fail_core) (simp add: evidence_ok_def)

lemma op_unique:
  assumes "recovery_ok y" and "op \<in> set (jo_operations (ry_journal y))" and "q \<in> set (jo_operations (ry_journal y))" and "ro_id q = ro_id op"
  shows "q = op"
proof -
  have "inj_on ro_id (set (jo_operations (ry_journal y)))" using assms(1) by (simp add: recovery_ok_def journal_ok_def distinct_map)
  then show ?thesis using assms(2-4) by (auto dest: inj_onD)
qed

lemma evidence_phase:
  assumes "evidence_ok y" and "\<And>op. op \<in> set (jo_operations (ry_journal y)) \<Longrightarrow> ro_id op = tk_op t \<Longrightarrow> phase_new (t\<lparr>tk_phase := p\<rparr>) op"
  shows "evidence_ok (to_phase p t y)"
  using assms by (simp add: evidence_ok_def task_new_def)

lemma evidence_start_core:
  assumes "done_ok (ry_proofs y) (jo_operations (ry_journal y))"
  shows "evidence_ok (exec_start digest op reconcile y)"
proof -
  have "evidence_ok (y\<lparr>ry_task := Some \<lparr>tk_op = i, tk_reconcile = b, tk_config = c, tk_enrolled = e, tk_before = v,
      tk_phase = FirstInspection\<rparr>\<rparr>)" for i b c e v
    using assms by (simp add: evidence_ok_def task_new_def phase_new_def)
  then show ?thesis using evidence_fail_core [OF assms] by (simp add: exec_start_def Let_def)
qed

lemma evidence_issue:
  assumes y: "evidence_ok y"
  shows "evidence_ok (issue_command digest t op s y)"
proof -
  have k: "keeps_proofs intend"
    by (auto simp: keeps_proofs_def same_request_def done_op_def intend_def issuing_state_def split: service_action.splits)
  let ?y = "with_journal (update_op (ro_id op) intend (kn_now (ry_known y))) y"
  have u: "evidence_ok ?y" by (rule evidence_update [OF y k])
  have "evidence_ok (to_phase CommandIssued t (?y\<lparr>ry_commands := cs\<rparr>))" for cs
    using u by (intro evidence_phase) (simp_all add: evidence_ok_def phase_new_def)
  then show ?thesis using evidence_fail [OF u] by (simp add: issue_command_def Let_def split: option.split)
qed

lemma replaced_first_new:
  assumes "replaced_before s c op"
  shows "ro_action op = StartService \<or> first_new c s op"
proof -
  have "view_valid s c" using assms by (simp add: replaced_before_def active_before_def live_bootstrap_def split: if_splits)
  then show ?thesis
    using assms
    by (auto simp: replaced_before_def first_new_def op_failed_at_def opt_test_def started_after_def split: option.splits)
qed

lemma evidence_first:
  assumes y: "evidence_ok y" and ok: "recovery_ok y" and op: "current_op (tk_op t) (ry_journal y) = Some op"
  shows "evidence_ok (exec_first digest t op answer removal y)"
proof -
  let ?y = "inspect_in digest (ro_worker op) answer removal y" and ?s = "answer_view answer" and ?c = "tk_config t"
  let ?t = "t\<lparr>tk_before := ?s\<rparr>"
  have e: "evidence_ok ?y" using y by simp
  have "evidence_ok (to_phase (AwaitReplacement True d) ?t ?y)" if "replaced_before ?s ?c op" for d
  proof (rule evidence_phase [OF e])
    fix q
    assume "q \<in> set (jo_operations (ry_journal ?y))" "ro_id q = tk_op ?t"
    then have "q = op" using op_unique [OF ok] current_op_SomeD [OF op] by simp
    then show "phase_new (?t\<lparr>tk_phase := AwaitReplacement True d\<rparr>) q"
      using replaced_first_new [OF that] by (simp add: phase_new_def)
  qed
  moreover have "keeps_proofs (\<lambda>o1. o1\<lparr>ro_state := Reconciling\<rparr>)" by (simp add: keeps_proofs_def same_request_def done_op_def)
  then have "evidence_ok (to_phase (AwaitReplacement False d) ?t (with_journal (update_op i (\<lambda>o1. o1\<lparr>ro_state := Reconciling\<rparr>) n) ?y))" for d i n
    by (intro evidence_phase evidence_update [OF e]) (simp_all add: phase_new_def)
  ultimately show ?thesis
    unfolding exec_first_def Let_def using evidence_fail [OF e] evidence_issue [OF e] by (simp split: option.split)
qed

lemma evidence_acknowledged: "evidence_ok y \<Longrightarrow> evidence_ok (exec_acknowledged t op ack y)"
  unfolding exec_acknowledged_def
  by (rule evidence_phase)
    (auto simp: keeps_proofs_def same_request_def done_op_def phase_new_def with_journal_def [of id] split: option.split
      intro!: evidence_update)

lemma evidence_wait:
  assumes y: "evidence_ok y" and ok: "recovery_ok y" and t: "ry_task y = Some t" "tk_phase t = AwaitReplacement replaced deadline"
    and op: "current_op (tk_op t) (ry_journal y) = Some op"
  shows "evidence_ok (exec_wait digest t op replaced deadline answer removal y)"
proof -
  let ?y = "inspect_in digest (ro_worker op) answer removal y" and ?s = "answer_view answer"
  let ?f = "\<lambda>o1. o1\<lparr>ro_state := Verifying, ro_new_instance := sv_instance ?s\<rparr>"
  let ?z = "with_journal (update_op (ro_id op) ?f (kn_now (ry_known ?y))) ?y"
  have e: "evidence_ok ?y" using y by simp
  have mem: "op \<in> set (jo_operations (ry_journal y))" "ro_id op = tk_op t" using current_op_SomeD [OF op] by simp_all
  note same = op_unique [OF ok mem(1)]
  have z: "evidence_ok (to_phase (AwaitProof ?s) t ?z)"
    if seen: "replacement_seen t op replaced ?s" and none: "replacement_error digest (ry_journal ?y) (know ?y) t op ?s = None"
  proof (rule evidence_phase)
    show "evidence_ok ?z" by (rule evidence_update [OF e]) (simp add: keeps_proofs_def same_request_def done_op_def)
    fix q
    assume q: "q \<in> set (jo_operations (ry_journal ?z))" "ro_id q = tk_op t"
    obtain q0 where q0: "q0 \<in> set (jo_operations (ry_journal y))" "q = (if ro_id q0 = ro_id op then (?f q0)\<lparr>ro_updated := kn_now (ry_known ?y)\<rparr> else q0)"
      using q(1) by (auto simp: update_op_operations)
    have "same_request q q0" unfolding q0(2) by (simp add: same_request_def)
    note q0 = q0(1) this
    have "ro_id q0 = ro_id op" using q0(2) q(2) mem(2) by (simp add: same_request_def)
    then have sr: "same_request q op" using same [OF q0(1)] q0(2) by blast
    have "phase_new t op" using y t(1) mem by (simp add: evidence_ok_def task_new_def)
    then have "replaced \<longrightarrow> ro_action op = StartService \<or> first_new (tk_config t) (tk_before t) op"
      unfolding phase_new_def t(2) by simp
    moreover have "ro_action op = StartService \<or> sv_instance ?s \<noteq> ro_instance op \<or> replaced"
      using seen unfolding replacement_seen_def by blast
    ultimately have "ran_new (tk_config t) (tk_before t) ?s op" unfolding ran_new_def by blast
    moreover have "view_valid ?s (tk_config t)" "sv_fault ?s = None"
      using none unfolding replacement_error_def by (simp_all split: if_splits)
    ultimately have "after_good t ?s op" unfolding after_good_def by blast
    then show "phase_new (t\<lparr>tk_phase := AwaitProof ?s\<rparr>) q"
      unfolding same_request_new(3) [OF sr] by (simp add: phase_new_def after_good_def)
  qed
  show ?thesis
  proof (cases "replacement_seen t op replaced ?s")
    case True
    then show ?thesis
      using z [OF True] evidence_fail [OF e]
      by (cases "replacement_error digest (ry_journal ?y) (know ?y) t op ?s") (simp_all add: exec_wait_def Let_def)
  next
    case False
    then show ?thesis using evidence_fail [OF e] e by (simp add: exec_wait_def Let_def)
  qed
qed

lemma evidence_proof:
  assumes "evidence_ok y" and "ry_task y = Some t" and "tk_phase t = AwaitProof after"
  shows "evidence_ok (exec_proof t op after result y)"
  using assms evidence_fail [OF assms(1)]
  by (cases result) (simp_all add: exec_proof_def evidence_ok_def task_new_def phase_new_def after_good_def)

lemma final_error_None:
  assumes "final_error digest j k t op after p s = None"
  shows "view_valid s (tk_config t)" and "sv_instance s = sv_instance after" and "sv_fault s = None"
    and "ro_action op = BootstrapService \<Longrightarrow> bootstrap_proof_valid (Some p) (ro_context op)"
  using assms by (auto simp: final_error_def split: if_splits)

lemma evidence_final:
  assumes y: "evidence_ok y" and ok: "recovery_ok y" and t: "ry_task y = Some t" "tk_phase t = AwaitFinal after p"
    and op: "current_op (tk_op t) (ry_journal y) = Some op"
  shows "evidence_ok (exec_final digest t op after p answer removal y)"
proof -
  let ?y = "inspect_in digest (ro_worker op) answer removal y" and ?s = "answer_view answer"
  let ?n = "note_proof t op after ?s p ?y" and ?now = "kn_now (ry_known ?y)"
  have e: "evidence_ok ?y" using y by simp
  have mem: "op \<in> set (jo_operations (ry_journal y))" "ro_id op = tk_op t" using current_op_SomeD [OF op] by simp_all
  note same = op_unique [OF ok mem(1)]
  have new: "ro_new_instance op = sv_instance after" "sv_instance after \<noteq> None"
    using ok t mem by (auto simp: recovery_ok_def task_ok_def seen_after_def)
  have good: "after_good t after op" using y t mem by (simp add: evidence_ok_def task_new_def phase_new_def)
  have adopt: "jo_operations (adopt_in t op n j) = jo_operations j" for n j
    by (simp add: adopt_in_def split: option.split)
  have ends: "done_ok (ry_proofs ?n) (jo_operations (update_op (ro_id op) (finish_op st p) ?now (ry_journal ?y)))"
    if none: "final_error digest (ry_journal ?y) (know ?y) t op after p ?s = None" for st
    unfolding done_ok_def
  proof (intro ballI impI)
    fix q
    assume q: "q \<in> set (jo_operations (update_op (ro_id op) (finish_op st p) ?now (ry_journal ?y)))" and d: "done_op q"
    obtain q0 where q0: "q0 \<in> set (jo_operations (ry_journal y))" "q = (if ro_id q0 = ro_id op then (finish_op st p q0)\<lparr>ro_updated := ?now\<rparr> else q0)"
      using q by (auto simp: update_op_operations)
    show "\<exists>e \<in> set (ry_proofs ?n). proved e q"
    proof (cases "ro_id q0 = ro_id op")
      case True
      then have "q = (finish_op st p op)\<lparr>ro_updated := ?now\<rparr>" using same [OF q0(1)] q0(2) by simp
      then have q': "same_request q op" "ro_new_instance q = ro_new_instance op" "ro_proof q = Some p"
        by (simp_all add: finish_op_def same_request_def)
      have "proved \<lparr>re_op = ro_id op, re_config = tk_config t, re_before = tk_before t, re_after = after, re_final = ?s, re_proof = p\<rparr> q"
        using final_error_None [OF none] new good q' same_request_new(2) [OF q'(1)] by (auto simp: proved_def after_good_def same_request_def)
      then show ?thesis by (simp add: note_proof_def)
    next
      case False
      then have "\<exists>e \<in> set (ry_proofs y). proved e q" using y q0 d by (simp add: evidence_ok_def done_ok_def)
      then show ?thesis by (auto simp: note_proof_def)
    qed
  qed
  have "evidence_ok (end_task i w (set_node v h (with_journal (\<lambda>j. adopt_in t op ?now (update_op (ro_id op) (finish_op st p) ?now j)) ?n)))"
    "evidence_ok (end_task i w (with_journal (\<lambda>j. adopt_in t op ?now (update_op (ro_id op) (finish_op st p) ?now j)) ?n))"
    if "final_error digest (ry_journal ?y) (know ?y) t op after p ?s = None" for st i w v h
    using ends [OF that, of st] by (simp_all add: evidence_ok_def task_new_def adopt)
  then show ?thesis
    unfolding exec_final_def Let_def using evidence_fail [OF e] by (simp split: option.split)
qed

lemma evidence_request:
  assumes y: "evidence_ok y" and ok: "recovery_ok y"
  shows "evidence_ok (snd (recovery_request digest worker evidence i actor canary y))"
  using recovery_request_cases [of digest worker evidence i actor canary y]
proof
  assume "snd (recovery_request digest worker evidence i actor canary y) = y"
  then show ?thesis using y by simp
next
  assume "current_op i (ry_journal y) = None \<and> (\<exists>n s c. let op = new_operation digest (ry_journal y) (know y) i actor evidence canary n s c in
     snd (recovery_request digest worker evidence i actor canary y) = exec_start digest op False (mark_recovering worker
       (with_journal (\<lambda>j. j\<lparr>jo_operations := jo_operations j @ [op]\<rparr>) y)))"
  then obtain n s c where step: "snd (recovery_request digest worker evidence i actor canary y) =
      exec_start digest (new_operation digest (ry_journal y) (know y) i actor evidence canary n s c) False (mark_recovering worker
       (with_journal (\<lambda>j. j\<lparr>jo_operations := jo_operations j @ [new_operation digest (ry_journal y) (know y) i actor evidence canary n s c]\<rparr>) y))"
    unfolding Let_def by (elim conjE exE)
  show ?thesis
    unfolding step
    by (rule evidence_start_core) (use y in \<open>simp add: evidence_ok_def done_ok_def done_op_def new_operation_fields(2)\<close>)
qed

lemma evidence_pause: "evidence_ok y \<Longrightarrow> evidence_ok (operator_pause workers y)"
proof -
  let ?g = "\<lambda>op. if ro_worker op \<in> set workers \<and> \<not> terminal (ro_state op) then op\<lparr>ro_override := True, ro_updated := kn_now (ry_known y)\<rparr> else op"
  have k: "keeps_proofs ?g" by (simp add: keeps_proofs_def same_request_def done_op_def)
  assume "evidence_ok y"
  then show "evidence_ok (operator_pause workers y)"
    using done_ok_map [OF _ k] task_new_map [of _ _ ?g] k
    unfolding evidence_ok_def operator_pause_def with_journal_fields other_fields_proofs by (simp add: keeps_proofs_def)
qed

lemma evidence_reconcile:
  assumes y: "evidence_ok y"
  shows "evidence_ok (snd (recovery_reconcile digest i y))"
proof -
  let ?f = "\<lambda>o1. o1\<lparr>ro_state := Reconciling, ro_error := None\<rparr>"
  have "evidence_ok (with_journal (update_op i ?f now) y)" for now
    by (rule evidence_update [OF y]) (simp add: keeps_proofs_def same_request_def done_op_def)
  then have "evidence_ok (exec_start digest op True (mark_recovering w (with_journal (update_op i ?f now) y)))" for w now op
    by (intro evidence_start_core) (simp add: evidence_ok_def)
  then show ?thesis using y by (simp add: recovery_reconcile_def Let_def split: option.split)
qed

lemma evidence_tick: "evidence_ok y \<Longrightarrow> evidence_ok (tick_pending digest y)"
proof -
  assume y: "evidence_ok y"
  then have "evidence_ok (exec_start digest op True y)" for op by (intro evidence_start_core) (simp add: evidence_ok_def)
  then show "evidence_ok (tick_pending digest y)" using y by (simp add: tick_pending_def split: option.split)
qed

lemma evidence_restart: "evidence_ok y \<Longrightarrow> evidence_ok (restart_controller k y)"
proof -
  have keep: "evidence_ok (foldl (\<lambda>y op. if terminal (ro_state op) then y else mark_recovering (ro_worker op) y) z ops)"
    if "evidence_ok z" for z and ops :: "operation list"
    using that by (induction ops arbitrary: z) simp_all
  show "evidence_ok y \<Longrightarrow> ?thesis"
    unfolding restart_controller_def by (rule keep) (simp add: evidence_ok_def task_new_def)
qed

lemma recovery_step_evidence:
  assumes "recovery_step digest y z" and "recovery_ok y" and "evidence_ok y"
  shows "evidence_ok z"
  using assms(1)
proof (cases rule: recovery_step.cases)
  case (First t op answer removal)
  then show ?thesis using evidence_first [OF assms(3,2)] by simp
next
  case (Waited t replaced deadline op answer removal)
  then show ?thesis using evidence_wait [OF assms(3,2)] by simp
next
  case (Finished t after p op answer removal)
  then show ?thesis using evidence_final [OF assms(3,2)] by simp
next
  case (World k)
  then show ?thesis using assms(3) by (simp add: evidence_ok_def)
next
  case (Automatic_Set b)
  then show ?thesis using assms(3) by (simp add: evidence_ok_def set_automatic_def)
next
  case (Handback_Set b)
  then show ?thesis using assms(3) by (simp add: evidence_ok_def set_handback_def)
qed (simp_all add: assms evidence_request evidence_pause evidence_reconcile evidence_tick evidence_restart
    evidence_acknowledged evidence_proof)

lemma recovery_reachable_evidence: "recovery_reachable digest y \<Longrightarrow> evidence_ok y"
proof (induction rule: recovery_reachable.induct)
  case (Recovery_Start k)
  show ?case by (simp add: recovery_initial_def evidence_ok_def done_ok_def task_new_def)
next
  case (Recovery_Step y z)
  then show ?case using recovery_step_evidence recovery_reachable_ok by blast
qed

text \<open>C18: an operation counts as recovered only with a proof of generation that ran on a new invocation of the
  service: before the proof and after it the service was inspected as enrolled and without a fault, both
  inspections saw one invocation, which is the one the journal names, and it is not the invocation the
  operation was requested against (unless the execution had found the service replaced already). A bootstrap
  needs a valid proof. An operation is never recovered when the worker was paused at the request or an
  operator paused it since: such a worker is verified and left paused for its operator, on the same evidence.\<close>

theorem recovered_means_proved:
  assumes "recovery_reachable digest y" and "op \<in> set (jo_operations (ry_journal y))"
    and "ro_state op = Recovered \<or> ro_state op = VerifiedPaused"
  shows "(\<exists>e \<in> set (ry_proofs y). re_op e = ro_id op \<and> ro_proof op = Some (re_proof e) \<and>
      ran_new (re_config e) (re_before e) (re_after e) op \<and>
      ro_new_instance op = sv_instance (re_after e) \<and> sv_instance (re_after e) \<noteq> None \<and>
      sv_instance (re_final e) = sv_instance (re_after e) \<and>
      view_valid (re_after e) (re_config e) \<and> view_valid (re_final e) (re_config e) \<and>
      sv_fault (re_after e) = None \<and> sv_fault (re_final e) = None \<and>
      (ro_action op = BootstrapService \<longrightarrow> bootstrap_proof_valid (Some (re_proof e)) (ro_context op))) \<and>
    (ro_state op = Recovered \<longrightarrow> \<not> ro_override op \<and> \<not> ro_was_paused op)"
proof (rule conjI)
  have "\<exists>e \<in> set (ry_proofs y). proved e op"
    using recovery_reachable_evidence [OF assms(1)] assms(2,3) unfolding evidence_ok_def done_ok_def done_op_def by blast
  then show "\<exists>e \<in> set (ry_proofs y). re_op e = ro_id op \<and> ro_proof op = Some (re_proof e) \<and>
      ran_new (re_config e) (re_before e) (re_after e) op \<and>
      ro_new_instance op = sv_instance (re_after e) \<and> sv_instance (re_after e) \<noteq> None \<and>
      sv_instance (re_final e) = sv_instance (re_after e) \<and>
      view_valid (re_after e) (re_config e) \<and> view_valid (re_final e) (re_config e) \<and>
      sv_fault (re_after e) = None \<and> sv_fault (re_final e) = None \<and>
      (ro_action op = BootstrapService \<longrightarrow> bootstrap_proof_valid (Some (re_proof e)) (ro_context op))"
    unfolding proved_def .
  show "ro_state op = Recovered \<longrightarrow> \<not> ro_override op \<and> \<not> ro_was_paused op"
    using recovery_reachable_ok [OF assms(1)] assms(2) by (simp add: recovery_ok_def journal_ok_def op_good_def)
qed

theorem recovered_means_proved_witness:
  "ro_new_instance sample_finished = Some (sample_instance CHR ''1'') \<and> ro_instance sample_finished = Some (sample_instance CHR ''0'') \<and>
   ro_proof sample_finished = Some sample_proof \<and> ran_new sample_config (sample_view CHR ''0'' (Some sample_fault)) (sample_view CHR ''1'' None) sample_finished"
proof -
  let ?y = "sample_state sample_finished None [sample_command]"
  have m: "sample_finished \<in> set (jo_operations (ry_journal ?y))"
    by (simp add: sample_state_def sample_journal_def)
  have s: "ro_state sample_finished = Recovered \<or> ro_state sample_finished = VerifiedPaused" by (simp add: sample_finished_def)
  have "ry_proofs ?y = [sample_evidence]" by (simp add: sample_state_def)
  then show ?thesis
    using conjunct1 [OF recovered_means_proved [OF sample_recovered_reachable m s]]
    by (simp add: sample_evidence_def sample_view_def sample_finished_def sample_verifying_def sample_intended_def sample_op_def)
qed

end
