(* ===== verification/Recovery_Status.thy ===== *)
theory Recovery_Status
  imports Recovery_Execution
begin

text \<open>
  The two reports of \<open>ds4-gateway/recovery.mjs\<close>: \<open>enrollmentChecklist\<close>, what is still missing before a worker's
  recovery can be enrolled, and \<open>workerStatus\<close>, what is offered for it now. Neither has authority of its own.
  The proof check of the other verifiers (\<open>recovery-verify.mjs\<close>) is the parameter \<open>other_proof\<close>.
\<close>

datatype inspection_state = NotObserved | StaleInspection | FailedInspection | ObservedInspection

datatype identity_state = UnknownIdentity | RunningMatch | StoppedMatch | ChangedProfile | UnverifiedIdentity

datatype native_state = NativeNotApplicable | NativeUnknown | NativeEnabled | NativeDisabled

record canary_report =
  cr_state :: op_state
  cr_action :: service_action
  cr_recorded :: int
  cr_proof_valid :: bool
  cr_fields_match :: bool
  cr_instance_matches :: bool

datatype next_step =
    InspectAndPropose | ReconcileBinding | AwaitInspection | InspectIdentity | RespectNativeDisable | VerifyNativeState
  | WaitForWork | RequestCanaryWindow | ReviewCanaryReceipt | ReviewCertification | ReviewSettings

record checklist =
  ck_bound :: bool
  ck_inspection :: inspection_state
  ck_age :: "int option"
  ck_identity :: identity_state
  ck_native :: native_state
  ck_canary :: "canary_report option"
  ck_certified :: "bool option"
  ck_steps :: "next_step list"

definition inspection_failed :: "observation option \<Rightarrow> bool" where
  "inspection_failed ob \<longleftrightarrow> (case ob of Some (_, Inl _) \<Rightarrow> True | _ \<Rightarrow> False)"

definition inspection_state_of :: "observation option \<Rightarrow> int \<Rightarrow> inspection_state" where
  "inspection_state_of ob now = (if ob = None then NotObserved else if \<not> fresh_inspection ob now then StaleInspection
     else if inspection_failed ob then FailedInspection else ObservedInspection)"

definition usable_inspection :: "observation option \<Rightarrow> int \<Rightarrow> bool" where
  "usable_inspection ob now \<longleftrightarrow> fresh_inspection ob now \<and> \<not> inspection_failed ob"

definition identity_state_of :: "bool \<Rightarrow> service_view \<Rightarrow> service_config option \<Rightarrow> identity_state" where
  "identity_state_of usable s c =
     (case c of None \<Rightarrow> UnknownIdentity
      | Some c \<Rightarrow> if \<not> usable then UnknownIdentity else if view_valid s c then RunningMatch else if view_stopped s c then StoppedMatch
          else if profile_candidate s (Some c) \<noteq> None then ChangedProfile else UnverifiedIdentity)"

definition native_state_of :: "bool \<Rightarrow> service_view \<Rightarrow> service_config option \<Rightarrow> native_state" where
  "native_state_of usable s c =
     (if map_option rc_adapter c \<noteq> Some Launchd then NativeNotApplicable
      else if \<not> usable then NativeUnknown
      else case sv_native_disabled s of Some False \<Rightarrow> NativeEnabled | Some True \<Rightarrow> NativeDisabled | None \<Rightarrow> NativeUnknown)"

definition last_canary :: "journal \<Rightarrow> string \<Rightarrow> operation option" where
  "last_canary j worker = (case filter (\<lambda>op. ro_worker op = worker \<and> ro_canary op \<and> ro_actor op = Operator) (jo_operations j) of
     [] \<Rightarrow> None | ops \<Rightarrow> Some (last ops))"

definition canary_report_of ::
    "(hashed \<Rightarrow> string) \<Rightarrow> (service_config option \<Rightarrow> (proof_record option \<Rightarrow> int \<Rightarrow> bool) option) \<Rightarrow> recovery_node \<Rightarrow> bool \<Rightarrow> bool \<Rightarrow>
     service_view \<Rightarrow> service_config option \<Rightarrow> operation \<Rightarrow> canary_report" where
  "canary_report_of digest other_proof n bound usable s c op =
     \<lparr>cr_state = ro_state op, cr_action = ro_action op, cr_recorded = ro_updated op,
      cr_proof_valid = opt_test (\<lambda>context. (case other_proof c of Some check \<Rightarrow> check (ro_proof op) context
        | None \<Rightarrow> bootstrap_proof_valid (ro_proof op) context)) (nd_context n),
      cr_fields_match = (bound \<and> opt_test (\<lambda>c. ro_machine op = Some (rc_machine c) \<and> ro_profile op = Some (rc_profile c)) c \<and>
        nd_context n = Some (ro_context op) \<and> ro_binding op = digest (binding_print n)),
      cr_instance_matches = (usable \<and> ro_new_instance op \<noteq> None \<and> ro_new_instance op = sv_instance s)\<rparr>"

definition canary_settled :: "canary_report \<Rightarrow> bool" where
  "canary_settled r \<longleftrightarrow> cr_state r \<in> {VerifiedPaused, Recovered} \<and> cr_proof_valid r \<and> cr_fields_match r \<and> cr_instance_matches r"

definition checklist_steps ::
    "bool \<Rightarrow> bool \<Rightarrow> bool \<Rightarrow> identity_state \<Rightarrow> native_state \<Rightarrow> bool \<Rightarrow> canary_report option \<Rightarrow> bool option \<Rightarrow> next_step list" where
  "checklist_steps configured bound usable identity native busy canary certified =
     (if \<not> configured then [InspectAndPropose]
      else if \<not> bound then [ReconcileBinding]
      else (if \<not> usable then [AwaitInspection] else if identity \<notin> {RunningMatch, StoppedMatch} then [InspectIdentity] else []) @
        (if native = NativeDisabled then [RespectNativeDisable] else if native = NativeUnknown then [VerifyNativeState] else []) @
        (if busy then [WaitForWork] else []) @
        (case canary of None \<Rightarrow> [RequestCanaryWindow] | Some r \<Rightarrow> if canary_settled r then [] else [ReviewCanaryReceipt]) @
        (if certified = Some False then [ReviewCertification] else []) @ [ReviewSettings])"

definition enrollment_checklist ::
    "(hashed \<Rightarrow> string) \<Rightarrow> (service_config option \<Rightarrow> (proof_record option \<Rightarrow> int \<Rightarrow> bool) option) \<Rightarrow> journal \<Rightarrow> knowledge \<Rightarrow> recovery_node \<Rightarrow> checklist" where
  "enrollment_checklist digest other_proof j k n =
     (let c = config_of j k (nd_id n); ob = kn_observed k (nd_id n); s = seen_view ob; now = kn_now k; bound = bound_to n c;
          usable = usable_inspection ob now; identity = identity_state_of (usable \<and> bound) s c; native = native_state_of usable s c;
          canary = map_option (canary_report_of digest other_proof n bound usable s c) (last_canary j (nd_id n));
          certified = (case c of Some c' \<Rightarrow> if rc_bootstrap_removed c' then Some (bootstrap_certified digest j n c') else None | None \<Rightarrow> None)
      in \<lparr>ck_bound = bound, ck_inspection = inspection_state_of ob now, ck_age = inspection_age ob now, ck_identity = identity,
          ck_native = native, ck_canary = canary, ck_certified = certified,
          ck_steps = checklist_steps (c \<noteq> None) bound usable identity native (busy_node n) canary certified\<rparr>)"

datatype worker_state = NodeRecovering | NodeManual | NodePaused | NodeQuarantined | NodeUnavailable | NodeMonitoring

record worker_report =
  wr_configured :: bool
  wr_reason :: "string option"
  wr_eligible :: bool
  wr_evidence :: "string option"
  wr_state :: worker_state
  wr_inspected :: "int option"
  wr_last :: "operation option"

definition worker_reason :: "(hashed \<Rightarrow> string) \<Rightarrow> journal \<Rightarrow> knowledge \<Rightarrow> recovery_node \<Rightarrow> string option" where
  "worker_reason digest j k n =
     (let ob = kn_observed k (nd_id n) in
      if \<not> fresh_inspection ob (kn_now k) then Some ''service_inspection_pending''
      else (case ob of Some (_, Inl e) \<Rightarrow> Some e | _ \<Rightarrow> offer_reason digest j k n (seen_view ob) False False False))"

definition worker_state_of :: "bool \<Rightarrow> recovery_node \<Rightarrow> worker_state" where
  "worker_state_of configured n =
     (if nd_recovering n then NodeRecovering else if \<not> configured then NodeManual else if nd_drained n then NodePaused
      else if nd_quarantine n \<noteq> None then NodeQuarantined else if \<not> nd_healthy n then NodeUnavailable else NodeMonitoring)"

definition worker_status :: "(hashed \<Rightarrow> string) \<Rightarrow> journal \<Rightarrow> knowledge \<Rightarrow> recovery_node \<Rightarrow> worker_report" where
  "worker_status digest j k n =
     (let configured = (kn_configs k (nd_id n) \<noteq> None); reason = worker_reason digest j k n; ob = kn_observed k (nd_id n);
          mine = filter (\<lambda>op. ro_worker op = nd_id n) (jo_operations j); eligible = (configured \<and> reason = None)
      in \<lparr>wr_configured = configured, wr_reason = (if configured then reason else Some ''manual_recovery_required''),
          wr_eligible = eligible,
          wr_evidence = (case config_of j k (nd_id n) of Some c \<Rightarrow> if eligible then Some (offer_evidence digest j k n (seen_view ob) c) else None
            | None \<Rightarrow> None),
          wr_state = worker_state_of configured n, wr_inspected = map_option fst ob,
          wr_last = (if mine = [] then None else Some (last mine))\<rparr>)"

section \<open>The report and the request agree\<close>

text \<open>What the status offers is what a request with its evidence is granted, as long as nothing changed: the
  monitor never acts on an offer the request would refuse.\<close>

lemma offered_is_accepted:
  assumes e: "wr_eligible (worker_status digest (ry_journal y) (know y) n)" and n: "find_recovery_node (know y) (nd_id n) = Some n"
    and new: "current_op i (ry_journal y) = None" "uuid_chars i" and room: "length (jo_operations (ry_journal y)) < 10000"
    and actor: "actor = Operator \<or> jo_automatic (ry_journal y)"
  shows "\<exists>op. fst (recovery_request digest (nd_id n) (wr_evidence (worker_status digest (ry_journal y) (know y) n)) i actor False y) = Inr op \<and>
     ro_worker op = nd_id n \<and> ro_actor op = actor \<and> ro_state op = Queued"
proof -
  let ?j = "ry_journal y" and ?k = "know y"
  let ?ob = "kn_observed ?k (nd_id n)"
  have conf: "kn_configs ?k (nd_id n) \<noteq> None" and reason: "worker_reason digest ?j ?k n = None"
    using e by (simp_all add: worker_status_def Let_def)
  have fresh: "fresh_inspection ?ob (kn_now ?k)" using reason by (simp add: worker_reason_def Let_def split: if_splits)
  have offer: "offer_reason digest ?j ?k n (seen_view ?ob) False False False = None"
    using reason fresh by (auto simp: worker_reason_def Let_def seen_view_def fresh_inspection_def inspection_age_def opt_test_def
        split: option.splits prod.splits sum.splits)
  obtain c where c: "config_of ?j ?k (nd_id n) = Some c" using offer by (cases "config_of ?j ?k (nd_id n)") (simp_all add: offer_reason_def)
  have evidence: "wr_evidence (worker_status digest ?j ?k n) = Some (offer_evidence digest ?j ?k n (seen_view ?ob) c)"
    using c conf reason by (simp add: worker_status_def Let_def)
  have auto: "\<not> (actor \<noteq> Operator \<and> \<not> jo_automatic ?j)" using actor by blast
  have "fst (recovery_request digest (nd_id n) (wr_evidence (worker_status digest ?j ?k n)) i actor False y) =
      Inr (new_operation digest ?j ?k i actor (wr_evidence (worker_status digest ?j ?k n)) False n (seen_view ?ob) c)"
    using new room auto n c fresh offer evidence by (simp add: recovery_request_def Let_def)
  then show ?thesis by (auto simp: new_operation_def Let_def)
qed

end
