(* ===== verification/Fleet_Speed.thy ===== *)
theory Fleet_Speed
  imports Stream_Lines
begin

text \<open>
  \<open>ds4-gateway/fleet-speed.mjs\<close>: the throughput and the energy of the fleet from the saved timing rows of the
  engines. Counters of a request are differenced before they are added up; a repeated row changes nothing.
  Times, tokens and watts are exact rationals. The identifiers of a row are read as texts; \<open>digest\<close> is
  the SHA-256 of a printed row, and the power of ten below a number is the parameter \<open>pow10\<close>.
\<close>

section \<open>Data\<close>

datatype speed_phase = Decode | Prefill

datatype basis = CompletedRequest | SampledRate

record phase_point =
  pp_tokens :: rat
  pp_seconds :: rat
  pp_at :: rat

record engine_state =
  es_epoch :: "string option"
  es_at :: "rat option"
  es_prefill :: "phase_point option"
  es_decode :: "phase_point option"

record speed_interval =
  si_node :: string
  si_kind :: speed_phase
  si_start :: rat
  si_end :: rat
  si_seconds :: rat
  si_tokens :: rat
  si_rate :: rat
  si_basis :: "basis option"
  si_source :: "string option"

record power_state =
  pw_at :: rat
  pw_watts :: rat
  pw_epoch :: "string option"
  pw_scope :: string
  pw_sensor :: bool

record energy_interval =
  ei_node :: string
  ei_start :: rat
  ei_end :: rat
  ei_seconds :: rat
  ei_watt_hours :: rat
  ei_start_watts :: rat
  ei_end_watts :: rat
  ei_scope :: string
  ei_sensor :: bool

record power_seen =
  po_at :: rat
  po_scope :: string
  po_sensor :: bool

record fleet_speed =
  fl_max :: nat
  fl_states :: "string \<rightharpoonup> engine_state"
  fl_powers :: "string \<rightharpoonup> power_state"
  fl_power_seen :: "(string \<times> power_seen) list"
  fl_excluded :: nat
  fl_seen :: "string list"
  fl_intervals :: "speed_interval list"
  fl_energy :: "energy_interval list"
  fl_rejected :: nat
  fl_evicted :: nat

definition new_fleet_speed :: "nat \<Rightarrow> fleet_speed" where
  "new_fleet_speed m = \<lparr>fl_max = m, fl_states = Map.empty, fl_powers = Map.empty, fl_power_seen = [], fl_excluded = 0, fl_seen = [],
     fl_intervals = [], fl_energy = [], fl_rejected = 0, fl_evicted = 0\<rparr>"

section \<open>Fields of a row\<close>

definition text_field :: "js \<Rightarrow> string \<Rightarrow> string option" where
  "text_field row k = (case jget row k of JStr s \<Rightarrow> Some s | _ \<Rightarrow> None)"

definition num_field :: "js \<Rightarrow> string \<Rightarrow> rat option" where
  "num_field row k = finite_num (jget row k)"

definition speed_node_text :: "string \<Rightarrow> bool" where
  "speed_node_text s \<longleftrightarrow> (case s of [] \<Rightarrow> False
     | c # cs \<Rightarrow> word_char c \<and> c \<noteq> CHR ''_'' \<and> length cs \<le> 63 \<and> list_all word_or_hyphen cs)"

definition row_count :: "js \<Rightarrow> rat option" where
  "row_count v = (case safe_int v of Some n \<Rightarrow> if n \<ge> 0 then Some (of_int n) else None | None \<Rightarrow> None)"

definition row_seconds :: "js \<Rightarrow> rat option" where
  "row_seconds v = (case finite_num v of Some s \<Rightarrow> if 0 \<le> s \<and> s \<le> 604800 then Some s else None | None \<Rightarrow> None)"

definition row_kinds :: "string list" where
  "row_kinds = [''process_start'', ''start'', ''prefill'', ''prefill_done'', ''decode'', ''finish'', ''hardware'', ''endpoint_phase'']"

definition phase_of :: "string \<Rightarrow> speed_phase option" where
  "phase_of s = (if s = ''decode'' then Some Decode else if s = ''prefill'' then Some Prefill else None)"

section \<open>Adding evidence\<close>

definition reject :: "fleet_speed \<Rightarrow> fleet_speed" where
  "reject f = f\<lparr>fl_rejected := fl_rejected f + 1\<rparr>"

definition keep_last :: "nat \<Rightarrow> 'a list \<Rightarrow> 'a list" where
  "keep_last n xs = drop (length xs - n) xs"

definition push_interval :: "speed_interval \<Rightarrow> fleet_speed \<Rightarrow> fleet_speed" where
  "push_interval i f =
     (let xs = fl_intervals f @ [i] in
      if length xs > fl_max f then f\<lparr>fl_intervals := keep_last (fl_max f) xs, fl_evicted := fl_evicted f + 1\<rparr>
      else f\<lparr>fl_intervals := xs\<rparr>)"

definition push_energy :: "energy_interval \<Rightarrow> fleet_speed \<Rightarrow> fleet_speed" where
  "push_energy i f =
     (let xs = fl_energy f @ [i] in
      if length xs > fl_max f then f\<lparr>fl_energy := keep_last (fl_max f) xs, fl_evicted := fl_evicted f + 1\<rparr>
      else f\<lparr>fl_energy := xs\<rparr>)"

definition blank_engine :: "string option \<Rightarrow> rat option \<Rightarrow> engine_state" where
  "blank_engine epoch t = \<lparr>es_epoch = epoch, es_at = t, es_prefill = None, es_decode = None\<rparr>"

definition reset_node :: "string \<Rightarrow> string option \<Rightarrow> rat option \<Rightarrow> fleet_speed \<Rightarrow> fleet_speed" where
  "reset_node n epoch t f = f\<lparr>fl_states := (fl_states f)(n \<mapsto> blank_engine epoch t)\<rparr>"

definition point_of :: "speed_phase \<Rightarrow> engine_state \<Rightarrow> phase_point option" where
  "point_of k s = (case k of Prefill \<Rightarrow> es_prefill s | Decode \<Rightarrow> es_decode s)"

definition set_point :: "speed_phase \<Rightarrow> phase_point \<Rightarrow> engine_state \<Rightarrow> engine_state" where
  "set_point k p s = (case k of Prefill \<Rightarrow> s\<lparr>es_prefill := Some p, es_at := Some (pp_at p)\<rparr>
     | Decode \<Rightarrow> s\<lparr>es_decode := Some p, es_at := Some (pp_at p)\<rparr>)"

text \<open>The interval between two readings of one counter, clipped to the time between them.\<close>

definition between :: "string \<Rightarrow> speed_phase \<Rightarrow> phase_point \<Rightarrow> phase_point \<Rightarrow> speed_interval option" where
  "between n k prior current =
     (let dt = pp_tokens current - pp_tokens prior; ds = pp_seconds current - pp_seconds prior;
          start = max (pp_at prior) (pp_at current - ds * 1000); duration = (pp_at current - start) / 1000
      in if duration > 0
         then Some \<lparr>si_node = n, si_kind = k, si_start = start, si_end = pp_at current, si_seconds = duration,
                si_tokens = dt * (duration / ds), si_rate = dt / ds, si_basis = None, si_source = None\<rparr>
         else None)"

definition add_point :: "string \<Rightarrow> speed_phase \<Rightarrow> phase_point \<Rightarrow> fleet_speed \<Rightarrow> fleet_speed" where
  "add_point n k current f =
     (let state = (case fl_states f n of Some s \<Rightarrow> s | None \<Rightarrow> blank_engine None None);
          f1 = f\<lparr>fl_states := (fl_states f)(n \<mapsto> set_point k current state)\<rparr> in
      case point_of k state of None \<Rightarrow> f1
      | Some prior \<Rightarrow>
          if pp_at current < pp_at prior then reject f
          else let dt = pp_tokens current - pp_tokens prior; ds = pp_seconds current - pp_seconds prior in
            if dt < 0 \<or> ds < 0 then reject f1
            else if dt = 0 \<or> ds = 0 then f1
            else if dt / ds > 100000 then reject f1
            else (case between n k prior current of None \<Rightarrow> f1 | Some i \<Rightarrow> push_interval i f1))"

definition add_power :: "string \<Rightarrow> rat \<Rightarrow> rat \<Rightarrow> string option \<Rightarrow> string \<Rightarrow> bool \<Rightarrow> fleet_speed \<Rightarrow> fleet_speed" where
  "add_power n t watts epoch scope sensor f =
     (let f1 = f\<lparr>fl_powers := (fl_powers f)(n \<mapsto> \<lparr>pw_at = t, pw_watts = watts, pw_epoch = epoch, pw_scope = scope, pw_sensor = sensor\<rparr>)\<rparr> in
      case fl_powers f n of None \<Rightarrow> f1
      | Some prior \<Rightarrow>
          if t \<le> pw_at prior then reject f
          else if pw_epoch prior \<noteq> None \<and> epoch \<noteq> None \<and> pw_epoch prior \<noteq> epoch \<or> pw_scope prior \<noteq> scope \<or> pw_sensor prior \<noteq> sensor then f1
          else let d = (t - pw_at prior) / 1000 in
            if d > 60 then f1
            else push_energy \<lparr>ei_node = n, ei_start = pw_at prior, ei_end = t, ei_seconds = d,
              ei_watt_hours = (pw_watts prior + watts) / 2 * d / 3600, ei_start_watts = pw_watts prior, ei_end_watts = watts,
              ei_scope = scope, ei_sensor = sensor\<rparr> f1)"

definition power_scopes :: "string list" where
  "power_scopes = [''compute_module'', ''system'', ''gpu_only'']"

text \<open>A JavaScript \<open>Map\<close> keeps the place of a key that is set again.\<close>

fun map_set :: "'k \<Rightarrow> 'v \<Rightarrow> ('k \<times> 'v) list \<Rightarrow> ('k \<times> 'v) list" where
  "map_set k v [] = [(k, v)]"
| "map_set k v ((k', v') # xs) = (if k' = k then (k, v) # xs else (k', v') # map_set k v xs)"

definition bounded_map_set :: "nat \<Rightarrow> 'k \<Rightarrow> 'v \<Rightarrow> ('k \<times> 'v) list \<Rightarrow> ('k \<times> 'v) list" where
  "bounded_map_set n k v xs = (let ys = map_set k v xs in if length ys > n then tl ys else ys)"

definition accept_hardware :: "string \<Rightarrow> rat \<Rightarrow> js \<Rightarrow> string option \<Rightarrow> fleet_speed \<Rightarrow> fleet_speed" where
  "accept_hardware n t row epoch f =
     (if nullish (jget row ''power_watts'') then f
      else (case (num_field row ''power_watts'', text_field row ''power_scope'') of
          (Some watts, Some scope) \<Rightarrow>
            if watts < 0 \<or> watts > 5000 \<or> scope \<notin> set power_scopes then reject f
            else let sensor = (text_field row ''power_sensor'' = Some ''smc_pstr'' \<and> scope = ''system'') in
              if t \<le> (case map_of (fl_power_seen f) n of Some p \<Rightarrow> po_at p | None \<Rightarrow> 0) then reject f
              else let f1 = f\<lparr>fl_power_seen := bounded_map_set 512 n \<lparr>po_at = t, po_scope = scope, po_sensor = sensor\<rparr> (fl_power_seen f)\<rparr> in
                if scope = ''gpu_only'' then f1\<lparr>fl_excluded := fl_excluded f1 + 1, fl_powers := (fl_powers f1)(n := None)\<rparr>
                else add_power n t watts epoch scope sensor f1
        | _ \<Rightarrow> reject f))"

definition endpoint_basis :: "js \<Rightarrow> basis option" where
  "endpoint_basis row =
     (if text_field row ''source'' = Some ''vllm'' \<and> text_field row ''basis'' = Some ''completed_request'' then Some CompletedRequest
      else if text_field row ''source'' = Some ''omlx'' \<and> text_field row ''basis'' = Some ''sampled_rate'' then Some SampledRate
      else None)"

definition endpoint_times_ok :: "basis \<Rightarrow> rat \<Rightarrow> rat \<Rightarrow> rat \<Rightarrow> bool" where
  "endpoint_times_ok b t start secs \<longleftrightarrow> 0 < start \<and> start \<le> t \<and>
     (case b of CompletedRequest \<Rightarrow> start = t
      | SampledRate \<Rightarrow> t - start \<le> 30000 \<and> \<bar>secs - (t - start) / 1000\<bar> \<le> 1 / 1000)"

definition endpoint_interval :: "string \<Rightarrow> rat \<Rightarrow> js \<Rightarrow> speed_interval option" where
  "endpoint_interval n t row =
     (case (endpoint_basis row, Option.bind (text_field row ''phase'') phase_of, num_field row ''tokens'', row_seconds (jget row ''seconds''),
            num_field row ''start'') of
        (Some b, Some k, Some tokens, Some secs, Some start) \<Rightarrow>
          if tokens < 0 \<or> secs \<le> 0 \<or> tokens / secs > 100000 \<or> \<not> endpoint_times_ok b t start secs then None
          else Some \<lparr>si_node = n, si_kind = k, si_start = start, si_end = t, si_seconds = secs, si_tokens = tokens,
                 si_rate = tokens / secs, si_basis = Some b, si_source = text_field row ''source''\<rparr>
      | _ \<Rightarrow> None)"

definition note_epoch :: "string \<Rightarrow> rat \<Rightarrow> string option \<Rightarrow> fleet_speed \<Rightarrow> fleet_speed" where
  "note_epoch n t epoch f =
     (case fl_states f n of None \<Rightarrow> f
      | Some s \<Rightarrow>
          if es_epoch s \<noteq> None \<and> epoch \<noteq> None \<and> es_epoch s \<noteq> epoch then reset_node n epoch (Some t) f
          else if epoch \<noteq> None \<and> es_epoch s = None then f\<lparr>fl_states := (fl_states f)(n \<mapsto> s\<lparr>es_epoch := epoch\<rparr>)\<rparr>
          else f)"

definition start_point :: "rat \<Rightarrow> phase_point" where
  "start_point t = \<lparr>pp_tokens = 0, pp_seconds = 0, pp_at = t\<rparr>"

definition accept_start :: "bool \<Rightarrow> string \<Rightarrow> rat \<Rightarrow> string option \<Rightarrow> fleet_speed \<Rightarrow> fleet_speed" where
  "accept_start process n t epoch f =
     (if process then reset_node n epoch (Some t) (f\<lparr>fl_powers := (fl_powers f)(n := None)\<rparr>)
      else f\<lparr>fl_states := (fl_states f)(n \<mapsto> (blank_engine epoch (Some t))\<lparr>es_prefill := Some (start_point t), es_decode := Some (start_point t)\<rparr>)\<rparr>)"

definition accept_counter :: "speed_phase \<Rightarrow> string \<Rightarrow> rat \<Rightarrow> js \<Rightarrow> js \<Rightarrow> fleet_speed \<Rightarrow> fleet_speed" where
  "accept_counter k n t tokens secs f =
     (case (row_count tokens, row_seconds secs) of
        (Some c, Some s) \<Rightarrow> add_point n k \<lparr>pp_tokens = c, pp_seconds = s, pp_at = t\<rparr> f
      | _ \<Rightarrow> reject f)"

definition row_epoch :: "js \<Rightarrow> string option" where
  "row_epoch row = (case text_field row ''backend_epoch'' of Some e \<Rightarrow> if digest_text e then Some e else None | None \<Rightarrow> None)"

definition see_row :: "string \<Rightarrow> fleet_speed \<Rightarrow> fleet_speed" where
  "see_row key f = (let xs = fl_seen f @ [key] in f\<lparr>fl_seen := (if length xs > 400000 then tl xs else xs)\<rparr>)"

definition accept_seen :: "string \<Rightarrow> string \<Rightarrow> rat \<Rightarrow> js \<Rightarrow> fleet_speed \<Rightarrow> fleet_speed" where
  "accept_seen kind n t row f =
     (if kind = ''endpoint_phase'' then (case endpoint_interval n t row of None \<Rightarrow> reject f | Some i \<Rightarrow> push_interval i f)
      else if kind = ''hardware'' then accept_hardware n t row (row_epoch row) f
      else let f1 = note_epoch n t (row_epoch row) f in
        if kind = ''process_start'' \<or> kind = ''start'' then accept_start (kind = ''process_start'') n t (row_epoch row) f1
        else if kind = ''finish'' then f1\<lparr>fl_states := (fl_states f1)(n := None)\<rparr>
        else if kind = ''prefill'' then accept_counter Prefill n t (jget row ''processed'') (jget row ''seconds'') f1
        else if kind = ''prefill_done'' then accept_counter Prefill n t (jget row ''new_tokens'') (jget row ''seconds'') f1
        else accept_counter Decode n t (jget row ''generated'') (jget row ''seconds'') f1)"

definition row_key :: "string \<Rightarrow> string \<Rightarrow> string" where
  "row_key n sample = n @ '':'' @ sample"

definition accept_row :: "js \<Rightarrow> fleet_speed \<Rightarrow> fleet_speed" where
  "accept_row row f =
     (case text_field row ''kind'' of None \<Rightarrow> f
      | Some kind \<Rightarrow>
          if kind \<notin> set row_kinds then f
          else (case (text_field row ''node'', text_field row ''sample_id'', num_field row ''time'') of
              (Some n, Some sample, Some t) \<Rightarrow>
                if \<not> speed_node_text n \<or> \<not> digest_text sample \<or> t \<le> 0 then reject f
                else if row_key n sample \<in> set (fl_seen f) then f
                else accept_seen kind n t row (see_row (row_key n sample) f)
            | _ \<Rightarrow> reject f))"

section \<open>Reports\<close>

fun add_to :: "string \<Rightarrow> rat \<Rightarrow> (string \<times> rat) list \<Rightarrow> (string \<times> rat) list" where
  "add_to n v [] = [(n, v)]"
| "add_to n v ((m, x) # xs) = (if m = n then (m, x + v) # xs else (m, x) # add_to n v xs)"

record phase_sum =
  ph_tokens :: rat
  ph_active :: rat
  ph_samples :: nat
  ph_completed :: bool
  ph_sampled :: bool
  ph_workers :: "(string \<times> rat) list"
  ph_sources :: "string list"

definition empty_phase :: phase_sum where
  "empty_phase = \<lparr>ph_tokens = 0, ph_active = 0, ph_samples = 0, ph_completed = False, ph_sampled = False, ph_workers = [], ph_sources = []\<rparr>"

definition in_window :: "speed_phase \<Rightarrow> rat \<Rightarrow> rat \<Rightarrow> string list \<Rightarrow> speed_interval \<Rightarrow> bool" where
  "in_window k from now workers i \<longleftrightarrow> si_kind i = k \<and> from < si_end i \<and>
     (if si_basis i = Some CompletedRequest then si_end i \<le> now else si_start i < now) \<and> (workers = [] \<or> si_node i \<in> set workers)"

definition sum_interval :: "rat \<Rightarrow> rat \<Rightarrow> speed_interval \<Rightarrow> phase_sum \<Rightarrow> phase_sum" where
  "sum_interval from now i p0 =
     (let p = p0\<lparr>ph_sources := List.insert (case si_source i of Some s \<Rightarrow> s | None \<Rightarrow> ''engine_log'') (ph_sources p0)\<rparr> in
      if si_basis i = Some CompletedRequest
      then p\<lparr>ph_tokens := ph_tokens p + si_tokens i, ph_active := ph_active p + si_seconds i, ph_samples := ph_samples p + 1,
             ph_completed := True, ph_workers := add_to (si_node i) (si_seconds i) (ph_workers p)\<rparr>
      else let q = p\<lparr>ph_sampled := (ph_sampled p \<or> si_basis i = Some SampledRate)\<rparr>;
               d = (min (si_end i) now - max (si_start i) from) / 1000 in
        if d > 0
        then q\<lparr>ph_tokens := ph_tokens q + si_tokens i * (d / si_seconds i), ph_active := ph_active q + d, ph_samples := ph_samples q + 1,
               ph_workers := add_to (si_node i) d (ph_workers q)\<rparr>
        else q)"

definition phase_total :: "speed_phase \<Rightarrow> rat \<Rightarrow> rat \<Rightarrow> string list \<Rightarrow> speed_interval list \<Rightarrow> phase_sum" where
  "phase_total k window now workers is =
     foldl (\<lambda>p i. sum_interval (now - window) now i p) empty_phase (filter (in_window k (now - window) now workers) is)"

record phase_report =
  pr_mean :: "rat option"
  pr_tokens :: "rat option"
  pr_active :: rat
  pr_samples :: nat
  pr_workers :: "string list"
  pr_worker_count :: nat
  pr_sources :: "string list"
  pr_lower_bound :: "rat option"

definition busy_share :: "rat \<Rightarrow> nat \<Rightarrow> (string \<times> rat) list \<Rightarrow> rat" where
  "busy_share window n ws = 100 * sum_list (map (\<lambda>(_, v). min v (window / 1000)) ws) / (of_nat n * window / 1000)"

definition speed_report :: "speed_phase \<Rightarrow> rat \<Rightarrow> rat \<Rightarrow> string list \<Rightarrow> fleet_speed \<Rightarrow> phase_report" where
  "speed_report k window now workers f =
     (let p = phase_total k window now workers (fl_intervals f); n = length workers in
      \<lparr>pr_mean = (if ph_active p > 0 then Some (ph_tokens p / ph_active p) else None),
       pr_tokens = (if ph_active p > 0 \<and> \<not> ph_sampled p then Some (ph_tokens p) else None),
       pr_active = ph_active p, pr_samples = ph_samples p, pr_workers = sort (map fst (ph_workers p)), pr_worker_count = n,
       pr_sources = sort (ph_sources p),
       pr_lower_bound = (if ph_completed p \<or> ph_sampled p \<or> n = 0 then None else Some (min 100 (busy_share window n (ph_workers p))))\<rparr>)"

record energy_share =
  eg_seconds :: rat
  eg_watt_hours :: rat
  eg_scopes :: "string list"
  eg_sensor :: bool

definition energy_part :: "rat \<Rightarrow> rat \<Rightarrow> energy_interval \<Rightarrow> (rat \<times> rat) option" where
  "energy_part from now i =
     (let start = max (ei_start i) from; stop = min (ei_end i) now; d = (stop - start) / 1000; span = ei_end i - ei_start i;
          delta = ei_end_watts i - ei_start_watts i;
          w0 = ei_start_watts i + delta * (start - ei_start i) / span; w1 = ei_start_watts i + delta * (stop - ei_start i) / span
      in if d > 0 then Some (d, (w0 + w1) / 2 * d / 3600) else None)"

definition worker_energy :: "rat \<Rightarrow> rat \<Rightarrow> string \<Rightarrow> energy_interval list \<Rightarrow> energy_share option" where
  "worker_energy from now w is =
     (let rows = filter (\<lambda>i. ei_node i = w \<and> from < ei_end i \<and> ei_start i < now \<and> energy_part from now i \<noteq> None) is in
      if rows = [] then None
      else Some \<lparr>eg_seconds = sum_list (map (\<lambda>i. fst (the (energy_part from now i))) rows),
        eg_watt_hours = sum_list (map (\<lambda>i. snd (the (energy_part from now i))) rows),
        eg_scopes = sort (remdups (map ei_scope rows)), eg_sensor = list_ex ei_sensor rows\<rparr>)"

datatype energy_status = Estimated | ScopeChanged | InsufficientCoverage | GpuOnlyExcluded | AwaitingPower

record worker_energy_report =
  we_worker :: string
  we_measured_kwh :: rat
  we_coverage :: rat
  we_estimated_kwh :: "rat option"
  we_status :: energy_status

definition energy_eligible :: "rat \<Rightarrow> energy_share \<Rightarrow> bool" where
  "energy_eligible window e \<longleftrightarrow> 4 / 5 \<le> min 1 (eg_seconds e / (window / 1000)) \<and> length (eg_scopes e) = 1"

definition worker_energy_row :: "rat \<Rightarrow> rat \<Rightarrow> fleet_speed \<Rightarrow> string \<Rightarrow> worker_energy_report" where
  "worker_energy_row window now f w =
     (let e = worker_energy (now - window) now w (fl_energy f); latest = map_of (fl_power_seen f) w;
          share = (case e of None \<Rightarrow> 0 | Some e \<Rightarrow> min 1 (eg_seconds e / (window / 1000)));
          ok = (case e of None \<Rightarrow> False | Some e \<Rightarrow> energy_eligible window e)
      in \<lparr>we_worker = w, we_measured_kwh = (case e of None \<Rightarrow> 0 | Some e \<Rightarrow> eg_watt_hours e / 1000), we_coverage = share * 100,
          we_estimated_kwh = (case e of Some e \<Rightarrow> if ok then Some (eg_watt_hours e / share / 1000) else None | None \<Rightarrow> None),
          we_status = (if ok then Estimated
            else case e of Some e \<Rightarrow> if length (eg_scopes e) > 1 then ScopeChanged else InsufficientCoverage
            | None \<Rightarrow> (case latest of Some p \<Rightarrow> if po_scope p = ''gpu_only'' \<and> now - window < po_at p then GpuOnlyExcluded else AwaitingPower
                | None \<Rightarrow> AwaitingPower))\<rparr>)"

record energy_report =
  er_estimated_kwh :: "rat option"
  er_measured_kwh :: rat
  er_coverage :: "rat option"
  er_workers :: "worker_energy_report list"
  er_status :: energy_status

definition energy_summary :: "rat \<Rightarrow> rat \<Rightarrow> string list \<Rightarrow> fleet_speed \<Rightarrow> energy_report" where
  "energy_summary window now workers f =
     (let rows = map (worker_energy_row window now f) workers; seconds = window / 1000;
          parts = List.map_filter (\<lambda>w. worker_energy (now - window) now w (fl_energy f)) (remdups workers);
          measured = sum_list (map eg_watt_hours parts); ready = (workers \<noteq> [] \<and> list_all (\<lambda>r. we_status r = Estimated) rows)
      in \<lparr>er_estimated_kwh = (if ready then Some (sum_list (map (\<lambda>r. the (we_estimated_kwh r)) rows)) else None),
          er_measured_kwh = measured / 1000,
          er_coverage = (if workers = [] then None
            else Some (min 100 (100 * sum_list (map (\<lambda>e. min seconds (eg_seconds e)) parts) / (of_nat (length workers) * seconds)))),
          er_workers = rows,
          er_status = (if ready then Estimated else if parts \<noteq> [] then InsufficientCoverage else AwaitingPower)\<rparr>)"

text \<open>\<open>niceCeiling\<close>; \<open>pow10\<close> gives the power of ten at or below a positive number.\<close>

definition nice_ceiling :: "(rat \<Rightarrow> rat) \<Rightarrow> rat option \<Rightarrow> rat option" where
  "nice_ceiling pow10 v =
     (case v of None \<Rightarrow> None
      | Some x \<Rightarrow> if x \<le> 0 then None
          else let p = pow10 x; s = x / p in Some ((if s \<le> 1 then 1 else if s \<le> 2 then 2 else if s \<le> 5 then 5 else 10) * p))"

definition p95 :: "rat list \<Rightarrow> rat option" where
  "p95 rates = (if rates = [] then None
     else Some (sort rates ! (nat (\<lceil>of_nat (length rates) * (95 :: rat) / 100\<rceil>) - 1)))"

definition calibration :: "(rat \<Rightarrow> rat) \<Rightarrow> speed_phase \<Rightarrow> speed_interval list \<Rightarrow> rat option \<times> nat" where
  "calibration pow10 k is =
     (let rates = map si_rate (filter (\<lambda>i. si_kind i = k) is)
      in (nice_ceiling pow10 (map_option (\<lambda>x. x * 115 / 100) (p95 rates)), length rates))"

definition day_ms :: rat where
  "day_ms = 86400000"

text \<open>What a snapshot forgets first.\<close>

definition drop_old :: "rat \<Rightarrow> fleet_speed \<Rightarrow> fleet_speed" where
  "drop_old now f = f\<lparr>fl_intervals := filter (\<lambda>i. now - day_ms < si_end i \<and> si_end i \<le> now + 5000) (fl_intervals f),
     fl_energy := filter (\<lambda>i. now - day_ms < ei_end i \<and> ei_end i \<le> now + 5000) (fl_energy f)\<rparr>"

record fleet_snapshot =
  fn_windows :: "(rat \<times> phase_report \<times> phase_report \<times> energy_report) list"
  fn_decode :: "rat option \<times> nat"
  fn_prefill :: "rat option \<times> nat"
  fn_intervals :: nat
  fn_oldest :: "rat option"

definition snapshot_windows :: "rat list" where
  "snapshot_windows = [3600000, 43200000, 86400000]"

definition fleet_snapshot_of :: "(rat \<Rightarrow> rat) \<Rightarrow> rat \<Rightarrow> string list \<Rightarrow> fleet_speed \<Rightarrow> fleet_snapshot \<times> fleet_speed" where
  "fleet_snapshot_of pow10 now workers f0 =
     (let ids = remdups (filter speed_node_text workers); f = drop_old now f0;
          relevant = filter (\<lambda>i. ids = [] \<or> si_node i \<in> set ids) (fl_intervals f)
      in (\<lparr>fn_windows = map (\<lambda>ms. (ms, speed_report Decode ms now ids f, speed_report Prefill ms now ids f, energy_summary ms now ids f)) snapshot_windows,
           fn_decode = calibration pow10 Decode relevant, fn_prefill = calibration pow10 Prefill relevant,
           fn_intervals = length relevant,
           fn_oldest = (case map si_start relevant of [] \<Rightarrow> None | x # xs \<Rightarrow> Some (foldl min x xs))\<rparr>, f))"

section \<open>Samples of an endpoint\<close>

datatype live_phase = LiveDecode | LivePrefill | LiveMixed | LiveOther

record endpoint_value =
  ev_connected :: bool
  ev_at :: rat
  ev_source :: string
  ev_completed :: "speed_phase \<Rightarrow> (rat \<times> rat) option"  \<comment> \<open>tokens and seconds\<close>
  ev_live :: bool
  ev_phase :: live_phase
  ev_rate :: "speed_phase \<Rightarrow> rat option"
  ev_uptime :: "rat option"

definition live_in :: "speed_phase \<Rightarrow> endpoint_value \<Rightarrow> bool" where
  "live_in k v \<longleftrightarrow> ev_phase v = LiveMixed \<or> ev_phase v = (case k of Decode \<Rightarrow> LiveDecode | Prefill \<Rightarrow> LivePrefill)"

definition sampled_rate :: "speed_phase \<Rightarrow> endpoint_value \<Rightarrow> endpoint_value option \<Rightarrow> (rat \<times> rat \<times> rat) option" where
  "sampled_rate k v previous =
     (case previous of None \<Rightarrow> None
      | Some p \<Rightarrow>
          if ev_source v = ''omlx'' \<and> ev_connected p \<and> ev_source p = ''omlx'' \<and> ev_live v \<and> ev_live p \<and> ev_at p < ev_at v \<and>
             ev_at v - ev_at p \<le> 30000 \<and> \<not> (case (ev_uptime v, ev_uptime p) of (Some a, Some b) \<Rightarrow> a < b | _ \<Rightarrow> False) \<and>
             live_in k v \<and> live_in k p
          then (case (ev_rate v k, ev_rate p k) of
              (Some a, Some b) \<Rightarrow> if 0 < a \<and> 0 < b
                then let secs = (ev_at v - ev_at p) / 1000 in Some (ev_at p, (a + b) / 2 * secs, secs) else None
            | _ \<Rightarrow> None)
          else None)"

record endpoint_row =
  rw_node :: string
  rw_time :: rat
  rw_source :: string
  rw_phase :: speed_phase
  rw_basis :: basis
  rw_start :: rat
  rw_tokens :: rat
  rw_seconds :: rat

definition endpoint_sample :: "string \<Rightarrow> endpoint_value \<Rightarrow> endpoint_value option \<Rightarrow> speed_phase \<Rightarrow> endpoint_row option" where
  "endpoint_sample n v previous k =
     (case sampled_rate k v previous of
        Some (start, tokens, secs) \<Rightarrow> Some \<lparr>rw_node = n, rw_time = ev_at v, rw_source = ev_source v, rw_phase = k, rw_basis = SampledRate,
          rw_start = start, rw_tokens = tokens, rw_seconds = secs\<rparr>
      | None \<Rightarrow> (case (if ev_source v = ''vllm'' then ev_completed v k else None) of
          Some (tokens, secs) \<Rightarrow> if tokens < 0 \<or> secs \<le> 0 then None
            else Some \<lparr>rw_node = n, rw_time = ev_at v, rw_source = ev_source v, rw_phase = k, rw_basis = CompletedRequest,
              rw_start = ev_at v, rw_tokens = tokens, rw_seconds = secs\<rparr>
        | None \<Rightarrow> None))"

definition endpoint_samples :: "string \<Rightarrow> endpoint_value \<Rightarrow> endpoint_value option \<Rightarrow> endpoint_row list" where
  "endpoint_samples n v previous =
     (if \<not> speed_node_text n \<or> \<not> ev_connected v then [] else List.map_filter (endpoint_sample n v previous) [Decode, Prefill])"

text \<open>The row as it is saved; \<open>digest\<close> identifies it.\<close>

definition row_js :: "(endpoint_row \<Rightarrow> string) \<Rightarrow> endpoint_row \<Rightarrow> js" where
  "row_js digest r = JObj [(''kind'', JStr ''endpoint_phase''), (''node'', JStr (rw_node r)), (''time'', JNum (rw_time r)),
     (''source'', JStr (rw_source r)), (''phase'', JStr (case rw_phase r of Decode \<Rightarrow> ''decode'' | Prefill \<Rightarrow> ''prefill'')),
     (''basis'', JStr (case rw_basis r of CompletedRequest \<Rightarrow> ''completed_request'' | SampledRate \<Rightarrow> ''sampled_rate'')),
     (''start'', JNum (rw_start r)), (''tokens'', JNum (rw_tokens r)), (''seconds'', JNum (rw_seconds r)), (''sample_id'', JStr (digest r))]"

end
