(* ===== verification/Fleet_Evidence.thy ===== *)
theory Fleet_Evidence
  imports Fleet_Speed
begin

text \<open>
  What the kept evidence of \<open>FleetSpeed\<close> satisfies after any rows, and what the reports over it may then say.
\<close>

section \<open>Sound evidence\<close>

definition interval_ok :: "speed_interval \<Rightarrow> bool" where
  "interval_ok i \<longleftrightarrow> 0 < si_seconds i \<and> 0 \<le> si_rate i \<and> si_rate i \<le> 100000 \<and> si_tokens i = si_rate i * si_seconds i \<and>
     (case si_basis i of None \<Rightarrow> si_start i < si_end i \<and> si_seconds i = (si_end i - si_start i) / 1000
      | Some CompletedRequest \<Rightarrow> si_start i = si_end i
      | Some SampledRate \<Rightarrow> si_start i \<le> si_end i \<and> si_end i - si_start i \<le> 30000)"

definition energy_ok :: "energy_interval \<Rightarrow> bool" where
  "energy_ok i \<longleftrightarrow> ei_start i < ei_end i \<and> ei_seconds i = (ei_end i - ei_start i) / 1000 \<and> ei_seconds i \<le> 60 \<and>
     0 \<le> ei_watt_hours i \<and> ei_watt_hours i \<le> 5000 * ei_seconds i / 3600 \<and> ei_scope i \<in> {''compute_module'', ''system''}"

definition power_ok :: "power_state \<Rightarrow> bool" where
  "power_ok p \<longleftrightarrow> 0 \<le> pw_watts p \<and> pw_watts p \<le> 5000 \<and> pw_scope p \<in> {''compute_module'', ''system''}"

definition sound_evidence :: "fleet_speed \<Rightarrow> bool" where
  "sound_evidence f \<longleftrightarrow> list_all interval_ok (fl_intervals f) \<and> list_all energy_ok (fl_energy f) \<and>
     length (fl_intervals f) \<le> fl_max f \<and> length (fl_energy f) \<le> fl_max f \<and> distinct (fl_seen f) \<and> length (fl_seen f) \<le> 400000 \<and>
     (\<forall>p \<in> ran (fl_powers f). power_ok p)"

named_theorems evidence

lemma keep_last_length: "length (keep_last n xs) \<le> n"
  by (simp add: keep_last_def)

lemma keep_last_all: "list_all P xs \<Longrightarrow> list_all P (keep_last n xs)"
  by (auto simp: keep_last_def list_all_iff dest: in_set_dropD)

lemma reject_sound [evidence]: "sound_evidence (reject f) = sound_evidence f"
  by (simp add: sound_evidence_def reject_def)

lemma states_sound [evidence]: "sound_evidence (f\<lparr>fl_states := s\<rparr>) = sound_evidence f"
  by (simp add: sound_evidence_def)

lemma excluded_sound [evidence]: "sound_evidence (f\<lparr>fl_excluded := n\<rparr>) = sound_evidence f"
  by (simp add: sound_evidence_def)

lemma power_seen_sound [evidence]: "sound_evidence (f\<lparr>fl_power_seen := s\<rparr>) = sound_evidence f"
  by (simp add: sound_evidence_def)

lemma powers_sound: "sound_evidence f \<Longrightarrow> (\<forall>p \<in> ran ps. power_ok p) \<Longrightarrow> sound_evidence (f\<lparr>fl_powers := ps\<rparr>)"
  by (simp add: sound_evidence_def)

lemma ran_del: "ran (m(k := None)) \<subseteq> ran m"
  by (auto simp: ran_def split: if_splits)

lemma ran_set: "ran (m(k \<mapsto> v)) \<subseteq> insert v (ran m)"
  by (auto simp: ran_def)

lemma drop_power_sound [evidence]: "sound_evidence f \<Longrightarrow> sound_evidence (f\<lparr>fl_powers := (fl_powers f)(n := None)\<rparr>)"
  by (rule powers_sound) (use ran_del [of "fl_powers f" n] in \<open>auto simp: sound_evidence_def\<close>)

lemma gpu_only_sound: "sound_evidence f \<Longrightarrow>
  sound_evidence (f\<lparr>fl_power_seen := a, fl_excluded := b, fl_powers := (fl_powers f)(n := None)\<rparr>)"
  using ran_del [of "fl_powers f" n] by (auto simp: sound_evidence_def)

lemma push_interval_sound: "sound_evidence f \<Longrightarrow> interval_ok i \<Longrightarrow> sound_evidence (push_interval i f)"
  by (auto simp: sound_evidence_def push_interval_def Let_def keep_last_length intro!: keep_last_all)

lemma push_energy_sound: "sound_evidence f \<Longrightarrow> energy_ok i \<Longrightarrow> sound_evidence (push_energy i f)"
  by (auto simp: sound_evidence_def push_energy_def Let_def keep_last_length intro!: keep_last_all)

lemma between_ok:
  assumes "between n k prior current = Some i" "pp_tokens prior < pp_tokens current" "pp_seconds prior < pp_seconds current"
    "(pp_tokens current - pp_tokens prior) / (pp_seconds current - pp_seconds prior) \<le> 100000"
  shows "interval_ok i"
  using assms by (auto simp: between_def Let_def interval_ok_def split: if_splits)

lemma add_point_sound: "sound_evidence f \<Longrightarrow> sound_evidence (add_point n k c f)"
  by (auto simp: add_point_def Let_def evidence not_less split: option.split
      intro!: push_interval_sound elim!: between_ok)

lemma add_power_sound:
  assumes "sound_evidence f" "0 \<le> w" "w \<le> 5000" "scope \<in> {''compute_module'', ''system''}"
  shows "sound_evidence (add_power n t w epoch scope sensor f)"
proof -
  let ?p = "\<lparr>pw_at = t, pw_watts = w, pw_epoch = epoch, pw_scope = scope, pw_sensor = sensor\<rparr>"
  have old: "power_ok p" if "fl_powers f n = Some p" for p
    using assms(1) that by (auto simp: sound_evidence_def ran_def)
  have new: "sound_evidence (f\<lparr>fl_powers := (fl_powers f)(n \<mapsto> ?p)\<rparr>)"
    by (rule powers_sound [OF assms(1)])
      (use ran_set [of "fl_powers f" n ?p] assms in \<open>auto simp: sound_evidence_def power_ok_def\<close>)
  show ?thesis
  proof (cases "fl_powers f n")
    case None
    then show ?thesis using new by (simp add: add_power_def)
  next
    case (Some p)
    have wh: "(pw_watts p + w) / 2 * d / 3600 \<le> 5000 * d / 3600" "0 \<le> (pw_watts p + w) / 2 * d / 3600" if "0 < d" for d :: rat
      using old [OF Some] assms that by (auto simp: power_ok_def divide_simps)
    show ?thesis
    proof (cases "t \<le> pw_at p")
      case True
      then show ?thesis using Some assms(1) by (simp add: add_power_def evidence)
    next
      case False
      then have d: "0 < (t - pw_at p) / 1000" by simp
      show ?thesis
        using Some False new wh [OF d] assms(4)
        by (auto simp: add_power_def Let_def energy_ok_def not_le intro!: push_energy_sound)
    qed
  qed
qed

lemma accept_hardware_sound: "sound_evidence f \<Longrightarrow> sound_evidence (accept_hardware n t row epoch f)"
  by (auto simp: accept_hardware_def Let_def evidence power_scopes_def split: option.split
      intro!: add_power_sound gpu_only_sound)

lemma endpoint_interval_ok: "endpoint_interval n t row = Some i \<Longrightarrow> interval_ok i"
  by (auto simp: endpoint_interval_def interval_ok_def endpoint_times_ok_def not_le
      split: option.splits if_splits basis.splits)

lemma note_epoch_sound [evidence]: "sound_evidence (note_epoch n t e f) = sound_evidence f"
  by (simp add: note_epoch_def reset_node_def evidence split: option.split)

lemma accept_start_sound: "sound_evidence f \<Longrightarrow> sound_evidence (accept_start p n t e f)"
  by (simp add: accept_start_def reset_node_def evidence)

lemma accept_counter_sound: "sound_evidence f \<Longrightarrow> sound_evidence (accept_counter k n t a b f)"
  by (simp add: accept_counter_def evidence add_point_sound split: option.split)

lemma accept_seen_sound: "sound_evidence f \<Longrightarrow> sound_evidence (accept_seen kind n t row f)"
  by (simp add: accept_seen_def Let_def evidence accept_counter_sound accept_start_sound accept_hardware_sound
      push_interval_sound endpoint_interval_ok split: option.split)

lemma see_row_sound: "sound_evidence f \<Longrightarrow> key \<notin> set (fl_seen f) \<Longrightarrow> sound_evidence (see_row key f)"
  by (auto simp: see_row_def sound_evidence_def Let_def distinct_tl)

lemma accept_row_sound: "sound_evidence f \<Longrightarrow> sound_evidence (accept_row row f)"
  by (simp add: accept_row_def evidence accept_seen_sound see_row_sound split: option.split)

lemma new_fleet_sound: "sound_evidence (new_fleet_speed m)"
  by (simp add: sound_evidence_def new_fleet_speed_def)

lemma fold_accept_sound: "sound_evidence f \<Longrightarrow> sound_evidence (fold accept_row rows f)"
  by (induction rows arbitrary: f) (simp_all add: accept_row_sound)

section \<open>A repeated row\<close>

lemma seen_frames [simp]:
  "fl_seen (reject f) = fl_seen f" "fl_seen (push_interval i f) = fl_seen f" "fl_seen (push_energy e f) = fl_seen f"
  "fl_seen (reset_node n ep t f) = fl_seen f"
  by (simp_all add: reject_def push_interval_def push_energy_def reset_node_def Let_def)

lemma add_point_seen [simp]: "fl_seen (add_point n k c f) = fl_seen f"
  by (simp add: add_point_def Let_def split: option.split)

lemma add_power_seen [simp]: "fl_seen (add_power n t w ep sc se f) = fl_seen f"
  by (simp add: add_power_def Let_def split: option.split)

lemma accept_hardware_seen [simp]: "fl_seen (accept_hardware n t row ep f) = fl_seen f"
  by (simp add: accept_hardware_def Let_def split: option.split)

lemma note_epoch_seen [simp]: "fl_seen (note_epoch n t ep f) = fl_seen f"
  by (simp add: note_epoch_def split: option.split)

lemma accept_counter_seen [simp]: "fl_seen (accept_counter k n t a b f) = fl_seen f"
  by (simp add: accept_counter_def split: option.split)

lemma accept_seen_seen [simp]: "fl_seen (accept_seen kind n t row f) = fl_seen f"
  by (simp add: accept_seen_def Let_def accept_start_def split: option.split)

lemma see_row_mem [simp]: "key \<in> set (fl_seen (see_row key f))"
  by (cases "fl_seen f") (auto simp: see_row_def Let_def)




section \<open>Means\<close>

definition sum_ok :: "phase_sum \<Rightarrow> bool" where
  "sum_ok p \<longleftrightarrow> 0 \<le> ph_active p \<and> 0 \<le> ph_tokens p \<and> ph_tokens p \<le> 100000 * ph_active p"

lemma rate_times: "0 \<le> (r :: rat) \<Longrightarrow> r \<le> 100000 \<Longrightarrow> 0 \<le> d \<Longrightarrow> 0 \<le> r * d \<and> r * d \<le> 100000 * d"
  by (simp add: mult_right_mono)

lemma sum_grows: "sum_ok p \<Longrightarrow> 0 \<le> t \<and> t \<le> 100000 * d \<Longrightarrow> 0 \<le> d \<Longrightarrow>
   0 \<le> ph_active p + d \<and> 0 \<le> ph_tokens p + t \<and> ph_tokens p + t \<le> 100000 * (ph_active p + d)"
  by (simp add: sum_ok_def)

lemma sum_interval_ok:
  assumes "interval_ok i" "sum_ok p"
  shows "sum_ok (sum_interval from now i p)"
proof -
  have s: "0 < si_seconds i" "si_tokens i = si_rate i * si_seconds i" and r: "0 \<le> si_rate i" "si_rate i \<le> 100000"
    using assms(1) by (simp_all add: interval_ok_def)
  have whole: "0 \<le> si_tokens i \<and> si_tokens i \<le> 100000 * si_seconds i"
    using rate_times [OF r, of "si_seconds i"] s by simp
  have part: "0 \<le> si_tokens i * (d / si_seconds i) \<and> si_tokens i * (d / si_seconds i) \<le> 100000 * d" if "0 < d" for d
    using rate_times [OF r, of d] s that by simp
  let ?d = "(min (si_end i) now - max (si_start i) from) / 1000"
  show ?thesis
  proof (cases "si_basis i = Some CompletedRequest")
    case True
    then show ?thesis
      using sum_grows [OF assms(2) whole] s(1) by (simp add: sum_interval_def sum_ok_def Let_def)
  next
    case basis: False
    show ?thesis
    proof (cases "0 < ?d")
      case True
      define d where "d = ?d"
      show ?thesis
        using sum_grows [OF assms(2) part [OF True]] True basis
        unfolding sum_interval_def Let_def d_def [symmetric] by (simp add: sum_ok_def)
    next
      case False
      define d where "d = ?d"
      show ?thesis
        using False assms(2) basis unfolding sum_interval_def Let_def d_def [symmetric] by (simp add: sum_ok_def)
    qed
  qed
qed

lemma sum_all_ok: "list_all interval_ok is \<Longrightarrow> sum_ok p \<Longrightarrow> sum_ok (foldl (\<lambda>p i. sum_interval from now i p) p is)"
  by (induction "is" arbitrary: p) (simp_all add: sum_interval_ok)

lemma phase_total_ok: "list_all interval_ok is \<Longrightarrow> sum_ok (phase_total k w now ws is)"
  unfolding phase_total_def
  by (rule sum_all_ok) (auto simp: list_all_iff sum_ok_def empty_phase_def)

lemma report_bounds:
  assumes "sound_evidence f"
  shows "(case pr_mean (speed_report k w now ws f) of None \<Rightarrow> True | Some m \<Rightarrow> 0 \<le> m \<and> m \<le> 100000)"
proof -
  have "sum_ok (phase_total k w now ws (fl_intervals f))"
    using assms by (simp add: sound_evidence_def phase_total_ok)
  then show ?thesis by (simp add: speed_report_def Let_def sum_ok_def divide_simps)
qed

lemma eligible_share: "energy_eligible w e \<Longrightarrow> 4 / 5 \<le> min 1 (eg_seconds e / (w / 1000))"
  by (simp add: energy_eligible_def)

section \<open>Properties\<close>


text \<open>Whatever rows were accepted, the mean speed that \<open>FleetSpeed.phase\<close> reports over any window, at any time and for any workers
  lies between 0 and 100000 tokens per second: clipping an interval to a window takes its tokens and its time in the same proportion.\<close>

theorem reported_speed_is_bounded:
  "(case pr_mean (speed_report k window now workers (fold accept_row rows (new_fleet_speed m))) of
      None \<Rightarrow> True | Some mean \<Rightarrow> 0 \<le> mean \<and> mean \<le> 100000)"
  by (rule report_bounds) (simp add: fold_accept_sound new_fleet_sound)

end
