(* ===== verification/Fleet_Reader.thy ===== *)
theory Fleet_Reader
  imports Fleet_Evidence
begin

text \<open>
  \<open>FleetSpeedReader\<close> (\<open>ds4-gateway/fleet-speed.mjs\<close>): saved metric files are read in bounded pieces, one byte per
  \<open>char\<close>. A line feed ends a line; a line above 64 KiB is counted once and skipped up to its end, however the pieces fall.
  The accumulator is a parameter, as \<open>createAccumulator\<close> is: \<open>take_line\<close> parses a line and accepts it, or refuses it (\<open>None\<close>).
  The directory is what one poll finds of it; a file that cannot be opened as a regular file is \<open>None\<close>.
\<close>

section \<open>Lines of a piece\<close>

definition line_bytes :: nat where
  "line_bytes = 65536"

record 's line_state =
  ls_fragment :: string
  ls_skipping :: bool
  ls_acc :: 's
  ls_malformed :: nat

definition log_line_end :: "(string \<Rightarrow> 's \<Rightarrow> 's option) \<Rightarrow> string \<Rightarrow> 's line_state \<Rightarrow> 's line_state" where
  "log_line_end take_line line st =
     (let st1 = st\<lparr>ls_fragment := [], ls_skipping := False\<rparr> in
      if ls_skipping st then st1
      else if length line \<le> line_bytes
      then (case take_line line (ls_acc st) of Some a \<Rightarrow> st1\<lparr>ls_acc := a\<rparr> | None \<Rightarrow> st1\<lparr>ls_malformed := ls_malformed st + 1\<rparr>)
      else st1\<lparr>ls_malformed := ls_malformed st + 1\<rparr>)"

text \<open>The loop over the line feeds of a buffer, and what it keeps of the rest.\<close>

function feed_buffer :: "(string \<Rightarrow> 's \<Rightarrow> 's option) \<Rightarrow> string \<Rightarrow> 's line_state \<Rightarrow> 's line_state" where
  "feed_buffer take_line buffer st =
     (let line = takeWhile (\<lambda>c. c \<noteq> LF) buffer in
      case dropWhile (\<lambda>c. c \<noteq> LF) buffer of
        _ # rest \<Rightarrow> feed_buffer take_line rest (log_line_end take_line line st)
      | [] \<Rightarrow> if length line > line_bytes \<or> ls_skipping st
          then st\<lparr>ls_fragment := [], ls_skipping := True, ls_malformed := ls_malformed st + (if ls_skipping st then 0 else 1)\<rparr>
          else st\<lparr>ls_fragment := line\<rparr>)"
  by pat_completeness auto
termination
proof (relation "measure (\<lambda>(_, b, _). length b)", goal_cases)
  case 1
  then show ?case by simp
next
  case (2 take_line buffer st line c rest)
  have "length (dropWhile (\<lambda>c. c \<noteq> LF) buffer) \<le> length buffer" by (rule length_dropWhile_le)
  then show ?case using 2 by simp
qed

declare feed_buffer.simps [simp del]

definition feed_piece :: "(string \<Rightarrow> 's \<Rightarrow> 's option) \<Rightarrow> string \<Rightarrow> 's line_state \<Rightarrow> 's line_state" where
  "feed_piece take_line piece st = feed_buffer take_line (ls_fragment st @ piece) st"

section \<open>The reader\<close>

record log_file =
  lf_identity :: string
  lf_bytes :: string

record cursor =
  cu_identity :: string
  cu_offset :: nat
  cu_fragment :: string
  cu_skipping :: bool
  cu_anchor :: string

datatype reader_status = Waiting | Rescanning | CatchingUp | Ready | Unavailable

record 's reader =
  rd_cursors :: "(string \<times> cursor) list"
  rd_acc :: 's
  rd_status :: reader_status
  rd_last_read :: "rat option"
  rd_malformed :: nat
  rd_rescans :: nat

definition new_reader :: "'s \<Rightarrow> 's reader" where
  "new_reader acc = \<lparr>rd_cursors = [], rd_acc = acc, rd_status = Waiting, rd_last_read = None, rd_malformed = 0, rd_rescans = 0\<rparr>"

definition rebuild :: "'s \<Rightarrow> 's reader \<Rightarrow> 's reader" where
  "rebuild acc r = r\<lparr>rd_cursors := [], rd_acc := acc, rd_rescans := rd_rescans r + 1, rd_status := Rescanning\<rparr>"

definition metric_digit :: "char \<Rightarrow> bool" where
  "metric_digit c \<longleftrightarrow> c \<in> set ''0123456789''"

definition metric_file :: "string \<Rightarrow> bool" where
  "metric_file name \<longleftrightarrow> length name = 24 \<and> take 8 name = ''metrics-'' \<and> drop 18 name = ''.jsonl'' \<and>
     list_all metric_digit (take 4 (drop 8 name)) \<and> name ! 12 = CHR ''-'' \<and> list_all metric_digit (take 2 (drop 13 name)) \<and>
     name ! 15 = CHR ''-'' \<and> list_all metric_digit (take 2 (drop 16 name))"

definition anchor_of :: "string \<Rightarrow> nat \<Rightarrow> string" where
  "anchor_of bytes offset = drop (offset - 64) (take offset bytes)"

definition cursor_changed :: "log_file \<Rightarrow> cursor \<Rightarrow> bool" where
  "cursor_changed file c \<longleftrightarrow> cu_identity c \<noteq> lf_identity file \<or> length (lf_bytes file) < cu_offset c \<or>
     drop (cu_offset c - length (cu_anchor c)) (take (cu_offset c) (lf_bytes file)) \<noteq> cu_anchor c"

definition new_cursor :: "string \<Rightarrow> cursor" where
  "new_cursor identity = \<lparr>cu_identity = identity, cu_offset = 0, cu_fragment = [], cu_skipping = False, cu_anchor = []\<rparr>"

definition line_view :: "cursor \<Rightarrow> 's reader \<Rightarrow> 's line_state" where
  "line_view c r = \<lparr>ls_fragment = cu_fragment c, ls_skipping = cu_skipping c, ls_acc = rd_acc r, ls_malformed = rd_malformed r\<rparr>"

definition read_log :: "(string \<Rightarrow> 's \<Rightarrow> 's option) \<Rightarrow> nat \<Rightarrow> string \<Rightarrow> log_file \<Rightarrow> cursor \<Rightarrow> 's reader \<Rightarrow> 's reader" where
  "read_log take_line budget name file c r =
     (let piece = take budget (drop (cu_offset c) (lf_bytes file)); offset = cu_offset c + length piece;
          st = feed_piece take_line piece (line_view c r)
      in r\<lparr>rd_cursors := map_set name (c\<lparr>cu_offset := offset, cu_fragment := ls_fragment st, cu_skipping := ls_skipping st,
             cu_anchor := anchor_of (lf_bytes file) offset\<rparr>) (rd_cursors r),
           rd_acc := ls_acc st, rd_malformed := ls_malformed st\<rparr>)"

text \<open>What a pass over the files ends with: all of them seen with or without a backlog, a file changed under the reader, or a failure.\<close>

datatype pass_end = PassDone bool | PassChanged | PassFailed

fun read_logs :: "(string \<Rightarrow> 's \<Rightarrow> 's option) \<Rightarrow> nat \<Rightarrow> (string \<times> log_file option) list \<Rightarrow> 's reader \<Rightarrow> pass_end \<times> 's reader" where
  "read_logs take_line budget [] r = (PassDone False, r)"
| "read_logs take_line budget ((name, None) # files) r = (PassFailed, r)"
| "read_logs take_line budget ((name, Some file) # files) r =
     (let known = map_of (rd_cursors r) name; c = (case known of Some c \<Rightarrow> c | None \<Rightarrow> new_cursor (lf_identity file)) in
      if known \<noteq> None \<and> cursor_changed file c then (PassChanged, r)
      else let r1 = read_log take_line budget name file c r in
        if cu_offset c + budget < length (lf_bytes file) then (PassDone True, r1) else read_logs take_line budget files r1)"

definition metric_files :: "nat \<Rightarrow> (string \<times> log_file option) list \<Rightarrow> (string \<times> log_file option) list" where
  "metric_files retained dir =
     (let names = sort (filter metric_file (map fst dir))
      in map (\<lambda>n. (n, Option.bind (map_of dir n) (\<lambda>x. x))) (keep_last retained names))"

definition poll :: "'s \<Rightarrow> (string \<Rightarrow> 's \<Rightarrow> 's option) \<Rightarrow> nat \<Rightarrow> nat \<Rightarrow> rat \<Rightarrow> (string \<times> log_file option) list option \<Rightarrow> 's reader \<Rightarrow> 's reader" where
  "poll acc take_line budget retained now found r =
     (case found of None \<Rightarrow> r\<lparr>rd_status := Unavailable\<rparr>
      | Some dir \<Rightarrow> let files = metric_files retained dir in
          if list_ex (\<lambda>c. fst c \<notin> fst ` set files) (rd_cursors r) then rebuild acc r
          else case read_logs take_line budget files r of
            (PassChanged, r1) \<Rightarrow> rebuild acc r1
          | (PassFailed, r1) \<Rightarrow> r1\<lparr>rd_status := Unavailable\<rparr>
          | (PassDone backlog, r1) \<Rightarrow> r1\<lparr>rd_status := (if files = [] then Waiting else if backlog then CatchingUp else Ready), rd_last_read := Some now\<rparr>)"

section \<open>Rates of a worker\<close>

datatype trend = TrendInsufficient | TrendUp | TrendDown | TrendSteady

record worker_rate =
  wr_mean :: "rat option"
  wr_samples :: nat
  wr_active :: rat
  wr_span :: rat
  wr_recent :: "rat option"
  wr_previous :: "rat option"
  wr_change :: "rat option"
  wr_trend :: trend
  wr_status :: reader_status
  wr_partial :: bool

definition partial_history :: "fleet_speed reader \<Rightarrow> bool" where
  "partial_history r \<longleftrightarrow> rd_malformed r > 0 \<or> fl_rejected (rd_acc r) > 0 \<or> fl_evicted (rd_acc r) > 0"

definition hour_ms :: rat where
  "hour_ms = 3600000"

definition trend_supported :: "phase_report \<Rightarrow> bool" where
  "trend_supported p \<longleftrightarrow> pr_samples p \<ge> 3 \<and> pr_active p \<ge> 60 \<and> (case pr_mean p of Some m \<Rightarrow> 0 < m | None \<Rightarrow> False)"

definition trend_of :: "rat option \<Rightarrow> trend" where
  "trend_of c = (case c of None \<Rightarrow> TrendInsufficient
     | Some x \<Rightarrow> if x \<ge> 5 then TrendUp else if x \<le> - 5 then TrendDown else TrendSteady)"

definition change_between :: "phase_report \<Rightarrow> phase_report \<Rightarrow> rat option" where
  "change_between recent previous = (case (pr_mean recent, pr_mean previous) of
     (Some a, Some b) \<Rightarrow> Some (100 * (a / b - 1)) | _ \<Rightarrow> None)"

definition oldest_start :: "string \<Rightarrow> speed_phase \<Rightarrow> rat \<Rightarrow> speed_interval list \<Rightarrow> rat option" where
  "oldest_start n k now is =
     (let from = now - 6 * hour_ms;
          starts = map (\<lambda>i. max from (si_start i)) (filter (\<lambda>i. si_node i = n \<and> si_kind i = k \<and> from < si_end i \<and> si_start i < now) is)
      in case starts of [] \<Rightarrow> None | x # xs \<Rightarrow> Some (foldl min x xs))"

definition worker_rate_of :: "string \<Rightarrow> rat \<Rightarrow> speed_phase \<Rightarrow> fleet_speed reader \<Rightarrow> worker_rate" where
  "worker_rate_of n now k r =
     (let f = rd_acc r; ready = (rd_status r = Ready); total = speed_report k (6 * hour_ms) now [n] f;
          recent = speed_report k (3 * hour_ms) now [n] f; previous = speed_report k (3 * hour_ms) (now - 3 * hour_ms) [n] f;
          change = (if ready \<and> \<not> partial_history r \<and> trend_supported recent \<and> trend_supported previous then change_between recent previous else None)
      in \<lparr>wr_mean = (if ready then pr_mean total else None), wr_samples = (if ready then pr_samples total else 0),
          wr_active = (if ready then pr_active total else 0),
          wr_span = (case oldest_start n k now (fl_intervals f) of Some t \<Rightarrow> if ready then now - t else 0 | None \<Rightarrow> 0),
          wr_recent = (if ready then pr_mean recent else None), wr_previous = (if ready then pr_mean previous else None),
          wr_change = change, wr_trend = trend_of change, wr_status = rd_status r, wr_partial = partial_history r\<rparr>)"

section \<open>One byte at a time\<close>

text \<open>The reference: what the framing means without pieces.\<close>

definition feed_byte :: "(string \<Rightarrow> 's \<Rightarrow> 's option) \<Rightarrow> char \<Rightarrow> 's line_state \<Rightarrow> 's line_state" where
  "feed_byte take_line c st =
     (if c = LF then log_line_end take_line (ls_fragment st) st
      else if ls_skipping st then st
      else if length (ls_fragment st) < line_bytes then st\<lparr>ls_fragment := ls_fragment st @ [c]\<rparr>
      else st\<lparr>ls_fragment := [], ls_skipping := True, ls_malformed := ls_malformed st + 1\<rparr>)"

definition line_ok :: "'s line_state \<Rightarrow> bool" where
  "line_ok st \<longleftrightarrow> length (ls_fragment st) \<le> line_bytes \<and> LF \<notin> set (ls_fragment st) \<and> (ls_skipping st \<longrightarrow> ls_fragment st = [])"

lemma end_of_line_ok: "line_ok (log_line_end take_line line st)"
  by (simp add: log_line_end_def line_ok_def Let_def split: option.split)

lemma feed_byte_ok: "line_ok st \<Longrightarrow> line_ok (feed_byte take_line c st)"
  by (simp add: feed_byte_def end_of_line_ok) (auto simp: line_ok_def)

lemma fold_byte_ok: "line_ok st \<Longrightarrow> line_ok (fold (feed_byte take_line) bs st)"
  by (induction bs arbitrary: st) (simp_all add: feed_byte_ok)

text \<open>Bytes without a line feed.\<close>

definition rest_state :: "string \<Rightarrow> 's line_state \<Rightarrow> 's line_state" where
  "rest_state line st =
     (if length line > line_bytes \<or> ls_skipping st
      then st\<lparr>ls_fragment := [], ls_skipping := True, ls_malformed := ls_malformed st + (if ls_skipping st then 0 else 1)\<rparr>
      else st\<lparr>ls_fragment := line\<rparr>)"

lemma fold_rest:
  "line_ok st \<Longrightarrow> LF \<notin> set bs \<Longrightarrow> fold (feed_byte take_line) bs st = rest_state (ls_fragment st @ bs) st"
proof (induction bs arbitrary: st)
  case Nil
  then show ?case by (cases st) (auto simp: rest_state_def line_ok_def)
next
  case (Cons c bs)
  have c: "c \<noteq> LF" using Cons.prems(2) by auto
  have ih: "fold (feed_byte take_line) (c # bs) st = rest_state (ls_fragment (feed_byte take_line c st) @ bs) (feed_byte take_line c st)"
    using Cons.IH [OF feed_byte_ok [OF Cons.prems(1)]] Cons.prems(2) by simp
  show ?case
    unfolding ih using Cons.prems(1) c by (auto simp: rest_state_def feed_byte_def line_ok_def)
qed

lemma end_of_rest: "log_line_end take_line (ls_fragment (rest_state line st)) (rest_state line st) = log_line_end take_line line st"
  by (auto simp: rest_state_def log_line_end_def Let_def split: option.split)

lemma feed_buffer_rest: "LF \<notin> set bs \<Longrightarrow> feed_buffer take_line bs st = rest_state bs st"
proof -
  assume "LF \<notin> set bs"
  then have "\<forall>c \<in> set bs. c \<noteq> LF" by auto
  then have w: "takeWhile (\<lambda>c. c \<noteq> LF) bs = bs" "dropWhile (\<lambda>c. c \<noteq> LF) bs = []" by simp_all
  show ?thesis by (subst feed_buffer.simps) (simp only: w Let_def list.case rest_state_def)
qed

lemma feed_buffer_break:
  "LF \<notin> set p \<Longrightarrow> feed_buffer take_line (p @ LF # r) st = feed_buffer take_line r (log_line_end take_line p st)"
proof -
  assume "LF \<notin> set p"
  then have "\<forall>c \<in> set p. c \<noteq> LF" by auto
  then have "takeWhile (\<lambda>c. c \<noteq> LF) (p @ LF # r) = p" "dropWhile (\<lambda>c. c \<noteq> LF) (p @ LF # r) = LF # r"
    by (simp_all add: takeWhile_append2 dropWhile_append2)
  note w = this
  show ?thesis by (subst feed_buffer.simps) (simp only: w Let_def list.case)
qed

lemma feed_buffer_bytes:
  "line_ok st \<Longrightarrow> feed_buffer take_line (ls_fragment st @ bs) st = fold (feed_byte take_line) bs st"
proof (induction "length bs" arbitrary: bs st rule: less_induct)
  case less
  have lf: "LF \<notin> set (ls_fragment st)" using less.prems by (simp add: line_ok_def)
  show ?case
  proof (cases "LF \<in> set bs")
    case False
    then show ?thesis using lf by (simp add: feed_buffer_rest fold_rest [OF less.prems])
  next
    case True
    then obtain p r where bs: "bs = p @ LF # r" and p: "LF \<notin> set p" by (metis split_list_first)
    let ?e = "log_line_end take_line (ls_fragment st @ p) st"
    have nil: "ls_fragment ?e = []" by (simp add: log_line_end_def Let_def split: option.split)
    have "feed_buffer take_line (ls_fragment st @ bs) st = feed_buffer take_line r ?e"
      using feed_buffer_break [of "ls_fragment st @ p" take_line r st] lf p bs by simp
    also have "\<dots> = fold (feed_byte take_line) r ?e"
      using less.hyps [of r ?e, OF _ end_of_line_ok] bs nil by simp
    also have "?e = feed_byte take_line LF (fold (feed_byte take_line) p st)"
      unfolding fold_rest [OF less.prems p] by (simp add: feed_byte_def end_of_rest)
    finally show ?thesis by (simp add: bs)
  qed
qed

lemma feed_piece_bytes: "line_ok st \<Longrightarrow> feed_piece take_line piece st = fold (feed_byte take_line) piece st"
  by (simp add: feed_piece_def feed_buffer_bytes)

lemma feed_pieces_bytes:
  "line_ok st \<Longrightarrow> fold (feed_piece take_line) pieces st = fold (feed_byte take_line) (concat pieces) st"
  by (induction pieces arbitrary: st) (simp_all add: feed_piece_bytes fold_byte_ok)


section \<open>What a log means\<close>

fun lf_split :: "string \<Rightarrow> string list" where
  "lf_split [] = [[]]"
| "lf_split (c # cs) = (if c = LF then [] # lf_split cs else (case lf_split cs of [] \<Rightarrow> [[c]] | l # ls \<Rightarrow> (c # l) # ls))"

definition take_or_count :: "(string \<Rightarrow> 's \<Rightarrow> 's option) \<Rightarrow> string \<Rightarrow> 's \<times> nat \<Rightarrow> 's \<times> nat" where
  "take_or_count take_line line x =
     (case (if length line \<le> line_bytes then take_line line (fst x) else None) of Some a \<Rightarrow> (a, snd x) | None \<Rightarrow> (fst x, snd x + 1))"

text \<open>Every ended line is taken or counted, in order; an unended rest counts once it is too long.\<close>

definition log_meaning :: "(string \<Rightarrow> 's \<Rightarrow> 's option) \<Rightarrow> 's \<Rightarrow> string \<Rightarrow> 's \<times> nat" where
  "log_meaning take_line acc text =
     (let (a, m) = fold (take_or_count take_line) (butlast (lf_split text)) (acc, 0)
      in (a, m + (if length (last (lf_split text)) > line_bytes then 1 else 0)))"

definition fresh_lines :: "'s \<Rightarrow> 's line_state" where
  "fresh_lines acc = \<lparr>ls_fragment = [], ls_skipping = False, ls_acc = acc, ls_malformed = 0\<rparr>"

lemma lf_split_nonempty [simp]: "lf_split t \<noteq> []"
  by (cases t) (auto split: list.split)

lemma lf_split_line: "LF \<notin> set p \<Longrightarrow> lf_split p = [p]"
  by (induction p) auto

lemma lf_split_break: "LF \<notin> set p \<Longrightarrow> lf_split (p @ LF # r) = p # lf_split r"
  by (induction p) auto

lemma fresh_ok [simp]: "line_ok (fresh_lines acc)"
  by (simp add: line_ok_def fresh_lines_def)

lemma end_of_line_clean:
  "\<not> ls_skipping st \<Longrightarrow> ls_acc (log_line_end take_line line st) = fst (take_or_count take_line line (ls_acc st, ls_malformed st)) \<and>
   ls_malformed (log_line_end take_line line st) = snd (take_or_count take_line line (ls_acc st, ls_malformed st)) \<and>
   ls_fragment (log_line_end take_line line st) = [] \<and> \<not> ls_skipping (log_line_end take_line line st)"
  by (simp add: log_line_end_def take_or_count_def Let_def split: option.split)

lemma feed_buffer_meaning:
  "\<not> ls_skipping st \<Longrightarrow> ls_fragment st = [] \<Longrightarrow>
   (ls_acc (feed_buffer take_line bs st), ls_malformed (feed_buffer take_line bs st)) =
   (let (a, m) = fold (take_or_count take_line) (butlast (lf_split bs)) (ls_acc st, ls_malformed st)
    in (a, m + (if length (last (lf_split bs)) > line_bytes then 1 else 0)))"
proof (induction "length bs" arbitrary: bs st rule: less_induct)
  case less
  show ?case
  proof (cases "LF \<in> set bs")
    case False
    then show ?thesis using less.prems by (simp add: feed_buffer_rest lf_split_line rest_state_def)
  next
    case True
    then obtain p r where bs: "bs = p @ LF # r" and p: "LF \<notin> set p" by (metis split_list_first)
    note e = end_of_line_clean [OF less.prems(1), of take_line p]
    show ?thesis
      using less.hyps [of r "log_line_end take_line p st"] e bs p by (simp add: feed_buffer_break lf_split_break)
  qed
qed

lemma feed_piece_meaning:
  "(ls_acc (feed_piece take_line bs (fresh_lines acc)), ls_malformed (feed_piece take_line bs (fresh_lines acc))) =
   log_meaning take_line acc bs"
  using feed_buffer_meaning [of "fresh_lines acc" take_line bs] by (simp add: feed_piece_def log_meaning_def fresh_lines_def)

lemma feed_pieces_join:
  "feed_piece take_line b (feed_piece take_line a (fresh_lines acc)) = feed_piece take_line (a @ b) (fresh_lines acc)"
  by (simp add: feed_piece_bytes fold_byte_ok)

section \<open>A log that grows\<close>

definition one_log :: "string \<Rightarrow> string \<Rightarrow> string \<Rightarrow> (string \<times> log_file option) list option" where
  "one_log name identity bytes = Some [(name, Some \<lparr>lf_identity = identity, lf_bytes = bytes\<rparr>)]"

definition follows :: "(string \<Rightarrow> 's \<Rightarrow> 's option) \<Rightarrow> 's \<Rightarrow> string \<Rightarrow> string \<Rightarrow> string \<Rightarrow> 's reader \<Rightarrow> bool" where
  "follows take_line acc name identity bytes r \<longleftrightarrow> rd_rescans r = 0 \<and>
     (rd_cursors r = [] \<and> r = new_reader acc \<or>
      (\<exists>c. rd_cursors r = [(name, c)] \<and> cu_identity c = identity \<and> cu_offset c \<le> length bytes \<and>
         cu_anchor c = anchor_of bytes (cu_offset c) \<and> (rd_status r = Ready \<longrightarrow> cu_offset c = length bytes) \<and>
         line_view c r = feed_piece take_line (take (cu_offset c) bytes) (fresh_lines acc)))"

lemma followsI:
  "rd_rescans r = 0 \<Longrightarrow> rd_cursors r = [(name, c)] \<Longrightarrow> cu_identity c = identity \<Longrightarrow> cu_offset c \<le> length bytes \<Longrightarrow>
   cu_anchor c = anchor_of bytes (cu_offset c) \<Longrightarrow> rd_status r = Ready \<longrightarrow> cu_offset c = length bytes \<Longrightarrow>
   line_view c r = feed_piece take_line (take (cu_offset c) bytes) (fresh_lines acc) \<Longrightarrow> follows take_line acc name identity bytes r"
  by (simp add: follows_def)

lemma anchor_prefix: "n \<le> length bytes \<Longrightarrow> anchor_of (bytes @ extra) n = anchor_of bytes n"
  by (simp add: anchor_of_def)

lemma anchor_unchanged:
  "n \<le> length bytes \<Longrightarrow> drop (n - length (anchor_of bytes n)) (take n bytes) = anchor_of bytes n"
  by (simp add: anchor_of_def)

lemma take_further: "n \<le> length bs \<Longrightarrow> take (n + length (take b (drop n bs))) bs = take n bs @ take b (drop n bs)"
  by (simp add: take_add min_def)

lemma one_log_files:
  "metric_file name \<Longrightarrow> 1 \<le> k \<Longrightarrow> metric_files k (the (one_log name identity bytes)) =
   [(name, Some \<lparr>lf_identity = identity, lf_bytes = bytes\<rparr>)]"
  by (simp add: metric_files_def one_log_def keep_last_def)

lemma one_pass:
  "(case map_of (rd_cursors r) name of Some c \<Rightarrow> c | None \<Rightarrow> new_cursor identity) = c \<Longrightarrow> lf_identity file = identity \<Longrightarrow>
   \<not> cursor_changed file c \<Longrightarrow> n = length (lf_bytes file) \<Longrightarrow>
   read_logs take_line budget [(name, Some file)] r = (PassDone (cu_offset c + budget < n), read_log take_line budget name file c r)"
  by (cases "map_of (rd_cursors r) name"; cases "cu_offset c + budget < n") (simp_all add: Let_def)

lemma poll_follows:
  assumes "follows take_line acc name identity bytes r" "metric_file name" "1 \<le> k"
  shows "follows take_line acc name identity (bytes @ extra)
     (poll acc take_line budget k now (one_log name identity (bytes @ extra)) r)"
proof -
  let ?file = "\<lparr>lf_identity = identity, lf_bytes = bytes @ extra\<rparr>"
  obtain c where c: "cu_identity c = identity" "cu_offset c \<le> length bytes" "cu_anchor c = anchor_of bytes (cu_offset c)"
    "line_view c r = feed_piece take_line (take (cu_offset c) bytes) (fresh_lines acc)"
    "map_of (rd_cursors r) name = Some c \<or> map_of (rd_cursors r) name = None \<and> c = new_cursor identity"
    "rd_cursors r = [] \<or> rd_cursors r = [(name, c)]"
  proof (cases "rd_cursors r = []")
    case True
    then have "r = new_reader acc" using assms(1) by (auto simp: follows_def)
    then have "line_view (new_cursor identity) r = feed_piece take_line (take 0 bytes) (fresh_lines acc)"
      by (simp add: line_view_def new_cursor_def new_reader_def feed_piece_bytes fresh_lines_def line_ok_def)
    then show ?thesis using that [of "new_cursor identity"] True by (simp add: new_cursor_def anchor_of_def)
  next
    case False
    then show ?thesis using assms(1) that by (auto simp: follows_def)
  qed
  have resc: "rd_rescans r = 0" using assms(1) by (simp add: follows_def)
  let ?piece = "take budget (drop (cu_offset c) (bytes @ extra))"
  let ?n = "cu_offset c + length ?piece"
  let ?c = "c\<lparr>cu_offset := ?n, cu_fragment := ls_fragment (feed_piece take_line ?piece (line_view c r)),
     cu_skipping := ls_skipping (feed_piece take_line ?piece (line_view c r)), cu_anchor := anchor_of (bytes @ extra) ?n\<rparr>"
  let ?r = "read_log take_line budget name ?file c r"
  have same: "\<not> cursor_changed ?file c"
    using c(1-3) anchor_unchanged [of "cu_offset c" bytes] by (simp add: cursor_changed_def)
  have r': "?r = r\<lparr>rd_cursors := [(name, ?c)], rd_acc := ls_acc (feed_piece take_line ?piece (line_view c r)),
      rd_malformed := ls_malformed (feed_piece take_line ?piece (line_view c r))\<rparr>"
    using c(6) by (auto simp: read_log_def Let_def)
  have view: "line_view ?c ?r = feed_piece take_line (take ?n (bytes @ extra)) (fresh_lines acc)"
    unfolding r' using c(2,4) take_further [of "cu_offset c" "bytes @ extra" budget]
    by (simp add: line_view_def feed_pieces_join)
  have known: "(case map_of (rd_cursors r) name of Some c \<Rightarrow> c | None \<Rightarrow> new_cursor identity) = c"
    using c(5) by auto
  have short: "?n \<le> length (bytes @ extra)" using c(2) by simp
  have all: "cu_offset c + budget < length (bytes @ extra) \<or> ?n = length (bytes @ extra)" using c(2) by auto
  let ?out = "PassDone (cu_offset c + budget < length (bytes @ extra))"
  have pass: "read_logs take_line budget [(name, Some ?file)] r = (?out, ?r)"
    by (rule one_pass [OF known _ same]) simp_all
  have "poll acc take_line budget k now (one_log name identity (bytes @ extra)) r =
     ?r\<lparr>rd_status := (if cu_offset c + budget < length (bytes @ extra) then CatchingUp else Ready), rd_last_read := Some now\<rparr>"
    (is "_ = ?p")
    using c(6) one_log_files [OF assms(2,3), of identity "bytes @ extra"] pass
    by (auto simp: poll_def one_log_def Let_def simp del: read_logs.simps)
  then have polled: "poll acc take_line budget k now (one_log name identity (bytes @ extra)) r = ?p" .
  have fields: "rd_rescans ?p = 0" "rd_cursors ?p = [(name, ?c)]" "line_view ?c ?p = line_view ?c ?r"
    using resc unfolding r' line_view_def by simp_all
  have sel: "cu_identity ?c = cu_identity c" "cu_offset ?c = ?n" "cu_anchor ?c = anchor_of (bytes @ extra) ?n"
    by simp_all
  have ready: "rd_status ?p = Ready \<longrightarrow> cu_offset ?c = length (bytes @ extra)"
    using all by auto
  show ?thesis
    unfolding polled by (rule followsI [OF fields(1,2) _ _ _ ready trans [OF fields(3)]])
      (simp only: sel c(1), simp only: sel short, simp only: sel, simp only: sel view)
qed

definition watch_step :: "'s \<Rightarrow> (string \<Rightarrow> 's \<Rightarrow> 's option) \<Rightarrow> nat \<Rightarrow> nat \<Rightarrow> string \<Rightarrow> string \<Rightarrow> string \<times> rat \<Rightarrow>
    string \<times> 's reader \<Rightarrow> string \<times> 's reader" where
  "watch_step acc take_line budget k name identity x s =
     (fst s @ fst x, poll acc take_line budget k (snd x) (one_log name identity (fst s @ fst x)) (snd s))"

lemma watch_follows:
  "metric_file name \<Longrightarrow> 1 \<le> k \<Longrightarrow> follows take_line acc name identity (fst s) (snd s) \<Longrightarrow>
   (let s' = fold (watch_step acc take_line budget k name identity) xs s in
     follows take_line acc name identity (fst s @ concat (map fst xs)) (snd s') \<and> fst s' = fst s @ concat (map fst xs))"
proof (induction xs arbitrary: s)
  case Nil
  then show ?case by simp
next
  case (Cons x xs)
  have "follows take_line acc name identity (fst (watch_step acc take_line budget k name identity x s))
      (snd (watch_step acc take_line budget k name identity x s))"
    unfolding watch_step_def fst_conv snd_conv by (rule poll_follows [OF Cons.prems(3,1,2)])
  from Cons.IH [OF Cons.prems(1,2) this] show ?case by (simp add: watch_step_def Let_def)
qed

lemma follows_meaning:
  assumes "follows take_line acc name identity bytes r" "rd_status r = Ready"
  shows "(rd_acc r, rd_malformed r) = log_meaning take_line acc bytes"
proof -
  from assms obtain c where "line_view c r = feed_piece take_line bytes (fresh_lines acc)"
    by (auto simp: follows_def new_reader_def)
  then show ?thesis unfolding feed_piece_meaning [symmetric] by (metis (no_types) line_state.select_convs(3,4) line_view_def)
qed

text \<open>C20: However a metric file grows between two polls, and however small the read budget of \<open>FleetSpeedReader.poll\<close>,
  the reader never rescans it, and whenever its status is \<open>ready\<close> what it has gathered and the malformed lines it has counted are
  those of the file read whole: every ended line of at most 64 KiB is parsed and accepted once and in order, every refused or longer line
  is counted once, and a longer line still without an end is counted once already.\<close>

theorem polls_read_the_log_once:
  "metric_file name \<Longrightarrow> 1 \<le> k \<Longrightarrow>
   rd_rescans (snd (fold (watch_step acc take_line budget k name identity) xs ([], new_reader acc))) = 0 \<and>
   (rd_status (snd (fold (watch_step acc take_line budget k name identity) xs ([], new_reader acc))) = Ready \<longrightarrow>
    (rd_acc (snd (fold (watch_step acc take_line budget k name identity) xs ([], new_reader acc))),
     rd_malformed (snd (fold (watch_step acc take_line budget k name identity) xs ([], new_reader acc)))) =
    log_meaning take_line acc (concat (map fst xs)))"
  using watch_follows [of name k take_line acc identity "([], new_reader acc)" budget xs]
    follows_meaning [of take_line acc name identity]
  by (auto simp: Let_def follows_def new_reader_def)


abbreviation tail_reader :: "string list reader" where
  "tail_reader \<equiv> snd (fold (watch_step [] (\<lambda>l a. Some (a @ [l])) 8 2 ''metrics-2026-01-02.jsonl'' ''i'') [([CHR ''a'', LF, CHR ''b''], 1)] ([], new_reader []))"

lemma tail_name: "metric_file ''metrics-2026-01-02.jsonl''"
  by (simp add: metric_file_def metric_digit_def)

lemma tail_ready: "rd_status tail_reader = Ready"
  using one_log_files [OF tail_name, of 2 "''i''" "[CHR ''a'', LF, CHR ''b'']"]
  by (simp add: watch_step_def poll_def one_log_def new_reader_def new_cursor_def read_log_def Let_def)

theorem polls_read_the_log_once_witness:
  "rd_rescans tail_reader = 0 \<and> rd_status tail_reader = Ready \<and>
   (rd_acc tail_reader, rd_malformed tail_reader) = log_meaning (\<lambda>l a. Some (a @ [l])) [] [CHR ''a'', LF, CHR ''b'']"
  using polls_read_the_log_once [OF tail_name, of 2 "[]" "\<lambda>l a. Some (a @ [l])" 8 "''i''" "[([CHR ''a'', LF, CHR ''b''], 1)]"] tail_ready
  by simp

end
