(* ===== verification/Attribution_Summary.thy ===== *)
theory Attribution_Summary
  imports Engine_Attribution
begin

text \<open>
  \<open>ds4-gateway/attribution-summary.mjs\<close>: the counts over the latest row of every engine start, and the index over time
  windows of \<open>time-window-index.mjs\<close> that the audit narrows its scans with. The \<open>Map\<close>s are lists in insertion order;
  the order in which a report lists its workers and reasons is not modelled.
\<close>

section \<open>Words of a row\<close>

definition status_of_name :: "string \<Rightarrow> at_status option" where
  "status_of_name s = (if s = ''candidate'' then Some Candidate else if s = ''corroborated'' then Some Corroborated
     else if s = ''abstained'' then Some Abstained else None)"

definition reason_names :: "(string \<times> at_reason) list" where
  "reason_names = [(''backend_epoch_unavailable'', EpochUnavailable), (''no_gateway_request_window'', NoWindow),
     (''overlapping_gateway_windows'', OverlappingWindows), (''overlapping_usage_matches'', OverlappingUsage),
     (''usage_conflict'', UsageConflict), (''request_open'', RequestOpen), (''usage_unavailable'', UsageUnavailable),
     (''multiple_engine_starts'', MultipleStarts), (''usage_match'', UsageMatch), (''usage_disambiguated_overlap'', UsageOverlap),
     (''completed_without_usage'', CompletedWithoutUsage), (''censored_or_failed'', CensoredOrFailed),
     (''gateway_evidence_conflict'', GatewayConflict)]"

definition reason_of_name :: "string \<Rightarrow> at_reason option" where
  "reason_of_name s = map_of reason_names s"

definition confidence_of_name :: "string \<Rightarrow> at_confidence option" where
  "confidence_of_name s = (if s = ''none'' then Some NoConfidence else if s = ''heuristic'' then Some Heuristic
     else if s = ''bounded_candidate'' then Some BoundedCandidate else if s = ''high_candidate'' then Some HighCandidate else None)"

definition named :: "(string \<Rightarrow> 'a option) \<Rightarrow> js \<Rightarrow> 'a option" where
  "named f v = (case v of JStr s \<Rightarrow> f s | _ \<Rightarrow> None)"

section \<open>The summary\<close>

record summary_row =
  sy_node :: string
  sy_sample :: string
  sy_status :: at_status
  sy_reason :: at_reason
  sy_confidence :: at_confidence
  sy_observed :: rat

definition safe_summary :: "nat \<Rightarrow> js \<Rightarrow> summary_row option" where
  "safe_summary index raw =
     (if jget raw ''event'' \<noteq> JStr ''engine_attribution'' then None
      else case (text_if node_text (jget raw ''node''), text_if digest_text (jget raw ''sample_id''),
                 named status_of_name (jget raw ''status''), named reason_of_name (jget raw ''reason''),
                 named confidence_of_name (jget raw ''confidence'')) of
        (Some n, Some s, Some st, Some r, Some c) \<Rightarrow>
          Some \<lparr>sy_node = n, sy_sample = s, sy_status = st, sy_reason = r, sy_confidence = c,
            sy_observed = (case finite_num (jget raw ''observed_at'') of Some t \<Rightarrow> t | None \<Rightarrow> of_nat index)\<rparr>
      | _ \<Rightarrow> None)"

text \<open>\<open>Map.set\<close> keeps the place of a key it has.\<close>

fun keep_latest :: "summary_row \<Rightarrow> summary_row list \<Rightarrow> summary_row list" where
  "keep_latest r [] = [r]"
| "keep_latest r (x # xs) =
     (if sy_node x = sy_node r \<and> sy_sample x = sy_sample r then (if sy_observed r \<ge> sy_observed x then r # xs else x # xs)
      else x # keep_latest r xs)"

definition latest_summaries :: "summary_row list \<Rightarrow> summary_row list" where
  "latest_summaries rows = fold keep_latest rows []"

record status_counts =
  cn_corroborated :: nat
  cn_candidate :: nat
  cn_abstained :: nat

definition count_status :: "summary_row list \<Rightarrow> status_counts" where
  "count_status rows = \<lparr>cn_corroborated = length (filter (\<lambda>r. sy_status r = Corroborated) rows),
     cn_candidate = length (filter (\<lambda>r. sy_status r = Candidate) rows),
     cn_abstained = length (filter (\<lambda>r. sy_status r = Abstained) rows)\<rparr>"

definition percent :: "nat \<Rightarrow> nat \<Rightarrow> rat option" where
  "percent part whole = (if whole = 0 then None else Some (of_int (js_round (of_nat part / of_nat whole * 1000)) / 10))"

definition resolved :: "status_counts \<Rightarrow> nat" where
  "resolved c = cn_corroborated c + cn_abstained c"

definition total_of :: "status_counts \<Rightarrow> nat" where
  "total_of c = cn_corroborated c + cn_candidate c + cn_abstained c"

record summary_report =
  sm_counts :: status_counts
  sm_rate :: "rat option"
  sm_high :: nat
  sm_bounded :: nat
  sm_reasons :: "(at_reason \<times> nat) list"
  sm_workers :: "(string \<times> status_counts \<times> rat option) list"
  sm_invalid :: nat

definition tally :: "'a list \<Rightarrow> ('a \<times> nat) list" where
  "tally xs = map (\<lambda>x. (x, count_list xs x)) (remdups xs)"

definition corroboration_rate :: "status_counts \<Rightarrow> rat option" where
  "corroboration_rate c = percent (cn_corroborated c) (resolved c)"

definition summarize :: "summary_row list \<Rightarrow> nat \<Rightarrow> summary_report" where
  "summarize rows invalid =
     (let latest = latest_summaries rows; c = count_status latest; sure = filter (\<lambda>r. sy_status r = Corroborated) latest
      in \<lparr>sm_counts = c, sm_rate = corroboration_rate c,
          sm_high = length (filter (\<lambda>r. sy_confidence r = HighCandidate) sure),
          sm_bounded = length (filter (\<lambda>r. sy_confidence r = BoundedCandidate) sure),
          sm_reasons = tally (map sy_reason (filter (\<lambda>r. sy_status r = Abstained) latest)),
          sm_workers = map (\<lambda>n. let w = count_status (filter (\<lambda>r. sy_node r = n) latest) in (n, w, corroboration_rate w))
            (remdups (map sy_node latest)),
          sm_invalid = invalid\<rparr>)"

definition summarize_attribution :: "js list \<Rightarrow> summary_report" where
  "summarize_attribution rows =
     (let safe = map (\<lambda>(i, r). safe_summary i r) (enumerate 0 rows)
      in summarize (List.map_filter (\<lambda>x. x) safe) (length (filter (\<lambda>x. x = None) safe)))"

section \<open>Windows of time\<close>

text \<open>The rows of a node in the order of their times, rows of one time in their first order.\<close>

definition node_bucket :: "('r \<Rightarrow> string) \<Rightarrow> ('r \<Rightarrow> rat) \<Rightarrow> 'r list \<Rightarrow> string \<Rightarrow> 'r list" where
  "node_bucket node_of time_of rows n = sort_key time_of (filter (\<lambda>r. node_of r = n) rows)"

text \<open>The search for the first row that is not before the bound, or that is after it.\<close>

definition before_bound :: "('r \<Rightarrow> rat) \<Rightarrow> rat \<Rightarrow> bool \<Rightarrow> 'r \<Rightarrow> bool" where
  "before_bound time_of value after_equals r \<longleftrightarrow> time_of r < value \<or> after_equals \<and> time_of r = value"

function bound_search :: "('r \<Rightarrow> bool) \<Rightarrow> 'r list \<Rightarrow> nat \<Rightarrow> nat \<Rightarrow> nat" where
  "bound_search before bucket low high =
     (if low < high
      then let mid = low + (high - low) div 2 in
        if before (bucket ! mid) then bound_search before bucket (mid + 1) high else bound_search before bucket low mid
      else low)"
  by pat_completeness auto
termination
  by (relation "measure (\<lambda>(_, _, low, high). high - low)") auto

declare bound_search.simps [simp del]

definition bound_at :: "('r \<Rightarrow> rat) \<Rightarrow> 'r list \<Rightarrow> rat \<Rightarrow> bool \<Rightarrow> nat" where
  "bound_at time_of bucket value after_equals = bound_search (before_bound time_of value after_equals) bucket 0 (length bucket)"

definition slice :: "nat \<Rightarrow> nat \<Rightarrow> 'a list \<Rightarrow> 'a list" where
  "slice i j xs = drop i (take j xs)"

definition time_windows :: "('r \<Rightarrow> string) \<Rightarrow> ('r \<Rightarrow> rat) \<Rightarrow> 'r list \<Rightarrow> string \<Rightarrow> rat \<Rightarrow> rat \<Rightarrow> 'r list" where
  "time_windows node_of time_of rows n from to =
     (let bucket = node_bucket node_of time_of rows n
      in slice (bound_at time_of bucket from False) (bound_at time_of bucket to True) bucket)"

section \<open>The index is a filter\<close>

text \<open>A predicate that holds on a prefix of the bucket only.\<close>

lemma bound_search_prefix:
  assumes "low \<le> high" "high \<le> length bucket" "k \<ge> low" "k \<le> high"
    "\<And>i. i < length bucket \<Longrightarrow> before (bucket ! i) \<longleftrightarrow> i < k"
  shows "bound_search before bucket low high = k"
  using assms
proof (induction before bucket low high rule: bound_search.induct)
  case (1 before bucket low high)
  show ?case
  proof (cases "low < high")
    case False
    then show ?thesis using "1.prems" by (subst bound_search.simps) simp
  next
    case True
    let ?m = "low + (high - low) div 2"
    have m: "?m < high" "low \<le> ?m" using True by auto
    then have len: "?m < length bucket" using "1.prems"(2) by simp
    show ?thesis
    proof (cases "before (bucket ! ?m)")
      case b: True
      then have "?m < k" using "1.prems"(5) [OF len] by simp
      then show ?thesis
        using "1.IH"(1) [OF True refl b] "1.prems" m True b by (subst bound_search.simps) (simp add: Let_def)
    next
      case b: False
      then have "k \<le> ?m" using "1.prems"(5) [OF len] by simp
      then show ?thesis
        using "1.IH"(2) [OF True refl b] "1.prems" m True b by (subst bound_search.simps) (simp add: Let_def)
    qed
  qed
qed

lemma sorted_prefix:
  assumes "sorted (map f xs)" "\<And>a b. f a \<le> f b \<Longrightarrow> p b \<Longrightarrow> p a"
  shows "i < length xs \<Longrightarrow> p (xs ! i) \<longleftrightarrow> i < length (takeWhile p xs)"
  using assms
proof (induction xs arbitrary: i)
  case Nil
  then show ?case by simp
next
  case (Cons x xs)
  have all: "p x" if "y \<in> set xs" "p y" for y
    using Cons.prems(2,3) that by auto
  show ?case
  proof (cases i)
    case 0
    then show ?thesis by simp
  next
    case (Suc j)
    then show ?thesis using Cons.IH [of j] Cons.prems all [of "xs ! j"] by auto
  qed
qed

lemma sorted_filter_prefix:
  assumes "sorted (map f xs)" "\<And>a b. f a \<le> f b \<Longrightarrow> p b \<Longrightarrow> p a"
  shows "takeWhile p xs = filter p xs" "dropWhile p xs = filter (\<lambda>x. \<not> p x) xs"
proof -
  have down: "\<forall>y \<in> set xs. p y \<longrightarrow> p x" if "sorted (map f (x # xs))" for x xs
    using assms(2) that by auto
  have "takeWhile p xs = filter p xs \<and> dropWhile p xs = filter (\<lambda>x. \<not> p x) xs"
    using assms(1)
  proof (induction xs)
    case Nil
    then show ?case by simp
  next
    case (Cons x xs)
    have "filter p xs = [] \<and> filter (\<lambda>x. \<not> p x) xs = xs" if "\<not> p x"
      using down [OF Cons.prems] that by (auto simp: filter_empty_conv filter_id_conv)
    then show ?case using Cons by auto
  qed
  then show "takeWhile p xs = filter p xs" "dropWhile p xs = filter (\<lambda>x. \<not> p x) xs" by simp_all
qed

lemma bound_at_prefix:
  assumes "sorted (map f bucket)"
  shows "bound_at f bucket v a = length (takeWhile (before_bound f v a) bucket)"
  unfolding bound_at_def
proof (rule bound_search_prefix)
  show "before_bound f v a (bucket ! i) \<longleftrightarrow> i < length (takeWhile (before_bound f v a) bucket)" if "i < length bucket" for i
    by (rule sorted_prefix [OF assms _ that]) (auto simp: before_bound_def)
qed (simp_all add: length_takeWhile_le)

lemma drop_takeWhile: "drop (length (takeWhile p xs)) xs = dropWhile p xs"
  by (simp add: dropWhile_eq_drop)

lemma takeWhile_longer:
  "(\<And>x. p x \<Longrightarrow> q x) \<Longrightarrow> length (takeWhile p xs) \<le> length (takeWhile q xs)"
  by (induction xs) auto

lemma time_windows_ordered:
  assumes le: "from \<le> to"
  shows "time_windows node_of time_of rows n from to =
    filter (\<lambda>r. from \<le> time_of r \<and> time_of r \<le> to) (node_bucket node_of time_of rows n)"
proof -
  let ?b = "node_bucket node_of time_of rows n"
  let ?p = "before_bound time_of from False" and ?q = "before_bound time_of to True"
  have s: "sorted (map time_of ?b)" by (simp add: node_bucket_def)
  have down: "?p y" if "time_of y \<le> time_of x" "?p x" for x y using that by (auto simp: before_bound_def)
  have down': "?q y" if "time_of y \<le> time_of x" "?q x" for x y using that by (auto simp: before_bound_def)
  have q: "takeWhile ?q ?b = filter ?q ?b"
    by (rule sorted_filter_prefix(1) [OF s]) (rule down')
  have sq: "sorted (map time_of (filter ?q ?b))" by (rule sorted_filter) (rule s)
  have p: "takeWhile ?p ?b = filter ?p ?b" by (rule sorted_filter_prefix(1) [OF s]) (rule down)
  have pq: "takeWhile ?p (filter ?q ?b) = filter ?p (filter ?q ?b)" "dropWhile ?p (filter ?q ?b) = filter (\<lambda>r. \<not> ?p r) (filter ?q ?b)"
    by (rule sorted_filter_prefix [OF sq]; rule down; assumption)+
  have same: "filter ?p (filter ?q ?b) = filter ?p ?b"
    using le by (auto simp: before_bound_def intro!: filter_cong)
  have "time_windows node_of time_of rows n from to = drop (length (takeWhile ?p ?b)) (takeWhile ?q ?b)"
    using bound_at_prefix [OF s] by (simp add: time_windows_def slice_def Let_def flip: takeWhile_eq_take)
  also have "\<dots> = drop (length (takeWhile ?p (filter ?q ?b))) (filter ?q ?b)"
    unfolding p q pq same ..
  also have "\<dots> = filter (\<lambda>r. \<not> ?p r) (filter ?q ?b)" by (rule trans [OF drop_takeWhile pq(2)])
  finally show ?thesis by (auto simp: before_bound_def intro!: filter_cong)
qed

lemma bound_at_le: "sorted (map f bucket) \<Longrightarrow> to < from \<Longrightarrow> bound_at f bucket to True \<le> bound_at f bucket from False"
  by (simp only: bound_at_prefix) (rule takeWhile_longer; auto simp: before_bound_def)

lemma time_windows_filter:
  "time_windows node_of time_of rows n from to =
    filter (\<lambda>r. from \<le> time_of r \<and> time_of r \<le> to) (node_bucket node_of time_of rows n)"
proof (cases "from \<le> to")
  case True
  then show ?thesis by (rule time_windows_ordered)
next
  case False
  have "sorted (map time_of (node_bucket node_of time_of rows n))" by (simp add: node_bucket_def)
  from bound_at_le [OF this, of to "from"] have "time_windows node_of time_of rows n from to = []"
    using False by (simp add: time_windows_def slice_def Let_def min_def)
  also have "[] = filter (\<lambda>r. from \<le> time_of r \<and> time_of r \<le> to) (node_bucket node_of time_of rows n)"
    using False by (auto simp: filter_empty_conv)
  finally show ?thesis .
qed

text \<open>The index of \<open>timeWindows\<close> loses and invents nothing: for any rows, any node and any bounds, also reversed ones, the slice
  between its two binary searches is exactly the rows of the node whose time lies within the bounds, both included, in the order of
  their times and rows of one time in their first order.\<close>

theorem window_index_is_a_filter:
  "time_windows node_of time_of rows n from to =
   sort_key time_of (filter (\<lambda>r. node_of r = n \<and> from \<le> time_of r \<and> time_of r \<le> to) rows)"
  by (simp add: time_windows_filter node_bucket_def filter_sort conj_commute conj_left_commute)

end
