(* ===== verification/Attribution_Audit.thy ===== *)
theory Attribution_Audit
  imports Attribution_Summary Stream_Lines
begin

text \<open>
  \<open>ds4-gateway/attribution-audit.mjs\<close>: the later reconciliation of starts that overlapping request windows left open,
  and the reading of its evidence. The files are what \<open>boundedLines\<close> returns of them; \<open>num\<close> reads a text as a number
  (\<open>Number\<close>) and \<open>date\<close> as a date (\<open>Date.parse\<close>). Identifiers are texts. A row is the record of its safe fields.
\<close>

section \<open>Safe rows\<close>

fun js_number :: "(string \<Rightarrow> rat option) \<Rightarrow> js \<Rightarrow> rat option" where
  "js_number num (JNum r) = Some r"
| "js_number num (JStr s) = num s"
| "js_number num JNull = Some 0"
| "js_number num (JBool b) = Some (if b then 1 else 0)"
| "js_number num _ = None"

record audit_row =
  aw_sample :: string
  aw_node :: string
  aw_started :: rat
  aw_epoch :: "string option"
  aw_epoch_confidence :: epoch_confidence
  aw_request :: "string option"
  aw_status :: at_status
  aw_reason :: at_reason
  aw_confidence :: at_confidence
  aw_delta :: "int option"
  aw_prompt :: int
  aw_cached :: int
  aw_new :: int
  aw_observed :: rat

definition safe_attribution :: "(string \<Rightarrow> rat option) \<Rightarrow> js \<Rightarrow> audit_row option" where
  "safe_attribution num raw =
     (if jget raw ''event'' \<noteq> JStr ''engine_attribution'' then None
      else case (text_if node_text (jget raw ''node''), text_if digest_text (jget raw ''sample_id''),
          named status_of_name (jget raw ''status''), named reason_of_name (jget raw ''reason''),
          named confidence_of_name (jget raw ''confidence''), js_number num (jget raw ''engine_started_at''),
          js_tokens (jget raw ''prompt_tokens''), js_tokens (jget raw ''cached_tokens''), js_tokens (jget raw ''new_tokens'')) of
        (Some n, Some s, Some st, Some r, Some c, Some t, Some p, Some k, Some f) \<Rightarrow>
          if t \<le> 0 \<or> k + f \<noteq> p then None
          else Some \<lparr>aw_sample = s, aw_node = n, aw_started = t, aw_epoch = text_if digest_text (jget raw ''backend_epoch''),
            aw_epoch_confidence = epoch_confidence_of (jget raw ''backend_epoch_confidence''),
            aw_request = text_if uuid_lower (jget raw ''request_id''), aw_status = st, aw_reason = r, aw_confidence = c,
            aw_delta = map_option js_round (finite_num (jget raw ''dispatch_delta_ms'')), aw_prompt = p, aw_cached = k, aw_new = f,
            aw_observed = (case finite_num (jget raw ''observed_at'') of Some o1 \<Rightarrow> o1 | None \<Rightarrow> t)\<rparr>
      | _ \<Rightarrow> None)"

record audit_start =
  su_sample :: "string option"
  su_node :: string
  su_time :: rat
  su_prompt :: int
  su_cached :: int
  su_new :: int
  su_epoch :: "string option"
  su_confidence :: epoch_confidence

definition safe_collision_start :: "(string \<Rightarrow> rat option) \<Rightarrow> js \<Rightarrow> audit_start option" where
  "safe_collision_start num raw =
     (if jget raw ''kind'' \<noteq> JStr ''start'' then None
      else case (text_if node_text (jget raw ''node''), js_number num (jget raw ''time''), js_tokens (jget raw ''prompt''),
          js_tokens (jget raw ''cached''), js_tokens (jget raw ''new_tokens'')) of
        (Some n, Some t, Some p, Some k, Some f) \<Rightarrow>
          if t \<le> 0 \<or> k + f \<noteq> p then None
          else Some \<lparr>su_sample = text_if digest_text (jget raw ''sample_id''), su_node = n, su_time = t, su_prompt = p,
            su_cached = k, su_new = f, su_epoch = text_if digest_text (jget raw ''backend_epoch''),
            su_confidence = epoch_confidence_of (jget raw ''backend_epoch_confidence'')\<rparr>
      | _ \<Rightarrow> None)"

definition safe_start :: "(string \<Rightarrow> rat option) \<Rightarrow> js \<Rightarrow> audit_start option" where
  "safe_start num raw = (case safe_collision_start num raw of
     Some st \<Rightarrow> if su_sample st \<noteq> None then Some st else None | None \<Rightarrow> None)"

record audit_event =
  ae_finished :: bool
  ae_time :: rat
  ae_node :: string
  ae_request :: string
  ae_outcome :: "string option"
  ae_usage :: tokens_used

definition lifecycle_names :: "js list" where
  "lifecycle_names = [JStr ''request_dispatched'', JStr ''request_finished'']"

definition event_outcome :: "js \<Rightarrow> string option" where
  "event_outcome v = (case v of JStr s \<Rightarrow> if s \<in> set outcome_names then Some s else if s = [] then None else Some ''other''
     | _ \<Rightarrow> if truthy v then Some ''other'' else None)"

definition date_of_text :: "(string \<Rightarrow> rat option) \<Rightarrow> js \<Rightarrow> rat option" where
  "date_of_text date v = (case v of JStr s \<Rightarrow> date s | _ \<Rightarrow> None)"

definition safe_lifecycle :: "(string \<Rightarrow> rat option) \<Rightarrow> js \<Rightarrow> audit_event option" where
  "safe_lifecycle date raw =
     (if jget raw ''event'' \<notin> set lifecycle_names then None
      else case (text_if uuid_lower (jget raw ''request_id''), text_if node_text (jget raw ''node''), date_of_text date (jget raw ''time'')) of
        (Some q, Some n, Some t) \<Rightarrow>
          if t \<le> 0 then None
          else Some \<lparr>ae_finished = (jget raw ''event'' = JStr ''request_finished''), ae_time = t, ae_node = n, ae_request = q,
            ae_outcome = event_outcome (jget raw ''outcome''),
            ae_usage = \<lparr>tu_prompt = js_tokens (jget (jget raw ''usage'') ''prompt_tokens''),
                        tu_cached = js_tokens (jget (jget raw ''usage'') ''cached_tokens'')\<rparr>\<rparr>
      | _ \<Rightarrow> None)"

section \<open>The latest rows\<close>

text \<open>A row is known by its node and its sample.\<close>

type_synonym sample_key = "string \<times> string"

definition key_of :: "audit_row \<Rightarrow> sample_key" where
  "key_of r = (aw_node r, aw_sample r)"

definition start_key :: "audit_start \<Rightarrow> sample_key option" where
  "start_key s = map_option (Pair (su_node s)) (su_sample s)"

text \<open>\<open>Map.set\<close> keeps the place of a key it has.\<close>

fun map_put :: "'k \<Rightarrow> 'v \<Rightarrow> ('k \<times> 'v) list \<Rightarrow> ('k \<times> 'v) list" where
  "map_put k v [] = [(k, v)]"
| "map_put k v ((k', v') # xs) = (if k' = k then (k, v) # xs else (k', v') # map_put k v xs)"

record latest_rows =
  lr_latest :: "(sample_key \<times> audit_row) list"
  lr_conflicts :: "sample_key list"
  lr_claims :: "(sample_key \<times> string option list) list"

definition no_rows :: latest_rows where
  "no_rows = \<lparr>lr_latest = [], lr_conflicts = [], lr_claims = []\<rparr>"

definition claim_also :: "sample_key \<Rightarrow> string option \<Rightarrow> (sample_key \<times> string option list) list \<Rightarrow> (sample_key \<times> string option list) list" where
  "claim_also k q claims = map_put k (case map_of claims k of Some qs \<Rightarrow> List.insert q qs | None \<Rightarrow> [q]) claims"

definition latest_step :: "audit_row \<Rightarrow> latest_rows \<Rightarrow> latest_rows" where
  "latest_step r l =
     (let k = key_of r; newer = l\<lparr>lr_latest := map_put k r (lr_latest l), lr_conflicts := removeAll k (lr_conflicts l),
            lr_claims := map_put k [aw_request r] (lr_claims l)\<rparr> in
      case map_of (lr_latest l) k of
        None \<Rightarrow> newer
      | Some prior \<Rightarrow>
          if aw_observed r > aw_observed prior then newer
          else if aw_observed r = aw_observed prior
          then l\<lparr>lr_latest := map_put k r (lr_latest l), lr_conflicts := (if r \<noteq> prior then List.insert k (lr_conflicts l) else lr_conflicts l),
                 lr_claims := claim_also k (aw_request r) (lr_claims l)\<rparr>
          else l)"

definition latest_of :: "audit_row list \<Rightarrow> latest_rows" where
  "latest_of rows = fold latest_step rows no_rows"

section \<open>Lifecycles of requests\<close>

record audit_request =
  ag_id :: string
  ag_node :: string
  ag_dispatched :: "rat option"
  ag_finished :: "rat option"
  ag_outcome :: "string option"
  ag_usage :: "tokens_used option"
  ag_conflict :: bool

definition new_request :: "audit_event \<Rightarrow> audit_request" where
  "new_request ev = \<lparr>ag_id = ae_request ev, ag_node = ae_node ev, ag_dispatched = None, ag_finished = None, ag_outcome = None,
     ag_usage = None, ag_conflict = False\<rparr>"

definition note_audit :: "audit_event \<Rightarrow> audit_request \<Rightarrow> audit_request" where
  "note_audit ev q0 =
     (let q = q0\<lparr>ag_conflict := (ag_conflict q0 \<or> ag_node q0 \<noteq> ae_node ev)\<rparr> in
      if ae_finished ev
      then q\<lparr>ag_conflict := (ag_conflict q \<or> ag_finished q \<noteq> None \<and> (ag_finished q \<noteq> Some (ae_time ev) \<or> ag_outcome q \<noteq> ae_outcome ev \<or>
               ag_usage q \<noteq> Some (ae_usage ev))),
             ag_finished := Some (ae_time ev), ag_outcome := ae_outcome ev, ag_usage := Some (ae_usage ev)\<rparr>
      else q\<lparr>ag_conflict := (ag_conflict q \<or> ag_dispatched q \<noteq> None \<and> ag_dispatched q \<noteq> Some (ae_time ev)),
             ag_dispatched := Some (case ag_dispatched q of Some d \<Rightarrow> d | None \<Rightarrow> ae_time ev)\<rparr>)"

definition lifecycle_step :: "audit_event \<Rightarrow> (string \<times> audit_request) list \<Rightarrow> (string \<times> audit_request) list" where
  "lifecycle_step ev m =
     map_put (ae_request ev) (note_audit ev (case map_of m (ae_request ev) of Some q \<Rightarrow> q | None \<Rightarrow> new_request ev)) m"

definition lifecycles :: "audit_event list \<Rightarrow> (string \<times> audit_request) list" where
  "lifecycles evs = fold lifecycle_step evs []"

definition contradictory :: "audit_request \<Rightarrow> bool" where
  "contradictory q \<longleftrightarrow> ag_conflict q \<or> (case (ag_dispatched q, ag_finished q) of (Some d, Some f) \<Rightarrow> f < d | _ \<Rightarrow> False)"

text \<open>The earliest time of the evidence: without any it is infinite.\<close>

datatype edge = MinusInfinity | Edge rat | PlusInfinity

fun edge_after :: "edge \<Rightarrow> rat \<Rightarrow> bool" where
  "edge_after MinusInfinity t = False"
| "edge_after (Edge x) t = (x > t)"
| "edge_after PlusInfinity t = True"

definition earliest :: "rat list \<Rightarrow> edge" where
  "earliest ts = (case ts of [] \<Rightarrow> PlusInfinity | t # us \<Rightarrow> Edge (foldl min t us))"

section \<open>Proposals\<close>

datatype block_reason = SourceIncomplete | EvidenceConflict | AttributionConflict | StartUnavailable | StartConflict | MetricCoverage
  | GatewayCoverage | WindowChanged | UsageIncomplete | DuplicateUsage | UsageDiffers | RequestCollision | CompetingStart

text \<open>What the pass over the rows reads.\<close>

record audit_evidence =
  ev_rows :: latest_rows
  ev_starts :: "(sample_key \<times> audit_start) list"
  ev_start_conflicts :: "sample_key list"
  ev_collisions :: "audit_start list"
  ev_lifecycle :: "(string \<times> audit_request) list"
  ev_gateway :: edge
  ev_metrics :: edge

definition window_open :: "audit_request \<Rightarrow> rat \<Rightarrow> bool" where
  "window_open q t \<longleftrightarrow> (case ag_dispatched q of None \<Rightarrow> False
     | Some d \<Rightarrow> d \<le> t + skew_ms \<and> t - d \<le> max_lead_ms) \<and> (case ag_finished q of None \<Rightarrow> True | Some f \<Rightarrow> f \<ge> t - skew_ms)"

definition dispatch_time :: "audit_request \<Rightarrow> rat" where
  "dispatch_time q = (case ag_dispatched q of Some d \<Rightarrow> d | None \<Rightarrow> 0)"

definition dispatched_requests :: "audit_evidence \<Rightarrow> audit_request list" where
  "dispatched_requests e = filter (\<lambda>q. ag_dispatched q \<noteq> None) (map snd (ev_lifecycle e))"

definition candidates :: "audit_evidence \<Rightarrow> audit_start \<Rightarrow> audit_request list" where
  "candidates e st = filter (\<lambda>q. ag_node q = su_node st \<and> window_open q (su_time st))
     (time_windows ag_node dispatch_time (dispatched_requests e) (su_node st) (su_time st - max_lead_ms - skew_ms) (su_time st + 2 * skew_ms))"

definition used :: "audit_request \<Rightarrow> (int \<times> int) option" where
  "used q = (case ag_usage q of Some u \<Rightarrow> (case (tu_prompt u, tu_cached u) of (Some p, Some c) \<Rightarrow> Some (p, c) | _ \<Rightarrow> None) | None \<Rightarrow> None)"

definition same_start :: "audit_start \<Rightarrow> audit_row \<Rightarrow> bool" where
  "same_start st r \<longleftrightarrow> su_time st = aw_started r \<and> su_epoch st \<noteq> None \<and> su_confidence st \<in> {Strong, Bounded} \<and>
     su_epoch st = aw_epoch r \<and> su_confidence st = aw_epoch_confidence r \<and> su_prompt st = aw_prompt r \<and>
     su_cached st = aw_cached r \<and> su_new st = aw_new r"

definition propose :: "audit_evidence \<Rightarrow> audit_row \<Rightarrow> block_reason + string \<times> int" where
  "propose e r =
     (if key_of r \<in> set (lr_conflicts (ev_rows e)) then Inl AttributionConflict
      else case map_of (ev_starts e) (key_of r) of
        None \<Rightarrow> Inl StartUnavailable
      | Some st \<Rightarrow>
          if key_of r \<in> set (ev_start_conflicts e) \<or> \<not> same_start st r then Inl StartConflict
          else if edge_after (ev_metrics e) (su_time st - max_lead_ms) then Inl MetricCoverage
          else if edge_after (ev_gateway e) (su_time st - max_lead_ms) then Inl GatewayCoverage
          else let cands = candidates e st in
            if length cands < 2 then Inl WindowChanged
            else if \<not> list_all (\<lambda>q. ag_finished q \<noteq> None \<and> used q \<noteq> None) cands then Inl UsageIncomplete
            else (case filter (\<lambda>q. used q = Some (su_prompt st, su_cached st)) cands of
                [q] \<Rightarrow> Inr (ag_id q, js_round (su_time st - dispatch_time q))
              | [] \<Rightarrow> Inl UsageDiffers
              | _ \<Rightarrow> Inl DuplicateUsage))"

definition proposals :: "audit_evidence \<Rightarrow> (sample_key \<times> string \<times> int) list" where
  "proposals e = List.map_filter (\<lambda>(k, r). if aw_reason r = OverlappingWindows
     then (case propose e r of Inr p \<Rightarrow> Some (k, p) | Inl _ \<Rightarrow> None) else None) (lr_latest (ev_rows e))"

section \<open>Owners\<close>

text \<open>The starts that claim a request, now or by a proposal.\<close>

definition sample_owners :: "audit_evidence \<Rightarrow> string \<Rightarrow> sample_key list" where
  "sample_owners e q = remdups (map fst (filter (\<lambda>(k, qs). Some q \<in> set qs) (lr_claims (ev_rows e))) @
     map fst (filter (\<lambda>(k, p). fst p = q) (proposals e)))"

definition row_at :: "audit_evidence \<Rightarrow> audit_start \<Rightarrow> audit_row option" where
  "row_at e st = Option.bind (start_key st) (map_of (lr_latest (ev_rows e)))"

definition start_within :: "audit_start \<Rightarrow> audit_request \<Rightarrow> bool" where
  "start_within st q \<longleftrightarrow> ag_node q = su_node st \<and> (case (ag_dispatched q, ag_finished q) of
     (Some d, Some f) \<Rightarrow> d \<le> f \<and> d - skew_ms \<le> su_time st \<and> su_time st \<le> f + skew_ms \<and> su_time st - d \<le> max_lead_ms | _ \<Rightarrow> False)"

definition independently_owned :: "audit_evidence \<Rightarrow> string \<Rightarrow> audit_row \<Rightarrow> audit_start \<Rightarrow> bool" where
  "independently_owned e proposed target st \<longleftrightarrow>
     (case (start_key st, row_at e st) of
        (Some k, Some owner) \<Rightarrow>
          (case aw_request owner of None \<Rightarrow> False
           | Some rid \<Rightarrow> (case map_of (ev_lifecycle e) rid of None \<Rightarrow> False
             | Some q \<Rightarrow>
                 k \<notin> set (lr_conflicts (ev_rows e)) \<and> k \<notin> set (ev_start_conflicts e) \<and> aw_status owner = Corroborated \<and>
                 aw_confidence owner \<in> {HighCandidate, BoundedCandidate} \<and> aw_reason owner \<in> {UsageMatch, UsageOverlap} \<and>
                 rid \<noteq> proposed \<and> length (sample_owners e rid) = 1 \<and> \<not> ag_conflict q \<and> ag_outcome q = Some ''complete'' \<and> start_within st q \<and>
                 su_epoch st \<noteq> None \<and> su_epoch st = aw_epoch owner \<and> su_epoch st = aw_epoch target \<and> aw_started owner = su_time st \<and>
                 aw_prompt owner = su_prompt st \<and> aw_cached owner = su_cached st \<and> used q = Some (su_prompt st, su_cached st) \<and>
                 (su_prompt st \<noteq> aw_prompt target \<or> su_cached st \<noteq> aw_cached target)))
      | _ \<Rightarrow> False)"

definition competing_starts :: "audit_evidence \<Rightarrow> audit_request \<Rightarrow> audit_row \<Rightarrow> audit_start list" where
  "competing_starts e q r =
     (let d = dispatch_time q; upto = (case ag_finished q of None \<Rightarrow> d + max_lead_ms + skew_ms
            | Some f \<Rightarrow> min (d + max_lead_ms + skew_ms) (f + 2 * skew_ms))
      in filter (\<lambda>st. start_key st \<noteq> Some (key_of r) \<and> su_node st = ag_node q \<and> window_open q (su_time st))
           (time_windows su_node su_time (ev_collisions e) (ag_node q) (d - 2 * skew_ms) upto))"

section \<open>The revised rows\<close>

definition owned_by_other :: "audit_evidence \<Rightarrow> string \<Rightarrow> audit_start \<Rightarrow> bool" where
  "owned_by_other e proposed st = (case row_at e st of
     Some owner \<Rightarrow> aw_status owner = Corroborated \<and> aw_request owner \<noteq> None \<and> aw_request owner \<noteq> Some proposed | None \<Rightarrow> False)"

datatype start_flag = IdentifiedStart | AnonymousStart | SameUsage | DifferentUsage | OtherOwner | UnresolvedOwner

definition start_flags :: "audit_evidence \<Rightarrow> string \<Rightarrow> audit_row \<Rightarrow> audit_start list \<Rightarrow> start_flag list" where
  "start_flags e proposed r sts = remdups (
     map (\<lambda>s. if su_sample s \<noteq> None then IdentifiedStart else AnonymousStart) sts @
     map (\<lambda>s. if su_prompt s = aw_prompt r \<and> su_cached s = aw_cached r then SameUsage else DifferentUsage) sts @
     map (\<lambda>s. if owned_by_other e proposed s then OtherOwner else UnresolvedOwner) sts)"

datatype revision = Kept | Blocked block_reason "start_flag list" | Revised string int

definition revision_of :: "audit_evidence \<Rightarrow> audit_row \<Rightarrow> revision" where
  "revision_of e r =
     (if aw_reason r \<noteq> OverlappingWindows then Kept
      else case propose e r of
        Inl why \<Rightarrow> Blocked why []
      | Inr (q, delta) \<Rightarrow>
          if length (sample_owners e q) \<noteq> 1 then Blocked RequestCollision []
          else (case map_of (ev_lifecycle e) q of
              None \<Rightarrow> Kept
            | Some rq \<Rightarrow> let others = competing_starts e rq r in
                if list_all (independently_owned e q r) others then Revised q delta
                else Blocked CompetingStart (start_flags e q r others)))"

definition revise :: "audit_evidence \<Rightarrow> audit_row \<Rightarrow> audit_row" where
  "revise e r = (case revision_of e r of
     Revised q delta \<Rightarrow> r\<lparr>aw_request := Some q, aw_status := Corroborated, aw_reason := UsageOverlap,
       aw_confidence := epoch_rank (aw_epoch_confidence r), aw_delta := Some delta\<rparr>
   | _ \<Rightarrow> r)"

section \<open>The report\<close>

definition in_cohort :: "rat option \<Rightarrow> audit_row \<Rightarrow> bool" where
  "in_cohort since r = (case since of None \<Rightarrow> True | Some t \<Rightarrow> t \<le> aw_started r)"

definition summary_of_row :: "audit_row \<Rightarrow> summary_row" where
  "summary_of_row r = \<lparr>sy_node = aw_node r, sy_sample = aw_sample r, sy_status = aw_status r, sy_reason = aw_reason r,
     sy_confidence = aw_confidence r, sy_observed = aw_observed r\<rparr>"

record worker_audit =
  wa_node :: string
  wa_recorded :: nat
  wa_reconciled :: nat
  wa_remaining :: nat
  wa_blocks :: "(block_reason \<times> nat) list"
  wa_flags :: "(start_flag \<times> nat) list"

record audit_report =
  ap_rows :: "audit_row list"
  ap_summary :: summary_report
  ap_reconciled :: nat
  ap_remaining :: nat
  ap_blocks :: "(block_reason \<times> nat) list"
  ap_flags :: "(start_flag \<times> nat) list"
  ap_workers :: "worker_audit list"

definition is_overlap :: "audit_row \<Rightarrow> bool" where
  "is_overlap r \<longleftrightarrow> aw_reason r = OverlappingWindows"

definition blocks_in :: "revision list \<Rightarrow> block_reason list" where
  "blocks_in rs = List.map_filter (\<lambda>v. case v of Blocked why _ \<Rightarrow> Some why | _ \<Rightarrow> None) rs"

definition flags_in :: "revision list \<Rightarrow> start_flag list" where
  "flags_in rs = concat (map (\<lambda>v. case v of Blocked _ fs \<Rightarrow> fs | _ \<Rightarrow> []) rs)"

definition revised_in :: "revision list \<Rightarrow> nat" where
  "revised_in rs = length (filter (\<lambda>v. case v of Revised _ _ \<Rightarrow> True | _ \<Rightarrow> False) rs)"

definition worker_audit_of :: "(audit_row \<Rightarrow> revision) \<Rightarrow> audit_row list \<Rightarrow> string \<Rightarrow> worker_audit" where
  "worker_audit_of f overlaps n =
     (let own = filter (\<lambda>r. aw_node r = n) overlaps; rs = map f own
      in \<lparr>wa_node = n, wa_recorded = length own, wa_reconciled = revised_in rs, wa_remaining = length own - revised_in rs,
          wa_blocks = tally (blocks_in rs), wa_flags = tally (flags_in rs)\<rparr>)"

definition audit_report_of :: "rat option \<Rightarrow> (audit_row \<Rightarrow> revision) \<Rightarrow> (audit_row \<Rightarrow> audit_row) \<Rightarrow> audit_row list \<Rightarrow> audit_report" where
  "audit_report_of since f g original =
     (let overlaps = filter is_overlap (filter (in_cohort since) original); rs = map f overlaps; revised = map g original
      in \<lparr>ap_rows = revised, ap_summary = summarize (map summary_of_row (filter (in_cohort since) revised)) 0,
          ap_reconciled = revised_in rs, ap_remaining = length (filter is_overlap (filter (in_cohort since) revised)),
          ap_blocks = tally (blocks_in rs), ap_flags = tally (flags_in rs),
          ap_workers = map (worker_audit_of f overlaps) (remdups (map aw_node overlaps))\<rparr>)"

definition unchanged_report :: "rat option \<Rightarrow> block_reason \<Rightarrow> audit_row list \<Rightarrow> audit_report" where
  "unchanged_report since why original = audit_report_of since (\<lambda>_. Blocked why []) (\<lambda>r. r) original"

definition start_conflicts :: "(sample_key \<times> audit_start) list \<Rightarrow> sample_key list" where
  "start_conflicts kss = remdups (List.map_filter (\<lambda>((k, s), i). case find (\<lambda>(k', _). k' = k) (rev (take i kss)) of
     Some (_, prior) \<Rightarrow> if prior \<noteq> s then Some k else None | None \<Rightarrow> None) (zip kss [0..<length kss]))"

definition keyed_starts :: "audit_start list \<Rightarrow> (sample_key \<times> audit_start) list" where
  "keyed_starts sts = List.map_filter (\<lambda>s. map_option (\<lambda>k. (k, s)) (start_key s)) sts"

definition audit_evidence_of :: "audit_row list \<Rightarrow> audit_start list \<Rightarrow> audit_event list \<Rightarrow> edge \<Rightarrow> audit_evidence" where
  "audit_evidence_of rows sts evs metrics =
     \<lparr>ev_rows = latest_of rows, ev_starts = fold (\<lambda>(k, s). map_put k s) (keyed_starts sts) [],
      ev_start_conflicts = start_conflicts (keyed_starts sts), ev_collisions = sts, ev_lifecycle = lifecycles evs,
      ev_gateway = earliest (map ae_time evs), ev_metrics = metrics\<rparr>"

definition some_invalid :: "(string \<Rightarrow> rat option) \<Rightarrow> (string \<Rightarrow> rat option) \<Rightarrow> js list \<Rightarrow> js list \<Rightarrow> js list \<Rightarrow> bool" where
  "some_invalid num date attributions engines gateways \<longleftrightarrow>
     list_ex (\<lambda>r. jget r ''event'' = JStr ''engine_attribution'' \<and> safe_attribution num r = None) attributions \<or>
     list_ex (\<lambda>r. jget r ''kind'' = JStr ''start'' \<and> safe_collision_start num r = None) engines \<or>
     list_ex (\<lambda>r. jget r ''event'' \<in> set lifecycle_names \<and> safe_lifecycle date r = None) gateways"

definition reconcile_rows :: "(string \<Rightarrow> rat option) \<Rightarrow> (string \<Rightarrow> rat option) \<Rightarrow> bool \<Rightarrow> edge \<Rightarrow> rat option \<Rightarrow>
    js list \<Rightarrow> js list \<Rightarrow> js list \<Rightarrow> audit_report" where
  "reconcile_rows num date sure metrics since attributions engines gateways =
     (let rows = List.map_filter (safe_attribution num) attributions;
          e = audit_evidence_of rows (List.map_filter (safe_collision_start num) engines) (List.map_filter (safe_lifecycle date) gateways) metrics;
          original = map snd (lr_latest (ev_rows e))
      in if \<not> sure \<or> some_invalid num date attributions engines gateways then unchanged_report since SourceIncomplete original
         else if list_ex (\<lambda>x. contradictory (snd x)) (ev_lifecycle e) then unchanged_report since EvidenceConflict original
         else audit_report_of since (revision_of e) (revise e) original)"

section \<open>Reading the evidence\<close>

text \<open>What \<open>boundedLines\<close> returns: a file that is not regular is skipped, a long one is read from a later place.\<close>

datatype bounded_file = SkippedFile | ReadFile "string list" bool

datatype evidence_line = BlankLine | LongLine | BadLine | JsonLine js

definition evidence_line_of :: "(string \<Rightarrow> js option) \<Rightarrow> string \<Rightarrow> evidence_line" where
  "evidence_line_of parse text =
     (if trim text = [] then BlankLine
      else if length text > 65536 then LongLine
      else (case parse text of Some v \<Rightarrow> JsonLine v | None \<Rightarrow> BadLine))"

record metric_evidence =
  me_attributions :: "js list"
  me_engines :: "js list"
  me_malformed :: nat
  me_oversized :: nat
  me_invalid :: nat
  me_anonymous :: nat
  me_truncated :: nat

definition no_metrics :: metric_evidence where
  "no_metrics = \<lparr>me_attributions = [], me_engines = [], me_malformed = 0, me_oversized = 0, me_invalid = 0, me_anonymous = 0, me_truncated = 0\<rparr>"

definition max_source :: nat where
  "max_source = 250000"

definition metric_row :: "(string \<Rightarrow> rat option) \<Rightarrow> js \<Rightarrow> metric_evidence \<Rightarrow> metric_evidence" where
  "metric_row num row m =
     (if jget row ''event'' = JStr ''engine_attribution'' \<or> jget row ''kind'' = JStr ''start''
      then if length (me_attributions m) + length (me_engines m) \<ge> max_source then m\<lparr>me_truncated := me_truncated m + 1\<rparr>
        else if jget row ''event'' = JStr ''engine_attribution''
        then (if safe_attribution num row \<noteq> None then m\<lparr>me_attributions := me_attributions m @ [row]\<rparr> else m\<lparr>me_invalid := me_invalid m + 1\<rparr>)
        else if safe_collision_start num row \<noteq> None
        then m\<lparr>me_engines := me_engines m @ [row], me_anonymous := me_anonymous m + (if safe_start num row = None then 1 else 0)\<rparr>
        else m\<lparr>me_invalid := me_invalid m + 1\<rparr>
      else m)"

definition metric_line :: "(string \<Rightarrow> js option) \<Rightarrow> (string \<Rightarrow> rat option) \<Rightarrow> string \<Rightarrow> metric_evidence \<Rightarrow> metric_evidence" where
  "metric_line parse num text m = (case evidence_line_of parse text of
     BlankLine \<Rightarrow> m | LongLine \<Rightarrow> m\<lparr>me_oversized := me_oversized m + 1\<rparr>
   | BadLine \<Rightarrow> m\<lparr>me_malformed := me_malformed m + 1\<rparr> | JsonLine row \<Rightarrow> metric_row num row m)"

record gateway_evidence =
  ge_rows :: "js list"
  ge_malformed :: nat
  ge_oversized :: nat
  ge_invalid :: nat
  ge_truncated :: nat

definition no_gateway :: gateway_evidence where
  "no_gateway = \<lparr>ge_rows = [], ge_malformed = 0, ge_oversized = 0, ge_invalid = 0, ge_truncated = 0\<rparr>"

definition gateway_line :: "(string \<Rightarrow> js option) \<Rightarrow> (string \<Rightarrow> rat option) \<Rightarrow> string \<Rightarrow> gateway_evidence \<Rightarrow> gateway_evidence" where
  "gateway_line parse date text g = (case evidence_line_of parse text of
     BlankLine \<Rightarrow> g | LongLine \<Rightarrow> g\<lparr>ge_oversized := ge_oversized g + 1\<rparr>
   | BadLine \<Rightarrow> g\<lparr>ge_malformed := ge_malformed g + 1\<rparr>
   | JsonLine row \<Rightarrow>
       if jget row ''event'' \<notin> set lifecycle_names then g
       else if safe_lifecycle date row = None then g\<lparr>ge_invalid := ge_invalid g + 1\<rparr>
       else if length (ge_rows g) \<ge> max_source then g\<lparr>ge_truncated := ge_truncated g + 1\<rparr>
       else g\<lparr>ge_rows := ge_rows g @ [row]\<rparr>)"

definition file_lines :: "bounded_file \<Rightarrow> string list" where
  "file_lines f = (case f of SkippedFile \<Rightarrow> [] | ReadFile ls _ \<Rightarrow> ls)"

definition whole_file :: "bounded_file \<Rightarrow> bool" where
  "whole_file f = (case f of SkippedFile \<Rightarrow> False | ReadFile _ partial \<Rightarrow> \<not> partial)"

definition source_complete :: "bounded_file list \<Rightarrow> metric_evidence \<Rightarrow> bool \<Rightarrow> gateway_evidence \<Rightarrow> bool" where
  "source_complete files m gateway_whole g \<longleftrightarrow> list_all whole_file files \<and> me_truncated m = 0 \<and> me_malformed m = 0 \<and> me_oversized m = 0 \<and>
     me_invalid m = 0 \<and> gateway_whole \<and> ge_malformed g = 0 \<and> ge_oversized g = 0 \<and> ge_invalid g = 0 \<and> ge_truncated g = 0"

text \<open>The audit of a directory and a gateway log; a log that is not a regular file is an error.\<close>

definition audit_reconciliation :: "(string \<Rightarrow> js option) \<Rightarrow> (string \<Rightarrow> rat option) \<Rightarrow> (string \<Rightarrow> rat option) \<Rightarrow> rat option \<Rightarrow>
    bounded_file list \<Rightarrow> bounded_file \<Rightarrow> string + bool \<times> metric_evidence \<times> gateway_evidence \<times> audit_report" where
  "audit_reconciliation parse num date since files gateway_log =
     (if gateway_log = SkippedFile then Inl ''Gateway log must be a regular file''
      else
        let m = fold (metric_line parse num) (concat (map file_lines files)) no_metrics;
            g = fold (gateway_line parse date) (file_lines gateway_log) no_gateway;
            sure = source_complete files m (whole_file gateway_log) g;
            times = map su_time (List.map_filter (safe_collision_start num) (me_engines m))
        in Inr (sure, m, g, reconcile_rows num date sure (earliest times) since (me_attributions m) (me_engines m) (ge_rows g)))"

text \<open>The audit of the recorded rows only.\<close>

record shadow_audit =
  sh_rows :: "js list"
  sh_malformed :: nat
  sh_oversized :: nat
  sh_truncated :: nat

definition shadow_line :: "(string \<Rightarrow> js option) \<Rightarrow> string \<Rightarrow> shadow_audit \<Rightarrow> shadow_audit" where
  "shadow_line parse text a = (case evidence_line_of parse text of
     BlankLine \<Rightarrow> a | LongLine \<Rightarrow> a\<lparr>sh_oversized := sh_oversized a + 1\<rparr> | BadLine \<Rightarrow> a\<lparr>sh_malformed := sh_malformed a + 1\<rparr>
   | JsonLine row \<Rightarrow>
       if jget row ''event'' \<noteq> JStr ''engine_attribution'' then a
       else if length (sh_rows a) < 65536 then a\<lparr>sh_rows := sh_rows a @ [row]\<rparr> else a\<lparr>sh_truncated := sh_truncated a + 1\<rparr>)"

definition raw_in_cohort :: "rat option \<Rightarrow> js \<Rightarrow> bool" where
  "raw_in_cohort since row = (case since of None \<Rightarrow> True
     | Some t \<Rightarrow> (case finite_num (jget row ''engine_started_at'') of Some x \<Rightarrow> t \<le> x | None \<Rightarrow> False))"

definition audit_directory :: "(string \<Rightarrow> js option) \<Rightarrow> rat option \<Rightarrow> bounded_file list \<Rightarrow> shadow_audit \<times> summary_report" where
  "audit_directory parse since files =
     (let a = fold (shadow_line parse) (concat (map file_lines files)) \<lparr>sh_rows = [], sh_malformed = 0, sh_oversized = 0, sh_truncated = 0\<rparr>
      in (a, summarize_attribution (filter (raw_in_cohort since) (sh_rows a))))"

end
