(* ===== verification/Attribution_Owners.thy ===== *)
theory Attribution_Owners
  imports Attribution_Audit "HOL-Library.Multiset"
begin

text \<open>What a reconciled row may claim: a request that nothing else claims, and that alone fits the start.\<close>

section \<open>Maps with an order\<close>

lemma map_of_put [simp]: "map_of (map_put k v xs) = (map_of xs)(k \<mapsto> v)"
  by (induction xs) (auto simp: fun_eq_iff)

lemma keys_put: "set (map fst (map_put k v xs)) = insert k (set (map fst xs))"
proof (induction xs)
  case Nil
  then show ?case by simp
next
  case (Cons x xs)
  then show ?case by (cases x; cases "fst x = k") (simp_all add: insert_commute)
qed

lemma distinct_put: "distinct (map fst xs) \<Longrightarrow> distinct (map fst (map_put k v xs))"
proof (induction xs)
  case Nil
  then show ?case by simp
next
  case (Cons x xs)
  then show ?case using keys_put [of k v xs] by (cases x) auto
qed

lemma set_put: "distinct (map fst xs) \<Longrightarrow> set (map_put k v xs) = insert (k, v) {x \<in> set xs. fst x \<noteq> k}"
proof (induction xs)
  case Nil
  then show ?case by simp
next
  case (Cons x xs)
  then show ?case by (cases x; cases "fst x = k") (auto simp: rev_image_eqI)
qed

lemma key_mem: "(k, v) \<in> set xs \<Longrightarrow> k \<in> set (map fst xs)"
  by force

lemma map_filter_mem: "x \<in> set xs \<Longrightarrow> f x = Some y \<Longrightarrow> y \<in> set (List.map_filter f xs)"
  by (force simp: List.map_filter_def)

section \<open>Rows and their claims\<close>

definition rows_ok :: "(sample_key \<times> audit_row) list \<Rightarrow> (sample_key \<times> string option list) list \<Rightarrow> bool" where
  "rows_ok latest claims \<longleftrightarrow> distinct (map fst latest) \<and>
     (\<forall>(k, r) \<in> set latest. k = key_of r \<and> (\<exists>qs. map_of claims k = Some qs \<and> aw_request r \<in> set qs))"

abbreviation latest_ok :: "latest_rows \<Rightarrow> bool" where
  "latest_ok l \<equiv> rows_ok (lr_latest l) (lr_claims l)"

lemma rows_ok_put:
  assumes "rows_ok latest claims" "aw_request r \<in> set qs"
  shows "rows_ok (map_put (key_of r) r latest) (map_put (key_of r) qs claims)"
  using assms distinct_put [of latest] set_put [of latest "key_of r" r] by (auto simp: rows_ok_def)

lemma claim_also_ok:
  "rows_ok latest claims \<Longrightarrow> rows_ok (map_put (key_of r) r latest) (claim_also (key_of r) (aw_request r) claims)"
  unfolding claim_also_def by (rule rows_ok_put) (auto split: option.split)

lemma latest_step_ok: "latest_ok l \<Longrightarrow> latest_ok (latest_step r l)"
  by (simp add: latest_step_def Let_def rows_ok_put claim_also_ok split: option.split)

lemma latest_of_ok: "latest_ok (latest_of rows)"
proof -
  have "latest_ok l \<Longrightarrow> latest_ok (fold latest_step rows l)" for l
    by (induction rows arbitrary: l) (simp_all add: latest_step_ok)
  then show ?thesis by (simp add: latest_of_def no_rows_def rows_ok_def)
qed

lemma claims_owner:
  assumes "latest_ok (ev_rows e)" "(k, r) \<in> set (lr_latest (ev_rows e))" "aw_request r = Some q"
  shows "key_of r \<in> set (sample_owners e q)"
proof -
  obtain qs where "map_of (lr_claims (ev_rows e)) (key_of r) = Some qs" "Some q \<in> set qs"
    using assms by (auto simp: rows_ok_def)
  then have "(key_of r, qs) \<in> set (filter (\<lambda>(k, qs). Some q \<in> set qs) (lr_claims (ev_rows e)))"
    by (auto dest: map_of_SomeD)
  then show ?thesis unfolding sample_owners_def set_remdups set_append by (blast dest: key_mem)
qed

lemma proposal_owner:
  assumes "latest_ok (ev_rows e)" "(k, r) \<in> set (lr_latest (ev_rows e))" "aw_reason r = OverlappingWindows" "propose e r = Inr (q, d)"
  shows "key_of r \<in> set (sample_owners e q)"
proof -
  have "k = key_of r" using assms(1,2) by (auto simp: rows_ok_def)
  then have "(key_of r, q, d) \<in> set (proposals e)"
    unfolding proposals_def by (intro map_filter_mem [OF assms(2)]) (use assms(3,4) in simp)
  then have "(key_of r, q, d) \<in> set (filter (\<lambda>(k, p). fst p = q) (proposals e))" by simp
  then show ?thesis unfolding sample_owners_def set_remdups set_append by (blast dest: key_mem)
qed

section \<open>Revisions\<close>

lemma revised_cases:
  assumes "revise e r \<noteq> r"
  obtains q d where "aw_reason r = OverlappingWindows" "propose e r = Inr (q, d)" "length (sample_owners e q) = 1"
    "aw_request (revise e r) = Some q" "revision_of e r = Revised q d"
  using assms
  by (auto simp: revise_def revision_of_def Let_def split: if_splits sum.splits prod.splits option.splits revision.splits)

lemma one_elem: "length xs = 1 \<Longrightarrow> a \<in> set xs \<Longrightarrow> b \<in> set xs \<Longrightarrow> a = b"
  by (cases xs) auto

lemma sole_owner:
  assumes "latest_ok (ev_rows e)" "(k, r) \<in> set (lr_latest (ev_rows e))" "(k', r') \<in> set (lr_latest (ev_rows e))"
    "revise e r \<noteq> r" "aw_request (revise e r') = aw_request (revise e r)"
  shows "key_of r' = key_of r"
proof -
  from assms(4) obtain q d where r: "aw_reason r = OverlappingWindows" "propose e r = Inr (q, d)" "length (sample_owners e q) = 1"
    "aw_request (revise e r) = Some q" by (rule revised_cases)
  have own: "key_of r \<in> set (sample_owners e q)" by (rule proposal_owner [OF assms(1,2) r(1,2)])
  have "key_of r' \<in> set (sample_owners e q)"
  proof (cases "revise e r' = r'")
    case True
    then show ?thesis using claims_owner [OF assms(1,3)] assms(5) r(4) by simp
  next
    case False
    then obtain q' d' where "aw_reason r' = OverlappingWindows" "propose e r' = Inr (q', d')" "aw_request (revise e r') = Some q'"
      by (rule revised_cases)
    then show ?thesis using proposal_owner [OF assms(1,3)] assms(5) r(4) by simp
  qed
  then show ?thesis using one_elem [OF r(3) _ own] by simp
qed

section \<open>The only fitting request\<close>

definition fits :: "audit_row \<Rightarrow> audit_request \<Rightarrow> bool" where
  "fits r q \<longleftrightarrow> ag_node q = aw_node r \<and> window_open q (aw_started r) \<and> used q = Some (aw_prompt r, aw_cached r)"

lemma window_open_bounds:
  "window_open q t \<Longrightarrow> t - max_lead_ms - skew_ms \<le> dispatch_time q \<and> dispatch_time q \<le> t + 2 * skew_ms"
  by (auto simp: window_open_def dispatch_time_def skew_ms_def split: option.splits)

lemma candidates_filter:
  "mset (candidates e st) = mset (filter (\<lambda>q. ag_node q = su_node st \<and> window_open q (su_time st)) (dispatched_requests e))"
proof -
  have "candidates e st = sort_key dispatch_time (filter (\<lambda>q. ag_node q = su_node st \<and> window_open q (su_time st))
      (filter (\<lambda>q. su_time st - max_lead_ms - skew_ms \<le> dispatch_time q \<and> dispatch_time q \<le> su_time st + 2 * skew_ms)
        (filter (\<lambda>q. ag_node q = su_node st) (dispatched_requests e))))"
    unfolding candidates_def time_windows_filter node_bucket_def by (simp only: filter_sort)
  also have "mset \<dots> = mset (filter (\<lambda>q. ag_node q = su_node st \<and> window_open q (su_time st)) (dispatched_requests e))"
    unfolding mset_sort filter_filter by (rule arg_cong [where f = mset]) (auto intro!: filter_cong dest: window_open_bounds)
  finally show ?thesis .
qed

definition starts_ok :: "(sample_key \<times> audit_start) list \<Rightarrow> bool" where
  "starts_ok kss \<longleftrightarrow> list_all (\<lambda>(k, st). start_key st = Some k) kss"

lemma keyed_starts_ok: "starts_ok (keyed_starts sts)"
  by (auto simp: starts_ok_def keyed_starts_def list_all_iff List.map_filter_def)

lemma put_starts_ok: "start_key st = Some k \<Longrightarrow> starts_ok kss \<Longrightarrow> starts_ok (map_put k st kss)"
  by (induction kss) (auto simp: starts_ok_def)

lemma fold_starts_ok: "starts_ok kss \<Longrightarrow> starts_ok m \<Longrightarrow> starts_ok (fold (\<lambda>(k, s). map_put k s) kss m)"
  by (induction kss arbitrary: m) (auto simp: starts_ok_def [of "_ # _"] intro!: put_starts_ok, auto simp: starts_ok_def intro!: put_starts_ok [unfolded starts_ok_def])

lemma evidence_starts_ok: "starts_ok (ev_starts (audit_evidence_of rows sts evs metrics))"
  unfolding audit_evidence_of_def audit_evidence.simps
  by (rule fold_starts_ok [OF keyed_starts_ok]) (simp add: starts_ok_def)

lemma known_start:
  "starts_ok kss \<Longrightarrow> map_of kss (key_of r) = Some st \<Longrightarrow> su_node st = aw_node r"
  by (drule map_of_SomeD) (auto simp: starts_ok_def list_all_iff start_key_def key_of_def)

lemma singleton_mset: "mset [x] = mset xs \<Longrightarrow> xs = [x]"
  by (cases xs) auto

lemma proposal_fits:
  assumes "starts_ok (ev_starts e)" "propose e r = Inr (q, d)"
  shows "map ag_id (filter (fits r) (dispatched_requests e)) = [q]"
proof -
  from assms(2) obtain st q0 where st: "map_of (ev_starts e) (key_of r) = Some st" "same_start st r"
    and one: "filter (\<lambda>q. used q = Some (su_prompt st, su_cached st)) (candidates e st) = [q0]" and q: "q = ag_id q0"
    by (auto simp: propose_def Let_def split: if_splits option.splits list.splits)
  have eqs: "su_time st = aw_started r" "su_prompt st = aw_prompt r" "su_cached st = aw_cached r" "su_node st = aw_node r"
    using st known_start [OF assms(1) st(1)] by (auto simp: same_start_def)
  have "mset [q0] = mset (filter (fits r) (dispatched_requests e))"
    unfolding one [symmetric] mset_filter candidates_filter eqs
    by (simp add: fits_def [abs_def] conj_assoc flip: mset_filter)
  then have "filter (fits r) (dispatched_requests e) = [q0]" by (rule singleton_mset)
  then show ?thesis by (simp add: q)
qed

section \<open>The property\<close>

text \<open>A revision claims the only request that fits the start, and no other row claims it.\<close>

definition revision_sound :: "audit_evidence \<Rightarrow> audit_row list \<Rightarrow> audit_row \<Rightarrow> bool" where
  "revision_sound e rows r \<longleftrightarrow> revise e r = r \<or>
     aw_reason r = OverlappingWindows \<and>
     (case aw_request (revise e r) of None \<Rightarrow> False
      | Some q \<Rightarrow> map ag_id (filter (fits r) (dispatched_requests e)) = [q] \<and>
          list_all (\<lambda>r'. key_of r' = key_of r \<or> aw_request (revise e r') \<noteq> Some q) rows)"

lemma revision_is_sound:
  assumes "latest_ok (ev_rows e)" "starts_ok (ev_starts e)" "(k, r) \<in> set (lr_latest (ev_rows e))"
  shows "revision_sound e (map snd (lr_latest (ev_rows e))) r"
proof (cases "revise e r = r")
  case True
  then show ?thesis by (simp add: revision_sound_def)
next
  case False
  then obtain q d where r: "aw_reason r = OverlappingWindows" "propose e r = Inr (q, d)" "aw_request (revise e r) = Some q"
    by (rule revised_cases)
  have "key_of r' = key_of r \<or> aw_request (revise e r') \<noteq> Some q" if "(k', r') \<in> set (lr_latest (ev_rows e))" for k' r'
    using sole_owner [OF assms(1,3) that False] r(3) by auto
  then have "list_all (\<lambda>r'. key_of r' = key_of r \<or> aw_request (revise e r') \<noteq> Some q) (map snd (lr_latest (ev_rows e)))"
    by (force simp: list_all_iff)
  then show ?thesis
    unfolding revision_sound_def r(3) option.case using r(1) proposal_fits [OF assms(2) r(2)] by blast
qed

text \<open>C21: Reconciliation never gives one request to two engine starts and never guesses: whatever the saved rows, engine starts and
  gateway events are, a row that \<open>reconcileAttributionRows\<close> changes was an overlap abstention; the request it is given is the only
  dispatched request of its worker whose window contains the start and whose usage is the prompt and cache count of the start; and no other
  row of the report, changed or not, claims that request.\<close>

theorem reconciled_owner_is_unique:
  "(let e = audit_evidence_of rows sts evs metrics; latest = map snd (lr_latest (ev_rows e)) in list_all (revision_sound e latest) latest)"
proof -
  let ?e = "audit_evidence_of rows sts evs metrics"
  have l: "latest_ok (ev_rows ?e)" by (simp add: audit_evidence_of_def latest_of_ok)
  show ?thesis
    using revision_is_sound [OF l evidence_starts_ok] by (auto simp: Let_def list_all_iff)
qed

text \<open>Reconciliation needs all of its evidence: when any file was skipped or read in part, or any line or record was malformed,
  over-long, invalid or left out, or when the lifecycle of any request contradicts itself, every latest row is reported as it was recorded,
  and every overlap of the cohort is reported as remaining.\<close>

lemma partial_evidence_changes_nothing:
  "(case audit_reconciliation parse num date since files gateway_log of Inl _ \<Rightarrow> True
    | Inr (sure, m, g, report) \<Rightarrow> sure \<or>
        ap_rows report = map snd (lr_latest (latest_of (List.map_filter (safe_attribution num) (me_attributions m)))) \<and>
        ap_reconciled report = 0 \<and> ap_remaining report = length (filter is_overlap (filter (in_cohort since) (ap_rows report))))"
  by (simp add: audit_reconciliation_def Let_def reconcile_rows_def unchanged_report_def audit_report_of_def revised_in_def
      audit_evidence_of_def)

end
