(* ===== verification/Media_Jobs.thy ===== *)
theory Media_Jobs
  imports Job_Priority
begin

text \<open>
  The durable queue of media jobs, \<open>ds4-gateway/media-jobs.mjs\<close>. A step is what the code does between two awaits: the submission to the
  native backend, its observation and the copy of its outputs are requests that a later step answers. Times are exact numbers.
  Parameters: the digests of a key (\<open>key_hash\<close>) and of a canonical request (\<open>print\<close>), the preparation and validation of a payload,
  the texts of \<open>media-errors.mjs\<close>, and what the folder of an execution holds. A save that fails is not modelled.
\<close>

section \<open>Jobs\<close>

datatype media_kind = Music | Video

datatype media_state = JQueued | JSubmitting | JSubmitted | JPending | JRunning | JCompleted | JFailed | JUncertain

datatype media_backend = AceStep | ComfyUi

datatype media_outputs = OutCopying | OutReady js | OutFailed string

record execution =
  xc_operation :: "string option"
  xc_phase :: "string option"
  xc_detail :: "string option"
  xc_at :: "rat option"
  xc_started :: "rat option"

record media_job =
  mj_id :: string
  mj_kind :: media_kind
  mj_payload :: js
  mj_priority :: prio
  mj_key_hash :: string
  mj_print :: string
  mj_state :: media_state
  mj_created :: rat
  mj_updated :: rat
  mj_worker :: "string option"
  mj_backend :: "media_backend option"
  mj_native :: "string option"
  mj_detail :: "string option"
  mj_outputs :: "media_outputs option"
  mj_result :: "js option"
  mj_execution :: "execution option"
  mj_next :: "string option"

datatype media_error =
    BadKind | BadKey | NotAPriority | KeyReused | BadReferences | BadPayload string | UnknownJob | AlreadySubmitted | NoWorker
  | BackendMismatch | OtherBackend | NotUnassigned | BadNativeState

definition error_status :: "media_error \<Rightarrow> nat" where
  "error_status e = (case e of UnknownJob \<Rightarrow> 404 | KeyReused \<Rightarrow> 409 | AlreadySubmitted \<Rightarrow> 409 | OtherBackend \<Rightarrow> 409 | NotUnassigned \<Rightarrow> 409
     | BadNativeState \<Rightarrow> 500 | _ \<Rightarrow> 400)"

text \<open>\<open>canonical\<close>: the keys of every object in order.\<close>

fun canonical :: "js \<Rightarrow> js" where
  "canonical (JArr vs) = JArr (map canonical vs)"
| "canonical (JObj fs) = JObj (sort_key fst (map (\<lambda>(k, v). (k, canonical v)) fs))"
| "canonical v = v"

section \<open>The view of a job\<close>

text \<open>A row of the runner: a field is \<open>None\<close> when the row has no such property.\<close>

record native_row =
  nr_print :: string
  nr_state :: "media_state option"
  nr_worker :: "string option option"
  nr_backend :: "media_backend option option"
  nr_native :: "string option option"
  nr_detail :: "string option option"
  nr_outputs :: "media_outputs option option"
  nr_result :: "js option option"
  nr_updated :: "rat option"

record progress =
  pg_phase :: "string option"
  pg_detail :: "string option"

text \<open>What the folder of an execution holds: the rows of its queue, if there is one, and its progress.\<close>

datatype progress_file = NoProgress | BadProgress | Progress progress

datatype folder = Unreadable | Folder "(string \<times> native_row) list option" progress_file

definition overlay :: "native_row \<Rightarrow> media_job \<Rightarrow> media_job" where
  "overlay r j = j\<lparr>mj_state := (case nr_state r of Some v \<Rightarrow> v | None \<Rightarrow> mj_state j),
     mj_updated := (case nr_updated r of Some v \<Rightarrow> v | None \<Rightarrow> mj_updated j),
     mj_worker := (case nr_worker r of Some v \<Rightarrow> v | None \<Rightarrow> mj_worker j),
     mj_backend := (case nr_backend r of Some v \<Rightarrow> v | None \<Rightarrow> mj_backend j),
     mj_native := (case nr_native r of Some v \<Rightarrow> v | None \<Rightarrow> mj_native j),
     mj_detail := (case nr_detail r of Some v \<Rightarrow> v | None \<Rightarrow> mj_detail j),
     mj_outputs := (case nr_outputs r of Some v \<Rightarrow> v | None \<Rightarrow> mj_outputs j),
     mj_result := (case nr_result r of Some v \<Rightarrow> v | None \<Rightarrow> mj_result j)\<rparr>"

definition ended_phases :: "string list" where
  "ended_phases = [''returned'', ''failed_returned'', ''failed_unchanged'']"

definition observed_execution :: "progress \<Rightarrow> execution \<Rightarrow> execution" where
  "observed_execution p x = x\<lparr>xc_phase := (case pg_phase p of Some v \<Rightarrow> Some v | None \<Rightarrow> xc_phase x),
     xc_detail := (case pg_detail p of Some v \<Rightarrow> Some v | None \<Rightarrow> xc_detail x)\<rparr>"

definition release_ended :: "media_job \<Rightarrow> media_job" where
  "release_ended j =
     (if mj_state j = JQueued \<and> (case mj_execution j of Some x \<Rightarrow> (case xc_phase x of Some p \<Rightarrow> p \<in> set ended_phases | None \<Rightarrow> False) | None \<Rightarrow> False)
      then j\<lparr>mj_execution := None, mj_detail := Some ''Previous batch ended before this job started; it remains queued.''\<rparr> else j)"

text \<open>The state of the queue outside its file: the folders, and the texts of a failure.\<close>

record media_world =
  mw_folder :: "string \<Rightarrow> folder"
  mw_failure :: "media_job \<Rightarrow> string option"
  mw_advice :: "string \<Rightarrow> string option"

definition failed_view :: "media_job \<Rightarrow> execution \<Rightarrow> media_job" where
  "failed_view j x = j\<lparr>mj_execution := Some (x\<lparr>xc_phase := Some ''observation_failed'',
     xc_detail := Some ''Saved media execution could not be read; inspect its original process. No job was repeated.''\<rparr>)\<rparr>"

definition progress_view :: "progress_file \<Rightarrow> media_job \<Rightarrow> execution \<Rightarrow> media_job" where
  "progress_view f j x = (case f of
     BadProgress \<Rightarrow> failed_view j x
   | NoProgress \<Rightarrow> release_ended (j\<lparr>mj_execution := Some x\<rparr>)
   | Progress p \<Rightarrow> release_ended (j\<lparr>mj_execution := Some (observed_execution p x)\<rparr>))"

text \<open>A row that belongs to another request stops the observation before anything is taken from it.\<close>

definition execution_view :: "media_world \<Rightarrow> media_job \<Rightarrow> execution \<Rightarrow> media_job" where
  "execution_view w j x =
     (case mw_folder w (case xc_operation x of Some f \<Rightarrow> f | None \<Rightarrow> mj_id j) of
        Unreadable \<Rightarrow> failed_view j x
      | Folder None f \<Rightarrow> progress_view f j x
      | Folder (Some rs) f \<Rightarrow> (case map_of rs (mj_id j) of
            None \<Rightarrow> failed_view j x
          | Some r \<Rightarrow> if nr_print r \<noteq> mj_print j then failed_view j x else progress_view f (overlay r j) x))"

definition explain :: "media_world \<Rightarrow> media_job \<Rightarrow> media_job" where
  "explain w j =
     (let j1 = (if mj_detail j = None \<or> mj_detail j = Some [] then j\<lparr>mj_detail := mw_failure w j\<rparr> else j) in
      case mj_detail j1 of
        Some d \<Rightarrow> if mj_state j1 = JFailed \<and> d \<noteq> [] then j1\<lparr>mj_next := mw_advice w d\<rparr> else j1
      | None \<Rightarrow> j1)"

definition view_of :: "media_world \<Rightarrow> media_job \<Rightarrow> media_job" where
  "view_of w saved =
     explain w (case mj_execution saved of None \<Rightarrow> saved
       | Some x \<Rightarrow> let j = execution_view w saved x in
           j\<lparr>mj_execution := map_option (\<lambda>y. y\<lparr>xc_started := xc_at x\<rparr>) (mj_execution j)\<rparr>)"

section \<open>The store\<close>

record media_store =
  ms_jobs :: "media_job list"
  ms_collecting :: "string list"
  ms_submitted :: "string list"  \<comment> \<open>every submission handed to a backend, in order\<close>

definition find_job :: "string \<Rightarrow> media_job list \<Rightarrow> media_job option" where
  "find_job i js = List.find (\<lambda>j. mj_id j = i) js"

definition get_job :: "media_world \<Rightarrow> string \<Rightarrow> media_store \<Rightarrow> media_job option" where
  "get_job w i s = map_option (view_of w) (find_job i (ms_jobs s))"

definition list_jobs :: "media_world \<Rightarrow> media_kind option \<Rightarrow> media_store \<Rightarrow> media_job list" where
  "list_jobs w k s = map (view_of w) (filter (\<lambda>j. k = None \<or> k = Some (mj_kind j)) (ms_jobs s))"

definition queued_jobs :: "media_world \<Rightarrow> media_store \<Rightarrow> media_job list" where
  "queued_jobs w s = rev (sort_key (\<lambda>j. priority_rank (mj_priority j))
     (rev (filter (\<lambda>j. mj_state j = JQueued \<and> mj_execution j = None) (list_jobs w None s))))"

definition put_job :: "media_job \<Rightarrow> media_store \<Rightarrow> media_store" where
  "put_job n s = s\<lparr>ms_jobs := map (\<lambda>j. if mj_id j = mj_id n then n else j) (ms_jobs s)\<rparr>"

definition update_job :: "media_world \<Rightarrow> rat \<Rightarrow> string \<Rightarrow> (media_job \<Rightarrow> media_job) \<Rightarrow> media_store \<Rightarrow> media_error + media_store" where
  "update_job w now i f s = (case get_job w i s of None \<Rightarrow> Inl UnknownJob
     | Some j \<Rightarrow> Inr (put_job ((f j)\<lparr>mj_updated := now\<rparr>) s))"

text \<open>The constructor: a submission that was interrupted is uncertain, never repeated.\<close>

definition interrupted_job :: "rat \<Rightarrow> media_job \<Rightarrow> media_job" where
  "interrupted_job now j = (if mj_state j = JSubmitting
     then j\<lparr>mj_state := JUncertain, mj_updated := now, mj_detail := Some ''Gateway restarted during native submission; reconcile the original job.''\<rparr>
     else j)"

definition restart_media :: "rat \<Rightarrow> media_store \<Rightarrow> media_store" where
  "restart_media now s = s\<lparr>ms_jobs := map (interrupted_job now) (ms_jobs s), ms_collecting := []\<rparr>"

definition assign_execution :: "media_world \<Rightarrow> rat \<Rightarrow> string list \<Rightarrow> execution \<Rightarrow> media_store \<Rightarrow> media_error + media_store" where
  "assign_execution w now ids x s =
     (if list_ex (\<lambda>i. get_job w i s = None) ids then Inl UnknownJob
      else let selected = map (\<lambda>i. the (get_job w i s)) ids in
        if \<not> distinct ids \<or> list_ex (\<lambda>j. mj_state j \<noteq> JQueued \<or> mj_execution j \<noteq> None) selected then Inl NotUnassigned
        else Inr (fold (\<lambda>j. put_job (j\<lparr>mj_execution := Some x, mj_updated := now\<rparr>)) selected s))"

definition key_text :: "string \<Rightarrow> bool" where
  "key_text k \<longleftrightarrow> 1 \<le> length k \<and> length k \<le> 200 \<and> list_all (\<lambda>c. 33 \<le> (of_char c :: nat) \<and> (of_char c :: nat) \<le> 126) k"

record media_request =
  mq_kind :: "media_kind option"
  mq_payload :: js
  mq_key :: "string option"
  mq_priority :: js

definition lone_references :: "js \<Rightarrow> bool" where
  "lone_references payload \<longleftrightarrow> \<not> is_str (jget payload ''prompt'') \<and>
     (has_own payload ''reference_image'' \<or> has_own payload ''reference_audio'')"

definition new_media_job :: "rat \<Rightarrow> string \<Rightarrow> media_kind \<Rightarrow> js \<Rightarrow> prio \<Rightarrow> string \<Rightarrow> string \<Rightarrow> media_job" where
  "new_media_job now fresh kind payload prio h fp =
     \<lparr>mj_id = fresh, mj_kind = kind, mj_payload = payload, mj_priority = prio, mj_key_hash = h, mj_print = fp,
      mj_state = JQueued, mj_created = now, mj_updated = now, mj_worker = None, mj_backend = None, mj_native = None,
      mj_detail = None, mj_outputs = None, mj_result = None, mj_execution = None, mj_next = None\<rparr>"

text \<open>\<open>enqueue\<close> behind its checks: a key that is known answers with its job, or refuses another request.
  \<open>prepare\<close> is the preparation and validation of the payload.\<close>

definition enqueue_checked :: "(media_kind \<Rightarrow> js \<Rightarrow> string + js) \<Rightarrow> rat \<Rightarrow> string \<Rightarrow> media_kind \<Rightarrow> js \<Rightarrow> prio \<Rightarrow> string \<Rightarrow> string \<Rightarrow>
    media_store \<Rightarrow> media_error + (string \<times> bool \<times> media_store)" where
  "enqueue_checked prepare now fresh kind payload prio h fp s =
     (case List.find (\<lambda>j. mj_key_hash j = h) (ms_jobs s) of
        Some j \<Rightarrow> if mj_print j \<noteq> fp then Inl KeyReused else Inr (mj_id j, False, s)
      | None \<Rightarrow>
          if kind = Video \<and> lone_references payload then Inl BadReferences
          else (case prepare kind payload of
              Inl why \<Rightarrow> Inl (BadPayload why)
            | Inr prepared \<Rightarrow> Inr (fresh, True, s\<lparr>ms_jobs := ms_jobs s @ [new_media_job now fresh kind prepared prio h fp]\<rparr>)))"

definition enqueue_job :: "(string \<Rightarrow> string) \<Rightarrow> (media_kind \<Rightarrow> js \<Rightarrow> prio \<Rightarrow> string) \<Rightarrow>
    (media_kind \<Rightarrow> js \<Rightarrow> string + js) \<Rightarrow> rat \<Rightarrow> string \<Rightarrow> media_request \<Rightarrow> media_store \<Rightarrow> media_error + (string \<times> bool \<times> media_store)" where
  "enqueue_job key_hash print prepare now fresh q s =
     (case mq_kind q of None \<Rightarrow> Inl BadKind
      | Some kind \<Rightarrow>
          if \<not> is_obj (mq_payload q) then Inl BadKind
          else (case mq_key q of None \<Rightarrow> Inl BadKey
             | Some key \<Rightarrow>
                 if \<not> key_text key then Inl BadKey
                 else (case request_priority (mq_priority q) of
                    Inl _ \<Rightarrow> Inl NotAPriority
                  | Inr prio \<Rightarrow> enqueue_checked prepare now fresh kind (mq_payload q) prio (key_hash key)
                      (print kind (canonical (mq_payload q)) prio) s)))"

section \<open>Dispatch, observation and collection\<close>

definition backend_fits :: "media_kind \<Rightarrow> media_backend \<Rightarrow> bool" where
  "backend_fits k b \<longleftrightarrow> (case k of Music \<Rightarrow> b = AceStep | Video \<Rightarrow> b = ComfyUi)"

text \<open>\<open>dispatch\<close> up to the submission: the job is saved as submitting before the backend is asked.\<close>

definition dispatch_begin :: "media_world \<Rightarrow> rat \<Rightarrow> string \<Rightarrow> media_backend \<Rightarrow> string \<Rightarrow> media_store \<Rightarrow> media_error + media_store" where
  "dispatch_begin w now i b worker s =
     (case get_job w i s of None \<Rightarrow> Inl UnknownJob
      | Some j \<Rightarrow>
          if mj_state j \<noteq> JQueued then Inl AlreadySubmitted
          else if worker = [] then Inl NoWorker
          else if \<not> backend_fits (mj_kind j) b then Inl BackendMismatch
          else (case update_job w now i (\<lambda>j. j\<lparr>mj_state := JSubmitting, mj_worker := Some worker, mj_backend := Some b,
                  mj_native := (if b = ComfyUi then Some i else None)\<rparr>) s of
              Inl e \<Rightarrow> Inl e
            | Inr s1 \<Rightarrow> Inr (s1\<lparr>ms_submitted := ms_submitted s1 @ [i]\<rparr>)))"

text \<open>The answer of the backend: a receipt, or an error that may say that nothing was submitted.\<close>

datatype submission = Receipt string | Refused bool string

definition dispatch_end :: "media_world \<Rightarrow> rat \<Rightarrow> string \<Rightarrow> submission \<Rightarrow> media_store \<Rightarrow> media_error + media_store" where
  "dispatch_end w now i r s = (case r of
     Receipt native \<Rightarrow> update_job w now i (\<lambda>j. j\<lparr>mj_state := JSubmitted, mj_native := Some native\<rparr>) s
   | Refused certain why \<Rightarrow> update_job w now i (\<lambda>j. j\<lparr>mj_state := (if certain then JFailed else JUncertain), mj_detail := Some why\<rparr>) s)"

text \<open>\<open>observe\<close>: whom to ask, and what the answer changes.\<close>

definition observe_whom :: "media_world \<Rightarrow> string \<Rightarrow> media_backend \<Rightarrow> media_store \<Rightarrow> media_error + string option" where
  "observe_whom w i b s =
     (case get_job w i s of None \<Rightarrow> Inl UnknownJob
      | Some j \<Rightarrow>
          (case mj_native j of None \<Rightarrow> Inr None
           | Some n \<Rightarrow> if mj_state j \<in> {JCompleted, JFailed, JQueued} \<or> n = [] \<or> mj_state j = JSubmitting then Inr None
               else if mj_backend j \<noteq> Some b then Inl OtherBackend else Inr (Some n)))"

record native_observation =
  ob_state :: string
  ob_scope :: "string option"
  ob_error :: "string option"
  ob_result :: "js option"

definition observed_state :: "string \<Rightarrow> media_state option" where
  "observed_state t = (if t = ''pending'' then Some JPending else if t = ''running'' then Some JRunning
     else if t = ''completed'' then Some JCompleted else if t = ''failed'' then Some JFailed else None)"

definition observe_end :: "media_world \<Rightarrow> rat \<Rightarrow> string \<Rightarrow> native_observation \<Rightarrow> media_store \<Rightarrow> media_error + media_store" where
  "observe_end w now i ob s =
     (if ob_state ob = ''unknown''
      then update_job w now i (\<lambda>j. j\<lparr>mj_state := JUncertain, mj_detail := Some (case ob_scope ob of Some d \<Rightarrow> d
             | None \<Rightarrow> (case ob_error ob of Some d \<Rightarrow> d | None \<Rightarrow> ''Native job state is unknown; no resubmission performed.''))\<rparr>) s
      else case observed_state (ob_state ob) of
        None \<Rightarrow> Inl BadNativeState
      | Some st \<Rightarrow> update_job w now i (\<lambda>j. j\<lparr>mj_state := st, mj_detail := ob_scope ob,
            mj_result := (case ob_result ob of Some r \<Rightarrow> Some r | None \<Rightarrow> mj_result j)\<rparr>) s)"

definition outputs_ready :: "media_job \<Rightarrow> bool" where
  "outputs_ready j \<longleftrightarrow> (case mj_outputs j of Some (OutReady _) \<Rightarrow> True | _ \<Rightarrow> False)"

text \<open>\<open>collect\<close>: one copy at a time; outputs that are ready are not copied again.\<close>

definition collect_begin :: "media_world \<Rightarrow> rat \<Rightarrow> string \<Rightarrow> media_store \<Rightarrow> media_error + media_store" where
  "collect_begin w now i s =
     (if i \<in> set (ms_collecting s) then Inr s
      else case get_job w i s of None \<Rightarrow> Inl UnknownJob
      | Some j \<Rightarrow> if outputs_ready j then Inr s
          else (case update_job w now i (\<lambda>j. j\<lparr>mj_outputs := Some OutCopying\<rparr>) s of Inl e \<Rightarrow> Inl e
            | Inr s1 \<Rightarrow> Inr (s1\<lparr>ms_collecting := i # ms_collecting s1\<rparr>)))"

definition collect_end :: "media_world \<Rightarrow> rat \<Rightarrow> string \<Rightarrow> string + js \<Rightarrow> media_store \<Rightarrow> media_error + media_store" where
  "collect_end w now i r s =
     (case update_job w now i (\<lambda>j. j\<lparr>mj_outputs := Some (case r of Inl why \<Rightarrow> OutFailed why | Inr files \<Rightarrow> OutReady files)\<rparr>) s of
        Inl e \<Rightarrow> Inl e
      | Inr s1 \<Rightarrow> Inr (s1\<lparr>ms_collecting := removeAll i (ms_collecting s1)\<rparr>))"

end
