(* ===== verification/Media_Once.thy ===== *)
theory Media_Once
  imports Media_Jobs
begin

text \<open>
  The stores that dispatch are those of the runners (\<open>media-runner.mjs\<close>, \<open>spark-media-runner.mjs\<close>): no execution is ever assigned
  in them. Over any steps of such a store, restarts included, a job is submitted at most once and a key names at most one job.
\<close>

section \<open>Steps of a dispatching store\<close>

datatype media_step =
    MEnqueue rat string media_request
  | MDispatch rat string media_backend string
  | MAnswer rat string submission
  | MObserve rat string native_observation
  | MCopy rat string
  | MCopied rat string "string + js"
  | MRestart rat

definition or_same :: "media_error + media_store \<Rightarrow> media_store \<Rightarrow> media_store" where
  "or_same r s = (case r of Inr s' \<Rightarrow> s' | Inl _ \<Rightarrow> s)"

text \<open>An identifier of \<open>randomUUID\<close> is one that no job of the store has.\<close>

definition media_run :: "(string \<Rightarrow> string) \<Rightarrow> (media_kind \<Rightarrow> js \<Rightarrow> prio \<Rightarrow> string) \<Rightarrow> (media_kind \<Rightarrow> js \<Rightarrow> string + js) \<Rightarrow>
    media_world \<times> media_step \<Rightarrow> media_store \<Rightarrow> media_store" where
  "media_run key_hash print prepare x s =
     (let w = fst x in case snd x of
        MEnqueue now fresh q \<Rightarrow> if fresh \<in> set (map mj_id (ms_jobs s)) then s
          else (case enqueue_job key_hash print prepare now fresh q s of Inr (_, _, s') \<Rightarrow> s' | Inl _ \<Rightarrow> s)
      | MDispatch now i b worker \<Rightarrow> or_same (dispatch_begin w now i b worker s) s
      | MAnswer now i r \<Rightarrow> or_same (dispatch_end w now i r s) s
      | MObserve now i ob \<Rightarrow> or_same (observe_end w now i ob s) s
      | MCopy now i \<Rightarrow> or_same (collect_begin w now i s) s
      | MCopied now i r \<Rightarrow> or_same (collect_end w now i r s) s
      | MRestart now \<Rightarrow> restart_media now s)"

definition empty_store :: media_store where
  "empty_store = \<lparr>ms_jobs = [], ms_collecting = [], ms_submitted = []\<rparr>"

section \<open>What stays true\<close>

definition job_fine :: "string list \<Rightarrow> media_job \<Rightarrow> bool" where
  "job_fine sent j \<longleftrightarrow> mj_execution j = None \<and> (mj_state j = JQueued \<longrightarrow> mj_id j \<notin> set sent)"

definition queue_sound :: "media_store \<Rightarrow> bool" where
  "queue_sound s \<longleftrightarrow> distinct (map mj_id (ms_jobs s)) \<and> distinct (map mj_key_hash (ms_jobs s)) \<and> distinct (ms_submitted s) \<and>
     set (ms_submitted s) \<subseteq> set (map mj_id (ms_jobs s)) \<and> list_all (job_fine (ms_submitted s)) (ms_jobs s)"

lemma find_job_Some: "find_job i js = Some j \<Longrightarrow> j \<in> set js \<and> mj_id j = i"
  by (auto simp: find_job_def find_Some_iff)

lemma view_plain:
  "mj_execution j = None \<Longrightarrow> mj_execution (view_of w j) = None \<and> mj_state (view_of w j) = mj_state j \<and> mj_id (view_of w j) = mj_id j \<and>
   mj_key_hash (view_of w j) = mj_key_hash j"
  by (simp add: view_of_def explain_def Let_def split: option.split)

lemma distinct_key_eq: "distinct (map f xs) \<Longrightarrow> x \<in> set xs \<Longrightarrow> y \<in> set xs \<Longrightarrow> f x = f y \<Longrightarrow> x = y"
  by (metis distinct_map inj_on_eq_iff)

lemma put_job_sound:
  assumes s: "queue_sound s" and old: "old \<in> set (ms_jobs s)"
    and n: "mj_id n = mj_id old" "mj_key_hash n = mj_key_hash old" "job_fine (ms_submitted s) n"
  shows "queue_sound (put_job n s)"
proof -
  have ids: "distinct (map mj_id (ms_jobs s))" using s by (simp add: queue_sound_def)
  have same: "mj_key_hash j = mj_key_hash n" if "j \<in> set (ms_jobs s)" "mj_id j = mj_id n" for j
    using distinct_key_eq [OF ids that(1) old] that(2) n by simp
  have "map mj_id (ms_jobs (put_job n s)) = map mj_id (ms_jobs s)" by (simp add: put_job_def)
  moreover have "map mj_key_hash (ms_jobs (put_job n s)) = map mj_key_hash (ms_jobs s)"
    using same by (simp add: put_job_def)
  moreover have "ms_submitted (put_job n s) = ms_submitted s" by (simp add: put_job_def)
  moreover have "list_all (job_fine (ms_submitted s)) (ms_jobs (put_job n s))"
    using s n(3) by (auto simp: queue_sound_def put_job_def list_all_iff)
  ultimately show ?thesis using s by (simp add: queue_sound_def)
qed

text \<open>A change to a job that leaves it out of the queue, or leaves its state alone.\<close>

lemma update_job_sound:
  assumes "queue_sound s" "update_job w now i f s = Inr s'"
    "\<And>j. mj_id (f j) = mj_id j \<and> mj_key_hash (f j) = mj_key_hash j \<and> mj_execution (f j) = mj_execution j \<and>
       (mj_state (f j) = JQueued \<longrightarrow> mj_state j = JQueued)"
  shows "queue_sound s' \<and> ms_submitted s' = ms_submitted s \<and>
     (\<exists>old. old \<in> set (ms_jobs s) \<and> mj_id old = i \<and> s' = put_job ((f (view_of w old))\<lparr>mj_updated := now\<rparr>) s)"
proof -
  from assms(2) obtain old where o: "find_job i (ms_jobs s) = Some old" and s': "s' = put_job ((f (view_of w old))\<lparr>mj_updated := now\<rparr>) s"
    by (auto simp: update_job_def get_job_def split: option.splits)
  have old: "old \<in> set (ms_jobs s)" "mj_id old = i" using find_job_Some [OF o] by auto
  have fine: "job_fine (ms_submitted s) old" using assms(1) old by (auto simp: queue_sound_def list_all_iff)
  then have "job_fine (ms_submitted s) ((f (view_of w old))\<lparr>mj_updated := now\<rparr>)"
    using assms(3) [of "view_of w old"] view_plain [of old w] by (auto simp: job_fine_def)
  then have "queue_sound s'"
    unfolding s' using put_job_sound [OF assms(1) old(1)] assms(3) [of "view_of w old"] view_plain [of old w] fine
    by (simp add: job_fine_def)
  then show ?thesis using old s' by (auto simp: put_job_def)
qed

lemma or_same_sound:
  "queue_sound s \<Longrightarrow> (\<And>s'. r = Inr s' \<Longrightarrow> queue_sound s') \<Longrightarrow> queue_sound (or_same r s)"
  by (auto simp: or_same_def split: sum.split)

lemma dispatch_begin_sound:
  assumes "queue_sound s" "dispatch_begin w now i b worker s = Inr s'"
  shows "queue_sound s'"
proof -
  let ?f = "\<lambda>j. j\<lparr>mj_state := JSubmitting, mj_worker := Some worker, mj_backend := Some b, mj_native := (if b = ComfyUi then Some i else None)\<rparr>"
  from assms(2) obtain j s1 where j: "get_job w i s = Some j" "mj_state j = JQueued" and u: "update_job w now i ?f s = Inr s1"
    and s': "s' = s1\<lparr>ms_submitted := ms_submitted s1 @ [i]\<rparr>"
    by (auto simp: dispatch_begin_def split: option.splits if_splits sum.splits)
  from update_job_sound [OF assms(1) u] obtain old where s1: "queue_sound s1" "ms_submitted s1 = ms_submitted s"
    and old: "old \<in> set (ms_jobs s)" "mj_id old = i" "s1 = put_job ((?f (view_of w old))\<lparr>mj_updated := now\<rparr>) s" by auto
  from j(1) obtain saved where saved: "saved \<in> set (ms_jobs s)" "mj_id saved = i" "j = view_of w saved"
    using find_job_Some [of i "ms_jobs s"] by (auto simp: get_job_def)
  have fine: "job_fine (ms_submitted s) k" if "k \<in> set (ms_jobs s)" for k
    using assms(1) that by (simp add: queue_sound_def list_all_iff)
  have new: "i \<notin> set (ms_submitted s)"
    using fine [OF saved(1)] view_plain [of saved w] j(2) saved(2,3) by (auto simp: job_fine_def)
  obtain n where n: "s1 = put_job n s" "mj_id n = i" "mj_state n = JSubmitting"
    using old(3) view_plain [of old w] fine [OF old(1)] old(2) by (simp add: job_fine_def)
  have gone: "mj_state k \<noteq> JQueued" if "k \<in> set (ms_jobs s1)" "mj_id k = i" for k
    using that n(2,3) unfolding n(1) put_job_def by auto
  have member: "i \<in> set (map mj_id (ms_jobs s1))"
    using old(1,2) n(2) unfolding n(1) put_job_def by force
  show ?thesis
    using s1 new gone member by (auto simp: s' queue_sound_def list_all_iff job_fine_def)
qed

lemma enqueue_job_sound:
  assumes "queue_sound s" "enqueue_job key_hash print prepare now fresh q s = Inr (i, created, s')" "fresh \<notin> set (map mj_id (ms_jobs s))"
  shows "queue_sound s'"
proof -
  from assms(2) obtain kind payload prio h fp where
    e: "enqueue_checked prepare now fresh kind payload prio h fp s = Inr (i, created, s')"
    by (simp add: enqueue_job_def split: option.splits if_splits sum.splits)
  then consider "s' = s" | prepared where "s' = s\<lparr>ms_jobs := ms_jobs s @ [new_media_job now fresh kind prepared prio h fp]\<rparr>"
      "List.find (\<lambda>j. mj_key_hash j = h) (ms_jobs s) = None"
    by (auto simp: enqueue_checked_def split: option.splits if_splits sum.splits)
  then show ?thesis
  proof cases
    case 1
    then show ?thesis using assms(1) by simp
  next
    case 2
    have "h \<notin> mj_key_hash ` set (ms_jobs s)" using 2(2) by (auto simp: find_None_iff)
    moreover have "fresh \<notin> set (ms_submitted s)" using assms(1,3) by (auto simp: queue_sound_def)
    ultimately show ?thesis
      using assms(1,3) unfolding 2(1) queue_sound_def by (auto simp: list_all_iff job_fine_def new_media_job_def)
  qed
qed

lemma interrupted_fields: "mj_id (interrupted_job now j) = mj_id j" "mj_key_hash (interrupted_job now j) = mj_key_hash j"
  "job_fine xs j \<Longrightarrow> job_fine xs (interrupted_job now j)"
  by (simp_all add: interrupted_job_def job_fine_def)

lemma restart_sound: "queue_sound s \<Longrightarrow> queue_sound (restart_media now s)"
  by (auto simp: queue_sound_def restart_media_def interrupted_fields list_all_iff comp_def)

lemma media_run_sound: "queue_sound s \<Longrightarrow> queue_sound (media_run key_hash print prepare x s)"
proof -
  assume s: "queue_sound s"
  have u: "queue_sound s'" if "update_job w now i f s = Inr s'" "\<And>j. mj_id (f j) = mj_id j \<and> mj_key_hash (f j) = mj_key_hash j \<and>
      mj_execution (f j) = mj_execution j \<and> (mj_state (f j) = JQueued \<longrightarrow> mj_state j = JQueued)" for w now i f s'
    using update_job_sound [OF s that] by simp
  have coll: "queue_sound (t\<lparr>ms_collecting := c\<rparr>) = queue_sound t" for t c by (simp add: queue_sound_def)
  show ?thesis
  proof (cases "snd x")
    case (MEnqueue now fresh q)
    then show ?thesis using s enqueue_job_sound [OF s] by (auto simp: media_run_def split: sum.split)
  next
    case (MDispatch now i b worker)
    then show ?thesis using s dispatch_begin_sound [OF s] by (simp add: media_run_def or_same_sound)
  next
    case (MAnswer now i r)
    show ?thesis
      unfolding media_run_def Let_def MAnswer media_step.case
      by (rule or_same_sound [OF s]) (auto simp: dispatch_end_def split: submission.splits if_splits elim!: u)
  next
    case (MObserve now i ob)
    show ?thesis
      unfolding media_run_def Let_def MObserve media_step.case
      by (rule or_same_sound [OF s]) (auto simp: observe_end_def observed_state_def split: if_splits option.splits elim!: u)
  next
    case (MCopy now i)
    show ?thesis
      unfolding media_run_def Let_def MCopy media_step.case
      by (rule or_same_sound [OF s]) (auto simp: collect_begin_def s coll split: if_splits option.splits sum.splits elim!: u)
  next
    case (MCopied now i r)
    show ?thesis
      unfolding media_run_def Let_def MCopied media_step.case
      by (rule or_same_sound [OF s]) (auto simp: collect_end_def s coll split: sum.splits elim!: u)
  next
    case (MRestart now)
    then show ?thesis using restart_sound [OF s] by (simp add: media_run_def)
  qed
qed

text \<open>C22: The media queue submits a job at most once. Over any sequence of requests, dispatches, native answers, observations, copies and
  restarts of a dispatching store, whatever the backends answer and in whatever order: no job is handed to a backend twice, a job that
  is still queued was never handed to one, so an interrupted or unclear submission is never repeated, and no two jobs have the same
  idempotency key.\<close>

theorem media_submitted_once:
  "queue_sound (fold (media_run key_hash print prepare) steps empty_store)"
proof -
  have "queue_sound s \<Longrightarrow> queue_sound (fold (media_run key_hash print prepare) steps s)" for s
    by (induction steps arbitrary: s) (simp_all add: media_run_sound)
  then show ?thesis by (simp add: empty_store_def queue_sound_def)
qed

end
