(* ===== verification/Engine_Timing.thy ===== *)
theory Engine_Timing
  imports Stream_Lines
begin

text \<open>
  The timing lines of the engine, \<open>ds4-gateway/telemetry.mjs\<close>: parsing a journal message, the identity of the process behind it, the
  reader that refuses a repeated cursor, and the state of a device; and the measured costs of \<open>ds4-gateway/cache-cost.mjs\<close>. Numbers are
  exact rationals, \<open>None\<close> stands for a number that is absent or not finite; \<open>digest\<close> is SHA-256. In each pattern no repeated class
  contains the character that follows it, so matching a class as far as it goes is what the expression does.
\<close>

section \<open>Patterns\<close>

datatype piece = Lit string | Digits | Decimal | SkipDecimal | WordPart | Lazy

definition digit :: "char \<Rightarrow> bool" where
  "digit c \<longleftrightarrow> c \<in> set ''0123456789''"

definition decimal_char :: "char \<Rightarrow> bool" where
  "decimal_char c \<longleftrightarrow> digit c \<or> c = CHR ''.''"

definition class_of :: "piece \<Rightarrow> char \<Rightarrow> bool" where
  "class_of p = (case p of Digits \<Rightarrow> digit | WordPart \<Rightarrow> word_char | _ \<Rightarrow> decimal_char)"

function match_at :: "piece list \<Rightarrow> string \<Rightarrow> string list option" where
  "match_at [] s = Some []"
| "match_at (Lit l # ps) s = (if take (length l) s = l then match_at ps (drop (length l) s) else None)"
| "match_at (Lazy # ps) s = (case match_at ps s of Some r \<Rightarrow> Some r
     | None \<Rightarrow> (case s of [] \<Rightarrow> None | c # cs \<Rightarrow> if c = LF \<or> c = CR then None else match_at (Lazy # ps) cs))"
| "match_at (Digits # ps) s = (let d = takeWhile digit s in
     if d = [] then None else map_option ((#) d) (match_at ps (dropWhile digit s)))"
| "match_at (Decimal # ps) s = (let d = takeWhile decimal_char s in
     if d = [] then None else map_option ((#) d) (match_at ps (dropWhile decimal_char s)))"
| "match_at (WordPart # ps) s = (let d = takeWhile word_char s in
     if d = [] then None else map_option ((#) d) (match_at ps (dropWhile word_char s)))"
| "match_at (SkipDecimal # ps) s =
     (if takeWhile decimal_char s = [] then None else match_at ps (dropWhile decimal_char s))"
  by pat_completeness auto
termination
proof (relation "measure (\<lambda>(ps, s). length ps + length s)", goal_cases)
  case 1
  then show ?case by simp
next
  case (5 ps s)
  then show ?case using length_dropWhile_le [of digit s] by simp
next
  case (6 ps s)
  then show ?case using length_dropWhile_le [of decimal_char s] by simp
next
  case (7 ps s)
  then show ?case using length_dropWhile_le [of word_char s] by simp
next
  case (8 ps s)
  then show ?case using length_dropWhile_le [of decimal_char s] by simp
qed simp_all

fun search :: "piece list \<Rightarrow> string \<Rightarrow> string list option" where
  "search ps [] = match_at ps []"
| "search ps (c # cs) = (case match_at ps (c # cs) of Some r \<Rightarrow> Some r | None \<Rightarrow> search ps cs)"

definition digit_value :: "char \<Rightarrow> nat" where
  "digit_value c = of_char c - 48"

definition nat_value :: "string \<Rightarrow> nat" where
  "nat_value s = foldl (\<lambda>n c. 10 * n + digit_value c) 0 s"

text \<open>\<open>Number\<close> of a text of digits and points.\<close>

definition decimal_value :: "string \<Rightarrow> rat option" where
  "decimal_value s =
     (let a = takeWhile digit s; rest = dropWhile digit s in
      case rest of [] \<Rightarrow> if a = [] then None else Some (of_nat (nat_value a))
      | _ # b \<Rightarrow> if list_all digit b \<and> (a \<noteq> [] \<or> b \<noteq> [])
          then Some (of_nat (nat_value a) + of_nat (nat_value b) / 10 ^ length b) else None)"

section \<open>Timing lines\<close>

datatype timing_kind = KPrefill | KDecode | KStart | KPrefillDone | KFinish | KResidentMiss | KDiskRestore

record timing =
  tm_kind :: timing_kind
  tm_time :: rat
  tm_cached :: "rat option"
  tm_prompt :: "rat option"
  tm_processed :: "rat option"
  tm_total :: "rat option"
  tm_new :: "rat option"
  tm_generated :: "rat option"
  tm_tps :: "rat option"
  tm_average :: "rat option"
  tm_seconds :: "rat option"
  tm_load :: "rat option"
  tm_thinking :: bool
  tm_outcome :: "string option"

definition blank_timing :: "timing_kind \<Rightarrow> rat \<Rightarrow> timing" where
  "blank_timing k t = \<lparr>tm_kind = k, tm_time = t, tm_cached = None, tm_prompt = None, tm_processed = None, tm_total = None, tm_new = None,
     tm_generated = None, tm_tps = None, tm_average = None, tm_seconds = None, tm_load = None, tm_thinking = False, tm_outcome = None\<rparr>"

definition ctx_part :: "piece list" where
  "ctx_part = [Lit ''ctx='', Digits, Lit ''..'', Digits, Lit '':'', Digits, Lazy]"

definition prefill_pattern :: "piece list" where
  "prefill_pattern = ctx_part @ [Lit ''prefill chunk '', Digits, Lit ''/'', Digits, Lit '' ('', SkipDecimal, Lit ''%) chunk='', Decimal,
     Lit '' t/s avg='', Decimal, Lit '' t/s '', Decimal, Lit ''s'']"

definition decode_pattern :: "piece list" where
  "decode_pattern = [Lit ''gen='', Digits, Lazy, Lit ''decoding chunk='', Decimal, Lit '' t/s avg='', Decimal, Lit '' t/s '', Decimal, Lit ''s'']"

definition start_pattern :: "piece list" where
  "start_pattern = ctx_part @ [Lit ''prompt start'']"

definition done_pattern :: "piece list" where
  "done_pattern = ctx_part @ [Lit ''prompt done '', Decimal, Lit ''s'']"

definition finish_pattern :: "piece list" where
  "finish_pattern = [Lit ''gen='', Digits, Lazy, Lit ''finish='', WordPart]"

definition restore_pattern :: "piece list" where
  "restore_pattern = [Lit ''kv cache hit '', Lazy, Lit ''tokens='', Digits, Lazy, Lit ''load='', Decimal, Lit '' ms'']"

definition finish_words :: "string list" where
  "finish_words = [''stop'', ''length'', ''tool_calls'', ''error'', ''cancelled'']"

definition prefill_average :: "string \<Rightarrow> string \<Rightarrow> rat option" where
  "prefill_average tokens secs = (case (decimal_value tokens, decimal_value secs) of
     (Some n, Some d) \<Rightarrow> if d > 0 then Some (n / d) else None | _ \<Rightarrow> None)"

definition parse_cache_line :: "string \<Rightarrow> rat \<Rightarrow> timing option" where
  "parse_cache_line m t =
     (if occurs_in ''live kv cache miss'' m then Some (blank_timing KResidentMiss t)
      else case search restore_pattern m of
        Some [c, l] \<Rightarrow> Some ((blank_timing KDiskRestore t)\<lparr>tm_cached := decimal_value c, tm_load := decimal_value l\<rparr>)
      | _ \<Rightarrow> None)"

definition parse_end_line :: "string \<Rightarrow> rat \<Rightarrow> timing option" where
  "parse_end_line m t =
     (case search start_pattern m of
        Some [c, p, n] \<Rightarrow> Some ((blank_timing KStart t)\<lparr>tm_cached := decimal_value c, tm_prompt := decimal_value p, tm_new := decimal_value n\<rparr>)
      | _ \<Rightarrow> (case search done_pattern m of
          Some [c, p, n, s] \<Rightarrow> Some ((blank_timing KPrefillDone t)\<lparr>tm_cached := decimal_value c, tm_prompt := decimal_value p,
            tm_new := decimal_value n, tm_seconds := decimal_value s, tm_average := prefill_average n s\<rparr>)
        | _ \<Rightarrow> (case search finish_pattern m of
            Some [g, w] \<Rightarrow> Some ((blank_timing KFinish t)\<lparr>tm_generated := decimal_value g,
              tm_outcome := Some (if w \<in> set finish_words then w else ''other'')\<rparr>)
          | _ \<Rightarrow> parse_cache_line m t)))"

definition parse_timing :: "string \<Rightarrow> rat \<Rightarrow> timing option" where
  "parse_timing m t =
     (if \<not> occurs_in ''ds4-server:'' m then None
      else case search prefill_pattern m of
        Some [c, p, _, done_tokens, whole, tps, avg, secs] \<Rightarrow> Some ((blank_timing KPrefill t)\<lparr>tm_cached := decimal_value c,
          tm_prompt := decimal_value p, tm_processed := decimal_value done_tokens, tm_total := decimal_value whole,
          tm_tps := decimal_value tps, tm_average := decimal_value avg, tm_seconds := decimal_value secs\<rparr>)
      | _ \<Rightarrow> (case search decode_pattern m of
          Some [g, tps, avg, s] \<Rightarrow> Some ((blank_timing KDecode t)\<lparr>tm_generated := decimal_value g, tm_tps := decimal_value tps,
            tm_average := decimal_value avg, tm_seconds := decimal_value s, tm_thinking := occurs_in '' THINKING'' m\<rparr>)
        | _ \<Rightarrow> parse_end_line m t))"

section \<open>The process behind a line\<close>

datatype epoch_source = SystemdInvocation | BootPid | ListenMarker

record process_epoch =
  pe_id :: string
  pe_source :: epoch_source
  pe_strong :: bool

definition journal_id :: "js \<Rightarrow> string option" where
  "journal_id v = (case v of JStr s \<Rightarrow> if length s = 32 \<and> list_all any_hex s then Some (map lower_char s) else None | _ \<Rightarrow> None)"

definition journal_pid :: "js \<Rightarrow> string option" where
  "journal_pid v = (case v of JStr (c # cs) \<Rightarrow> if digit c \<and> c \<noteq> CHR ''0'' \<and> length cs \<le> 9 \<and> list_all digit cs then Some (c # cs) else None
     | _ \<Rightarrow> None)"

definition worker_text :: "string \<Rightarrow> bool" where
  "worker_text s \<longleftrightarrow> (case s of [] \<Rightarrow> False
     | c # cs \<Rightarrow> word_char c \<and> c \<noteq> CHR ''_'' \<and> length cs \<le> 63 \<and> list_all word_or_hyphen cs)"

definition journal_process_epoch :: "(string \<times> epoch_source \<times> string \<Rightarrow> string) \<Rightarrow> js \<Rightarrow> string \<Rightarrow> process_epoch option" where
  "journal_process_epoch digest record worker =
     (if \<not> truthy record \<or> \<not> worker_text worker then None
      else case journal_id (jget record ''_SYSTEMD_INVOCATION_ID'') of
        Some i \<Rightarrow> Some \<lparr>pe_id = digest (worker, SystemdInvocation, i), pe_source = SystemdInvocation, pe_strong = True\<rparr>
      | None \<Rightarrow> (case (journal_id (jget record ''_BOOT_ID''), journal_pid (jget record ''_PID'')) of
          (Some b, Some p) \<Rightarrow> Some \<lparr>pe_id = digest (worker, BootPid, b @ '':'' @ p), pe_source = BootPid, pe_strong = False\<rparr>
        | _ \<Rightarrow> None))"

section \<open>Measured costs\<close>

record cost_sample =
  cs_prefill :: bool
  cs_time :: rat
  cs_tokens :: rat
  cs_prompt :: rat
  cs_reused :: bool
  cs_ms :: rat

record cache_costs =
  cc_samples :: "cost_sample list"
  cc_started :: "timing option"
  cc_rejected :: nat
  cc_epoch :: "string option"
  cc_strong :: bool

definition new_costs :: "string option \<Rightarrow> bool \<Rightarrow> cache_costs" where
  "new_costs epoch strong = \<lparr>cc_samples = [], cc_started = None, cc_rejected = 0, cc_epoch = epoch, cc_strong = (epoch \<noteq> None \<and> strong)\<rparr>"

definition one_hour :: rat where
  "one_hour = 3600000"

definition last_items :: "nat \<Rightarrow> 'a list \<Rightarrow> 'a list" where
  "last_items n xs = drop (length xs - n) xs"

definition add_sample :: "cost_sample \<Rightarrow> cache_costs \<Rightarrow> cache_costs" where
  "add_sample x c = c\<lparr>cc_samples := last_items 128 (filter (\<lambda>y. cs_time x - cs_time y \<le> one_hour) (cc_samples c @ [x]))\<rparr>"

definition disk_sample :: "timing \<Rightarrow> cost_sample option" where
  "disk_sample e = (case (tm_load e, tm_cached e) of
     (Some l, Some k) \<Rightarrow> if l \<ge> 0 \<and> k > 0 \<and> k \<in> \<int> \<and> k \<le> of_int max_safe
       then Some \<lparr>cs_prefill = False, cs_time = tm_time e, cs_tokens = k, cs_prompt = 0, cs_reused = False, cs_ms = l\<rparr> else None
   | _ \<Rightarrow> None)"

text \<open>A finished prefill counts only for the start it belongs to.\<close>

definition prefill_sample :: "timing \<Rightarrow> timing \<Rightarrow> cost_sample option" where
  "prefill_sample start e =
     (if tm_time e < tm_time start \<or> tm_time e - tm_time start > one_hour \<or> tm_cached start \<noteq> tm_cached e \<or> tm_prompt start \<noteq> tm_prompt e \<or>
         tm_new start \<noteq> tm_new e then None
      else case (tm_seconds e, tm_cached e, tm_prompt e, tm_new e) of
        (Some s, Some k, Some p, Some n) \<Rightarrow> if s < 0 \<or> p \<noteq> k + n then None
          else Some \<lparr>cs_prefill = True, cs_time = tm_time e, cs_tokens = n, cs_prompt = p, cs_reused = (k > 0), cs_ms = s * 1000\<rparr>
      | _ \<Rightarrow> None)"

definition accept_cost :: "timing \<Rightarrow> cache_costs \<Rightarrow> cache_costs" where
  "accept_cost e c =
     (if tm_time e < 0 then c
      else case tm_kind e of
        KDiskRestore \<Rightarrow> (case disk_sample e of Some x \<Rightarrow> add_sample x c | None \<Rightarrow> c)
      | KStart \<Rightarrow> c\<lparr>cc_started := Some e\<rparr>
      | KPrefillDone \<Rightarrow> (case Option.bind (cc_started c) (\<lambda>st. prefill_sample st e) of
            Some x \<Rightarrow> add_sample x (c\<lparr>cc_started := None\<rparr>)
          | None \<Rightarrow> c\<lparr>cc_started := None, cc_rejected := cc_rejected c + 1\<rparr>)
      | KFinish \<Rightarrow> c\<lparr>cc_started := None\<rparr>
      | _ \<Rightarrow> c)"

definition costs_at :: "rat \<Rightarrow> cache_costs \<Rightarrow> cost_sample list" where
  "costs_at now c = filter (\<lambda>x. cs_time x \<le> now \<and> now - cs_time x \<le> one_hour) (cc_samples c)"

text \<open>The power of two at or above a number of tokens, as its exponent.\<close>

fun two_steps :: "nat \<Rightarrow> nat \<Rightarrow> nat" where
  "two_steps 0 n = 0"
| "two_steps (Suc fuel) n = (if n \<le> 1 then 0 else Suc (two_steps fuel ((n + 1) div 2)))"

definition bucket_of :: "nat \<Rightarrow> nat" where
  "bucket_of n = two_steps n n"

record cost_estimate =
  ct_samples :: nat
  ct_ms :: "rat option"
  ct_range :: "(rat \<times> rat) option"
  ct_latest :: "rat option"

definition tokens_bucket :: "rat \<Rightarrow> nat" where
  "tokens_bucket x = bucket_of (nat \<lceil>x\<rceil>)"

definition comparable :: "rat \<Rightarrow> bool \<Rightarrow> nat \<Rightarrow> nat \<Rightarrow> bool \<Rightarrow> cost_sample \<Rightarrow> bool" where
  "comparable now prefill tokens prompt reused x \<longleftrightarrow> cs_prefill x = prefill \<and> 0 \<le> cs_ms x \<and> cs_time x \<le> now \<and> now - cs_time x \<le> one_hour \<and>
     tokens_bucket (cs_tokens x) = bucket_of tokens \<and>
     (prefill \<longrightarrow> tokens_bucket (cs_prompt x) = bucket_of prompt \<and> cs_reused x = reused)"

definition estimate_cost :: "rat \<Rightarrow> bool \<Rightarrow> nat \<Rightarrow> nat \<Rightarrow> bool \<Rightarrow> cost_sample list \<Rightarrow> cost_estimate" where
  "estimate_cost now prefill tokens prompt reused xs =
     (let ms = map cs_ms (filter (comparable now prefill tokens prompt reused) xs);
          ts = map cs_time (filter (comparable now prefill tokens prompt reused) xs) in
      if length ms < 3 then \<lparr>ct_samples = length ms, ct_ms = None, ct_range = None, ct_latest = None\<rparr>
      else \<lparr>ct_samples = length ms, ct_ms = Some (sum_list ms / of_nat (length ms)),
        ct_range = Some (foldl min (hd ms) ms, foldl max (hd ms) ms), ct_latest = Some (foldl max (hd ts) ts)\<rparr>)"

datatype cache_tier = LocalDisk | ColdTier | HotTier | RemoteTier

definition no_estimate :: cost_estimate where
  "no_estimate = \<lparr>ct_samples = 0, ct_ms = None, ct_range = None, ct_latest = None\<rparr>"

definition estimate_cache_cost :: "rat \<Rightarrow> cache_tier \<Rightarrow> nat \<Rightarrow> nat \<Rightarrow> cost_sample list \<Rightarrow> (cost_estimate \<times> cost_estimate \<times> rat option) option" where
  "estimate_cache_cost now tier cached prompt xs =
     (if cached > prompt \<or> prompt < 1 \<or> prompt > 10485760 \<or> tier = ColdTier \<and> cached \<noteq> 0 then None
      else let load = (case tier of LocalDisk \<Rightarrow> estimate_cost now False cached 0 False xs
                 | ColdTier \<Rightarrow> no_estimate\<lparr>ct_ms := Some 0\<rparr> | _ \<Rightarrow> no_estimate);
               prefill = (if tier = RemoteTier then no_estimate else estimate_cost now True (prompt - cached) prompt (cached > 0) xs)
        in Some (load, prefill, case (ct_ms load, ct_ms prefill) of (Some a, Some b) \<Rightarrow> Some (a + b) | _ \<Rightarrow> None))"

section \<open>A device\<close>

datatype device_phase = PhaseUnknown | PhasePrefill | PhaseDecode | PhaseThinking | PhaseIdle

record cache_counts =
  kc_starts :: nat
  kc_reused :: nat
  kc_cold :: nat
  kc_misses :: nat
  kc_restores :: nat

datatype prompt_cache = FromCold | FromDisk | FromPrefix

record device =
  dv_id :: string
  dv_observed_since :: "rat option"
  dv_last_event :: "rat option"
  dv_epoch :: "process_epoch option"
  dv_epoch_at :: "rat option"
  dv_changes :: nat
  dv_gaps :: nat
  dv_cache_since :: "rat option"
  dv_phase :: device_phase
  dv_decode :: "timing option"
  dv_prefill :: "timing option"
  dv_prompt :: "(timing \<times> prompt_cache) option"
  dv_cache :: cache_counts
  dv_series :: "(rat \<times> timing_kind \<times> rat) list"
  dv_recent :: "timing list"
  dv_pending :: "rat option"
  dv_current :: "rat option"
  dv_costs :: cache_costs

definition no_counts :: cache_counts where
  "no_counts = \<lparr>kc_starts = 0, kc_reused = 0, kc_cold = 0, kc_misses = 0, kc_restores = 0\<rparr>"

definition new_device :: "string \<Rightarrow> device" where
  "new_device i = \<lparr>dv_id = i, dv_observed_since = None, dv_last_event = None, dv_epoch = None, dv_epoch_at = None, dv_changes = 0, dv_gaps = 0,
     dv_cache_since = None, dv_phase = PhaseUnknown, dv_decode = None, dv_prefill = None, dv_prompt = None, dv_cache = no_counts,
     dv_series = [], dv_recent = [], dv_pending = None, dv_current = None, dv_costs = new_costs None False\<rparr>"

definition bump :: "nat \<Rightarrow> nat" where
  "bump n = min (nat max_safe) (n + 1)"

text \<open>\<open>observeEpoch\<close>: another process forgets the spans and samples learned of the last one.\<close>

definition observe_epoch :: "process_epoch option \<Rightarrow> rat \<Rightarrow> device \<Rightarrow> bool \<times> device" where
  "observe_epoch e t d =
     (case e of None \<Rightarrow> (False, d\<lparr>dv_gaps := bump (dv_gaps d)\<rparr>)
      | Some p \<Rightarrow>
          if map_option pe_id (dv_epoch d) = Some (pe_id p) then (True, d)
          else (True, d\<lparr>dv_epoch := Some p, dv_epoch_at := Some t, dv_cache_since := Some t,
            dv_changes := (if dv_epoch d \<noteq> None then bump (dv_changes d) else dv_changes d),
            dv_costs := new_costs (Some (pe_id p)) (pe_strong p), dv_phase := PhaseUnknown, dv_decode := None, dv_prefill := None, dv_prompt := None,
            dv_cache := no_counts, dv_series := [], dv_recent := [], dv_pending := None, dv_current := None\<rparr>))"

definition first_seen :: "rat \<Rightarrow> rat option \<Rightarrow> rat option" where
  "first_seen t old = (case old of None \<Rightarrow> Some t | Some _ \<Rightarrow> old)"

definition positive :: "rat option \<Rightarrow> bool" where
  "positive v = (case v of Some x \<Rightarrow> x > 0 | None \<Rightarrow> False)"

definition see_cache_event :: "bool \<Rightarrow> timing \<Rightarrow> device \<Rightarrow> device" where
  "see_cache_event ok e d =
     (let k = dv_cache d in
      if \<not> ok then d
      else case tm_kind e of
        KResidentMiss \<Rightarrow> d\<lparr>dv_cache := k\<lparr>kc_misses := kc_misses k + 1\<rparr>\<rparr>
      | KDiskRestore \<Rightarrow> d\<lparr>dv_cache := k\<lparr>kc_restores := kc_restores k + 1\<rparr>, dv_pending := Some (tm_time e)\<rparr>
      | _ \<Rightarrow> d)"

definition see_start :: "bool \<Rightarrow> timing \<Rightarrow> device \<Rightarrow> device" where
  "see_start ok e d =
     (let k = dv_cache d; disk = (case dv_pending d of Some p \<Rightarrow> tm_time e - p < 60000 | None \<Rightarrow> False) in
      d\<lparr>dv_phase := PhasePrefill,
        dv_cache := (if ok then k\<lparr>kc_starts := kc_starts k + 1, kc_reused := kc_reused k + (if positive (tm_cached e) then 1 else 0),
            kc_cold := kc_cold k + (if positive (tm_cached e) then 0 else 1)\<rparr> else k),
        dv_prompt := Some (e, if tm_cached e = Some 0 then FromCold else if disk then FromDisk else FromPrefix),
        dv_pending := None, dv_current := Some (tm_time e)\<rparr>)"

definition see_prefill_done :: "timing \<Rightarrow> device \<Rightarrow> device" where
  "see_prefill_done e d =
     (let from = (case dv_current d of Some t \<Rightarrow> t | None \<Rightarrow> tm_time e) in
      d\<lparr>dv_prefill := Some (e\<lparr>tm_tps := (case dv_prefill d of Some p \<Rightarrow> if tm_time p \<ge> from then tm_tps p else tm_average e
          | None \<Rightarrow> tm_average e)\<rparr>), dv_phase := PhaseDecode\<rparr>)"

definition see_phase :: "bool \<Rightarrow> timing \<Rightarrow> device \<Rightarrow> device" where
  "see_phase ok e d =
     (case tm_kind e of
        KStart \<Rightarrow> see_start ok e d
      | KPrefill \<Rightarrow> if positive (tm_processed e) then d\<lparr>dv_prefill := Some e, dv_phase := PhasePrefill\<rparr> else d
      | KPrefillDone \<Rightarrow> see_prefill_done e d
      | KDecode \<Rightarrow> d\<lparr>dv_decode := Some e, dv_phase := (if tm_thinking e then PhaseThinking else PhaseDecode)\<rparr>
      | KFinish \<Rightarrow> d\<lparr>dv_phase := PhaseIdle\<rparr>
      | _ \<Rightarrow> d)"

definition see_series :: "timing \<Rightarrow> device \<Rightarrow> device" where
  "see_series e d =
     (if tm_kind e \<in> {KDecode, KPrefill}
      then (case tm_tps e of
          Some v \<Rightarrow> if v > 0 then d\<lparr>dv_series := last_items 180 (filter (\<lambda>(t, _). tm_time e - t < 900000) (dv_series d @ [(tm_time e, tm_kind e, v)]))\<rparr>
            else d
        | None \<Rightarrow> d)
      else d\<lparr>dv_recent := last_items 30 (dv_recent d @ [e])\<rparr>)"

text \<open>\<open>DeviceTelemetry.accept\<close> of a journal event with the process found for it.\<close>

definition accept_timing :: "timing \<Rightarrow> process_epoch option \<Rightarrow> device \<Rightarrow> device" where
  "accept_timing e p d =
     (let (ok, d1) = observe_epoch p (tm_time e) d;
          d2 = (if ok then d1\<lparr>dv_costs := accept_cost e (dv_costs d1)\<rparr> else d1);
          d3 = d2\<lparr>dv_observed_since := first_seen (tm_time e) (dv_observed_since d2), dv_last_event := Some (tm_time e),
                 dv_cache_since := first_seen (tm_time e) (dv_cache_since d2)\<rparr>
      in see_series e (see_phase ok e (see_cache_event ok e d3)))"

section \<open>The journal\<close>

record journal_reader =
  jr_seen :: "string list"
  jr_cursor :: "string option"
  jr_last :: "rat option"
  jr_device :: device

definition cursor_char :: "char \<Rightarrow> bool" where
  "cursor_char c \<longleftrightarrow> c \<in> set ''abcdefghijklmnopqrstuvwxyz0123456789=;_-''"

definition cursor_text :: "string \<Rightarrow> bool" where
  "cursor_text s \<longleftrightarrow> 1 \<le> length s \<and> length s \<le> 1024 \<and> list_all cursor_char s"

definition see_cursor :: "string \<Rightarrow> string list \<Rightarrow> string list" where
  "see_cursor c xs = (let ys = xs @ [c] in if length ys > 5000 then tl ys else ys)"

text \<open>\<open>micros\<close> reads the time stamp of a record in microseconds.\<close>

definition accept_record :: "(string \<times> epoch_source \<times> string \<Rightarrow> string) \<Rightarrow> (js \<Rightarrow> rat option) \<Rightarrow> js \<Rightarrow> journal_reader \<Rightarrow> journal_reader" where
  "accept_record digest micros j r =
     (case (jget j ''__CURSOR'', micros (jget j ''__REALTIME_TIMESTAMP'')) of
        (JStr c, Some us) \<Rightarrow>
          if \<not> cursor_text c \<or> c \<in> set (jr_seen r) \<or> us \<le> 0 then r
          else let t = us / 1000; r1 = r\<lparr>jr_cursor := Some c, jr_last := Some t, jr_seen := see_cursor c (jr_seen r)\<rparr> in
            (case jget j ''MESSAGE'' of
               JStr m \<Rightarrow> (case parse_timing m t of
                   Some e \<Rightarrow> r1\<lparr>jr_device := accept_timing e (journal_process_epoch digest j (dv_id (jr_device r1))) (jr_device r1)\<rparr>
                 | None \<Rightarrow> r1)
             | _ \<Rightarrow> r1)
      | _ \<Rightarrow> r)"

end
