(* ===== verification/Service_Control.thy ===== *)
theory Service_Control
  imports Stream_Lines
begin

text \<open>
  The login services of the gateway, \<open>ds4-gateway/service-control.mjs\<close>: the checks before a service is stopped, the removal of a service,
  the replacement of the gateway core behind the held door, its core_parking and the release of a park. The two coordinated
  operations are state machines: every call they make waits for one answer, and any call may fail. Signals and \<open>launchd\<close> are the
  recorded calls; the text of a registration is not modelled.
\<close>

section \<open>What the services report\<close>

datatype service = GatewaySvc | DoorSvc | DashboardSvc

record core_report =
  cr_active :: nat
  cr_queued :: nat
  cr_uploads :: nat
  cr_draining :: bool
  cr_complete :: bool

datatype door_hold = NoHold | ManualHold string | OtherHold

record door_report =
  dr_owned :: bool  \<comment> \<open>the door fences the ownership of its hold\<close>
  dr_holding :: bool
  dr_kind :: door_hold
  dr_reason :: string
  dr_active :: nat
  dr_held :: nat

definition core_idle :: "core_report \<Rightarrow> bool" where
  "core_idle s \<longleftrightarrow> cr_active s = 0 \<and> cr_queued s = 0 \<and> cr_uploads s = 0"

definition core_clean :: "core_report \<Rightarrow> bool" where
  "core_clean s \<longleftrightarrow> core_idle s \<and> cr_complete s"

text \<open>\<open>assertIdle\<close> and \<open>assertDoorIdle\<close>: a report that could not be read is not idle.\<close>

definition may_stop_core :: "bool \<Rightarrow> core_report option \<Rightarrow> bool" where
  "may_stop_core interrupt s \<longleftrightarrow> interrupt \<or> (case s of None \<Rightarrow> False | Some s \<Rightarrow> core_idle s)"

definition may_stop_door :: "bool \<Rightarrow> door_report option \<Rightarrow> bool" where
  "may_stop_door interrupt d \<longleftrightarrow> interrupt \<or> (case d of None \<Rightarrow> False | Some d \<Rightarrow> dr_active d = 0 \<and> dr_held d = 0 \<and> \<not> dr_holding d)"

record genie_activity =
  ga_chat :: "(bool \<times> nat) list option"  \<comment> \<open>busy and queued of every conversation\<close>
  ga_reviewer_busy :: bool

definition may_stop_dashboard :: "bool \<Rightarrow> genie_activity option \<Rightarrow> bool" where
  "may_stop_dashboard interrupt a \<longleftrightarrow> interrupt \<or> (case a of None \<Rightarrow> False
     | Some a \<Rightarrow> (case ga_chat a of None \<Rightarrow> False | Some cs \<Rightarrow> list_all (\<lambda>(busy, n). \<not> busy \<and> n = 0) cs \<and> \<not> ga_reviewer_busy a))"

record registration =
  rg_label :: string
  rg_arguments :: "string list"
  rg_directory :: string
  rg_port :: "string option"

definition registration_ok :: "(string \<Rightarrow> bool) \<Rightarrow> registration \<Rightarrow> registration \<Rightarrow> bool" where
  "registration_ok absolute saved spec \<longleftrightarrow> rg_label saved = rg_label spec \<and>
     (case rg_arguments saved of [] \<Rightarrow> False | a # as \<Rightarrow> absolute a \<and> as = tl (rg_arguments spec)) \<and>
     rg_directory saved = rg_directory spec \<and> rg_port saved = rg_port spec"

section \<open>Removing a service\<close>

datatype control_call = Kill service | Bootout service | Fence | Unfence | Bootstrap service | SaveGenie | Installed service

text \<open>The answers of \<open>loaded\<close> with the times they came at; without more answers the removal still waits.\<close>

datatype unload_end = Unloaded | NotConfirmed | StillWaiting

fun await_unloaded :: "rat \<Rightarrow> (bool \<times> rat) list \<Rightarrow> unload_end" where
  "await_unloaded deadline [] = StillWaiting"
| "await_unloaded deadline ((loaded, now) # xs) =
     (if \<not> loaded then Unloaded else if now \<ge> deadline then NotConfirmed else await_unloaded deadline xs)"

definition unload_service :: "bool \<Rightarrow> service \<Rightarrow> bool \<Rightarrow> (bool \<times> rat) list \<Rightarrow> rat \<Rightarrow> control_call list \<times> unload_end" where
  "unload_service interrupt k loaded answers deadline =
     (if \<not> loaded then ([], Unloaded)
      else ((if interrupt then [Kill k] else []) @ [Bootout k], await_unloaded deadline answers))"

section \<open>Replacing the core behind the door\<close>

datatype core_call = AskDoor | AskHold | ReadCore | Pause | StopCore | StartCore | ReleaseHold string

datatype core_answer = DoorIs door_report | CoreIs core_report rat | Done | Failed

datatype cutover_phase = AwaitDoor | AwaitHold | Draining string rat | Pausing string rat | Stopping string | Starting string | Verifying string
  | Releasing string | CutOver | GaveUp bool

record cutover =
  cu_phase :: cutover_phase
  cu_calls :: "(core_call \<times> core_answer option) list"  \<comment> \<open>every call, with its answer once it came\<close>

definition call_next :: "core_call \<Rightarrow> cutover_phase \<Rightarrow> cutover \<Rightarrow> cutover" where
  "call_next c p s = s\<lparr>cu_phase := p, cu_calls := cu_calls s @ [(c, None)]\<rparr>"

definition give_up :: "bool \<Rightarrow> cutover \<Rightarrow> cutover" where
  "give_up holding s = s\<lparr>cu_phase := GaveUp holding\<rparr>"

definition answered :: "core_answer \<Rightarrow> cutover \<Rightarrow> cutover" where
  "answered a s = s\<lparr>cu_calls := (case cu_calls s of [] \<Rightarrow> [] | cs \<Rightarrow> butlast cs @ [(fst (last cs), Some a)])\<rparr>"

text \<open>\<open>holdReceipt\<close>: the identifier of a hold that the door confirms as ours.\<close>

definition hold_receipt :: "door_report \<Rightarrow> string option" where
  "hold_receipt d = (if dr_owned d \<and> dr_holding d then (case dr_kind d of ManualHold i \<Rightarrow> if i = [] then None else Some i | _ \<Rightarrow> None) else None)"

definition restart_start :: cutover where
  "restart_start = \<lparr>cu_phase = AwaitDoor, cu_calls = [(AskDoor, None)]\<rparr>"

text \<open>\<open>coordinatedCoreRestart\<close>; \<open>allowance\<close> is the time the core has to drain, \<open>now\<close> the clock when an answer is handled.\<close>

definition restart_answer :: "rat \<Rightarrow> rat \<Rightarrow> core_answer \<Rightarrow> cutover \<Rightarrow> cutover" where
  "restart_answer allowance now a s0 =
     (let s = answered a s0 in
      case cu_phase s0 of
        AwaitDoor \<Rightarrow> (case a of DoorIs d \<Rightarrow> if dr_owned d then call_next AskHold AwaitHold s else give_up False s | _ \<Rightarrow> give_up False s)
      | AwaitHold \<Rightarrow> (case a of DoorIs d \<Rightarrow> (case hold_receipt d of Some i \<Rightarrow> call_next ReadCore (Draining i (now + allowance)) s
            | None \<Rightarrow> give_up False s) | _ \<Rightarrow> give_up False s)
      | Draining i deadline \<Rightarrow> (case a of CoreIs c _ \<Rightarrow>
            if core_idle c then call_next StopCore (Stopping i) s
            else if now \<ge> deadline then give_up True s else call_next Pause (Pausing i deadline) s
          | _ \<Rightarrow> give_up True s)
      | Pausing i deadline \<Rightarrow> (case a of Done \<Rightarrow> call_next ReadCore (Draining i deadline) s | _ \<Rightarrow> give_up True s)
      | Stopping i \<Rightarrow> (case a of Done \<Rightarrow> call_next StartCore (Starting i) s | _ \<Rightarrow> give_up True s)
      | Starting i \<Rightarrow> (case a of Done \<Rightarrow> call_next ReadCore (Verifying i) s | _ \<Rightarrow> give_up True s)
      | Verifying i \<Rightarrow> (case a of CoreIs c _ \<Rightarrow> if core_clean c then call_next (ReleaseHold i) (Releasing i) s else give_up True s
          | _ \<Rightarrow> give_up True s)
      | Releasing i \<Rightarrow> (case a of Done \<Rightarrow> s\<lparr>cu_phase := CutOver\<rparr> | _ \<Rightarrow> give_up True s)
      | CutOver \<Rightarrow> s0
      | GaveUp _ \<Rightarrow> s0)"

section \<open>Parking the core\<close>

definition park_reason :: string where
  "park_reason = ''planned_gateway_core_park''"

definition park_hold :: "door_report \<Rightarrow> bool" where
  "park_hold d \<longleftrightarrow> dr_holding d \<and> (case dr_kind d of ManualHold _ \<Rightarrow> True | _ \<Rightarrow> False) \<and> dr_reason d = park_reason"

datatype park_phase = ParkDoor | ParkHold | ParkDraining rat | ParkPausing rat | ParkStopping | Parked | ParkFailed bool

record core_parking =
  pk_phase :: park_phase
  pk_calls :: "core_call list"

definition park_next :: "core_call \<Rightarrow> park_phase \<Rightarrow> core_parking \<Rightarrow> core_parking" where
  "park_next c p s = s\<lparr>pk_phase := p, pk_calls := pk_calls s @ [c]\<rparr>"

definition park_answer :: "rat \<Rightarrow> rat \<Rightarrow> core_answer \<Rightarrow> core_parking \<Rightarrow> core_parking" where
  "park_answer allowance now a s =
     (case pk_phase s of
        ParkDoor \<Rightarrow> (case a of DoorIs d \<Rightarrow>
            if dr_holding d \<and> \<not> park_hold d then s\<lparr>pk_phase := ParkFailed False\<rparr>
            else if dr_holding d then park_next ReadCore (ParkDraining (now + allowance)) s
            else park_next AskHold ParkHold s
          | _ \<Rightarrow> s\<lparr>pk_phase := ParkFailed False\<rparr>)
      | ParkHold \<Rightarrow> (case a of DoorIs _ \<Rightarrow> park_next ReadCore (ParkDraining (now + allowance)) s | _ \<Rightarrow> s\<lparr>pk_phase := ParkFailed False\<rparr>)
      | ParkDraining deadline \<Rightarrow> (case a of CoreIs c _ \<Rightarrow>
            if core_idle c then park_next StopCore ParkStopping s
            else if now \<ge> deadline then s\<lparr>pk_phase := ParkFailed True\<rparr> else park_next Pause (ParkPausing deadline) s
          | _ \<Rightarrow> s\<lparr>pk_phase := ParkFailed True\<rparr>)
      | ParkPausing deadline \<Rightarrow> (case a of Done \<Rightarrow> park_next ReadCore (ParkDraining deadline) s | _ \<Rightarrow> s\<lparr>pk_phase := ParkFailed True\<rparr>)
      | ParkStopping \<Rightarrow> (case a of Done \<Rightarrow> s\<lparr>pk_phase := Parked\<rparr> | _ \<Rightarrow> s\<lparr>pk_phase := ParkFailed True\<rparr>)
      | Parked \<Rightarrow> s
      | ParkFailed _ \<Rightarrow> s)"

text \<open>\<open>releaseParkedCore\<close>: \<open>Inr (Some i)\<close> is the release of the hold \<open>i\<close>; without a park hold nothing is released.\<close>

datatype release_error = NoOwnership | NoReceipt | CoreNotClean

definition release_parked :: "door_report \<Rightarrow> core_report \<Rightarrow> release_error + string option" where
  "release_parked d c =
     (if \<not> park_hold d then Inr None
      else if \<not> dr_owned d then Inl NoOwnership
      else case hold_receipt d of None \<Rightarrow> Inl NoReceipt
      | Some i \<Rightarrow> if core_clean c then Inr (Some i) else Inl CoreNotClean)"

section \<open>The stop of services\<close>

text \<open>The fence: admission is closed by a signal unless it was closed, then up to twenty reports are read until one says so.\<close>

definition first_draining :: "core_report option list \<Rightarrow> core_report option" where
  "first_draining rs = (let xs = takeWhile (\<lambda>r. r \<noteq> None) (take 20 rs) in
     case List.find (\<lambda>r. cr_draining r) (map the xs) of Some r \<Rightarrow> Some r | None \<Rightarrow> None)"

definition fence_core :: "core_report \<Rightarrow> core_report option list \<Rightarrow> control_call list \<times> bool" where
  "fence_core before rs =
     (let ok = (case first_draining rs of Some r \<Rightarrow> core_idle r | None \<Rightarrow> False); sent = (if cr_draining before then [] else [Fence])
      in (sent @ (if ok \<or> cr_draining before then [] else [Unfence]), ok))"

record stop_world =
  sw_loaded :: "service \<Rightarrow> bool"
  sw_core :: "core_report option"
  sw_door :: "door_report option"
  sw_genie_saved :: bool
  sw_before :: "core_report option"
  sw_fenced :: "core_report option list"
  sw_activity :: "genie_activity option"
  sw_unload :: "service \<Rightarrow> (bool \<times> rat) list"
  sw_deadline :: rat

definition stop_checks :: "stop_world \<Rightarrow> service list \<Rightarrow> bool \<Rightarrow> bool" where
  "stop_checks w ks interrupt \<longleftrightarrow>
     (GatewaySvc \<in> set ks \<and> sw_loaded w GatewaySvc \<longrightarrow> may_stop_core interrupt (sw_core w)) \<and>
     (DoorSvc \<in> set ks \<and> sw_loaded w DoorSvc \<longrightarrow> may_stop_door interrupt (sw_door w)) \<and>
     (DashboardSvc \<in> set ks \<and> sw_loaded w DashboardSvc \<longrightarrow> sw_genie_saved w)"

fun unload_all :: "stop_world \<Rightarrow> bool \<Rightarrow> service list \<Rightarrow> control_call list \<times> bool" where
  "unload_all w interrupt [] = ([], True)"
| "unload_all w interrupt (k # ks) =
     (let (calls, e) = unload_service interrupt k (sw_loaded w k) (sw_unload w k) (sw_deadline w) in
      if e \<noteq> Unloaded then (calls, False) else let (more_calls, ok) = unload_all w interrupt ks in (calls @ more_calls, ok))"

text \<open>The stop and the first half of a restart, in the order of the code; the flag says whether every step succeeded.\<close>

definition stop_services :: "stop_world \<Rightarrow> service list \<Rightarrow> bool \<Rightarrow> control_call list \<times> bool" where
  "stop_services w ks interrupt =
     (if \<not> stop_checks w ks interrupt then ([], False)
      else
        let saved = (if DashboardSvc \<in> set ks \<and> sw_loaded w DashboardSvc then [SaveGenie] else []);
            fencing = (\<not> interrupt \<and> GatewaySvc \<in> set ks \<and> sw_loaded w GatewaySvc);
            (fence, ok) = (if \<not> fencing then ([], True) else case sw_before w of None \<Rightarrow> ([], False) | Some b \<Rightarrow> fence_core b (sw_fenced w))
        in if \<not> ok then (saved @ fence, False)
           else if DashboardSvc \<in> set ks \<and> sw_loaded w DashboardSvc \<and> \<not> may_stop_dashboard interrupt (sw_activity w) then (saved @ fence, False)
           else let (calls, done_all) = unload_all w interrupt (rev ks) in (saved @ fence @ calls, done_all))"

end
