(* ===== verification/Service_Cutover.thy ===== *)
theory Service_Cutover
  imports Service_Control
begin

text \<open>The held door is opened only by its own receipt and only for a core that was drained, replaced and read back clean.\<close>

type_synonym call_log = "(core_call \<times> core_answer option) list"

text \<open>Logs are read from the latest call back.\<close>

definition only_waited :: "call_log \<Rightarrow> bool" where
  "only_waited l \<longleftrightarrow> list_all (\<lambda>(c, _). c \<in> {AskDoor, AskHold, ReadCore, Pause}) l"

definition held_as :: "string \<Rightarrow> call_log \<Rightarrow> bool" where
  "held_as i l \<longleftrightarrow> list_ex (\<lambda>(c, a). c = AskHold \<and> (case a of Some (DoorIs d) \<Rightarrow> hold_receipt d = Some i | _ \<Rightarrow> False)) l"

definition ready_to_drain :: "string \<Rightarrow> call_log \<Rightarrow> bool" where
  "ready_to_drain i l \<longleftrightarrow> only_waited l \<and> held_as i l"

fun drained :: "string \<Rightarrow> call_log \<Rightarrow> bool" where
  "drained i ((ReadCore, Some (CoreIs c t)) # l) = (core_idle c \<and> ready_to_drain i l)"
| "drained i l = False"

fun stopped :: "string \<Rightarrow> call_log \<Rightarrow> bool" where
  "stopped i ((StopCore, Some Done) # l) = drained i l"
| "stopped i l = False"

fun replaced :: "string \<Rightarrow> call_log \<Rightarrow> bool" where
  "replaced i ((StartCore, Some Done) # l) = stopped i l"
| "replaced i l = False"

fun read_back_clean :: "string \<Rightarrow> call_log \<Rightarrow> bool" where
  "read_back_clean i ((ReadCore, Some (CoreIs c t)) # l) = (core_clean c \<and> replaced i l)"
| "read_back_clean i l = False"

definition never_released :: "call_log \<Rightarrow> bool" where
  "never_released l \<longleftrightarrow> list_all (\<lambda>(c, _). case c of ReleaseHold _ \<Rightarrow> False | _ \<Rightarrow> True) l"

text \<open>Nothing was released, or the one release came last, behind a verified replacement.\<close>

definition release_earned :: "call_log \<Rightarrow> bool" where
  "release_earned l \<longleftrightarrow> never_released l \<or>
     (case l of (ReleaseHold i, _) # rest \<Rightarrow> read_back_clean i rest \<and> never_released rest | _ \<Rightarrow> False)"

lemma released_cons [simp]:
  "never_released ((c, a) # l) = ((case c of ReleaseHold _ \<Rightarrow> False | _ \<Rightarrow> True) \<and> never_released l)"
  by (simp add: never_released_def)

lemma waited_unreleased: "only_waited l \<Longrightarrow> never_released l"
  by (auto simp: only_waited_def never_released_def list_all_iff)

lemma drained_unreleased: "drained i l \<Longrightarrow> never_released l"
  by (induction i l rule: drained.induct) (simp_all add: ready_to_drain_def waited_unreleased)

lemma stopped_unreleased: "stopped i l \<Longrightarrow> never_released l"
  by (induction i l rule: stopped.induct) (simp_all add: drained_unreleased)

lemma replaced_unreleased: "replaced i l \<Longrightarrow> never_released l"
  by (induction i l rule: replaced.induct) (simp_all add: stopped_unreleased)

lemma read_back_unreleased: "read_back_clean i l \<Longrightarrow> never_released l"
  by (induction i l rule: read_back_clean.induct) (auto simp: replaced_unreleased)

lemmas never_released_stages = waited_unreleased drained_unreleased stopped_unreleased replaced_unreleased read_back_unreleased

text \<open>What a phase knows of the log behind its open call.\<close>

definition cutover_fits :: "cutover_phase \<Rightarrow> call_log \<Rightarrow> bool" where
  "cutover_fits p l =
     (case p of
        AwaitDoor \<Rightarrow> l = [(AskDoor, None)]
      | AwaitHold \<Rightarrow> (case l of (c, a) # r \<Rightarrow> c = AskHold \<and> a = None \<and> only_waited r | [] \<Rightarrow> False)
      | Draining i _ \<Rightarrow> (case l of (c, a) # r \<Rightarrow> c = ReadCore \<and> a = None \<and> ready_to_drain i r | [] \<Rightarrow> False)
      | Pausing i _ \<Rightarrow> (case l of (c, a) # r \<Rightarrow> c = Pause \<and> a = None \<and> ready_to_drain i r | [] \<Rightarrow> False)
      | Stopping i \<Rightarrow> (case l of (c, a) # r \<Rightarrow> c = StopCore \<and> a = None \<and> drained i r | [] \<Rightarrow> False)
      | Starting i \<Rightarrow> (case l of (c, a) # r \<Rightarrow> c = StartCore \<and> a = None \<and> stopped i r | [] \<Rightarrow> False)
      | Verifying i \<Rightarrow> (case l of (c, a) # r \<Rightarrow> c = ReadCore \<and> a = None \<and> replaced i r | [] \<Rightarrow> False)
      | Releasing i \<Rightarrow> (case l of (c, a) # r \<Rightarrow> c = ReleaseHold i \<and> a = None \<and> read_back_clean i r | [] \<Rightarrow> False)
      | CutOver \<Rightarrow> (case l of (ReleaseHold i, a) # r \<Rightarrow> a = Some Done \<and> read_back_clean i r | _ \<Rightarrow> False)
      | GaveUp h \<Rightarrow> (\<not> h \<longrightarrow> only_waited l) \<and> release_earned l)"

definition cutover_ok :: "cutover \<Rightarrow> bool" where
  "cutover_ok s \<longleftrightarrow> cutover_fits (cu_phase s) (rev (cu_calls s))"

lemma rev_answered: "rev (cu_calls (answered a s)) = (case rev (cu_calls s) of [] \<Rightarrow> [] | (c, _) # r \<Rightarrow> (c, Some a) # r)"
proof (cases "rev (cu_calls s)")
  case Nil
  then show ?thesis by (simp add: answered_def)
next
  case (Cons x r)
  then have "cu_calls s = rev r @ [x]" by (metis rev.simps(2) rev_rev_ident)
  then show ?thesis using Cons by (cases x; cases "rev r") (simp_all add: answered_def)
qed

lemma answered_phase [simp]: "cu_phase (answered a s) = cu_phase s"
  by (simp add: answered_def)

lemma call_next_ok: "cutover_ok (call_next c p s) = cutover_fits p ((c, None) # rev (cu_calls s))"
  by (simp add: cutover_ok_def call_next_def)

lemma give_up_ok: "cutover_ok (give_up h s) = ((\<not> h \<longrightarrow> only_waited (rev (cu_calls s))) \<and> release_earned (rev (cu_calls s)))"
  by (simp add: cutover_ok_def give_up_def cutover_fits_def)

lemma earned_cons:
  "never_released r \<Longrightarrow> (\<And>i. c \<noteq> ReleaseHold i) \<Longrightarrow> release_earned ((c, a) # r)"
  "read_back_clean i r \<Longrightarrow> release_earned ((ReleaseHold i, a) # r)"
  by (auto simp: release_earned_def read_back_unreleased split: core_call.split)

lemma waited_cons: "only_waited r \<Longrightarrow> c \<in> {AskDoor, AskHold, ReadCore, Pause} \<Longrightarrow> only_waited ((c, a) # r)"
  by (simp add: only_waited_def)

lemma ready_cons: "ready_to_drain i r \<Longrightarrow> c \<in> {AskDoor, AskHold, ReadCore, Pause} \<Longrightarrow> ready_to_drain i ((c, a) # r)"
  by (auto simp: ready_to_drain_def only_waited_def held_as_def)

lemma ready_waited: "ready_to_drain i r \<Longrightarrow> never_released r"
  by (simp add: ready_to_drain_def never_released_stages)

lemma hold_ready: "only_waited r \<Longrightarrow> hold_receipt d = Some i \<Longrightarrow> ready_to_drain i ((AskHold, Some (DoorIs d)) # r)"
  by (simp add: ready_to_drain_def held_as_def waited_cons)

lemmas cutover_rules = call_next_ok give_up_ok rev_answered cutover_fits_def earned_cons waited_cons ready_cons ready_waited hold_ready
  never_released_stages

lemma restart_answer_ok:
  assumes "cutover_ok s"
  shows "cutover_ok (restart_answer allowance now a s)"
proof -
  obtain l where l: "rev (cu_calls s) = l" by simp
  have fits: "cutover_fits (cu_phase s) l" using assms l by (simp add: cutover_ok_def)
  show ?thesis
  proof (cases "cu_phase s")
    case AwaitDoor
    then show ?thesis using fits l
      by (cases a) (auto simp: restart_answer_def Let_def cutover_rules only_waited_def)
  next
    case AwaitHold
    then obtain r where "l = (AskHold, None) # r" "only_waited r" using fits by (auto simp: cutover_fits_def split: list.splits)
    then show ?thesis using l AwaitHold
      by (cases a) (auto simp: restart_answer_def Let_def cutover_rules split: option.split)
  next
    case (Draining i deadline)
    then obtain r where "l = (ReadCore, None) # r" "ready_to_drain i r" using fits by (auto simp: cutover_fits_def split: list.splits)
    then show ?thesis using l Draining by (cases a) (auto simp: restart_answer_def Let_def cutover_rules)
  next
    case (Pausing i deadline)
    then obtain r where "l = (Pause, None) # r" "ready_to_drain i r" using fits by (auto simp: cutover_fits_def split: list.splits)
    then show ?thesis using l Pausing by (cases a) (auto simp: restart_answer_def Let_def cutover_rules)
  next
    case (Stopping i)
    then obtain r where "l = (StopCore, None) # r" "drained i r" using fits by (auto simp: cutover_fits_def split: list.splits)
    then show ?thesis using l Stopping by (cases a) (auto simp: restart_answer_def Let_def cutover_rules)
  next
    case (Starting i)
    then obtain r where "l = (StartCore, None) # r" "stopped i r" using fits by (auto simp: cutover_fits_def split: list.splits)
    then show ?thesis using l Starting by (cases a) (auto simp: restart_answer_def Let_def cutover_rules)
  next
    case (Verifying i)
    then obtain r where "l = (ReadCore, None) # r" "replaced i r" using fits by (auto simp: cutover_fits_def split: list.splits)
    then show ?thesis using l Verifying by (cases a) (auto simp: restart_answer_def Let_def cutover_rules)
  next
    case (Releasing i)
    then obtain r where "l = (ReleaseHold i, None) # r" "read_back_clean i r" using fits by (auto simp: cutover_fits_def split: list.splits)
    then show ?thesis using l Releasing
      by (cases a) (auto simp: restart_answer_def Let_def cutover_rules cutover_ok_def [of "_\<lparr>cu_phase := _\<rparr>"])
  next
    case CutOver
    then show ?thesis using assms by (simp add: restart_answer_def Let_def)
  next
    case (GaveUp h)
    then show ?thesis using assms by (simp add: restart_answer_def Let_def)
  qed
qed

lemma cutover_run_ok:
  "cutover_ok (fold (\<lambda>(now, a). restart_answer allowance now a) xs restart_start)"
proof -
  have "cutover_ok s \<Longrightarrow> cutover_ok (fold (\<lambda>(now, a). restart_answer allowance now a) xs s)" for s
    by (induction xs arbitrary: s) (auto simp: restart_answer_ok)
  moreover have "cutover_ok restart_start" by (simp add: cutover_ok_def restart_start_def cutover_fits_def)
  ultimately show ?thesis by blast
qed

lemma unreleased_earned: "never_released l \<Longrightarrow> release_earned l"
  by (simp add: release_earned_def)

lemma cut_over_fits: "cutover_fits CutOver l \<Longrightarrow> \<exists>i r. l = (ReleaseHold i, Some Done) # r \<and> read_back_clean i r"
  by (cases l; cases "fst (hd l)") (auto simp: cutover_fits_def)

lemma fits_earned:
  assumes "cutover_fits p l"
  shows "release_earned l"
proof (cases "p = CutOver")
  case True
  then show ?thesis using assms earned_cons(2) by (auto dest: cut_over_fits)
next
  case False
  then show ?thesis using assms
    by (cases p) (auto simp: cutover_fits_def ready_waited earned_cons never_released_stages unreleased_earned waited_cons only_waited_def
        split: list.splits)
qed

text \<open>C23: The continuity door is opened only for a clean replacement. In every run of \<open>coordinatedCoreRestart\<close>, whatever the door, the
  core and the service manager answer or fail to answer and however long it takes: the hold is released at most once and as the last call, by the
  receipt that the door gave for this very hold, after the old core was read idle and stopped, the new one started, and a last reading
  showed it complete with no active, queued or uploading work. In every other end the door keeps holding.\<close>

theorem door_opens_for_a_clean_core:
  "release_earned (rev (cu_calls (fold (\<lambda>(now, a). restart_answer allowance now a) xs restart_start)))"
  by (rule fits_earned [OF cutover_run_ok [unfolded cutover_ok_def]])

text \<open>A run that opens the door: the old core drains while one request ends, and the new one comes up clean.\<close>

definition working_core :: "nat \<Rightarrow> bool \<Rightarrow> core_report" where
  "working_core n ready = \<lparr>cr_active = n, cr_queued = 0, cr_uploads = 0, cr_draining = False, cr_complete = ready\<rparr>"

definition our_hold :: "string \<Rightarrow> door_report" where
  "our_hold i = \<lparr>dr_owned = True, dr_holding = True, dr_kind = ManualHold i, dr_reason = ''planned_gateway_core_restart'', dr_active = 0, dr_held = 0\<rparr>"

lemma clean_restart_opens_the_door:
  "map fst (cu_calls (fold (\<lambda>(now, a). restart_answer 60 now a)
     [(0, DoorIs (our_hold ''h'')), (1, DoorIs (our_hold ''h'')), (2, CoreIs (working_core 1 True) 2), (3, Done), (4, CoreIs (working_core 0 True) 4),
      (5, Done), (6, Done), (7, CoreIs (working_core 0 True) 7), (8, Done)] restart_start)) =
   [AskDoor, AskHold, ReadCore, Pause, ReadCore, StopCore, StartCore, ReadCore, ReleaseHold ''h'']"
  by (simp add: restart_answer_def restart_start_def answered_def call_next_def hold_receipt_def our_hold_def working_core_def
      core_idle_def core_clean_def Let_def)

section \<open>A refused stop\<close>

text \<open>A busy dashboard refuses the stop after the gateway was fenced, and the fence stays.\<close>

definition busy_dashboard :: stop_world where
  "busy_dashboard =
     (let idle = \<lparr>cr_active = 0, cr_queued = 0, cr_uploads = 0, cr_draining = False, cr_complete = True\<rparr> in
      \<lparr>sw_loaded = (\<lambda>k. k \<noteq> DoorSvc), sw_core = Some idle, sw_door = None, sw_genie_saved = True, sw_before = Some idle,
       sw_fenced = [Some (idle\<lparr>cr_draining := True\<rparr>)], sw_activity = Some \<lparr>ga_chat = Some [(True, 0)], ga_reviewer_busy = False\<rparr>,
       sw_unload = (\<lambda>_. [(False, 0)]), sw_deadline = 0\<rparr>)"

lemma refused_stop_keeps_the_fence:
  "stop_services busy_dashboard [GatewaySvc, DashboardSvc] False = ([SaveGenie, Fence], False)"
  by (simp add: stop_services_def busy_dashboard_def stop_checks_def may_stop_core_def core_idle_def fence_core_def first_draining_def
      may_stop_dashboard_def Let_def)

text \<open>Without an interruption the gateway is removed only behind an acknowledged fence.\<close>

lemma unload_all_calls: "c \<in> set (fst (unload_all w interrupt ks)) \<Longrightarrow> \<exists>k \<in> set ks. c = Bootout k \<or> interrupt \<and> c = Kill k"
  by (induction ks) (auto simp: unload_service_def Let_def split: if_splits prod.splits)

end
