(* ===== verification/Server_Operations.thy ===== *)
theory Server_Operations
  imports Agent_Control Stream_Lines "HOL-Library.AList"
begin

text \<open>
  Approval and launch receipts of server operations, \<open>ds4-gateway/server-operations.mjs\<close>: proposals, their preparation, the serial
  approvals, the launch and its receipts, over every await and restart. An operation directory is the record of its receipt files. The
  digest and \<open>JSON.stringify\<close> are parameters; a publication may fail before or after its file appeared, which also covers a receipt
  that is too large. Receipts changed from outside the store are not modelled.
\<close>

section \<open>Receipts\<close>

record op_params =
  op_str :: "js \<Rightarrow> string"  \<comment> \<open>\<open>String\<close> on objects and numbers\<close>
  op_json :: "js \<Rightarrow> string"  \<comment> \<open>\<open>JSON.stringify\<close>\<close>
  op_encode :: "js \<Rightarrow> string"  \<comment> \<open>\<open>encode\<close>, the indented form with a final newline\<close>
  op_bytes :: "string \<Rightarrow> nat"  \<comment> \<open>\<open>Buffer.byteLength\<close>\<close>
  op_hash :: "string \<Rightarrow> string"

record op_proposal =
  pl_input :: js
  pl_worker :: string
  pl_reason :: string
  pl_digest :: string
  pl_conversation :: js
  pl_reply :: js
  pl_created :: rat

record op_prepared =
  pp_at :: rat
  pp_revision :: string
  pp_record :: string
  pp_review :: js

record op_folder =
  fd_proposal :: "op_proposal option"
  fd_plan :: "js option"
  fd_prepared :: "op_prepared option"
  fd_failed :: "rat option"
  fd_declined :: "(rat \<times> string) option"
  fd_approved :: "(rat \<times> string \<times> string) option"  \<comment> \<open>time, plan revision, record revision\<close>
  fd_intent :: "(rat \<times> string) option"
  fd_launched :: "(rat \<times> js) option"
  fd_uncertain :: "rat option"

definition new_folder :: op_folder where
  "new_folder = \<lparr>fd_proposal = None, fd_plan = None, fd_prepared = None, fd_failed = None, fd_declined = None, fd_approved = None,
     fd_intent = None, fd_launched = None, fd_uncertain = None\<rparr>"

text \<open>\<open>write\<close>: publication by \<open>link\<close> keeps what is there; it may fail before the link, or after it when the directory is not synced.\<close>

datatype write_end = Published | NotPublished | PublishedUnsure

definition publish :: "write_end \<Rightarrow> 'a \<Rightarrow> 'a option \<Rightarrow> 'a option \<times> bool" where
  "publish w v old =
     (case old of Some x \<Rightarrow> (Some x, False)
      | None \<Rightarrow> (case w of Published \<Rightarrow> (Some v, True) | NotPublished \<Rightarrow> (None, False) | PublishedUnsure \<Rightarrow> (Some v, False)))"

section \<open>The store\<close>

datatype approval = NoApproval | AskingRecord string string string string | Observing string string string string "string list"

datatype op_entry = OwnerAsked js | Ended string | Launched string string string

record operations =
  op_hourglass :: bool  \<comment> \<open>\<open>proposalKind\<close>\<close>
  op_workers :: "string list"
  op_folders :: "(string \<times> op_folder) list"
  op_preparing :: "(string \<times> string option) list"  \<comment> \<open>with the record revision once it was read\<close>
  op_launching :: "string list"
  op_closed :: bool
  op_queue :: "js list"  \<comment> \<open>the chain of \<open>approvals\<close>\<close>
  op_phase :: approval
  op_resume :: "js list"
  op_log :: "op_entry list"  \<comment> \<open>what the owner asked, what was observed, what was launched; latest first\<close>

definition new_operations :: "bool \<Rightarrow> string list \<Rightarrow> operations" where
  "new_operations hourglass workers =
     \<lparr>op_hourglass = hourglass, op_workers = workers, op_folders = [], op_preparing = [], op_launching = [], op_closed = False,
      op_queue = [], op_phase = NoApproval, op_resume = [], op_log = []\<rparr>"

definition folder_of :: "operations \<Rightarrow> string \<Rightarrow> op_folder option" where
  "folder_of s i = map_of (op_folders s) i"

definition files_of :: "operations \<Rightarrow> string \<Rightarrow> op_folder" where
  "files_of s i = (case folder_of s i of Some f \<Rightarrow> f | None \<Rightarrow> new_folder)"

definition put_files :: "string \<Rightarrow> op_folder \<Rightarrow> operations \<Rightarrow> operations" where
  "put_files i f s = s\<lparr>op_folders := AList.update i f (op_folders s)\<rparr>"

definition log_entry :: "op_entry \<Rightarrow> operations \<Rightarrow> operations" where
  "log_entry e s = s\<lparr>op_log := e # op_log s\<rparr>"

section \<open>Reading\<close>

datatype op_stage = Declined | Submitted | LaunchUncertain | ApprovedUnsubmitted | PrepareFailed | AwaitingApproval | Preparing
  | PreparationInterrupted | Unreadable

record op_row =
  or_id :: string
  or_worker :: "string option"
  or_reason :: string
  or_created :: rat
  or_state :: op_stage
  or_plan :: "(string \<times> js \<times> string) option"
  or_approved_at :: "rat option"
  or_receipt :: "js option"
  or_error :: bool

datatype op_error = StoreClosed | InvalidProposal | InvalidOrigin | OtherProposal | IncompleteDirectory | OperationNotFound | InvalidChange
  | PlanChanged | WasDeclined | AlreadyApproved | RecordChanged | UnreadableOperation | WorkerBusy | WriteFailed

definition state_of :: "bool \<Rightarrow> op_folder \<Rightarrow> op_stage" where
  "state_of preparing f =
     (if fd_declined f \<noteq> None then Declined
      else if fd_intent f \<noteq> None then (if fd_launched f \<noteq> None then Submitted else LaunchUncertain)
      else if fd_approved f \<noteq> None then ApprovedUnsubmitted
      else if fd_failed f \<noteq> None then PrepareFailed
      else if fd_prepared f \<noteq> None then AwaitingApproval
      else if preparing then Preparing else PreparationInterrupted)"

definition row_of :: "operations \<Rightarrow> string \<Rightarrow> op_error + op_row" where
  "row_of s i =
     (let f = files_of s i in
      case fd_proposal f of
        None \<Rightarrow> Inl OperationNotFound
      | Some q \<Rightarrow> Inr \<lparr>or_id = i, or_worker = Some (pl_worker q), or_reason = pl_reason q, or_created = pl_created q,
          or_state = state_of (i \<in> fst ` set (op_preparing s)) f,
          or_plan = map_option (\<lambda>d. (pp_revision d, pp_review d, pp_record d)) (fd_prepared f),
          or_approved_at = map_option fst (fd_approved f), or_receipt = map_option snd (fd_launched f),
          or_error = (fd_failed f \<noteq> None \<or> fd_uncertain f \<noteq> None)\<rparr>)"

definition unreadable_row :: "string \<Rightarrow> op_row" where
  "unreadable_row i = \<lparr>or_id = i, or_worker = None, or_reason = [], or_created = 0, or_state = Unreadable, or_plan = None,
     or_approved_at = None, or_receipt = None, or_error = True\<rparr>"

definition list_operations :: "operations \<Rightarrow> op_row list" where
  "list_operations s = sort_key (\<lambda>r. - or_created r)
     (map (\<lambda>(i, f). case row_of s i of Inr r \<Rightarrow> r | Inl _ \<Rightarrow> unreadable_row i) (op_folders s))"

section \<open>Proposals\<close>

definition uuid_like :: "op_params \<Rightarrow> js \<Rightarrow> bool" where
  "uuid_like p v = lower_uuid (JStr (js_text (op_str p) v))"

definition worker_id :: "string \<Rightarrow> bool" where
  "worker_id s \<longleftrightarrow> id_text s \<and> hd s \<notin> {CHR ''-'', CHR ''_''}"

definition image_text :: "string \<Rightarrow> bool" where
  "image_text s \<longleftrightarrow> has_prefix ''sha256:'' s \<and> digest_text (drop 7 s)"

definition command_part :: "js \<Rightarrow> bool" where
  "command_part v \<longleftrightarrow> is_str v \<and> CHR 0x00 \<notin> set (js_string v)"

definition command_ok :: "op_params \<Rightarrow> js \<Rightarrow> bool" where
  "command_ok p v \<longleftrightarrow> (case v of JArr vs \<Rightarrow> vs \<noteq> [] \<and> list_all command_part vs \<and> op_bytes p (op_json p v) \<le> 65536 | _ \<Rightarrow> False)"

definition serving_shape :: "op_params \<Rightarrow> js \<Rightarrow> bool" where
  "serving_shape p v \<longleftrightarrow>
     exact_fields v ([''id'', ''worker_id'', ''image'', ''command'', ''reason''] @ (if has_own v ''trial'' then [''trial''] else [])) \<and>
     (has_own v ''trial'' \<longrightarrow> is_bool (jget v ''trial'')) \<and> image_text (js_text (op_str p) (jget v ''image'')) \<and> command_ok p (jget v ''command'')"

definition hourglass_shape :: "js \<Rightarrow> bool" where
  "hourglass_shape v \<longleftrightarrow> exact_fields v [''id'', ''worker_id'', ''model'', ''reason''] \<and>
     (case jget v ''model'' of JStr m \<Rightarrow> trim m \<noteq> [] \<and> length m \<le> 256 | _ \<Rightarrow> False)"

definition proposal_ok :: "op_params \<Rightarrow> operations \<Rightarrow> js \<Rightarrow> bool" where
  "proposal_ok p s v \<longleftrightarrow>
     (if op_hourglass s then hourglass_shape v else serving_shape p v) \<and> lower_uuid (jget v ''id'') \<and>
     (case jget v ''worker_id'' of JStr w \<Rightarrow> worker_id w \<and> w \<in> set (op_workers s) | _ \<Rightarrow> False) \<and>
     (case jget v ''reason'' of JStr r \<Rightarrow> trim r \<noteq> [] \<and> length r \<le> 2000 | _ \<Rightarrow> False)"

definition origin_ok :: "op_params \<Rightarrow> js \<Rightarrow> bool" where
  "origin_ok p v \<longleftrightarrow> v = JNull \<or> v = JUndef \<or> uuid_like p v"

definition propose_operation :: "op_params \<Rightarrow> js \<Rightarrow> js \<Rightarrow> js \<Rightarrow> rat \<Rightarrow> bool \<Rightarrow> write_end \<Rightarrow> operations \<Rightarrow> (op_error + op_row) \<times> operations" where
  "propose_operation p v conversation reply now made w s =
     (let i = js_string (jget v ''id''); digest = op_hash p (op_json p v) in
      if op_closed s then (Inl StoreClosed, s)
      else if \<not> proposal_ok p s v then (Inl InvalidProposal, s)
      else if \<not> origin_ok p conversation \<or> \<not> origin_ok p reply then (Inl InvalidOrigin, s)
      else case folder_of s i of
        Some f \<Rightarrow> (case fd_proposal f of
            Some q \<Rightarrow> (if pl_digest q \<noteq> digest then Inl OtherProposal else row_of s i, s)
          | None \<Rightarrow> (Inl IncompleteDirectory, s))
      | None \<Rightarrow>
          if \<not> made then (Inl WriteFailed, s)
          else let q = \<lparr>pl_input = v, pl_worker = js_string (jget v ''worker_id''), pl_reason = trim (js_string (jget v ''reason'')),
                        pl_digest = digest, pl_conversation = or_else conversation JNull, pl_reply = or_else reply JNull, pl_created = now\<rparr>;
                   (q', ok) = publish w q None;
                   s' = put_files i (new_folder\<lparr>fd_proposal := q'\<rparr>) s
               in if ok then let s'' = s'\<lparr>op_preparing := (i, None) # op_preparing s'\<rparr> in (row_of s'' i, s'')
                  else (Inl WriteFailed, s'))"

section \<open>Preparation\<close>

definition end_preparing :: "string \<Rightarrow> operations \<Rightarrow> operations" where
  "end_preparing i s = s\<lparr>op_preparing := filter (\<lambda>(j, _). j \<noteq> i) (op_preparing s)\<rparr>"

definition preparation_failed :: "rat \<Rightarrow> write_end \<Rightarrow> string \<Rightarrow> operations \<Rightarrow> operations" where
  "preparation_failed now w i s =
     (let f = files_of s i in end_preparing i (put_files i (f\<lparr>fd_failed := fst (publish w now (fd_failed f))\<rparr>) s))"

text \<open>\<open>finishPreparation\<close>: the record revision is read, then the plan is prepared.\<close>

definition preparation_record :: "rat \<Rightarrow> write_end \<Rightarrow> string \<Rightarrow> string option \<Rightarrow> operations \<Rightarrow> operations" where
  "preparation_record now w i r s =
     (if (i, None) \<notin> set (op_preparing s) then s
      else case r of
        Some d \<Rightarrow> if digest_text d then s\<lparr>op_preparing := map (\<lambda>(j, x). if j = i then (j, Some d) else (j, x)) (op_preparing s)\<rparr>
                  else preparation_failed now w i s
      | None \<Rightarrow> preparation_failed now w i s)"

definition preparation_result :: "op_params \<Rightarrow> rat \<Rightarrow> write_end \<Rightarrow> write_end \<Rightarrow> write_end \<Rightarrow> string \<Rightarrow> js option \<Rightarrow> operations \<Rightarrow> operations" where
  "preparation_result p now w1 w2 w3 i result s =
     (case map_of (op_preparing s) i of
        Some (Some d) \<Rightarrow>
          (case result of
             Some v \<Rightarrow>
               if exact_fields v [''plan'', ''review''] \<and> truthy (jget v ''plan'') \<and> truthy (jget v ''review'') then
                 let f = files_of s i; (pl, ok1) = publish w1 (jget v ''plan'') (fd_plan f); f1 = f\<lparr>fd_plan := pl\<rparr> in
                 if \<not> ok1 then preparation_failed now w3 i (put_files i f1 s)
                 else let (pp, ok2) = publish w2 \<lparr>pp_at = now, pp_revision = op_hash p (op_encode p (jget v ''plan'')), pp_record = d,
                                        pp_review = jget v ''review''\<rparr> (fd_prepared f1);
                          s2 = put_files i (f1\<lparr>fd_prepared := pp\<rparr>) s
                      in if ok2 then end_preparing i s2 else preparation_failed now w3 i s2
               else preparation_failed now w3 i s
           | None \<Rightarrow> preparation_failed now w3 i s)
      | _ \<Rightarrow> s)"

section \<open>Approval\<close>

text \<open>The accepted shape of a change: whether it approves, the operation, the plan revision.\<close>

definition change_of :: "js \<Rightarrow> (bool \<times> string \<times> string) option" where
  "change_of v =
     (if exact_fields v [''action'', ''id'', ''plan_revision''] \<and> jget v ''action'' \<in> {JStr ''approve'', JStr ''decline''} \<and>
         lower_uuid (jget v ''id'') \<and> is_str (jget v ''plan_revision'') \<and> digest_text (js_string (jget v ''plan_revision''))
      then Some (jget v ''action'' = JStr ''approve'', js_string (jget v ''id''), js_string (jget v ''plan_revision''))
      else None)"

definition plan_json :: "op_folder \<Rightarrow> js" where
  "plan_json f = (case fd_plan f of Some v \<Rightarrow> v | None \<Rightarrow> JNull)"

definition change_ends :: "operations \<Rightarrow> operations" where
  "change_ends s = s\<lparr>op_phase := NoApproval\<rparr>"

text \<open>\<open>changeSerial\<close> up to its first await; \<open>None\<close> is no answer yet.\<close>

definition change_start :: "op_params \<Rightarrow> rat \<Rightarrow> write_end \<Rightarrow> js \<Rightarrow> operations \<Rightarrow> (op_error + op_row) option \<times> operations" where
  "change_start p now w v s =
     (if op_closed s then (Some (Inl StoreClosed), s)
      else case change_of v of
        None \<Rightarrow> (Some (Inl InvalidChange), s)
      | Some (approve, i, rv) \<Rightarrow>
          (let f = files_of s i in
           case (fd_prepared f, fd_proposal f) of
             (Some d, Some q) \<Rightarrow>
               if pp_revision d \<noteq> rv \<or> op_hash p (op_encode p (plan_json f)) \<noteq> rv then (Some (Inl PlanChanged), s)
               else if fd_declined f \<noteq> None then (Some (if approve then Inl WasDeclined else row_of s i), s)
               else if \<not> approve then
                 (if fd_approved f \<noteq> None \<or> fd_intent f \<noteq> None then (Some (Inl AlreadyApproved), s)
                  else let (x, ok) = publish w (now, rv) (fd_declined f); s' = put_files i (f\<lparr>fd_declined := x\<rparr>) s
                       in (Some (if ok then row_of s' i else Inl WriteFailed), s'))
               else if fd_intent f \<noteq> None then (Some (row_of s i), s)
               else (None, s\<lparr>op_phase := AskingRecord i rv (pp_record d) (pl_worker q)\<rparr>)
           | _ \<Rightarrow> (Some (Inl PlanChanged), s)))"

text \<open>The writes after the last await, and the launch.\<close>

definition change_commit ::
  "rat \<Rightarrow> write_end \<Rightarrow> write_end \<Rightarrow> string \<Rightarrow> string \<Rightarrow> string \<Rightarrow> string \<Rightarrow> operations \<Rightarrow> (op_error + op_row) option \<times> operations" where
  "change_commit now w1 w2 i rv record_revision worker s0 =
     (let s = change_ends s0; f = files_of s i in
      if fd_declined f \<noteq> None then (Some (Inl WasDeclined), s)
      else if fd_intent f \<noteq> None then (Some (row_of s i), s)
      else let (a, ok1) = (if fd_approved f \<noteq> None then (fd_approved f, True) else publish w1 (now, rv, record_revision) (fd_approved f));
               f1 = f\<lparr>fd_approved := a\<rparr>
           in if \<not> ok1 then (Some (Inl WriteFailed), put_files i f1 s)
              else let (x, ok2) = publish w2 (now, rv) (fd_intent f); s2 = put_files i (f1\<lparr>fd_intent := x\<rparr>) s
                   in if \<not> ok2 then (Some (Inl WriteFailed), s2)
                      else let s3 = log_entry (Launched i worker rv) (s2\<lparr>op_launching := i # op_launching s2\<rparr>) in (Some (row_of s3 i), s3))"

text \<open>The loop over the other operations of the worker: one without a launch intent has no runner to observe and refuses.\<close>

definition change_continue ::
  "rat \<Rightarrow> write_end \<Rightarrow> write_end \<Rightarrow> string \<Rightarrow> string \<Rightarrow> string \<Rightarrow> string \<Rightarrow> string list \<Rightarrow> operations \<Rightarrow> (op_error + op_row) option \<times> operations" where
  "change_continue now w1 w2 i rv record_revision worker others s =
     (case others of
        [] \<Rightarrow> change_commit now w1 w2 i rv record_revision worker s
      | j # _ \<Rightarrow> if fd_intent (files_of s j) = None then (Some (Inl WorkerBusy), change_ends s)
                 else (None, s\<lparr>op_phase := Observing i rv record_revision worker others\<rparr>))"

definition other_operations :: "operations \<Rightarrow> string \<Rightarrow> string \<Rightarrow> string list" where
  "other_operations s i worker = map or_id (filter (\<lambda>r. or_id r \<noteq> i \<and> or_worker r = Some worker \<and>
     or_state r \<in> {Submitted, LaunchUncertain, ApprovedUnsubmitted}) (list_operations s))"

definition change_record :: "rat \<Rightarrow> write_end \<Rightarrow> write_end \<Rightarrow> string option \<Rightarrow> operations \<Rightarrow> (op_error + op_row) option \<times> operations" where
  "change_record now w1 w2 r s =
     (case op_phase s of
        AskingRecord i rv record_revision worker \<Rightarrow>
          if r \<noteq> Some record_revision then (Some (Inl RecordChanged), change_ends s)
          else if list_ex (\<lambda>row. or_state row = Unreadable) (list_operations s) then (Some (Inl UnreadableOperation), change_ends s)
          else change_continue now w1 w2 i rv record_revision worker (other_operations s i worker) s
      | _ \<Rightarrow> (None, s))"

definition runner_done :: "string option \<Rightarrow> bool" where
  "runner_done r \<longleftrightarrow> r \<in> {Some ''completed'', Some ''restored'', Some ''failed_unchanged''}"

text \<open>The answer of \<open>observe\<close>: the state of the runner; \<open>None\<close> when it could not be observed.\<close>

definition change_observed :: "rat \<Rightarrow> write_end \<Rightarrow> write_end \<Rightarrow> string option \<Rightarrow> operations \<Rightarrow> (op_error + op_row) option \<times> operations" where
  "change_observed now w1 w2 r s =
     (case op_phase s of
        Observing i rv record_revision worker (j # others) \<Rightarrow>
          if \<not> runner_done r then (Some (Inl WorkerBusy), change_ends s)
          else change_continue now w1 w2 i rv record_revision worker others (log_entry (Ended j) s)
      | _ \<Rightarrow> (None, s))"

definition launch_ended :: "rat \<Rightarrow> write_end \<Rightarrow> write_end \<Rightarrow> string \<Rightarrow> js option \<Rightarrow> operations \<Rightarrow> operations" where
  "launch_ended now w1 w2 i receipt s =
     (if i \<notin> set (op_launching s) then s
      else let f = files_of s i;
               (x, ok) = (case receipt of Some v \<Rightarrow> publish w1 (now, v) (fd_launched f) | None \<Rightarrow> (fd_launched f, False));
               f1 = f\<lparr>fd_launched := x\<rparr>;
               f2 = (if ok then f1 else f1\<lparr>fd_uncertain := fst (publish w2 now (fd_uncertain f1))\<rparr>)
           in (put_files i f2 s)\<lparr>op_launching := removeAll i (op_launching s)\<rparr>)"

text \<open>\<open>resumeApproved\<close>: the rows approved but never submitted are approved again under their own plan revision.\<close>

definition resume_inputs :: "operations \<Rightarrow> js list" where
  "resume_inputs s = map (\<lambda>r. JObj [(''action'', JStr ''approve''), (''id'', JStr (or_id r)),
       (''plan_revision'', case or_plan r of Some (rv, _) \<Rightarrow> JStr rv | None \<Rightarrow> JUndef)])
     (filter (\<lambda>r. or_state r = ApprovedUnsubmitted) (list_operations s))"

section \<open>Runs\<close>

datatype op_event =
    Propose js js js rat bool write_end
  | RecordRead string "string option" rat write_end
  | PlanReady string "js option" rat write_end write_end write_end
  | AskChange js
  | BeginChange rat write_end
  | RecordAnswer "string option" rat write_end write_end
  | RunnerAnswer "string option" rat write_end write_end
  | LaunchEnds string "js option" rat write_end write_end
  | ResumeApproved
  | ResumeNext
  | CloseStore
  | RestartStore

definition begin_change :: "op_params \<Rightarrow> rat \<Rightarrow> write_end \<Rightarrow> operations \<Rightarrow> operations" where
  "begin_change p now w s =
     (if op_phase s \<noteq> NoApproval then s
      else case op_queue s of [] \<Rightarrow> s | v # vs \<Rightarrow> snd (change_start p now w v (s\<lparr>op_queue := vs\<rparr>)))"

fun op_step :: "op_params \<Rightarrow> op_event \<Rightarrow> operations \<Rightarrow> operations" where
  "op_step p (Propose v c r now made w) s = snd (propose_operation p v c r now made w s)"
| "op_step p (RecordRead i r now w) s = preparation_record now w i r s"
| "op_step p (PlanReady i v now w1 w2 w3) s = preparation_result p now w1 w2 w3 i v s"
| "op_step p (AskChange v) s = log_entry (OwnerAsked v) (s\<lparr>op_queue := op_queue s @ [v]\<rparr>)"
| "op_step p (BeginChange now w) s = begin_change p now w s"
| "op_step p (RecordAnswer r now w1 w2) s = snd (change_record now w1 w2 r s)"
| "op_step p (RunnerAnswer r now w1 w2) s = snd (change_observed now w1 w2 r s)"
| "op_step p (LaunchEnds i r now w1 w2) s = launch_ended now w1 w2 i r s"
| "op_step p ResumeApproved s = s\<lparr>op_resume := op_resume s @ resume_inputs s\<rparr>"
| "op_step p ResumeNext s = (case op_resume s of [] \<Rightarrow> s | v # vs \<Rightarrow> s\<lparr>op_resume := vs, op_queue := op_queue s @ [v]\<rparr>)"
| "op_step p CloseStore s = s\<lparr>op_closed := True\<rparr>"
| "op_step p RestartStore s =
     s\<lparr>op_preparing := [], op_launching := [], op_closed := False, op_queue := [], op_phase := NoApproval, op_resume := []\<rparr>"

definition op_run :: "op_params \<Rightarrow> op_event list \<Rightarrow> operations \<Rightarrow> operations" where
  "op_run p es s = fold (op_step p) es s"

end
