(* ===== verification/Operation_Safety.thy ===== *)
theory Operation_Safety
  imports Server_Operations
begin

text \<open>
  What the receipts guarantee about launches: each operation is launched at most once, as the owner approved it, and never while an
  earlier change of the same worker may still run.
\<close>

section \<open>Reading the log\<close>

definition asked :: "op_entry list \<Rightarrow> string \<Rightarrow> string \<Rightarrow> bool" where
  "asked l i r \<longleftrightarrow> list_ex (\<lambda>e. case e of OwnerAsked v \<Rightarrow> change_of v = Some (True, i, r) | _ \<Rightarrow> False) l"

fun launches_of :: "op_entry list \<Rightarrow> (string \<times> string \<times> string) list" where
  "launches_of [] = []"
| "launches_of (Launched i w r # l) = (i, w, r) # launches_of l"
| "launches_of (e # l) = launches_of l"

text \<open>Since its launch the operation was observed to have ended.\<close>

fun ended_since :: "op_entry list \<Rightarrow> string \<Rightarrow> bool" where
  "ended_since [] j = True"
| "ended_since (Ended k # l) j = (k = j \<or> ended_since l j)"
| "ended_since (Launched k w r # l) j = (k \<noteq> j \<and> ended_since l j)"
| "ended_since (OwnerAsked v # l) j = ended_since l j"

definition launch_fits :: "op_entry list \<Rightarrow> string \<Rightarrow> string \<Rightarrow> string \<Rightarrow> bool" where
  "launch_fits l i w r \<longleftrightarrow> asked l i r \<and> list_all (\<lambda>(j, w', _). j \<noteq> i \<and> (w' = w \<longrightarrow> ended_since l j)) (launches_of l)"

fun orderly :: "op_entry list \<Rightarrow> bool" where
  "orderly [] = True"
| "orderly (Launched i w r # l) = (launch_fits l i w r \<and> orderly l)"
| "orderly (e # l) = orderly l"

text \<open>The saved files of a launched operation: an enrolled worker, the plan that was reviewed, and no refusal.\<close>

definition plan_fits :: "op_params \<Rightarrow> op_folder \<Rightarrow> string \<Rightarrow> string \<Rightarrow> bool" where
  "plan_fits p f w r \<longleftrightarrow>
     (case fd_proposal f of Some q \<Rightarrow> pl_worker q = w | None \<Rightarrow> False) \<and> (case fd_prepared f of Some d \<Rightarrow> pp_revision d = r | None \<Rightarrow> False) \<and>
     (case fd_plan f of Some v \<Rightarrow> op_hash p (op_encode p v) = r | None \<Rightarrow> False)"

definition as_reviewed :: "op_params \<Rightarrow> operations \<Rightarrow> string \<times> string \<times> string \<Rightarrow> bool" where
  "as_reviewed p s = (\<lambda>(i, w, r). w \<in> set (op_workers s) \<and> plan_fits p (files_of s i) w r \<and> fd_intent (files_of s i) \<noteq> None \<and>
     fd_declined (files_of s i) = None)"

section \<open>Receipts only grow\<close>

definition kept :: "'a option \<Rightarrow> 'a option \<Rightarrow> bool" where
  "kept x y \<longleftrightarrow> x = None \<or> y = x"

definition grows :: "op_folder \<Rightarrow> op_folder \<Rightarrow> bool" where
  "grows f g \<longleftrightarrow> kept (fd_proposal f) (fd_proposal g) \<and> kept (fd_plan f) (fd_plan g) \<and> kept (fd_prepared f) (fd_prepared g) \<and>
     kept (fd_intent f) (fd_intent g) \<and> (fd_intent f = None \<or> fd_declined g = fd_declined f)"

lemma kept_refl [simp]: "kept x x" "kept None y" by (simp_all add: kept_def)

lemma kept_publish [simp]: "kept x (fst (publish w v x))"
  by (simp add: kept_def publish_def split: option.split)

lemma grows_refl [simp]: "grows f f" by (simp add: grows_def)

lemma plan_fits_grows: "plan_fits p f w r \<Longrightarrow> grows f g \<Longrightarrow> plan_fits p g w r"
  by (auto simp: plan_fits_def grows_def kept_def split: option.splits)

lemma files_put: "files_of (put_files i f s) j = (if j = i then f else files_of s j)"
  by (simp add: files_of_def folder_of_def put_files_def update_conv')

lemma put_files_fields [simp]:
  "op_log (put_files i f s) = op_log s" "op_workers (put_files i f s) = op_workers s" "op_queue (put_files i f s) = op_queue s"
  "op_resume (put_files i f s) = op_resume s" "op_phase (put_files i f s) = op_phase s" "op_preparing (put_files i f s) = op_preparing s"
  "op_launching (put_files i f s) = op_launching s"
  by (simp_all add: put_files_def)

lemma files_same [simp]:
  "files_of (s\<lparr>op_preparing := a\<rparr>) i = files_of s i" "files_of (s\<lparr>op_launching := b\<rparr>) i = files_of s i"
  "files_of (s\<lparr>op_closed := c\<rparr>) i = files_of s i" "files_of (s\<lparr>op_queue := q\<rparr>) i = files_of s i"
  "files_of (s\<lparr>op_resume := q\<rparr>) i = files_of s i" "files_of (s\<lparr>op_phase := ph\<rparr>) i = files_of s i"
  "files_of (s\<lparr>op_log := l\<rparr>) i = files_of s i"
  by (simp_all add: files_of_def folder_of_def)

section \<open>The invariant\<close>

definition approved_ok :: "op_entry list \<Rightarrow> string list \<Rightarrow> string \<Rightarrow> op_folder \<Rightarrow> bool" where
  "approved_ok l ws i f \<longleftrightarrow>
     (case fd_approved f of None \<Rightarrow> True | Some (_, r, _) \<Rightarrow> asked l i r \<and> (case fd_prepared f of Some d \<Rightarrow> pp_revision d = r | None \<Rightarrow> False)) \<and>
     (case fd_proposal f of None \<Rightarrow> True | Some q \<Rightarrow> pl_worker q \<in> set ws) \<and> (fd_prepared f = None \<or> fd_plan f \<noteq> None)"

definition input_ok :: "op_entry list \<Rightarrow> js \<Rightarrow> bool" where
  "input_ok l v \<longleftrightarrow> (case change_of v of Some (True, i, r) \<Rightarrow> asked l i r | _ \<Rightarrow> True)"

definition phase_ok :: "op_params \<Rightarrow> operations \<Rightarrow> bool" where
  "phase_ok p s \<longleftrightarrow>
     (case op_phase s of
        NoApproval \<Rightarrow> True
      | AskingRecord i r rr w \<Rightarrow> asked (op_log s) i r \<and> plan_fits p (files_of s i) w r
      | Observing i r rr w others \<Rightarrow> asked (op_log s) i r \<and> plan_fits p (files_of s i) w r \<and>
          list_all (\<lambda>(j, w', _). w' \<noteq> w \<or> j = i \<or> j \<in> set others \<or> ended_since (op_log s) j) (launches_of (op_log s)))"

definition op_inv :: "op_params \<Rightarrow> operations \<Rightarrow> bool" where
  "op_inv p s \<longleftrightarrow> orderly (op_log s) \<and> list_all (as_reviewed p s) (launches_of (op_log s)) \<and>
     (\<forall>i. approved_ok (op_log s) (op_workers s) i (files_of s i)) \<and> list_all (input_ok (op_log s)) (op_queue s @ op_resume s) \<and> phase_ok p s"

lemma inv_same:
  "op_inv p (s\<lparr>op_preparing := a\<rparr>) = op_inv p s" "op_inv p (s\<lparr>op_launching := b\<rparr>) = op_inv p s" "op_inv p (s\<lparr>op_closed := c\<rparr>) = op_inv p s"
  by (simp_all add: op_inv_def phase_ok_def as_reviewed_def cong: approval.case_cong)

lemma inv_ended [intro]: "op_inv p s \<Longrightarrow> op_inv p (change_ends s)"
  by (simp add: op_inv_def phase_ok_def as_reviewed_def change_ends_def)

lemma reviewed_put:
  assumes "as_reviewed p s x" and "grows (files_of s i) f"
  shows "as_reviewed p (put_files i f s) x"
proof -
  obtain j w r where x: "x = (j, w, r)" by (cases x)
  show ?thesis
  proof (cases "j = i")
    case True
    then show ?thesis using assms plan_fits_grows x by (auto simp: as_reviewed_def files_put grows_def kept_def)
  next
    case False
    then show ?thesis using assms x by (simp add: as_reviewed_def files_put)
  qed
qed

lemma inv_put:
  assumes s: "op_inv p s" and g: "grows (files_of s i) f" and a: "approved_ok (op_log s) (op_workers s) i f"
  shows "op_inv p (put_files i f s)"
proof -
  have "phase_ok p (put_files i f s)"
    using s g plan_fits_grows by (auto simp: op_inv_def phase_ok_def files_put split: approval.splits)
  moreover have "list_all (as_reviewed p (put_files i f s)) (launches_of (op_log s))"
    using s g reviewed_put by (auto simp: op_inv_def list_all_iff)
  ultimately show ?thesis using s a by (simp add: op_inv_def files_put)
qed

lemma approved_kept:
  "approved_ok l ws i f \<Longrightarrow> grows f g \<Longrightarrow> fd_approved g = fd_approved f \<Longrightarrow> fd_proposal g = fd_proposal f \<Longrightarrow>
   fd_prepared g = fd_prepared f \<or> fd_plan g \<noteq> None \<Longrightarrow> approved_ok l ws i g"
  by (auto simp: approved_ok_def grows_def kept_def split: option.splits)

lemma inv_put_other:
  "op_inv p s \<Longrightarrow> grows (files_of s i) f \<Longrightarrow> fd_approved f = fd_approved (files_of s i) \<Longrightarrow> fd_proposal f = fd_proposal (files_of s i) \<Longrightarrow>
   fd_prepared f = fd_prepared (files_of s i) \<or> fd_plan f \<noteq> None \<Longrightarrow> op_inv p (put_files i f s)"
  by (rule inv_put) (auto intro: approved_kept simp: op_inv_def)

section \<open>Proposals, preparation and launch receipts\<close>

lemma inv_failed: "op_inv p s \<Longrightarrow> op_inv p (preparation_failed now w i s)"
  by (simp add: preparation_failed_def Let_def end_preparing_def inv_same) (rule inv_put_other; simp add: grows_def)

lemma inv_record: "op_inv p s \<Longrightarrow> op_inv p (preparation_record now w i r s)"
  by (auto simp: preparation_record_def inv_same inv_failed split: option.split)

lemma inv_result:
  assumes "op_inv p s"
  shows "op_inv p (preparation_result p now w1 w2 w3 i v s)"
proof -
  let ?f = "files_of s i"
  have one: "op_inv p (put_files i (?f\<lparr>fd_plan := a\<rparr>) s)" if "publish w1 x (fd_plan ?f) = (a, b)" for x a b
  proof (rule inv_put_other [OF assms])
    show "grows ?f (?f\<lparr>fd_plan := a\<rparr>)" using that kept_publish [of "fd_plan ?f" w1 x] by (simp add: grows_def)
  qed simp_all
  have two: "op_inv p (put_files i (?f\<lparr>fd_plan := a, fd_prepared := c\<rparr>) s)"
    if "publish w1 x (fd_plan ?f) = (a, True)" "publish w2 y (fd_prepared ?f) = (c, d)" for x y a c d
  proof (rule inv_put_other [OF assms])
    show "grows ?f (?f\<lparr>fd_plan := a, fd_prepared := c\<rparr>)"
      using that kept_publish [of "fd_plan ?f" w1 x] kept_publish [of "fd_prepared ?f" w2 y] by (simp add: grows_def)
    have "a \<noteq> None" using that(1) by (auto simp: publish_def split: option.splits write_end.splits)
    then show "fd_prepared (?f\<lparr>fd_plan := a, fd_prepared := c\<rparr>) = fd_prepared ?f \<or> fd_plan (?f\<lparr>fd_plan := a, fd_prepared := c\<rparr>) \<noteq> None"
      by simp
  qed simp_all
  show ?thesis
  proof (cases "\<exists>d v'. map_of (op_preparing s) i = Some (Some d) \<and> v = Some v'")
    case True
    then obtain d v' where "map_of (op_preparing s) i = Some (Some d)" "v = Some v'" by blast
    then show ?thesis
      using one two by (simp add: preparation_result_def Let_def inv_failed [OF assms] end_preparing_def inv_same split: prod.split)
        (blast intro: inv_failed)
  next
    case False
    then show ?thesis using assms by (auto simp: preparation_result_def inv_failed split: option.split)
  qed
qed

lemma inv_launch_end: "op_inv p s \<Longrightarrow> op_inv p (launch_ended now w1 w2 i r s)"
  unfolding launch_ended_def Let_def
  by (auto simp: inv_same split: prod.split option.split intro!: inv_put_other) (simp_all add: grows_def)

lemma inv_propose:
  assumes "op_inv p s"
  shows "op_inv p (snd (propose_operation p v c r now made w s))"
proof -
  let ?i = "js_string (jget v ''id'')"
  have w: "proposal_ok p s v \<Longrightarrow> js_string (jget v ''worker_id'') \<in> set (op_workers s)"
    by (auto simp: proposal_ok_def split: js.splits)
  have new: "op_inv p (put_files ?i (new_folder\<lparr>fd_proposal := x\<rparr>) s)"
    if "folder_of s ?i = None" "pl_worker q \<in> set (op_workers s)" "publish w q None = (x, ok)" for q x ok
  proof (rule inv_put [OF assms])
    show "grows (files_of s ?i) (new_folder\<lparr>fd_proposal := x\<rparr>)"
      using that by (simp add: files_of_def grows_def new_folder_def kept_def)
    show "approved_ok (op_log s) (op_workers s) ?i (new_folder\<lparr>fd_proposal := x\<rparr>)"
      using that by (auto simp: approved_ok_def new_folder_def publish_def split: write_end.splits)
  qed
  show ?thesis
  proof (cases "\<not> op_closed s \<and> proposal_ok p s v \<and> folder_of s ?i = None")
    case True
    then show ?thesis using assms w by (auto simp: propose_operation_def Let_def inv_same split: prod.split intro: new [rotated 2])
  next
    case False
    then show ?thesis using assms by (auto simp: propose_operation_def Let_def split: option.split)
  qed
qed

section \<open>Approvals\<close>

lemma inv_decline:
  assumes "op_inv p s" and "fd_intent (files_of s i) = None" and "fd_approved (files_of s i) = None"
  shows "op_inv p (put_files i ((files_of s i)\<lparr>fd_declined := x\<rparr>) s)"
  using assms by (intro inv_put_other) (simp_all add: grows_def)

lemma plan_fitsI:
  "approved_ok l ws i f \<Longrightarrow> fd_prepared f = Some d \<Longrightarrow> fd_proposal f = Some q \<Longrightarrow> pp_revision d = r \<Longrightarrow>
   op_hash p (op_encode p (plan_json f)) = r \<Longrightarrow> plan_fits p f (pl_worker q) r"
  by (auto simp: plan_fits_def plan_json_def approved_ok_def split: option.splits)

lemma asked_cons: "asked l i r \<Longrightarrow> asked (e # l) i r"
  by (simp add: asked_def)

lemma approved_cons: "approved_ok l ws i f \<Longrightarrow> approved_ok (e # l) ws i f"
  by (auto simp: approved_ok_def asked_cons split: option.splits)

lemma input_cons: "input_ok l v \<Longrightarrow> input_ok (e # l) v"
  by (auto simp: input_ok_def asked_cons split: option.splits bool.splits)

lemma reviewed_log: "as_reviewed p (log_entry e s) = as_reviewed p s"
  by (simp add: as_reviewed_def log_entry_def fun_eq_iff)

text \<open>A new entry of the log, once its own contribution and the phase are right.\<close>

lemma inv_log:
  assumes "op_inv p s" and "orderly (e # op_log s)" and "list_all (as_reviewed p s) (launches_of (e # op_log s))"
    and "phase_ok p (log_entry e s)"
  shows "op_inv p (log_entry e s)"
  using assms by (simp add: op_inv_def reviewed_log) (auto simp: log_entry_def approved_cons input_cons list_all_iff)

lemma inv_log_plain:
  "op_inv p s \<Longrightarrow> op_phase s = NoApproval \<Longrightarrow> (\<And>i w r. e \<noteq> Launched i w r) \<Longrightarrow> op_inv p (log_entry e s)"
  by (rule inv_log) (auto simp: op_inv_def phase_ok_def log_entry_def dest: meta_spec; cases e; simp)+

lemma inv_start:
  assumes s: "op_inv p s" and v: "input_ok (op_log s) v" and "op_phase s = NoApproval"
  shows "op_inv p (snd (change_start p now w v s))"
proof (cases "change_of v")
  case None
  then show ?thesis using s by (simp add: change_start_def)
next
  case (Some c)
  obtain approve i r where c: "c = (approve, i, r)" by (cases c)
  let ?f = "files_of s i"
  have ok: "approved_ok (op_log s) (op_workers s) i ?f" using s by (simp add: op_inv_def)
  show ?thesis
  proof (cases "fd_prepared ?f \<noteq> None \<and> fd_proposal ?f \<noteq> None")
    case False
    then show ?thesis using s Some c by (auto simp: change_start_def Let_def split: option.split)
  next
    case True
    then obtain d q where dq: "fd_prepared ?f = Some d" "fd_proposal ?f = Some q" by auto
    have "op_inv p (s\<lparr>op_phase := AskingRecord i r (pp_record d) (pl_worker q)\<rparr>)"
      if "approve" "pp_revision d = r" "op_hash p (op_encode p (plan_json ?f)) = r"
      using s v Some c that plan_fitsI [OF ok dq] by (simp add: op_inv_def phase_ok_def as_reviewed_def input_ok_def)
    then show ?thesis
      using s Some c dq inv_decline
      by (cases approve; cases "fd_approved ?f"; cases "fd_intent ?f") (auto simp: change_start_def Let_def split: prod.split)
  qed
qed

definition others_ended :: "op_entry list \<Rightarrow> string \<Rightarrow> string \<Rightarrow> string list \<Rightarrow> bool" where
  "others_ended l i w others \<longleftrightarrow> list_all (\<lambda>(j, w', _). w' \<noteq> w \<or> j = i \<or> j \<in> set others \<or> ended_since l j) (launches_of l)"

lemma inv_commit:
  assumes s: "op_inv p (change_ends s)" and a: "asked (op_log s) i r" and f: "plan_fits p (files_of s i) w r"
    and o: "others_ended (op_log s) i w []"
  shows "op_inv p (snd (change_commit now w1 w2 i r rr w s))"
proof -
  let ?s = "change_ends s" and ?f = "files_of s i"
  have same: "files_of ?s i = ?f" "op_log ?s = op_log s" "op_phase ?s = NoApproval" by (simp_all add: change_ends_def)
  have ok: "approved_ok (op_log s) (op_workers ?s) i ?f" using s same by (metis op_inv_def)
  have one: "op_inv p (put_files i (?f\<lparr>fd_approved := x\<rparr>) ?s)" if "fst (publish w1 (now, r, rr) None) = x" "fd_approved ?f = None" for x
  proof (rule inv_put [OF s])
    show "approved_ok (op_log ?s) (op_workers ?s) i (?f\<lparr>fd_approved := x\<rparr>)"
      using that ok a f same by (auto simp: approved_ok_def publish_def plan_fits_def split: write_end.splits option.splits)
  qed (simp add: grows_def same)
  have two: "op_inv p (put_files i (?f\<lparr>fd_approved := x, fd_intent := y\<rparr>) ?s)"
    if "fd_intent ?f = None" "fd_approved ?f = None \<and> fst (publish w1 (now, r, rr) None) = x \<or> fd_approved ?f = x" for x y
  proof (rule inv_put [OF s])
    show "approved_ok (op_log ?s) (op_workers ?s) i (?f\<lparr>fd_approved := x, fd_intent := y\<rparr>)"
      using that ok a f same by (auto simp: approved_ok_def publish_def plan_fits_def split: write_end.splits option.splits)
  qed (simp add: grows_def same that)
  have three: "op_inv p (log_entry (Launched i w r) (t\<lparr>op_launching := ls\<rparr>))"
    if "t = put_files i (?f\<lparr>fd_approved := x, fd_intent := Some y\<rparr>) ?s" "op_inv p t" "fd_intent ?f = None" "fd_declined ?f = None" for t x y ls
  proof (rule inv_log)
    let ?t = "t\<lparr>op_launching := ls\<rparr>"
    show t: "op_inv p ?t" using that by (simp add: inv_same)
    have l: "op_log ?t = op_log s" using that same by simp
    have w: "as_reviewed p ?s (j, w', r') \<Longrightarrow> j \<noteq> i" for j w' r' using that same by (auto simp: as_reviewed_def)
    have "list_all (as_reviewed p ?s) (launches_of (op_log s))" using s same by (simp add: op_inv_def)
    then have "launch_fits (op_log s) i w r"
      using a o w by (fastforce simp: launch_fits_def others_ended_def list_all_iff)
    then show "orderly (Launched i w r # op_log ?t)" using t l by (simp add: op_inv_def)
    have "w \<in> set (op_workers ?s)" using f ok by (auto simp: plan_fits_def approved_ok_def split: option.splits)
    then have "as_reviewed p ?t (i, w, r)"
      using that f by (simp add: as_reviewed_def files_put plan_fits_def)
    then show "list_all (as_reviewed p ?t) (launches_of (Launched i w r # op_log ?t))"
      using t l by (simp add: op_inv_def)
    show "phase_ok p (log_entry (Launched i w r) ?t)" using that same by (simp add: phase_ok_def log_entry_def)
  qed
  show ?thesis
  proof (cases "fd_declined ?f = None \<and> fd_intent ?f = None")
    case False
    then show ?thesis using s by (auto simp: change_commit_def Let_def same)
  next
    case True
    then have none: "fd_declined ?f = None" "fd_intent ?f = None" by simp_all
    show ?thesis
      by (cases "fd_approved ?f"; cases w1; cases w2)
        (simp_all add: change_commit_def Let_def same none publish_def one two three [OF refl])
  qed
qed

lemma inv_continue:
  assumes s: "op_inv p (change_ends s)" and a: "asked (op_log s) i r" and f: "plan_fits p (files_of s i) w r"
    and o: "others_ended (op_log s) i w others"
  shows "op_inv p (snd (change_continue now w1 w2 i r rr w others s))"
proof (cases others)
  case Nil
  then show ?thesis using assms inv_commit by (simp add: change_continue_def)
next
  case (Cons j js)
  have "op_inv p (s\<lparr>op_phase := Observing i r rr w others\<rparr>)"
    using assms by (simp add: op_inv_def phase_ok_def as_reviewed_def change_ends_def others_ended_def)
  then show ?thesis using s Cons by (simp add: change_continue_def)
qed

text \<open>A launched operation of the worker is listed among the ones to observe.\<close>

lemma launched_listed:
  assumes "as_reviewed p s (j, w, r)" and "j \<noteq> i"
  shows "j \<in> set (other_operations s i w)"
proof -
  let ?f = "files_of s j"
  obtain q where q: "fd_proposal ?f = Some q" "pl_worker q = w"
    using assms by (auto simp: as_reviewed_def plan_fits_def split: option.splits)
  then have "folder_of s j = Some ?f" by (auto simp: files_of_def new_folder_def split: option.splits)
  then have mem: "(j, ?f) \<in> set (op_folders s)" by (simp add: folder_of_def map_of_SomeD)
  obtain x where x: "row_of s j = Inr x" "or_id x = j" "or_worker x = Some w"
      "or_state x = state_of (j \<in> fst ` set (op_preparing s)) ?f"
    using q by (simp add: row_of_def Let_def)
  have "x \<in> set (list_operations s)" using mem x by (force simp: list_operations_def)
  moreover have "or_state x \<in> {Submitted, LaunchUncertain}" using x assms by (simp add: state_of_def as_reviewed_def)
  ultimately show ?thesis using x assms by (force simp: other_operations_def)
qed

lemma inv_answer:
  assumes "op_inv p s"
  shows "op_inv p (snd (change_record now w1 w2 r s))"
proof (cases "op_phase s")
  case (AskingRecord i rv rr w)
  have "list_all (as_reviewed p s) (launches_of (op_log s))" using assms by (simp add: op_inv_def)
  then have o: "others_ended (op_log s) i w (other_operations s i w)"
    using launched_listed by (fastforce simp: others_ended_def list_all_iff)
  have "asked (op_log s) i rv \<and> plan_fits p (files_of s i) w rv" using assms AskingRecord by (simp add: op_inv_def phase_ok_def)
  then have "op_inv p (snd (change_continue now w1 w2 i rv rr w (other_operations s i w) s))"
    using inv_continue [OF inv_ended [OF assms]] o by blast
  then show ?thesis using assms AskingRecord by (auto simp: change_record_def)
qed (simp_all add: change_record_def assms)

lemma inv_runner:
  assumes "op_inv p s"
  shows "op_inv p (snd (change_observed now w1 w2 r s))"
proof (cases "\<exists>i rv rr w j others. op_phase s = Observing i rv rr w (j # others)")
  case True
  then obtain i rv rr w j others where ph: "op_phase s = Observing i rv rr w (j # others)" by blast
  let ?s = "log_entry (Ended j) s"
  have a: "asked (op_log s) i rv" "plan_fits p (files_of s i) w rv" "others_ended (op_log s) i w (j # others)"
    using assms ph by (auto simp: op_inv_def phase_ok_def others_ended_def)
  then have o: "others_ended (op_log ?s) i w others"
    by (auto simp: others_ended_def log_entry_def list_all_iff)
  have "op_inv p (log_entry (Ended j) (change_ends s))"
    using assms by (intro inv_log_plain inv_ended) (simp_all add: change_ends_def)
  moreover have "change_ends ?s = log_entry (Ended j) (change_ends s)" by (cases s) (simp add: log_entry_def change_ends_def)
  ultimately have "op_inv p (change_ends ?s)" by simp
  then have "op_inv p (snd (change_continue now w1 w2 i rv rr w others ?s))"
    by (rule inv_continue) (use a o in \<open>simp_all add: log_entry_def asked_cons\<close>)
  then show ?thesis using assms ph by (auto simp: change_observed_def)
next
  case False
  then show ?thesis using assms by (auto simp: change_observed_def split: approval.split list.split)
qed

section \<open>Every run\<close>

lemma resume_asked:
  assumes "op_inv p s" and "v \<in> set (resume_inputs s)"
  shows "input_ok (op_log s) v"
proof -
  obtain x where x: "x \<in> set (list_operations s)" "or_state x = ApprovedUnsubmitted"
      "v = JObj [(''action'', JStr ''approve''), (''id'', JStr (or_id x)),
        (''plan_revision'', case or_plan x of Some (rv, _) \<Rightarrow> JStr rv | None \<Rightarrow> JUndef)]"
    using assms by (auto simp: resume_inputs_def)
  then obtain i where i: "row_of s i = Inr x" by (auto simp: list_operations_def unreadable_row_def split: sum.splits)
  let ?f = "files_of s i"
  have "or_id x = i" "or_state x = state_of (i \<in> fst ` set (op_preparing s)) ?f"
      "or_plan x = map_option (\<lambda>d. (pp_revision d, pp_review d, pp_record d)) (fd_prepared ?f)"
    using i by (auto simp: row_of_def Let_def split: option.splits)
  moreover have "approved_ok (op_log s) (op_workers s) i ?f" using assms by (simp add: op_inv_def)
  ultimately show ?thesis
    using x by (auto simp: input_ok_def change_of_def approved_ok_def state_of_def split: if_splits option.splits bool.splits)
qed

lemma inv_begin:
  assumes "op_inv p s"
  shows "op_inv p (begin_change p now w s)"
proof (cases "op_phase s = NoApproval \<and> op_queue s \<noteq> []")
  case True
  then obtain v vs where q: "op_queue s = v # vs" by (cases "op_queue s") auto
  have "op_inv p (s\<lparr>op_queue := vs\<rparr>)"
    using assms q True by (simp add: op_inv_def phase_ok_def as_reviewed_def)
  moreover have "input_ok (op_log s) v" using assms q by (simp add: op_inv_def)
  ultimately show ?thesis using inv_start True q by (simp add: begin_change_def)
qed (use assms in \<open>auto simp: begin_change_def split: list.split\<close>)

lemma inv_ask: "op_inv p s \<Longrightarrow> op_inv p (op_step p (AskChange v) s)"
  by (cases "op_phase s")
    (auto simp: op_inv_def log_entry_def phase_ok_def as_reviewed_def approved_cons input_cons asked_cons list_all_iff,
     auto simp: input_ok_def asked_def split: option.splits bool.splits)

lemma inv_queues:
  assumes "op_inv p s" and "list_all (input_ok (op_log s)) (qs @ rs)"
  shows "op_inv p (s\<lparr>op_queue := qs, op_resume := rs\<rparr>)"
  using assms by (simp add: op_inv_def phase_ok_def as_reviewed_def cong: approval.case_cong)

lemma inv_step: "op_inv p s \<Longrightarrow> op_inv p (op_step p e s)"
proof (cases e)
  case ResumeApproved
  assume s: "op_inv p s"
  then have "list_all (input_ok (op_log s)) (op_queue s @ op_resume s @ resume_inputs s)"
    using resume_asked [OF s] by (auto simp: op_inv_def list_all_iff)
  then have "op_inv p (s\<lparr>op_queue := op_queue s, op_resume := op_resume s @ resume_inputs s\<rparr>)" using inv_queues [OF s] by blast
  then show ?thesis using ResumeApproved by simp
next
  case ResumeNext
  assume s: "op_inv p s"
  show ?thesis
  proof (cases "op_resume s")
    case (Cons v vs)
    have eq: "op_step p e s = s\<lparr>op_queue := op_queue s @ [v], op_resume := vs\<rparr>" using ResumeNext Cons by (cases s) simp
    have "list_all (input_ok (op_log s)) ((op_queue s @ [v]) @ vs)" using s Cons by (simp add: op_inv_def)
    then show ?thesis unfolding eq by (rule inv_queues [OF s])
  qed (use s ResumeNext in simp)
next
  case RestartStore
  assume "op_inv p s"
  then show ?thesis using RestartStore by (simp add: op_inv_def phase_ok_def as_reviewed_def files_of_def folder_of_def)
next
  case (AskChange v)
  assume "op_inv p s"
  then show ?thesis unfolding AskChange by (rule inv_ask)
qed (simp_all add: inv_propose inv_record inv_result inv_begin inv_answer inv_runner inv_launch_end inv_same)

lemma inv_new: "op_inv p (new_operations hourglass workers)"
  by (simp add: op_inv_def new_operations_def phase_ok_def approved_ok_def files_of_def folder_of_def new_folder_def)

lemma inv_run: "op_inv p (op_run p es (new_operations hourglass workers))"
proof -
  have "op_inv p s \<Longrightarrow> op_inv p (op_run p es s)" for s
    by (induction es arbitrary: s) (simp_all add: op_run_def inv_step)
  then show ?thesis using inv_new by blast
qed

text \<open>C24: Server operations are launched once, as approved, and one at a time. After any proposals, preparations, approvals, refusals,
  observations, launch ends, failed or half-failed writes, closings and restarts, in any order: each operation was launched at most
  once, after the owner had asked to approve exactly its plan revision, and while every earlier launch on the same worker had since been
  observed to have ended. Its saved files name an enrolled worker and the plan with that digest, and it was never declined.\<close>

theorem operations_launch_once_in_turn:
  "orderly (op_log (op_run p es (new_operations hourglass workers))) \<and>
   list_all (as_reviewed p (op_run p es (new_operations hourglass workers)))
     (launches_of (op_log (op_run p es (new_operations hourglass workers))))"
  using inv_run [of p es hourglass workers] by (simp add: op_inv_def)

text \<open>A run in which two changes of one worker follow each other.\<close>

definition demo_params :: op_params where
  "demo_params = \<lparr>op_str = (\<lambda>_. []), op_json = (\<lambda>_. []), op_encode = (\<lambda>_. []), op_bytes = size, op_hash = (\<lambda>_. replicate 64 (CHR ''a''))\<rparr>"

definition demo_proposal :: "string \<Rightarrow> js" where
  "demo_proposal i = JObj [(''id'', JStr i), (''worker_id'', JStr ''w1''), (''model'', JStr ''m''), (''reason'', JStr ''faster'')]"

definition demo_approval :: "string \<Rightarrow> js" where
  "demo_approval i = JObj [(''action'', JStr ''approve''), (''id'', JStr i), (''plan_revision'', JStr (replicate 64 (CHR ''a'')))]"

definition demo_prepared :: "string \<Rightarrow> op_event list" where
  "demo_prepared i = [Propose (demo_proposal i) JNull JNull 1 True Published, RecordRead i (Some (replicate 64 (CHR ''b''))) 2 Published,
     PlanReady i (Some (JObj [(''plan'', JStr ''p''), (''review'', JStr ''r'')])) 3 Published Published Published, AskChange (demo_approval i)]"

lemma two_changes_in_turn:
  "map (\<lambda>(i, _). hd i) (launches_of (op_log (op_run demo_params
     (demo_prepared ''11111111-1111-1111-1111-111111111111'' @ demo_prepared ''21111111-1111-1111-1111-111111111111'' @
      [BeginChange 4 Published, RecordAnswer (Some (replicate 64 (CHR ''b''))) 5 Published Published,
       BeginChange 6 Published, RecordAnswer (Some (replicate 64 (CHR ''b''))) 7 Published Published,
       RunnerAnswer (Some ''completed'') 8 Published Published]) (new_operations True [''w1''])))) = [CHR ''2'', CHR ''1'']"
  by code_simp

end
