(* ===== verification/Routing_Shadow.thy ===== *)
theory Routing_Shadow
  imports Engine_Timing "HOL-Library.AList"
begin

text \<open>
  The passive routing baseline, \<open>ds4-gateway/routing-shadow.mjs\<close>: bounded samples of finished requests, the remaining time of a
  running one, and the comparison of a home queue with an idle worker. Times are exact numbers, tokens naturals; a \<open>Map\<close> is an
  association list in insertion order.
\<close>

section \<open>Statistics\<close>

definition middle :: "rat list \<Rightarrow> rat option" where
  "middle xs =
     (if xs = [] then None
      else let s = sort xs; m = length s div 2 in Some (if odd (length s) then s ! m else (s ! (m - 1) + s ! m) / 2))"

definition shadow_bucket :: "nat option \<Rightarrow> nat option" where
  "shadow_bucket t = (case t of Some n \<Rightarrow> if n > 0 then Some (bucket_of n) else None | None \<Rightarrow> None)"

definition shadow_routes :: "string list" where
  "shadow_routes = [''/v1/chat/completions'', ''/v1/completions'', ''/v1/responses'', ''/v1/messages'']"

definition conditional_remaining :: "rat list \<Rightarrow> rat option \<Rightarrow> nat \<Rightarrow> rat option" where
  "conditional_remaining durations elapsed minimum =
     (case elapsed of
        None \<Rightarrow> None
      | Some e \<Rightarrow> if e < 0 then None
          else let survivors = filter (\<lambda>x. x \<ge> 0 \<and> x > e) durations in
            if length survivors \<ge> minimum then middle (map (\<lambda>x. x - e) survivors) else None)"

section \<open>Evidence\<close>

record shadow_sample =
  sm_at :: rat
  sm_route :: string
  sm_bucket :: nat
  sm_ms :: rat

record shadow_worker =
  wk_sequence :: nat
  wk_idle :: "rat option"
  wk_samples :: "shadow_sample list"
  wk_epoch :: nat

record shadow_session =
  se_node :: string
  se_started :: rat
  se_sequence :: nat
  se_finished :: "rat option"
  se_prompt :: "nat option"
  se_cached :: "nat option"

datatype shadow_verdict = InsufficientEvidence | HandoverBlocked | NoIdleAlternative | WouldMove | WouldStay

record shadow =
  sh_enabled :: bool
  sh_max_sessions :: nat
  sh_max_samples :: nat
  sh_max_workers :: nat
  sh_ttl :: rat
  sh_workers :: "(string \<times> shadow_worker) list"
  sh_sessions :: "(string \<times> shadow_session) list"
  sh_evaluations :: nat
  sh_would_move :: nat
  sh_insufficient :: nat
  sh_last :: "(string \<times> shadow_verdict \<times> string \<times> string option \<times> rat option) option"

definition new_shadow :: "bool \<Rightarrow> shadow" where
  "new_shadow enabled =
     \<lparr>sh_enabled = enabled, sh_max_sessions = 4096, sh_max_samples = 128, sh_max_workers = 128, sh_ttl = 3600000, sh_workers = [],
      sh_sessions = [], sh_evaluations = 0, sh_would_move = 0, sh_insufficient = 0, sh_last = None\<rparr>"

definition fresh_shadow_worker :: "nat \<Rightarrow> shadow_worker" where
  "fresh_shadow_worker epoch = \<lparr>wk_sequence = 0, wk_idle = None, wk_samples = [], wk_epoch = epoch\<rparr>"

text \<open>\<open>worker\<close>: adds a worker while there is room.\<close>

definition shadow_worker_of :: "string \<Rightarrow> shadow \<Rightarrow> (shadow_worker \<times> shadow) option" where
  "shadow_worker_of node s =
     (case map_of (sh_workers s) node of
        Some w \<Rightarrow> Some (w, s)
      | None \<Rightarrow> if length (sh_workers s) \<ge> sh_max_workers s then None
                else Some (fresh_shadow_worker 0, s\<lparr>sh_workers := sh_workers s @ [(node, fresh_shadow_worker 0)]\<rparr>))"

definition put_worker :: "string \<Rightarrow> shadow_worker \<Rightarrow> shadow \<Rightarrow> shadow" where
  "put_worker node w s = s\<lparr>sh_workers := AList.update node w (sh_workers s)\<rparr>"

definition shadow_reset :: "string \<Rightarrow> shadow \<Rightarrow> shadow" where
  "shadow_reset node s =
     (case map_of (sh_workers s) node of
        None \<Rightarrow> s
      | Some w \<Rightarrow> (put_worker node (fresh_shadow_worker (wk_epoch w + 1)) s)\<lparr>sh_sessions := filter (\<lambda>(_, x). se_node x \<noteq> node) (sh_sessions s)\<rparr>)"

definition shadow_remove :: "string \<Rightarrow> shadow \<Rightarrow> shadow" where
  "shadow_remove node s = (let s' = shadow_reset node s in s'\<lparr>sh_workers := AList.delete node (sh_workers s')\<rparr>)"

definition session_key :: "string \<Rightarrow> string \<Rightarrow> string" where
  "session_key node session = node @ '':'' @ session"

text \<open>An absent or empty session key has no entry.\<close>

definition shadow_entry :: "string \<Rightarrow> string \<Rightarrow> shadow \<Rightarrow> shadow_session option" where
  "shadow_entry node session s = (if session = [] then None else map_of (sh_sessions s) (session_key node session))"

definition shadow_started :: "rat \<Rightarrow> string \<Rightarrow> string \<Rightarrow> shadow \<Rightarrow> shadow" where
  "shadow_started now node session s =
     (if \<not> sh_enabled s then s
      else case shadow_worker_of node s of
        None \<Rightarrow> s
      | Some (w, s0) \<Rightarrow>
          (let w' = w\<lparr>wk_sequence := wk_sequence w + 1, wk_idle := None\<rparr>; s1 = put_worker node w' s0 in
           if session = [] then s1
           else let key = session_key node session;
                    entry = (case map_of (sh_sessions s1) key of
                        Some x \<Rightarrow> x\<lparr>se_node := node, se_started := now, se_sequence := wk_sequence w'\<rparr>
                      | None \<Rightarrow> \<lparr>se_node = node, se_started = now, se_sequence = wk_sequence w', se_finished = None, se_prompt = None, se_cached = None\<rparr>);
                    rows = AList.delete key (sh_sessions s1) @ [(key, entry)]
                in s1\<lparr>sh_sessions := (if length rows > sh_max_sessions s1 then tl rows else rows)\<rparr>))"

record shadow_end =
  en_complete :: bool
  en_reason :: string
  en_ms :: "rat option"
  en_prompt :: "nat option"
  en_cached :: "nat option"
  en_route :: string
  en_genie :: bool
  en_active :: nat

definition valid_end :: "shadow_end \<Rightarrow> bool" where
  "valid_end e \<longleftrightarrow> en_complete e \<and> en_reason e \<in> {''stop'', ''tool_calls'', ''function_call''} \<and>
     (case en_ms e of Some m \<Rightarrow> m > 0 | None \<Rightarrow> False) \<and> en_route e \<in> set shadow_routes \<and> \<not> en_genie e"

definition sample_rows :: "shadow \<Rightarrow> rat \<Rightarrow> shadow_end \<Rightarrow> shadow_sample list \<Rightarrow> shadow_sample list" where
  "sample_rows s now e xs =
     (case (shadow_bucket (en_prompt e), en_ms e) of
        (Some b, Some m) \<Rightarrow> last_items (sh_max_samples s) (filter (\<lambda>x. now - sm_at x \<le> sh_ttl s)
            (xs @ [\<lparr>sm_at = now, sm_route = en_route e, sm_bucket = b, sm_ms = m\<rparr>]))
      | _ \<Rightarrow> xs)"

definition shadow_finished :: "rat \<Rightarrow> string \<Rightarrow> string \<Rightarrow> shadow_end \<Rightarrow> shadow \<Rightarrow> shadow" where
  "shadow_finished now node session e s =
     (if \<not> sh_enabled s then s
      else case shadow_worker_of node s of
        None \<Rightarrow> s
      | Some (w, s0) \<Rightarrow>
          (let w1 = w\<lparr>wk_idle := (if en_active e > 0 then None else Some now)\<rparr>;
               s1 = (case shadow_entry node session s0 of
                   Some x \<Rightarrow> if valid_end e then s0\<lparr>sh_sessions := AList.update (session_key node session)
                        (x\<lparr>se_finished := Some now, se_prompt := en_prompt e, se_cached := en_cached e\<rparr>) (sh_sessions s0)\<rparr> else s0
                 | None \<Rightarrow> s0);
               w2 = (if valid_end e then w1\<lparr>wk_samples := sample_rows s now e (wk_samples w1)\<rparr> else w1)
           in put_worker node w2 s1))"

section \<open>What a request is told\<close>

record shadow_timing =
  ti_worker_idle :: "rat option"
  ti_elapsed :: "rat option"
  ti_byte_age :: "rat option"
  ti_last_used :: "rat option"
  ti_last_finished :: "rat option"
  ti_intervening :: "nat option"
  ti_prompt :: "nat option"
  ti_cached :: "nat option"
  ti_epoch :: nat

definition age :: "rat \<Rightarrow> rat option \<Rightarrow> rat option" where
  "age now t = (case t of Some x \<Rightarrow> if x \<ge> 0 then Some (max 0 (now - x)) else None | None \<Rightarrow> None)"

text \<open>\<open>timing\<close>; \<open>active\<close> holds the dispatch time and the time of the last byte of the running request.\<close>

definition shadow_timing_of :: "rat \<Rightarrow> string \<Rightarrow> string \<Rightarrow> (rat option \<times> rat option) option \<Rightarrow> shadow \<Rightarrow> shadow_timing" where
  "shadow_timing_of now node session active s =
     (let w = map_of (sh_workers s) node; x = shadow_entry node session s in
      \<lparr>ti_worker_idle = (if active = None then age now (Option.bind w wk_idle) else None),
       ti_elapsed = age now (Option.bind active fst), ti_byte_age = age now (Option.bind active snd),
       ti_last_used = age now (map_option se_started x), ti_last_finished = age now (Option.bind x se_finished),
       ti_intervening = (case (x, w) of (Some x, Some w) \<Rightarrow> Some (wk_sequence w - se_sequence x) | _ \<Rightarrow> None),
       ti_prompt = Option.bind x se_prompt, ti_cached = Option.bind x se_cached,
       ti_epoch = (case w of Some w \<Rightarrow> wk_epoch w | None \<Rightarrow> 0)\<rparr>)"

record shadow_job =
  sj_key :: string
  sj_route :: string
  sj_genie :: bool

definition finished_at :: "shadow_session \<Rightarrow> rat option" where
  "finished_at x = (case se_finished x of Some t \<Rightarrow> if t \<ge> 0 then Some t else None | None \<Rightarrow> None)"

definition later_entry :: "shadow_session option \<Rightarrow> shadow_session option \<Rightarrow> shadow_session option" where
  "later_entry result v =
     (case Option.bind v finished_at of
        None \<Rightarrow> result
      | Some t \<Rightarrow> (case Option.bind result finished_at of Some u \<Rightarrow> if t > u then v else result | None \<Rightarrow> v))"

definition shadow_prior :: "string \<Rightarrow> shadow \<Rightarrow> shadow_session option" where
  "shadow_prior session s =
     (if session = [] then None else fold (\<lambda>(node, _) result. later_entry result (shadow_entry node session s)) (sh_workers s) None)"

definition shadow_durations :: "rat \<Rightarrow> string \<Rightarrow> shadow_job \<Rightarrow> shadow \<Rightarrow> rat list" where
  "shadow_durations now node j s =
     (case map_of (sh_workers s) node of
        None \<Rightarrow> []
      | Some w \<Rightarrow>
          if length (wk_samples w) < 5 then []
          else case shadow_prior (sj_key j) s of
            None \<Rightarrow> []
          | Some x \<Rightarrow> (case (shadow_bucket (se_prompt x), se_finished x) of
              (Some b, Some t) \<Rightarrow> if now - t > sh_ttl s \<or> sj_genie j then []
                else map sm_ms (filter (\<lambda>y. sm_route y = sj_route j \<and> sm_bucket y = b \<and> now - sm_at y \<le> sh_ttl s) (wk_samples w))
            | _ \<Rightarrow> []))"

definition shadow_service :: "rat \<Rightarrow> string \<Rightarrow> shadow_job \<Rightarrow> shadow \<Rightarrow> rat option" where
  "shadow_service now node j s = (let xs = shadow_durations now node j s in if length xs \<ge> 5 then middle xs else None)"

section \<open>The comparison\<close>

record shadow_candidate =
  ca_node :: string
  ca_healthy :: bool
  ca_paused :: bool
  ca_active :: bool
  ca_queued :: nat
  ca_limit :: nat
  ca_job :: "shadow_job option"
  ca_elapsed :: "rat option"
  ca_ahead :: "shadow_job list"

record shadow_estimate =
  es_candidate :: shadow_candidate
  es_eligible :: bool
  es_samples :: nat
  es_remaining :: "rat option"
  es_wait :: "rat option"
  es_service :: "rat option"
  es_completion :: "rat option"

definition candidate_remaining :: "rat \<Rightarrow> shadow_candidate \<Rightarrow> shadow \<Rightarrow> rat option" where
  "candidate_remaining now c s =
     (if ca_limit c > 1 then None
      else case ca_job c of Some a \<Rightarrow> conditional_remaining (shadow_durations now (ca_node c) a s) (ca_elapsed c) 5 | None \<Rightarrow> Some 0)"

definition ahead_times :: "rat \<Rightarrow> string \<Rightarrow> shadow_candidate \<Rightarrow> shadow \<Rightarrow> rat option list" where
  "ahead_times now home c s =
     (if ca_node c = home then map (\<lambda>j. shadow_service now (ca_node c) j s) (ca_ahead c) else if ca_queued c > 0 then [None] else [])"

definition candidate_wait :: "rat option \<Rightarrow> rat option list \<Rightarrow> rat option" where
  "candidate_wait remaining ahead =
     (case remaining of None \<Rightarrow> None | Some r \<Rightarrow> if None \<in> set ahead then None else Some (r + sum_list (map the ahead)))"

definition estimate_candidate :: "rat \<Rightarrow> string \<Rightarrow> shadow_job \<Rightarrow> shadow \<Rightarrow> shadow_candidate \<Rightarrow> shadow_estimate" where
  "estimate_candidate now home j s c =
     (let xs = shadow_durations now (ca_node c) j s;
          service = (if ca_limit c \<le> 1 \<and> length xs \<ge> 5 then middle xs else None);
          remaining = candidate_remaining now c s;
          wait = candidate_wait remaining (ahead_times now home c s);
          eligible = (ca_healthy c \<and> \<not> ca_paused c)
      in \<lparr>es_candidate = c, es_eligible = eligible, es_samples = length xs, es_remaining = remaining, es_wait = wait, es_service = service,
          es_completion = (case (wait, service) of (Some a, Some b) \<Rightarrow> if eligible then Some (a + b) else None | _ \<Rightarrow> None)\<rparr>)"

definition home_estimate :: "string \<Rightarrow> shadow_estimate list \<Rightarrow> shadow_estimate option" where
  "home_estimate home es = List.find (\<lambda>e. ca_node (es_candidate e) = home) es"

definition idle_estimates :: "string \<Rightarrow> shadow_estimate list \<Rightarrow> shadow_estimate list" where
  "idle_estimates home es = filter (\<lambda>e. ca_node (es_candidate e) \<noteq> home \<and> es_eligible e \<and> \<not> ca_active (es_candidate e) \<and>
     ca_queued (es_candidate e) = 0) es"

definition best_estimate :: "string \<Rightarrow> shadow_estimate list \<Rightarrow> shadow_estimate option" where
  "best_estimate home es =
     (case sort_key (\<lambda>e. the (es_completion e)) (filter (\<lambda>e. es_completion e \<noteq> None) (idle_estimates home es)) of e # _ \<Rightarrow> Some e | [] \<Rightarrow> None)"

definition verdict_of :: "bool \<Rightarrow> string \<Rightarrow> shadow_estimate list \<Rightarrow> shadow_verdict" where
  "verdict_of session_busy home es =
     (if session_busy then HandoverBlocked
      else if idle_estimates home es = [] then NoIdleAlternative
      else case (Option.bind (home_estimate home es) es_completion, Option.bind (best_estimate home es) es_completion) of
        (Some stay, Some b) \<Rightarrow> if b < stay then WouldMove else WouldStay
      | _ \<Rightarrow> InsufficientEvidence)"

definition alternative_of :: "string \<Rightarrow> shadow_estimate list \<Rightarrow> string option" where
  "alternative_of home es =
     (case best_estimate home es of
        Some e \<Rightarrow> Some (ca_node (es_candidate e))
      | None \<Rightarrow> (case idle_estimates home es of e # _ \<Rightarrow> Some (ca_node (es_candidate e)) | [] \<Rightarrow> None))"

definition saving_of :: "string \<Rightarrow> shadow_estimate list \<Rightarrow> rat option" where
  "saving_of home es =
     (case (Option.bind (home_estimate home es) es_completion, Option.bind (best_estimate home es) es_completion) of
        (Some stay, Some b) \<Rightarrow> Some (max 0 (stay - b)) | _ \<Rightarrow> None)"

definition shadow_assess ::
  "rat \<Rightarrow> shadow_job \<Rightarrow> string \<Rightarrow> shadow_candidate list \<Rightarrow> string \<Rightarrow> bool \<Rightarrow> shadow \<Rightarrow>
   (shadow_verdict \<times> string option \<times> rat option \<times> shadow_estimate list) option \<times> shadow" where
  "shadow_assess now j home cs reason session_busy s =
     (if \<not> sh_enabled s then (None, s)
      else let es = map (estimate_candidate now home j s) cs; v = verdict_of session_busy home es; alt = alternative_of home es;
               saving = saving_of home es
           in (Some (v, alt, saving, es),
               s\<lparr>sh_evaluations := sh_evaluations s + 1,
                 sh_would_move := sh_would_move s + (if v = WouldMove then 1 else 0),
                 sh_insufficient := sh_insufficient s + (if v = InsufficientEvidence then 1 else 0),
                 sh_last := Some (reason, v, home, alt, saving)\<rparr>))"

section \<open>What a shadow_verdict promises\<close>

lemma best_is_idle:
  assumes "best_estimate home es = Some e"
  shows "e \<in> set (idle_estimates home es) \<and> es_completion e \<noteq> None"
proof -
  let ?xs = "filter (\<lambda>e. es_completion e \<noteq> None) (idle_estimates home es)"
  obtain ys where "sort_key (\<lambda>e. the (es_completion e)) ?xs = e # ys"
    using assms by (auto simp: best_estimate_def split: list.splits)
  then have "e \<in> set (sort_key (\<lambda>e. the (es_completion e)) ?xs)" by (metis list.set_intros(1))
  then show ?thesis by simp
qed

text \<open>A move is advised only to an eligible idle worker with a strictly smaller estimate, and then the saving is positive.\<close>

lemma move_saves:
  assumes "verdict_of busy home es = WouldMove"
  obtains e stay where "e \<in> set (idle_estimates home es)" "alternative_of home es = Some (ca_node (es_candidate e))"
    "saving_of home es = Some stay" "stay > 0"
proof -
  obtain h b where hb: "Option.bind (home_estimate home es) es_completion = Some h"
      "Option.bind (best_estimate home es) es_completion = Some b" "b < h"
    using assms by (auto simp: verdict_of_def split: if_splits option.splits)
  then obtain e where e: "best_estimate home es = Some e" by (cases "best_estimate home es") auto
  show ?thesis
    by (rule that [of e "h - b"]) (use hb e best_is_idle [OF e] in \<open>auto simp: alternative_of_def saving_of_def\<close>)
qed

end
