(* ===== verification/Service_Lifecycle.thy ===== *)
theory Service_Lifecycle
  imports Service_Control
begin

text \<open>
  The operator's start, park and stop, \<open>ds4-gateway/lifecycle.mjs\<close>: the options, the check of the runtime, and the order in which the
  service controller is called. What the controller, \<open>launchd\<close> and the ports answer is an argument. Texts are not modelled.
\<close>

section \<open>Options\<close>

datatype life_command = StartAll | StopAll | ParkCore

record life_options =
  lo_command :: life_command
  lo_kinds :: "service list"
  lo_open :: bool
  lo_json :: bool
  lo_help :: bool
  lo_interrupt :: bool
  lo_config :: "string option"

datatype option_error = UnknownCommand | RepeatedOption | MissingValue | OnlyInPark | UnknownComponent | UnknownOption | UnconfirmedInterrupt
  | OpenWithoutDashboard

definition command_named :: "string \<Rightarrow> life_command option" where
  "command_named s = (if s = ''start'' then Some StartAll else if s = ''stop'' then Some StopAll else if s = ''park'' then Some ParkCore else None)"

definition service_named :: "string \<Rightarrow> service option" where
  "service_named s = (if s = ''gateway'' then Some GatewaySvc else if s = ''door'' then Some DoorSvc
     else if s = ''dashboard'' then Some DashboardSvc else None)"

definition default_options :: "life_command \<Rightarrow> life_options" where
  "default_options c = \<lparr>lo_command = c, lo_kinds = (if c = ParkCore then [GatewaySvc] else [GatewaySvc, DoorSvc, DashboardSvc]),
     lo_open = False, lo_json = False, lo_help = False, lo_interrupt = False, lo_config = None\<rparr>"

text \<open>A flag without a value; the boolean collects \<open>--confirm-interrupt\<close>.\<close>

definition plain_flag :: "string \<Rightarrow> life_options \<times> bool \<Rightarrow> (life_options \<times> bool) option" where
  "plain_flag f r =
     (let (o', confirmed) = r; c = lo_command o' in
      if f = ''--help'' then Some (o'\<lparr>lo_help := True\<rparr>, confirmed)
      else if f = ''--json'' then Some (o'\<lparr>lo_json := True\<rparr>, confirmed)
      else if f = ''--open'' \<and> c = StartAll then Some (o'\<lparr>lo_open := True\<rparr>, confirmed)
      else if f = ''--interrupt'' \<and> c = StopAll then Some (o'\<lparr>lo_interrupt := True\<rparr>, confirmed)
      else if f = ''--confirm-interrupt'' \<and> c = StopAll then Some (o', True)
      else None)"

definition valued_flag :: "string \<Rightarrow> string \<Rightarrow> life_options \<Rightarrow> option_error + life_options" where
  "valued_flag f v o' =
     (if v = [] \<or> has_prefix ''--'' v then Inl MissingValue
      else if f = ''--config'' then Inr (o'\<lparr>lo_config := Some v\<rparr>)
      else if lo_command o' = ParkCore then Inl OnlyInPark
      else case service_named v of None \<Rightarrow> Inl UnknownComponent | Some k \<Rightarrow> Inr (o'\<lparr>lo_kinds := [k]\<rparr>))"

fun parse_flags :: "string list \<Rightarrow> string list \<Rightarrow> life_options \<times> bool \<Rightarrow> option_error + (life_options \<times> bool)" where
  "parse_flags seen [] r = Inr r"
| "parse_flags seen (f # fs) r =
     (if f \<in> set seen then Inl RepeatedOption
      else case plain_flag f r of
        Some r' \<Rightarrow> parse_flags (f # seen) fs r'
      | None \<Rightarrow>
          if f = ''--only'' \<or> f = ''--config'' then
            (case fs of
               [] \<Rightarrow> Inl MissingValue
             | v # fs' \<Rightarrow> (case valued_flag f v (fst r) of Inl e \<Rightarrow> Inl e | Inr o' \<Rightarrow> parse_flags (f # seen) fs' (o', snd r)))
          else Inl UnknownOption)"

definition parse_options :: "string list \<Rightarrow> option_error + life_options" where
  "parse_options args =
     (case args of
        [] \<Rightarrow> Inl UnknownCommand
      | c # fs \<Rightarrow> (case command_named c of
          None \<Rightarrow> Inl UnknownCommand
        | Some k \<Rightarrow> (case parse_flags [] fs (default_options k, False) of
            Inl e \<Rightarrow> Inl e
          | Inr (o', confirmed) \<Rightarrow>
              if \<not> lo_help o' \<and> lo_interrupt o' \<noteq> confirmed then Inl UnconfirmedInterrupt
              else if lo_open o' \<and> DashboardSvc \<notin> set (lo_kinds o') then Inl OpenWithoutDashboard
              else Inr o')))"

text \<open>\<open>checkRuntime\<close>: the parts of the version are numbers, \<open>None\<close> is a part that is not an integer.\<close>

definition runtime_ok :: "string \<Rightarrow> int option list \<Rightarrow> nat option \<Rightarrow> bool" where
  "runtime_ok platform version uid \<longleftrightarrow> platform = ''darwin'' \<and> uid \<noteq> Some 0 \<and>
     (case version of [Some a, Some b, Some c] \<Rightarrow> \<not> (a < 22 \<or> a = 22 \<and> (b < 22 \<or> b = 22 \<and> c < 2)) | _ \<Rightarrow> False)"

section \<open>The fleet\<close>

record listed_worker =
  ws_id :: string
  ws_healthy :: bool
  ws_drained :: bool
  ws_paused :: bool
  ws_holds :: nat
  ws_quarantined :: bool

record fleet_status =
  fl_available :: "nat option"
  fl_total :: "nat option"
  fl_active :: "nat option"
  fl_queued :: "nat option"
  fl_draining :: "bool option"
  fl_context :: "nat option"
  fl_workers :: "listed_worker list"

record fleet_summary =
  sy_available :: "nat option"
  sy_total :: nat
  sy_active :: "nat option"
  sy_queued :: "nat option"
  sy_draining :: "bool option"
  sy_context :: "nat option"
  sy_workers :: "(listed_worker \<times> bool) list"

definition no_fleet :: fleet_status where
  "no_fleet = \<lparr>fl_available = None, fl_total = None, fl_active = None, fl_queued = None, fl_draining = None, fl_context = None, fl_workers = []\<rparr>"

definition summarise_fleet :: "fleet_status option \<Rightarrow> fleet_summary" where
  "summarise_fleet status =
     (let s = (case status of Some s \<Rightarrow> s | None \<Rightarrow> no_fleet) in
      \<lparr>sy_available = fl_available s, sy_total = (case fl_total s of Some n \<Rightarrow> n | None \<Rightarrow> length (fl_workers s)), sy_active = fl_active s,
       sy_queued = fl_queued s, sy_draining = fl_draining s, sy_context = fl_context s,
       sy_workers = map (\<lambda>w. (w, ws_healthy w \<and> \<not> ws_drained w)) (fl_workers s)\<rparr>)"

section \<open>The order of the calls\<close>

datatype life_call = CheckSource | SaveBackup | InstallServices "service list" | StartServices "service list" | ReadStatus "service list"
  | StopServices "service list" bool | ParkService | OpenBrowser

datatype life_error = NotPermitted | SourceCheckFailed | UnknownOwner service | BackupFailed | NotInstalled "service list" | ControllerFailed
  | StillListening service | DoorNotListening

datatype life_warning = CheckWarning string | AdmissionDraining | NoServers | HoldReleased | GenieStarts | BrowserFailed | DoorKeepsRunning | StateRetained

record life_world =
  lw_permitted :: bool
  lw_check :: "string list option"
  lw_registered :: "service \<Rightarrow> bool"
  lw_managed :: "service \<Rightarrow> bool"
  lw_listening :: "service \<Rightarrow> bool option"  \<comment> \<open>\<open>None\<close>: the port could not be checked\<close>
  lw_listening_after :: "service \<Rightarrow> bool option"
  lw_backup :: bool
  lw_installs :: bool
  lw_starts :: "bool option"  \<comment> \<open>whether a park hold was released\<close>
  lw_status :: "fleet_status option option"
  lw_stops :: bool
  lw_parks :: bool
  lw_opens :: bool

text \<open>The first missing registration that is loaded or listening, or whose port could not be checked.\<close>

definition unknown_owner :: "life_world \<Rightarrow> service list \<Rightarrow> service option" where
  "unknown_owner w missing = List.find (\<lambda>k. lw_managed w k \<or> lw_listening w k \<noteq> Some False) missing"

definition still_listening :: "life_world \<Rightarrow> service list \<Rightarrow> service option" where
  "still_listening w ks = List.find (\<lambda>k. lw_listening_after w k \<noteq> Some False) ks"

definition park_core :: "life_world \<Rightarrow> service list \<Rightarrow> life_call list \<times> (life_error + life_warning list)" where
  "park_core w missing =
     (if missing \<noteq> [] then ([], Inl (NotInstalled missing))
      else if \<not> lw_parks w then ([ParkService], Inl ControllerFailed)
      else if lw_listening_after w GatewaySvc \<noteq> Some False then ([ParkService], Inl (StillListening GatewaySvc))
      else if lw_listening_after w DoorSvc \<noteq> Some True then ([ParkService], Inl DoorNotListening)
      else ([ParkService], Inr [DoorKeepsRunning]))"

definition start_warnings :: "life_options \<Rightarrow> fleet_summary option \<Rightarrow> bool \<Rightarrow> bool \<Rightarrow> life_warning list" where
  "start_warnings o' fleet released opened =
     (case fleet of None \<Rightarrow> [] | Some f \<Rightarrow> (if sy_draining f = Some True then [AdmissionDraining] else []) @
        (if sy_available f = Some 0 then [NoServers] else [])) @
     (if released then [HoldReleased] else []) @ (if DashboardSvc \<in> set (lo_kinds o') then [GenieStarts] else []) @
     (if lo_open o' \<and> \<not> opened then [BrowserFailed] else [])"

definition start_services :: "life_world \<Rightarrow> life_options \<Rightarrow> service list \<Rightarrow> life_call list \<times> (life_error + life_warning list)" where
  "start_services w o' missing =
     (let ks = lo_kinds o'; install = (if missing = [] then [] else [InstallServices missing]) in
      if missing \<noteq> [] \<and> \<not> lw_installs w then (install, Inl ControllerFailed)
      else case lw_starts w of
        None \<Rightarrow> (install @ [StartServices ks], Inl ControllerFailed)
      | Some released \<Rightarrow> (case lw_status w of
          None \<Rightarrow> (install @ [StartServices ks, ReadStatus ks], Inl ControllerFailed)
        | Some status \<Rightarrow>
            (install @ [StartServices ks, ReadStatus ks] @ (if lo_open o' then [OpenBrowser] else []),
             Inr (start_warnings o' (if GatewaySvc \<in> set ks then Some (summarise_fleet status) else None) released (lw_opens w)))))"

definition stop_lifecycle :: "life_world \<Rightarrow> life_options \<Rightarrow> service list \<Rightarrow> life_call list \<times> (life_error + life_warning list)" where
  "stop_lifecycle w o' missing =
     (let registered = filter (\<lambda>k. k \<notin> set missing) (lo_kinds o');
          calls = (if registered = [] then [] else [StopServices registered (lo_interrupt o')]) in
      if registered \<noteq> [] \<and> \<not> lw_stops w then (calls, Inl ControllerFailed)
      else case still_listening w (lo_kinds o') of Some k \<Rightarrow> (calls, Inl (StillListening k)) | None \<Rightarrow> (calls, Inr [StateRetained]))"

definition run_command :: "life_world \<Rightarrow> life_options \<Rightarrow> service list \<Rightarrow> life_call list \<times> (life_error + life_warning list)" where
  "run_command w o' missing =
     (case lo_command o' of ParkCore \<Rightarrow> park_core w missing | StartAll \<Rightarrow> start_services w o' missing | StopAll \<Rightarrow> stop_lifecycle w o' missing)"

definition lifecycle :: "life_world \<Rightarrow> life_options \<Rightarrow> life_call list \<times> (life_error + life_warning list)" where
  "lifecycle w o' =
     (let checks = (if lo_command o' = StartAll then [CheckSource] else []);
          warnings = (if lo_command o' = StartAll then lw_check w else Some []);
          required = (if lo_command o' = ParkCore then [GatewaySvc, DoorSvc] else lo_kinds o');
          missing = filter (\<lambda>k. \<not> lw_registered w k) required in
      if \<not> lw_permitted w then ([], Inl NotPermitted)
      else case warnings of
        None \<Rightarrow> (checks, Inl SourceCheckFailed)
      | Some ws \<Rightarrow> (case unknown_owner w missing of
          Some k \<Rightarrow> (checks, Inl (UnknownOwner k))
        | None \<Rightarrow>
            if \<not> lw_backup w then (checks @ [SaveBackup], Inl BackupFailed)
            else let (calls, r) = run_command w o' missing in
              (checks @ [SaveBackup] @ calls, case r of Inl e \<Rightarrow> Inl e | Inr more_warnings \<Rightarrow> Inr (map CheckWarning ws @ more_warnings))))"

section \<open>What the order guarantees\<close>

text \<open>Nothing is installed, started, stopped or parked before the private state was saved.\<close>

definition life_checks :: "life_options \<Rightarrow> life_call list" where
  "life_checks o' = (if lo_command o' = StartAll then [CheckSource] else [])"

lemma backup_next: "fst (lifecycle w o') \<in> {[], life_checks o'} \<or> (\<exists>calls. fst (lifecycle w o') = life_checks o' @ SaveBackup # calls)"
  unfolding lifecycle_def Let_def life_checks_def [symmetric]
  by (cases "lw_permitted w"; cases "if lo_command o' = StartAll then lw_check w else Some []") (simp_all split: option.split prod.split)

lemma backup_first:
  assumes "fst (lifecycle w o') = cs @ c # ds" and "c \<noteq> CheckSource"
  shows "c = SaveBackup \<or> SaveBackup \<in> set cs"
proof -
  consider "cs @ c # ds = life_checks o'" | calls where "cs @ c # ds = life_checks o' @ SaveBackup # calls"
    using backup_next [of w o'] unfolding assms(1) by auto
  then show ?thesis
    using assms(2) by cases (cases cs; cases "tl cs"; simp add: life_checks_def split: if_splits)+
qed

text \<open>An interruption needs both options.\<close>

lemma plain_confirmed: "plain_flag f r = Some r' \<Longrightarrow> snd r' \<Longrightarrow> snd r \<or> f = ''--confirm-interrupt''"
  by (cases r) (auto simp: plain_flag_def Let_def split: if_splits)

lemma flags_confirmed:
  "parse_flags seen fs r = Inr r' \<Longrightarrow> snd r' \<Longrightarrow> snd r \<or> ''--confirm-interrupt'' \<in> set fs"
proof (induction seen fs r rule: parse_flags.induct)
  case (2 seen f fs r)
  show ?case
  proof (cases "plain_flag f r")
    case (Some x)
    then show ?thesis using 2 plain_confirmed [OF Some] by (auto split: if_splits)
  next
    case None
    then obtain v fs' o' where "fs = v # fs'" "valued_flag f v (fst r) = Inr o'" "parse_flags (f # seen) fs' (o', snd r) = Inr r'"
        "f \<notin> set seen" "f = ''--only'' \<or> f = ''--config''"
      using 2(3) by (simp split: if_splits list.splits sum.splits)
    then show ?thesis using 2(1) [OF _ None, of v fs' o'] 2(4) by auto
  qed
qed simp

lemma interruption_was_confirmed:
  assumes "parse_options (c # fs) = Inr o'" and "lo_interrupt o'"
  shows "lo_help o' \<or> ''--confirm-interrupt'' \<in> set fs"
proof -
  obtain k o'' confirmed where "parse_flags [] fs (default_options k, False) = Inr (o'', confirmed)"
      "\<not> (\<not> lo_help o'' \<and> lo_interrupt o'' \<noteq> confirmed)" "o'' = o'"
    using assms(1) by (simp add: parse_options_def split: option.splits sum.splits prod.splits if_splits)
  then show ?thesis using flags_confirmed assms(2) by fastforce
qed

end
