(* ===== verification/Cache_Continuity.thy ===== *)
theory Cache_Continuity
  imports Attribution_Summary Routing_Shadow "HOL-Library.AList"
begin

text \<open>
  The audit of cache continuity, \<open>ds4-gateway/cache-continuity-audit.mjs\<close>: which consecutive requests of a conversation may be compared,
  and how the reuse between them is classified. \<open>Date.parse\<close>, \<open>JSON.stringify\<close>, \<open>String\<close> and the order of \<open>localeCompare\<close> are
  parameters; ratios are exact, a session is compared as a value.
\<close>

section \<open>Evidence of a request\<close>

record cc_params =
  cp_date :: "js \<Rightarrow> rat option"
  cp_json :: "js \<Rightarrow> string"
  cp_str :: "js \<Rightarrow> string"
  cp_collate :: "string \<Rightarrow> nat"
  cp_max_age :: rat
  cp_max_events :: nat
  cp_max_requests :: nat

datatype cc_error = EventBudget | MaxAge | RequestBudget | ConflictingEvidence | InvalidEvidence | ConflictingAdmission

definition count_of :: "js \<Rightarrow> int option" where
  "count_of v = (case safe_int v of Some n \<Rightarrow> if n \<ge> 0 then Some n else None | None \<Rightarrow> None)"

definition text_of :: "cc_params \<Rightarrow> js \<Rightarrow> string" where
  "text_of p v = js_text (cp_str p) (or_else v (JStr []))"

definition relevant_kinds :: "string list" where
  "relevant_kinds = [''decision'', ''finish'', ''queue_relocation'']"

definition terminal_reasons :: "string list" where
  "terminal_reasons = [''stop'', ''tool_calls'', ''function_call'']"

definition valid_event :: "cc_params \<Rightarrow> js \<Rightarrow> bool" where
  "valid_event p v \<longleftrightarrow> jget v ''schema'' = JNum 1 \<and> id_text (text_of p (jget v ''run_id'')) \<and> id_text (text_of p (jget v ''event_id'')) \<and>
     id_text (text_of p (jget v ''request_id'')) \<and> cp_date p (jget v ''time'') \<noteq> None"

definition time_at :: "cc_params \<Rightarrow> js \<Rightarrow> rat" where
  "time_at p v = (case cp_date p (jget v ''time'') of Some t \<Rightarrow> t | None \<Rightarrow> 0)"

record gathered =
  ga_seen :: "(string \<times> string) list"
  ga_events :: "js list"
  ga_duplicates :: nat
  ga_invalid :: nat

text \<open>Events are told apart by run and event; the same identifier with other contents ends the audit.\<close>

fun gather_events :: "cc_params \<Rightarrow> js list \<Rightarrow> gathered \<Rightarrow> cc_error + gathered" where
  "gather_events p [] g = Inr g"
| "gather_events p (v # vs) g =
     (if jget v ''kind'' \<notin> set (map JStr relevant_kinds) then gather_events p vs g
      else if \<not> valid_event p v then gather_events p vs (g\<lparr>ga_invalid := ga_invalid g + 1\<rparr>)
      else let identity = text_of p (jget v ''run_id'') @ '':'' @ text_of p (jget v ''event_id''); serialized = cp_json p v in
        case map_of (ga_seen g) identity of
          Some t \<Rightarrow> if t \<noteq> serialized then Inl ConflictingEvidence else gather_events p vs (g\<lparr>ga_duplicates := ga_duplicates g + 1\<rparr>)
        | None \<Rightarrow> gather_events p vs (g\<lparr>ga_seen := ga_seen g @ [(identity, serialized)], ga_events := ga_events g @ [v]\<rparr>))"

record job_events =
  je_decisions :: "js list"
  je_finishes :: "js list"
  je_relocations :: "js list"

definition add_event :: "js \<Rightarrow> job_events \<Rightarrow> job_events" where
  "add_event v j =
     (if jget v ''kind'' = JStr ''decision'' then j\<lparr>je_decisions := je_decisions j @ [v]\<rparr>
      else if jget v ''kind'' = JStr ''finish'' then j\<lparr>je_finishes := je_finishes j @ [v]\<rparr>
      else j\<lparr>je_relocations := je_relocations j @ [v]\<rparr>)"

definition no_events :: job_events where
  "no_events = \<lparr>je_decisions = [], je_finishes = [], je_relocations = []\<rparr>"

fun group_jobs :: "cc_params \<Rightarrow> js list \<Rightarrow> (string \<times> job_events) list \<Rightarrow> cc_error + (string \<times> job_events) list" where
  "group_jobs p [] jobs = Inr jobs"
| "group_jobs p (v # vs) jobs =
     (let key = text_of p (jget v ''run_id'') @ '':'' @ text_of p (jget v ''request_id'') in
      case map_of jobs key of
        Some j \<Rightarrow> group_jobs p vs (AList.update key (add_event v j) jobs)
      | None \<Rightarrow> if length jobs \<ge> cp_max_requests p then Inl RequestBudget else group_jobs p vs (jobs @ [(key, add_event v no_events)]))"

record cc_job =
  cj_decision :: js
  cj_finish :: "js option"
  cj_decision_at :: rat
  cj_finish_at :: "rat option"
  cj_run :: js
  cj_session :: js
  cj_ambiguous :: bool
  cj_relocated :: bool
  cj_order_ambiguous :: bool

definition admission_key :: "cc_params \<Rightarrow> js \<Rightarrow> string" where
  "admission_key p v = cp_json p (JArr [or_else (jget v ''session'') JNull, JNum (time_at p v)])"

definition has_session :: "cc_params \<Rightarrow> job_events \<Rightarrow> bool" where
  "has_session p j \<longleftrightarrow> list_ex (\<lambda>v. digest_text (text_of p (jget v ''session''))) (je_decisions j)"

definition job_of_events :: "cc_params \<Rightarrow> job_events \<Rightarrow> cc_error + cc_job" where
  "job_of_events p j =
     (if length (remdups (map (admission_key p) (je_decisions j))) \<noteq> 1 then Inl ConflictingAdmission
      else let d = hd (je_decisions j); f = (case je_finishes j of x # _ \<Rightarrow> Some x | [] \<Rightarrow> None) in
        Inr \<lparr>cj_decision = d, cj_finish = f, cj_decision_at = time_at p d, cj_finish_at = map_option (time_at p) f, cj_run = jget d ''run_id'',
          cj_session = jget d ''session'',
          cj_ambiguous = (length (je_decisions j) \<noteq> 1 \<or> length (je_finishes j) > 1 \<or> length (je_relocations j) > 1),
          cj_relocated = (je_relocations j \<noteq> []), cj_order_ambiguous = False\<rparr>)"

fun session_jobs :: "cc_params \<Rightarrow> job_events list \<Rightarrow> cc_error + cc_job list" where
  "session_jobs p [] = Inr []"
| "session_jobs p (j # js) =
     (if \<not> has_session p j then session_jobs p js
      else case job_of_events p j of Inl e \<Rightarrow> Inl e
      | Inr x \<Rightarrow> (case session_jobs p js of Inl e \<Rightarrow> Inl e | Inr xs \<Rightarrow> Inr (x # xs)))"

text \<open>Requests of one session and run in the same tick have no known order.\<close>

definition tick :: "cc_params \<Rightarrow> cc_job \<Rightarrow> string" where
  "tick p x = js_text (cp_str p) (cj_run x) @ '':'' @ js_text (cp_str p) (cj_session x) @ '':'' @ js_text (cp_str p) (JNum (cj_decision_at x))"

definition mark_ticks :: "cc_params \<Rightarrow> cc_job list \<Rightarrow> cc_job list" where
  "mark_ticks p xs = map (\<lambda>x. x\<lparr>cj_order_ambiguous := (length (filter (\<lambda>y. tick p y = tick p x) xs) > 1)\<rparr>) xs"

definition order_jobs :: "cc_params \<Rightarrow> cc_job list \<Rightarrow> cc_job list" where
  "order_jobs p xs = sort_key (\<lambda>x. (cj_decision_at x, cp_collate p (text_of p (cj_run x)),
     cp_collate p (text_of p (jget (cj_decision x) ''request_id'')))) xs"

section \<open>The comparison of two requests\<close>

record cc_candidate =
  cd_profile :: "string option"
  cd_epoch :: "int option"

definition cc_candidate_of :: "cc_params \<Rightarrow> js \<Rightarrow> js \<Rightarrow> cc_candidate option" where
  "cc_candidate_of p decision node =
     (case jget decision ''candidates'' of
        JArr rows \<Rightarrow> (case filter (\<lambda>r. jget r ''node'' = node) rows of
            [r] \<Rightarrow> Some \<lparr>cd_profile = (let t = text_of p (jget r ''profile'') in if digest_text t then Some t else None),
              cd_epoch = count_of (jget r ''observation_epoch'')\<rparr>
          | _ \<Rightarrow> None)
      | _ \<Rightarrow> None)"

definition cc_metadata :: "js \<Rightarrow> (int option \<times> int option) option" where
  "cc_metadata decision =
     (let v = jget decision ''client_metadata'' in
      if jget v ''schema'' = JNum 1 \<and> jget v ''status'' = JStr ''ready''
      then Some (count_of (jget v ''turn_index''), count_of (jget v ''compaction_count'')) else None)"

datatype reuse_class = ReuseObserved | PartialReuse | SuspectedLowReuse | UnconfirmedLowReuse

datatype cc_reason = NoPriorRequest | RunChanged | AmbiguousOrder | AmbiguousRequest | TerminalMissing | Noncausal | Relocated | JoinConflict
  | IncompleteRequest | TerminalUnknown | RouteChanged | NewAffinity | WorkerChanged | SessionOverlap | Stale | UsageMissing | PromptSmall
  | PromptShrank | ProfileMissing | ProfileChanged | CompactionChanged | TurnGap | EpochChanged

record assessment =
  as_class :: reuse_class
  as_ratio :: rat
  as_strong :: bool

text \<open>The first check that fails gives the reason.\<close>

fun first_reason :: "(bool \<times> cc_reason) list \<Rightarrow> cc_reason option" where
  "first_reason [] = None"
| "first_reason ((failed, reason) # xs) = (if failed then Some reason else first_reason xs)"

lemma first_reason_None: "first_reason xs = None \<longleftrightarrow> list_all (\<lambda>(failed, _). \<not> failed) xs"
  by (induction xs rule: first_reason.induct) auto

declare first_reason.simps [simp del]

definition both_differ :: "'a option \<Rightarrow> 'a option \<Rightarrow> bool" where
  "both_differ a b \<longleftrightarrow> a \<noteq> None \<and> b \<noteq> None \<and> a \<noteq> b"

definition reuse_of :: "rat \<Rightarrow> bool \<Rightarrow> reuse_class" where
  "reuse_of ratio guard = (if ratio \<ge> 4 / 5 then ReuseObserved else if ratio \<ge> 1 / 5 then PartialReuse
     else if guard then SuspectedLowReuse else UnconfirmedLowReuse)"

definition profile_of :: "cc_params \<Rightarrow> cc_job \<Rightarrow> js \<Rightarrow> string option" where
  "profile_of p j f = Option.bind (cc_candidate_of p (cj_decision j) (jget f ''node'')) cd_profile"

definition epoch_of :: "cc_params \<Rightarrow> cc_job \<Rightarrow> js \<Rightarrow> int option" where
  "epoch_of p j f = Option.bind (cc_candidate_of p (cj_decision j) (jget f ''node'')) cd_epoch"

definition turn_of :: "cc_job \<Rightarrow> int option" where
  "turn_of j = Option.bind (cc_metadata (cj_decision j)) fst"

definition compaction_of :: "cc_job \<Rightarrow> int option" where
  "compaction_of j = Option.bind (cc_metadata (cj_decision j)) snd"

definition strong_guard :: "cc_params \<Rightarrow> cc_job \<Rightarrow> cc_job \<Rightarrow> js \<Rightarrow> js \<Rightarrow> bool" where
  "strong_guard p previous current pf cf \<longleftrightarrow> epoch_of p previous pf \<noteq> None \<and> epoch_of p previous pf = epoch_of p current cf \<and>
     turn_of previous \<noteq> None \<and> turn_of current \<noteq> None \<and> compaction_of previous \<noteq> None \<and> compaction_of current \<noteq> None"

definition usage_checks :: "cc_params \<Rightarrow> cc_job \<Rightarrow> cc_job \<Rightarrow> js \<Rightarrow> js \<Rightarrow> int \<Rightarrow> int \<Rightarrow> int \<Rightarrow> (bool \<times> cc_reason) list" where
  "usage_checks p previous current pf cf before now cached =
     [(cached > now, UsageMissing), (min before now < 256, PromptSmall), (of_int now < of_int before * (4 / 5 :: rat), PromptShrank),
      (profile_of p previous pf = None \<or> profile_of p current cf = None, ProfileMissing),
      (profile_of p previous pf \<noteq> profile_of p current cf, ProfileChanged),
      (both_differ (compaction_of previous) (compaction_of current), CompactionChanged),
      (both_differ (map_option (\<lambda>t. t + 1) (turn_of previous)) (turn_of current), TurnGap),
      (both_differ (epoch_of p previous pf) (epoch_of p current cf), EpochChanged)]"

definition assess_reuse :: "int \<Rightarrow> int \<Rightarrow> bool \<Rightarrow> assessment" where
  "assess_reuse cached reference guard =
     (let ratio = min 1 (of_int cached / of_int reference) in \<lparr>as_class = reuse_of ratio guard, as_ratio = ratio, as_strong = guard\<rparr>)"

text \<open>The second half of \<open>jobGate\<close>: token counts, profile, client metadata.\<close>

definition usage_gate :: "cc_params \<Rightarrow> cc_job \<Rightarrow> cc_job \<Rightarrow> js \<Rightarrow> js \<Rightarrow> cc_reason + assessment" where
  "usage_gate p previous current pf cf =
     (case (count_of (jget (jget pf ''usage'') ''prompt_tokens''), count_of (jget (jget cf ''usage'') ''prompt_tokens''),
            count_of (jget (jget cf ''usage'') ''cached_tokens'')) of
        (Some before, Some now, Some cached) \<Rightarrow>
          (case first_reason (usage_checks p previous current pf cf before now cached) of
             Some why \<Rightarrow> Inl why
           | None \<Rightarrow> Inr (assess_reuse cached (min before now) (strong_guard p previous current pf cf)))
      | _ \<Rightarrow> Inl UsageMissing)"

definition is_terminal :: "js \<Rightarrow> bool" where
  "is_terminal v \<longleftrightarrow> v \<in> set (map JStr terminal_reasons)"

definition finish_gate :: "cc_params \<Rightarrow> cc_job \<Rightarrow> cc_job \<Rightarrow> js \<Rightarrow> js \<Rightarrow> rat \<Rightarrow> rat \<Rightarrow> cc_reason + assessment" where
  "finish_gate p previous current pf cf previous_end current_end =
     (let gap = cj_decision_at current - previous_end in
      case first_reason
          [(previous_end < cj_decision_at previous \<or> current_end < cj_decision_at current, Noncausal),
           (cj_relocated previous \<or> cj_relocated current, Relocated),
           (jget pf ''node'' \<noteq> jget (cj_decision previous) ''node'' \<or> jget cf ''node'' \<noteq> jget (cj_decision current) ''node'', JoinConflict),
           (jget pf ''outcome'' \<noteq> JStr ''complete'' \<or> jget cf ''outcome'' \<noteq> JStr ''complete'', IncompleteRequest),
           (\<not> is_terminal (jget pf ''finish_reason'') \<or> \<not> is_terminal (jget cf ''finish_reason''), TerminalUnknown),
           (jget pf ''route'' \<noteq> jget cf ''route'' \<or> \<not> truthy (jget pf ''route''), RouteChanged),
           (jget (cj_decision current) ''affinity'' \<noteq> JStr ''existing'', NewAffinity), (jget pf ''node'' \<noteq> jget cf ''node'', WorkerChanged),
           (gap < 0, SessionOverlap), (gap > cp_max_age p, Stale)] of
        Some why \<Rightarrow> Inl why
      | None \<Rightarrow> usage_gate p previous current pf cf)"

definition job_gate :: "cc_params \<Rightarrow> cc_job \<Rightarrow> cc_job \<Rightarrow> cc_reason + assessment" where
  "job_gate p previous current =
     (if cj_order_ambiguous previous \<or> cj_order_ambiguous current then Inl AmbiguousOrder
      else if cj_ambiguous previous \<or> cj_ambiguous current then Inl AmbiguousRequest
      else case (cj_finish previous, cj_finish current, cj_finish_at previous, cj_finish_at current) of
        (Some pf, Some cf, Some pe, Some ce) \<Rightarrow> finish_gate p previous current pf cf pe ce
      | _ \<Rightarrow> Inl TerminalMissing)"

section \<open>The report\<close>

record cc_worker =
  cw_requests :: nat
  cw_pairs :: nat
  cw_assessments :: "assessment list"  \<comment> \<open>the counts by class and the ratios of the code\<close>
  cw_reasons :: "cc_reason list"  \<comment> \<open>the tally by reason\<close>
  cw_first :: rat
  cw_last :: rat
  cw_last_assessed :: "rat option"
  cw_last_low :: "rat option"

record cc_report =
  cr_pairs :: nat
  cr_assessed :: "(cc_job \<times> cc_job \<times> assessment) list"
  cr_reasons :: "(cc_job \<times> cc_reason) list"
  cr_workers :: "(string \<times> cc_worker) list"
  cr_previous :: "js \<rightharpoonup> cc_job"

definition no_report :: cc_report where
  "no_report = \<lparr>cr_pairs = 0, cr_assessed = [], cr_reasons = [], cr_workers = [], cr_previous = (\<lambda>_. None)\<rparr>"

definition worker_name :: "cc_params \<Rightarrow> cc_job \<Rightarrow> string" where
  "worker_name p x = (let t = text_of p (jget (cj_decision x) ''node'') in if id_text t then t else ''unknown'')"

definition new_cc_worker :: "rat \<Rightarrow> cc_worker" where
  "new_cc_worker t = \<lparr>cw_requests = 0, cw_pairs = 0, cw_assessments = [], cw_reasons = [], cw_first = t, cw_last = t, cw_last_assessed = None,
     cw_last_low = None\<rparr>"

definition later_time :: "rat option \<Rightarrow> rat option \<Rightarrow> rat option" where
  "later_time a b = (case (a, b) of (None, _) \<Rightarrow> b | (_, None) \<Rightarrow> a | (Some x, Some y) \<Rightarrow> Some (max x y))"

definition is_low :: "assessment \<Rightarrow> bool" where
  "is_low a \<longleftrightarrow> as_class a \<in> {SuspectedLowReuse, UnconfirmedLowReuse}"

definition worker_assessed :: "cc_job \<Rightarrow> assessment \<Rightarrow> cc_worker \<Rightarrow> cc_worker" where
  "worker_assessed x a w = w\<lparr>cw_assessments := cw_assessments w @ [a], cw_last_assessed := later_time (cw_last_assessed w) (cj_finish_at x),
     cw_last_low := (if is_low a then later_time (cw_last_low w) (cj_finish_at x) else cw_last_low w)\<rparr>"

text \<open>One turn of the loop over the ordered requests.\<close>

definition compare_job :: "cc_params \<Rightarrow> cc_job \<Rightarrow> cc_report \<Rightarrow> cc_report" where
  "compare_job p x r =
     (let node = worker_name p x;
          w0 = (case map_of (cr_workers r) node of Some w \<Rightarrow> w | None \<Rightarrow> new_cc_worker (cj_decision_at x));
          w1 = w0\<lparr>cw_requests := cw_requests w0 + 1, cw_last := cj_decision_at x\<rparr>;
          r1 = r\<lparr>cr_previous := (cr_previous r)(cj_session x \<mapsto> x)\<rparr>;
          abstain = (\<lambda>why w r. r\<lparr>cr_reasons := cr_reasons r @ [(x, why)],
            cr_workers := AList.update node (w\<lparr>cw_reasons := cw_reasons w @ [why]\<rparr>) (cr_workers r)\<rparr>) in
      case cr_previous r (cj_session x) of
        None \<Rightarrow> abstain NoPriorRequest w1 r1
      | Some y \<Rightarrow>
          (let r2 = r1\<lparr>cr_pairs := cr_pairs r1 + 1\<rparr>; w2 = w1\<lparr>cw_pairs := cw_pairs w1 + 1\<rparr> in
           if cj_run y \<noteq> cj_run x then abstain RunChanged w2 r2
           else case job_gate p y x of
             Inl why \<Rightarrow> abstain why w2 r2
           | Inr a \<Rightarrow> r2\<lparr>cr_assessed := cr_assessed r2 @ [(y, x, a)], cr_workers := AList.update node (worker_assessed x a w2) (cr_workers r2)\<rparr>))"

definition audit_events :: "cc_params \<Rightarrow> js list \<Rightarrow> cc_error + cc_job list" where
  "audit_events p events =
     (case gather_events p events \<lparr>ga_seen = [], ga_events = [], ga_duplicates = 0, ga_invalid = 0\<rparr> of
        Inl e \<Rightarrow> Inl e
      | Inr g \<Rightarrow>
          if ga_invalid g > 0 then Inl InvalidEvidence
          else case group_jobs p (sort_key (time_at p) (ga_events g)) [] of
            Inl e \<Rightarrow> Inl e
          | Inr jobs \<Rightarrow> (case session_jobs p (map snd jobs) of Inl e \<Rightarrow> Inl e | Inr xs \<Rightarrow> Inr (order_jobs p (mark_ticks p xs))))"

definition audit_cache :: "cc_params \<Rightarrow> js list \<Rightarrow> cc_error + cc_report" where
  "audit_cache p events =
     (if cp_max_events p < 1 \<or> cp_max_events p > 200000 then Inl EventBudget
      else if length events > cp_max_events p then Inl EventBudget
      else if cp_max_age p < 60000 \<or> cp_max_age p > 604800000 \<or> cp_max_age p \<notin> \<int> then Inl MaxAge
      else if cp_max_requests p < 1 \<or> cp_max_requests p > 50000 then Inl RequestBudget
      else case audit_events p events of Inl e \<Rightarrow> Inl e | Inr xs \<Rightarrow> Inr (fold (compare_job p) xs no_report))"

definition cc_median :: "rat list \<Rightarrow> rat option" where
  "cc_median xs = map_option (\<lambda>m. of_int \<lfloor>m * 1000 + 1 / 2\<rfloor> / 1000) (middle xs)"

definition median_reuse :: "cc_worker \<Rightarrow> rat option" where
  "median_reuse w = cc_median (map as_ratio (cw_assessments w))"

section \<open>What an assessment rests on\<close>

text \<open>The earlier request is the last one of the session before the later one.\<close>

definition consecutive :: "cc_job list \<Rightarrow> cc_job \<Rightarrow> cc_job \<Rightarrow> bool" where
  "consecutive xs y x \<longleftrightarrow> (\<exists>us vs ws. xs = us @ y # vs @ x # ws \<and> cj_session y = cj_session x \<and> (\<forall>z\<in>set vs. cj_session z \<noteq> cj_session x))"

definition same_place :: "cc_params \<Rightarrow> cc_job \<Rightarrow> cc_job \<Rightarrow> js \<Rightarrow> js \<Rightarrow> bool" where
  "same_place p y x yf xf \<longleftrightarrow> cj_run y = cj_run x \<and> jget yf ''node'' = jget xf ''node'' \<and> jget yf ''route'' = jget xf ''route'' \<and>
     profile_of p y yf \<noteq> None \<and> profile_of p y yf = profile_of p x xf"

definition both_finished :: "cc_params \<Rightarrow> cc_job \<Rightarrow> cc_job \<Rightarrow> js \<Rightarrow> js \<Rightarrow> bool" where
  "both_finished p y x yf xf \<longleftrightarrow> jget yf ''outcome'' = JStr ''complete'' \<and> jget xf ''outcome'' = JStr ''complete'' \<and>
     is_terminal (jget yf ''finish_reason'') \<and> is_terminal (jget xf ''finish_reason'') \<and>
     (case cj_finish_at y of Some t \<Rightarrow> t \<le> cj_decision_at x \<and> cj_decision_at x - t \<le> cp_max_age p | None \<Rightarrow> False)"

definition undisturbed :: "cc_job \<Rightarrow> bool" where
  "undisturbed x \<longleftrightarrow> \<not> cj_ambiguous x \<and> \<not> cj_relocated x \<and> \<not> cj_order_ambiguous x"

definition sound_pair :: "cc_params \<Rightarrow> cc_job \<Rightarrow> cc_job \<Rightarrow> assessment \<Rightarrow> bool" where
  "sound_pair p y x a \<longleftrightarrow> undisturbed y \<and> undisturbed x \<and>
     (case (cj_finish y, cj_finish x) of (Some yf, Some xf) \<Rightarrow> same_place p y x yf xf \<and> both_finished p y x yf xf | _ \<Rightarrow> False) \<and>
     0 \<le> as_ratio a \<and> as_ratio a \<le> 1 \<and> as_class a = reuse_of (as_ratio a) (as_strong a)"

lemma count_nonneg: "count_of v = Some n \<Longrightarrow> 0 \<le> n"
  by (auto simp: count_of_def split: option.splits if_splits)

lemma assess_sound:
  assumes "0 \<le> cached" and "0 \<le> reference"
  shows "0 \<le> as_ratio (assess_reuse cached reference g) \<and> as_ratio (assess_reuse cached reference g) \<le> 1 \<and>
    as_class (assess_reuse cached reference g) = reuse_of (as_ratio (assess_reuse cached reference g)) (as_strong (assess_reuse cached reference g))"
  using assms by (simp add: assess_reuse_def Let_def)

lemma usage_gate_sound:
  assumes "usage_gate p y x yf xf = Inr a"
  shows "profile_of p y yf \<noteq> None \<and> profile_of p y yf = profile_of p x xf \<and>
    0 \<le> as_ratio a \<and> as_ratio a \<le> 1 \<and> as_class a = reuse_of (as_ratio a) (as_strong a)"
proof -
  obtain before now cached where c: "count_of (jget (jget yf ''usage'') ''prompt_tokens'') = Some before"
      "count_of (jget (jget xf ''usage'') ''prompt_tokens'') = Some now" "count_of (jget (jget xf ''usage'') ''cached_tokens'') = Some cached"
    using assms by (auto simp: usage_gate_def split: option.splits)
  then have n: "0 \<le> cached" "0 \<le> min before now" by (simp_all add: count_nonneg)
  have "first_reason (usage_checks p y x yf xf before now cached) = None" and a: "a = assess_reuse cached (min before now) (strong_guard p y x yf xf)"
    using assms c by (auto simp: usage_gate_def split: option.splits)
  then have "profile_of p y yf \<noteq> None \<and> profile_of p y yf = profile_of p x xf" by (simp add: first_reason_None usage_checks_def)
  then show ?thesis unfolding a using assess_sound [OF n] by blast
qed

lemma job_gate_sound:
  assumes "job_gate p y x = Inr a" and "cj_run y = cj_run x"
  shows "sound_pair p y x a"
proof -
  obtain yf xf ye xe where f: "cj_finish y = Some yf" "cj_finish x = Some xf" "cj_finish_at y = Some ye" "cj_finish_at x = Some xe"
    and g: "finish_gate p y x yf xf ye xe = Inr a" and u: "\<not> cj_order_ambiguous y" "\<not> cj_order_ambiguous x" "\<not> cj_ambiguous y" "\<not> cj_ambiguous x"
    using assms(1) by (auto simp: job_gate_def split: if_splits option.splits)
  have "usage_gate p y x yf xf = Inr a" "\<not> cj_relocated y" "\<not> cj_relocated x" "jget yf ''node'' = jget xf ''node''"
      "jget yf ''route'' = jget xf ''route''" "jget yf ''outcome'' = JStr ''complete''" "jget xf ''outcome'' = JStr ''complete''"
      "is_terminal (jget yf ''finish_reason'')" "is_terminal (jget xf ''finish_reason'')" "ye \<le> cj_decision_at x" "cj_decision_at x - ye \<le> cp_max_age p"
    using g by (auto simp: finish_gate_def Let_def first_reason_None split: option.splits)
  then show ?thesis
    using usage_gate_sound [of p y x yf xf a] f u assms(2) by (auto simp: sound_pair_def undisturbed_def same_place_def both_finished_def)
qed

definition last_of :: "js \<Rightarrow> cc_job list \<Rightarrow> cc_job option" where
  "last_of k xs = List.find (\<lambda>z. cj_session z = k) (rev xs)"

lemma last_of_snoc: "last_of k (xs @ [x]) = (if cj_session x = k then Some x else last_of k xs)"
  by (simp add: last_of_def)

lemma last_of_splits: "last_of k xs = Some y \<Longrightarrow> \<exists>us vs. xs = us @ y # vs \<and> cj_session y = k \<and> (\<forall>z\<in>set vs. cj_session z \<noteq> k)"
proof (induction xs rule: rev_induct)
  case (snoc x xs)
  show ?case
  proof (cases "cj_session x = k")
    case True
    then show ?thesis using snoc.prems by (intro exI [of _ xs] exI [of _ "[]"]) (simp add: last_of_snoc)
  next
    case False
    then obtain us vs where "xs = us @ y # vs" "cj_session y = k" "\<forall>z\<in>set vs. cj_session z \<noteq> k"
      using snoc by (auto simp: last_of_snoc)
    then show ?thesis using False by (intro exI [of _ us] exI [of _ "vs @ [x]"]) simp
  qed
qed (simp add: last_of_def)

lemma consecutive_snoc: "consecutive xs y x \<Longrightarrow> consecutive (xs @ [z]) y x"
  by (auto simp: consecutive_def) (metis append.assoc append_Cons)

definition audited :: "cc_params \<Rightarrow> cc_job list \<Rightarrow> cc_report \<Rightarrow> bool" where
  "audited p xs r \<longleftrightarrow> (\<forall>k. cr_previous r k = last_of k xs) \<and>
     list_all (\<lambda>(y, x, a). consecutive xs y x \<and> sound_pair p y x a) (cr_assessed r) \<and>
     length (cr_assessed r) + length (cr_reasons r) = length xs"

lemma audited_step:
  assumes "audited p xs r"
  shows "audited p (xs @ [x]) (compare_job p x r)"
proof -
  have pre: "cr_previous r (cj_session x) = last_of (cj_session x) xs" using assms by (simp add: audited_def)
  have old: "list_all (\<lambda>(y, x, a). consecutive (xs @ [x']) y x \<and> sound_pair p y x a) (cr_assessed r)" for x'
    using assms consecutive_snoc by (auto simp: audited_def list_all_iff)
  have pos: "\<forall>k. ((cr_previous r)(cj_session x \<mapsto> x)) k = last_of k (xs @ [x])" using assms by (simp add: audited_def last_of_snoc)
  show ?thesis
  proof (cases "last_of (cj_session x) xs")
    case None
    then show ?thesis using pre old pos assms by (simp add: audited_def compare_job_def Let_def)
  next
    case (Some y)
    have c: "consecutive (xs @ [x]) y x" using last_of_splits [OF Some] by (auto simp: consecutive_def) blast
    show ?thesis
      using pre old pos assms Some c job_gate_sound [of p y x]
      by (cases "job_gate p y x") (simp_all add: audited_def compare_job_def Let_def)
  qed
qed

lemma audited_run: "audited p xs (fold (compare_job p) xs no_report)"
proof (induction xs rule: rev_induct)
  case Nil
  then show ?case by (simp add: audited_def no_report_def last_of_def)
next
  case (snoc x xs)
  then show ?case by (simp add: audited_step)
qed

text \<open>C29: The cache audit compares only what may be compared. For every report, each assessment belongs to two requests of one session that
  follow each other in the order of admission with no request of that session between them, in one run, on the same worker, route and
  profile; both completed, neither was relocated or ambiguous or shared its tick, the second began within the allowed age after the first
  had ended; the ratio lies between 0 and 1 and the class is the one of that ratio. Every request is either assessed or left out for a
  reason, never both.\<close>

theorem only_consecutive_requests_compared:
  "(case audit_cache p events of
      Inl _ \<Rightarrow> True
    | Inr r \<Rightarrow> (case audit_events p events of
        Inl _ \<Rightarrow> False
      | Inr xs \<Rightarrow> list_all (\<lambda>(y, x, a). consecutive xs y x \<and> sound_pair p y x a) (cr_assessed r) \<and>
          length (cr_assessed r) + length (cr_reasons r) = length xs))"
proof (cases "audit_events p events")
  case (Inr xs)
  then show ?thesis using audited_run [of p xs] by (simp add: audit_cache_def audited_def)
qed (simp add: audit_cache_def)

end
