(* ===== verification/Vision_Protection.thy ===== *)
theory Vision_Protection
  imports Agent_Control Stream_Lines "HOL-Library.AList"
begin

text \<open>
  The vision compatibility recovery, \<open>ds4-gateway/vision-protection.mjs\<close>: which engine refusals it recognises, how images are
  withheld from or converted in the captured request, and the counters. The body is a byte string; \<open>JSON.parse\<close>, \<open>JSON.stringify\<close>, the
  transcoder and the wording of the notices are parameters. The processes and files of the transcoder are not modelled.
\<close>

section \<open>Base64\<close>

definition b64_letters :: string where
  "b64_letters = ''ABCDEFGHIJKLMNOPQRSTUVWXYZabcdefghijklmnopqrstuvwxyz0123456789+/''"

definition b64_value :: "char \<Rightarrow> nat option" where
  "b64_value c = (case List.find (\<lambda>i. b64_letters ! i = c) [0..<64] of Some i \<Rightarrow> Some i | None \<Rightarrow> None)"

definition byte :: "nat \<Rightarrow> char" where
  "byte n = char_of n"

definition two_letters :: "char \<Rightarrow> char \<Rightarrow> string option" where
  "two_letters a b = (case (b64_value a, b64_value b) of
     (Some x, Some y) \<Rightarrow> if y mod 16 = 0 then Some [byte (x * 4 + y div 16)] else None | _ \<Rightarrow> None)"

definition three_letters :: "char \<Rightarrow> char \<Rightarrow> char \<Rightarrow> string option" where
  "three_letters a b c = (case (b64_value a, b64_value b, b64_value c) of
     (Some x, Some y, Some z) \<Rightarrow> if z mod 4 = 0 then Some [byte (x * 4 + y div 16), byte (y mod 16 * 16 + z div 4)] else None | _ \<Rightarrow> None)"

definition four_letters :: "char \<Rightarrow> char \<Rightarrow> char \<Rightarrow> char \<Rightarrow> string option" where
  "four_letters a b c d = (case (b64_value a, b64_value b, b64_value c, b64_value d) of
     (Some x, Some y, Some z, Some w) \<Rightarrow> Some [byte (x * 4 + y div 16), byte (y mod 16 * 16 + z div 4), byte (z mod 4 * 64 + w)] | _ \<Rightarrow> None)"

text \<open>The groups of a canonical text: padding only at the end, its unused bits zero, so that encoding gives the text back.\<close>

fun decode_groups :: "string \<Rightarrow> string option" where
  "decode_groups [] = Some []"
| "decode_groups [a, b, c, d] =
     (if d = CHR ''='' then (if c = CHR ''='' then two_letters a b else three_letters a b c) else four_letters a b c d)"
| "decode_groups (a # b # c # d # rest) = (case four_letters a b c d of
     None \<Rightarrow> None | Some x \<Rightarrow> (case decode_groups rest of None \<Rightarrow> None | Some y \<Rightarrow> Some (x @ y)))"
| "decode_groups _ = None"

definition strict_base64 :: "string \<Rightarrow> string option" where
  "strict_base64 s = (if s = [] then None else decode_groups s)"

definition letter :: "nat \<Rightarrow> char" where
  "letter n = b64_letters ! (n mod 64)"

definition code :: "char \<Rightarrow> nat" where
  "code c = of_char c"

fun encode_base64 :: "string \<Rightarrow> string" where
  "encode_base64 [] = []"
| "encode_base64 [a] = [letter (code a div 4), letter (code a mod 4 * 16), CHR ''='', CHR ''='']"
| "encode_base64 [a, b] = [letter (code a div 4), letter (code a mod 4 * 16 + code b div 16), letter (code b mod 16 * 4), CHR ''='']"
| "encode_base64 (a # b # c # rest) = letter (code a div 4) # letter (code a mod 4 * 16 + code b div 16) #
     letter (code b mod 16 * 4 + code c div 64) # letter (code c mod 64) # encode_base64 rest"

section \<open>Images in a request\<close>

record vision_params =
  vp_parse :: "string \<Rightarrow> js option"
  vp_json :: "js \<Rightarrow> string"
  vp_transcode :: "string \<Rightarrow> string option"
  vp_limit_notice :: "nat \<Rightarrow> string"
  vp_gif_notice :: "nat \<Rightarrow> string"

record vision_limits =
  vl_request :: nat
  vl_image :: nat
  vl_normalized :: nat

datatype vision_error = ProtectionDisabled | CaptureUnavailable | JsonInvalid | LimitRepairUnsupported | LimitNotProven | LimitInvariant
  | GifRepairUnsupported | GifPayloadInvalid | JpegPayloadInvalid | GifNotFound | GifInvariant | ImageNotFound | GifNotSupported
  | TranscoderFailed | TranscodedTooLarge | RequestTooLarge

definition jset :: "js \<Rightarrow> string \<Rightarrow> js \<Rightarrow> js" where
  "jset v k x = (case v of JObj kvs \<Rightarrow> JObj (AList.update k x kvs) | _ \<Rightarrow> v)"

definition elements :: "js \<Rightarrow> js list" where
  "elements v = (case v of JArr xs \<Rightarrow> xs | _ \<Rightarrow> [])"

definition chat_route :: string where
  "chat_route = ''/v1/chat/completions''"

text \<open>The text of \<open>image_url\<close>, direct or in its \<open>url\<close> field.\<close>

definition image_value :: "js \<Rightarrow> js" where
  "image_value block = (case jget block ''image_url'' of JStr s \<Rightarrow> JStr s | v \<Rightarrow> jget v ''url'')"

definition is_image_type :: "js \<Rightarrow> bool" where
  "is_image_type block \<longleftrightarrow> jget block ''type'' = JStr ''image_url''"

definition typed_image :: "js \<Rightarrow> bool" where
  "typed_image block \<longleftrightarrow> is_image_type block \<and> (case image_value block of JStr s \<Rightarrow> s \<noteq> [] | _ \<Rightarrow> False)"

definition blocks_of :: "js \<Rightarrow> js list" where
  "blocks_of message = elements (jget message ''content'')"

definition messages_of :: "js \<Rightarrow> js list" where
  "messages_of payload = elements (jget payload ''messages'')"

definition typed_image_count :: "js \<Rightarrow> string \<Rightarrow> nat" where
  "typed_image_count payload route =
     (if route \<noteq> chat_route then 0 else sum_list (map (\<lambda>m. length (filter typed_image (blocks_of m))) (messages_of payload)))"

definition placeholder :: js where
  "placeholder = JObj [(''type'', JStr ''text''), (''text'', JStr ''[Visual content withheld from this DSG compatibility recovery call.]'')]"

definition notice_message :: "string \<Rightarrow> js" where
  "notice_message t = JObj [(''role'', JStr ''user''), (''content'', JArr [JObj [(''type'', JStr ''text''), (''text'', JStr t)]])]"

text \<open>The blocks of a message without those that \<open>drop_it\<close> selects; a message that only had such blocks says so.\<close>

definition withhold :: "(js \<Rightarrow> bool) \<Rightarrow> js \<Rightarrow> js" where
  "withhold drop_it message =
     (case jget message ''content'' of
        JArr blocks \<Rightarrow> let rest = filter (\<lambda>b. \<not> drop_it b) blocks in
          jset message ''content'' (JArr (if rest = [] \<and> blocks \<noteq> [] then [placeholder] else rest))
      | _ \<Rightarrow> message)"

definition withheld_count :: "(js \<Rightarrow> bool) \<Rightarrow> js list \<Rightarrow> nat" where
  "withheld_count drop_it messages = sum_list (map (\<lambda>m. length (filter drop_it (blocks_of m))) messages)"

record recovered =
  rc_payload :: js
  rc_removed :: nat
  rc_total :: nat
  rc_stream :: bool

definition streams :: "js \<Rightarrow> bool" where
  "streams payload \<longleftrightarrow> jget payload ''stream'' = JBool True"

definition recover_limit :: "vision_params \<Rightarrow> js \<Rightarrow> string \<Rightarrow> nat \<Rightarrow> vision_error + recovered" where
  "recover_limit p payload route max_images =
     (if route \<noteq> chat_route \<or> max_images < 1 then Inl LimitRepairUnsupported
      else case jget payload ''messages'' of
        JArr messages \<Rightarrow>
          (let total_images = typed_image_count payload route; removed = withheld_count typed_image messages;
               changed = map (withhold typed_image) messages in
           if total_images \<le> max_images then Inl LimitNotProven
           else if removed \<noteq> total_images \<or> typed_image_count (jset payload ''messages'' (JArr changed)) route \<noteq> 0 then Inl LimitInvariant
           else Inr \<lparr>rc_payload = jset payload ''messages'' (JArr (changed @ [notice_message (vp_limit_notice p total_images)])),
                  rc_removed = removed, rc_total = 0, rc_stream = streams payload\<rparr>)
      | _ \<Rightarrow> Inl JsonInvalid)"

definition gif_prefix :: string where
  "gif_prefix = ''data:image/gif;base64,''"

definition jpeg_prefixes :: "string list" where
  "jpeg_prefixes = [''data:image/jpeg;base64,'', ''data:image/jpg;base64,'']"

definition is_gif :: "js \<Rightarrow> bool" where
  "is_gif block \<longleftrightarrow> is_image_type block \<and> (case image_value block of JStr s \<Rightarrow> has_prefix gif_prefix s | _ \<Rightarrow> False)"

definition gif_bytes :: "js \<Rightarrow> string option" where
  "gif_bytes block = (case image_value block of JStr s \<Rightarrow> strict_base64 (drop (length gif_prefix) s) | _ \<Rightarrow> None)"

definition gif_magic :: "string \<Rightarrow> bool" where
  "gif_magic s \<longleftrightarrow> take 6 s \<in> {''GIF87a'', ''GIF89a''}"

definition valid_gif :: "js \<Rightarrow> bool" where
  "valid_gif block \<longleftrightarrow> (case gif_bytes block of Some x \<Rightarrow> gif_magic x | None \<Rightarrow> False)"

definition recover_gifs :: "vision_params \<Rightarrow> js \<Rightarrow> string \<Rightarrow> vision_error + recovered" where
  "recover_gifs p payload route =
     (if route \<noteq> chat_route then Inl GifRepairUnsupported
      else case jget payload ''messages'' of
        JArr messages \<Rightarrow>
          (let removed = withheld_count is_gif messages; changed = map (withhold is_gif) messages;
               result = jset payload ''messages'' (JArr (changed @ [notice_message (vp_gif_notice p removed)])) in
           if list_ex (\<lambda>m. list_ex (\<lambda>b. is_gif b \<and> \<not> valid_gif b) (blocks_of m)) messages then Inl GifPayloadInvalid
           else if removed = 0 then Inl GifNotFound
           else Inr \<lparr>rc_payload = result, rc_removed = removed, rc_total = typed_image_count result route, rc_stream = streams payload\<rparr>)
      | _ \<Rightarrow> Inl JsonInvalid)"

section \<open>The captured request\<close>

text \<open>The checks that every inspection starts with.\<close>

definition captured :: "vision_params \<Rightarrow> vision_limits \<Rightarrow> bool \<Rightarrow> string option \<Rightarrow> vision_error + js" where
  "captured p l enabled body =
     (if \<not> enabled then Inl ProtectionDisabled
      else case body of
        None \<Rightarrow> Inl CaptureUnavailable
      | Some b \<Rightarrow>
          if b = [] \<or> length b > vl_request l then Inl CaptureUnavailable
          else (case vp_parse p b of Some v \<Rightarrow> if is_obj v then Inr v else Inl JsonInvalid | None \<Rightarrow> Inl JsonInvalid))"

definition sized :: "vision_params \<Rightarrow> vision_limits \<Rightarrow> recovered \<Rightarrow> vision_error + (recovered \<times> string)" where
  "sized p l r = (let b = vp_json p (rc_payload r) in if length b > vl_normalized l then Inl RequestTooLarge else Inr (r, b))"

definition inspect_image_limit :: "vision_params \<Rightarrow> vision_limits \<Rightarrow> bool \<Rightarrow> string option \<Rightarrow> string \<Rightarrow> vision_error + (nat \<times> bool)" where
  "inspect_image_limit p l enabled body route =
     (case captured p l enabled body of
        Inl e \<Rightarrow> Inl e
      | Inr v \<Rightarrow> let n = typed_image_count v route in if n \<le> 16 then Inl LimitNotProven else Inr (n, streams v))"

definition recover_image_limit :: "vision_params \<Rightarrow> vision_limits \<Rightarrow> bool \<Rightarrow> string option \<Rightarrow> string \<Rightarrow> vision_error + (recovered \<times> string)" where
  "recover_image_limit p l enabled body route =
     (case captured p l enabled body of
        Inl e \<Rightarrow> Inl e
      | Inr v \<Rightarrow> (case recover_limit p v route 16 of Inl e \<Rightarrow> Inl e | Inr r \<Rightarrow> sized p l r))"

datatype image_kind = Jpeg | Gif

text \<open>A reference to an embedded image: its kind and its encoded bytes.\<close>

definition image_ref :: "js \<Rightarrow> (image_kind \<times> string) option" where
  "image_ref block =
     (if \<not> is_image_type block then None
      else case image_value block of
        JStr s \<Rightarrow> (case List.find (\<lambda>q. has_prefix q s) jpeg_prefixes of
            Some q \<Rightarrow> Some (Jpeg, drop (length q) s)
          | None \<Rightarrow> if has_prefix gif_prefix s then Some (Gif, drop (length gif_prefix) s) else None)
      | _ \<Rightarrow> None)"

definition image_refs :: "js \<Rightarrow> string \<Rightarrow> (image_kind \<times> string) list" where
  "image_refs payload route =
     (if route \<noteq> chat_route then [] else concat (map (\<lambda>m. List.map_filter image_ref (blocks_of m)) (messages_of payload)))"

definition gif_ok :: "vision_limits \<Rightarrow> image_kind \<times> string \<Rightarrow> bool" where
  "gif_ok l r \<longleftrightarrow> (case strict_base64 (snd r) of Some x \<Rightarrow> length x \<le> vl_image l \<and> gif_magic x | None \<Rightarrow> False)"

definition inspect_gif :: "vision_params \<Rightarrow> vision_limits \<Rightarrow> bool \<Rightarrow> string option \<Rightarrow> string \<Rightarrow> vision_error + (nat \<times> bool)" where
  "inspect_gif p l enabled body route =
     (case captured p l enabled body of
        Inl e \<Rightarrow> Inl e
      | Inr v \<Rightarrow> (let gifs = filter (\<lambda>r. fst r = Gif) (image_refs v route) in
          if gifs = [] then Inl GifNotFound else if \<not> list_all (gif_ok l) gifs then Inl GifPayloadInvalid else Inr (length gifs, streams v)))"

definition recover_gif :: "vision_params \<Rightarrow> vision_limits \<Rightarrow> bool \<Rightarrow> string option \<Rightarrow> string \<Rightarrow> vision_error + (recovered \<times> string)" where
  "recover_gif p l enabled body route =
     (case inspect_gif p l enabled body route of
        Inl e \<Rightarrow> Inl e
      | Inr (n, _) \<Rightarrow> (case captured p l enabled body of
          Inl e \<Rightarrow> Inl e
        | Inr v \<Rightarrow> (case recover_gifs p v route of
            Inl e \<Rightarrow> Inl e
          | Inr r \<Rightarrow> if rc_removed r \<noteq> n then Inl GifInvariant else sized p l r)))"

section \<open>Conversion\<close>

definition jpeg_ok :: "vision_limits \<Rightarrow> image_kind \<times> string \<Rightarrow> bool" where
  "jpeg_ok l r \<longleftrightarrow> fst r = Jpeg \<and> (case strict_base64 (snd r) of
     Some x \<Rightarrow> length x \<le> vl_image l \<and> take 2 x = [CHR 0xFF, CHR 0xD8] | None \<Rightarrow> False)"

definition converted :: "vision_params \<Rightarrow> vision_limits \<Rightarrow> image_kind \<times> string \<Rightarrow> vision_error + string" where
  "converted p l r =
     (case Option.bind (strict_base64 (snd r)) (vp_transcode p) of
        None \<Rightarrow> Inl TranscoderFailed
      | Some png \<Rightarrow> if length png > vl_normalized l then Inl TranscodedTooLarge else Inr (''data:image/png;base64,'' @ encode_base64 png))"

definition set_image :: "js \<Rightarrow> string \<Rightarrow> js" where
  "set_image block s =
     (case jget block ''image_url'' of
        JStr _ \<Rightarrow> jset block ''image_url'' (JStr s)
      | v \<Rightarrow> jset block ''image_url'' (jset v ''url'' (JStr s)))"

definition convert_block :: "vision_params \<Rightarrow> vision_limits \<Rightarrow> js \<Rightarrow> js" where
  "convert_block p l block =
     (case image_ref block of Some r \<Rightarrow> (case converted p l r of Inr s \<Rightarrow> set_image block s | Inl _ \<Rightarrow> block) | None \<Rightarrow> block)"

definition convert_message :: "vision_params \<Rightarrow> vision_limits \<Rightarrow> js \<Rightarrow> js" where
  "convert_message p l message =
     (case jget message ''content'' of JArr bs \<Rightarrow> jset message ''content'' (JArr (map (convert_block p l) bs)) | _ \<Rightarrow> message)"

definition first_failure :: "(vision_error + 'a) list \<Rightarrow> vision_error option" where
  "first_failure xs = (case List.find (\<lambda>x. case x of Inl _ \<Rightarrow> True | Inr _ \<Rightarrow> False) xs of Some (Inl e) \<Rightarrow> Some e | _ \<Rightarrow> None)"

definition normalize_request :: "vision_params \<Rightarrow> vision_limits \<Rightarrow> bool \<Rightarrow> string option \<Rightarrow> string \<Rightarrow> vision_error + (recovered \<times> string)" where
  "normalize_request p l enabled body route =
     (case captured p l enabled body of
        Inl e \<Rightarrow> Inl e
      | Inr v \<Rightarrow>
          (let refs = image_refs v route in
           if refs = [] then Inl ImageNotFound
           else if list_ex (\<lambda>r. fst r = Gif) refs then Inl GifNotSupported
           else if \<not> list_all (jpeg_ok l) refs then Inl JpegPayloadInvalid
           else case first_failure (map (converted p l) refs) of
             Some e \<Rightarrow> Inl e
           | None \<Rightarrow> let payload = jset v ''messages'' (JArr (map (convert_message p l) (messages_of v))) in
               sized p l \<lparr>rc_payload = payload, rc_removed = length refs, rc_total = typed_image_count payload route, rc_stream = streams v\<rparr>))"

section \<open>Refusals, guidance, counters\<close>

datatype rejection = ImageLimitRejection | JpegRejection | GifCandidate

definition inspection_limit :: nat where
  "inspection_limit = 65536"

definition vision_rejection :: "vision_params \<Rightarrow> nat \<Rightarrow> string \<Rightarrow> rejection option" where
  "vision_rejection p status body =
     (if status \<noteq> 400 \<or> length body > inspection_limit then None
      else case vp_parse p body of
        None \<Rightarrow> None
      | Some v \<Rightarrow>
          (let e = (let x = jget v ''error'' in if nullish x then v else x); m = jget e ''message''; t = jget e ''type'' in
           if m = JStr ''too many images; at most 16 are allowed'' \<and> t = JStr ''invalid_request_error'' then Some ImageLimitRejection
           else if m = JStr ''invalid or unsupported JPEG image'' then Some JpegRejection
           else if m = JStr ''invalid JSON request'' \<and> t = JStr ''invalid_request_error'' then Some GifCandidate
           else None))"

definition guidance_values :: "bool \<Rightarrow> string \<Rightarrow> string \<Rightarrow> int \<Rightarrow> string \<Rightarrow> js list" where
  "guidance_values stream request_id model created text =
     (let head = (\<lambda>kind. [(''id'', JStr (''chatcmpl-dsg-'' @ request_id)), (''object'', JStr kind), (''created'', jint created), (''model'', JStr model)]);
          choice = (\<lambda>k body reason. JArr [JObj [(''index'', jint 0), (k, JObj body), (''finish_reason'', reason)]]);
          said = [(''role'', JStr ''assistant''), (''content'', JStr text)]
      in if stream then [JObj (head ''chat.completion.chunk'' @ [(''choices'', choice ''delta'' said JNull)]),
                         JObj (head ''chat.completion.chunk'' @ [(''choices'', choice ''delta'' [] (JStr ''stop''))])]
         else [JObj (head ''chat.completion'' @ [(''choices'', choice ''message'' said (JStr ''stop''))])])"

definition vision_enabled :: "js \<Rightarrow> js \<Rightarrow> bool" where
  "vision_enabled saved configured \<longleftrightarrow> or_else saved configured = JBool True"

definition vision_capture_limit :: "vision_limits \<Rightarrow> bool \<Rightarrow> string \<Rightarrow> string \<Rightarrow> nat" where
  "vision_capture_limit l enabled route encoding = (if enabled \<and> route = chat_route \<and> encoding = [] then vl_request l else 0)"

definition set_protection :: "js \<Rightarrow> js option" where
  "set_protection input =
     (if exact_fields input [''enabled'', ''id''] \<and> jget input ''id'' = JStr ''vision_jpeg'' \<and> is_bool (jget input ''enabled'')
      then Some (jget input ''enabled'') else None)"

datatype vision_event = Rescued | Guided | VisionFailed

record vision_counts =
  vc_rescued :: nat
  vc_guided :: nat
  vc_failed :: nat

definition vision_record :: "vision_event \<Rightarrow> vision_counts \<Rightarrow> vision_counts" where
  "vision_record k c = (case k of Rescued \<Rightarrow> c\<lparr>vc_rescued := vc_rescued c + 1\<rparr> | Guided \<Rightarrow> c\<lparr>vc_guided := vc_guided c + 1\<rparr>
     | VisionFailed \<Rightarrow> c\<lparr>vc_failed := vc_failed c + 1\<rparr>)"

lemma fget_update: "fget (AList.update k x kvs) j = (if j = k then x else fget kvs j)"
  by (induction kvs) auto

end
