(* ===== verification/Vision_Recovery.thy ===== *)
theory Vision_Recovery
  imports Vision_Protection
begin

text \<open>What the vision recovery keeps: base64 is read only in its canonical form, and withholding images changes nothing else.\<close>

section \<open>Base64\<close>

lemma code_byte: "code (byte n) = n mod 256"
  by (simp add: code_def byte_def)

lemma byte_code [simp]: "byte (code c) = c"
  by (simp add: code_def byte_def)

lemma code_less [simp]: "code c < 256"
  by (simp add: code_def)

lemma letters_valued: "list_all (\<lambda>i. b64_value (b64_letters ! i) = Some i) [0..<64] \<and> list_all (\<lambda>i. b64_letters ! i \<noteq> CHR ''='') [0..<64]"
  by code_simp

lemma value_letter [simp]: "b64_value (letter n) = Some (n mod 64)"
  using letters_valued by (simp add: letter_def list_all_iff)

lemma letter_not_pad [simp]: "letter n \<noteq> CHR ''=''"
  using letters_valued by (simp add: letter_def list_all_iff)

lemma valueD: "b64_value c = Some i \<Longrightarrow> i < 64 \<and> letter i = c"
  by (auto simp: b64_value_def letter_def find_Some_iff split: option.splits)

lemma value_pad [simp]: "b64_value (CHR ''='') = None"
proof -
  have "b64_value (CHR ''='') = Some i \<Longrightarrow> False" for i using valueD letter_not_pad by blast
  then show ?thesis by (cases "b64_value (CHR ''='')") auto
qed

lemma decode_cons: "rest \<noteq> [] \<Longrightarrow> decode_groups (a # b # c # d # rest) =
   (case four_letters a b c d of None \<Rightarrow> None | Some x \<Rightarrow> (case decode_groups rest of None \<Rightarrow> None | Some y \<Rightarrow> Some (x @ y)))"
proof (cases rest)
  case (Cons e es)
  show ?thesis unfolding Cons by (rule decode_groups.simps(3))
qed simp

lemma split_at: "0 < k \<Longrightarrow> \<exists>x y. (n::nat) = x * k + y \<and> y < k"
  by (metis div_mult_mod_eq mod_less_divisor)

lemma div_mod_at: "y < k \<Longrightarrow> (x * k + y) div k = (x::nat)" "y < k \<Longrightarrow> (x * k + y) mod k = (y::nat)"
  by simp_all

lemma sextets:
  assumes "(a::nat) < 256" "b < 256" "c < 256"
  shows "a div 4 mod 64 * 4 + (a mod 4 * 16 + b div 16) mod 64 div 16 = a"
    "(a mod 4 * 16 + b div 16) mod 64 mod 16 * 16 + (b mod 16 * 4 + c div 64) mod 64 div 4 = b"
    "(b mod 16 * 4 + c div 64) mod 64 mod 4 * 64 + c mod 64 mod 64 = c"
proof -
  obtain a1 a0 b1 b0 c1 c0 where d: "a = a1 * 4 + a0" "a0 < 4" "b = b1 * 16 + b0" "b0 < 16" "c = c1 * 64 + c0" "c0 < 64"
    using split_at [of 4 a] split_at [of 16 b] split_at [of 64 c] by auto
  then have l: "a1 < 64" "b1 < 16" "c1 < 4" "a0 * 16 + b1 < 64" "b0 * 4 + c1 < 64" using assms by simp_all
  have q: "a div 4 = a1" "a mod 4 = a0" "b div 16 = b1" "b mod 16 = b0" "c div 64 = c1" "c mod 64 = c0" using d by simp_all
  show "a div 4 mod 64 * 4 + (a mod 4 * 16 + b div 16) mod 64 div 16 = a"
    "(a mod 4 * 16 + b div 16) mod 64 mod 16 * 16 + (b mod 16 * 4 + c div 64) mod 64 div 4 = b"
    "(b mod 16 * 4 + c div 64) mod 64 mod 4 * 64 + c mod 64 mod 64 = c"
    unfolding q using l d by (simp_all only: mod_less div_mod_at)
qed

lemma four_encoded: "four_letters (letter (code a div 4)) (letter (code a mod 4 * 16 + code b div 16))
     (letter (code b mod 16 * 4 + code c div 64)) (letter (code c mod 64)) = Some [a, b, c]"
  using sextets [of "code a" "code b" "code c"] by (simp add: four_letters_def)

lemma encode_nonempty: "encode_base64 x = [] \<longleftrightarrow> x = []"
  by (cases x rule: encode_base64.cases) simp_all

lemma decode_encode: "decode_groups (encode_base64 x) = Some x"
proof (induction x rule: encode_base64.induct)
  case (2 a)
  have "code a div 4 mod 64 * 4 + code a mod 4 * 16 mod 64 div 16 = code a" "code a mod 4 * 16 mod 64 mod 16 = 0"
    using sextets [of "code a" 0 0] by simp_all
  then show ?case by (simp add: two_letters_def)
next
  case (3 a b)
  have "code b mod 16 * 4 mod 64 mod 4 = 0" using sextets(3) [of "code a" "code b" 0] by simp
  moreover have "code a div 4 mod 64 * 4 + (code a mod 4 * 16 + code b div 16) mod 64 div 16 = code a"
    by (rule sextets [of "code a" "code b" 0]) simp_all
  moreover have "(code a mod 4 * 16 + code b div 16) mod 64 mod 16 * 16 + code b mod 16 * 4 mod 64 div 4 = code b"
    using sextets(2) [of "code a" "code b" 0] by (simp only: div_0 add_0_right) simp
  ultimately have "three_letters (letter (code a div 4)) (letter (code a mod 4 * 16 + code b div 16)) (letter (code b mod 16 * 4)) = Some [a, b]"
    by (simp only: three_letters_def value_letter option.case prod.case if_True byte_code refl)
  then show ?case by simp
next
  case (4 a b c rest)
  then show ?case
    using four_encoded [of a b c] by (cases "rest = []") (simp_all add: decode_cons encode_nonempty)
qed simp

lemma decoded_sextets:
  assumes "(x::nat) < 64" "y < 64" "z < 64" "w < 64"
  shows "(x * 4 + y div 16) mod 256 div 4 = x" "(x * 4 + y div 16) mod 256 mod 4 * 16 + (y mod 16 * 16 + z div 4) mod 256 div 16 = y"
    "(y mod 16 * 16 + z div 4) mod 256 mod 16 * 4 + (z mod 4 * 64 + w) mod 256 div 64 = z" "(z mod 4 * 64 + w) mod 256 mod 64 = w"
proof -
  obtain y1 y0 z1 z0 where d: "y = y1 * 16 + y0" "y0 < 16" "z = z1 * 4 + z0" "z0 < 4" using split_at [of 16 y] split_at [of 4 z] by auto
  then have l: "y1 < 4" "z1 < 16" "x * 4 + y1 < 256" "y0 * 16 + z1 < 256" "z0 * 64 + w < 256" using assms by simp_all
  have q: "y div 16 = y1" "y mod 16 = y0" "z div 4 = z1" "z mod 4 = z0" using d by simp_all
  show "(x * 4 + y div 16) mod 256 div 4 = x" "(x * 4 + y div 16) mod 256 mod 4 * 16 + (y mod 16 * 16 + z div 4) mod 256 div 16 = y"
    "(y mod 16 * 16 + z div 4) mod 256 mod 16 * 4 + (z mod 4 * 64 + w) mod 256 div 64 = z" "(z mod 4 * 64 + w) mod 256 mod 64 = w"
    unfolding q using l d assms by (simp_all only: mod_less div_mod_at)
qed

lemma encode_four: "four_letters a b c d = Some u \<Longrightarrow> encode_base64 (u @ v) = [a, b, c, d] @ encode_base64 v"
  by (auto simp: four_letters_def code_byte decoded_sextets split: option.splits dest!: valueD)

lemma encode_three: "three_letters a b c = Some u \<Longrightarrow> encode_base64 u = [a, b, c, CHR ''='']"
proof -
  assume "three_letters a b c = Some u"
  then obtain x y z where v: "b64_value a = Some x" "b64_value b = Some y" "b64_value c = Some z" "z mod 4 = 0"
      "u = [byte (x * 4 + y div 16), byte (y mod 16 * 16 + z div 4)]"
    by (auto simp: three_letters_def split: option.splits if_splits)
  then have "x < 64" "y < 64" "z < 64" "letter x = a" "letter y = b" "letter z = c" using valueD by blast+
  then show ?thesis using v decoded_sextets [of x y z 0] by (simp add: code_byte)
qed

lemma encode_two: "two_letters a b = Some u \<Longrightarrow> encode_base64 u = [a, b, CHR ''='', CHR ''='']"
proof -
  assume "two_letters a b = Some u"
  then obtain x y where v: "b64_value a = Some x" "b64_value b = Some y" "y mod 16 = 0" "u = [byte (x * 4 + y div 16)]"
    by (auto simp: two_letters_def split: option.splits if_splits)
  then have "x < 64" "y < 64" "letter x = a" "letter y = b" using valueD by blast+
  then show ?thesis using v decoded_sextets [of x y 0 0] by (simp add: code_byte)
qed

lemma encode_decode: "decode_groups s = Some x \<Longrightarrow> encode_base64 x = s"
proof (induction s arbitrary: x rule: decode_groups.induct)
  case (2 a b c d)
  then show ?case
    using encode_four [of a b c d x "[]"] by (auto simp: encode_two encode_three split: if_splits)
next
  case (3 a b c d e es)
  then obtain u v where "four_letters a b c d = Some u" "decode_groups (e # es) = Some v" "x = u @ v" by (auto split: option.splits)
  then show ?case using encode_four 3 by simp
qed simp_all

text \<open>C28: Embedded images are read only in canonical base64. Decoding returns exactly the bytes that were encoded, for every byte string,
  and a text is accepted only when encoding its bytes gives the same text back, so no two accepted texts stand for one image.\<close>

theorem base64_is_canonical:
  "strict_base64 (encode_base64 x) = (if x = [] then None else Some x) \<and>
   (case strict_base64 s of Some y \<Rightarrow> encode_base64 y = s | None \<Rightarrow> True)"
  by (simp add: strict_base64_def decode_encode encode_nonempty encode_decode split: option.split)

section \<open>Withholding\<close>

lemma jget_jset: "jget (jset v k x) j = (if j = k \<and> is_obj v then x else jget v j)"
  by (cases v) (simp_all add: jset_def fget_update)

text \<open>The message is the same, except that the selected blocks are gone from its content, or that it only says so.\<close>

definition only_withheld :: "(js \<Rightarrow> bool) \<Rightarrow> js \<Rightarrow> js \<Rightarrow> bool" where
  "only_withheld d m m' \<longleftrightarrow> (\<forall>k. k \<noteq> ''content'' \<longrightarrow> jget m' k = jget m k) \<and>
     (blocks_of m' = filter (\<lambda>b. \<not> d b) (blocks_of m) \<or>
      blocks_of m \<noteq> [] \<and> list_all d (blocks_of m) \<and> blocks_of m' = [placeholder])"

definition conversation_kept :: "(js \<Rightarrow> bool) \<Rightarrow> js \<Rightarrow> js \<Rightarrow> bool" where
  "conversation_kept d v v' \<longleftrightarrow> (\<forall>k. k \<noteq> ''messages'' \<longrightarrow> jget v' k = jget v k) \<and>
     (\<exists>t. list_all2 (only_withheld d) (messages_of v) (butlast (messages_of v')) \<and> last (messages_of v') = notice_message t)"

lemma blocks_withhold: "only_withheld d m (withhold d m)" and withhold_none: "\<not> d placeholder \<Longrightarrow> filter d (blocks_of (withhold d m)) = []"
proof -
  have "only_withheld d m (withhold d m) \<and> (d placeholder \<or> filter d (blocks_of (withhold d m)) = [])"
  proof (cases "jget m ''content''")
    case (JArr bs)
    then have "is_obj m" by (cases m) auto
    then show ?thesis using JArr
      by (auto simp: only_withheld_def withhold_def Let_def jget_jset blocks_of_def elements_def filter_empty_conv list_all_iff)
  qed (auto simp: only_withheld_def withhold_def blocks_of_def elements_def)
  then show "only_withheld d m (withhold d m)" "\<not> d placeholder \<Longrightarrow> filter d (blocks_of (withhold d m)) = []" by auto
qed

lemma placeholder_plain [simp]: "\<not> typed_image placeholder" "\<not> is_gif placeholder"
  by (simp_all add: typed_image_def is_gif_def is_image_type_def placeholder_def)

lemma notice_plain [simp]: "filter typed_image (blocks_of (notice_message t)) = []" "filter is_gif (blocks_of (notice_message t)) = []"
  by (simp_all add: typed_image_def is_gif_def is_image_type_def notice_message_def blocks_of_def elements_def)

lemma messages_obj: "jget v ''messages'' = JArr ms \<Longrightarrow> is_obj v"
  by (cases v) simp_all

lemma messages_set: "is_obj v \<Longrightarrow> messages_of (jset v ''messages'' (JArr xs)) = xs"
  by (simp add: messages_of_def jget_jset elements_def)

lemma kept_conversation:
  "jget v ''messages'' = JArr ms \<Longrightarrow> conversation_kept d v (jset v ''messages'' (JArr (map (withhold d) ms @ [notice_message t])))"
  using blocks_withhold [of d] messages_obj [of v ms]
  by (auto simp: conversation_kept_def jget_jset messages_set messages_of_def elements_def list_all2_conv_all_nth)

lemma no_images_left: "is_obj v \<Longrightarrow> typed_image_count (jset v ''messages'' (JArr (map (withhold typed_image) ms @ ns))) route =
   typed_image_count (jset v ''messages'' (JArr ns)) route"
  by (induction ms) (simp_all add: typed_image_count_def messages_set withhold_none)

text \<open>C27: The image-limit recovery withholds the images and nothing else. Whenever it repairs a request, the request really carried more
  images than the engine allows, all of them are gone, every other field of the request and of each message is unchanged, every other
  content block is kept in its order, and one notice is appended. The code's own invariant check can never fail.\<close>

theorem recovery_withholds_images_only:
  "(case recover_limit p v route n of
      Inl e \<Rightarrow> e \<noteq> LimitInvariant
    | Inr r \<Rightarrow> n < rc_removed r \<and> rc_removed r = typed_image_count v route \<and> typed_image_count (rc_payload r) route = 0 \<and>
        conversation_kept typed_image v (rc_payload r) \<and> rc_stream r = streams v)"
proof (cases "route \<noteq> chat_route \<or> n < 1 \<or> (\<forall>ms. jget v ''messages'' \<noteq> JArr ms)")
  case True
  then show ?thesis by (auto simp: recover_limit_def split: js.split)
next
  case False
  then obtain ms where ms: "jget v ''messages'' = JArr ms" "route = chat_route" "\<not> n < 1" by auto
  have obj: "is_obj v" using ms messages_obj by blast
  have all: "withheld_count typed_image ms = typed_image_count v route"
    using ms by (simp add: withheld_count_def typed_image_count_def messages_of_def elements_def)
  have none: "typed_image_count (jset v ''messages'' (JArr (map (withhold typed_image) ms))) route = 0"
    using no_images_left [OF obj, of ms "[]"] by (simp add: typed_image_count_def messages_set obj)
  have left: "typed_image_count (jset v ''messages'' (JArr (map (withhold typed_image) ms @ [notice_message t]))) route = 0" for t
    using no_images_left [OF obj, of ms "[notice_message t]"] by (simp add: typed_image_count_def messages_set obj)
  show ?thesis using ms all none left kept_conversation [OF ms(1)] by (simp add: recover_limit_def Let_def)
qed

end
