(* ===== verification/Request_Forwarding.thy ===== *)
theory Request_Forwarding
  imports Vision_Protection Gate_Requests
begin

text \<open>
  The forwarding of one dispatched request, \<open>dispatch\<close> of \<open>ds4-gateway/gateway.mjs\<close>: the headers that cross, the first attempt and
  the one repaired attempt, the answer that is piped or first inspected, and what the client is sent. The upstream connection is a
  sequence of events that name their attempt; as Node promises, nothing more comes from an attempt that failed or whose answer ended.
  The waiting answers of the protection are computed when their event is handled. The observers and counters that \<open>finish\<close> also feeds
  are the subject of other theories.
\<close>

section \<open>Headers\<close>

type_synonym headers = "(string \<times> js) list"

fun split_commas :: "string \<Rightarrow> string list" where
  "split_commas [] = [[]]"
| "split_commas (c # s) = (if c = CHR '','' then [] # split_commas s else (c # hd (split_commas s)) # tl (split_commas s))"

definition hop_headers :: "string list" where
  "hop_headers = [''connection'', ''keep-alive'', ''proxy-authenticate'', ''proxy-authorization'', ''te'', ''trailer'', ''transfer-encoding'',
     ''upgrade'']"

definition named_hops :: "headers \<Rightarrow> string list" where
  "named_hops hs = map trim (split_commas (lower_text (js_string (fget hs ''connection''))))"

definition forward_headers :: "headers \<Rightarrow> headers" where
  "forward_headers hs = filter (\<lambda>(k, _). lower_text k \<notin> set hop_headers \<and> lower_text k \<notin> set (named_hops hs)) hs"

definition remove_headers :: "string list \<Rightarrow> headers \<Rightarrow> headers" where
  "remove_headers ks hs = filter (\<lambda>(k, _). k \<notin> set ks) hs"

definition put_headers :: "headers \<Rightarrow> headers \<Rightarrow> headers" where
  "put_headers xs hs = fold (\<lambda>(k, v). AList.update k v) xs hs"

definition client_secrets :: "string list" where
  "client_secrets = [''authorization'', ''x-api-key'', ''x-dsg-model'']"

definition gateway_hints :: "string list" where
  "gateway_hints = [''x-dsg-review-flexible'', ''x-dsg-review-no-wait'', ''x-dsg-priority'', ''x-dsg-priority-intent'', ''x-dsg-client-metadata'',
     ''x-dsg-call-id'', ''x-dsg-client-watch-id'']"

definition upstream_headers :: "headers \<Rightarrow> headers \<Rightarrow> string \<Rightarrow> string \<Rightarrow> headers" where
  "upstream_headers incoming worker_headers host request_id =
     remove_headers [''expect'']
       (put_headers [(''host'', JStr host), (''x-request-id'', JStr request_id)]
         (remove_headers gateway_hints (put_headers worker_headers (remove_headers client_secrets (forward_headers incoming)))))"

definition attempt_headers :: "nat option \<Rightarrow> bool \<Rightarrow> headers \<Rightarrow> headers" where
  "attempt_headers replacement_length rewritten hs =
     (let sized = (case replacement_length of
          Some n \<Rightarrow> AList.update ''content-length'' (jint (int n)) (remove_headers [''transfer-encoding''] hs) | None \<Rightarrow> hs)
      in if rewritten then remove_headers [''content-length''] sized else sized)"

datatype recovery_kind = LimitRecovery | GifRecovery | JpegRecovery

definition response_headers :: "headers \<Rightarrow> string \<Rightarrow> string \<Rightarrow> string \<Rightarrow> (recovery_kind \<times> nat) option \<Rightarrow> headers" where
  "response_headers answered worker request_id home_kind normalized =
     (let hs = put_headers [(''x-ds4-node'', JStr worker), (''x-request-id'', JStr request_id), (''x-ds4-affinity'', JStr home_kind),
            (''x-dsg-dispatch-state'', JStr ''dispatched''), (''x-accel-buffering'', JStr ''no'')] (forward_headers answered) in
      case normalized of
        Some (LimitRecovery, n) \<Rightarrow> put_headers [(''x-dsg-protection'', JStr ''vision-image-limit-recovery''),
          (''x-dsg-images-withheld'', JNum (of_nat n))] hs
      | Some (GifRecovery, n) \<Rightarrow> put_headers [(''x-dsg-protection'', JStr ''vision-gif-recovery''), (''x-dsg-gifs-withheld'', JNum (of_nat n))] hs
      | _ \<Rightarrow> hs)"

section \<open>Attempts and the answer\<close>

record attempt =
  at_body :: "string option"  \<comment> \<open>the repaired body; \<open>None\<close> is the client's own upload\<close>
  at_fresh :: bool
  at_reused :: bool
  at_connected :: bool
  at_status :: "nat option"
  at_received :: string
  at_over :: bool  \<comment> \<open>failed, or its answer ended\<close>
  at_refusal :: "rejection option"

datatype attestation = NotDispatched | DispatchedState | Unattested

datatype client_write = Head nat attestation bool | Bytes string | Guidance recovery_kind | ErrorReport | AnswerEnd

datatype answer_mode =
    AwaitResponse
  | Piping nat nat bool bool
  | Buffering nat nat bool bool string
  | AwaitBody rejection nat bool bool string
  | AwaitConversion "vision_error + (recovered \<times> string)"
  | Answered

record forwarding =
  fo_post :: bool
  fo_route :: string
  fo_capturing :: bool
  fo_attempts :: "attempt list"
  fo_mode :: answer_mode
  fo_cancelled :: bool
  fo_destroyed :: bool
  fo_settled :: "outcome option"
  fo_normalized :: "(recovery_kind \<times> nat) option"
  fo_sent :: "client_write list"

definition new_attempt :: "string option \<Rightarrow> attempt" where
  "new_attempt b = \<lparr>at_body = b, at_fresh = False, at_reused = False, at_connected = False, at_status = None, at_received = [],
     at_over = False, at_refusal = None\<rparr>"

definition forward_start :: "bool \<Rightarrow> string \<Rightarrow> bool \<Rightarrow> forwarding" where
  "forward_start post path capturing =
     \<lparr>fo_post = post, fo_route = path, fo_capturing = capturing, fo_attempts = [new_attempt None], fo_mode = AwaitResponse, fo_cancelled = False,
      fo_destroyed = False, fo_settled = None, fo_normalized = None, fo_sent = []\<rparr>"

definition is_head :: "client_write \<Rightarrow> bool" where
  "is_head w = (case w of Head _ _ _ \<Rightarrow> True | _ \<Rightarrow> False)"

definition headers_sent :: "forwarding \<Rightarrow> bool" where
  "headers_sent s = list_ex is_head (fo_sent s)"

text \<open>A write to a destroyed response reaches nobody.\<close>

definition send :: "client_write list \<Rightarrow> forwarding \<Rightarrow> forwarding" where
  "send ws s = (if fo_destroyed s then s else s\<lparr>fo_sent := fo_sent s @ ws\<rparr>)"

definition settle :: "outcome \<Rightarrow> forwarding \<Rightarrow> forwarding" where
  "settle o' s = (if fo_settled s = None then s\<lparr>fo_settled := Some o'\<rparr> else s)"

definition set_mode :: "answer_mode \<Rightarrow> forwarding \<Rightarrow> forwarding" where
  "set_mode m s = s\<lparr>fo_mode := m\<rparr>"

definition set_attempt :: "nat \<Rightarrow> (attempt \<Rightarrow> attempt) \<Rightarrow> forwarding \<Rightarrow> forwarding" where
  "set_attempt n f s = s\<lparr>fo_attempts := (fo_attempts s)[n := f (fo_attempts s ! n)]\<rparr>"

definition destroy :: "forwarding \<Rightarrow> forwarding" where
  "destroy s = s\<lparr>fo_destroyed := True\<rparr>"

definition is_retry :: "nat \<Rightarrow> forwarding \<Rightarrow> bool" where
  "is_retry n s = (at_body (fo_attempts s ! n) \<noteq> None)"

definition issue_retry :: "string \<Rightarrow> forwarding \<Rightarrow> forwarding" where
  "issue_retry b s = s\<lparr>fo_attempts := fo_attempts s @ [new_attempt (Some b)], fo_mode := AwaitResponse\<rparr>"

definition stream_verdict :: "bool \<Rightarrow> bool \<Rightarrow> stream_end \<Rightarrow> stream_end option" where
  "stream_verdict sse encoded e = (if sse then Some (if encoded then EncodedUnobserved else e) else None)"

definition send_buffered :: "nat \<Rightarrow> bool \<Rightarrow> bool \<Rightarrow> stream_end \<Rightarrow> string \<Rightarrow> forwarding \<Rightarrow> forwarding" where
  "send_buffered status sse encoded e body s =
     settle (response_outcome (int status) (stream_verdict sse encoded e))
       (set_mode Answered (send [Head status DispatchedState False, Bytes body, AnswerEnd] s))"

definition recovery_of :: "forwarding \<Rightarrow> recovery_kind" where
  "recovery_of s = (case fo_normalized s of Some (k, _) \<Rightarrow> k | None \<Rightarrow> JpegRecovery)"

definition send_guidance :: "recovery_kind \<Rightarrow> forwarding \<Rightarrow> forwarding" where
  "send_guidance k s =
     (if fo_settled s \<noteq> None then s
      else if fo_cancelled s \<or> fo_destroyed s then settle ClientCancelled s
      else settle VisionGuidance (set_mode Answered (send [Head 200 DispatchedState True, Guidance k, AnswerEnd] s)))"

definition cancelled_or :: "outcome \<Rightarrow> forwarding \<Rightarrow> outcome" where
  "cancelled_or o' s = (if fo_cancelled s then ClientCancelled else o')"

section \<open>Events\<close>

datatype forward_event =
    SocketConnecting nat
  | SocketReused nat
  | SocketConnected nat
  | Response nat nat bool bool bool
  | Chunk nat string
  | AnswerEnds nat stream_end
  | AnswerFails nat
  | AnswerAborts nat
  | RequestFails nat bool
  | RequestCloses nat
  | BodyReady "string option" bool stream_end
  | ConversionDone
  | ClientGone

definition live :: "nat \<Rightarrow> forwarding \<Rightarrow> bool" where
  "live n s \<longleftrightarrow> n < length (fo_attempts s) \<and> \<not> at_over (fo_attempts s ! n)"

definition answering :: "nat \<Rightarrow> forwarding \<Rightarrow> bool" where
  "answering n s \<longleftrightarrow> live n s \<and> at_status (fo_attempts s ! n) \<noteq> None"

text \<open>The response callback of \<open>issue\<close>: a 400 that may be a refusal of images is inspected first. Of the head that
  \<open>response_headers\<close> builds, a write keeps the status and the attestation, which is always \<open>dispatched\<close>
  (\<open>answers_attest_dispatch\<close> of \<open>Forwarding_Safety\<close>).\<close>

definition got_response :: "nat \<Rightarrow> nat \<Rightarrow> bool \<Rightarrow> bool \<Rightarrow> bool \<Rightarrow> forwarding \<Rightarrow> forwarding" where
  "got_response n status sse encoded enabled s =
     (let s1 = set_attempt n (\<lambda>a. a\<lparr>at_status := Some status\<rparr>) s in
      if status = 400 \<and> enabled \<and> (is_retry n s \<or> fo_capturing s) then set_mode (Buffering n status sse encoded []) s1
      else set_mode (Piping n status sse encoded) (send [Head status DispatchedState False] s1))"

definition got_chunk :: "nat \<Rightarrow> string \<Rightarrow> forwarding \<Rightarrow> forwarding" where
  "got_chunk n c s =
     (let s1 = set_attempt n (\<lambda>a. a\<lparr>at_received := at_received a @ c\<rparr>) s in
      case fo_mode s of
        Piping _ _ _ _ \<Rightarrow> send [Bytes c] s1
      | Buffering _ status sse encoded b \<Rightarrow>
          if length b + length c \<le> inspection_limit then set_mode (Buffering n status sse encoded (b @ c)) s1
          else set_mode (Piping n status False encoded) (send [Head status DispatchedState False, Bytes b, Bytes c] s1)
      | _ \<Rightarrow> s1)"

text \<open>The end of an inspected answer.\<close>

definition inspect_end ::
  "vision_params \<Rightarrow> nat \<Rightarrow> nat \<Rightarrow> bool \<Rightarrow> bool \<Rightarrow> stream_end \<Rightarrow> string \<Rightarrow> forwarding \<Rightarrow> forwarding" where
  "inspect_end p n status sse encoded e body s =
     (case vision_rejection p status body of
        None \<Rightarrow> send_buffered status sse encoded e body s
      | Some k \<Rightarrow>
          (let s1 = set_attempt n (\<lambda>a. a\<lparr>at_refusal := Some k\<rparr>) s in
           if k = ImageLimitRejection \<and> is_retry n s then
             (case fo_normalized s of
                Some (LimitRecovery, _) \<Rightarrow> send_guidance LimitRecovery s1
              | Some (_, m) \<Rightarrow> if m > 16 then send_guidance LimitRecovery s1 else send_buffered status sse encoded e body s1
              | None \<Rightarrow> send_buffered status sse encoded e body s1)
           else if k = JpegRejection \<and> is_retry n s then send_guidance (recovery_of s) s1
           else set_mode (AwaitBody k status sse encoded body) s1))"

definition answer_ended :: "vision_params \<Rightarrow> nat \<Rightarrow> stream_end \<Rightarrow> forwarding \<Rightarrow> forwarding" where
  "answer_ended p n e s =
     (let s1 = set_attempt n (\<lambda>a. a\<lparr>at_over := True\<rparr>) s in
      case fo_mode s of
        Piping _ status sse encoded \<Rightarrow>
          settle (response_outcome (int status) (stream_verdict sse encoded e)) (set_mode Answered (send [AnswerEnd] s1))
      | Buffering _ status sse encoded b \<Rightarrow> inspect_end p n status sse encoded e b s1
      | _ \<Rightarrow> s1)"

text \<open>The captured request has arrived: repair it, or answer with what the engine said.\<close>

definition body_ready ::
  "vision_params \<Rightarrow> vision_limits \<Rightarrow> string option \<Rightarrow> bool \<Rightarrow> stream_end \<Rightarrow> forwarding \<Rightarrow> forwarding" where
  "body_ready p l original enabled e s =
     (case fo_mode s of
        AwaitBody k status sse encoded body \<Rightarrow>
          if fo_cancelled s then settle ClientCancelled (set_mode Answered s)
          else (case k of
            ImageLimitRejection \<Rightarrow> (case recover_image_limit p l enabled original (fo_route s) of
                Inr (r, b) \<Rightarrow> issue_retry b (s\<lparr>fo_normalized := Some (LimitRecovery, 0)\<rparr>)
              | Inl _ \<Rightarrow> send_buffered status sse encoded e body s)
          | GifCandidate \<Rightarrow>
              if length (fo_attempts s) > 1 then
                (case inspect_gif p l enabled original (fo_route s) of
                   Inr _ \<Rightarrow> send_guidance GifRecovery s | Inl _ \<Rightarrow> send_buffered status sse encoded e body s)
              else (case recover_gif p l enabled original (fo_route s) of
                Inr (r, b) \<Rightarrow> issue_retry b (s\<lparr>fo_normalized := Some (GifRecovery, rc_total r)\<rparr>)
              | Inl _ \<Rightarrow> send_buffered status sse encoded e body s)
          | JpegRejection \<Rightarrow> set_mode (AwaitConversion (normalize_request p l enabled original (fo_route s))) s)
      | _ \<Rightarrow> s)"

definition conversion_done :: "forwarding \<Rightarrow> forwarding" where
  "conversion_done s =
     (case fo_mode s of
        AwaitConversion result \<Rightarrow>
          (case result of
             Inr (r, b) \<Rightarrow> if fo_cancelled s then settle ClientCancelled (set_mode Answered s)
               else issue_retry b (s\<lparr>fo_normalized := Some (JpegRecovery, rc_total r)\<rparr>)
           | Inl why \<Rightarrow> send_guidance (if why = GifNotSupported then GifRecovery else recovery_of s) s)
      | _ \<Rightarrow> s)"

text \<open>The error of a request. Only a refused first connection proves that no worker was reached.\<close>

definition never_connected :: "attempt \<Rightarrow> bool \<Rightarrow> bool" where
  "never_connected a refused \<longleftrightarrow> at_body a = None \<and> at_status a = None \<and> at_fresh a \<and> \<not> at_connected a \<and> \<not> at_reused a \<and> refused"

definition request_failed :: "nat \<Rightarrow> bool \<Rightarrow> forwarding \<Rightarrow> forwarding" where
  "request_failed n refused s =
     (let s1 = set_mode Answered (set_attempt n (\<lambda>a. a\<lparr>at_over := True\<rparr>) s) in
      if fo_settled s = None \<and> \<not> fo_cancelled s \<and> \<not> fo_destroyed s \<and> \<not> headers_sent s \<and> fo_post s \<and>
         never_connected (fo_attempts s ! n) refused
      then send [Head 503 NotDispatched False, ErrorReport, AnswerEnd] (settle UpstreamError s1)
      else settle (cancelled_or UpstreamError s)
        (if headers_sent s then destroy s1 else send [Head 502 Unattested False, ErrorReport, AnswerEnd] s1))"

definition forward_step :: "vision_params \<Rightarrow> vision_limits \<Rightarrow> forward_event \<Rightarrow> forwarding \<Rightarrow> forwarding" where
  "forward_step p l e s =
     (case e of
        SocketConnecting n \<Rightarrow> if live n s then set_attempt n (\<lambda>a. a\<lparr>at_fresh := True\<rparr>) s else s
      | SocketReused n \<Rightarrow> if live n s then set_attempt n (\<lambda>a. a\<lparr>at_connected := True, at_reused := True\<rparr>) s else s
      | SocketConnected n \<Rightarrow> if live n s then set_attempt n (\<lambda>a. a\<lparr>at_connected := True\<rparr>) s else s
      | Response n status sse encoded enabled \<Rightarrow>
          if live n s \<and> at_status (fo_attempts s ! n) = None then got_response n status sse encoded enabled s else s
      | Chunk n c \<Rightarrow> if answering n s then got_chunk n c s else s
      | AnswerEnds n x \<Rightarrow> if answering n s then answer_ended p n x s else s
      | AnswerFails n \<Rightarrow> if answering n s
          then settle (cancelled_or UpstreamStreamError s) (destroy (set_mode Answered (set_attempt n (\<lambda>a. a\<lparr>at_over := True\<rparr>) s))) else s
      | AnswerAborts n \<Rightarrow> if answering n s
          then settle (cancelled_or UpstreamAborted s) (destroy (set_mode Answered (set_attempt n (\<lambda>a. a\<lparr>at_over := True\<rparr>) s))) else s
      | RequestFails n refused \<Rightarrow> if live n s then request_failed n refused s else s
      | RequestCloses n \<Rightarrow>
          if n < length (fo_attempts s) \<and> (fo_cancelled s \<or> at_status (fo_attempts s ! n) = None)
          then settle (cancelled_or ConnectionClosed s) (set_attempt n (\<lambda>a. a\<lparr>at_over := True\<rparr>) s) else s
      | BodyReady original enabled x \<Rightarrow> body_ready p l original enabled x s
      | ConversionDone \<Rightarrow> conversion_done s
      | ClientGone \<Rightarrow> if fo_settled s = None then s\<lparr>fo_cancelled := True, fo_destroyed := True\<rparr> else destroy s)"

definition forward_run :: "vision_params \<Rightarrow> vision_limits \<Rightarrow> forward_event list \<Rightarrow> forwarding \<Rightarrow> forwarding" where
  "forward_run p l es s = fold (forward_step p l) es s"

end
