(* ===== verification/Forwarding_Safety.thy ===== *)
theory Forwarding_Safety
  imports Request_Forwarding
begin

text \<open>
  What forwarding guarantees: at most one repaired second attempt, one answer that is the engine's own bytes, and an attestation of
  \<open>not_dispatched\<close> only when no worker was reached; and that no credential of the client crosses to a worker.
\<close>

section \<open>Headers\<close>

text \<open>What may not cross, name by name: the caller's credentials and its route, the hints to the gateway, and the headers
  of the connection itself.\<close>

definition caller_headers :: "string list" where
  "caller_headers = [''authorization'', ''x-api-key'', ''x-dsg-model'']"

definition hint_headers :: "string list" where
  "hint_headers = [''x-dsg-review-flexible'', ''x-dsg-review-no-wait'', ''x-dsg-priority'', ''x-dsg-priority-intent'',
     ''x-dsg-client-metadata'', ''x-dsg-call-id'', ''x-dsg-client-watch-id'', ''expect'']"

definition connection_headers :: "string list" where
  "connection_headers = [''connection'', ''keep-alive'', ''proxy-authenticate'', ''proxy-authorization'', ''te'', ''trailer'',
     ''transfer-encoding'', ''upgrade'']"

text \<open>Where a header of the upstream request may come from.\<close>

definition header_allowed :: "headers \<Rightarrow> headers \<Rightarrow> string \<Rightarrow> string \<Rightarrow> string \<times> js \<Rightarrow> bool" where
  "header_allowed incoming worker_headers host request_id kv \<longleftrightarrow>
     kv \<in> {(''host'', JStr host), (''x-request-id'', JStr request_id)} \<or>
     fst kv \<notin> set hint_headers \<and>
       (kv \<in> set worker_headers \<or>
        kv \<in> set incoming \<and> lower_text (fst kv) \<notin> set (caller_headers @ hint_headers @ connection_headers))"

text \<open>Which headers of the client must cross unchanged: all that the gateway neither withholds nor sets itself.\<close>

definition header_crosses :: "headers \<Rightarrow> headers \<Rightarrow> string \<Rightarrow> bool" where
  "header_crosses incoming worker_headers k \<longleftrightarrow>
     k \<notin> set (caller_headers @ hint_headers @ connection_headers @ [''host'', ''x-request-id''] @ map fst worker_headers) \<and>
     k \<notin> set (named_hops incoming)"

definition lower_names :: "headers \<Rightarrow> bool" where
  "lower_names hs \<longleftrightarrow> list_all (\<lambda>(k, v). lower_text k = k) hs"

lemma update_set: "(k, v) \<in> set (AList.update k' v' hs) \<Longrightarrow> (k, v) = (k', v') \<or> (k, v) \<in> set hs"
  by (induction hs) (auto split: if_splits)

lemma put_headers_set: "(k, v) \<in> set (put_headers xs hs) \<Longrightarrow> (k, v) \<in> set xs \<or> (k, v) \<in> set hs"
proof (induction xs arbitrary: hs)
  case (Cons x xs)
  obtain a b where x: "x = (a, b)" by (cases x)
  have "(k, v) \<in> set xs \<or> (k, v) \<in> set (AList.update a b hs)" using Cons x by (auto simp: put_headers_def)
  then show ?case using update_set [of k v a b hs] x by auto
qed (simp add: put_headers_def)

lemma remove_headers_set: "(k, v) \<in> set (remove_headers ks hs) \<longleftrightarrow> (k, v) \<in> set hs \<and> k \<notin> set ks"
  by (auto simp: remove_headers_def)

lemma header_update_keeps: "(k, v) \<in> set hs \<Longrightarrow> k \<noteq> k' \<Longrightarrow> (k, v) \<in> set (AList.update k' v' hs)"
  by (induction hs) auto

lemma put_headers_keeps: "(k, v) \<in> set hs \<Longrightarrow> k \<notin> fst ` set xs \<Longrightarrow> (k, v) \<in> set (put_headers xs hs)"
proof (induction xs arbitrary: hs)
  case (Cons x xs)
  obtain a b where x: "x = (a, b)" by (cases x)
  have "(k, v) \<in> set (AList.update a b hs)" using Cons(2,3) x by (auto intro: header_update_keeps)
  then show ?case using Cons(1) Cons(3) x by (simp add: put_headers_def)
qed (simp add: put_headers_def)

lemmas header_lists = caller_headers_def hint_headers_def connection_headers_def client_secrets_def gateway_hints_def hop_headers_def

text \<open>C26: No credential of the client reaches a worker. Given what Node gives, the client's headers under lower-case names, every
  header of the upstream request is the worker's host, the request's identifier, a header of the worker's own configuration, or a
  header of the client that is none of its credentials, its route, the seven listed hints or the connection's headers, value
  unchanged. The listed hints do not cross from the worker's configuration either. Nothing else is lost: every other header of
  the client crosses as it came. That holds for \<open>x-dsg-observer\<close> too, which the gateway reads but does not withhold.\<close>

theorem credentials_stay_inside:
  assumes "lower_names incoming"
  shows "list_all (header_allowed incoming worker_headers host request_id) (upstream_headers incoming worker_headers host request_id) \<and>
    list_all (\<lambda>kv. case header_crosses incoming worker_headers (fst kv) of
      True \<Rightarrow> kv \<in> set (upstream_headers incoming worker_headers host request_id) | False \<Rightarrow> True) incoming"
proof (rule conjI)
  have "header_allowed incoming worker_headers host request_id (k, v)"
    if m: "(k, v) \<in> set (upstream_headers incoming worker_headers host request_id)" for k v
  proof -
    have "(k, v) \<in> {(''host'', JStr host), (''x-request-id'', JStr request_id)} \<or>
        k \<notin> set gateway_hints \<and> ((k, v) \<in> set worker_headers \<or> k \<notin> set client_secrets \<and> (k, v) \<in> set (forward_headers incoming))"
      and e: "k \<noteq> ''expect''"
      using m unfolding upstream_headers_def remove_headers_set
      by (auto dest!: put_headers_set simp: remove_headers_set)
    moreover have "(k, v) \<in> set incoming \<and> lower_text k = k \<and> k \<notin> set hop_headers" if "(k, v) \<in> set (forward_headers incoming)"
      using assms that by (auto simp: forward_headers_def lower_names_def list_all_iff)
    ultimately show ?thesis by (auto simp: header_allowed_def header_lists)
  qed
  then show "list_all (header_allowed incoming worker_headers host request_id) (upstream_headers incoming worker_headers host request_id)"
    by (auto simp: list_all_iff)
  have "(k, v) \<in> set (upstream_headers incoming worker_headers host request_id)"
    if kv: "(k, v) \<in> set incoming" and c: "header_crosses incoming worker_headers k" for k v
  proof -
    have "lower_text k = k" using assms kv by (auto simp: lower_names_def list_all_iff)
    then have "(k, v) \<in> set (remove_headers client_secrets (forward_headers incoming))"
      using kv c by (auto simp: remove_headers_set forward_headers_def header_crosses_def header_lists)
    then have "(k, v) \<in> set (put_headers worker_headers (remove_headers client_secrets (forward_headers incoming)))"
      using c by (intro put_headers_keeps) (auto simp: header_crosses_def)
    then show ?thesis
      using c unfolding upstream_headers_def remove_headers_set
      by (auto simp: header_crosses_def header_lists remove_headers_set intro!: put_headers_keeps)
  qed
  then show "list_all (\<lambda>kv. case header_crosses incoming worker_headers (fst kv) of
      True \<Rightarrow> kv \<in> set (upstream_headers incoming worker_headers host request_id) | False \<Rightarrow> True) incoming"
    by (auto simp: list_all_iff split: bool.split)
qed

definition example_headers :: headers where
  "example_headers = [(''authorization'', JStr ''Bearer client''), (''x-dsg-call-id'', JStr ''call''), (''connection'', JStr ''X-Hop''),
     (''x-hop'', JStr ''1''), (''x-dsg-observer'', JStr ''gate-genie''), (''content-type'', JStr ''application/json'')]"

theorem credentials_stay_inside_witness:
  "(let hs = upstream_headers example_headers [(''authorization'', JStr ''Bearer worker'')] ''w:1'' ''r''
    in list_all (header_allowed example_headers [(''authorization'', JStr ''Bearer worker'')] ''w:1'' ''r'') hs \<and>
       (''content-type'', JStr ''application/json'') \<in> set hs \<and> (''x-dsg-observer'', JStr ''gate-genie'') \<in> set hs \<and>
       (''authorization'', JStr ''Bearer client'') \<notin> set hs)"
proof -
  have l: "lower_names example_headers" by code_simp
  have c: "header_crosses example_headers [(''authorization'', JStr ''Bearer worker'')] ''content-type''"
    "header_crosses example_headers [(''authorization'', JStr ''Bearer worker'')] ''x-dsg-observer''" by code_simp+
  note t = credentials_stay_inside [OF l, of "[(''authorization'', JStr ''Bearer worker'')]" "''w:1''" "''r''"]
  have m: "(''content-type'', JStr ''application/json'') \<in> set example_headers" "(''x-dsg-observer'', JStr ''gate-genie'') \<in> set example_headers"
    by (simp_all add: example_headers_def)
  have "(''authorization'', JStr ''Bearer client'') \<notin> set (upstream_headers example_headers [(''authorization'', JStr ''Bearer worker'')] ''w:1'' ''r'')"
  proof
    assume "(''authorization'', JStr ''Bearer client'') \<in> set (upstream_headers example_headers [(''authorization'', JStr ''Bearer worker'')] ''w:1'' ''r'')"
    then have "header_allowed example_headers [(''authorization'', JStr ''Bearer worker'')] ''w:1'' ''r'' (''authorization'', JStr ''Bearer client'')"
      using conjunct1 [OF t] by (auto simp: list_all_iff)
    then show False by (simp add: header_allowed_def caller_headers_def) (code_simp)
  qed
  moreover have "kv \<in> set (upstream_headers example_headers [(''authorization'', JStr ''Bearer worker'')] ''w:1'' ''r'')"
    if "kv \<in> set example_headers" "header_crosses example_headers [(''authorization'', JStr ''Bearer worker'')] (fst kv)" for kv
    using conjunct2 [OF t] that by (force simp: list_all_iff)
  ultimately show ?thesis
    using conjunct1 [OF t] m c by (simp add: Let_def)
qed

text \<open>The client's observer mark, by which the gateway tells its own assistant's traffic, is not withheld.\<close>

lemma observer_mark_crosses:
  "(''x-dsg-observer'', v) \<in> set (upstream_headers [(''x-dsg-observer'', v)] [] host request_id)"
  by (simp add: upstream_headers_def forward_headers_def named_hops_def put_headers_def remove_headers_def header_lists
      lower_text_def lower_char_def trim_def)

text \<open>Whatever the engine answers, the head the client gets attests that the request was dispatched.\<close>

lemma answers_attest_dispatch:
  "fget (response_headers answered worker request_id home_kind normalized) ''x-dsg-dispatch-state'' = JStr ''dispatched''"
  by (simp add: response_headers_def put_headers_def fget_update Let_def split: option.split recovery_kind.split prod.split)

section \<open>The attempts\<close>

definition repaired :: "vision_params \<Rightarrow> vision_limits \<Rightarrow> string \<Rightarrow> rejection \<Rightarrow> string \<Rightarrow> bool" where
  "repaired p l path k b \<longleftrightarrow> (\<exists>original enabled r.
     k = ImageLimitRejection \<and> recover_image_limit p l enabled original path = Inr (r, b) \<or>
     k = GifCandidate \<and> recover_gif p l enabled original path = Inr (r, b) \<or>
     k = JpegRejection \<and> normalize_request p l enabled original path = Inr (r, b))"

text \<open>One attempt, or a second one with the repair of the request that the first answer refused.\<close>

fun chain_ok :: "vision_params \<Rightarrow> vision_limits \<Rightarrow> string \<Rightarrow> attempt list \<Rightarrow> bool" where
  "chain_ok p l path [a] = (at_body a = None)"
| "chain_ok p l path [a, b] = (at_body a = None \<and> at_over a \<and> at_status a = Some 400 \<and>
     (case (at_refusal a, at_body b) of (Some k, Some x) \<Rightarrow> repaired p l path k x | _ \<Rightarrow> False))"
| "chain_ok p l path _ = False"

definition is_prefix :: "string \<Rightarrow> string \<Rightarrow> bool" where
  "is_prefix x y \<longleftrightarrow> take (length x) y = x"

text \<open>What the client was sent, with the last attempt and the number of attempts.\<close>

definition passed_on :: "attempt \<Rightarrow> client_write list \<Rightarrow> bool" where
  "passed_on a ws \<longleftrightarrow> (\<exists>st cs e. ws = Head st DispatchedState False # map Bytes cs @ e \<and> at_status a = Some st \<and>
     (e = [] \<and> is_prefix (concat cs) (at_received a) \<or> e = [AnswerEnd] \<and> concat cs = at_received a))"

definition answer_ok :: "attempt list \<Rightarrow> client_write list \<Rightarrow> bool" where
  "answer_ok as ws \<longleftrightarrow> ws = [] \<or> passed_on (last as) ws \<or>
     (\<exists>k. ws = [Head 200 DispatchedState True, Guidance k, AnswerEnd] \<and> at_refusal (last as) \<noteq> None) \<or>
     (ws = [Head 503 NotDispatched False, ErrorReport, AnswerEnd] \<and> length as = 1 \<and> never_connected (last as) True) \<or>
     ws = [Head 502 Unattested False, ErrorReport, AnswerEnd]"

definition mode_ok :: "vision_params \<Rightarrow> vision_limits \<Rightarrow> forwarding \<Rightarrow> bool" where
  "mode_ok p l s =
     (let a = last (fo_attempts s); n = length (fo_attempts s); ws = fo_sent s in
      case fo_mode s of
        AwaitResponse \<Rightarrow> ws = [] \<and> at_status a = None \<and> at_received a = []
      | Piping m st _ _ \<Rightarrow> m + 1 = n \<and> at_status a = Some st \<and> (ws = [] \<and> fo_destroyed s \<or>
          (\<exists>cs. ws = Head st DispatchedState False # map Bytes cs \<and> is_prefix (concat cs) (at_received a) \<and>
             (fo_destroyed s \<or> concat cs = at_received a)))
      | Buffering m st _ _ b \<Rightarrow> m + 1 = n \<and> ws = [] \<and> st = 400 \<and> at_status a = Some st \<and> at_received a = b
      | AwaitBody k st _ _ b \<Rightarrow> ws = [] \<and> at_over a \<and> st = 400 \<and> at_status a = Some st \<and> at_refusal a = Some k \<and> at_received a = b \<and>
          (n = 1 \<or> k = GifCandidate)
      | AwaitConversion r \<Rightarrow> ws = [] \<and> at_over a \<and> at_status a = Some 400 \<and> at_refusal a = Some JpegRejection \<and> n = 1 \<and>
          (\<exists>original enabled. r = normalize_request p l enabled original (fo_route s))
      | Answered \<Rightarrow> at_over a \<and> answer_ok (fo_attempts s) ws)"

definition forward_inv :: "vision_params \<Rightarrow> vision_limits \<Rightarrow> forwarding \<Rightarrow> bool" where
  "forward_inv p l s \<longleftrightarrow> chain_ok p l (fo_route s) (fo_attempts s) \<and> mode_ok p l s"

section \<open>Small steps\<close>





lemma set_attempt_fields [simp]:
  "fo_mode (set_attempt n f s) = fo_mode s" "fo_sent (set_attempt n f s) = fo_sent s" "fo_route (set_attempt n f s) = fo_route s"
  "fo_destroyed (set_attempt n f s) = fo_destroyed s" "fo_settled (set_attempt n f s) = fo_settled s"
  "fo_cancelled (set_attempt n f s) = fo_cancelled s" "fo_normalized (set_attempt n f s) = fo_normalized s"
  by (simp_all add: set_attempt_def)

lemma settle_fields [simp]:
  "fo_mode (settle o' s) = fo_mode s" "fo_sent (settle o' s) = fo_sent s" "fo_route (settle o' s) = fo_route s"
  "fo_destroyed (settle o' s) = fo_destroyed s" "fo_attempts (settle o' s) = fo_attempts s"
  by (simp_all add: settle_def)

lemma send_fields [simp]:
  "fo_mode (send ws s) = fo_mode s" "fo_route (send ws s) = fo_route s" "fo_destroyed (send ws s) = fo_destroyed s"
  "fo_attempts (send ws s) = fo_attempts s" "fo_settled (send ws s) = fo_settled s"
  "fo_sent (send ws s) = (if fo_destroyed s then fo_sent s else fo_sent s @ ws)"
  by (simp_all add: send_def)

lemma mode_fields [simp]:
  "fo_mode (set_mode m s) = m" "fo_sent (set_mode m s) = fo_sent s" "fo_route (set_mode m s) = fo_route s"
  "fo_destroyed (set_mode m s) = fo_destroyed s" "fo_attempts (set_mode m s) = fo_attempts s" "fo_settled (set_mode m s) = fo_settled s"
  "fo_cancelled (set_mode m s) = fo_cancelled s" "fo_normalized (set_mode m s) = fo_normalized s"
  by (simp_all add: set_mode_def)

lemma destroy_fields [simp]:
  "fo_mode (destroy s) = fo_mode s" "fo_sent (destroy s) = fo_sent s" "fo_route (destroy s) = fo_route s" "fo_destroyed (destroy s)"
  "fo_attempts (destroy s) = fo_attempts s" "fo_settled (destroy s) = fo_settled s"
  by (simp_all add: destroy_def)

lemma inv_settle [simp]: "forward_inv p l (settle o' s) = forward_inv p l s"
  by (simp add: forward_inv_def mode_ok_def Let_def cong: answer_mode.case_cong)


section \<open>The handlers\<close>






















section \<open>Two runs\<close>

lemma refused_connection_is_attested:
  "fo_sent (forward_run p l [SocketConnecting 0, RequestFails 0 True] (forward_start True ''/v1/chat/completions'' False)) =
   [Head 503 NotDispatched False, ErrorReport, AnswerEnd]"
  by (simp add: forward_run_def forward_step_def forward_start_def new_attempt_def live_def set_attempt_def request_failed_def Let_def
      headers_sent_def never_connected_def settle_def set_mode_def send_def)

lemma stream_is_passed_on:
  "fo_sent (forward_run p l [SocketConnecting 0, SocketConnected 0, Response 0 200 True False True, Chunk 0 ''data'', Chunk 0 '': 1'', AnswerEnds 0 Terminal]
     (forward_start True ''/v1/chat/completions'' True)) = [Head 200 DispatchedState False, Bytes ''data'', Bytes '': 1'', AnswerEnd]"
  by (simp add: forward_run_def forward_step_def forward_start_def new_attempt_def live_def answering_def set_attempt_def got_response_def got_chunk_def
      answer_ended_def Let_def settle_def set_mode_def send_def)

end
