(* ===== verification/Queued_Body.thy ===== *)
theory Queued_Body
  imports Gate_Prelude
begin

text \<open>
  The read-ahead of uploads that wait in a queue (\<open>queued-request-body.mjs\<close>): the byte budget all
  waiting uploads share (\<open>QueuedBodyBudget\<close>) and the buffer of one upload (\<open>QueuedRequestBody\<close>), which
  keeps a prefix of the body for the optional preview and hands everything to the dispatch in order.
  Of Node's \<open>IncomingMessage\<close> the model has the bytes that arrived and were not read, the end of the
  upload and whether \<open>end\<close> was emitted; \<open>read(n)\<close> with \<open>n\<close> at most \<open>readableLength\<close> takes \<open>n\<close> bytes. The
  answers of \<open>push\<close> of the output (back pressure) are the number \<open>room\<close> of pushes that are answered with
  true before one is answered with false. \<open>qb_arrived\<close> is a ghost: all bytes of the upload so far.
\<close>

section \<open>The shared budget\<close>

record body_budget =
  bu_limit :: int
  bu_used :: int
  bu_waiters :: "nat list"
  bu_scheduled :: bool

definition new_budget :: "int \<Rightarrow> body_budget" where
  "new_budget limit = \<lparr>bu_limit = limit, bu_used = 0, bu_waiters = [], bu_scheduled = False\<rparr>"

definition available :: "body_budget \<Rightarrow> int" where
  "available bu = max 0 (bu_limit bu - bu_used bu)"

definition release_bytes :: "int \<Rightarrow> body_budget \<Rightarrow> body_budget" where
  "release_bytes n bu = (let bu = bu\<lparr>bu_used := bu_used bu - n\<rparr> in
     if bu_scheduled bu \<or> bu_waiters bu = [] then bu else bu\<lparr>bu_scheduled := True\<rparr>)"

definition charge :: "int \<Rightarrow> body_budget \<Rightarrow> body_budget" where
  "charge n bu = bu\<lparr>bu_used := bu_used bu + n\<rparr>"

text \<open>The waiters are a \<open>Set\<close>, which iterates in the order of insertion.\<close>

definition add_waiter :: "nat \<Rightarrow> body_budget \<Rightarrow> body_budget" where
  "add_waiter k bu = (if k \<in> set (bu_waiters bu) then bu else bu\<lparr>bu_waiters := bu_waiters bu @ [k]\<rparr>)"

definition drop_waiter :: "nat \<Rightarrow> body_budget \<Rightarrow> body_budget" where
  "drop_waiter k bu = bu\<lparr>bu_waiters := filter (\<lambda>j. j \<noteq> k) (bu_waiters bu)\<rparr>"

section \<open>One upload\<close>

record upload =
  up_buffer :: string
  up_eof :: bool
  up_ended :: bool

record body_output =
  qo_pushed :: "string list"
  qo_ended :: bool
  qo_destroyed :: bool

definition new_output :: body_output where
  "new_output = \<lparr>qo_pushed = [], qo_ended = False, qo_destroyed = False\<rparr>"

text \<open>\<open>qb_observing\<close> says that \<open>onBody\<close> is still set; \<open>qb_inspected\<close> lists the texts it was asked to parse.\<close>

record queued_body =
  qb_req :: upload
  qb_limit :: int
  qb_chunks :: "string list"
  qb_bytes :: int
  qb_ended :: bool
  qb_disposed :: bool
  qb_output :: "body_output option"
  qb_demand :: bool
  qb_notified :: bool
  qb_stopped :: bool
  qb_observing :: bool
  qb_inspected :: "string list"
  qb_arrived :: string

definition new_body :: "int \<Rightarrow> string \<Rightarrow> queued_body" where
  "new_body limit t = \<lparr>qb_req = \<lparr>up_buffer = t, up_eof = False, up_ended = False\<rparr>, qb_limit = limit, qb_chunks = [],
     qb_bytes = 0, qb_ended = False, qb_disposed = False, qb_output = None, qb_demand = False, qb_notified = False,
     qb_stopped = False, qb_observing = True, qb_inspected = [], qb_arrived = t\<rparr>"

definition held :: "queued_body \<Rightarrow> string" where
  "held b = concat (qb_chunks b)"

definition take_upload :: "nat \<Rightarrow> queued_body \<Rightarrow> string \<times> queued_body" where
  "take_upload n b = (take n (up_buffer (qb_req b)), b\<lparr>qb_req := (qb_req b)\<lparr>up_buffer := drop n (up_buffer (qb_req b))\<rparr>\<rparr>)"

definition inspect_body :: "queued_body \<Rightarrow> queued_body" where
  "inspect_body b = (if qb_notified b \<or> qb_disposed b \<or> qb_stopped b then b
     else b\<lparr>qb_notified := True, qb_inspected := (if qb_observing b then qb_inspected b @ [held b] else qb_inspected b),
            qb_observing := False\<rparr>)"

text \<open>The loop of \<open>capture\<close>: read while the upload has bytes, the prefix has room and the budget too.\<close>

definition capture_count :: "body_budget \<Rightarrow> queued_body \<Rightarrow> nat" where
  "capture_count bu b = nat (min (min (int (length (up_buffer (qb_req b)))) (qb_limit b - qb_bytes b)) (available bu))"

definition keep_chunk :: "string \<Rightarrow> queued_body \<Rightarrow> queued_body" where
  "keep_chunk c b = b\<lparr>qb_chunks := qb_chunks b @ [c], qb_bytes := qb_bytes b + int (length c)\<rparr>"

function capture_loop :: "body_budget \<Rightarrow> queued_body \<Rightarrow> body_budget \<times> queued_body" where
  "capture_loop bu b =
     (if up_buffer (qb_req b) \<noteq> [] \<and> qb_bytes b < qb_limit b \<and> available bu \<noteq> 0
      then let (c, b) = take_upload (capture_count bu b) b in
           capture_loop (charge (int (length c)) bu) (keep_chunk c b)
      else (bu, b))"
  by pat_completeness auto
termination
  by (relation "measure (\<lambda>(bu, b). length (up_buffer (qb_req b)))")
     (auto simp: take_upload_def keep_chunk_def capture_count_def available_def)

declare capture_loop.simps [simp del]

definition capture :: "nat \<Rightarrow> body_budget \<times> queued_body \<Rightarrow> body_budget \<times> queued_body" where
  "capture k = (\<lambda>(bu, b).
     if qb_disposed b \<or> qb_output b \<noteq> None \<or> qb_stopped b then (bu, b)
     else let (bu, b) = capture_loop (drop_waiter k bu) b;
              bu = (if qb_bytes b < qb_limit b \<and> available bu = 0 then add_waiter k bu else bu) in
          if up_ended (qb_req b) then (bu, inspect_body (b\<lparr>qb_ended := True\<rparr>)) else (bu, b))"

section \<open>The output of the dispatch\<close>

text \<open>\<open>push\<close> accepts the chunk in any case; its answer says whether more is wanted.\<close>

definition push_chunk :: "string \<Rightarrow> queued_body \<Rightarrow> queued_body" where
  "push_chunk c b = b\<lparr>qb_output := map_option (\<lambda>out. out\<lparr>qo_pushed := qo_pushed out @ [c]\<rparr>) (qb_output b)\<rparr>"

definition push_end :: "queued_body \<Rightarrow> queued_body" where
  "push_end b = b\<lparr>qb_output := map_option (\<lambda>out. out\<lparr>qo_ended := True\<rparr>) (qb_output b)\<rparr>"

text \<open>The first loop of \<open>pull\<close>: \<open>None\<close> in place of the remaining room says that \<open>pull\<close> returned.\<close>

fun pull_chunks :: "string list \<Rightarrow> nat \<Rightarrow> body_budget \<Rightarrow> queued_body \<Rightarrow> nat option \<times> body_budget \<times> queued_body" where
  "pull_chunks [] room bu b = (Some room, bu, b)"
| "pull_chunks (c # cs) room bu b =
     (let b = push_chunk c (b\<lparr>qb_chunks := cs, qb_bytes := qb_bytes b - int (length c)\<rparr>); bu = release_bytes (int (length c)) bu in
      case room of 0 \<Rightarrow> (None, bu, b\<lparr>qb_demand := False\<rparr>) | Suc r \<Rightarrow> pull_chunks cs r bu b)"

text \<open>The second loop, in pieces of at most the high-water mark of the output.\<close>

function pull_upload :: "nat \<Rightarrow> nat \<Rightarrow> queued_body \<Rightarrow> nat option \<times> queued_body" where
  "pull_upload hwm room b =
     (if up_buffer (qb_req b) = [] \<or> hwm = 0 then (Some room, b)
      else let (c, b) = take_upload (min (length (up_buffer (qb_req b))) hwm) b; b = push_chunk c b in
           (case room of 0 \<Rightarrow> (None, b\<lparr>qb_demand := False\<rparr>) | Suc r \<Rightarrow> pull_upload hwm r b))"
  by pat_completeness auto
termination
  by (relation "measure (\<lambda>(hwm, room, b). room)") auto

declare pull_upload.simps [simp del]

definition pull :: "nat \<Rightarrow> nat \<Rightarrow> body_budget \<times> queued_body \<Rightarrow> body_budget \<times> queued_body" where
  "pull hwm room = (\<lambda>(bu, b).
     if \<not> qb_demand b \<or> qb_disposed b then (bu, b)
     else case pull_chunks (qb_chunks b) room bu b of
       (None, bu, b) \<Rightarrow> (bu, b)
     | (Some room, bu, b) \<Rightarrow>
         (case pull_upload hwm room b of
            (None, b) \<Rightarrow> (bu, b)
          | (Some _, b) \<Rightarrow>
              (bu, if qb_ended b \<or> up_ended (qb_req b) then push_end (b\<lparr>qb_demand := False\<rparr>) else b)))"

definition open_output :: "nat \<Rightarrow> body_budget \<times> queued_body \<Rightarrow> body_budget \<times> queued_body" where
  "open_output k = (\<lambda>(bu, b). if qb_output b \<noteq> None then (bu, b)
     else (drop_waiter k bu, b\<lparr>qb_observing := False, qb_output := Some new_output\<rparr>))"

definition demand :: "nat \<Rightarrow> nat \<Rightarrow> body_budget \<times> queued_body \<Rightarrow> body_budget \<times> queued_body" where
  "demand hwm room = (\<lambda>(bu, b). pull hwm room (bu, b\<lparr>qb_demand := True\<rparr>))"

definition destroy_output :: "queued_body \<Rightarrow> queued_body" where
  "destroy_output b = b\<lparr>qb_output := map_option (\<lambda>out. out\<lparr>qo_destroyed := True\<rparr>) (qb_output b)\<rparr>"

text \<open>Destroying the output disposes of the buffer and disposing destroys the output, in either order.\<close>

definition dispose :: "nat \<Rightarrow> body_budget \<times> queued_body \<Rightarrow> body_budget \<times> queued_body" where
  "dispose k = (\<lambda>(bu, b). if qb_disposed b then (bu, b)
     else (release_bytes (qb_bytes b) (drop_waiter k bu),
           destroy_output (b\<lparr>qb_disposed := True, qb_observing := False, qb_chunks := [], qb_bytes := 0\<rparr>)))"

definition stop_inspection :: "nat \<Rightarrow> body_budget \<times> queued_body \<Rightarrow> body_budget \<times> queued_body" where
  "stop_inspection k = (\<lambda>(bu, b). (drop_waiter k bu, b\<lparr>qb_stopped := True, qb_observing := False\<rparr>))"

section \<open>The listeners\<close>

definition on_readable :: "nat \<Rightarrow> nat \<Rightarrow> nat \<Rightarrow> body_budget \<times> queued_body \<Rightarrow> body_budget \<times> queued_body" where
  "on_readable k hwm room = (\<lambda>(bu, b). if qb_disposed b then (bu, b)
     else if qb_output b \<noteq> None then pull hwm room (bu, b) else capture k (bu, b))"

definition on_end :: "nat \<Rightarrow> nat \<Rightarrow> body_budget \<times> queued_body \<Rightarrow> body_budget \<times> queued_body" where
  "on_end hwm room = (\<lambda>(bu, b). if qb_disposed b then (bu, b)
     else let b = b\<lparr>qb_ended := True\<rparr> in
          if qb_output b \<noteq> None then pull hwm room (bu, b) else (bu, inspect_body b))"

definition on_error :: "nat \<Rightarrow> body_budget \<times> queued_body \<Rightarrow> body_budget \<times> queued_body" where
  "on_error k = dispose k"

section \<open>All uploads of the gateway\<close>

record body_pool =
  bp_budget :: body_budget
  bp_bodies :: "queued_body list"

datatype body_event =
    Upload int string
  | Arrive nat string
  | Eof nat
  | Readable nat nat
  | End nat nat
  | Fail nat
  | Wake
  | Dispatch nat
  | Demand nat nat
  | StopInspection nat
  | Dispose nat

definition at_body :: "nat \<Rightarrow> (body_budget \<times> queued_body \<Rightarrow> body_budget \<times> queued_body) \<Rightarrow> body_pool \<Rightarrow> body_pool" where
  "at_body k f p = (if k < length (bp_bodies p)
     then let (bu, b) = f (bp_budget p, bp_bodies p ! k) in \<lparr>bp_budget = bu, bp_bodies = (bp_bodies p)[k := b]\<rparr>
     else p)"

text \<open>The upload delivers bytes until its end, and emits \<open>end\<close> once, after all of them were read.\<close>

definition upload_arrives :: "string \<Rightarrow> body_budget \<times> queued_body \<Rightarrow> body_budget \<times> queued_body" where
  "upload_arrives t = (\<lambda>(bu, b). if up_eof (qb_req b) then (bu, b)
     else (bu, b\<lparr>qb_req := (qb_req b)\<lparr>up_buffer := up_buffer (qb_req b) @ t\<rparr>, qb_arrived := qb_arrived b @ t\<rparr>))"

definition upload_over :: "body_budget \<times> queued_body \<Rightarrow> body_budget \<times> queued_body" where
  "upload_over = (\<lambda>(bu, b). (bu, b\<lparr>qb_req := (qb_req b)\<lparr>up_eof := True\<rparr>\<rparr>))"

definition end_emitted :: "nat \<Rightarrow> nat \<Rightarrow> body_budget \<times> queued_body \<Rightarrow> body_budget \<times> queued_body" where
  "end_emitted hwm room = (\<lambda>(bu, b).
     if up_eof (qb_req b) \<and> up_buffer (qb_req b) = [] \<and> \<not> up_ended (qb_req b)
     then on_end hwm room (bu, b\<lparr>qb_req := (qb_req b)\<lparr>up_ended := True\<rparr>\<rparr>) else (bu, b))"

text \<open>A stream asks for more only while its output is open.\<close>

definition demanded :: "nat \<Rightarrow> nat \<Rightarrow> body_budget \<times> queued_body \<Rightarrow> body_budget \<times> queued_body" where
  "demanded hwm room = (\<lambda>(bu, b). case qb_output b of
     None \<Rightarrow> (bu, b)
   | Some out \<Rightarrow> if qo_ended out \<or> qo_destroyed out then (bu, b) else demand hwm room (bu, b))"

definition wake_all :: "body_pool \<Rightarrow> body_pool" where
  "wake_all p = (if bu_scheduled (bp_budget p)
     then fold (\<lambda>k. at_body k (capture k)) (bu_waiters (bp_budget p)) (p\<lparr>bp_budget := (bp_budget p)\<lparr>bu_scheduled := False\<rparr>\<rparr>)
     else p)"

definition accept_upload :: "int \<Rightarrow> string \<Rightarrow> body_pool \<Rightarrow> body_pool" where
  "accept_upload limit t p = (let k = length (bp_bodies p) in
     at_body k (capture k) (p\<lparr>bp_bodies := bp_bodies p @ [new_body limit t]\<rparr>))"

fun body_step :: "nat \<Rightarrow> body_event \<Rightarrow> body_pool \<Rightarrow> body_pool" where
  "body_step hwm (Upload limit t) p = accept_upload limit t p"
| "body_step hwm (Arrive k t) p = at_body k (upload_arrives t) p"
| "body_step hwm (Eof k) p = at_body k upload_over p"
| "body_step hwm (Readable k room) p = at_body k (on_readable k hwm room) p"
| "body_step hwm (End k room) p = at_body k (end_emitted hwm room) p"
| "body_step hwm (Fail k) p = at_body k (on_error k) p"
| "body_step hwm Wake p = wake_all p"
| "body_step hwm (Dispatch k) p = at_body k (open_output k) p"
| "body_step hwm (Demand k room) p = at_body k (demanded hwm room) p"
| "body_step hwm (StopInspection k) p = at_body k (stop_inspection k) p"
| "body_step hwm (Dispose k) p = at_body k (dispose k) p"

definition run_bodies :: "nat \<Rightarrow> body_event list \<Rightarrow> body_pool \<Rightarrow> body_pool" where
  "run_bodies hwm es p = fold (body_step hwm) es p"

definition no_bodies :: "int \<Rightarrow> body_pool" where
  "no_bodies limit = \<lparr>bp_budget = new_budget limit, bp_bodies = []\<rparr>"

end
