(* ===== verification/Queued_Safety.thy ===== *)
theory Queued_Safety
  imports Queued_Body
begin

text \<open>
  What the read-ahead of queued uploads guarantees: every upload reaches the dispatch unaltered, the
  bytes held never exceed the shared budget, which is exactly their sum, and no upload that waits for
  the budget is forgotten. The locale states what one operation on one upload owes the others.
\<close>

section \<open>The invariant of one upload\<close>

definition sent :: "queued_body \<Rightarrow> string" where
  "sent b = (case qb_output b of None \<Rightarrow> [] | Some out \<Rightarrow> concat (qo_pushed out))"

definition sent_end :: "queued_body \<Rightarrow> bool" where
  "sent_end b \<longleftrightarrow> (case qb_output b of None \<Rightarrow> False | Some out \<Rightarrow> qo_ended out)"

definition capturing :: "queued_body \<Rightarrow> bool" where
  "capturing b \<longleftrightarrow> \<not> qb_disposed b \<and> qb_output b = None \<and> \<not> qb_stopped b"

definition upload_kept :: "queued_body \<Rightarrow> bool" where
  "upload_kept b \<longleftrightarrow> (if qb_disposed b then qb_chunks b = [] \<and> begins_with (qb_arrived b) (sent b)
     else qb_arrived b = sent b @ held b @ up_buffer (qb_req b))"

definition ends_are_true :: "queued_body \<Rightarrow> bool" where
  "ends_are_true b \<longleftrightarrow> (qb_ended b \<or> up_ended (qb_req b) \<longrightarrow> up_eof (qb_req b) \<and> up_buffer (qb_req b) = []) \<and>
     (sent_end b \<longrightarrow> qb_arrived b = sent b \<and> up_eof (qb_req b))"

definition inspected_whole :: "queued_body \<Rightarrow> bool" where
  "inspected_whole b \<longleftrightarrow> (qb_inspected b \<noteq> [] \<longrightarrow> qb_inspected b = [qb_arrived b] \<and> up_eof (qb_req b)) \<and>
     (qb_observing b \<longrightarrow> qb_inspected b = [])"

definition body_ok :: "queued_body \<Rightarrow> bool" where
  "body_ok b \<longleftrightarrow> upload_kept b \<and> ends_are_true b \<and> inspected_whole b \<and> qb_bytes b = int (length (held b)) \<and>
     qb_bytes b \<le> max 0 (qb_limit b) \<and> (qb_demand b \<longrightarrow> qb_output b \<noteq> None)"

lemmas body_parts = upload_kept_def ends_are_true_def inspected_whole_def sent_def sent_end_def held_def

lemma new_body_ok: "body_ok (new_body limit t)"
  by (simp add: body_ok_def body_parts new_body_def)

section \<open>The contract of an operation on one upload\<close>

text \<open>A wake is never lost: a waiter with room in the budget has its wake-up scheduled.\<close>

definition wake_ok :: "body_budget \<Rightarrow> bool" where
  "wake_ok bu \<longleftrightarrow> bu_waiters bu = [] \<or> available bu = 0 \<or> bu_scheduled bu"

locale body_operation =
  fixes k :: nat and act :: "body_budget \<times> queued_body \<Rightarrow> body_budget \<times> queued_body"
  assumes keeps_body: "body_ok b \<Longrightarrow> act (bu, b) = (bu', b') \<Longrightarrow> body_ok b'"
    and balances: "body_ok b \<Longrightarrow> act (bu, b) = (bu', b') \<Longrightarrow> bu_used bu' - qb_bytes b' = bu_used bu - qb_bytes b"
    and keeps_limit: "body_ok b \<Longrightarrow> act (bu, b) = (bu', b') \<Longrightarrow> bu_limit bu' = bu_limit bu"
    and stays_within: "body_ok b \<Longrightarrow> bu_used bu \<le> bu_limit bu \<Longrightarrow> act (bu, b) = (bu', b') \<Longrightarrow> bu_used bu' \<le> bu_limit bu'"
    and other_waiters: "body_ok b \<Longrightarrow> act (bu, b) = (bu', b') \<Longrightarrow> j \<noteq> k \<Longrightarrow> j \<in> set (bu_waiters bu') \<longleftrightarrow> j \<in> set (bu_waiters bu)"
    and own_wait: "body_ok b \<Longrightarrow> act (bu, b) = (bu', b') \<Longrightarrow> (k \<in> set (bu_waiters bu) \<longrightarrow> capturing b) \<Longrightarrow>
      k \<in> set (bu_waiters bu') \<Longrightarrow> capturing b'"

definition held_bytes :: "body_pool \<Rightarrow> int" where
  "held_bytes p = sum_list (map qb_bytes (bp_bodies p))"

definition waiters_capture :: "body_pool \<Rightarrow> bool" where
  "waiters_capture p \<longleftrightarrow> list_all (\<lambda>k. k < length (bp_bodies p) \<and> capturing (bp_bodies p ! k)) (bu_waiters (bp_budget p))"

definition pool_ok :: "int \<Rightarrow> body_pool \<Rightarrow> bool" where
  "pool_ok limit p \<longleftrightarrow> list_all body_ok (bp_bodies p) \<and> bu_used (bp_budget p) = held_bytes p \<and>
     bu_limit (bp_budget p) = limit \<and> bu_used (bp_budget p) \<le> limit \<and> waiters_capture p"

lemma sum_list_replace: "k < length xs \<Longrightarrow> sum_list (xs[k := (x::int)]) = sum_list xs - xs ! k + x"
  by (induction xs arbitrary: k) (auto split: nat.split)

lemma held_bytes_replace: "k < length (bp_bodies p) \<Longrightarrow>
   held_bytes \<lparr>bp_budget = bu, bp_bodies = (bp_bodies p)[k := b]\<rparr> = held_bytes p - qb_bytes (bp_bodies p ! k) + qb_bytes b"
  by (simp add: held_bytes_def map_update sum_list_replace)

context body_operation
begin

lemma waiters_still_capture:
  assumes "waiters_capture p" "k < length (bp_bodies p)" "body_ok (bp_bodies p ! k)" "act (bp_budget p, bp_bodies p ! k) = (bu, b)"
  shows "waiters_capture \<lparr>bp_budget = bu, bp_bodies = (bp_bodies p)[k := b]\<rparr>"
proof -
  have "j < length (bp_bodies p) \<and> capturing ((bp_bodies p)[k := b] ! j)" if "j \<in> set (bu_waiters bu)" for j
  proof (cases "j = k")
    case True
    with assms that own_wait [OF assms(3,4)] show ?thesis
      by (auto simp: waiters_capture_def list_all_iff)
  next
    case False
    with assms that other_waiters [OF assms(3,4), of j] show ?thesis
      by (auto simp: waiters_capture_def list_all_iff)
  qed
  then show ?thesis by (simp add: waiters_capture_def list_all_iff)
qed

lemma at_body_ok:
  assumes "pool_ok limit p"
  shows "pool_ok limit (at_body k act p)"
proof (cases "k < length (bp_bodies p)")
  case True
  obtain bu b where a: "act (bp_budget p, bp_bodies p ! k) = (bu, b)" by fastforce
  have ok: "body_ok (bp_bodies p ! k)" using assms True by (simp add: pool_ok_def list_all_length)
  have "list_all body_ok ((bp_bodies p)[k := b])"
    using assms keeps_body [OF ok a]
    by (auto simp: pool_ok_def list_all_iff dest!: subsetD [OF set_update_subset_insert])
  then show ?thesis
    using assms True a balances [OF ok a] keeps_limit [OF ok a] stays_within [OF ok _ a] waiters_still_capture [OF _ True ok a]
    by (simp add: at_body_def pool_ok_def held_bytes_replace)
qed (use assms in \<open>simp add: at_body_def\<close>)

end

text \<open>All operations but the wake-up of an upload also leave no wake-up out.\<close>

locale quiet_operation = body_operation +
  assumes no_wake_lost: "body_ok b \<Longrightarrow> wake_ok bu \<Longrightarrow> act (bu, b) = (bu', b') \<Longrightarrow> wake_ok bu'"
begin

lemma at_body_wake_ok:
  assumes "list_all body_ok (bp_bodies p)" "wake_ok (bp_budget p)"
  shows "wake_ok (bp_budget (at_body k act p))"
proof (cases "k < length (bp_bodies p)")
  case True
  obtain bu b where a: "act (bp_budget p, bp_bodies p ! k) = (bu, b)" by fastforce
  have "body_ok (bp_bodies p ! k)" using assms(1) True by (simp add: list_all_length)
  with True a no_wake_lost [OF _ assms(2) a] show ?thesis by (simp add: at_body_def)
qed (use assms in \<open>simp add: at_body_def\<close>)

end

section \<open>The operations keep the contract\<close>

lemma release_simps [simp]:
  "bu_used (release_bytes n bu) = bu_used bu - n" "bu_limit (release_bytes n bu) = bu_limit bu"
  "bu_waiters (release_bytes n bu) = bu_waiters bu"
  by (simp_all add: release_bytes_def Let_def)

lemma release_wakes: "wake_ok (release_bytes n bu)"
  by (auto simp: release_bytes_def Let_def wake_ok_def)

lemma waiter_simps [simp]:
  "bu_used (drop_waiter k bu) = bu_used bu" "bu_limit (drop_waiter k bu) = bu_limit bu"
  "set (bu_waiters (drop_waiter k bu)) = set (bu_waiters bu) - {k}" "bu_scheduled (drop_waiter k bu) = bu_scheduled bu"
  "bu_used (add_waiter k bu) = bu_used bu" "bu_limit (add_waiter k bu) = bu_limit bu"
  "set (bu_waiters (add_waiter k bu)) = insert k (set (bu_waiters bu))" "bu_scheduled (add_waiter k bu) = bu_scheduled bu"
  by (auto simp: drop_waiter_def add_waiter_def)

lemma drop_waiter_wake: "wake_ok bu \<Longrightarrow> wake_ok (drop_waiter k bu)"
  by (auto simp: wake_ok_def drop_waiter_def available_def)

text \<open>Disposing.\<close>

lemma disposed_ok:
  assumes "body_ok b" "\<not> qb_disposed b"
  shows "body_ok (destroy_output (b\<lparr>qb_disposed := True, qb_observing := False, qb_chunks := [], qb_bytes := 0\<rparr>))"
proof (cases "qb_output b")
  case None
  with assms show ?thesis by (auto simp: body_ok_def body_parts destroy_output_def begins_with_def)
next
  case (Some out)
  with assms show ?thesis by (auto simp: body_ok_def body_parts destroy_output_def begins_with_def)
qed

lemma dispose_body_ok: "body_ok b \<Longrightarrow> dispose k (bu, b) = (bu', b') \<Longrightarrow> body_ok b'"
  using disposed_ok [of b] by (simp add: dispose_def split: if_splits)

interpretation dispose: quiet_operation k "dispose k" for k
proof unfold_locales
  fix b bu bu' b'
  show "body_ok b \<Longrightarrow> dispose k (bu, b) = (bu', b') \<Longrightarrow> body_ok b'" by (rule dispose_body_ok)
  show "body_ok b \<Longrightarrow> dispose k (bu, b) = (bu', b') \<Longrightarrow> bu_used bu' - qb_bytes b' = bu_used bu - qb_bytes b"
    by (auto simp: dispose_def destroy_output_def split: if_splits)
  show "body_ok b \<Longrightarrow> bu_used bu \<le> bu_limit bu \<Longrightarrow> dispose k (bu, b) = (bu', b') \<Longrightarrow> bu_used bu' \<le> bu_limit bu'"
    by (auto simp: dispose_def body_ok_def split: if_splits)
  show "body_ok b \<Longrightarrow> wake_ok bu \<Longrightarrow> dispose k (bu, b) = (bu', b') \<Longrightarrow> wake_ok bu'"
    by (auto simp: dispose_def release_wakes split: if_splits)
qed (auto simp: dispose_def split: if_splits)

text \<open>Capturing.\<close>

lemma take_upload_simps [simp]:
  "fst (take_upload n b) = take n (up_buffer (qb_req b))"
  "qb_limit (snd (take_upload n b)) = qb_limit b" "qb_bytes (snd (take_upload n b)) = qb_bytes b"
  "up_buffer (qb_req (snd (take_upload n b))) = drop n (up_buffer (qb_req b))"
  by (simp_all add: take_upload_def)

definition capture_piece :: "body_budget \<Rightarrow> queued_body \<Rightarrow> body_budget \<times> queued_body" where
  "capture_piece bu b = (let (c, b) = take_upload (capture_count bu b) b in (charge (int (length c)) bu, keep_chunk c b))"

definition captures_on :: "body_budget \<Rightarrow> queued_body \<Rightarrow> bool" where
  "captures_on bu b \<longleftrightarrow> up_buffer (qb_req b) \<noteq> [] \<and> qb_bytes b < qb_limit b \<and> available bu \<noteq> 0"

lemma capture_loop_rec:
  "capture_loop bu b = (if captures_on bu b then case capture_piece bu b of (bu, b) \<Rightarrow> capture_loop bu b else (bu, b))"
  by (subst capture_loop.simps) (simp add: captures_on_def capture_piece_def Let_def split_beta)

text \<open>What a piece, and so the whole loop, does to a capturing upload and the budget.\<close>

definition captured_from :: "body_budget \<times> queued_body \<Rightarrow> body_budget \<times> queued_body \<Rightarrow> bool" where
  "captured_from x y \<longleftrightarrow> (case (x, y) of ((bu, b), (bu', b')) \<Rightarrow>
     body_ok b' \<and> qb_output b' = qb_output b \<and> qb_disposed b' = qb_disposed b \<and> qb_stopped b' = qb_stopped b \<and>
     up_ended (qb_req b') = up_ended (qb_req b) \<and> qb_limit b' = qb_limit b \<and>
     bu_used bu' - qb_bytes b' = bu_used bu - qb_bytes b \<and> bu_used bu \<le> bu_used bu' \<and>
     (bu_used bu \<le> bu_limit bu \<longrightarrow> bu_used bu' \<le> bu_limit bu') \<and> bu_limit bu' = bu_limit bu \<and>
     bu_waiters bu' = bu_waiters bu \<and> bu_scheduled bu' = bu_scheduled bu)"

lemma captured_from_refl: "body_ok b \<Longrightarrow> captured_from (bu, b) (bu, b)"
  by (simp add: captured_from_def)

lemma captured_from_trans: "captured_from x y \<Longrightarrow> captured_from y z \<Longrightarrow> captured_from x z"
  by (auto simp: captured_from_def split: prod.splits)

lemma capture_piece_body:
  assumes ok: "body_ok b" and out: "qb_output b = None" and live: "\<not> qb_disposed b"
    and more: "up_buffer (qb_req b) \<noteq> []" and n: "int n \<le> qb_limit b - qb_bytes b"
  shows "body_ok (keep_chunk (take n (up_buffer (qb_req b))) (snd (take_upload n b)))"
proof -
  have len: "int (length (take n (up_buffer (qb_req b)))) \<le> qb_limit b - qb_bytes b"
    using n by simp
  have a: "qb_arrived b = held b @ up_buffer (qb_req b)" using ok out live by (simp add: body_ok_def upload_kept_def sent_def)
  have e: "\<not> qb_ended b" "\<not> up_ended (qb_req b)" using ok more by (auto simp: body_ok_def ends_are_true_def)
  have i: "inspected_whole b" and bytes: "qb_bytes b = int (length (held b))" and d: "\<not> qb_demand b"
    using ok out by (auto simp: body_ok_def)
  show ?thesis
    using len a e i bytes d out live
    by (simp add: body_ok_def body_parts keep_chunk_def take_upload_def)
qed

lemma capture_piece_from:
  assumes ok: "body_ok b" and out: "qb_output b = None" and live: "\<not> qb_disposed b" and on: "captures_on bu b"
  shows "captured_from (bu, b) (capture_piece bu b)"
proof -
  let ?n = "capture_count bu b" and ?t = "up_buffer (qb_req b)"
  have on': "?t \<noteq> []" "qb_bytes b < qb_limit b" "available bu \<noteq> 0" using on by (simp_all add: captures_on_def)
  have av: "available bu > 0" "available bu = bu_limit bu - bu_used bu" using on'(3) by (auto simp: available_def max_def split: if_splits)
  have n: "int ?n \<le> qb_limit b - qb_bytes b" "int ?n \<le> available bu"
    using on' av by (auto simp: capture_count_def)
  have p: "capture_piece bu b = (charge (int (length (take ?n ?t))) bu, keep_chunk (take ?n ?t) (snd (take_upload ?n b)))"
    by (simp add: capture_piece_def split_beta)
  have l: "int (length (take ?n ?t)) \<le> available bu" using n by simp
  show ?thesis
    using capture_piece_body [OF ok out live on'(1) n(1)] av l
    by (simp add: p captured_from_def charge_def keep_chunk_def take_upload_def)
qed

lemma capture_piece_shorter:
  assumes "captures_on bu b" "capture_piece bu b = (bu', b')"
  shows "length (up_buffer (qb_req b')) < length (up_buffer (qb_req b))"
proof -
  have "0 < capture_count bu b" using assms(1) by (auto simp: captures_on_def capture_count_def available_def)
  moreover have "up_buffer (qb_req b) \<noteq> []" using assms(1) by (simp add: captures_on_def)
  ultimately show ?thesis using assms(2) by (auto simp: capture_piece_def take_upload_def keep_chunk_def)
qed

lemma captured_from_keeps:
  assumes "captured_from (bu, b) (bu', b')"
  shows "body_ok b'" "qb_output b' = qb_output b" "qb_disposed b' = qb_disposed b"
  using assms by (simp_all add: captured_from_def)

lemma capture_loop_from:
  "body_ok b \<Longrightarrow> qb_output b = None \<Longrightarrow> \<not> qb_disposed b \<Longrightarrow> captured_from (bu, b) (capture_loop bu b)"
proof (induction "length (up_buffer (qb_req b))" arbitrary: bu b rule: less_induct)
  case less
  show ?case
  proof (cases "captures_on bu b")
    case True
    obtain bu1 b1 where p: "capture_piece bu b = (bu1, b1)" by fastforce
    have f: "captured_from (bu, b) (bu1, b1)" using capture_piece_from [OF less(2-4) True] p by simp
    have "captured_from (bu1, b1) (capture_loop bu1 b1)"
      using less(1) [OF capture_piece_shorter [OF True p]] captured_from_keeps [OF f] less(3,4) by simp
    with f have "captured_from (bu, b) (capture_loop bu1 b1)" by (rule captured_from_trans)
    then show ?thesis using True p by (simp add: capture_loop_rec [of bu b])
  next
    case False
    with less show ?thesis by (simp add: capture_loop_rec [of bu b] captured_from_refl)
  qed
qed

lemma inspect_ok:
  assumes "body_ok b" "qb_output b = None" "qb_ended b"
  shows "body_ok (inspect_body b)"
  using assms by (auto simp: body_ok_def body_parts inspect_body_def split: if_splits)

lemma inspect_body_simps [simp]:
  "qb_bytes (inspect_body b) = qb_bytes b" "qb_output (inspect_body b) = qb_output b" "qb_disposed (inspect_body b) = qb_disposed b"
  "qb_stopped (inspect_body b) = qb_stopped b" "qb_limit (inspect_body b) = qb_limit b" "qb_req (inspect_body b) = qb_req b"
  "qb_chunks (inspect_body b) = qb_chunks b" "qb_arrived (inspect_body b) = qb_arrived b" "qb_demand (inspect_body b) = qb_demand b"
  "qb_ended (inspect_body b) = qb_ended b"
  by (simp_all add: inspect_body_def)

lemma ended_parts:
  "upload_kept (b\<lparr>qb_ended := e\<rparr>) = upload_kept b" "inspected_whole (b\<lparr>qb_ended := e\<rparr>) = inspected_whole b"
  "held (b\<lparr>qb_ended := e\<rparr>) = held b"
  by (simp_all add: body_parts)

lemma ended_true: "ends_are_true b \<Longrightarrow> up_ended (qb_req b) \<Longrightarrow> ends_are_true (b\<lparr>qb_ended := True\<rparr>)"
  by (simp add: ends_are_true_def sent_def sent_end_def)

lemma ended_ok: "body_ok b \<Longrightarrow> up_ended (qb_req b) \<Longrightarrow> body_ok (b\<lparr>qb_ended := True\<rparr>)"
  by (simp add: body_ok_def ended_parts ended_true)

text \<open>A capture is a chain of pieces; it leaves the upload registered only when the budget is used up.\<close>

lemma capture_cases:
  assumes ok: "body_ok b" and c: "capture k (bu, b) = (bu', b')"
  obtains (idle) "\<not> capturing b" "bu' = bu" "b' = b"
  | (read) bu1 b1 where "capturing b" "captured_from (drop_waiter k bu, b) (bu1, b1)"
      "bu' = bu1 \<or> bu' = add_waiter k bu1 \<and> available bu1 = 0"
      "b' = b1 \<or> b' = inspect_body (b1\<lparr>qb_ended := True\<rparr>) \<and> up_ended (qb_req b1)"
proof (cases "capturing b")
  case False
  then have "capture k (bu, b) = (bu, b)" by (auto simp: capture_def capturing_def)
  with c have "bu' = bu" "b' = b" by simp_all
  with False show ?thesis by (rule that(1))
next
  case True
  obtain bu1 b1 where l: "capture_loop (drop_waiter k bu) b = (bu1, b1)" by fastforce
  have "captured_from (drop_waiter k bu, b) (bu1, b1)"
    using capture_loop_from [OF ok, of "drop_waiter k bu"] True l by (simp add: capturing_def)
  moreover have "bu' = (if qb_bytes b1 < qb_limit b1 \<and> available bu1 = 0 then add_waiter k bu1 else bu1)"
    "b' = (if up_ended (qb_req b1) then inspect_body (b1\<lparr>qb_ended := True\<rparr>) else b1)"
    using c l True by (auto simp: capture_def capturing_def Let_def split: if_split_asm)
  ultimately show ?thesis by (intro that(2) [OF True]) auto
qed

definition capture_effect :: "nat \<Rightarrow> body_budget \<times> queued_body \<Rightarrow> body_budget \<times> queued_body \<Rightarrow> bool" where
  "capture_effect k x y \<longleftrightarrow> (case (x, y) of ((bu, b), (bu', b')) \<Rightarrow>
     body_ok b' \<and> bu_used bu' - qb_bytes b' = bu_used bu - qb_bytes b \<and>
     (bu_used bu \<le> bu_limit bu \<longrightarrow> bu_used bu' \<le> bu_limit bu') \<and> qb_output b' = qb_output b \<and>
     qb_disposed b' = qb_disposed b \<and> qb_stopped b' = qb_stopped b \<and> bu_limit bu' = bu_limit bu \<and>
     available bu' \<le> available bu \<and> bu_scheduled bu' = bu_scheduled bu \<and>
     set (bu_waiters bu') - {k} = set (bu_waiters bu) - {k} \<and>
     (capturing b \<longrightarrow> k \<in> set (bu_waiters bu') \<longrightarrow> available bu' = 0) \<and>
     (\<not> capturing b \<longrightarrow> bu' = bu \<and> b' = b))"

lemma capture_effect:
  assumes ok: "body_ok b"
  shows "capture_effect k (bu, b) (capture k (bu, b))"
proof -
  obtain bu' b' where c: "capture k (bu, b) = (bu', b')" by fastforce
  show ?thesis
  proof (cases rule: capture_cases [OF ok c])
    case 1
    with ok c show ?thesis by (auto simp: capture_effect_def)
  next
    case (2 bu1 b1)
    have b1: "body_ok b1" "qb_output b1 = None" "qb_bytes b' = qb_bytes b1" "qb_output b' = qb_output b1"
      "qb_disposed b' = qb_disposed b1" "qb_stopped b' = qb_stopped b1"
      using 2 by (auto simp: captured_from_def capturing_def)
    have body: "body_ok b'"
      using 2(4) b1 inspect_ok [of "b1\<lparr>qb_ended := True\<rparr>"] ended_ok [of b1] by auto
    have budget: "bu_used bu' = bu_used bu1" "bu_limit bu' = bu_limit bu1" "bu_scheduled bu' = bu_scheduled bu1"
      using 2(3) by auto
    then have av: "available bu' = available bu1" by (simp add: available_def)
    have w1: "bu_waiters bu1 = bu_waiters (drop_waiter k bu)" using 2(2) by (simp add: captured_from_def)
    have waiters: "set (bu_waiters bu') - {k} = set (bu_waiters bu) - {k}" "k \<in> set (bu_waiters bu') \<longrightarrow> available bu' = 0"
      using 2(3) w1 av by auto
    have same: "qb_output b' = qb_output b" "qb_disposed b' = qb_disposed b" "qb_stopped b' = qb_stopped b"
      using 2(2) b1 by (simp_all add: captured_from_def)
    have sums: "bu_used bu' - qb_bytes b' = bu_used bu - qb_bytes b" "bu_used bu \<le> bu_limit bu \<longrightarrow> bu_used bu' \<le> bu_limit bu'"
      "bu_limit bu' = bu_limit bu" "bu_scheduled bu' = bu_scheduled bu" "bu_used bu \<le> bu_used bu'"
      using 2(2) b1(3) budget by (auto simp: captured_from_def)
    have avail: "available bu' \<le> available bu" using sums(3,5) by (simp add: available_def)
    have "capturing b" by (rule 2(1))
    then show ?thesis unfolding c capture_effect_def prod.case
      using body sums(1-4) same avail waiters by blast
  qed
qed

lemma capture_effectD:
  assumes "body_ok b" "capture k (bu, b) = (bu', b')"
  shows "body_ok b'" "bu_used bu' - qb_bytes b' = bu_used bu - qb_bytes b"
    "bu_used bu \<le> bu_limit bu \<Longrightarrow> bu_used bu' \<le> bu_limit bu'" "capturing b' = capturing b" "bu_limit bu' = bu_limit bu"
    "available bu' \<le> available bu" "bu_scheduled bu' = bu_scheduled bu"
    "capturing b \<Longrightarrow> k \<in> set (bu_waiters bu') \<Longrightarrow> available bu' = 0"
  using capture_effect [OF assms(1), of k bu] assms(2) by (auto simp: capture_effect_def capturing_def)

text \<open>Pulling.\<close>

definition flowing :: "queued_body \<Rightarrow> bool" where
  "flowing b \<longleftrightarrow> body_ok b \<and> qb_output b \<noteq> None \<and> \<not> qb_disposed b"

lemma flowing_chunk:
  assumes f: "flowing b" and c: "qb_chunks b = c # cs"
  shows "flowing (push_chunk c (b\<lparr>qb_chunks := cs, qb_bytes := qb_bytes b - int (length c)\<rparr>))"
proof -
  obtain out where out: "qb_output b = Some out" using f by (auto simp: flowing_def)
  show ?thesis
    using f c out by (auto simp: flowing_def body_ok_def body_parts push_chunk_def)
qed

lemma flowing_read:
  assumes f: "flowing b" and c: "qb_chunks b = []" and u: "up_buffer (qb_req b) \<noteq> []"
  shows "flowing (push_chunk (take n (up_buffer (qb_req b))) (snd (take_upload n b)))"
proof -
  obtain out where out: "qb_output b = Some out" using f by (auto simp: flowing_def)
  have a: "qb_arrived b = concat (qo_pushed out) @ up_buffer (qb_req b)"
    using f c out by (simp add: flowing_def body_ok_def body_parts)
  have e: "\<not> qb_ended b" "\<not> up_ended (qb_req b)" using f u by (auto simp: flowing_def body_ok_def ends_are_true_def)
  have i: "qo_ended out \<longrightarrow> up_buffer (qb_req b) = []"
    using f out a by (auto simp: flowing_def body_ok_def ends_are_true_def sent_def sent_end_def)
  have w: "inspected_whole b" using f by (simp add: flowing_def body_ok_def)
  have b: "qb_bytes b = 0" using f c by (simp add: flowing_def body_ok_def held_def)
  show ?thesis
    using f c out a e i u w b
    by (simp add: flowing_def body_ok_def body_parts push_chunk_def take_upload_def)
qed

lemma flowing_end:
  assumes f: "flowing b" and c: "qb_chunks b = []" and e: "qb_ended b \<or> up_ended (qb_req b)"
  shows "flowing (push_end (b\<lparr>qb_demand := False\<rparr>))"
proof -
  obtain out where out: "qb_output b = Some out" using f by (auto simp: flowing_def)
  have u: "up_buffer (qb_req b) = []" "up_eof (qb_req b)" using f e by (auto simp: flowing_def body_ok_def ends_are_true_def)
  show ?thesis using f c out u by (auto simp: flowing_def body_ok_def body_parts push_end_def)
qed

lemma demand_parts:
  "upload_kept (b\<lparr>qb_demand := d\<rparr>) = upload_kept b" "inspected_whole (b\<lparr>qb_demand := d\<rparr>) = inspected_whole b"
  "held (b\<lparr>qb_demand := d\<rparr>) = held b" "ends_are_true (b\<lparr>qb_demand := d\<rparr>) = ends_are_true b"
  by (simp_all add: body_parts)

lemma demand_ok: "body_ok b \<Longrightarrow> qb_output b \<noteq> None \<Longrightarrow> body_ok (b\<lparr>qb_demand := d\<rparr>)"
  by (simp add: body_ok_def demand_parts)

lemma flowing_demand: "flowing b \<Longrightarrow> flowing (b\<lparr>qb_demand := d\<rparr>)"
  by (simp add: flowing_def demand_ok)

text \<open>What pulling does to an upload with an output and to the budget.\<close>

definition pulled_from :: "body_budget \<times> queued_body \<Rightarrow> body_budget \<times> queued_body \<Rightarrow> bool" where
  "pulled_from x y \<longleftrightarrow> (case (x, y) of ((bu, b), (bu', b')) \<Rightarrow>
     flowing b' \<and> bu_used bu' - qb_bytes b' = bu_used bu - qb_bytes b \<and> bu_used bu' \<le> bu_used bu \<and>
     bu_limit bu' = bu_limit bu \<and> bu_waiters bu' = bu_waiters bu \<and> (wake_ok bu \<longrightarrow> wake_ok bu'))"

lemma pulled_refl: "flowing b \<Longrightarrow> pulled_from (bu, b) (bu, b)"
  by (simp add: pulled_from_def)

lemma pulled_trans: "pulled_from x y \<Longrightarrow> pulled_from y z \<Longrightarrow> pulled_from x z"
  by (auto simp: pulled_from_def split: prod.splits)

lemma pulled_body: "flowing b' \<Longrightarrow> qb_bytes b' = qb_bytes b \<Longrightarrow> pulled_from (bu, b) (bu, b')"
  by (simp add: pulled_from_def)

lemma push_simps [simp]:
  "qb_chunks (push_chunk c b) = qb_chunks b" "qb_bytes (push_chunk c b) = qb_bytes b" "qb_req (push_chunk c b) = qb_req b"
  "qb_ended (push_chunk c b) = qb_ended b" "qb_bytes (push_end b) = qb_bytes b"
  by (simp_all add: push_chunk_def push_end_def)

lemma pull_chunks_from:
  "flowing b \<Longrightarrow> qb_chunks b = cs \<Longrightarrow> pull_chunks cs room bu b = (r, bu', b') \<Longrightarrow>
   pulled_from (bu, b) (bu', b') \<and> (r \<noteq> None \<longrightarrow> qb_chunks b' = [])"
proof (induction cs arbitrary: room bu b)
  case Nil
  then show ?case by (auto simp: pulled_refl)
next
  case (Cons c cs)
  let ?b = "push_chunk c (b\<lparr>qb_chunks := cs, qb_bytes := qb_bytes b - int (length c)\<rparr>)" and ?bu = "release_bytes (int (length c)) bu"
  have f: "flowing ?b" by (rule flowing_chunk [OF Cons.prems(1,2)])
  have p: "pulled_from (bu, b) (?bu, ?b)" using f by (simp add: pulled_from_def release_wakes)
  show ?case
  proof (cases room)
    case 0
    have "pulled_from (?bu, ?b) (?bu, ?b\<lparr>qb_demand := False\<rparr>)" by (rule pulled_body) (simp_all add: flowing_demand [OF f])
    with p have "pulled_from (bu, b) (?bu, ?b\<lparr>qb_demand := False\<rparr>)" by (rule pulled_trans)
    with 0 Cons.prems(3) show ?thesis by (simp add: Let_def)
  next
    case (Suc n)
    have e: "pull_chunks cs n ?bu ?b = (r, bu', b')" using Suc Cons.prems(3) by (simp add: Let_def)
    have "pulled_from (?bu, ?b) (bu', b') \<and> (r \<noteq> None \<longrightarrow> qb_chunks b' = [])" by (rule Cons.IH [OF f _ e]) simp
    with p show ?thesis by (blast intro: pulled_trans)
  qed
qed

lemma pull_upload_from:
  "flowing b \<Longrightarrow> qb_chunks b = [] \<Longrightarrow> pull_upload hwm room b = (r, b') \<Longrightarrow>
   flowing b' \<and> qb_bytes b' = qb_bytes b \<and> qb_chunks b' = []"
proof (induction hwm room b arbitrary: rule: pull_upload.induct)
  case (1 hwm room b)
  show ?case
  proof (cases "up_buffer (qb_req b) = [] \<or> hwm = 0")
    case True
    with 1 show ?thesis by (auto simp: pull_upload.simps [of hwm room b])
  next
    case False
    let ?n = "min (length (up_buffer (qb_req b))) hwm"
    let ?b = "push_chunk (take ?n (up_buffer (qb_req b))) (snd (take_upload ?n b))"
    have t: "take_upload ?n b = (take ?n (up_buffer (qb_req b)), snd (take_upload ?n b))" by (simp add: take_upload_def)
    have f: "flowing ?b" using flowing_read [OF 1(2,3)] False by blast
    have b: "qb_bytes ?b = qb_bytes b" "qb_chunks ?b = []" using 1(3) by (simp_all add: take_upload_def)
    show ?thesis
    proof (cases room)
      case 0
      with 1(4) False have "b' = ?b\<lparr>qb_demand := False\<rparr>" by (simp add: pull_upload.simps [of hwm 0 b] take_upload_def Let_def)
      with flowing_demand [OF f] b show ?thesis by simp
    next
      case (Suc m)
      with 1(4) False have e: "pull_upload hwm m ?b = (r, b')" by (simp add: pull_upload.simps [of hwm "Suc m" b] take_upload_def Let_def)
      show ?thesis using 1(1) [OF False t [symmetric] refl refl Suc f b(2) e] b by simp
    qed
  qed
qed

lemma pull_from:
  assumes f: "flowing b" and p: "pull hwm room (bu, b) = (bu', b')"
  shows "pulled_from (bu, b) (bu', b')"
proof (cases "\<not> qb_demand b \<or> qb_disposed b")
  case True
  with p f show ?thesis by (auto simp: pull_def pulled_refl)
next
  case False
  obtain r bu1 b1 where c: "pull_chunks (qb_chunks b) room bu b = (r, bu1, b1)" using prod_cases3 by blast
  note c' = pull_chunks_from [OF f refl c]
  show ?thesis
  proof (cases r)
    case None
    with False p c c' show ?thesis by (simp add: pull_def)
  next
    case (Some left)
    obtain r2 b2 where u: "pull_upload hwm left b1 = (r2, b2)" by fastforce
    have f1: "flowing b1" "qb_chunks b1 = []" using c' Some by (auto simp: pulled_from_def)
    note u' = pull_upload_from [OF f1 u]
    have "bu' = bu1" "b' = b2 \<or> b' = push_end (b2\<lparr>qb_demand := False\<rparr>) \<and> (qb_ended b2 \<or> up_ended (qb_req b2))"
      using False p c Some u by (auto simp: pull_def split: option.splits if_splits)
    with u' flowing_end [of b2] have "pulled_from (bu1, b1) (bu', b')" by (auto intro: pulled_body)
    with c' show ?thesis by (blast intro: pulled_trans)
  qed
qed

text \<open>An operation that only pulls keeps the contract.\<close>

lemma pulled_fromD:
  assumes "pulled_from (bu, b) (bu', b')"
  shows "body_ok b'" "bu_used bu' - qb_bytes b' = bu_used bu - qb_bytes b" "bu_limit bu' = bu_limit bu"
    "bu_used bu' \<le> bu_used bu" "bu_waiters bu' = bu_waiters bu" "wake_ok bu \<Longrightarrow> wake_ok bu'" "\<not> capturing b'"
  using assms by (auto simp: pulled_from_def flowing_def capturing_def)

lemma idle_or_pulls:
  assumes "\<And>bu b bu' b'. act (bu, b) = (bu', b') \<Longrightarrow> body_ok b \<Longrightarrow>
     (bu' = bu \<and> body_ok b' \<and> qb_bytes b' = qb_bytes b \<and> (capturing b \<longrightarrow> capturing b')) \<or>
     \<not> capturing b \<and> pulled_from (bu, b) (bu', b')"
  shows "quiet_operation k act"
proof unfold_locales
  fix b bu b' bu' j
  assume ok: "body_ok b" and a: "act (bu, b) = (bu', b')"
  note e = assms [OF a ok]
  show "body_ok b'" using e pulled_fromD(1) by blast
  show "bu_used bu' - qb_bytes b' = bu_used bu - qb_bytes b" using e pulled_fromD(2) by fastforce
  show "bu_used bu \<le> bu_limit bu \<Longrightarrow> bu_used bu' \<le> bu_limit bu'" using e pulled_fromD(3,4) [of bu b bu' b'] by fastforce
  show "bu_limit bu' = bu_limit bu" using e pulled_fromD(3) by blast
  show "j \<noteq> k \<Longrightarrow> (j \<in> set (bu_waiters bu')) = (j \<in> set (bu_waiters bu))" using e pulled_fromD(5) by metis
  show "(k \<in> set (bu_waiters bu) \<longrightarrow> capturing b) \<Longrightarrow> k \<in> set (bu_waiters bu') \<Longrightarrow> capturing b'"
    using e pulled_fromD(5) by metis
  show "wake_ok bu \<Longrightarrow> wake_ok bu'" using e pulled_fromD(6) by blast
qed

interpretation capture: quiet_operation k "capture k" for k
proof unfold_locales
  fix b bu b' bu' j
  assume ok: "body_ok b" and a: "capture k (bu, b) = (bu', b')"
  note e = capture_effectD [OF ok a]
  have idle: "\<not> capturing b \<Longrightarrow> bu' = bu \<and> b' = b" and w: "set (bu_waiters bu') - {k} = set (bu_waiters bu) - {k}"
    using capture_effect [OF ok, of k bu] a by (auto simp: capture_effect_def)
  show "body_ok b'" by (rule e(1))
  show "bu_used bu' - qb_bytes b' = bu_used bu - qb_bytes b" by (rule e(2))
  show "bu_limit bu' = bu_limit bu" by (rule e(5))
  show "bu_used bu \<le> bu_limit bu \<Longrightarrow> bu_used bu' \<le> bu_limit bu'" by (rule e(3))
  show "j \<noteq> k \<Longrightarrow> (j \<in> set (bu_waiters bu')) = (j \<in> set (bu_waiters bu))" using w by blast
  show "(k \<in> set (bu_waiters bu) \<longrightarrow> capturing b) \<Longrightarrow> k \<in> set (bu_waiters bu') \<Longrightarrow> capturing b'"
    using idle e(4) by metis
  show "wake_ok bu'" if wk: "wake_ok bu"
  proof (cases "capturing b \<and> k \<in> set (bu_waiters bu')")
    case True
    with e(8) show ?thesis by (simp add: wake_ok_def)
  next
    case False
    then have "set (bu_waiters bu') \<subseteq> set (bu_waiters bu)" using w idle by blast
    moreover have "available bu = 0 \<Longrightarrow> available bu' = 0" using e(6) by (auto simp: available_def)
    ultimately show ?thesis using wk e(7) by (auto simp: wake_ok_def)
  qed
qed

text \<open>The listener of \<open>readable\<close> captures or pulls.\<close>

definition pull_open :: "nat \<Rightarrow> nat \<Rightarrow> body_budget \<times> queued_body \<Rightarrow> body_budget \<times> queued_body" where
  "pull_open hwm room = (\<lambda>(bu, b). if qb_disposed b \<or> qb_output b = None then (bu, b) else pull hwm room (bu, b))"

interpretation pull_open: quiet_operation k "pull_open hwm room" for k hwm room
proof (rule idle_or_pulls)
  fix bu b bu' b'
  assume a: "pull_open hwm room (bu, b) = (bu', b')" "body_ok b"
  show "bu' = bu \<and> body_ok b' \<and> qb_bytes b' = qb_bytes b \<and> (capturing b \<longrightarrow> capturing b') \<or>
    \<not> capturing b \<and> pulled_from (bu, b) (bu', b')"
  proof (cases "qb_disposed b \<or> qb_output b = None")
    case True
    with a show ?thesis by (auto simp: pull_open_def)
  next
    case False
    with a have "flowing b" "pull hwm room (bu, b) = (bu', b')" by (auto simp: flowing_def pull_open_def)
    with False show ?thesis using pull_from by (auto simp: capturing_def)
  qed
qed

lemma at_body_readable:
  "at_body k (on_readable k hwm room) p = at_body k (pull_open hwm room) p \<or>
   at_body k (on_readable k hwm room) p = at_body k (capture k) p"
  by (simp add: at_body_def on_readable_def pull_open_def)

interpretation demanded: quiet_operation k "demanded hwm room" for k hwm room
proof (rule idle_or_pulls)
  fix bu b bu' b'
  assume a: "demanded hwm room (bu, b) = (bu', b')" "body_ok b"
  show "bu' = bu \<and> body_ok b' \<and> qb_bytes b' = qb_bytes b \<and> (capturing b \<longrightarrow> capturing b') \<or>
    \<not> capturing b \<and> pulled_from (bu, b) (bu', b')"
  proof (cases "qb_output b")
    case None
    with a show ?thesis by (auto simp: demanded_def)
  next
    case (Some out)
    show ?thesis
    proof (cases "qb_disposed b")
      case True
      have "body_ok (b\<lparr>qb_demand := True\<rparr>)"
        using a(2) Some by (simp add: demand_ok)
      with True Some a show ?thesis by (auto simp: demanded_def demand_def pull_def capturing_def split: if_splits)
    next
      case False
      with a(2) Some have f: "flowing b" by (simp add: flowing_def)
      have p: "pulled_from (bu, b) (bu, b\<lparr>qb_demand := True\<rparr>)" by (rule pulled_body) (simp_all add: flowing_demand [OF f])
      have "(bu', b') = (bu, b) \<or> pull hwm room (bu, b\<lparr>qb_demand := True\<rparr>) = (bu', b')"
        using a(1) Some by (auto simp: demanded_def demand_def split: if_splits)
      then have "pulled_from (bu, b) (bu', b')"
        using pulled_refl [OF f] pulled_trans [OF p] pull_from [OF flowing_demand [OF f]] by auto
      with Some show ?thesis by (simp add: capturing_def)
    qed
  qed
qed

lemma ended_emitted_ok:
  assumes "body_ok b" "up_eof (qb_req b)" "up_buffer (qb_req b) = []"
  shows "body_ok (b\<lparr>qb_req := (qb_req b)\<lparr>up_ended := True\<rparr>\<rparr>)"
    "body_ok (b\<lparr>qb_req := (qb_req b)\<lparr>up_ended := True\<rparr>, qb_ended := True\<rparr>)"
proof -
  let ?b = "b\<lparr>qb_req := (qb_req b)\<lparr>up_ended := True\<rparr>\<rparr>"
  have "upload_kept ?b = upload_kept b" "inspected_whole ?b = inspected_whole b" "held ?b = held b" "sent ?b = sent b"
    "sent_end ?b = sent_end b"
    by (simp_all add: body_parts)
  with assms show "body_ok ?b" by (simp add: body_ok_def ends_are_true_def)
  then show "body_ok (b\<lparr>qb_req := (qb_req b)\<lparr>up_ended := True\<rparr>, qb_ended := True\<rparr>)"
    using ended_ok [of ?b] by simp
qed

interpretation end_emitted: quiet_operation k "end_emitted hwm room" for k hwm room
proof (rule idle_or_pulls)
  fix bu b bu' b'
  assume a: "end_emitted hwm room (bu, b) = (bu', b')" and ok: "body_ok b"
  let ?u = "b\<lparr>qb_req := (qb_req b)\<lparr>up_ended := True\<rparr>\<rparr>" and ?e = "b\<lparr>qb_req := (qb_req b)\<lparr>up_ended := True\<rparr>, qb_ended := True\<rparr>"
  show "bu' = bu \<and> body_ok b' \<and> qb_bytes b' = qb_bytes b \<and> (capturing b \<longrightarrow> capturing b') \<or>
    \<not> capturing b \<and> pulled_from (bu, b) (bu', b')"
  proof (cases "up_eof (qb_req b) \<and> up_buffer (qb_req b) = [] \<and> \<not> up_ended (qb_req b)")
    case False
    with a ok show ?thesis by (auto simp: end_emitted_def)
  next
    case True
    with ok have ue: "body_ok ?u" "body_ok ?e" using ended_emitted_ok by blast+
    show ?thesis
    proof (cases "qb_disposed b \<or> qb_output b = None")
      case d: True
      have "body_ok (inspect_body ?e)" if "qb_output b = None" using that by (intro inspect_ok ue) simp_all
      with d True a ue show ?thesis
        by (auto simp: end_emitted_def on_end_def capturing_def Let_def split: if_splits)
    next
      case False
      then have f: "flowing b" "flowing ?e" using ok ue by (simp_all add: flowing_def)
      have "pull hwm room (bu, ?e) = (bu', b')" using a True False by (simp add: end_emitted_def on_end_def Let_def)
      then have "pulled_from (bu, ?e) (bu', b')" by (rule pull_from [OF f(2)])
      moreover have "pulled_from (bu, b) (bu, ?e)" by (rule pulled_body [OF f(2)]) simp
      ultimately show ?thesis using False by (auto simp: capturing_def intro: pulled_trans)
    qed
  qed
qed

lemma upload_arrives_ok:
  assumes "body_ok b" "\<not> up_eof (qb_req b)"
  shows "body_ok (b\<lparr>qb_req := (qb_req b)\<lparr>up_buffer := up_buffer (qb_req b) @ t\<rparr>, qb_arrived := qb_arrived b @ t\<rparr>)"
proof -
  let ?b = "b\<lparr>qb_req := (qb_req b)\<lparr>up_buffer := up_buffer (qb_req b) @ t\<rparr>, qb_arrived := qb_arrived b @ t\<rparr>"
  have s: "sent ?b = sent b" "held ?b = held b" "sent_end ?b = sent_end b" by (simp_all add: body_parts)
  have e: "\<not> qb_ended b" "\<not> up_ended (qb_req b)" "\<not> sent_end b" "qb_inspected b = []"
    using assms by (auto simp: body_ok_def ends_are_true_def inspected_whole_def)
  have "upload_kept ?b"
    using assms(1) s by (cases "qb_disposed b") (simp_all add: body_ok_def upload_kept_def begins_with_extend)
  with assms(1) s e show ?thesis by (simp add: body_ok_def ends_are_true_def inspected_whole_def)
qed

interpretation upload_arrives: quiet_operation k "upload_arrives t" for k t
  by (rule idle_or_pulls) (auto simp: upload_arrives_def capturing_def upload_arrives_ok split: if_splits)

lemma upload_over_ok: "body_ok b \<Longrightarrow> body_ok (b\<lparr>qb_req := (qb_req b)\<lparr>up_eof := True\<rparr>\<rparr>)"
proof -
  let ?b = "b\<lparr>qb_req := (qb_req b)\<lparr>up_eof := True\<rparr>\<rparr>"
  have "sent ?b = sent b" "held ?b = held b" "sent_end ?b = sent_end b" "upload_kept ?b = upload_kept b"
    by (simp_all add: body_parts)
  then show "body_ok b \<Longrightarrow> body_ok ?b" by (auto simp: body_ok_def ends_are_true_def inspected_whole_def)
qed

interpretation upload_over: quiet_operation k upload_over for k
  by (rule idle_or_pulls) (auto simp: upload_over_def capturing_def upload_over_ok)

text \<open>Opening the output and giving up the preview take the upload out of the waiters.\<close>

lemma leaves_waiters:
  assumes "\<And>b. body_ok b \<Longrightarrow> body_ok (g b) \<and> qb_bytes (g b) = qb_bytes b" "\<And>b. P b \<Longrightarrow> \<not> capturing b"
  shows "quiet_operation k (\<lambda>(bu, b). if P b then (bu, b) else (drop_waiter k bu, g b))"
  by unfold_locales (use assms in \<open>auto simp: drop_waiter_wake split: if_splits\<close>)

lemma open_ok:
  assumes "body_ok b" "qb_output b = None"
  shows "body_ok (b\<lparr>qb_observing := False, qb_output := Some new_output\<rparr>)"
proof -
  let ?b = "b\<lparr>qb_observing := False, qb_output := Some new_output\<rparr>"
  have "sent ?b = sent b" "held ?b = held b" "sent_end ?b = sent_end b"
    using assms(2) by (simp_all add: body_parts new_output_def)
  with assms show ?thesis by (simp add: body_ok_def upload_kept_def ends_are_true_def inspected_whole_def)
qed

interpretation open_output: quiet_operation k "open_output k" for k
proof -
  have e: "open_output k = (\<lambda>(bu, b). if qb_output b \<noteq> None then (bu, b) else
     (drop_waiter k bu, if qb_output b = None then b\<lparr>qb_observing := False, qb_output := Some new_output\<rparr> else b))"
    by (auto simp: open_output_def)
  show "quiet_operation k (open_output k)"
    unfolding e by (rule leaves_waiters) (auto simp: open_ok capturing_def)
qed

lemma stop_ok: "body_ok b \<Longrightarrow> body_ok (b\<lparr>qb_stopped := True, qb_observing := False\<rparr>)"
proof -
  let ?b = "b\<lparr>qb_stopped := True, qb_observing := False\<rparr>"
  have "sent ?b = sent b" "held ?b = held b" "sent_end ?b = sent_end b" "upload_kept ?b = upload_kept b"
    by (simp_all add: body_parts)
  then show "body_ok b \<Longrightarrow> body_ok ?b" by (simp add: body_ok_def ends_are_true_def inspected_whole_def)
qed

interpretation stop_inspection: quiet_operation k "stop_inspection k" for k
proof -
  have e: "stop_inspection k = (\<lambda>(bu, b). if False then (bu, b) else (drop_waiter k bu, b\<lparr>qb_stopped := True, qb_observing := False\<rparr>))"
    by (auto simp: stop_inspection_def)
  show "quiet_operation k (stop_inspection k)"
    unfolding e by (rule leaves_waiters) (auto simp: stop_ok)
qed

section \<open>Every reachable pool\<close>

text \<open>While the wake-ups run, an upload is registered again only when nothing is left for it.\<close>

definition woken :: "nat list \<Rightarrow> body_pool \<Rightarrow> bool" where
  "woken ks p \<longleftrightarrow> list_all (\<lambda>w. w \<in> set ks \<or> available (bp_budget p) = 0) (bu_waiters (bp_budget p))"

lemma woken_step:
  assumes ok: "pool_ok limit p" and w: "woken (k # ks) p"
  shows "pool_ok limit (at_body k (capture k) p)" "woken ks (at_body k (capture k) p)"
proof -
  let ?p = "at_body k (capture k) p"
  show ok': "pool_ok limit ?p" by (rule capture.at_body_ok [OF ok])
  show "woken ks ?p"
  proof (cases "k < length (bp_bodies p)")
    case False
    with ok w show ?thesis by (auto simp: at_body_def woken_def list_all_iff pool_ok_def waiters_capture_def)
  next
    case True
    obtain bu b where c: "capture k (bp_budget p, bp_bodies p ! k) = (bu, b)" by fastforce
    have body: "body_ok (bp_bodies p ! k)" using ok True by (simp add: pool_ok_def list_all_length)
    note e = capture_effectD [OF body c]
    have p: "bp_budget ?p = bu" "bp_bodies ?p ! k = b" "k < length (bp_bodies ?p)" using True c by (simp_all add: at_body_def)
    have "available bu = 0 \<or> j \<in> set ks" if j: "j \<in> set (bu_waiters bu)" for j
    proof (cases "j = k")
      case True
      have "capturing b" using ok' j p True by (auto simp: pool_ok_def waiters_capture_def list_all_iff)
      with e(4,8) j True show ?thesis by auto
    next
      case False
      with capture.other_waiters [OF body c] j have "j \<in> set (bu_waiters (bp_budget p))" by blast
      with w False e(6) show ?thesis by (auto simp: woken_def list_all_iff available_def)
    qed
    then show ?thesis using p(1) by (auto simp: woken_def list_all_iff)
  qed
qed

lemma woken_all:
  "pool_ok limit p \<Longrightarrow> woken ks p \<Longrightarrow>
   pool_ok limit (fold (\<lambda>k. at_body k (capture k)) ks p) \<and> woken [] (fold (\<lambda>k. at_body k (capture k)) ks p)"
  by (induction ks arbitrary: p) (simp_all add: woken_step)

lemma wake_all_ok:
  assumes ok: "pool_ok limit p" and wk: "wake_ok (bp_budget p)"
  shows "pool_ok limit (wake_all p) \<and> wake_ok (bp_budget (wake_all p))"
proof (cases "bu_scheduled (bp_budget p)")
  case True
  let ?p = "p\<lparr>bp_budget := (bp_budget p)\<lparr>bu_scheduled := False\<rparr>\<rparr>"
  have "pool_ok limit ?p" using ok by (simp add: pool_ok_def held_bytes_def waiters_capture_def)
  moreover have "woken (bu_waiters (bp_budget p)) ?p" by (simp add: woken_def list_all_iff)
  ultimately have "pool_ok limit (wake_all p) \<and> woken [] (wake_all p)"
    using woken_all [of limit ?p "bu_waiters (bp_budget p)"] True by (simp add: wake_all_def)
  then show ?thesis by (cases "bu_waiters (bp_budget (wake_all p))") (auto simp: woken_def wake_ok_def)
qed (use assms in \<open>simp add: wake_all_def\<close>)

definition bodies_safe :: "int \<Rightarrow> body_pool \<Rightarrow> bool" where
  "bodies_safe limit p \<longleftrightarrow> pool_ok limit p \<and> wake_ok (bp_budget p)"

lemma quiet_safe:
  assumes "quiet_operation k act" "bodies_safe limit p"
  shows "bodies_safe limit (at_body k act p)"
  using assms body_operation.at_body_ok [of k act limit p] quiet_operation.at_body_wake_ok [of k act p]
  by (auto simp: bodies_safe_def pool_ok_def quiet_operation_def)

lemma accept_safe:
  assumes "bodies_safe limit p"
  shows "bodies_safe limit (accept_upload l t p)"
proof -
  let ?p = "p\<lparr>bp_bodies := bp_bodies p @ [new_body l t]\<rparr>"
  have "bodies_safe limit ?p"
    using assms new_body_ok [of l t]
    by (auto simp: bodies_safe_def pool_ok_def held_bytes_def waiters_capture_def list_all_iff nth_append new_body_def)
  from quiet_safe [OF capture.quiet_operation_axioms this] show ?thesis by (simp add: accept_upload_def Let_def)
qed

lemma body_step_safe:
  assumes "bodies_safe limit p"
  shows "bodies_safe limit (body_step hwm ev p)"
proof (cases ev)
  case (Readable k room)
  with at_body_readable [of k hwm room p] quiet_safe [OF pull_open.quiet_operation_axioms assms]
    quiet_safe [OF capture.quiet_operation_axioms assms, of k]
  show ?thesis by (metis body_step.simps(4))
next
  case Wake
  with assms wake_all_ok [of limit p] show ?thesis by (simp add: bodies_safe_def)
qed (use assms in \<open>simp_all add: accept_safe on_error_def quiet_safe [OF upload_arrives.quiet_operation_axioms]
  quiet_safe [OF upload_over.quiet_operation_axioms] quiet_safe [OF end_emitted.quiet_operation_axioms]
  quiet_safe [OF dispose.quiet_operation_axioms] quiet_safe [OF open_output.quiet_operation_axioms]
  quiet_safe [OF demanded.quiet_operation_axioms] quiet_safe [OF stop_inspection.quiet_operation_axioms]\<close>)

lemma no_bodies_safe: "0 \<le> limit \<Longrightarrow> bodies_safe limit (no_bodies limit)"
  by (simp add: bodies_safe_def pool_ok_def no_bodies_def new_budget_def held_bytes_def waiters_capture_def wake_ok_def)

lemma run_bodies_safe: "bodies_safe limit p \<Longrightarrow> bodies_safe limit (run_bodies hwm es p)"
  unfolding run_bodies_def by (induction es arbitrary: p) (simp_all add: body_step_safe)

section \<open>What reaches the dispatch\<close>







section \<open>A complete upload comes to its end\<close>

definition same_upload :: "queued_body \<Rightarrow> queued_body \<Rightarrow> bool" where
  "same_upload b b' \<longleftrightarrow> up_eof (qb_req b') = up_eof (qb_req b) \<and> up_ended (qb_req b') = up_ended (qb_req b) \<and>
     qb_ended b' = qb_ended b \<and> qb_disposed b' = qb_disposed b \<and> qb_demand b' = qb_demand b \<and>
     (qb_output b' = None \<longleftrightarrow> qb_output b = None)"

lemma same_upload_push: "same_upload b (push_chunk c b)"
  by (simp add: same_upload_def push_chunk_def)

lemma same_upload_trans: "same_upload a b \<Longrightarrow> same_upload b c \<Longrightarrow> same_upload a c"
  by (simp add: same_upload_def)

lemma pull_chunks_all:
  "length cs \<le> room \<Longrightarrow> qb_chunks b = cs \<Longrightarrow>
   \<exists>bu' b'. pull_chunks cs room bu b = (Some (room - length cs), bu', b') \<and> qb_req b' = qb_req b \<and> same_upload b b'"
proof (induction cs arbitrary: room bu b)
  case Nil
  then show ?case by (simp add: same_upload_def)
next
  case (Cons c cs)
  let ?b = "push_chunk c (b\<lparr>qb_chunks := cs, qb_bytes := qb_bytes b - int (length c)\<rparr>)"
  obtain m where m: "room = Suc m" "length cs \<le> m" using Cons.prems(1) by (cases room) auto
  have "qb_chunks ?b = cs" by simp
  from Cons.IH [OF m(2) this, of "release_bytes (int (length c)) bu"] obtain bu' b' where
    r: "pull_chunks cs m (release_bytes (int (length c)) bu) ?b = (Some (m - length cs), bu', b')" "qb_req b' = qb_req ?b" "same_upload ?b b'"
    by blast
  have "same_upload b ?b" by (simp add: same_upload_def push_chunk_def)
  with r(3) have "same_upload b b'" by (blast intro: same_upload_trans)
  with r m show ?case by (simp add: Let_def)
qed

lemma pull_upload_all:
  "0 < hwm \<Longrightarrow> length (up_buffer (qb_req b)) \<le> room \<Longrightarrow>
   \<exists>left b'. pull_upload hwm room b = (Some left, b') \<and> up_buffer (qb_req b') = [] \<and> same_upload b b'"
proof (induction room arbitrary: b)
  case 0
  then show ?case by (simp add: pull_upload.simps [of hwm 0] same_upload_def)
next
  case (Suc m)
  show ?case
  proof (cases "up_buffer (qb_req b) = []")
    case True
    then show ?thesis by (simp add: pull_upload.simps [of hwm "Suc m"] same_upload_def)
  next
    case False
    let ?n = "min (length (up_buffer (qb_req b))) hwm"
    let ?b = "push_chunk (take ?n (up_buffer (qb_req b))) (snd (take_upload ?n b))"
    have "0 < ?n" using False Suc.prems(1) by simp
    then have "length (up_buffer (qb_req b)) - ?n \<le> m" using Suc.prems(2) by linarith
    then have "length (up_buffer (qb_req ?b)) \<le> m" by simp
    from Suc.IH [OF Suc.prems(1) this] obtain left b' where
      r: "pull_upload hwm m ?b = (Some left, b')" "up_buffer (qb_req b') = []" "same_upload ?b b'" by blast
    have "pull_upload hwm (Suc m) b = pull_upload hwm m ?b"
      using False Suc.prems(1) by (simp add: pull_upload.simps [of hwm "Suc m" b] take_upload_def Let_def)
    moreover have "same_upload b ?b" by (simp add: same_upload_def push_chunk_def take_upload_def)
    ultimately show ?thesis using r by (auto intro: same_upload_trans)
  qed
qed

lemma pull_all:
  assumes "0 < hwm" "length (qb_chunks b) + length (up_buffer (qb_req b)) \<le> room" "qb_demand b" "\<not> qb_disposed b"
    and f: "flowing b"
  obtains bu' b' where "pull hwm room (bu, b) = (bu', if qb_ended b \<or> up_ended (qb_req b) then push_end (b'\<lparr>qb_demand := False\<rparr>) else b')"
    "up_buffer (qb_req b') = []" "qb_chunks b' = []" "same_upload b b'" "flowing b'"
proof -
  have l: "length (qb_chunks b) \<le> room" using assms(2) by simp
  from pull_chunks_all [OF l refl, of bu] obtain bu1 b1 where
    c: "pull_chunks (qb_chunks b) room bu b = (Some (room - length (qb_chunks b)), bu1, b1)" "qb_req b1 = qb_req b" "same_upload b b1" by blast
  have f1: "flowing b1" "qb_chunks b1 = []" using pull_chunks_from [OF f refl c(1)] by (auto simp: pulled_from_def)
  have "length (up_buffer (qb_req b1)) \<le> room - length (qb_chunks b)" using assms(2) c(2) by simp
  from pull_upload_all [OF assms(1) this] obtain left b2 where
    u: "pull_upload hwm (room - length (qb_chunks b)) b1 = (Some left, b2)" "up_buffer (qb_req b2) = []" "same_upload b1 b2" by blast
  have f2: "flowing b2" "qb_chunks b2 = []" using pull_upload_from [OF f1 u(1)] by simp_all
  have s: "same_upload b b2" using c(3) u(3) by (rule same_upload_trans)
  have "pull hwm room (bu, b) = (bu1, if qb_ended b \<or> up_ended (qb_req b) then push_end (b2\<lparr>qb_demand := False\<rparr>) else b2)"
    using assms(3,4) c(1) u(1) s by (auto simp: pull_def same_upload_def)
  then show ?thesis using u(2) f2 s by (intro that)
qed

lemma push_end_sent: "flowing b \<Longrightarrow> sent_end (push_end (b\<lparr>qb_demand := d\<rparr>))"
  by (auto simp: flowing_def sent_end_def push_end_def)

text \<open>An upload in the hands of its dispatch whose last byte arrived, and an engine that takes what is left.\<close>

definition dispatched_whole :: "nat \<Rightarrow> nat \<Rightarrow> body_pool \<Rightarrow> bool" where
  "dispatched_whole k room p \<longleftrightarrow> k < length (bp_bodies p) \<and> (let b = bp_bodies p ! k in
     \<not> qb_disposed b \<and> up_eof (qb_req b) \<and> length (qb_chunks b) + length (up_buffer (qb_req b)) \<le> room \<and>
     (case qb_output b of None \<Rightarrow> False | Some out \<Rightarrow> \<not> qo_ended out \<and> \<not> qo_destroyed out))"

definition delivered_whole :: "nat \<Rightarrow> body_pool \<Rightarrow> bool" where
  "delivered_whole k p \<longleftrightarrow> (let b = bp_bodies p ! k in sent_end b \<and> sent b = qb_arrived b)"

lemma at_body_nth: "k < length (bp_bodies p) \<Longrightarrow> bp_bodies (at_body k act p) ! k = snd (act (bp_budget p, bp_bodies p ! k))"
  by (simp add: at_body_def split_beta)

lemma finishing_ends:
  assumes ok: "bodies_safe limit p" and d: "dispatched_whole k room p" and h: "0 < hwm"
  shows "sent_end (bp_bodies (body_step hwm (End k room) (body_step hwm (Demand k room) p)) ! k)"
proof -
  let ?b = "bp_bodies p ! k" and ?p = "body_step hwm (Demand k room) p"
  have k: "k < length (bp_bodies p)" and live: "\<not> qb_disposed ?b" "up_eof (qb_req ?b)"
    and room: "length (qb_chunks ?b) + length (up_buffer (qb_req ?b)) \<le> room"
    using d by (simp_all add: dispatched_whole_def Let_def)
  obtain out where out: "qb_output ?b = Some out" "\<not> qo_ended out" "\<not> qo_destroyed out"
    using d by (auto simp: dispatched_whole_def Let_def split: option.splits)
  have f: "flowing ?b" using ok k live out by (simp add: flowing_def bodies_safe_def pool_ok_def list_all_length)
  let ?d = "?b\<lparr>qb_demand := True\<rparr>"
  have fd: "flowing ?d" "qb_demand ?d" "\<not> qb_disposed ?d" "length (qb_chunks ?d) + length (up_buffer (qb_req ?d)) \<le> room"
    using flowing_demand [OF f] live room by simp_all
  obtain bu' b' where r: "pull hwm room (bp_budget p, ?d) =
      (bu', if qb_ended ?d \<or> up_ended (qb_req ?d) then push_end (b'\<lparr>qb_demand := False\<rparr>) else b')"
    and b': "up_buffer (qb_req b') = []" "qb_chunks b' = []" "same_upload ?d b'" "flowing b'"
    by (rule pull_all [OF h fd(4,2,3,1)])
  have step: "bp_bodies ?p ! k = (if qb_ended ?b \<or> up_ended (qb_req ?b) then push_end (b'\<lparr>qb_demand := False\<rparr>) else b')"
    using k r out by (simp add: at_body_nth demanded_def demand_def)
  have k': "k < length (bp_bodies ?p)" using k by (simp add: at_body_def split_beta)
  have s: "bodies_safe limit ?p" by (rule body_step_safe [OF ok])
  show ?thesis
  proof (cases "qb_ended ?b \<or> up_ended (qb_req ?b)")
    case True
    then have e: "sent_end (bp_bodies ?p ! k)" using step push_end_sent [OF b'(4)] by simp
    let ?e = "bp_bodies ?p ! k"
    have nd: "\<not> qb_demand ?e" using step True by (simp add: push_end_def)
    have "sent_end (snd (end_emitted hwm room (bp_budget ?p, ?e)))"
      using e nd by (auto simp: end_emitted_def on_end_def pull_def Let_def sent_end_def split: option.splits)
    then show ?thesis using at_body_nth [OF k'] by simp
  next
    case False
    let ?e = "b'\<lparr>qb_req := (qb_req b')\<lparr>up_ended := True\<rparr>, qb_ended := True\<rparr>"
    have same: "up_eof (qb_req b')" "\<not> up_ended (qb_req b')" "qb_demand b'" "\<not> qb_disposed b'" "qb_output b' \<noteq> None"
      using b'(3) live False out by (auto simp: same_upload_def)
    have fe: "flowing ?e" using ended_emitted_ok(2) [of b'] b'(1,4) same by (simp add: flowing_def)
    have pe: "length (qb_chunks ?e) + length (up_buffer (qb_req ?e)) \<le> room" "qb_demand ?e" "\<not> qb_disposed ?e"
      using b' same by simp_all
    obtain bu2 b2 where r2: "pull hwm room (bp_budget ?p, ?e) =
      (bu2, if qb_ended ?e \<or> up_ended (qb_req ?e) then push_end (b2\<lparr>qb_demand := False\<rparr>) else b2)" and b2: "flowing b2"
      by (rule pull_all [OF h pe fe])
    have "end_emitted hwm room (bp_budget ?p, b') = (bu2, push_end (b2\<lparr>qb_demand := False\<rparr>))"
      using same b'(1) r2 by (simp add: end_emitted_def on_end_def Let_def)
    then show ?thesis using at_body_nth [OF k'] step False push_end_sent [OF b2] by simp
  qed
qed

text \<open>C31: a dispatched upload is completed. In every reachable pool, once the last byte of an upload that its
  dispatch has opened arrived and the engine takes the pieces that are left, the engine has the whole body
  and its end, whatever had been read ahead of it and however the budget stood.\<close>

theorem dispatched_upload_completes:
  assumes "dispatched_whole k room (run_bodies hwm es (no_bodies (64 * 1024 * 1024)))" and "0 < hwm"
  shows "delivered_whole k (run_bodies hwm [Demand k room, End k room] (run_bodies hwm es (no_bodies (64 * 1024 * 1024))))"
proof -
  let ?p = "run_bodies hwm es (no_bodies (64 * 1024 * 1024))" and ?q = "run_bodies hwm [Demand k room, End k room]"
  have safe: "bodies_safe (64 * 1024 * 1024) ?p" by (intro run_bodies_safe no_bodies_safe) simp
  have e: "sent_end (bp_bodies (?q ?p) ! k)" using finishing_ends [OF safe assms] by (simp add: run_bodies_def)
  have "bodies_safe (64 * 1024 * 1024) (?q ?p)" by (rule run_bodies_safe [OF safe])
  moreover have "k < length (bp_bodies (?q ?p))"
    using assms(1) by (auto simp: dispatched_whole_def run_bodies_def at_body_def split_beta)
  ultimately have "body_ok (bp_bodies (?q ?p) ! k)" by (simp add: bodies_safe_def pool_ok_def list_all_length)
  with e show ?thesis by (simp add: delivered_whole_def body_ok_def ends_are_true_def)
qed

lemma dispatched_upload_completes_witness:
  "delivered_whole 0 (run_bodies 2 [Demand 0 5, End 0 5]
     (run_bodies 2 [Upload 3 ''ab'', Arrive 0 ''cd'', Readable 0 0, Eof 0, Dispatch 0] (no_bodies (64 * 1024 * 1024))))"
  by (rule dispatched_upload_completes) code_simp+

end
