(* ===== verification/Request_Deadline.thy ===== *)
theory Request_Deadline
  imports Gate_Prelude
begin

text \<open>
  The waiting limit of a queued request (\<open>deadline.mjs\<close>): the validated allowance, the way the refusal
  states it, and the chain of bounded timers that stands for one long deadline, because the runtime
  turns a delay above \<open>2^31 - 1\<close> milliseconds into one of a millisecond. Times are exact numbers; the
  monotonic clock and the moments at which the runtime calls a timer back are inputs.
\<close>

section \<open>The allowance\<close>

definition max_timer_ms :: int where
  "max_timer_ms = 2147483647"

definition default_queue_timeout_ms :: int where
  "default_queue_timeout_ms = 20000 * 60 * 60 * 1000"

definition allowance :: "js \<Rightarrow> int option" where
  "allowance v = (case safe_int (or_else v (jint default_queue_timeout_ms)) of
     None \<Rightarrow> None
   | Some ms \<Rightarrow> if ms < 1 then None else Some ms)"

lemma allowance_default: "allowance JUndef = Some 72000000000"
  by (simp add: allowance_def or_else_def default_queue_timeout_ms_def max_safe_def)

lemma allowance_positive: "allowance v = Some ms \<Longrightarrow> 1 \<le> ms \<and> ms \<le> max_safe"
  by (auto simp: allowance_def split: option.splits if_splits dest: safe_int_SomeD)

section \<open>The stated limit\<close>

definition limit_units :: "(int \<times> string) list" where
  "limit_units = [(3600000, ''hour''), (60000, ''minute''), (1000, ''second''), (1, ''millisecond'')]"

definition limit_unit :: "int \<Rightarrow> int \<times> string" where
  "limit_unit ms = (case find (\<lambda>u. ms mod fst u = 0) limit_units of Some u \<Rightarrow> u | None \<Rightarrow> (1, ''millisecond''))"

definition digit_char :: "nat \<Rightarrow> char" where
  "digit_char d = char_of (48 + d)"

fun decimal :: "nat \<Rightarrow> string" where
  "decimal n = (if n < 10 then [digit_char n] else decimal (n div 10) @ [digit_char (n mod 10)])"

declare decimal.simps [simp del]

text \<open>\<open>toLocaleString('en-US')\<close> of a whole number: its digits in groups of three, counted from the right.\<close>

fun grouped :: "string \<Rightarrow> string" where
  "grouped (a # b # c # d # r) = a # b # c # CHR '','' # grouped (d # r)"
| "grouped ds = ds"

definition en_us :: "nat \<Rightarrow> string" where
  "en_us n = rev (grouped (rev (decimal n)))"

definition limit_text :: "int \<Rightarrow> string" where
  "limit_text ms = (let (size, unit) = limit_unit ms; count = nat (ms div size) in
     en_us count @ '' '' @ unit @ (if count = 1 then [] else ''s''))"

section \<open>The chained timers\<close>

text \<open>
  \<open>dl_timer\<close> is the pending timer: when it was set and the delay asked for. \<open>dl_calls\<close> lists the moments at
  which the callback ran, \<open>dl_asked\<close> all delays the runtime was asked for.
\<close>

record deadline =
  dl_ms :: int
  dl_start :: rat
  dl_done :: bool
  dl_timer :: "(rat \<times> int) option"
  dl_calls :: "rat list"
  dl_asked :: "int list"

definition next_delay :: "int \<Rightarrow> rat \<Rightarrow> int" where
  "next_delay limit remaining = max 1 (min limit \<lceil>remaining\<rceil>)"

definition deadline_step :: "rat \<Rightarrow> deadline \<Rightarrow> deadline" where
  "deadline_step now d =
     (if dl_done d then d
      else let remaining = of_int (dl_ms d) - (now - dl_start d) in
           if remaining \<le> 0 then d\<lparr>dl_done := True, dl_calls := dl_calls d @ [now]\<rparr>
           else let ms = next_delay max_timer_ms remaining in d\<lparr>dl_timer := Some (now, ms), dl_asked := dl_asked d @ [ms]\<rparr>)"

definition start_deadline :: "rat \<Rightarrow> int \<Rightarrow> deadline" where
  "start_deadline now ms = deadline_step now
     \<lparr>dl_ms = ms, dl_start = now, dl_done = False, dl_timer = None, dl_calls = [], dl_asked = []\<rparr>"

definition cancel_deadline :: "deadline \<Rightarrow> deadline" where
  "cancel_deadline d = (if dl_done d then d else d\<lparr>dl_done := True, dl_timer := None\<rparr>)"

text \<open>The runtime calls the pending timer back once; afterwards it is no longer pending.\<close>

definition timer_called :: "rat \<Rightarrow> deadline \<Rightarrow> deadline" where
  "timer_called now d = (case dl_timer d of None \<Rightarrow> d | Some _ \<Rightarrow> deadline_step now (d\<lparr>dl_timer := None\<rparr>))"

datatype deadline_event = TimerCalled rat | Cancelled

fun on_deadline :: "deadline_event \<Rightarrow> deadline \<Rightarrow> deadline" where
  "on_deadline (TimerCalled now) d = timer_called now d"
| "on_deadline Cancelled d = cancel_deadline d"

text \<open>What the runtime does with a delay.\<close>

definition runtime_delay :: "int \<Rightarrow> int" where
  "runtime_delay ms = (if ms < 1 \<or> ms > 2147483647 then 1 else ms)"

text \<open>The run of a deadline nobody cancels: each pending timer is called back when its delay has elapsed, or later.\<close>

fun timers_run :: "rat list \<Rightarrow> deadline \<Rightarrow> deadline" where
  "timers_run [] d = d"
| "timers_run (late # rest) d = (case dl_timer d of
     None \<Rightarrow> d
   | Some (since, ms) \<Rightarrow> timers_run rest (timer_called (since + of_int (runtime_delay ms) + late) d))"

section \<open>The limit is stated exactly\<close>

definition read_count :: "string \<Rightarrow> nat" where
  "read_count t = foldl (\<lambda>n c. n * 10 + (of_char c - 48)) 0 (filter (\<lambda>c. c \<noteq> CHR '','') t)"

definition unit_sizes :: "(string \<times> int) list" where
  "unit_sizes = concat (map (\<lambda>(size, unit). [(unit, size), (unit @ ''s'', size)]) limit_units)"

definition read_limit :: "string \<Rightarrow> int option" where
  "read_limit t = (let n = takeWhile (\<lambda>c. c \<noteq> CHR '' '') t in
     map_option (\<lambda>size. size * int (read_count n)) (map_of unit_sizes (drop (Suc (length n)) t)))"

definition digits_only :: "string \<Rightarrow> bool" where
  "digits_only t \<longleftrightarrow> list_all (\<lambda>c. c \<noteq> CHR '','' \<and> c \<noteq> CHR '' '') t"

lemma digit_char_plain: "d < 10 \<Longrightarrow> digit_char d \<noteq> CHR '','' \<and> digit_char d \<noteq> CHR '' '' \<and> of_char (digit_char d) = 48 + d"
proof -
  assume d: "d < 10"
  have v: "of_char (digit_char d) = 48 + d" using d by (simp add: digit_char_def)
  have "of_char (CHR '','') = (44::nat)" "of_char (CHR '' '') = (32::nat)" by simp_all
  with v show ?thesis by auto
qed

lemma decimal_digits: "decimal n \<noteq> [] \<and> digits_only (decimal n) \<and> foldl (\<lambda>n c. n * 10 + (of_char c - 48)) 0 (decimal n) = n"
proof (induction n rule: decimal.induct)
  case (1 n)
  show ?case
  proof (cases "n < 10")
    case True
    with digit_char_plain [of n] show ?thesis by (simp add: decimal.simps [of n] digits_only_def)
  next
    case False
    with 1 digit_char_plain [of "n mod 10"] show ?thesis by (simp add: decimal.simps [of n] digits_only_def)
  qed
qed

lemma grouped_digits: "digits_only ds \<Longrightarrow> filter (\<lambda>c. c \<noteq> CHR '','') (grouped ds) = ds \<and> CHR '' '' \<notin> set (grouped ds)"
  by (induction ds rule: grouped.induct) (auto simp: digits_only_def)

lemma en_us_digits: "read_count (en_us n) = n" "CHR '' '' \<notin> set (en_us n)"
proof -
  have "digits_only (rev (decimal n))" using decimal_digits [of n] by (simp add: digits_only_def)
  note g = grouped_digits [OF this]
  then have "filter (\<lambda>c. c \<noteq> CHR '','') (en_us n) = decimal n" by (simp add: en_us_def rev_filter [symmetric])
  with decimal_digits [of n] show "read_count (en_us n) = n" by (simp add: read_count_def)
  show "CHR '' '' \<notin> set (en_us n)" using g by (simp add: en_us_def)
qed

lemma limit_unit_cases:
  obtains size unit where "limit_unit ms = (size, unit)" "(size, unit) \<in> set limit_units" "ms mod size = 0"
proof -
  have "find (\<lambda>u. ms mod fst u = 0) limit_units \<noteq> None" by (simp add: limit_units_def)
  then obtain u where u: "find (\<lambda>u. ms mod fst u = 0) limit_units = Some u" by blast
  then have "u \<in> set limit_units" "ms mod fst u = 0" by (auto simp: find_Some_iff)
  with u that show ?thesis by (cases u) (simp add: limit_unit_def)
qed

lemma takeWhile_until: "c \<notin> set xs \<Longrightarrow> takeWhile (\<lambda>x. x \<noteq> c) (xs @ c # ys) = xs"
  by (induction xs) auto

lemma units_found: "list_all (\<lambda>(size, unit). 0 < size \<and> map_of unit_sizes unit = Some size \<and>
   map_of unit_sizes (unit @ ''s'') = Some size) limit_units"
  by code_simp

text \<open>A request that ran out of its waiting allowance is told the allowance it really had: reading the
  stated limit, in its largest whole unit and with its grouped digits, gives back the number of milliseconds.\<close>

theorem stated_limit_is_exact:
  assumes "1 \<le> ms"
  shows "read_limit (limit_text ms) = Some ms"
proof -
  obtain size unit where u: "limit_unit ms = (size, unit)" "(size, unit) \<in> set limit_units" "ms mod size = 0"
    by (rule limit_unit_cases)
  let ?n = "nat (ms div size)" and ?s = "if nat (ms div size) = 1 then [] else ''s''"
  have t: "limit_text ms = en_us ?n @ CHR '' '' # unit @ ?s" by (simp add: limit_text_def u(1) Let_def)
  have n: "takeWhile (\<lambda>c. c \<noteq> CHR '' '') (limit_text ms) = en_us ?n"
    unfolding t by (rule takeWhile_until [OF en_us_digits(2)])
  have d: "drop (Suc (length (en_us ?n))) (limit_text ms) = unit @ ?s" by (simp add: t)
  have "0 < size \<and> map_of unit_sizes unit = Some size \<and> map_of unit_sizes (unit @ ''s'') = Some size"
    using u(2) units_found by (auto simp: list_all_iff)
  then have s: "0 < size" "map_of unit_sizes (unit @ ?s) = Some size" by simp_all
  have "size * int ?n = ms" using s(1) u(3) assms mult_div_mod_eq [of size ms] by (simp add: pos_imp_zdiv_nonneg_iff)
  then show ?thesis unfolding read_limit_def Let_def n d s(2) en_us_digits(1) option.map by simp
qed

lemma stated_limit_is_exact_witness: "read_limit (limit_text 72000000000) = Some 72000000000"
  by (rule stated_limit_is_exact) simp

lemma limit_text_examples:
  "limit_text 3600000 = ''1 hour''" "limit_text 90000 = ''90 seconds''"
  by code_simp+

section \<open>The deadline comes, once, and not early\<close>

definition deadline_sound :: "deadline \<Rightarrow> bool" where
  "deadline_sound d \<longleftrightarrow> list_all (\<lambda>ms. 1 \<le> ms \<and> runtime_delay ms = ms) (dl_asked d) \<and>
     (case dl_calls d of [] \<Rightarrow> True | [t] \<Rightarrow> of_int (dl_ms d) \<le> t - dl_start d \<and> dl_done d | _ \<Rightarrow> False)"

definition deadline_inv :: "deadline \<Rightarrow> bool" where
  "deadline_inv d \<longleftrightarrow> deadline_sound d \<and> (dl_done d \<or> dl_calls d = [])"

lemma next_delay_range: "1 \<le> next_delay max_timer_ms r \<and> runtime_delay (next_delay max_timer_ms r) = next_delay max_timer_ms r"
  by (auto simp: next_delay_def max_timer_ms_def runtime_delay_def)

lemma step_inv: "deadline_inv d \<Longrightarrow> deadline_inv (deadline_step now d)"
  using next_delay_range [of "of_int (dl_ms d) - (now - dl_start d)"]
  by (auto simp: deadline_inv_def deadline_sound_def deadline_step_def Let_def)

lemma deadline_start_inv: "deadline_inv (start_deadline now ms)"
  unfolding start_deadline_def by (rule step_inv) (simp add: deadline_inv_def deadline_sound_def)

lemma event_inv: "deadline_inv d \<Longrightarrow> deadline_inv (on_deadline e d)"
proof (cases e)
  case (TimerCalled now)
  assume d: "deadline_inv d"
  have "deadline_inv (d\<lparr>dl_timer := None\<rparr>)" using d by (auto simp: deadline_inv_def deadline_sound_def split: list.splits)
  then show ?thesis using d TimerCalled by (simp add: timer_called_def step_inv split: option.split)
next
  case Cancelled
  assume "deadline_inv d"
  with Cancelled show ?thesis by (auto simp: deadline_inv_def deadline_sound_def cancel_deadline_def)
qed

lemma cancelled_calls: "dl_done d \<Longrightarrow> dl_calls (on_deadline e d) = dl_calls d \<and> dl_done (on_deadline e d)"
  by (cases e) (auto simp: timer_called_def deadline_step_def cancel_deadline_def split: option.split)

lemma cancelled_quiet: "dl_done d \<Longrightarrow> dl_calls (fold on_deadline es d) = dl_calls d"
  by (induction es arbitrary: d) (simp_all add: cancelled_calls)

lemma events_inv: "deadline_inv d \<Longrightarrow> deadline_inv (fold on_deadline es d)"
  by (induction es arbitrary: d) (simp_all add: event_inv)

text \<open>Whatever the runtime does: the waiting limit is acted on at most once, never before the allowance has
  passed and never after it was cancelled, and no delay is asked for that the runtime would shorten.\<close>

theorem deadline_is_never_early:
  "deadline_sound (fold on_deadline es (start_deadline now ms))"
  "dl_calls (fold on_deadline (es @ Cancelled # es') (start_deadline now ms)) = dl_calls (fold on_deadline es (start_deadline now ms))"
proof -
  show "deadline_sound (fold on_deadline es (start_deadline now ms))"
    using events_inv [OF deadline_start_inv] by (simp add: deadline_inv_def)
  let ?d = "fold on_deadline es (start_deadline now ms)"
  have "dl_done (on_deadline Cancelled ?d)" "dl_calls (on_deadline Cancelled ?d) = dl_calls ?d" by (auto simp: cancel_deadline_def)
  then show "dl_calls (fold on_deadline (es @ Cancelled # es') (start_deadline now ms)) = dl_calls ?d"
    using cancelled_quiet [of "on_deadline Cancelled ?d" es'] by simp
qed

text \<open>The bound on the number of timers.\<close>

definition timers_needed :: "int \<Rightarrow> nat" where
  "timers_needed ms = nat \<lceil>(of_int ms :: rat) / of_int max_timer_ms\<rceil>"

definition called_once_after :: "rat \<Rightarrow> int \<Rightarrow> deadline \<Rightarrow> bool" where
  "called_once_after now ms d \<longleftrightarrow> (case dl_calls d of [t] \<Rightarrow> of_int ms \<le> t - now | _ \<Rightarrow> False) \<and>
     length (dl_asked d) \<le> timers_needed ms"

lemma step_pending:
  assumes "\<not> dl_done d" "dl_calls d = []" "dl_timer d = None" "dl_ms d = ms" "dl_start d = now"
  shows "dl_calls (deadline_step t d) = [t] \<and> of_int ms \<le> t - now \<and> dl_timer (deadline_step t d) = None \<and>
      dl_asked (deadline_step t d) = dl_asked d \<or>
    (\<not> dl_done (deadline_step t d) \<and> dl_calls (deadline_step t d) = [] \<and> 0 < of_int ms - (t - now) \<and>
     dl_timer (deadline_step t d) = Some (t, next_delay max_timer_ms (of_int ms - (t - now))) \<and>
     length (dl_asked (deadline_step t d)) = Suc (length (dl_asked d)) \<and> dl_ms (deadline_step t d) = ms \<and> dl_start (deadline_step t d) = now)"
  using assms by (auto simp: deadline_step_def Let_def)

lemma timers_run_ends:
  assumes "\<not> dl_done d" "dl_calls d = []" "dl_ms d = ms" "dl_start d = now"
    "dl_timer d = Some (t, next_delay max_timer_ms (of_int ms - (t - now)))" "0 < of_int ms - (t - now)"
    "of_int ms - (t - now) \<le> of_nat n * of_int max_timer_ms" "n \<le> length lates" "list_all (\<lambda>l. 0 \<le> l) lates"
  shows "(case dl_calls (timers_run lates d) of [t'] \<Rightarrow> of_int ms \<le> t' - now | _ \<Rightarrow> False) \<and>
    length (dl_asked (timers_run lates d)) < length (dl_asked d) + n"
  using assms
proof (induction n arbitrary: d t lates)
  case 0
  then show ?case by simp
next
  case (Suc n)
  then obtain l rest where ls: "lates = l # rest" "0 \<le> l" "n \<le> length rest" "list_all (\<lambda>l. 0 \<le> l) rest" by (cases lates) auto
  let ?r = "of_int ms - (t - now)" and ?c = "d\<lparr>dl_timer := None\<rparr>"
  let ?delay = "next_delay max_timer_ms ?r" and ?t = "t + of_int (next_delay max_timer_ms ?r) + l"
  have run: "timers_run lates d = timers_run rest (deadline_step ?t ?c)"
    using Suc.prems(5) ls(1) next_delay_range [of ?r] by (simp add: timer_called_def)
  have c: "\<not> dl_done ?c" "dl_calls ?c = []" "dl_timer ?c = None" "dl_ms ?c = ms" "dl_start ?c = now" using Suc.prems by simp_all
  consider (fires) "dl_calls (deadline_step ?t ?c) = [?t]" "of_int ms \<le> ?t - now" "dl_timer (deadline_step ?t ?c) = None"
      "dl_asked (deadline_step ?t ?c) = dl_asked d"
    | (again) "\<not> dl_done (deadline_step ?t ?c)" "dl_calls (deadline_step ?t ?c) = []" "0 < of_int ms - (?t - now)"
      "dl_timer (deadline_step ?t ?c) = Some (?t, next_delay max_timer_ms (of_int ms - (?t - now)))"
      "length (dl_asked (deadline_step ?t ?c)) = Suc (length (dl_asked d))" "dl_ms (deadline_step ?t ?c) = ms"
      "dl_start (deadline_step ?t ?c) = now"
    using step_pending [OF c, of ?t] by fastforce
  then show ?case
  proof cases
    case fires
    then have "timers_run rest (deadline_step ?t ?c) = deadline_step ?t ?c" by (cases rest) simp_all
    with fires run show ?thesis by simp
  next
    case again
    have "?delay = max_timer_ms"
    proof (rule ccontr)
      assume "?delay \<noteq> max_timer_ms"
      moreover obtain c where c: "\<lceil>?r\<rceil> = c" by blast
      ultimately have "c \<le> ?delay" by (auto simp: next_delay_def max_timer_ms_def)
      then have "?r \<le> of_int ?delay" using c by (simp only: ceiling_le_iff [symmetric])
      with again(3) ls(2) show False by simp
    qed
    then have "of_int ms - (?t - now) \<le> of_nat n * of_int max_timer_ms" using Suc.prems(7) ls(2) by (simp add: algebra_simps)
    from Suc.IH [OF again(1,2,6,7,4,3) this ls(3,4)] show ?thesis using again(5) by (simp add: run)
  qed
qed

text \<open>C32: the deadline terminates. If nobody cancels it and the runtime calls every timer back at some moment
  after its delay, the chain runs the callback after at most one timer per \<open>2^31 - 1\<close> milliseconds of the
  allowance, exactly once and not before the allowance has passed.\<close>

theorem deadline_comes:
  assumes "1 \<le> ms" and "timers_needed ms \<le> length lates" and "list_all (\<lambda>late. 0 \<le> late) lates"
  shows "called_once_after now ms (timers_run lates (start_deadline now ms))"
proof -
  let ?d = "start_deadline now ms"
  have d: "\<not> dl_done ?d" "dl_calls ?d = []" "dl_ms ?d = ms" "dl_start ?d = now"
    "dl_timer ?d = Some (now, next_delay max_timer_ms (of_int ms - (now - now)))" "length (dl_asked ?d) = 1"
    using assms(1) by (simp_all add: start_deadline_def deadline_step_def Let_def)
  have "(of_int ms :: rat) / of_int max_timer_ms \<le> of_nat (timers_needed ms)"
    by (simp add: timers_needed_def) linarith
  then have b: "of_int ms - (now - now) \<le> of_nat (timers_needed ms) * of_int max_timer_ms"
    by (simp add: max_timer_ms_def field_simps)
  have "0 < of_int ms - (now - now)" using assms(1) by simp
  from timers_run_ends [OF d(1-5) this b assms(2,3)] show ?thesis by (simp add: called_once_after_def d(6))
qed

lemma deadline_comes_witness:
  "called_once_after 5 3000000000 (timers_run [0, 1 / 2] (start_deadline 5 3000000000))"
  by (rule deadline_comes) (simp_all add: timers_needed_def max_timer_ms_def nat_le_iff ceiling_le_iff)

end
