(* ===== verification/Patient_Client.thy ===== *)
theory Patient_Client
  imports Request_Forwarding Gate_Requests
begin

text \<open>
  The client side of the continuity contract: the receipts the gateway and the door put on a refused
  request (\<open>continuity.mjs\<close>, \<open>reject\<close> in \<open>gateway.mjs\<close>, the reports of \<open>door.mjs\<close>), the certificate the client
  reads out of an answer (\<open>continuity-certificate.mjs\<close>), and the fetch of the patient client
  (\<open>createContinuityFetch\<close>, \<open>continuity-client.mjs\<close>), which sends one pinned request again only after such
  a certificate. The network is a list of rounds; \<open>parse\<close> is \<open>JSON.parse\<close> after decoding.
\<close>

section \<open>Receipts\<close>

definition reason_text :: "reason \<Rightarrow> string" where
  "reason_text r = (case r of
     GatewayDraining \<Rightarrow> ''gateway_draining'' | SameSessionActive \<Rightarrow> ''same_session_active''
   | SameSessionQueued \<Rightarrow> ''same_session_queued'' | WorkerQuarantined \<Rightarrow> ''worker_quarantined''
   | WorkerPaused \<Rightarrow> ''worker_paused'' | WorkerUnhealthy \<Rightarrow> ''worker_unhealthy''
   | WorkerConnectRefused \<Rightarrow> ''worker_connect_refused'' | NoReadyWorker \<Rightarrow> ''no_ready_worker''
   | QueueFull \<Rightarrow> ''queue_full'' | QueueDeadline \<Rightarrow> ''queue_deadline'' | AffinityWriteFailed \<Rightarrow> ''affinity_write_failed'')"

definition retry_text :: "retry_class \<Rightarrow> string" where
  "retry_text c = (case c of OperatorRequired \<Rightarrow> ''operator_required'' | WaitThenRetry \<Rightarrow> ''wait_then_retry'')"

definition optional_text :: "string option \<Rightarrow> js" where
  "optional_text t = (case t of None \<Rightarrow> JNull | Some s \<Rightarrow> JStr s)"

definition rejection_receipt :: "string \<Rightarrow> js \<Rightarrow> string option \<Rightarrow> string option \<Rightarrow> string \<Rightarrow> reason \<Rightarrow> js option" where
  "rejection_receipt request_id call_id worker session error_code why =
     (if valid_call_id (JStr request_id) = None then None
      else Some (JObj [(''schema'', jint 1), (''request_id'', JStr request_id), (''call_id'', optional_text (valid_call_id call_id)),
        (''node'', optional_text worker), (''session'', optional_text session), (''code'', JStr error_code),
        (''reason'', JStr (reason_text why)), (''dispatch_state'', JStr ''not_dispatched''),
        (''retry_class'', JStr (retry_text (retry_class_of why))), (''retry_after_ms'', jint 5000)]))"

text \<open>The status and the error code of the gateway's refusals, by the reason they are given for.\<close>

definition refusal_code :: "reason \<Rightarrow> int \<times> string" where
  "refusal_code why = (case why of
     GatewayDraining \<Rightarrow> (503, ''draining'')
   | AffinityWriteFailed \<Rightarrow> (503, ''state_unavailable'')
   | WorkerConnectRefused \<Rightarrow> (503, ''home_unavailable'')
   | QueueFull \<Rightarrow> (429, ''queue_full'')
   | QueueDeadline \<Rightarrow> (504, ''queue_timeout'')
   | _ \<Rightarrow> (503, ''no_healthy_workers''))"

text \<open>An answer as its reader sees it: the status, the headers and the value of its error envelope.\<close>

record gateway_answer =
  ga_status :: int
  ga_headers :: headers
  ga_error :: js

definition reject_answer :: "string \<Rightarrow> js \<Rightarrow> string option \<Rightarrow> string option \<Rightarrow> string \<Rightarrow> reason \<Rightarrow> gateway_answer option" where
  "reject_answer request_id call_id worker session message why = (let (status, error_code) = refusal_code why in
     case rejection_receipt request_id call_id worker session error_code why of
       None \<Rightarrow> None
     | Some receipt \<Rightarrow> Some
         \<lparr>ga_status = status,
          ga_headers = [(''x-dsg-dispatch-state'', JStr ''not_dispatched''), (''x-request-id'', JStr request_id), (''retry-after'', JStr ''5''),
            (''content-type'', JStr ''application/json''), (''cache-control'', JStr ''no-store'')],
          ga_error = JObj [(''type'', JStr ''gateway_error''), (''code'', JStr error_code), (''message'', JStr message),
            (''request_id'', JStr request_id), (''continuity'', receipt)]\<rparr>)"

definition not_forwarded_answer :: "string \<Rightarrow> js \<Rightarrow> int \<Rightarrow> string \<Rightarrow> string \<Rightarrow> gateway_answer" where
  "not_forwarded_answer request_id call_id status error_code message =
     \<lparr>ga_status = status,
      ga_headers = [(''x-request-id'', JStr request_id), (''x-dsg-dispatch-state'', JStr ''not_dispatched''),
        (''content-type'', JStr ''application/json''), (''cache-control'', JStr ''no-store'')],
      ga_error = JObj [(''type'', JStr ''gateway_error''), (''code'', JStr error_code), (''message'', JStr message),
        (''continuity'', JObj [(''schema'', jint 1), (''source'', JStr ''continuity_door''), (''request_id'', JStr request_id),
          (''call_id'', optional_text (valid_call_id call_id)), (''dispatch_state'', JStr ''not_dispatched''),
          (''retry_class'', JStr ''wait_then_retry''), (''reason'', JStr error_code), (''retry_after_ms'', jint 5000)])]\<rparr>"

definition unknown_execution_answer :: "string \<Rightarrow> js \<Rightarrow> string \<Rightarrow> gateway_answer" where
  "unknown_execution_answer request_id call_id message =
     \<lparr>ga_status = 503,
      ga_headers = [(''x-request-id'', JStr request_id), (''x-dsg-dispatch-state'', JStr ''unknown''),
        (''content-type'', JStr ''application/json''), (''cache-control'', JStr ''no-store'')],
      ga_error = JObj [(''type'', JStr ''gateway_error''), (''code'', JStr ''continuity_core_unavailable''), (''message'', JStr message),
        (''continuity'', JObj [(''schema'', jint 1), (''source'', JStr ''continuity_door''), (''request_id'', JStr request_id),
          (''call_id'', optional_text (valid_call_id call_id)), (''dispatch_state'', JStr ''unknown''),
          (''retry_class'', JStr ''inspect_before_retry''), (''reason'', JStr ''core_connection_failed'')])]\<rparr>"

text \<open>An engine's own answer, passed on with the headers the gateway puts on it.\<close>

definition forwarded_answer :: "int \<Rightarrow> headers \<Rightarrow> js \<Rightarrow> string \<Rightarrow> string \<Rightarrow> string \<Rightarrow> (recovery_kind \<times> nat) option \<Rightarrow> gateway_answer" where
  "forwarded_answer status engine_headers error worker request_id home normalized =
     \<lparr>ga_status = status, ga_headers = response_headers engine_headers worker request_id home normalized, ga_error = error\<rparr>"

section \<open>The certificate\<close>

definition header_text :: "headers \<Rightarrow> string \<Rightarrow> string option" where
  "header_text hs name = (case fget hs name of JStr s \<Rightarrow> Some s | _ \<Rightarrow> None)"

definition retry_codes :: "string list" where
  "retry_codes = [''draining'', ''home_unavailable'', ''no_healthy_workers'', ''queue_full'', ''queue_timeout'']"

definition door_codes :: "string list" where
  "door_codes = [''continuity_stopping'', ''continuity_hold_full'']"

definition code_in :: "string list \<Rightarrow> js \<Rightarrow> bool" where
  "code_in codes v = (case v of JStr s \<Rightarrow> s \<in> set codes | _ \<Rightarrow> False)"

definition certified_not_dispatched :: "gateway_answer \<Rightarrow> string \<Rightarrow> bool" where
  "certified_not_dispatched ans call_id = (let error = ga_error ans; c = jget error ''continuity'' in
     valid_call_id (JStr call_id) \<noteq> None \<and> ga_status ans \<in> {429, 503, 504} \<and>
     header_text (ga_headers ans) ''x-dsg-dispatch-state'' = Some ''not_dispatched'' \<and>
     jget error ''type'' = JStr ''gateway_error'' \<and> jget c ''schema'' = jint 1 \<and>
     jget c ''dispatch_state'' = JStr ''not_dispatched'' \<and> jget c ''retry_class'' = JStr ''wait_then_retry'' \<and>
     jget c ''call_id'' = JStr call_id \<and> valid_call_id (jget c ''request_id'') \<noteq> None \<and>
     jget c ''request_id'' = optional_text (header_text (ga_headers ans) ''x-request-id'') \<and>
     (code_in retry_codes (jget error ''code'') \<or>
      jget c ''source'' = JStr ''continuity_door'' \<and> code_in door_codes (jget error ''code'') \<and> jget c ''reason'' = jget error ''code''))"

section \<open>The patient fetch\<close>

record call_url =
  cu_origin :: string
  cu_path :: string
  cu_search :: string
  cu_hash :: string
  cu_href :: string

record client_call =
  cl_request_object :: bool
  cl_url :: call_url
  cl_method :: "string option"
  cl_body :: js
  cl_headers :: headers
  cl_redirect :: js

definition client_routes :: "string list" where
  "client_routes = [''/v1/chat/completions'', ''/v1/completions'', ''/v1/messages'', ''/v1/responses'']"

definition upper_char :: "char \<Rightarrow> char" where
  "upper_char c = (if CHR ''a'' \<le> c \<and> c \<le> CHR ''z'' then char_of (of_char c - 32 :: nat) else c)"

definition patient_call :: "string \<Rightarrow> client_call \<Rightarrow> bool" where
  "patient_call origin c \<longleftrightarrow> \<not> cl_request_object c \<and> cu_origin (cl_url c) = origin \<and> cu_path (cl_url c) \<in> set client_routes \<and>
     cu_search (cl_url c) = [] \<and> cu_hash (cl_url c) = [] \<and> map_option (map upper_char) (cl_method c) = Some ''POST'' \<and> is_str (cl_body c)"

definition call_id_of :: "string \<Rightarrow> client_call \<Rightarrow> string" where
  "call_id_of fresh c = (case valid_call_id (fget (cl_headers c) ''x-dsg-call-id'') of Some i \<Rightarrow> i | None \<Rightarrow> fresh)"

text \<open>What is handed to \<open>fetch\<close>, pinned once for all attempts.\<close>

record sent_call =
  sc_href :: string
  sc_body :: js
  sc_headers :: headers
  sc_redirect :: js

definition pinned_call :: "string \<Rightarrow> client_call \<Rightarrow> sent_call" where
  "pinned_call call_id c =
     \<lparr>sc_href = cu_href (cl_url c), sc_body = cl_body c,
      sc_headers = (''x-dsg-call-id'', JStr call_id) # filter (\<lambda>(k, _). k \<noteq> ''x-dsg-call-id'') (cl_headers c),
      sc_redirect = (if cl_redirect c = JUndef \<or> cl_redirect c = JStr ''follow'' then JStr ''manual'' else cl_redirect c)\<rparr>"

definition plain_call :: "client_call \<Rightarrow> sent_call" where
  "plain_call c = \<lparr>sc_href = cu_href (cl_url c), sc_body = cl_body c, sc_headers = cl_headers c, sc_redirect = cl_redirect c\<rparr>"

text \<open>An answer on the wire: \<open>rs_parts\<close> are the pieces of its body, if it has one, and \<open>rs_breaks\<close> that reading fails.\<close>

record wire_answer =
  rs_status :: int
  rs_headers :: headers
  rs_parts :: "string list option"
  rs_breaks :: bool

datatype fetched = Answered wire_answer | Unreachable

record client_round =
  rd_aborted :: bool
  rd_fetched :: fetched
  rd_wait_aborted :: bool

datatype client_outcome = Returned wire_answer | ConnectionFailed | Aborted | StillWaiting

datatype client_notice =
    WaitingNotice nat string js js js
  | FinishedNotice nat

record client_log =
  lg_sent :: "sent_call list"
  lg_waits :: "int list"
  lg_notices :: "client_notice list"

fun read_bounded :: "nat \<Rightarrow> string \<Rightarrow> string list \<Rightarrow> string option" where
  "read_bounded limit acc [] = Some acc"
| "read_bounded limit acc (t # ts) = (if length acc + length t > limit then None else read_bounded limit (acc @ t) ts)"

definition envelope_error :: "(string \<Rightarrow> js option) \<Rightarrow> wire_answer \<Rightarrow> js option" where
  "envelope_error parse r = (case rs_parts r of
     None \<Rightarrow> None
   | Some parts \<Rightarrow>
       (case read_bounded 8192 [] parts of
          None \<Rightarrow> None
        | Some text \<Rightarrow>
            if rs_breaks r then None
            else case parse text of None \<Rightarrow> None | Some v \<Rightarrow> if nullish v then None else Some (jget v ''error'')))"

definition retry_certificate :: "(string \<Rightarrow> js option) \<Rightarrow> string \<Rightarrow> wire_answer \<Rightarrow> js option" where
  "retry_certificate parse call_id r =
     (if rs_status r \<notin> {429, 503, 504} \<or> header_text (rs_headers r) ''x-dsg-dispatch-state'' \<noteq> Some ''not_dispatched'' then None
      else case envelope_error parse r of
        None \<Rightarrow> None
      | Some error \<Rightarrow>
          if certified_not_dispatched \<lparr>ga_status = rs_status r, ga_headers = rs_headers r, ga_error = error\<rparr> call_id
          then Some (jget error ''continuity'') else None)"

definition retry_wait :: "nat \<Rightarrow> int" where
  "retry_wait attempts = min 30000 (5000 * int (min attempts 6))"

definition sent_again :: "sent_call \<Rightarrow> client_log \<Rightarrow> client_log" where
  "sent_again call lg = lg\<lparr>lg_sent := lg_sent lg @ [call]\<rparr>"

definition waited :: "nat \<Rightarrow> string \<Rightarrow> js \<Rightarrow> client_log \<Rightarrow> client_log" where
  "waited attempts call_id c lg = lg\<lparr>lg_waits := lg_waits lg @ [retry_wait attempts],
     lg_notices := lg_notices lg @ [WaitingNotice attempts call_id (jget c ''request_id'') (jget c ''reason'') (or_else (jget c ''node'') JNull)]\<rparr>"

text \<open>The loop, over the rounds the network offers; when they run out the call is still waiting.\<close>

fun patient_loop :: "(string \<Rightarrow> js option) \<Rightarrow> string \<Rightarrow> sent_call \<Rightarrow> nat \<Rightarrow> client_round list \<Rightarrow> client_log \<Rightarrow>
    client_outcome \<times> nat \<times> client_log" where
  "patient_loop parse call_id call attempts [] lg = (StillWaiting, attempts, lg)"
| "patient_loop parse call_id call attempts (r # rs) lg =
     (if rd_aborted r then (Aborted, attempts, lg)
      else let lg = sent_again call lg in
        case rd_fetched r of
          Unreachable \<Rightarrow> (ConnectionFailed, attempts, lg)
        | Answered ans \<Rightarrow>
            (case retry_certificate parse call_id ans of
               None \<Rightarrow> (Returned ans, attempts, lg)
             | Some c \<Rightarrow>
                 let lg = waited (Suc attempts) call_id c lg in
                 if rd_wait_aborted r then (Aborted, Suc attempts, lg)
                 else patient_loop parse call_id call (Suc attempts) rs lg))"

definition no_log :: client_log where
  "no_log = \<lparr>lg_sent = [], lg_waits = [], lg_notices = []\<rparr>"

definition finished :: "client_outcome \<times> nat \<times> client_log \<Rightarrow> client_outcome \<times> client_log" where
  "finished x = (case x of (out, attempts, lg) \<Rightarrow>
     (out, if out \<noteq> StillWaiting \<and> 0 < attempts then lg\<lparr>lg_notices := lg_notices lg @ [FinishedNotice attempts]\<rparr> else lg))"

definition pass_through :: "client_call \<Rightarrow> client_round list \<Rightarrow> client_outcome \<times> client_log" where
  "pass_through c rs = (case rs of
     [] \<Rightarrow> (StillWaiting, sent_again (plain_call c) no_log)
   | r # _ \<Rightarrow> (case rd_fetched r of Unreachable \<Rightarrow> ConnectionFailed | Answered ans \<Rightarrow> Returned ans, sent_again (plain_call c) no_log))"

definition continuity_fetch :: "(string \<Rightarrow> js option) \<Rightarrow> string \<Rightarrow> string \<Rightarrow> client_call \<Rightarrow> client_round list \<Rightarrow> client_outcome \<times> client_log" where
  "continuity_fetch parse origin fresh c rs =
     (if \<not> patient_call origin c then pass_through c rs
      else let call_id = call_id_of fresh c in finished (patient_loop parse call_id (pinned_call call_id c) 0 rs no_log))"

end
