(* ===== verification/Patient_Safety.thy ===== *)
theory Patient_Safety
  imports Patient_Client Vision_Recovery
begin

text \<open>
  The patient client and the servers it talks to, together: which answers the client takes as a certificate,
  and that a call it repeats was executed at most once, whatever the gateway, the door, the engines and the
  network do.
\<close>

section \<open>Certificates\<close>

lemma response_dispatched: "header_text (response_headers hs w i home n) ''x-dsg-dispatch-state'' = Some ''dispatched''"
  by (simp add: response_headers_def put_headers_def header_text_def fget_update Let_def split: option.split recovery_kind.split prod.split)

lemma engine_answers_certify_nothing: "\<not> certified_not_dispatched (forwarded_answer status hs err w i home n) call_id"
  by (simp add: certified_not_dispatched_def forwarded_answer_def response_dispatched Let_def)

lemma unknown_execution_certifies_nothing: "\<not> certified_not_dispatched (unknown_execution_answer i cid m) call_id"
  by (simp add: certified_not_dispatched_def unknown_execution_answer_def header_text_def Let_def)

lemma refusal_codes: "why \<noteq> AffinityWriteFailed \<longleftrightarrow> snd (refusal_code why) \<in> set retry_codes"
  by (cases why) (simp_all add: refusal_code_def retry_codes_def)

lemma refusal_status: "fst (refusal_code why) \<in> {429, 503, 504}"
  by (cases why) (simp_all add: refusal_code_def)

lemma gateway_refusal_certifies:
  assumes "reject_answer i cid w s m why = Some ans"
  shows "certified_not_dispatched ans call_id \<longleftrightarrow>
    valid_call_id (JStr call_id) \<noteq> None \<and> valid_call_id cid = Some call_id \<and> why \<noteq> AffinityWriteFailed"
proof -
  obtain status err where c: "refusal_code why = (status, err)" by fastforce
  have st: "status \<in> {429, 503, 504}" "why \<noteq> AffinityWriteFailed \<longleftrightarrow> err \<in> set retry_codes"
    using refusal_status [of why] refusal_codes [of why] c by simp_all
  have rt: "retry_text (retry_class_of why) = ''wait_then_retry'' \<longleftrightarrow> why \<noteq> AffinityWriteFailed"
    by (simp add: retry_text_def retry_class_of_def)
  have i: "valid_call_id (JStr i) \<noteq> None" using assms by (auto simp: reject_answer_def rejection_receipt_def c split: if_splits)
  obtain rc where rc: "rejection_receipt i cid w s err why = Some rc" using i by (auto simp: rejection_receipt_def)
  then have r: "jget rc ''schema'' = jint 1" "jget rc ''dispatch_state'' = JStr ''not_dispatched''"
    "jget rc ''retry_class'' = JStr (retry_text (retry_class_of why))" "jget rc ''call_id'' = optional_text (valid_call_id cid)"
    "jget rc ''request_id'' = JStr i" "jget rc ''source'' = JUndef"
    by (auto simp: rejection_receipt_def split: if_splits)
  have a: "ga_status ans = status" "header_text (ga_headers ans) ''x-dsg-dispatch-state'' = Some ''not_dispatched''"
    "header_text (ga_headers ans) ''x-request-id'' = Some i" "jget (ga_error ans) ''type'' = JStr ''gateway_error''"
    "jget (ga_error ans) ''code'' = JStr err" "jget (ga_error ans) ''continuity'' = rc"
    using assms rc by (auto simp: reject_answer_def c header_text_def)
  have o: "optional_text (valid_call_id cid) = JStr call_id \<longleftrightarrow> valid_call_id cid = Some call_id" "optional_text (Some i) = JStr i"
    by (auto simp: optional_text_def split: option.split)
  show ?thesis
    unfolding certified_not_dispatched_def Let_def a r o using i st rt by (auto simp: code_in_def)
qed

lemma door_refusal_certifies:
  "certified_not_dispatched (not_forwarded_answer i cid status err m) call_id \<longleftrightarrow>
    valid_call_id (JStr call_id) \<noteq> None \<and> valid_call_id cid = Some call_id \<and> valid_call_id (JStr i) \<noteq> None \<and>
    status \<in> {429, 503, 504} \<and> err \<in> set (retry_codes @ door_codes)"
  by (auto simp: certified_not_dispatched_def not_forwarded_answer_def header_text_def optional_text_def code_in_def Let_def
      split: option.splits)

section \<open>A repeated call\<close>

text \<open>Where the answer of a round came from, and the answer itself.\<close>

datatype answer_source =
    EngineAnswer int headers js string string string "(recovery_kind \<times> nat) option"
  | GatewayRefusal string js "string option" "string option" string reason
  | DoorRefusal string js int string string
  | DoorUnknown string js string
  | NoAnswer

definition answer_of :: "answer_source \<Rightarrow> gateway_answer option" where
  "answer_of src = (case src of
     EngineAnswer status hs err w i home n \<Rightarrow> Some (forwarded_answer status hs err w i home n)
   | GatewayRefusal i cid w s m why \<Rightarrow> reject_answer i cid w s m why
   | DoorRefusal i cid status err m \<Rightarrow> Some (not_forwarded_answer i cid status err m)
   | DoorUnknown i cid m \<Rightarrow> Some (unknown_execution_answer i cid m)
   | NoAnswer \<Rightarrow> None)"

text \<open>After these the engine may have run the request: its own answer, a lost core, a lost connection.\<close>

fun may_have_run :: "answer_source \<Rightarrow> bool" where
  "may_have_run (GatewayRefusal _ _ _ _ _ _) = False"
| "may_have_run (DoorRefusal _ _ _ _ _) = False"
| "may_have_run _ = True"

text \<open>
  A round as the client sees it carries the answer of its source: its status, its headers and a body that reads
  back as its error envelope or, broken or cut off, as nothing.
\<close>

definition carries :: "(string \<Rightarrow> js option) \<Rightarrow> answer_source \<times> client_round \<Rightarrow> bool" where
  "carries parse = (\<lambda>(src, r). case rd_fetched r of
     Unreachable \<Rightarrow> src = NoAnswer
   | Answered ans \<Rightarrow> (case answer_of src of
        None \<Rightarrow> False
      | Some ga \<Rightarrow> rs_status ans = ga_status ga \<and> rs_headers ans = ga_headers ga \<and>
          envelope_error parse ans \<in> {None, Some (ga_error ga)}))"

lemma certificate_from_refusal:
  assumes "carries parse (src, r)" "rd_fetched r = Answered ans" "retry_certificate parse call_id ans \<noteq> None"
  shows "\<not> may_have_run src"
proof -
  obtain ga where ga: "answer_of src = Some ga" "rs_status ans = ga_status ga" "rs_headers ans = ga_headers ga"
      "envelope_error parse ans = None \<or> envelope_error parse ans = Some (ga_error ga)"
    using assms(1,2) by (auto simp: carries_def split: option.splits)
  from assms(3) ga(4) have "certified_not_dispatched \<lparr>ga_status = ga_status ga, ga_headers = ga_headers ga, ga_error = ga_error ga\<rparr> call_id"
    by (auto simp: retry_certificate_def ga(2,3) split: if_splits option.splits)
  moreover have "\<lparr>ga_status = ga_status ga, ga_headers = ga_headers ga, ga_error = ga_error ga\<rparr> = ga" by (cases ga) simp
  ultimately have "certified_not_dispatched ga call_id" by simp
  with ga(1) show ?thesis
    by (cases src) (auto simp: answer_of_def engine_answers_certify_nothing unknown_execution_certifies_nothing)
qed

definition executions :: "answer_source list \<Rightarrow> nat" where
  "executions srcs = length (filter may_have_run srcs)"

definition pinned_run :: "sent_call \<Rightarrow> client_log \<Rightarrow> client_log \<Rightarrow> bool" where
  "pinned_run call lg lg' \<longleftrightarrow> (let sent = drop (length (lg_sent lg)) (lg_sent lg'); waits = drop (length (lg_waits lg)) (lg_waits lg') in
     lg_sent lg' = lg_sent lg @ sent \<and> lg_waits lg' = lg_waits lg @ waits \<and> list_all (\<lambda>c. c = call) sent \<and>
     list_all (\<lambda>w. 5000 \<le> w \<and> w \<le> 30000) waits \<and> length sent \<le> Suc (length waits))"

lemma pinned_run_refl: "pinned_run call lg lg"
  by (simp add: pinned_run_def)

lemma retry_wait_bounds: "5000 \<le> retry_wait (Suc n)" "retry_wait n \<le> 30000"
  by (auto simp: retry_wait_def min_def)

lemma patient_loop_log:
  "patient_loop parse call_id call n rs lg = (out, m, lg') \<Longrightarrow>
   \<exists>sent waits. lg_sent lg' = lg_sent lg @ sent \<and> lg_waits lg' = lg_waits lg @ waits \<and> list_all (\<lambda>c. c = call) sent \<and>
     list_all (\<lambda>w. 5000 \<le> w \<and> w \<le> 30000) waits \<and> length sent \<le> Suc (length waits) \<and> length sent \<le> length rs"
proof (induction rs arbitrary: n lg)
  case Nil
  then show ?case by simp
next
  case (Cons r rs)
  consider (stop) "lg' = lg" | (once) "lg' = sent_again call lg"
    | (last) c where "lg' = waited (Suc n) call_id c (sent_again call lg)"
    | (more) c where "patient_loop parse call_id call (Suc n) rs (waited (Suc n) call_id c (sent_again call lg)) = (out, m, lg')"
    using Cons.prems by (auto simp: Let_def split: if_splits fetched.splits option.splits)
  then show ?case
  proof cases
    case stop
    then show ?thesis by simp
  next
    case once
    then show ?thesis by (intro exI [of _ "[call]"] exI [of _ "[]"]) (simp add: sent_again_def)
  next
    case last
    then show ?thesis
      by (intro exI [of _ "[call]"] exI [of _ "[retry_wait (Suc n)]"]) (simp add: sent_again_def waited_def retry_wait_bounds)
  next
    case more
    from Cons.IH [OF more] obtain sent waits where
      "lg_sent lg' = lg_sent lg @ call # sent" "lg_waits lg' = lg_waits lg @ retry_wait (Suc n) # waits" "list_all (\<lambda>c. c = call) sent"
      "list_all (\<lambda>w. 5000 \<le> w \<and> w \<le> 30000) waits" "length sent \<le> Suc (length waits)" "length sent \<le> length rs"
      by (auto simp: sent_again_def waited_def)
    then show ?thesis
      by (intro exI [of _ "call # sent"] exI [of _ "retry_wait (Suc n) # waits"]) (simp add: retry_wait_bounds)
  qed
qed

lemma patient_loop_runs_once:
  "list_all (carries parse) (zip srcs rs) \<Longrightarrow> length srcs = length rs \<Longrightarrow>
   patient_loop parse call_id call n rs lg = (out, m, lg') \<Longrightarrow>
   executions (take (length (lg_sent lg') - length (lg_sent lg)) srcs) \<le> 1"
proof (induction rs arbitrary: srcs n lg)
  case Nil
  then show ?case by (simp add: executions_def)
next
  case (Cons r rs)
  obtain src srcs' where s: "srcs = src # srcs'" "length srcs' = length rs" using Cons.prems(2) by (cases srcs) auto
  have one: "executions (take 1 srcs) \<le> 1" by (simp add: executions_def s)
  consider (stop) "lg' = lg" | (short) "length (lg_sent lg') = Suc (length (lg_sent lg))"
    | (more) ans c where "rd_fetched r = Answered ans" "retry_certificate parse call_id ans = Some c"
      "patient_loop parse call_id call (Suc n) rs (waited (Suc n) call_id c (sent_again call lg)) = (out, m, lg')"
    using Cons.prems(3) by (auto simp: Let_def sent_again_def waited_def split: if_splits fetched.splits option.splits)
  then show ?case
  proof cases
    case stop
    then show ?thesis by (simp add: executions_def)
  next
    case short
    with one show ?thesis by simp
  next
    case more
    have c: "carries parse (src, r)" "list_all (carries parse) (zip srcs' rs)" using Cons.prems(1) s by simp_all
    have ran: "\<not> may_have_run src" by (rule certificate_from_refusal [OF c(1) more(1), of call_id]) (simp add: more(2))
    let ?lg = "waited (Suc n) call_id c (sent_again call lg)"
    have len: "length (lg_sent ?lg) = Suc (length (lg_sent lg))" by (simp add: waited_def sent_again_def)
    have "length (lg_sent lg') \<ge> length (lg_sent ?lg)" using patient_loop_log [OF more(3)] by auto
    then obtain d where d: "length (lg_sent lg') = length (lg_sent ?lg) + d" using le_Suc_ex by blast
    have "take (length (lg_sent lg') - length (lg_sent lg)) srcs = src # take (length (lg_sent lg') - length (lg_sent ?lg)) srcs'"
      by (simp add: s d len)
    with Cons.IH [OF c(2) s(2) more(3)] ran show ?thesis by (simp add: executions_def)
  qed
qed

text \<open>What a patient call guarantees after any rounds.\<close>

definition patient_guarantee :: "sent_call \<Rightarrow> answer_source list \<Rightarrow> client_log \<Rightarrow> bool" where
  "patient_guarantee call srcs lg \<longleftrightarrow> executions (take (length (lg_sent lg)) srcs) \<le> 1 \<and> list_all (\<lambda>c. c = call) (lg_sent lg) \<and>
     list_all (\<lambda>w. 5000 \<le> w \<and> w \<le> 30000) (lg_waits lg) \<and> length (lg_sent lg) \<le> Suc (length (lg_waits lg))"

text \<open>C33: the patient client never makes an engine run a call twice. Over any rounds with the gateway, the door,
  the engines behind them and a network that may lose an answer, at most one of the attempts a patient call makes
  may have been executed, since it is repeated only after a refusal of the gateway or the door; every attempt
  sends the one pinned request, and between two attempts the client waits five to thirty seconds.\<close>

theorem patient_call_runs_at_most_once:
  assumes "patient_call origin c" and "length srcs = length rs" and "list_all (carries parse) (zip srcs rs)"
  shows "patient_guarantee (pinned_call (call_id_of fresh c) c) srcs (snd (continuity_fetch parse origin fresh c rs))"
proof -
  let ?call = "pinned_call (call_id_of fresh c) c"
  obtain out m lg where l: "patient_loop parse (call_id_of fresh c) ?call 0 rs no_log = (out, m, lg)" using prod_cases3 by blast
  have f: "lg_sent (snd (continuity_fetch parse origin fresh c rs)) = lg_sent lg"
    "lg_waits (snd (continuity_fetch parse origin fresh c rs)) = lg_waits lg"
    using assms(1) by (simp_all add: continuity_fetch_def finished_def l Let_def)
  have "executions (take (length (lg_sent lg)) srcs) \<le> 1"
    using patient_loop_runs_once [OF assms(3,2) l] by (simp add: no_log_def)
  with patient_loop_log [OF l] show ?thesis by (auto simp: patient_guarantee_def f no_log_def)
qed

text \<open>A queue that was full, then a lost connection: two attempts, of which only the second may have been executed.\<close>

definition sample_id :: string where
  "sample_id = ''01234567-89ab-cdef-0123-456789abcdef''"

definition sample_call :: client_call where
  "sample_call = \<lparr>cl_request_object = False, cl_url = \<lparr>cu_origin = ''http://gate'', cu_path = ''/v1/messages'', cu_search = [], cu_hash = [],
     cu_href = ''http://gate/v1/messages''\<rparr>, cl_method = Some ''post'', cl_body = JStr ''{}'',
     cl_headers = [(''x-dsg-call-id'', JStr sample_id)], cl_redirect = JUndef\<rparr>"

definition sample_refusal :: gateway_answer where
  "sample_refusal = (case reject_answer sample_id (JStr sample_id) None None ''full'' QueueFull of
     Some ga \<Rightarrow> ga | None \<Rightarrow> unknown_execution_answer sample_id JNull [])"

definition sample_parse :: "string \<Rightarrow> js option" where
  "sample_parse t = (if t = ''e'' then Some (JObj [(''error'', ga_error sample_refusal)]) else None)"

definition sample_rounds :: "client_round list" where
  "sample_rounds = [\<lparr>rd_aborted = False, rd_fetched = Answered \<lparr>rs_status = 429, rs_headers = ga_headers sample_refusal,
       rs_parts = Some [''e''], rs_breaks = False\<rparr>, rd_wait_aborted = False\<rparr>,
     \<lparr>rd_aborted = False, rd_fetched = Unreachable, rd_wait_aborted = False\<rparr>]"

lemma patient_call_runs_at_most_once_witness:
  "patient_guarantee (pinned_call (call_id_of sample_id sample_call) sample_call)
     [GatewayRefusal sample_id (JStr sample_id) None None ''full'' QueueFull, NoAnswer]
     (snd (continuity_fetch sample_parse ''http://gate'' sample_id sample_call sample_rounds))"
  by (rule patient_call_runs_at_most_once) code_simp+

lemma sample_call_is_repeated:
  "length (lg_sent (snd (continuity_fetch sample_parse ''http://gate'' sample_id sample_call sample_rounds))) = 2"
  by code_simp

text \<open>Which answers a patient client takes as the promise that nothing was executed: every refusal the gateway gives
  for this call except the one that needs an operator, of the door's refusals exactly those of its hold and of its stopping,
  and never an answer that came from an engine, nor the door's report that the core was lost.\<close>

theorem certificates_name_refusals:
  "\<not> certified_not_dispatched (forwarded_answer status hs err w i home n) call_id \<and>
   \<not> certified_not_dispatched (unknown_execution_answer i cid m) call_id \<and>
   (case reject_answer i cid w' s m why of None \<Rightarrow> valid_call_id (JStr i) = None
    | Some ans \<Rightarrow> certified_not_dispatched ans call_id \<longleftrightarrow>
        valid_call_id (JStr call_id) \<noteq> None \<and> valid_call_id cid = Some call_id \<and> why \<noteq> AffinityWriteFailed) \<and>
   (certified_not_dispatched (not_forwarded_answer i cid st why' m) call_id \<longleftrightarrow>
     valid_call_id (JStr call_id) \<noteq> None \<and> valid_call_id cid = Some call_id \<and> valid_call_id (JStr i) \<noteq> None \<and>
     st \<in> {429, 503, 504} \<and> why' \<in> set (retry_codes @ door_codes))"
proof -
  have "case reject_answer i cid w' s m why of None \<Rightarrow> valid_call_id (JStr i) = None
   | Some ans \<Rightarrow> certified_not_dispatched ans call_id \<longleftrightarrow>
       valid_call_id (JStr call_id) \<noteq> None \<and> valid_call_id cid = Some call_id \<and> why \<noteq> AffinityWriteFailed"
    using gateway_refusal_certifies [of i cid w' s m why _ call_id]
    by (cases "reject_answer i cid w' s m why")
      (auto simp: reject_answer_def rejection_receipt_def Let_def split: prod.splits if_splits)
  then show ?thesis
    by (simp add: engine_answers_certify_nothing unknown_execution_certifies_nothing door_refusal_certifies)
qed

end
