(* ===== verification/Model_Alias.thy ===== *)
theory Model_Alias
  imports Gate_Prelude
begin

text \<open>
  The streaming rewrite of the model name in a request body (\<open>model-alias.mjs\<close>). The scanner follows strings and
  brackets byte by byte, keeps a key of the outermost object or the string that follows its \<open>model\<close> key, at most
  4096 bytes of it, and passes everything else on as it came. A chunk is a list of characters; \<open>ac_from\<close> is the
  part of the chunk from \<open>start\<close> to the byte in hand. \<open>parse\<close> is \<open>JSON.parse\<close> of a kept token, \<open>quote\<close> is
  \<open>JSON.stringify\<close> of a name.
\<close>

section \<open>The scanner\<close>

datatype token_role = NoRole | KeyRole | ModelRole

record alias_state =
  al_depth :: int
  al_in_string :: bool
  al_escaped :: bool
  al_key_expected :: bool
  al_key :: "js option"
  al_role :: token_role
  al_token :: string
  al_overflow :: bool

record alias_chunk =
  ac_state :: alias_state
  ac_parts :: "string list"
  ac_from :: string

definition alias_start :: alias_state where
  "alias_start = \<lparr>al_depth = 0, al_in_string = False, al_escaped = False, al_key_expected = False, al_key = None,
     al_role = NoRole, al_token = [], al_overflow = False\<rparr>"

type_synonym aliases = "(string \<times> string) list"

definition real_aliases :: "aliases \<Rightarrow> aliases" where
  "real_aliases as = filter (\<lambda>(a, b). a \<noteq> b) as"

abbreviation quote_byte :: char where "quote_byte \<equiv> CHR 34"
abbreviation escape_byte :: char where "escape_byte \<equiv> CHR 92"

definition advance_byte :: "char \<Rightarrow> alias_chunk \<Rightarrow> alias_chunk" where
  "advance_byte b x = x\<lparr>ac_from := ac_from x @ [b]\<rparr>"

definition in_state :: "(alias_state \<Rightarrow> alias_state) \<Rightarrow> alias_chunk \<Rightarrow> alias_chunk" where
  "in_state f x = x\<lparr>ac_state := f (ac_state x)\<rparr>"

definition push_part :: "string \<Rightarrow> alias_chunk \<Rightarrow> alias_chunk" where
  "push_part t x = x\<lparr>ac_parts := ac_parts x @ [t], ac_from := []\<rparr>"

text \<open>The byte of a kept token; a model name that grows too long is let go unchanged.\<close>

definition keep_byte :: "char \<Rightarrow> alias_chunk \<Rightarrow> alias_chunk" where
  "keep_byte b x = (let s = ac_state x in
     if al_role s = NoRole then x
     else if length (al_token s) < 4096 then in_state (\<lambda>s. s\<lparr>al_token := al_token s @ [b]\<rparr>) x
     else if al_role s = ModelRole then in_state (\<lambda>s. s\<lparr>al_token := [], al_role := NoRole\<rparr>) (push_part (al_token s) x)
     else in_state (\<lambda>s. s\<lparr>al_overflow := True\<rparr>) x)"

text \<open>A value that cannot be parsed is \<open>undefined\<close>, which \<open>Object.hasOwn\<close> reads as the name of a property.\<close>

definition alias_name :: "js option \<Rightarrow> string" where
  "alias_name v = (case v of Some (JStr s) \<Rightarrow> s | _ \<Rightarrow> ''undefined'')"

definition renamed :: "(string \<Rightarrow> js option) \<Rightarrow> (string \<Rightarrow> string) \<Rightarrow> aliases \<Rightarrow> string \<Rightarrow> string" where
  "renamed parse quote as token = (case map_of as (alias_name (parse token)) of Some w \<Rightarrow> quote w | None \<Rightarrow> token)"

definition close_token :: "(string \<Rightarrow> js option) \<Rightarrow> (string \<Rightarrow> string) \<Rightarrow> aliases \<Rightarrow> char \<Rightarrow> alias_chunk \<Rightarrow> alias_chunk" where
  "close_token parse quote as b x = (let s = ac_state x;
     done = in_state (\<lambda>s. s\<lparr>al_in_string := False, al_role := NoRole, al_token := [], al_overflow := False\<rparr>) in
     case al_role s of
       KeyRole \<Rightarrow> advance_byte b (done (in_state (\<lambda>s. s\<lparr>al_key := (if al_overflow s then None else parse (al_token s)), al_key_expected := False\<rparr>) x))
     | ModelRole \<Rightarrow> done (if al_overflow s then x\<lparr>ac_from := []\<rparr> else push_part (renamed parse quote as (al_token s)) x)
     | NoRole \<Rightarrow> advance_byte b (done x))"

definition string_byte :: "(string \<Rightarrow> js option) \<Rightarrow> (string \<Rightarrow> string) \<Rightarrow> aliases \<Rightarrow> char \<Rightarrow> alias_chunk \<Rightarrow> alias_chunk" where
  "string_byte parse quote as b x = (let x = keep_byte b x in
     if al_escaped (ac_state x) then advance_byte b (in_state (\<lambda>s. s\<lparr>al_escaped := False\<rparr>) x)
     else if b = escape_byte then advance_byte b (in_state (\<lambda>s. s\<lparr>al_escaped := True\<rparr>) x)
     else if b \<noteq> quote_byte then advance_byte b x
     else close_token parse quote as b x)"

definition role_of :: "alias_state \<Rightarrow> token_role" where
  "role_of s = (if al_depth s \<noteq> 1 then NoRole else if al_key_expected s then KeyRole
     else if al_key s = Some (JStr ''model'') then ModelRole else NoRole)"

definition open_string :: "char \<Rightarrow> alias_chunk \<Rightarrow> alias_chunk" where
  "open_string b x = (let role = role_of (ac_state x);
     y = in_state (\<lambda>s. s\<lparr>al_in_string := True, al_role := role, al_token := (if role = NoRole then [] else [b]), al_overflow := False\<rparr>) x in
     if role = ModelRole then push_part (ac_from x) y else y)"

definition outside_byte :: "char \<Rightarrow> alias_chunk \<Rightarrow> alias_chunk" where
  "outside_byte b x =
     (if b = quote_byte then open_string b x
      else if b \<in> {CHR 123, CHR 91} then
        in_state (\<lambda>s. s\<lparr>al_depth := al_depth s + 1, al_key_expected := (if al_depth s + 1 = 1 \<and> b = CHR 123 then True else al_key_expected s)\<rparr>) x
      else if b \<in> {CHR 125, CHR 93} then in_state (\<lambda>s. s\<lparr>al_depth := al_depth s - 1\<rparr>) x
      else if al_depth (ac_state x) = 1 \<and> b = CHR 44 then in_state (\<lambda>s. s\<lparr>al_key_expected := True, al_key := None\<rparr>) x
      else x)"

definition alias_byte :: "(string \<Rightarrow> js option) \<Rightarrow> (string \<Rightarrow> string) \<Rightarrow> aliases \<Rightarrow> char \<Rightarrow> alias_chunk \<Rightarrow> alias_chunk" where
  "alias_byte parse quote as b x = (if al_in_string (ac_state x) then string_byte parse quote as b x else advance_byte b (outside_byte b x))"

definition keeps_model :: "alias_state \<Rightarrow> bool" where
  "keeps_model s \<longleftrightarrow> al_in_string s \<and> al_role s = ModelRole"

definition alias_chunk_done :: "alias_chunk \<Rightarrow> string list \<times> alias_state" where
  "alias_chunk_done x = (let parts = (if keeps_model (ac_state x) then ac_parts x else ac_parts x @ [ac_from x]) in
     (filter (\<lambda>p. p \<noteq> []) parts, ac_state x))"

definition alias_transform :: "(string \<Rightarrow> js option) \<Rightarrow> (string \<Rightarrow> string) \<Rightarrow> aliases \<Rightarrow> string \<Rightarrow> alias_state \<Rightarrow> string list \<times> alias_state" where
  "alias_transform parse quote as chunk s =
     alias_chunk_done (fold (alias_byte parse quote as) chunk \<lparr>ac_state = s, ac_parts = [], ac_from = []\<rparr>)"

definition alias_flush :: "alias_state \<Rightarrow> string list" where
  "alias_flush s = (if keeps_model s \<and> al_token s \<noteq> [] then [al_token s] else [])"

fun alias_stream :: "(string \<Rightarrow> js option) \<Rightarrow> (string \<Rightarrow> string) \<Rightarrow> aliases \<Rightarrow> string list \<Rightarrow> alias_state \<Rightarrow> string list" where
  "alias_stream parse quote as [] s = alias_flush s"
| "alias_stream parse quote as (c # cs) s = (let (out, s) = alias_transform parse quote as c s in out @ alias_stream parse quote as cs s)"

definition opaque_encoding :: "string option \<Rightarrow> bool" where
  "opaque_encoding encoding \<longleftrightarrow> (case encoding of None \<Rightarrow> False | Some e \<Rightarrow> e \<noteq> [] \<and> e \<noteq> ''identity'')"

definition model_alias_transform :: "(string \<Rightarrow> js option) \<Rightarrow> (string \<Rightarrow> string) \<Rightarrow> aliases \<Rightarrow> string option \<Rightarrow> string list \<Rightarrow> string list" where
  "model_alias_transform parse quote as encoding chunks =
     (if opaque_encoding encoding \<or> real_aliases as = [] then chunks
      else alias_stream parse quote (real_aliases as) chunks alias_start)"

end
