(* ===== verification/Alias_Safety.thy ===== *)
theory Alias_Safety
  imports Model_Alias
begin

text \<open>
  What the model rewrite leaves alone: its output does not depend on the chunks the body arrives in, and it differs
  from the body only in whole quoted names that have an alias. The locale is a scanner that emits for each byte
  what becomes certain with it; the rewrite is one.
\<close>

section \<open>Scanners that emit\<close>

locale emitting_scanner =
  fixes scan :: "char \<Rightarrow> 'x \<Rightarrow> 'x" and state :: "'x \<Rightarrow> 's" and sure :: "'x \<Rightarrow> string"
    and "next" :: "char \<Rightarrow> 's \<Rightarrow> 's" and emit :: "char \<Rightarrow> 's \<Rightarrow> string"
  assumes state_scan: "state (scan b x) = next b (state x)"
    and sure_scan: "sure (scan b x) = sure x @ emit b (state x)"
begin

lemma state_fold: "state (fold scan bs x) = fold next bs (state x)"
  by (induction bs arbitrary: x) (simp_all add: state_scan)

lemma sure_fold_state: "state x = state y \<Longrightarrow> sure x = [] \<Longrightarrow> sure (fold scan bs y) = sure y @ sure (fold scan bs x)"
proof (induction bs rule: rev_induct)
  case (snoc b bs)
  then show ?case by (simp add: sure_scan state_fold)
qed simp

end

section \<open>The rewrite as a scanner\<close>

text \<open>All that is certain to be sent: the parts and, unless a model name is being kept, the rest of the chunk so far.\<close>

definition shown :: "alias_chunk \<Rightarrow> string" where
  "shown x = concat (ac_parts x) @ (if keeps_model (ac_state x) then [] else ac_from x)"

definition fresh_chunk :: "alias_state \<Rightarrow> alias_chunk" where
  "fresh_chunk s = \<lparr>ac_state = s, ac_parts = [], ac_from = []\<rparr>"

definition alias_next :: "(string \<Rightarrow> js option) \<Rightarrow> (string \<Rightarrow> string) \<Rightarrow> aliases \<Rightarrow> char \<Rightarrow> alias_state \<Rightarrow> alias_state" where
  "alias_next parse quote as b s = ac_state (alias_byte parse quote as b (fresh_chunk s))"

definition alias_emit :: "(string \<Rightarrow> js option) \<Rightarrow> (string \<Rightarrow> string) \<Rightarrow> aliases \<Rightarrow> char \<Rightarrow> alias_state \<Rightarrow> string" where
  "alias_emit parse quote as b s = shown (alias_byte parse quote as b (fresh_chunk s))"

definition kept :: "alias_state \<Rightarrow> string" where
  "kept s = (if keeps_model s then al_token s else [])"

text \<open>Each byte acts on the state alone, and what it adds depends on the state alone.\<close>

lemmas byte_defs = advance_byte_def in_state_def push_part_def keep_byte_def close_token_def string_byte_def open_string_def outside_byte_def
  alias_byte_def

lemma outside_alike: "\<not> al_in_string (ac_state x) \<Longrightarrow>
   ac_state (advance_byte b (outside_byte b x)) = ac_state (advance_byte b (outside_byte b (fresh_chunk (ac_state x)))) \<and>
   shown (advance_byte b (outside_byte b x)) = shown x @ shown (advance_byte b (outside_byte b (fresh_chunk (ac_state x))))"
  by (simp add: byte_defs fresh_chunk_def shown_def keeps_model_def Let_def)

lemma string_alike: "al_in_string (ac_state x) \<Longrightarrow>
   ac_state (string_byte parse quote as b x) = ac_state (string_byte parse quote as b (fresh_chunk (ac_state x))) \<and>
   shown (string_byte parse quote as b x) = shown x @ shown (string_byte parse quote as b (fresh_chunk (ac_state x)))"
  by (cases "al_role (ac_state x)"; cases "length (al_token (ac_state x)) < 4096"; cases "al_escaped (ac_state x)"; cases "b = escape_byte";
      cases "b = quote_byte"; cases "al_overflow (ac_state x)")
     (simp_all add: byte_defs fresh_chunk_def shown_def keeps_model_def Let_def)

interpretation rewrite: emitting_scanner "alias_byte parse quote as" ac_state shown "alias_next parse quote as" "alias_emit parse quote as"
  for parse quote as
proof unfold_locales
  fix b x
  show "ac_state (alias_byte parse quote as b x) = alias_next parse quote as b (ac_state x)"
    using outside_alike [of x b] string_alike [of x parse quote as b]
    by (cases "al_in_string (ac_state x)") (simp_all add: alias_next_def alias_byte_def fresh_chunk_def)
  show "shown (alias_byte parse quote as b x) = shown x @ alias_emit parse quote as b (ac_state x)"
    using outside_alike [of x b] string_alike [of x parse quote as b]
    by (cases "al_in_string (ac_state x)") (simp_all add: alias_emit_def alias_byte_def fresh_chunk_def)
qed

lemma concat_nonempty: "concat (filter (\<lambda>p. p \<noteq> []) ps) = concat ps"
  by (induction ps) auto

lemma transform_shown:
  "concat (fst (alias_transform parse quote as c s)) = shown (fold (alias_byte parse quote as) c (fresh_chunk s))"
  "snd (alias_transform parse quote as c s) = fold (alias_next parse quote as) c s"
proof -
  show "concat (fst (alias_transform parse quote as c s)) = shown (fold (alias_byte parse quote as) c (fresh_chunk s))"
    by (simp add: alias_transform_def alias_chunk_done_def concat_nonempty shown_def fresh_chunk_def Let_def)
  show "snd (alias_transform parse quote as c s) = fold (alias_next parse quote as) c s"
    using rewrite.state_fold [of parse quote as c "fresh_chunk s"]
    by (simp add: alias_transform_def alias_chunk_done_def fresh_chunk_def Let_def)
qed

lemma shown_fresh: "shown (fresh_chunk s) = []"
  by (simp add: shown_def fresh_chunk_def)

text \<open>The output of a whole stream: what its bytes emit and, at the end, a name that was never closed.\<close>

lemma flush_kept: "concat (alias_flush s) = kept s"
  by (simp add: alias_flush_def kept_def)

lemma stream_shown:
  "concat (alias_stream parse quote as cs s) =
   shown (fold (alias_byte parse quote as) (concat cs) (fresh_chunk s)) @ kept (fold (alias_next parse quote as) (concat cs) s)"
proof (induction cs arbitrary: s)
  case Nil
  then show ?case by (simp add: flush_kept shown_fresh)
next
  case (Cons c cs)
  let ?x = "fold (alias_byte parse quote as) c (fresh_chunk s)" and ?s = "fold (alias_next parse quote as) c s"
  have st: "ac_state (fresh_chunk ?s) = ac_state ?x"
    using rewrite.state_fold [of parse quote as c "fresh_chunk s"] by (simp add: fresh_chunk_def)
  have "shown (fold (alias_byte parse quote as) (concat cs) ?x) =
      shown ?x @ shown (fold (alias_byte parse quote as) (concat cs) (fresh_chunk ?s))"
    by (rule rewrite.sure_fold_state [OF st shown_fresh])
  then show ?case using Cons.IH [of ?s] transform_shown [of parse quote as c s] by (simp add: split_beta)
qed

section \<open>Only names change\<close>

datatype alias_piece = Passed string | Renamed string string

fun piece_old :: "alias_piece \<Rightarrow> string" where
  "piece_old (Passed t) = t"
| "piece_old (Renamed t u) = t"

fun piece_new :: "alias_piece \<Rightarrow> string" where
  "piece_new (Passed t) = t"
| "piece_new (Renamed t u) = u"

text \<open>A renamed piece is a quoted string of bounded size whose value has an alias, and is replaced by that.\<close>

fun piece_ok :: "(string \<Rightarrow> js option) \<Rightarrow> (string \<Rightarrow> string) \<Rightarrow> aliases \<Rightarrow> alias_piece \<Rightarrow> bool" where
  "piece_ok parse quote as (Passed t) = True"
| "piece_ok parse quote as (Renamed t u) = (t \<noteq> [] \<and> hd t = quote_byte \<and> last t = quote_byte \<and> length t \<le> 4096 \<and>
     (case map_of as (alias_name (parse t)) of None \<Rightarrow> False | Some w \<Rightarrow> u = quote w))"

definition token_ok :: "alias_state \<Rightarrow> bool" where
  "token_ok s \<longleftrightarrow> (if keeps_model s then al_token s \<noteq> [] \<and> hd (al_token s) = quote_byte \<and> length (al_token s) \<le> 4096 \<and> \<not> al_overflow s
     else True)"

definition byte_piece :: "(string \<Rightarrow> js option) \<Rightarrow> (string \<Rightarrow> string) \<Rightarrow> aliases \<Rightarrow> char \<Rightarrow> alias_state \<Rightarrow> bool" where
  "byte_piece parse quote as b s \<longleftrightarrow> (let s' = alias_next parse quote as b s; e = alias_emit parse quote as b s in
     token_ok s' \<and> (\<exists>ps. list_all (piece_ok parse quote as) ps \<and> kept s @ [b] = concat (map piece_old ps) @ kept s' \<and>
       e = concat (map piece_new ps)))"

lemma outside_piece:
  assumes "\<not> al_in_string s" shows "byte_piece parse quote as b s"
proof -
  let ?s = "alias_next parse quote as b s" and ?e = "alias_emit parse quote as b s"
  have "\<not> keeps_model s" using assms by (simp add: keeps_model_def)
  moreover have "keeps_model ?s \<and> al_token ?s = [b] \<and> \<not> al_overflow ?s \<and> b = quote_byte \<and> ?e = [] \<or> \<not> keeps_model ?s \<and> ?e = [b]"
    using assms by (simp add: alias_next_def alias_emit_def fresh_chunk_def byte_defs shown_def keeps_model_def Let_def)
  ultimately show ?thesis
    by (auto simp: byte_piece_def token_ok_def kept_def Let_def intro: exI [of _ "[]"] exI [of _ "[Passed [b]]"])
qed

lemma string_piece:
  assumes i: "al_in_string s" and t: "token_ok s" shows "byte_piece parse quote as b s"
proof (cases "al_role s = ModelRole")
  case False
  let ?s = "alias_next parse quote as b s" and ?e = "alias_emit parse quote as b s"
  have "\<not> keeps_model s" "\<not> keeps_model ?s" "?e = [b]"
    using False i by (cases "al_role s"; simp add: alias_next_def alias_emit_def fresh_chunk_def byte_defs shown_def keeps_model_def Let_def)+
  then show ?thesis by (auto simp: byte_piece_def token_ok_def kept_def Let_def intro!: exI [of _ "[Passed [b]]"])
next
  case True
  let ?s = "alias_next parse quote as b s" and ?e = "alias_emit parse quote as b s" and ?t = "al_token s @ [b]"
  have k: "keeps_model s" "al_token s \<noteq> []" "hd (al_token s) = quote_byte" "length (al_token s) \<le> 4096" "\<not> al_overflow s"
    using i t True by (simp_all add: keeps_model_def token_ok_def)
  have r: "ac_state (fresh_chunk s) = s" "ac_parts (fresh_chunk s) = []" "ac_from (fresh_chunk s) = []" by (simp_all add: fresh_chunk_def)
  consider (long) "\<not> length (al_token s) < 4096" | (mid) "length (al_token s) < 4096" "al_escaped s \<or> b \<noteq> quote_byte"
    | (closes) "length (al_token s) < 4096" "\<not> al_escaped s" "b = quote_byte" by blast
  then show ?thesis
  proof cases
    case long
    have "\<not> keeps_model ?s \<and> ?e = ?t"
      using long True i by (simp add: alias_next_def alias_emit_def r byte_defs shown_def keeps_model_def Let_def)
    then show ?thesis using k
      by (auto simp: byte_piece_def token_ok_def kept_def Let_def intro!: exI [of _ "[Passed (al_token s @ [b])]"])
  next
    case mid
    have "keeps_model ?s \<and> al_token ?s = ?t \<and> \<not> al_overflow ?s \<and> ?e = []"
      using mid True i k by (auto simp: alias_next_def alias_emit_def r byte_defs shown_def keeps_model_def Let_def)
    then show ?thesis using k mid
      by (auto simp: byte_piece_def token_ok_def kept_def Let_def intro!: exI [of _ "[]"])
  next
    case closes
    have e: "\<not> keeps_model ?s \<and> ?e = renamed parse quote as ?t"
      using closes True i k by (simp add: alias_next_def alias_emit_def r byte_defs shown_def keeps_model_def Let_def)
    let ?p = "case map_of as (alias_name (parse ?t)) of None \<Rightarrow> Passed ?t | Some w \<Rightarrow> Renamed ?t (quote w)"
    have "piece_ok parse quote as ?p" "piece_old ?p = ?t" "piece_new ?p = renamed parse quote as ?t"
      using k closes by (simp_all add: renamed_def split: option.split)
    with e k show ?thesis by (auto simp: byte_piece_def token_ok_def kept_def Let_def intro!: exI [of _ "[?p]"])
  qed
qed

lemma byte_pieces: "token_ok s \<Longrightarrow> byte_piece parse quote as b s"
  using outside_piece string_piece by blast

lemma stream_pieces:
  "token_ok s \<Longrightarrow> \<exists>ps. list_all (piece_ok parse quote as) ps \<and>
     kept s @ bs = concat (map piece_old ps) @ kept (fold (alias_next parse quote as) bs s) \<and>
     shown (fold (alias_byte parse quote as) bs (fresh_chunk s)) = concat (map piece_new ps)"
proof (induction bs arbitrary: s)
  case Nil
  then show ?case by (simp add: shown_fresh exI [of _ "[]"])
next
  case (Cons b bs)
  let ?s = "alias_next parse quote as b s" and ?x = "alias_byte parse quote as b (fresh_chunk s)"
  from byte_pieces [OF Cons.prems, of parse quote as b] obtain ps where
    p: "token_ok ?s" "list_all (piece_ok parse quote as) ps" "kept s @ [b] = concat (map piece_old ps) @ kept ?s" "shown ?x = concat (map piece_new ps)"
    by (auto simp: byte_piece_def alias_emit_def Let_def)
  from Cons.IH [OF p(1)] obtain qs where
    q: "list_all (piece_ok parse quote as) qs" "kept ?s @ bs = concat (map piece_old qs) @ kept (fold (alias_next parse quote as) bs ?s)"
      "shown (fold (alias_byte parse quote as) bs (fresh_chunk ?s)) = concat (map piece_new qs)" by blast
  have st: "ac_state (fresh_chunk ?s) = ac_state ?x" by (simp add: fresh_chunk_def alias_next_def)
  have "shown (fold (alias_byte parse quote as) bs ?x) = shown ?x @ shown (fold (alias_byte parse quote as) bs (fresh_chunk ?s))"
    by (rule rewrite.sure_fold_state [OF st shown_fresh])
  moreover have "kept s @ b # bs = concat (map piece_old ps) @ kept ?s @ bs" using p(3) by (metis append.assoc append_Cons append_Nil)
  ultimately show ?case using p q by (intro exI [of _ "ps @ qs"]) simp
qed

definition rewritten :: "(string \<Rightarrow> js option) \<Rightarrow> (string \<Rightarrow> string) \<Rightarrow> aliases \<Rightarrow> string \<Rightarrow> string \<Rightarrow> bool" where
  "rewritten parse quote as t u \<longleftrightarrow> (\<exists>ps. list_all (piece_ok parse quote as) ps \<and> t = concat (map piece_old ps) \<and> u = concat (map piece_new ps))"

text \<open>C34: translating model names is invisible but for the names. For any chunks of any bytes, JSON or not, the
  output is the body with some whole quoted strings of at most 4096 bytes replaced, each of which names an aliased
  model, by the quoted alias; and it is the output for the body in one chunk. With an encoded body or
  without aliases the chunks themselves are passed on.\<close>

theorem alias_rewrite_is_faithful:
  "rewritten parse quote (real_aliases as) (concat cs) (concat (model_alias_transform parse quote as enc cs)) \<and>
   concat (model_alias_transform parse quote as enc cs) = concat (model_alias_transform parse quote as enc [concat cs]) \<and>
   (if opaque_encoding enc \<or> real_aliases as = [] then model_alias_transform parse quote as enc cs = cs else True)"
proof (cases "opaque_encoding enc \<or> real_aliases as = []")
  case True
  have "rewritten parse quote (real_aliases as) (concat cs) (concat cs)"
    unfolding rewritten_def by (rule exI [of _ "[Passed (concat cs)]"]) simp
  with True show ?thesis by (simp add: model_alias_transform_def)
next
  case False
  let ?as = "real_aliases as" and ?final = "fold (alias_next parse quote (real_aliases as)) (concat cs) alias_start"
  have "token_ok alias_start" "kept alias_start = []" by (simp_all add: token_ok_def kept_def keeps_model_def alias_start_def)
  with stream_pieces [of alias_start parse quote ?as "concat cs"] obtain ps where
    p: "list_all (piece_ok parse quote ?as) ps" "concat cs = concat (map piece_old ps) @ kept ?final"
      "shown (fold (alias_byte parse quote ?as) (concat cs) (fresh_chunk alias_start)) = concat (map piece_new ps)" by auto
  have out: "concat (model_alias_transform parse quote as enc ds) = shown (fold (alias_byte parse quote ?as) (concat ds) (fresh_chunk alias_start)) @
      kept (fold (alias_next parse quote ?as) (concat ds) alias_start)" for ds
    using False by (simp add: model_alias_transform_def stream_shown)
  have "rewritten parse quote ?as (concat cs) (concat (model_alias_transform parse quote as enc cs))"
    unfolding rewritten_def using p by (intro exI [of _ "ps @ [Passed (kept ?final)]"]) (simp add: out)
  then show ?thesis using False by (simp add: out)
qed

section \<open>The outermost model is renamed\<close>

definition model_head :: string where
  "model_head = CHR 123 # quote_byte # ''model'' @ [quote_byte, CHR '':'', quote_byte]"

definition plain_name :: "string \<Rightarrow> bool" where
  "plain_name t \<longleftrightarrow> list_all (\<lambda>c. c \<noteq> quote_byte \<and> c \<noteq> escape_byte) t \<and> length t < 4095"

definition in_name :: "string \<Rightarrow> alias_state" where
  "in_name t = \<lparr>al_depth = 1, al_in_string = True, al_escaped = False, al_key_expected = False, al_key = Some (JStr ''model''),
     al_role = ModelRole, al_token = quote_byte # t, al_overflow = False\<rparr>"

lemma key_byte:
  "s = \<lparr>al_depth = 1, al_in_string = True, al_escaped = False, al_key_expected = True, al_key = None, al_role = KeyRole, al_token = t, al_overflow = False\<rparr> \<Longrightarrow>
   length t < 4096 \<Longrightarrow> c \<noteq> quote_byte \<Longrightarrow> c \<noteq> escape_byte \<Longrightarrow>
   alias_byte parse quote as c \<lparr>ac_state = s, ac_parts = ps, ac_from = f\<rparr> =
     \<lparr>ac_state = s\<lparr>al_token := t @ [c]\<rparr>, ac_parts = ps, ac_from = f @ [c]\<rparr>"
  by (simp add: byte_defs Let_def)

lemma head_read:
  assumes "parse (quote_byte # ''model'' @ [quote_byte]) = Some (JStr ''model'')"
  shows "fold (alias_byte parse quote as) model_head (fresh_chunk alias_start) =
    \<lparr>ac_state = in_name [], ac_parts = [butlast model_head], ac_from = [quote_byte]\<rparr>"
proof -
  let ?k = "\<lambda>t. \<lparr>al_depth = 1, al_in_string = True, al_escaped = False, al_key_expected = True, al_key = None, al_role = KeyRole, al_token = t, al_overflow = False\<rparr>"
  have "fold (alias_byte parse quote as) [CHR 123, quote_byte] (fresh_chunk alias_start) =
      \<lparr>ac_state = ?k [quote_byte], ac_parts = [], ac_from = [CHR 123, quote_byte]\<rparr>"
    by (simp add: fresh_chunk_def alias_start_def byte_defs role_of_def Let_def)
  moreover have "fold (alias_byte parse quote as) ''model'' \<lparr>ac_state = ?k [quote_byte], ac_parts = [], ac_from = [CHR 123, quote_byte]\<rparr> =
      \<lparr>ac_state = ?k (quote_byte # ''model''), ac_parts = [], ac_from = CHR 123 # quote_byte # ''model''\<rparr>"
    by (simp add: key_byte)
  moreover have "fold (alias_byte parse quote as) [quote_byte, CHR '':'', quote_byte]
      \<lparr>ac_state = ?k (quote_byte # ''model''), ac_parts = [], ac_from = CHR 123 # quote_byte # ''model''\<rparr> =
    \<lparr>ac_state = in_name [], ac_parts = [butlast model_head], ac_from = [quote_byte]\<rparr>"
    using assms by (simp add: byte_defs role_of_def in_name_def model_head_def Let_def)
  ultimately show ?thesis by (simp add: model_head_def)
qed

lemma name_read:
  "list_all (\<lambda>c. c \<noteq> quote_byte \<and> c \<noteq> escape_byte) n \<Longrightarrow> length t + length n < 4095 \<Longrightarrow>
   fold (alias_byte parse quote as) n \<lparr>ac_state = in_name t, ac_parts = ps, ac_from = f\<rparr> =
     \<lparr>ac_state = in_name (t @ n), ac_parts = ps, ac_from = f @ n\<rparr>"
proof (induction n arbitrary: t f)
  case (Cons c n)
  have "alias_byte parse quote as c \<lparr>ac_state = in_name t, ac_parts = ps, ac_from = f\<rparr> =
      \<lparr>ac_state = in_name (t @ [c]), ac_parts = ps, ac_from = f @ [c]\<rparr>"
    using Cons.prems by (simp add: byte_defs in_name_def Let_def)
  with Cons show ?case by simp
qed simp

lemma name_closed:
  "length t < 4095 \<Longrightarrow> shown (alias_byte parse quote as quote_byte \<lparr>ac_state = in_name t, ac_parts = ps, ac_from = f\<rparr>) =
     concat ps @ renamed parse quote as (quote_byte # t @ [quote_byte])"
  by (simp add: byte_defs in_name_def shown_def keeps_model_def Let_def)

lemma shown_grows: "begins_with (shown (fold (alias_byte parse quote as) bs x)) (shown x)"
proof -
  have "ac_state (fresh_chunk (ac_state x)) = ac_state x" by (simp add: fresh_chunk_def)
  from rewrite.sure_fold_state [OF this shown_fresh, of parse quote as bs] show ?thesis by (simp add: begins_with_def)
qed

text \<open>A request for an aliased model is sent to the engine under the alias. When a body begins with the key
  \<open>model\<close> and a name without escapes that has an alias, then, however the chunks cut through it and whatever
  follows, the output begins with the same key and the quoted alias.\<close>

theorem alias_is_applied:
  assumes "\<not> opaque_encoding enc" and "map_of (real_aliases as) name = Some w" and "plain_name name"
    and "parse (quote_byte # ''model'' @ [quote_byte]) = Some (JStr ''model'')"
    and "parse (quote_byte # name @ [quote_byte]) = Some (JStr name)"
    and "concat cs = model_head @ name @ quote_byte # rest"
  shows "begins_with (concat (model_alias_transform parse quote as enc cs)) (butlast model_head @ quote w)"
proof -
  let ?as = "real_aliases as" and ?run = "fold (alias_byte parse quote (real_aliases as))"
  let ?n = "\<lparr>ac_state = in_name name, ac_parts = [butlast model_head], ac_from = quote_byte # name\<rparr>"
  have n: "list_all (\<lambda>c. c \<noteq> quote_byte \<and> c \<noteq> escape_byte) name" "length name < 4095" using assms(3) by (simp_all add: plain_name_def)
  have "?run (model_head @ name) (fresh_chunk alias_start) = ?n"
    using name_read [OF n(1), of "[]" parse quote ?as] n(2) by (simp add: head_read [where parse = parse, OF assms(4)])
  then have "?run (concat cs) (fresh_chunk alias_start) = ?run rest (alias_byte parse quote ?as quote_byte ?n)"
    using fold_append [of "alias_byte parse quote ?as" "model_head @ name" "quote_byte # rest"] unfolding assms(6) by simp
  moreover have "shown (alias_byte parse quote ?as quote_byte ?n) = butlast model_head @ quote w"
    using name_closed [OF n(2)] assms(2,5) by (simp add: renamed_def alias_name_def)
  ultimately have "begins_with (shown (?run (concat cs) (fresh_chunk alias_start))) (butlast model_head @ quote w)"
    using shown_grows [of parse quote ?as rest] by metis
  moreover have "?as \<noteq> []" using assms(2) by auto
  ultimately show ?thesis
    using assms(1) by (simp add: model_alias_transform_def stream_shown begins_with_extend)
qed

definition sample_names :: "string \<Rightarrow> js option" where
  "sample_names t = Some (JStr (butlast (tl t)))"

lemma alias_is_applied_witness:
  "begins_with (concat (model_alias_transform sample_names (\<lambda>t. quote_byte # t @ [quote_byte]) [(''a'', ''big'')] None
     [model_head, ''a'' @ [quote_byte], [CHR 125]])) (butlast model_head @ quote_byte # ''big'' @ [quote_byte])"
  by (rule alias_is_applied [where name = "''a''" and rest = "[CHR 125]"])
    (simp_all add: opaque_encoding_def real_aliases_def plain_name_def sample_names_def)

end
