(* ===== verification/Token_Throughput.thy ===== *)
theory Token_Throughput
  imports Gate_Prelude
begin

text \<open>
  The accounting of finished requests for the display (\<open>FleetThroughput\<close>, \<open>throughput.mjs\<close>): a bounded map of
  terminal usage rows, the sums over the last hour, and the busiest hour of the last day, found by one
  pass with two pointers over the rows in the order of time. Times are exact numbers, \<open>date\<close> is
  \<open>Date.parse\<close>; the big integers of the sums are integers.
\<close>

section \<open>Rows\<close>

definition throughput_hour :: rat where "throughput_hour = 3600000"
definition throughput_day :: rat where "throughput_day = 24 * throughput_hour"

record usage_row =
  ur_at :: rat
  ur_node :: string
  ur_complete :: bool
  ur_output :: "int option"
  ur_prompt :: "int option"
  ur_cached :: "int option"
  ur_invalid :: bool

record throughput =
  tp_max :: nat
  tp_records :: "(string \<times> usage_row) list"
  tp_evicted :: nat
  tp_rejected :: nat

definition new_throughput :: "js \<Rightarrow> throughput option" where
  "new_throughput v = (case safe_int v of
     None \<Rightarrow> None
   | Some n \<Rightarrow> if n < 1 \<or> n > 20000 then None
       else Some \<lparr>tp_max = nat n, tp_records = [], tp_evicted = 0, tp_rejected = 0\<rparr>)"

definition plain_id :: "js \<Rightarrow> string option" where
  "plain_id v = (case v of JStr s \<Rightarrow> if s \<noteq> [] \<and> length s \<le> 64 \<and> list_all word_or_hyphen s then Some s else None | _ \<Rightarrow> None)"

definition token_count :: "js \<Rightarrow> int option" where
  "token_count v = (case safe_int v of Some n \<Rightarrow> if 0 \<le> n then Some n else None | None \<Rightarrow> None)"

definition usage_row_of :: "rat \<Rightarrow> string \<Rightarrow> js \<Rightarrow> usage_row" where
  "usage_row_of t node row =
     (let usage = jget row ''usage''; prompt = token_count (jget usage ''prompt_tokens''); cached = token_count (jget usage ''cached_tokens'');
          sound = (case (prompt, cached) of (Some p, Some c) \<Rightarrow> c \<le> p | _ \<Rightarrow> False) in
      \<lparr>ur_at = t, ur_node = node, ur_complete = (jget row ''outcome'' = JStr ''complete''),
       ur_output = token_count (jget usage ''completion_tokens''), ur_prompt = (if sound then prompt else None),
       ur_cached = (if sound then cached else None), ur_invalid = False\<rparr>)"

definition reject_row :: "throughput \<Rightarrow> throughput" where
  "reject_row f = f\<lparr>tp_rejected := tp_rejected f + 1\<rparr>"

text \<open>A row told twice counts once; a row told in two versions counts not at all.\<close>

definition repeated_row :: "string \<Rightarrow> usage_row \<Rightarrow> usage_row \<Rightarrow> throughput \<Rightarrow> throughput" where
  "repeated_row key prior r f = (if prior \<noteq> r \<and> \<not> ur_invalid prior
     then reject_row (f\<lparr>tp_records := map (\<lambda>(k, x). (k, if k = key then x\<lparr>ur_invalid := True\<rparr> else x)) (tp_records f)\<rparr>) else f)"

definition added_row :: "string \<Rightarrow> usage_row \<Rightarrow> throughput \<Rightarrow> throughput" where
  "added_row key r f = (let rows = tp_records f @ [(key, r)] in
     if length rows > tp_max f then f\<lparr>tp_records := tl rows, tp_evicted := tp_evicted f + 1\<rparr> else f\<lparr>tp_records := rows\<rparr>)"

definition accept_usage :: "(js \<Rightarrow> rat option) \<Rightarrow> js \<Rightarrow> throughput \<Rightarrow> throughput" where
  "accept_usage date row f =
     (if jget row ''kind'' \<noteq> JStr ''finish'' then f
      else if jget row ''schema'' \<noteq> jint 1 then reject_row f
      else case (plain_id (jget row ''run_id''), plain_id (jget row ''request_id''), plain_id (jget row ''node''), date (jget row ''time'')) of
        (Some run, Some req, Some node, Some t) \<Rightarrow>
          (let key = run @ '':'' @ req; r = usage_row_of t node row in
           case map_of (tp_records f) key of
             Some prior \<Rightarrow> repeated_row key prior r f
           | None \<Rightarrow> added_row key r f)
      | _ \<Rightarrow> reject_row f)"

section \<open>The report\<close>

definition recent_rows :: "rat \<Rightarrow> throughput \<Rightarrow> throughput" where
  "recent_rows now f = f\<lparr>tp_records := filter (\<lambda>(k, r). \<not> ur_at r \<le> now - throughput_day) (tp_records f)\<rparr>"

definition counted_rows :: "rat \<Rightarrow> throughput \<Rightarrow> usage_row list" where
  "counted_rows now f = sort_key ur_at (filter (\<lambda>r. \<not> ur_invalid r \<and> ur_at r \<le> now) (map snd (tp_records f)))"

definition safe_sum :: "int \<Rightarrow> int option" where
  "safe_sum n = (if n \<le> max_safe then Some n else None)"

definition sum_of :: "(usage_row \<Rightarrow> int option) \<Rightarrow> usage_row list \<Rightarrow> int option" where
  "sum_of field rows = safe_sum (foldl (\<lambda>n r. n + (case field r of None \<Rightarrow> 0 | Some x \<Rightarrow> x)) 0 rows)"

definition output_of :: "usage_row \<Rightarrow> int" where
  "output_of r = (case ur_output r of None \<Rightarrow> 0 | Some n \<Rightarrow> n)"

text \<open>The rows that fell out of the hour that ends with the row at \<open>right\<close> leave the running sum.\<close>

function shrink_window :: "usage_row list \<Rightarrow> nat \<Rightarrow> nat \<Rightarrow> int \<Rightarrow> nat \<times> int" where
  "shrink_window known right left running =
     (if left < length known \<and> ur_at (known ! left) \<le> ur_at (known ! right) - throughput_hour
      then shrink_window known right (Suc left) (running - output_of (known ! left)) else (left, running))"
  by pat_completeness auto
termination
  by (relation "measure (\<lambda>(known, right, left, running). length known - left)") auto

declare shrink_window.simps [simp del]

fun peak_loop :: "usage_row list \<Rightarrow> nat list \<Rightarrow> nat \<Rightarrow> int \<Rightarrow> int \<times> rat option \<Rightarrow> int \<times> rat option" where
  "peak_loop known [] left running best = best"
| "peak_loop known (right # rest) left running best =
     (let (left, running) = shrink_window known right left (running + output_of (known ! right)) in
      peak_loop known rest left running (if running > fst best then (running, Some (ur_at (known ! right))) else best))"

definition busiest_hour :: "usage_row list \<Rightarrow> int \<times> rat option" where
  "busiest_hour known = peak_loop known [0..<length known] 0 0 (0, None)"

record throughput_report =
  tr_completed_1h :: nat
  tr_output_known_1h :: nat
  tr_output_1h :: "int option"
  tr_peak_output :: "int option"
  tr_peak_end :: "rat option"
  tr_completed_24h :: nat
  tr_output_known_24h :: nat
  tr_cached_1h :: "int option"
  tr_cache_known_1h :: nat
  tr_reuse_pct_1h :: "rat option"
  tr_excluded_1h :: nat
  tr_oldest :: "rat option"
  tr_evicted :: nat
  tr_rejected :: nat

definition known_rows :: "rat \<Rightarrow> throughput \<Rightarrow> usage_row list" where
  "known_rows now f = filter (\<lambda>r. ur_complete r \<and> ur_output r \<noteq> None) (counted_rows now f)"

definition throughput_snapshot :: "rat \<Rightarrow> throughput \<Rightarrow> throughput_report \<times> throughput" where
  "throughput_snapshot now f0 =
     (let f = recent_rows now f0; rows = counted_rows now f; completed = filter ur_complete rows;
          recent = filter (\<lambda>r. ur_at r > now - throughput_hour) completed; output = filter (\<lambda>r. ur_output r \<noteq> None) recent;
          cache = filter (\<lambda>r. ur_cached r \<noteq> None) recent; known = known_rows now f; (peak, end_at) = busiest_hour known;
          total = (\<lambda>field some. if some \<noteq> [] then sum_of field some else if recent \<noteq> [] then None else Some 0);
          cached = total ur_cached cache; prompt = total ur_prompt cache in
      (\<lparr>tr_completed_1h = length recent, tr_output_known_1h = length output, tr_output_1h = total ur_output output,
        tr_peak_output = (if known \<noteq> [] then safe_sum peak else if completed \<noteq> [] then None else Some 0), tr_peak_end = end_at,
        tr_completed_24h = length completed, tr_output_known_24h = length known, tr_cached_1h = cached, tr_cache_known_1h = length cache,
        tr_reuse_pct_1h = (case (prompt, cached) of (Some p, Some c) \<Rightarrow> if p > 0 then Some (100 * of_int c / of_int p) else None | _ \<Rightarrow> None),
        tr_excluded_1h = length (filter (\<lambda>r. \<not> ur_complete r \<and> ur_at r > now - throughput_hour) rows),
        tr_oldest = (case rows of [] \<Rightarrow> None | r # _ \<Rightarrow> Some (ur_at r)), tr_evicted = tp_evicted f, tr_rejected = tp_rejected f\<rparr>, f))"

end
