(* ===== verification/Throughput_Peak.thy ===== *)
theory Throughput_Peak
  imports Token_Throughput
begin

text \<open>
  The busiest hour of the throughput report is what it says: the two-pointer pass is compared with the sum over
  every hour.
\<close>

section \<open>The hour that ends at a moment\<close>

definition window_tokens :: "usage_row list \<Rightarrow> rat \<Rightarrow> int" where
  "window_tokens known t = sum_list (map output_of (filter (\<lambda>r. t - throughput_hour < ur_at r \<and> ur_at r \<le> t) known))"

definition in_time_order :: "usage_row list \<Rightarrow> bool" where
  "in_time_order known \<longleftrightarrow> sorted (map ur_at known)"

definition sound_outputs :: "usage_row list \<Rightarrow> bool" where
  "sound_outputs known \<longleftrightarrow> list_all (\<lambda>r. 0 \<le> output_of r) known"

text \<open>The part of the hour that ends with row \<open>j\<close> among the first \<open>j + 1\<close> rows.\<close>

definition hour_sum :: "usage_row list \<Rightarrow> nat \<Rightarrow> int" where
  "hour_sum known j = (\<Sum>i | i \<le> j \<and> ur_at (known ! j) - throughput_hour < ur_at (known ! i). output_of (known ! i))"

lemma hour_positive: "0 < throughput_hour" by (simp add: throughput_hour_def)

lemma time_order_nth: "in_time_order known \<Longrightarrow> i \<le> j \<Longrightarrow> j < length known \<Longrightarrow> ur_at (known ! i) \<le> ur_at (known ! j)"
  unfolding in_time_order_def using sorted_nth_mono [of "map ur_at known" i j] by simp

lemma sum_list_filter_nth: "sum_list (map f (filter P xs)) = (\<Sum>i | i < length xs \<and> P (xs ! i). (f (xs ! i) :: int))"
proof -
  have "sum_list (map f (filter P xs)) = sum_list (map (\<lambda>x. if P x then f x else 0) xs)" by (rule sum_list_map_filter')
  also have "\<dots> = (\<Sum>i = 0..<length xs. if P (xs ! i) then f (xs ! i) else 0)" by (simp add: sum_list_sum_nth)
  also have "\<dots> = (\<Sum>i | i \<in> {0..<length xs} \<and> P (xs ! i). f (xs ! i))" by (rule sum.inter_filter [symmetric]) simp
  finally show ?thesis by simp
qed

section \<open>The two pointers\<close>

lemma shrink_spec:
  "right < length known \<Longrightarrow> left \<le> right \<Longrightarrow> shrink_window known right left run = (l, run') \<Longrightarrow>
   left \<le> l \<and> l \<le> right \<and> (\<forall>i. left \<le> i \<and> i < l \<longrightarrow> ur_at (known ! i) \<le> ur_at (known ! right) - throughput_hour) \<and>
   ur_at (known ! right) - throughput_hour < ur_at (known ! l) \<and> run' = run - (\<Sum>i = left..<l. output_of (known ! i))"
proof (induction "right - left" arbitrary: left run)
  case 0
  then have "left = right" by simp
  with 0 hour_positive show ?case by (simp add: shrink_window.simps [of known right right run])
next
  case (Suc d)
  show ?case
  proof (cases "ur_at (known ! left) \<le> ur_at (known ! right) - throughput_hour")
    case False
    with Suc.prems show ?thesis by (simp add: shrink_window.simps [of known right left run])
  next
    case True
    then have "left \<noteq> right" using hour_positive by auto
    then have l: "Suc left \<le> right" "left < length known" using Suc.prems(1,2) by simp_all
    have e: "shrink_window known right (Suc left) (run - output_of (known ! left)) = (l, run')"
      using Suc.prems(3) True l by (simp add: shrink_window.simps [of known right left run])
    have d: "d = right - Suc left" using Suc.hyps(2) by simp
    note r = Suc.hyps(1) [OF d Suc.prems(1) l(1) e]
    then have "(\<Sum>i = left..<l. output_of (known ! i)) = output_of (known ! left) + (\<Sum>i = Suc left..<l. output_of (known ! i))"
      by (intro sum.atLeast_Suc_lessThan) simp
    moreover have "\<forall>i. left \<le> i \<and> i < l \<longrightarrow> ur_at (known ! i) \<le> ur_at (known ! right) - throughput_hour"
      using r True by (metis Suc_leI le_neq_implies_less)
    ultimately show ?thesis using r by auto
  qed
qed

definition best_so_far :: "usage_row list \<Rightarrow> nat \<Rightarrow> int \<times> rat option \<Rightarrow> bool" where
  "best_so_far known k best \<longleftrightarrow> 0 \<le> fst best \<and> (\<forall>j<k. hour_sum known j \<le> fst best) \<and>
     (best = (0, None) \<or> (\<exists>j<k. best = (hour_sum known j, Some (ur_at (known ! j)))))"

lemma peak_loop_best:
  assumes "in_time_order known"
  shows "k \<le> length known \<Longrightarrow> left \<le> k \<Longrightarrow> run = (\<Sum>i = left..<k. output_of (known ! i)) \<Longrightarrow>
    (\<forall>i<left. \<forall>j. k \<le> j \<and> j < length known \<longrightarrow> ur_at (known ! i) \<le> ur_at (known ! j) - throughput_hour) \<Longrightarrow> best_so_far known k best \<Longrightarrow>
    best_so_far known (length known) (peak_loop known [k..<length known] left run best)"
proof (induction "length known - k" arbitrary: k left run best)
  case 0
  then show ?case by simp
next
  case (Suc d)
  then have k: "k < length known" by simp
  obtain l run' where s: "shrink_window known k left (run + output_of (known ! k)) = (l, run')" by fastforce
  note sh = shrink_spec [OF k Suc.prems(2) s]
  have gone: "\<forall>i<l. ur_at (known ! i) \<le> ur_at (known ! k) - throughput_hour"
    using sh Suc.prems(4) k by (metis linorder_not_le order_refl)
  have "run' = (\<Sum>i = left..<Suc k. output_of (known ! i)) - (\<Sum>i = left..<l. output_of (known ! i))"
    using sh Suc.prems(2,3) by simp
  moreover have "(\<Sum>i = left..<Suc k. output_of (known ! i)) = (\<Sum>i = left..<l. output_of (known ! i)) + (\<Sum>i = l..<Suc k. output_of (known ! i))"
    using sh by (intro sum.atLeastLessThan_concat [symmetric]) auto
  ultimately have run': "run' = (\<Sum>i = l..<Suc k. output_of (known ! i))" by simp
  have "{i. i \<le> k \<and> ur_at (known ! k) - throughput_hour < ur_at (known ! i)} = {l..<Suc k}"
  proof (intro set_eqI iffI)
    fix i assume "i \<in> {i. i \<le> k \<and> ur_at (known ! k) - throughput_hour < ur_at (known ! i)}"
    with gone show "i \<in> {l..<Suc k}" by (auto simp: not_le [symmetric])
  next
    fix i assume i: "i \<in> {l..<Suc k}"
    have "ur_at (known ! l) \<le> ur_at (known ! i)" using i k by (intro time_order_nth [OF assms]) auto
    with sh i show "i \<in> {i. i \<le> k \<and> ur_at (known ! k) - throughput_hour < ur_at (known ! i)}" by auto
  qed
  then have hs: "run' = hour_sum known k" by (simp add: hour_sum_def run')
  let ?best = "if run' > fst best then (run', Some (ur_at (known ! k))) else best"
  have b: "best_so_far known (Suc k) ?best"
    using Suc.prems(5) by (auto simp: best_so_far_def hs less_Suc_eq)
  have later: "\<forall>i<l. \<forall>j. Suc k \<le> j \<and> j < length known \<longrightarrow> ur_at (known ! i) \<le> ur_at (known ! j) - throughput_hour"
  proof (intro allI impI)
    fix i j assume i: "i < l" and j: "Suc k \<le> j \<and> j < length known"
    have "ur_at (known ! k) \<le> ur_at (known ! j)" using j by (intro time_order_nth [OF assms]) auto
    with gone i show "ur_at (known ! i) \<le> ur_at (known ! j) - throughput_hour" by fastforce
  qed
  have d: "d = length known - Suc k" using Suc.hyps(2) by simp
  have "best_so_far known (length known) (peak_loop known [Suc k..<length known] l run' ?best)"
    by (rule Suc.hyps(1) [OF d]) (use k sh run' later b in auto)
  then show ?case using k s by (simp add: upt_conv_Cons [OF k])
qed

lemma busiest_best: "in_time_order known \<Longrightarrow> best_so_far known (length known) (busiest_hour known)"
  unfolding busiest_hour_def by (rule peak_loop_best) (simp_all add: best_so_far_def)

section \<open>Every hour\<close>

lemma hour_sum_window:
  assumes "in_time_order known" "sound_outputs known" "j < length known"
  shows "hour_sum known j \<le> window_tokens known (ur_at (known ! j))"
proof -
  have "hour_sum known j \<le> (\<Sum>i | i < length known \<and> ur_at (known ! j) - throughput_hour < ur_at (known ! i) \<and> ur_at (known ! i) \<le> ur_at (known ! j).
      output_of (known ! i))"
    unfolding hour_sum_def
    by (rule sum_mono2) (use assms time_order_nth [OF assms(1)] in \<open>auto simp: sound_outputs_def list_all_length\<close>)
  then show ?thesis by (simp add: window_tokens_def sum_list_filter_nth)
qed

lemma window_hour_sum:
  assumes "in_time_order known" "sound_outputs known"
  shows "window_tokens known t = 0 \<or> (\<exists>j<length known. window_tokens known t \<le> hour_sum known j)"
proof (cases "\<exists>i<length known. t - throughput_hour < ur_at (known ! i) \<and> ur_at (known ! i) \<le> t")
  case False
  then have "filter (\<lambda>r. t - throughput_hour < ur_at r \<and> ur_at r \<le> t) known = []" by (auto simp: filter_empty_conv in_set_conv_nth)
  then show ?thesis by (simp add: window_tokens_def)
next
  case True
  let ?in = "{i. i < length known \<and> t - throughput_hour < ur_at (known ! i) \<and> ur_at (known ! i) \<le> t}"
  let ?j = "Max ?in"
  have j: "?j \<in> ?in" using True by (intro Max_in) auto
  have le: "i \<le> ?j" if "i \<in> ?in" for i using that by (intro Max_ge) auto
  have "window_tokens known t = (\<Sum>i\<in>?in. output_of (known ! i))" by (simp add: window_tokens_def sum_list_filter_nth)
  also have "\<dots> \<le> hour_sum known ?j"
    unfolding hour_sum_def
  proof (rule sum_mono2)
    show "?in \<subseteq> {i. i \<le> ?j \<and> ur_at (known ! ?j) - throughput_hour < ur_at (known ! i)}" using le j by fastforce
    show "0 \<le> output_of (known ! i)" if "i \<in> {i. i \<le> ?j \<and> ur_at (known ! ?j) - throughput_hour < ur_at (known ! i)} - ?in" for i
      using that j assms(2) by (auto simp: sound_outputs_def list_all_length)
  qed simp
  finally show ?thesis using j by blast
qed

definition peak_of_hours :: "usage_row list \<Rightarrow> int \<times> rat option \<Rightarrow> bool" where
  "peak_of_hours known best \<longleftrightarrow> (\<forall>t. window_tokens known t \<le> fst best) \<and>
     (case snd best of None \<Rightarrow> fst best = 0 | Some e \<Rightarrow> window_tokens known e = fst best)"

lemma busiest_hour_is_peak:
  assumes "in_time_order known" "sound_outputs known"
  shows "peak_of_hours known (busiest_hour known)"
proof -
  note b = busiest_best [OF assms(1)]
  have all: "window_tokens known t \<le> fst (busiest_hour known)" for t
    using b window_hour_sum [OF assms, of t] by (fastforce simp: best_so_far_def)
  have "case snd (busiest_hour known) of None \<Rightarrow> fst (busiest_hour known) = 0 | Some e \<Rightarrow> window_tokens known e = fst (busiest_hour known)"
  proof (cases "busiest_hour known = (0, None)")
    case False
    with b obtain j where j: "j < length known" "busiest_hour known = (hour_sum known j, Some (ur_at (known ! j)))"
      by (auto simp: best_so_far_def)
    with hour_sum_window [OF assms j(1)] all [of "ur_at (known ! j)"] show ?thesis by simp
  qed simp
  with all show ?thesis by (simp add: peak_of_hours_def)
qed

section \<open>The reported peak\<close>

lemma counted_in_order: "in_time_order (known_rows now f)"
proof -
  have "sorted (map ur_at (counted_rows now f))" by (simp add: counted_rows_def)
  then show ?thesis by (simp add: in_time_order_def known_rows_def sorted_filter)
qed

definition sane_rows :: "throughput \<Rightarrow> bool" where
  "sane_rows f \<longleftrightarrow> list_all (\<lambda>(k, r). 0 \<le> output_of r) (tp_records f) \<and> distinct (map fst (tp_records f)) \<and>
     length (tp_records f) \<le> tp_max f"

lemma token_count_sane: "token_count v = Some n \<Longrightarrow> 0 \<le> n"
  by (simp add: token_count_def split: option.splits if_splits)

lemma usage_row_sane: "0 \<le> output_of (usage_row_of t node row)"
  by (auto simp: usage_row_of_def output_of_def Let_def split: option.split dest: token_count_sane)

lemma repeated_sane: "sane_rows f \<Longrightarrow> sane_rows (repeated_row key prior r f)"
  by (auto simp: sane_rows_def repeated_row_def reject_row_def list_all_iff output_of_def comp_def split_beta split: option.splits)

lemma added_sane:
  "sane_rows f \<Longrightarrow> map_of (tp_records f) key = None \<Longrightarrow> 0 \<le> output_of r \<Longrightarrow> 1 \<le> tp_max f \<Longrightarrow> sane_rows (added_row key r f)"
proof -
  assume f: "sane_rows f" and k: "map_of (tp_records f) key = None" and r: "0 \<le> output_of r" "1 \<le> tp_max f"
  have "key \<notin> set (map fst (tp_records f))" using k by (simp add: map_of_eq_None_iff)
  with f r show ?thesis by (cases "tp_records f") (auto simp: sane_rows_def added_row_def Let_def)
qed

lemma max_kept: "tp_max (accept_usage date row f) = tp_max f"
  by (auto simp: accept_usage_def reject_row_def repeated_row_def added_row_def Let_def split: option.split)

lemma accept_sane: "sane_rows f \<Longrightarrow> 1 \<le> tp_max f \<Longrightarrow> sane_rows (accept_usage date row f)"
  by (auto simp: accept_usage_def repeated_sane added_sane usage_row_sane Let_def sane_rows_def [of "reject_row f"] reject_row_def
      sane_rows_def [of f] split: option.splits if_splits) (auto simp: sane_rows_def)

lemma accepted_sane:
  "sane_rows f \<Longrightarrow> 1 \<le> tp_max f \<Longrightarrow> sane_rows (fold (accept_usage date) rows f)"
  by (induction rows arbitrary: f) (simp_all add: accept_sane max_kept)

lemma snapshot_sane: "sane_rows f \<Longrightarrow> sane_rows (recent_rows now f)"
proof -
  assume f: "sane_rows f"
  let ?P = "\<lambda>(k, r). \<not> ur_at r \<le> now - throughput_day"
  have "length (filter ?P (tp_records f)) \<le> tp_max f" using f by (auto simp: sane_rows_def intro: le_trans [OF length_filter_le])
  moreover have "distinct (map fst (filter ?P (tp_records f)))" using f by (simp add: sane_rows_def distinct_map_filter)
  ultimately show ?thesis using f by (auto simp: sane_rows_def recent_rows_def list_all_iff)
qed

lemma known_sane: "sane_rows f \<Longrightarrow> sound_outputs (known_rows now f)"
  by (auto simp: sane_rows_def sound_outputs_def known_rows_def counted_rows_def list_all_iff)

definition report_of :: "(js \<Rightarrow> rat option) \<Rightarrow> nat \<Rightarrow> js list \<Rightarrow> rat \<Rightarrow> throughput_report \<times> throughput" where
  "report_of date n rows now = throughput_snapshot now (fold (accept_usage date) rows \<lparr>tp_max = n, tp_records = [], tp_evicted = 0, tp_rejected = 0\<rparr>)"

definition peak_reported :: "rat \<Rightarrow> throughput_report \<times> throughput \<Rightarrow> bool" where
  "peak_reported now rep = (case rep of (r, f) \<Rightarrow> let known = known_rows now f in
     peak_of_hours known (fst (busiest_hour known), tr_peak_end r) \<and>
     (case tr_peak_output r of
        Some p \<Rightarrow> p = fst (busiest_hour known)
      | None \<Rightarrow> known = [] \<or> max_safe < fst (busiest_hour known)))"

text \<open>C35: the reported peak hour is the busiest one. After any rows, no hour that ends at any moment has more known
  output tokens, among the completed requests that are kept, than the hour the report names, and that hour has
  exactly the reported number; the number is missing only when no completed request tells its tokens or when it
  is no safe integer any more. The rows kept never exceed their bound, and each request counts once.\<close>

theorem reported_peak_is_the_busiest_hour:
  assumes "1 \<le> n"
  shows "peak_reported now (report_of date n rows now) \<and> sane_rows (snd (report_of date n rows now))"
proof -
  let ?f = "fold (accept_usage date) rows \<lparr>tp_max = n, tp_records = [], tp_evicted = 0, tp_rejected = 0\<rparr>"
  have f: "sane_rows (recent_rows now ?f)"
    by (intro snapshot_sane accepted_sane) (use assms in \<open>simp_all add: sane_rows_def\<close>)
  let ?known = "known_rows now (recent_rows now ?f)"
  have p: "peak_of_hours ?known (busiest_hour ?known)"
    by (rule busiest_hour_is_peak [OF counted_in_order known_sane [OF f]])
  obtain r where rep: "report_of date n rows now = (r, recent_rows now ?f)" "tr_peak_end r = snd (busiest_hour ?known)"
      "tr_peak_output r = (if ?known \<noteq> [] then safe_sum (fst (busiest_hour ?known))
        else if filter ur_complete (counted_rows now (recent_rows now ?f)) \<noteq> [] then None else Some 0)"
    by (simp add: report_of_def throughput_snapshot_def Let_def split_beta)
  have "fst (busiest_hour ?known) = 0" if "?known = []" using that by (simp add: busiest_hour_def)
  with p rep f show ?thesis
    by (auto simp: peak_reported_def Let_def safe_sum_def)
qed

definition sample_row :: "string \<Rightarrow> string \<Rightarrow> int \<Rightarrow> js" where
  "sample_row req time tokens = JObj [(''kind'', JStr ''finish''), (''schema'', jint 1), (''run_id'', JStr ''r''), (''request_id'', JStr req),
     (''node'', JStr ''w''), (''time'', JStr time), (''outcome'', JStr ''complete''), (''usage'', JObj [(''completion_tokens'', jint tokens)])]"

definition sample_date :: "js \<Rightarrow> rat option" where
  "sample_date v = (case v of JStr s \<Rightarrow> Some (of_nat (length s) * 1800000) | _ \<Rightarrow> None)"

lemma reported_peak_is_the_busiest_hour_witness:
  "peak_reported 9000000 (report_of sample_date 2 [sample_row ''a'' ''1'' 5, sample_row ''b'' ''12'' 7] 9000000) \<and>
   sane_rows (snd (report_of sample_date 2 [sample_row ''a'' ''1'' 5, sample_row ''b'' ''12'' 7] 9000000))"
  by (rule reported_peak_is_the_busiest_hour) simp

end
