(* ===== verification/Worker_Config.thy ===== *)
theory Worker_Config
  imports Fleet_Admission Vision_Protection
begin

text \<open>
  The definitions of the model servers an operator registers (\<open>worker-config.mjs\<close>): the validation of one
  definition and of the list, and the edit of the SSH fallbacks. A definition is a JavaScript object; \<open>parse\<close> is the
  constructor \<open>URL\<close>, \<open>None\<close> where it throws. A validated definition is written down field by field in the order
  in which the code adds them.
\<close>

section \<open>Field checks\<close>

datatype worker_error = UnsupportedField | BadWorkerId | BadBackend | BadUrl | UrlNotPlain | NotLocalUrl | BadRouteOnly
  | RouteOnlyContext | BadCapacity | BadContextLength | BadTokenFile | BadAliases | BadSsh | BadFallbacks | FallbackIsPrimary
  | BadRemotePort | SshRequired | BadJournal | BadWorkerList | DuplicateId | DuplicateEndpoint | DuplicateSsh
  | BadEdit | UnknownWorker | NotRemote | FallbacksChanged

definition worker_fields :: "string list" where
  "worker_fields = [''id'', ''url'', ''ssh'', ''ssh_fallbacks'', ''remote_port'', ''telemetry_service'', ''backend'', ''context_length'',
     ''api_key_file'', ''model_aliases'', ''max_concurrent_requests'', ''route_only'']"

definition letter_or_digit :: "char \<Rightarrow> bool" where
  "letter_or_digit c \<longleftrightarrow> word_char c \<and> c \<noteq> CHR ''_''"

text \<open>\<open>/^[a-zA-Z0-9][\w.@-]{0,252}$/\<close>, \<open>/^[a-zA-Z0-9][\w-]{0,63}$/\<close> and \<open>/^[\w@.-]+\.service$/\<close>.\<close>

definition alias_char :: "char \<Rightarrow> bool" where
  "alias_char c \<longleftrightarrow> word_char c \<or> c \<in> set ''.@-''"

definition ssh_alias_text :: "string \<Rightarrow> bool" where
  "ssh_alias_text t \<longleftrightarrow> (case t of [] \<Rightarrow> False | c # cs \<Rightarrow> letter_or_digit c \<and> length cs \<le> 252 \<and> list_all alias_char cs)"

fun valid_ssh_alias :: "js \<Rightarrow> bool" where
  "valid_ssh_alias (JStr t) = ssh_alias_text t"
| "valid_ssh_alias _ = False"

definition worker_id_text :: "string \<Rightarrow> bool" where
  "worker_id_text t \<longleftrightarrow> (case t of [] \<Rightarrow> False | c # cs \<Rightarrow> letter_or_digit c \<and> length cs \<le> 63 \<and> list_all word_or_hyphen cs)"

definition journal_text :: "string \<Rightarrow> bool" where
  "journal_text t \<longleftrightarrow> ends_with ''.service'' t \<and> 8 < length t \<and> list_all alias_char t"

definition absolute_path :: "string \<Rightarrow> bool" where
  "absolute_path p \<longleftrightarrow> begins_with p ''/''"

text \<open>\<open>[...new Set(value)]\<close>: the first of each.\<close>

fun first_of_each :: "'a list \<Rightarrow> 'a list" where
  "first_of_each [] = []"
| "first_of_each (x # xs) = x # filter (\<lambda>y. y \<noteq> x) (first_of_each xs)"

definition fallback_list :: "js \<Rightarrow> js \<Rightarrow> worker_error + js list" where
  "fallback_list value primary = (case value of
     JArr xs \<Rightarrow> if 4 < length xs \<or> list_ex (\<lambda>a. \<not> valid_ssh_alias a) xs then Inl BadFallbacks
       else if primary \<in> set (first_of_each xs) then Inl FallbackIsPrimary
       else Inr (first_of_each xs)
   | _ \<Rightarrow> Inl BadFallbacks)"

fun elements_of :: "js \<Rightarrow> js list" where
  "elements_of (JArr xs) = xs"
| "elements_of _ = []"

definition ssh_targets :: "js \<Rightarrow> js list" where
  "ssh_targets w = (if truthy (jget w ''ssh'') then jget w ''ssh'' # elements_of (jget w ''ssh_fallbacks'') else [])"

text \<open>A positive whole number.\<close>

definition positive_count :: "js \<Rightarrow> bool" where
  "positive_count v \<longleftrightarrow> (case safe_int v of Some n \<Rightarrow> 1 \<le> n | None \<Rightarrow> False)"

definition port_number :: "js \<Rightarrow> bool" where
  "port_number v \<longleftrightarrow> (case safe_int v of Some n \<Rightarrow> 1 \<le> n \<and> n \<le> 65535 | None \<Rightarrow> False)"

section \<open>One definition\<close>

text \<open>A field of the validated definition: left out when the input has none.\<close>

definition checked_field :: "string \<Rightarrow> (js \<Rightarrow> bool) \<Rightarrow> worker_error \<Rightarrow> js \<Rightarrow> worker_error + js_fields" where
  "checked_field k ok err raw = (let v = jget raw k in if v = JUndef then Inr [] else if ok v then Inr [(k, v)] else Inl err)"

definition shape_part :: "js \<Rightarrow> worker_error + js_fields" where
  "shape_part raw =
     (if \<not> is_obj raw \<or> list_ex (\<lambda>k. k \<notin> set worker_fields) (jkeys raw) then Inl UnsupportedField
      else case jget raw ''id'' of
        JStr t \<Rightarrow> if worker_id_text t then Inr [(''id'', JStr t)] else Inl BadWorkerId
      | _ \<Rightarrow> Inl BadWorkerId)"

definition backend_ok :: "js \<Rightarrow> bool" where
  "backend_ok v \<longleftrightarrow> v \<in> {JStr ''ds4'', JStr ''openai''}"

definition local_url :: "url_parts \<Rightarrow> bool" where
  "local_url u \<longleftrightarrow> u_protocol u = ''http:'' \<and> u_host u \<in> set loopback_hosts \<and> u_port u \<noteq> []"

definition worker_url :: "js \<Rightarrow> url_parts \<Rightarrow> string" where
  "worker_url raw u = (if jget raw ''backend'' = JStr ''openai''
     then u_origin u @ (if u_path u = ''/'' then ''/v1'' else drop_last_slash (u_path u))
     else ''http://127.0.0.1:'' @ u_port u)"

definition url_part :: "(js \<Rightarrow> url_parts option) \<Rightarrow> js \<Rightarrow> worker_error + js_fields" where
  "url_part parse raw = (if \<not> (jget raw ''backend'' = JUndef \<or> backend_ok (jget raw ''backend'')) then Inl BadBackend
     else case parse (jget raw ''url'') of
       None \<Rightarrow> Inl BadUrl
     | Some u \<Rightarrow> if u_other u \<or> u_protocol u \<notin> {''http:'', ''https:''} then Inl UrlNotPlain
         else if (jget raw ''backend'' \<noteq> JStr ''openai'' \<or> truthy (jget raw ''ssh'')) \<and>
           (\<not> local_url u \<or> u_path u \<notin> {''/'', ''/v1'', ''/v1/''}) then Inl NotLocalUrl
         else Inr [(''url'', JStr (worker_url raw u))])"

definition route_only_part :: "js \<Rightarrow> worker_error + js_fields" where
  "route_only_part raw = (case checked_field ''route_only'' is_bool BadRouteOnly raw of
     Inl e \<Rightarrow> Inl e
   | Inr fs \<Rightarrow> if jget raw ''route_only'' = JBool True \<and> \<not> positive_count (jget raw ''context_length'') then Inl RouteOnlyContext else Inr fs)"

definition token_file_part :: "js \<Rightarrow> worker_error + js_fields" where
  "token_file_part raw = checked_field ''api_key_file'' (\<lambda>v. jget raw ''backend'' = JStr ''openai'' \<and>
     (case v of JStr p \<Rightarrow> absolute_path p | _ \<Rightarrow> False)) BadTokenFile raw"

fun aliases_ok :: "js \<Rightarrow> bool" where
  "aliases_ok (JObj kvs) = (length kvs \<le> 32 \<and> list_all (\<lambda>(k, v). k \<noteq> [] \<and> length k \<le> 256 \<and>
     (case v of JStr t \<Rightarrow> t \<noteq> [] \<and> length t \<le> 256 | _ \<Rightarrow> False)) kvs)"
| "aliases_ok _ = False"

definition fallbacks_part :: "js \<Rightarrow> worker_error + js_fields" where
  "fallbacks_part raw = (if jget raw ''ssh_fallbacks'' = JUndef then Inr []
     else case fallback_list (jget raw ''ssh_fallbacks'') (jget raw ''ssh'') of
       Inl e \<Rightarrow> Inl e
     | Inr xs \<Rightarrow> Inr (if xs = [] then [] else [(''ssh_fallbacks'', JArr xs)]))"

definition remote_port_part :: "js \<Rightarrow> worker_error + js_fields" where
  "remote_port_part raw = (let port = or_else (jget raw ''remote_port'') (jint 8000) in
     if \<not> port_number port then Inl BadRemotePort
     else Inr (if jget raw ''remote_port'' = JUndef then [] else [(''remote_port'', port)]))"

text \<open>The first refusal, or all fields in order.\<close>

fun all_parts :: "('e + 'a list) list \<Rightarrow> 'e + 'a list" where
  "all_parts [] = Inr []"
| "all_parts (Inl e # ps) = Inl e"
| "all_parts (Inr fs # ps) = (case all_parts ps of Inl e \<Rightarrow> Inl e | Inr gs \<Rightarrow> Inr (fs @ gs))"

definition ssh_part :: "js \<Rightarrow> worker_error + js_fields" where
  "ssh_part raw = (if jget raw ''ssh'' = JUndef
     then if jget raw ''remote_port'' \<noteq> JUndef \<or> jget raw ''ssh_fallbacks'' \<noteq> JUndef then Inl SshRequired else Inr []
     else all_parts [checked_field ''ssh'' valid_ssh_alias BadSsh raw, fallbacks_part raw, remote_port_part raw])"

definition journal_part :: "bool \<Rightarrow> js \<Rightarrow> worker_error + js_fields" where
  "journal_part registration raw = (case jget raw ''telemetry_service'' of
     JUndef \<Rightarrow> Inr (if registration \<or> jget raw ''backend'' = JStr ''openai'' then [(''telemetry_service'', JNull)] else [])
   | JNull \<Rightarrow> Inr [(''telemetry_service'', JNull)]
   | JStr t \<Rightarrow> if journal_text t then Inr [(''telemetry_service'', JStr t)] else Inl BadJournal
   | _ \<Rightarrow> Inl BadJournal)"

definition worker_config :: "(js \<Rightarrow> url_parts option) \<Rightarrow> bool \<Rightarrow> js \<Rightarrow> worker_error + js" where
  "worker_config parse registration raw = map_sum id JObj (all_parts [shape_part raw, url_part parse raw,
     checked_field ''backend'' backend_ok BadBackend raw, route_only_part raw,
     checked_field ''max_concurrent_requests'' positive_count BadCapacity raw,
     checked_field ''context_length'' positive_count BadContextLength raw, token_file_part raw,
     checked_field ''model_aliases'' aliases_ok BadAliases raw, ssh_part raw, journal_part registration raw])"

section \<open>The list\<close>

definition endpoint_of :: "js \<Rightarrow> string" where
  "endpoint_of w = (case jget w ''url'' of
     JStr u \<Rightarrow> if jget w ''backend'' = JStr ''openai'' then drop_last_slash u else drop_last_slash u @ ''/v1''
   | _ \<Rightarrow> [])"

definition remote_port_of :: "js \<Rightarrow> js" where
  "remote_port_of w = or_else (jget w ''remote_port'') (jint 8000)"

definition same_ssh_endpoint :: "js \<Rightarrow> js \<Rightarrow> bool" where
  "same_ssh_endpoint n w \<longleftrightarrow> remote_port_of n = remote_port_of w \<and> list_ex (\<lambda>a. a \<in> set (ssh_targets w)) (ssh_targets n)"

definition assert_unique_worker :: "js list \<Rightarrow> js \<Rightarrow> worker_error option" where
  "assert_unique_worker ws w =
     (if list_ex (\<lambda>n. jget n ''id'' = jget w ''id'') ws then Some DuplicateId
      else if list_ex (\<lambda>n. endpoint_of n = endpoint_of w) ws then Some DuplicateEndpoint
      else if truthy (jget w ''ssh'') \<and> list_ex (\<lambda>n. same_ssh_endpoint n w) ws then Some DuplicateSsh
      else None)"

fun all_configs :: "(js \<Rightarrow> url_parts option) \<Rightarrow> js list \<Rightarrow> worker_error + js list" where
  "all_configs parse [] = Inr []"
| "all_configs parse (x # xs) = (case worker_config parse False x of Inl e \<Rightarrow> Inl e
     | Inr w \<Rightarrow> (case all_configs parse xs of Inl e \<Rightarrow> Inl e | Inr ws \<Rightarrow> Inr (w # ws)))"

fun first_duplicate :: "js list \<Rightarrow> js list \<Rightarrow> worker_error option" where
  "first_duplicate before [] = None"
| "first_duplicate before (w # ws) = (case assert_unique_worker before w of Some e \<Rightarrow> Some e | None \<Rightarrow> first_duplicate (before @ [w]) ws)"

definition worker_configs :: "(js \<Rightarrow> url_parts option) \<Rightarrow> js \<Rightarrow> worker_error + js list" where
  "worker_configs parse raw = (case raw of
     JArr xs \<Rightarrow> (case all_configs parse xs of Inl e \<Rightarrow> Inl e
       | Inr ws \<Rightarrow> (case first_duplicate [] ws of Some e \<Rightarrow> Inl e | None \<Rightarrow> Inr ws))
   | _ \<Rightarrow> Inl BadWorkerList)"

section \<open>The edit of the fallbacks\<close>

fun index_where :: "('a \<Rightarrow> bool) \<Rightarrow> 'a list \<Rightarrow> nat option" where
  "index_where p [] = None"
| "index_where p (x # xs) = (if p x then Some 0 else map_option Suc (index_where p xs))"

definition replace_fallbacks :: "(js \<Rightarrow> url_parts option) \<Rightarrow> js list \<Rightarrow> nat \<Rightarrow> js \<Rightarrow> worker_error + js list" where
  "replace_fallbacks parse ws i input = (let current = ws ! i in
     if \<not> truthy (jget current ''ssh'') then Inl NotRemote
     else case fallback_list (jget input ''expected_ssh_fallbacks'') (jget current ''ssh'') of Inl e \<Rightarrow> Inl e
     | Inr expected \<Rightarrow> (case fallback_list (jget input ''ssh_fallbacks'') (jget current ''ssh'') of Inl e \<Rightarrow> Inl e
       | Inr replacement \<Rightarrow> if expected \<noteq> elements_of (jget current ''ssh_fallbacks'') then Inl FallbacksChanged
         else case worker_config parse False (jset current ''ssh_fallbacks'' (JArr replacement)) of Inl e \<Rightarrow> Inl e
         | Inr candidate \<Rightarrow> (case assert_unique_worker (take i ws @ drop (Suc i) ws) candidate of Some e \<Rightarrow> Inl e
           | None \<Rightarrow> Inr (ws[i := candidate]))))"

definition replace_ssh_fallbacks :: "(js \<Rightarrow> url_parts option) \<Rightarrow> js \<Rightarrow> js \<Rightarrow> worker_error + js list" where
  "replace_ssh_fallbacks parse raw_list input = (case worker_configs parse raw_list of Inl e \<Rightarrow> Inl e
     | Inr ws \<Rightarrow>
       if joined_keys input \<noteq> ''expected_ssh_fallbacks,id,ssh_fallbacks'' \<or> \<not> is_str (jget input ''id'') then Inl BadEdit
       else case index_where (\<lambda>w. jget w ''id'' = jget input ''id'') ws of
         None \<Rightarrow> Inl UnknownWorker
       | Some i \<Rightarrow> replace_fallbacks parse ws i input)"

end
