(* ===== verification/Worker_Registry.thy ===== *)
theory Worker_Registry
  imports Worker_Config Vision_Recovery
begin

text \<open>
  What the validation of worker definitions guarantees: the shape of every accepted definition, the uniqueness of
  identifiers and endpoints, and that the edit of the fallbacks changes nothing else.
\<close>

section \<open>The fields of an accepted definition\<close>

definition field_if :: "string \<Rightarrow> js \<Rightarrow> js_fields" where
  "field_if k v = (if v = JUndef then [] else [(k, v)])"

lemma fget_field_if [simp]: "fget (field_if k v @ fs) j = (if j = k \<and> v \<noteq> JUndef then v else fget fs j)"
  "fget (field_if k v) j = (if j = k then v else JUndef)"
  by (auto simp: field_if_def)

lemma keys_field_if: "set (map fst (field_if k v)) \<subseteq> {k}" "distinct (map fst (field_if k v))"
  by (simp_all add: field_if_def)

lemma checked_field_Inr: "checked_field k ok err raw = Inr fs \<longleftrightarrow> fs = field_if k (jget raw k) \<and> (jget raw k = JUndef \<or> ok (jget raw k))"
  by (auto simp: checked_field_def field_if_def Let_def)

lemma all_parts_Cons: "all_parts (p # ps) = Inr fs \<longleftrightarrow> (\<exists>a b. p = Inr a \<and> all_parts ps = Inr b \<and> fs = a @ b)"
  by (cases p) (auto split: sum.splits)

definition fallbacks_field :: "js \<Rightarrow> js" where
  "fallbacks_field raw = (let xs = first_of_each (elements_of (jget raw ''ssh_fallbacks'')) in if xs = [] then JUndef else JArr xs)"

definition port_field :: "js \<Rightarrow> js" where
  "port_field raw = (if jget raw ''remote_port'' = JUndef then JUndef else or_else (jget raw ''remote_port'') (jint 8000))"

definition journal_field :: "bool \<Rightarrow> js \<Rightarrow> js" where
  "journal_field registration raw = (if jget raw ''telemetry_service'' = JUndef \<and> (registration \<or> jget raw ''backend'' = JStr ''openai'')
     then JNull else jget raw ''telemetry_service'')"

definition fallbacks_fit :: "js \<Rightarrow> js \<Rightarrow> bool" where
  "fallbacks_fit value primary \<longleftrightarrow> (case value of JArr xs \<Rightarrow> length xs \<le> 4 \<and> list_all valid_ssh_alias xs \<and> primary \<notin> set xs | _ \<Rightarrow> False)"

definition ssh_fits :: "js \<Rightarrow> bool" where
  "ssh_fits raw \<longleftrightarrow> (if jget raw ''ssh'' = JUndef then jget raw ''remote_port'' = JUndef \<and> jget raw ''ssh_fallbacks'' = JUndef
     else valid_ssh_alias (jget raw ''ssh'') \<and> port_number (or_else (jget raw ''remote_port'') (jint 8000)) \<and>
       (jget raw ''ssh_fallbacks'' = JUndef \<or> fallbacks_fit (jget raw ''ssh_fallbacks'') (jget raw ''ssh'')))"

definition journal_fits :: "js \<Rightarrow> bool" where
  "journal_fits v \<longleftrightarrow> (case v of JUndef \<Rightarrow> True | JNull \<Rightarrow> True | JStr t \<Rightarrow> journal_text t | _ \<Rightarrow> False)"

definition id_fits :: "js \<Rightarrow> bool" where
  "id_fits v \<longleftrightarrow> (case v of JStr t \<Rightarrow> worker_id_text t | _ \<Rightarrow> False)"

definition token_fits :: "js \<Rightarrow> bool" where
  "token_fits v \<longleftrightarrow> (case v of JStr p \<Rightarrow> absolute_path p | _ \<Rightarrow> False)"

definition url_fits :: "js \<Rightarrow> url_parts \<Rightarrow> bool" where
  "url_fits raw u \<longleftrightarrow> \<not> u_other u \<and> u_protocol u \<in> {''http:'', ''https:''} \<and>
     (jget raw ''backend'' = JStr ''openai'' \<and> \<not> truthy (jget raw ''ssh'') \<or> local_url u \<and> u_path u \<in> {''/'', ''/v1'', ''/v1/''})"

text \<open>Everything the code checks of a definition, in one place.\<close>

definition accepted :: "(js \<Rightarrow> url_parts option) \<Rightarrow> js \<Rightarrow> url_parts \<Rightarrow> bool" where
  "accepted parse raw u \<longleftrightarrow> is_obj raw \<and> set (jkeys raw) \<subseteq> set worker_fields \<and> id_fits (jget raw ''id'') \<and>
     (jget raw ''backend'' = JUndef \<or> backend_ok (jget raw ''backend'')) \<and> parse (jget raw ''url'') = Some u \<and> url_fits raw u \<and>
     (jget raw ''route_only'' = JUndef \<or> is_bool (jget raw ''route_only'')) \<and>
     (jget raw ''route_only'' = JBool True \<longrightarrow> positive_count (jget raw ''context_length'')) \<and>
     (jget raw ''max_concurrent_requests'' = JUndef \<or> positive_count (jget raw ''max_concurrent_requests'')) \<and>
     (jget raw ''context_length'' = JUndef \<or> positive_count (jget raw ''context_length'')) \<and>
     (jget raw ''api_key_file'' = JUndef \<or> jget raw ''backend'' = JStr ''openai'' \<and> token_fits (jget raw ''api_key_file'')) \<and>
     (jget raw ''model_aliases'' = JUndef \<or> aliases_ok (jget raw ''model_aliases'')) \<and> ssh_fits raw \<and>
     journal_fits (jget raw ''telemetry_service'')"

definition config_fields :: "bool \<Rightarrow> js \<Rightarrow> url_parts \<Rightarrow> js_fields" where
  "config_fields registration raw u = (''id'', jget raw ''id'') # (''url'', JStr (worker_url raw u)) # field_if ''backend'' (jget raw ''backend'') @
     field_if ''route_only'' (jget raw ''route_only'') @ field_if ''max_concurrent_requests'' (jget raw ''max_concurrent_requests'') @
     field_if ''context_length'' (jget raw ''context_length'') @ field_if ''api_key_file'' (jget raw ''api_key_file'') @
     field_if ''model_aliases'' (jget raw ''model_aliases'') @ field_if ''ssh'' (jget raw ''ssh'') @
     field_if ''ssh_fallbacks'' (fallbacks_field raw) @ field_if ''remote_port'' (port_field raw) @
     field_if ''telemetry_service'' (journal_field registration raw)"

lemma set_first_of_each [simp]: "set (first_of_each xs) = set xs"
  by (induction xs) auto

lemma distinct_first_of_each [simp]: "distinct (first_of_each xs)"
  by (induction xs) auto

lemma length_first_of_each: "length (first_of_each xs) \<le> length xs"
proof (induction xs)
  case (Cons x xs)
  have "length (filter (\<lambda>y. y \<noteq> x) (first_of_each xs)) \<le> length xs" by (rule order_trans [OF length_filter_le Cons.IH])
  then show ?case by simp
qed simp

lemma first_of_each_distinct: "distinct xs \<Longrightarrow> first_of_each xs = xs"
proof (induction xs)
  case (Cons x xs)
  then show ?case by (auto intro: filter_True)
qed simp

lemma fallback_list_Inr: "fallback_list v p = Inr xs \<longleftrightarrow> fallbacks_fit v p \<and> xs = first_of_each (elements_of v)"
  by (cases v) (auto simp: fallback_list_def fallbacks_fit_def list_all_iff list_ex_iff)

lemma first_of_each_Nil [simp]: "first_of_each xs = [] \<longleftrightarrow> xs = []"
  by (cases xs) auto

lemma shape_part_Inr: "shape_part raw = Inr fs \<longleftrightarrow> is_obj raw \<and> set (jkeys raw) \<subseteq> set worker_fields \<and> id_fits (jget raw ''id'') \<and> fs = [(''id'', jget raw ''id'')]"
  by (auto simp: shape_part_def list_ex_iff id_fits_def split: js.splits)

lemma url_part_Inr: "url_part parse raw = Inr fs \<longleftrightarrow> (jget raw ''backend'' = JUndef \<or> backend_ok (jget raw ''backend'')) \<and>
   (\<exists>u. parse (jget raw ''url'') = Some u \<and> url_fits raw u \<and> fs = [(''url'', JStr (worker_url raw u))])"
  by (auto simp: url_part_def url_fits_def split: option.splits)

lemma route_only_part_Inr: "route_only_part raw = Inr fs \<longleftrightarrow> (jget raw ''route_only'' = JUndef \<or> is_bool (jget raw ''route_only'')) \<and>
   (jget raw ''route_only'' = JBool True \<longrightarrow> positive_count (jget raw ''context_length'')) \<and> fs = field_if ''route_only'' (jget raw ''route_only'')"
  by (auto simp: route_only_part_def checked_field_Inr split: sum.splits) (auto simp: checked_field_def Let_def field_if_def split: if_splits)

lemma token_file_part_Inr: "token_file_part raw = Inr fs \<longleftrightarrow> (jget raw ''api_key_file'' = JUndef \<or> jget raw ''backend'' = JStr ''openai'' \<and>
   token_fits (jget raw ''api_key_file'')) \<and> fs = field_if ''api_key_file'' (jget raw ''api_key_file'')"
  by (auto simp: token_file_part_def checked_field_Inr token_fits_def)

lemma fallbacks_part_Inr: "fallbacks_part raw = Inr fs \<longleftrightarrow> (jget raw ''ssh_fallbacks'' = JUndef \<or> fallbacks_fit (jget raw ''ssh_fallbacks'') (jget raw ''ssh'')) \<and>
   fs = field_if ''ssh_fallbacks'' (fallbacks_field raw)"
proof (cases "fallback_list (jget raw ''ssh_fallbacks'') (jget raw ''ssh'')")
  case (Inl e)
  then have "\<not> fallbacks_fit (jget raw ''ssh_fallbacks'') (jget raw ''ssh'')" using fallback_list_Inr by (metis Inl_Inr_False)
  then show ?thesis using Inl by (auto simp: fallbacks_part_def fallbacks_field_def field_if_def)
next
  case (Inr xs)
  then show ?thesis using fallback_list_Inr [of "jget raw ''ssh_fallbacks''" "jget raw ''ssh''" xs]
    by (auto simp: fallbacks_part_def fallbacks_field_def field_if_def)
qed

lemma remote_port_part_Inr: "remote_port_part raw = Inr fs \<longleftrightarrow> port_number (or_else (jget raw ''remote_port'') (jint 8000)) \<and> fs = field_if ''remote_port'' (port_field raw)"
  by (auto simp: remote_port_part_def Let_def port_field_def field_if_def or_else_def jint_def)

lemma ssh_part_Inr: "ssh_part raw = Inr fs \<longleftrightarrow> ssh_fits raw \<and> fs = field_if ''ssh'' (jget raw ''ssh'') @
   field_if ''ssh_fallbacks'' (fallbacks_field raw) @ field_if ''remote_port'' (port_field raw)"
proof (cases "jget raw ''ssh'' = JUndef")
  case True
  then show ?thesis by (auto simp: ssh_part_def ssh_fits_def field_if_def fallbacks_field_def port_field_def)
next
  case False
  then show ?thesis
    by (auto simp: ssh_part_def ssh_fits_def all_parts_Cons checked_field_Inr fallbacks_part_Inr remote_port_part_Inr)
qed

lemma journal_part_Inr: "journal_part r raw = Inr fs \<longleftrightarrow> journal_fits (jget raw ''telemetry_service'') \<and> fs = field_if ''telemetry_service'' (journal_field r raw)"
  by (auto simp: journal_part_def journal_fits_def journal_field_def field_if_def split: js.splits)

text \<open>A part that is accepted under one condition, with one result.\<close>

definition part_is :: "('e + 'a list) \<Rightarrow> bool \<times> 'a list \<Rightarrow> bool" where
  "part_is p c \<longleftrightarrow> (\<forall>a. p = Inr a \<longleftrightarrow> fst c \<and> a = snd c)"

lemma all_parts_are: "list_all2 part_is ps cs \<Longrightarrow> all_parts ps = Inr fs \<longleftrightarrow> list_all fst cs \<and> fs = concat (map snd cs)"
proof (induction arbitrary: fs rule: list_all2_induct)
  case (Cons p ps c cs)
  then show ?case by (auto simp: all_parts_Cons part_is_def)
qed auto

lemma url_part_one: "parse (jget raw ''url'') = Some u \<Longrightarrow> url_part parse raw = Inr fs \<longleftrightarrow>
   ((jget raw ''backend'' = JUndef \<or> backend_ok (jget raw ''backend'')) \<and> url_fits raw u) \<and> fs = [(''url'', JStr (worker_url raw u))]"
  by (auto simp: url_part_Inr)

lemma worker_config_Inr: "worker_config parse r raw = Inr w \<longleftrightarrow> (\<exists>u. accepted parse raw u \<and> w = JObj (config_fields r raw u))"
proof (cases "parse (jget raw ''url'')")
  case None
  then have "url_part parse raw \<noteq> Inr fs" for fs by (auto simp: url_part_Inr)
  then have "worker_config parse r raw \<noteq> Inr w" unfolding worker_config_def
    by (cases "shape_part raw"; cases "url_part parse raw") auto
  then show ?thesis using None by (simp add: accepted_def)
next
  case (Some u)
  have part: "map_sum id JObj x = Inr w \<longleftrightarrow> (\<exists>fs. x = Inr fs \<and> w = JObj fs)" for x :: "worker_error + js_fields"
    by (cases x) auto
  let ?f = "\<lambda>k ok. (jget raw k = JUndef \<or> ok (jget raw k), field_if k (jget raw k))"
  have parts: "list_all2 part_is [shape_part raw, url_part parse raw,
     checked_field ''backend'' backend_ok BadBackend raw, route_only_part raw,
     checked_field ''max_concurrent_requests'' positive_count BadCapacity raw,
     checked_field ''context_length'' positive_count BadContextLength raw, token_file_part raw,
     checked_field ''model_aliases'' aliases_ok BadAliases raw, ssh_part raw, journal_part r raw]
    [(is_obj raw \<and> set (jkeys raw) \<subseteq> set worker_fields \<and> id_fits (jget raw ''id''), [(''id'', jget raw ''id'')]),
     ((jget raw ''backend'' = JUndef \<or> backend_ok (jget raw ''backend'')) \<and> url_fits raw u, [(''url'', JStr (worker_url raw u))]),
     ?f ''backend'' backend_ok,
     ((jget raw ''route_only'' = JUndef \<or> is_bool (jget raw ''route_only'')) \<and>
      (jget raw ''route_only'' = JBool True \<longrightarrow> positive_count (jget raw ''context_length'')), field_if ''route_only'' (jget raw ''route_only'')),
     ?f ''max_concurrent_requests'' positive_count, ?f ''context_length'' positive_count,
     (jget raw ''api_key_file'' = JUndef \<or> jget raw ''backend'' = JStr ''openai'' \<and> token_fits (jget raw ''api_key_file''),
      field_if ''api_key_file'' (jget raw ''api_key_file'')),
     ?f ''model_aliases'' aliases_ok,
     (ssh_fits raw, field_if ''ssh'' (jget raw ''ssh'') @ field_if ''ssh_fallbacks'' (fallbacks_field raw) @ field_if ''remote_port'' (port_field raw)),
     (journal_fits (jget raw ''telemetry_service''), field_if ''telemetry_service'' (journal_field r raw))]"
    unfolding list.rel_inject list_all2_Nil part_is_def fst_conv snd_conv shape_part_Inr url_part_one [of parse raw u, OF Some]
      checked_field_Inr route_only_part_Inr token_file_part_Inr ssh_part_Inr journal_part_Inr by blast
  have one: "(\<exists>fs. (P \<and> fs = F) \<and> w = JObj fs) \<longleftrightarrow> P \<and> w = JObj F" for P F by blast
  have "worker_config parse r raw = Inr w \<longleftrightarrow> accepted parse raw u \<and> w = JObj (config_fields r raw u)"
    unfolding worker_config_def part all_parts_are [OF parts] accepted_def config_fields_def
    by (simp only: list.pred_inject fst_conv snd_conv list.map concat.simps append_Cons append_Nil append_Nil2 append_assoc Some simp_thms one)
      (rule iffI; elim conjE; intro conjI; assumption)
  then show ?thesis using Some by (auto simp: accepted_def)
qed

section \<open>Accepted definitions are well-formed\<close>

definition listed :: "js \<Rightarrow> bool" where
  "listed v \<longleftrightarrow> (case v of JUndef \<Rightarrow> True | JArr xs \<Rightarrow> xs \<noteq> [] \<and> distinct xs | _ \<Rightarrow> False)"

definition local_text :: "js \<Rightarrow> bool" where
  "local_text v \<longleftrightarrow> (case v of JStr t \<Rightarrow> begins_with t ''http://127.0.0.1:'' \<and> 17 < length t | _ \<Rightarrow> False)"

definition typed_worker :: "js \<Rightarrow> bool" where
  "typed_worker w \<longleftrightarrow> is_obj w \<and> distinct (jkeys w) \<and> set (jkeys w) \<subseteq> set worker_fields \<and> id_fits (jget w ''id'') \<and>
     is_str (jget w ''url'') \<and> (jget w ''backend'' = JStr ''openai'' \<or> local_text (jget w ''url'')) \<and>
     (jget w ''backend'' = JUndef \<or> backend_ok (jget w ''backend'')) \<and>
     (jget w ''route_only'' = JUndef \<or> is_bool (jget w ''route_only'')) \<and>
     (jget w ''route_only'' = JBool True \<longrightarrow> positive_count (jget w ''context_length'')) \<and>
     (jget w ''max_concurrent_requests'' = JUndef \<or> positive_count (jget w ''max_concurrent_requests'')) \<and>
     (jget w ''context_length'' = JUndef \<or> positive_count (jget w ''context_length'')) \<and>
     (jget w ''api_key_file'' = JUndef \<or> jget w ''backend'' = JStr ''openai'' \<and> token_fits (jget w ''api_key_file'')) \<and>
     (jget w ''model_aliases'' = JUndef \<or> aliases_ok (jget w ''model_aliases'')) \<and>
     ssh_fits w \<and> listed (jget w ''ssh_fallbacks'') \<and> journal_fits (jget w ''telemetry_service'')"

lemma fget_config: "fget (config_fields r raw u) k =
    (if k = ''id'' then jget raw ''id'' else if k = ''url'' then JStr (worker_url raw u)
     else if k = ''ssh_fallbacks'' then fallbacks_field raw else if k = ''remote_port'' then port_field raw
     else if k = ''telemetry_service'' then journal_field r raw
     else if k \<in> set worker_fields then jget raw k else JUndef)"
proof (cases "k \<in> set worker_fields")
  case True
  then have "k = ''id'' \<or> k = ''url'' \<or> k = ''ssh'' \<or> k = ''ssh_fallbacks'' \<or> k = ''remote_port'' \<or> k = ''telemetry_service'' \<or> k = ''backend'' \<or>
     k = ''context_length'' \<or> k = ''api_key_file'' \<or> k = ''model_aliases'' \<or> k = ''max_concurrent_requests'' \<or> k = ''route_only''"
    by (simp only: worker_fields_def list.set insert_iff empty_iff simp_thms)
  then show ?thesis by (elim disjE; hypsubst) (simp_all add: config_fields_def worker_fields_def)
next
  case False
  then have "k \<noteq> ''id''" "k \<noteq> ''url''" "k \<noteq> ''ssh''" "k \<noteq> ''ssh_fallbacks''" "k \<noteq> ''remote_port''" "k \<noteq> ''telemetry_service''" "k \<noteq> ''backend''"
     "k \<noteq> ''context_length''" "k \<noteq> ''api_key_file''" "k \<noteq> ''model_aliases''" "k \<noteq> ''max_concurrent_requests''" "k \<noteq> ''route_only''"
    by (simp_all add: worker_fields_def)
  then show ?thesis using False by (simp add: config_fields_def)
qed

lemma keys_config: "distinct (map fst (config_fields r raw u))" "set (map fst (config_fields r raw u)) \<subseteq> set worker_fields"
  by (simp_all add: config_fields_def field_if_def worker_fields_def)

lemma in_worker_fields [simp]: "''backend'' \<in> set worker_fields" "''route_only'' \<in> set worker_fields" "''ssh'' \<in> set worker_fields"
  "''max_concurrent_requests'' \<in> set worker_fields" "''context_length'' \<in> set worker_fields" "''api_key_file'' \<in> set worker_fields"
  "''model_aliases'' \<in> set worker_fields"
  by (simp_all add: worker_fields_def)

lemma valid_alias_shape: "valid_ssh_alias v \<Longrightarrow> truthy v \<and> v \<noteq> JUndef"
  by (cases v) (auto simp: ssh_alias_text_def)

lemma port_field_or: "port_number (or_else (jget raw ''remote_port'') (jint 8000)) \<Longrightarrow>
   or_else (port_field raw) (jint 8000) = or_else (jget raw ''remote_port'') (jint 8000) \<and> port_field raw \<noteq> JNull"
  by (cases "jget raw ''remote_port''") (auto simp: port_field_def or_else_def port_number_def jint_def)

lemma fallbacks_kept: "fallbacks_fit v p \<Longrightarrow> fallbacks_fit (JArr (first_of_each (elements_of v))) p"
  using length_first_of_each by (cases v) (auto simp: fallbacks_fit_def list_all_iff intro: order_trans)

lemma ssh_kept: "ssh_fits raw \<Longrightarrow> ssh_fits (JObj (config_fields r raw u)) \<and> listed (fallbacks_field raw)"
proof (cases "jget raw ''ssh'' = JUndef")
  case False
  assume "ssh_fits raw"
  with False have "valid_ssh_alias (jget raw ''ssh'')" "port_number (or_else (jget raw ''remote_port'') (jint 8000))"
    "jget raw ''ssh_fallbacks'' = JUndef \<or> fallbacks_fit (jget raw ''ssh_fallbacks'') (jget raw ''ssh'')" by (simp_all add: ssh_fits_def)
  then show ?thesis using False port_field_or [of raw] fallbacks_kept
    by (auto simp: ssh_fits_def fget_config fallbacks_field_def Let_def listed_def)
qed (auto simp: ssh_fits_def fget_config fallbacks_field_def port_field_def listed_def)

lemma accepted_is_typed: "accepted parse raw u \<Longrightarrow> typed_worker (JObj (config_fields r raw u))"
  using ssh_kept [of raw r u] keys_config [of r raw u]
  by (simp add: typed_worker_def accepted_def fget_config journal_field_def journal_fits_def local_text_def worker_url_def url_fits_def local_url_def
      begins_with_def backend_ok_def split: if_splits) auto

definition pairwise_apart :: "js list \<Rightarrow> bool" where
  "pairwise_apart ws \<longleftrightarrow> distinct (map (\<lambda>w. jget w ''id'') ws) \<and> distinct (map endpoint_of ws) \<and> sorted_wrt (\<lambda>a b. \<not> same_ssh_endpoint a b) ws"

definition registry_ok :: "js list \<Rightarrow> bool" where
  "registry_ok ws \<longleftrightarrow> list_all typed_worker ws \<and> pairwise_apart ws"

lemma same_ssh_sym: "same_ssh_endpoint a b = same_ssh_endpoint b a"
  by (auto simp: same_ssh_endpoint_def list_ex_iff)

lemma same_ssh_needs: "same_ssh_endpoint n w \<Longrightarrow> truthy (jget w ''ssh'')"
  by (auto simp: same_ssh_endpoint_def list_ex_iff ssh_targets_def split: if_splits)

lemma assert_unique_None: "assert_unique_worker ws w = None \<longleftrightarrow> jget w ''id'' \<notin> (\<lambda>n. jget n ''id'') ` set ws \<and>
   endpoint_of w \<notin> endpoint_of ` set ws \<and> (\<forall>n\<in>set ws. \<not> same_ssh_endpoint n w)"
  using same_ssh_needs unfolding assert_unique_worker_def list_ex_iff image_iff by (simp, metis)

lemma apart_snoc: "pairwise_apart (ws @ [w]) \<longleftrightarrow> pairwise_apart ws \<and> assert_unique_worker ws w = None"
  by (auto simp: pairwise_apart_def assert_unique_None sorted_wrt_append)

lemma first_duplicate_None: "first_duplicate ws ns = None \<Longrightarrow> pairwise_apart ws \<Longrightarrow> pairwise_apart (ws @ ns)"
proof (induction ns arbitrary: ws)
  case (Cons n ns)
  then have "assert_unique_worker ws n = None" "first_duplicate (ws @ [n]) ns = None" by (auto split: option.splits)
  then show ?case using Cons.IH [of "ws @ [n]"] Cons.prems by (simp add: apart_snoc)
qed simp

lemma all_configs_Inr: "all_configs parse xs = Inr ws \<Longrightarrow> list_all2 (\<lambda>x w. worker_config parse False x = Inr w) xs ws"
  by (induction xs arbitrary: ws) (auto split: sum.splits)

lemma worker_configs_Inr:
  assumes "worker_configs parse raw = Inr ws"
  shows "list_all (\<lambda>w. \<exists>x. worker_config parse False x = Inr w) ws" "pairwise_apart ws"
proof -
  from assms obtain xs where xs: "all_configs parse xs = Inr ws" "first_duplicate [] ws = None"
    by (auto simp: worker_configs_def split: js.splits sum.splits option.splits)
  show "list_all (\<lambda>w. \<exists>x. worker_config parse False x = Inr w) ws"
    using all_configs_Inr [OF xs(1)] by (induction rule: list_all2_induct) auto
  show "pairwise_apart ws" using first_duplicate_None [OF xs(2)] by (simp add: pairwise_apart_def)
qed

lemma typed_config: "worker_config parse r x = Inr w \<Longrightarrow> typed_worker w"
  by (auto simp: worker_config_Inr accepted_is_typed)

lemma worker_configs_ok: "worker_configs parse raw = Inr ws \<Longrightarrow> registry_ok ws"
  using worker_configs_Inr [of parse raw ws] typed_config by (auto simp: registry_ok_def list_all_iff)

text \<open>C36: every list of workers that the configuration accepts is well-formed: each definition has only the known
  fields, each of its type and range, a worker of the engine's own protocol is reached on the loopback address only, and no two
  workers share an identifier, an endpoint or a remote machine and port. A single registration is well-formed too.\<close>

theorem accepted_workers_are_well_formed:
  "(case worker_configs parse raw of Inl e \<Rightarrow> True | Inr ws \<Rightarrow> registry_ok ws) \<and>
   (case worker_config parse r x of Inl e \<Rightarrow> True | Inr w \<Rightarrow> typed_worker w)"
  using worker_configs_ok typed_config by (auto split: sum.splits)

section \<open>The edit changes the fallbacks only\<close>

text \<open>What the edit relies on of \<open>URL\<close>: a local address that the validation wrote down parses to what it was
  written from.\<close>

definition url_law :: "(js \<Rightarrow> url_parts option) \<Rightarrow> bool" where
  "url_law parse \<longleftrightarrow> (\<forall>v u. parse v = Some u \<longrightarrow> \<not> u_other u \<longrightarrow> local_url u \<longrightarrow>
     parse (JStr (''http://127.0.0.1:'' @ u_port u)) = Some \<lparr>u_protocol = ''http:'', u_origin = ''http://127.0.0.1:'' @ u_port u,
       u_host = ''127.0.0.1'', u_port = u_port u, u_path = ''/'', u_other = False\<rparr> \<and>
     parse (JStr (u_origin u @ ''/v1'')) = Some (u\<lparr>u_path := ''/v1''\<rparr>))"

definition only_fallbacks :: "js \<Rightarrow> js \<Rightarrow> js \<Rightarrow> bool" where
  "only_fallbacks input w w' \<longleftrightarrow> (\<forall>k. k \<noteq> ''ssh_fallbacks'' \<longrightarrow> jget w' k = jget w k) \<and>
     elements_of (jget w ''ssh_fallbacks'') = first_of_each (elements_of (jget input ''expected_ssh_fallbacks'')) \<and>
     elements_of (jget w' ''ssh_fallbacks'') = first_of_each (elements_of (jget input ''ssh_fallbacks''))"

text \<open>A validated definition with other fallbacks validates to itself with those fallbacks.\<close>

lemma revalidated:
  assumes "url_law parse" "accepted parse raw u" "truthy (jget raw ''ssh'')"
    "worker_config parse False (jset (JObj (config_fields False raw u)) ''ssh_fallbacks'' (JArr xs)) = Inr w'" "distinct xs"
  shows "(\<forall>k. k \<noteq> ''ssh_fallbacks'' \<longrightarrow> jget w' k = jget (JObj (config_fields False raw u)) k)" "elements_of (jget w' ''ssh_fallbacks'') = xs"
proof -
  let ?c = "jset (JObj (config_fields False raw u)) ''ssh_fallbacks'' (JArr xs)"
  from assms(4) obtain u' where u': "accepted parse ?c u'" "w' = JObj (config_fields False ?c u')" by (auto simp: worker_config_Inr)
  have get: "jget ?c k = (if k = ''ssh_fallbacks'' then JArr xs else fget (config_fields False raw u) k)" for k by (simp add: jget_jset)
  have fits: "url_fits raw u" "ssh_fits raw" "parse (jget raw ''url'') = Some u" using assms(2) by (simp_all add: accepted_def)
  have "jget raw ''ssh'' \<noteq> JUndef" using assms(3) by auto
  with fits(2) have port: "port_number (or_else (jget raw ''remote_port'') (jint 8000))" by (simp add: ssh_fits_def)
  have u: "\<not> u_other u" "local_url u" "u_path u \<in> {''/'', ''/v1'', ''/v1/''}" "parse (jget raw ''url'') = Some u"
    using fits(1,3) assms(3) by (simp_all add: url_fits_def)
  have law: "parse (JStr (''http://127.0.0.1:'' @ u_port u)) = Some \<lparr>u_protocol = ''http:'', u_origin = ''http://127.0.0.1:'' @ u_port u,
       u_host = ''127.0.0.1'', u_port = u_port u, u_path = ''/'', u_other = False\<rparr>"
    "parse (JStr (u_origin u @ ''/v1'')) = Some (u\<lparr>u_path := ''/v1''\<rparr>)" using assms(1) u unfolding url_law_def by blast+
  have parsed: "parse (JStr (worker_url raw u)) = Some u'" using u'(1) by (simp add: accepted_def get fget_config)
  have backend: "jget ?c ''backend'' = jget raw ''backend''" by (simp add: get fget_config)
  have "worker_url ?c u' = worker_url raw u"
  proof (cases "jget raw ''backend'' = JStr ''openai''")
    case True
    then have url: "worker_url raw u = u_origin u @ ''/v1''" using u(3) by (auto simp: worker_url_def drop_last_slash_def)
    with parsed law(2) have "u' = u\<lparr>u_path := ''/v1''\<rparr>" by (simp only: option.inject)
    then show ?thesis unfolding url by (simp add: worker_url_def backend True drop_last_slash_def)
  next
    case False
    then have url: "worker_url raw u = ''http://127.0.0.1:'' @ u_port u" by (simp add: worker_url_def)
    with parsed law(1) have "u_port u' = u_port u" by (simp only: option.inject) (metis url_parts.select_convs(4))
    then show ?thesis unfolding url by (simp add: worker_url_def backend False)
  qed
  moreover have "port_field ?c = port_field raw"
    using port_field_or [OF port] by (auto simp: port_field_def get fget_config or_else_def)
  moreover have "journal_field False ?c = journal_field False raw" by (auto simp: journal_field_def get fget_config)
  ultimately show "\<forall>k. k \<noteq> ''ssh_fallbacks'' \<longrightarrow> jget w' k = jget (JObj (config_fields False raw u)) k"
    unfolding u'(2) by (simp add: fget_config get)
  show "elements_of (jget w' ''ssh_fallbacks'') = xs"
    unfolding u'(2) using assms(5) by (simp add: fget_config fallbacks_field_def get first_of_each_distinct Let_def)
qed

lemma index_where_Some: "index_where p xs = Some i \<Longrightarrow> i < length xs \<and> p (xs ! i)"
  by (induction xs arbitrary: i) (auto split: if_splits)

text \<open>Replacing one definition by another that no other conflicts with.\<close>

lemma apart_replaced:
  assumes ws: "pairwise_apart ws" and i: "i < length ws" and w: "assert_unique_worker (take i ws @ drop (Suc i) ws) w = None"
  shows "pairwise_apart (ws[i := w])"
proof -
  let ?ok = "\<lambda>a b. jget a ''id'' \<noteq> jget b ''id'' \<and> endpoint_of a \<noteq> endpoint_of b \<and> \<not> same_ssh_endpoint a b"
  have ok: "pairwise_apart vs \<longleftrightarrow> sorted_wrt ?ok vs" for vs
    by (induction vs) (auto simp: pairwise_apart_def image_iff)
  have "sorted_wrt ?ok (take i ws @ ws ! i # drop (Suc i) ws)" using ws ok id_take_nth_drop [OF i] by simp
  moreover have "?ok n w" "?ok w n" if "n \<in> set (take i ws @ drop (Suc i) ws)" for n
    using w that same_ssh_sym [of w n] unfolding assert_unique_None by (metis imageI)+
  then have "\<forall>n\<in>set (take i ws). ?ok n w" "\<forall>n\<in>set (drop (Suc i) ws). ?ok w n" by simp_all
  ultimately have "sorted_wrt ?ok (take i ws @ w # drop (Suc i) ws)" by (simp add: sorted_wrt_append)
  then show ?thesis using i ok by (simp add: upd_conv_take_nth_drop)
qed

lemma edit_result:
  assumes "replace_ssh_fallbacks parse raw input = Inr ws'" "worker_configs parse raw = Inr ws"
  obtains i w where "i < length ws" "jget (ws ! i) ''id'' = jget input ''id''" "truthy (jget (ws ! i) ''ssh'')"
    "elements_of (jget (ws ! i) ''ssh_fallbacks'') = first_of_each (elements_of (jget input ''expected_ssh_fallbacks''))"
    "worker_config parse False (jset (ws ! i) ''ssh_fallbacks'' (JArr (first_of_each (elements_of (jget input ''ssh_fallbacks''))))) = Inr w"
    "assert_unique_worker (take i ws @ drop (Suc i) ws) w = None" "ws' = ws[i := w]"
proof -
  from assms obtain i where i: "index_where (\<lambda>w. jget w ''id'' = jget input ''id'') ws = Some i" "replace_fallbacks parse ws i input = Inr ws'"
    by (auto simp: replace_ssh_fallbacks_def split: if_splits option.splits)
  from i(2) obtain es rs w where "truthy (jget (ws ! i) ''ssh'')"
    "fallback_list (jget input ''expected_ssh_fallbacks'') (jget (ws ! i) ''ssh'') = Inr es"
    "fallback_list (jget input ''ssh_fallbacks'') (jget (ws ! i) ''ssh'') = Inr rs" "es = elements_of (jget (ws ! i) ''ssh_fallbacks'')"
    "worker_config parse False (jset (ws ! i) ''ssh_fallbacks'' (JArr rs)) = Inr w"
    "assert_unique_worker (take i ws @ drop (Suc i) ws) w = None" "ws' = ws[i := w]"
    by (auto simp: replace_fallbacks_def Let_def split: if_splits option.splits sum.splits)
  then show ?thesis using that [of i w] index_where_Some [OF i(1)] by (simp add: fallback_list_Inr)
qed

text \<open>C37: the edit of the SSH fallbacks is management only. It replaces the fallbacks of the named worker, which still were the
  expected ones, by the requested ones; every other field of that worker and every other worker stay as they are, and
  the list stays well-formed, without two workers for one remote machine and port.\<close>

theorem fallback_edit_is_management_only:
  assumes "url_law parse" "replace_ssh_fallbacks parse raw input = Inr ws'" "worker_configs parse raw = Inr ws"
  shows "registry_ok ws' \<and> (\<exists>i < length ws. ws' = ws[i := ws' ! i] \<and> jget (ws ! i) ''id'' = jget input ''id'' \<and> only_fallbacks input (ws ! i) (ws' ! i))"
proof -
  from edit_result [OF assms(2,3)] obtain i w where i: "i < length ws" "jget (ws ! i) ''id'' = jget input ''id''" "truthy (jget (ws ! i) ''ssh'')"
    "elements_of (jget (ws ! i) ''ssh_fallbacks'') = first_of_each (elements_of (jget input ''expected_ssh_fallbacks''))" and
    w: "worker_config parse False (jset (ws ! i) ''ssh_fallbacks'' (JArr (first_of_each (elements_of (jget input ''ssh_fallbacks''))))) = Inr w"
    "assert_unique_worker (take i ws @ drop (Suc i) ws) w = None" "ws' = ws[i := w]" .
  have old: "registry_ok ws" using worker_configs_ok assms(3) .
  obtain x u where x: "accepted parse x u" "ws ! i = JObj (config_fields False x u)"
    using worker_configs_Inr(1) [OF assms(3)] i(1) by (auto simp: list_all_length worker_config_Inr)
  have ssh: "truthy (jget x ''ssh'')" using i(3) x(2) by (simp add: fget_config)
  have "only_fallbacks input (ws ! i) w"
    unfolding only_fallbacks_def using i(4) revalidated [OF assms(1) x(1) ssh w(1) [unfolded x(2)]] x(2) by simp
  moreover have "registry_ok ws'"
    using old w i(1) typed_config [OF w(1)] apart_replaced by (auto simp: registry_ok_def list_all_length nth_list_update)
  ultimately show ?thesis using i(1,2) w(3) by (intro conjI exI [of _ i]) simp_all
qed

text \<open>An address on the loopback host, the only kind this reader knows.\<close>

definition sample_url :: "js \<Rightarrow> url_parts option" where
  "sample_url v = (case v of
     JStr t \<Rightarrow> if begins_with t ''http://127.0.0.1:'' then
         let port = takeWhile (\<lambda>c. c \<noteq> CHR ''/'') (drop 17 t); path = drop (17 + length port) t in
         Some \<lparr>u_protocol = ''http:'', u_origin = ''http://127.0.0.1:'' @ port, u_host = ''127.0.0.1'', u_port = port,
           u_path = (if path = [] then ''/'' else path), u_other = False\<rparr>
       else None
   | _ \<Rightarrow> None)"

lemma sample_url_law: "url_law sample_url"
proof -
  have one: "sample_url (JStr (''http://127.0.0.1:'' @ p @ q)) = Some \<lparr>u_protocol = ''http:'', u_origin = ''http://127.0.0.1:'' @ p, u_host = ''127.0.0.1'',
      u_port = p, u_path = (if q = [] then ''/'' else q), u_other = False\<rparr>"
    if "list_all (\<lambda>c. c \<noteq> CHR ''/'') p" "q = [] \<or> q = ''/v1''" for p q
  proof -
    have "takeWhile (\<lambda>c. c \<noteq> CHR ''/'') (p @ q) = p @ takeWhile (\<lambda>c. c \<noteq> CHR ''/'') q"
      by (rule takeWhile_append2) (use that(1) in \<open>simp add: list_all_iff\<close>)
    moreover have "takeWhile (\<lambda>c. c \<noteq> CHR ''/'') q = []" using that(2) by auto
    ultimately have "takeWhile (\<lambda>c. c \<noteq> CHR ''/'') (p @ q) = p" by simp
    moreover have "drop (17 + length p) (''http://127.0.0.1:'' @ p @ q) = drop (length p) (drop 17 (''http://127.0.0.1:'' @ p @ q))"
      by (simp only: drop_drop add.commute)
    then have "drop (17 + length p) (''http://127.0.0.1:'' @ p @ q) = q" by simp
    ultimately show ?thesis by (simp add: sample_url_def begins_with_def)
  qed
  have plain: "list_all (\<lambda>c. c \<noteq> CHR ''/'') (takeWhile (\<lambda>c. c \<noteq> CHR ''/'') t)" for t by (auto simp: list_all_iff dest: set_takeWhileD)
  show ?thesis unfolding url_law_def
  proof (intro allI impI)
    fix v u assume "sample_url v = Some u"
    then have p: "list_all (\<lambda>c. c \<noteq> CHR ''/'') (u_port u)" "u_origin u = ''http://127.0.0.1:'' @ u_port u" "u_protocol u = ''http:''"
      "u_host u = ''127.0.0.1''" "u_other u = False" by (auto simp: sample_url_def Let_def plain split: js.splits if_splits)
    then show "sample_url (JStr (''http://127.0.0.1:'' @ u_port u)) = Some \<lparr>u_protocol = ''http:'', u_origin = ''http://127.0.0.1:'' @ u_port u,
         u_host = ''127.0.0.1'', u_port = u_port u, u_path = ''/'', u_other = False\<rparr> \<and>
       sample_url (JStr (u_origin u @ ''/v1'')) = Some (u\<lparr>u_path := ''/v1''\<rparr>)"
      using one [OF p(1), of "[]"] one [OF p(1), of "''/v1''"] by simp
  qed
qed

definition sample_workers :: js where
  "sample_workers = JArr [JObj [(''id'', JStr ''a''), (''url'', JStr ''http://127.0.0.1:8001/''), (''ssh'', JStr ''box'')],
     JObj [(''id'', JStr ''b''), (''url'', JStr ''http://127.0.0.1:8002''), (''ssh'', JStr ''box''), (''remote_port'', jint 8001)]]"

definition sample_edit :: js where
  "sample_edit = JObj [(''id'', JStr ''a''), (''expected_ssh_fallbacks'', JArr []), (''ssh_fallbacks'', JArr [JStr ''lan'', JStr ''lan''])]"

definition sample_first :: js where
  "sample_first = JObj [(''id'', JStr ''a''), (''url'', JStr ''http://127.0.0.1:8001''), (''ssh'', JStr ''box'')]"

definition sample_second :: js where
  "sample_second = JObj [(''id'', JStr ''b''), (''url'', JStr ''http://127.0.0.1:8002''), (''ssh'', JStr ''box''), (''remote_port'', jint 8001)]"

definition sample_edited :: js where
  "sample_edited = JObj [(''id'', JStr ''a''), (''url'', JStr ''http://127.0.0.1:8001''), (''ssh'', JStr ''box''), (''ssh_fallbacks'', JArr [JStr ''lan''])]"

lemma sample_runs: "worker_configs sample_url sample_workers = Inr [sample_first, sample_second]"
  "replace_ssh_fallbacks sample_url sample_workers sample_edit = Inr [sample_edited, sample_second]"
proof -
  have small [simp]: "8000 \<le> max_safe" "8001 \<le> max_safe" by (simp_all add: max_safe_def)
  note defs = worker_config_def shape_part_def url_part_def route_only_part_def token_file_part_def ssh_part_def journal_part_def
    fallbacks_part_def remote_port_part_def checked_field_def Let_def worker_fields_def backend_ok_def local_url_def worker_url_def
    drop_last_slash_def loopback_hosts_def sample_url_def begins_with_def worker_id_text_def letter_or_digit_def word_char_def
    word_or_hyphen_def ssh_alias_text_def alias_char_def port_number_def or_else_def fallback_list_def assert_unique_worker_def
    endpoint_of_def same_ssh_endpoint_def remote_port_of_def ssh_targets_def
  have first: "worker_config sample_url False (JObj [(''id'', JStr ''a''), (''url'', JStr ''http://127.0.0.1:8001/''), (''ssh'', JStr ''box'')]) = Inr sample_first"
    by (simp add: defs sample_first_def)
  have second: "worker_config sample_url False sample_second = Inr sample_second" by (simp add: defs sample_second_def) (simp add: jint_def)
  show configs: "worker_configs sample_url sample_workers = Inr [sample_first, sample_second]"
    unfolding worker_configs_def sample_workers_def using first second
    by (simp add: sample_second_def sample_first_def) (simp add: defs jint_def)
  have "joined_keys sample_edit = ''expected_ssh_fallbacks,id,ssh_fallbacks''" by code_simp
  then show "replace_ssh_fallbacks sample_url sample_workers sample_edit = Inr [sample_edited, sample_second]"
    unfolding replace_ssh_fallbacks_def configs
    by (simp add: sample_edit_def sample_first_def sample_second_def) (simp add: replace_fallbacks_def jset_def sample_edited_def defs jint_def)
qed

theorem fallback_edit_is_management_only_witness:
  "registry_ok [sample_edited, sample_second] \<and> (\<exists>i < length [sample_first, sample_second].
     [sample_edited, sample_second] = [sample_first, sample_second] [i := [sample_edited, sample_second] ! i] \<and>
     jget ([sample_first, sample_second] ! i) ''id'' = jget sample_edit ''id'' \<and>
     only_fallbacks sample_edit ([sample_first, sample_second] ! i) ([sample_edited, sample_second] ! i))"
  by (rule fallback_edit_is_management_only [OF sample_url_law sample_runs(2) sample_runs(1)])

text \<open>A trailing slash is dropped once, so that the address of an OpenAI endpoint with two is not validated to itself: as
  \<open>https://h//\<close> it is written down as \<open>https://h/\<close>, which validates to \<open>https://h/v1\<close>.\<close>

lemma slashes_are_dropped_once:
  "worker_url (JObj [(''backend'', JStr ''openai'')]) u = u_origin u @ ''/''"
  "worker_url (JObj [(''backend'', JStr ''openai'')]) (u\<lparr>u_path := ''/''\<rparr>) = u_origin u @ ''/v1''" if "u_path u = ''//''"
  using that by (simp_all add: worker_url_def drop_last_slash_def)

end
