(* ===== verification/Recovery_Enrollment.thy ===== *)
theory Recovery_Enrollment
  imports Worker_Registry
begin

text \<open>
  The enrolment of recovery helpers and the calls to them (\<open>recovery-transport.mjs\<close>): which services an operator may
  enrol, the command that a call runs, the class of a failure, and the targets that a call tries in turn. \<open>parse\<close> is
  \<open>URL\<close>, \<open>str\<close> is \<open>String\<close> of a value that a regular expression is tested on, \<open>json\<close> is \<open>JSON.parse\<close>; the files and
  the process of the helper are inputs.
\<close>

section \<open>Classes of failures\<close>

definition has_text :: "string \<Rightarrow> string \<Rightarrow> bool" where
  "has_text part t \<longleftrightarrow> list_ex (\<lambda>i. begins_with (drop i t) part) [0..<Suc (length t)]"

text \<open>\<open>/connection closed by .* port/\<close>: both on one line.\<close>

definition closed_by_port :: "string \<Rightarrow> bool" where
  "closed_by_port t \<longleftrightarrow> list_ex (\<lambda>i. begins_with (drop i t) ''connection closed by '' \<and>
     has_text '' port'' (takeWhile (\<lambda>c. c \<notin> {CHR 0x0A, CHR 0x0D}) (drop (i + 21) t))) [0..<Suc (length t)]"

definition ssh_failure_patterns :: "(string \<times> (string \<Rightarrow> bool)) list" where
  "ssh_failure_patterns = [
     (''adapter_dns_failure'', \<lambda>t. has_text ''could not resolve hostname'' t \<or> has_text ''name or service not known'' t \<or> has_text ''nodename nor servname provided'' t),
     (''adapter_host_key_failure'', \<lambda>t. has_text ''host key verification failed'' t \<or> has_text ''remote host identification has changed'' t),
     (''adapter_auth_failure'', \<lambda>t. has_text ''permission denied'' t \<or> has_text ''no supported authentication methods available'' t),
     (''adapter_connect_timeout'', \<lambda>t. has_text ''connection timed out'' t \<or> has_text ''operation timed out'' t \<or> has_text ''connect timeout'' t),
     (''adapter_connection_refused'', \<lambda>t. has_text ''connection refused'' t),
     (''adapter_route_unreachable'', \<lambda>t. has_text ''no route to host'' t \<or> has_text ''network is unreachable'' t),
     (''adapter_connection_reset'', \<lambda>t. has_text ''connection reset'' t \<or> has_text ''connection closed by remote host'' t \<or> closed_by_port t)]"

definition last_chars :: "nat \<Rightarrow> string \<Rightarrow> string" where
  "last_chars n t = drop (length t - n) t"

definition classify_ssh_failure :: "string \<Rightarrow> string option \<Rightarrow> int option \<Rightarrow> string option" where
  "classify_ssh_failure stderr error_code exit_code =
     (case find (\<lambda>(reason, p). p (map lower_char (last_chars 4096 stderr))) ssh_failure_patterns of
        Some (reason, _) \<Rightarrow> Some reason
      | None \<Rightarrow>
          if error_code \<in> {Some ''ENOENT'', Some ''EACCES''} then Some ''adapter_spawn_failed''
          else if error_code = Some ''ETIMEDOUT'' then Some ''adapter_connect_timeout''
          else if error_code = Some ''ECONNREFUSED'' then Some ''adapter_connection_refused''
          else if error_code \<in> {Some ''EHOSTUNREACH'', Some ''ENETUNREACH''} then Some ''adapter_route_unreachable''
          else if error_code = Some ''ECONNRESET'' then Some ''adapter_connection_reset''
          else if error_code = None \<and> exit_code = None then None
          else Some (if exit_code = Some 255 then ''adapter_unreachable'' else ''adapter_check_failed''))"

section \<open>Enrolment\<close>

datatype enroll_error = BadRecoveryList | UnsupportedEntry | BadWorker worker_error | BadTransport | BadAdapter | BadVerification
  | DockerStarts | BadPython | RemotePython | NotExclusive | BadPath | NotEnrolled | BadStart | StartProfile | BadBootstrap
  | BootstrapIdentity | StrayBootstrap | StrayProfile | SharedMachine

definition entry_fields :: "string list" where
  "entry_fields = [''id'', ''url'', ''backend'', ''ssh'', ''ssh_fallbacks'', ''remote_port'', ''adapter'', ''verification'', ''transport'', ''python'',
     ''helper'', ''config'', ''machine'', ''profile'', ''service_profile'', ''start_stopped'', ''exclusive'', ''bootstrap_removed'',
     ''bootstrap_callers'', ''retained_definition_sha256'']"

definition picked :: "string list \<Rightarrow> js \<Rightarrow> js" where
  "picked ks v = JObj (map (\<lambda>k. (k, jget v k)) (filter (\<lambda>k. jget v k \<noteq> JUndef) ks))"

definition merged :: "js \<Rightarrow> js \<Rightarrow> js" where
  "merged v w = foldl (\<lambda>x k. jset x k (jget w k)) v (jkeys w)"

definition is_local :: "js \<Rightarrow> bool" where
  "is_local entry \<longleftrightarrow> jget entry ''transport'' = JStr ''local''"

definition plain_path :: "js \<Rightarrow> bool" where
  "plain_path v \<longleftrightarrow> (case v of JStr t \<Rightarrow> absolute_path t \<and> CHR 0x00 \<notin> set t | _ \<Rightarrow> False)"

text \<open>\<open>/^\/[A-Za-z0-9_./-]+$/\<close> without \<open>/../\<close>.\<close>

definition shell_char :: "char \<Rightarrow> bool" where
  "shell_char c \<longleftrightarrow> word_char c \<or> c \<in> set ''./-''"

definition shell_path :: "js \<Rightarrow> bool" where
  "shell_path v \<longleftrightarrow> (case v of
     JStr t \<Rightarrow> begins_with t ''/'' \<and> 1 < length t \<and> list_all shell_char t \<and> \<not> has_text ''/../'' t | _ \<Rightarrow> False)"

definition transport_error :: "js \<Rightarrow> js \<Rightarrow> enroll_error option" where
  "transport_error entry w =
     (if jget entry ''transport'' \<notin> {JUndef, JStr ''ssh'', JStr ''local''} then Some BadTransport
      else if jget entry ''adapter'' \<notin> {JStr ''systemd-user'', JStr ''launchd'', JStr ''docker'', JStr ''omlx''} \<or>
        (\<not> is_local entry \<and> \<not> truthy (jget w ''ssh'')) \<or>
        (is_local entry \<and> (jget entry ''adapter'' \<notin> {JStr ''launchd'', JStr ''omlx''} \<or> truthy (jget w ''ssh''))) \<or>
        (jget entry ''adapter'' = JStr ''omlx'' \<and> \<not> is_local entry) then Some BadAdapter
      else if jget entry ''verification'' \<notin> {JUndef, JStr ''ds4'', JStr ''qwen_vllm'', JStr ''qwen_omlx''} then Some BadVerification
      else if jget entry ''adapter'' = JStr ''docker'' \<and> jget entry ''start_stopped'' = JBool True then Some DockerStarts
      else None)"

definition path_error :: "js \<Rightarrow> enroll_error option" where
  "path_error entry =
     (if is_local entry \<and> \<not> plain_path (jget entry ''python'') then Some BadPython
      else if \<not> is_local entry \<and> jget entry ''python'' \<noteq> JUndef then Some RemotePython
      else if jget entry ''exclusive'' \<noteq> JBool True then Some NotExclusive
      else if list_ex (\<lambda>k. \<not> plain_path (jget entry k) \<or> (\<not> is_local entry \<and> \<not> shell_path (jget entry k))) [''helper'', ''config''] then Some BadPath
      else None)"

definition fingerprint :: "(js \<Rightarrow> string) \<Rightarrow> js \<Rightarrow> bool" where
  "fingerprint str v \<longleftrightarrow> digest_text (js_text str v)"

definition bootstrap_callers_ok :: "js \<Rightarrow> bool" where
  "bootstrap_callers_ok v \<longleftrightarrow> (case v of
     JArr cs \<Rightarrow> list_all (\<lambda>c. c \<in> {JStr ''loginwindow'', JStr ''runningboardd''}) cs \<and> distinct cs | _ \<Rightarrow> False)"

definition authority_error :: "(js \<Rightarrow> string) \<Rightarrow> js \<Rightarrow> enroll_error option" where
  "authority_error str entry =
     (if list_ex (\<lambda>k. \<not> fingerprint str (jget entry k)) [''machine'', ''profile''] then Some NotEnrolled
      else if jget entry ''start_stopped'' \<noteq> JUndef \<and> \<not> is_bool (jget entry ''start_stopped'') then Some BadStart
      else if jget entry ''start_stopped'' = JBool True \<and> \<not> fingerprint str (jget entry ''service_profile'') then Some StartProfile
      else if jget entry ''bootstrap_removed'' \<noteq> JUndef \<and> \<not> is_bool (jget entry ''bootstrap_removed'') then Some BadBootstrap
      else if jget entry ''bootstrap_removed'' = JBool True \<and> (jget entry ''adapter'' \<noteq> JStr ''launchd'' \<or>
        \<not> fingerprint str (jget entry ''service_profile'') \<or> \<not> fingerprint str (jget entry ''retained_definition_sha256'') \<or>
        \<not> bootstrap_callers_ok (jget entry ''bootstrap_callers'')) then Some BootstrapIdentity
      else if jget entry ''bootstrap_removed'' \<noteq> JBool True \<and>
        (jget entry ''bootstrap_callers'' \<noteq> JUndef \<or> jget entry ''retained_definition_sha256'' \<noteq> JUndef) then Some StrayBootstrap
      else if jget entry ''start_stopped'' \<noteq> JBool True \<and> jget entry ''bootstrap_removed'' \<noteq> JBool True \<and>
        jget entry ''service_profile'' \<noteq> JUndef then Some StrayProfile
      else None)"

definition enroll_entry :: "(js \<Rightarrow> url_parts option) \<Rightarrow> (js \<Rightarrow> string) \<Rightarrow> js \<Rightarrow> enroll_error + (js \<times> js)" where
  "enroll_entry parse str entry =
     (if list_ex (\<lambda>k. k \<notin> set entry_fields) (jkeys entry) then Inl UnsupportedEntry
      else case worker_config parse False (picked [''id'', ''url'', ''backend'', ''ssh'', ''ssh_fallbacks'', ''remote_port''] entry) of
        Inl e \<Rightarrow> Inl (BadWorker e)
      | Inr w \<Rightarrow> (case transport_error entry w of Some e \<Rightarrow> Inl e
        | None \<Rightarrow> (case path_error entry of Some e \<Rightarrow> Inl e
          | None \<Rightarrow> (case authority_error str entry of Some e \<Rightarrow> Inl e
            | None \<Rightarrow> Inr (jget w ''id'', merged entry w)))))"

text \<open>Two values as the keys of a set: objects are equal to themselves only, and no two entries share one.\<close>

definition same_key_value :: "js \<Rightarrow> js \<Rightarrow> bool" where
  "same_key_value v w \<longleftrightarrow> v = w \<and> \<not> is_obj v \<and> \<not> is_arr v"

fun enroll_all :: "(js \<Rightarrow> url_parts option) \<Rightarrow> (js \<Rightarrow> string) \<Rightarrow> (js \<times> js) list \<Rightarrow> js list \<Rightarrow> enroll_error + (js \<times> js) list" where
  "enroll_all parse str done [] = Inr done"
| "enroll_all parse str done (entry # entries) = (case enroll_entry parse str entry of Inl e \<Rightarrow> Inl e
     | Inr (i, c) \<Rightarrow>
         if list_ex (\<lambda>(j, d). i = j \<or> same_key_value (jget entry ''machine'') (jget d ''machine'')) done then Inl SharedMachine
         else enroll_all parse str (done @ [(i, c)]) entries)"

definition recovery_config :: "(js \<Rightarrow> url_parts option) \<Rightarrow> (js \<Rightarrow> string) \<Rightarrow> js \<Rightarrow> enroll_error + (js \<times> js) list" where
  "recovery_config parse str raw = (case raw of
     JNull \<Rightarrow> Inl BadRecoveryList
   | JArr (_ # _) \<Rightarrow> Inl BadRecoveryList
   | JStr (_ # _) \<Rightarrow> Inl BadRecoveryList
   | JObj kvs \<Rightarrow> if list_ex (\<lambda>k. k \<noteq> ''workers'') (map fst kvs) then Inl BadRecoveryList
       else (case or_else (fget kvs ''workers'') (JArr []) of JArr es \<Rightarrow> enroll_all parse str [] es | _ \<Rightarrow> Inl BadRecoveryList)
   | _ \<Rightarrow> Inr [])"

section \<open>The command of a call\<close>

type_synonym invocation = "string \<times> string list"

definition value_text :: "js \<Rightarrow> string" where
  "value_text v = (case v of JStr t \<Rightarrow> t | _ \<Rightarrow> [])"

definition remote_invocation :: "js \<Rightarrow> js \<Rightarrow> invocation" where
  "remote_invocation c target = (''/usr/bin/ssh'', [''-o'', ''BatchMode=yes'', ''-o'', ''StrictHostKeyChecking=yes'', ''-o'', ''ConnectTimeout=8'',
     value_text target, ''python3 '' @ value_text (jget c ''helper'') @ '' '' @ value_text (jget c ''config'')])"

record file_facts =
  ff_regular :: bool
  ff_owner :: int
  ff_mode :: nat
  ff_size :: nat

datatype lookup = NoFile | LookupFailed | Found file_facts

datatype local_error = LocalUnavailable | InterpreterMissing | LocalUnverified

unbundle bit_operations_syntax

text \<open>A file of the enrolment: owned by the operator or root and written by the owner only; the configuration is also
  private to the operator and small.\<close>

definition file_safe :: "int \<Rightarrow> string \<Rightarrow> file_facts \<Rightarrow> bool" where
  "file_safe uid k f \<longleftrightarrow> ff_regular f \<and> ff_owner f \<in> {uid, 0} \<and> ff_mode f AND 18 = 0 \<and>
     (k = ''config'' \<longrightarrow> ff_owner f = uid \<and> ff_mode f AND 63 = 0 \<and> ff_size f \<le> 65536)"

fun check_files :: "int \<Rightarrow> (string \<Rightarrow> lookup) \<Rightarrow> js \<Rightarrow> string list \<Rightarrow> local_error option" where
  "check_files uid stat c [] = None"
| "check_files uid stat c (k # ks) = (if \<not> plain_path (jget c k) then Some LocalUnverified
     else case stat (value_text (jget c k)) of
       NoFile \<Rightarrow> Some (if jget c k = jget c ''python'' then InterpreterMissing else LocalUnverified)
     | LookupFailed \<Rightarrow> Some LocalUnverified
     | Found f \<Rightarrow> if file_safe uid k f then check_files uid stat c ks else Some LocalUnverified)"

definition without_field :: "string \<Rightarrow> js \<Rightarrow> js" where
  "without_field k v = (case v of JObj kvs \<Rightarrow> JObj (filter (\<lambda>(j, _). j \<noteq> k) kvs) | _ \<Rightarrow> v)"

definition enrolled_port :: "(js \<Rightarrow> url_parts option) \<Rightarrow> js \<Rightarrow> nat option" where
  "enrolled_port parse c = (case worker_config parse False (JObj [(''id'', jget c ''id''), (''url'', jget c ''url'')]) of Inl e \<Rightarrow> None
     | Inr w \<Rightarrow> map_option (\<lambda>u. digits_value 0 (u_port u)) (parse (jget w ''url'')))"

definition local_invocation :: "(js \<Rightarrow> url_parts option) \<Rightarrow> (js \<Rightarrow> string) \<Rightarrow> (string \<Rightarrow> js option) \<Rightarrow> string \<Rightarrow> int option \<Rightarrow>
    (string \<Rightarrow> lookup) \<Rightarrow> (string \<Rightarrow> string option) \<Rightarrow> js \<Rightarrow> local_error + invocation" where
  "local_invocation parse str json platform uid stat content c =
     (case uid of None \<Rightarrow> Inl LocalUnavailable
      | Some n \<Rightarrow>
          if platform \<noteq> ''darwin'' \<or> n = 0 then Inl LocalUnavailable
          else case recovery_config parse str (JObj [(''workers'', JArr [if jget c ''backend'' = JStr ''openai'' \<and> jget c ''telemetry_service'' = JNull
              then without_field ''telemetry_service'' c else c])]) of Inl e \<Rightarrow> Inl LocalUnverified
          | Inr _ \<Rightarrow>
              if jget c ''adapter'' \<notin> {JStr ''launchd'', JStr ''omlx''} \<or> \<not> is_local c \<or> truthy (jget c ''ssh'') \<or>
                truthy (jget c ''ssh_fallbacks'') \<or> jget c ''remote_port'' \<noteq> JUndef then Inl LocalUnverified
              else case check_files n stat c [''python'', ''helper'', ''config''] of Some e \<Rightarrow> Inl e
              | None \<Rightarrow> (case Option.bind (content (value_text (jget c ''config''))) json of None \<Rightarrow> Inl LocalUnverified
                | Some enrolled \<Rightarrow> (case enrolled_port parse c of None \<Rightarrow> Inl LocalUnverified
                  | Some p \<Rightarrow> if jget enrolled ''port'' \<noteq> jint (int p) then Inl LocalUnverified
                      else Inr (value_text (jget c ''python''), [''-I'', value_text (jget c ''helper''), value_text (jget c ''config'')]))))"

section \<open>One attempt\<close>

datatype attempt_event = OutputChunk string | ErrorChunk string | SpawnError "string option" | Closed "int option" | AttemptTimeout

record helper_call =
  ta_output :: string
  ta_stderr :: string
  ta_killed :: bool
  ta_outcome :: "(string option + js) option"

definition new_helper_call :: helper_call where
  "new_helper_call = \<lparr>ta_output = [], ta_stderr = [], ta_killed = False, ta_outcome = None\<rparr>"

definition finish_attempt :: "string option + js \<Rightarrow> helper_call \<Rightarrow> helper_call" where
  "finish_attempt r a = (if ta_outcome a = None then a\<lparr>ta_outcome := Some r\<rparr> else a)"

definition helper_answer :: "(string \<Rightarrow> js option) \<Rightarrow> string \<Rightarrow> js option" where
  "helper_answer json out = (case json out of
     Some r \<Rightarrow> if is_obj r \<and> \<not> truthy (jget r ''error'') then Some r else None | None \<Rightarrow> None)"

definition attempt_step :: "(string \<Rightarrow> js option) \<Rightarrow> bool \<Rightarrow> attempt_event \<Rightarrow> helper_call \<Rightarrow> helper_call" where
  "attempt_step json here e a = (case e of
     OutputChunk t \<Rightarrow> (let b = a\<lparr>ta_output := ta_output a @ t\<rparr> in
       if 65536 < length (ta_output b) then finish_attempt (Inl (Some ''adapter_output_limit'')) (b\<lparr>ta_killed := True\<rparr>) else b)
   | ErrorChunk t \<Rightarrow> a\<lparr>ta_stderr := last_chars 4096 (ta_stderr a @ t)\<rparr>
   | SpawnError kind \<Rightarrow> finish_attempt (Inl (if here then Some ''adapter_spawn_failed'' else classify_ssh_failure (ta_stderr a) kind None)) a
   | Closed status \<Rightarrow> finish_attempt (case helper_answer json (ta_output a) of
       Some r \<Rightarrow> if status = Some 0 then Inr r
         else Inl (if here then Some ''adapter_check_failed'' else classify_ssh_failure (ta_stderr a) None status)
     | None \<Rightarrow> Inl (if here then Some ''adapter_check_failed'' else classify_ssh_failure (ta_stderr a) None status)) a
   | AttemptTimeout \<Rightarrow> if ta_outcome a = None then finish_attempt (Inl (Some ''adapter_timeout'')) (a\<lparr>ta_killed := True\<rparr>) else a)"

section \<open>The targets in turn\<close>

fun call_targets :: "(js \<Rightarrow> string option + js) \<Rightarrow> js list \<Rightarrow> string option \<Rightarrow> js list \<Rightarrow> js list \<times> (string option + js)" where
  "call_targets attempt [] failure tried = (tried, Inl failure)"
| "call_targets attempt (t # ts) failure tried = (case attempt t of
     Inr r \<Rightarrow> (tried @ [t], Inr r)
   | Inl e \<Rightarrow> call_targets attempt ts e (tried @ [t]))"

definition recovery_call :: "(js \<Rightarrow> string option + js) \<Rightarrow> (string option + js) \<Rightarrow> js \<Rightarrow> js list \<times> (string option + js)" where
  "recovery_call attempt here c = (if is_local c then ([], here)
     else call_targets attempt (ssh_targets c) (Some ''adapter_unreachable'') [])"

end
