(* ===== verification/Enrollment_Safety.thy ===== *)
theory Enrollment_Safety
  imports Recovery_Enrollment
begin

text \<open>
  What the enrolment of recovery helpers guarantees: the commands a call can run, and the outcomes of one attempt.
\<close>

section \<open>Only enrolled commands run\<close>

definition command_char :: "char \<Rightarrow> bool" where
  "command_char c \<longleftrightarrow> shell_char c \<or> c = CHR '' ''"

text \<open>The command runs the enrolled helper on its enrolled configuration and has no character that a shell expands;
  the target begins with a letter or a digit, so that \<open>ssh\<close> cannot take it for an option.\<close>

definition safe_remote :: "js \<Rightarrow> js \<Rightarrow> bool" where
  "safe_remote c target \<longleftrightarrow> (case remote_invocation c target of (file, args) \<Rightarrow> file = ''/usr/bin/ssh'' \<and>
     last args = ''python3 '' @ value_text (jget c ''helper'') @ '' '' @ value_text (jget c ''config'') \<and>
     list_all command_char (last args) \<and> begins_with (value_text (jget c ''helper'')) ''/'' \<and> begins_with (value_text (jget c ''config'')) ''/'' \<and>
     last (butlast args) = value_text target \<and> ssh_alias_text (value_text target))"

definition enrolled_ok :: "js \<times> js \<Rightarrow> bool" where
  "enrolled_ok x \<longleftrightarrow> jget (snd x) ''id'' = fst x \<and> id_fits (fst x) \<and> jget (snd x) ''exclusive'' = JBool True \<and>
     (if is_local (snd x) then ssh_targets (snd x) = [] \<and> list_all (\<lambda>k. plain_path (jget (snd x) k)) [''python'', ''helper'', ''config'']
      else ssh_targets (snd x) \<noteq> [] \<and> list_all (safe_remote (snd x)) (ssh_targets (snd x)))"

definition keys_apart :: "(js \<times> js) list \<Rightarrow> bool" where
  "keys_apart cs \<longleftrightarrow> sorted_wrt (\<lambda>(i, c) (j, d). i \<noteq> j \<and> \<not> same_key_value (jget d ''machine'') (jget c ''machine'')) cs"

text \<open>Identifiers differ, and so do machines that are written as texts.\<close>

definition machines_apart :: "(js \<times> js) list \<Rightarrow> bool" where
  "machines_apart cs \<longleftrightarrow> sorted_wrt (\<lambda>(i, c) (j, d). i \<noteq> j \<and>
     (case (jget c ''machine'', jget d ''machine'') of (JStr m, JStr n) \<Rightarrow> m \<noteq> n | _ \<Rightarrow> True)) cs"

lemma keys_machines: "keys_apart cs \<Longrightarrow> machines_apart cs"
  unfolding keys_apart_def machines_apart_def
  by (erule sorted_wrt_mono_rel [rotated]) (auto simp: same_key_value_def split: js.splits)

lemma foldl_jset: "is_obj v \<Longrightarrow> is_obj (foldl (\<lambda>x k. jset x k (f k)) v ks) \<and>
   jget (foldl (\<lambda>x k. jset x k (f k)) v ks) j = (if j \<in> set ks then f j else jget v j)"
proof (induction ks arbitrary: v)
  case (Cons k ks)
  have "is_obj (jset v k (f k))" using Cons.prems by (cases v) (simp_all add: jset_def)
  then show ?case using Cons.IH [of "jset v k (f k)"] Cons.prems by (auto simp: jget_jset)
qed simp

lemma jget_merged: "is_obj v \<Longrightarrow> jget (merged v w) k = (if k \<in> set (jkeys w) then jget w k else jget v k)"
  unfolding merged_def by (rule foldl_jset [THEN conjunct2])

lemma fget_picked: "fget (map (\<lambda>k. (k, f k)) (filter (\<lambda>k. f k \<noteq> JUndef) ks)) j = (if j \<in> set ks then f j else JUndef)"
  by (induction ks) auto

lemma jget_picked: "jget (picked ks v) j = (if j \<in> set ks then jget v j else JUndef)"
  unfolding picked_def jget.simps by (rule fget_picked)

lemma missing_key: "k \<notin> set (map fst kvs) \<Longrightarrow> fget kvs k = JUndef"
  by (induction kvs) auto

lemma config_keys_undef: "k \<notin> set (map fst kvs) \<Longrightarrow> jget (JObj kvs) k = JUndef"
  by (simp add: missing_key)

text \<open>The fields of an enrolled service: those of its worker, and the rest as the operator wrote them.\<close>

lemma enrolled_fields:
  assumes "enroll_entry parse str entry = Inr (i, c)"
  obtains u where "accepted parse (picked [''id'', ''url'', ''backend'', ''ssh'', ''ssh_fallbacks'', ''remote_port''] entry) u"
    "i = jget entry ''id''" "id_fits i" "jget c ''id'' = i"
    "ssh_targets c = ssh_targets (JObj (config_fields False (picked [''id'', ''url'', ''backend'', ''ssh'', ''ssh_fallbacks'', ''remote_port''] entry) u))"
    "transport_error entry (JObj (config_fields False (picked [''id'', ''url'', ''backend'', ''ssh'', ''ssh_fallbacks'', ''remote_port''] entry) u)) = None"
    "path_error entry = None" "\<And>k. k \<notin> set worker_fields \<Longrightarrow> jget c k = jget entry k"
proof -
  let ?p = "picked [''id'', ''url'', ''backend'', ''ssh'', ''ssh_fallbacks'', ''remote_port''] entry"
  from assms obtain u where u: "accepted parse ?p u" and c: "i = jget (JObj (config_fields False ?p u)) ''id''" "c = merged entry (JObj (config_fields False ?p u))" and
    errs: "transport_error entry (JObj (config_fields False ?p u)) = None" "path_error entry = None"
    by (auto simp: enroll_entry_def worker_config_Inr split: if_splits sum.splits option.splits)
  let ?w = "JObj (config_fields False ?p u)"
  have id: "i = jget entry ''id''" "id_fits i" using c(1) u by (auto simp: accepted_def fget_config jget_picked)
  then have obj: "is_obj entry" by (cases entry) (auto simp: id_fits_def)
  have w: "jget ?w ''ssh'' = jget entry ''ssh''" "jget ?w ''ssh_fallbacks'' = fallbacks_field ?p" "fallbacks_field ?p =
      (if elements_of (jget entry ''ssh_fallbacks'') = [] then JUndef else JArr (first_of_each (elements_of (jget entry ''ssh_fallbacks''))))"
    by (simp_all add: fget_config jget_picked fallbacks_field_def Let_def)
  have get: "jget c k = (if k \<in> set (jkeys ?w) then jget ?w k else jget entry k)" for k unfolding c(2) by (rule jget_merged [OF obj])
  have absent: "k \<notin> set (jkeys ?w) \<Longrightarrow> jget ?w k = JUndef" for k unfolding jkeys.simps by (rule config_keys_undef)
  have "jget c ''id'' = i" using get [of "''id''"] c(1) id(1) by (auto split: if_splits)
  moreover have "jget c ''ssh'' = jget ?w ''ssh''" using get [of "''ssh''"] w(1) by (auto split: if_splits)
  moreover have "elements_of (jget c ''ssh_fallbacks'') = elements_of (jget ?w ''ssh_fallbacks'')"
    using get [of "''ssh_fallbacks''"] w(2,3) absent [of "''ssh_fallbacks''"] by (auto split: if_splits)
  ultimately have "ssh_targets c = ssh_targets ?w" "jget c ''id'' = i" by (simp_all add: ssh_targets_def)
  moreover have "jget c k = jget entry k" if "k \<notin> set worker_fields" for k
    using get [of k] keys_config(2) [of False ?p u] that by (auto split: if_splits)
  ultimately show ?thesis using that [of u] u id errs by blast
qed

lemma fitting_targets: "ssh_fits w \<Longrightarrow> list_all valid_ssh_alias (ssh_targets w)"
  by (cases "jget w ''ssh_fallbacks''"; cases "jget w ''ssh'' = JUndef") (simp_all add: ssh_targets_def ssh_fits_def fallbacks_fit_def)

lemma targets_are_aliases: "accepted parse raw u \<Longrightarrow> list_all valid_ssh_alias (ssh_targets (JObj (config_fields r raw u)))"
  using ssh_kept [of raw r u] fitting_targets by (simp add: accepted_def)

lemma alias_text: "valid_ssh_alias t \<Longrightarrow> ssh_alias_text (value_text t)"
  by (cases t) (simp_all add: value_text_def)

lemma shell_path_text: "shell_path v \<Longrightarrow> begins_with (value_text v) ''/'' \<and> list_all command_char (value_text v)"
  by (cases v) (auto simp: shell_path_def value_text_def command_char_def list_all_iff)

lemma python_chars: "list_all command_char ''python3 ''" "command_char CHR '' ''"
  by code_simp+

lemma enrolled_is_ok: "enroll_entry parse str entry = Inr (i, c) \<Longrightarrow> enrolled_ok (i, c) \<and> jget c ''machine'' = jget entry ''machine''"
proof -
  assume e: "enroll_entry parse str entry = Inr (i, c)"
  show ?thesis
  proof (rule enrolled_fields [OF e])
    fix u
    let ?p = "picked [''id'', ''url'', ''backend'', ''ssh'', ''ssh_fallbacks'', ''remote_port''] entry"
    let ?w = "JObj (config_fields False ?p u)"
    assume u: "accepted parse ?p u" and i: "i = jget entry ''id''" "id_fits i" "jget c ''id'' = i" and t: "ssh_targets c = ssh_targets ?w"
      and errs: "transport_error entry ?w = None" "path_error entry = None" and get: "\<And>k. k \<notin> set worker_fields \<Longrightarrow> jget c k = jget entry k"
    have kept: "jget c ''machine'' = jget entry ''machine''" "jget c ''helper'' = jget entry ''helper''" "jget c ''config'' = jget entry ''config''"
      "jget c ''python'' = jget entry ''python''" "jget c ''exclusive'' = jget entry ''exclusive''" "is_local c = is_local entry"
      by (simp_all add: get worker_fields_def is_local_def)
    have aliases: "list_all valid_ssh_alias (ssh_targets c)" unfolding t by (rule targets_are_aliases [OF u])
    show ?thesis
    proof (cases "is_local entry")
      case True
      then show ?thesis using errs i kept t
        by (auto simp: enrolled_ok_def transport_error_def path_error_def ssh_targets_def split: if_splits)
    next
      case False
      have paths: "shell_path (jget c ''helper'')" "shell_path (jget c ''config'')" "jget c ''exclusive'' = JBool True"
        using False errs(2) kept by (simp_all add: path_error_def split: if_splits)
      have "ssh_targets c \<noteq> []" using False errs(1) t by (auto simp: transport_error_def ssh_targets_def split: if_splits)
      moreover have "safe_remote c x" if "valid_ssh_alias x" for x
        using alias_text [OF that] shell_path_text [OF paths(1)] shell_path_text [OF paths(2)] python_chars
        by (simp add: safe_remote_def remote_invocation_def)
      then have "list_all (safe_remote c) (ssh_targets c)" using aliases by (simp add: list_all_iff)
      ultimately show ?thesis using False i kept paths by (simp add: enrolled_ok_def)
    qed
  qed
qed

lemma enroll_all_ok: "enroll_all parse str done es = Inr cs \<Longrightarrow> keys_apart done \<Longrightarrow> list_all enrolled_ok done \<Longrightarrow>
   keys_apart cs \<and> list_all enrolled_ok cs"
proof (induction es arbitrary: "done")
  case (Cons e es)
  then obtain i c where c: "enroll_entry parse str e = Inr (i, c)" "enroll_all parse str (done @ [(i, c)]) es = Inr cs"
    "\<not> list_ex (\<lambda>(j, d). i = j \<or> same_key_value (jget e ''machine'') (jget d ''machine'')) done"
    by (auto split: sum.splits if_splits)
  have "keys_apart (done @ [(i, c)])"
    using c(3) Cons.prems(2) enrolled_is_ok [OF c(1)] by (auto simp: keys_apart_def sorted_wrt_append list_ex_iff)
  then show ?case using Cons.IH [OF c(2)] Cons.prems(3) enrolled_is_ok [OF c(1)] by simp
qed auto

section \<open>One attempt settles once\<close>

text \<open>The reason classes that a recovery state may show, and those read from what SSH printed.\<close>

definition printed_reasons :: "string list" where
  "printed_reasons = [''adapter_dns_failure'', ''adapter_host_key_failure'', ''adapter_auth_failure'', ''adapter_connect_timeout'',
     ''adapter_connection_refused'', ''adapter_route_unreachable'', ''adapter_connection_reset'']"

definition public_reasons :: "string list" where
  "public_reasons = printed_reasons @ [''adapter_spawn_failed'', ''adapter_unreachable'', ''adapter_check_failed'', ''adapter_timeout'',
     ''adapter_output_limit'']"

definition recognised :: "string \<Rightarrow> bool" where
  "recognised stderr \<longleftrightarrow> list_ex (\<lambda>(reason, p). p (map lower_char (last_chars 4096 stderr))) ssh_failure_patterns"

definition chunk_event :: "attempt_event \<Rightarrow> bool" where
  "chunk_event e \<longleftrightarrow> (case e of OutputChunk _ \<Rightarrow> True | ErrorChunk _ \<Rightarrow> True | _ \<Rightarrow> False)"

definition printed_output :: "attempt_event list \<Rightarrow> string" where
  "printed_output es = concat (map (\<lambda>e. case e of OutputChunk t \<Rightarrow> t | _ \<Rightarrow> []) es)"

definition printed_errors :: "attempt_event list \<Rightarrow> string" where
  "printed_errors es = concat (map (\<lambda>e. case e of ErrorChunk t \<Rightarrow> t | _ \<Rightarrow> []) es)"

text \<open>A JSON object without an error: what a helper may answer.\<close>

definition clean_answer :: "(string \<Rightarrow> js option) \<Rightarrow> string \<Rightarrow> js \<Rightarrow> bool" where
  "clean_answer json out v \<longleftrightarrow> json out = Some v \<and> is_obj v \<and> \<not> truthy (jget v ''error'')"

text \<open>The reason of a failed process. A helper on this host has one reason. For SSH it is read from what SSH printed, or
  else it is the exit status's; only an SSH that a signal ended has none.\<close>

definition exit_reason :: "bool \<Rightarrow> string \<Rightarrow> int option \<Rightarrow> string option \<Rightarrow> bool" where
  "exit_reason here stderr status reason \<longleftrightarrow>
     (if here then reason = Some ''adapter_check_failed''
      else if recognised stderr then (case reason of None \<Rightarrow> False | Some t \<Rightarrow> t \<in> set printed_reasons)
      else reason = (case status of None \<Rightarrow> None
        | Some n \<Rightarrow> Some (if n = 255 then ''adapter_unreachable'' else ''adapter_check_failed'')))"

text \<open>The reason of a process that could not be started or reached; only an error without a code has none.\<close>

definition start_reason :: "bool \<Rightarrow> string \<Rightarrow> string option \<Rightarrow> string option \<Rightarrow> bool" where
  "start_reason here stderr kind reason \<longleftrightarrow>
     (if here then reason = Some ''adapter_spawn_failed''
      else if recognised stderr then (case reason of None \<Rightarrow> False | Some t \<Rightarrow> t \<in> set printed_reasons)
      else case (kind, reason) of (None, None) \<Rightarrow> True | (Some _, Some t) \<Rightarrow> t \<in> set public_reasons | _ \<Rightarrow> False)"

text \<open>What the first event that settles an attempt settles it with, after the events \<open>pre\<close>.\<close>

definition settles_with ::
    "(string \<Rightarrow> js option) \<Rightarrow> bool \<Rightarrow> attempt_event list \<Rightarrow> attempt_event \<Rightarrow> string option + js \<Rightarrow> bool" where
  "settles_with json here pre e r \<longleftrightarrow> list_all chunk_event pre \<and> length (printed_output pre) \<le> 65536 \<and>
     (case e of
        OutputChunk t \<Rightarrow> 65536 < length (printed_output pre @ t) \<and> r = Inl (Some ''adapter_output_limit'')
      | ErrorChunk _ \<Rightarrow> False
      | AttemptTimeout \<Rightarrow> r = Inl (Some ''adapter_timeout'')
      | SpawnError kind \<Rightarrow> (case r of Inr _ \<Rightarrow> False | Inl reason \<Rightarrow> start_reason here (printed_errors pre) kind reason)
      | Closed status \<Rightarrow> (case r of
          Inr v \<Rightarrow> status = Some 0 \<and> clean_answer json (printed_output pre) v
        | Inl reason \<Rightarrow> (status \<noteq> Some 0 \<or> (\<forall>v. \<not> clean_answer json (printed_output pre) v)) \<and>
            exit_reason here (printed_errors pre) status reason))"

definition explained :: "(string \<Rightarrow> js option) \<Rightarrow> bool \<Rightarrow> attempt_event list \<Rightarrow> string option + js \<Rightarrow> bool" where
  "explained json here es r \<longleftrightarrow> (\<exists>pre e post. es = pre @ e # post \<and> settles_with json here pre e r)"

lemma pattern_reasons: "map fst ssh_failure_patterns = printed_reasons"
  by (simp add: ssh_failure_patterns_def printed_reasons_def)

lemma find_reason: "find p xs = Some x \<Longrightarrow> fst x \<in> set (map fst xs)"
  by (auto simp: find_Some_iff)

lemma not_recognised: "find (\<lambda>(reason, p). p (map lower_char (last_chars 4096 t))) ssh_failure_patterns = None \<longleftrightarrow> \<not> recognised t"
  by (auto simp: recognised_def find_None_iff list_ex_iff)

lemma recognised_reason:
  assumes "recognised t"
  shows "\<exists>r \<in> set printed_reasons. classify_ssh_failure t e x = Some r"
proof -
  obtain y where y: "find (\<lambda>(reason, p). p (map lower_char (last_chars 4096 t))) ssh_failure_patterns = Some y"
    using assms not_recognised by blast
  have "fst y \<in> set printed_reasons" using find_reason [OF y] unfolding pattern_reasons .
  then show ?thesis using y by (auto simp: classify_ssh_failure_def split: prod.splits)
qed

lemma classified_exit: "exit_reason False t x (classify_ssh_failure t None x)"
proof (cases "recognised t")
  case True
  then show ?thesis using recognised_reason [OF True, of None x] by (auto simp: exit_reason_def)
next
  case False
  then show ?thesis using not_recognised [of t] by (auto simp: exit_reason_def classify_ssh_failure_def split: option.split)
qed

lemma classified_start: "start_reason False t k (classify_ssh_failure t k None)"
proof (cases "recognised t")
  case True
  then show ?thesis using recognised_reason [OF True, of k None] by (auto simp: start_reason_def)
next
  case False
  then show ?thesis using not_recognised [of t]
    by (auto simp: start_reason_def classify_ssh_failure_def public_reasons_def printed_reasons_def split: option.split)
qed

lemma last_chars_append: "last_chars n (last_chars n s @ t) = last_chars n (s @ t)"
proof (cases "length s \<le> n")
  case False
  then obtain k where "length s = n + k" using le_Suc_ex nat_le_linear by blast
  then show ?thesis by (simp add: last_chars_def add.commute)
qed (simp add: last_chars_def)

lemma recognised_last: "recognised (last_chars 4096 t) = recognised t"
  using last_chars_append [of 4096 t "[]"] by (simp add: recognised_def)

text \<open>The state after some events: unsettled with what they brought, or settled as explained.\<close>

definition attempt_ok :: "(string \<Rightarrow> js option) \<Rightarrow> bool \<Rightarrow> attempt_event list \<Rightarrow> helper_call \<Rightarrow> bool" where
  "attempt_ok json here es a \<longleftrightarrow> (case ta_outcome a of
      None \<Rightarrow> list_all chunk_event es \<and> length (printed_output es) \<le> 65536 \<and> ta_output a = printed_output es \<and>
        ta_stderr a = last_chars 4096 (printed_errors es)
    | Some r \<Rightarrow> explained json here es r)"

lemma explained_more: "explained json here es r \<Longrightarrow> explained json here (es @ fs) r"
  unfolding explained_def by fastforce

lemma explained_now: "settles_with json here es e r \<Longrightarrow> explained json here (es @ [e]) r"
  unfolding explained_def by blast

lemma answer_clean: "helper_answer json out = Some v \<longleftrightarrow> clean_answer json out v"
  by (auto simp: helper_answer_def clean_answer_def split: option.splits)

lemma closed_settles:
  assumes "list_all chunk_event es" "length (printed_output es) \<le> 65536"
  shows "settles_with json here es (Closed status) (case helper_answer json (printed_output es) of
       Some r \<Rightarrow> if status = Some 0 then Inr r
         else Inl (if here then Some ''adapter_check_failed'' else classify_ssh_failure (last_chars 4096 (printed_errors es)) None status)
     | None \<Rightarrow> Inl (if here then Some ''adapter_check_failed'' else classify_ssh_failure (last_chars 4096 (printed_errors es)) None status))"
proof -
  have "exit_reason here (printed_errors es) status
      (if here then Some ''adapter_check_failed'' else classify_ssh_failure (last_chars 4096 (printed_errors es)) None status)"
    using classified_exit [of "last_chars 4096 (printed_errors es)" status] by (simp add: exit_reason_def recognised_last)
  then show ?thesis
    using assms answer_clean [of json "printed_output es"] by (cases "helper_answer json (printed_output es)") (auto simp: settles_with_def)
qed

lemma spawn_settles:
  assumes "list_all chunk_event es" "length (printed_output es) \<le> 65536"
  shows "settles_with json here es (SpawnError kind)
    (Inl (if here then Some ''adapter_spawn_failed'' else classify_ssh_failure (last_chars 4096 (printed_errors es)) kind None))"
  using assms classified_start [of "last_chars 4096 (printed_errors es)" kind]
  by (auto simp: settles_with_def start_reason_def recognised_last split: option.splits)

lemma attempt_step_ok:
  assumes "attempt_ok json here es a"
  shows "attempt_ok json here (es @ [e]) (attempt_step json here e a)"
proof (cases "ta_outcome a")
  case None
  then have s: "list_all chunk_event es" "length (printed_output es) \<le> 65536" "ta_output a = printed_output es"
      "ta_stderr a = last_chars 4096 (printed_errors es)"
    using assms by (simp_all add: attempt_ok_def)
  have limit: "settles_with json here es (OutputChunk t) (Inl (Some ''adapter_output_limit''))" if "65536 < length (printed_output es) + length t" for t
    using s(1,2) that by (simp add: settles_with_def)
  have timeout: "settles_with json here es AttemptTimeout (Inl (Some ''adapter_timeout''))"
    using s(1,2) by (simp add: settles_with_def)
  note settled = explained_now [OF limit] explained_now [OF timeout] explained_now [OF closed_settles [OF s(1,2)]]
    explained_now [OF spawn_settles [OF s(1,2)]]
  show ?thesis
  proof (cases e)
    case (OutputChunk t)
    then show ?thesis using None s settled(1) [of t]
      by (auto simp: attempt_ok_def attempt_step_def finish_attempt_def Let_def chunk_event_def printed_output_def printed_errors_def)
  next
    case (ErrorChunk t)
    then show ?thesis using None s last_chars_append
      by (simp add: attempt_ok_def attempt_step_def chunk_event_def printed_output_def printed_errors_def)
  next
    case (SpawnError kind)
    then show ?thesis using None s(4) settled(4) [of json here kind]
      by (simp add: attempt_ok_def attempt_step_def finish_attempt_def split del: if_split cong: if_cong option.case_cong)
  next
    case (Closed status)
    then show ?thesis using None s(3,4) settled(3) [of json here status]
      by (simp add: attempt_ok_def attempt_step_def finish_attempt_def split del: if_split cong: if_cong option.case_cong)
  next
    case AttemptTimeout
    then show ?thesis using None settled(2) by (simp add: attempt_ok_def attempt_step_def finish_attempt_def)
  qed
next
  case (Some r)
  then show ?thesis using assms explained_more
    by (cases e) (auto simp: attempt_ok_def attempt_step_def finish_attempt_def Let_def split: option.splits)
qed

lemma attempt_run_ok: "attempt_ok json here es (fold (attempt_step json here) es new_helper_call)"
proof (induction es rule: rev_induct)
  case Nil
  show ?case by (simp add: attempt_ok_def new_helper_call_def printed_output_def printed_errors_def last_chars_def)
next
  case (snoc e es)
  then show ?case using attempt_step_ok by simp
qed

lemma attempt_settled: "ta_outcome a = Some r \<Longrightarrow> ta_outcome (fold (attempt_step json here) es a) = Some r"
proof (induction es arbitrary: a)
  case (Cons e es)
  have "ta_outcome (attempt_step json here e a) = Some r"
    using Cons.prems by (cases e) (auto simp: attempt_step_def finish_attempt_def Let_def split: option.splits)
  then show ?case using Cons.IH by simp
qed simp

text \<open>C38: the calls of the service recovery run enrolled helpers only. No two accepted enrolments share an
  identifier or a machine written as a text, each names a service that the gateway owns exclusively, and the command of each of its
  SSH targets is the enrolled helper on its enrolled configuration, free of characters that a shell expands, to a target that is
  not an option. An attempt settles once, by the first event that ends it: with an answer exactly when the process closed
  with status 0 and its whole output, of at most 65536 characters, is a clean JSON object, which is the answer; and else with the reason
  of that event, one of a fixed list and never what SSH printed. Only SSH ended by a signal, or failing without a code, after
  printing nothing recognised, leaves no reason. An attempt without an outcome has neither failed, closed nor run out of time.\<close>

theorem recovery_calls_are_confined:
  "(case recovery_config parse str raw of Inl e \<Rightarrow> True | Inr cs \<Rightarrow> machines_apart cs \<and> list_all enrolled_ok cs) \<and>
   (case ta_outcome (fold (attempt_step json here) es new_helper_call) of
      None \<Rightarrow> list_all chunk_event es \<and> length (printed_output es) \<le> 65536
    | Some r \<Rightarrow> explained json here es r \<and> ta_outcome (fold (attempt_step json here) (es @ fs) new_helper_call) = Some r)"
proof -
  have "keys_apart cs \<and> list_all enrolled_ok cs" if "recovery_config parse str raw = Inr cs" for cs
    using that enroll_all_ok [of parse str "[]"]
    by (auto simp: recovery_config_def keys_apart_def split: js.splits list.splits if_splits)
  then show ?thesis
    using attempt_run_ok [of json here es] keys_machines
    by (auto simp: attempt_ok_def attempt_settled split: sum.splits option.splits)
qed

text \<open>The reason that is missing: SSH was killed and printed nothing that is recognised.\<close>

lemma killed_ssh_has_no_reason:
  "ta_outcome (fold (attempt_step json False) [Closed None] new_helper_call) = Some (Inl None)" if "json [] = None"
  using that by (simp add: attempt_step_def new_helper_call_def finish_attempt_def helper_answer_def) (code_simp)

text \<open>A digest inside an array passes for a digest, and two such arrays are two machines.\<close>

lemma wrapped_machines_share:
  assumes "js_text str (JArr [JStr d]) = d" "digest_text d"
  shows "fingerprint str (JArr [JStr d]) \<and> \<not> same_key_value (JArr [JStr d]) (JArr [JStr d])"
  using assms by (simp add: fingerprint_def same_key_value_def)

end
