(* ===== verification/Media_Cycle.thy ===== *)
theory Media_Cycle
  imports Media_Jobs
begin

text \<open>
  One media run of a worker (\<open>media-cycle.mjs\<close>): its LLM is drained and stopped, the media engine started, the saved jobs
  submitted, observed and collected, the engine stopped and the LLM started and checked again. The cycle awaits one call
  at a time; a state holds the call in hand, what it does with the answer, and the calls so far. \<open>digest\<close> is the SHA-256 of the printed
  identity of a container; receipts that are saved between two calls always succeed, and progress messages are left out.
\<close>

section \<open>Containers\<close>

text \<open>\<open>isDeepStrictEqual\<close>: the order of the fields of an object does not matter.\<close>

function same_js :: "js \<Rightarrow> js \<Rightarrow> bool" where
  "same_js (JObj fs) w = (case w of JObj gs \<Rightarrow> length fs = length gs \<and>
     (\<forall>(k, v) \<in> set fs. k \<in> fst ` set gs \<and> same_js v (fget gs k)) | _ \<Rightarrow> False)"
| "same_js (JArr vs) w = (case w of JArr ws \<Rightarrow> length vs = length ws \<and> (\<forall>(v, w) \<in> set (zip vs ws). same_js v w) | _ \<Rightarrow> False)"
| "same_js JUndef w = (w = JUndef)"
| "same_js JNull w = (w = JNull)"
| "same_js (JBool b) w = (w = JBool b)"
| "same_js (JNum r) w = (w = JNum r)"
| "same_js JNaN w = (w = JNaN)"
| "same_js (JInf b) w = (w = JInf b)"
| "same_js (JStr t) w = (w = JStr t)"
  by pat_completeness auto

lemma size_member: "x \<in> set xs \<Longrightarrow> f x < Suc (size_list f xs)"
  by (induction xs) auto

termination same_js
proof (relation "measure (size \<circ> fst)", goal_cases)
  case (2 fs w gs x k v)
  then have "Suc (size (snd x)) < Suc (size_list (\<lambda>x. Suc (size (snd x))) fs)" "v = snd x"
    using size_member [of x fs "\<lambda>x. Suc (size (snd x))"] by auto
  moreover have "size_prod (\<lambda>x. 0) size = (\<lambda>x :: string \<times> js. Suc (size (snd x)))" by (auto simp: fun_eq_iff)
  ultimately show ?case by simp
next
  case (3 vs w ws x v u)
  then have "size v < Suc (size_list size vs)" using size_member [of v vs size] by (auto dest: set_zip_leftD)
  then show ?case by simp
qed simp

record container =
  cn_id :: js
  cn_image :: js
  cn_config :: js
  cn_host :: js_fields
  cn_mounts :: "(string \<times> js) list"  \<comment> \<open>each with its destination\<close>
  cn_running :: js
  cn_started :: js

text \<open>An unset OOM-killer flag is written as false or as null.\<close>

definition host_settings :: "container \<Rightarrow> js" where
  "host_settings c = JObj (filter (\<lambda>(k, _). k \<noteq> ''OomKillDisable'') (cn_host c) @
     [(''OomKillDisable'', or_else (fget (cn_host c) ''OomKillDisable'') (JBool False))])"

definition sorted_mounts :: "container \<Rightarrow> js" where
  "sorted_mounts c = JArr (map snd (sort_key fst (cn_mounts c)))"

definition unchanged :: "container \<Rightarrow> container \<Rightarrow> bool" where
  "unchanged a b \<longleftrightarrow> same_js (cn_id a) (cn_id b) \<and> same_js (cn_image a) (cn_image b) \<and> same_js (cn_config a) (cn_config b) \<and>
     same_js (host_settings a) (host_settings b) \<and> same_js (sorted_mounts a) (sorted_mounts b)"

section \<open>The engine\<close>

text \<open>Whether the engine has native work; \<open>None\<close> when its answer is no observation.\<close>

definition queue_counts :: "js \<Rightarrow> js list" where
  "queue_counts v = (let d = jget v ''data'' in [jget (jget d ''jobs'') ''queued'', jget (jget d ''jobs'') ''running'', jget d ''queue_size''])"

fun list_length :: "js \<Rightarrow> nat option" where
  "list_length (JArr xs) = Some (length xs)"
| "list_length _ = None"

definition media_idle :: "media_backend \<Rightarrow> js \<Rightarrow> bool option" where
  "media_idle kind v = (case kind of
     AceStep \<Rightarrow> let counts = queue_counts v in
       if list_all (\<lambda>n. case safe_int n of Some i \<Rightarrow> 0 \<le> i | None \<Rightarrow> False) counts then Some (list_all (\<lambda>n. n = jint 0) counts) else None
   | ComfyUi \<Rightarrow> (case (list_length (jget v ''queue_running''), list_length (jget v ''queue_pending'')) of
       (Some n, Some m) \<Rightarrow> Some (n + m = 0) | _ \<Rightarrow> None))"

definition engine_ready :: "media_backend \<Rightarrow> js \<Rightarrow> bool" where
  "engine_ready kind v \<longleftrightarrow> (kind = AceStep \<longrightarrow> jget (jget v ''data'') ''status'' = JStr ''ok'' \<and>
     jget (jget v ''data'') ''models_initialized'' = JBool True)"

text \<open>\<open>mediaBatchCanContinue\<close>: no unassigned job of a higher priority waits.\<close>

definition batch_can_continue :: "media_job \<Rightarrow> media_job list \<Rightarrow> bool" where
  "batch_can_continue next js \<longleftrightarrow> \<not> list_ex (\<lambda>j. mj_state j = JQueued \<and> mj_execution j = None \<and>
     priority_rank (mj_priority next) < priority_rank (mj_priority j)) js"

section \<open>Calls and answers\<close>

datatype box = Llm | Engine

datatype lease_action = PrepareLease | TransitionLease | OwnedLease | FinishLease

datatype media_call =
    InspectRecovery | InspectBox box | Lease lease_action | StopBox box | StartBox box | ConnectEngine | CheckHealth
  | AskBatch string | UploadInput string | ReadCatalog | CheckIdle | SubmitJob string | ObserveJob string | CollectJob string
  | VerifyLlm | PauseCycle

record recovery_seen =
  rv_profile :: js
  rv_listener :: js
  rv_fault :: js
  rv_instance :: js

datatype media_reply =
    CallFailed string | CallDone | RecoverySeen recovery_seen | BoxSeen container | LeaseSeen bool | EngineSaid js | BatchSaid bool
  | Submission submission | Observation native_observation | Collected js

record media_plan =
  mp_kind :: media_backend
  mp_profile :: js
  mp_image :: js
  mp_worker :: string
  mp_operation :: string
  mp_ids :: "string list"

text \<open>What the cycle reads besides the answers: the inputs of a payload, the check of a catalog, the lease on disk.\<close>

record media_env =
  me_world :: media_world
  me_now :: rat
  me_inputs :: "media_job \<Rightarrow> string list option"
  me_catalog :: "js \<Rightarrow> js \<Rightarrow> string option"
  me_intent :: bool
  me_batches :: bool
  me_digest :: "js \<Rightarrow> js \<Rightarrow> string"

datatype media_outcome = ReturnedLlm | FailedReturned | FailedUnchanged | NeedsAttention

datatype media_phase =
    AtInitial | AtBeforeLlm recovery_seen | AtBeforeEngine recovery_seen container | AtPrepare | AtTransition | AtSameLlm | AtSameEngine
  | AtStopLlm | AtLlmDown | AtConnect | AtStartEngine | AtHealth nat | AtHealthBox nat string | AtHealthPause nat
  | AtBatch | AtUpload "string list" | AtCatalog | AtIdle | AtLease | AtSubmit | AtObserve | AtObservePause | AtCollect
  | BackOwned | BackEngineUp | BackIdle | BackIdlePause | BackStopEngine | BackEngineSame | BackLlmSame | BackStartLlm | BackLlm | BackLlmPause
  | BackVerify | BackFinish | QuietOwned | QuietVerify | QuietFinish | Ended media_outcome

record media_cycle =
  cy_phase :: media_phase
  cy_store :: media_store
  cy_before :: "(container \<times> container) option"
  cy_stopped :: bool
  cy_started :: bool
  cy_ready :: bool
  cy_active :: string
  cy_rest :: "string list"
  cy_error :: "string option"
  cy_calls :: "(media_call \<times> media_reply option) list"  \<comment> \<open>the latest first; without an answer the one in hand\<close>

definition call :: "media_call \<Rightarrow> media_phase \<Rightarrow> media_cycle \<Rightarrow> media_cycle" where
  "call c p s = s\<lparr>cy_phase := p, cy_calls := (c, None) # cy_calls s\<rparr>"

definition with_reply :: "media_reply \<Rightarrow> media_cycle \<Rightarrow> media_cycle" where
  "with_reply a s = (case cy_calls s of (c, None) # l \<Rightarrow> s\<lparr>cy_calls := (c, Some a) # l\<rparr> | _ \<Rightarrow> s)"

section \<open>The way back\<close>

definition attention :: "string \<Rightarrow> media_cycle \<Rightarrow> media_cycle" where
  "attention why s = s\<lparr>cy_error := Some why, cy_phase := Ended NeedsAttention\<rparr>"

definition begin_back :: "media_env \<Rightarrow> media_cycle \<Rightarrow> media_cycle" where
  "begin_back e s = (if cy_stopped s then call (Lease OwnedLease) BackOwned s
     else if me_intent e then call (Lease OwnedLease) QuietOwned s
     else s\<lparr>cy_phase := Ended FailedUnchanged\<rparr>)"

text \<open>The catch of the whole cycle: a job that is still queued is marked failed.\<close>

definition cycle_fails :: "media_env \<Rightarrow> string \<Rightarrow> media_cycle \<Rightarrow> media_cycle" where
  "cycle_fails e why s = begin_back e (s\<lparr>cy_error := Some why,
     cy_store := (case get_job (me_world e) (cy_active s) (cy_store s) of
         Some j \<Rightarrow> if mj_state j = JQueued
           then (case update_job (me_world e) (me_now e) (cy_active s) (\<lambda>j. j\<lparr>mj_state := JFailed, mj_detail := Some why\<rparr>) (cy_store s) of
             Inr t \<Rightarrow> t | Inl _ \<Rightarrow> cy_store s)
           else cy_store s
       | None \<Rightarrow> cy_store s)\<rparr>)"

section \<open>The jobs\<close>

definition start_inputs :: "media_env \<Rightarrow> media_plan \<Rightarrow> string list \<Rightarrow> media_cycle \<Rightarrow> media_cycle" where
  "start_inputs e p inputs s = (case inputs of
     i # is \<Rightarrow> call (UploadInput i) (AtUpload is) s
   | [] \<Rightarrow> if mp_kind p = ComfyUi then call ReadCatalog AtCatalog s else call CheckIdle AtIdle s)"

definition prepare_job :: "media_env \<Rightarrow> media_plan \<Rightarrow> media_cycle \<Rightarrow> media_cycle" where
  "prepare_job e p s = (case get_job (me_world e) (cy_active s) (cy_store s) of
     None \<Rightarrow> cycle_fails e ''Unknown media job'' s
   | Some j \<Rightarrow> (case me_inputs e j of None \<Rightarrow> cycle_fails e ''Unknown input'' s | Some is \<Rightarrow> start_inputs e p is s))"

text \<open>The next job of the batch, or the way back behind the last one.\<close>

definition next_job :: "media_env \<Rightarrow> media_plan \<Rightarrow> media_cycle \<Rightarrow> media_cycle" where
  "next_job e p s = (case cy_rest s of
     [] \<Rightarrow> begin_back e s
   | i # is \<Rightarrow> let t = s\<lparr>cy_active := i, cy_rest := is\<rparr> in
       if get_job (me_world e) i (cy_store s) = None then cycle_fails e ''Unknown media job'' t
       else if mp_ids p \<noteq> [] \<and> i \<noteq> hd (mp_ids p) \<and> me_batches e then call (AskBatch i) AtBatch t
       else prepare_job e p t)"

text \<open>One observation: \<open>MediaJobs.observe\<close> asks the engine only about a job that may still run there.\<close>

definition look_at_job :: "media_env \<Rightarrow> media_plan \<Rightarrow> media_cycle \<Rightarrow> media_cycle" where
  "look_at_job e p s = (case get_job (me_world e) (cy_active s) (cy_store s) of
     Some j \<Rightarrow>
       if mj_state j = JCompleted then
         (case collect_begin (me_world e) (me_now e) (cy_active s) (cy_store s) of
            Inl _ \<Rightarrow> cycle_fails e ''Unknown media job'' s
          | Inr t \<Rightarrow> if outputs_ready j then next_job e p (s\<lparr>cy_store := t\<rparr>) else call (CollectJob (cy_active s)) AtCollect (s\<lparr>cy_store := t\<rparr>))
       else if mj_state j = JFailed then cycle_fails e (case mj_detail j of Some d \<Rightarrow> d | None \<Rightarrow> ''Native media generation failed; inspect the saved native task receipt'') s
       else call PauseCycle AtObservePause s
   | None \<Rightarrow> call PauseCycle AtObservePause s)"

definition observe_job :: "media_env \<Rightarrow> media_plan \<Rightarrow> media_cycle \<Rightarrow> media_cycle" where
  "observe_job e p s = (case observe_whom (me_world e) (cy_active s) (mp_kind p) (cy_store s) of
     Inl _ \<Rightarrow> call PauseCycle AtObservePause s
   | Inr None \<Rightarrow> look_at_job e p s
   | Inr (Some n) \<Rightarrow> call (ObserveJob n) AtObserve s)"

section \<open>The answer to a call\<close>

text \<open>The calls up to the first job; \<open>why\<close> is the message of an assertion that did not hold.\<close>

definition reply_error :: "media_reply \<Rightarrow> string" where
  "reply_error a = (case a of CallFailed why \<Rightarrow> why | _ \<Rightarrow> ''Unexpected answer'')"

definition before_lease :: "media_env \<Rightarrow> media_plan \<Rightarrow> media_reply \<Rightarrow> media_cycle \<Rightarrow> media_cycle" where
  "before_lease e p a s = (case (cy_phase s, a) of
     (AtInitial, RecoverySeen r) \<Rightarrow>
       if rv_profile r = mp_profile p \<and> rv_listener r = JBool True \<and> rv_fault r = JNull then call (InspectBox Llm) (AtBeforeLlm r) s
       else cycle_fails e ''The LLM is not as enrolled'' s
   | (AtBeforeLlm r, BoxSeen c) \<Rightarrow> call (InspectBox Engine) (AtBeforeEngine r c) s
   | (AtBeforeEngine r c, BoxSeen m) \<Rightarrow>
       let t = s\<lparr>cy_before := Some (c, m)\<rparr> in
       if rv_instance r = JStr (me_digest e (cn_id c) (cn_started c)) \<and> cn_running c = JBool True \<and> cn_running m = JBool False \<and>
          cn_image m = mp_image p then call (Lease PrepareLease) AtPrepare t
       else cycle_fails e ''Media enrollment and recovery must identify the same LLM container'' t
   | _ \<Rightarrow> cycle_fails e (reply_error a) s)"

definition take_over :: "media_env \<Rightarrow> media_plan \<Rightarrow> media_reply \<Rightarrow> media_cycle \<Rightarrow> media_cycle" where
  "take_over e p a s = (case (cy_phase s, a) of
     (AtPrepare, CallDone) \<Rightarrow> call (Lease TransitionLease) AtTransition s
   | (AtTransition, LeaseSeen owned) \<Rightarrow> if owned then call (InspectBox Llm) AtSameLlm s else cycle_fails e ''The lease is not owned'' s
   | (AtSameLlm, BoxSeen c) \<Rightarrow> (case cy_before s of
       Some (b, _) \<Rightarrow> if unchanged c b then call (InspectBox Engine) AtSameEngine s else cycle_fails e ''Container changed'' s
     | None \<Rightarrow> cycle_fails e ''No container'' s)
   | (AtSameEngine, BoxSeen c) \<Rightarrow> (case cy_before s of
       Some (_, b) \<Rightarrow> if unchanged c b then call (StopBox Llm) AtStopLlm (s\<lparr>cy_stopped := True\<rparr>) else cycle_fails e ''Container changed'' s
     | None \<Rightarrow> cycle_fails e ''No container'' s)
   | (AtStopLlm, CallDone) \<Rightarrow> call (InspectBox Llm) AtLlmDown s
   | (AtLlmDown, BoxSeen c) \<Rightarrow> if cn_running c = JBool False then call ConnectEngine AtConnect s else cycle_fails e ''The LLM still runs'' s
   | (AtConnect, CallDone) \<Rightarrow> call (StartBox Engine) AtStartEngine (s\<lparr>cy_started := True\<rparr>)
   | (AtStartEngine, CallDone) \<Rightarrow> call CheckHealth (AtHealth 0) s
   | _ \<Rightarrow> cycle_fails e (reply_error a) s)"

text \<open>At most 120 checks of the engine; after a failed one it must still run.\<close>

definition await_engine :: "media_env \<Rightarrow> media_plan \<Rightarrow> media_reply \<Rightarrow> media_cycle \<Rightarrow> media_cycle" where
  "await_engine e p a s = (case (cy_phase s, a) of
     (AtHealth n, EngineSaid v) \<Rightarrow> if engine_ready (mp_kind p) v then next_job e p (s\<lparr>cy_ready := True\<rparr>)
       else call (InspectBox Engine) (AtHealthBox n ''ACE-Step model is still loading'') s
   | (AtHealth n, _) \<Rightarrow> call (InspectBox Engine) (AtHealthBox n (reply_error a)) s
   | (AtHealthBox n why, BoxSeen c) \<Rightarrow> if truthy (cn_running c) then call PauseCycle (AtHealthPause n) s
       else cycle_fails e (''Media container exited before readiness. '' @ why) s
   | (AtHealthPause n, CallDone) \<Rightarrow> if Suc n < 120 then call CheckHealth (AtHealth (Suc n)) s
       else cycle_fails e ''Media readiness not established'' s
   | _ \<Rightarrow> cycle_fails e (reply_error a) s)"

text \<open>A job is submitted once, when the engine has no work and the lease is still owned.\<close>

definition submit_job :: "media_env \<Rightarrow> media_plan \<Rightarrow> media_reply \<Rightarrow> media_cycle \<Rightarrow> media_cycle" where
  "submit_job e p a s = (case (cy_phase s, a) of
     (AtBatch, BatchSaid b) \<Rightarrow> if b then prepare_job e p s else begin_back e s
   | (AtBatch, _) \<Rightarrow> begin_back e s
   | (AtUpload is, CallDone) \<Rightarrow> start_inputs e p is s
   | (AtCatalog, EngineSaid v) \<Rightarrow> (case get_job (me_world e) (cy_active s) (cy_store s) of
       None \<Rightarrow> cycle_fails e ''Unknown media job'' s
     | Some j \<Rightarrow> (case me_catalog e (mj_payload j) v of Some why \<Rightarrow> cycle_fails e why s | None \<Rightarrow> call CheckIdle AtIdle s))
   | (AtIdle, EngineSaid v) \<Rightarrow> (case media_idle (mp_kind p) v of
       Some True \<Rightarrow> call (Lease TransitionLease) AtLease s
     | _ \<Rightarrow> cycle_fails e ''Media engine already has native work'' s)
   | (AtLease, LeaseSeen owned) \<Rightarrow> if \<not> owned then cycle_fails e ''The lease is not owned'' s
       else (case dispatch_begin (me_world e) (me_now e) (cy_active s) (mp_kind p) (mp_worker p) (cy_store s) of
         Inl _ \<Rightarrow> cycle_fails e ''Media job has already been submitted or needs reconciliation'' s
       | Inr t \<Rightarrow> call (SubmitJob (cy_active s)) AtSubmit (s\<lparr>cy_store := t\<rparr>))
   | (AtSubmit, Submission r) \<Rightarrow> (case dispatch_end (me_world e) (me_now e) (cy_active s) r (cy_store s) of
         Inl _ \<Rightarrow> cycle_fails e ''Unknown media job'' s
       | Inr t \<Rightarrow> observe_job e p (s\<lparr>cy_store := t\<rparr>))
   | _ \<Rightarrow> cycle_fails e (reply_error a) s)"

definition follow_job :: "media_env \<Rightarrow> media_plan \<Rightarrow> media_reply \<Rightarrow> media_cycle \<Rightarrow> media_cycle" where
  "follow_job e p a s = (case (cy_phase s, a) of
     (AtObserve, Observation ob) \<Rightarrow> (case observe_end (me_world e) (me_now e) (cy_active s) ob (cy_store s) of
         Inl _ \<Rightarrow> call PauseCycle AtObservePause s
       | Inr t \<Rightarrow> look_at_job e p (s\<lparr>cy_store := t\<rparr>))
   | (AtObserve, _) \<Rightarrow> call PauseCycle AtObservePause s
   | (AtObservePause, CallDone) \<Rightarrow> observe_job e p s
   | (AtCollect, Collected v) \<Rightarrow> (case collect_end (me_world e) (me_now e) (cy_active s) (Inr v) (cy_store s) of
         Inl _ \<Rightarrow> cycle_fails e ''Unknown media job'' s
       | Inr t \<Rightarrow> next_job e p (s\<lparr>cy_store := t\<rparr>))
   | (AtCollect, _) \<Rightarrow> (case collect_end (me_world e) (me_now e) (cy_active s) (Inl (reply_error a)) (cy_store s) of
         Inl _ \<Rightarrow> cycle_fails e ''Unknown media job'' s
       | Inr t \<Rightarrow> cycle_fails e (reply_error a) (s\<lparr>cy_store := t\<rparr>))
   | _ \<Rightarrow> cycle_fails e (reply_error a) s)"

text \<open>The media engine is stopped only without native work, unless it never came up.\<close>

definition native_of :: "media_env \<Rightarrow> media_cycle \<Rightarrow> bool option" where
  "native_of e s = map_option (\<lambda>j. case mj_native j of Some n \<Rightarrow> n \<noteq> [] | None \<Rightarrow> False) (get_job (me_world e) (cy_active s) (cy_store s))"

definition stop_engine :: "media_env \<Rightarrow> media_plan \<Rightarrow> media_reply \<Rightarrow> media_cycle \<Rightarrow> media_cycle" where
  "stop_engine e p a s = (case (cy_phase s, a) of
     (BackOwned, LeaseSeen owned) \<Rightarrow> if \<not> owned then attention ''The lease is not owned'' s
       else if cy_started s then call (InspectBox Engine) BackEngineUp s else call (InspectBox Engine) BackEngineSame s
   | (BackEngineUp, BoxSeen c) \<Rightarrow> if \<not> truthy (cn_running c) then call (InspectBox Engine) BackEngineSame s
       else (case native_of e s of None \<Rightarrow> attention ''Unknown media job'' s
         | Some native \<Rightarrow> if native \<or> cy_ready s then call CheckIdle BackIdle s else call (StopBox Engine) BackStopEngine s)
   | (BackIdle, EngineSaid v) \<Rightarrow> (case media_idle (mp_kind p) v of
       None \<Rightarrow> attention ''ACE-Step queue observation unavailable'' s
     | Some True \<Rightarrow> call (StopBox Engine) BackStopEngine s
     | Some False \<Rightarrow> call PauseCycle BackIdlePause s)
   | (BackIdlePause, CallDone) \<Rightarrow> call CheckIdle BackIdle s
   | (BackStopEngine, CallDone) \<Rightarrow> call (InspectBox Engine) BackEngineSame s
   | _ \<Rightarrow> attention (reply_error a) s)"

text \<open>The LLM is started again if its container is the same; a failed observation of its return is repeated.\<close>

definition restore_llm :: "media_env \<Rightarrow> media_plan \<Rightarrow> media_reply \<Rightarrow> media_cycle \<Rightarrow> media_cycle" where
  "restore_llm e p a s = (case (cy_phase s, a) of
     (BackEngineSame, BoxSeen c) \<Rightarrow> (case cy_before s of
         Some (_, b) \<Rightarrow> call (InspectBox Llm) BackLlmSame (if unchanged c b then s else s\<lparr>cy_error := Some ''Container changed''\<rparr>)
       | None \<Rightarrow> attention ''No container'' s)
   | (BackEngineSame, _) \<Rightarrow> call (InspectBox Llm) BackLlmSame (s\<lparr>cy_error := Some (reply_error a)\<rparr>)
   | (BackLlmSame, BoxSeen c) \<Rightarrow> (case cy_before s of
         Some (b, _) \<Rightarrow> if unchanged c b then call (StartBox Llm) BackStartLlm s else attention ''Container changed'' s
       | None \<Rightarrow> attention ''No container'' s)
   | (BackStartLlm, CallDone) \<Rightarrow> call InspectRecovery BackLlm s
   | (BackLlm, RecoverySeen r) \<Rightarrow> if rv_profile r \<noteq> mp_profile p then attention ''Another profile'' s
       else if truthy (rv_listener r) \<and> \<not> truthy (rv_fault r) then call VerifyLlm BackVerify s
       else call PauseCycle BackLlmPause s
   | (BackLlm, CallFailed _) \<Rightarrow> call PauseCycle BackLlmPause s
   | (BackLlmPause, CallDone) \<Rightarrow> call InspectRecovery BackLlm s
   | (BackVerify, CallDone) \<Rightarrow> call (Lease FinishLease) BackFinish s
   | (BackFinish, LeaseSeen readmitted) \<Rightarrow> if \<not> readmitted then attention ''The worker was not readmitted'' s
       else s\<lparr>cy_phase := Ended (if cy_error s = None then ReturnedLlm else FailedReturned)\<rparr>
   | _ \<Rightarrow> attention (reply_error a) s)"

definition give_lease_back :: "media_reply \<Rightarrow> media_cycle \<Rightarrow> media_cycle" where
  "give_lease_back a s = (case (cy_phase s, a) of
     (QuietOwned, LeaseSeen owned) \<Rightarrow> if owned then call VerifyLlm QuietVerify s else attention ''The lease is not owned'' s
   | (QuietVerify, CallDone) \<Rightarrow> call (Lease FinishLease) QuietFinish s
   | (QuietFinish, LeaseSeen readmitted) \<Rightarrow> if readmitted then s\<lparr>cy_phase := Ended FailedReturned\<rparr> else attention ''The worker was not readmitted'' s
   | _ \<Rightarrow> attention (reply_error a) s)"

definition cycle_step :: "media_env \<Rightarrow> media_plan \<Rightarrow> media_reply \<Rightarrow> media_cycle \<Rightarrow> media_cycle" where
  "cycle_step e p a s =
     (let t = with_reply a s in
      if cy_phase s \<in> {AtPrepare, AtTransition, AtSameLlm, AtSameEngine, AtStopLlm, AtLlmDown, AtConnect, AtStartEngine} then take_over e p a t
      else case cy_phase s of
        Ended _ \<Rightarrow> s
      | AtInitial \<Rightarrow> before_lease e p a t
      | AtBeforeLlm _ \<Rightarrow> before_lease e p a t
      | AtBeforeEngine _ _ \<Rightarrow> before_lease e p a t
      | AtHealth _ \<Rightarrow> await_engine e p a t
      | AtHealthBox _ _ \<Rightarrow> await_engine e p a t
      | AtHealthPause _ \<Rightarrow> await_engine e p a t
      | AtObserve \<Rightarrow> follow_job e p a t
      | AtObservePause \<Rightarrow> follow_job e p a t
      | AtCollect \<Rightarrow> follow_job e p a t
      | BackOwned \<Rightarrow> stop_engine e p a t
      | BackEngineUp \<Rightarrow> stop_engine e p a t
      | BackIdle \<Rightarrow> stop_engine e p a t
      | BackIdlePause \<Rightarrow> stop_engine e p a t
      | BackStopEngine \<Rightarrow> stop_engine e p a t
      | BackEngineSame \<Rightarrow> restore_llm e p a t
      | BackLlmSame \<Rightarrow> restore_llm e p a t
      | BackStartLlm \<Rightarrow> restore_llm e p a t
      | BackLlm \<Rightarrow> restore_llm e p a t
      | BackLlmPause \<Rightarrow> restore_llm e p a t
      | BackVerify \<Rightarrow> restore_llm e p a t
      | BackFinish \<Rightarrow> restore_llm e p a t
      | QuietOwned \<Rightarrow> give_lease_back a t
      | QuietVerify \<Rightarrow> give_lease_back a t
      | QuietFinish \<Rightarrow> give_lease_back a t
      | _ \<Rightarrow> submit_job e p a t)"

definition cycle_start :: "media_plan \<Rightarrow> media_store \<Rightarrow> media_cycle" where
  "cycle_start p store = call InspectRecovery AtInitial \<lparr>cy_phase = AtInitial, cy_store = store, cy_before = None, cy_stopped = False,
     cy_started = False, cy_ready = False, cy_active = mp_operation p, cy_rest = mp_ids p, cy_error = None, cy_calls = []\<rparr>"

definition run_cycle :: "media_env \<Rightarrow> media_plan \<Rightarrow> media_reply list \<Rightarrow> media_store \<Rightarrow> media_cycle" where
  "run_cycle e p as store = fold (cycle_step e p) as (cycle_start p store)"

end
