(* ===== verification/Media_Safety.thy ===== *)
theory Media_Safety
  imports Media_Cycle Media_Once
begin

text \<open>
  An abstract protocol for the machine that an LLM and a media engine share, and the proof that a media run follows it
  whatever its calls answer.
\<close>

section \<open>The protocol\<close>

datatype llm_use = LlmUp | LlmDown | LlmBack

record shared_machine =
  sm_llm :: llm_use
  sm_engine :: bool  \<comment> \<open>the engine may be running\<close>
  sm_box :: "container option"  \<comment> \<open>the LLM container as first seen\<close>
  sm_same :: bool
  sm_down :: bool
  sm_owned :: bool
  sm_ready :: bool
  sm_idle :: bool
  sm_sent :: "string list"
  sm_checked :: bool
  sm_verified :: bool
  sm_finished :: bool

definition unused_machine :: shared_machine where
  "unused_machine = \<lparr>sm_llm = LlmUp, sm_engine = False, sm_box = None, sm_same = False, sm_down = False, sm_owned = False, sm_ready = False,
     sm_idle = False, sm_sent = [], sm_checked = False, sm_verified = False, sm_finished = False\<rparr>"

text \<open>What a call may change as soon as it is made, and what its answer shows.\<close>

definition call_made :: "media_call \<Rightarrow> shared_machine \<Rightarrow> shared_machine" where
  "call_made c g = (case c of
     StopBox Llm \<Rightarrow> g\<lparr>sm_llm := LlmDown, sm_down := False\<rparr>
   | StartBox Llm \<Rightarrow> g\<lparr>sm_llm := LlmBack, sm_checked := False\<rparr>
   | StartBox Engine \<Rightarrow> g\<lparr>sm_engine := True\<rparr>
   | SubmitJob i \<Rightarrow> g\<lparr>sm_idle := False, sm_sent := sm_sent g @ [i]\<rparr>
   | _ \<Rightarrow> g)"

definition reply_seen :: "media_plan \<Rightarrow> media_call \<Rightarrow> media_reply \<Rightarrow> shared_machine \<Rightarrow> shared_machine" where
  "reply_seen p c a g = (case (c, a) of
     (InspectBox Llm, BoxSeen b) \<Rightarrow> (case sm_box g of
        None \<Rightarrow> g\<lparr>sm_box := Some b\<rparr>
      | Some old \<Rightarrow> g\<lparr>sm_same := unchanged b old, sm_down := (cn_running b = JBool False)\<rparr>)
   | (InspectBox Engine, BoxSeen b) \<Rightarrow> if truthy (cn_running b) then g else g\<lparr>sm_engine := False\<rparr>
   | (StopBox Engine, CallDone) \<Rightarrow> g\<lparr>sm_engine := False\<rparr>
   | (Lease TransitionLease, LeaseSeen b) \<Rightarrow> g\<lparr>sm_owned := b\<rparr>
   | (Lease FinishLease, LeaseSeen b) \<Rightarrow> g\<lparr>sm_finished := b\<rparr>
   | (CheckHealth, EngineSaid v) \<Rightarrow> if engine_ready (mp_kind p) v then g\<lparr>sm_ready := True\<rparr> else g
   | (CheckIdle, EngineSaid v) \<Rightarrow> g\<lparr>sm_idle := (media_idle (mp_kind p) v = Some True)\<rparr>
   | (InspectRecovery, RecoverySeen r) \<Rightarrow> g\<lparr>sm_checked := (rv_profile r = mp_profile p \<and> truthy (rv_listener r) \<and> \<not> truthy (rv_fault r))\<rparr>
   | (VerifyLlm, CallDone) \<Rightarrow> g\<lparr>sm_verified := True\<rparr>
   | _ \<Rightarrow> g)"

fun machine_of :: "media_plan \<Rightarrow> (media_call \<times> media_reply option) list \<Rightarrow> shared_machine" where
  "machine_of p [] = unused_machine"
| "machine_of p ((c, a) # l) = (let g = call_made c (machine_of p l) in case a of None \<Rightarrow> g | Some r \<Rightarrow> reply_seen p c r g)"

text \<open>When a call may be made: the LLM is stopped once, under an owned lease and unchanged; the engine is started only when
  the LLM is down; a job is submitted once, to a ready engine without work, under the lease; the engine is stopped only without work
  or if it never came up; the LLM is started only when the engine is off and its container the same; it is verified only when it is
  up or seen ready, and the lease ends only behind a verification.\<close>

definition may_call :: "media_call \<Rightarrow> shared_machine \<Rightarrow> bool" where
  "may_call c g \<longleftrightarrow> (case c of
     StopBox Llm \<Rightarrow> sm_llm g = LlmUp \<and> sm_owned g \<and> sm_same g
   | StartBox Engine \<Rightarrow> sm_llm g = LlmDown \<and> sm_down g
   | SubmitJob i \<Rightarrow> sm_llm g = LlmDown \<and> sm_ready g \<and> sm_idle g \<and> sm_owned g \<and> i \<notin> set (sm_sent g)
   | StopBox Engine \<Rightarrow> sm_llm g = LlmDown \<and> (sm_idle g \<or> sm_sent g = [] \<and> \<not> sm_ready g)
   | StartBox Llm \<Rightarrow> sm_llm g = LlmDown \<and> \<not> sm_engine g \<and> sm_same g
   | VerifyLlm \<Rightarrow> sm_llm g = LlmUp \<or> sm_llm g = LlmBack \<and> sm_checked g
   | Lease FinishLease \<Rightarrow> sm_llm g \<noteq> LlmDown \<and> sm_verified g
   | _ \<Rightarrow> True)"

fun protocol_kept :: "media_plan \<Rightarrow> (media_call \<times> media_reply option) list \<Rightarrow> bool" where
  "protocol_kept p [] = True"
| "protocol_kept p ((c, a) # l) = (may_call c (machine_of p l) \<and> protocol_kept p l)"

text \<open>How a run may end: only an outcome that asks for attention leaves the LLM down.\<close>

definition ended_well :: "media_phase \<Rightarrow> string option \<Rightarrow> shared_machine \<Rightarrow> bool" where
  "ended_well ph err g \<longleftrightarrow> (case ph of
     Ended ReturnedLlm \<Rightarrow> err = None \<and> sm_llm g = LlmBack \<and> sm_verified g \<and> sm_finished g
   | Ended FailedReturned \<Rightarrow> sm_llm g \<noteq> LlmDown \<and> sm_verified g \<and> sm_finished g
   | Ended FailedUnchanged \<Rightarrow> sm_llm g = LlmUp
   | _ \<Rightarrow> True)"

section \<open>What a phase knows\<close>

definition hand_of :: "media_phase \<Rightarrow> media_call \<Rightarrow> bool" where
  "hand_of ph c \<longleftrightarrow> (case ph of
     AtInitial \<Rightarrow> c = InspectRecovery | AtBeforeLlm _ \<Rightarrow> c = InspectBox Llm | AtBeforeEngine _ _ \<Rightarrow> c = InspectBox Engine
   | AtPrepare \<Rightarrow> c = Lease PrepareLease | AtTransition \<Rightarrow> c = Lease TransitionLease | AtSameLlm \<Rightarrow> c = InspectBox Llm
   | AtSameEngine \<Rightarrow> c = InspectBox Engine | AtStopLlm \<Rightarrow> c = StopBox Llm | AtLlmDown \<Rightarrow> c = InspectBox Llm | AtConnect \<Rightarrow> c = ConnectEngine
   | AtStartEngine \<Rightarrow> c = StartBox Engine | AtHealth _ \<Rightarrow> c = CheckHealth | AtHealthBox _ _ \<Rightarrow> c = InspectBox Engine | AtHealthPause _ \<Rightarrow> c = PauseCycle
   | AtBatch \<Rightarrow> (\<exists>i. c = AskBatch i) | AtUpload _ \<Rightarrow> (\<exists>i. c = UploadInput i) | AtCatalog \<Rightarrow> c = ReadCatalog | AtIdle \<Rightarrow> c = CheckIdle
   | AtLease \<Rightarrow> c = Lease TransitionLease | AtSubmit \<Rightarrow> (\<exists>i. c = SubmitJob i) | AtObserve \<Rightarrow> (\<exists>i. c = ObserveJob i)
   | AtObservePause \<Rightarrow> c = PauseCycle | AtCollect \<Rightarrow> (\<exists>i. c = CollectJob i)
   | BackOwned \<Rightarrow> c = Lease OwnedLease | BackEngineUp \<Rightarrow> c = InspectBox Engine | BackIdle \<Rightarrow> c = CheckIdle | BackIdlePause \<Rightarrow> c = PauseCycle
   | BackStopEngine \<Rightarrow> c = StopBox Engine | BackEngineSame \<Rightarrow> c = InspectBox Engine | BackLlmSame \<Rightarrow> c = InspectBox Llm
   | BackStartLlm \<Rightarrow> c = StartBox Llm | BackLlm \<Rightarrow> c = InspectRecovery | BackLlmPause \<Rightarrow> c = PauseCycle | BackVerify \<Rightarrow> c = VerifyLlm
   | BackFinish \<Rightarrow> c = Lease FinishLease | QuietOwned \<Rightarrow> c = Lease OwnedLease | QuietVerify \<Rightarrow> c = VerifyLlm | QuietFinish \<Rightarrow> c = Lease FinishLease
   | Ended _ \<Rightarrow> False)"

definition phase_knows :: "media_phase \<Rightarrow> media_cycle \<Rightarrow> shared_machine \<Rightarrow> bool" where
  "phase_knows ph s g \<longleftrightarrow> (case ph of
     AtInitial \<Rightarrow> sm_llm g = LlmUp \<and> sm_box g = None \<and> cy_before s = None
   | AtBeforeLlm _ \<Rightarrow> sm_llm g = LlmUp \<and> sm_box g = None \<and> cy_before s = None
   | AtBeforeEngine _ c \<Rightarrow> sm_llm g = LlmUp \<and> sm_box g = Some c \<and> cy_before s = None
   | AtPrepare \<Rightarrow> sm_llm g = LlmUp \<and> sm_box g \<noteq> None | AtTransition \<Rightarrow> sm_llm g = LlmUp \<and> sm_box g \<noteq> None
   | AtSameLlm \<Rightarrow> sm_llm g = LlmUp \<and> sm_box g \<noteq> None \<and> sm_owned g
   | AtSameEngine \<Rightarrow> sm_llm g = LlmUp \<and> sm_box g \<noteq> None \<and> sm_owned g \<and> sm_same g
   | AtStopLlm \<Rightarrow> sm_llm g = LlmDown | AtLlmDown \<Rightarrow> sm_llm g = LlmDown \<and> sm_box g \<noteq> None | AtConnect \<Rightarrow> sm_llm g = LlmDown \<and> sm_down g
   | AtStartEngine \<Rightarrow> sm_llm g = LlmDown | AtHealth _ \<Rightarrow> sm_llm g = LlmDown | AtHealthBox _ _ \<Rightarrow> sm_llm g = LlmDown
   | AtHealthPause _ \<Rightarrow> sm_llm g = LlmDown
   | AtBatch \<Rightarrow> sm_llm g = LlmDown \<and> sm_ready g | AtUpload _ \<Rightarrow> sm_llm g = LlmDown \<and> sm_ready g | AtCatalog \<Rightarrow> sm_llm g = LlmDown \<and> sm_ready g
   | AtIdle \<Rightarrow> sm_llm g = LlmDown \<and> sm_ready g | AtLease \<Rightarrow> sm_llm g = LlmDown \<and> sm_ready g \<and> sm_idle g
   | AtSubmit \<Rightarrow> sm_llm g = LlmDown \<and> sm_ready g | AtObserve \<Rightarrow> sm_llm g = LlmDown \<and> sm_ready g
   | AtObservePause \<Rightarrow> sm_llm g = LlmDown \<and> sm_ready g | AtCollect \<Rightarrow> sm_llm g = LlmDown \<and> sm_ready g
   | BackOwned \<Rightarrow> sm_llm g = LlmDown | BackEngineUp \<Rightarrow> sm_llm g = LlmDown | BackIdle \<Rightarrow> sm_llm g = LlmDown | BackIdlePause \<Rightarrow> sm_llm g = LlmDown
   | BackStopEngine \<Rightarrow> sm_llm g = LlmDown | BackEngineSame \<Rightarrow> sm_llm g = LlmDown \<and> \<not> sm_engine g
   | BackLlmSame \<Rightarrow> sm_llm g = LlmDown \<and> \<not> sm_engine g \<and> sm_box g \<noteq> None | BackStartLlm \<Rightarrow> sm_llm g = LlmBack | BackLlm \<Rightarrow> sm_llm g = LlmBack
   | BackLlmPause \<Rightarrow> sm_llm g = LlmBack | BackVerify \<Rightarrow> sm_llm g = LlmBack | BackFinish \<Rightarrow> sm_llm g = LlmBack \<and> sm_verified g
   | QuietOwned \<Rightarrow> sm_llm g = LlmUp | QuietVerify \<Rightarrow> sm_llm g = LlmUp | QuietFinish \<Rightarrow> sm_llm g = LlmUp \<and> sm_verified g
   | Ended _ \<Rightarrow> ended_well ph (cy_error s) g)"

definition state_knows :: "string list \<Rightarrow> media_cycle \<Rightarrow> shared_machine \<Rightarrow> bool" where
  "state_knows sent0 s g \<longleftrightarrow> queue_sound (cy_store s) \<and> cy_stopped s = (sm_llm g \<noteq> LlmUp) \<and> (sm_engine g \<longrightarrow> cy_started s) \<and>
     (sm_llm g \<noteq> LlmUp \<longrightarrow> sm_box g \<noteq> None) \<and> cy_ready s = sm_ready g \<and> (sm_sent g \<noteq> [] \<longrightarrow> sm_ready g) \<and> ms_submitted (cy_store s) = sent0 @ sm_sent g \<and>
     (case cy_before s of None \<Rightarrow> True | Some (b, _) \<Rightarrow> sm_box g = Some b)"

definition follows :: "media_plan \<Rightarrow> string list \<Rightarrow> media_cycle \<Rightarrow> bool" where
  "follows p sent0 s \<longleftrightarrow> protocol_kept p (cy_calls s) \<and> state_knows sent0 s (machine_of p (cy_calls s)) \<and>
     phase_knows (cy_phase s) s (machine_of p (cy_calls s)) \<and>
     ((\<exists>x. cy_phase s = Ended x) \<or> (\<exists>c l. cy_calls s = (c, None) # l \<and> hand_of (cy_phase s) c))"

text \<open>Between the answer and the next call: no call in hand.\<close>

definition settled :: "media_plan \<Rightarrow> string list \<Rightarrow> media_cycle \<Rightarrow> shared_machine \<Rightarrow> bool" where
  "settled p sent0 s g \<longleftrightarrow> protocol_kept p (cy_calls s) \<and> machine_of p (cy_calls s) = g \<and> state_knows sent0 s g"

lemma follows_call:
  assumes "protocol_kept p (cy_calls s)" "machine_of p (cy_calls s) = g" "may_call c g" "state_knows sent0 s (call_made c g)" "phase_knows ph s (call_made c g)" "hand_of ph c"
  shows "follows p sent0 (call c ph s)"
proof -
  have "state_knows sent0 (call c ph s) h = state_knows sent0 s h" "phase_knows ph (call c ph s) h = phase_knows ph s h" for h
    by (simp_all add: state_knows_def phase_knows_def call_def cong: media_phase.case_cong)
  then show ?thesis using assms by (simp add: follows_def call_def Let_def)
qed

lemma follows_plain:
  "settled p sent0 s g \<Longrightarrow> may_call c g \<Longrightarrow> call_made c g = g \<Longrightarrow> phase_knows ph s g \<Longrightarrow> hand_of ph c \<Longrightarrow> follows p sent0 (call c ph s)"
  by (rule follows_call) (auto simp: settled_def)

lemma reply_llm [simp]: "sm_llm (reply_seen p c a g) = sm_llm g" "sm_sent (reply_seen p c a g) = sm_sent g"
  by (simp_all add: reply_seen_def split: media_call.split media_reply.split box.split lease_action.split option.split)

lemma reply_state:
  assumes "state_knows sent0 s g" "c \<noteq> CheckHealth"
  shows "state_knows sent0 s (reply_seen p c a g)"
proof -
  have "sm_engine (reply_seen p c a g) \<longrightarrow> sm_engine g" "sm_ready (reply_seen p c a g) = sm_ready g"
    "sm_box g \<noteq> None \<longrightarrow> sm_box (reply_seen p c a g) = sm_box g"
    using assms(2) by (simp_all add: reply_seen_def split: media_call.split media_reply.split box.split lease_action.split option.split)
  then show ?thesis using assms(1) by (auto simp: state_knows_def split: option.splits)
qed

lemma follows_attention: "settled p sent0 s g \<Longrightarrow> follows p sent0 (attention why s)"
  by (auto simp: follows_def settled_def attention_def phase_knows_def ended_well_def state_knows_def)

lemma follows_ended: "settled p sent0 s g \<Longrightarrow> ended_well (Ended x) (cy_error s) g \<Longrightarrow> follows p sent0 (s\<lparr>cy_phase := Ended x\<rparr>)"
  by (auto simp: follows_def settled_def phase_knows_def state_knows_def)

lemma settled_error: "settled p sent0 s g \<Longrightarrow> settled p sent0 (s\<lparr>cy_error := err\<rparr>) g"
  by (simp add: settled_def state_knows_def)

lemma follows_back: "settled p sent0 s g \<Longrightarrow> sm_llm g \<noteq> LlmBack \<Longrightarrow> follows p sent0 (begin_back e s)"
proof -
  assume s: "settled p sent0 s g" and g: "sm_llm g \<noteq> LlmBack"
  have stopped: "cy_stopped s = (sm_llm g \<noteq> LlmUp)" using s by (simp add: settled_def state_knows_def)
  have made: "call_made (Lease OwnedLease) g = g" "may_call (Lease OwnedLease) g" by (simp_all add: call_made_def may_call_def)
  show ?thesis
  proof (cases "cy_stopped s \<or> me_intent e")
    case True
    then show ?thesis using g stopped made
      by (auto simp: begin_back_def phase_knows_def hand_of_def intro!: follows_plain [OF s]) (metis llm_use.exhaust)+
  next
    case False
    then show ?thesis using s g stopped by (simp add: begin_back_def follows_def settled_def phase_knows_def ended_well_def state_knows_def)
  qed
qed

lemma settled_store:
  "settled p sent0 s g \<Longrightarrow> queue_sound t \<Longrightarrow> ms_submitted t = ms_submitted (cy_store s) \<Longrightarrow> settled p sent0 (s\<lparr>cy_store := t\<rparr>) g"
  by (simp add: settled_def state_knows_def)

lemma follows_fails:
  assumes "settled p sent0 s g" "sm_llm g \<noteq> LlmBack"
  shows "follows p sent0 (cycle_fails e why s)"
proof -
  let ?t = "case get_job (me_world e) (cy_active s) (cy_store s) of
         Some j \<Rightarrow> if mj_state j = JQueued
           then (case update_job (me_world e) (me_now e) (cy_active s) (\<lambda>j. j\<lparr>mj_state := JFailed, mj_detail := Some why\<rparr>) (cy_store s) of
             Inr t \<Rightarrow> t | Inl _ \<Rightarrow> cy_store s)
           else cy_store s
       | None \<Rightarrow> cy_store s"
  have q: "queue_sound (cy_store s)" using assms(1) by (simp add: settled_def state_knows_def)
  have "queue_sound ?t \<and> ms_submitted ?t = ms_submitted (cy_store s)"
    using q update_job_sound [OF q, of "me_world e" "me_now e" "cy_active s" "\<lambda>j. j\<lparr>mj_state := JFailed, mj_detail := Some why\<rparr>"]
    by (auto split: option.split sum.split)
  then have "settled p sent0 (s\<lparr>cy_error := Some why, cy_store := ?t\<rparr>) g"
    using settled_store [OF settled_error [OF assms(1)]] by simp
  then show ?thesis unfolding cycle_fails_def by (rule follows_back) (rule assms(2))
qed

text \<open>A call that is answered.\<close>

lemma follows_answered:
  assumes "follows p sent0 s" "\<And>x. cy_phase s \<noteq> Ended x"
  obtains c l where "cy_calls s = (c, None) # l" "hand_of (cy_phase s) c" "with_reply a s = s\<lparr>cy_calls := (c, Some a) # l\<rparr>"
    "phase_knows (cy_phase s) (with_reply a s) (call_made c (machine_of p l))" "state_knows sent0 s (call_made c (machine_of p l))"
    "protocol_kept p ((c, Some a) # l)"
proof -
  obtain c l where c: "cy_calls s = (c, None) # l" "hand_of (cy_phase s) c" using assms by (auto simp: follows_def)
  have "phase_knows (cy_phase s) (s\<lparr>cy_calls := x\<rparr>) g = phase_knows (cy_phase s) s g" for x g
    by (simp add: phase_knows_def cong: media_phase.case_cong)
  then show ?thesis using that [of c l] assms(1) c by (simp add: follows_def with_reply_def Let_def)
qed

section \<open>Each answer keeps the protocol\<close>

lemmas call_simps = call_made_def may_call_def phase_knows_def hand_of_def

lemma llm_down: "x \<noteq> LlmBack \<Longrightarrow> x \<noteq> LlmUp \<Longrightarrow> x = LlmDown"
  by (cases x) simp_all

lemma before_lease_follows:
  assumes t: "settled p sent0 t (reply_seen p c a g)" and c: "hand_of (cy_phase t) c" and k: "phase_knows (cy_phase t) t g"
    and ph: "cy_phase t = AtInitial \<or> (\<exists>r. cy_phase t = AtBeforeLlm r) \<or> (\<exists>r c. cy_phase t = AtBeforeEngine r c)"
  shows "follows p sent0 (before_lease e p a t)"
proof -
  have up: "sm_llm g = LlmUp" using k ph by (auto simp: phase_knows_def)
  have fail: "follows p sent0 (cycle_fails e why t)" for why using follows_fails [OF t] up by simp
  from ph consider "cy_phase t = AtInitial" | r where "cy_phase t = AtBeforeLlm r" | r b where "cy_phase t = AtBeforeEngine r b" by blast
  then show ?thesis
  proof cases
    case 1
    then show ?thesis using k c fail
      by (cases a) (auto simp: before_lease_def reply_seen_def call_simps intro!: follows_plain [OF t])
  next
    case 2
    then show ?thesis using k c fail
      by (cases a) (auto simp: before_lease_def reply_seen_def call_simps intro!: follows_plain [OF t])
  next
    case (3 r b)
    have known: "settled p sent0 (t\<lparr>cy_before := Some (b, m)\<rparr>) (reply_seen p c a g)" for m
      using t k c 3 by (auto simp: settled_def state_knows_def phase_knows_def hand_of_def reply_seen_def split: media_reply.splits)
    show ?thesis using 3 k c fail follows_fails [OF known] up
      by (cases a) (auto simp: before_lease_def Let_def call_simps reply_seen_def intro!: follows_plain [OF known])
  qed
qed

lemma take_over_follows:
  assumes t: "settled p sent0 t (reply_seen p c a g)" and c: "hand_of (cy_phase t) c" and k: "phase_knows (cy_phase t) t g"
    and ph: "cy_phase t \<in> {AtPrepare, AtTransition, AtSameLlm, AtSameEngine, AtStopLlm, AtLlmDown, AtConnect, AtStartEngine}"
  shows "follows p sent0 (take_over e p a t)"
proof -
  have llm: "sm_llm g \<noteq> LlmBack" using k ph by (auto simp: phase_knows_def)
  have fail: "follows p sent0 (cycle_fails e why t)" for why using follows_fails [OF t] llm by simp
  have box: "cy_before t = Some (x, y) \<Longrightarrow> sm_box (reply_seen p c a g) = Some x" for x y using t by (simp add: settled_def state_knows_def)
  have boxed: "sm_llm g = LlmDown \<Longrightarrow> \<exists>y. sm_box (reply_seen p c a g) = Some y" using t by (auto simp: settled_def state_knows_def)
  from ph consider "cy_phase t \<in> {AtPrepare, AtTransition, AtStopLlm, AtStartEngine}" | "cy_phase t = AtSameLlm" | "cy_phase t = AtSameEngine"
    | "cy_phase t = AtLlmDown" | "cy_phase t = AtConnect" by blast
  then show ?thesis
  proof cases
    case 1
    then show ?thesis using k c fail boxed
      by (cases a) (auto simp: take_over_def reply_seen_def call_simps intro!: follows_plain [OF t])
  next
    case 2
    show ?thesis using 2 k c fail box
      by (cases a) (auto simp: take_over_def call_simps reply_seen_def split: option.splits intro!: follows_plain [OF t])
  next
    case 3
    show ?thesis
    proof (cases "\<exists>b x y. a = BoxSeen b \<and> cy_before t = Some (x, y) \<and> unchanged b y")
      case True
      then obtain b x y where b: "a = BoxSeen b" "cy_before t = Some (x, y)" "unchanged b y" by blast
      have "follows p sent0 (call (StopBox Llm) AtStopLlm (t\<lparr>cy_stopped := True\<rparr>))"
        by (rule follows_call [of _ _ "reply_seen p c a g"])
          (use t k c 3 b in \<open>auto simp: settled_def state_knows_def call_simps reply_seen_def\<close>)
      then show ?thesis using 3 b by (simp add: take_over_def)
    next
      case False
      then show ?thesis using 3 fail by (auto simp: take_over_def split: media_reply.split option.split)
    qed
  next
    case 4
    then show ?thesis using k c fail
      by (cases a) (auto simp: take_over_def reply_seen_def call_simps split: option.splits intro!: follows_plain [OF t])
  next
    case 5
    have g: "c = ConnectEngine" "sm_llm g = LlmDown" "sm_down g" using 5 k c by (simp_all add: phase_knows_def hand_of_def)
    have "follows p sent0 (call (StartBox Engine) AtStartEngine (t\<lparr>cy_started := True\<rparr>))" if "a = CallDone"
    proof -
      have "reply_seen p c a g = g" using g that by (simp add: reply_seen_def)
      then have "settled p sent0 t g" using t by simp
      then show ?thesis using g by (intro follows_call [of p _ g]) (auto simp: settled_def state_knows_def call_simps split: option.splits)
    qed
    then show ?thesis using 5 fail by (cases a) (auto simp: take_over_def)
  qed
qed

section \<open>The jobs\<close>

definition at_work :: "media_plan \<Rightarrow> string list \<Rightarrow> media_cycle \<Rightarrow> shared_machine \<Rightarrow> bool" where
  "at_work p sent0 s g \<longleftrightarrow> settled p sent0 s g \<and> sm_llm g = LlmDown \<and> sm_ready g"

lemma work_fails: "at_work p sent0 s g \<Longrightarrow> follows p sent0 (cycle_fails e why s)"
  by (rule follows_fails [of _ _ _ g]) (simp_all add: at_work_def)

lemma work_back: "at_work p sent0 s g \<Longrightarrow> follows p sent0 (begin_back e s)"
  by (rule follows_back [of _ _ _ g]) (simp_all add: at_work_def)

lemma work_call:
  "at_work p sent0 s g \<Longrightarrow> c \<in> {CheckIdle, ReadCatalog, PauseCycle} \<or> (\<exists>i. c = UploadInput i \<or> c = AskBatch i \<or> c = ObserveJob i \<or> c = CollectJob i) \<Longrightarrow>
   hand_of ph c \<Longrightarrow> ph \<in> {AtBatch, AtCatalog, AtIdle, AtObserve, AtObservePause, AtCollect} \<or> (\<exists>is. ph = AtUpload is) \<Longrightarrow> follows p sent0 (call c ph s)"
  by (rule follows_plain [of _ _ _ g]) (auto simp: at_work_def call_made_def may_call_def phase_knows_def)

lemma work_active: "at_work p sent0 s g \<Longrightarrow> at_work p sent0 (s\<lparr>cy_active := i, cy_rest := r\<rparr>) g"
  by (simp add: at_work_def settled_def state_knows_def)

lemma work_store: "at_work p sent0 s g \<Longrightarrow> queue_sound t \<Longrightarrow> ms_submitted t = ms_submitted (cy_store s) \<Longrightarrow> at_work p sent0 (s\<lparr>cy_store := t\<rparr>) g"
  by (simp add: at_work_def settled_store)

lemma work_sound: "at_work p sent0 s g \<Longrightarrow> queue_sound (cy_store s)"
  by (simp add: at_work_def settled_def state_knows_def)

lemma start_inputs_follows: "at_work p sent0 s g \<Longrightarrow> follows p sent0 (start_inputs e p is s)"
  by (auto simp: start_inputs_def hand_of_def split: list.split intro!: work_call)

lemma prepare_job_follows: "at_work p sent0 s g \<Longrightarrow> follows p sent0 (prepare_job e p s)"
  by (auto simp: prepare_job_def split: option.split intro: work_fails start_inputs_follows)

lemma next_job_follows: "at_work p sent0 s g \<Longrightarrow> follows p sent0 (next_job e p s)"
  using work_active [of p sent0 s g]
  by (auto simp: next_job_def Let_def hand_of_def split: list.split intro: work_back work_fails prepare_job_follows intro!: work_call)

lemma collect_begin_keeps: "queue_sound s \<Longrightarrow> collect_begin w now i s = Inr t \<Longrightarrow> queue_sound t \<and> ms_submitted t = ms_submitted s"
proof -
  assume s: "queue_sound s" and b: "collect_begin w now i s = Inr t"
  have "queue_sound (x\<lparr>ms_collecting := l\<rparr>) = queue_sound x" for x l by (simp add: queue_sound_def)
  then show ?thesis
    using s b update_job_sound [OF s, of w now i "\<lambda>j. j\<lparr>mj_outputs := Some OutCopying\<rparr>"]
    by (auto simp: collect_begin_def split: if_splits option.splits sum.splits)
qed

lemma collect_end_keeps: "queue_sound s \<Longrightarrow> collect_end w now i r s = Inr t \<Longrightarrow> queue_sound t \<and> ms_submitted t = ms_submitted s"
proof -
  assume s: "queue_sound s" and b: "collect_end w now i r s = Inr t"
  have "queue_sound (x\<lparr>ms_collecting := l\<rparr>) = queue_sound x" for x l by (simp add: queue_sound_def)
  moreover obtain u where "update_job w now i (\<lambda>j. j\<lparr>mj_outputs := Some (case r of Inl why \<Rightarrow> OutFailed why | Inr files \<Rightarrow> OutReady files)\<rparr>) s = Inr u"
    "t = u\<lparr>ms_collecting := removeAll i (ms_collecting u)\<rparr>"
    using b by (auto simp: collect_end_def split: sum.splits)
  ultimately show ?thesis using update_job_sound [OF s] by (metis (no_types, lifting) media_job.ext_inject media_job.surjective media_job.update_convs(14) media_store.select_convs(3) media_store.surjective media_store.update_convs(2))
qed

text \<open>A store that is still sound, with the same submissions.\<close>

definition store_kept :: "media_store \<Rightarrow> media_store \<Rightarrow> bool" where
  "store_kept s t \<longleftrightarrow> queue_sound t \<and> ms_submitted t = ms_submitted s"

lemma update_keeps:
  assumes "update_job w now i f s = Inr t" "queue_sound s"
    "\<And>j. mj_id (f j) = mj_id j \<and> mj_key_hash (f j) = mj_key_hash j \<and> mj_execution (f j) = mj_execution j \<and> (mj_state (f j) = JQueued \<longrightarrow> mj_state j = JQueued)"
  shows "store_kept s t"
  using update_job_sound [OF assms(2,1,3)] by (simp add: store_kept_def)

lemma dispatch_end_keeps: "dispatch_end w now i r s = Inr t \<Longrightarrow> queue_sound s \<Longrightarrow> store_kept s t"
  by (cases r) (auto simp: dispatch_end_def elim!: update_keeps split: if_splits)

lemma observe_end_keeps: "observe_end w now i ob s = Inr t \<Longrightarrow> queue_sound s \<Longrightarrow> store_kept s t"
  by (cases "ob_state ob = ''unknown''")
    (auto simp: observe_end_def observed_state_def elim!: update_keeps split: if_splits)

lemma look_at_job_follows: "at_work p sent0 s g \<Longrightarrow> follows p sent0 (look_at_job e p s)"
proof -
  assume s: "at_work p sent0 s g"
  have "at_work p sent0 (s\<lparr>cy_store := t\<rparr>) g" if "collect_begin (me_world e) (me_now e) (cy_active s) (cy_store s) = Inr t" for t
    using work_store [OF s] collect_begin_keeps [OF work_sound [OF s] that] by simp
  then show ?thesis using s
    by (auto simp: look_at_job_def hand_of_def split: option.split sum.split intro: work_fails next_job_follows intro!: work_call)
qed

lemma observe_job_follows: "at_work p sent0 s g \<Longrightarrow> follows p sent0 (observe_job e p s)"
  by (auto simp: observe_job_def hand_of_def split: sum.split option.split intro: look_at_job_follows intro!: work_call)

lemma at_work_reply: "settled p sent0 t (reply_seen p c a g) \<Longrightarrow> sm_llm g = LlmDown \<Longrightarrow> sm_ready g \<Longrightarrow> at_work p sent0 t (reply_seen p c a g)"
proof -
  have "sm_ready g \<Longrightarrow> sm_ready (reply_seen p c a g)"
    by (simp add: reply_seen_def split: media_call.split media_reply.split box.split lease_action.split option.split)
  then show "settled p sent0 t (reply_seen p c a g) \<Longrightarrow> sm_llm g = LlmDown \<Longrightarrow> sm_ready g \<Longrightarrow> at_work p sent0 t (reply_seen p c a g)"
    by (simp add: at_work_def)
qed

lemma dispatch_follows:
  assumes w: "at_work p sent0 s g" and g: "sm_idle g" "sm_owned g" and
    d: "dispatch_begin w now (cy_active s) b worker (cy_store s) = Inr t"
  shows "follows p sent0 (call (SubmitJob (cy_active s)) AtSubmit (s\<lparr>cy_store := t\<rparr>))"
proof -
  have q: "queue_sound t" by (rule dispatch_begin_sound [OF work_sound [OF w] d])
  have st: "settled p sent0 s g" "sm_llm g = LlmDown" "sm_ready g" using w by (simp_all add: at_work_def)
  obtain u f where u: "update_job w now (cy_active s) f (cy_store s) = Inr u" "t = u\<lparr>ms_submitted := ms_submitted u @ [cy_active s]\<rparr>"
    using d by (auto simp: dispatch_begin_def split: option.splits if_splits sum.splits)
  then have sub: "ms_submitted t = sent0 @ sm_sent g @ [cy_active s]"
    using st(1) by (auto simp: update_job_def put_job_def settled_def state_knows_def split: option.splits)
  then have "cy_active s \<notin> set (sm_sent g)" using q by (simp add: queue_sound_def)
  then show ?thesis using st g q sub
    by (intro follows_call [of p _ g]) (auto simp: settled_def state_knows_def call_simps split: option.splits)
qed

lemma submit_job_follows:
  assumes t: "settled p sent0 t (reply_seen p c a g)" and c: "hand_of (cy_phase t) c" and k: "phase_knows (cy_phase t) t g"
    and ph: "cy_phase t \<in> {AtBatch, AtCatalog, AtIdle, AtLease, AtSubmit} \<or> (\<exists>is. cy_phase t = AtUpload is)"
  shows "follows p sent0 (submit_job e p a t)"
proof -
  have "sm_llm g = LlmDown" "sm_ready g" using k ph by (auto simp: phase_knows_def)
  then have w: "at_work p sent0 t (reply_seen p c a g)" using at_work_reply t by blast
  note facts = work_fails [OF w] work_back [OF w] prepare_job_follows [OF w] start_inputs_follows [OF w]
  from ph consider "cy_phase t = AtBatch" | us where "cy_phase t = AtUpload us" | "cy_phase t = AtCatalog" | "cy_phase t = AtIdle"
    | "cy_phase t = AtLease" | "cy_phase t = AtSubmit" by blast
  then show ?thesis
  proof cases
    case 1
    then show ?thesis using facts by (cases a) (auto simp: submit_job_def)
  next
    case 2
    then show ?thesis using facts by (cases a) (auto simp: submit_job_def)
  next
    case 3
    then show ?thesis using facts by (cases a) (auto simp: submit_job_def hand_of_def split: option.split intro!: work_call [OF w])
  next
    case 4
    have "follows p sent0 (call (Lease TransitionLease) AtLease t)" if "a = EngineSaid v" "media_idle (mp_kind p) v = Some True" for v
      using that 4 c w by (intro follows_plain [OF t]) (auto simp: call_simps reply_seen_def at_work_def)
    then show ?thesis using 4 facts by (cases a) (auto simp: submit_job_def split: option.split bool.split)
  next
    case 5
    have "sm_idle (reply_seen p c a g)" using 5 c k by (cases a) (auto simp: hand_of_def phase_knows_def reply_seen_def)
    moreover have "a = LeaseSeen True \<Longrightarrow> sm_owned (reply_seen p c a g)" using 5 c by (simp add: hand_of_def reply_seen_def)
    ultimately show ?thesis using 5 facts dispatch_follows [OF w]
      by (cases a) (auto simp: submit_job_def split: sum.split)
  next
    case 6
    have "follows p sent0 (observe_job e p (t\<lparr>cy_store := u\<rparr>))" if "dispatch_end w now i r (cy_store t) = Inr u" for w now i r u
      using work_store [OF w] dispatch_end_keeps [OF that work_sound [OF w]] by (intro observe_job_follows [of _ _ _ "reply_seen p c a g"]) (simp add: store_kept_def)
    then show ?thesis using 6 facts by (cases a) (auto simp: submit_job_def split: sum.split)
  qed
qed

lemma follow_job_follows:
  assumes t: "settled p sent0 t (reply_seen p c a g)" and c: "hand_of (cy_phase t) c" and k: "phase_knows (cy_phase t) t g"
    and ph: "cy_phase t \<in> {AtObserve, AtObservePause, AtCollect}"
  shows "follows p sent0 (follow_job e p a t)"
proof -
  have "sm_llm g = LlmDown" "sm_ready g" using k ph by (auto simp: phase_knows_def)
  then have w: "at_work p sent0 t (reply_seen p c a g)" using at_work_reply t by blast
  have pause: "follows p sent0 (call PauseCycle AtObservePause t)" by (rule work_call [OF w]) (simp_all add: hand_of_def)
  from ph consider "cy_phase t = AtObserve" | "cy_phase t = AtObservePause" | "cy_phase t = AtCollect" by blast
  then show ?thesis
  proof cases
    case 1
    have "follows p sent0 (look_at_job e p (t\<lparr>cy_store := u\<rparr>))" if "observe_end w now i ob (cy_store t) = Inr u" for w now i ob u
      using work_store [OF w] observe_end_keeps [OF that work_sound [OF w]] by (intro look_at_job_follows [of _ _ _ "reply_seen p c a g"]) (simp add: store_kept_def)
    then show ?thesis using 1 pause by (cases a) (auto simp: follow_job_def split: sum.split)
  next
    case 2
    then show ?thesis using observe_job_follows [OF w] work_fails [OF w] by (cases a) (auto simp: follow_job_def)
  next
    case 3
    have "follows p sent0 (next_job e p (t\<lparr>cy_store := u\<rparr>))" "follows p sent0 (cycle_fails e why (t\<lparr>cy_store := u\<rparr>))"
      if "collect_end w now i r (cy_store t) = Inr u" for w now i r u why
      using work_store [OF w, of u] collect_end_keeps [OF work_sound [OF w] that] next_job_follows work_fails by blast+
    then show ?thesis using 3 work_fails [OF w] by (cases a) (auto simp: follow_job_def split: sum.split)
  qed
qed

lemma await_engine_follows:
  assumes l: "protocol_kept p (cy_calls t)" "machine_of p (cy_calls t) = reply_seen p c a g" and st: "state_knows sent0 t g"
    and c: "hand_of (cy_phase t) c" and k: "phase_knows (cy_phase t) t g"
    and ph: "(\<exists>n. cy_phase t = AtHealth n) \<or> (\<exists>n w. cy_phase t = AtHealthBox n w) \<or> (\<exists>n. cy_phase t = AtHealthPause n)"
  shows "follows p sent0 (await_engine e p a t)"
proof -
  have llm: "sm_llm g = LlmDown" using k ph by (auto simp: phase_knows_def)
  have same: "reply_seen p c a g = g \<Longrightarrow> settled p sent0 t (reply_seen p c a g)" using l st by (simp add: settled_def)
  from ph consider n where "cy_phase t = AtHealth n" | "(\<exists>n w. cy_phase t = AtHealthBox n w) \<or> (\<exists>n. cy_phase t = AtHealthPause n)" by blast
  then show ?thesis
  proof cases
    case 1
    show ?thesis
    proof (cases "\<exists>v. a = EngineSaid v \<and> engine_ready (mp_kind p) v")
      case True
      then obtain v where v: "a = EngineSaid v" "engine_ready (mp_kind p) v" by blast
      have "at_work p sent0 (t\<lparr>cy_ready := True\<rparr>) (reply_seen p c a g)"
        using l st llm c 1 v by (auto simp: at_work_def settled_def state_knows_def hand_of_def reply_seen_def split: option.splits)
      then show ?thesis using 1 v next_job_follows by (simp add: await_engine_def)
    next
      case False
      then have "reply_seen p c a g = g" using 1 c by (cases a) (auto simp: hand_of_def reply_seen_def)
      then have "follows p sent0 (call (InspectBox Engine) (AtHealthBox n w) t)" for w
        using llm by (intro follows_plain [OF same]) (simp_all add: call_simps)
      then show ?thesis using 1 False by (cases a) (auto simp: await_engine_def)
    qed
  next
    case 2
    then have "c \<noteq> CheckHealth" using c by (auto simp: hand_of_def)
    then have t: "settled p sent0 t (reply_seen p c a g)" using l reply_state [OF st] by (simp add: settled_def)
    have "follows p sent0 (cycle_fails e why t)" for why using follows_fails [OF t] llm by simp
    then show ?thesis using 2 llm
      by (cases a) (auto simp: await_engine_def call_simps intro!: follows_plain [OF t])
  qed
qed

lemma stop_engine_follows:
  assumes t: "settled p sent0 t (reply_seen p c a g)" and c: "hand_of (cy_phase t) c" and k: "phase_knows (cy_phase t) t g"
    and ph: "cy_phase t \<in> {BackOwned, BackEngineUp, BackIdle, BackIdlePause, BackStopEngine}"
  shows "follows p sent0 (stop_engine e p a t)"
proof -
  let ?g = "reply_seen p c a g"
  have llm: "sm_llm ?g = LlmDown" using k ph by (auto simp: phase_knows_def)
  have st: "sm_engine ?g \<longrightarrow> cy_started t" "cy_ready t = sm_ready ?g" "sm_sent ?g \<noteq> [] \<longrightarrow> sm_ready ?g"
    using t by (simp_all add: settled_def state_knows_def)
  note fail = follows_attention [OF t]
  from ph consider "cy_phase t = BackOwned" | "cy_phase t = BackEngineUp" | "cy_phase t = BackIdle" | "cy_phase t = BackIdlePause"
    | "cy_phase t = BackStopEngine" by blast
  then show ?thesis
  proof cases
    case 1
    then show ?thesis using fail llm st
      by (cases a) (auto simp: stop_engine_def call_made_def may_call_def phase_knows_def hand_of_def intro!: follows_plain [OF t])
  next
    case 2
    have "\<not> sm_engine ?g" if "a = BoxSeen b" "\<not> truthy (cn_running b)" for b
      using 2 c that by (simp add: hand_of_def reply_seen_def)
    then show ?thesis using 2 fail llm st
      by (cases a) (auto simp: stop_engine_def call_made_def may_call_def phase_knows_def hand_of_def split: option.split intro!: follows_plain [OF t])
  next
    case 3
    have "sm_idle ?g" if "a = EngineSaid v" "media_idle (mp_kind p) v = Some True" for v
      using 3 c that by (simp add: hand_of_def reply_seen_def)
    then show ?thesis using 3 fail llm st
      by (cases a) (auto simp: stop_engine_def call_made_def may_call_def phase_knows_def hand_of_def split: option.split bool.split intro!: follows_plain [OF t])
  next
    case 4
    then show ?thesis using fail llm
      by (cases a) (auto simp: stop_engine_def call_made_def may_call_def phase_knows_def hand_of_def intro!: follows_plain [OF t])
  next
    case 5
    have "a = CallDone \<Longrightarrow> \<not> sm_engine ?g" using 5 c by (simp add: hand_of_def reply_seen_def)
    then show ?thesis using 5 fail llm
      by (cases a) (auto simp: stop_engine_def call_made_def may_call_def phase_knows_def hand_of_def intro!: follows_plain [OF t])
  qed
qed

lemma restore_llm_follows:
  assumes t: "settled p sent0 t (reply_seen p c a g)" and c: "hand_of (cy_phase t) c" and k: "phase_knows (cy_phase t) t g"
    and ph: "cy_phase t \<in> {BackEngineSame, BackLlmSame, BackStartLlm, BackLlm, BackLlmPause, BackVerify, BackFinish}"
  shows "follows p sent0 (restore_llm e p a t)"
proof -
  let ?g = "reply_seen p c a g"
  note fail = follows_attention [OF t] and more = call_made_def may_call_def phase_knows_def hand_of_def
  have box: "cy_before t = Some (x, y) \<Longrightarrow> sm_box ?g = Some x" "sm_llm g = LlmDown \<Longrightarrow> \<exists>z. sm_box ?g = Some z" for x y
    using t by (auto simp: settled_def state_knows_def)
  from ph consider "cy_phase t = BackEngineSame" | "cy_phase t = BackLlmSame" | "cy_phase t = BackStartLlm" | "cy_phase t = BackLlm"
    | "cy_phase t = BackLlmPause" | "cy_phase t = BackVerify" | "cy_phase t = BackFinish" by blast
  then show ?thesis
  proof cases
    case 1
    have g: "sm_llm ?g = LlmDown" "\<not> sm_engine ?g" using 1 c k by (cases a; auto simp: phase_knows_def hand_of_def reply_seen_def)+
    have "follows p sent0 (call (InspectBox Llm) BackLlmSame (t\<lparr>cy_error := err\<rparr>))" "follows p sent0 (call (InspectBox Llm) BackLlmSame t)" for err
      using g box(2) 1 k by (auto simp: more intro!: follows_plain [OF t] follows_plain [OF settled_error [OF t]])
    then show ?thesis using 1 fail by (cases a) (auto simp: restore_llm_def split: option.split)
  next
    case 2
    have g: "sm_llm g = LlmDown" "\<not> sm_engine g" "sm_box g \<noteq> None" "c = InspectBox Llm" using 2 c k by (auto simp: phase_knows_def hand_of_def)
    have "follows p sent0 (call (StartBox Llm) BackStartLlm t)" if "a = BoxSeen b" "cy_before t = Some (x, y)" "unchanged b x" for b x y
    proof -
      obtain z where z: "sm_box g = Some z" using g(3) by auto
      then have "sm_box ?g = Some z" "sm_same ?g = unchanged b z" "\<not> sm_engine ?g" using that(1) g by (simp_all add: reply_seen_def)
      moreover have "state_knows sent0 t ?g" "protocol_kept p (cy_calls t)" "machine_of p (cy_calls t) = ?g" using t by (simp_all add: settled_def)
      ultimately show ?thesis using that g box(1) [OF that(2)]
        by (intro follows_call [of p t ?g]) (auto simp: more state_knows_def split: option.splits)
    qed
    then show ?thesis using 2 fail by (cases a) (auto simp: restore_llm_def split: option.split)
  next
    case 3
    then show ?thesis using fail c k by (cases a) (auto simp: restore_llm_def more intro!: follows_plain [OF t])
  next
    case 4
    have "sm_checked ?g" if "a = RecoverySeen r" "rv_profile r = mp_profile p" "truthy (rv_listener r)" "\<not> truthy (rv_fault r)" for r
      using that 4 c by (simp add: hand_of_def reply_seen_def)
    then show ?thesis using 4 fail k by (cases a) (auto simp: restore_llm_def more intro!: follows_plain [OF t])
  next
    case 5
    then show ?thesis using fail k by (cases a) (auto simp: restore_llm_def more intro!: follows_plain [OF t])
  next
    case 6
    have "a = CallDone \<Longrightarrow> sm_verified ?g" using 6 c by (simp add: hand_of_def reply_seen_def)
    then show ?thesis using 6 fail k by (cases a) (auto simp: restore_llm_def more intro!: follows_plain [OF t])
  next
    case 7
    have g: "sm_llm ?g = LlmBack" "sm_verified ?g" using 7 c k by (cases a; auto simp: phase_knows_def hand_of_def reply_seen_def)+
    have "a = LeaseSeen True \<Longrightarrow> sm_finished ?g" using 7 c by (simp add: hand_of_def reply_seen_def)
    then show ?thesis using 7 fail g
      by (cases a) (auto simp: restore_llm_def ended_well_def intro!: follows_ended [OF t])
  qed
qed

lemma give_lease_back_follows:
  assumes t: "settled p sent0 t (reply_seen p c a g)" and c: "hand_of (cy_phase t) c" and k: "phase_knows (cy_phase t) t g"
    and ph: "cy_phase t \<in> {QuietOwned, QuietVerify, QuietFinish}"
  shows "follows p sent0 (give_lease_back a t)"
proof -
  let ?g = "reply_seen p c a g"
  note fail = follows_attention [OF t] and more = call_made_def may_call_def phase_knows_def hand_of_def
  have up: "sm_llm ?g = LlmUp" using k ph by (auto simp: phase_knows_def)
  from ph consider "cy_phase t = QuietOwned" | "cy_phase t = QuietVerify" | "cy_phase t = QuietFinish" by blast
  then show ?thesis
  proof cases
    case 1
    then show ?thesis using fail up by (cases a) (auto simp: give_lease_back_def more intro!: follows_plain [OF t])
  next
    case 2
    have "a = CallDone \<Longrightarrow> sm_verified ?g" using 2 c by (simp add: hand_of_def reply_seen_def)
    then show ?thesis using 2 fail up by (cases a) (auto simp: give_lease_back_def more intro!: follows_plain [OF t])
  next
    case 3
    have "sm_verified ?g" using 3 c k by (cases a; auto simp: phase_knows_def hand_of_def reply_seen_def)
    moreover have "a = LeaseSeen True \<Longrightarrow> sm_finished ?g" using 3 c by (simp add: hand_of_def reply_seen_def)
    ultimately show ?thesis using 3 fail up
      by (cases a) (auto simp: give_lease_back_def ended_well_def intro!: follows_ended [OF t])
  qed
qed

lemma cycle_step_follows:
  assumes "follows p sent0 s"
  shows "follows p sent0 (cycle_step e p a s)"
proof (cases "\<exists>x. cy_phase s = Ended x")
  case True
  then show ?thesis using assms by (auto simp: cycle_step_def Let_def)
next
  case False
  then have "\<And>x. cy_phase s \<noteq> Ended x" by blast
  from follows_answered [OF assms this, of a] obtain c l where
    c: "hand_of (cy_phase s) c" and an: "with_reply a s = s\<lparr>cy_calls := (c, Some a) # l\<rparr>" and
    k: "phase_knows (cy_phase s) (with_reply a s) (call_made c (machine_of p l))" and st: "state_knows sent0 s (call_made c (machine_of p l))" and
    l: "protocol_kept p ((c, Some a) # l)" by blast
  let ?g = "call_made c (machine_of p l)" and ?t = "with_reply a s"
  have t: "cy_phase ?t = cy_phase s" "cy_calls ?t = (c, Some a) # l" "state_knows sent0 ?t ?g" using an st by (simp_all add: state_knows_def)
  have log: "protocol_kept p (cy_calls ?t)" "machine_of p (cy_calls ?t) = reply_seen p c a ?g" using l t(2) by (simp_all add: Let_def)
  have set: "settled p sent0 ?t (reply_seen p c a ?g)" if "c \<noteq> CheckHealth" using log reply_state [OF t(3) that] by (simp add: settled_def)
  note k' = k [folded t(1)] and c' = c [folded t(1)]
  note by_group = before_lease_follows [OF set c' k'] take_over_follows [OF set c' k'] await_engine_follows [OF log t(3) c' k']
    submit_job_follows [OF set c' k'] follow_job_follows [OF set c' k'] stop_engine_follows [OF set c' k'] restore_llm_follows [OF set c' k']
    give_lease_back_follows [OF set c' k']
  show ?thesis using c False t(1)
    by (cases "cy_phase s") (auto simp: cycle_step_def Let_def hand_of_def by_group)
qed

lemma run_follows: "follows p sent0 s \<Longrightarrow> follows p sent0 (fold (cycle_step e p) as s)"
  by (induction as arbitrary: s) (simp_all add: cycle_step_follows)

lemma start_follows: "queue_sound store \<Longrightarrow> follows p (ms_submitted store) (cycle_start p store)"
  by (simp add: cycle_start_def call_def follows_def machine_of.simps Let_def call_made_def may_call_def state_knows_def phase_knows_def
      hand_of_def unused_machine_def)

text \<open>C39: a media run follows the protocol of the shared machine, whatever its calls answer and however often they fail. The LLM is
  stopped at most once, with its lease owned and its container unchanged; the engine is started only behind the stopped LLM; each job is
  submitted at most once, to a ready engine without work; the engine is stopped only without work or if it never came up; the LLM
  is started again only behind the stopped engine. A run ends with the LLM verified and readmitted, or never stopped, or asks for
  attention.\<close>

theorem media_run_keeps_the_protocol:
  "case run_cycle e p as (fold (media_run key_hash print prepare) steps empty_store) of s \<Rightarrow>
     protocol_kept p (cy_calls s) \<and> queue_sound (cy_store s) \<and> ended_well (cy_phase s) (cy_error s) (machine_of p (cy_calls s))"
proof -
  let ?store = "fold (media_run key_hash print prepare) steps empty_store"
  have sound: "queue_sound s \<Longrightarrow> queue_sound (fold (media_run key_hash print prepare) steps s)" for s
    by (induction steps arbitrary: s) (simp_all add: media_run_sound)
  have "queue_sound ?store" by (rule sound) (simp add: empty_store_def queue_sound_def)
  then have "follows p (ms_submitted ?store) (run_cycle e p as ?store)" unfolding run_cycle_def by (intro run_follows start_follows)
  then show ?thesis by (cases "cy_phase (run_cycle e p as ?store)") (auto simp: follows_def state_knows_def phase_knows_def ended_well_def)
qed

text \<open>An ACE-Step submission whose answer is lost leaves a job without a native identifier, and no later observation asks about it:
  the run waits for ever, with the LLM stopped.\<close>

lemma lost_submission_waits_for_ever:
  assumes "cy_phase s = AtObservePause" "get_job (me_world e) (cy_active s) (cy_store s) = Some j" "mj_state j = JUncertain" "mj_native j = None"
    "list_all (\<lambda>a. a = CallDone) as"
  shows "cy_phase (fold (cycle_step e p) as s) = AtObservePause"
  using assms
proof (induction as arbitrary: s)
  case (Cons a as)
  have kept: "cy_store (with_reply CallDone s) = cy_store s" "cy_active (with_reply CallDone s) = cy_active s" "cy_phase (with_reply CallDone s) = cy_phase s"
    by (simp_all add: with_reply_def split: list.split option.split)
  have "cycle_step e p CallDone s = call PauseCycle AtObservePause (with_reply CallDone s)"
    using Cons.prems kept by (simp add: cycle_step_def follow_job_def observe_job_def observe_whom_def look_at_job_def)
  then show ?case using Cons.IH [of "cycle_step e p CallDone s"] Cons.prems kept by (simp add: call_def)
qed simp

text \<open>A run with one video job that returns the LLM.\<close>

definition sample_box :: "js \<Rightarrow> container" where
  "sample_box running = \<lparr>cn_id = JStr ''c'', cn_image = JStr ''i'', cn_config = JNull, cn_host = [], cn_mounts = [], cn_running = running, cn_started = JNull\<rparr>"

definition sample_plan :: media_plan where
  "sample_plan = \<lparr>mp_kind = ComfyUi, mp_profile = JStr ''p'', mp_image = JStr ''i'', mp_worker = ''w'', mp_operation = ''v'', mp_ids = [''v'']\<rparr>"

definition sample_env :: media_env where
  "sample_env = \<lparr>me_world = \<lparr>mw_folder = \<lambda>_. Unreadable, mw_failure = \<lambda>_. None, mw_advice = \<lambda>_. None\<rparr>, me_now = 0, me_inputs = \<lambda>_. Some [],
     me_catalog = \<lambda>_ _. None, me_intent = True, me_batches = False, me_digest = \<lambda>_ _. ''d''\<rparr>"

definition sample_store :: media_store where
  "sample_store = \<lparr>ms_jobs = [new_media_job 0 ''v'' Video (JObj []) NormalPrio ''h'' ''f''], ms_collecting = [], ms_submitted = []\<rparr>"

definition sample_seen :: recovery_seen where
  "sample_seen = \<lparr>rv_profile = JStr ''p'', rv_listener = JBool True, rv_fault = JNull, rv_instance = JStr ''d''\<rparr>"

definition sample_queue :: js where
  "sample_queue = JObj [(''queue_running'', JArr []), (''queue_pending'', JArr [])]"

definition sample_replies :: "media_reply list" where
  "sample_replies = (let up = sample_box (JBool True); off = sample_box (JBool False) in
     [RecoverySeen sample_seen, BoxSeen up, BoxSeen off, CallDone, LeaseSeen True, BoxSeen up, BoxSeen off, CallDone, BoxSeen off, CallDone, CallDone,
      EngineSaid JNull, EngineSaid JNull, EngineSaid sample_queue, LeaseSeen True, Submission (Receipt ''n''),
      Observation \<lparr>ob_state = ''completed'', ob_scope = None, ob_error = None, ob_result = None\<rparr>, Collected JNull,
      LeaseSeen True, BoxSeen up, EngineSaid sample_queue, CallDone, BoxSeen off, BoxSeen off, CallDone, RecoverySeen sample_seen, CallDone, LeaseSeen True])"

lemma sample_run_returns: "cy_phase (run_cycle sample_env sample_plan sample_replies sample_store) = Ended ReturnedLlm"
  by code_simp

end
