(* ===== verification/Spec2Isabelle.thy ===== *)
theory Spec2Isabelle
  imports Gate_Properties Continuity_Door Usage_Observer Fault_Evidence Engine_Attribution Body_Capture Agent_Authority Fleet_Admission Recovery_Safety Recovery_Status Fleet_Reader Attribution_Owners Media_Once Engine_Timing Service_Cutover Operation_Safety Routing_Shadow Service_Lifecycle Cache_Continuity Vision_Recovery Forwarding_Safety Queued_Safety Request_Deadline Patient_Safety Alias_Safety Throughput_Peak Worker_Registry Enrollment_Safety Media_Safety
begin

text \<open>
  Dwarf Star Gate (\<open>ds4-gateway/\<close>): a gateway that admits HTTP inference requests, places every
  conversation on one model server and forwards one request of a conversation at a time.
\<close>

end
